(* ===== verification/Prelude.thy ===== *)
theory Prelude
  imports Complex_Main "HOL-Library.Log_Nat" "HOL-Library.Word"
begin

text \<open>
  Shared vocabulary of the development: the named collections that the component
  theories fill (\<open>dbl_order\<close>: order facts of the double type, \<open>dbl_ops\<close>: its
  arithmetic, \<open>cfg\<close>: the compile-time trading constants), the types every component
  uses, and generic lemmas on integer powers of two, lists, options and 64-bit words.
\<close>

named_theorems dbl_order \<open>order facts of the double type\<close>
named_theorems dbl_ops \<open>arithmetic facts of the double type\<close>
named_theorems dbl_eval \<open>evaluation of double arithmetic on numerals by the simplifier\<close>
named_theorems cfg \<open>unfolding of compile-time trading constants\<close>
named_theorems model_defs \<open>definitions of a component that its proofs unfold together\<close>

type_synonym u64 = "64 word"
type_synonym u32 = "32 word"
type_synonym u8 = "8 word"
type_synonym usize = "64 word"

section \<open>Integer powers of two\<close>

abbreviation pow2 :: "int \<Rightarrow> rat" where
  "pow2 e \<equiv> 2 powi e"

lemma pow2_pos [simp]: "0 < pow2 e"
  by simp

lemma pow2_nz [simp]: "pow2 e \<noteq> 0"
  by simp

lemma pow2_add: "pow2 (a + b) = pow2 a * pow2 b"
  by (simp add: power_int_add)

lemma pow2_less_iff: "pow2 a < pow2 b \<longleftrightarrow> a < b"
proof
  show "a < b \<Longrightarrow> pow2 a < pow2 b" by (rule power_int_strict_increasing) simp_all
  show "a < b" if "pow2 a < pow2 b"
  proof (rule ccontr)
    assume "\<not> a < b"
    then have "pow2 b \<le> pow2 a" by (intro power_int_increasing) simp_all
    with that show False by simp
  qed
qed

lemma pow2_le_iff: "pow2 a \<le> pow2 b \<longleftrightarrow> a \<le> b"
  using pow2_less_iff [of b a] by (simp add: not_less [symmetric])

lemma pow2_mono: "a \<le> b \<Longrightarrow> pow2 a \<le> pow2 b"
  by (simp add: pow2_le_iff)

lemma pow2_nonneg_int: "0 \<le> k \<Longrightarrow> pow2 k = of_int (2 ^ nat k)"
  by (simp add: power_int_def)

lemma pow2_neg_int: "\<not> 0 \<le> k \<Longrightarrow> pow2 k = 1 / of_int (2 ^ nat (- k))"
  using pow2_nonneg_int [of "- k"] power_int_minus [of "2 :: rat" "- k"] by (simp add: field_simps)

lemma pow2_between_unique:
  assumes "pow2 a \<le> x" "x < pow2 (a + 1)" "pow2 b \<le> x" "x < pow2 (b + 1)"
  shows "a = b"
proof -
  have "pow2 a < pow2 (b + 1)" "pow2 b < pow2 (a + 1)" using assms by linarith+
  then show ?thesis by (simp add: pow2_less_iff)
qed

section \<open>Lists and options\<close>

lemma length_filter_mono: "(\<And>x. x \<in> set xs \<Longrightarrow> P x \<Longrightarrow> Q x) \<Longrightarrow> length (filter P xs) \<le> length (filter Q xs)"
  by (induction xs) auto

lemma fold_invar: "(\<And>x e. P e \<Longrightarrow> P (f x e)) \<Longrightarrow> P e \<Longrightarrow> P (fold f xs e)"
  by (induction xs arbitrary: e) auto

lemma fold_invar_set: "P e \<Longrightarrow> (\<And>x e. x \<in> set xs \<Longrightarrow> P e \<Longrightarrow> P (f x e)) \<Longrightarrow> P (fold f xs e)"
  by (induction xs arbitrary: e) auto

lemma distinct_subset_length:
  assumes "distinct xs" "set xs \<subseteq> set ys"
  shows "length xs \<le> length ys"
  using card_mono [OF finite_set assms(2)] distinct_card [OF assms(1)] card_length [of ys] by simp

lemma length_filter_update_True:
  assumes "i < length xs" "\<not> P (xs ! i)" "P y"
  shows "length (filter P (xs[i := y])) = Suc (length (filter P xs))"
proof -
  have "xs = take i xs @ xs ! i # drop (Suc i) xs" using assms(1) by (rule id_take_nth_drop)
  then have "filter P xs = filter P (take i xs) @ filter P (drop (Suc i) xs)"
    using assms(2) by (metis filter.simps(2) filter_append)
  then show ?thesis using assms by (simp add: upd_conv_take_nth_drop)
qed

lemma length_filter_update_False:
  assumes "i < length xs" "P (xs ! i)" "\<not> P y"
  shows "Suc (length (filter P (xs[i := y]))) = length (filter P xs)"
proof -
  have "xs = take i xs @ xs ! i # drop (Suc i) xs" using assms(1) by (rule id_take_nth_drop)
  then have "filter P xs = filter P (take i xs) @ xs ! i # filter P (drop (Suc i) xs)"
    using assms(2) by (metis filter.simps(2) filter_append)
  then show ?thesis using assms by (simp add: upd_conv_take_nth_drop)
qed

section \<open>64-bit words\<close>

lemma unat_u64_less: "unat (x :: u64) < 2 ^ 64"
  using unsigned_less [of x] by simp

lemma unat_sub_u64:
  "unat ((x :: u64) - y) = (if y \<le> x then unat x - unat y else 2 ^ 64 + unat x - unat y)"
proof (cases "y \<le> x")
  case True
  then show ?thesis by (simp add: unat_sub)
next
  case False
  then have lt: "x < y" by simp
  then have "unat x < unat y" by (simp add: word_less_nat_alt)
  moreover have "unat (x - y) = (if unat y \<le> unat x then unat x - unat y else unat x + 2 ^ 64 - unat y)"
    by (simp add: unat_sub_if')
  ultimately show ?thesis using False by simp
qed

end
