(* ===== verification/Binary64.thy ===== *)
theory Binary64
  imports Prelude
begin

text \<open>
  IEEE 754 binary64, the C++ \<open>double\<close> of every price, quantity and premium of the
  program. A value is a NaN, a signed infinity or a finite rational; every operation
  computes exactly and rounds once, to nearest with ties to even, with gradual underflow
  (least exponent -1074) and overflow to an infinity (at \<open>2 ^ 1024\<close>). Comparisons with a
  NaN are false, as in C++. The sign of a zero is the one thing not represented: both
  zeros are \<open>Fin 0\<close>, and a division by zero takes the divisor as the positive zero.

  The locale \<open>rounding\<close> states what the arithmetic needs from a rounding function; it is
  interpreted on \<open>rnd\<close>, and the sign and monotonicity facts of the operations rest on it.
\<close>

section \<open>Rounding to 53 bits\<close>

text \<open>The exponent of the leading bit of a positive rational.\<close>

definition ilog2 :: "rat \<Rightarrow> int" where
  "ilog2 x = (case quotient_of x of (n, d) \<Rightarrow>
     let k = bitlen n - bitlen d in if pow2 k \<le> x then k else k - 1)"

text \<open>Round a rational to the nearest integer, ties to even.\<close>

definition rne :: "rat \<Rightarrow> int" where
  "rne y = (let f = \<lfloor>y\<rfloor>; d = y - of_int f in
     if d < 1/2 then f else if 1/2 < d then f + 1 else if even f then f else f + 1)"

text \<open>The exponent of the last bit kept.\<close>

definition ulp_exp :: "rat \<Rightarrow> int" where
  "ulp_exp x = max (ilog2 \<bar>x\<bar> - 52) (- 1074)"

definition rnd :: "rat \<Rightarrow> rat" where
  "rnd x = (if x = 0 then 0
     else let e = ulp_exp x in of_int (rne (x / pow2 e)) * pow2 e)"

lemma bitlen_pow2_bounds:
  assumes "0 < n"
  shows "pow2 (bitlen n - 1) \<le> of_int n" "of_int n < pow2 (bitlen n)"
proof -
  have b: "2 ^ nat (bitlen n - 1) \<le> n \<and> n < 2 ^ nat (bitlen n)"
    using assms bitlen_bounds by blast
  have p: "0 < bitlen n"
    using assms bitlen_nonneg [of n] bitlen_eq_zero_iff [of n] by linarith
  have "pow2 (bitlen n - 1) = of_int (2 ^ nat (bitlen n - 1))"
    using p by (intro pow2_nonneg_int) simp
  then show "pow2 (bitlen n - 1) \<le> of_int n" using b by (simp only: of_int_le_iff)
  have "pow2 (bitlen n) = of_int (2 ^ nat (bitlen n))"
    using p by (intro pow2_nonneg_int) simp
  then show "of_int n < pow2 (bitlen n)" using b by (simp only: of_int_less_iff)
qed

lemma ilog2_bounds:
  assumes "0 < x"
  shows "pow2 (ilog2 x) \<le> x" "x < pow2 (ilog2 x + 1)"
proof -
  obtain n d where q: "quotient_of x = (n, d)" by fastforce
  have d: "0 < d" using quotient_of_denom_pos [OF q] .
  have x: "x = of_int n / of_int d" using quotient_of_div [OF q] .
  have n: "0 < n" using assms d x by (simp add: zero_less_divide_iff)
  define k where "k = bitlen n - bitlen d"
  have up: "x < pow2 (k + 1)"
  proof -
    have "of_int n < pow2 (bitlen n)" using n by (rule bitlen_pow2_bounds)
    also have "\<dots> = pow2 (k + 1) * pow2 (bitlen d - 1)"
      by (simp add: k_def flip: pow2_add)
    also have "\<dots> \<le> pow2 (k + 1) * of_int d"
      using d bitlen_pow2_bounds(1) by (intro mult_left_mono) auto
    finally show ?thesis using d x by (simp add: pos_divide_less_eq)
  qed
  have lo: "pow2 (k - 1) \<le> x"
  proof -
    have "pow2 (k - 1) * of_int d \<le> pow2 (k - 1) * pow2 (bitlen d)"
      using d bitlen_pow2_bounds(2) [OF d] by (intro mult_left_mono) auto
    also have "\<dots> = pow2 (bitlen n - 1)" by (simp add: k_def flip: pow2_add)
    also have "\<dots> \<le> of_int n" using n by (rule bitlen_pow2_bounds)
    finally show ?thesis using d x by (simp add: pos_le_divide_eq)
  qed
  have "ilog2 x = (if pow2 k \<le> x then k else k - 1)"
    by (simp add: ilog2_def q k_def)
  then show "pow2 (ilog2 x) \<le> x" "x < pow2 (ilog2 x + 1)" using up lo by auto
qed

lemma ilog2_mono: "0 < x \<Longrightarrow> x \<le> y \<Longrightarrow> ilog2 x \<le> ilog2 y"
proof -
  assume "0 < x" "x \<le> y"
  then have "pow2 (ilog2 x) < pow2 (ilog2 y + 1)"
    using ilog2_bounds(1) [of x] ilog2_bounds(2) [of y] by linarith
  then show ?thesis by (simp add: pow2_less_iff)
qed

lemma ulp_exp_mono: "0 < x \<Longrightarrow> x \<le> y \<Longrightarrow> ulp_exp x \<le> ulp_exp y"
  using ilog2_mono [of x y] by (auto simp: ulp_exp_def)

lemma ulp_exp_minus [simp]: "ulp_exp (- x) = ulp_exp x"
  by (simp add: ulp_exp_def)

lemma rne_of_int [simp]: "rne (of_int n) = n"
  by (simp add: rne_def)

lemma rne_bounds: "\<lfloor>y\<rfloor> \<le> rne y" "rne y \<le> \<lfloor>y\<rfloor> + 1"
  by (auto simp: rne_def Let_def)

lemma rne_mono: "x \<le> y \<Longrightarrow> rne x \<le> rne y"
proof -
  assume le: "x \<le> y"
  then have f: "\<lfloor>x\<rfloor> \<le> \<lfloor>y\<rfloor>" by (rule floor_mono)
  show ?thesis
  proof (cases "\<lfloor>x\<rfloor> = \<lfloor>y\<rfloor>")
    case True
    then show ?thesis using le by (auto simp: rne_def Let_def)
  next
    case False
    with f have "\<lfloor>x\<rfloor> + 1 \<le> \<lfloor>y\<rfloor>" by simp
    then show ?thesis using rne_bounds [of x] rne_bounds [of y] by linarith
  qed
qed

lemma rne_error: "\<bar>of_int (rne y) - y\<bar> \<le> 1/2"
proof -
  have "0 \<le> y - of_int \<lfloor>y\<rfloor>" "y - of_int \<lfloor>y\<rfloor> < 1" by linarith+
  then show ?thesis by (auto simp: rne_def Let_def abs_le_iff)
qed

lemma rne_minus: "rne (- y) = - rne y"
proof (cases "y = of_int \<lfloor>y\<rfloor>")
  case True
  then have "rne (- y) = rne (of_int (- \<lfloor>y\<rfloor>))" and "rne y = rne (of_int \<lfloor>y\<rfloor>)" by simp_all
  then show ?thesis by (simp only: rne_of_int)
next
  case False
  then have "of_int \<lfloor>y\<rfloor> < y" "y < of_int \<lfloor>y\<rfloor> + 1" by linarith+
  then have "\<lfloor>- y\<rfloor> = - \<lfloor>y\<rfloor> - 1" by (intro floor_unique) auto
  then show ?thesis by (auto simp: rne_def Let_def)
qed

lemma rnd_0 [simp]: "rnd 0 = 0"
  by (simp add: rnd_def)

lemma rnd_minus: "rnd (- x) = - rnd x"
proof (cases "x = 0")
  case False
  then show ?thesis by (simp add: rnd_def Let_def rne_minus [of "x / pow2 (ulp_exp x)"])
qed simp

lemma scaled_bounds:
  assumes "0 < x"
  shows "x / pow2 (ulp_exp x) < pow2 53"
    and "- 1074 < ulp_exp x \<Longrightarrow> pow2 52 \<le> x / pow2 (ulp_exp x)"
proof -
  let ?e = "ulp_exp x"
  have "x < pow2 (ilog2 x + 1)" using assms by (rule ilog2_bounds)
  also have "\<dots> \<le> pow2 (53 + ?e)" using assms by (intro pow2_mono) (simp add: ulp_exp_def)
  also have "\<dots> = pow2 53 * pow2 ?e" by (rule pow2_add)
  finally show "x / pow2 ?e < pow2 53" by (simp add: pos_divide_less_eq)
  assume "- 1074 < ?e"
  then have "?e = ilog2 x - 52" using assms by (auto simp: ulp_exp_def)
  then have "pow2 52 * pow2 ?e = pow2 (ilog2 x)" using pow2_add [of 52 ?e] by simp
  also have "\<dots> \<le> x" using assms by (rule ilog2_bounds)
  finally show "pow2 52 \<le> x / pow2 ?e" by (simp add: pos_le_divide_eq)
qed

lemma rne_scaled_bounds:
  assumes "0 < x"
  shows "rne (x / pow2 (ulp_exp x)) \<le> 2 ^ 53" "0 \<le> rne (x / pow2 (ulp_exp x))"
    and "- 1074 < ulp_exp x \<Longrightarrow> 2 ^ 52 \<le> rne (x / pow2 (ulp_exp x))"
proof -
  have c: "pow2 53 = of_int (2 ^ 53)" "pow2 52 = of_int (2 ^ 52)" by simp_all
  have "rne (x / pow2 (ulp_exp x)) \<le> rne (of_int (2 ^ 53))"
    using scaled_bounds(1) [OF assms] c by (intro rne_mono) linarith
  then show "rne (x / pow2 (ulp_exp x)) \<le> 2 ^ 53" by (simp only: rne_of_int)
  have "rne (of_int 0) \<le> rne (x / pow2 (ulp_exp x))" using assms by (intro rne_mono) simp
  then show "0 \<le> rne (x / pow2 (ulp_exp x))" by (simp only: rne_of_int)
  assume "- 1074 < ulp_exp x"
  then have "rne (of_int (2 ^ 52)) \<le> rne (x / pow2 (ulp_exp x))"
    using scaled_bounds(2) [OF assms] c by (intro rne_mono) linarith
  then show "2 ^ 52 \<le> rne (x / pow2 (ulp_exp x))" by (simp only: rne_of_int)
qed

lemma rnd_mono_pos:
  assumes "0 < x" "x \<le> y"
  shows "rnd x \<le> rnd y"
proof (cases "ulp_exp x = ulp_exp y")
  case True
  have "rne (x / pow2 (ulp_exp y)) \<le> rne (y / pow2 (ulp_exp y))"
    using assms by (intro rne_mono divide_right_mono) auto
  then show ?thesis using assms True by (simp add: rnd_def Let_def)
next
  case False
  let ?a = "ulp_exp x" and ?b = "ulp_exp y"
  have lt: "?a < ?b" using False ulp_exp_mono [OF assms] by simp
  moreover have "- 1074 \<le> ?a" by (simp add: ulp_exp_def)
  ultimately have nb: "- 1074 < ?b" by simp
  have y: "0 < y" using assms by simp
  have "rnd x \<le> of_int (2 ^ 53) * pow2 ?a"
    using assms(1) rne_scaled_bounds(1) [OF assms(1)]
    by (simp add: rnd_def Let_def del: of_int_power)
  also have "\<dots> = pow2 (53 + ?a)" by (simp add: pow2_add)
  also have "\<dots> \<le> pow2 (52 + ?b)" using lt by (intro pow2_mono) simp
  also have "\<dots> = of_int (2 ^ 52) * pow2 ?b" by (simp add: pow2_add)
  also have "\<dots> \<le> rnd y"
    using y rne_scaled_bounds(3) [OF y nb] by (simp add: rnd_def Let_def del: of_int_power)
  finally show ?thesis .
qed

lemma rnd_pos_nonneg: "0 < x \<Longrightarrow> 0 \<le> rnd x"
  using rne_scaled_bounds(2) [of x] by (simp add: rnd_def Let_def)

lemma rnd_mono: "x \<le> y \<Longrightarrow> rnd x \<le> rnd y"
proof -
  assume le: "x \<le> y"
  consider "0 < x" | "x \<le> 0" "0 \<le> y" | "y < 0" using le by linarith
  then show ?thesis
  proof cases
    case 1
    then show ?thesis using le by (rule rnd_mono_pos)
  next
    case 2
    have "0 \<le> rnd y" using 2 rnd_pos_nonneg [of y] by (cases "y = 0") auto
    moreover have "rnd x \<le> 0" using 2 rnd_pos_nonneg [of "- x"] rnd_minus [of x] by (cases "x = 0") auto
    ultimately show ?thesis by simp
  next
    case 3
    then have "rnd (- y) \<le> rnd (- x)" using le by (intro rnd_mono_pos) auto
    then show ?thesis by (simp add: rnd_minus)
  qed
qed

lemma ulp_exp_ge: "- 1074 \<le> ulp_exp x"
  by (simp add: ulp_exp_def)

text \<open>The numbers that rounding leaves alone: 53-bit multiples of a power of two.\<close>

lemma rnd_exact_pos:
  assumes m: "0 < m" "m \<le> 2 ^ 53" and e: "- 1074 \<le> e"
  shows "rnd (of_int m * pow2 e) = of_int m * pow2 e"
proof -
  let ?x = "of_int m * pow2 e"
  have pos: "0 < ?x" using m by simp
  have int: "\<exists>k. ?x / pow2 u = of_int k" if "u \<le> e" for u
  proof -
    have "?x / pow2 u = of_int m * pow2 (e - u)" by (simp add: power_int_diff)
    also have "\<dots> = of_int (m * 2 ^ nat (e - u))" using that pow2_nonneg_int [of "e - u"] by simp
    finally show ?thesis by blast
  qed
  have "\<exists>k. ?x / pow2 (ulp_exp ?x) = of_int k"
  proof (cases "m = 2 ^ 53")
    case False
    with m have "of_int m < (of_int (2 ^ 53) :: rat)" by (simp only: of_int_less_iff)
    then have "?x < pow2 53 * pow2 e" by simp
    then have "pow2 (ilog2 ?x) < pow2 (53 + e)"
      using ilog2_bounds(1) [OF pos] by (simp only: pow2_add)
    then have "ilog2 ?x < 53 + e" by (simp only: pow2_less_iff)
    then have "ulp_exp ?x \<le> e" using e pos by (simp add: ulp_exp_def)
    then show ?thesis by (rule int)
  next
    case True
    then have x: "?x = pow2 (53 + e)" by (simp add: pow2_add)
    have "ilog2 ?x = 53 + e"
      using ilog2_bounds [OF pos] x pow2_less_iff
      by (intro pow2_between_unique [of _ ?x]) simp_all
    then have "ulp_exp ?x = e + 1" using e pos by (simp add: ulp_exp_def)
    moreover have "?x / pow2 (e + 1) = of_int (2 ^ 52)" using x by (simp add: pow2_add)
    ultimately show ?thesis by metis
  qed
  then obtain k where k: "?x / pow2 (ulp_exp ?x) = of_int k" by blast
  then have "rnd ?x = of_int k * pow2 (ulp_exp ?x)"
    using pos m(1) by (simp only: rnd_def Let_def rne_of_int) simp
  also have "\<dots> = ?x / pow2 (ulp_exp ?x) * pow2 (ulp_exp ?x)" by (simp only: k)
  also have "\<dots> = ?x" by simp
  finally show ?thesis .
qed

lemma rnd_exact: "\<bar>m\<bar> \<le> 2 ^ 53 \<Longrightarrow> - 1074 \<le> e \<Longrightarrow> rnd (of_int m * pow2 e) = of_int m * pow2 e"
  using rnd_exact_pos [of m e] rnd_exact_pos [of "- m" e] rnd_minus [of "of_int m * pow2 e"]
  by (cases m "0 :: int" rule: linorder_cases) auto

lemma rnd_of_int: "\<bar>m\<bar> \<le> 2 ^ 53 \<Longrightarrow> rnd (of_int m) = of_int m"
  using rnd_exact [of m 0] by simp

lemma rnd_form: "\<exists>m e. rnd x = of_int m * pow2 e \<and> \<bar>m\<bar> \<le> 2 ^ 53 \<and> - 1074 \<le> e"
proof -
  have pos: "\<exists>m e. rnd y = of_int m * pow2 e \<and> \<bar>m\<bar> \<le> 2 ^ 53 \<and> - 1074 \<le> e" if "0 < y" for y
    using rne_scaled_bounds(1,2) [OF that] ulp_exp_ge [of y] that
    by (intro exI [of _ "rne (y / pow2 (ulp_exp y))"] exI [of _ "ulp_exp y"]) (simp add: rnd_def Let_def)
  consider "x = 0" | "0 < x" | "0 < - x" by linarith
  then show ?thesis
  proof cases
    case 1
    then show ?thesis by (intro exI [of _ 0]) auto
  next
    case 2
    then show ?thesis by (rule pos)
  next
    case 3
    then obtain m e where "rnd (- x) = of_int m * pow2 e" "\<bar>m\<bar> \<le> 2 ^ 53" "- 1074 \<le> e"
      using pos by blast
    then show ?thesis by (intro exI [of _ "- m"] exI [of _ e]) (simp add: rnd_minus)
  qed
qed

lemma rnd_idem [simp]: "rnd (rnd x) = rnd x"
  using rnd_form [of x] rnd_exact by metis

text \<open>Half a unit in the last place bounds the error of one rounding.\<close>

lemma rnd_error: "\<bar>rnd x - x\<bar> \<le> pow2 (ulp_exp x) / 2"
proof (cases "x = 0")
  case False
  let ?e = "ulp_exp x"
  have "rnd x - x = (of_int (rne (x / pow2 ?e)) - x / pow2 ?e) * pow2 ?e"
    using False by (simp add: rnd_def Let_def left_diff_distrib)
  then have "\<bar>rnd x - x\<bar> = \<bar>of_int (rne (x / pow2 ?e)) - x / pow2 ?e\<bar> * pow2 ?e"
    by (simp add: abs_mult)
  also have "\<dots> \<le> 1/2 * pow2 ?e" by (intro mult_right_mono rne_error) simp
  finally show ?thesis by simp
qed simp

text \<open>
  A difference of two doubles never rounds to zero unless they are equal (gradual
  underflow): the difference is a multiple of the least subnormal.
\<close>

lemma rnd_diff_pos:
  assumes "rnd a = a" "rnd b = b" "b < a"
  shows "0 < rnd (a - b)"
proof -
  have mult: "\<exists>k. c = of_int k * pow2 (- 1074)" if r: "rnd c = c" for c
  proof -
    obtain m e where c: "c = of_int m * pow2 e" and e: "- 1074 \<le> e" using rnd_form [of c] r by metis
    have "pow2 e = of_int (2 ^ nat (e + 1074)) * pow2 (- 1074)"
      using e pow2_nonneg_int [of "e + 1074"] pow2_add [of "e + 1074" "- 1074"] by simp
    then have "c = of_int (m * 2 ^ nat (e + 1074)) * pow2 (- 1074)" using c by simp
    then show ?thesis by blast
  qed
  obtain j k where a: "a = of_int j * pow2 (- 1074)" and b: "b = of_int k * pow2 (- 1074)"
    using mult assms by metis
  have "k < j" using assms(3) by (simp add: a b)
  then have "of_int 1 \<le> (of_int (j - k) :: rat)" by (simp only: of_int_le_iff)
  then have "1 * pow2 (- 1074) \<le> of_int (j - k) * pow2 (- 1074)"
    by (intro mult_right_mono) simp_all
  then have "rnd (of_int 1 * pow2 (- 1074)) \<le> rnd (a - b)"
    by (intro rnd_mono) (simp add: a b left_diff_distrib)
  moreover have "rnd (of_int 1 * pow2 (- 1074)) = of_int 1 * pow2 (- 1074)"
    by (rule rnd_exact) simp_all
  ultimately show ?thesis using pow2_pos [of "- 1074"] by linarith
qed

section \<open>What the arithmetic needs from a rounding function\<close>

locale rounding =
  fixes rd :: "rat \<Rightarrow> rat"
  assumes rd_mono: "x \<le> y \<Longrightarrow> rd x \<le> rd y"
    and rd_0: "rd 0 = 0"
    and rd_minus: "rd (- x) = - rd x"
    and rd_idem: "rd (rd x) = rd x"
    and rd_diff: "rd a = a \<Longrightarrow> rd b = b \<Longrightarrow> b < a \<Longrightarrow> 0 < rd (a - b)"
begin

lemma rd_nonneg: "0 \<le> x \<Longrightarrow> 0 \<le> rd x"
  using rd_mono [of 0 x] by (simp add: rd_0)

lemma rd_nonpos: "x \<le> 0 \<Longrightarrow> rd x \<le> 0"
  using rd_mono [of x 0] by (simp add: rd_0)

lemma rd_pos_imp_pos: "0 < rd x \<Longrightarrow> 0 < x"
  using rd_nonpos [of x] by linarith

lemma rd_neg_imp_neg: "rd x < 0 \<Longrightarrow> x < 0"
  using rd_nonneg [of x] by linarith

lemma rd_diff_sign:
  assumes "rd a = a" "rd b = b"
  shows "0 < rd (a - b) \<longleftrightarrow> b < a" "rd (a - b) < 0 \<longleftrightarrow> a < b" "rd (a - b) = 0 \<longleftrightarrow> a = b"
proof -
  have "0 < rd (a - b)" if "b < a" using assms that by (intro rd_diff)
  moreover have "rd (a - b) < 0" if "a < b"
    using rd_diff [OF assms(2,1) that] rd_minus [of "a - b"] by simp
  ultimately show "0 < rd (a - b) \<longleftrightarrow> b < a" "rd (a - b) < 0 \<longleftrightarrow> a < b" "rd (a - b) = 0 \<longleftrightarrow> a = b"
    by (cases a b rule: linorder_cases; auto simp: rd_0)+
qed

lemma rd_mult_mono: "0 \<le> a \<Longrightarrow> b \<le> c \<Longrightarrow> rd (a * b) \<le> rd (a * c)"
  by (intro rd_mono mult_left_mono)

lemma rd_divide_mono: "0 \<le> c \<Longrightarrow> a \<le> b \<Longrightarrow> rd (a / c) \<le> rd (b / c)"
  by (intro rd_mono divide_right_mono)

lemma rd_add_mono: "a \<le> b \<Longrightarrow> c \<le> d \<Longrightarrow> rd (a + c) \<le> rd (b + d)"
  by (intro rd_mono add_mono)

lemma rd_abs: "rd \<bar>x\<bar> = \<bar>rd x\<bar>"
  using rd_nonneg [of x] rd_nonpos [of x] by (cases "0 \<le> x") (simp_all add: rd_minus)

end

interpretation b64: rounding rnd
  by unfold_locales (auto intro: rnd_mono rnd_diff_pos simp: rnd_minus)

section \<open>The double type\<close>

datatype dbl = NaN | Inf (inf_neg: bool) | Fin rat

text \<open>The first magnitude past the finite range, as a numeral for evaluation.\<close>

definition dbl_limit :: rat where
  "dbl_limit = 2 ^ 1024"

lemma dbl_limit_code [code]: "dbl_limit =
  179769313486231590772930519078902473361797697894230657273430081157732675805500963132708477322407536021120113879871393357658789768814416622492847430639474124377767893424865485276302219601246094119453082952085005768838150682342462881473913110540827237163350510684586298239947245938479716304835356329624224137216"
  by (simp add: dbl_limit_def)

lemma dbl_limit_pos [simp]: "0 < dbl_limit"
  by (simp add: dbl_limit_def)

text \<open>A decimal literal of the source, or any exact result before it is stored.\<close>

definition lit :: "rat \<Rightarrow> dbl" where
  "lit x = (let r = rnd x in
     if dbl_limit \<le> r then Inf False else if r \<le> - dbl_limit then Inf True else Fin r)"

definition is_double :: "dbl \<Rightarrow> bool" where
  "is_double x = (case x of Fin q \<Rightarrow> rnd q = q \<and> \<bar>q\<bar> < dbl_limit | _ \<Rightarrow> True)"

fun isfinite :: "dbl \<Rightarrow> bool" where
  "isfinite (Fin x) = True"
| "isfinite y = False"

fun neg :: "dbl \<Rightarrow> bool" where
  "neg NaN = False"
| "neg (Inf s) = s"
| "neg (Fin x) = (x < 0)"

instantiation dbl :: "{zero, one, plus, minus, uminus, times, inverse, ord}"
begin

definition zero_dbl :: dbl where
  "0 = Fin 0"

definition one_dbl :: dbl where
  "1 = Fin 1"

fun uminus_dbl :: "dbl \<Rightarrow> dbl" where
  "- NaN = NaN"
| "- Inf s = Inf (\<not> s)"
| "- Fin x = Fin (- x)"

fun plus_dbl :: "dbl \<Rightarrow> dbl \<Rightarrow> dbl" where
  "Fin x + Fin y = lit (x + y)"
| "NaN + y = NaN"
| "x + NaN = NaN"
| "Inf s + Inf t = (if s = t then Inf s else NaN)"
| "Inf s + Fin y = Inf s"
| "Fin x + Inf t = Inf t"

definition minus_dbl :: "dbl \<Rightarrow> dbl \<Rightarrow> dbl" where
  "x - y = x + (- y)" for x y :: dbl

fun times_dbl :: "dbl \<Rightarrow> dbl \<Rightarrow> dbl" where
  "Fin x * Fin y = lit (x * y)"
| "NaN * y = NaN"
| "x * NaN = NaN"
| "Inf s * Inf t = Inf (s \<noteq> t)"
| "Inf s * Fin y = (if y = 0 then NaN else Inf (s \<noteq> (y < 0)))"
| "Fin x * Inf t = (if x = 0 then NaN else Inf ((x < 0) \<noteq> t))"

fun divide_dbl :: "dbl \<Rightarrow> dbl \<Rightarrow> dbl" where
  "divide_dbl (Fin x) (Fin y) = (if y \<noteq> 0 then lit (x / y) else if x = 0 then NaN else Inf (x < 0))"
| "divide_dbl NaN y = NaN"
| "divide_dbl x NaN = NaN"
| "divide_dbl (Inf s) (Inf t) = NaN"
| "divide_dbl (Inf s) (Fin y) = Inf (s \<noteq> (y < 0))"
| "divide_dbl (Fin x) (Inf t) = Fin 0"

definition inverse_dbl :: "dbl \<Rightarrow> dbl" where
  "inverse_dbl x = divide 1 x"

fun less_eq_dbl :: "dbl \<Rightarrow> dbl \<Rightarrow> bool" where
  "Fin x \<le> Fin y \<longleftrightarrow> x \<le> y"
| "NaN \<le> y \<longleftrightarrow> False"
| "x \<le> NaN \<longleftrightarrow> False"
| "Inf s \<le> Inf t \<longleftrightarrow> s \<or> \<not> t"
| "Inf s \<le> Fin y \<longleftrightarrow> s"
| "Fin x \<le> Inf t \<longleftrightarrow> \<not> t"

fun less_dbl :: "dbl \<Rightarrow> dbl \<Rightarrow> bool" where
  "Fin x < Fin y \<longleftrightarrow> x < y"
| "NaN < y \<longleftrightarrow> False"
| "x < NaN \<longleftrightarrow> False"
| "Inf s < Inf t \<longleftrightarrow> s \<and> \<not> t"
| "Inf s < Fin y \<longleftrightarrow> s"
| "Fin x < Inf t \<longleftrightarrow> \<not> t"

instance
  by standard

end

text \<open>C++ \<open>==\<close>, \<open>std::min\<close>, \<open>std::max\<close>, \<open>std::fabs\<close> and the fused multiply-add.\<close>

fun deq :: "dbl \<Rightarrow> dbl \<Rightarrow> bool" where
  "deq NaN y = False"
| "deq x NaN = False"
| "deq x y = (x = y)"

definition dmin :: "dbl \<Rightarrow> dbl \<Rightarrow> dbl" where
  "dmin a b = (if b < a then b else a)"

definition dmax :: "dbl \<Rightarrow> dbl \<Rightarrow> dbl" where
  "dmax a b = (if a < b then b else a)"

fun fabs :: "dbl \<Rightarrow> dbl" where
  "fabs NaN = NaN"
| "fabs (Inf s) = Inf False"
| "fabs (Fin x) = Fin \<bar>x\<bar>"

fun fma :: "dbl \<Rightarrow> dbl \<Rightarrow> dbl \<Rightarrow> dbl" where
  "fma (Fin a) (Fin b) (Fin c) = lit (a * b + c)"
| "fma a b c = (a * b) + c"

section \<open>Order\<close>

lemma dbl_lt_irrefl [simp]: "\<not> (x :: dbl) < x"
  by (cases x) auto

lemma dbl_lt_le [dbl_order]: "(x :: dbl) < y \<Longrightarrow> x \<le> y"
  by (cases x; cases y) auto

lemma dbl_le_trans [dbl_order]: "(x :: dbl) \<le> y \<Longrightarrow> y \<le> z \<Longrightarrow> x \<le> z"
  by (cases x; cases y; cases z) auto

lemma dbl_le_lt_trans [dbl_order]: "(x :: dbl) \<le> y \<Longrightarrow> y < z \<Longrightarrow> x < z"
  by (cases x; cases y; cases z) auto

lemma dbl_lt_le_trans [dbl_order]: "(x :: dbl) < y \<Longrightarrow> y \<le> z \<Longrightarrow> x < z"
  by (cases x; cases y; cases z) auto

lemma dbl_lt_trans: "(x :: dbl) < y \<Longrightarrow> y < z \<Longrightarrow> x < z"
  using dbl_lt_le dbl_le_lt_trans by blast

lemma dbl_le_refl: "x \<noteq> NaN \<Longrightarrow> (x :: dbl) \<le> x"
  by (cases x) auto

lemma dbl_le_antisym: "(x :: dbl) \<le> y \<Longrightarrow> y \<le> x \<Longrightarrow> x = y"
  by (cases x; cases y) auto

lemma dbl_lt_not_le: "(x :: dbl) < y \<Longrightarrow> \<not> y \<le> x"
  by (cases x; cases y) auto

lemma dbl_not_lt: "x \<noteq> NaN \<Longrightarrow> y \<noteq> NaN \<Longrightarrow> \<not> x < y \<longleftrightarrow> y \<le> (x :: dbl)"
  by (cases x; cases y) auto

lemma dbl_not_le: "x \<noteq> NaN \<Longrightarrow> y \<noteq> NaN \<Longrightarrow> \<not> x \<le> y \<longleftrightarrow> y < (x :: dbl)"
  by (cases x; cases y) auto

lemma dbl_le_num: "(x :: dbl) \<le> y \<Longrightarrow> x \<noteq> NaN \<and> y \<noteq> NaN"
  by (cases x; cases y) auto

lemma dbl_lt_num: "(x :: dbl) < y \<Longrightarrow> x \<noteq> NaN \<and> y \<noteq> NaN"
  by (cases x; cases y) auto

lemma dmin_le: "a \<noteq> NaN \<Longrightarrow> b \<noteq> NaN \<Longrightarrow> dmin a b \<le> a \<and> dmin a b \<le> b"
  by (auto simp: dmin_def dbl_le_refl dbl_lt_le dbl_not_lt)

lemma dmax_ge: "a \<noteq> NaN \<Longrightarrow> b \<noteq> NaN \<Longrightarrow> a \<le> dmax a b \<and> b \<le> dmax a b"
  by (auto simp: dmax_def dbl_le_refl dbl_lt_le dbl_not_lt)

lemma dmin_pos: "(0 :: dbl) < a \<Longrightarrow> 0 < b \<Longrightarrow> 0 < dmin a b"
  by (simp add: dmin_def)

lemma dmin_le_right: "b \<noteq> NaN \<Longrightarrow> dmin a b \<noteq> NaN \<Longrightarrow> dmin a b \<le> b"
  by (auto simp: dmin_def dbl_le_refl dbl_not_lt split: if_splits)

lemma dmax_num: "a \<noteq> NaN \<Longrightarrow> b \<noteq> NaN \<Longrightarrow> dmax a b \<noteq> NaN"
  by (simp add: dmax_def)

section \<open>Arithmetic\<close>

lemma lit_mono: "x \<le> y \<Longrightarrow> lit x \<le> lit y"
  using rnd_mono [of x y] by (auto simp: lit_def Let_def)

lemma lit_num [simp]: "lit x \<noteq> NaN"
  by (simp add: lit_def Let_def)

lemma lit_0 [simp]: "lit 0 = 0"
  by (simp add: lit_def zero_dbl_def not_le)

lemma lit_le_Inf [simp]: "lit x \<le> Inf False" "Inf True \<le> lit x"
  by (simp_all add: lit_def Let_def)

lemma lit_nonneg: "0 \<le> x \<Longrightarrow> 0 \<le> lit x"
  using lit_mono [of 0 x] by simp

lemma lit_nonpos: "x \<le> 0 \<Longrightarrow> lit x \<le> 0"
  using lit_mono [of x 0] by simp

lemma lit_pos_imp: "0 < lit x \<Longrightarrow> 0 < x"
  using lit_nonpos [of x] dbl_lt_not_le by (metis not_less)

lemma is_double_lit [simp]: "is_double (lit x)"
  by (auto simp: lit_def is_double_def Let_def)

lemma lit_id: "is_double (Fin x) \<Longrightarrow> lit x = Fin x"
  by (auto simp: lit_def is_double_def)

lemma is_double_0 [simp]: "is_double 0"
  by (simp add: zero_dbl_def is_double_def)

lemma is_double_add [simp]: "is_double (x + y)"
  by (cases x; cases y) (auto simp: is_double_def [of "Inf _"] is_double_def [of NaN])

lemma is_double_mult [simp]: "is_double (x * y)"
  by (cases x; cases y) (auto simp: is_double_def [of "Inf _"] is_double_def [of NaN])

lemma is_double_sub [simp]: "is_double (x - y)"
  by (simp add: minus_dbl_def)

lemma is_double_div [simp]: "is_double (x / y)"
  by (cases x; cases y) (auto simp: is_double_def [of "Inf _"] is_double_def [of NaN] is_double_def [of "Fin 0"])

lemma dmult_pos_mono [dbl_ops]:
  assumes "0 < a" "0 < b" "b \<le> (c :: dbl)"
  shows "a * b \<le> a * c"
  using assms
  by (cases a; cases b; cases c) (auto simp: zero_dbl_def intro!: lit_mono mult_left_mono)

lemma dmult_nonneg [dbl_ops]: "0 < a \<Longrightarrow> 0 < b \<Longrightarrow> (0 :: dbl) \<le> a * b"
  by (cases a; cases b) (auto simp: zero_dbl_def lit_nonneg [unfolded zero_dbl_def])

lemma dmult_nonneg_fin: "0 \<le> a \<Longrightarrow> 0 \<le> b \<Longrightarrow> isfinite a \<Longrightarrow> isfinite b \<Longrightarrow> (0 :: dbl) \<le> a * b"
  by (cases a; cases b) (auto simp: zero_dbl_def lit_nonneg [unfolded zero_dbl_def])

lemma dadd_nonneg [dbl_ops]: "0 \<le> a \<Longrightarrow> 0 \<le> b \<Longrightarrow> (0 :: dbl) \<le> a + b"
  by (cases a; cases b) (auto simp: zero_dbl_def lit_nonneg [unfolded zero_dbl_def])

lemma dadd_ge_left:
  assumes "is_double a" "0 \<le> b" "a \<noteq> NaN" "a \<noteq> Inf True"
  shows "a \<le> a + b"
proof (cases a)
  case (Fin x)
  then show ?thesis using assms lit_mono [of x] lit_id [of x]
    by (cases b) (auto simp: zero_dbl_def)
qed (use assms in \<open>cases b; auto simp: zero_dbl_def\<close>)+

lemma ddiv_nonneg [dbl_ops]: "0 \<le> a \<Longrightarrow> 0 < b \<Longrightarrow> isfinite a \<Longrightarrow> (0 :: dbl) \<le> a / b"
  by (cases a; cases b) (auto simp: zero_dbl_def lit_nonneg [unfolded zero_dbl_def])

text \<open>A strictly positive quotient or product by a positive double has a positive first operand.\<close>

lemma ddiv_pos_imp: "0 < a / b \<Longrightarrow> 0 < b \<Longrightarrow> (0 :: dbl) < a"
  by (cases a; cases b)
    (auto simp: zero_dbl_def zero_less_divide_iff dest!: lit_pos_imp [unfolded zero_dbl_def] split: if_splits)

lemma dmult_pos_imp: "0 < a * b \<Longrightarrow> 0 < b \<Longrightarrow> (0 :: dbl) < a"
  by (cases a; cases b)
    (auto simp: zero_dbl_def zero_less_mult_iff dest!: lit_pos_imp [unfolded zero_dbl_def] split: if_splits)

lemma dsub_sign:
  assumes "is_double a" "is_double b"
  shows "0 < a - b \<longleftrightarrow> (b < a \<and> isfinite a \<and> isfinite b) \<or> (a = Inf False \<and> b \<noteq> NaN \<and> b \<noteq> Inf False) \<or>
      (b = Inf True \<and> a \<noteq> NaN \<and> a \<noteq> Inf True)"
proof (cases a; cases b)
  fix x y assume ab: "a = Fin x" "b = Fin y"
  have r: "rnd x = x" "rnd y = y" using assms ab by (auto simp: is_double_def)
  have "0 < lit (x - y) \<longleftrightarrow> 0 < rnd (x - y)"
    by (auto simp: lit_def Let_def zero_dbl_def) (use dbl_limit_pos in linarith)+
  then show ?thesis using b64.rd_diff_sign(1) [OF r] ab by (simp add: minus_dbl_def)
qed (auto simp: minus_dbl_def zero_dbl_def)

lemma dsub_pos_imp: "is_double a \<Longrightarrow> is_double b \<Longrightarrow> (0 :: dbl) < a - b \<Longrightarrow> b < a"
  by (cases a; cases b) (auto simp: dsub_sign)

lemma nan_ops [simp]:
  "NaN * x = NaN" "x * NaN = NaN" "NaN / x = NaN" "x / NaN = NaN" "NaN + x = NaN" "x + NaN = NaN"
  "NaN - x = NaN" "x - NaN = NaN" "- NaN = NaN"
  by (cases x; simp add: minus_dbl_def)+

lemma nan_cmp [simp]: "\<not> NaN < x" "\<not> x < NaN" "\<not> NaN \<le> x" "\<not> x \<le> NaN"
  by (cases x; simp)+

lemma dbl_pos_iff: "(0 :: dbl) < x \<longleftrightarrow> x \<noteq> NaN \<and> \<not> x \<le> 0"
  by (cases x) (auto simp: zero_dbl_def)

lemma dadd_commute: "(a :: dbl) + b = b + a"
  by (cases a; cases b) (auto simp: add.commute)

text \<open>The fused \<open>- 1 * x + k\<close> is the subtraction \<open>k - x\<close>.\<close>

lemma fma_minus_one: "is_double x \<Longrightarrow> fma (Fin (- 1)) x k = k - x"
  by (cases x; cases k) (auto simp: minus_dbl_def lit_id is_double_def [of "Fin _"] rnd_minus)

lemma lit_minus: "- lit x = lit (- x)"
  by (auto simp: lit_def Let_def rnd_minus) (use dbl_limit_pos in linarith)+

lemma lit_of_int: "\<bar>m\<bar> \<le> 2 ^ 53 \<Longrightarrow> lit (of_int m) = Fin (of_int m)"
proof -
  assume m: "\<bar>m\<bar> \<le> 2 ^ 53"
  then have "(of_int \<bar>m\<bar> :: rat) \<le> of_int (2 ^ 53)" by (simp only: of_int_le_iff)
  then have "\<bar>of_int m :: rat\<bar> \<le> 2 ^ 53" by simp
  moreover have "2 ^ 53 < dbl_limit" unfolding dbl_limit_def by (intro power_strict_increasing) simp_all
  ultimately have "\<bar>of_int m :: rat\<bar> < dbl_limit" by (rule le_less_trans)
  then show ?thesis using rnd_of_int [OF m] by (auto simp: lit_def abs_less_iff)
qed

lemma lit_numeral_pos: "0 < lit (numeral n)" if "numeral n \<le> (2 ^ 53 :: int)"
  using lit_of_int [of "numeral n"] that by (simp add: zero_dbl_def)

text \<open>Order facts of the operations on positive doubles.\<close>

lemma ddiv_le_one_sign:
  assumes "is_double k" "is_double f" "0 < f" "k \<le> f" "isfinite f"
  shows "(k - f) / f \<le> 0"
proof -
  obtain y where f: "f = Fin y" using assms(5) by (cases f) auto
  have y: "0 < y" using assms(3) f by (simp add: zero_dbl_def)
  show ?thesis
  proof (cases k)
    case (Fin x)
    then have xy: "x \<le> y" using assms(4) f by simp
    have "lit (x - y) \<le> 0" using xy by (intro lit_nonpos) simp
    then show ?thesis using f y Fin
      by (cases "lit (x - y)")
        (auto simp: minus_dbl_def zero_dbl_def divide_nonpos_pos intro!: lit_nonpos [unfolded zero_dbl_def])
  qed (use assms f y in \<open>auto simp: minus_dbl_def zero_dbl_def\<close>)
qed

lemma dmult_mono_fin [dbl_ops]: "0 < a \<Longrightarrow> isfinite a \<Longrightarrow> b \<le> c \<Longrightarrow> a * b \<le> a * (c :: dbl)"
  by (cases a; cases b; cases c) (auto simp: zero_dbl_def intro!: lit_mono mult_left_mono)

lemma dmult_nn: "0 \<le> x \<Longrightarrow> 0 \<le> y \<Longrightarrow> x * y \<noteq> NaN \<Longrightarrow> (0 :: dbl) \<le> x * y"
  by (cases x; cases y) (auto simp: zero_dbl_def lit_nonneg [unfolded zero_dbl_def] split: if_splits)

lemma ddiv_nn: "0 \<le> x \<Longrightarrow> 0 \<le> y \<Longrightarrow> x / y \<noteq> NaN \<Longrightarrow> (0 :: dbl) \<le> x / y"
  by (cases x; cases y) (auto simp: zero_dbl_def lit_nonneg [unfolded zero_dbl_def] split: if_splits)

lemma dmult_num: "x * y \<noteq> NaN \<Longrightarrow> x \<noteq> NaN \<and> y \<noteq> NaN"
  by auto

lemma dadd_num: "x + y \<noteq> NaN \<Longrightarrow> x \<noteq> NaN \<and> y \<noteq> NaN"
  by auto

lemma ddiv_pos_imp0: "0 < a / b \<Longrightarrow> 0 \<le> b \<Longrightarrow> (0 :: dbl) < a"
  by (cases a; cases b)
    (auto simp: zero_dbl_def zero_less_divide_iff dest!: lit_pos_imp [unfolded zero_dbl_def] split: if_splits)

section \<open>Evaluation on numerals\<close>

text \<open>
  Rounding a fraction of two positive integers with integer operations only; the collection
  \<open>dbl_eval\<close> lets the simplifier evaluate closed double expressions.
\<close>

definition rnd_frac :: "int \<Rightarrow> int \<Rightarrow> rat" where
  "rnd_frac n d = (let k = bitlen n - bitlen d;
     e0 = (if (if 0 \<le> k then d * 2 ^ nat k \<le> n else d \<le> n * 2 ^ nat (- k)) then k else k - 1);
     e = max (e0 - 52) (- 1074);
     N = (if 0 \<le> e then n else n * 2 ^ nat (- e));
     D = (if 0 \<le> e then d * 2 ^ nat e else d);
     q = N div D; r = N mod D;
     m = (if 2 * r < D then q else if D < 2 * r then q + 1 else if even q then q else q + 1)
   in if 0 \<le> e then of_int (m * 2 ^ nat e) else of_int m / of_int (2 ^ nat (- e)))"

lemma pow2_le_frac:
  assumes "0 < d"
  shows "pow2 k \<le> of_int n / of_int d \<longleftrightarrow> (if 0 \<le> k then d * 2 ^ nat k \<le> n else d \<le> n * 2 ^ nat (- k))"
proof (cases "0 \<le> k")
  case True
  have "pow2 k \<le> of_int n / of_int d \<longleftrightarrow> of_int (d * 2 ^ nat k) \<le> (of_int n :: rat)"
    using assms True by (simp add: pow2_nonneg_int pos_le_divide_eq mult.commute)
  then show ?thesis using True by (simp only: of_int_le_iff if_True)
next
  case False
  have eq: "pow2 k = 1 / of_int (2 ^ nat (- k))"
    using False by (rule pow2_neg_int)
  have "pow2 k \<le> of_int n / of_int d \<longleftrightarrow> of_int d \<le> (of_int (n * 2 ^ nat (- k)) :: rat)"
    unfolding eq using assms by (simp add: divide_simps mult.commute)
  then show ?thesis using False by (simp only: of_int_le_iff if_False)
qed

lemma ilog2_frac:
  assumes "0 < n" "0 < d"
  shows "ilog2 (of_int n / of_int d) = (let k = bitlen n - bitlen d in
     if (if 0 \<le> k then d * 2 ^ nat k \<le> n else d \<le> n * 2 ^ nat (- k)) then k else k - 1)"
proof -
  let ?x = "of_int n / of_int d :: rat"
  define k where "k = bitlen n - bitlen d"
  have x: "0 < ?x" using assms by simp
  have up: "?x < pow2 (k + 1)"
  proof -
    have "of_int n < pow2 (bitlen n)" using assms(1) by (rule bitlen_pow2_bounds)
    also have "\<dots> = pow2 (k + 1) * pow2 (bitlen d - 1)" by (simp add: k_def flip: pow2_add)
    also have "\<dots> \<le> pow2 (k + 1) * of_int d" using assms bitlen_pow2_bounds(1) by (intro mult_left_mono) auto
    finally show ?thesis using assms by (simp add: pos_divide_less_eq)
  qed
  have lo: "pow2 (k - 1) \<le> ?x"
  proof -
    have "pow2 (k - 1) * of_int d \<le> pow2 (k - 1) * pow2 (bitlen d)"
      using assms bitlen_pow2_bounds(2) [of d] by (intro mult_left_mono) auto
    also have "\<dots> = pow2 (bitlen n - 1)" by (simp add: k_def flip: pow2_add)
    also have "\<dots> \<le> of_int n" using assms(1) by (rule bitlen_pow2_bounds)
    finally show ?thesis using assms by (simp add: pos_le_divide_eq)
  qed
  have "ilog2 ?x = (if pow2 k \<le> ?x then k else k - 1)"
    using ilog2_bounds [OF x] up lo by (intro pow2_between_unique [of _ ?x]) auto
  then show ?thesis using pow2_le_frac [OF assms(2)] by (simp add: k_def Let_def)
qed

lemma rne_frac:
  assumes "0 < D"
  shows "rne (of_int N / of_int D) = (let q = N div D; r = N mod D in
     if 2 * r < D then q else if D < 2 * r then q + 1 else if even q then q else q + 1)"
proof -
  have fl: "\<lfloor>of_int N / of_int D :: rat\<rfloor> = N div D" by (rule floor_divide_of_int_eq)
  have N: "(of_int N :: rat) = of_int (N div D) * of_int D + of_int (N mod D)"
    by (metis div_mult_mod_eq of_int_add of_int_mult)
  have d: "of_int N / of_int D - of_int (N div D) = (of_int (N mod D) / of_int D :: rat)"
    using assms by (subst N) (simp add: field_simps)
  have "of_int (N mod D) / of_int D < (1/2 :: rat) \<longleftrightarrow> of_int (2 * (N mod D)) < (of_int D :: rat)"
    using assms by (simp add: field_simps)
  then have a: "of_int (N mod D) / of_int D < (1/2 :: rat) \<longleftrightarrow> 2 * (N mod D) < D" by (simp only: of_int_less_iff)
  have "(1/2 :: rat) < of_int (N mod D) / of_int D \<longleftrightarrow> (of_int D :: rat) < of_int (2 * (N mod D))"
    using assms by (simp add: field_simps)
  then have b: "(1/2 :: rat) < of_int (N mod D) / of_int D \<longleftrightarrow> D < 2 * (N mod D)" by (simp only: of_int_less_iff)
  show ?thesis unfolding rne_def Let_def fl d a b ..
qed

lemma rnd_frac:
  assumes "0 < n" "0 < d"
  shows "rnd (of_int n / of_int d) = rnd_frac n d"
proof -
  let ?x = "of_int n / of_int d :: rat"
  define e where "e = ulp_exp ?x"
  define N where "N = (if 0 \<le> e then n else n * 2 ^ nat (- e))"
  define D where "D = (if 0 \<le> e then d * 2 ^ nat e else d)"
  have D: "0 < D" using assms by (simp add: D_def)
  have pe: "pow2 e = of_int (2 ^ nat e)" if "0 \<le> e" using that by (rule pow2_nonneg_int)
  have ne: "pow2 e = 1 / of_int (2 ^ nat (- e))" if "\<not> 0 \<le> e"
    using that by (rule pow2_neg_int)
  have sc: "?x / pow2 e = of_int N / of_int D"
    using pe ne by (simp add: N_def D_def)
  have x: "?x \<noteq> 0" "\<bar>?x\<bar> = ?x" using assms by simp_all
  have e': "e = max ((let k = bitlen n - bitlen d in
     if (if 0 \<le> k then d * 2 ^ nat k \<le> n else d \<le> n * 2 ^ nat (- k)) then k else k - 1) - 52) (- 1074)"
    unfolding e_def ulp_exp_def x(2) ilog2_frac [OF assms] ..
  have "rnd ?x = of_int (rne (of_int N / of_int D)) * pow2 e"
    using x sc by (simp add: rnd_def Let_def e_def)
  also have "\<dots> = (if 0 \<le> e then of_int (rne (of_int N / of_int D) * 2 ^ nat e)
      else of_int (rne (of_int N / of_int D)) / of_int (2 ^ nat (- e)))"
    using pe ne by simp
  also have "\<dots> = rnd_frac n d"
    unfolding rne_frac [OF D] unfolding rnd_frac_def Let_def N_def D_def e' Let_def ..
  finally show ?thesis .
qed

lemma rnd_num_eval [dbl_eval]:
  "rnd (numeral a / numeral b) = rnd_frac (numeral a) (numeral b)"
  "rnd (1 / numeral b) = rnd_frac 1 (numeral b)"
  "rnd (numeral a) = rnd_frac (numeral a) 1"
  "rnd 1 = 1"
  "rnd (- x) = - rnd x"
  using rnd_frac [of "numeral a" "numeral b"] rnd_frac [of 1 "numeral b"] rnd_frac [of "numeral a" 1] rnd_of_int [of 1] rnd_minus by simp_all

lemma bitlen_num [dbl_eval]: "bitlen 1 = 1" "bitlen (numeral (Num.Bit0 n)) = bitlen (numeral n) + 1" "bitlen (numeral (Num.Bit1 n)) = bitlen (numeral n) + 1" "bitlen (numeral Num.One) = 1"
  using compute_bitlen [of 1] compute_bitlen [of "numeral (Num.Bit0 n)"] compute_bitlen [of "numeral (Num.Bit1 n)"] by simp_all
lemmas dbl_eval_defs [dbl_eval] = rnd_frac_def lit_def Let_def dbl_limit_code zero_dbl_def one_dbl_def
  minus_dbl_def deq.simps dmin_def dmax_def


end
