(* ===== verification/Chars.thy ===== *)
theory Chars
  imports Binary64
begin

text \<open>
  What the program uses of the C and C++ standard libraries on characters and numbers in text:
  the character classes of the C locale, trimming, \<^verbatim>\<open>std::stoi\<close> and the reading of a double by
  \<^verbatim>\<open>std::from_chars\<close>, on which \<^verbatim>\<open>fast_stod\<close> of \<^verbatim>\<open>include/kimp/core/optimization.hpp\<close> rests.
\<close>

section \<open>Character classes\<close>

definition isalnum :: "char \<Rightarrow> bool" where
  "isalnum c \<longleftrightarrow> (let n = of_char c :: nat in 48 \<le> n \<and> n \<le> 57 \<or> 65 \<le> n \<and> n \<le> 90 \<or> 97 \<le> n \<and> n \<le> 122)"

definition toupper :: "char \<Rightarrow> char" where
  "toupper c = (let n = of_char c :: nat in if 97 \<le> n \<and> n \<le> 122 then char_of (n - 32) else c)"

definition tolower :: "char \<Rightarrow> char" where
  "tolower c = (let n = of_char c :: nat in if 65 \<le> n \<and> n \<le> 90 then char_of (n + 32) else c)"

definition isspace :: "char \<Rightarrow> bool" where
  "isspace c \<longleftrightarrow> (let n = of_char c :: nat in n = 32 \<or> 9 \<le> n \<and> n \<le> 13)"

definition isdigit :: "char \<Rightarrow> bool" where
  "isdigit c \<longleftrightarrow> (let n = of_char c :: nat in 48 \<le> n \<and> n \<le> 57)"

definition trim :: "string \<Rightarrow> string" where
  "trim s = dropWhile isspace (rev (dropWhile isspace (rev s)))"

section \<open>Numbers\<close>

definition digits_value :: "string \<Rightarrow> int" where
  "digits_value ds = fold (\<lambda>c n. 10 * n + (int (of_char c) - 48)) ds 0"

text \<open>\<^verbatim>\<open>std::stoi\<close>; an exception is \<open>None\<close>.\<close>

definition stoi :: "string \<Rightarrow> int option" where
  "stoi s =
    (let s = dropWhile isspace s;
         (negative, rest) = (case s of c # r \<Rightarrow> if c = CHR ''-'' then (True, r) else if c = CHR ''+'' then (False, r) else (False, s)
           | [] \<Rightarrow> (False, s));
         digits = takeWhile isdigit rest
     in if digits = [] then None
        else let v = digits_value digits; v = (if negative then - v else v)
          in if - (2 ^ 31) \<le> v \<and> v < 2 ^ 31 then Some v else None)"

text \<open>The exponent of a number, 0 when there is none.\<close>

definition exponent_of :: "string \<Rightarrow> int" where
  "exponent_of s =
    (case s of
       c # r \<Rightarrow>
         if c = CHR ''e'' \<or> c = CHR ''E''
         then let (negative, rest) = (case r of d # t \<Rightarrow> if d = CHR ''-'' then (True, t) else if d = CHR ''+'' then (False, t) else (False, r)
                | [] \<Rightarrow> (False, r));
                  v = digits_value (takeWhile isdigit rest)
           in if negative then - v else v
         else 0
     | [] \<Rightarrow> 0)"

definition scale10 :: "rat \<Rightarrow> int \<Rightarrow> rat" where
  "scale10 q e = (if 0 \<le> e then q * 10 ^ nat e else q / 10 ^ nat (- e))"

text \<open>
  \<^verbatim>\<open>std::from_chars\<close> for doubles: the longest number at the front of the text, rounded to the nearest
  double; \<open>None\<close> when there is no number or it is out of range.
\<close>

definition from_chars :: "string \<Rightarrow> dbl option" where
  "from_chars s =
    (let (negative, r) = (case s of c # t \<Rightarrow> if c = CHR ''-'' then (True, t) else (False, s) | [] \<Rightarrow> (False, s));
         whole = takeWhile isdigit r;
         r1 = dropWhile isdigit r;
         (frac, r2) = (case r1 of c # t \<Rightarrow> if c = CHR ''.'' then (takeWhile isdigit t, dropWhile isdigit t) else ([], r1)
           | [] \<Rightarrow> ([], r1))
     in if whole = [] \<and> frac = []
        then let w = map tolower (take 3 r) in
          if w = ''inf'' then Some (Inf negative) else if w = ''nan'' then Some NaN else None
        else let q = scale10 (of_int (digits_value (whole @ frac))) (exponent_of r2 - int (length frac));
                 v = lit (if negative then - q else q)
          in if \<not> isfinite v \<or> v = 0 \<and> q \<noteq> 0 then None else Some v)"

definition fast_stod :: "string \<Rightarrow> dbl \<Rightarrow> dbl" where
  "fast_stod sv default_val =
    (if sv = [] then default_val else case from_chars sv of Some result \<Rightarrow> result | None \<Rightarrow> default_val)"

end
