(* ===== verification/Types.thy ===== *)
theory Types
  imports Binary64
begin

text \<open>
  The core data types (\<^verbatim>\<open>include/kimp/core/types.hpp\<close>): exchange and order enumerations,
  the fixed-size symbol identifier with its venue formats and hash, tickers, order books,
  positions, orders, signals, and the compile-time trading configuration. Latency-trace
  fields (\<^verbatim>\<open>trace_id\<close>, \<^verbatim>\<open>trace_start_ns\<close>, \<^verbatim>\<open>trace_symbol\<close>) carry no trading state and
  are left out. A wall-clock time point is an \<open>int\<close>, a steady-clock millisecond count a
  64-bit word.
\<close>

unbundle bit_operations_syntax

type_synonym systime = int

section \<open>Enumerations\<close>

datatype exchange = Bithumb | Bybit | OKX | Upbit | ExchangeCount

fun exchange_id :: "exchange \<Rightarrow> nat" where
  "exchange_id Bithumb = 0"
| "exchange_id Bybit = 1"
| "exchange_id OKX = 2"
| "exchange_id Upbit = 3"
| "exchange_id ExchangeCount = 4"

fun exchange_name :: "exchange \<Rightarrow> string" where
  "exchange_name Bithumb = ''Bithumb''"
| "exchange_name Bybit = ''Bybit''"
| "exchange_name OKX = ''OKX''"
| "exchange_name Upbit = ''Upbit''"
| "exchange_name ExchangeCount = ''Unknown''"

definition is_korean_exchange :: "exchange \<Rightarrow> bool" where
  "is_korean_exchange ex = (ex = Bithumb \<or> ex = Upbit)"

definition is_foreign_exchange :: "exchange \<Rightarrow> bool" where
  "is_foreign_exchange ex = (ex = Bybit \<or> ex = OKX)"

datatype side = Buy | Sell

fun side_name :: "side \<Rightarrow> string" where
  "side_name Buy = ''Buy''"
| "side_name Sell = ''Sell''"

datatype order_type = Market | Limit

datatype order_status = New | PartiallyFilled | Filled | Cancelled | Rejected | Expired

section \<open>Symbol identifiers\<close>

text \<open>Two zero-padded character arrays, of 12 and 8 bytes; the last byte stays zero.\<close>

abbreviation NUL :: char where
  "NUL \<equiv> CHR 0x00"

record symbol_id =
  sym_base :: "char list"
  sym_quote :: "char list"

definition symbol_default :: symbol_id where
  "symbol_default = \<lparr>sym_base = replicate 12 NUL, sym_quote = replicate 8 NUL\<rparr>"

definition copy_n_padded :: "nat \<Rightarrow> string \<Rightarrow> char list" where
  "copy_n_padded cap s = (let n = min (length s) (cap - 1) in take n s @ replicate (cap - n) NUL)"

definition set_base :: "string \<Rightarrow> symbol_id \<Rightarrow> symbol_id" where
  "set_base b s = s\<lparr>sym_base := copy_n_padded 12 b\<rparr>"

definition set_quote :: "string \<Rightarrow> symbol_id \<Rightarrow> symbol_id" where
  "set_quote q s = s\<lparr>sym_quote := copy_n_padded 8 q\<rparr>"

definition SymbolId :: "string \<Rightarrow> string \<Rightarrow> symbol_id" where
  "SymbolId b q = set_quote q (set_base b symbol_default)"

definition get_base :: "symbol_id \<Rightarrow> string" where
  "get_base s = takeWhile (\<lambda>c. c \<noteq> NUL) (sym_base s)"

definition get_quote :: "symbol_id \<Rightarrow> string" where
  "get_quote s = takeWhile (\<lambda>c. c \<noteq> NUL) (sym_quote s)"

definition symbol_to_string :: "symbol_id \<Rightarrow> string" where
  "symbol_to_string s = get_base s @ ''/'' @ get_quote s"

definition to_bithumb_format :: "symbol_id \<Rightarrow> string" where
  "to_bithumb_format s = get_base s @ ''_'' @ get_quote s"

definition split_at :: "char \<Rightarrow> string \<Rightarrow> (string \<times> string) option" where
  "split_at c sv = (if c \<in> set sv
     then Some (takeWhile (\<lambda>x. x \<noteq> c) sv, tl (dropWhile (\<lambda>x. x \<noteq> c) sv)) else None)"

definition from_bithumb_format :: "string \<Rightarrow> symbol_id" where
  "from_bithumb_format sv = (case split_at (CHR ''_'') sv of
       None \<Rightarrow> symbol_default
     | Some (b, q) \<Rightarrow> set_quote q (set_base b symbol_default))"

definition to_upbit_format :: "symbol_id \<Rightarrow> string" where
  "to_upbit_format s = get_quote s @ ''-'' @ get_base s"

definition from_upbit_format :: "string \<Rightarrow> symbol_id" where
  "from_upbit_format sv = (case split_at (CHR ''-'') sv of
       None \<Rightarrow> symbol_default
     | Some (q, b) \<Rightarrow> set_base b (set_quote q symbol_default))"

definition to_bybit_format :: "symbol_id \<Rightarrow> string" where
  "to_bybit_format s = get_base s @ get_quote s"

text \<open>\<^verbatim>\<open>memcpy\<close> of bytes into an integer, on the little-endian targets of the build.\<close>

fun le_word :: "char list \<Rightarrow> u64" where
  "le_word [] = 0"
| "le_word (c # cs) = of_char c + 256 * le_word cs"

definition symbol_hash :: "symbol_id \<Rightarrow> u64" where
  "symbol_hash s =
    (let h1 = le_word (take 8 (sym_base s));
         h3 = le_word (take 4 (drop 8 (sym_base s)));
         h2 = le_word (take 8 (sym_quote s));
         h1 = h1 XOR (h3 * 0x9E3779B97F4A7C15);
         h1 = h1 XOR (h2 * 0xBF58476D1CE4E5B9);
         h1 = h1 XOR drop_bit 31 h1;
         h1 = h1 * 0xBF58476D1CE4E5B9
     in h1 XOR drop_bit 27 h1)"

definition is_usdt_krw :: "symbol_id \<Rightarrow> bool" where
  "is_usdt_krw s = (take 4 (sym_base s) = ''USDT'' \<and> take 3 (sym_quote s) = ''KRW'')"

definition wf_symbol :: "symbol_id \<Rightarrow> bool" where
  "wf_symbol s = (length (sym_base s) = 12 \<and> length (sym_quote s) = 8 \<and>
     sym_base s = copy_n_padded 12 (get_base s) \<and> sym_quote s = copy_n_padded 8 (get_quote s))"

lemma take_While_pad: "NUL \<notin> set s \<Longrightarrow> k \<noteq> 0 \<Longrightarrow> takeWhile (\<lambda>c. c \<noteq> NUL) (s @ replicate k NUL) = s"
  by (induction s) (auto simp: takeWhile_eq_Nil_iff gr0_conv_Suc)

lemma length_copy_n_padded [simp]: "0 < n \<Longrightarrow> length (copy_n_padded n s) = n"
  by (simp add: copy_n_padded_def Let_def)

lemma takeWhile_copy_n_padded:
  "NUL \<notin> set s \<Longrightarrow> 0 < n \<Longrightarrow> takeWhile (\<lambda>c. c \<noteq> NUL) (copy_n_padded n s) = take (n - 1) s"
proof -
  assume "NUL \<notin> set s" "0 < n"
  then have "NUL \<notin> set (take (min (length s) (n - 1)) s)" "n - min (length s) (n - 1) \<noteq> 0"
    by (auto dest: in_set_takeD)
  from take_While_pad [OF this] show ?thesis by (simp add: copy_n_padded_def Let_def min_def)
qed

lemma copy_n_padded_take [simp]: "copy_n_padded n (take (n - 1) s) = copy_n_padded n s"
  by (simp add: copy_n_padded_def Let_def min_def)

lemma SymbolId_sel [simp]:
  "sym_base (SymbolId b q) = copy_n_padded 12 b" "sym_quote (SymbolId b q) = copy_n_padded 8 q"
  by (simp_all add: SymbolId_def set_base_def set_quote_def)

lemma get_SymbolId:
  "NUL \<notin> set b \<Longrightarrow> get_base (SymbolId b q) = take 11 b"
  "NUL \<notin> set q \<Longrightarrow> get_quote (SymbolId b q) = take 7 q"
  using takeWhile_copy_n_padded [of b 12] takeWhile_copy_n_padded [of q 8]
  by (simp_all add: get_base_def get_quote_def)

lemma copy_take_11 [simp]: "copy_n_padded 12 (take 11 b) = copy_n_padded 12 b"
  using copy_n_padded_take [of 12 b] by simp

lemma copy_take_7 [simp]: "copy_n_padded 8 (take 7 b) = copy_n_padded 8 b"
  using copy_n_padded_take [of 8 b] by simp

lemma split_at_append: "c \<notin> set xs \<Longrightarrow> split_at c (xs @ c # ys) = Some (xs, ys)"
  by (induction xs) (auto simp: split_at_def)

lemma symbol_eqI: "sym_base s = sym_base t \<Longrightarrow> sym_quote s = sym_quote t \<Longrightarrow> (s :: symbol_id) = t"
  by (cases s; cases t) simp

section \<open>Market data, positions, orders, signals\<close>

record ticker =
  tk_exchange :: exchange
  tk_symbol :: symbol_id
  tk_timestamp_ms :: u64
  tk_sequence :: u64
  tk_last :: dbl
  tk_bid :: dbl
  tk_ask :: dbl
  tk_bid_qty :: dbl
  tk_ask_qty :: dbl
  tk_high_24h :: dbl
  tk_low_24h :: dbl
  tk_volume_24h :: dbl

definition ticker_default :: ticker where
  "ticker_default = \<lparr>tk_exchange = Bithumb, tk_symbol = symbol_default, tk_timestamp_ms = 0, tk_sequence = 0, tk_last = 0, tk_bid = 0,
     tk_ask = 0, tk_bid_qty = 0, tk_ask_qty = 0, tk_high_24h = 0, tk_low_24h = 0, tk_volume_24h = 0\<rparr>"

definition ticker_mid_price :: "ticker \<Rightarrow> dbl" where
  "ticker_mid_price t = (tk_bid t + tk_ask t) / lit 2"

definition ticker_spread :: "ticker \<Rightarrow> dbl" where
  "ticker_spread t = tk_ask t - tk_bid t"

record book_level =
  lv_price :: dbl
  lv_quantity :: dbl

text \<open>The top \<open>MAX_LEVELS\<close> levels of each side; the counts say how many are filled in.\<close>

record order_book =
  ob_exchange :: exchange
  ob_symbol :: symbol_id
  ob_timestamp_ms :: u64
  ob_sequence :: u64
  ob_bids :: "book_level list"
  ob_asks :: "book_level list"
  ob_bid_count :: nat
  ob_ask_count :: nat

definition best_bid :: "order_book \<Rightarrow> dbl" where
  "best_bid b = (if 0 < ob_bid_count b then lv_price (ob_bids b ! 0) else 0)"

definition best_ask :: "order_book \<Rightarrow> dbl" where
  "best_ask b = (if 0 < ob_ask_count b then lv_price (ob_asks b ! 0) else 0)"

definition best_bid_qty :: "order_book \<Rightarrow> dbl" where
  "best_bid_qty b = (if 0 < ob_bid_count b then lv_quantity (ob_bids b ! 0) else 0)"

definition best_ask_qty :: "order_book \<Rightarrow> dbl" where
  "best_ask_qty b = (if 0 < ob_ask_count b then lv_quantity (ob_asks b ! 0) else 0)"

definition book_mid_price :: "order_book \<Rightarrow> dbl" where
  "book_mid_price b = (best_bid b + best_ask b) / lit 2"

definition book_spread :: "order_book \<Rightarrow> dbl" where
  "book_spread b = best_ask b - best_bid b"

record position =
  pos_symbol :: symbol_id
  pos_korean_exchange :: exchange
  pos_foreign_exchange :: exchange
  pos_entry_time :: systime
  pos_entry_premium :: dbl
  pos_korean_entry_price :: dbl
  pos_foreign_entry_price :: dbl
  pos_position_size_usd :: dbl
  pos_korean_amount :: dbl
  pos_foreign_amount :: dbl
  pos_is_active :: bool
  pos_exit_time :: systime
  pos_exit_premium :: dbl
  pos_korean_exit_price :: dbl
  pos_foreign_exit_price :: dbl
  pos_realized_pnl_krw :: dbl

definition position_default :: position where
  "position_default =
     \<lparr>pos_symbol = symbol_default, pos_korean_exchange = Bithumb, pos_foreign_exchange = Bithumb,
      pos_entry_time = 0, pos_entry_premium = 0, pos_korean_entry_price = 0,
      pos_foreign_entry_price = 0, pos_position_size_usd = 0, pos_korean_amount = 0,
      pos_foreign_amount = 0, pos_is_active = False, pos_exit_time = 0, pos_exit_premium = 0,
      pos_korean_exit_price = 0, pos_foreign_exit_price = 0, pos_realized_pnl_krw = 0\<rparr>"

record order =
  ord_client_order_id :: u64
  ord_exchange_order_id :: u64
  ord_exchange :: exchange
  ord_symbol :: symbol_id
  ord_side :: side
  ord_type :: order_type
  ord_status :: order_status
  ord_price :: dbl
  ord_quantity :: dbl
  ord_filled_quantity :: dbl
  ord_average_price :: dbl
  ord_id_str :: string
  ord_create_time :: systime
  ord_update_time :: systime

definition order_default :: order where
  "order_default =
     \<lparr>ord_client_order_id = 0, ord_exchange_order_id = 0, ord_exchange = Bithumb, ord_symbol = symbol_default, ord_side = Buy, ord_type = Market,
      ord_status = New, ord_price = 0, ord_quantity = 0, ord_filled_quantity = 0,
      ord_average_price = 0, ord_id_str = [], ord_create_time = 0, ord_update_time = 0\<rparr>"

definition is_complete :: "order \<Rightarrow> bool" where
  "is_complete o' = (ord_status o' = Filled \<or> ord_status o' = Cancelled \<or>
     ord_status o' = Rejected \<or> ord_status o' = Expired)"

text \<open>
  The trace fields of the two signals, which only the latency probe reads, and their time stamp,
  which nothing assigns, are left out.
\<close>

record arbitrage_signal =
  sig_symbol :: symbol_id
  sig_korean_exchange :: exchange
  sig_foreign_exchange :: exchange
  sig_premium :: dbl
  sig_korean_ask :: dbl
  sig_korean_ask_qty :: dbl
  sig_foreign_bid :: dbl
  sig_foreign_bid_qty :: dbl
  sig_match_qty :: dbl
  sig_target_coin_qty :: dbl
  sig_max_tradable_usdt_at_best :: dbl
  sig_gross_edge_pct :: dbl
  sig_net_edge_pct :: dbl
  sig_net_profit_krw :: dbl
  sig_both_can_fill_target :: bool
  sig_usdt_krw_rate :: dbl

record exit_signal =
  xs_symbol :: symbol_id
  xs_korean_exchange :: exchange
  xs_foreign_exchange :: exchange
  xs_premium :: dbl
  xs_korean_bid :: dbl
  xs_foreign_ask :: dbl
  xs_usdt_krw_rate :: dbl

section \<open>Trading configuration\<close>

text \<open>\<^verbatim>\<open>MAX_POSITIONS\<close> is set at run time and is an argument where it is read.\<close>

definition CAPITAL_PER_EXCHANGE_USD :: dbl where [cfg]: "CAPITAL_PER_EXCHANGE_USD = lit 3000"
definition TOTAL_CAPITAL_USD :: dbl where [cfg]: "TOTAL_CAPITAL_USD = CAPITAL_PER_EXCHANGE_USD * lit 2"
definition TARGET_ENTRY_USDT :: dbl where [cfg]: "TARGET_ENTRY_USDT = lit 35"
definition POSITION_SIZE_USD :: dbl where [cfg]: "POSITION_SIZE_USD = CAPITAL_PER_EXCHANGE_USD"
definition ORDER_SIZE_USD :: dbl where [cfg]: "ORDER_SIZE_USD = TARGET_ENTRY_USDT"

definition ENTRY_PREMIUM_THRESHOLD :: dbl where [cfg]: "ENTRY_PREMIUM_THRESHOLD = lit 0"
definition MIN_NET_EDGE_PCT :: dbl where [cfg]: "MIN_NET_EDGE_PCT = lit 0"
definition MIN_ENTRY_NET_PROFIT_KRW :: dbl where [cfg]: "MIN_ENTRY_NET_PROFIT_KRW = lit 600"

definition KOREAN_FEE_EVENTS :: dbl where [cfg]: "KOREAN_FEE_EVENTS = lit 1"
definition FOREIGN_FEE_EVENTS :: dbl where [cfg]: "FOREIGN_FEE_EVENTS = lit 3"
definition BITHUMB_FEE_RATE :: dbl where [cfg]: "BITHUMB_FEE_RATE = lit 0.0004"
definition UPBIT_FEE_RATE :: dbl where [cfg]: "UPBIT_FEE_RATE = lit 0.0005"
definition BYBIT_FEE_RATE :: dbl where [cfg]: "BYBIT_FEE_RATE = lit 0.0010"
definition OKX_FEE_RATE :: dbl where [cfg]: "OKX_FEE_RATE = lit 0.0010"

definition get_korean_fee_rate :: "exchange \<Rightarrow> dbl" where
  "get_korean_fee_rate ex = (if ex = Upbit then UPBIT_FEE_RATE else BITHUMB_FEE_RATE)"

definition get_foreign_fee_rate :: "exchange \<Rightarrow> dbl" where
  "get_foreign_fee_rate ex = (if ex = OKX then OKX_FEE_RATE else BYBIT_FEE_RATE)"

definition BITHUMB_FEE_PCT :: dbl where [cfg]: "BITHUMB_FEE_PCT = BITHUMB_FEE_RATE * lit 100"
definition BYBIT_FEE_PCT :: dbl where [cfg]: "BYBIT_FEE_PCT = BYBIT_FEE_RATE * lit 100"
definition ENTRY_TOTAL_FEE_PCT :: dbl where
  [cfg]: "ENTRY_TOTAL_FEE_PCT = (BITHUMB_FEE_PCT * KOREAN_FEE_EVENTS) + (BYBIT_FEE_PCT * FOREIGN_FEE_EVENTS)"
definition MIN_NET_PROFIT_PCT :: dbl where [cfg]: "MIN_NET_PROFIT_PCT = lit 0"
definition DYNAMIC_EXIT_SPREAD :: dbl where [cfg]: "DYNAMIC_EXIT_SPREAD = ENTRY_TOTAL_FEE_PCT + MIN_NET_PROFIT_PCT"

definition meets_entry_profit_floor :: "dbl \<Rightarrow> bool" where
  "meets_entry_profit_floor net_profit_krw = (MIN_ENTRY_NET_PROFIT_KRW \<le> net_profit_krw)"

definition entry_gate_passes :: "bool \<Rightarrow> dbl \<Rightarrow> dbl \<Rightarrow> dbl \<Rightarrow> bool" where
  "entry_gate_passes both_can_fill_target match_qty net_edge_pct net_profit_krw =
     (both_can_fill_target \<and> 0 < match_qty \<and> MIN_NET_EDGE_PCT < net_edge_pct \<and>
      meets_entry_profit_floor net_profit_krw)"

definition EXIT_PREMIUM_THRESHOLD :: dbl where [cfg]: "EXIT_PREMIUM_THRESHOLD = lit 0.25"
definition MIN_ORDER_KRW :: dbl where [cfg]: "MIN_ORDER_KRW = lit 5000"
definition HEDGE_QUANTITY_TOLERANCE_RATIO :: dbl where [cfg]: "HEDGE_QUANTITY_TOLERANCE_RATIO = lit 0.00005"

definition MAX_QUOTE_AGE_MS :: u64 where [cfg]: "MAX_QUOTE_AGE_MS = 700"
definition MAX_QUOTE_DESYNC_MS :: u64 where [cfg]: "MAX_QUOTE_DESYNC_MS = 350"
definition MAX_KOREAN_SPREAD_PCT :: dbl where [cfg]: "MAX_KOREAN_SPREAD_PCT = lit 1.20"
definition MAX_FOREIGN_SPREAD_PCT :: dbl where [cfg]: "MAX_FOREIGN_SPREAD_PCT = lit 0.40"
definition MAX_QUOTE_AGE_MS_EXIT :: u64 where [cfg]: "MAX_QUOTE_AGE_MS_EXIT = 8000"
definition MAX_QUOTE_DESYNC_MS_EXIT :: u64 where [cfg]: "MAX_QUOTE_DESYNC_MS_EXIT = 5000"
definition MAX_KOREAN_SPREAD_PCT_EXIT :: dbl where [cfg]: "MAX_KOREAN_SPREAD_PCT_EXIT = lit 3.50"
definition MAX_FOREIGN_SPREAD_PCT_EXIT :: dbl where [cfg]: "MAX_FOREIGN_SPREAD_PCT_EXIT = lit 1.50"
definition MAX_USDT_JUMP_PCT :: dbl where [cfg]: "MAX_USDT_JUMP_PCT = lit 1.50"
definition USDT_FULL_SCAN_DEBOUNCE_MS :: u64 where [cfg]: "USDT_FULL_SCAN_DEBOUNCE_MS = 40"
definition ENTRY_FAST_SCAN_COOLDOWN_MS :: u64 where [cfg]: "ENTRY_FAST_SCAN_COOLDOWN_MS = 20"

section \<open>Symbol formats\<close>

text \<open>Parsing the Bithumb pair name of a symbol gives the symbol back, for every symbol
  whose base has no underscore (truncation to the array sizes included).\<close>

lemma bithumb_format_roundtrip:
  assumes "NUL \<notin> set b" "NUL \<notin> set q" "CHR ''_'' \<notin> set b"
  shows "from_bithumb_format (to_bithumb_format (SymbolId b q)) = SymbolId b q"
proof -
  have "CHR ''_'' \<notin> set (take 11 b)" using assms(3) by (auto dest: in_set_takeD)
  then have "split_at (CHR ''_'') (to_bithumb_format (SymbolId b q)) = Some (take 11 b, take 7 q)"
    using assms split_at_append by (simp add: to_bithumb_format_def get_SymbolId)
  then show ?thesis
    by (intro symbol_eqI) (simp_all add: from_bithumb_format_def set_base_def set_quote_def)
qed

text \<open>Likewise for the Upbit pair name, which puts the quote first.\<close>

lemma upbit_format_roundtrip:
  assumes "NUL \<notin> set b" "NUL \<notin> set q" "CHR ''-'' \<notin> set q"
  shows "from_upbit_format (to_upbit_format (SymbolId b q)) = SymbolId b q"
proof -
  have "CHR ''-'' \<notin> set (take 7 q)" using assms(3) by (auto dest: in_set_takeD)
  then have "split_at (CHR ''-'') (to_upbit_format (SymbolId b q)) = Some (take 7 q, take 11 b)"
    using assms split_at_append by (simp add: to_upbit_format_def get_SymbolId)
  then show ?thesis
    by (intro symbol_eqI) (simp_all add: from_upbit_format_def set_base_def set_quote_def)
qed

end
