(* ===== verification/Bitset.thy ===== *)
theory Bitset
  imports Prelude
begin

text \<open>
  The atomic bitset (\<^verbatim>\<open>include/kimp/memory/atomic_bitset.hpp\<close>): an array of 64-bit words
  with set, test, clear, count and the ascending iteration by \<^verbatim>\<open>countr_zero\<close> and
  \<^verbatim>\<open>word &= word - 1\<close>. The template argument \<^verbatim>\<open>BitCount\<close> is the field \<open>bs_bits\<close>. Each
  operation is one atomic step. The locale \<open>index_set\<close> is the contract the strategy
  relies on; the interpretation \<open>bits\<close> discharges it for the word array.
\<close>

unbundle bit_operations_syntax

record atomic_bitset =
  bs_bits :: nat
  bs_words :: "u64 list"

definition word_count :: "nat \<Rightarrow> nat" where
  "word_count n = (n + 64 - 1) div 64"

definition bitset_init :: "nat \<Rightarrow> atomic_bitset" where
  "bitset_init n = \<lparr>bs_bits = n, bs_words = replicate (word_count n) 0\<rparr>"

definition bit_mask :: "nat \<Rightarrow> u64" where
  "bit_mask index = push_bit (index mod 64) 1"

definition bs_set :: "nat \<Rightarrow> bool \<Rightarrow> atomic_bitset \<Rightarrow> atomic_bitset" where
  "bs_set index enabled b =
    (if bs_bits b \<le> index then b
     else let w = index div 64; mask = bit_mask index; current = bs_words b ! w in
       if enabled then
         (if current AND mask \<noteq> 0 then b
          else b\<lparr>bs_words := (bs_words b)[w := current OR mask]\<rparr>)
       else
         (if \<not> current AND mask \<noteq> 0 then b
          else b\<lparr>bs_words := (bs_words b)[w := current AND NOT mask]\<rparr>))"

definition bs_test :: "atomic_bitset \<Rightarrow> nat \<Rightarrow> bool" where
  "bs_test b index = (if bs_bits b \<le> index then False
     else bs_words b ! (index div 64) AND bit_mask index \<noteq> 0)"

definition bs_clear_all :: "atomic_bitset \<Rightarrow> atomic_bitset" where
  "bs_clear_all b = b\<lparr>bs_words := map (\<lambda>_. 0) (bs_words b)\<rparr>"

text \<open>\<^verbatim>\<open>std::popcount\<close> and \<^verbatim>\<open>std::countr_zero\<close>.\<close>

definition popcount :: "u64 \<Rightarrow> nat" where
  "popcount w = length (filter (bit w) [0..<64])"

definition countr_zero :: "u64 \<Rightarrow> nat" where
  "countr_zero w = (case filter (bit w) [0..<64] of [] \<Rightarrow> 64 | i # _ \<Rightarrow> i)"

text \<open>The word the loops see: the last word is cut at the limit.\<close>

definition limited_word :: "atomic_bitset \<Rightarrow> nat \<Rightarrow> nat \<Rightarrow> u64" where
  "limited_word b limit word_idx =
    (let word = bs_words b ! word_idx; word_limit = (limit + 64 - 1) div 64 in
     if word_idx + 1 = word_limit \<and> limit mod 64 \<noteq> 0
     then word AND (push_bit (limit mod 64) 1 - 1) else word)"

definition bs_count :: "atomic_bitset \<Rightarrow> nat \<Rightarrow> nat" where
  "bs_count b limit =
    (let limit = (if bs_bits b < limit then bs_bits b else limit);
         word_limit = (limit + 64 - 1) div 64
     in sum_list (map (\<lambda>i. popcount (limited_word b limit i)) [0..<word_limit]))"

lemma nat_and_pred_bit:
  "0 < m \<Longrightarrow> bit (m AND (m - 1)) i \<longleftrightarrow> bit m i \<and> (\<exists>j<i. bit m j)" for m :: nat
proof (induction i arbitrary: m)
  case 0
  then show ?case by (auto simp: bit_0 even_and_iff)
next
  case (Suc i)
  have step: "bit (m AND (m - 1)) (Suc i) \<longleftrightarrow> bit (m div 2) i \<and> bit ((m - 1) div 2) i"
    by (subst bit_and_iff) (simp add: bit_Suc)
  show ?case
  proof (cases "even m")
    case True
    then have h: "0 < m div 2" "(m - 1) div 2 = m div 2 - 1" using Suc.prems by presburger+
    have "(\<exists>j<Suc i. bit m j) \<longleftrightarrow> (\<exists>j<i. bit (m div 2) j)"
      using True by (subst Ex_less_Suc2) (simp add: bit_0 bit_Suc)
    then show ?thesis using step Suc.IH [OF h(1)] h(2) by (simp add: bit_and_iff bit_Suc)
  next
    case False
    then have "(m - 1) div 2 = m div 2" by presburger
    moreover have "\<exists>j<Suc i. bit m j" using False by (auto simp: bit_0)
    ultimately show ?thesis using step by (simp add: bit_Suc)
  qed
qed

lemma word_and_pred_bit:
  assumes "w \<noteq> (0 :: u64)"
  shows "bit (w AND (w - 1)) i \<longleftrightarrow> bit w i \<and> (\<exists>j<i. bit w j)"
proof -
  have pos: "0 < unat w" using assms by (simp add: unat_gt_0)
  have "unat (w - 1) = unat w - 1" using assms by (simp add: unat_minus_one)
  then have "unat (w AND (w - 1)) = unat w AND (unat w - 1)" by (simp add: unsigned_and_eq)
  then have "bit (unat (w AND (w - 1))) i \<longleftrightarrow> bit (unat w) i \<and> (\<exists>j<i. bit (unat w) j)"
    using nat_and_pred_bit [OF pos] by simp
  then show ?thesis by (simp add: bit_unsigned_iff)
qed

lemma word_and_pred_less:
  assumes "w \<noteq> (0 :: u64)"
  shows "unat (w AND (w - 1)) < unat w"
proof -
  have "w AND (w - 1) \<le> w - 1" by (rule word_and_le1)
  then have "unat (w AND (w - 1)) \<le> unat (w - 1)" by (simp add: word_le_nat_alt)
  also have "\<dots> < unat w" using assms by (simp add: unat_minus_one unat_gt_0)
  finally show ?thesis .
qed

text \<open>The inner loop: visit the lowest set bit, clear it, until the word is zero.\<close>

function drain_word :: "u64 \<Rightarrow> nat list" where
  "drain_word word = (if word = 0 then [] else countr_zero word # drain_word (word AND (word - 1)))"
  by pat_completeness auto
termination
  by (relation "measure unat") (simp_all only: in_measure word_and_pred_less wf_measure not_False_eq_True)

declare drain_word.simps [simp del]

definition for_each_set :: "atomic_bitset \<Rightarrow> nat \<Rightarrow> nat list" where
  "for_each_set b limit =
    (let limit = (if bs_bits b < limit then bs_bits b else limit);
         word_limit = (limit + 64 - 1) div 64
     in concat (map (\<lambda>word_idx. map (\<lambda>bit. word_idx * 64 + bit) (drain_word (limited_word b limit word_idx)))
          [0..<word_limit]))"

definition bs_invar :: "atomic_bitset \<Rightarrow> bool" where
  "bs_invar b = (length (bs_words b) = word_count (bs_bits b))"

lemma filter_tl_upt: "filter (\<lambda>i. P i \<and> (\<exists>j<i. P j)) [0..<n] = tl (filter P [0..<n])"
proof (induction n)
  case (Suc n)
  have "filter P [0..<n] = [] \<longleftrightarrow> \<not> (\<exists>j<n. P j)" by (auto simp: filter_empty_conv)
  then show ?case using Suc by (cases "filter P [0..<n]") auto
qed simp

lemma drain_word_eq: "drain_word w = filter (bit w) [0..<64]"
proof (induction w rule: drain_word.induct)
  case (1 w)
  show ?case
  proof (cases "w = 0")
    case False
    have ne: "filter (bit w) [0..<64] \<noteq> []"
    proof
      assume "filter (bit w) [0..<64] = []"
      then have "\<forall>i<64. \<not> bit w i" by (simp add: filter_empty_conv del: upt.simps)
      then have "w = 0" by (intro bit_word_eqI) simp
      with False show False ..
    qed
    then have hd: "countr_zero w # tl (filter (bit w) [0..<64]) = filter (bit w) [0..<64]"
      by (simp add: countr_zero_def del: upt.simps split: list.split)
    have "drain_word (w AND (w - 1)) = filter (\<lambda>i. bit w i \<and> (\<exists>j<i. bit w j)) [0..<64]"
      using "1.IH" False word_and_pred_bit [OF False] by (simp del: upt.simps)
    also have "\<dots> = tl (filter (bit w) [0..<64])" by (rule filter_tl_upt)
    finally show ?thesis using False hd by (simp add: drain_word.simps [of w] del: upt.simps)
  qed (simp add: drain_word.simps)
qed

lemma bs_test_bit: "bs_test b i \<longleftrightarrow> i < bs_bits b \<and> bit (bs_words b ! (i div 64)) (i mod 64)"
  by (auto simp: bs_test_def bit_mask_def bit_iff_and_push_bit_not_eq_0)

lemma ceil64: "(n + 64 - 1) div 64 = n div 64 + (if n mod 64 = 0 then 0 else 1)" for n :: nat
proof -
  define q r where "q = n div 64" and "r = n mod 64"
  have n: "n = r + 64 * q" and r: "r < 64" by (simp_all add: q_def r_def)
  have "(n + 64 - 1) div 64 = ((r + 63) + 64 * q) div 64" by (simp add: n)
  also have "\<dots> = q + (r + 63) div 64" by (rule div_mult_self2) simp
  also have "(r + 63) div 64 = (if r = 0 then 0 else 1)"
    using r by (auto intro!: div_nat_eqI)
  finally show ?thesis by (simp only: q_def r_def)
qed

lemma limited_word_bit:
  assumes k: "k < 64" and w: "word_idx < (limit + 64 - 1) div 64"
  shows "bit (limited_word b limit word_idx) k \<longleftrightarrow> bit (bs_words b ! word_idx) k \<and> word_idx * 64 + k < limit"
proof -
  have lim: "limit = limit mod 64 + 64 * (limit div 64)" by simp
  have lw: "limited_word b limit word_idx = (if word_idx = limit div 64
      then bs_words b ! word_idx AND mask (limit mod 64) else bs_words b ! word_idx)"
  proof -
    have "(word_idx + 1 = (limit + 64 - 1) div 64 \<and> limit mod 64 \<noteq> 0) \<longleftrightarrow> word_idx = limit div 64"
      using w unfolding ceil64 by (simp split: if_splits)
    then show ?thesis unfolding limited_word_def Let_def mask_eq_exp_minus_1 push_bit_of_1 by (rule if_cong) (rule refl)+
  qed
  show ?thesis
  proof (cases "word_idx = limit div 64")
    case True
    have "k < limit mod 64 \<longleftrightarrow> word_idx * 64 + k < limit" unfolding True using lim by linarith
    then show ?thesis using True k unfolding lw by (simp add: bit_and_iff bit_mask_iff)
  next
    case False
    then have "word_idx < limit div 64" using w unfolding ceil64 by (simp split: if_splits)
    then have "word_idx * 64 + k < limit" using k lim by linarith
    with False show ?thesis unfolding lw by simp
  qed
qed

lemma upt_shift: "map (\<lambda>k. n + k) [0..<m] = [n..<n + m]"
  by (simp add: map_add_upt add.commute)

lemma chunk_filter:
  assumes "\<And>k. k < 64 \<Longrightarrow> Q k \<longleftrightarrow> n + k < limit \<and> P (n + k)"
  shows "map (\<lambda>k. n + k) (filter Q [0..<64]) = filter P [n..<min limit (n + 64)]"
proof -
  have "filter Q [0..<64] = filter (\<lambda>k. n + k < limit \<and> P (n + k)) [0..<64]"
    using assms by (intro filter_cong) simp_all
  then have "map (\<lambda>k. n + k) (filter Q [0..<64]) = filter (\<lambda>i. i < limit \<and> P i) [n..<n + 64]"
    by (simp add: filter_map comp_def del: upt.simps flip: upt_shift)
  also have "\<dots> = filter P (filter (\<lambda>i. i < limit) [n..<n + 64])" by (simp add: conj_commute)
  also have "filter (\<lambda>i. i < limit) [n..<n + 64] = [n..<min limit (n + 64)]"
  proof (cases "limit \<le> n + 64 \<and> n \<le> limit")
    case True
    then have "[n..<n + 64] = [n..<limit] @ [limit..<n + 64]"
      using upt_add_eq_append [of n limit "n + 64 - limit"] by simp
    then show ?thesis using True by (auto simp: filter_empty_conv)
  qed (auto simp: filter_id_conv filter_empty_conv)
  finally show ?thesis .
qed

lemma chunks_append:
  "concat (map (\<lambda>c. filter P [c * 64..<min limit (c * 64 + 64)]) [0..<n]) = filter P [0..<min limit (n * 64)]"
proof (induction n)
  case (Suc n)
  have "[0..<min limit (Suc n * 64)] = [0..<min limit (n * 64)] @ [n * 64..<min limit (n * 64 + 64)]"
  proof (cases "n * 64 \<le> limit")
    case True
    then have "min limit (Suc n * 64) = n * 64 + (min limit (n * 64 + 64) - n * 64)" by simp
    then show ?thesis using True upt_add_eq_append [of 0 "n * 64" "min limit (n * 64 + 64) - n * 64"] by simp
  qed simp
  with Suc show ?case by simp
qed simp

lemma for_each_set_filter: "for_each_set b limit = filter (bs_test b) [0..<min limit (bs_bits b)]"
proof -
  define l where "l = (if bs_bits b < limit then bs_bits b else limit)"
  define n where "n = (l + 64 - 1) div 64"
  have l: "l = min limit (bs_bits b)" by (simp add: l_def)
  have chunk: "map (\<lambda>bit. c * 64 + bit) (drain_word (limited_word b l c)) =
      filter (bs_test b) [c * 64..<min l (c * 64 + 64)]" if c: "c < n" for c
    unfolding drain_word_eq
  proof (rule chunk_filter)
    fix k :: nat assume k: "k < 64"
    then have "(c * 64 + k) div 64 = c" "(c * 64 + k) mod 64 = k" by auto
    then show "bit (limited_word b l c) k \<longleftrightarrow> c * 64 + k < l \<and> bs_test b (c * 64 + k)"
      using limited_word_bit [OF k, of c l b] c l by (auto simp: n_def bs_test_bit)
  qed
  have "for_each_set b limit = concat (map (\<lambda>c. map (\<lambda>bit. c * 64 + bit) (drain_word (limited_word b l c))) [0..<n])"
    by (simp add: for_each_set_def l_def n_def Let_def)
  also have "\<dots> = concat (map (\<lambda>c. filter (bs_test b) [c * 64..<min l (c * 64 + 64)]) [0..<n])"
    using chunk by (intro arg_cong [where f = concat] map_cong) simp_all
  also have "\<dots> = filter (bs_test b) [0..<min l (n * 64)]" by (rule chunks_append)
  also have "min l (n * 64) = l"
    using ceil64 [of l] mult_div_mod_eq [of 64 l] by (auto simp: n_def min_def split: if_splits)
  finally show ?thesis by (simp add: l)
qed

lemma bs_set_bits [simp]: "bs_bits (bs_set i e b) = bs_bits b"
  by (simp add: bs_set_def Let_def)

lemma bs_set_invar: "bs_invar b \<Longrightarrow> bs_invar (bs_set i e b)"
  by (simp add: bs_set_def bs_invar_def Let_def)

lemma word_index_bound: "i < n \<Longrightarrow> i div 64 < word_count n"
proof -
  assume "i < n"
  then have "i < word_count n * 64"
    using mult_div_mod_eq [of 64 n] pos_mod_bound [of 64 n]
    by (auto simp: word_count_def ceil64 split: if_splits)
  then show ?thesis by (simp add: less_mult_imp_div_less)
qed

lemma bs_test_set:
  assumes "bs_invar b"
  shows "bs_test (bs_set i e b) j \<longleftrightarrow> (if i = j then e \<and> j < bs_bits b else bs_test b j)"
proof (cases "i < bs_bits b")
  case True
  then have w: "i div 64 < length (bs_words b)" using assms word_index_bound by (simp add: bs_invar_def)
  have eq: "i = j \<longleftrightarrow> i div 64 = j div 64 \<and> i mod 64 = j mod 64" by (metis div_mult_mod_eq)
  have m: "bit (bit_mask i) k \<longleftrightarrow> k = i mod 64" for k
    by (auto simp: bit_mask_def push_bit_eq_mult bit_exp_iff)
  have zero: "bs_words b ! (i div 64) AND bit_mask i \<noteq> 0 \<longleftrightarrow> bit (bs_words b ! (i div 64)) (i mod 64)"
    by (simp add: bit_mask_def bit_iff_and_push_bit_not_eq_0)
  show ?thesis
    using True w eq m zero
    by (cases "i div 64 = j div 64")
      (auto simp: bs_set_def bs_test_bit Let_def bit_or_iff bit_and_iff bit_not_iff)
next
  case False
  then show ?thesis by (auto simp: bs_set_def bs_test_def)
qed

lemma bs_test_init [simp]: "\<not> bs_test (bitset_init n) i"
  by (auto simp: bs_test_bit bitset_init_def word_index_bound)

lemma bitset_init_simps [simp]: "bs_bits (bitset_init n) = n" "bs_invar (bitset_init n)"
  by (simp_all add: bitset_init_def bs_invar_def)

lemma bs_clear_all_test: "bs_invar b \<Longrightarrow> \<not> bs_test (bs_clear_all b) i"
  by (auto simp: bs_test_bit bs_clear_all_def bs_invar_def word_index_bound)

lemma bs_count_filter: "bs_count b limit = length (for_each_set b limit)"
  by (simp add: bs_count_def for_each_set_def popcount_def drain_word_eq Let_def length_concat comp_def
      del: upt.simps)

section \<open>The contract of an index set\<close>

locale index_set =
  fixes upd :: "nat \<Rightarrow> bool \<Rightarrow> 's \<Rightarrow> 's"
    and mem :: "'s \<Rightarrow> nat \<Rightarrow> bool"
    and elems :: "'s \<Rightarrow> nat \<Rightarrow> nat list"
    and cap :: "'s \<Rightarrow> nat"
    and invar :: "'s \<Rightarrow> bool"
  assumes mem_upd: "invar s \<Longrightarrow> mem (upd i e s) j \<longleftrightarrow> (if i = j then e \<and> j < cap s else mem s j)"
    and elems_spec: "elems s limit = filter (mem s) [0..<min limit (cap s)]"
    and mem_cap: "mem s i \<Longrightarrow> i < cap s"
    and cap_upd: "cap (upd i e s) = cap s"
    and invar_upd: "invar s \<Longrightarrow> invar (upd i e s)"
begin

lemma elems_sorted: "sorted_wrt (<) (elems s limit)"
  by (simp add: elems_spec sorted_wrt_filter)

lemma elems_distinct: "distinct (elems s limit)"
  by (simp add: elems_spec)

lemma set_elems: "set (elems s limit) = {i. i < limit \<and> mem s i}"
  using mem_cap by (auto simp: elems_spec)

lemma upd_idem: "invar s \<Longrightarrow> mem (upd i e (upd i e' s)) j = mem (upd i e s) j"
  by (simp add: mem_upd invar_upd cap_upd)

lemma elems_insert:
  assumes "invar s" "i < limit" "i < cap s" "\<not> mem s i"
  shows "length (elems (upd i True s) limit) = Suc (length (elems s limit))"
proof -
  have "set (elems (upd i True s) limit) = insert i (set (elems s limit))"
    using assms by (auto simp: set_elems mem_upd split: if_splits)
  moreover have "i \<notin> set (elems s limit)" using assms by (simp add: set_elems)
  ultimately show ?thesis using elems_distinct by (metis card_insert_disjoint distinct_card finite_set)
qed

end

interpretation bits: index_set bs_set bs_test for_each_set bs_bits bs_invar
proof
  show "bs_test s i \<Longrightarrow> i < bs_bits s" for s i by (simp add: bs_test_bit)
qed (simp_all add: bs_test_set for_each_set_filter bs_set_invar)

end
