(* ===== verification/Premium.thy ===== *)
theory Premium
  imports Types
begin

text \<open>
  Premium arithmetic: the calculator of \<^verbatim>\<open>PremiumCalculator\<close>
  (\<^verbatim>\<open>include/kimp/strategy/arbitrage_engine.hpp\<close>) with the fee-adjusted relay metrics that
  the entry gate reads, and the batch calculators of
  \<^verbatim>\<open>include/kimp/core/simd_premium.hpp\<close> (AVX2, AVX2 with FMA, NEON, scalar). All arithmetic
  is binary64.
\<close>

section \<open>Premium calculator\<close>

definition calculate_entry_premium :: "dbl \<Rightarrow> dbl \<Rightarrow> dbl \<Rightarrow> dbl" where
  "calculate_entry_premium korean_ask foreign_bid usdt_krw_rate =
    (if foreign_bid \<le> 0 \<or> usdt_krw_rate \<le> 0 then 0
     else let foreign_krw = foreign_bid * usdt_krw_rate
       in ((korean_ask - foreign_krw) / foreign_krw) * lit 100)"

definition calculate_exit_premium :: "dbl \<Rightarrow> dbl \<Rightarrow> dbl \<Rightarrow> dbl" where
  "calculate_exit_premium korean_bid foreign_ask usdt_krw_rate =
    (if foreign_ask \<le> 0 \<or> usdt_krw_rate \<le> 0 then 0
     else let foreign_krw = foreign_ask * usdt_krw_rate
       in ((korean_bid - foreign_krw) / foreign_krw) * lit 100)"

definition should_enter :: "dbl \<Rightarrow> bool" where
  "should_enter premium = (premium \<le> ENTRY_PREMIUM_THRESHOLD)"

definition should_exit :: "dbl \<Rightarrow> bool" where
  "should_exit premium = (EXIT_PREMIUM_THRESHOLD \<le> premium)"

record relay_metrics =
  rm_match_qty :: dbl
  rm_bithumb_top_krw :: dbl
  rm_bithumb_top_usdt :: dbl
  rm_bybit_top_usdt :: dbl
  rm_bybit_top_krw :: dbl
  rm_match_buy_krw :: dbl
  rm_match_sell_usdt :: dbl
  rm_match_sell_krw :: dbl
  rm_max_tradable_usdt_at_best :: dbl
  rm_target_coin_qty :: dbl
  rm_bithumb_can_fill_target :: bool
  rm_bybit_can_fill_target :: bool
  rm_both_can_fill_target :: bool
  rm_bithumb_total_fee_krw :: dbl
  rm_bybit_total_fee_usdt :: dbl
  rm_bybit_total_fee_krw :: dbl
  rm_withdraw_fee_coins :: dbl
  rm_withdraw_fee_krw :: dbl
  rm_total_fee_krw :: dbl
  rm_gross_spread_krw :: dbl
  rm_gross_edge_pct :: dbl
  rm_net_profit_krw :: dbl
  rm_net_basis_krw :: dbl
  rm_net_edge_pct :: dbl

definition relay_metrics_default :: relay_metrics where
  "relay_metrics_default =
    \<lparr>rm_match_qty = 0, rm_bithumb_top_krw = 0, rm_bithumb_top_usdt = 0, rm_bybit_top_usdt = 0,
     rm_bybit_top_krw = 0, rm_match_buy_krw = 0, rm_match_sell_usdt = 0, rm_match_sell_krw = 0,
     rm_max_tradable_usdt_at_best = 0, rm_target_coin_qty = 0, rm_bithumb_can_fill_target = False,
     rm_bybit_can_fill_target = False, rm_both_can_fill_target = False, rm_bithumb_total_fee_krw = 0,
     rm_bybit_total_fee_usdt = 0, rm_bybit_total_fee_krw = 0, rm_withdraw_fee_coins = 0,
     rm_withdraw_fee_krw = 0, rm_total_fee_krw = 0, rm_gross_spread_krw = 0, rm_gross_edge_pct = 0,
     rm_net_profit_krw = 0, rm_net_basis_krw = 0, rm_net_edge_pct = 0\<rparr>"

text \<open>The size a relay entry can execute at once: the matched top of book, capped at the target.\<close>

definition effective_entry_qty :: "dbl \<Rightarrow> dbl \<Rightarrow> dbl \<Rightarrow> dbl" where
  "effective_entry_qty korean_ask_qty foreign_bid foreign_bid_qty =
     dmin (dmin korean_ask_qty foreign_bid_qty) (TARGET_ENTRY_USDT / foreign_bid)"

definition calculate_relay_metrics ::
    "dbl \<Rightarrow> dbl \<Rightarrow> dbl \<Rightarrow> dbl \<Rightarrow> dbl \<Rightarrow> dbl \<Rightarrow> dbl \<Rightarrow> dbl \<Rightarrow> relay_metrics" where
  "calculate_relay_metrics korean_ask korean_ask_qty foreign_bid foreign_bid_qty usdt_krw_rate
      korean_fee_rate foreign_fee_rate withdraw_fee_coins =
    (if korean_ask \<le> 0 \<or> korean_ask_qty \<le> 0 \<or> foreign_bid \<le> 0 \<or> foreign_bid_qty \<le> 0 \<or> usdt_krw_rate \<le> 0
     then relay_metrics_default
     else let
       match_qty = dmin korean_ask_qty foreign_bid_qty;
       bithumb_top_krw = korean_ask * korean_ask_qty;
       bithumb_top_usdt = bithumb_top_krw / usdt_krw_rate;
       bybit_top_usdt = foreign_bid * foreign_bid_qty;
       bybit_top_krw = bybit_top_usdt * usdt_krw_rate;
       max_tradable_usdt_at_best = dmin bithumb_top_usdt bybit_top_usdt;
       target_coin_qty = TARGET_ENTRY_USDT / foreign_bid;
       bithumb_can_fill_target = TARGET_ENTRY_USDT \<le> bithumb_top_usdt;
       bybit_can_fill_target = TARGET_ENTRY_USDT \<le> bybit_top_usdt;
       eff = dmin match_qty target_coin_qty;
       match_buy_krw = korean_ask * eff;
       match_sell_usdt = foreign_bid * eff;
       match_sell_krw = match_sell_usdt * usdt_krw_rate;
       korean_fee_per_trade_krw = match_buy_krw * korean_fee_rate;
       foreign_fee_per_trade_usdt = match_sell_usdt * foreign_fee_rate;
       foreign_fee_per_trade_krw = match_sell_krw * foreign_fee_rate;
       bithumb_total_fee_krw = korean_fee_per_trade_krw * KOREAN_FEE_EVENTS;
       bybit_total_fee_usdt = foreign_fee_per_trade_usdt * FOREIGN_FEE_EVENTS;
       bybit_total_fee_krw = foreign_fee_per_trade_krw * FOREIGN_FEE_EVENTS;
       withdraw_fee_krw = withdraw_fee_coins * korean_ask;
       total_fee_krw = bithumb_total_fee_krw + bybit_total_fee_krw + withdraw_fee_krw;
       gross_spread_krw = match_sell_krw - match_buy_krw;
       gross_edge_pct = (if 0 < match_buy_krw then (gross_spread_krw / match_buy_krw) * lit 100 else 0);
       net_profit_krw = gross_spread_krw - total_fee_krw;
       net_basis_krw = match_buy_krw + total_fee_krw;
       net_edge_pct = (if 0 < net_basis_krw then (net_profit_krw / net_basis_krw) * lit 100 else 0)
     in \<lparr>rm_match_qty = match_qty, rm_bithumb_top_krw = bithumb_top_krw,
         rm_bithumb_top_usdt = bithumb_top_usdt, rm_bybit_top_usdt = bybit_top_usdt,
         rm_bybit_top_krw = bybit_top_krw, rm_match_buy_krw = match_buy_krw,
         rm_match_sell_usdt = match_sell_usdt, rm_match_sell_krw = match_sell_krw,
         rm_max_tradable_usdt_at_best = max_tradable_usdt_at_best, rm_target_coin_qty = target_coin_qty,
         rm_bithumb_can_fill_target = bithumb_can_fill_target,
         rm_bybit_can_fill_target = bybit_can_fill_target,
         rm_both_can_fill_target = (bithumb_can_fill_target \<and> bybit_can_fill_target),
         rm_bithumb_total_fee_krw = bithumb_total_fee_krw, rm_bybit_total_fee_usdt = bybit_total_fee_usdt,
         rm_bybit_total_fee_krw = bybit_total_fee_krw, rm_withdraw_fee_coins = withdraw_fee_coins,
         rm_withdraw_fee_krw = withdraw_fee_krw, rm_total_fee_krw = total_fee_krw,
         rm_gross_spread_krw = gross_spread_krw, rm_gross_edge_pct = gross_edge_pct,
         rm_net_profit_krw = net_profit_krw, rm_net_basis_krw = net_basis_krw,
         rm_net_edge_pct = net_edge_pct\<rparr>)"

section \<open>Batch calculators\<close>

definition calculate_scalar :: "dbl \<Rightarrow> dbl \<Rightarrow> dbl \<Rightarrow> dbl" where
  "calculate_scalar korean foreign usdt =
    (let foreign_krw = foreign * usdt in ((korean - foreign_krw) / foreign_krw) * lit 100)"

definition calculate_batch_scalar :: "dbl list \<Rightarrow> dbl list \<Rightarrow> dbl list \<Rightarrow> nat \<Rightarrow> dbl list" where
  "calculate_batch_scalar korean foreign usdt count =
     map (\<lambda>i. calculate_scalar (korean ! i) (foreign ! i) (usdt ! i)) [0..<count]"

text \<open>A vector register is the list of its lanes; a vector instruction works lane by lane.\<close>

definition loadu :: "nat \<Rightarrow> dbl list \<Rightarrow> nat \<Rightarrow> dbl list" where
  "loadu lanes a offset = map (\<lambda>l. a ! (offset + l)) [0..<lanes]"

definition lanes2 :: "(dbl \<Rightarrow> dbl \<Rightarrow> dbl) \<Rightarrow> dbl list \<Rightarrow> dbl list \<Rightarrow> dbl list" where
  "lanes2 f xs ys = map2 f xs ys"

definition avx2_block :: "dbl list \<Rightarrow> dbl list \<Rightarrow> dbl list \<Rightarrow> nat \<Rightarrow> dbl list" where
  "avx2_block korean foreign usdt offset =
    (let hundred = replicate 4 (lit 100);
         korean_v = loadu 4 korean offset; foreign_v = loadu 4 foreign offset; usdt_v = loadu 4 usdt offset;
         foreign_krw = lanes2 (\<lambda>x y. x * y) foreign_v usdt_v;
         diff = lanes2 (\<lambda>x y. x - y) korean_v foreign_krw;
         premium = lanes2 (\<lambda>x y. x / y) diff foreign_krw
     in lanes2 (\<lambda>x y. x * y) premium hundred)"

definition avx2_fma_block :: "dbl list \<Rightarrow> dbl list \<Rightarrow> dbl list \<Rightarrow> nat \<Rightarrow> dbl list" where
  "avx2_fma_block korean foreign usdt offset =
    (let hundred = replicate 4 (lit 100);
         korean_v = loadu 4 korean offset; foreign_v = loadu 4 foreign offset; usdt_v = loadu 4 usdt offset;
         foreign_krw = lanes2 (\<lambda>x y. x * y) foreign_v usdt_v;
         neg_one = replicate 4 (lit (- 1));
         diff = map2 (\<lambda>(n, x) k. fma n x k) (zip neg_one foreign_krw) korean_v;
         premium = lanes2 (\<lambda>x y. x / y) diff foreign_krw
     in lanes2 (\<lambda>x y. x * y) premium hundred)"

definition neon_block :: "dbl list \<Rightarrow> dbl list \<Rightarrow> dbl list \<Rightarrow> nat \<Rightarrow> dbl list" where
  "neon_block korean foreign usdt offset =
    (let korean_v = loadu 2 korean offset; foreign_v = loadu 2 foreign offset; usdt_v = loadu 2 usdt offset;
         foreign_krw = lanes2 (\<lambda>x y. x * y) foreign_v usdt_v;
         ratio = lanes2 (\<lambda>x y. x / y) korean_v foreign_krw
     in map (\<lambda>r. fma r (lit 100) (lit (- 100))) ratio)"

text \<open>Blocks of \<open>lanes\<close> elements, then the remaining elements with scalar arithmetic.\<close>

definition batch_loop ::
    "nat \<Rightarrow> (dbl list \<Rightarrow> dbl list \<Rightarrow> dbl list \<Rightarrow> nat \<Rightarrow> dbl list) \<Rightarrow> dbl list \<Rightarrow> dbl list \<Rightarrow> dbl list \<Rightarrow> nat \<Rightarrow> dbl list" where
  "batch_loop lanes block korean foreign usdt count =
    (let simd_count = count div lanes in
     concat (map (\<lambda>i. block korean foreign usdt (i * lanes)) [0..<simd_count]) @
     map (\<lambda>i. let foreign_krw = foreign ! i * usdt ! i in ((korean ! i - foreign_krw) / foreign_krw) * lit 100)
       [simd_count * lanes..<count])"

definition calculate_batch_avx2 :: "dbl list \<Rightarrow> dbl list \<Rightarrow> dbl list \<Rightarrow> nat \<Rightarrow> dbl list" where
  "calculate_batch_avx2 = batch_loop 4 avx2_block"

definition calculate_batch_avx2_fma :: "dbl list \<Rightarrow> dbl list \<Rightarrow> dbl list \<Rightarrow> nat \<Rightarrow> dbl list" where
  "calculate_batch_avx2_fma = batch_loop 4 avx2_fma_block"

definition calculate_batch_neon :: "dbl list \<Rightarrow> dbl list \<Rightarrow> dbl list \<Rightarrow> nat \<Rightarrow> dbl list" where
  "calculate_batch_neon = batch_loop 2 neon_block"

text \<open>The build picks one implementation (\<^verbatim>\<open>KIMP_HAS_AVX2\<close>, \<^verbatim>\<open>KIMP_HAS_NEON\<close>).\<close>

datatype simd_build = Avx2 | Neon | Scalar

fun calculate_batch :: "simd_build \<Rightarrow> dbl list \<Rightarrow> dbl list \<Rightarrow> dbl list \<Rightarrow> nat \<Rightarrow> dbl list" where
  "calculate_batch Avx2 = calculate_batch_avx2"
| "calculate_batch Neon = calculate_batch_neon"
| "calculate_batch Scalar = calculate_batch_scalar"

text \<open>Evaluates a gate on concrete quotes.\<close>

lemmas gate_eval = dbl_eval cfg calculate_relay_metrics_def entry_gate_passes_def
  meets_entry_profit_floor_def should_exit_def calculate_exit_premium_def is_double_def

section \<open>Positivity of the constants\<close>

lemma lit_const_pos [simp]: "0 < lit 35" "0 < lit 100" "0 < lit 3" "0 < lit 1" "0 < lit (1/2500)" "0 < lit (1/2000)" "0 < lit (1/1000)"
  "0 < lit 600" "0 < lit (1/4)"
  by (simp_all add: dbl_eval)

lemma fee_rates_pos: "0 < get_korean_fee_rate k" "0 < get_foreign_fee_rate f"
  by (simp_all add: get_korean_fee_rate_def get_foreign_fee_rate_def cfg)

section \<open>Batch calculators agree with the scalar formula\<close>

lemma loadu_nth: "l < n \<Longrightarrow> loadu n a off ! l = a ! (off + l)"
  by (simp add: loadu_def)

lemma upto4: "[0..<4] = [0, 1, 2, 3 :: nat]" and upto2: "[0..<2] = [0, 1 :: nat]"
  by (simp_all add: upt_rec)

lemma avx2_block_scalar:
  "avx2_block k f u off = map (\<lambda>i. calculate_scalar (k ! i) (f ! i) (u ! i)) [off..<off + 4]"
proof -
  have "[off..<off + 4] = map (\<lambda>l. off + l) [0..<4]" by (simp add: map_add_upt add.commute)
  then show ?thesis
    by (simp only: upto4 avx2_block_def loadu_def lanes2_def calculate_scalar_def Let_def) (simp add: numeral_eq_Suc)
qed

lemma avx2_fma_block_scalar: "avx2_fma_block k f u off = avx2_block k f u off"
proof -
  have "lit (- 1) = Fin (- 1)" using lit_of_int [of "- 1"] by simp
  then show ?thesis
    by (simp only: upto4 avx2_fma_block_def avx2_block_def loadu_def lanes2_def Let_def)
      (simp add: numeral_eq_Suc fma_minus_one)
qed

lemma concat_blocks:
  "concat (map (\<lambda>i. map g [i * n..<i * n + n]) [0..<c]) = map g [0..<c * n]"
proof (induction c)
  case (Suc c)
  have "[0..<Suc c * n] = [0..<c * n] @ [c * n..<c * n + n]"
    using upt_add_eq_append [of 0 "c * n" n] by (simp add: add.commute)
  with Suc show ?case by simp
qed simp

lemma batch_loop_scalar:
  assumes "\<And>off. block k f u off = map (\<lambda>i. calculate_scalar (k ! i) (f ! i) (u ! i)) [off..<off + n]"
  shows "batch_loop n block k f u count = calculate_batch_scalar k f u count"
proof -
  have "[0..<count] = [0..<count div n * n] @ [count div n * n..<count]"
    using upt_add_eq_append [of 0 "count div n * n" "count - count div n * n"] by simp
  then show ?thesis
    by (simp add: batch_loop_def calculate_batch_scalar_def assms concat_blocks Let_def calculate_scalar_def
        del: upt_add_eq_append)
qed

text \<open>On an AVX2 build the batch calculator, with or without fused multiply-add,
  returns bit for bit what the scalar formula returns on every element, remainder included.\<close>

lemma avx2_batch_equals_scalar:
  "calculate_batch_avx2 korean foreign usdt count = calculate_batch_scalar korean foreign usdt count \<and>
   calculate_batch_avx2_fma korean foreign usdt count = calculate_batch_scalar korean foreign usdt count"
  unfolding calculate_batch_avx2_def calculate_batch_avx2_fma_def
  by (intro conjI batch_loop_scalar) (simp_all only: avx2_fma_block_scalar avx2_block_scalar)

lemma fma_ratio_sign:
  assumes "0 < f" "isfinite f" "k \<noteq> NaN"
  shows "(k \<le> f \<longrightarrow> fma (k / f) (lit 100) (lit (- 100)) \<le> 0) \<and>
         (f \<le> k \<longrightarrow> 0 \<le> fma (k / f) (lit 100) (lit (- 100)))"
proof -
  obtain y where f: "f = Fin y" and y: "0 < y" using assms by (cases f) (auto simp: zero_dbl_def)
  have l: "lit 100 = Fin 100" "lit (- 100) = Fin (- 100)" "lit 1 = Fin 1"
    using lit_of_int [of 100] lit_of_int [of "- 100"] lit_of_int [of 1] by simp_all
  show ?thesis
  proof (cases k)
    case (Fin x)
    have up: "lit (x / y) \<le> Fin 1" if "x \<le> y"
      using lit_mono [of "x / y" 1] that y l(3) by (simp add: pos_divide_le_eq)
    have lo: "Fin 1 \<le> lit (x / y)" if "y \<le> x"
      using lit_mono [of 1 "x / y"] that y l(3) by (simp add: pos_le_divide_eq)
    show ?thesis using Fin f y l up lo
      by (cases "lit (x / y)")
        (auto simp: zero_dbl_def intro!: lit_nonpos [unfolded zero_dbl_def] lit_nonneg [unfolded zero_dbl_def])
  qed (use assms f y l in \<open>auto simp: zero_dbl_def\<close>)
qed

text \<open>On a NEON build the premium of a lane is computed by the rewritten formula
  \<open>ratio * 100 - 100\<close> with one fused rounding; its sign always agrees with the comparison of the
  Korean price with the foreign price in KRW, so rounding never moves it across zero.\<close>

lemma neon_premium_sign:
  assumes "l < 2" "0 < foreign ! (off + l) * usdt ! (off + l)"
    "isfinite (foreign ! (off + l) * usdt ! (off + l))" "korean ! (off + l) \<noteq> NaN"
  shows "(korean ! (off + l) \<le> foreign ! (off + l) * usdt ! (off + l) \<longrightarrow>
            neon_block korean foreign usdt off ! l \<le> 0) \<and>
         (foreign ! (off + l) * usdt ! (off + l) \<le> korean ! (off + l) \<longrightarrow>
            0 \<le> neon_block korean foreign usdt off ! l)"
proof -
  have "neon_block korean foreign usdt off ! l =
      fma (korean ! (off + l) / (foreign ! (off + l) * usdt ! (off + l))) (lit 100) (lit (- 100))"
    using assms(1) by (simp add: neon_block_def lanes2_def loadu_def Let_def)
  then show ?thesis using fma_ratio_sign [OF assms(2-4)] by simp
qed

section \<open>Relay metrics\<close>

lemma relay_guard:
  assumes "0 < ka" "0 < kq" "0 < fb" "0 < fq" "0 < r"
  shows "\<not> (ka \<le> (0 :: dbl) \<or> kq \<le> (0 :: dbl) \<or> fb \<le> (0 :: dbl) \<or> fq \<le> (0 :: dbl) \<or> r \<le> (0 :: dbl))"
  using assms by (simp add: dbl_pos_iff)

lemma relay_fields:
  assumes "\<not> (ka \<le> 0 \<or> kq \<le> 0 \<or> fb \<le> 0 \<or> fq \<le> 0 \<or> r \<le> 0)"
    and m_def: "m = calculate_relay_metrics ka kq fb fq r kf ff wd"
  shows "rm_match_qty m = dmin kq fq"
    and "rm_bithumb_top_krw m = ka * kq" "rm_bithumb_top_usdt m = ka * kq / r"
    and "rm_bybit_top_usdt m = fb * fq"
    and "rm_match_buy_krw m = ka * effective_entry_qty kq fb fq"
    and "rm_match_sell_usdt m = fb * effective_entry_qty kq fb fq"
    and "rm_match_sell_krw m = rm_match_sell_usdt m * r"
    and "rm_both_can_fill_target m \<longleftrightarrow> TARGET_ENTRY_USDT \<le> ka * kq / r \<and> TARGET_ENTRY_USDT \<le> fb * fq"
    and "rm_total_fee_krw m = rm_match_buy_krw m * kf * KOREAN_FEE_EVENTS +
           rm_match_sell_krw m * ff * FOREIGN_FEE_EVENTS + wd * ka"
    and "rm_gross_spread_krw m = rm_match_sell_krw m - rm_match_buy_krw m"
    and "rm_net_profit_krw m = rm_gross_spread_krw m - rm_total_fee_krw m"
  using assms(1) unfolding m_def calculate_relay_metrics_def effective_entry_qty_def Let_def by simp_all

lemma relay_default_gate: "\<not> entry_gate_passes b (rm_match_qty relay_metrics_default) e p"
  by (simp add: relay_metrics_default_def entry_gate_passes_def)

lemma effective_entry_qty_bounds:
  assumes "0 < kq" "0 < fb" "0 < fq" "isfinite fb"
  shows "effective_entry_qty kq fb fq \<le> kq" "effective_entry_qty kq fb fq \<le> fq"
    and "effective_entry_qty kq fb fq \<le> TARGET_ENTRY_USDT / fb"
proof -
  obtain y where y: "fb = Fin y" "0 < y" using assms by (cases fb) (auto simp: zero_dbl_def)
  have "lit 35 = Fin 35" using lit_of_int [of 35] by simp
  then have t: "TARGET_ENTRY_USDT / fb \<noteq> NaN" using y by (simp add: cfg)
  have n: "kq \<noteq> NaN" "fq \<noteq> NaN" using assms by (auto simp: dbl_pos_iff)
  then have "dmin kq fq \<noteq> NaN" by (simp add: dmin_def)
  from dmin_le [OF this t] dmin_le [OF n]
  show "effective_entry_qty kq fb fq \<le> kq" "effective_entry_qty kq fb fq \<le> fq"
    "effective_entry_qty kq fb fq \<le> TARGET_ENTRY_USDT / fb"
    by (auto simp: effective_entry_qty_def intro: dbl_le_trans)
qed

text \<open>The relay metrics never price more than the top of the book holds: the KRW leg is at
  most the best Korean ask level, the USDT leg at most the best foreign bid level.\<close>

lemma relay_metrics_within_top_of_book:
  assumes "0 < ka" "0 < kq" "0 < fb" "0 < fq" "0 < r" "isfinite ka" "isfinite fb"
  shows "rm_match_buy_krw (calculate_relay_metrics ka kq fb fq r kf ff wd) \<le>
           rm_bithumb_top_krw (calculate_relay_metrics ka kq fb fq r kf ff wd) \<and>
         rm_match_sell_usdt (calculate_relay_metrics ka kq fb fq r kf ff wd) \<le>
           rm_bybit_top_usdt (calculate_relay_metrics ka kq fb fq r kf ff wd)"
  using relay_fields [OF relay_guard [OF assms(1-5)] refl] effective_entry_qty_bounds [of kq fb fq] assms
  by (simp add: dmult_mono_fin)

lemma entry_gate_inputs:
  assumes m_def: "m = calculate_relay_metrics ka kq fb fq r kf ff wd"
    and "entry_gate_passes (rm_both_can_fill_target m) (rm_match_qty m) e p"
  shows "0 < ka \<and> 0 < kq \<and> 0 < fb \<and> 0 < fq \<and> 0 < r"
proof (cases "ka \<le> 0 \<or> kq \<le> 0 \<or> fb \<le> 0 \<or> fq \<le> 0 \<or> r \<le> 0")
  case True
  then have "m = relay_metrics_default" unfolding m_def calculate_relay_metrics_def by simp
  then show ?thesis using assms(2) relay_default_gate by simp
next
  case False
  from assms(2) have "TARGET_ENTRY_USDT \<le> ka * kq / r" "TARGET_ENTRY_USDT \<le> fb * fq"
    using relay_fields(8) [OF False refl] unfolding m_def entry_gate_passes_def by blast+
  then have "ka \<noteq> NaN" "kq \<noteq> NaN" "fb \<noteq> NaN" "fq \<noteq> NaN" "r \<noteq> NaN" by auto
  then show ?thesis using False by (simp add: dbl_pos_iff)
qed

lemma relay_total_fee_nonneg:
  assumes ok: "0 < ka" "0 < kq" "0 < fb" "0 < fq" "0 < r"
    and rates: "0 \<le> kf" "0 \<le> ff" "0 \<le> wd"
    and num: "rm_total_fee_krw (calculate_relay_metrics ka kq fb fq r kf ff wd) \<noteq> NaN"
  shows "0 \<le> rm_total_fee_krw (calculate_relay_metrics ka kq fb fq r kf ff wd)"
proof -
  let ?e = "effective_entry_qty kq fb fq"
  note f = relay_fields [OF relay_guard [OF ok] refl, of kf ff wd]
  let ?B = "ka * ?e * kf * KOREAN_FEE_EVENTS" and ?F = "fb * ?e * r * ff * FOREIGN_FEE_EVENTS"
  have tot: "rm_total_fee_krw (calculate_relay_metrics ka kq fb fq r kf ff wd) = ?B + ?F + wd * ka"
    by (simp add: f)
  then have nn: "?B \<noteq> NaN" "?F \<noteq> NaN" "wd * ka \<noteq> NaN" using num by auto
  have e: "0 \<le> ?e"
  proof -
    have "?e \<noteq> NaN" using nn(1) by auto
    then show ?thesis
      using ok ddiv_nn [of TARGET_ENTRY_USDT fb] dmin_pos [OF ok(2,4)]
      by (auto simp: effective_entry_qty_def dmin_def cfg dbl_lt_le split: if_splits)
  qed
  have pos: "0 \<le> ka" "0 \<le> fb" "0 \<le> r" "0 \<le> KOREAN_FEE_EVENTS" "0 \<le> FOREIGN_FEE_EVENTS"
    using ok by (simp_all add: dbl_lt_le cfg)
  have "0 \<le> ?B" "0 \<le> ?F" "0 \<le> wd * ka"
    using nn e pos rates by (intro dmult_nn; auto)+
  then show ?thesis using tot by (simp add: dadd_nonneg)
qed

lemma floor_covers_fees:
  assumes ok: "0 < ka" "0 < kq" "0 < fb" "0 < fq" "0 < r"
    and floor: "MIN_ENTRY_NET_PROFIT_KRW \<le> rm_net_profit_krw (calculate_relay_metrics ka kq fb fq r kf ff wd)"
    and rates: "0 \<le> kf" "0 \<le> ff" "0 \<le> wd"
  shows "0 \<le> rm_total_fee_krw (calculate_relay_metrics ka kq fb fq r kf ff wd)"
    "rm_total_fee_krw (calculate_relay_metrics ka kq fb fq r kf ff wd) <
      rm_gross_spread_krw (calculate_relay_metrics ka kq fb fq r kf ff wd)"
    "rm_match_buy_krw (calculate_relay_metrics ka kq fb fq r kf ff wd) <
      rm_match_sell_krw (calculate_relay_metrics ka kq fb fq r kf ff wd)"
proof -
  let ?m = "calculate_relay_metrics ka kq fb fq r kf ff wd"
  note f = relay_fields [OF relay_guard [OF ok] refl, of kf ff wd]
  have "0 < rm_gross_spread_krw ?m - rm_total_fee_krw ?m"
    using floor dbl_lt_le_trans [OF lit_const_pos(8)] f(11) by (simp add: cfg)
  then show fee: "rm_total_fee_krw ?m < rm_gross_spread_krw ?m"
    by (rule dsub_pos_imp [rotated 2]) (simp_all add: f)
  then show nn: "0 \<le> rm_total_fee_krw ?m"
    using relay_total_fee_nonneg [OF ok rates] dbl_lt_num by blast
  with fee have "0 < rm_match_sell_krw ?m - rm_match_buy_krw ?m"
    using dbl_le_lt_trans f(10) by metis
  then show "rm_match_buy_krw ?m < rm_match_sell_krw ?m"
    by (rule dsub_pos_imp [rotated 2]) (simp_all add: f)
qed

lemma gate_covers_fees:
  assumes gate: "entry_gate_passes
      (rm_both_can_fill_target (calculate_relay_metrics ka kq fb fq r kf ff wd))
      (rm_match_qty (calculate_relay_metrics ka kq fb fq r kf ff wd))
      (rm_net_edge_pct (calculate_relay_metrics ka kq fb fq r kf ff wd))
      (rm_net_profit_krw (calculate_relay_metrics ka kq fb fq r kf ff wd))"
    and rates: "0 \<le> kf" "0 \<le> ff" "0 \<le> wd"
  shows "MIN_ENTRY_NET_PROFIT_KRW \<le> rm_net_profit_krw (calculate_relay_metrics ka kq fb fq r kf ff wd)"
    "0 \<le> rm_total_fee_krw (calculate_relay_metrics ka kq fb fq r kf ff wd)"
    "rm_total_fee_krw (calculate_relay_metrics ka kq fb fq r kf ff wd) <
      rm_gross_spread_krw (calculate_relay_metrics ka kq fb fq r kf ff wd)"
    "rm_match_buy_krw (calculate_relay_metrics ka kq fb fq r kf ff wd) <
      rm_match_sell_krw (calculate_relay_metrics ka kq fb fq r kf ff wd)"
proof -
  let ?m = "calculate_relay_metrics ka kq fb fq r kf ff wd"
  have ok: "0 < ka" "0 < kq" "0 < fb" "0 < fq" "0 < r"
    using entry_gate_inputs [OF refl gate] by simp_all
  show floor: "MIN_ENTRY_NET_PROFIT_KRW \<le> rm_net_profit_krw ?m"
    using gate by (simp add: entry_gate_passes_def meets_entry_profit_floor_def)
  show "0 \<le> rm_total_fee_krw ?m" "rm_total_fee_krw ?m < rm_gross_spread_krw ?m" "rm_match_buy_krw ?m < rm_match_sell_krw ?m"
    by (rule floor_covers_fees [OF ok floor rates])+
qed

text \<open>C15. When the entry gate passes on the relay metrics of a quote pair, every price, quantity
  and rate is positive, both top-of-book levels hold the target notional, the foreign sale in KRW
  exceeds the Korean purchase, and the spread covers all fees with at least the profit floor left.\<close>

theorem entry_gate_sound:
  assumes gate: "entry_gate_passes
      (rm_both_can_fill_target (calculate_relay_metrics ka kq fb fq r kf ff wd))
      (rm_match_qty (calculate_relay_metrics ka kq fb fq r kf ff wd))
      (rm_net_edge_pct (calculate_relay_metrics ka kq fb fq r kf ff wd))
      (rm_net_profit_krw (calculate_relay_metrics ka kq fb fq r kf ff wd))"
    and rates: "0 \<le> kf" "0 \<le> ff" "0 \<le> wd"
  shows "0 < ka \<and> 0 < kq \<and> 0 < fb \<and> 0 < fq \<and> 0 < r \<and>
    TARGET_ENTRY_USDT \<le> ka * kq / r \<and> TARGET_ENTRY_USDT \<le> fb * fq \<and>
    MIN_ENTRY_NET_PROFIT_KRW \<le> rm_net_profit_krw (calculate_relay_metrics ka kq fb fq r kf ff wd) \<and>
    0 \<le> rm_total_fee_krw (calculate_relay_metrics ka kq fb fq r kf ff wd) \<and>
    rm_total_fee_krw (calculate_relay_metrics ka kq fb fq r kf ff wd) <
      rm_gross_spread_krw (calculate_relay_metrics ka kq fb fq r kf ff wd) \<and>
    rm_match_buy_krw (calculate_relay_metrics ka kq fb fq r kf ff wd) <
      rm_match_sell_krw (calculate_relay_metrics ka kq fb fq r kf ff wd)"
proof -
  have pos: "0 < ka \<and> 0 < kq \<and> 0 < fb \<and> 0 < fq \<and> 0 < r" using gate by (rule entry_gate_inputs [OF refl])
  then have ok: "0 < ka" "0 < kq" "0 < fb" "0 < fq" "0 < r" by simp_all
  have "TARGET_ENTRY_USDT \<le> ka * kq / r" "TARGET_ENTRY_USDT \<le> fb * fq"
    using gate relay_fields(8) [OF relay_guard [OF ok] refl, of kf ff wd] by (simp_all add: entry_gate_passes_def)
  with pos gate_covers_fees [OF gate rates] show ?thesis by blast
qed

theorem entry_gate_sound_witness:
  "rm_match_buy_krw (calculate_relay_metrics (lit 1400) (lit 40) 1 (lit 50) (lit 1480) BITHUMB_FEE_RATE BYBIT_FEE_RATE 0) <
   rm_match_sell_krw (calculate_relay_metrics (lit 1400) (lit 40) 1 (lit 50) (lit 1480) BITHUMB_FEE_RATE BYBIT_FEE_RATE 0)"
  by (rule entry_gate_sound [THEN conjunct2, THEN conjunct2, THEN conjunct2, THEN conjunct2, THEN conjunct2,
        THEN conjunct2, THEN conjunct2, THEN conjunct2, THEN conjunct2, THEN conjunct2]) (simp_all add: gate_eval cong: let_weak_cong)

lemma exit_premium_positive:
  assumes pos: "0 < calculate_exit_premium kb fa r" and "is_double kb"
  shows "fa * r < kb" "0 < fa" "0 < r"
proof -
  have guard: "\<not> (fa \<le> 0 \<or> r \<le> 0)" using pos by (auto simp: calculate_exit_premium_def)
  with pos have "0 < ((kb - fa * r) / (fa * r)) * lit 100"
    by (simp add: calculate_exit_premium_def Let_def)
  then have q: "0 < (kb - fa * r) / (fa * r)" by (rule dmult_pos_imp) simp
  then have num: "fa * r \<noteq> NaN" by auto
  with guard show fr: "0 < fa" "0 < r" by (auto simp: dbl_pos_iff)
  then have "0 \<le> fa * r" by (rule dmult_nonneg)
  with q have "0 < kb - fa * r" by (rule ddiv_pos_imp0)
  then show "fa * r < kb" using dsub_pos_imp [OF assms(2)] by simp
qed

text \<open>The exit threshold is sound: when the exit premium reaches it, the Korean bid is above
  the price in KRW at which the foreign short is covered.\<close>

lemma exit_threshold_sound:
  assumes "should_exit (calculate_exit_premium kb fa r)" "is_double kb"
  shows "fa * r < kb \<and> 0 < fa \<and> 0 < r"
proof -
  have "0 < calculate_exit_premium kb fa r"
    using dbl_lt_le_trans [OF lit_const_pos(9)] assms(1) by (simp add: should_exit_def cfg)
  then show ?thesis using exit_premium_positive assms(2) by blast
qed

end
