(* ===== verification/Selection.thy ===== *)
theory Selection
  imports Bitset Binary64 "HOL-Library.Multiset"
begin

text \<open>
  Entry selection (\<^verbatim>\<open>include/kimp/strategy/entry_selection_bitmap.hpp\<close>): which symbols of
  the entry cache get a signal in one scan. Partially filled positions are topped up first;
  fresh candidates follow, best premium first, while slots are free. \<^verbatim>\<open>std::sort\<close> leaves the
  order of equivalent elements open; \<open>sort_by\<close> fixes the stable one, and the theorems speak
  of the comparator's order only.
\<close>

record entry_selection =
  sel_indices :: "nat list"
  sel_active_positions :: int
  sel_pending_new_signals :: int
  sel_free_slots :: int

definition sel_push :: "nat \<Rightarrow> nat \<Rightarrow> entry_selection \<Rightarrow> entry_selection" where
  "sel_push max_symbols idx r =
    (if length (sel_indices r) < max_symbols then r\<lparr>sel_indices := sel_indices r @ [idx]\<rparr> else r)"

fun insert_by :: "('a \<Rightarrow> 'a \<Rightarrow> bool) \<Rightarrow> 'a \<Rightarrow> 'a list \<Rightarrow> 'a list" where
  "insert_by lt x [] = [x]"
| "insert_by lt x (y # ys) = (if lt x y then x # y # ys else y # insert_by lt x ys)"

fun sort_by :: "('a \<Rightarrow> 'a \<Rightarrow> bool) \<Rightarrow> 'a list \<Rightarrow> 'a list" where
  "sort_by lt [] = []"
| "sort_by lt (x # xs) = insert_by (\<lambda>a b. \<not> lt b a) x (sort_by lt xs)"

fun push_fresh :: "nat \<Rightarrow> nat list \<Rightarrow> entry_selection \<Rightarrow> entry_selection" where
  "push_fresh max_symbols [] r = r"
| "push_fresh max_symbols (idx # rest) r =
    (if sel_free_slots r \<le> 0 then r
     else let r = sel_push max_symbols idx r
       in push_fresh max_symbols rest (r\<lparr>sel_free_slots := sel_free_slots r - 1\<rparr>))"

definition select_entry_candidates ::
    "nat \<Rightarrow> nat \<Rightarrow> int \<Rightarrow> atomic_bitset \<Rightarrow> atomic_bitset \<Rightarrow> nat list \<Rightarrow> (nat \<Rightarrow> dbl) \<Rightarrow> (nat \<Rightarrow> bool) \<Rightarrow> entry_selection" where
  "select_entry_candidates max_symbols symbol_count max_positions candidate_bits signaled_bits
      position_state premium_at qualified_at =
    (let active_positions = int (length (filter (\<lambda>i. position_state ! i \<noteq> 0) [0..<symbol_count]));
         pending_new_signals = int (length (filter (\<lambda>i. position_state ! i = 0) (for_each_set signaled_bits symbol_count)));
         used_slots = active_positions + pending_new_signals;
         free_slots = max_positions - used_slots;
         free_slots = (if free_slots < 0 then 0 else free_slots);
         r = \<lparr>sel_indices = [], sel_active_positions = active_positions,
              sel_pending_new_signals = pending_new_signals, sel_free_slots = free_slots\<rparr>;
         r = fold (\<lambda>idx r. if position_state ! idx = 2 \<and> qualified_at idx then sel_push max_symbols idx r else r)
               [0..<symbol_count] r;
         fresh = fold (\<lambda>idx fresh.
               let has_position = position_state ! idx \<noteq> 0; partial = position_state ! idx = 2 in
               if partial then fresh else if has_position then fresh
               else if sel_free_slots r \<le> 0 then fresh
               else if length fresh < max_symbols then fresh @ [idx] else fresh)
             (for_each_set candidate_bits symbol_count) []
     in push_fresh max_symbols (sort_by (\<lambda>lhs rhs. premium_at lhs < premium_at rhs) fresh) r)"

section \<open>Sorting with a comparator\<close>

lemma mset_insert_by [simp]: "mset (insert_by lt x xs) = add_mset x (mset xs)"
  by (induction xs) auto

lemma mset_sort_by [simp]: "mset (sort_by lt xs) = mset xs"
  by (induction xs) auto

lemma set_sort_by [simp]: "set (sort_by lt xs) = set xs"
  using mset_sort_by set_mset_mset by metis

lemma length_sort_by [simp]: "length (sort_by lt xs) = length xs"
  using mset_sort_by size_mset by metis

lemma distinct_sort_by [simp]: "distinct (sort_by lt xs) = distinct xs"
  using mset_sort_by mset_eq_imp_distinct_iff by metis

lemma set_insert_by [simp]: "set (insert_by lt x xs) = insert x (set xs)"
  using mset_insert_by [of lt x xs] by (metis set_mset_add_mset_insert set_mset_mset)

text \<open>
  The contract of a comparator, on the elements that satisfy \<open>ok\<close>: the strict weak order that
  \<^verbatim>\<open>std::sort\<close> asks for. The result of a sort has no element that ranks before an earlier one.
\<close>

locale comparator =
  fixes lt :: "'a \<Rightarrow> 'a \<Rightarrow> bool" and ok :: "'a \<Rightarrow> bool"
  assumes asym: "ok a \<Longrightarrow> ok b \<Longrightarrow> lt a b \<Longrightarrow> \<not> lt b a"
    and cotrans: "ok a \<Longrightarrow> ok b \<Longrightarrow> ok c \<Longrightarrow> lt a c \<Longrightarrow> lt a b \<or> lt b c"
begin

lemma insert_no_inversion:
  assumes "sorted_wrt (\<lambda>a b. \<not> lt b a) ys" "ok x" "\<forall>y \<in> set ys. ok y"
  shows "sorted_wrt (\<lambda>a b. \<not> lt b a) (insert_by (\<lambda>a b. \<not> lt b a) x ys)"
  using assms
proof (induction ys)
  case (Cons y ys)
  show ?case
  proof (cases "lt y x")
    case True
    then show ?thesis using Cons asym by auto
  next
    case False
    have "\<not> lt z x" if "z \<in> set ys" for z
      using that False Cons.prems cotrans [of z y x] by auto
    then show ?thesis using False Cons.prems by auto
  qed
qed simp

lemma sort_no_inversion:
  "\<forall>x \<in> set xs. ok x \<Longrightarrow> sorted_wrt (\<lambda>a b. \<not> lt b a) (sort_by lt xs)"
  by (induction xs) (auto intro: insert_no_inversion)

end

text \<open>One comparator after another, and comparators by a flag and by a number.\<close>

definition lex_then :: "('a \<Rightarrow> 'a \<Rightarrow> bool) \<Rightarrow> ('a \<Rightarrow> 'a \<Rightarrow> bool) \<Rightarrow> 'a \<Rightarrow> 'a \<Rightarrow> bool" where
  "lex_then lt1 lt2 a b \<longleftrightarrow> lt1 a b \<or> \<not> lt1 b a \<and> lt2 a b"

lemma comparator_lex:
  assumes "comparator lt1 ok" "comparator lt2 ok"
  shows "comparator (lex_then lt1 lt2) ok"
  using assms unfolding comparator_def lex_then_def by meson

lemma comparator_flag: "comparator (\<lambda>a b. f a \<and> \<not> f b) ok"
  by (simp add: comparator_def)

lemma comparator_number:
  fixes key :: "'a \<Rightarrow> dbl"
  assumes "\<And>x. ok x \<Longrightarrow> key x \<noteq> NaN"
  shows "comparator (\<lambda>a b. key a < key b) ok"
proof
  show "ok a \<Longrightarrow> ok b \<Longrightarrow> key a < key b \<Longrightarrow> \<not> key b < key a" for a b
    using dbl_lt_not_le dbl_lt_le by blast
  show "ok a \<Longrightarrow> ok b \<Longrightarrow> ok c \<Longrightarrow> key a < key c \<Longrightarrow> key a < key b \<or> key b < key c" for a b c
    using assms dbl_not_lt dbl_le_lt_trans by metis
qed

lemma comparator_flip:
  assumes "comparator lt ok"
  shows "comparator (\<lambda>a b. lt b a) ok"
proof
  show "ok a \<Longrightarrow> ok b \<Longrightarrow> lt b a \<Longrightarrow> \<not> lt a b" for a b
    using comparator.asym [OF assms] by blast
  show "ok a \<Longrightarrow> ok b \<Longrightarrow> ok c \<Longrightarrow> lt c a \<Longrightarrow> lt b a \<or> lt c b" for a b c
    using comparator.cotrans [OF assms, of c b a] by blast
qed

text \<open>On keys that are numbers, the result ascends.\<close>

lemma sort_by_sorted:
  fixes key :: "'a \<Rightarrow> dbl"
  assumes "\<And>x. x \<in> set xs \<Longrightarrow> key x \<noteq> NaN"
  shows "sorted_wrt (\<lambda>a b. key a \<le> key b) (sort_by (\<lambda>a b. key a < key b) xs)"
proof -
  have "sorted_wrt (\<lambda>a b. \<not> key b < key a) (sort_by (\<lambda>a b. key a < key b) xs)"
    using comparator.sort_no_inversion [OF comparator_number, of "\<lambda>x. key x \<noteq> NaN" key xs] assms by blast
  then show ?thesis by (rule sorted_wrt_mono_rel [rotated]) (use assms in \<open>auto simp: dbl_not_lt\<close>)
qed

section \<open>What one scan selects\<close>

lemma fold_push_filter:
  assumes "length (sel_indices r) + length xs \<le> n"
  shows "fold (\<lambda>idx r. if P idx then sel_push n idx r else r) xs r = r\<lparr>sel_indices := sel_indices r @ filter P xs\<rparr>"
  using assms
proof (induction xs arbitrary: r)
  case (Cons x xs)
  then show ?case using Cons.IH [of "sel_push n x r"] by (cases "P x") (auto simp: sel_push_def)
qed simp

lemma fold_fresh_filter:
  assumes "length acc + length xs \<le> n"
  shows "fold (\<lambda>idx fresh. if ps ! idx = 2 then fresh else if (0 :: nat) < ps ! idx then fresh
      else if free \<le> (0 :: int) then fresh else if length fresh < n then fresh @ [idx] else fresh) xs acc =
    acc @ (if free \<le> 0 then [] else filter (\<lambda>i. ps ! i = 0) xs)"
  using assms by (induction xs arbitrary: acc) auto

lemma push_fresh_take:
  assumes "length (sel_indices r) + length xs \<le> n"
  shows "sel_indices (push_fresh n xs r) = sel_indices r @ take (nat (sel_free_slots r)) xs"
  using assms
proof (induction n xs r rule: push_fresh.induct)
  case (2 n i xs r)
  then show ?case by (auto simp: Let_def sel_push_def nat_diff_distrib take_Cons' split: if_splits)
qed simp

definition fresh_candidates :: "nat \<Rightarrow> atomic_bitset \<Rightarrow> nat list \<Rightarrow> nat list" where
  "fresh_candidates symbol_count candidate_bits position_state =
     filter (\<lambda>i. position_state ! i = 0) (for_each_set candidate_bits symbol_count)"

definition free_slots :: "nat \<Rightarrow> int \<Rightarrow> atomic_bitset \<Rightarrow> nat list \<Rightarrow> nat" where
  "free_slots symbol_count max_positions signaled_bits position_state =
     nat (max_positions - int (length (filter (\<lambda>i. position_state ! i \<noteq> 0) [0..<symbol_count]))
        - int (length (filter (\<lambda>i. position_state ! i = 0) (for_each_set signaled_bits symbol_count))))"

lemma fresh_candidates_simps [simp]:
  "distinct (fresh_candidates n cb ps)"
  "set (fresh_candidates n cb ps) = {i. i < n \<and> bs_test cb i \<and> ps ! i = 0}"
  using bits.elems_distinct [of cb n] by (auto simp: fresh_candidates_def bits.set_elems)

lemma partition_bound:
  "length (filter (\<lambda>i. ps ! i = 2 \<and> q i) [0..<n]) + length (fresh_candidates n cb ps) \<le> n"
proof -
  let ?a = "filter (\<lambda>i. ps ! i = 2 \<and> q i) [0..<n]" and ?b = "fresh_candidates n cb ps"
  have "distinct (?a @ ?b)" by auto
  moreover have "set (?a @ ?b) \<subseteq> {..<n}" by auto
  ultimately have "length (?a @ ?b) \<le> card {..<n}"
    using card_mono [of "{..<n}" "set (?a @ ?b)"] distinct_card [of "?a @ ?b"] by simp
  then show ?thesis by simp
qed

lemma select_indices:
  assumes "symbol_count \<le> max_symbols"
  shows "sel_indices (select_entry_candidates max_symbols symbol_count max_positions cb sb ps prem q) =
    filter (\<lambda>i. ps ! i = 2 \<and> q i) [0..<symbol_count] @
    take (free_slots symbol_count max_positions sb ps)
      (sort_by (\<lambda>l r. prem l < prem r) (fresh_candidates symbol_count cb ps))"
proof -
  let ?part = "filter (\<lambda>i. ps ! i = 2 \<and> q i) [0..<symbol_count]"
  define free where "free = free_slots symbol_count max_positions sb ps"
  define a where "a = int (length (filter (\<lambda>i. ps ! i \<noteq> 0) [0..<symbol_count]))"
  define p where "p = int (length (filter (\<lambda>i. ps ! i = 0) (for_each_set sb symbol_count)))"
  define r where "r = \<lparr>sel_indices = ?part, sel_active_positions = a, sel_pending_new_signals = p,
      sel_free_slots = int free\<rparr>"
  let ?fr = "if int free \<le> 0 then [] else fresh_candidates symbol_count cb ps"
  have len: "length (for_each_set cb symbol_count) \<le> symbol_count"
    using length_filter_le [of "bs_test cb" "[0..<min symbol_count (bs_bits cb)]"] by (simp add: for_each_set_filter)
  have free: "(if max_positions - (a + p) < 0 then 0 else max_positions - (a + p)) = int free"
    by (simp add: free_def free_slots_def a_def p_def)
  have r: "fold (\<lambda>idx r. if ps ! idx = 2 \<and> q idx then sel_push max_symbols idx r else r) [0..<symbol_count]
      \<lparr>sel_indices = [], sel_active_positions = a, sel_pending_new_signals = p, sel_free_slots = int free\<rparr> = r"
    using assms by (simp add: fold_push_filter r_def)
  have rf: "sel_free_slots r = int free" by (simp add: r_def)
  have fr: "fold (\<lambda>idx fresh. if ps ! idx = 2 then fresh else if ps ! idx \<noteq> 0 then fresh
      else if int free \<le> 0 then fresh else if length fresh < max_symbols then fresh @ [idx] else fresh)
      (for_each_set cb symbol_count) [] = ?fr"
    using fold_fresh_filter [of "[]" "for_each_set cb symbol_count" max_symbols ps "int free"] assms len
    by (simp add: fresh_candidates_def cong: if_cong)
  have sel: "select_entry_candidates max_symbols symbol_count max_positions cb sb ps prem q =
      push_fresh max_symbols (sort_by (\<lambda>l r. prem l < prem r) ?fr) r"
    unfolding select_entry_candidates_def Let_def a_def [symmetric] p_def [symmetric] free r rf fr by (rule refl)
  have "length (filter (\<lambda>i. ps ! i = 2 \<and> q i) [0..<symbol_count]) + length (fresh_candidates symbol_count cb ps)
      \<le> symbol_count"
    using partition_bound by simp
  then have "length (sel_indices r) + length (sort_by (\<lambda>l r. prem l < prem r) ?fr) \<le> max_symbols"
    using assms by (simp add: r_def)
  from push_fresh_take [OF this] show ?thesis unfolding sel by (auto simp: r_def free_def [symmetric])
qed

text \<open>
  C16. One scan never oversubscribes the position slots: the indices it returns are distinct
  and in range, each is a partially filled, qualified position or a candidate without any
  position, and if it opens a fresh position at all then the positions already held, the
  signals still pending and the fresh picks together fit into \<open>max_positions\<close>.
\<close>

theorem selection_respects_slots:
  assumes "symbol_count \<le> max_symbols"
    and sel_def: "sel = sel_indices (select_entry_candidates max_symbols symbol_count max_positions cb sb ps prem q)"
  shows "distinct sel \<and>
    (\<forall>i \<in> set sel. i < symbol_count \<and> (ps ! i = 2 \<and> q i \<or> ps ! i = 0 \<and> bs_test cb i)) \<and>
    (filter (\<lambda>i. ps ! i = 0) sel \<noteq> [] \<longrightarrow>
      int (length (filter (\<lambda>i. ps ! i \<noteq> 0) [0..<symbol_count]))
      + int (length (filter (\<lambda>i. ps ! i = 0) (for_each_set sb symbol_count)))
      + int (length (filter (\<lambda>i. ps ! i = 0) sel)) \<le> max_positions)" (is "?d \<and> ?r \<and> ?s")
proof -
  let ?part = "filter (\<lambda>i. ps ! i = 2 \<and> q i) [0..<symbol_count]"
  let ?tk = "take (free_slots symbol_count max_positions sb ps)
      (sort_by (\<lambda>l r. prem l < prem r) (fresh_candidates symbol_count cb ps))"
  have sel: "sel = ?part @ ?tk" using select_indices [OF assms(1)] by (simp add: sel_def)
  have tk: "set ?tk \<subseteq> {i. i < symbol_count \<and> ps ! i = 0 \<and> bs_test cb i}"
    using set_take_subset [of "free_slots symbol_count max_positions sb ps"] by fastforce
  have d: ?d using tk by (auto simp: sel)
  have r: ?r using tk by (auto simp: sel)
  have "filter (\<lambda>i. ps ! i = 0) ?tk = ?tk" using tk by (auto intro!: filter_True)
  then have fresh: "filter (\<lambda>i. ps ! i = 0) sel = ?tk" by (auto simp: sel filter_empty_conv)
  have "length ?tk \<le> free_slots symbol_count max_positions sb ps" by simp
  then have ?s unfolding fresh free_slots_def by (cases ?tk) auto
  with d r show ?thesis by blast
qed

definition demo_bits :: "nat list \<Rightarrow> atomic_bitset" where
  "demo_bits is = fold (\<lambda>i. bs_set i True) is (bitset_init 4)"

definition demo_sel :: "nat list" where
  "demo_sel = sel_indices (select_entry_candidates 4 4 3 (demo_bits [0, 2]) (demo_bits []) [0, 1, 0, 2]
     (\<lambda>i. if i = 0 then 0 else Fin (-1)) (\<lambda>i. True))"

lemma demo_sel_value: "demo_sel = [3, 2]"
  by code_simp

theorem selection_respects_slots_witness:
  "int (length (filter (\<lambda>i. [0, 1, 0, 2 :: nat] ! i \<noteq> 0) [0..<4]))
      + int (length (filter (\<lambda>i. [0, 1, 0, 2 :: nat] ! i = 0) (for_each_set (demo_bits []) 4)))
      + int (length (filter (\<lambda>i. [0, 1, 0, 2 :: nat] ! i = 0) demo_sel)) \<le> 3"
proof -
  have "filter (\<lambda>i. [0, 1, 0, 2 :: nat] ! i = 0) demo_sel \<noteq> []" by (simp add: demo_sel_value)
  then show ?thesis using selection_respects_slots [OF _ demo_sel_def] by (simp del: upt_rec_numeral)
qed

text \<open>
  C17. The free slots go to the best premiums: when the premiums are numbers, a fresh candidate
  is passed over only for candidates with a premium at least as low, and only when every free
  slot is taken.
\<close>

theorem selection_takes_best_premiums:
  assumes "symbol_count \<le> max_symbols"
    and num: "\<And>i. i < symbol_count \<Longrightarrow> prem i \<noteq> NaN"
    and sel_def: "sel = sel_indices (select_entry_candidates max_symbols symbol_count max_positions cb sb ps prem q)"
    and j: "j \<in> set (fresh_candidates symbol_count cb ps)" "j \<notin> set sel"
  shows "length (filter (\<lambda>i. ps ! i = 0) sel) = free_slots symbol_count max_positions sb ps \<and>
    (\<forall>i \<in> set sel. ps ! i = 0 \<longrightarrow> prem i \<le> prem j)"
proof -
  define k where "k = free_slots symbol_count max_positions sb ps"
  define xs where "xs = sort_by (\<lambda>l r. prem l < prem r) (fresh_candidates symbol_count cb ps)"
  have xs: "set xs = set (fresh_candidates symbol_count cb ps)" by (simp add: xs_def)
  have sel: "sel = filter (\<lambda>i. ps ! i = 2 \<and> q i) [0..<symbol_count] @ take k xs"
    using select_indices [OF assms(1)] by (simp add: sel_def k_def xs_def)
  have "filter (\<lambda>i. ps ! i = 0) (take k xs) = take k xs"
    using set_take_subset [of k xs] xs by (auto intro!: filter_True)
  then have fresh: "filter (\<lambda>i. ps ! i = 0) sel = take k xs" by (auto simp: sel filter_empty_conv)
  have drop: "j \<in> set (drop k xs)"
    using j xs append_take_drop_id [of k xs] by (metis UnCI UnE sel set_append)
  then have len: "length (take k xs) = k" by (cases "k < length xs") auto
  have "sorted_wrt (\<lambda>a b. prem a \<le> prem b) (take k xs @ drop k xs)"
    unfolding append_take_drop_id xs_def using num by (intro sort_by_sorted) auto
  then have "\<forall>i \<in> set (take k xs). prem i \<le> prem j" unfolding sorted_wrt_append using drop by blast
  then have "\<forall>i \<in> set sel. ps ! i = 0 \<longrightarrow> prem i \<le> prem j" by (auto simp: sel)
  with fresh len show ?thesis by (simp add: k_def)
qed

theorem selection_takes_best_premiums_witness:
  "0 \<in> set (fresh_candidates 4 (demo_bits [0, 2]) [0, 1, 0, 2]) \<and> 0 \<notin> set demo_sel \<and>
   length (filter (\<lambda>i. [0, 1, 0, 2 :: nat] ! i = 0) demo_sel) = free_slots 4 3 (demo_bits []) [0, 1, 0, 2]"
proof -
  have j: "0 \<in> set (fresh_candidates 4 (demo_bits [0, 2]) [0, 1, 0, 2])" by code_simp
  have n: "0 \<notin> set demo_sel" by (simp add: demo_sel_value)
  show ?thesis using selection_takes_best_premiums [OF _ _ demo_sel_def j n] j n by (simp add: zero_dbl_def)
qed

end
