(* ===== verification/RingBuffer.thy ===== *)
theory RingBuffer
  imports Prelude
begin

unbundle bit_operations_syntax

text \<open>
  The ring buffers (\<^verbatim>\<open>include/kimp/memory/ring_buffer.hpp\<close>). Indices and sequence numbers
  are 64-bit words and wrap; the slots are a list of the capacity's length. Each operation is
  one call, run to completion: the loops of the multi-producer buffer retry only when another
  thread moves a position in between, so here a retry that would reload the same position is
  the value \<open>None\<close> (the call spins), and the invariant excludes it. Both buffers implement
  the interface \<open>bounded_queue\<close>.
\<close>

section \<open>The single-producer single-consumer buffer\<close>

record 'a spsc =
  sp_buffer :: "'a list"
  sp_head :: usize
  sp_tail :: usize
  sp_cached_tail :: usize
  sp_cached_head :: usize

definition index_mask :: "nat \<Rightarrow> usize" where
  "index_mask capacity = of_nat (capacity - 1)"

definition sp_mask :: "'a spsc \<Rightarrow> usize" where
  "sp_mask q = index_mask (length (sp_buffer q))"

definition spsc_init :: "'a list \<Rightarrow> 'a spsc" where
  "spsc_init slots = \<lparr>sp_buffer = slots, sp_head = 0, sp_tail = 0, sp_cached_tail = 0, sp_cached_head = 0\<rparr>"

definition spsc_try_push :: "'a \<Rightarrow> 'a spsc \<Rightarrow> bool \<times> 'a spsc" where
  "spsc_try_push item q =
    (let head = sp_head q;
         next_head = (head + 1) AND sp_mask q;
         reload = next_head = sp_cached_tail q;
         q = (if reload then q\<lparr>sp_cached_tail := sp_tail q\<rparr> else q)
     in if reload \<and> next_head = sp_cached_tail q then (False, q)
        else (True, q\<lparr>sp_buffer := (sp_buffer q)[unat head := item], sp_head := next_head\<rparr>))"

definition spsc_try_pop :: "'a spsc \<Rightarrow> 'a option \<times> 'a spsc" where
  "spsc_try_pop q =
    (let tail = sp_tail q;
         reload = tail = sp_cached_head q;
         q = (if reload then q\<lparr>sp_cached_head := sp_head q\<rparr> else q)
     in if reload \<and> tail = sp_cached_head q then (None, q)
        else (Some (sp_buffer q ! unat tail), q\<lparr>sp_tail := (tail + 1) AND sp_mask q\<rparr>))"

definition spsc_try_pop_into :: "'a \<Rightarrow> 'a spsc \<Rightarrow> bool \<times> 'a \<times> 'a spsc" where
  "spsc_try_pop_into item q =
    (case spsc_try_pop q of (None, q) \<Rightarrow> (False, item, q) | (Some x, q) \<Rightarrow> (True, x, q))"

definition spsc_peek :: "'a spsc \<Rightarrow> 'a option" where
  "spsc_peek q = (if sp_tail q = sp_head q then None else Some (sp_buffer q ! unat (sp_tail q)))"

definition spsc_empty :: "'a spsc \<Rightarrow> bool" where
  "spsc_empty q \<longleftrightarrow> sp_head q = sp_tail q"

definition spsc_size :: "'a spsc \<Rightarrow> usize" where
  "spsc_size q = (sp_head q - sp_tail q) AND sp_mask q"

definition spsc_capacity :: "'a spsc \<Rightarrow> nat" where
  "spsc_capacity q = length (sp_buffer q) - 1"

definition spsc_full :: "'a spsc \<Rightarrow> bool" where
  "spsc_full q \<longleftrightarrow> (sp_head q + 1) AND sp_mask q = sp_tail q"

definition spsc_reset :: "'a spsc \<Rightarrow> 'a spsc" where
  "spsc_reset q = q\<lparr>sp_head := 0, sp_tail := 0, sp_cached_tail := 0, sp_cached_head := 0\<rparr>"

section \<open>The multi-producer multi-consumer buffer\<close>

record 'a cell =
  cell_sequence :: usize
  cell_data :: 'a

record 'a mpmc =
  mp_buffer :: "'a cell list"
  mp_enqueue_pos :: usize
  mp_dequeue_pos :: usize

definition mp_mask :: "'a mpmc \<Rightarrow> usize" where
  "mp_mask q = index_mask (length (mp_buffer q))"

definition mpmc_init :: "'a list \<Rightarrow> 'a mpmc" where
  "mpmc_init slots =
    \<lparr>mp_buffer = map (\<lambda>i. \<lparr>cell_sequence = of_nat i, cell_data = slots ! i\<rparr>) [0..<length slots],
     mp_enqueue_pos = 0, mp_dequeue_pos = 0\<rparr>"

text \<open>The signed difference of two positions, \<^verbatim>\<open>intptr_t diff\<close>.\<close>

definition seq_diff :: "usize \<Rightarrow> usize \<Rightarrow> int" where
  "seq_diff seq pos = sint (seq - pos)"

definition mpmc_try_push :: "'a \<Rightarrow> 'a mpmc \<Rightarrow> (bool \<times> 'a mpmc) option" where
  "mpmc_try_push item q =
    (let pos = mp_enqueue_pos q;
         i = unat (pos AND mp_mask q);
         seq = cell_sequence (mp_buffer q ! i);
         diff = seq_diff seq pos
     in if diff = 0 then
          Some (True, q\<lparr>mp_enqueue_pos := pos + 1,
            mp_buffer := (mp_buffer q)[i := \<lparr>cell_sequence = pos + 1, cell_data = item\<rparr>]\<rparr>)
        else if diff < 0 then Some (False, q)
        else None)"

definition mpmc_try_pop :: "'a mpmc \<Rightarrow> ('a option \<times> 'a mpmc) option" where
  "mpmc_try_pop q =
    (let pos = mp_dequeue_pos q;
         i = unat (pos AND mp_mask q);
         cell = mp_buffer q ! i;
         diff = seq_diff (cell_sequence cell) (pos + 1)
     in if diff = 0 then
          Some (Some (cell_data cell), q\<lparr>mp_dequeue_pos := pos + 1,
            mp_buffer := (mp_buffer q)[i := cell\<lparr>cell_sequence := pos + mp_mask q + 1\<rparr>]\<rparr>)
        else if diff < 0 then Some (None, q)
        else None)"

definition mpmc_empty :: "'a mpmc \<Rightarrow> bool" where
  "mpmc_empty q =
    (let pos = mp_dequeue_pos q
     in seq_diff (cell_sequence (mp_buffer q ! unat (pos AND mp_mask q))) (pos + 1) < 0)"

definition mpmc_capacity :: "'a mpmc \<Rightarrow> nat" where
  "mpmc_capacity q = length (mp_buffer q)"

section \<open>The interface: a bounded queue\<close>

text \<open>A sequence of calls on a queue, with the items it accepted and the items it gave back.\<close>

datatype 'a qop = Push 'a | Pop

fun run_ops :: "('a \<Rightarrow> 'q \<Rightarrow> (bool \<times> 'q) option) \<Rightarrow> ('q \<Rightarrow> ('a option \<times> 'q) option) \<Rightarrow> 'a qop list \<Rightarrow> 'q \<Rightarrow>
    ('a list \<times> 'a list \<times> 'q) option" where
  "run_ops push pop [] q = Some ([], [], q)"
| "run_ops push pop (Push x # ops) q =
    (case push x q of None \<Rightarrow> None
     | Some (ok, q1) \<Rightarrow>
        (case run_ops push pop ops q1 of None \<Rightarrow> None
         | Some (ins, outs, q2) \<Rightarrow> Some (if ok then x # ins else ins, outs, q2)))"
| "run_ops push pop (Pop # ops) q =
    (case pop q of None \<Rightarrow> None
     | Some (r, q1) \<Rightarrow>
        (case run_ops push pop ops q1 of None \<Rightarrow> None
         | Some (ins, outs, q2) \<Rightarrow> Some (ins, case r of None \<Rightarrow> outs | Some x \<Rightarrow> x # outs, q2)))"

locale bounded_queue =
  fixes push :: "'a \<Rightarrow> 'q \<Rightarrow> (bool \<times> 'q) option"
    and pop :: "'q \<Rightarrow> ('a option \<times> 'q) option"
    and content :: "'q \<Rightarrow> 'a list"
    and capacity :: "'q \<Rightarrow> nat"
    and invar :: "'q \<Rightarrow> bool"
  assumes push_full: "invar q \<Longrightarrow> length (content q) = capacity q \<Longrightarrow>
      \<exists>q'. push x q = Some (False, q') \<and> invar q' \<and> content q' = content q \<and> capacity q' = capacity q"
    and push_ok: "invar q \<Longrightarrow> length (content q) < capacity q \<Longrightarrow>
      \<exists>q'. push x q = Some (True, q') \<and> invar q' \<and> content q' = content q @ [x] \<and> capacity q' = capacity q"
    and pop_empty: "invar q \<Longrightarrow> content q = [] \<Longrightarrow>
      \<exists>q'. pop q = Some (None, q') \<and> invar q' \<and> content q' = [] \<and> capacity q' = capacity q"
    and pop_ok: "invar q \<Longrightarrow> content q = x # xs \<Longrightarrow>
      \<exists>q'. pop q = Some (Some x, q') \<and> invar q' \<and> content q' = xs \<and> capacity q' = capacity q"
    and bounded: "invar q \<Longrightarrow> length (content q) \<le> capacity q"
begin

lemma push_cases:
  assumes "invar q"
  shows "(\<exists>q'. length (content q) < capacity q \<and> push x q = Some (True, q') \<and> invar q' \<and>
      content q' = content q @ [x] \<and> capacity q' = capacity q) \<or>
    (\<exists>q'. length (content q) = capacity q \<and> push x q = Some (False, q') \<and> invar q' \<and>
      content q' = content q \<and> capacity q' = capacity q)"
proof (cases "length (content q) < capacity q")
  case True
  then show ?thesis using push_ok [OF assms True, of x] by blast
next
  case False
  then have "length (content q) = capacity q" using bounded [OF assms] by simp
  then show ?thesis using push_full [OF assms, of x] by blast
qed

lemma fifo:
  assumes "invar q"
  shows "\<exists>ins outs q'. run_ops push pop ops q = Some (ins, outs, q') \<and> invar q' \<and>
    capacity q' = capacity q \<and> content q @ ins = outs @ content q'"
  using assms
proof (induction ops arbitrary: q)
  case (Cons op ops)
  show ?case
  proof (cases op)
    case (Push x)
    obtain ok q1 where 1: "push x q = Some (ok, q1)" "invar q1" "capacity q1 = capacity q"
      "content q1 = (if ok then content q @ [x] else content q)"
      using push_cases [OF Cons.prems, of x] by force
    obtain ins outs q2 where "run_ops push pop ops q1 = Some (ins, outs, q2)" "invar q2"
      "capacity q2 = capacity q1" "content q1 @ ins = outs @ content q2"
      using Cons.IH [OF 1(2)] by blast
    then show ?thesis using Push 1 by (cases ok) auto
  next
    case Pop
    obtain r q1 where 1: "pop q = Some (r, q1)" "invar q1" "capacity q1 = capacity q"
      "content q = (case r of None \<Rightarrow> content q1 | Some x \<Rightarrow> x # content q1)"
      using pop_empty [of q] pop_ok [of q] Cons.prems by (cases "content q") fastforce+
    obtain ins outs q2 where "run_ops push pop ops q1 = Some (ins, outs, q2)" "invar q2"
      "capacity q2 = capacity q1" "content q1 @ ins = outs @ content q2"
      using Cons.IH [OF 1(2)] by blast
    then show ?thesis using Pop 1 by (cases r) auto
  qed
qed simp

text \<open>Starting from an empty queue: what comes out is a prefix of what went in.\<close>

lemma fifo_empty:
  assumes "invar q" "content q = []"
  shows "\<exists>ins outs q'. run_ops push pop ops q = Some (ins, outs, q') \<and> ins = outs @ content q' \<and>
    length (content q') \<le> capacity q"
  using fifo [OF assms(1), of ops] assms(2) bounded by force

end

section \<open>Index arithmetic\<close>

lemma unat_and_index_mask:
  assumes "c = 2 ^ k" "k < 64"
  shows "unat (w AND index_mask c) = unat w mod c"
proof -
  have "index_mask c = mask k"
    using assms(1) by (simp add: index_mask_def mask_eq_exp_minus_1)
  then have "unat (w AND index_mask c) = take_bit k (unat w)"
    by (simp add: take_bit_eq_mask [symmetric] unsigned_take_bit_eq)
  then show ?thesis using assms(1) by (simp add: take_bit_eq_mod)
qed

lemma unat_add_mod:
  assumes "c = 2 ^ k" "k < 64"
  shows "unat ((d :: u64) + of_nat i) mod c = (unat d + i) mod c"
proof -
  have dvd: "c dvd 2 ^ 64" using assms le_imp_power_dvd [of k 64 "2 :: nat"] by simp
  have "unat (d + of_nat i) = (unat d + i) mod 2 ^ 64"
    by (simp add: unat_word_ariths unsigned_of_nat take_bit_eq_mod mod_add_right_eq)
  then show ?thesis using dvd by (simp add: mod_mod_cancel)
qed

lemma rot_inj:
  assumes "i < c" "j < c"
  shows "(b + i) mod c = (b + j) mod c \<longleftrightarrow> i = (j :: nat)"
proof -
  have *: "i = j" if "i \<le> j" "j < c" "(b + i) mod c = (b + j) mod c" for i j
  proof -
    have "c dvd (b + j) - (b + i)" using that by (intro mod_eq_dvd_iff_nat [THEN iffD1]) auto
    then show ?thesis using that dvd_imp_le [of c "j - i"] by (cases "j = i") auto
  qed
  then show ?thesis using assms by (metis nat_le_linear)
qed

lemma unat_of_nat_small: "n < 2 ^ 64 \<Longrightarrow> unat (of_nat n :: u64) = n"
  by (simp add: unsigned_of_nat take_bit_eq_mod)

section \<open>The multi-producer buffer is a bounded queue\<close>

definition mp_count :: "'a mpmc \<Rightarrow> nat" where
  "mp_count q = unat (mp_enqueue_pos q - mp_dequeue_pos q)"

definition mp_slot :: "'a mpmc \<Rightarrow> nat \<Rightarrow> 'a cell" where
  "mp_slot q i = mp_buffer q ! ((unat (mp_dequeue_pos q) + i) mod length (mp_buffer q))"

definition mpmc_content :: "'a mpmc \<Rightarrow> 'a list" where
  "mpmc_content q = map (\<lambda>i. cell_data (mp_slot q i)) [0..<mp_count q]"

text \<open>
  The slot \<open>i\<close> steps after the consumer's position carries the sequence number of its
  position while it is free, and one more while it is filled.
\<close>

definition mpmc_invar :: "'a mpmc \<Rightarrow> bool" where
  "mpmc_invar q \<longleftrightarrow> (\<exists>k. 0 < k \<and> k < 63 \<and> length (mp_buffer q) = 2 ^ k) \<and>
    mp_count q \<le> length (mp_buffer q) \<and>
    (\<forall>i < length (mp_buffer q). cell_sequence (mp_slot q i) =
       mp_dequeue_pos q + of_nat i + (if i < mp_count q then 1 else 0))"

lemma mpmc_cap:
  assumes "mpmc_invar q"
  obtains k where "length (mp_buffer q) = 2 ^ k" "k < 64" "1 < length (mp_buffer q)" "length (mp_buffer q) < 2 ^ 63"
proof -
  obtain k where k: "0 < k" "k < 63" "length (mp_buffer q) = 2 ^ k" using assms by (auto simp: mpmc_invar_def)
  have "2 ^ k < (2 :: nat) ^ 63" using k(2) by (intro power_strict_increasing) auto
  then show ?thesis using that k one_less_power [of "2 :: nat" k] by simp
qed

lemma mp_enqueue_eq: "mp_enqueue_pos q = mp_dequeue_pos q + of_nat (mp_count q)"
  by (simp add: mp_count_def)

lemma seq_diff_zero [simp]: "seq_diff a b = 0 \<longleftrightarrow> a = b"
  by (simp add: seq_diff_def signed_eq_0_iff)

lemma seq_diff_self [simp]: "seq_diff a a = 0"
  by simp

lemma seq_diff_neg:
  assumes "0 < n" "n < 2 ^ 63" "b = a + of_nat n"
  shows "seq_diff a b < 0"
proof -
  have "a - b = - of_nat n" using assms(3) by simp
  moreover have "sint (- of_nat n :: 64 word) = - int n"
    using assms(1,2) signed_of_int [of "- int n", where 'b = 64 and 'a = int] by (simp add: signed_take_bit_int_eq_self)
  ultimately show ?thesis using assms(1) by (simp add: seq_diff_def)
qed

lemma mpmc_push_ok:
  assumes inv: "mpmc_invar q" and room: "mp_count q < length (mp_buffer q)"
  shows "\<exists>q'. mpmc_try_push x q = Some (True, q') \<and> mpmc_invar q' \<and> mpmc_content q' = mpmc_content q @ [x] \<and>
    mpmc_capacity q' = mpmc_capacity q"
proof -
  obtain k where c: "length (mp_buffer q) = 2 ^ k" "k < 64" and lim: "length (mp_buffer q) < 2 ^ 63"
    using mpmc_cap [OF inv] by blast
  let ?c = "length (mp_buffer q)" and ?n = "mp_count q" and ?D = "unat (mp_dequeue_pos q)"
  let ?at = "(?D + ?n) mod ?c"
  define q' where "q' = q\<lparr>mp_enqueue_pos := mp_enqueue_pos q + 1,
      mp_buffer := (mp_buffer q)[?at := \<lparr>cell_sequence = mp_enqueue_pos q + 1, cell_data = x\<rparr>]\<rparr>"
  have idx: "unat (mp_enqueue_pos q AND mp_mask q) = ?at"
    unfolding mp_mask_def mp_enqueue_eq unat_and_index_mask [OF c] unat_add_mod [OF c] ..
  have "cell_sequence (mp_buffer q ! ?at) = mp_enqueue_pos q"
    using inv room mp_enqueue_eq [of q] by (auto simp: mpmc_invar_def mp_slot_def)
  then have call: "mpmc_try_push x q = Some (True, q')"
    by (simp add: mpmc_try_push_def Let_def idx q'_def)
  have at: "?at < ?c" using c by simp
  have n': "mp_count q' = ?n + 1"
  proof -
    have "mp_enqueue_pos q' - mp_dequeue_pos q' = of_nat (?n + 1)"
      by (simp add: q'_def mp_enqueue_eq [of q])
    then show ?thesis using room lim unat_of_nat_small [of "?n + 1"] by (simp add: mp_count_def)
  qed
  have slot: "mp_slot q' i = (if i = ?n then \<lparr>cell_sequence = mp_enqueue_pos q + 1, cell_data = x\<rparr> else mp_slot q i)"
    if "i < ?c" for i
    using rot_inj [OF that room, of ?D] at by (auto simp: mp_slot_def q'_def nth_list_update)
  have "mpmc_invar q'"
    unfolding mpmc_invar_def n'
  proof (intro conjI allI impI)
    show "\<exists>k>0. k < 63 \<and> length (mp_buffer q') = 2 ^ k" using inv by (simp add: mpmc_invar_def q'_def)
    show "?n + 1 \<le> length (mp_buffer q')" using room by (simp add: q'_def)
    fix i assume "i < length (mp_buffer q')"
    then have i: "i < ?c" by (simp add: q'_def)
    have "cell_sequence (mp_slot q i) = mp_dequeue_pos q + of_nat i + (if i < ?n then 1 else 0)"
      using inv i by (simp add: mpmc_invar_def)
    moreover have "mp_dequeue_pos q' = mp_dequeue_pos q" by (simp add: q'_def)
    ultimately show "cell_sequence (mp_slot q' i) = mp_dequeue_pos q' + of_nat i + (if i < ?n + 1 then 1 else 0)"
      using mp_enqueue_eq [of q] by (simp add: slot [OF i])
  qed
  moreover have "mpmc_content q' = mpmc_content q @ [x]"
    using slot room by (simp add: mpmc_content_def n' map_upt_Suc)
  ultimately show ?thesis using call by (simp add: mpmc_capacity_def q'_def)
qed

lemma mpmc_push_full:
  assumes inv: "mpmc_invar q" and full: "mp_count q = length (mp_buffer q)"
  shows "mpmc_try_push x q = Some (False, q)"
proof -
  obtain k where c: "length (mp_buffer q) = 2 ^ k" "k < 64" and lim: "1 < length (mp_buffer q)" "length (mp_buffer q) < 2 ^ 63"
    using mpmc_cap [OF inv] by blast
  let ?c = "length (mp_buffer q)" and ?D = "unat (mp_dequeue_pos q)"
  have idx: "unat (mp_enqueue_pos q AND mp_mask q) = (?D + 0) mod ?c"
    unfolding mp_mask_def mp_enqueue_eq unat_and_index_mask [OF c] unat_add_mod [OF c] full by simp
  have seq: "cell_sequence (mp_slot q 0) = mp_dequeue_pos q + 1"
    using inv lim full by (auto simp: mpmc_invar_def)
  have "seq_diff (mp_dequeue_pos q + 1) (mp_enqueue_pos q) < 0"
    using lim by (intro seq_diff_neg [of "?c - 1"]) (auto simp: mp_enqueue_eq [of q] full of_nat_diff)
  then show ?thesis using seq by (auto simp: mpmc_try_push_def Let_def idx mp_slot_def)
qed

lemma mpmc_pop_ok:
  assumes inv: "mpmc_invar q" and item: "0 < mp_count q"
  shows "\<exists>q'. mpmc_try_pop q = Some (Some (cell_data (mp_slot q 0)), q') \<and> mpmc_invar q' \<and>
    mpmc_content q' = tl (mpmc_content q) \<and> mpmc_capacity q' = mpmc_capacity q"
proof -
  obtain k where c: "length (mp_buffer q) = 2 ^ k" "k < 64" and lim: "length (mp_buffer q) < 2 ^ 63"
    using mpmc_cap [OF inv] by blast
  let ?c = "length (mp_buffer q)" and ?n = "mp_count q" and ?D = "unat (mp_dequeue_pos q)"
  have le: "?n \<le> ?c" using inv by (simp add: mpmc_invar_def)
  define q' where "q' = q\<lparr>mp_dequeue_pos := mp_dequeue_pos q + 1,
      mp_buffer := (mp_buffer q)[?D mod ?c := (mp_slot q 0)\<lparr>cell_sequence := mp_dequeue_pos q + mp_mask q + 1\<rparr>]\<rparr>"
  have idx: "unat (mp_dequeue_pos q AND mp_mask q) = ?D mod ?c"
    unfolding mp_mask_def unat_and_index_mask [OF c] ..
  have "cell_sequence (mp_slot q 0) = mp_dequeue_pos q + 1"
    using inv item le by (auto simp: mpmc_invar_def)
  then have call: "mpmc_try_pop q = Some (Some (cell_data (mp_slot q 0)), q')"
    by (simp add: mpmc_try_pop_def Let_def idx q'_def mp_slot_def)
  have at: "?D mod ?c < ?c" using c by simp
  have msk: "mp_mask q + 1 = of_nat ?c"
    using c(1) by (simp add: mp_mask_def index_mask_def of_nat_diff)
  have n': "mp_count q' = ?n - 1"
  proof -
    have "mp_enqueue_pos q' - mp_dequeue_pos q' = of_nat (?n - 1)"
      using item by (simp add: q'_def mp_enqueue_eq [of q] of_nat_diff)
    then show ?thesis using le lim unat_of_nat_small [of "?n - 1"] by (simp add: mp_count_def)
  qed
  have rot: "(unat (mp_dequeue_pos q + 1) + i) mod ?c = (?D + Suc i) mod ?c" for i
    using unat_add_mod [OF c, of "mp_dequeue_pos q" 1] mod_add_cong [of _ ?c "?D + 1" i i] by simp
  have slot: "mp_slot q' i = (if Suc i = ?c then (mp_slot q 0)\<lparr>cell_sequence := mp_dequeue_pos q + mp_mask q + 1\<rparr>
      else mp_slot q (Suc i))" if "i < ?c" for i
  proof (cases "Suc i = ?c")
    case True
    then show ?thesis using at by (simp add: mp_slot_def q'_def rot)
  next
    case False
    then have "(?D + 0) mod ?c \<noteq> (?D + Suc i) mod ?c"
      using rot_inj [of 0 ?c "Suc i" ?D] that by linarith
    then show ?thesis using False at by (simp add: mp_slot_def q'_def rot)
  qed
  have "mpmc_invar q'"
    unfolding mpmc_invar_def n'
  proof (intro conjI allI impI)
    show "\<exists>k>0. k < 63 \<and> length (mp_buffer q') = 2 ^ k" using inv by (simp add: mpmc_invar_def q'_def)
    show "?n - 1 \<le> length (mp_buffer q')" using le by (simp add: q'_def)
    fix i assume "i < length (mp_buffer q')"
    then have i: "i < ?c" by (simp add: q'_def)
    have d: "mp_dequeue_pos q' = mp_dequeue_pos q + 1" by (simp add: q'_def)
    show "cell_sequence (mp_slot q' i) = mp_dequeue_pos q' + of_nat i + (if i < ?n - 1 then 1 else 0)"
    proof (cases "Suc i = ?c")
      case True
      then have "\<not> i < ?n - 1" using le by linarith
      moreover have "of_nat ?c = (1 + of_nat i :: u64)" unfolding True [symmetric] by simp
      ultimately show ?thesis using True msk by (simp add: slot [OF i] d add.assoc)
    next
      case False
      then have "cell_sequence (mp_slot q (Suc i)) = mp_dequeue_pos q + of_nat (Suc i) + (if Suc i < ?n then 1 else 0)"
        using inv i by (simp add: mpmc_invar_def)
      moreover have "i < ?n - 1 \<longleftrightarrow> Suc i < ?n" by linarith
      ultimately show ?thesis using False by (simp add: slot [OF i] d)
    qed
  qed
  moreover have "mpmc_content q' = tl (mpmc_content q)"
  proof (rule nth_equalityI)
    show "length (mpmc_content q') = length (tl (mpmc_content q))" by (simp add: mpmc_content_def n')
    fix i assume "i < length (mpmc_content q')"
    then have "i < ?n - 1" by (simp add: mpmc_content_def n')
    moreover from this have "Suc i \<noteq> ?c" "i < ?c" "Suc i < ?n" using le by auto
    ultimately show "mpmc_content q' ! i = tl (mpmc_content q) ! i"
      using slot [of i] by (simp add: mpmc_content_def n' nth_tl)
  qed
  ultimately show ?thesis using call by (simp add: mpmc_capacity_def q'_def)
qed

lemma mpmc_pop_empty:
  assumes inv: "mpmc_invar q" and "mp_count q = 0"
  shows "mpmc_try_pop q = Some (None, q)"
proof -
  obtain k where c: "length (mp_buffer q) = 2 ^ k" "k < 64" using mpmc_cap [OF inv] by blast
  have "cell_sequence (mp_slot q 0) = mp_dequeue_pos q" using assms c by (auto simp: mpmc_invar_def)
  moreover have "seq_diff (mp_dequeue_pos q) (mp_dequeue_pos q + 1) < 0" by (rule seq_diff_neg [of 1]) auto
  ultimately show ?thesis
    by (auto simp: mpmc_try_pop_def Let_def mp_slot_def mp_mask_def unat_and_index_mask [OF c])
qed

lemma mpmc_content_nil: "mpmc_content q = [] \<longleftrightarrow> mp_count q = 0"
  by (simp add: mpmc_content_def)

lemma length_mpmc_content: "length (mpmc_content q) = mp_count q"
  by (simp add: mpmc_content_def)

interpretation mpmc: bounded_queue mpmc_try_push mpmc_try_pop mpmc_content mpmc_capacity mpmc_invar
proof unfold_locales
  fix q :: "'a mpmc" and x xs
  assume inv: "mpmc_invar q"
  show "length (mpmc_content q) \<le> mpmc_capacity q" using inv by (simp add: mpmc_invar_def mpmc_capacity_def length_mpmc_content)
  show "\<exists>q'. mpmc_try_push x q = Some (False, q') \<and> mpmc_invar q' \<and> mpmc_content q' = mpmc_content q \<and>
      mpmc_capacity q' = mpmc_capacity q" if "length (mpmc_content q) = mpmc_capacity q"
    using mpmc_push_full [OF inv] inv that by (simp add: mpmc_capacity_def length_mpmc_content)
  show "\<exists>q'. mpmc_try_push x q = Some (True, q') \<and> mpmc_invar q' \<and> mpmc_content q' = mpmc_content q @ [x] \<and>
      mpmc_capacity q' = mpmc_capacity q" if "length (mpmc_content q) < mpmc_capacity q"
    using mpmc_push_ok [OF inv] that by (simp add: mpmc_capacity_def length_mpmc_content)
  show "\<exists>q'. mpmc_try_pop q = Some (None, q') \<and> mpmc_invar q' \<and> mpmc_content q' = [] \<and>
      mpmc_capacity q' = mpmc_capacity q" if "mpmc_content q = []"
    using mpmc_pop_empty [OF inv] inv that by (simp add: mpmc_content_nil)
  show "\<exists>q'. mpmc_try_pop q = Some (Some x, q') \<and> mpmc_invar q' \<and> mpmc_content q' = xs \<and>
      mpmc_capacity q' = mpmc_capacity q" if "mpmc_content q = x # xs"
  proof -
    have "0 < mp_count q" using that mpmc_content_nil [of q] by (cases "mp_count q") auto
    moreover from this have "cell_data (mp_slot q 0) = x"
      using that by (simp add: mpmc_content_def upt_conv_Cons)
    ultimately show ?thesis using mpmc_pop_ok [OF inv] that by simp
  qed
qed

section \<open>The single-producer buffer is a bounded queue\<close>

definition ring_dist :: "nat \<Rightarrow> usize \<Rightarrow> usize \<Rightarrow> nat" where
  "ring_dist c a b = (if unat a \<le> unat b then unat b - unat a else c + unat b - unat a)"

definition sp_count :: "'a spsc \<Rightarrow> nat" where
  "sp_count q = ring_dist (length (sp_buffer q)) (sp_tail q) (sp_head q)"

definition spsc_content :: "'a spsc \<Rightarrow> 'a list" where
  "spsc_content q = map (\<lambda>i. sp_buffer q ! ((unat (sp_tail q) + i) mod length (sp_buffer q))) [0..<sp_count q]"

text \<open>The cached indices lag behind: the producer sees at least, the consumer at most what is queued.\<close>

definition spsc_invar :: "'a spsc \<Rightarrow> bool" where
  "spsc_invar q \<longleftrightarrow> (\<exists>k. k < 64 \<and> length (sp_buffer q) = 2 ^ k) \<and>
    unat (sp_head q) < length (sp_buffer q) \<and> unat (sp_tail q) < length (sp_buffer q) \<and>
    unat (sp_cached_tail q) < length (sp_buffer q) \<and> unat (sp_cached_head q) < length (sp_buffer q) \<and>
    sp_count q \<le> ring_dist (length (sp_buffer q)) (sp_cached_tail q) (sp_head q) \<and>
    ring_dist (length (sp_buffer q)) (sp_tail q) (sp_cached_head q) \<le> sp_count q"

lemma ring_next:
  assumes "k < 64" "length xs = 2 ^ k" "unat w < length xs"
  shows "unat ((w + 1) AND index_mask (length xs)) = (if unat w + 1 = length xs then 0 else unat w + 1)"
proof -
  have "unat ((w + 1) AND index_mask (length xs)) = (unat w + 1) mod length xs"
    using unat_and_index_mask [OF assms(2,1)] unat_add_mod [OF assms(2,1), of w 1] by simp
  then show ?thesis using assms(3) by auto
qed

lemma ring_dist_less: "unat a < c \<Longrightarrow> unat b < c \<Longrightarrow> ring_dist c a b < c"
  by (auto simp: ring_dist_def)

lemma ring_dist_zero [simp]: "unat b < c \<Longrightarrow> unat a < c \<Longrightarrow> ring_dist c a b = 0 \<longleftrightarrow> a = b"
  by (auto simp: ring_dist_def word_unat_eq_iff)

lemma ring_dist_next_to:
  assumes "unat a < c" "unat b < c" "unat b' = (if unat b + 1 = c then 0 else unat b + 1)"
  shows "b' = a \<longleftrightarrow> ring_dist c a b = c - 1" and "b' \<noteq> a \<Longrightarrow> ring_dist c a b' = ring_dist c a b + 1"
  using assms by (auto simp: ring_dist_def word_unat_eq_iff split: if_splits)

lemma ring_dist_next_from:
  assumes "unat a < c" "unat b < c" "a \<noteq> b" "unat a' = (if unat a + 1 = c then 0 else unat a + 1)"
  shows "ring_dist c a' b = ring_dist c a b - 1"
  using assms by (auto simp: ring_dist_def word_unat_eq_iff split: if_splits)

lemma ring_dist_end: "unat a < c \<Longrightarrow> unat b < c \<Longrightarrow> (unat a + ring_dist c a b) mod c = unat b"
  by (auto simp: ring_dist_def)

lemma spsc_push:
  assumes inv: "spsc_invar q"
  shows "\<exists>q'. spsc_try_push x q = (sp_count q < spsc_capacity q, q') \<and> spsc_invar q' \<and>
    spsc_content q' = (if sp_count q < spsc_capacity q then spsc_content q @ [x] else spsc_content q) \<and>
    spsc_capacity q' = spsc_capacity q"
proof -
  obtain k where k: "k < 64" "length (sp_buffer q) = 2 ^ k" using inv by (auto simp: spsc_invar_def)
  let ?c = "length (sp_buffer q)" and ?h = "(sp_head q + 1) AND sp_mask q"
  have lt: "unat (sp_head q) < ?c" "unat (sp_tail q) < ?c" "unat (sp_cached_tail q) < ?c" "unat (sp_cached_head q) < ?c"
    using inv by (auto simp: spsc_invar_def)
  have lag: "sp_count q \<le> ring_dist ?c (sp_cached_tail q) (sp_head q)"
    "ring_dist ?c (sp_tail q) (sp_cached_head q) \<le> sp_count q" using inv by (auto simp: spsc_invar_def)
  have h: "unat ?h = (if unat (sp_head q) + 1 = ?c then 0 else unat (sp_head q) + 1)"
    unfolding sp_mask_def by (rule ring_next [OF k lt(1)])
  have hc: "unat ?h < ?c" using h lt(1) by auto
  have full: "?h = sp_tail q \<longleftrightarrow> sp_count q = ?c - 1"
    unfolding sp_count_def by (rule ring_dist_next_to(1) [OF lt(2,1) h])
  have cfull: "?h = sp_cached_tail q \<longleftrightarrow> ring_dist ?c (sp_cached_tail q) (sp_head q) = ?c - 1"
    by (rule ring_dist_next_to(1) [OF lt(3,1) h])
  have n: "sp_count q < ?c" using ring_dist_less [OF lt(2,1)] by (simp add: sp_count_def)
  define q1 where "q1 = (if ?h = sp_cached_tail q then q\<lparr>sp_cached_tail := sp_tail q\<rparr> else q)"
  show ?thesis
  proof (cases "sp_count q = ?c - 1")
    case True
    then have "?h = sp_tail q" "?h = sp_cached_tail q"
      using full cfull lag(1) ring_dist_less [OF lt(3,1)] by auto
    then have "spsc_try_push x q = (False, q\<lparr>sp_cached_tail := sp_tail q\<rparr>)"
      by (simp add: spsc_try_push_def Let_def)
    then show ?thesis
      using inv True by (auto simp: spsc_invar_def spsc_content_def sp_count_def spsc_capacity_def)
  next
    case False
    then have ne: "?h \<noteq> sp_tail q" using full by simp
    define q' where "q' = q1\<lparr>sp_buffer := (sp_buffer q)[unat (sp_head q) := x], sp_head := ?h\<rparr>"
    have f: "sp_tail q' = sp_tail q" "sp_head q' = ?h" "sp_cached_head q' = sp_cached_head q"
      "sp_buffer q' = (sp_buffer q)[unat (sp_head q) := x]"
      "sp_cached_tail q' = (if ?h = sp_cached_tail q then sp_tail q else sp_cached_tail q)"
      by (auto simp: q'_def q1_def)
    have call: "spsc_try_push x q = (True, q')"
      using ne by (auto simp: spsc_try_push_def Let_def q'_def q1_def)
    have n': "sp_count q' = sp_count q + 1"
      using ring_dist_next_to(2) [OF lt(2,1) h ne] by (simp add: sp_count_def f)
    have "sp_count q' \<le> ring_dist ?c (sp_cached_tail q') (sp_head q')"
      using ring_dist_next_to(2) [OF lt(3,1) h] lag(1) n' by (auto simp: f sp_count_def)
    then have "spsc_invar q'" using inv hc lag(2) n' k by (auto simp: spsc_invar_def f)
    moreover have "spsc_content q' = spsc_content q @ [x]"
    proof -
      have last: "(unat (sp_tail q) + sp_count q) mod ?c = unat (sp_head q)"
        unfolding sp_count_def by (rule ring_dist_end [OF lt(2,1)])
      then have "unat (sp_head q) \<noteq> (unat (sp_tail q) + i) mod ?c" if "i < sp_count q" for i
        using rot_inj [of i ?c "sp_count q" "unat (sp_tail q)"] that n by simp
      then show ?thesis using last lt(1) by (simp add: spsc_content_def n' f nth_list_update_neq)
    qed
    ultimately show ?thesis using call False n by (auto simp: spsc_capacity_def f)
  qed
qed

lemma spsc_pop:
  assumes inv: "spsc_invar q"
  shows "\<exists>q'. spsc_try_pop q = (case spsc_content q of [] \<Rightarrow> None | x # _ \<Rightarrow> Some x, q') \<and> spsc_invar q' \<and>
    spsc_content q' = tl (spsc_content q) \<and> spsc_capacity q' = spsc_capacity q"
proof -
  obtain k where k: "k < 64" "length (sp_buffer q) = 2 ^ k" using inv by (auto simp: spsc_invar_def)
  let ?c = "length (sp_buffer q)" and ?t = "(sp_tail q + 1) AND sp_mask q"
  have lt: "unat (sp_head q) < ?c" "unat (sp_tail q) < ?c" "unat (sp_cached_tail q) < ?c" "unat (sp_cached_head q) < ?c"
    using inv by (auto simp: spsc_invar_def)
  have lag: "sp_count q \<le> ring_dist ?c (sp_cached_tail q) (sp_head q)"
    "ring_dist ?c (sp_tail q) (sp_cached_head q) \<le> sp_count q" using inv by (auto simp: spsc_invar_def)
  have t: "unat ?t = (if unat (sp_tail q) + 1 = ?c then 0 else unat (sp_tail q) + 1)"
    unfolding sp_mask_def by (rule ring_next [OF k lt(2)])
  have tc: "unat ?t < ?c" using t lt(2) by auto
  have empty: "sp_count q = 0 \<longleftrightarrow> sp_tail q = sp_head q"
    unfolding sp_count_def by (rule ring_dist_zero [OF lt(1,2)])
  define q1 where "q1 = (if sp_tail q = sp_cached_head q then q\<lparr>sp_cached_head := sp_head q\<rparr> else q)"
  show ?thesis
  proof (cases "sp_count q = 0")
    case True
    then have "sp_tail q = sp_cached_head q" using lag(2) lt by simp
    then have "spsc_try_pop q = (None, q\<lparr>sp_cached_head := sp_head q\<rparr>)"
      using True empty by (simp add: spsc_try_pop_def Let_def)
    then show ?thesis
      using inv True by (auto simp: spsc_invar_def spsc_content_def sp_count_def spsc_capacity_def)
  next
    case False
    then have ne: "sp_tail q \<noteq> sp_head q" using empty by simp
    define q' where "q' = q1\<lparr>sp_tail := ?t\<rparr>"
    have f: "sp_tail q' = ?t" "sp_head q' = sp_head q" "sp_buffer q' = sp_buffer q" "sp_cached_tail q' = sp_cached_tail q"
      "sp_cached_head q' = (if sp_tail q = sp_cached_head q then sp_head q else sp_cached_head q)"
      by (auto simp: q'_def q1_def)
    have call: "spsc_try_pop q = (Some (sp_buffer q ! unat (sp_tail q)), q')"
      using ne by (auto simp: spsc_try_pop_def Let_def q'_def q1_def sp_mask_def)
    have n': "sp_count q' = sp_count q - 1"
      using ring_dist_next_from [OF lt(2,1) ne t] by (simp add: sp_count_def f)
    have "ring_dist ?c ?t (sp_cached_head q') \<le> sp_count q'"
    proof (cases "sp_tail q = sp_cached_head q")
      case True
      then show ?thesis using ring_dist_next_from [OF lt(2,1) ne t] n' by (simp add: f sp_count_def)
    next
      case False
      then show ?thesis using ring_dist_next_from [OF lt(2,4) False t] lag(2) n' by (simp add: f)
    qed
    moreover have "unat (sp_cached_head q') < ?c" "sp_count q' \<le> ring_dist ?c (sp_cached_tail q) (sp_head q)"
      using lt lag(1) n' by (auto simp: f)
    ultimately have "spsc_invar q'" using k lt tc unfolding spsc_invar_def f(1-4) by blast
    moreover have cons: "spsc_content q = sp_buffer q ! unat (sp_tail q) # spsc_content q'"
    proof (rule nth_equalityI)
      show "length (spsc_content q) = length (sp_buffer q ! unat (sp_tail q) # spsc_content q')"
        using False by (simp add: spsc_content_def n')
      fix i assume "i < length (spsc_content q)"
      then have i: "i < sp_count q" by (simp add: spsc_content_def)
      have "(unat ?t + j) mod ?c = (unat (sp_tail q) + Suc j) mod ?c" for j
      proof (cases "unat (sp_tail q) + 1 = ?c")
        case True
        then have "unat (sp_tail q) + Suc j = ?c + j" by simp
        moreover have "unat ?t = 0" using t True by simp
        ultimately show ?thesis by (simp only: mod_add_self1 add_0)
      qed (simp add: t)
      then show "spsc_content q ! i = (sp_buffer q ! unat (sp_tail q) # spsc_content q') ! i"
        using i lt(2) n' by (cases i) (auto simp: spsc_content_def f)
    qed
    ultimately show ?thesis using call by (simp add: spsc_capacity_def f(3))
  qed
qed

lemma length_spsc_content [simp]: "length (spsc_content q) = sp_count q"
  by (simp add: spsc_content_def)

lemma spsc_count_bound: "spsc_invar q \<Longrightarrow> sp_count q \<le> spsc_capacity q"
  using ring_dist_less [of "sp_tail q" "length (sp_buffer q)" "sp_head q"]
  by (auto simp: spsc_invar_def sp_count_def spsc_capacity_def)

interpretation spsc: bounded_queue "\<lambda>x q. Some (spsc_try_push x q)" "\<lambda>q. Some (spsc_try_pop q)"
  spsc_content spsc_capacity spsc_invar
proof unfold_locales
  fix q :: "'a spsc" and x xs
  assume inv: "spsc_invar q"
  show "length (spsc_content q) \<le> spsc_capacity q" using spsc_count_bound [OF inv] by simp
  show "\<exists>q'. Some (spsc_try_push x q) = Some (False, q') \<and> spsc_invar q' \<and> spsc_content q' = spsc_content q \<and>
      spsc_capacity q' = spsc_capacity q" if "length (spsc_content q) = spsc_capacity q"
    using spsc_push [OF inv, of x] that by auto
  show "\<exists>q'. Some (spsc_try_push x q) = Some (True, q') \<and> spsc_invar q' \<and> spsc_content q' = spsc_content q @ [x] \<and>
      spsc_capacity q' = spsc_capacity q" if "length (spsc_content q) < spsc_capacity q"
    using spsc_push [OF inv, of x] that by auto
  show "\<exists>q'. Some (spsc_try_pop q) = Some (None, q') \<and> spsc_invar q' \<and> spsc_content q' = [] \<and>
      spsc_capacity q' = spsc_capacity q" if "spsc_content q = []"
    using spsc_pop [OF inv] that by auto
  show "\<exists>q'. Some (spsc_try_pop q) = Some (Some x, q') \<and> spsc_invar q' \<and> spsc_content q' = xs \<and>
      spsc_capacity q' = spsc_capacity q" if "spsc_content q = x # xs"
    using spsc_pop [OF inv] that by auto
qed

section \<open>Construction and observers\<close>

lemma mpmc_init_invar:
  assumes "0 < k" "k < 63" "length slots = 2 ^ k"
  shows "mpmc_invar (mpmc_init slots)" and "mpmc_content (mpmc_init slots) = []"
    and "mpmc_capacity (mpmc_init slots) = 2 ^ k"
proof -
  have "mp_count (mpmc_init slots) = 0" by (simp add: mp_count_def mpmc_init_def)
  then show "mpmc_invar (mpmc_init slots)" "mpmc_content (mpmc_init slots) = []"
    using assms by (auto simp: mpmc_invar_def mpmc_init_def mp_slot_def mpmc_content_nil)
  show "mpmc_capacity (mpmc_init slots) = 2 ^ k" using assms by (simp add: mpmc_capacity_def mpmc_init_def)
qed

lemma mpmc_empty_iff:
  assumes inv: "mpmc_invar q"
  shows "mpmc_empty q \<longleftrightarrow> mpmc_content q = []"
proof -
  obtain k where c: "length (mp_buffer q) = 2 ^ k" "k < 64" using mpmc_cap [OF inv] by blast
  have "cell_sequence (mp_slot q 0) = mp_dequeue_pos q + (if 0 < mp_count q then 1 else 0)"
    using assms c by (auto simp: mpmc_invar_def)
  moreover have "seq_diff (mp_dequeue_pos q) (mp_dequeue_pos q + 1) < 0" by (rule seq_diff_neg [of 1]) auto
  ultimately show ?thesis
    by (auto simp: mpmc_empty_def Let_def mp_slot_def mp_mask_def mpmc_content_nil unat_and_index_mask [OF c])
qed

lemma spsc_init_invar:
  assumes "k < 64" "length slots = 2 ^ k"
  shows "spsc_invar (spsc_init slots)" and "spsc_content (spsc_init slots) = []"
  using assms by (auto simp: spsc_invar_def spsc_init_def spsc_content_def sp_count_def ring_dist_def)

lemma spsc_size_count:
  assumes inv: "spsc_invar q"
  shows "unat (spsc_size q) = sp_count q"
proof -
  obtain k where k: "k < 64" "length (sp_buffer q) = 2 ^ k" using inv by (auto simp: spsc_invar_def)
  let ?c = "length (sp_buffer q)" and ?n = "sp_count q"
  have lt: "unat (sp_head q) < ?c" "unat (sp_tail q) < ?c" using inv by (auto simp: spsc_invar_def)
  have "sp_head q = (sp_head q - sp_tail q) + of_nat (unat (sp_tail q))" by simp
  then have "unat (sp_head q) mod ?c = (unat (sp_head q - sp_tail q) + unat (sp_tail q)) mod ?c"
    using unat_add_mod [OF k(2,1), of "sp_head q - sp_tail q" "unat (sp_tail q)"] by simp
  also have "unat (sp_head q) mod ?c = (?n + unat (sp_tail q)) mod ?c"
    using ring_dist_end [OF lt(2,1)] lt(1) by (simp add: sp_count_def add.commute)
  finally have "(unat (sp_tail q) + ?n) mod ?c = (unat (sp_tail q) + unat (sp_head q - sp_tail q) mod ?c) mod ?c"
    by (simp add: add.commute mod_add_right_eq)
  then have "?n = unat (sp_head q - sp_tail q) mod ?c"
    using rot_inj [of ?n ?c "unat (sp_head q - sp_tail q) mod ?c" "unat (sp_tail q)"]
      ring_dist_less [OF lt(2,1)] k(2) by (simp add: sp_count_def)
  then show ?thesis by (simp add: spsc_size_def sp_mask_def unat_and_index_mask [OF k(2,1)])
qed

text \<open>
  The observers of the single-producer buffer agree with its content: \<open>size\<close> is the number
  of queued items, \<open>empty\<close> and \<open>full\<close> hold exactly at none and at the capacity (one slot below
  the array's length), and \<open>peek\<close> is the item that the next \<open>try_pop\<close> returns.
\<close>

lemma spsc_observers:
  assumes inv: "spsc_invar q"
  shows "unat (spsc_size q) = length (spsc_content q) \<and>
    (spsc_empty q \<longleftrightarrow> spsc_content q = []) \<and>
    (spsc_full q \<longleftrightarrow> length (spsc_content q) = spsc_capacity q) \<and>
    spsc_peek q = fst (spsc_try_pop q)"
proof -
  obtain k where k: "k < 64" "length (sp_buffer q) = 2 ^ k" using inv by (auto simp: spsc_invar_def)
  let ?c = "length (sp_buffer q)"
  have lt: "unat (sp_head q) < ?c" "unat (sp_tail q) < ?c" using inv by (auto simp: spsc_invar_def)
  have zero: "sp_count q = 0 \<longleftrightarrow> sp_tail q = sp_head q"
    unfolding sp_count_def by (rule ring_dist_zero [OF lt])
  have e: "spsc_empty q \<longleftrightarrow> spsc_content q = []"
    using zero by (auto simp: spsc_empty_def spsc_content_def)
  have f: "spsc_full q \<longleftrightarrow> sp_count q = spsc_capacity q"
    unfolding spsc_full_def spsc_capacity_def sp_count_def sp_mask_def
    by (rule ring_dist_next_to(1) [OF lt(2,1) ring_next [OF k lt(1)]])
  have "spsc_peek q = (case spsc_content q of [] \<Rightarrow> None | x # _ \<Rightarrow> Some x)"
    using zero lt(2) by (auto simp: spsc_peek_def spsc_content_def upt_conv_Cons)
  then have "spsc_peek q = fst (spsc_try_pop q)" using spsc_pop [OF inv] by auto
  with e f spsc_size_count [OF inv] show ?thesis by simp
qed



text \<open>The ticker queue is first-in first-out for any sequence of calls.\<close>

lemma spsc_fifo:
  assumes "k < 64" "length slots = 2 ^ k"
  shows "\<exists>ins outs q. run_ops (\<lambda>x q. Some (spsc_try_push x q)) (\<lambda>q. Some (spsc_try_pop q)) ops (spsc_init slots) = Some (ins, outs, q) \<and>
    ins = outs @ spsc_content q \<and> length (spsc_content q) \<le> 2 ^ k - 1"
  using spsc.fifo_empty [OF spsc_init_invar [OF assms]] assms(2)
  by (simp add: spsc_capacity_def spsc_init_def)

text \<open>
  The static assertion of the buffer admits a capacity of one, where the protocol breaks: the
  sequence number of a filled slot equals the next position, so a second push succeeds,
  overwrites the first item, and every later \<open>try_pop\<close> spins.
\<close>

lemma mpmc_capacity_one_breaks:
  "run_ops mpmc_try_push mpmc_try_pop [Push 1, Push 2] (mpmc_init [0 :: nat]) =
    Some ([1, 2], [], \<lparr>mp_buffer = [\<lparr>cell_sequence = 2, cell_data = 2\<rparr>], mp_enqueue_pos = 2, mp_dequeue_pos = 0\<rparr>) \<and>
   run_ops mpmc_try_push mpmc_try_pop [Push 1, Push 2, Pop] (mpmc_init [0 :: nat]) = None"
  by code_simp

end
