(* ===== verification/Executor.thy ===== *)
theory Executor
  imports RingBuffer
begin

text \<open>
  The task executor (\<^verbatim>\<open>include/kimp/execution/lifecycle_executor.hpp\<close>): worker threads that
  drain a multi-producer queue into a handler. The handler is a parameter, a function on the
  state of whoever owns the executor. Calls of different threads are interleaved as whole
  calls of \<open>enqueue\<close> and \<open>drain_one\<close>; a queue call that spins is the value \<open>None\<close>.
\<close>

record executor_options =
  opt_worker_count :: nat
  opt_push_spin_count :: nat
  opt_empty_spin_count :: nat

definition executor_options_default :: executor_options where
  "executor_options_default = \<lparr>opt_worker_count = 1, opt_push_spin_count = 256, opt_empty_spin_count = 2048\<rparr>"

record 'a executor =
  ex_options :: executor_options
  ex_queue :: "'a mpmc"
  ex_running :: bool
  ex_pending :: usize
  ex_workers :: nat

definition executor_init :: "'a list \<Rightarrow> 'a executor" where
  "executor_init slots = \<lparr>ex_options = executor_options_default, ex_queue = mpmc_init slots, ex_running = False,
     ex_pending = 0, ex_workers = 0\<rparr>"

definition ex_start :: "executor_options \<Rightarrow> 'a executor \<Rightarrow> 'a executor" where
  "ex_start options e =
    (if ex_running e then e
     else let options = (if opt_worker_count options = 0 then options\<lparr>opt_worker_count := 1\<rparr> else options)
       in e\<lparr>ex_running := True, ex_options := options, ex_workers := ex_workers e + opt_worker_count options\<rparr>)"

text \<open>The push attempts of \<open>enqueue_impl\<close>: \<open>n\<close> spins, then the last try.\<close>

fun enqueue_spin :: "nat \<Rightarrow> 'a \<Rightarrow> 'a mpmc \<Rightarrow> (bool \<times> 'a mpmc) option" where
  "enqueue_spin 0 task q = mpmc_try_push task q"
| "enqueue_spin (Suc n) task q =
    (case mpmc_try_push task q of None \<Rightarrow> None
     | Some (True, q) \<Rightarrow> Some (True, q)
     | Some (False, q) \<Rightarrow> enqueue_spin n task q)"

definition ex_enqueue :: "'a \<Rightarrow> 'a executor \<Rightarrow> (bool \<times> 'a executor) option" where
  "ex_enqueue task e =
    (if \<not> ex_running e then Some (False, e)
     else case enqueue_spin (opt_push_spin_count (ex_options e)) task (ex_queue e) of None \<Rightarrow> None
      | Some (True, q) \<Rightarrow> Some (True, e\<lparr>ex_queue := q, ex_pending := ex_pending e + 1\<rparr>)
      | Some (False, q) \<Rightarrow> Some (False, e\<lparr>ex_queue := q\<rparr>))"

definition drain_one :: "('a \<Rightarrow> nat \<Rightarrow> 's \<Rightarrow> 's) \<Rightarrow> nat \<Rightarrow> 'a executor \<times> 's \<Rightarrow> (bool \<times> 'a executor \<times> 's) option" where
  "drain_one handler worker_index es =
    (case es of (e, s) \<Rightarrow>
      case mpmc_try_pop (ex_queue e) of None \<Rightarrow> None
      | Some (None, q) \<Rightarrow> Some (False, e\<lparr>ex_queue := q\<rparr>, s)
      | Some (Some task, q) \<Rightarrow>
          Some (True, e\<lparr>ex_queue := q, ex_pending := ex_pending e - 1\<rparr>, handler task worker_index s))"

datatype spin_result = SpinReturn | SpinGoOn

text \<open>The spin phase of an idle worker: leaves as soon as it drained something.\<close>

fun empty_spin :: "('a \<Rightarrow> nat \<Rightarrow> 's \<Rightarrow> 's) \<Rightarrow> nat \<Rightarrow> nat \<Rightarrow> 'a executor \<times> 's \<Rightarrow> (spin_result \<times> 'a executor \<times> 's) option" where
  "empty_spin handler w 0 es = Some (SpinGoOn, es)"
| "empty_spin handler w (Suc n) es =
    (case drain_one handler w es of None \<Rightarrow> None
     | Some (True, es) \<Rightarrow> Some (SpinGoOn, es)
     | Some (False, es) \<Rightarrow>
        if \<not> ex_running (fst es) \<and> mpmc_empty (ex_queue (fst es)) then Some (SpinReturn, es)
        else empty_spin handler w n es)"

text \<open>
  The worker's loop. Its condition-variable wait changes nothing here, so an idle worker of a
  running executor goes round until the fuel is used up and the value is \<open>None\<close>.
\<close>

fun worker_loop :: "('a \<Rightarrow> nat \<Rightarrow> 's \<Rightarrow> 's) \<Rightarrow> nat \<Rightarrow> nat \<Rightarrow> 'a executor \<times> 's \<Rightarrow> ('a executor \<times> 's) option" where
  "worker_loop handler w 0 es = None"
| "worker_loop handler w (Suc fuel) es =
    (case drain_one handler w es of None \<Rightarrow> None
     | Some (True, es) \<Rightarrow> worker_loop handler w fuel es
     | Some (False, es) \<Rightarrow>
        if \<not> ex_running (fst es) \<and> mpmc_empty (ex_queue (fst es)) then Some es
        else case empty_spin handler w (opt_empty_spin_count (ex_options (fst es))) es of None \<Rightarrow> None
         | Some (SpinReturn, es) \<Rightarrow> Some es
         | Some (SpinGoOn, es) \<Rightarrow>
            if \<not> mpmc_empty (ex_queue (fst es)) then worker_loop handler w fuel es
            else if \<not> ex_running (fst es) \<and> mpmc_empty (ex_queue (fst es)) then Some es
            else worker_loop handler w fuel es)"

text \<open>\<open>stop\<close> joins the workers, which first drain the queue; the joined worker here is worker 0.\<close>

definition ex_stop :: "('a \<Rightarrow> nat \<Rightarrow> 's \<Rightarrow> 's) \<Rightarrow> nat \<Rightarrow> 'a executor \<times> 's \<Rightarrow> ('a executor \<times> 's) option" where
  "ex_stop handler fuel es =
    (case es of (e, s) \<Rightarrow>
      let was_running = ex_running e; e = e\<lparr>ex_running := False\<rparr>
      in if \<not> was_running \<and> ex_workers e = 0 then Some (e, s)
         else case (if ex_workers e = 0 then Some (e, s) else worker_loop handler 0 fuel (e, s)) of None \<Rightarrow> None
          | Some (e, s) \<Rightarrow> Some (e\<lparr>ex_workers := 0, ex_pending := 0\<rparr>, s))"

text \<open>An interleaving of producer and worker calls, with the tasks that were accepted.\<close>

datatype 'a call = Enqueue 'a | Drain nat

fun run_calls :: "('a \<Rightarrow> nat \<Rightarrow> 's \<Rightarrow> 's) \<Rightarrow> 'a call list \<Rightarrow> 'a executor \<times> 's \<Rightarrow> ('a list \<times> 'a executor \<times> 's) option" where
  "run_calls handler [] es = Some ([], es)"
| "run_calls handler (Enqueue t # calls) es =
    (case ex_enqueue t (fst es) of None \<Rightarrow> None
     | Some (ok, e) \<Rightarrow>
        (case run_calls handler calls (e, snd es) of None \<Rightarrow> None
         | Some (ts, r) \<Rightarrow> Some (if ok then t # ts else ts, r)))"
| "run_calls handler (Drain w # calls) es =
    (case drain_one handler w es of None \<Rightarrow> None
     | Some (b, es) \<Rightarrow> run_calls handler calls es)"

section \<open>Invariant\<close>

definition ex_invar :: "'a executor \<Rightarrow> bool" where
  "ex_invar e \<longleftrightarrow> mpmc_invar (ex_queue e) \<and> ex_pending e = of_nat (length (mpmc_content (ex_queue e)))"

lemma enqueue_spin_full:
  assumes "mpmc_invar q" "length (mpmc_content q) = mpmc_capacity q"
  shows "\<exists>q'. enqueue_spin n task q = Some (False, q') \<and> mpmc_invar q' \<and>
    mpmc_content q' = mpmc_content q \<and> mpmc_capacity q' = mpmc_capacity q"
  using assms
proof (induction n arbitrary: q)
  case 0
  then show ?case using mpmc.push_full [of q task] by simp
next
  case (Suc n)
  obtain q1 where 1: "mpmc_try_push task q = Some (False, q1)" "mpmc_invar q1"
      "mpmc_content q1 = mpmc_content q" "mpmc_capacity q1 = mpmc_capacity q"
    using mpmc.push_full [OF Suc.prems, of task] by blast
  obtain q2 where "enqueue_spin n task q1 = Some (False, q2)" "mpmc_invar q2"
      "mpmc_content q2 = mpmc_content q1" "mpmc_capacity q2 = mpmc_capacity q1"
    using Suc.IH [OF 1(2)] 1(3,4) Suc.prems(2) by metis
  then show ?case using 1 by simp
qed

lemma enqueue_spin_ok:
  assumes "mpmc_try_push task q = Some (True, q')"
  shows "enqueue_spin n task q = Some (True, q')"
  using assms by (cases n) simp_all

lemma enqueue_spin_spec:
  assumes "mpmc_invar q"
  shows "\<exists>ok q'. enqueue_spin n task q = Some (ok, q') \<and> mpmc_invar q' \<and>
    mpmc_content q' = (if ok then mpmc_content q @ [task] else mpmc_content q) \<and>
    ok = (length (mpmc_content q) < mpmc_capacity q) \<and> mpmc_capacity q' = mpmc_capacity q"
proof (cases "length (mpmc_content q) < mpmc_capacity q")
  case True
  from mpmc.push_ok [OF assms True, of task] obtain q' where "mpmc_try_push task q = Some (True, q')" "mpmc_invar q'"
    "mpmc_content q' = mpmc_content q @ [task]" "mpmc_capacity q' = mpmc_capacity q" by blast
  then show ?thesis using True enqueue_spin_ok [of task q q' n] by (intro exI [of _ True] exI [of _ q']) simp
next
  case False
  then have "length (mpmc_content q) = mpmc_capacity q" using mpmc.bounded [OF assms] by linarith
  from enqueue_spin_full [OF assms this, of n task] obtain q' where "enqueue_spin n task q = Some (False, q')" "mpmc_invar q'"
    "mpmc_content q' = mpmc_content q" "mpmc_capacity q' = mpmc_capacity q" by blast
  then show ?thesis using False by (intro exI [of _ False] exI [of _ q']) simp
qed

lemma ex_enqueue_spec:
  assumes "ex_invar e"
  shows "\<exists>ok e'. ex_enqueue t e = Some (ok, e') \<and> ex_invar e' \<and> ex_running e' = ex_running e \<and> ex_workers e' = ex_workers e \<and>
    mpmc_content (ex_queue e') = (if ok then mpmc_content (ex_queue e) @ [t] else mpmc_content (ex_queue e)) \<and>
    ok = (ex_running e \<and> length (mpmc_content (ex_queue e)) < mpmc_capacity (ex_queue e)) \<and>
    mpmc_capacity (ex_queue e') = mpmc_capacity (ex_queue e)"
proof (cases "ex_running e")
  case True
  obtain ok q' where "enqueue_spin (opt_push_spin_count (ex_options e)) t (ex_queue e) = Some (ok, q')" "mpmc_invar q'"
    "mpmc_content q' = (if ok then mpmc_content (ex_queue e) @ [t] else mpmc_content (ex_queue e))"
    "ok = (length (mpmc_content (ex_queue e)) < mpmc_capacity (ex_queue e))"
    "mpmc_capacity q' = mpmc_capacity (ex_queue e)"
    using enqueue_spin_spec assms unfolding ex_invar_def by metis
  then show ?thesis using True assms
    by (cases ok) (auto simp: ex_enqueue_def ex_invar_def)
qed (use assms in \<open>auto simp: ex_enqueue_def\<close>)

lemma drain_one_spec:
  assumes "ex_invar e"
  shows "\<exists>e'. drain_one h w (e, s) =
      (case mpmc_content (ex_queue e) of [] \<Rightarrow> Some (False, e', s) | t # _ \<Rightarrow> Some (True, e', h t w s)) \<and>
    ex_invar e' \<and> ex_running e' = ex_running e \<and> ex_workers e' = ex_workers e \<and>
    mpmc_content (ex_queue e') = tl (mpmc_content (ex_queue e)) \<and>
    mpmc_capacity (ex_queue e') = mpmc_capacity (ex_queue e)"
proof (cases "mpmc_content (ex_queue e)")
  case Nil
  then show ?thesis using mpmc.pop_empty [of "ex_queue e"] assms
    by (auto simp: drain_one_def ex_invar_def)
next
  case (Cons t ts)
  then show ?thesis using mpmc.pop_ok [of "ex_queue e" t ts] assms
    by (auto simp: drain_one_def ex_invar_def)
qed

lemma run_calls_spec:
  assumes "ex_invar e"
  shows "\<exists>ts e' s' ws. run_calls h calls (e, s) = Some (ts, e', s') \<and> ex_invar e' \<and>
    ex_running e' = ex_running e \<and> ex_workers e' = ex_workers e \<and>
    mpmc_capacity (ex_queue e') = mpmc_capacity (ex_queue e) \<and>
    (\<exists>don. mpmc_content (ex_queue e) @ ts = don @ mpmc_content (ex_queue e') \<and> length ws = length don \<and>
      s' = fold (\<lambda>(t, w). h t w) (zip don ws) s)"
  using assms
proof (induction calls arbitrary: e s)
  case (Cons c calls)
  show ?case
  proof (cases c)
    case (Enqueue t)
    obtain ok e1 where 1: "ex_enqueue t e = Some (ok, e1)" "ex_invar e1" "ex_running e1 = ex_running e"
      "ex_workers e1 = ex_workers e" "mpmc_capacity (ex_queue e1) = mpmc_capacity (ex_queue e)"
      "mpmc_content (ex_queue e1) = (if ok then mpmc_content (ex_queue e) @ [t] else mpmc_content (ex_queue e))"
      using ex_enqueue_spec [OF Cons.prems] by metis
    show ?thesis using Cons.IH [OF 1(2), of s] 1 Enqueue by (cases ok) auto
  next
    case (Drain w)
    obtain e1 where 1: "ex_invar e1" "ex_running e1 = ex_running e" "ex_workers e1 = ex_workers e"
        "mpmc_content (ex_queue e1) = tl (mpmc_content (ex_queue e))"
        "mpmc_capacity (ex_queue e1) = mpmc_capacity (ex_queue e)"
        "drain_one h w (e, s) =
        (case mpmc_content (ex_queue e) of [] \<Rightarrow> Some (False, e1, s) | t # _ \<Rightarrow> Some (True, e1, h t w s))"
      using drain_one_spec [OF Cons.prems] by metis
    show ?thesis
    proof (cases "mpmc_content (ex_queue e)")
      case Nil
      then show ?thesis using Cons.IH [OF 1(1), of s] 1 Drain by simp
    next
      case (Cons t ts)
      then obtain acc e' s' ws don where "run_calls h calls (e1, h t w s) = Some (acc, e', s')" "ex_invar e'"
          "ex_running e' = ex_running e" "ex_workers e' = ex_workers e"
          "mpmc_capacity (ex_queue e') = mpmc_capacity (ex_queue e)"
          "ts @ acc = don @ mpmc_content (ex_queue e')" "length ws = length don"
          "s' = fold (\<lambda>(t, w). h t w) (zip don ws) (h t w s)"
        using Cons.IH [OF 1(1), of "h t w s"] 1 by auto
      then show ?thesis using Cons 1 Drain
        by (auto intro!: exI [of _ "w # ws"] exI [of _ "t # don"])
    qed
  qed
qed simp

lemma worker_loop_drains:
  assumes "ex_invar e" "\<not> ex_running e" "length (mpmc_content (ex_queue e)) < fuel"
  shows "\<exists>e'. worker_loop h w fuel (e, s) = Some (e', fold (\<lambda>t. h t w) (mpmc_content (ex_queue e)) s) \<and> ex_invar e' \<and>
    mpmc_content (ex_queue e') = [] \<and> \<not> ex_running e'"
  using assms
proof (induction fuel arbitrary: e s)
  case (Suc fuel)
  obtain e1 where 1: "ex_invar e1" "\<not> ex_running e1"
      "mpmc_content (ex_queue e1) = tl (mpmc_content (ex_queue e))"
      "drain_one h w (e, s) =
      (case mpmc_content (ex_queue e) of [] \<Rightarrow> Some (False, e1, s) | t # _ \<Rightarrow> Some (True, e1, h t w s))"
    using drain_one_spec [OF Suc.prems(1), of h w s] Suc.prems(2) by metis
  show ?case
  proof (cases "mpmc_content (ex_queue e)")
    case Nil
    then have "mpmc_empty (ex_queue e1)" using 1 mpmc_empty_iff by (auto simp: ex_invar_def)
    then show ?thesis using 1 Nil by simp
  next
    case (Cons t ts)
    then show ?thesis using Suc.IH [OF 1(1,2), of "h t w s"] 1 Suc.prems(3) by simp
  qed
qed simp

lemma zip_replicate_fold:
  "fold (\<lambda>(t, w). h t w) (zip xs (replicate (length xs) k)) s = fold (\<lambda>t. h t k) xs s"
  by (induction xs arbitrary: s) auto

lemma executor_init_invar:
  assumes "0 < k" "k < 63" "length slots = 2 ^ k"
  shows "ex_invar (ex_start options (executor_init slots))" "ex_running (ex_start options (executor_init slots))"
    "0 < ex_workers (ex_start options (executor_init slots))"
    "mpmc_content (ex_queue (ex_start options (executor_init slots))) = []"
  using mpmc_init_invar [OF assms]
  by (auto simp: ex_invar_def ex_start_def executor_init_def Let_def)



end
