(* ===== verification/PriceCache.thy ===== *)
theory PriceCache
  imports Types Chars "HOL-Library.AList"
begin

unbundle bit_operations_syntax

text \<open>
  The price cache (\<^verbatim>\<open>PriceCache\<close> of \<^verbatim>\<open>include/kimp/strategy/arbitrage_engine.hpp\<close>): quotes per
  exchange and symbol in 64 lock shards, the two USDT/KRW rates, and the transfer routes that
  are precomputed from withdrawal fees and deposit networks. A hash map is an association list
  with distinct keys (its iteration order is left open by the language and no result depends
  on it), a clock reading is an argument, and an operation under a lock is one step.
\<close>

section \<open>Data\<close>

record network_fee =
  nf_network :: string
  nf_fee_coins :: dbl

record transfer_route =
  tr_available :: bool
  tr_withdraw_open :: bool
  tr_deposit_open :: bool
  tr_fee_coins :: dbl
  tr_network :: string
  tr_refreshed_at_ms :: u64

record price_data =
  pd_bid :: dbl
  pd_ask :: dbl
  pd_bid_qty :: dbl
  pd_ask_qty :: dbl
  pd_last :: dbl
  pd_timestamp :: u64
  pd_valid :: bool

definition price_data_default :: price_data where
  "price_data_default = \<lparr>pd_bid = 0, pd_ask = 0, pd_bid_qty = 0, pd_ask_qty = 0, pd_last = 0, pd_timestamp = 0, pd_valid = False\<rparr>"

record price_entry =
  pe_bid :: dbl
  pe_ask :: dbl
  pe_bid_qty :: dbl
  pe_ask_qty :: dbl
  pe_last :: dbl
  pe_timestamp :: u64

record price_key =
  key_exchange :: nat
  key_symbol :: symbol_id

definition price_key_hash :: "price_key \<Rightarrow> u64" where
  "price_key_hash k = (of_nat (key_exchange k) * 2654435761) XOR symbol_hash (key_symbol k)"

definition make_key :: "exchange \<Rightarrow> symbol_id \<Rightarrow> price_key" where
  "make_key ex symbol = \<lparr>key_exchange = exchange_id ex, key_symbol = symbol\<rparr>"

definition SHARD_COUNT :: nat where "SHARD_COUNT = 64"

definition shard_index :: "price_key \<Rightarrow> nat" where
  "shard_index key = unat (price_key_hash key AND (of_nat SHARD_COUNT - 1))"

type_synonym price_shard = "(price_key \<times> price_entry) list"

record transfer_snapshot =
  ts_fees :: "(string \<times> dbl) list"
  ts_routes :: "(string \<times> transfer_route) list"
  ts_refreshed_at_ms :: u64

record price_cache =
  pc_shards :: "price_shard list"
  pc_usdt_krw_bithumb :: dbl
  pc_usdt_krw_upbit :: dbl
  pc_withdraw_network_fees :: "(exchange \<times> (string \<times> network_fee list) list) list"
  pc_foreign_deposit_nets :: "(exchange \<times> (string \<times> string list) list) list"
  pc_korean_withdraw_enabled :: "(exchange \<times> (string \<times> bool) list) list"
  pc_transfer_snapshot :: transfer_snapshot

definition price_cache_init :: price_cache where
  "price_cache_init = \<lparr>pc_shards = replicate SHARD_COUNT [], pc_usdt_krw_bithumb = 0, pc_usdt_krw_upbit = 0,
     pc_withdraw_network_fees = [], pc_foreign_deposit_nets = [], pc_korean_withdraw_enabled = [],
     pc_transfer_snapshot = \<lparr>ts_fees = [], ts_routes = [], ts_refreshed_at_ms = 0\<rparr>\<rparr>"

definition make_fee_key :: "exchange \<Rightarrow> exchange \<Rightarrow> string \<Rightarrow> string" where
  "make_fee_key k f coin =
     char_of (48 + exchange_id k) # CHR '':'' # char_of (48 + exchange_id f) # CHR '':'' # coin"

section \<open>Chain names\<close>

definition chain_aliases :: "(string \<times> string) list" where
  "chain_aliases =
    [(''BITCOIN'', ''BTC''), (''ETHEREUM'', ''ETH''), (''POLYGON'', ''MATIC''), (''POL'', ''MATIC''),
     (''SOLANA'', ''SOL''), (''TRON'', ''TRX''), (''RIPPLE'', ''XRP''), (''LITECOIN'', ''LTC''),
     (''DOGECOIN'', ''DOGE''), (''AVALANCHE'', ''AVAXC''), (''AVALANCHECCHAIN'', ''AVAXC''), (''STELLAR'', ''XLM''),
     (''COSMOS'', ''ATOM''), (''POLKADOT'', ''DOT''), (''CARDANO'', ''ADA''), (''ALGORAND'', ''ALGO''),
     (''NEAR'', ''NEAR''), (''ARBITRUMONE'', ''ARBONE''), (''BSC'', ''BEP20''), (''BNBSMARTCHAIN'', ''BEP20''),
     (''OPTIMISM'', ''OP'')]"

definition normalize_chain :: "string \<Rightarrow> string" where
  "normalize_chain raw =
    (let out = map toupper (filter isalnum raw)
     in case map_of chain_aliases out of Some alias \<Rightarrow> alias | None \<Rightarrow> out)"

section \<open>Quotes\<close>

definition pc_update ::
    "u64 \<Rightarrow> exchange \<Rightarrow> symbol_id \<Rightarrow> dbl \<Rightarrow> dbl \<Rightarrow> dbl \<Rightarrow> u64 \<Rightarrow> dbl \<Rightarrow> dbl \<Rightarrow> price_cache \<Rightarrow> price_cache" where
  "pc_update now_ms ex symbol bid ask last_price timestamp_ms bid_qty ask_qty c =
    (let key = make_key ex symbol;
         i = shard_index key;
         shard = pc_shards c ! i;
         ts = (if timestamp_ms \<noteq> 0 then timestamp_ms else now_ms);
         entry = (case map_of shard key of
             Some e \<Rightarrow> e\<lparr>pe_bid := bid, pe_ask := ask,
                 pe_bid_qty := (if 0 < bid_qty then bid_qty else pe_bid_qty e),
                 pe_ask_qty := (if 0 < ask_qty then ask_qty else pe_ask_qty e),
                 pe_last := last_price, pe_timestamp := ts\<rparr>
           | None \<Rightarrow> \<lparr>pe_bid = bid, pe_ask = ask, pe_bid_qty = bid_qty, pe_ask_qty = ask_qty, pe_last = last_price, pe_timestamp = ts\<rparr>)
     in c\<lparr>pc_shards := (pc_shards c)[i := AList.update key entry shard]\<rparr>)"

definition update_usdt_krw :: "exchange \<Rightarrow> dbl \<Rightarrow> price_cache \<Rightarrow> price_cache" where
  "update_usdt_krw ex price c =
    (if ex = Bithumb then c\<lparr>pc_usdt_krw_bithumb := price\<rparr>
     else if ex = Upbit then c\<lparr>pc_usdt_krw_upbit := price\<rparr> else c)"

definition get_price :: "price_cache \<Rightarrow> exchange \<Rightarrow> symbol_id \<Rightarrow> price_data" where
  "get_price c ex symbol =
    (let key = make_key ex symbol
     in case map_of (pc_shards c ! shard_index key) key of
          None \<Rightarrow> price_data_default
        | Some e \<Rightarrow> \<lparr>pd_bid = pe_bid e, pd_ask = pe_ask e, pd_bid_qty = pe_bid_qty e, pd_ask_qty = pe_ask_qty e,
            pd_last = pe_last e, pd_timestamp = pe_timestamp e, pd_valid = True\<rparr>)"

definition get_usdt_krw :: "price_cache \<Rightarrow> exchange \<Rightarrow> dbl" where
  "get_usdt_krw c ex =
    (if ex = Bithumb then pc_usdt_krw_bithumb c else if ex = Upbit then pc_usdt_krw_upbit c else 0)"

definition get_all_keys :: "price_cache \<Rightarrow> string list" where
  "get_all_keys c = concat (map (map (\<lambda>(key, e). char_of (48 + key_exchange key) # CHR '':'' #
     get_base (key_symbol key) @ CHR ''/'' # get_quote (key_symbol key))) (pc_shards c))"

definition pc_size :: "price_cache \<Rightarrow> nat" where
  "pc_size c = sum_list (map length (pc_shards c))"

section \<open>Transfer routes\<close>

text \<open>\<^verbatim>\<open>m[ex][base] = v\<close> on a nested map.\<close>

definition nested_put :: "exchange \<Rightarrow> string \<Rightarrow> 'v \<Rightarrow> (exchange \<times> (string \<times> 'v) list) list \<Rightarrow> (exchange \<times> (string \<times> 'v) list) list" where
  "nested_put ex base v m =
     AList.update ex (AList.update base v (case map_of m ex of None \<Rightarrow> [] | Some cm \<Rightarrow> cm)) m"

definition nested_get :: "(exchange \<times> (string \<times> 'v) list) list \<Rightarrow> exchange \<Rightarrow> string \<Rightarrow> 'v option" where
  "nested_get m ex base = (case map_of m ex of None \<Rightarrow> None | Some cm \<Rightarrow> map_of cm base)"

definition set_withdraw_network_fees :: "exchange \<Rightarrow> string \<Rightarrow> network_fee list \<Rightarrow> price_cache \<Rightarrow> price_cache" where
  "set_withdraw_network_fees ex base fees c =
    (let fees = map (\<lambda>nf. nf\<lparr>nf_network := normalize_chain (nf_network nf)\<rparr>) fees
     in c\<lparr>pc_withdraw_network_fees := nested_put ex base fees (pc_withdraw_network_fees c)\<rparr>)"

definition set_foreign_deposit_networks :: "exchange \<Rightarrow> string \<Rightarrow> string list \<Rightarrow> price_cache \<Rightarrow> price_cache" where
  "set_foreign_deposit_networks ex base nets c =
    (let canonical = fold (\<lambda>n. List.insert (normalize_chain n)) nets []
     in c\<lparr>pc_foreign_deposit_nets := nested_put ex base canonical (pc_foreign_deposit_nets c)\<rparr>)"

definition set_korean_withdraw_enabled :: "exchange \<Rightarrow> string \<Rightarrow> bool \<Rightarrow> price_cache \<Rightarrow> price_cache" where
  "set_korean_withdraw_enabled ex base enabled c =
     c\<lparr>pc_korean_withdraw_enabled := nested_put ex base enabled (pc_korean_withdraw_enabled c)\<rparr>"

definition clear_withdraw_network_fees :: "exchange \<Rightarrow> price_cache \<Rightarrow> price_cache" where
  "clear_withdraw_network_fees ex c = c\<lparr>pc_withdraw_network_fees := AList.delete ex (pc_withdraw_network_fees c)\<rparr>"

definition clear_foreign_deposit_networks :: "exchange \<Rightarrow> price_cache \<Rightarrow> price_cache" where
  "clear_foreign_deposit_networks ex c = c\<lparr>pc_foreign_deposit_nets := AList.delete ex (pc_foreign_deposit_nets c)\<rparr>"

definition clear_korean_withdraw_status :: "exchange \<Rightarrow> price_cache \<Rightarrow> price_cache" where
  "clear_korean_withdraw_status ex c = c\<lparr>pc_korean_withdraw_enabled := AList.delete ex (pc_korean_withdraw_enabled c)\<rparr>"

definition get_withdraw_fee :: "price_cache \<Rightarrow> exchange \<Rightarrow> exchange \<Rightarrow> string \<Rightarrow> dbl" where
  "get_withdraw_fee c korean_ex foreign_ex base =
    (case map_of (ts_fees (pc_transfer_snapshot c)) (make_fee_key korean_ex foreign_ex base) of
       Some fee \<Rightarrow> fee | None \<Rightarrow> 0)"

definition is_transfer_route_available :: "price_cache \<Rightarrow> exchange \<Rightarrow> exchange \<Rightarrow> string \<Rightarrow> bool" where
  "is_transfer_route_available c korean_ex foreign_ex base =
    (case map_of (ts_routes (pc_transfer_snapshot c)) (make_fee_key korean_ex foreign_ex base) of
       Some route \<Rightarrow> tr_available route | None \<Rightarrow> False)"

definition get_transfer_route :: "price_cache \<Rightarrow> exchange \<Rightarrow> exchange \<Rightarrow> string \<Rightarrow> transfer_route option" where
  "get_transfer_route c korean_ex foreign_ex base =
     map_of (ts_routes (pc_transfer_snapshot c)) (make_fee_key korean_ex foreign_ex base)"

text \<open>\<^verbatim>\<open>std::numeric_limits<double>::max()\<close>.\<close>

definition dbl_max :: dbl where
  "dbl_max = Fin ((2 ^ 53 - 1) * 2 ^ 971)"

text \<open>The scan for the cheapest network that both venues have open.\<close>

fun min_fee_scan :: "string list \<Rightarrow> network_fee list \<Rightarrow> dbl \<times> string \<Rightarrow> dbl \<times> string" where
  "min_fee_scan nets [] acc = acc"
| "min_fee_scan nets (nf # fees) (min_fee, network) =
    (if nf_network nf \<in> set nets \<and> nf_fee_coins nf < min_fee
     then min_fee_scan nets fees (nf_fee_coins nf, nf_network nf)
     else min_fee_scan nets fees (min_fee, network))"

definition get_withdraw_fee_locked :: "price_cache \<Rightarrow> exchange \<Rightarrow> exchange \<Rightarrow> string \<Rightarrow> u64 \<Rightarrow> transfer_route" where
  "get_withdraw_fee_locked c korean_ex foreign_ex base refreshed_at_ms =
    (let route = \<lparr>tr_available = False, tr_withdraw_open = False, tr_deposit_open = False, tr_fee_coins = 0,
           tr_network = [], tr_refreshed_at_ms = refreshed_at_ms\<rparr>;
         deposit_nets = (case nested_get (pc_foreign_deposit_nets c) foreign_ex base of
             Some nets \<Rightarrow> if nets \<noteq> [] then Some nets else None | None \<Rightarrow> None);
         route = route\<lparr>tr_deposit_open := deposit_nets \<noteq> None \<and> the deposit_nets \<noteq> []\<rparr>;
         withdraw_fees = (case nested_get (pc_withdraw_network_fees c) korean_ex base of
             Some fees \<Rightarrow> if fees \<noteq> [] then Some fees else None | None \<Rightarrow> None);
         withdraw_enabled = (withdraw_fees \<noteq> None \<and> the withdraw_fees \<noteq> []);
         withdraw_enabled = (case nested_get (pc_korean_withdraw_enabled c) korean_ex base of
             Some b \<Rightarrow> withdraw_enabled \<and> b | None \<Rightarrow> withdraw_enabled);
         route = route\<lparr>tr_withdraw_open := withdraw_enabled\<rparr>
     in if \<not> tr_withdraw_open route \<or> \<not> tr_deposit_open route \<or> withdraw_fees = None then route
        else case min_fee_scan (the deposit_nets) (the withdraw_fees) (dbl_max, []) of
          (min_fee, network) \<Rightarrow>
            let route = route\<lparr>tr_network := network\<rparr>
            in if min_fee < dbl_max then route\<lparr>tr_available := True, tr_fee_coins := min_fee\<rparr> else route)"

definition snapshot_put :: "price_cache \<Rightarrow> u64 \<Rightarrow> exchange \<times> exchange \<times> string \<Rightarrow> transfer_snapshot \<Rightarrow> transfer_snapshot" where
  "snapshot_put c now_ms p s =
    (case p of (k_ex, f_ex, coin) \<Rightarrow>
      let route = get_withdraw_fee_locked c k_ex f_ex coin now_ms;
          s = s\<lparr>ts_routes := AList.update (make_fee_key k_ex f_ex coin) route (ts_routes s)\<rparr>
      in if tr_available route
         then s\<lparr>ts_fees := AList.update (make_fee_key k_ex f_ex coin) (tr_fee_coins route) (ts_fees s)\<rparr> else s)"

definition all_coins :: "price_cache \<Rightarrow> string list" where
  "all_coins c = remdups (concat (map (map fst \<circ> snd) (pc_withdraw_network_fees c))
     @ concat (map (map fst \<circ> snd) (pc_foreign_deposit_nets c))
     @ concat (map (map fst \<circ> snd) (pc_korean_withdraw_enabled c)))"

definition korean_exs :: "price_cache \<Rightarrow> exchange list" where
  "korean_exs c = fold (\<lambda>ex exs. if ex \<in> set exs then exs else exs @ [ex])
     (map fst (pc_korean_withdraw_enabled c)) (map fst (pc_withdraw_network_fees c))"

definition foreign_exs :: "price_cache \<Rightarrow> exchange list" where
  "foreign_exs c = (let exs = map fst (pc_foreign_deposit_nets c) in if exs = [] then [Bybit, OKX] else exs)"

definition finalize_withdraw_fees :: "u64 \<Rightarrow> price_cache \<Rightarrow> price_cache" where
  "finalize_withdraw_fees now_ms c =
    (let s = \<lparr>ts_fees = [], ts_routes = [], ts_refreshed_at_ms = now_ms\<rparr>;
         combos = [(k_ex, f_ex, coin). coin \<leftarrow> all_coins c, k_ex \<leftarrow> korean_exs c, f_ex \<leftarrow> foreign_exs c]
     in c\<lparr>pc_transfer_snapshot := fold (snapshot_put c now_ms) combos s\<rparr>)"

definition precomputed_fee_count :: "price_cache \<Rightarrow> nat" where
  "precomputed_fee_count c = length (ts_fees (pc_transfer_snapshot c))"

definition available_transfer_route_count :: "price_cache \<Rightarrow> nat" where
  "available_transfer_route_count c =
     length (filter (\<lambda>(key, route). tr_available route) (ts_routes (pc_transfer_snapshot c)))"

definition withdraw_fee_count :: "price_cache \<Rightarrow> nat" where
  "withdraw_fee_count c = sum_list (map (length \<circ> snd) (pc_withdraw_network_fees c))"

definition withdraw_fee_count_of :: "price_cache \<Rightarrow> exchange \<Rightarrow> nat" where
  "withdraw_fee_count_of c ex =
     (case map_of (pc_withdraw_network_fees c) ex of Some m \<Rightarrow> length m | None \<Rightarrow> 0)"

section \<open>The interface: a store of quotes\<close>

text \<open>
  What the engine relies on: a quote that was put is the quote that is read back, and other
  exchanges and symbols are not disturbed.
\<close>

locale quote_store =
  fixes put :: "'k \<Rightarrow> 'v \<Rightarrow> 's \<Rightarrow> 's"
    and get :: "'s \<Rightarrow> 'k \<Rightarrow> 'v option"
    and merge :: "'v option \<Rightarrow> 'v \<Rightarrow> 'v"
    and invar :: "'s \<Rightarrow> bool"
  assumes get_put: "invar s \<Longrightarrow> get (put k v s) j = (if j = k then Some (merge (get s k) v) else get s j)"
    and put_invar: "invar s \<Longrightarrow> invar (put k v s)"
begin

lemma puts_invar: "invar s \<Longrightarrow> invar (fold (\<lambda>(k, v). put k v) kvs s)"
  by (induction kvs arbitrary: s) (auto simp: put_invar)

text \<open>A sequence of updates leaves at each key the merge of that key's updates only.\<close>

lemma get_puts:
  "invar s \<Longrightarrow> get (fold (\<lambda>(k, v). put k v) kvs s) j =
    fold (\<lambda>v o'. Some (merge o' v)) (map snd (filter (\<lambda>kv. fst kv = j) kvs)) (get s j)"
  by (induction kvs arbitrary: s) (auto simp: get_put put_invar)

end

definition pc_get :: "price_cache \<Rightarrow> exchange \<times> symbol_id \<Rightarrow> price_entry option" where
  "pc_get c p = (let key = make_key (fst p) (snd p) in map_of (pc_shards c ! shard_index key) key)"

definition pc_merge :: "price_entry option \<Rightarrow> price_entry \<Rightarrow> price_entry" where
  "pc_merge old e =
    (case old of None \<Rightarrow> e
     | Some o' \<Rightarrow> e\<lparr>pe_bid_qty := (if 0 < pe_bid_qty e then pe_bid_qty e else pe_bid_qty o'),
         pe_ask_qty := (if 0 < pe_ask_qty e then pe_ask_qty e else pe_ask_qty o')\<rparr>)"

text \<open>A put is \<open>update\<close> with the time stamp resolved.\<close>

definition pc_put :: "exchange \<times> symbol_id \<Rightarrow> price_entry \<Rightarrow> price_cache \<Rightarrow> price_cache" where
  "pc_put p e = pc_update (pe_timestamp e) (fst p) (snd p) (pe_bid e) (pe_ask e) (pe_last e)
     (pe_timestamp e) (pe_bid_qty e) (pe_ask_qty e)"

definition pc_invar :: "price_cache \<Rightarrow> bool" where
  "pc_invar c \<longleftrightarrow> length (pc_shards c) = SHARD_COUNT \<and>
    (\<forall>i < SHARD_COUNT. distinct (map fst (pc_shards c ! i)) \<and>
      (\<forall>key. map_of (pc_shards c ! i) key \<noteq> None \<longrightarrow> shard_index key = i))"

lemma exchange_id_inj [simp]: "exchange_id a = exchange_id b \<longleftrightarrow> a = b"
  by (cases a; cases b) simp_all

lemma make_key_inj [simp]: "make_key a s = make_key b t \<longleftrightarrow> a = b \<and> s = t"
  by (simp add: make_key_def)

lemma shard_index_bound: "shard_index key < SHARD_COUNT"
proof -
  have "price_key_hash key AND 63 = take_bit 6 (price_key_hash key)"
    by (simp add: take_bit_eq_mask mask_eq_exp_minus_1)
  moreover have "unat (take_bit 6 (price_key_hash key)) < 2 ^ 6"
    unfolding unsigned_take_bit_eq by (rule take_bit_nat_less_exp)
  ultimately show ?thesis by (simp add: shard_index_def SHARD_COUNT_def)
qed

lemma pc_update_get:
  assumes "pc_invar c"
  shows "pc_get (pc_update now ex s bid ask l ts bq aq c) p =
    (if p = (ex, s)
     then Some (pc_merge (pc_get c (ex, s)) \<lparr>pe_bid = bid, pe_ask = ask, pe_bid_qty = bq, pe_ask_qty = aq, pe_last = l,
       pe_timestamp = (if ts \<noteq> 0 then ts else now)\<rparr>) else pc_get c p)"
proof -
  have "shard_index key < length (pc_shards c)" for key
    using assms shard_index_bound by (simp add: pc_invar_def)
  then show ?thesis
    by (cases p) (auto simp: pc_get_def pc_update_def pc_merge_def Let_def nth_list_update update_conv' split: option.splits)
qed

lemma pc_shard_put_invar:
  assumes "pc_invar c" "c' = c\<lparr>pc_shards := (pc_shards c)[shard_index key := AList.update key e (pc_shards c ! shard_index key)]\<rparr>"
  shows "pc_invar c'"
  unfolding pc_invar_def
proof (intro conjI allI impI)
  have len: "length (pc_shards c) = SHARD_COUNT" using assms(1) by (simp add: pc_invar_def)
  then show "length (pc_shards c') = SHARD_COUNT" by (simp add: assms(2))
  fix i assume i: "i < SHARD_COUNT"
  have sh: "pc_shards c' ! i = (if i = shard_index key then AList.update key e (pc_shards c ! i) else pc_shards c ! i)"
    using i len by (simp add: assms(2) nth_list_update)
  have d: "distinct (map fst (pc_shards c ! i))" and own: "map_of (pc_shards c ! i) j \<noteq> None \<Longrightarrow> shard_index j = i" for j
    using assms(1) i unfolding pc_invar_def by blast+
  show "distinct (map fst (pc_shards c' ! i))" using d unfolding sh by (auto intro: distinct_update)
  show "shard_index j = i" if "map_of (pc_shards c' ! i) j \<noteq> None" for j
  proof (cases "i = shard_index key \<and> j = key")
    case False
    then have "map_of (pc_shards c ! i) j \<noteq> None"
      using that unfolding sh by (auto simp: update_conv' split: if_splits)
    then show ?thesis by (rule own)
  qed simp
qed

lemma pc_update_invar:
  "pc_invar c \<Longrightarrow> pc_invar (pc_update now ex s bid ask l ts bq aq c)"
  unfolding pc_update_def Let_def by (erule pc_shard_put_invar) (rule refl)

interpretation quotes: quote_store pc_put pc_get pc_merge pc_invar
proof unfold_locales
  fix c k v j assume inv: "pc_invar c"
  show "pc_get (pc_put k v c) j = (if j = k then Some (pc_merge (pc_get c k) v) else pc_get c j)"
    using pc_update_get [OF inv, of "pe_timestamp v" "fst k" "snd k" "pe_bid v" "pe_ask v" "pe_last v" "pe_timestamp v"
        "pe_bid_qty v" "pe_ask_qty v" j] by (cases v) (simp add: pc_put_def)
  show "pc_invar (pc_put k v c)" unfolding pc_put_def by (rule pc_update_invar [OF inv])
qed

lemma pc_init_invar: "pc_invar price_cache_init"
  by (simp add: pc_invar_def price_cache_init_def)

lemma get_price_entry:
  "get_price c ex s = (case pc_get c (ex, s) of None \<Rightarrow> price_data_default
    | Some e \<Rightarrow> \<lparr>pd_bid = pe_bid e, pd_ask = pe_ask e, pd_bid_qty = pe_bid_qty e, pd_ask_qty = pe_ask_qty e,
        pd_last = pe_last e, pd_timestamp = pe_timestamp e, pd_valid = True\<rparr>)"
  by (simp add: get_price_def pc_get_def Let_def)

lemma fold_merge_last:
  "fold (\<lambda>v o'. Some (pc_merge o' v)) (vs @ [v]) old =
    Some (pc_merge (fold (\<lambda>v o'. Some (pc_merge o' v)) vs old) v)"
  by simp

lemma pc_merge_prices [simp]:
  "pe_bid (pc_merge o' e) = pe_bid e" "pe_ask (pc_merge o' e) = pe_ask e" "pe_last (pc_merge o' e) = pe_last e"
  "pe_timestamp (pc_merge o' e) = pe_timestamp e"
  by (auto simp: pc_merge_def split: option.splits)

text \<open>
  The sharded cache reads back the last update: after any sequence of updates of any
  exchanges and symbols, \<open>get_price\<close> returns the prices and time stamp of the last update of
  that exchange and symbol, whatever their hashes are.
\<close>

lemma get_price_reads_last_update:
  assumes "pc_invar c" "filter (\<lambda>u. fst u = (ex, s)) updates = us @ [((ex, s), e)]"
  shows "pd_valid (get_price (fold (\<lambda>(k, v). pc_put k v) updates c) ex s) \<and>
    pd_bid (get_price (fold (\<lambda>(k, v). pc_put k v) updates c) ex s) = pe_bid e \<and>
    pd_ask (get_price (fold (\<lambda>(k, v). pc_put k v) updates c) ex s) = pe_ask e \<and>
    pd_last (get_price (fold (\<lambda>(k, v). pc_put k v) updates c) ex s) = pe_last e \<and>
    pd_timestamp (get_price (fold (\<lambda>(k, v). pc_put k v) updates c) ex s) = pe_timestamp e"
proof -
  have "\<exists>o'. pc_get (fold (\<lambda>(k, v). pc_put k v) updates c) (ex, s) = Some (pc_merge o' e)"
    unfolding quotes.get_puts [OF assms(1)] assms(2) by simp blast
  then show ?thesis by (auto simp: get_price_entry)
qed

section \<open>Canonical chain names\<close>

definition canonical_char :: "char \<Rightarrow> bool" where
  "canonical_char c \<longleftrightarrow> isalnum c \<and> toupper c = c"

lemma canonical_toupper:
  assumes "isalnum c"
  shows "canonical_char (toupper c)"
  using assms by (auto simp: canonical_char_def isalnum_def toupper_def Let_def)

lemma canonical_string: "list_all canonical_char s \<Longrightarrow> map toupper (filter isalnum s) = s"
  by (induction s) (auto simp: canonical_char_def)

lemma aliases_canonical:
  "list_all (\<lambda>(k, v). list_all canonical_char v \<and> (map_of chain_aliases v = None \<or> map_of chain_aliases v = Some v)) chain_aliases"
  by code_simp

lemma normalize_chain_canonical:
  "list_all canonical_char (normalize_chain raw)"
  "map_of chain_aliases (normalize_chain raw) = None \<or> map_of chain_aliases (normalize_chain raw) = Some (normalize_chain raw)"
proof -
  let ?out = "map toupper (filter isalnum raw)"
  have out: "list_all canonical_char ?out" by (auto simp: list_all_iff canonical_toupper)
  have al: "list_all canonical_char v \<and> (map_of chain_aliases v = None \<or> map_of chain_aliases v = Some v)"
    if "map_of chain_aliases k = Some v" for k v
    using aliases_canonical map_of_SomeD [OF that] by (auto simp: list_all_iff)
  show "list_all canonical_char (normalize_chain raw)"
    using out al [of ?out] by (auto simp: normalize_chain_def Let_def split: option.split)
  show "map_of chain_aliases (normalize_chain raw) = None \<or> map_of chain_aliases (normalize_chain raw) = Some (normalize_chain raw)"
    using al [of ?out] by (auto simp: normalize_chain_def Let_def split: option.split)
qed

text \<open>
  Chain names have one canonical form: normalising is idempotent, so a name that a venue
  already reports in canonical form and one that was normalised before meet in the intersection
  of networks, and the canonical form consists of upper-case letters and digits.
\<close>

lemma normalize_chain_idempotent:
  "normalize_chain (normalize_chain raw) = normalize_chain raw \<and> list_all canonical_char (normalize_chain raw)"
proof -
  note can = normalize_chain_canonical [of raw]
  have "normalize_chain (normalize_chain raw) =
      (case map_of chain_aliases (normalize_chain raw) of Some a \<Rightarrow> a | None \<Rightarrow> normalize_chain raw)"
    unfolding normalize_chain_def [of "normalize_chain raw"] canonical_string [OF can(1)] by (simp add: Let_def)
  then have "normalize_chain (normalize_chain raw) = normalize_chain raw" using can(2) by (elim disjE) simp_all
  with can(1) show ?thesis by blast
qed

section \<open>Transfer routes\<close>

lemma make_fee_key_inj [simp]: "make_fee_key k f coin = make_fee_key k' f' coin' \<longleftrightarrow> k = k' \<and> f = f' \<and> coin = coin'"
  by (cases k; cases k'; cases f; cases f') (simp_all add: make_fee_key_def)

lemma min_fee_scan_keeps:
  assumes "min_fee_scan nets fees (m0, n0) = (m, n)" "m0 \<noteq> NaN"
  shows "m \<noteq> NaN \<and> m \<le> m0 \<and> (\<forall>nf \<in> set fees. nf_network nf \<in> set nets \<longrightarrow> \<not> nf_fee_coins nf < m) \<and>
    ((m, n) = (m0, n0) \<or> (\<exists>nf \<in> set fees. nf_network nf \<in> set nets \<and> m = nf_fee_coins nf \<and> n = nf_network nf))"
  using assms
proof (induction fees arbitrary: m0 n0)
  case Nil
  then show ?case by (auto simp: dbl_le_refl)
next
  case (Cons nf fees)
  show ?case
  proof (cases "nf_network nf \<in> set nets \<and> nf_fee_coins nf < m0")
    case True
    then have num: "nf_fee_coins nf \<noteq> NaN" by auto
    have run: "min_fee_scan nets fees (nf_fee_coins nf, nf_network nf) = (m, n)" using Cons.prems(1) True by simp
    note IH = Cons.IH [OF run num]
    have "m \<le> m0" using IH True dbl_lt_le dbl_le_trans by blast
    moreover have "\<not> nf_fee_coins nf < m" using IH num by (auto simp: dbl_not_lt)
    ultimately show ?thesis using IH True by auto
  next
    case False
    then have run: "min_fee_scan nets fees (m0, n0) = (m, n)" using Cons.prems(1) by auto
    note IH = Cons.IH [OF run Cons.prems(2)]
    have "\<not> nf_fee_coins nf < m" if "nf_network nf \<in> set nets"
      using False that IH dbl_lt_le_trans by blast
    then show ?thesis using IH by auto
  qed
qed

lemma get_withdraw_fee_locked_available:
  assumes "tr_available (get_withdraw_fee_locked c k f coin now)"
  shows "\<exists>fees nets nf. nested_get (pc_withdraw_network_fees c) k coin = Some fees \<and>
    nested_get (pc_foreign_deposit_nets c) f coin = Some nets \<and>
    nested_get (pc_korean_withdraw_enabled c) k coin \<noteq> Some False \<and>
    nf \<in> set fees \<and> nf_network nf \<in> set nets \<and>
    tr_network (get_withdraw_fee_locked c k f coin now) = nf_network nf \<and>
    tr_fee_coins (get_withdraw_fee_locked c k f coin now) = nf_fee_coins nf \<and>
    (\<forall>nf' \<in> set fees. nf_network nf' \<in> set nets \<longrightarrow> \<not> nf_fee_coins nf' < nf_fee_coins nf)"
proof -
  obtain fees nets where fn: "nested_get (pc_withdraw_network_fees c) k coin = Some fees" "fees \<noteq> []"
      "nested_get (pc_foreign_deposit_nets c) f coin = Some nets" "nets \<noteq> []"
      "nested_get (pc_korean_withdraw_enabled c) k coin \<noteq> Some False"
    using assms by (auto simp: get_withdraw_fee_locked_def Let_def split: option.splits if_splits)
  obtain m n where run: "min_fee_scan nets fees (dbl_max, []) = (m, n)" by (cases "min_fee_scan nets fees (dbl_max, [])")
  have route: "get_withdraw_fee_locked c k f coin now =
      \<lparr>tr_available = m < dbl_max, tr_withdraw_open = True, tr_deposit_open = True, tr_fee_coins = (if m < dbl_max then m else 0),
       tr_network = n, tr_refreshed_at_ms = now\<rparr>"
    using fn run by (auto simp: get_withdraw_fee_locked_def Let_def split: option.splits)
  have max: "dbl_max \<noteq> NaN" by (simp add: dbl_max_def)
  have lt: "m < dbl_max" using assms by (simp add: route)
  then have "(m, n) \<noteq> (dbl_max, [])" by (auto simp: dbl_max_def)
  then show ?thesis using min_fee_scan_keeps [OF run max] fn lt by (auto simp: route)
qed

lemma snapshot_put_fields:
  "map_of (ts_routes (snapshot_put c now (k, f, coin) s)) = (map_of (ts_routes s))(make_fee_key k f coin \<mapsto> get_withdraw_fee_locked c k f coin now)"
  "map_of (ts_fees (snapshot_put c now (k, f, coin) s)) =
    (if tr_available (get_withdraw_fee_locked c k f coin now)
     then (map_of (ts_fees s))(make_fee_key k f coin \<mapsto> tr_fee_coins (get_withdraw_fee_locked c k f coin now)) else map_of (ts_fees s))"
  by (auto simp: snapshot_put_def Let_def update_conv')

lemma snapshot_fold:
  "map_of (ts_routes (fold (snapshot_put c now) ps s)) (make_fee_key k f coin) =
    (if (k, f, coin) \<in> set ps then Some (get_withdraw_fee_locked c k f coin now)
     else map_of (ts_routes s) (make_fee_key k f coin))"
  "map_of (ts_fees (fold (snapshot_put c now) ps s)) (make_fee_key k f coin) =
    (if (k, f, coin) \<in> set ps \<and> tr_available (get_withdraw_fee_locked c k f coin now)
     then Some (tr_fee_coins (get_withdraw_fee_locked c k f coin now)) else map_of (ts_fees s) (make_fee_key k f coin))"
proof (induction ps arbitrary: s)
  case (Cons p ps)
  {
    case 1
    show ?case using Cons(1) [of "snapshot_put c now p s"] by (cases p) (auto simp: snapshot_put_fields)
  next
    case 2
    show ?case using Cons(2) [of "snapshot_put c now p s"] by (cases p) (auto simp: snapshot_put_fields)
  }
qed simp_all

definition route_covered :: "price_cache \<Rightarrow> exchange \<Rightarrow> exchange \<Rightarrow> string \<Rightarrow> bool" where
  "route_covered c k f coin \<longleftrightarrow> coin \<in> set (all_coins c) \<and> k \<in> set (korean_exs c) \<and> f \<in> set (foreign_exs c)"

lemma finalize_routes:
  "get_transfer_route (finalize_withdraw_fees now c) k f coin =
    (if route_covered c k f coin then Some (get_withdraw_fee_locked c k f coin now) else None)"
  "get_withdraw_fee (finalize_withdraw_fees now c) k f coin =
    (if route_covered c k f coin \<and> tr_available (get_withdraw_fee_locked c k f coin now)
     then tr_fee_coins (get_withdraw_fee_locked c k f coin now) else 0)"
  "is_transfer_route_available (finalize_withdraw_fees now c) k f coin =
    (route_covered c k f coin \<and> tr_available (get_withdraw_fee_locked c k f coin now))"
  by (auto simp: get_transfer_route_def get_withdraw_fee_def is_transfer_route_available_def finalize_withdraw_fees_def
      Let_def snapshot_fold route_covered_def)

text \<open>
  Transfer routes are open and cheapest: when \<open>finalize_withdraw_fees\<close> publishes a route as
  available, the Korean venue has withdrawals of the coin enabled, some network carries both a
  withdrawal there and a deposit at the foreign venue, the published fee is that network's fee,
  and no other shared network is cheaper.
\<close>

lemma transfer_route_cheapest:
  assumes "is_transfer_route_available (finalize_withdraw_fees now c) k f coin"
  shows "\<exists>fees nets nf. nested_get (pc_withdraw_network_fees c) k coin = Some fees \<and>
    nested_get (pc_foreign_deposit_nets c) f coin = Some nets \<and>
    nested_get (pc_korean_withdraw_enabled c) k coin \<noteq> Some False \<and>
    nf \<in> set fees \<and> nf_network nf \<in> set nets \<and>
    get_withdraw_fee (finalize_withdraw_fees now c) k f coin = nf_fee_coins nf \<and>
    (\<forall>nf' \<in> set fees. nf_network nf' \<in> set nets \<longrightarrow> \<not> nf_fee_coins nf' < nf_fee_coins nf)"
proof -
  have "route_covered c k f coin" "tr_available (get_withdraw_fee_locked c k f coin now)"
    using assms by (simp_all add: finalize_routes)
  then show ?thesis using get_withdraw_fee_locked_available [of c k f coin now] by (auto simp: finalize_routes)
qed

definition demo_cache :: price_cache where
  "demo_cache = set_withdraw_network_fees Bithumb ''USDC'' [\<lparr>nf_network = ''Ethereum'', nf_fee_coins = Fin 3\<rparr>, \<lparr>nf_network = ''Solana'', nf_fee_coins = 1\<rparr>]
     (set_foreign_deposit_networks Bybit ''USDC'' [''SOL'', ''ETH''] price_cache_init)"

lemma demo_cache_networks:
  "nested_get (pc_withdraw_network_fees demo_cache) Bithumb ''USDC'' =
     Some [\<lparr>nf_network = ''ETH'', nf_fee_coins = Fin 3\<rparr>, \<lparr>nf_network = ''SOL'', nf_fee_coins = 1\<rparr>]"
  "nested_get (pc_foreign_deposit_nets demo_cache) Bybit ''USDC'' = Some [''ETH'', ''SOL'']"
  "nested_get (pc_korean_withdraw_enabled demo_cache) Bithumb ''USDC'' = None"
  "route_covered demo_cache Bithumb Bybit ''USDC''"
  by code_simp+

lemma small_fee [simp]: "Fin 3 < dbl_max" "Fin 1 < dbl_max" "1 < dbl_max"
  by (simp_all add: dbl_max_def one_dbl_def)

lemma demo_cache_available: "is_transfer_route_available (finalize_withdraw_fees 0 demo_cache) Bithumb Bybit ''USDC''"
  by (simp add: finalize_routes demo_cache_networks get_withdraw_fee_locked_def Let_def one_dbl_def)

lemma nested_get_keys:
  assumes "nested_get m ex base = Some v"
  shows "ex \<in> set (map fst m)" "base \<in> set (concat (map (map fst \<circ> snd) m))"
proof -
  obtain cm where "map_of m ex = Some cm" "map_of cm base = Some v"
    using assms by (auto simp: nested_get_def split: option.splits)
  then have "(ex, cm) \<in> set m" "(base, v) \<in> set cm" by (auto dest: map_of_SomeD)
  then show "ex \<in> set (map fst m)" "base \<in> set (concat (map (map fst \<circ> snd) m))" by force+
qed

lemma korean_exs_keys: "set (map fst (pc_withdraw_network_fees c)) \<subseteq> set (korean_exs c)"
proof -
  have "set acc \<subseteq> set (fold (\<lambda>ex exs. if ex \<in> set exs then exs else exs @ [ex]) xs acc)" for xs acc :: "exchange list"
  proof (induction xs arbitrary: acc)
    case (Cons x xs)
    show ?case using Cons.IH [of "if x \<in> set acc then acc else acc @ [x]"] by (auto split: if_splits)
  qed simp
  then show ?thesis unfolding korean_exs_def .
qed

text \<open>
  No open route is missed: when the Korean venue lists a withdrawal fee for a network that
  the foreign venue accepts deposits on and withdrawals of the coin are not disabled, the
  published snapshot has an available route.
\<close>

lemma transfer_route_found:
  assumes fees: "nested_get (pc_withdraw_network_fees c) k coin = Some fees"
    and nets: "nested_get (pc_foreign_deposit_nets c) f coin = Some nets"
    and on: "nested_get (pc_korean_withdraw_enabled c) k coin \<noteq> Some False"
    and nf: "nf \<in> set fees" "nf_network nf \<in> set nets" "nf_fee_coins nf < dbl_max"
  shows "is_transfer_route_available (finalize_withdraw_fees now c) k f coin"
proof -
  obtain m n where run: "min_fee_scan nets fees (dbl_max, []) = (m, n)" by (cases "min_fee_scan nets fees (dbl_max, [])")
  have "dbl_max \<noteq> NaN" by (simp add: dbl_max_def)
  note scan = min_fee_scan_keeps [OF run this]
  have "m < dbl_max"
  proof -
    have "m \<noteq> dbl_max" using scan nf by blast
    then show ?thesis using scan by (cases m) (auto simp: dbl_max_def)
  qed
  moreover have "fees \<noteq> []" "nets \<noteq> []" using nf by auto
  ultimately have "tr_available (get_withdraw_fee_locked c k f coin now)"
    using fees nets on run by (auto simp: get_withdraw_fee_locked_def Let_def split: option.splits)
  moreover have "route_covered c k f coin"
    using nested_get_keys [OF fees] nested_get_keys [OF nets] korean_exs_keys [of c]
    by (auto simp: route_covered_def all_coins_def foreign_exs_def Let_def)
  ultimately show ?thesis by (simp add: finalize_routes)
qed

end
