(* ===== verification/Positions.thy ===== *)
theory Positions
  imports Types "HOL-Library.Multiset"
begin

text \<open>
  The position and capital trackers (\<^verbatim>\<open>PositionTracker\<close> and \<^verbatim>\<open>CapitalTracker\<close> of
  \<^verbatim>\<open>include/kimp/strategy/arbitrage_engine.hpp\<close>). The tracker is an array of 16 slots with an
  atomic count; every call is one step. \<^verbatim>\<open>TradingConfig::MAX_POSITIONS\<close> is set at run time and
  is an argument.
\<close>

section \<open>The position tracker\<close>

definition TRACKER_SLOTS :: nat where "TRACKER_SLOTS = 16"

record position_slot =
  slot_active :: bool
  slot_symbol_hash :: u64
  slot_position :: position

record position_tracker =
  pt_slots :: "position_slot list"
  pt_position_count :: int

definition position_slot_default :: position_slot where
  "position_slot_default = \<lparr>slot_active = False, slot_symbol_hash = 0, slot_position = position_default\<rparr>"

definition position_tracker_init :: position_tracker where
  "position_tracker_init = \<lparr>pt_slots = replicate TRACKER_SLOTS position_slot_default, pt_position_count = 0\<rparr>"

definition can_open_position :: "int \<Rightarrow> position_tracker \<Rightarrow> bool" where
  "can_open_position max_positions t \<longleftrightarrow> pt_position_count t < max_positions"

text \<open>The test of a slot: active, the hash matches, and the stored symbol is the one asked for.\<close>

definition slot_matches :: "symbol_id \<Rightarrow> position_slot \<Rightarrow> bool" where
  "slot_matches symbol slot \<longleftrightarrow>
     slot_active slot \<and> slot_symbol_hash slot = symbol_hash symbol \<and> pos_symbol (slot_position slot) = symbol"

definition has_position :: "position_tracker \<Rightarrow> symbol_id \<Rightarrow> bool" where
  "has_position t symbol = list_ex (slot_matches symbol) (pt_slots t)"

definition has_any_position :: "position_tracker \<Rightarrow> bool" where
  "has_any_position t \<longleftrightarrow> 0 < pt_position_count t"

definition get_position :: "position_tracker \<Rightarrow> symbol_id \<Rightarrow> position option" where
  "get_position t symbol = map_option slot_position (find (slot_matches symbol) (pt_slots t))"

fun open_slots :: "position \<Rightarrow> position_slot list \<Rightarrow> position_slot list option" where
  "open_slots pos [] = None"
| "open_slots pos (slot # slots) =
    (if \<not> slot_active slot
     then Some (slot\<lparr>slot_active := True, slot_symbol_hash := symbol_hash (pos_symbol pos), slot_position := pos\<rparr> # slots)
     else map_option ((#) slot) (open_slots pos slots))"

definition open_position :: "position \<Rightarrow> position_tracker \<Rightarrow> bool \<times> position_tracker" where
  "open_position pos t =
    (case open_slots pos (pt_slots t) of
       Some slots \<Rightarrow> (True, t\<lparr>pt_slots := slots, pt_position_count := pt_position_count t + 1\<rparr>)
     | None \<Rightarrow> (False, t))"

fun close_slots :: "symbol_id \<Rightarrow> position_slot list \<Rightarrow> (position \<times> position_slot list) option" where
  "close_slots symbol [] = None"
| "close_slots symbol (slot # slots) =
    (if slot_matches symbol slot then Some (slot_position slot, slot\<lparr>slot_active := False\<rparr> # slots)
     else map_option (\<lambda>(p, slots). (p, slot # slots)) (close_slots symbol slots))"

definition close_position :: "symbol_id \<Rightarrow> position_tracker \<Rightarrow> position option \<times> position_tracker" where
  "close_position symbol t =
    (case close_slots symbol (pt_slots t) of
       Some (p, slots) \<Rightarrow> (Some p, t\<lparr>pt_slots := slots, pt_position_count := pt_position_count t - 1\<rparr>)
     | None \<Rightarrow> (None, t))"

definition get_position_count :: "position_tracker \<Rightarrow> int" where
  "get_position_count t = pt_position_count t"

definition get_active_positions :: "position_tracker \<Rightarrow> position list" where
  "get_active_positions t = map slot_position (filter slot_active (pt_slots t))"

text \<open>\<^verbatim>\<open>for_each_active_position\<close> calls its argument on these positions, in this order.\<close>

definition for_each_active_position :: "(position \<Rightarrow> 's \<Rightarrow> 's) \<Rightarrow> position_tracker \<Rightarrow> 's \<Rightarrow> 's" where
  "for_each_active_position f t s = fold (\<lambda>slot s. if slot_active slot then f (slot_position slot) s else s) (pt_slots t) s"

text \<open>\<^verbatim>\<open>ArbitrageEngine::update_position\<close>: close, then open again with the new data.\<close>

definition update_position :: "position \<Rightarrow> position_tracker \<Rightarrow> bool \<times> position_tracker" where
  "update_position pos t =
    (case close_position (pos_symbol pos) t of
       (Some p, t) \<Rightarrow> open_position pos t
     | (None, t) \<Rightarrow> (False, t))"

section \<open>The capital tracker\<close>

record capital_tracker =
  ct_initial_capital :: dbl
  ct_realized_pnl_usd :: dbl
  ct_total_trades :: int
  ct_winning_trades :: int
  ct_pnl_history :: "dbl list"

definition capital_tracker_init :: "dbl \<Rightarrow> capital_tracker" where
  "capital_tracker_init initial = \<lparr>ct_initial_capital = initial, ct_realized_pnl_usd = 0, ct_total_trades = 0,
     ct_winning_trades = 0, ct_pnl_history = []\<rparr>"

definition set_initial_capital :: "dbl \<Rightarrow> capital_tracker \<Rightarrow> capital_tracker" where
  "set_initial_capital capital t = t\<lparr>ct_initial_capital := capital\<rparr>"

definition get_current_capital :: "capital_tracker \<Rightarrow> dbl" where
  "get_current_capital t = ct_initial_capital t + ct_realized_pnl_usd t"

definition add_realized_pnl :: "dbl \<Rightarrow> capital_tracker \<Rightarrow> capital_tracker" where
  "add_realized_pnl pnl_usd t =
    (let t = t\<lparr>ct_realized_pnl_usd := ct_realized_pnl_usd t + pnl_usd\<rparr>;
         t = t\<lparr>ct_total_trades := ct_total_trades t + 1\<rparr>;
         t = (if 0 < pnl_usd then t\<lparr>ct_winning_trades := ct_winning_trades t + 1\<rparr> else t)
     in t\<lparr>ct_pnl_history := ct_pnl_history t @ [pnl_usd]\<rparr>)"

definition get_position_size_usd :: "int \<Rightarrow> capital_tracker \<Rightarrow> dbl" where
  "get_position_size_usd max_positions t =
    (let current = get_current_capital t;
         dynamic = current / lit (of_int max_positions) / lit 2
     in dmin dynamic POSITION_SIZE_USD)"

definition get_total_position_value :: "int \<Rightarrow> capital_tracker \<Rightarrow> dbl" where
  "get_total_position_value max_positions t = get_position_size_usd max_positions t * lit 2"

definition get_win_rate :: "capital_tracker \<Rightarrow> dbl" where
  "get_win_rate t =
    (let total = ct_total_trades t
     in if total = 0 then 0 else lit (of_int (ct_winning_trades t)) / lit (of_int total) * lit 100)"

definition get_return_percent :: "capital_tracker \<Rightarrow> dbl" where
  "get_return_percent t =
    (let initial = ct_initial_capital t
     in if initial \<le> 0 then 0 else (ct_realized_pnl_usd t / initial) * lit 100)"

definition reset_session :: "capital_tracker \<Rightarrow> capital_tracker" where
  "reset_session t = t\<lparr>ct_realized_pnl_usd := 0, ct_total_trades := 0, ct_winning_trades := 0, ct_pnl_history := []\<rparr>"

section \<open>The interface: a bounded store of positions\<close>

locale position_store =
  fixes opn :: "position \<Rightarrow> 't \<Rightarrow> bool \<times> 't"
    and cls :: "symbol_id \<Rightarrow> 't \<Rightarrow> position option \<times> 't"
    and held :: "'t \<Rightarrow> position multiset"
    and cap :: nat
    and invar :: "'t \<Rightarrow> bool"
  assumes open_ok: "invar t \<Longrightarrow> size (held t) < cap \<Longrightarrow>
      \<exists>t'. opn p t = (True, t') \<and> invar t' \<and> held t' = add_mset p (held t)"
    and open_full: "invar t \<Longrightarrow> size (held t) = cap \<Longrightarrow> opn p t = (False, t)"
    and close_hit: "invar t \<Longrightarrow> p \<in># held t \<Longrightarrow> pos_symbol p = s \<Longrightarrow>
      \<exists>q t'. cls s t = (Some q, t') \<and> invar t' \<and> q \<in># held t \<and> pos_symbol q = s \<and> held t' = held t - {#q#}"
    and close_miss: "invar t \<Longrightarrow> (\<forall>p \<in># held t. pos_symbol p \<noteq> s) \<Longrightarrow> cls s t = (None, t)"
    and cap_bound: "invar t \<Longrightarrow> size (held t) \<le> cap"
begin

lemma open_invar: "invar t \<Longrightarrow> invar (snd (opn p t))"
  using open_ok [of t p] open_full [of t p] cap_bound [of t] by (cases "size (held t) < cap") auto

lemma close_invar: "invar t \<Longrightarrow> invar (snd (cls s t))"
  using close_hit [of t _ s] close_miss [of t s] by (cases "\<exists>p \<in># held t. pos_symbol p = s") force+

text \<open>Closing a symbol and opening it again replaces one position and keeps the others.\<close>

lemma replace:
  assumes "invar t" "q \<in># held t" "pos_symbol q = pos_symbol p"
  shows "\<exists>old t1 t2. cls (pos_symbol p) t = (Some old, t1) \<and> opn p t1 = (True, t2) \<and> invar t2 \<and>
    old \<in># held t \<and> pos_symbol old = pos_symbol p \<and> held t2 = add_mset p (held t - {#old#})"
proof -
  obtain old t1 where 1: "cls (pos_symbol p) t = (Some old, t1)" "invar t1" "old \<in># held t"
      "pos_symbol old = pos_symbol p" "held t1 = held t - {#old#}"
    using close_hit [OF assms] by blast
  have "size (held t1) < cap"
    using 1(3,5) cap_bound [OF assms(1)] by (metis Suc_le_eq insert_DiffM size_add_mset)
  then show ?thesis using open_ok [OF 1(2), of p] 1 by auto
qed

end

definition held :: "position_tracker \<Rightarrow> position multiset" where
  "held t = mset (get_active_positions t)"

definition pt_invar :: "position_tracker \<Rightarrow> bool" where
  "pt_invar t \<longleftrightarrow> length (pt_slots t) = TRACKER_SLOTS \<and>
    pt_position_count t = int (length (filter slot_active (pt_slots t))) \<and>
    (\<forall>slot \<in> set (pt_slots t). slot_active slot \<longrightarrow> slot_symbol_hash slot = symbol_hash (pos_symbol (slot_position slot)))"

definition slots_wf :: "position_slot list \<Rightarrow> bool" where
  "slots_wf slots \<longleftrightarrow>
    (\<forall>slot \<in> set slots. slot_active slot \<longrightarrow> slot_symbol_hash slot = symbol_hash (pos_symbol (slot_position slot)))"

definition slots_held :: "position_slot list \<Rightarrow> position multiset" where
  "slots_held slots = mset (map slot_position (filter slot_active slots))"

lemma slots_held_simps [simp]:
  "slots_held [] = {#}"
  "slots_held (a # slots) = (if slot_active a then add_mset (slot_position a) (slots_held slots) else slots_held slots)"
  by (simp_all add: slots_held_def)

lemma size_slots_held: "size (slots_held slots) = length (filter slot_active slots)"
  by (induction slots) auto

lemma size_slots_held_less [simp]: "size (slots_held slots) < Suc (length slots)"
  unfolding size_slots_held by (rule le_imp_less_Suc [OF length_filter_le])

lemma held_slots: "held t = slots_held (pt_slots t)"
  by (simp add: held_def slots_held_def get_active_positions_def)

lemma pt_invar_slots:
  "pt_invar t \<longleftrightarrow> length (pt_slots t) = TRACKER_SLOTS \<and> pt_position_count t = int (size (held t)) \<and> slots_wf (pt_slots t)"
  by (simp add: pt_invar_def held_slots size_slots_held slots_wf_def)

lemma open_slots_spec:
  "open_slots p slots = None \<Longrightarrow> size (slots_held slots) = length slots"
  "open_slots p slots = Some slots' \<Longrightarrow> size (slots_held slots) < length slots \<and> length slots' = length slots \<and>
    slots_held slots' = add_mset p (slots_held slots) \<and> (slots_wf slots \<longrightarrow> slots_wf slots')"
proof (induction slots arbitrary: slots')
  case (Cons a slots)
  {
    case 1
    then show ?case using Cons(1) by (auto split: if_splits)
  next
    case 2
    then show ?case using Cons(2) by (auto simp: slots_wf_def split: if_splits)
  }
qed simp_all

lemma slot_matches_wf:
  "slots_wf slots \<Longrightarrow> slot \<in> set slots \<Longrightarrow> slot_matches s slot \<longleftrightarrow> slot_active slot \<and> pos_symbol (slot_position slot) = s"
  by (auto simp: slots_wf_def slot_matches_def)

lemma in_slots_held: "p \<in># slots_held slots \<longleftrightarrow> (\<exists>slot \<in> set slots. slot_active slot \<and> slot_position slot = p)"
  by (auto simp: slots_held_def)

lemma close_slots_spec:
  "close_slots s slots = None \<Longrightarrow> slots_wf slots \<Longrightarrow> p \<in># slots_held slots \<Longrightarrow> pos_symbol p \<noteq> s"
  "close_slots s slots = Some (q, slots') \<Longrightarrow> slots_wf slots \<Longrightarrow>
    length slots' = length slots \<and> slots_wf slots' \<and> q \<in># slots_held slots \<and> pos_symbol q = s \<and>
    slots_held slots = add_mset q (slots_held slots')"
proof (induction slots arbitrary: slots')
  case (Cons a slots)
  {
    case 1
    then show ?case using Cons(1) slot_matches_wf [OF 1(2), of a s]
      by (auto simp: slots_wf_def split: if_splits)
  next
    case 2
    then show ?case using Cons(2) slot_matches_wf [OF 2(2), of a s]
      by (auto simp: slots_wf_def split: if_splits)
  }
qed simp_all

lemma open_position_ok:
  assumes inv: "pt_invar t" and room: "size (held t) < TRACKER_SLOTS"
  shows "\<exists>t'. open_position p t = (True, t') \<and> pt_invar t' \<and> held t' = add_mset p (held t)"
proof -
  have "open_slots p (pt_slots t) \<noteq> None"
    using open_slots_spec(1) [of p "pt_slots t"] inv room by (auto simp: pt_invar_slots held_slots)
  then obtain slots where slots: "open_slots p (pt_slots t) = Some slots" by auto
  define t' where "t' = t\<lparr>pt_slots := slots, pt_position_count := pt_position_count t + 1\<rparr>"
  have "held t' = add_mset p (held t)" "pt_invar t'"
    using open_slots_spec(2) [OF slots] inv by (simp_all add: t'_def held_slots pt_invar_slots)
  then show ?thesis using slots by (simp add: open_position_def t'_def)
qed

lemma open_position_full:
  assumes inv: "pt_invar t" and full: "size (held t) = TRACKER_SLOTS"
  shows "open_position p t = (False, t)"
proof (cases "open_slots p (pt_slots t)")
  case (Some slots)
  then show ?thesis using open_slots_spec(2) [OF Some] inv full by (simp add: pt_invar_slots held_slots)
qed (simp add: open_position_def)

lemma close_position_hit:
  assumes inv: "pt_invar t" and p: "p \<in># held t" "pos_symbol p = s"
  shows "\<exists>q t'. close_position s t = (Some q, t') \<and> pt_invar t' \<and> q \<in># held t \<and> pos_symbol q = s \<and> held t' = held t - {#q#}"
proof -
  have wf: "slots_wf (pt_slots t)" using inv by (simp add: pt_invar_slots)
  have "close_slots s (pt_slots t) \<noteq> None"
    using close_slots_spec(1) [OF _ wf] p unfolding held_slots by blast
  then obtain q slots where slots: "close_slots s (pt_slots t) = Some (q, slots)" by auto
  define t' where "t' = t\<lparr>pt_slots := slots, pt_position_count := pt_position_count t - 1\<rparr>"
  note spec = close_slots_spec(2) [OF slots wf]
  have "held t' = held t - {#q#}" "pt_invar t'"
    using spec inv by (simp_all add: t'_def held_slots pt_invar_slots)
  then show ?thesis using slots spec by (simp add: close_position_def t'_def held_slots)
qed

lemma close_position_miss:
  assumes inv: "pt_invar t" and miss: "\<forall>p \<in># held t. pos_symbol p \<noteq> s"
  shows "close_position s t = (None, t)"
proof (cases "close_slots s (pt_slots t)")
  case (Some x)
  then obtain q slots where "close_slots s (pt_slots t) = Some (q, slots)" by (cases x) auto
  then show ?thesis using close_slots_spec(2) inv miss by (fastforce simp: pt_invar_slots held_slots)
qed (simp add: close_position_def)

interpretation tracker: position_store open_position close_position held TRACKER_SLOTS pt_invar
proof unfold_locales
  show "size (held t) \<le> TRACKER_SLOTS" if "pt_invar t" for t
    using size_slots_held_less [of "pt_slots t"] that unfolding pt_invar_slots held_slots by linarith
qed (fact open_position_ok open_position_full close_position_hit close_position_miss)+

lemma pt_init_invar: "pt_invar position_tracker_init"
  by (simp add: pt_invar_def position_tracker_init_def position_slot_default_def)

lemma has_position_held: "pt_invar t \<Longrightarrow> has_position t s \<longleftrightarrow> (\<exists>p \<in># held t. pos_symbol p = s)"
  unfolding has_position_def list_ex_iff held_slots
  using slot_matches_wf [of "pt_slots t" _ s] in_slots_held [of _ "pt_slots t"] by (auto simp: pt_invar_slots)

lemma get_position_held:
  assumes "pt_invar t"
  shows "get_position t s = Some p \<Longrightarrow> p \<in># held t \<and> pos_symbol p = s"
    and "get_position t s = None \<Longrightarrow> \<not> has_position t s"
  using assms slot_matches_wf [of "pt_slots t" _ s]
  by (auto simp: get_position_def has_position_def list_ex_iff pt_invar_slots held_slots in_slots_held find_Some_iff find_None_iff)

section \<open>Runs of the tracker\<close>

datatype tracker_op = Open position | Close symbol_id | Update position

fun tracker_step :: "tracker_op \<Rightarrow> position_tracker \<Rightarrow> position_tracker" where
  "tracker_step (Open p) t = snd (open_position p t)"
| "tracker_step (Close s) t = snd (close_position s t)"
| "tracker_step (Update p) t = snd (update_position p t)"

lemma update_position_invar: "pt_invar t \<Longrightarrow> pt_invar (snd (update_position p t))"
  using tracker.close_invar [of t "pos_symbol p"] tracker.open_invar
  by (auto simp: update_position_def split: prod.splits option.splits)

lemma tracker_run_invar: "pt_invar t \<Longrightarrow> pt_invar (fold tracker_step ops t)"
proof (induction ops arbitrary: t)
  case (Cons op ops)
  have "pt_invar (tracker_step op t)"
    using Cons.prems by (cases op) (simp_all add: tracker.open_invar tracker.close_invar update_position_invar)
  then show ?case using Cons.IH by simp
qed simp

text \<open>
  The position count never drifts: after any sequence of open, close and update calls it is
  the number of positions that are reported as active, and it stays between 0 and the 16 slots.
\<close>

lemma position_count_exact:
  "get_position_count (fold tracker_step ops position_tracker_init) =
     int (length (get_active_positions (fold tracker_step ops position_tracker_init))) \<and>
   length (get_active_positions (fold tracker_step ops position_tracker_init)) \<le> 16"
proof -
  have "pt_invar (fold tracker_step ops position_tracker_init)" by (rule tracker_run_invar [OF pt_init_invar])
  then show ?thesis using tracker.cap_bound [of "fold tracker_step ops position_tracker_init"]
    by (simp add: pt_invar_def get_position_count_def get_active_positions_def held_def TRACKER_SLOTS_def flip: size_mset)
qed

text \<open>
  \<open>update_position\<close> replaces exactly one position: on a symbol that is held it succeeds,
  the new data takes the place of one position of that symbol, all other positions and the count
  stay; on a symbol that is not held it fails and changes nothing.
\<close>

lemma update_position_replaces:
  assumes inv: "pt_invar t"
  shows "(has_position t (pos_symbol p) \<longrightarrow>
      (\<exists>old. old \<in># held t \<and> pos_symbol old = pos_symbol p \<and>
        fst (update_position p t) \<and> held (snd (update_position p t)) = add_mset p (held t - {#old#}) \<and>
        get_position_count (snd (update_position p t)) = get_position_count t)) \<and>
    (\<not> has_position t (pos_symbol p) \<longrightarrow> update_position p t = (False, t))"
proof (cases "has_position t (pos_symbol p)")
  case True
  then obtain q where "q \<in># held t" "pos_symbol q = pos_symbol p" using has_position_held [OF inv] by blast
  from tracker.replace [OF inv this] obtain old t1 t2 where
    r: "close_position (pos_symbol p) t = (Some old, t1)" "open_position p t1 = (True, t2)" "pt_invar t2"
      "old \<in># held t" "pos_symbol old = pos_symbol p" "held t2 = add_mset p (held t - {#old#})" by blast
  have "size (held t2) = size (held t)" using r(4,6) by (metis insert_DiffM size_add_mset)
  then show ?thesis using True r inv by (auto simp: update_position_def get_position_count_def pt_invar_slots)
next
  case False
  then have "\<forall>q \<in># held t. pos_symbol q \<noteq> pos_symbol p" using has_position_held [OF inv] by blast
  then show ?thesis using False close_position_miss [OF inv] by (simp add: update_position_def)
qed

section \<open>Capital\<close>

lemma add_pnl_fields [simp]:
  "ct_initial_capital (add_realized_pnl x t) = ct_initial_capital t"
  "ct_realized_pnl_usd (add_realized_pnl x t) = ct_realized_pnl_usd t + x"
  "ct_total_trades (add_realized_pnl x t) = ct_total_trades t + 1"
  "ct_winning_trades (add_realized_pnl x t) = ct_winning_trades t + (if 0 < x then 1 else 0)"
  "ct_pnl_history (add_realized_pnl x t) = ct_pnl_history t @ [x]"
  by (simp_all add: add_realized_pnl_def Let_def)

text \<open>
  The trade statistics are those of the session's trades: after a reset and any sequence of
  closed trades the history lists them in order, the totals are its length and the number of
  profitable ones, the realised profit is the running sum in that order, and the initial capital
  is untouched.
\<close>

lemma capital_statistics:
  "ct_pnl_history (fold add_realized_pnl pnls (reset_session t)) = pnls \<and>
   ct_total_trades (fold add_realized_pnl pnls (reset_session t)) = int (length pnls) \<and>
   ct_winning_trades (fold add_realized_pnl pnls (reset_session t)) = int (length (filter (\<lambda>x. 0 < x) pnls)) \<and>
   ct_realized_pnl_usd (fold add_realized_pnl pnls (reset_session t)) = foldl (+) 0 pnls \<and>
   ct_initial_capital (fold add_realized_pnl pnls (reset_session t)) = ct_initial_capital t"
proof -
  have "ct_pnl_history (fold add_realized_pnl pnls u) = ct_pnl_history u @ pnls \<and>
     ct_total_trades (fold add_realized_pnl pnls u) = ct_total_trades u + int (length pnls) \<and>
     ct_winning_trades (fold add_realized_pnl pnls u) = ct_winning_trades u + int (length (filter (\<lambda>x. 0 < x) pnls)) \<and>
     ct_realized_pnl_usd (fold add_realized_pnl pnls u) = foldl (+) (ct_realized_pnl_usd u) pnls \<and>
     ct_initial_capital (fold add_realized_pnl pnls u) = ct_initial_capital u" for u
    by (induction pnls arbitrary: u) auto
  from this [of "reset_session t"] show ?thesis by (simp add: reset_session_def)
qed

text \<open>
  The position size per side never exceeds the side limit, for any capital that is a number
  and any number of positions that a double represents exactly.
\<close>

lemma position_size_capped:
  assumes "get_current_capital t \<noteq> NaN" "0 < m" "m \<le> 2 ^ 53"
  shows "get_position_size_usd m t \<le> POSITION_SIZE_USD"
proof -
  have m: "lit (of_int m) = Fin (of_int m)" "lit 2 = Fin 2"
    using assms(2,3) lit_of_int [of m] lit_of_int [of 2] by simp_all
  have "get_current_capital t / lit (of_int m) \<noteq> NaN"
    using assms(1,2) by (cases "get_current_capital t") (auto simp: m)
  then have dyn: "get_current_capital t / lit (of_int m) / lit 2 \<noteq> NaN"
    by (cases "get_current_capital t / lit (of_int m)") (auto simp: m)
  have pos: "POSITION_SIZE_USD \<noteq> NaN" by (simp add: cfg)
  show ?thesis unfolding get_position_size_usd_def Let_def using dmin_le [OF dyn pos] by simp
qed

end
