(* ===== verification/Quotes.thy ===== *)
theory Quotes
  imports PriceCache
begin

text \<open>
  The quote quality guards. The engine (\<^verbatim>\<open>src/strategy/arbitrage_engine.cpp\<close>) and the order
  manager (\<^verbatim>\<open>src/execution/order_manager.cpp\<close>) each have their own copy; the second leaves out
  the test that the clock is not behind the time stamp and relies on 64-bit wrap-around instead.
  The clock reading is an argument.
\<close>

definition spread_pct :: "dbl \<Rightarrow> dbl \<Rightarrow> dbl" where
  "spread_pct bid ask =
    (if bid \<le> 0 \<or> ask \<le> 0 \<or> ask < bid then Inf False
     else let mid = (bid + ask) * lit 0.5
       in if mid \<le> 0 then Inf False else ((ask - bid) / mid) * lit 100)"

definition quote_is_fresh_with_limit :: "price_data \<Rightarrow> u64 \<Rightarrow> u64 \<Rightarrow> bool" where
  "quote_is_fresh_with_limit price now_ms max_age_ms =
    (if \<not> pd_valid price \<or> pd_timestamp price = 0 then False
     else if now_ms < pd_timestamp price then False
     else now_ms - pd_timestamp price \<le> max_age_ms)"

definition quote_pair_is_usable :: "u64 \<Rightarrow> price_data \<Rightarrow> price_data \<Rightarrow> bool \<Rightarrow> bool" where
  "quote_pair_is_usable now_ms korean_price foreign_price is_exit =
    (let max_age = (if is_exit then MAX_QUOTE_AGE_MS_EXIT else MAX_QUOTE_AGE_MS);
         max_desync = (if is_exit then MAX_QUOTE_DESYNC_MS_EXIT else MAX_QUOTE_DESYNC_MS);
         max_kr_sp = (if is_exit then MAX_KOREAN_SPREAD_PCT_EXIT else MAX_KOREAN_SPREAD_PCT);
         max_fr_sp = (if is_exit then MAX_FOREIGN_SPREAD_PCT_EXIT else MAX_FOREIGN_SPREAD_PCT)
     in if \<not> quote_is_fresh_with_limit korean_price now_ms max_age \<or>
           \<not> quote_is_fresh_with_limit foreign_price now_ms max_age then False
        else let ts_diff = (if pd_timestamp foreign_price \<le> pd_timestamp korean_price
               then pd_timestamp korean_price - pd_timestamp foreign_price
               else pd_timestamp foreign_price - pd_timestamp korean_price)
          in if max_desync < ts_diff then False
             else let kr_spread = spread_pct (pd_bid korean_price) (pd_ask korean_price);
                      fr_spread = spread_pct (pd_bid foreign_price) (pd_ask foreign_price)
               in if max_kr_sp < kr_spread then False
                  else if max_fr_sp < fr_spread then False else True)"

text \<open>The order manager's copy.\<close>

definition om_quote_pair_is_usable :: "u64 \<Rightarrow> price_data \<Rightarrow> price_data \<Rightarrow> bool \<Rightarrow> bool" where
  "om_quote_pair_is_usable now_ms korean_price foreign_price is_exit =
    (let max_age = (if is_exit then MAX_QUOTE_AGE_MS_EXIT else MAX_QUOTE_AGE_MS);
         max_desync = (if is_exit then MAX_QUOTE_DESYNC_MS_EXIT else MAX_QUOTE_DESYNC_MS);
         max_kr_sp = (if is_exit then MAX_KOREAN_SPREAD_PCT_EXIT else MAX_KOREAN_SPREAD_PCT);
         max_fr_sp = (if is_exit then MAX_FOREIGN_SPREAD_PCT_EXIT else MAX_FOREIGN_SPREAD_PCT)
     in if \<not> pd_valid korean_price \<or> pd_timestamp korean_price = 0 \<or>
           \<not> pd_valid foreign_price \<or> pd_timestamp foreign_price = 0 then False
        else if max_age < now_ms - pd_timestamp korean_price \<or> max_age < now_ms - pd_timestamp foreign_price then False
        else let ts_diff = (if pd_timestamp foreign_price \<le> pd_timestamp korean_price
               then pd_timestamp korean_price - pd_timestamp foreign_price
               else pd_timestamp foreign_price - pd_timestamp korean_price)
          in if max_desync < ts_diff then False
             else if max_kr_sp < spread_pct (pd_bid korean_price) (pd_ask korean_price) then False
             else if max_fr_sp < spread_pct (pd_bid foreign_price) (pd_ask foreign_price) then False
             else True)"

section \<open>What a usable pair guarantees\<close>

lemma spread_limits_finite:
  "MAX_KOREAN_SPREAD_PCT_EXIT < Inf False" "MAX_KOREAN_SPREAD_PCT < Inf False"
  "MAX_FOREIGN_SPREAD_PCT_EXIT < Inf False" "MAX_FOREIGN_SPREAD_PCT < Inf False"
  by (simp_all add: cfg dbl_eval)

lemma spread_pct_bounded:
  assumes "\<not> m < spread_pct bid ask" "m < Inf False" "bid \<noteq> NaN" "ask \<noteq> NaN"
  shows "0 < bid \<and> bid \<le> ask"
proof -
  have "\<not> (bid \<le> 0 \<or> ask \<le> 0 \<or> ask < bid)"
    using assms(1,2) by (auto simp: spread_pct_def)
  then show ?thesis using assms(3,4) by (auto simp: dbl_pos_iff dbl_not_lt)
qed

lemma fresh_age:
  assumes "quote_is_fresh_with_limit p now limit"
  shows "pd_valid p" "unat (pd_timestamp p) \<le> unat now" "unat now - unat (pd_timestamp p) \<le> unat limit"
proof -
  have *: "pd_valid p" "pd_timestamp p \<le> now" "now - pd_timestamp p \<le> limit"
    using assms by (auto simp: quote_is_fresh_with_limit_def split: if_splits)
  then show "pd_valid p" "unat (pd_timestamp p) \<le> unat now" by (simp_all add: word_le_nat_alt)
  show "unat now - unat (pd_timestamp p) \<le> unat limit"
    using * by (simp add: word_le_nat_alt unat_sub)
qed

text \<open>
  A pair of quotes that passes the engine's guard is fresh on both sides, not older than the
  limit by the clock, positive and uncrossed (when its prices are numbers).
\<close>

lemma usable_quotes_fresh_and_uncrossed:
  assumes "quote_pair_is_usable now k f is_exit"
    and "pd_bid k \<noteq> NaN" "pd_ask k \<noteq> NaN" "pd_bid f \<noteq> NaN" "pd_ask f \<noteq> NaN"
  shows "0 < pd_bid k \<and> pd_bid k \<le> pd_ask k \<and> 0 < pd_bid f \<and> pd_bid f \<le> pd_ask f \<and>
    unat (pd_timestamp k) \<le> unat now \<and> unat (pd_timestamp f) \<le> unat now \<and>
    unat now - unat (pd_timestamp k) \<le> (if is_exit then 8000 else 700) \<and>
    unat now - unat (pd_timestamp f) \<le> (if is_exit then 8000 else 700)"
proof -
  let ?age = "if is_exit then MAX_QUOTE_AGE_MS_EXIT else MAX_QUOTE_AGE_MS"
  have fr: "quote_is_fresh_with_limit k now ?age" "quote_is_fresh_with_limit f now ?age"
    and sp: "\<not> (if is_exit then MAX_KOREAN_SPREAD_PCT_EXIT else MAX_KOREAN_SPREAD_PCT) < spread_pct (pd_bid k) (pd_ask k)"
      "\<not> (if is_exit then MAX_FOREIGN_SPREAD_PCT_EXIT else MAX_FOREIGN_SPREAD_PCT) < spread_pct (pd_bid f) (pd_ask f)"
    using assms(1) by (auto simp: quote_pair_is_usable_def Let_def split: if_splits)
  have "0 < pd_bid k \<and> pd_bid k \<le> pd_ask k" "0 < pd_bid f \<and> pd_bid f \<le> pd_ask f"
    using spread_pct_bounded [OF sp(1)] spread_pct_bounded [OF sp(2)] assms(2-5) spread_limits_finite
    by (cases is_exit; simp)+
  then show ?thesis using fresh_age [OF fr(1)] fresh_age [OF fr(2)] by (cases is_exit) (simp_all add: cfg)
qed

definition demo_quote :: price_data where
  "demo_quote = \<lparr>pd_bid = 1, pd_ask = 1, pd_bid_qty = 1, pd_ask_qty = 1, pd_last = 1, pd_timestamp = 500, pd_valid = True\<rparr>"

lemma demo_quote_usable: "quote_pair_is_usable 1000 demo_quote demo_quote False"
  by (simp add: quote_pair_is_usable_def quote_is_fresh_with_limit_def demo_quote_def spread_pct_def cfg dbl_eval cong: let_weak_cong)

lemma guard_merge:
  "(if \<not> v \<or> t \<or> \<not> w \<or> u then False else if a \<or> b then False else r) =
   (if \<not> (v \<and> \<not> t \<and> \<not> a) \<or> \<not> (w \<and> \<not> u \<and> \<not> b) then False else r)"
  by auto

text \<open>
  The two copies of the guard agree while clock and time stamps are below \<open>2 ^ 63\<close>
  milliseconds: a time stamp ahead of the clock wraps to an age that no limit admits, so leaving
  out the comparison in the order manager's copy changes nothing.
\<close>

lemma quote_guards_agree:
  assumes "unat now < 2 ^ 63" "unat (pd_timestamp k) < 2 ^ 63" "unat (pd_timestamp f) < 2 ^ 63"
  shows "om_quote_pair_is_usable now k f is_exit = quote_pair_is_usable now k f is_exit"
proof -
  have fresh: "\<not> m < now - t \<longleftrightarrow> \<not> now < t \<and> now - t \<le> m"
    if "unat t < 2 ^ 63" "m \<in> {700, 8000}" for m t :: u64
  proof (cases "now < t")
    case True
    then have lt: "unat now < unat t" by (simp add: word_less_nat_alt)
    then have "unat (now - t) = 2 ^ 64 + unat now - unat t" using unat_sub_u64 [of now t] True by (simp add: not_le)
    then have "2 ^ 63 < unat (now - t)" using that(1) by simp
    then have "m < now - t" using that(2) by (auto simp: word_less_nat_alt)
    then show ?thesis using True by simp
  qed (simp add: not_less)
  let ?age = "if is_exit then MAX_QUOTE_AGE_MS_EXIT else MAX_QUOTE_AGE_MS"
  have age: "?age \<in> {700, 8000}" by (simp add: cfg)
  have "quote_is_fresh_with_limit p now ?age \<longleftrightarrow>
      pd_valid p \<and> \<not> pd_timestamp p = 0 \<and> \<not> ?age < now - pd_timestamp p" if "unat (pd_timestamp p) < 2 ^ 63" for p
    unfolding quote_is_fresh_with_limit_def fresh [OF that age] by simp
  note this [OF assms(2)] this [OF assms(3)]
  then show ?thesis
    unfolding om_quote_pair_is_usable_def quote_pair_is_usable_def Let_def by (simp only: guard_merge)
qed

end
