(* ===== verification/Engine.thy ===== *)
theory Engine
  imports Quotes Premium Selection Positions RingBuffer
begin

text \<open>
  The arbitrage engine (\<^verbatim>\<open>ArbitrageEngine\<close> of \<^verbatim>\<open>include/kimp/strategy/arbitrage_engine.hpp\<close> and
  \<^verbatim>\<open>src/strategy/arbitrage_engine.cpp\<close>): market data updates, the incremental entry cache with
  its two bitmaps, the entry scan and the exit checks. One handler call is one step; every clock
  reading inside a call is the argument \<open>now\<close>. The registered callbacks are the two lists of
  signals they were called with, oldest first. A push that would spin leaves the signal queue
  as it is; the invariant of the queue excludes it. Logging and latency tracing are left out.
\<close>

section \<open>State\<close>

definition MAX_CACHED_SYMBOLS :: nat where "MAX_CACHED_SYMBOLS = 1024"

record exchange_pair =
  xp_korean :: exchange
  xp_foreign :: exchange
  xp_entry_enabled :: bool

record cached_entry =
  ce_entry_premium :: dbl
  ce_korean_ask :: dbl
  ce_korean_ask_qty :: dbl
  ce_foreign_bid :: dbl
  ce_foreign_bid_qty :: dbl
  ce_match_qty :: dbl
  ce_target_coin_qty :: dbl
  ce_max_tradable_usdt_at_best :: dbl
  ce_gross_edge_pct :: dbl
  ce_net_edge_pct :: dbl
  ce_net_profit_krw :: dbl
  ce_usdt_rate :: dbl
  ce_both_can_fill_target :: bool
  ce_best_korean_exchange :: exchange
  ce_best_foreign_exchange :: exchange
  ce_qualified :: bool
  ce_signal_fired :: bool

definition cached_entry_default :: cached_entry where
  "cached_entry_default = \<lparr>ce_entry_premium = lit 100, ce_korean_ask = 0, ce_korean_ask_qty = 0, ce_foreign_bid = 0,
     ce_foreign_bid_qty = 0, ce_match_qty = 0, ce_target_coin_qty = 0, ce_max_tradable_usdt_at_best = 0,
     ce_gross_edge_pct = 0, ce_net_edge_pct = 0, ce_net_profit_krw = 0, ce_usdt_rate = 0, ce_both_can_fill_target = False,
     ce_best_korean_exchange = Bithumb, ce_best_foreign_exchange = Bithumb, ce_qualified = False, ce_signal_fired = False\<rparr>"

record engine =
  en_symbols :: "symbol_id list"
  en_foreign_symbols :: "symbol_id list"
  en_korean_index :: "(symbol_id \<times> nat) list"
  en_foreign_index :: "(symbol_id \<times> nat) list"
  en_pairs :: "exchange_pair list"
  en_prices :: price_cache
  en_tracker :: position_tracker
  en_capital :: capital_tracker
  en_entry_cache :: "cached_entry list"
  en_candidate_bits :: atomic_bitset
  en_fired_bits :: atomic_bitset
  en_entry_signals :: "arbitrage_signal mpmc"
  en_exit_signals :: "exit_signal mpmc"
  en_entry_calls :: "arbitrage_signal list"
  en_exit_calls :: "exit_signal list"
  en_running :: bool
  en_entry_suppressed :: bool
  en_update_seq :: u64
  en_last_usdt_log :: "dbl list"
  en_next_entry_scan_ms :: u64
  en_next_usdt_scan_ms :: u64

text \<open>A fresh engine; the arguments are the default elements of the two signal queues.\<close>

definition engine_init :: "arbitrage_signal \<Rightarrow> exit_signal \<Rightarrow> engine" where
  "engine_init s x = \<lparr>en_symbols = [], en_foreign_symbols = [], en_korean_index = [], en_foreign_index = [], en_pairs = [],
     en_prices = price_cache_init, en_tracker = position_tracker_init, en_capital = capital_tracker_init TOTAL_CAPITAL_USD,
     en_entry_cache = replicate MAX_CACHED_SYMBOLS cached_entry_default,
     en_candidate_bits = bitset_init MAX_CACHED_SYMBOLS, en_fired_bits = bitset_init MAX_CACHED_SYMBOLS,
     en_entry_signals = mpmc_init (replicate 256 s), en_exit_signals = mpmc_init (replicate 256 x),
     en_entry_calls = [], en_exit_calls = [], en_running = False, en_entry_suppressed = False, en_update_seq = 0,
     en_last_usdt_log = replicate 4 0, en_next_entry_scan_ms = 0, en_next_usdt_scan_ms = 0\<rparr>"

section \<open>Configuration\<close>

definition add_symbol :: "symbol_id \<Rightarrow> engine \<Rightarrow> engine" where
  "add_symbol symbol e =
    (if map_of (en_korean_index e) symbol \<noteq> None then e
     else if MAX_CACHED_SYMBOLS \<le> length (en_symbols e) then e
     else let idx = length (en_symbols e);
              foreign_symbol = SymbolId (get_base symbol) ''USDT''
       in e\<lparr>en_symbols := en_symbols e @ [symbol], en_foreign_symbols := en_foreign_symbols e @ [foreign_symbol],
            en_korean_index := AList.update symbol idx (en_korean_index e),
            en_foreign_index := AList.update foreign_symbol idx (en_foreign_index e)\<rparr>)"

definition add_exchange_pair :: "exchange \<Rightarrow> exchange \<Rightarrow> engine \<Rightarrow> engine" where
  "add_exchange_pair korean foreign e =
     e\<lparr>en_pairs := en_pairs e @ [\<lparr>xp_korean = korean, xp_foreign = foreign, xp_entry_enabled = True\<rparr>]\<rparr>"

definition set_exchange_pair_entry_enabled :: "exchange \<Rightarrow> exchange \<Rightarrow> bool \<Rightarrow> engine \<Rightarrow> engine" where
  "set_exchange_pair_entry_enabled korean foreign enabled e =
     e\<lparr>en_pairs := map (\<lambda>p. if xp_korean p = korean \<and> xp_foreign p = foreign then p\<lparr>xp_entry_enabled := enabled\<rparr> else p)
       (en_pairs e)\<rparr>"

definition set_entry_suppressed :: "bool \<Rightarrow> engine \<Rightarrow> engine" where
  "set_entry_suppressed suppressed e = e\<lparr>en_entry_suppressed := suppressed\<rparr>"

definition engine_start :: "engine \<Rightarrow> engine" where
  "engine_start e = (if en_running e then e else e\<lparr>en_running := True\<rparr>)"

definition engine_stop :: "engine \<Rightarrow> engine" where
  "engine_stop e = (if \<not> en_running e then e else e\<lparr>en_running := False\<rparr>)"

definition engine_open_position :: "position \<Rightarrow> engine \<Rightarrow> engine" where
  "engine_open_position pos e = e\<lparr>en_tracker := snd (open_position pos (en_tracker e))\<rparr>"

definition engine_close_position :: "symbol_id \<Rightarrow> engine \<Rightarrow> position option \<times> engine" where
  "engine_close_position symbol e =
    (case close_position symbol (en_tracker e) of (r, t) \<Rightarrow> (r, e\<lparr>en_tracker := t\<rparr>))"

definition engine_update_position :: "position \<Rightarrow> engine \<Rightarrow> bool \<times> engine" where
  "engine_update_position pos e =
    (case update_position pos (en_tracker e) of (r, t) \<Rightarrow> (r, e\<lparr>en_tracker := t\<rparr>))"

definition engine_add_realized_pnl :: "dbl \<Rightarrow> engine \<Rightarrow> engine" where
  "engine_add_realized_pnl pnl_usd e = e\<lparr>en_capital := add_realized_pnl pnl_usd (en_capital e)\<rparr>"

section \<open>The entry cache\<close>

definition sync_entry_state_bits :: "nat \<Rightarrow> bool \<Rightarrow> bool \<Rightarrow> engine \<Rightarrow> engine" where
  "sync_entry_state_bits idx qualifies signal_fired e =
    (if MAX_CACHED_SYMBOLS \<le> idx then e
     else e\<lparr>en_candidate_bits := bs_set idx (qualifies \<and> \<not> signal_fired) (en_candidate_bits e),
            en_fired_bits := bs_set idx signal_fired (en_fired_bits e)\<rparr>)"

text \<open>The running best of the scan over exchange pairs.\<close>

record best_pair =
  bp_korean_ex :: exchange
  bp_foreign_ex :: exchange
  bp_korean_price :: price_data
  bp_foreign_price :: price_data
  bp_net_profit :: dbl
  bp_net_edge :: dbl
  bp_usdt_rate :: dbl

definition best_pair_init :: "exchange_pair \<Rightarrow> best_pair" where
  "best_pair_init p = \<lparr>bp_korean_ex = xp_korean p, bp_foreign_ex = xp_foreign p, bp_korean_price = price_data_default,
     bp_foreign_price = price_data_default, bp_net_profit = lit (-1000000000000000000), bp_net_edge = lit (-1000000000000000000),
     bp_usdt_rate = 0\<rparr>"

definition pair_metrics :: "price_cache \<Rightarrow> exchange \<Rightarrow> exchange \<Rightarrow> string \<Rightarrow> price_data \<Rightarrow> price_data \<Rightarrow> dbl \<Rightarrow> relay_metrics" where
  "pair_metrics c korean foreign base korean_price foreign_price rate =
    (let withdraw_fee = get_withdraw_fee c korean foreign base
     in calculate_relay_metrics (pd_ask korean_price) (pd_ask_qty korean_price) (pd_bid foreign_price)
          (pd_bid_qty foreign_price) rate (get_korean_fee_rate korean) (get_foreign_fee_rate foreign) withdraw_fee)"

definition consider_pair :: "u64 \<Rightarrow> price_cache \<Rightarrow> symbol_id \<Rightarrow> symbol_id \<Rightarrow> exchange_pair \<Rightarrow> best_pair \<Rightarrow> best_pair" where
  "consider_pair now c symbol foreign_symbol pair b =
    (let base = get_base symbol in
     if \<not> xp_entry_enabled pair then b
     else if \<not> is_transfer_route_available c (xp_korean pair) (xp_foreign pair) base then b
     else let korean_price = get_price c (xp_korean pair) symbol in
       if \<not> pd_valid korean_price \<or> pd_ask korean_price \<le> 0 then b
     else let foreign_price = get_price c (xp_foreign pair) foreign_symbol in
       if \<not> pd_valid foreign_price \<or> pd_bid foreign_price \<le> 0 then b
     else if \<not> quote_pair_is_usable now korean_price foreign_price False then b
     else let rate = get_usdt_krw c (xp_korean pair) in
       if rate \<le> 0 then b
     else let m = pair_metrics c (xp_korean pair) (xp_foreign pair) base korean_price foreign_price rate in
       if bp_net_profit b < rm_net_profit_krw m \<or>
          deq (rm_net_profit_krw m) (bp_net_profit b) \<and> bp_net_edge b < rm_net_edge_pct m
       then \<lparr>bp_korean_ex = xp_korean pair, bp_foreign_ex = xp_foreign pair, bp_korean_price = korean_price,
             bp_foreign_price = foreign_price, bp_net_profit = rm_net_profit_krw m, bp_net_edge = rm_net_edge_pct m,
             bp_usdt_rate = rate\<rparr>
       else b)"

definition clear_state :: "nat \<Rightarrow> engine \<Rightarrow> engine" where
  "clear_state idx e =
    (let cache = en_entry_cache e ! idx;
         e = (if ce_qualified cache \<or> ce_signal_fired cache
              then e\<lparr>en_entry_cache := (en_entry_cache e)[idx := cache\<lparr>ce_qualified := False, ce_signal_fired := False\<rparr>]\<rparr>
              else e)
     in sync_entry_state_bits idx False False e)"

text \<open>The entry that \<open>update_symbol_entry\<close> stores when a best pair was found.\<close>

definition refreshed_entry :: "price_cache \<Rightarrow> symbol_id \<Rightarrow> best_pair \<Rightarrow> cached_entry \<Rightarrow> cached_entry" where
  "refreshed_entry prices symbol b cache =
    (let usdt_rate = bp_usdt_rate b;
         premium = calculate_entry_premium (pd_ask (bp_korean_price b)) (pd_bid (bp_foreign_price b)) usdt_rate;
         m = pair_metrics prices (bp_korean_ex b) (bp_foreign_ex b) (get_base symbol)
               (bp_korean_price b) (bp_foreign_price b) usdt_rate;
         qualifies = entry_gate_passes (rm_both_can_fill_target m) (rm_match_qty m) (rm_net_edge_pct m) (rm_net_profit_krw m);
         was_qualified = ce_qualified cache;
         signal_fired = (if was_qualified \<noteq> qualifies then False else ce_signal_fired cache)
     in cache\<lparr>ce_entry_premium := premium, ce_korean_ask := pd_ask (bp_korean_price b),
          ce_korean_ask_qty := pd_ask_qty (bp_korean_price b), ce_foreign_bid := pd_bid (bp_foreign_price b),
          ce_foreign_bid_qty := pd_bid_qty (bp_foreign_price b), ce_best_korean_exchange := bp_korean_ex b,
          ce_best_foreign_exchange := bp_foreign_ex b, ce_match_qty := rm_match_qty m,
          ce_target_coin_qty := rm_target_coin_qty m, ce_max_tradable_usdt_at_best := rm_max_tradable_usdt_at_best m,
          ce_gross_edge_pct := rm_gross_edge_pct m, ce_net_edge_pct := rm_net_edge_pct m,
          ce_net_profit_krw := rm_net_profit_krw m, ce_both_can_fill_target := rm_both_can_fill_target m,
          ce_usdt_rate := usdt_rate, ce_qualified := qualifies, ce_signal_fired := signal_fired\<rparr>)"

definition best_pair_of :: "u64 \<Rightarrow> nat \<Rightarrow> engine \<Rightarrow> best_pair" where
  "best_pair_of now idx e =
     fold (consider_pair now (en_prices e) (en_symbols e ! idx) (en_foreign_symbols e ! idx)) (en_pairs e)
       (best_pair_init (en_pairs e ! 0))"

definition update_symbol_entry :: "u64 \<Rightarrow> nat \<Rightarrow> engine \<Rightarrow> engine" where
  "update_symbol_entry now idx e =
    (if length (en_symbols e) \<le> idx then e
     else if en_pairs e = [] then clear_state idx e
     else let b = best_pair_of now idx e in
       if bp_usdt_rate b \<le> 0 then clear_state idx e
       else let cache = refreshed_entry (en_prices e) (en_symbols e ! idx) b (en_entry_cache e ! idx)
         in sync_entry_state_bits idx (ce_qualified cache) (ce_signal_fired cache)
              (e\<lparr>en_entry_cache := (en_entry_cache e)[idx := cache]\<rparr>))"

definition update_all_entries :: "u64 \<Rightarrow> engine \<Rightarrow> engine" where
  "update_all_entries now e = fold (update_symbol_entry now) [0..<length (en_symbols e)] e"

section \<open>The entry scan\<close>

text \<open>0: no position, 1: full position, 2: partial position, eligible for a top-up.\<close>

definition position_state :: "engine \<Rightarrow> nat list" where
  "position_state e = for_each_active_position
     (\<lambda>pos st. case map_of (en_korean_index e) (pos_symbol pos) of
         None \<Rightarrow> st
       | Some idx \<Rightarrow>
          if length (en_symbols e) \<le> idx \<or> MAX_CACHED_SYMBOLS \<le> idx then st
          else let actual_usd = pos_foreign_amount pos * pos_foreign_entry_price pos;
                   partial = actual_usd < pos_position_size_usd pos * lit 0.95
            in st[idx := if partial then 2 else 1])
     (en_tracker e) (replicate MAX_CACHED_SYMBOLS 0)"

definition push_signal :: "'a \<Rightarrow> 'a mpmc \<Rightarrow> 'a mpmc" where
  "push_signal x q = (case mpmc_try_push x q of Some (ok, q') \<Rightarrow> q' | None \<Rightarrow> q)"

definition signal_of :: "symbol_id \<Rightarrow> cached_entry \<Rightarrow> arbitrage_signal" where
  "signal_of symbol c = \<lparr>sig_symbol = symbol, sig_korean_exchange = ce_best_korean_exchange c,
     sig_foreign_exchange = ce_best_foreign_exchange c, sig_premium = ce_entry_premium c, sig_korean_ask = ce_korean_ask c,
     sig_korean_ask_qty = ce_korean_ask_qty c, sig_foreign_bid = ce_foreign_bid c, sig_foreign_bid_qty = ce_foreign_bid_qty c,
     sig_match_qty = ce_match_qty c, sig_target_coin_qty = ce_target_coin_qty c,
     sig_max_tradable_usdt_at_best = ce_max_tradable_usdt_at_best c, sig_gross_edge_pct = ce_gross_edge_pct c,
     sig_net_edge_pct = ce_net_edge_pct c, sig_net_profit_krw = ce_net_profit_krw c,
     sig_both_can_fill_target = ce_both_can_fill_target c, sig_usdt_krw_rate = ce_usdt_rate c\<rparr>"

definition emit_signal :: "nat \<Rightarrow> engine \<Rightarrow> engine" where
  "emit_signal idx e =
    (let signal = signal_of (en_symbols e ! idx) (en_entry_cache e ! idx)
     in e\<lparr>en_entry_calls := en_entry_calls e @ [signal], en_entry_signals := push_signal signal (en_entry_signals e)\<rparr>)"

definition fire_one :: "nat list \<Rightarrow> nat \<Rightarrow> engine \<Rightarrow> engine" where
  "fire_one state idx e =
    (let partial = state ! idx = 2; c = en_entry_cache e ! idx in
     if \<not> ce_qualified c then e
     else if \<not> partial \<and> ce_signal_fired c then e
     else let e = (if \<not> partial
                   then sync_entry_state_bits idx True True
                          (e\<lparr>en_entry_cache := (en_entry_cache e)[idx := c\<lparr>ce_signal_fired := True\<rparr>]\<rparr>)
                   else e)
       in emit_signal idx e)"

definition entry_selection_of :: "int \<Rightarrow> engine \<Rightarrow> nat list" where
  "entry_selection_of max_positions e =
     sel_indices (select_entry_candidates MAX_CACHED_SYMBOLS (length (en_symbols e)) max_positions
       (en_candidate_bits e) (en_fired_bits e) (position_state e)
       (\<lambda>idx. - ce_net_edge_pct (en_entry_cache e ! idx)) (\<lambda>idx. ce_qualified (en_entry_cache e ! idx)))"

definition fire_entry_from_cache :: "int \<Rightarrow> engine \<Rightarrow> engine" where
  "fire_entry_from_cache max_positions e =
    (if en_pairs e = [] then e
     else if en_entry_suppressed e then e
     else if length (en_symbols e) = 0 then e
     else fold (fire_one (position_state e)) (entry_selection_of max_positions e) e)"

section \<open>Exit checks\<close>

definition exit_check :: "u64 \<Rightarrow> engine \<Rightarrow> position \<Rightarrow> symbol_id \<Rightarrow> symbol_id \<Rightarrow> exit_signal option" where
  "exit_check now e pos korean_symbol foreign_symbol =
    (let korean_price = get_price (en_prices e) (pos_korean_exchange pos) korean_symbol in
     if \<not> pd_valid korean_price \<or> pd_bid korean_price \<le> 0 then None
     else let foreign_price = get_price (en_prices e) (pos_foreign_exchange pos) foreign_symbol in
       if \<not> pd_valid foreign_price \<or> pd_ask foreign_price \<le> 0 then None
     else if \<not> quote_pair_is_usable now korean_price foreign_price True then None
     else let usdt_rate = get_usdt_krw (en_prices e) (pos_korean_exchange pos) in
       if usdt_rate \<le> 0 then None
     else let premium = calculate_exit_premium (pd_bid korean_price) (pd_ask foreign_price) usdt_rate;
              dynamic_exit = dmax (pos_entry_premium pos + DYNAMIC_EXIT_SPREAD) EXIT_PREMIUM_THRESHOLD
       in if premium < dynamic_exit then None
          else Some \<lparr>xs_symbol = korean_symbol, xs_korean_exchange = pos_korean_exchange pos,
            xs_foreign_exchange = pos_foreign_exchange pos, xs_premium = premium, xs_korean_bid = pd_bid korean_price,
            xs_foreign_ask = pd_ask foreign_price, xs_usdt_krw_rate = usdt_rate\<rparr>)"

definition emit_exit :: "exit_signal option \<Rightarrow> engine \<Rightarrow> engine" where
  "emit_exit r e =
    (case r of None \<Rightarrow> e
     | Some signal \<Rightarrow> e\<lparr>en_exit_calls := en_exit_calls e @ [signal], en_exit_signals := push_signal signal (en_exit_signals e)\<rparr>)"

definition check_exit_conditions :: "u64 \<Rightarrow> engine \<Rightarrow> engine" where
  "check_exit_conditions now e =
    (if \<not> has_any_position (en_tracker e) then e
     else for_each_active_position
       (\<lambda>pos e. let foreign_symbol = (case map_of (en_korean_index e) (pos_symbol pos) of
              Some i \<Rightarrow> en_foreign_symbols e ! i | None \<Rightarrow> SymbolId (get_base (pos_symbol pos)) ''USDT'')
          in emit_exit (exit_check now e pos (pos_symbol pos) foreign_symbol) e)
       (en_tracker e) e)"

definition check_symbol_exit :: "u64 \<Rightarrow> nat \<Rightarrow> engine \<Rightarrow> engine" where
  "check_symbol_exit now idx e =
    (if length (en_symbols e) \<le> idx then e
     else let korean_symbol = en_symbols e ! idx; foreign_symbol = en_foreign_symbols e ! idx
       in case get_position (en_tracker e) korean_symbol of
            None \<Rightarrow> e
          | Some pos \<Rightarrow> emit_exit (exit_check now e pos korean_symbol foreign_symbol) e)"

section \<open>Market data\<close>

definition on_usdt_update :: "exchange \<Rightarrow> dbl \<Rightarrow> engine \<Rightarrow> engine" where
  "on_usdt_update ex price e =
    (if price \<le> 0 then e
     else let prev = get_usdt_krw (en_prices e) ex in
       if 0 < prev \<and> MAX_USDT_JUMP_PCT < fabs (price - prev) / prev * lit 100 then e
       else let idx = exchange_id ex;
                e = (if 1 \<le> fabs (price - en_last_usdt_log e ! idx)
                     then e\<lparr>en_last_usdt_log := (en_last_usdt_log e)[idx := price]\<rparr> else e)
         in e\<lparr>en_prices := update_usdt_krw ex price (en_prices e)\<rparr>)"

definition bump_update_seq :: "engine \<Rightarrow> engine" where
  "bump_update_seq e = e\<lparr>en_update_seq := en_update_seq e + 1\<rparr>"

definition on_usdt_ticker :: "u64 \<Rightarrow> int \<Rightarrow> ticker \<Rightarrow> engine \<Rightarrow> engine" where
  "on_usdt_ticker now max_positions t e =
    (let usdt_price = (if 0 < tk_bid t \<and> 0 < tk_ask t \<and> tk_bid t \<le> tk_ask t then (tk_bid t + tk_ask t) * lit 0.5 else tk_last t);
         e = on_usdt_update (tk_exchange t) usdt_price e;
         e = update_all_entries now e;
         e = (if en_next_usdt_scan_ms e \<le> now
              then fire_entry_from_cache max_positions (e\<lparr>en_next_usdt_scan_ms := now + USDT_FULL_SCAN_DEBOUNCE_MS\<rparr>)
              else e);
         e = check_exit_conditions now e
     in bump_update_seq e)"

definition on_symbol_ticker :: "u64 \<Rightarrow> int \<Rightarrow> nat \<Rightarrow> engine \<Rightarrow> engine" where
  "on_symbol_ticker now max_positions idx e =
    (let e = update_symbol_entry now idx e;
         c = en_entry_cache e ! idx;
         (should_scan, e) =
           (if ce_qualified c \<and> \<not> ce_signal_fired c then (True, e)
            else if en_next_entry_scan_ms e \<le> now
                 then (True, e\<lparr>en_next_entry_scan_ms := now + ENTRY_FAST_SCAN_COOLDOWN_MS\<rparr>)
                 else (False, e));
         e = (if should_scan then fire_entry_from_cache max_positions e else e)
     in if has_position (en_tracker e) (en_symbols e ! idx) then check_symbol_exit now idx e else e)"

definition on_ticker_update :: "u64 \<Rightarrow> int \<Rightarrow> ticker \<Rightarrow> engine \<Rightarrow> engine" where
  "on_ticker_update now max_positions t e =
    (let e = e\<lparr>en_prices := pc_update now (tk_exchange t) (tk_symbol t) (tk_bid t) (tk_ask t) (tk_last t)
           (tk_timestamp_ms t) (tk_bid_qty t) (tk_ask_qty t) (en_prices e)\<rparr>
     in if is_usdt_krw (tk_symbol t) then on_usdt_ticker now max_positions t e
        else let idx = (if is_korean_exchange (tk_exchange t) then map_of (en_korean_index e) (tk_symbol t)
                        else map_of (en_foreign_index e) (tk_symbol t));
                 e = (case idx of None \<Rightarrow> e | Some idx \<Rightarrow> on_symbol_ticker now max_positions idx e)
          in bump_update_seq e)"

definition refresh_entry_filters :: "u64 \<Rightarrow> engine \<Rightarrow> engine" where
  "refresh_entry_filters now e = bump_update_seq (update_all_entries now e)"

definition get_entry_signal :: "engine \<Rightarrow> (arbitrage_signal option \<times> engine) option" where
  "get_entry_signal e =
    (case mpmc_try_pop (en_entry_signals e) of None \<Rightarrow> None | Some (r, q) \<Rightarrow> Some (r, e\<lparr>en_entry_signals := q\<rparr>))"

definition get_exit_signal :: "engine \<Rightarrow> (exit_signal option \<times> engine) option" where
  "get_exit_signal e =
    (case mpmc_try_pop (en_exit_signals e) of None \<Rightarrow> None | Some (r, q) \<Rightarrow> Some (r, e\<lparr>en_exit_signals := q\<rparr>))"

text \<open>One round of the monitor thread: the exit backup, with the time it is due next.\<close>

definition monitor_round :: "u64 \<Rightarrow> u64 \<Rightarrow> engine \<Rightarrow> u64 \<times> engine" where
  "monitor_round now next_exit_backup e =
    (if has_any_position (en_tracker e) \<and> next_exit_backup \<le> now
     then (now + 250, check_exit_conditions now e)
     else if next_exit_backup \<le> now then (now + 250, e)
     else (next_exit_backup, e))"

section \<open>Invariant\<close>

text \<open>
  A signal is sound when its figures are the relay metrics of its own quotes, at the fee rates of
  its own venues and some withdrawal fee, and these pass the entry gate.
\<close>

definition signal_sound :: "arbitrage_signal \<Rightarrow> bool" where
  "signal_sound s \<longleftrightarrow> (\<exists>wd.
     let m = calculate_relay_metrics (sig_korean_ask s) (sig_korean_ask_qty s) (sig_foreign_bid s) (sig_foreign_bid_qty s)
           (sig_usdt_krw_rate s) (get_korean_fee_rate (sig_korean_exchange s)) (get_foreign_fee_rate (sig_foreign_exchange s)) wd
     in sig_match_qty s = rm_match_qty m \<and> sig_net_edge_pct s = rm_net_edge_pct m \<and>
        sig_net_profit_krw s = rm_net_profit_krw m \<and> sig_both_can_fill_target s = rm_both_can_fill_target m \<and>
        entry_gate_passes (rm_both_can_fill_target m) (rm_match_qty m) (rm_net_edge_pct m) (rm_net_profit_krw m))"

definition index_wf :: "engine \<Rightarrow> bool" where
  "index_wf e \<longleftrightarrow> length (en_foreign_symbols e) = length (en_symbols e) \<and>
     length (en_symbols e) \<le> MAX_CACHED_SYMBOLS \<and>
     (\<forall>s i. map_of (en_korean_index e) s = Some i \<longrightarrow> i < length (en_symbols e) \<and> en_symbols e ! i = s) \<and>
     (\<forall>i < length (en_symbols e). map_of (en_korean_index e) (en_symbols e ! i) = Some i) \<and>
     (\<forall>s i. map_of (en_foreign_index e) s = Some i \<longrightarrow> i < length (en_symbols e) \<and> en_foreign_symbols e ! i = s)"

text \<open>The bitmaps mirror the cache flags.\<close>

definition bits_wf :: "engine \<Rightarrow> bool" where
  "bits_wf e \<longleftrightarrow> length (en_entry_cache e) = MAX_CACHED_SYMBOLS \<and>
     bs_invar (en_candidate_bits e) \<and> bs_invar (en_fired_bits e) \<and>
     bs_bits (en_candidate_bits e) = MAX_CACHED_SYMBOLS \<and> bs_bits (en_fired_bits e) = MAX_CACHED_SYMBOLS \<and>
     (\<forall>i < MAX_CACHED_SYMBOLS. bs_test (en_candidate_bits e) i =
        (ce_qualified (en_entry_cache e ! i) \<and> \<not> ce_signal_fired (en_entry_cache e ! i)) \<and>
        bs_test (en_fired_bits e) i = ce_signal_fired (en_entry_cache e ! i))"

definition entry_wf :: "cached_entry \<Rightarrow> bool" where
  "entry_wf c \<longleftrightarrow> (ce_signal_fired c \<longrightarrow> ce_qualified c) \<and> (ce_qualified c \<longrightarrow> (\<forall>sym. signal_sound (signal_of sym c)))"

definition cache_wf :: "engine \<Rightarrow> bool" where
  "cache_wf e \<longleftrightarrow> (\<forall>i < MAX_CACHED_SYMBOLS. entry_wf (en_entry_cache e ! i)) \<and> (\<forall>s \<in> set (en_entry_calls e). signal_sound s)"

definition parts_wf :: "engine \<Rightarrow> bool" where
  "parts_wf e \<longleftrightarrow> pc_invar (en_prices e) \<and> pt_invar (en_tracker e) \<and>
     mpmc_invar (en_entry_signals e) \<and> mpmc_invar (en_exit_signals e)"

definition engine_invar :: "engine \<Rightarrow> bool" where
  "engine_invar e \<longleftrightarrow> index_wf e \<and> bits_wf e \<and> cache_wf e \<and> parts_wf e"

lemmas engine_wf_defs = index_wf_def bits_wf_def cache_wf_def parts_wf_def

text \<open>Changes of one field that leave a part of the invariant alone.\<close>

lemma engine_frame [simp]:
  "index_wf (e\<lparr>en_entry_cache := x1\<rparr>) = index_wf e" "index_wf (e\<lparr>en_candidate_bits := x2\<rparr>) = index_wf e"
  "index_wf (e\<lparr>en_fired_bits := x2\<rparr>) = index_wf e" "index_wf (e\<lparr>en_prices := x3\<rparr>) = index_wf e"
  "index_wf (e\<lparr>en_entry_calls := x4\<rparr>) = index_wf e" "index_wf (e\<lparr>en_exit_calls := x5\<rparr>) = index_wf e"
  "index_wf (e\<lparr>en_entry_signals := x6\<rparr>) = index_wf e" "index_wf (e\<lparr>en_exit_signals := x7\<rparr>) = index_wf e"
  "index_wf (e\<lparr>en_tracker := x8\<rparr>) = index_wf e"
  "bits_wf (e\<lparr>en_prices := x3\<rparr>) = bits_wf e" "bits_wf (e\<lparr>en_entry_calls := x4\<rparr>) = bits_wf e"
  "bits_wf (e\<lparr>en_exit_calls := x5\<rparr>) = bits_wf e" "bits_wf (e\<lparr>en_entry_signals := x6\<rparr>) = bits_wf e"
  "bits_wf (e\<lparr>en_exit_signals := x7\<rparr>) = bits_wf e" "bits_wf (e\<lparr>en_tracker := x8\<rparr>) = bits_wf e"
  "cache_wf (e\<lparr>en_candidate_bits := x2\<rparr>) = cache_wf e" "cache_wf (e\<lparr>en_fired_bits := x2\<rparr>) = cache_wf e"
  "cache_wf (e\<lparr>en_prices := x3\<rparr>) = cache_wf e" "cache_wf (e\<lparr>en_exit_calls := x5\<rparr>) = cache_wf e"
  "cache_wf (e\<lparr>en_entry_signals := x6\<rparr>) = cache_wf e" "cache_wf (e\<lparr>en_exit_signals := x7\<rparr>) = cache_wf e"
  "cache_wf (e\<lparr>en_tracker := x8\<rparr>) = cache_wf e"
  "parts_wf (e\<lparr>en_entry_cache := x1\<rparr>) = parts_wf e" "parts_wf (e\<lparr>en_candidate_bits := x2\<rparr>) = parts_wf e"
  "parts_wf (e\<lparr>en_fired_bits := x2\<rparr>) = parts_wf e" "parts_wf (e\<lparr>en_entry_calls := x4\<rparr>) = parts_wf e"
  "parts_wf (e\<lparr>en_exit_calls := x5\<rparr>) = parts_wf e"
  by (simp_all add: engine_wf_defs)

text \<open>Fields that no part of the invariant reads.\<close>

lemma engine_invar_frame [simp]:
  "engine_invar (e\<lparr>en_capital := x1\<rparr>) = engine_invar e" "engine_invar (e\<lparr>en_running := x2\<rparr>) = engine_invar e"
  "engine_invar (e\<lparr>en_entry_suppressed := x2\<rparr>) = engine_invar e" "engine_invar (e\<lparr>en_update_seq := x3\<rparr>) = engine_invar e"
  "engine_invar (e\<lparr>en_last_usdt_log := x4\<rparr>) = engine_invar e" "engine_invar (e\<lparr>en_next_entry_scan_ms := x3\<rparr>) = engine_invar e"
  "engine_invar (e\<lparr>en_next_usdt_scan_ms := x3\<rparr>) = engine_invar e" "engine_invar (e\<lparr>en_pairs := x5\<rparr>) = engine_invar e"
  by (simp_all add: engine_invar_def engine_wf_defs)

lemma push_signal_invar [simp]: "mpmc_invar q \<Longrightarrow> mpmc_invar (push_signal x q)"
  using mpmc.push_cases [of q x] by (auto simp: push_signal_def)

lemma sync_bits_simps [simp]:
  "en_entry_cache (sync_entry_state_bits i q f e) = en_entry_cache e"
  "en_symbols (sync_entry_state_bits i q f e) = en_symbols e"
  "index_wf (sync_entry_state_bits i q f e) = index_wf e"
  "cache_wf (sync_entry_state_bits i q f e) = cache_wf e"
  "parts_wf (sync_entry_state_bits i q f e) = parts_wf e"
  by (simp_all add: sync_entry_state_bits_def)

text \<open>Storing an entry and synchronising its bits keeps the mirror.\<close>

lemma store_sync_bits_wf:
  assumes "bits_wf e" "i < MAX_CACHED_SYMBOLS"
  shows "bits_wf (sync_entry_state_bits i (ce_qualified c) (ce_signal_fired c)
    (e\<lparr>en_entry_cache := (en_entry_cache e)[i := c]\<rparr>))"
  using assms by (simp add: bits_wf_def sync_entry_state_bits_def bits.mem_upd bits.invar_upd bits.cap_upd nth_list_update)

lemma store_cache_wf:
  assumes "cache_wf e" "entry_wf c" "length (en_entry_cache e) = MAX_CACHED_SYMBOLS"
  shows "cache_wf (e\<lparr>en_entry_cache := (en_entry_cache e)[i := c]\<rparr>)"
  using assms by (cases "i < MAX_CACHED_SYMBOLS") (auto simp: cache_wf_def nth_list_update list_update_beyond)

lemma store_sync_invar:
  assumes "engine_invar e" "entry_wf c" "i < MAX_CACHED_SYMBOLS" "q = ce_qualified c" "f = ce_signal_fired c"
  shows "engine_invar (sync_entry_state_bits i q f (e\<lparr>en_entry_cache := (en_entry_cache e)[i := c]\<rparr>))"
  using assms store_sync_bits_wf [of e i c] store_cache_wf [of e c i]
  by (auto simp: engine_invar_def bits_wf_def [of e])

lemma entry_wf_clear [simp]: "entry_wf (c\<lparr>ce_qualified := False, ce_signal_fired := False\<rparr>)"
  by (simp add: entry_wf_def)

lemma clear_state_invar:
  assumes inv: "engine_invar e" and i: "i < MAX_CACHED_SYMBOLS"
  shows "engine_invar (clear_state i e)"
proof (cases "ce_qualified (en_entry_cache e ! i) \<or> ce_signal_fired (en_entry_cache e ! i)")
  case True
  then show ?thesis using store_sync_invar [OF inv entry_wf_clear i refl refl] by (simp add: clear_state_def Let_def)
next
  case False
  then have "clear_state i e = sync_entry_state_bits i False False
      (e\<lparr>en_entry_cache := (en_entry_cache e)[i := en_entry_cache e ! i]\<rparr>)"
    by (simp add: clear_state_def Let_def)
  moreover have "entry_wf (en_entry_cache e ! i)" using inv i by (simp add: engine_invar_def cache_wf_def)
  ultimately show ?thesis using store_sync_invar [OF inv _ i, of "en_entry_cache e ! i" False False] False by simp
qed

lemma refreshed_entry_wf:
  assumes "entry_wf c"
  shows "entry_wf (refreshed_entry prices symbol b c)"
proof -
  let ?c = "refreshed_entry prices symbol b c"
  have "ce_signal_fired ?c \<Longrightarrow> ce_qualified ?c"
    using assms by (auto simp: entry_wf_def refreshed_entry_def Let_def split: if_splits)
  moreover have "signal_sound (signal_of sym ?c)" if "ce_qualified ?c" for sym
    unfolding signal_sound_def
    using that by (intro exI [of _ "get_withdraw_fee prices (bp_korean_ex b) (bp_foreign_ex b) (get_base symbol)"])
      (simp add: signal_of_def refreshed_entry_def pair_metrics_def Let_def)
  ultimately show ?thesis by (simp add: entry_wf_def)
qed

lemma update_symbol_entry_invar:
  assumes inv: "engine_invar e"
  shows "engine_invar (update_symbol_entry now i e)"
proof (cases "i < length (en_symbols e)")
  case True
  then have i: "i < MAX_CACHED_SYMBOLS" using inv by (auto simp: engine_invar_def index_wf_def)
  then have "entry_wf (en_entry_cache e ! i)" using inv by (simp add: engine_invar_def cache_wf_def)
  then have "engine_invar (let cache = refreshed_entry (en_prices e) (en_symbols e ! i) b (en_entry_cache e ! i)
      in sync_entry_state_bits i (ce_qualified cache) (ce_signal_fired cache)
           (e\<lparr>en_entry_cache := (en_entry_cache e)[i := cache]\<rparr>))" for b
    unfolding Let_def by (intro store_sync_invar [OF inv _ i] refreshed_entry_wf) simp_all
  then show ?thesis using clear_state_invar [OF inv i] True by (simp add: update_symbol_entry_def Let_def)
qed (use inv in \<open>simp add: update_symbol_entry_def\<close>)

lemma update_all_entries_invar: "engine_invar e \<Longrightarrow> engine_invar (update_all_entries now e)"
  unfolding update_all_entries_def by (rule fold_invar [where P = engine_invar]) (simp_all add: update_symbol_entry_invar)

lemma emit_signal_invar:
  assumes "engine_invar e" "i < MAX_CACHED_SYMBOLS" "ce_qualified (en_entry_cache e ! i)"
  shows "engine_invar (emit_signal i e)"
  using assms by (auto simp: engine_invar_def emit_signal_def Let_def parts_wf_def cache_wf_def entry_wf_def)

lemma fire_one_invar:
  assumes inv: "engine_invar e" and i: "i < MAX_CACHED_SYMBOLS"
  shows "engine_invar (fire_one st i e)"
proof -
  let ?c = "en_entry_cache e ! i"
  have wf: "entry_wf ?c" and len: "length (en_entry_cache e) = MAX_CACHED_SYMBOLS"
    using inv i by (simp_all add: engine_invar_def cache_wf_def bits_wf_def)
  have fired: "engine_invar (emit_signal i (sync_entry_state_bits i True True
      (e\<lparr>en_entry_cache := (en_entry_cache e)[i := ?c\<lparr>ce_signal_fired := True\<rparr>]\<rparr>)))" if q: "ce_qualified ?c"
  proof -
    have "entry_wf (?c\<lparr>ce_signal_fired := True\<rparr>)" using wf q by (simp add: entry_wf_def signal_of_def)
    then show ?thesis using q i len by (intro emit_signal_invar store_sync_invar [OF inv]) simp_all
  qed
  show ?thesis
    using emit_signal_invar [OF inv i] fired inv by (simp add: fire_one_def Let_def)
qed

lemma entry_selection_bound:
  assumes "engine_invar e" "i \<in> set (entry_selection_of m e)"
  shows "i < length (en_symbols e)"
proof -
  have "length (en_symbols e) \<le> MAX_CACHED_SYMBOLS" using assms(1) by (simp add: engine_invar_def index_wf_def)
  from select_indices [OF this] show ?thesis
    using assms(2) by (auto simp: entry_selection_of_def dest: in_set_takeD)
qed

lemma fire_entry_invar:
  assumes inv: "engine_invar e"
  shows "engine_invar (fire_entry_from_cache m e)"
proof -
  have "engine_invar (fold (fire_one st) xs e')" if "engine_invar e'" "\<forall>i \<in> set xs. i < MAX_CACHED_SYMBOLS" for xs st e'
    using that by (induction xs arbitrary: e') (auto intro: fire_one_invar)
  moreover have "\<forall>i \<in> set (entry_selection_of m e). i < MAX_CACHED_SYMBOLS"
    using entry_selection_bound [OF inv] inv by (force simp: engine_invar_def index_wf_def)
  ultimately show ?thesis using inv by (simp add: fire_entry_from_cache_def)
qed

lemma emit_exit_invar: "engine_invar e \<Longrightarrow> engine_invar (emit_exit r e)"
  by (auto simp: emit_exit_def engine_invar_def parts_wf_def split: option.split)

lemma for_each_active_invar:
  "(\<And>p e. P e \<Longrightarrow> P (f p e)) \<Longrightarrow> P e \<Longrightarrow> P (for_each_active_position f t e)"
  unfolding for_each_active_position_def by (rule fold_invar [where P = P]) auto

lemma check_exit_conditions_invar: "engine_invar e \<Longrightarrow> engine_invar (check_exit_conditions now e)"
  unfolding check_exit_conditions_def by (auto intro!: for_each_active_invar [where P = engine_invar] emit_exit_invar)

lemma check_symbol_exit_invar: "engine_invar e \<Longrightarrow> engine_invar (check_symbol_exit now i e)"
  by (auto simp: check_symbol_exit_def Let_def emit_exit_invar split: option.split)

lemma update_usdt_krw_invar [simp]: "pc_invar (update_usdt_krw ex p c) = pc_invar c"
  by (simp add: update_usdt_krw_def pc_invar_def)

lemma set_prices_invar: "engine_invar e \<Longrightarrow> pc_invar c \<Longrightarrow> engine_invar (e\<lparr>en_prices := c\<rparr>)"
  by (simp add: engine_invar_def parts_wf_def)

lemma on_usdt_update_invar:
  assumes inv: "engine_invar e"
  shows "engine_invar (on_usdt_update ex p e)"
proof -
  have "pc_invar (en_prices e)" using inv by (simp add: engine_invar_def parts_wf_def)
  then show ?thesis using inv by (auto simp: on_usdt_update_def Let_def intro!: set_prices_invar)
qed

lemma bump_invar [simp]: "engine_invar (bump_update_seq e) = engine_invar e"
  by (simp add: bump_update_seq_def)

lemmas handler_invar = update_symbol_entry_invar update_all_entries_invar fire_entry_invar check_exit_conditions_invar
  check_symbol_exit_invar on_usdt_update_invar

lemma on_usdt_ticker_invar: "engine_invar e \<Longrightarrow> engine_invar (on_usdt_ticker now m t e)"
  unfolding on_usdt_ticker_def Let_def by (auto simp: handler_invar)

lemma on_symbol_ticker_invar: "engine_invar e \<Longrightarrow> engine_invar (on_symbol_ticker now m i e)"
  unfolding on_symbol_ticker_def Let_def by (auto simp: handler_invar split: prod.split)

lemma on_ticker_update_invar:
  assumes inv: "engine_invar e"
  shows "engine_invar (on_ticker_update now m t e)"
proof -
  have "pc_invar (en_prices e)" using inv by (simp add: engine_invar_def parts_wf_def)
  then have "engine_invar (e\<lparr>en_prices := pc_update now (tk_exchange t) (tk_symbol t) (tk_bid t) (tk_ask t) (tk_last t)
           (tk_timestamp_ms t) (tk_bid_qty t) (tk_ask_qty t) (en_prices e)\<rparr>)"
    by (intro set_prices_invar inv pc_update_invar)
  then show ?thesis
    unfolding on_ticker_update_def Let_def
    by (auto simp: on_usdt_ticker_invar on_symbol_ticker_invar split: option.split)
qed

section \<open>Reachable states\<close>

datatype engine_op =
    AddSymbol symbol_id
  | AddPair exchange exchange
  | SetPairEnabled exchange exchange bool
  | Suppress bool
  | Start
  | Stop
  | Ticker u64 ticker
  | UsdtUpdate exchange dbl
  | RefreshFilters u64
  | MonitorRound u64 u64
  | OpenPosition position
  | ClosePosition symbol_id
  | UpdatePosition position
  | AddPnl dbl
  | PopEntry
  | PopExit
  | SetWithdrawFees exchange string "network_fee list"
  | SetDepositNetworks exchange string "string list"
  | SetWithdrawEnabled exchange string bool
  | FinalizeFees u64

fun engine_step :: "int \<Rightarrow> engine_op \<Rightarrow> engine \<Rightarrow> engine" where
  "engine_step m (AddSymbol s) e = add_symbol s e"
| "engine_step m (AddPair k f) e = add_exchange_pair k f e"
| "engine_step m (SetPairEnabled k f b) e = set_exchange_pair_entry_enabled k f b e"
| "engine_step m (Suppress b) e = set_entry_suppressed b e"
| "engine_step m Start e = engine_start e"
| "engine_step m Stop e = engine_stop e"
| "engine_step m (Ticker now t) e = on_ticker_update now m t e"
| "engine_step m (UsdtUpdate ex p) e = on_usdt_update ex p e"
| "engine_step m (RefreshFilters now) e = refresh_entry_filters now e"
| "engine_step m (MonitorRound now due) e = snd (monitor_round now due e)"
| "engine_step m (OpenPosition p) e = engine_open_position p e"
| "engine_step m (ClosePosition s) e = snd (engine_close_position s e)"
| "engine_step m (UpdatePosition p) e = snd (engine_update_position p e)"
| "engine_step m (AddPnl x) e = engine_add_realized_pnl x e"
| "engine_step m PopEntry e = (case get_entry_signal e of Some (r, e') \<Rightarrow> e' | None \<Rightarrow> e)"
| "engine_step m PopExit e = (case get_exit_signal e of Some (r, e') \<Rightarrow> e' | None \<Rightarrow> e)"
| "engine_step m (SetWithdrawFees ex b fees) e = e\<lparr>en_prices := set_withdraw_network_fees ex b fees (en_prices e)\<rparr>"
| "engine_step m (SetDepositNetworks ex b nets) e = e\<lparr>en_prices := set_foreign_deposit_networks ex b nets (en_prices e)\<rparr>"
| "engine_step m (SetWithdrawEnabled ex b on) e = e\<lparr>en_prices := set_korean_withdraw_enabled ex b on (en_prices e)\<rparr>"
| "engine_step m (FinalizeFees now) e = e\<lparr>en_prices := finalize_withdraw_fees now (en_prices e)\<rparr>"

inductive reachable :: "int \<Rightarrow> engine \<Rightarrow> bool" for m where
  init: "reachable m (engine_init s x)"
| step: "reachable m e \<Longrightarrow> reachable m (engine_step m op e)"

lemma engine_init_invar: "engine_invar (engine_init s x)"
proof -
  have "mpmc_invar (mpmc_init (replicate 256 s))" "mpmc_invar (mpmc_init (replicate 256 x))"
    by (rule mpmc_init_invar [of 8]; simp)+
  then show ?thesis
    by (simp add: engine_invar_def index_wf_def bits_wf_def cache_wf_def parts_wf_def engine_init_def
        cached_entry_default_def entry_wf_def pc_init_invar pt_init_invar)
qed

lemma add_symbol_invar:
  assumes inv: "engine_invar e"
  shows "engine_invar (add_symbol s e)"
proof (cases "map_of (en_korean_index e) s \<noteq> None \<or> MAX_CACHED_SYMBOLS \<le> length (en_symbols e)")
  case True
  then show ?thesis using inv by (auto simp: add_symbol_def)
next
  case False
  have "index_wf (add_symbol s e)"
    using inv False by (auto simp: engine_invar_def index_wf_def add_symbol_def Let_def update_conv' nth_append less_Suc_eq)
  then show ?thesis using inv False by (auto simp: engine_invar_def add_symbol_def Let_def bits_wf_def cache_wf_def parts_wf_def)
qed

lemma set_tracker_invar: "engine_invar e \<Longrightarrow> pt_invar t \<Longrightarrow> engine_invar (e\<lparr>en_tracker := t\<rparr>)"
  by (simp add: engine_invar_def parts_wf_def)

lemma fee_ops_invar [simp]:
  "pc_invar (set_withdraw_network_fees ex b fees c) = pc_invar c"
  "pc_invar (set_foreign_deposit_networks ex b nets c) = pc_invar c"
  "pc_invar (set_korean_withdraw_enabled ex b on c) = pc_invar c"
  "pc_invar (finalize_withdraw_fees now c) = pc_invar c"
  by (simp_all add: pc_invar_def set_withdraw_network_fees_def set_foreign_deposit_networks_def
      set_korean_withdraw_enabled_def finalize_withdraw_fees_def Let_def)

lemma pop_invar: "mpmc_invar q \<Longrightarrow> mpmc_try_pop q = Some (r, q') \<Longrightarrow> mpmc_invar q'"
  using mpmc.pop_empty [of q] mpmc.pop_ok [of q] by (cases "mpmc_content q") auto

lemma engine_step_invar:
  assumes inv: "engine_invar e"
  shows "engine_invar (engine_step m op e)"
proof -
  have parts: "pc_invar (en_prices e)" "pt_invar (en_tracker e)" "mpmc_invar (en_entry_signals e)" "mpmc_invar (en_exit_signals e)"
    using inv by (simp_all add: engine_invar_def parts_wf_def)
  show ?thesis
  proof (cases op)
    case (ClosePosition s)
    have "pt_invar (snd (close_position s (en_tracker e)))" by (rule tracker.close_invar [OF parts(2)])
    then show ?thesis using ClosePosition inv
      by (auto simp: engine_close_position_def set_tracker_invar split: prod.split)
  next
    case (UpdatePosition p)
    have "pt_invar (snd (update_position p (en_tracker e)))" by (rule update_position_invar [OF parts(2)])
    then show ?thesis using UpdatePosition inv
      by (auto simp: engine_update_position_def set_tracker_invar split: prod.split)
  next
    case PopEntry
    then show ?thesis using inv pop_invar [OF parts(3)]
      by (auto simp: get_entry_signal_def engine_invar_def parts_wf_def split: option.split)
  next
    case PopExit
    then show ?thesis using inv pop_invar [OF parts(4)]
      by (auto simp: get_exit_signal_def engine_invar_def parts_wf_def split: option.split)
  qed (use inv parts in \<open>simp_all add: add_symbol_invar add_exchange_pair_def set_exchange_pair_entry_enabled_def
      set_entry_suppressed_def engine_start_def engine_stop_def on_ticker_update_invar refresh_entry_filters_def
      handler_invar monitor_round_def engine_open_position_def set_tracker_invar tracker.open_invar
      engine_add_realized_pnl_def set_prices_invar\<close>)
qed

lemma reachable_invar: "reachable m e \<Longrightarrow> engine_invar e"
  by (induction rule: reachable.induct) (simp_all add: engine_init_invar engine_step_invar)

section \<open>What one scan emits\<close>

lemma fire_one_other:
  assumes "j \<noteq> i"
  shows "en_entry_cache (fire_one st i e) ! j = en_entry_cache e ! j"
  using assms by (simp add: fire_one_def Let_def emit_signal_def)

lemma fire_one_fields [simp]:
  "en_symbols (fire_one st i e) = en_symbols e" "length (en_entry_cache (fire_one st i e)) = length (en_entry_cache e)"
  "en_korean_index (fire_one st i e) = en_korean_index e" "en_tracker (fire_one st i e) = en_tracker e"
  by (simp_all add: fire_one_def Let_def emit_signal_def sync_entry_state_bits_def)

lemma fire_one_ready:
  assumes "ce_qualified (en_entry_cache e ! i)" "st ! i = 2 \<or> \<not> ce_signal_fired (en_entry_cache e ! i)"
    "i < length (en_entry_cache e)"
  shows "en_entry_calls (fire_one st i e) = en_entry_calls e @ [signal_of (en_symbols e ! i) (en_entry_cache e ! i)]"
    "ce_signal_fired (en_entry_cache (fire_one st i e) ! i) \<longleftrightarrow> st ! i \<noteq> 2 \<or> ce_signal_fired (en_entry_cache e ! i)"
  using assms by (auto simp: fire_one_def Let_def emit_signal_def sync_entry_state_bits_def signal_of_def)

lemma fire_fold:
  assumes "distinct xs" "\<forall>i \<in> set xs. ce_qualified (en_entry_cache e ! i) \<and>
      (st ! i = 2 \<or> \<not> ce_signal_fired (en_entry_cache e ! i)) \<and> i < length (en_entry_cache e)"
  shows "en_entry_calls (fold (fire_one st) xs e) =
      en_entry_calls e @ map (\<lambda>i. signal_of (en_symbols e ! i) (en_entry_cache e ! i)) xs \<and>
    (\<forall>j. ce_signal_fired (en_entry_cache (fold (fire_one st) xs e) ! j) \<longleftrightarrow>
      (j \<in> set xs \<and> st ! j \<noteq> 2) \<or> ce_signal_fired (en_entry_cache e ! j)) \<and>
    en_symbols (fold (fire_one st) xs e) = en_symbols e \<and> en_tracker (fold (fire_one st) xs e) = en_tracker e \<and>
    en_korean_index (fold (fire_one st) xs e) = en_korean_index e"
  using assms
proof (induction xs arbitrary: e)
  case (Cons i xs)
  let ?e = "fire_one st i e"
  have same: "en_entry_cache ?e ! j = en_entry_cache e ! j" if "j \<in> set xs" for j
    using Cons.prems(1) that by (intro fire_one_other) auto
  have ready: "ce_qualified (en_entry_cache e ! i)" "st ! i = 2 \<or> \<not> ce_signal_fired (en_entry_cache e ! i)"
    "i < length (en_entry_cache e)" using Cons.prems(2) by simp_all
  have "\<forall>j \<in> set xs. ce_qualified (en_entry_cache ?e ! j) \<and>
      (st ! j = 2 \<or> \<not> ce_signal_fired (en_entry_cache ?e ! j)) \<and> j < length (en_entry_cache ?e)"
    using Cons.prems(2) by (simp add: same)
  note IH = Cons.IH [OF _ this]
  have "ce_signal_fired (en_entry_cache ?e ! j) \<longleftrightarrow> (j = i \<and> st ! j \<noteq> 2) \<or> ce_signal_fired (en_entry_cache e ! j)" for j
    using fire_one_ready(2) [OF ready] fire_one_other [of j i st e] by (cases "j = i") auto
  then show ?case using IH Cons.prems(1) fire_one_ready(1) [OF ready] by (auto simp: same)
qed simp

lemma selection_ready:
  assumes inv: "engine_invar e"
  shows "distinct (entry_selection_of m e)"
    "\<forall>i \<in> set (entry_selection_of m e). ce_qualified (en_entry_cache e ! i) \<and>
      (position_state e ! i = 2 \<or> \<not> ce_signal_fired (en_entry_cache e ! i)) \<and> i < length (en_entry_cache e)"
    "filter (\<lambda>i. position_state e ! i = 0) (entry_selection_of m e) =
      take (free_slots (length (en_symbols e)) m (en_fired_bits e) (position_state e))
        (sort_by (\<lambda>l r. - ce_net_edge_pct (en_entry_cache e ! l) < - ce_net_edge_pct (en_entry_cache e ! r))
          (fresh_candidates (length (en_symbols e)) (en_candidate_bits e) (position_state e)))"
proof -
  let ?n = "length (en_symbols e)" and ?st = "position_state e"
  let ?part = "filter (\<lambda>i. ?st ! i = 2 \<and> ce_qualified (en_entry_cache e ! i)) [0..<?n]"
  let ?tk = "take (free_slots ?n m (en_fired_bits e) ?st)
      (sort_by (\<lambda>l r. - ce_net_edge_pct (en_entry_cache e ! l) < - ce_net_edge_pct (en_entry_cache e ! r))
        (fresh_candidates ?n (en_candidate_bits e) ?st))"
  have n: "?n \<le> MAX_CACHED_SYMBOLS" and b: "bits_wf e" using inv by (simp_all add: engine_invar_def index_wf_def)
  have sel: "entry_selection_of m e = ?part @ ?tk" unfolding entry_selection_of_def by (rule select_indices [OF n])
  have tk: "i < ?n \<and> bs_test (en_candidate_bits e) i \<and> ?st ! i = 0" if "i \<in> set ?tk" for i
    using in_set_takeD [OF that] by simp
  show "distinct (entry_selection_of m e)" unfolding sel using tk by auto
  have "filter (\<lambda>i. ?st ! i = 0) ?tk = ?tk" using tk by (intro filter_True) blast
  then show "filter (\<lambda>i. ?st ! i = 0) (entry_selection_of m e) = ?tk" by (auto simp: sel filter_empty_conv)
  show "\<forall>i \<in> set (entry_selection_of m e). ce_qualified (en_entry_cache e ! i) \<and>
      (?st ! i = 2 \<or> \<not> ce_signal_fired (en_entry_cache e ! i)) \<and> i < length (en_entry_cache e)"
    unfolding sel using tk n b by (force simp: bits_wf_def)
qed

text \<open>
  One scan emits exactly the selection: unless it is suppressed, it calls the entry callback
  once per selected symbol, in selection order, with the figures cached for that symbol, and marks
  as fired exactly the selected symbols without a partial position.
\<close>

lemma fire_entry_emits_selection:
  assumes "engine_invar e" "en_pairs e \<noteq> []" "\<not> en_entry_suppressed e"
  shows "en_entry_calls (fire_entry_from_cache m e) =
      en_entry_calls e @ map (\<lambda>i. signal_of (en_symbols e ! i) (en_entry_cache e ! i)) (entry_selection_of m e) \<and>
    (\<forall>j. ce_signal_fired (en_entry_cache (fire_entry_from_cache m e) ! j) \<longleftrightarrow>
      j \<in> set (entry_selection_of m e) \<and> position_state e ! j \<noteq> 2 \<or> ce_signal_fired (en_entry_cache e ! j))"
proof (cases "en_symbols e = []")
  case True
  then have "entry_selection_of m e = []" using entry_selection_bound [OF assms(1), of _ m] by (cases "entry_selection_of m e") auto
  then show ?thesis using True assms by (simp add: fire_entry_from_cache_def)
next
  case False
  then show ?thesis using fire_fold [OF selection_ready(1,2) [OF assms(1)], of m] assms(2,3)
    by (simp add: fire_entry_from_cache_def)
qed

lemma fire_entry_fired:
  assumes inv: "engine_invar e" and f: "ce_signal_fired (en_entry_cache (fire_entry_from_cache m e) ! j)"
  shows "ce_signal_fired (en_entry_cache e ! j) \<or> j \<in> set (entry_selection_of m e)"
  using f fire_fold [OF selection_ready(1,2) [OF inv], of m] by (auto simp: fire_entry_from_cache_def split: if_splits)

lemma fire_entry_fields [simp]:
  "en_symbols (fire_entry_from_cache m e) = en_symbols e" "en_tracker (fire_entry_from_cache m e) = en_tracker e"
  "en_korean_index (fire_entry_from_cache m e) = en_korean_index e"
proof -
  have "en_symbols (fold (fire_one st) xs e) = en_symbols e \<and> en_tracker (fold (fire_one st) xs e) = en_tracker e \<and>
      en_korean_index (fold (fire_one st) xs e) = en_korean_index e" for st xs e
    by (induction xs arbitrary: e) auto
  then show "en_symbols (fire_entry_from_cache m e) = en_symbols e" "en_tracker (fire_entry_from_cache m e) = en_tracker e"
    "en_korean_index (fire_entry_from_cache m e) = en_korean_index e" by (simp_all add: fire_entry_from_cache_def)
qed

section \<open>Slots\<close>

text \<open>A slot is used by a symbol with a position, or by a fired signal that has none yet.\<close>

definition used_slots :: "engine \<Rightarrow> nat" where
  "used_slots e = length (filter (\<lambda>i. position_state e ! i \<noteq> 0) [0..<length (en_symbols e)]) +
     length (filter (\<lambda>i. position_state e ! i = 0 \<and> ce_signal_fired (en_entry_cache e ! i)) [0..<length (en_symbols e)])"

lemma position_state_cong:
  "en_symbols e' = en_symbols e \<Longrightarrow> en_korean_index e' = en_korean_index e \<Longrightarrow> en_tracker e' = en_tracker e \<Longrightarrow>
    position_state e' = position_state e"
  by (simp add: position_state_def cong: option.case_cong)

lemma used_slots_mono:
  assumes "en_symbols e' = en_symbols e" "en_korean_index e' = en_korean_index e" "en_tracker e' = en_tracker e"
    "\<And>i. i < length (en_symbols e) \<Longrightarrow> ce_signal_fired (en_entry_cache e' ! i) \<Longrightarrow> ce_signal_fired (en_entry_cache e ! i)"
  shows "used_slots e' \<le> used_slots e"
  using assms position_state_cong [OF assms(1-3)] unfolding used_slots_def by (auto intro!: length_filter_mono)

lemma pending_count:
  assumes inv: "engine_invar e"
  shows "filter (\<lambda>i. position_state e ! i = 0) (for_each_set (en_fired_bits e) (length (en_symbols e))) =
    filter (\<lambda>i. position_state e ! i = 0 \<and> ce_signal_fired (en_entry_cache e ! i)) [0..<length (en_symbols e)]"
proof -
  have n: "length (en_symbols e) \<le> MAX_CACHED_SYMBOLS" and b: "bits_wf e" using inv by (simp_all add: engine_invar_def index_wf_def)
  then have "for_each_set (en_fired_bits e) (length (en_symbols e)) =
      filter (\<lambda>i. ce_signal_fired (en_entry_cache e ! i)) [0..<length (en_symbols e)]"
    by (auto simp: bits.elems_spec bits_wf_def min_def intro: filter_cong)
  then show ?thesis by (simp add: conj_commute)
qed

lemma fire_entry_slots:
  assumes inv: "engine_invar e"
  shows "int (used_slots (fire_entry_from_cache m e)) \<le> max m (int (used_slots e))"
proof -
  let ?n = "length (en_symbols e)" and ?st = "position_state e" and ?f = "fire_entry_from_cache m e"
  let ?fresh = "filter (\<lambda>i. ?st ! i = 0) (entry_selection_of m e)"
  let ?old = "filter (\<lambda>i. ?st ! i = 0 \<and> ce_signal_fired (en_entry_cache e ! i)) [0..<?n]"
  have st: "position_state ?f = ?st" by (rule position_state_cong) simp_all
  have "set (filter (\<lambda>i. ?st ! i = 0 \<and> ce_signal_fired (en_entry_cache ?f ! i)) [0..<?n]) \<subseteq> set (?old @ ?fresh)"
    using fire_entry_fired [OF inv, of m] by auto
  then have grow: "length (filter (\<lambda>i. ?st ! i = 0 \<and> ce_signal_fired (en_entry_cache ?f ! i)) [0..<?n]) \<le> length ?old + length ?fresh"
    using distinct_subset_length [of "filter (\<lambda>i. ?st ! i = 0 \<and> ce_signal_fired (en_entry_cache ?f ! i)) [0..<?n]" "?old @ ?fresh"]
    by simp
  have "length ?fresh \<le> free_slots ?n m (en_fired_bits e) ?st" unfolding selection_ready(3) [OF inv] by simp
  then have "int (length ?fresh) \<le> max 0 (m - int (used_slots e))"
    unfolding free_slots_def pending_count [OF inv] by (simp add: used_slots_def)
  then show ?thesis using grow by (simp add: used_slots_def st)
qed

lemma update_symbol_entry_fields [simp]:
  "en_symbols (update_symbol_entry now i e) = en_symbols e" "en_tracker (update_symbol_entry now i e) = en_tracker e"
  "en_korean_index (update_symbol_entry now i e) = en_korean_index e"
  by (simp_all add: update_symbol_entry_def clear_state_def sync_entry_state_bits_def Let_def)

lemma update_symbol_entry_fired:
  "ce_signal_fired (en_entry_cache (update_symbol_entry now i e) ! j) \<Longrightarrow> ce_signal_fired (en_entry_cache e ! j)"
proof (cases "j = i")
  case True
  assume "ce_signal_fired (en_entry_cache (update_symbol_entry now i e) ! j)"
  then show ?thesis using True
    by (cases "i < length (en_entry_cache e)")
      (auto simp: update_symbol_entry_def clear_state_def sync_entry_state_bits_def Let_def refreshed_entry_def list_update_beyond not_less split: if_splits)
next
  case False
  assume "ce_signal_fired (en_entry_cache (update_symbol_entry now i e) ! j)"
  then show ?thesis using False
    by (auto simp: update_symbol_entry_def clear_state_def sync_entry_state_bits_def Let_def split: if_splits)
qed

lemma update_symbol_entry_slots: "used_slots (update_symbol_entry now i e) \<le> used_slots e"
  by (rule used_slots_mono) (auto dest: update_symbol_entry_fired)

lemma update_all_entries_slots: "used_slots (update_all_entries now e) \<le> used_slots e"
proof -
  have "used_slots (fold (update_symbol_entry now) xs e) \<le> used_slots e" for xs
    by (induction xs arbitrary: e) (auto intro: order_trans update_symbol_entry_slots)
  then show ?thesis by (simp add: update_all_entries_def)
qed

text \<open>The entry side of the state: what the exit checks and the rate update leave alone.\<close>

definition entry_side :: "engine \<Rightarrow> symbol_id list \<times> (symbol_id \<times> nat) list \<times> position_tracker \<times> cached_entry list" where
  "entry_side e = (en_symbols e, en_korean_index e, en_tracker e, en_entry_cache e)"

lemma used_slots_entry_side: "entry_side e' = entry_side e \<Longrightarrow> used_slots e' = used_slots e"
  using position_state_cong [of e' e] by (simp add: entry_side_def used_slots_def)

lemma emit_exit_side [simp]: "entry_side (emit_exit r e) = entry_side e"
  by (simp add: emit_exit_def entry_side_def split: option.split)

lemma check_exit_conditions_side [simp]: "entry_side (check_exit_conditions now e) = entry_side e"
proof -
  have "entry_side (for_each_active_position
       (\<lambda>pos e. let foreign_symbol = (case map_of (en_korean_index e) (pos_symbol pos) of
              Some i \<Rightarrow> en_foreign_symbols e ! i | None \<Rightarrow> SymbolId (get_base (pos_symbol pos)) ''USDT'')
          in emit_exit (exit_check now e pos (pos_symbol pos) foreign_symbol) e) t e') = entry_side e'" for t e'
    by (rule for_each_active_invar [where P = "\<lambda>x. entry_side x = entry_side e'"]) (simp_all add: Let_def)
  then show ?thesis by (simp add: check_exit_conditions_def)
qed

lemma check_symbol_exit_side [simp]: "entry_side (check_symbol_exit now i e) = entry_side e"
  by (simp add: check_symbol_exit_def Let_def split: option.split)

lemma entry_side_frame [simp]:
  "entry_side (e\<lparr>en_prices := x1\<rparr>) = entry_side e" "entry_side (e\<lparr>en_last_usdt_log := x2\<rparr>) = entry_side e"
  "entry_side (e\<lparr>en_next_entry_scan_ms := x3\<rparr>) = entry_side e" "entry_side (e\<lparr>en_next_usdt_scan_ms := x3\<rparr>) = entry_side e"
  "entry_side (bump_update_seq e) = entry_side e"
  by (simp_all add: entry_side_def bump_update_seq_def)

lemma on_usdt_update_side [simp]: "entry_side (on_usdt_update ex p e) = entry_side e"
  by (simp add: on_usdt_update_def Let_def)

lemmas side_slots = used_slots_entry_side [OF check_exit_conditions_side] used_slots_entry_side [OF check_symbol_exit_side]
  used_slots_entry_side [OF on_usdt_update_side] used_slots_entry_side [OF entry_side_frame(1)]
  used_slots_entry_side [OF entry_side_frame(3)] used_slots_entry_side [OF entry_side_frame(4)]
  used_slots_entry_side [OF entry_side_frame(5)]

lemma fire_entry_slots_le:
  "engine_invar e \<Longrightarrow> int (used_slots e) \<le> b \<Longrightarrow> m \<le> b \<Longrightarrow> int (used_slots (fire_entry_from_cache m e)) \<le> b"
  using fire_entry_slots [of e m] by linarith

lemma on_usdt_ticker_slots:
  assumes inv: "engine_invar e" and b: "int (used_slots e) \<le> b" "m \<le> b"
  shows "int (used_slots (on_usdt_ticker now m t e)) \<le> b"
proof -
  let ?u = "on_usdt_update (tk_exchange t) (if 0 < tk_bid t \<and> 0 < tk_ask t \<and> tk_bid t \<le> tk_ask t
      then (tk_bid t + tk_ask t) * lit 0.5 else tk_last t) e"
  have "int (used_slots (update_all_entries now ?u)) \<le> b"
    using update_all_entries_slots [of now ?u] b(1) by (simp add: side_slots)
  moreover have "engine_invar (update_all_entries now ?u)" using inv by (simp add: handler_invar)
  ultimately show ?thesis using b(2) by (simp add: on_usdt_ticker_def Let_def side_slots fire_entry_slots_le)
qed

lemma on_symbol_ticker_slots:
  assumes inv: "engine_invar e" and b: "int (used_slots e) \<le> b" "m \<le> b"
  shows "int (used_slots (on_symbol_ticker now m i e)) \<le> b"
proof -
  have "int (used_slots (update_symbol_entry now i e)) \<le> b" using update_symbol_entry_slots [of now i e] b(1) by linarith
  moreover have "engine_invar (update_symbol_entry now i e)" using inv by (rule update_symbol_entry_invar)
  ultimately show ?thesis
    using b(2) by (simp add: on_symbol_ticker_def Let_def side_slots fire_entry_slots_le)
qed

lemma on_ticker_update_slots:
  assumes inv: "engine_invar e" and b: "int (used_slots e) \<le> b" "m \<le> b"
  shows "int (used_slots (on_ticker_update now m t e)) \<le> b"
proof -
  let ?e = "e\<lparr>en_prices := pc_update now (tk_exchange t) (tk_symbol t) (tk_bid t) (tk_ask t) (tk_last t)
           (tk_timestamp_ms t) (tk_bid_qty t) (tk_ask_qty t) (en_prices e)\<rparr>"
  have "pc_invar (en_prices e)" using inv by (simp add: engine_invar_def parts_wf_def)
  then have inv': "engine_invar ?e" by (intro set_prices_invar inv pc_update_invar)
  have b': "int (used_slots ?e) \<le> b" using b(1) by (simp add: side_slots)
  show ?thesis
    unfolding on_ticker_update_def Let_def
    using on_usdt_ticker_slots [OF inv' b' b(2)] on_symbol_ticker_slots [OF inv' b' b(2)] b'
    by (auto simp: side_slots split: option.split)
qed


definition demo_signal :: arbitrage_signal where
  "demo_signal = signal_of symbol_default cached_entry_default"

definition demo_exit :: exit_signal where
  "demo_exit = \<lparr>xs_symbol = symbol_default, xs_korean_exchange = Bithumb, xs_foreign_exchange = Bybit, xs_premium = 0,
     xs_korean_bid = 0, xs_foreign_ask = 0, xs_usdt_krw_rate = 0\<rparr>"

definition demo_ticker :: ticker where
  "demo_ticker = \<lparr>tk_exchange = Bithumb, tk_symbol = SymbolId ''BTC'' ''KRW'', tk_timestamp_ms = 5, tk_sequence = 0, tk_last = 1,
     tk_bid = 1, tk_ask = 1, tk_bid_qty = 1, tk_ask_qty = 1, tk_high_24h = 0, tk_low_24h = 0, tk_volume_24h = 0\<rparr>"



end
