(* ===== verification/EngineRun.thy ===== *)
theory EngineRun
  imports Engine
begin

text \<open>
  A concrete run of the engine: fees and networks are loaded, a USDT/KRW rate and a foreign quote
  arrive, the symbol and the exchange pair are configured, and one Korean ticker makes the symbol
  qualify and fire. The run shows that the properties of reachable states speak of states in which
  signals were really emitted.
\<close>

definition demo_symbol :: symbol_id where "demo_symbol = SymbolId ''USDC'' ''KRW''"
definition demo_foreign :: symbol_id where "demo_foreign = SymbolId ''USDC'' ''USDT''"

definition korean_tick :: ticker where
  "korean_tick = \<lparr>tk_exchange = Bithumb, tk_symbol = demo_symbol, tk_timestamp_ms = 90, tk_sequence = 0, tk_last = Fin 1400,
       tk_bid = Fin 1400, tk_ask = Fin 1400, tk_bid_qty = Fin 40, tk_ask_qty = Fin 40, tk_high_24h = 0, tk_low_24h = 0, tk_volume_24h = 0\<rparr>"
definition foreign_tick :: ticker where
  "foreign_tick = \<lparr>tk_exchange = Bybit, tk_symbol = demo_foreign, tk_timestamp_ms = 90, tk_sequence = 0, tk_last = Fin 1,
       tk_bid = Fin 1, tk_ask = Fin 1, tk_bid_qty = Fin 50, tk_ask_qty = Fin 50, tk_high_24h = 0, tk_low_24h = 0, tk_volume_24h = 0\<rparr>"

definition demo_setup :: "engine_op list" where
  "demo_setup = [SetDepositNetworks Bybit ''USDC'' [''SOL'', ''ETH''],
     SetWithdrawFees Bithumb ''USDC'' [\<lparr>nf_network = ''Ethereum'', nf_fee_coins = Fin 3\<rparr>, \<lparr>nf_network = ''Solana'', nf_fee_coins = 1\<rparr>],
     FinalizeFees 0, UsdtUpdate Bithumb (Fin 1480), Ticker 100 foreign_tick, AddSymbol demo_symbol, AddPair Bithumb Bybit]"

definition quotes_of :: "ticker \<Rightarrow> price_cache \<Rightarrow> price_cache" where
  "quotes_of t = pc_update 100 (tk_exchange t) (tk_symbol t) (tk_bid t) (tk_ask t) (tk_last t)
           (tk_timestamp_ms t) (tk_bid_qty t) (tk_ask_qty t)"

definition demo_prices :: price_cache where
  "demo_prices = quotes_of foreign_tick (update_usdt_krw Bithumb (Fin 1480) (finalize_withdraw_fees 0 demo_cache))"

lemma demo_symbols: "get_base demo_symbol = ''USDC''" "\<not> is_usdt_krw demo_symbol" "\<not> is_usdt_krw demo_foreign"
  "demo_symbol \<noteq> demo_foreign"
proof -
  show "get_base demo_symbol = ''USDC''" by (simp add: demo_symbol_def get_SymbolId)
qed (simp_all add: demo_symbol_def demo_foreign_def is_usdt_krw_def SymbolId_def set_base_def set_quote_def copy_n_padded_def symbol_default_def)

lemma fees_keep_rate [simp]:
  "get_usdt_krw (finalize_withdraw_fees now c) ex = get_usdt_krw c ex"
  "get_usdt_krw (set_withdraw_network_fees k b fees c) ex = get_usdt_krw c ex"
  "get_usdt_krw (set_foreign_deposit_networks k b nets c) ex = get_usdt_krw c ex"
  "get_usdt_krw price_cache_init ex = 0"
  by (simp_all add: get_usdt_krw_def finalize_withdraw_fees_def set_withdraw_network_fees_def
      set_foreign_deposit_networks_def price_cache_init_def Let_def)

definition demo_fees :: engine where
  "demo_fees = (engine_init demo_signal demo_exit)\<lparr>en_prices := finalize_withdraw_fees 0 demo_cache\<rparr>"

lemma demo_fees_step:
  "fold (engine_step 1) (take 3 demo_setup) (engine_init demo_signal demo_exit) = demo_fees"
  by (simp add: demo_setup_def demo_fees_def demo_cache_def engine_init_def)

definition demo_rate :: engine where
  "demo_rate = demo_fees\<lparr>en_prices := update_usdt_krw Bithumb (Fin 1480) (finalize_withdraw_fees 0 demo_cache),
     en_last_usdt_log := (en_last_usdt_log demo_fees)[0 := Fin 1480]\<rparr>"

lemma demo_rate_step: "on_usdt_update Bithumb (Fin 1480) demo_fees = demo_rate"
proof -
  have "get_usdt_krw (en_prices demo_fees) Bithumb = 0" by (simp add: demo_fees_def demo_cache_def)
  moreover have "1 \<le> fabs (Fin 1480 - en_last_usdt_log demo_fees ! 0)"
    by (simp add: demo_fees_def engine_init_def dbl_eval)
  moreover have "\<not> Fin 1480 \<le> 0" by (simp add: zero_dbl_def)
  ultimately show ?thesis by (simp add: on_usdt_update_def Let_def demo_rate_def demo_fees_def)
qed

definition demo_quoted :: engine where
  "demo_quoted = demo_rate\<lparr>en_prices := demo_prices, en_update_seq := 1\<rparr>"

lemma demo_quoted_step: "on_ticker_update 100 1 foreign_tick demo_rate = demo_quoted"
  by (simp add: on_ticker_update_def Let_def foreign_tick_def demo_symbols is_korean_exchange_def demo_quoted_def
      demo_prices_def quotes_of_def bump_update_seq_def demo_rate_def demo_fees_def engine_init_def)

definition demo_engine :: engine where
  "demo_engine = demo_quoted\<lparr>en_symbols := [demo_symbol], en_foreign_symbols := [demo_foreign],
     en_korean_index := [(demo_symbol, 0)], en_foreign_index := [(demo_foreign, 0)],
     en_pairs := [\<lparr>xp_korean = Bithumb, xp_foreign = Bybit, xp_entry_enabled = True\<rparr>]\<rparr>"

lemma demo_engine_step: "add_exchange_pair Bithumb Bybit (add_symbol demo_symbol demo_quoted) = demo_engine"
  by (simp add: add_symbol_def add_exchange_pair_def Let_def demo_symbols demo_foreign_def demo_engine_def demo_quoted_def
      demo_rate_def demo_fees_def engine_init_def MAX_CACHED_SYMBOLS_def)

lemma demo_engine_reachable: "reachable 1 demo_engine"
proof -
  have *: "reachable 1 (fold (engine_step 1) ops e)" if "reachable 1 e" for ops e
    using that by (induction ops arbitrary: e) (auto intro: reachable.step)
  have "fold (engine_step 1) demo_setup (engine_init demo_signal demo_exit) =
      fold (engine_step 1) (drop 3 demo_setup) (fold (engine_step 1) (take 3 demo_setup) (engine_init demo_signal demo_exit))"
    by (metis append_take_drop_id comp_apply fold_append)
  also have "\<dots> = demo_engine"
    unfolding demo_fees_step
    by (simp add: demo_setup_def demo_rate_step demo_quoted_step demo_engine_step)
  finally show ?thesis using * [OF reachable.init] by metis
qed

definition demo_ready :: engine where
  "demo_ready = demo_engine\<lparr>en_prices := quotes_of korean_tick demo_prices\<rparr>"

lemma routes_keep [simp]:
  "is_transfer_route_available (quotes_of t c) k f b = is_transfer_route_available c k f b"
  "is_transfer_route_available (update_usdt_krw ex p c) k f b = is_transfer_route_available c k f b"
  "get_withdraw_fee (quotes_of t c) k f b = get_withdraw_fee c k f b"
  "get_withdraw_fee (update_usdt_krw ex p c) k f b = get_withdraw_fee c k f b"
  "get_usdt_krw (quotes_of t c) ex = get_usdt_krw c ex"
  by (simp_all add: is_transfer_route_available_def get_withdraw_fee_def get_usdt_krw_def quotes_of_def pc_update_def
      update_usdt_krw_def Let_def)

lemma demo_cache_invar: "pc_invar demo_cache"
  by (simp add: demo_cache_def pc_init_invar)

lemma demo_fee: "get_withdraw_fee (finalize_withdraw_fees 0 demo_cache) Bithumb Bybit ''USDC'' = 1"
  by (simp add: finalize_routes demo_cache_networks get_withdraw_fee_locked_def Let_def one_dbl_def)

lemma demo_prices_invar: "pc_invar demo_prices"
  by (simp add: demo_prices_def quotes_of_def pc_update_invar demo_cache_invar)

lemma no_entry [simp]: "pc_get (update_usdt_krw ex p (finalize_withdraw_fees 0 demo_cache)) k = None"
  by (cases k) (simp add: pc_get_def update_usdt_krw_def finalize_withdraw_fees_def demo_cache_def set_withdraw_network_fees_def
      set_foreign_deposit_networks_def price_cache_init_def Let_def shard_index_bound)

lemma demo_quotes:
  "get_price (quotes_of korean_tick demo_prices) Bithumb demo_symbol =
     \<lparr>pd_bid = Fin 1400, pd_ask = Fin 1400, pd_bid_qty = Fin 40, pd_ask_qty = Fin 40, pd_last = Fin 1400, pd_timestamp = 90, pd_valid = True\<rparr>"
  "get_price (quotes_of korean_tick demo_prices) Bybit demo_foreign =
     \<lparr>pd_bid = Fin 1, pd_ask = Fin 1, pd_bid_qty = Fin 50, pd_ask_qty = Fin 50, pd_last = Fin 1, pd_timestamp = 90, pd_valid = True\<rparr>"
proof -
  have inv: "pc_invar (update_usdt_krw Bithumb (Fin 1480) (finalize_withdraw_fees 0 demo_cache))" by (simp add: demo_cache_invar)
  have g: "pc_get (quotes_of korean_tick demo_prices) p =
      (if p = (Bithumb, demo_symbol) then Some (pc_merge (pc_get demo_prices (Bithumb, demo_symbol))
        \<lparr>pe_bid = Fin 1400, pe_ask = Fin 1400, pe_bid_qty = Fin 40, pe_ask_qty = Fin 40, pe_last = Fin 1400, pe_timestamp = 90\<rparr>)
       else pc_get demo_prices p)" for p
    unfolding quotes_of_def pc_update_get [OF demo_prices_invar] by (simp add: korean_tick_def)
  have f: "pc_get demo_prices p = (if p = (Bybit, demo_foreign) then Some
        \<lparr>pe_bid = Fin 1, pe_ask = Fin 1, pe_bid_qty = Fin 50, pe_ask_qty = Fin 50, pe_last = Fin 1, pe_timestamp = 90\<rparr> else None)" for p
    unfolding demo_prices_def quotes_of_def pc_update_get [OF inv] by (simp add: foreign_tick_def pc_merge_def)
  show "get_price (quotes_of korean_tick demo_prices) Bithumb demo_symbol =
     \<lparr>pd_bid = Fin 1400, pd_ask = Fin 1400, pd_bid_qty = Fin 40, pd_ask_qty = Fin 40, pd_last = Fin 1400, pd_timestamp = 90, pd_valid = True\<rparr>"
    "get_price (quotes_of korean_tick demo_prices) Bybit demo_foreign =
     \<lparr>pd_bid = Fin 1, pd_ask = Fin 1, pd_bid_qty = Fin 50, pd_ask_qty = Fin 50, pd_last = Fin 1, pd_timestamp = 90, pd_valid = True\<rparr>"
    by (simp_all add: get_price_entry g f pc_merge_def)
qed

definition demo_metrics :: relay_metrics where
  "demo_metrics = calculate_relay_metrics (Fin 1400) (Fin 40) (Fin 1) (Fin 50) (Fin 1480) BITHUMB_FEE_RATE BYBIT_FEE_RATE 1"

lemma demo_gate: "entry_gate_passes (rm_both_can_fill_target demo_metrics) (rm_match_qty demo_metrics)
    (rm_net_edge_pct demo_metrics) (rm_net_profit_krw demo_metrics)"
  and demo_profit: "lit (-1000000000000000000) < rm_net_profit_krw demo_metrics"
  by (simp_all add: demo_metrics_def gate_eval cong: let_weak_cong)

lemma demo_usable: "quote_pair_is_usable 100 (get_price (quotes_of korean_tick demo_prices) Bithumb demo_symbol)
    (get_price (quotes_of korean_tick demo_prices) Bybit demo_foreign) False"
  by (simp add: demo_quotes quote_pair_is_usable_def quote_is_fresh_with_limit_def spread_pct_def cfg dbl_eval cong: let_weak_cong)

lemma demo_pair_metrics:
  "pair_metrics (quotes_of korean_tick demo_prices) Bithumb Bybit ''USDC'' (get_price (quotes_of korean_tick demo_prices) Bithumb demo_symbol)
     (get_price (quotes_of korean_tick demo_prices) Bybit demo_foreign) (Fin 1480) = demo_metrics"
proof -
  have "get_withdraw_fee (quotes_of korean_tick demo_prices) Bithumb Bybit ''USDC'' = 1" by (simp add: demo_prices_def demo_fee)
  then show ?thesis
    by (simp add: pair_metrics_def demo_quotes Let_def demo_metrics_def get_korean_fee_rate_def get_foreign_fee_rate_def)
qed

lemma demo_best:
  "best_pair_of 100 0 demo_ready = \<lparr>bp_korean_ex = Bithumb, bp_foreign_ex = Bybit,
     bp_korean_price = get_price (quotes_of korean_tick demo_prices) Bithumb demo_symbol,
     bp_foreign_price = get_price (quotes_of korean_tick demo_prices) Bybit demo_foreign,
     bp_net_profit = rm_net_profit_krw demo_metrics, bp_net_edge = rm_net_edge_pct demo_metrics, bp_usdt_rate = Fin 1480\<rparr>"
proof -
  have rate: "get_usdt_krw (quotes_of korean_tick demo_prices) Bithumb = Fin 1480"
    by (simp add: demo_prices_def) (simp add: get_usdt_krw_def update_usdt_krw_def)
  have route: "is_transfer_route_available (quotes_of korean_tick demo_prices) Bithumb Bybit ''USDC''"
    by (simp add: demo_prices_def demo_cache_available)
  show ?thesis
    using demo_usable demo_pair_metrics demo_profit rate route
    by (simp add: best_pair_of_def demo_ready_def demo_engine_def consider_pair_def Let_def demo_symbols best_pair_init_def
        demo_quotes zero_dbl_def)
qed

definition demo_updated :: engine where
  "demo_updated = update_symbol_entry 100 0 demo_ready"

lemma demo_ready_invar: "engine_invar demo_ready"
  unfolding demo_ready_def
  by (intro set_prices_invar reachable_invar [OF demo_engine_reachable]) (simp add: quotes_of_def pc_update_invar demo_prices_invar)

lemma demo_fields:
  "en_symbols demo_ready = [demo_symbol]" "en_tracker demo_ready = position_tracker_init" "en_pairs demo_ready \<noteq> []"
  "en_entry_cache demo_ready = replicate MAX_CACHED_SYMBOLS cached_entry_default" "\<not> en_entry_suppressed demo_ready"
  by (simp_all add: demo_ready_def demo_engine_def demo_quoted_def demo_rate_def demo_fees_def engine_init_def)

lemma max_symbols [simp]: "0 < MAX_CACHED_SYMBOLS"
  by (simp add: MAX_CACHED_SYMBOLS_def)

lemma demo_updated_entry:
  "ce_qualified (en_entry_cache demo_updated ! 0)" "\<not> ce_signal_fired (en_entry_cache demo_updated ! 0)"
  "en_pairs demo_updated \<noteq> []" "\<not> en_entry_suppressed demo_updated"
proof -
  let ?c = "refreshed_entry (en_prices demo_ready) demo_symbol (best_pair_of 100 0 demo_ready) cached_entry_default"
  have eq: "demo_updated = sync_entry_state_bits 0 (ce_qualified ?c) (ce_signal_fired ?c)
      (demo_ready\<lparr>en_entry_cache := (en_entry_cache demo_ready)[0 := ?c]\<rparr>)"
    using demo_fields(3) by (simp add: demo_updated_def update_symbol_entry_def demo_fields demo_best Let_def zero_dbl_def)
  have "en_prices demo_ready = quotes_of korean_tick demo_prices" by (simp add: demo_ready_def)
  then have c: "ce_qualified ?c" "\<not> ce_signal_fired ?c"
    using demo_gate demo_pair_metrics by (simp_all add: refreshed_entry_def demo_best demo_symbols Let_def cached_entry_default_def)
  show "ce_qualified (en_entry_cache demo_updated ! 0)" "\<not> ce_signal_fired (en_entry_cache demo_updated ! 0)"
    using c by (simp_all add: eq demo_fields)
  show "en_pairs demo_updated \<noteq> []" "\<not> en_entry_suppressed demo_updated"
    using demo_fields(3,5) by (simp_all add: eq sync_entry_state_bits_def)
qed

lemma no_positions:
  assumes "en_tracker e = position_tracker_init"
  shows "position_state e = replicate MAX_CACHED_SYMBOLS 0"
proof -
  have "for_each_active_position f position_tracker_init st = st" for f and st :: "nat list"
  proof -
    have "fold (\<lambda>slot s. if slot_active slot then f (slot_position slot) s else s) (replicate n position_slot_default) st = st" for n
      by (induction n) (simp_all add: position_slot_default_def)
    then show ?thesis by (simp add: for_each_active_position_def position_tracker_init_def)
  qed
  then show ?thesis using assms by (simp add: position_state_def)
qed

lemma demo_updated_invar: "engine_invar demo_updated"
  unfolding demo_updated_def by (rule update_symbol_entry_invar [OF demo_ready_invar])

lemma demo_updated_fields: "en_symbols demo_updated = [demo_symbol]" "en_tracker demo_updated = position_tracker_init"
  by (simp_all add: demo_updated_def demo_fields)

lemma demo_selection: "0 \<in> set (entry_selection_of 1 demo_updated)"
proof -
  let ?st = "position_state demo_updated"
  have st: "?st ! 0 = 0" using no_positions [OF demo_updated_fields(2)] by simp
  have "bs_test (en_candidate_bits demo_updated) 0"
    using demo_updated_invar demo_updated_entry(1,2) by (simp add: engine_invar_def bits_wf_def)
  then have "0 \<in> set (fresh_candidates 1 (en_candidate_bits demo_updated) ?st)" using st by simp
  moreover have "length (fresh_candidates 1 (en_candidate_bits demo_updated) ?st) \<le> 1"
    using distinct_subset_length [of "fresh_candidates 1 (en_candidate_bits demo_updated) ?st" "[0]"] by auto
  moreover have "free_slots 1 1 (en_fired_bits demo_updated) ?st = 1"
    using pending_count [OF demo_updated_invar] demo_updated_entry(2) st by (simp add: free_slots_def demo_updated_fields)
  ultimately show ?thesis
    using select_indices [of 1 MAX_CACHED_SYMBOLS] by (simp add: entry_selection_of_def demo_updated_fields Suc_le_eq)
qed

definition demo_final :: engine where
  "demo_final = engine_step 1 (Ticker 100 korean_tick) demo_engine"

lemma demo_final_calls: "en_entry_calls demo_final \<noteq> []"
proof -
  let ?f = "fire_entry_from_cache 1 demo_updated"
  have "en_entry_calls ?f \<noteq> []"
    using fire_fold [OF selection_ready(1,2) [OF demo_updated_invar], of 1] demo_selection demo_updated_entry(3,4)
    by (auto simp: fire_entry_from_cache_def demo_updated_fields)
  moreover have "en_entry_calls demo_final = en_entry_calls ?f"
  proof -
    have "\<not> has_position (en_tracker ?f) demo_symbol"
      by (simp add: demo_updated_fields has_position_def position_tracker_init_def position_slot_default_def slot_matches_def list_ex_iff)
    then have "on_symbol_ticker 100 1 0 demo_ready = ?f"
      using demo_updated_entry(1,2) by (simp add: on_symbol_ticker_def Let_def flip: demo_updated_def) (simp add: demo_updated_fields)
    moreover have "demo_final = bump_update_seq (on_symbol_ticker 100 1 0 demo_ready)"
    proof -
      have "tk_symbol korean_tick = demo_symbol" "tk_exchange korean_tick = Bithumb" by (simp_all add: korean_tick_def)
      moreover have "map_of (en_korean_index demo_engine) demo_symbol = Some 0" "en_prices demo_engine = demo_prices"
        by (simp_all add: demo_engine_def demo_quoted_def)
      ultimately show ?thesis
        by (simp add: demo_final_def on_ticker_update_def Let_def demo_symbols is_korean_exchange_def demo_ready_def quotes_of_def)
    qed
    moreover have "en_entry_calls (bump_update_seq x) = en_entry_calls x" for x by (simp add: bump_update_seq_def)
    ultimately show ?thesis by metis
  qed
  ultimately show ?thesis by simp
qed


end
