(* ===== verification/EngineGuards.thy ===== *)
theory EngineGuards
  imports Engine
begin

text \<open>
  Two guards of the arbitrage engine: the exchange rate moves only through the jump filter of
  \<^verbatim>\<open>on_usdt_update\<close>, and the exit scan signals exactly the positions whose exit premium has
  reached their threshold.
\<close>

section \<open>The USDT/KRW rate\<close>

text \<open>What the handlers other than the rate update leave alone.\<close>

lemma fold_keeps: "(\<And>x e. f (g x e) = f e) \<Longrightarrow> f (fold g xs e) = f e"
  by (induction xs arbitrary: e) simp_all

lemma update_symbol_entry_prices [simp]: "en_prices (update_symbol_entry now i e) = en_prices e"
  by (simp add: update_symbol_entry_def clear_state_def sync_entry_state_bits_def Let_def)

lemma update_all_entries_prices [simp]: "en_prices (update_all_entries now e) = en_prices e"
  unfolding update_all_entries_def by (rule fold_keeps) simp

lemma fire_entry_prices [simp]: "en_prices (fire_entry_from_cache m e) = en_prices e"
proof -
  have "en_prices (fire_one st i e) = en_prices e" for st i e
    by (simp add: fire_one_def emit_signal_def sync_entry_state_bits_def Let_def)
  then show ?thesis unfolding fire_entry_from_cache_def by (auto intro: fold_keeps)
qed

lemma emit_exit_keeps [simp]:
  "en_prices (emit_exit r e) = en_prices e" "en_tracker (emit_exit r e) = en_tracker e"
  "en_korean_index (emit_exit r e) = en_korean_index e" "en_foreign_symbols (emit_exit r e) = en_foreign_symbols e"
  by (simp_all add: emit_exit_def split: option.split)

lemma check_symbol_exit_prices [simp]: "en_prices (check_symbol_exit now i e) = en_prices e"
  by (simp add: check_symbol_exit_def Let_def split: option.split)

lemma check_exit_conditions_prices [simp]: "en_prices (check_exit_conditions now e) = en_prices e"
proof -
  have "en_prices (for_each_active_position
       (\<lambda>pos e. let foreign_symbol = (case map_of (en_korean_index e) (pos_symbol pos) of
              Some i \<Rightarrow> en_foreign_symbols e ! i | None \<Rightarrow> SymbolId (get_base (pos_symbol pos)) ''USDT'')
          in emit_exit (exit_check now e pos (pos_symbol pos) foreign_symbol) e) t e') = en_prices e'" for t e'
    by (rule for_each_active_invar [where P = "\<lambda>x. en_prices x = en_prices e'"]) (simp_all add: Let_def)
  then show ?thesis by (simp add: check_exit_conditions_def)
qed

lemma quotes_keep_rate [simp]: "get_usdt_krw (pc_update now x s b a l ts bq aq c) ex = get_usdt_krw c ex"
  by (simp add: pc_update_def get_usdt_krw_def Let_def)

lemma fee_ops_keep_rate [simp]:
  "get_usdt_krw (set_withdraw_network_fees k b fees c) ex = get_usdt_krw c ex"
  "get_usdt_krw (set_foreign_deposit_networks k b nets c) ex = get_usdt_krw c ex"
  "get_usdt_krw (set_korean_withdraw_enabled k b on c) ex = get_usdt_krw c ex"
  "get_usdt_krw (finalize_withdraw_fees now c) ex = get_usdt_krw c ex"
  by (simp_all add: get_usdt_krw_def set_withdraw_network_fees_def set_foreign_deposit_networks_def
      set_korean_withdraw_enabled_def finalize_withdraw_fees_def Let_def)

definition rate_of :: "exchange \<Rightarrow> engine \<Rightarrow> dbl" where
  "rate_of ex e = get_usdt_krw (en_prices e) ex"

definition rate_move_ok :: "dbl \<Rightarrow> dbl \<Rightarrow> bool" where
  "rate_move_ok prev price \<longleftrightarrow> \<not> price \<le> 0 \<and> \<not> (0 < prev \<and> MAX_USDT_JUMP_PCT < fabs (price - prev) / prev * lit 100)"

lemma on_usdt_update_rate:
  "rate_of ex (on_usdt_update x p e) = rate_of ex e \<or> ex = x \<and> rate_of ex (on_usdt_update x p e) = p \<and> rate_move_ok (rate_of ex e) p"
  by (auto simp: on_usdt_update_def rate_of_def rate_move_ok_def Let_def get_usdt_krw_def update_usdt_krw_def)

lemma frames_keep_rate [simp]:
  "rate_of ex (bump_update_seq e) = rate_of ex e" "rate_of ex (update_symbol_entry now i e) = rate_of ex e"
  "rate_of ex (update_all_entries now e) = rate_of ex e" "rate_of ex (fire_entry_from_cache m e) = rate_of ex e"
  "rate_of ex (check_exit_conditions now e) = rate_of ex e" "rate_of ex (check_symbol_exit now i e) = rate_of ex e"
  "rate_of ex (e\<lparr>en_next_usdt_scan_ms := x\<rparr>) = rate_of ex e" "rate_of ex (e\<lparr>en_next_entry_scan_ms := x\<rparr>) = rate_of ex e"
  by (simp_all add: rate_of_def bump_update_seq_def)

lemma on_symbol_ticker_rate [simp]: "rate_of ex (on_symbol_ticker now m i e) = rate_of ex e"
  by (simp add: on_symbol_ticker_def Let_def)

lemma on_usdt_ticker_rate: "\<exists>p. rate_of ex (on_usdt_ticker now m t e) = rate_of ex (on_usdt_update (tk_exchange t) p e)"
  by (auto simp: on_usdt_ticker_def Let_def)

lemma on_ticker_update_rate:
  "rate_of ex (on_ticker_update now m t e) = rate_of ex e \<or>
   ex = tk_exchange t \<and> is_usdt_krw (tk_symbol t) \<and> rate_move_ok (rate_of ex e) (rate_of ex (on_ticker_update now m t e))"
proof -
  let ?e = "e\<lparr>en_prices := pc_update now (tk_exchange t) (tk_symbol t) (tk_bid t) (tk_ask t) (tk_last t)
           (tk_timestamp_ms t) (tk_bid_qty t) (tk_ask_qty t) (en_prices e)\<rparr>"
  have e: "rate_of ex ?e = rate_of ex e" by (simp add: rate_of_def)
  show ?thesis
  proof (cases "is_usdt_krw (tk_symbol t)")
    case True
    then show ?thesis
      using on_usdt_ticker_rate [of ex now m t ?e] on_usdt_update_rate [of ex "tk_exchange t" _ ?e] e
      by (simp add: on_ticker_update_def Let_def) metis
  next
    case False
    then show ?thesis using e by (simp add: on_ticker_update_def Let_def split: option.split)
  qed
qed

lemma queries_keep_rate:
  "get_entry_signal e = Some (r, e') \<Longrightarrow> rate_of ex e' = rate_of ex e"
  "get_exit_signal e = Some (r', e') \<Longrightarrow> rate_of ex e' = rate_of ex e"
  by (auto simp: get_entry_signal_def get_exit_signal_def rate_of_def split: option.splits)

text \<open>The rate of a venue moves only through the jump filter: whatever call the engine
  handles, the USDT/KRW rate it uses for a venue stays as it was, or the call was a rate update
  or a USDT ticker of that very venue, and the new rate is not zero or negative and differs from
  a positive old rate by at most 1.5 percent.\<close>

lemma usdt_rate_guard:
  "rate_of ex (engine_step m op e) = rate_of ex e \<or>
   ((\<exists>p. op = UsdtUpdate ex p) \<or> (\<exists>now t. op = Ticker now t \<and> tk_exchange t = ex \<and> is_usdt_krw (tk_symbol t))) \<and>
   rate_move_ok (rate_of ex e) (rate_of ex (engine_step m op e))"
proof (cases op)
  case (Ticker now t)
  then show ?thesis using on_ticker_update_rate [of ex now m t e] by auto
next
  case (UsdtUpdate x p)
  then show ?thesis using on_usdt_update_rate [of ex x p e] by auto
next
  case PopEntry
  then show ?thesis using queries_keep_rate(1) by (auto split: option.split)
next
  case PopExit
  then show ?thesis using queries_keep_rate(2) by (auto split: option.split)
next
  case (MonitorRound now due)
  then show ?thesis by (simp add: monitor_round_def)
next
  case (RefreshFilters now)
  then show ?thesis by (simp add: refresh_entry_filters_def)
qed (simp_all add: rate_of_def add_symbol_def add_exchange_pair_def set_exchange_pair_entry_enabled_def set_entry_suppressed_def
    engine_start_def engine_stop_def engine_open_position_def engine_close_position_def engine_update_position_def
    engine_add_realized_pnl_def Let_def split: prod.split)

section \<open>The exit scan\<close>

definition foreign_of :: "engine \<Rightarrow> symbol_id \<Rightarrow> symbol_id" where
  "foreign_of e s = (case map_of (en_korean_index e) s of
     Some i \<Rightarrow> en_foreign_symbols e ! i | None \<Rightarrow> SymbolId (get_base s) ''USDT'')"

definition active_positions :: "engine \<Rightarrow> position list" where
  "active_positions e = map slot_position (filter slot_active (pt_slots (en_tracker e)))"

definition position_exit :: "u64 \<Rightarrow> engine \<Rightarrow> position \<Rightarrow> exit_signal option" where
  "position_exit now e pos = exit_check now e pos (pos_symbol pos) (foreign_of e (pos_symbol pos))"

lemma emit_exit_exit [simp]: "position_exit now (emit_exit r e) = position_exit now e"
  by (rule ext) (simp add: position_exit_def exit_check_def foreign_of_def Let_def cong: option.case_cong)

lemma emit_exit_calls:
  "en_exit_calls (emit_exit r e) = en_exit_calls e @ (case r of None \<Rightarrow> [] | Some s \<Rightarrow> [s])"
  by (simp add: emit_exit_def split: option.split)

lemma exit_fold_calls:
  "en_exit_calls (fold (\<lambda>pos e. emit_exit (position_exit now e pos) e) ps e) =
     en_exit_calls e @ List.map_filter (position_exit now e) ps"
  by (induction ps arbitrary: e) (simp_all add: emit_exit_calls List.map_filter_simps split: option.split)

lemma for_each_active_fold:
  "for_each_active_position f t s = fold f (map slot_position (filter slot_active (pt_slots t))) s"
proof -
  have "fold (\<lambda>slot s. if slot_active slot then f (slot_position slot) s else s) xs s =
      fold f (map slot_position (filter slot_active xs)) s" for xs s
    by (induction xs arbitrary: s) simp_all
  then show ?thesis by (simp add: for_each_active_position_def)
qed

lemma position_exit_sound:
  assumes "position_exit now e pos = Some s" "pos_entry_premium pos + DYNAMIC_EXIT_SPREAD \<noteq> NaN" "xs_premium s \<noteq> NaN"
  shows "EXIT_PREMIUM_THRESHOLD \<le> xs_premium s" "pos_entry_premium pos + DYNAMIC_EXIT_SPREAD \<le> xs_premium s"
    "xs_premium s = calculate_exit_premium (xs_korean_bid s) (xs_foreign_ask s) (xs_usdt_krw_rate s)" "xs_symbol s = pos_symbol pos"
proof -
  let ?d = "pos_entry_premium pos + DYNAMIC_EXIT_SPREAD"
  have eq: "\<not> xs_premium s < dmax ?d EXIT_PREMIUM_THRESHOLD"
    "xs_premium s = calculate_exit_premium (xs_korean_bid s) (xs_foreign_ask s) (xs_usdt_krw_rate s)" "xs_symbol s = pos_symbol pos"
    using assms(1) by (auto simp: position_exit_def exit_check_def Let_def split: if_splits)
  then show "xs_premium s = calculate_exit_premium (xs_korean_bid s) (xs_foreign_ask s) (xs_usdt_krw_rate s)" "xs_symbol s = pos_symbol pos"
    by simp_all
  have t: "EXIT_PREMIUM_THRESHOLD \<noteq> NaN" by (simp add: EXIT_PREMIUM_THRESHOLD_def)
  then have "dmax ?d EXIT_PREMIUM_THRESHOLD \<le> xs_premium s"
    using eq(1) assms(2,3) by (simp add: dmax_def dbl_not_lt split: if_splits)
  moreover have "?d \<le> dmax ?d EXIT_PREMIUM_THRESHOLD" "EXIT_PREMIUM_THRESHOLD \<le> dmax ?d EXIT_PREMIUM_THRESHOLD"
    using t assms(2) by (auto simp: dmax_def dbl_le_refl dbl_lt_le dbl_not_lt)
  ultimately show "EXIT_PREMIUM_THRESHOLD \<le> xs_premium s" "?d \<le> xs_premium s" by (auto intro: dbl_le_trans)
qed

text \<open>C35. The exit scan is exact and sound: it calls the exit callback once for every active
  position whose exit check gives a signal, in the order of the slots, and for no other; and a
  signal whose premium is a number has reached the exit threshold and the position's own
  threshold, and its Korean bid is above the KRW cost of covering the foreign short.\<close>

theorem exit_scan_exact:
  assumes inv: "engine_invar e"
  shows "en_exit_calls (check_exit_conditions now e) =
      en_exit_calls e @ List.map_filter (position_exit now e) (active_positions e) \<and>
    (\<forall>pos \<in> set (active_positions e). \<forall>s. position_exit now e pos = Some s \<longrightarrow>
       pos_entry_premium pos + DYNAMIC_EXIT_SPREAD \<noteq> NaN \<longrightarrow> xs_premium s \<noteq> NaN \<longrightarrow> is_double (xs_korean_bid s) \<longrightarrow>
       EXIT_PREMIUM_THRESHOLD \<le> xs_premium s \<and> pos_entry_premium pos + DYNAMIC_EXIT_SPREAD \<le> xs_premium s \<and>
       xs_foreign_ask s * xs_usdt_krw_rate s < xs_korean_bid s \<and> xs_symbol s = pos_symbol pos)"
proof (intro conjI ballI allI impI)
  have "active_positions e = []" if "\<not> has_any_position (en_tracker e)"
    using that inv by (simp add: has_any_position_def engine_invar_def parts_wf_def pt_invar_def active_positions_def)
  moreover have "for_each_active_position
       (\<lambda>pos e. let foreign_symbol = (case map_of (en_korean_index e) (pos_symbol pos) of
              Some i \<Rightarrow> en_foreign_symbols e ! i | None \<Rightarrow> SymbolId (get_base (pos_symbol pos)) ''USDT'')
          in emit_exit (exit_check now e pos (pos_symbol pos) foreign_symbol) e) (en_tracker e) e =
      fold (\<lambda>pos e. emit_exit (position_exit now e pos) e) (active_positions e) e"
    by (simp add: for_each_active_fold active_positions_def position_exit_def foreign_of_def)
  ultimately show "en_exit_calls (check_exit_conditions now e) =
      en_exit_calls e @ List.map_filter (position_exit now e) (active_positions e)"
    by (simp add: check_exit_conditions_def exit_fold_calls List.map_filter_simps)
  fix pos s
  assume *: "position_exit now e pos = Some s" "pos_entry_premium pos + DYNAMIC_EXIT_SPREAD \<noteq> NaN" "xs_premium s \<noteq> NaN"
    and bid: "is_double (xs_korean_bid s)"
  note sound = position_exit_sound [OF *]
  show "EXIT_PREMIUM_THRESHOLD \<le> xs_premium s" "pos_entry_premium pos + DYNAMIC_EXIT_SPREAD \<le> xs_premium s" "xs_symbol s = pos_symbol pos"
    by (rule sound)+
  have "0 < xs_premium s" using dbl_lt_le_trans [OF lit_const_pos(9)] sound(1) by (simp add: cfg)
  then show "xs_foreign_ask s * xs_usdt_krw_rate s < xs_korean_bid s"
    using exit_premium_positive(1) sound(3) bid by metis
qed

end
