(* ===== verification/Monitor.thy ===== *)
theory Monitor
  imports Engine "HOL-Library.List_Lexorder" "HOL-Library.Char_ord"
begin

text \<open>
  The read-only views of the engine (\<^verbatim>\<open>src/strategy/arbitrage_engine.cpp\<close>): the premium of one
  symbol, the premium table that the console and the JSON export show, and the list of symbols
  that no transfer route serves. The table is collected into parallel arrays, priced by the
  batch calculator of the build and read back by index, as in the code; one clock reading \<open>now\<close>
  stands for all readings of a call.
\<close>

section \<open>The premium of one symbol\<close>

record premium_scan =
  ps_foreign_bid :: dbl
  ps_usdt_rate :: dbl
  ps_net_profit :: dbl
  ps_net_edge :: dbl

definition premium_scan_init :: premium_scan where
  "premium_scan_init = \<lparr>ps_foreign_bid = 0, ps_usdt_rate = 0, ps_net_profit = lit (-1000000000000000000),
     ps_net_edge = lit (-1000000000000000000)\<rparr>"

definition premium_scan_pair ::
    "u64 \<Rightarrow> price_cache \<Rightarrow> exchange \<Rightarrow> string \<Rightarrow> symbol_id \<Rightarrow> price_data \<Rightarrow> exchange_pair \<Rightarrow> premium_scan \<Rightarrow> premium_scan" where
  "premium_scan_pair now c korean_ex base foreign_symbol korean_price pair b =
    (if xp_korean pair \<noteq> korean_ex then b
     else if \<not> is_transfer_route_available c (xp_korean pair) (xp_foreign pair) base then b
     else let fp = get_price c (xp_foreign pair) foreign_symbol in
       if \<not> pd_valid fp \<or> pd_bid fp \<le> 0 then b
     else if \<not> quote_pair_is_usable now korean_price fp False then b
     else let rate = get_usdt_krw c (xp_korean pair) in
       if rate \<le> 0 then b
     else let m = pair_metrics c (xp_korean pair) (xp_foreign pair) base korean_price fp rate in
       if ps_net_profit b < rm_net_profit_krw m \<or>
          deq (rm_net_profit_krw m) (ps_net_profit b) \<and> ps_net_edge b < rm_net_edge_pct m
       then \<lparr>ps_foreign_bid = pd_bid fp, ps_usdt_rate = rate, ps_net_profit = rm_net_profit_krw m,
             ps_net_edge = rm_net_edge_pct m\<rparr>
       else b)"

text \<open>The answer is 0 whenever no premium can be computed.\<close>

definition calculate_premium :: "u64 \<Rightarrow> engine \<Rightarrow> symbol_id \<Rightarrow> exchange \<Rightarrow> exchange \<Rightarrow> dbl" where
  "calculate_premium now e symbol korean_ex foreign_ex =
    (let c = en_prices e; korean_price = get_price c korean_ex symbol in
     if \<not> pd_valid korean_price \<or> pd_ask korean_price \<le> 0 then 0
     else let foreign_symbol = (case map_of (en_korean_index e) symbol of
                Some i \<Rightarrow> en_foreign_symbols e ! i | None \<Rightarrow> SymbolId (get_base symbol) ''USDT'');
              base = get_base symbol;
              b = fold (premium_scan_pair now c korean_ex base foreign_symbol korean_price) (en_pairs e) premium_scan_init;
              found = (if ps_foreign_bid b \<le> 0
                then if \<not> is_transfer_route_available c korean_ex foreign_ex base then None
                  else let foreign_price = get_price c foreign_ex foreign_symbol in
                    if \<not> pd_valid foreign_price \<or> pd_bid foreign_price \<le> 0 then None
                    else if \<not> quote_pair_is_usable now korean_price foreign_price False then None
                    else Some (pd_bid foreign_price, get_usdt_krw c korean_ex)
                else Some (ps_foreign_bid b, ps_usdt_rate b))
       in case found of
            None \<Rightarrow> 0
          | Some (foreign_bid, usdt_rate) \<Rightarrow>
              if usdt_rate \<le> 0 then 0 else calculate_entry_premium (pd_ask korean_price) foreign_bid usdt_rate)"

section \<open>The premium table\<close>

record premium_info =
  pi_symbol :: symbol_id
  pi_korean_bid :: dbl
  pi_korean_ask :: dbl
  pi_korean_bid_qty :: dbl
  pi_korean_ask_qty :: dbl
  pi_foreign_bid :: dbl
  pi_foreign_ask :: dbl
  pi_foreign_bid_qty :: dbl
  pi_foreign_ask_qty :: dbl
  pi_korean_price :: dbl
  pi_foreign_price :: dbl
  pi_usdt_rate :: dbl
  pi_entry_premium :: dbl
  pi_exit_premium :: dbl
  pi_premium_spread :: dbl
  pi_premium :: dbl
  pi_match_qty :: dbl
  pi_target_coin_qty :: dbl
  pi_max_tradable_usdt_at_best :: dbl
  pi_bithumb_top_krw :: dbl
  pi_bithumb_top_usdt :: dbl
  pi_bybit_top_usdt :: dbl
  pi_bybit_top_krw :: dbl
  pi_gross_edge_pct :: dbl
  pi_net_edge_pct :: dbl
  pi_bithumb_total_fee_krw :: dbl
  pi_bybit_total_fee_usdt :: dbl
  pi_bybit_total_fee_krw :: dbl
  pi_withdraw_fee_coins :: dbl
  pi_withdraw_fee_krw :: dbl
  pi_total_fee_krw :: dbl
  pi_net_profit_krw :: dbl
  pi_both_can_fill_target :: bool
  pi_age_ms :: u64
  pi_quote_usable :: bool
  pi_entry_signal :: bool
  pi_exit_signal :: bool
  pi_best_korean_exchange :: exchange
  pi_best_foreign_exchange :: exchange

text \<open>The parallel arrays of the collection pass.\<close>

record premium_soa =
  so_korean_asks :: "dbl list"
  so_korean_ask_qtys :: "dbl list"
  so_foreign_bids :: "dbl list"
  so_foreign_bid_qtys :: "dbl list"
  so_korean_bids :: "dbl list"
  so_korean_bid_qtys :: "dbl list"
  so_foreign_asks :: "dbl list"
  so_foreign_ask_qtys :: "dbl list"
  so_usdt_rates :: "dbl list"
  so_korean_timestamps :: "u64 list"
  so_foreign_timestamps :: "u64 list"
  so_symbol_indices :: "nat list"
  so_best_korean_exchanges :: "exchange list"
  so_best_foreign_exchanges :: "exchange list"

definition premium_soa_init :: premium_soa where
  "premium_soa_init = \<lparr>so_korean_asks = [], so_korean_ask_qtys = [], so_foreign_bids = [], so_foreign_bid_qtys = [],
     so_korean_bids = [], so_korean_bid_qtys = [], so_foreign_asks = [], so_foreign_ask_qtys = [], so_usdt_rates = [],
     so_korean_timestamps = [], so_foreign_timestamps = [], so_symbol_indices = [], so_best_korean_exchanges = [],
     so_best_foreign_exchanges = []\<rparr>"

definition view_init :: best_pair where
  "view_init = best_pair_init \<lparr>xp_korean = Bithumb, xp_foreign = Bybit, xp_entry_enabled = True\<rparr>"

definition view_pair :: "price_cache \<Rightarrow> symbol_id \<Rightarrow> symbol_id \<Rightarrow> exchange_pair \<Rightarrow> best_pair \<Rightarrow> best_pair" where
  "view_pair c symbol foreign_symbol pair b =
    (let base = get_base symbol in
     if \<not> is_transfer_route_available c (xp_korean pair) (xp_foreign pair) base then b
     else let korean_price = get_price c (xp_korean pair) symbol in
       if \<not> pd_valid korean_price \<or> pd_ask korean_price \<le> 0 then b
     else let foreign_price = get_price c (xp_foreign pair) foreign_symbol in
       if \<not> pd_valid foreign_price \<or> pd_bid foreign_price \<le> 0 then b
     else let usdt_rate = get_usdt_krw c (xp_korean pair) in
       if usdt_rate \<le> 0 then b
     else let m = pair_metrics c (xp_korean pair) (xp_foreign pair) base korean_price foreign_price usdt_rate in
       if bp_net_profit b < rm_net_profit_krw m \<or>
          deq (rm_net_profit_krw m) (bp_net_profit b) \<and> bp_net_edge b < rm_net_edge_pct m
       then \<lparr>bp_korean_ex = xp_korean pair, bp_foreign_ex = xp_foreign pair, bp_korean_price = korean_price,
             bp_foreign_price = foreign_price, bp_net_profit = rm_net_profit_krw m, bp_net_edge = rm_net_edge_pct m,
             bp_usdt_rate = usdt_rate\<rparr>
       else b)"

definition view_best :: "engine \<Rightarrow> nat \<Rightarrow> best_pair" where
  "view_best e i = fold (view_pair (en_prices e) (en_symbols e ! i) (en_foreign_symbols e ! i)) (en_pairs e) view_init"

definition soa_push :: "nat \<Rightarrow> best_pair \<Rightarrow> premium_soa \<Rightarrow> premium_soa" where
  "soa_push i b s =
    \<lparr>so_korean_asks = so_korean_asks s @ [pd_ask (bp_korean_price b)],
     so_korean_ask_qtys = so_korean_ask_qtys s @ [pd_ask_qty (bp_korean_price b)],
     so_foreign_bids = so_foreign_bids s @ [pd_bid (bp_foreign_price b)],
     so_foreign_bid_qtys = so_foreign_bid_qtys s @ [pd_bid_qty (bp_foreign_price b)],
     so_korean_bids = so_korean_bids s @ [pd_bid (bp_korean_price b)],
     so_korean_bid_qtys = so_korean_bid_qtys s @ [pd_bid_qty (bp_korean_price b)],
     so_foreign_asks = so_foreign_asks s @ [pd_ask (bp_foreign_price b)],
     so_foreign_ask_qtys = so_foreign_ask_qtys s @ [pd_ask_qty (bp_foreign_price b)],
     so_usdt_rates = so_usdt_rates s @ [bp_usdt_rate b],
     so_korean_timestamps = so_korean_timestamps s @ [pd_timestamp (bp_korean_price b)],
     so_foreign_timestamps = so_foreign_timestamps s @ [pd_timestamp (bp_foreign_price b)],
     so_symbol_indices = so_symbol_indices s @ [i],
     so_best_korean_exchanges = so_best_korean_exchanges s @ [bp_korean_ex b],
     so_best_foreign_exchanges = so_best_foreign_exchanges s @ [bp_foreign_ex b]\<rparr>"

definition collect_symbol :: "engine \<Rightarrow> nat \<Rightarrow> premium_soa \<Rightarrow> premium_soa" where
  "collect_symbol e i s = (let b = view_best e i in if 0 < bp_usdt_rate b then soa_push i b s else s)"

definition collect_prices :: "engine \<Rightarrow> premium_soa" where
  "collect_prices e = fold (collect_symbol e) [0..<length (en_symbols e)] premium_soa_init"

definition quote_age :: "u64 \<Rightarrow> u64 \<Rightarrow> u64 \<Rightarrow> u64" where
  "quote_age now korean_ts foreign_ts =
    (let newest_ts = max korean_ts foreign_ts in if 0 < newest_ts \<and> newest_ts < now then now - newest_ts else 0)"

definition premium_info_at :: "u64 \<Rightarrow> engine \<Rightarrow> premium_soa \<Rightarrow> dbl list \<Rightarrow> dbl list \<Rightarrow> nat \<Rightarrow> premium_info" where
  "premium_info_at now e s entry_premiums exit_premiums i =
    (let symbol = en_symbols e ! (so_symbol_indices s ! i);
         kx = so_best_korean_exchanges s ! i; fx = so_best_foreign_exchanges s ! i;
         withdraw_fee = get_withdraw_fee (en_prices e) kx fx (get_base symbol);
         m = calculate_relay_metrics (so_korean_asks s ! i) (so_korean_ask_qtys s ! i) (so_foreign_bids s ! i)
               (so_foreign_bid_qtys s ! i) (so_usdt_rates s ! i) (get_korean_fee_rate kx) (get_foreign_fee_rate fx) withdraw_fee;
         best_korean_price = price_data_default\<lparr>pd_valid := True, pd_bid := so_korean_bids s ! i, pd_ask := so_korean_asks s ! i,
             pd_bid_qty := so_korean_bid_qtys s ! i, pd_ask_qty := so_korean_ask_qtys s ! i,
             pd_timestamp := so_korean_timestamps s ! i\<rparr>;
         best_foreign_price = price_data_default\<lparr>pd_valid := True, pd_bid := so_foreign_bids s ! i, pd_ask := so_foreign_asks s ! i,
             pd_bid_qty := so_foreign_bid_qtys s ! i, pd_ask_qty := so_foreign_ask_qtys s ! i,
             pd_timestamp := so_foreign_timestamps s ! i\<rparr>;
         quote_usable = quote_pair_is_usable now best_korean_price best_foreign_price False
     in \<lparr>pi_symbol = symbol, pi_korean_bid = so_korean_bids s ! i, pi_korean_ask = so_korean_asks s ! i,
         pi_korean_bid_qty = so_korean_bid_qtys s ! i, pi_korean_ask_qty = so_korean_ask_qtys s ! i,
         pi_foreign_bid = so_foreign_bids s ! i, pi_foreign_ask = so_foreign_asks s ! i,
         pi_foreign_bid_qty = so_foreign_bid_qtys s ! i, pi_foreign_ask_qty = so_foreign_ask_qtys s ! i,
         pi_korean_price = so_korean_asks s ! i, pi_foreign_price = so_foreign_bids s ! i,
         pi_usdt_rate = so_usdt_rates s ! i, pi_entry_premium = entry_premiums ! i, pi_exit_premium = exit_premiums ! i,
         pi_premium_spread = entry_premiums ! i - exit_premiums ! i, pi_premium = entry_premiums ! i,
         pi_match_qty = rm_match_qty m, pi_target_coin_qty = rm_target_coin_qty m,
         pi_max_tradable_usdt_at_best = rm_max_tradable_usdt_at_best m, pi_bithumb_top_krw = rm_bithumb_top_krw m,
         pi_bithumb_top_usdt = rm_bithumb_top_usdt m, pi_bybit_top_usdt = rm_bybit_top_usdt m,
         pi_bybit_top_krw = rm_bybit_top_krw m, pi_gross_edge_pct = rm_gross_edge_pct m, pi_net_edge_pct = rm_net_edge_pct m,
         pi_bithumb_total_fee_krw = rm_bithumb_total_fee_krw m, pi_bybit_total_fee_usdt = rm_bybit_total_fee_usdt m,
         pi_bybit_total_fee_krw = rm_bybit_total_fee_krw m, pi_withdraw_fee_coins = rm_withdraw_fee_coins m,
         pi_withdraw_fee_krw = rm_withdraw_fee_krw m, pi_total_fee_krw = rm_total_fee_krw m,
         pi_net_profit_krw = rm_net_profit_krw m, pi_both_can_fill_target = rm_both_can_fill_target m,
         pi_age_ms = quote_age now (so_korean_timestamps s ! i) (so_foreign_timestamps s ! i),
         pi_quote_usable = quote_usable,
         pi_entry_signal = entry_gate_passes (quote_usable \<and> rm_both_can_fill_target m) (rm_match_qty m)
            (rm_net_edge_pct m) (rm_net_profit_krw m),
         pi_exit_signal = (EXIT_PREMIUM_THRESHOLD \<le> exit_premiums ! i),
         pi_best_korean_exchange = kx, pi_best_foreign_exchange = fx\<rparr>)"

definition get_all_premiums :: "simd_build \<Rightarrow> u64 \<Rightarrow> engine \<Rightarrow> premium_info list" where
  "get_all_premiums build now e =
    (if length (en_symbols e) = 0 then []
     else let s = collect_prices e; count = length (so_korean_asks s) in
       if count = 0 then []
       else let entry_premiums = calculate_batch build (so_korean_asks s) (so_foreign_bids s) (so_usdt_rates s) count;
                exit_premiums = calculate_batch build (so_korean_bids s) (so_foreign_asks s) (so_usdt_rates s) count
         in map (premium_info_at now e s entry_premiums exit_premiums) [0..<count])"

section \<open>Symbols without a transfer route\<close>

record transfer_block_info =
  tb_symbol :: symbol_id
  tb_korean_exchange :: exchange
  tb_foreign_exchange :: exchange
  tb_reason :: string

record block_scan =
  bk_any_available :: bool
  bk_missing_count :: nat
  bk_withdraw_blocked_count :: nat
  bk_deposit_blocked_count :: nat
  bk_no_shared_count :: nat
  bk_missing_info :: "transfer_block_info option"
  bk_withdraw_info :: "transfer_block_info option"
  bk_deposit_info :: "transfer_block_info option"
  bk_no_shared_info :: "transfer_block_info option"

definition block_scan_init :: block_scan where
  "block_scan_init = \<lparr>bk_any_available = False, bk_missing_count = 0, bk_withdraw_blocked_count = 0,
     bk_deposit_blocked_count = 0, bk_no_shared_count = 0, bk_missing_info = None, bk_withdraw_info = None,
     bk_deposit_info = None, bk_no_shared_info = None\<rparr>"

definition keep_first :: "'a option \<Rightarrow> 'a \<Rightarrow> 'a option" where
  "keep_first info x = (case info of None \<Rightarrow> Some x | Some y \<Rightarrow> Some y)"

definition block_info :: "symbol_id \<Rightarrow> exchange_pair \<Rightarrow> string \<Rightarrow> transfer_block_info" where
  "block_info symbol pair reason = \<lparr>tb_symbol = symbol, tb_korean_exchange = xp_korean pair,
     tb_foreign_exchange = xp_foreign pair, tb_reason = reason\<rparr>"

text \<open>The scan of the pairs stops at the first available route.\<close>

fun scan_routes :: "price_cache \<Rightarrow> symbol_id \<Rightarrow> exchange_pair list \<Rightarrow> block_scan \<Rightarrow> block_scan" where
  "scan_routes c symbol [] b = b"
| "scan_routes c symbol (pair # rest) b =
    (case get_transfer_route c (xp_korean pair) (xp_foreign pair) (get_base symbol) of
       None \<Rightarrow> scan_routes c symbol rest (b\<lparr>bk_missing_count := bk_missing_count b + 1,
          bk_missing_info := keep_first (bk_missing_info b) (block_info symbol pair ''route data missing'')\<rparr>)
     | Some route \<Rightarrow>
        if tr_available route then b\<lparr>bk_any_available := True\<rparr>
        else if \<not> tr_withdraw_open route then
          scan_routes c symbol rest (b\<lparr>bk_withdraw_blocked_count := bk_withdraw_blocked_count b + 1,
            bk_withdraw_info := keep_first (bk_withdraw_info b) (block_info symbol pair ''KR withdraw off'')\<rparr>)
        else if \<not> tr_deposit_open route then
          scan_routes c symbol rest (b\<lparr>bk_deposit_blocked_count := bk_deposit_blocked_count b + 1,
            bk_deposit_info := keep_first (bk_deposit_info b) (block_info symbol pair ''Foreign deposit off'')\<rparr>)
        else scan_routes c symbol rest (b\<lparr>bk_no_shared_count := bk_no_shared_count b + 1,
            bk_no_shared_info := keep_first (bk_no_shared_info b) (block_info symbol pair ''no shared network'')\<rparr>))"

definition block_verdict :: "nat \<Rightarrow> block_scan \<Rightarrow> transfer_block_info option" where
  "block_verdict pair_count b =
    (if bk_any_available b then None
     else if pair_count = 0 then None
     else if bk_withdraw_blocked_count b = pair_count \<and> bk_withdraw_info b \<noteq> None then bk_withdraw_info b
     else if bk_deposit_blocked_count b = pair_count \<and> bk_deposit_info b \<noteq> None then bk_deposit_info b
     else if bk_no_shared_count b = pair_count \<and> bk_no_shared_info b \<noteq> None then bk_no_shared_info b
     else if bk_missing_count b = pair_count \<and> bk_missing_info b \<noteq> None then bk_missing_info b
     else case bk_withdraw_info b of Some info \<Rightarrow> Some (info\<lparr>tb_reason := ''no live route (KR withdraw off mixed)''\<rparr>)
     | None \<Rightarrow> (case bk_deposit_info b of Some info \<Rightarrow> Some (info\<lparr>tb_reason := ''no live route (Foreign deposit off mixed)''\<rparr>)
     | None \<Rightarrow> (case bk_no_shared_info b of Some info \<Rightarrow> Some (info\<lparr>tb_reason := ''no live route (shared net none)''\<rparr>)
     | None \<Rightarrow> bk_missing_info b)))"

definition get_transfer_blocked_symbols :: "engine \<Rightarrow> transfer_block_info list" where
  "get_transfer_blocked_symbols e =
     sort_by (\<lambda>a b. symbol_to_string (tb_symbol a) < symbol_to_string (tb_symbol b))
       (List.map_filter (\<lambda>symbol. block_verdict (length (en_pairs e)) (scan_routes (en_prices e) symbol (en_pairs e) block_scan_init))
         (en_symbols e))"

section \<open>Scans for the best offer\<close>

text \<open>
  The table, the single premium and the engine's entry cache each keep the best offer of a scan
  over the exchange pairs. A scan replaces its best offer by one that beats it. Comparisons of
  doubles are not total, so the contract names the offers that compare with every other one
  (\<open>comparable\<close>), the ones that may be offered (\<open>ok\<close>) and the winners that stay winners
  when other offers are left out (\<open>strong\<close>).
\<close>

locale best_scan =
  fixes beats :: "'a \<Rightarrow> 'a \<Rightarrow> bool" and ok comparable strong :: "'a \<Rightarrow> bool"
  assumes beats_trans: "beats r u \<Longrightarrow> beats u f \<Longrightarrow> beats r f"
    and beats_comparable: "beats r u \<Longrightarrow> comparable r"
    and beats_passed: "strong r \<Longrightarrow> ok u \<Longrightarrow> comparable u \<Longrightarrow> beats r f \<Longrightarrow> \<not> beats u f \<Longrightarrow> beats r u"
begin

definition pick :: "'a \<Rightarrow> 'a \<Rightarrow> 'a" where
  "pick x b = (if beats x b then x else b)"

lemma pick_simps [simp]: "beats x b \<Longrightarrow> pick x b = x" "\<not> beats x b \<Longrightarrow> pick x b = b"
  by (simp_all add: pick_def)

lemma pick_member: "fold pick xs a = a \<or> fold pick xs a \<in> set xs \<and> comparable (fold pick xs a)"
proof (induction xs rule: rev_induct)
  case (snoc x xs)
  then show ?case by (cases "beats x (fold pick xs a)") (auto dest: beats_comparable)
qed simp

lemma pick_split:
  "fold pick xs a = a \<or> (\<exists>us vs. xs = us @ fold pick xs a # vs \<and>
     beats (fold pick xs a) (fold pick us a) \<and> (\<forall>v \<in> set vs. \<not> beats v (fold pick xs a)))"
proof (induction xs rule: rev_induct)
  case (snoc x xs)
  show ?case
  proof (cases "beats x (fold pick xs a)")
    case True
    then have "xs @ [x] = xs @ fold pick (xs @ [x]) a # []" by simp
    then show ?thesis using True by fastforce
  next
    case False
    then have f: "fold pick (xs @ [x]) a = fold pick xs a" by simp
    from snoc show ?thesis
    proof
      assume "\<exists>us vs. xs = us @ fold pick xs a # vs \<and> beats (fold pick xs a) (fold pick us a) \<and>
        (\<forall>v \<in> set vs. \<not> beats v (fold pick xs a))"
      then obtain us vs where "xs @ [x] = us @ fold pick xs a # (vs @ [x])" "beats (fold pick xs a) (fold pick us a)"
        "\<forall>v \<in> set (vs @ [x]). \<not> beats v (fold pick xs a)" using False by auto
      then show ?thesis unfolding f by blast
    qed (use False in auto)
  qed
qed simp

lemma pick_beaten:
  assumes "strong r" "\<forall>u \<in> set us. ok u" "beats r (fold pick us a)" "u = a \<or> u \<in> set us \<and> comparable u"
  shows "beats r u"
  using assms
proof (induction us rule: rev_induct)
  case (snoc x us)
  have "beats r (fold pick us a)"
    using snoc.prems(3) beats_trans by (cases "beats x (fold pick us a)") auto
  moreover have "beats r x" if "comparable x"
    using that snoc.prems calculation beats_passed [of r x "fold pick us a"]
    by (cases "beats x (fold pick us a)") auto
  ultimately show ?case using snoc by auto
qed simp

text \<open>A strong winner also wins among fewer offers.\<close>

lemma pick_filter:
  assumes won: "fold pick xs a = r" "r \<noteq> a" and "strong r" "P r" "\<forall>x \<in> set xs. ok x"
    and start: "\<And>x. beats x a' = beats x a"
  shows "fold pick (filter P xs) a' = r"
proof -
  obtain us vs where xs: "xs = us @ r # vs" and b: "beats r (fold pick us a)" and v: "\<forall>v \<in> set vs. \<not> beats v r"
    using pick_split [of xs a] won by auto
  let ?g = "fold pick (filter P us) a'"
  have "?g = a' \<or> ?g \<in> set us \<and> comparable ?g" using pick_member [of "filter P us" a'] by auto
  then have "beats r ?g"
    using pick_beaten [OF \<open>strong r\<close> _ b] start assms(5) xs by auto
  moreover have "fold pick (filter P vs) r = r" using v by (induction vs) auto
  ultimately show ?thesis using \<open>P r\<close> by (simp add: xs)
qed

end

definition bp_beats :: "best_pair \<Rightarrow> best_pair \<Rightarrow> bool" where
  "bp_beats x b \<longleftrightarrow> bp_net_profit b < bp_net_profit x \<or>
     deq (bp_net_profit x) (bp_net_profit b) \<and> bp_net_edge b < bp_net_edge x"

lemma deq_iff: "deq x y \<longleftrightarrow> x = y \<and> x \<noteq> NaN"
  by (cases x; cases y) auto

lemma bp_beats_passed:
  assumes "isfinite (bp_net_profit r)" "isfinite (bp_net_profit u) \<longrightarrow> bp_net_edge u \<noteq> NaN"
    and u: "bp_net_profit u \<noteq> NaN" and rf: "bp_beats r f" and uf: "\<not> bp_beats u f"
  shows "bp_beats r u"
proof -
  have "bp_net_profit f \<noteq> NaN" using rf by (auto simp: bp_beats_def deq_iff dest: dbl_lt_num)
  with u uf have uf': "bp_net_profit u \<le> bp_net_profit f" by (simp add: bp_beats_def dbl_not_lt)
  show ?thesis
  proof (cases "bp_net_profit f < bp_net_profit r")
    case True
    then show ?thesis using uf' dbl_le_lt_trans by (auto simp: bp_beats_def)
  next
    case False
    with rf have eq: "bp_net_profit r = bp_net_profit f" and e: "bp_net_edge f < bp_net_edge r"
      by (auto simp: bp_beats_def deq_iff)
    show ?thesis
    proof (cases "bp_net_profit u = bp_net_profit f")
      case True
      then have "bp_net_edge u \<noteq> NaN" "\<not> bp_net_edge f < bp_net_edge u"
        using assms(1,2) eq u uf by (auto simp: bp_beats_def deq_iff)
      then have "bp_net_edge u < bp_net_edge r" using e dbl_lt_num dbl_not_lt dbl_le_lt_trans by blast
      then show ?thesis using True eq u by (simp add: bp_beats_def deq_iff)
    next
      case False
      then have "bp_net_profit u < bp_net_profit f"
        using uf' u \<open>bp_net_profit f \<noteq> NaN\<close> dbl_le_antisym dbl_not_lt by blast
      then show ?thesis by (simp add: bp_beats_def eq)
    qed
  qed
qed

interpretation offers: best_scan bp_beats "\<lambda>u. isfinite (bp_net_profit u) \<longrightarrow> bp_net_edge u \<noteq> NaN"
  "\<lambda>u. bp_net_profit u \<noteq> NaN" "\<lambda>u. isfinite (bp_net_profit u)"
proof
  show "bp_beats r u \<Longrightarrow> bp_beats u f \<Longrightarrow> bp_beats r f" for r u f
    by (auto simp: bp_beats_def deq_iff intro: dbl_lt_trans)
  show "bp_beats r u \<Longrightarrow> bp_net_profit r \<noteq> NaN" for r u
    by (auto simp: bp_beats_def deq_iff dest: dbl_lt_num)
qed (rule bp_beats_passed)

section \<open>The monitor and the entry cache\<close>

text \<open>What one pair offers for a symbol.\<close>

definition pair_offer :: "price_cache \<Rightarrow> symbol_id \<Rightarrow> symbol_id \<Rightarrow> exchange_pair \<Rightarrow> best_pair" where
  "pair_offer c symbol foreign_symbol pair =
    (let kp = get_price c (xp_korean pair) symbol; fp = get_price c (xp_foreign pair) foreign_symbol;
         rate = get_usdt_krw c (xp_korean pair);
         m = pair_metrics c (xp_korean pair) (xp_foreign pair) (get_base symbol) kp fp rate
     in \<lparr>bp_korean_ex = xp_korean pair, bp_foreign_ex = xp_foreign pair, bp_korean_price = kp,
         bp_foreign_price = fp, bp_net_profit = rm_net_profit_krw m, bp_net_edge = rm_net_edge_pct m, bp_usdt_rate = rate\<rparr>)"

definition pair_priced :: "price_cache \<Rightarrow> symbol_id \<Rightarrow> symbol_id \<Rightarrow> exchange_pair \<Rightarrow> bool" where
  "pair_priced c symbol foreign_symbol pair \<longleftrightarrow>
     is_transfer_route_available c (xp_korean pair) (xp_foreign pair) (get_base symbol) \<and>
     pd_valid (get_price c (xp_korean pair) symbol) \<and> \<not> pd_ask (get_price c (xp_korean pair) symbol) \<le> 0 \<and>
     pd_valid (get_price c (xp_foreign pair) foreign_symbol) \<and> \<not> pd_bid (get_price c (xp_foreign pair) foreign_symbol) \<le> 0 \<and>
     \<not> get_usdt_krw c (xp_korean pair) \<le> 0"

definition offer_usable :: "u64 \<Rightarrow> best_pair \<Rightarrow> bool" where
  "offer_usable now b \<longleftrightarrow> quote_pair_is_usable now (bp_korean_price b) (bp_foreign_price b) False"

lemma view_pair_pick:
  "view_pair c s fs p b = (if pair_priced c s fs p then offers.pick (pair_offer c s fs p) b else b)"
  by (simp add: view_pair_def pair_priced_def pair_offer_def offers.pick_def bp_beats_def Let_def)

lemma consider_pair_pick:
  assumes "xp_entry_enabled p"
  shows "consider_pair now c s fs p b =
    (if pair_priced c s fs p \<and> offer_usable now (pair_offer c s fs p) then offers.pick (pair_offer c s fs p) b else b)"
  using assms by (simp add: consider_pair_def pair_priced_def pair_offer_def offer_usable_def offers.pick_def bp_beats_def Let_def)

lemma view_fold:
  "fold (view_pair c s fs) ps b = fold offers.pick (map (pair_offer c s fs) (filter (pair_priced c s fs) ps)) b"
  by (induction ps arbitrary: b) (simp_all add: view_pair_pick)

lemma consider_fold:
  assumes "\<forall>p \<in> set ps. xp_entry_enabled p"
  shows "fold (consider_pair now c s fs) ps b =
    fold offers.pick (filter (offer_usable now) (map (pair_offer c s fs) (filter (pair_priced c s fs) ps))) b"
  using assms by (induction ps arbitrary: b) (simp_all add: consider_pair_pick)

lemma edge_of_finite_profit:
  assumes "isfinite (rm_net_profit_krw (calculate_relay_metrics ka kq fb fq r kf ff wd))"
  shows "rm_net_edge_pct (calculate_relay_metrics ka kq fb fq r kf ff wd) \<noteq> NaN"
proof -
  have pct: "(if 0 < b then p / b * lit 100 else 0) \<noteq> NaN" if "isfinite p" for p b :: dbl
  proof -
    have "lit 100 = Fin 100" using lit_of_int [of 100] by simp
    moreover have "x * Fin 100 \<noteq> NaN" if "x \<noteq> NaN" for x using that by (cases x) simp_all
    ultimately show ?thesis using that lit_num by (cases p; cases b) (auto simp: zero_dbl_def)
  qed
  show ?thesis
  proof (cases "ka \<le> 0 \<or> kq \<le> 0 \<or> fb \<le> 0 \<or> fq \<le> 0 \<or> r \<le> 0")
    case True
    then show ?thesis by (simp add: calculate_relay_metrics_def relay_metrics_default_def zero_dbl_def)
  next
    case False
    then show ?thesis using assms pct unfolding calculate_relay_metrics_def Let_def by simp
  qed
qed

lemma pair_offer_ok:
  "isfinite (bp_net_profit (pair_offer c s fs p)) \<Longrightarrow> bp_net_edge (pair_offer c s fs p) \<noteq> NaN"
  by (simp add: pair_offer_def pair_metrics_def Let_def edge_of_finite_profit)

text \<open>The best usable offer of the table is the one the entry cache takes.\<close>

lemma view_best_engine:
  assumes "\<forall>p \<in> set (en_pairs e). xp_entry_enabled p" and b: "b = view_best e i" "0 < bp_usdt_rate b"
    and "offer_usable now b" "isfinite (bp_net_profit b)"
  shows "en_pairs e \<noteq> [] \<and> best_pair_of now i e = b"
proof -
  let ?os = "map (pair_offer (en_prices e) (en_symbols e ! i) (en_foreign_symbols e ! i))
    (filter (pair_priced (en_prices e) (en_symbols e ! i) (en_foreign_symbols e ! i)) (en_pairs e))"
  have won: "fold offers.pick ?os view_init = b" using b by (simp add: view_best_def view_fold)
  have "b \<noteq> view_init" using b(2) by (auto simp: view_init_def best_pair_init_def)
  moreover have "bp_beats x (best_pair_init p) = bp_beats x view_init" for x p
    by (simp add: bp_beats_def view_init_def best_pair_init_def)
  ultimately have "fold offers.pick (filter (offer_usable now) ?os) (best_pair_init (en_pairs e ! 0)) = b"
    using won assms(4,5) pair_offer_ok by (intro offers.pick_filter) auto
  moreover have "en_pairs e \<noteq> []" using b by (auto simp: view_best_def view_init_def best_pair_init_def)
  ultimately show ?thesis using assms(1) by (simp add: best_pair_of_def consider_fold)
qed

section \<open>The table row by row\<close>

text \<open>The symbols that get a row, with the pair each row shows.\<close>

definition table_rows :: "engine \<Rightarrow> (nat \<times> best_pair) list" where
  "table_rows e = map (\<lambda>i. (i, view_best e i)) (filter (\<lambda>i. 0 < bp_usdt_rate (view_best e i)) [0..<length (en_symbols e)])"

text \<open>The parallel arrays of a list of rows.\<close>

definition soa_of :: "(nat \<times> best_pair) list \<Rightarrow> premium_soa" where
  "soa_of rs =
    \<lparr>so_korean_asks = map (\<lambda>r. pd_ask (bp_korean_price (snd r))) rs,
     so_korean_ask_qtys = map (\<lambda>r. pd_ask_qty (bp_korean_price (snd r))) rs,
     so_foreign_bids = map (\<lambda>r. pd_bid (bp_foreign_price (snd r))) rs,
     so_foreign_bid_qtys = map (\<lambda>r. pd_bid_qty (bp_foreign_price (snd r))) rs,
     so_korean_bids = map (\<lambda>r. pd_bid (bp_korean_price (snd r))) rs,
     so_korean_bid_qtys = map (\<lambda>r. pd_bid_qty (bp_korean_price (snd r))) rs,
     so_foreign_asks = map (\<lambda>r. pd_ask (bp_foreign_price (snd r))) rs,
     so_foreign_ask_qtys = map (\<lambda>r. pd_ask_qty (bp_foreign_price (snd r))) rs,
     so_usdt_rates = map (\<lambda>r. bp_usdt_rate (snd r)) rs,
     so_korean_timestamps = map (\<lambda>r. pd_timestamp (bp_korean_price (snd r))) rs,
     so_foreign_timestamps = map (\<lambda>r. pd_timestamp (bp_foreign_price (snd r))) rs,
     so_symbol_indices = map fst rs,
     so_best_korean_exchanges = map (\<lambda>r. bp_korean_ex (snd r)) rs,
     so_best_foreign_exchanges = map (\<lambda>r. bp_foreign_ex (snd r)) rs\<rparr>"

lemma soa_of_sel:
  "so_korean_asks (soa_of rs) = map (\<lambda>r. pd_ask (bp_korean_price (snd r))) rs"
  "so_foreign_bids (soa_of rs) = map (\<lambda>r. pd_bid (bp_foreign_price (snd r))) rs"
  "so_korean_bids (soa_of rs) = map (\<lambda>r. pd_bid (bp_korean_price (snd r))) rs"
  "so_foreign_asks (soa_of rs) = map (\<lambda>r. pd_ask (bp_foreign_price (snd r))) rs"
  "so_usdt_rates (soa_of rs) = map (\<lambda>r. bp_usdt_rate (snd r)) rs"
  by (simp_all add: soa_of_def)

lemma soa_push_of: "soa_push i b (soa_of rs) = soa_of (rs @ [(i, b)])"
  by (simp add: soa_push_def soa_of_def)

lemma collect_prices_rows: "collect_prices e = soa_of (table_rows e)"
proof -
  have "fold (collect_symbol e) is (soa_of rs) =
      soa_of (rs @ map (\<lambda>i. (i, view_best e i)) (filter (\<lambda>i. 0 < bp_usdt_rate (view_best e i)) is))" for "is" rs
    by (induction "is" arbitrary: rs) (simp_all add: collect_symbol_def Let_def soa_push_of)
  from this [of _ "[]"] show ?thesis
    by (simp add: collect_prices_def table_rows_def premium_soa_init_def soa_of_def)
qed

lemma get_all_premiums_rows:
  "get_all_premiums build now e =
    (let s = soa_of (table_rows e); n = length (table_rows e)
     in map (premium_info_at now e s (calculate_batch build (so_korean_asks s) (so_foreign_bids s) (so_usdt_rates s) n)
          (calculate_batch build (so_korean_bids s) (so_foreign_asks s) (so_usdt_rates s) n)) [0..<n])"
proof (cases "en_symbols e = []")
  case True
  then show ?thesis by (simp add: get_all_premiums_def table_rows_def)
qed (simp add: get_all_premiums_def collect_prices_rows Let_def soa_of_def)

text \<open>The quotes of a row survive the copy through the arrays, as far as the quote guard reads them.\<close>

lemma usable_of_copy:
  assumes "pd_valid kp" "pd_valid fp"
  shows "quote_pair_is_usable now
     (price_data_default\<lparr>pd_valid := True, pd_bid := pd_bid kp, pd_ask := pd_ask kp, pd_bid_qty := pd_bid_qty kp,
        pd_ask_qty := pd_ask_qty kp, pd_timestamp := pd_timestamp kp\<rparr>)
     (price_data_default\<lparr>pd_valid := True, pd_bid := pd_bid fp, pd_ask := pd_ask fp, pd_bid_qty := pd_bid_qty fp,
        pd_ask_qty := pd_ask_qty fp, pd_timestamp := pd_timestamp fp\<rparr>) x = quote_pair_is_usable now kp fp x"
  using assms by (simp add: quote_pair_is_usable_def quote_is_fresh_with_limit_def)

lemma view_best_offer:
  assumes "0 < bp_usdt_rate (view_best e i)"
  shows "\<exists>p. view_best e i = pair_offer (en_prices e) (en_symbols e ! i) (en_foreign_symbols e ! i) p \<and>
    pair_priced (en_prices e) (en_symbols e ! i) (en_foreign_symbols e ! i) p"
proof -
  let ?os = "map (pair_offer (en_prices e) (en_symbols e ! i) (en_foreign_symbols e ! i))
    (filter (pair_priced (en_prices e) (en_symbols e ! i) (en_foreign_symbols e ! i)) (en_pairs e))"
  have "view_best e i = fold offers.pick ?os view_init" by (simp add: view_best_def view_fold)
  moreover have "view_best e i \<noteq> view_init" using assms by (auto simp: view_init_def best_pair_init_def)
  ultimately have "view_best e i \<in> set ?os" using offers.pick_member [of ?os view_init] by auto
  then show ?thesis by auto
qed

definition row_metrics :: "engine \<Rightarrow> nat \<times> best_pair \<Rightarrow> relay_metrics" where
  "row_metrics e r = pair_metrics (en_prices e) (bp_korean_ex (snd r)) (bp_foreign_ex (snd r)) (get_base (en_symbols e ! fst r))
     (bp_korean_price (snd r)) (bp_foreign_price (snd r)) (bp_usdt_rate (snd r))"

lemma row_fields:
  assumes j: "j < length (table_rows e)" and r: "r = table_rows e ! j"
    and info: "info = premium_info_at now e (soa_of (table_rows e)) ep xp j"
  shows "pi_symbol info = en_symbols e ! fst r" "pi_entry_premium info = ep ! j" "pi_exit_premium info = xp ! j"
    "pi_korean_ask info = pd_ask (bp_korean_price (snd r))" "pi_foreign_bid info = pd_bid (bp_foreign_price (snd r))"
    "pi_usdt_rate info = bp_usdt_rate (snd r)" "pi_best_korean_exchange info = bp_korean_ex (snd r)"
    "pi_best_foreign_exchange info = bp_foreign_ex (snd r)" "pi_net_profit_krw info = rm_net_profit_krw (row_metrics e r)"
    "pi_net_edge_pct info = rm_net_edge_pct (row_metrics e r)"
    "pi_entry_signal info \<longleftrightarrow> offer_usable now (snd r) \<and> entry_gate_passes (rm_both_can_fill_target (row_metrics e r))
       (rm_match_qty (row_metrics e r)) (rm_net_edge_pct (row_metrics e r)) (rm_net_profit_krw (row_metrics e r))"
    "pi_exit_signal info \<longleftrightarrow> should_exit (xp ! j)"
proof -
  have "0 < bp_usdt_rate (view_best e (fst r))" "snd r = view_best e (fst r)"
    using nth_mem [OF j] r by (auto simp: table_rows_def)
  then obtain p where "snd r = pair_offer (en_prices e) (en_symbols e ! fst r) (en_foreign_symbols e ! fst r) p"
    "pair_priced (en_prices e) (en_symbols e ! fst r) (en_foreign_symbols e ! fst r) p"
    using view_best_offer by metis
  then have v: "pd_valid (bp_korean_price (snd r))" "pd_valid (bp_foreign_price (snd r))"
    by (simp_all add: pair_offer_def pair_priced_def Let_def)
  note defs = info premium_info_at_def soa_of_def Let_def row_metrics_def pair_metrics_def
  show "pi_entry_signal info \<longleftrightarrow> offer_usable now (snd r) \<and> entry_gate_passes (rm_both_can_fill_target (row_metrics e r))
       (rm_match_qty (row_metrics e r)) (rm_net_edge_pct (row_metrics e r)) (rm_net_profit_krw (row_metrics e r))"
    using j usable_of_copy [OF v] by (simp add: defs r entry_gate_passes_def offer_usable_def conj_assoc)
qed (use j in \<open>simp_all add: info premium_info_at_def soa_of_def Let_def row_metrics_def pair_metrics_def r should_exit_def\<close>)

lemma batch_without_neon:
  assumes "build \<noteq> Neon"
  shows "calculate_batch build k f u n = calculate_batch_scalar k f u n"
  using assms by (cases build) (auto simp: calculate_batch_avx2_def intro!: batch_loop_scalar avx2_block_scalar)

lemma view_best_premium:
  assumes "0 < bp_usdt_rate (view_best e i)"
  shows "calculate_scalar k (pd_bid (bp_foreign_price (view_best e i))) (bp_usdt_rate (view_best e i)) =
    calculate_entry_premium k (pd_bid (bp_foreign_price (view_best e i))) (bp_usdt_rate (view_best e i))"
  using view_best_offer [OF assms]
  by (auto simp: pair_offer_def pair_priced_def calculate_scalar_def calculate_entry_premium_def Let_def)

text \<open>The premium table, collected into parallel arrays and priced in one batch, is the table
  computed row by row: one row for every symbol with a priced route, in the order of the monitored
  symbols, with the entry premium of the engine's calculator, the exit premium of the scalar
  formula and the relay metrics of the quotes of that row's own pair.\<close>

lemma premium_table_by_symbol:
  assumes "build \<noteq> Neon"
  shows "map (\<lambda>r. (pi_symbol r, pi_entry_premium r, pi_exit_premium r, pi_net_profit_krw r, pi_exit_signal r))
      (get_all_premiums build now e) =
    map (\<lambda>i. let b = view_best e i;
            x = calculate_scalar (pd_bid (bp_korean_price b)) (pd_ask (bp_foreign_price b)) (bp_usdt_rate b)
        in (en_symbols e ! i,
            calculate_entry_premium (pd_ask (bp_korean_price b)) (pd_bid (bp_foreign_price b)) (bp_usdt_rate b),
            x, rm_net_profit_krw (row_metrics e (i, b)), should_exit x))
      (filter (\<lambda>i. 0 < bp_usdt_rate (view_best e i)) [0..<length (en_symbols e)])" (is "?l = ?r")
proof (rule nth_equalityI)
  have len: "length (get_all_premiums build now e) = length (table_rows e)"
    by (simp add: get_all_premiums_rows Let_def)
  then show "length ?l = length ?r" by (simp add: table_rows_def)
  fix j assume "j < length ?l"
  then have j: "j < length (table_rows e)" using len by simp
  note batch = batch_without_neon [OF assms]
  show "?l ! j = ?r ! j"
    using j len view_best_premium nth_mem [of j "filter (\<lambda>i. 0 < bp_usdt_rate (view_best e i)) [0..<length (en_symbols e)]"]
    by (simp add: get_all_premiums_rows Let_def row_fields [OF j refl refl] batch calculate_batch_scalar_def soa_of_sel)
      (simp add: table_rows_def)
qed

text \<open>C36. What the monitor marks as an entry is what the engine would enter: when a row of the
  premium table shows an entry signal with a finite profit and every pair is enabled, then
  refreshing the entry cache of that row's symbol at the same moment qualifies it, for the same
  pair of venues, with the same quotes and the same projected profit.\<close>

theorem monitor_signal_tradable:
  assumes inv: "engine_invar e" and "\<forall>p \<in> set (en_pairs e). xp_entry_enabled p"
    and info: "info \<in> set (get_all_premiums build now e)" "pi_entry_signal info" "isfinite (pi_net_profit_krw info)"
  shows "\<exists>i < length (en_symbols e). pi_symbol info = en_symbols e ! i \<and>
    (let c = en_entry_cache (update_symbol_entry now i e) ! i
     in ce_qualified c \<and> ce_best_korean_exchange c = pi_best_korean_exchange info \<and>
        ce_best_foreign_exchange c = pi_best_foreign_exchange info \<and> ce_korean_ask c = pi_korean_ask info \<and>
        ce_foreign_bid c = pi_foreign_bid info \<and> ce_usdt_rate c = pi_usdt_rate info \<and>
        ce_net_edge_pct c = pi_net_edge_pct info \<and> ce_net_profit_krw c = pi_net_profit_krw info)"
proof -
  obtain j ep xp where j: "j < length (table_rows e)"
    and at: "info = premium_info_at now e (soa_of (table_rows e)) ep xp j"
    using info(1) by (auto simp: get_all_premiums_rows Let_def)
  obtain i b where r: "table_rows e ! j = (i, b)" by (cases "table_rows e ! j")
  note f = row_fields [OF j refl at, unfolded r fst_conv snd_conv]
  have i: "i < length (en_symbols e)" and b: "b = view_best e i" "0 < bp_usdt_rate b"
    using nth_mem [OF j] r by (auto simp: table_rows_def)
  obtain p where p: "b = pair_offer (en_prices e) (en_symbols e ! i) (en_foreign_symbols e ! i) p"
    "pair_priced (en_prices e) (en_symbols e ! i) (en_foreign_symbols e ! i) p"
    using view_best_offer b by metis
  then have "bp_net_profit b = rm_net_profit_krw (row_metrics e (i, b))"
    by (simp add: pair_offer_def row_metrics_def Let_def)
  then have best: "en_pairs e \<noteq> []" "best_pair_of now i e = b"
    using view_best_engine [OF assms(2) b] info(2,3) f(9,11) by auto
  have "i < length (en_entry_cache e)"
    using inv i by (auto simp: engine_invar_def index_wf_def bits_wf_def)
  then have "en_entry_cache (update_symbol_entry now i e) ! i =
      refreshed_entry (en_prices e) (en_symbols e ! i) b (en_entry_cache e ! i)"
    using i best b(2) by (simp add: update_symbol_entry_def Let_def dbl_pos_iff)
  moreover have "pair_metrics (en_prices e) (bp_korean_ex b) (bp_foreign_ex b) (get_base (en_symbols e ! i))
      (bp_korean_price b) (bp_foreign_price b) (bp_usdt_rate b) = row_metrics e (i, b)"
    by (simp add: row_metrics_def)
  ultimately show ?thesis using i f info(2) by (auto simp: refreshed_entry_def Let_def)
qed

section \<open>The blocked symbols\<close>

text \<open>Why a pair does not serve a symbol, as the scan classifies it.\<close>

datatype route_class = Open | Missing | WithdrawOff | DepositOff | NoShared

definition route_class_of :: "price_cache \<Rightarrow> symbol_id \<Rightarrow> exchange_pair \<Rightarrow> route_class" where
  "route_class_of c symbol pair =
    (case get_transfer_route c (xp_korean pair) (xp_foreign pair) (get_base symbol) of
       None \<Rightarrow> Missing
     | Some route \<Rightarrow> if tr_available route then Open else if \<not> tr_withdraw_open route then WithdrawOff
         else if \<not> tr_deposit_open route then DepositOff else NoShared)"

lemma route_open_iff:
  "route_class_of c s p = Open \<longleftrightarrow> is_transfer_route_available c (xp_korean p) (xp_foreign p) (get_base s)"
  by (auto simp: route_class_of_def is_transfer_route_available_def get_transfer_route_def split: option.splits)

text \<open>A scan that meets no open route counts every class and remembers the first pair of it.\<close>

definition first_info :: "price_cache \<Rightarrow> symbol_id \<Rightarrow> exchange_pair list \<Rightarrow> route_class \<Rightarrow> string \<Rightarrow> transfer_block_info option" where
  "first_info c s ps k reason = map_option (\<lambda>p. block_info s p reason) (find (\<lambda>p. route_class_of c s p = k) ps)"

definition class_count :: "price_cache \<Rightarrow> symbol_id \<Rightarrow> exchange_pair list \<Rightarrow> route_class \<Rightarrow> nat" where
  "class_count c s ps k = length (filter (\<lambda>p. route_class_of c s p = k) ps)"

definition or_else :: "'a option \<Rightarrow> 'a option \<Rightarrow> 'a option" where
  "or_else a b = (case a of None \<Rightarrow> b | Some x \<Rightarrow> Some x)"

lemma or_else_simps [simp]: "or_else None b = b" "or_else (Some x) b = Some x" "or_else a None = a"
  "or_else (keep_first a x) b = or_else a (Some x)"
  by (simp_all add: or_else_def keep_first_def split: option.splits)

lemma scan_routes_open:
  "bk_any_available (scan_routes c s ps b) \<longleftrightarrow> bk_any_available b \<or> (\<exists>p \<in> set ps. route_class_of c s p = Open)"
  by (induction ps arbitrary: b) (auto simp: route_class_of_def split: option.splits if_splits)

definition scan_result :: "price_cache \<Rightarrow> symbol_id \<Rightarrow> exchange_pair list \<Rightarrow> block_scan \<Rightarrow> block_scan" where
  "scan_result c s ps b = b\<lparr>
     bk_missing_count := bk_missing_count b + class_count c s ps Missing,
     bk_withdraw_blocked_count := bk_withdraw_blocked_count b + class_count c s ps WithdrawOff,
     bk_deposit_blocked_count := bk_deposit_blocked_count b + class_count c s ps DepositOff,
     bk_no_shared_count := bk_no_shared_count b + class_count c s ps NoShared,
     bk_missing_info := or_else (bk_missing_info b) (first_info c s ps Missing ''route data missing''),
     bk_withdraw_info := or_else (bk_withdraw_info b) (first_info c s ps WithdrawOff ''KR withdraw off''),
     bk_deposit_info := or_else (bk_deposit_info b) (first_info c s ps DepositOff ''Foreign deposit off''),
     bk_no_shared_info := or_else (bk_no_shared_info b) (first_info c s ps NoShared ''no shared network'')\<rparr>"

lemma class_cons:
  "class_count c s (p # ps) k = (if route_class_of c s p = k then 1 else 0) + class_count c s ps k"
  "first_info c s (p # ps) k reason =
    (if route_class_of c s p = k then Some (block_info s p reason) else first_info c s ps k reason)"
  by (simp_all add: class_count_def first_info_def)

lemma route_class_route:
  "route_class_of c s p = Missing \<Longrightarrow> get_transfer_route c (xp_korean p) (xp_foreign p) (get_base s) = None"
  "route_class_of c s p \<noteq> Missing \<Longrightarrow> route_class_of c s p \<noteq> Open \<Longrightarrow>
    \<exists>r. get_transfer_route c (xp_korean p) (xp_foreign p) (get_base s) = Some r \<and> \<not> tr_available r \<and>
      tr_withdraw_open r = (route_class_of c s p \<noteq> WithdrawOff) \<and>
      (tr_withdraw_open r \<longrightarrow> tr_deposit_open r = (route_class_of c s p = NoShared))"
  by (auto simp: route_class_of_def split: option.splits if_splits)

lemma scan_routes_blocked:
  "\<forall>p \<in> set ps. route_class_of c s p \<noteq> Open \<Longrightarrow> scan_routes c s ps b = scan_result c s ps b"
proof (induction ps arbitrary: b)
  case (Cons p ps)
  then have IH: "scan_routes c s ps b' = scan_result c s ps b'" for b' by simp
  show ?case
  proof (cases "route_class_of c s p = Missing")
    case True
    then show ?thesis by (simp add: route_class_route(1) IH scan_result_def class_cons)
  next
    case False
    moreover have "route_class_of c s p \<noteq> Open" using Cons.prems by simp
    ultimately obtain r where "get_transfer_route c (xp_korean p) (xp_foreign p) (get_base s) = Some r" "\<not> tr_available r"
      "tr_withdraw_open r = (route_class_of c s p \<noteq> WithdrawOff)"
      "tr_withdraw_open r \<longrightarrow> tr_deposit_open r = (route_class_of c s p = NoShared)"
      using route_class_route(2) by blast
    then show ?thesis
      using False \<open>route_class_of c s p \<noteq> Open\<close>
      by (cases "route_class_of c s p") (simp_all add: IH scan_result_def class_cons)
  qed
qed (simp add: scan_result_def class_count_def first_info_def)

lemma class_count_all: "class_count c s ps k = length ps \<longleftrightarrow> (\<forall>p \<in> set ps. route_class_of c s p = k)"
proof
  assume "class_count c s ps k = length ps"
  then show "\<forall>p \<in> set ps. route_class_of c s p = k"
    unfolding class_count_def using length_filter_less [of _ ps "\<lambda>p. route_class_of c s p = k"] by fastforce
qed (simp add: class_count_def)

lemma first_info_cases:
  "first_info c s ps k reason = None \<and> (\<forall>p \<in> set ps. route_class_of c s p \<noteq> k) \<or>
   (\<exists>p \<in> set ps. route_class_of c s p = k \<and> first_info c s ps k reason = Some (block_info s p reason))"
proof (induction ps)
  case (Cons p ps)
  then show ?case by (cases "route_class_of c s p = k") (auto simp: class_cons)
qed (simp add: first_info_def)

text \<open>The reason of a verdict names a class exactly when all pairs are of that class.\<close>

definition reason_exact :: "price_cache \<Rightarrow> symbol_id \<Rightarrow> exchange_pair list \<Rightarrow> string \<Rightarrow> bool" where
  "reason_exact c s ps reason \<longleftrightarrow>
     (reason = ''KR withdraw off'' \<longleftrightarrow> (\<forall>p \<in> set ps. route_class_of c s p = WithdrawOff)) \<and>
     (reason = ''Foreign deposit off'' \<longleftrightarrow> (\<forall>p \<in> set ps. route_class_of c s p = DepositOff)) \<and>
     (reason = ''no shared network'' \<longleftrightarrow> (\<forall>p \<in> set ps. route_class_of c s p = NoShared)) \<and>
     (reason = ''route data missing'' \<longleftrightarrow> (\<forall>p \<in> set ps. route_class_of c s p = Missing))"

lemma block_info_reason [simp]: "block_info s p r\<lparr>tb_reason := r'\<rparr> = block_info s p r'"
  by (simp add: block_info_def)

text \<open>A split of the verdict: the unanimous reasons, and the mixed ones by rank.\<close>

definition mixed_verdict :: "price_cache \<Rightarrow> symbol_id \<Rightarrow> exchange_pair list \<Rightarrow> transfer_block_info option" where
  "mixed_verdict c s ps =
    (case first_info c s ps WithdrawOff ''KR withdraw off'' of
       Some x \<Rightarrow> Some (x\<lparr>tb_reason := ''no live route (KR withdraw off mixed)''\<rparr>)
     | None \<Rightarrow> (case first_info c s ps DepositOff ''Foreign deposit off'' of
       Some x \<Rightarrow> Some (x\<lparr>tb_reason := ''no live route (Foreign deposit off mixed)''\<rparr>)
     | None \<Rightarrow> (case first_info c s ps NoShared ''no shared network'' of
       Some x \<Rightarrow> Some (x\<lparr>tb_reason := ''no live route (shared net none)''\<rparr>)
     | None \<Rightarrow> first_info c s ps Missing ''route data missing'')))"

lemma verdict_of_classes:
  assumes "ps \<noteq> []" "\<forall>p \<in> set ps. route_class_of c s p \<noteq> Open"
  shows "block_verdict (length ps) (scan_routes c s ps block_scan_init) =
    (if \<forall>p \<in> set ps. route_class_of c s p = WithdrawOff then first_info c s ps WithdrawOff ''KR withdraw off''
     else if \<forall>p \<in> set ps. route_class_of c s p = DepositOff then first_info c s ps DepositOff ''Foreign deposit off''
     else if \<forall>p \<in> set ps. route_class_of c s p = NoShared then first_info c s ps NoShared ''no shared network''
     else if \<forall>p \<in> set ps. route_class_of c s p = Missing then first_info c s ps Missing ''route data missing''
     else mixed_verdict c s ps)"
proof -
  obtain q where "q \<in> set ps" using assms(1) by (cases ps) auto
  then have "(class_count c s ps k = length ps \<and> (\<exists>x. first_info c s ps k r = Some x)) =
      (\<forall>p \<in> set ps. route_class_of c s p = k)" for k r
    using first_info_cases [of c s ps k r] by (auto simp: class_count_all)
  then show ?thesis
    unfolding block_verdict_def scan_routes_blocked [OF assms(2)] scan_result_def mixed_verdict_def
    using assms(1) by (simp add: block_scan_init_def cong: option.case_cong)
qed

lemma mixed_verdict_reason:
  assumes "\<forall>p \<in> set ps. route_class_of c s p \<noteq> Open" "\<not> (\<forall>p \<in> set ps. route_class_of c s p = Missing)"
  shows "\<exists>p \<in> set ps. \<exists>reason \<in> {''no live route (KR withdraw off mixed)'', ''no live route (Foreign deposit off mixed)'',
    ''no live route (shared net none)''}. mixed_verdict c s ps = Some (block_info s p reason)"
proof -
  let ?w = "first_info c s ps WithdrawOff ''KR withdraw off''" and ?d = "first_info c s ps DepositOff ''Foreign deposit off''"
    and ?n = "first_info c s ps NoShared ''no shared network''"
  have "\<exists>p \<in> set ps. route_class_of c s p \<in> {WithdrawOff, DepositOff, NoShared}"
    using assms route_class.exhaust by blast
  then have some: "?w \<noteq> None \<or> ?d \<noteq> None \<or> ?n \<noteq> None"
    using first_info_cases [of c s ps WithdrawOff "''KR withdraw off''"]
      first_info_cases [of c s ps DepositOff "''Foreign deposit off''"]
      first_info_cases [of c s ps NoShared "''no shared network''"] by blast
  have info: "first_info c s ps k r = Some x \<Longrightarrow> \<exists>p \<in> set ps. x = block_info s p r" for k r x
    using first_info_cases [of c s ps k r] by fastforce
  show ?thesis unfolding mixed_verdict_def using some by (cases ?w; cases ?d; cases ?n) (auto dest!: info)
qed

lemma verdict_of_scan:
  assumes "ps \<noteq> []" "\<forall>p \<in> set ps. route_class_of c s p \<noteq> Open"
  shows "\<exists>p \<in> set ps. \<exists>reason. block_verdict (length ps) (scan_routes c s ps block_scan_init) = Some (block_info s p reason) \<and>
    reason_exact c s ps reason"
proof (cases "\<exists>k. \<forall>p \<in> set ps. route_class_of c s p = k")
  case True
  then obtain k where k: "\<forall>p \<in> set ps. route_class_of c s p = k" by blast
  obtain q where q: "q \<in> set ps" using assms(1) by (cases ps) auto
  then have "\<exists>p \<in> set ps. first_info c s ps k r = Some (block_info s p r)" for r
    using first_info_cases [of c s ps k r] k by auto
  moreover have "k \<noteq> Open" using k q assms(2) by auto
  ultimately show ?thesis
    using k q by (cases k) (auto simp: verdict_of_classes [OF assms] reason_exact_def)
next
  case False
  then have no: "\<not> (\<forall>p \<in> set ps. route_class_of c s p = k)" for k by blast
  then have v: "block_verdict (length ps) (scan_routes c s ps block_scan_init) = mixed_verdict c s ps"
    unfolding verdict_of_classes [OF assms] by (simp only: no if_False)
  have "reason_exact c s ps reason" if "reason \<in> {''no live route (KR withdraw off mixed)'',
      ''no live route (Foreign deposit off mixed)'', ''no live route (shared net none)''}" for reason
    using no that by (auto simp: reason_exact_def)
  then show ?thesis using mixed_verdict_reason [OF assms(2) no] unfolding v by blast
qed

definition route_blocked :: "engine \<Rightarrow> symbol_id \<Rightarrow> bool" where
  "route_blocked e s \<longleftrightarrow> en_pairs e \<noteq> [] \<and>
     (\<forall>p \<in> set (en_pairs e). \<not> is_transfer_route_available (en_prices e) (xp_korean p) (xp_foreign p) (get_base s))"

lemma verdict_none:
  "block_verdict (length (en_pairs e)) (scan_routes (en_prices e) s (en_pairs e) block_scan_init) = None \<longleftrightarrow> \<not> route_blocked e s"
proof (cases "route_blocked e s")
  case True
  then show ?thesis using verdict_of_scan [of "en_pairs e" "en_prices e" s] by (auto simp: route_blocked_def route_open_iff)
next
  case False
  then show ?thesis
    using scan_routes_open [of "en_prices e" s "en_pairs e" block_scan_init]
    by (auto simp: route_blocked_def route_open_iff block_verdict_def)
qed

interpretation names: comparator "\<lambda>a b. symbol_to_string (tb_symbol a) < symbol_to_string (tb_symbol b)" "\<lambda>_. True"
  by unfold_locales auto

lemma sort_by_name_sorted:
  "sorted (map (\<lambda>x. symbol_to_string (tb_symbol x))
     (sort_by (\<lambda>a b. symbol_to_string (tb_symbol a) < symbol_to_string (tb_symbol b)) xs))"
  using names.sort_no_inversion [of xs] by (simp add: sorted_wrt_map not_less)

text \<open>The list of blocked symbols is exact: it holds, once for each time it is monitored and
  sorted by name, every symbol that no configured pair serves by an open transfer route, and no
  other symbol; each entry names a configured pair, and its reason names a single cause exactly
  when that cause holds for every pair.\<close>

lemma blocked_symbols_exact:
  "sorted (map (\<lambda>x. symbol_to_string (tb_symbol x)) (get_transfer_blocked_symbols e)) \<and>
   mset (map tb_symbol (get_transfer_blocked_symbols e)) = mset (filter (route_blocked e) (en_symbols e)) \<and>
   (\<forall>x \<in> set (get_transfer_blocked_symbols e).
      (\<exists>p \<in> set (en_pairs e). tb_korean_exchange x = xp_korean p \<and> tb_foreign_exchange x = xp_foreign p) \<and>
      reason_exact (en_prices e) (tb_symbol x) (en_pairs e) (tb_reason x))"
proof -
  define v where "v s = block_verdict (length (en_pairs e)) (scan_routes (en_prices e) s (en_pairs e) block_scan_init)" for s
  have list: "mset (get_transfer_blocked_symbols e) = mset (map (\<lambda>s. the (v s)) (filter (route_blocked e) (en_symbols e)))"
    using verdict_none [of e] by (simp add: get_transfer_blocked_symbols_def List.map_filter_def v_def comp_def)
  have info: "\<exists>p \<in> set (en_pairs e). \<exists>reason. the (v s) = block_info s p reason \<and> reason_exact (en_prices e) s (en_pairs e) reason"
    if "route_blocked e s" for s
    using that verdict_of_scan [of "en_pairs e" "en_prices e" s]
    unfolding route_blocked_def route_open_iff v_def by (metis option.sel)
  then have sym: "tb_symbol (the (v s)) = s" if "route_blocked e s" for s
    using that by (force simp: block_info_def)
  have "mset (map tb_symbol (get_transfer_blocked_symbols e)) = image_mset (\<lambda>s. tb_symbol (the (v s))) (mset (filter (route_blocked e) (en_symbols e)))"
    by (simp add: list image_mset.compositionality comp_def)
  also have "\<dots> = mset (filter (route_blocked e) (en_symbols e))"
    using sym by (subst image_mset_cong [where g = id]) auto
  moreover have "set (get_transfer_blocked_symbols e) = (\<lambda>s. the (v s)) ` {s \<in> set (en_symbols e). route_blocked e s}"
    using mset_eq_setD [OF list] by simp
  moreover have "sorted (map (\<lambda>x. symbol_to_string (tb_symbol x)) (get_transfer_blocked_symbols e))"
    unfolding get_transfer_blocked_symbols_def by (rule sort_by_name_sorted)
  ultimately show ?thesis using info by (fastforce simp: block_info_def)
qed

end
