(* ===== verification/MonitorRun.thy ===== *)
theory MonitorRun
  imports Monitor EngineGuards EngineRun
begin

text \<open>
  The views and guards of the engine at concrete states: the premium table of the state in which
  the demo symbol qualifies, an exit scan that fires on an open position, and a list of blocked
  symbols before any fee data has arrived.
\<close>

section \<open>The premium table of the demo engine\<close>

lemma demo_ready_pairs:
  "en_pairs demo_ready = [\<lparr>xp_korean = Bithumb, xp_foreign = Bybit, xp_entry_enabled = True\<rparr>]"
  "en_prices demo_ready = quotes_of korean_tick demo_prices" "en_foreign_symbols demo_ready = [demo_foreign]"
  by (simp_all add: demo_ready_def demo_engine_def)

lemma demo_rate_price: "get_usdt_krw demo_prices Bithumb = Fin 1480"
  by (simp add: demo_prices_def) (simp add: get_usdt_krw_def update_usdt_krw_def)

lemma demo_view_best: "view_best demo_ready 0 = best_pair_of 100 0 demo_ready"
proof -
  have route: "is_transfer_route_available (quotes_of korean_tick demo_prices) Bithumb Bybit ''USDC''"
    by (simp add: demo_prices_def demo_cache_available)
  show ?thesis unfolding demo_best
    using demo_pair_metrics demo_profit demo_rate_price route
    by (simp add: view_best_def demo_ready_pairs demo_fields view_pair_def Let_def demo_symbols view_init_def best_pair_init_def
        demo_quotes zero_dbl_def)
qed

lemma demo_table: "table_rows demo_ready = [(0, best_pair_of 100 0 demo_ready)]"
  by (simp add: table_rows_def demo_fields demo_view_best demo_best zero_dbl_def)

lemma demo_profit_finite: "isfinite (rm_net_profit_krw demo_metrics)"
  by (simp add: demo_metrics_def gate_eval cong: let_weak_cong)

theorem monitor_signal_tradable_witness:
  "\<exists>info \<in> set (get_all_premiums Avx2 100 demo_ready). pi_entry_signal info \<and> pi_symbol info = demo_symbol \<and>
    ce_qualified (en_entry_cache (update_symbol_entry 100 0 demo_ready) ! 0) \<and>
    ce_net_profit_krw (en_entry_cache (update_symbol_entry 100 0 demo_ready) ! 0) = pi_net_profit_krw info"
proof -
  let ?t = "get_all_premiums Avx2 100 demo_ready"
  have t: "length ?t = 1" and j: "0 < length (table_rows demo_ready)" by (simp_all add: get_all_premiums_rows demo_table Let_def)
  define info where "info = ?t ! 0"
  have mem: "info \<in> set ?t" unfolding info_def using t by (intro nth_mem) simp
  obtain ep xp where at: "info = premium_info_at 100 demo_ready (soa_of (table_rows demo_ready)) ep xp 0"
    unfolding info_def get_all_premiums_rows by (simp add: demo_table Let_def)
  have m: "row_metrics demo_ready (0, best_pair_of 100 0 demo_ready) = demo_metrics"
    using demo_pair_metrics by (simp add: row_metrics_def demo_best demo_ready_pairs demo_fields demo_symbols)
  note f = row_fields [OF j refl at, unfolded demo_table]
  have sig: "pi_entry_signal info" "isfinite (pi_net_profit_krw info)" "pi_symbol info = demo_symbol"
    using f demo_gate demo_usable demo_profit_finite m [unfolded demo_best] by (simp_all add: offer_usable_def demo_best demo_fields)
  from monitor_signal_tradable [OF demo_ready_invar _ mem sig(1,2)] sig mem show ?thesis
    by (auto simp: demo_ready_pairs demo_fields Let_def)
qed

section \<open>An exit scan\<close>

definition late_tick :: ticker where
  "late_tick = korean_tick\<lparr>tk_bid := Fin 1500, tk_ask := Fin 1500, tk_last := Fin 1500\<rparr>"

definition late_position :: position where
  "late_position = position_default\<lparr>pos_symbol := demo_symbol, pos_korean_exchange := Bithumb, pos_foreign_exchange := Bybit,
     pos_entry_premium := Fin (- 5)\<rparr>"

definition late_engine :: engine where
  "late_engine = engine_open_position late_position (demo_engine\<lparr>en_prices := quotes_of late_tick demo_prices\<rparr>)"

lemma late_invar: "engine_invar late_engine"
proof -
  have tr: "en_tracker demo_engine = position_tracker_init"
    by (simp add: demo_engine_def demo_quoted_def demo_rate_def demo_fees_def engine_init_def)
  have "engine_invar (demo_engine\<lparr>en_prices := quotes_of late_tick demo_prices\<rparr>)"
    by (intro set_prices_invar reachable_invar [OF demo_engine_reachable]) (simp add: quotes_of_def pc_update_invar demo_prices_invar)
  then show ?thesis
    using engine_step_invar [of "demo_engine\<lparr>en_prices := quotes_of late_tick demo_prices\<rparr>" 1 "OpenPosition late_position"]
    by (simp add: late_engine_def)
qed

lemma late_quotes:
  "get_price (quotes_of late_tick demo_prices) Bithumb demo_symbol =
     \<lparr>pd_bid = Fin 1500, pd_ask = Fin 1500, pd_bid_qty = Fin 40, pd_ask_qty = Fin 40, pd_last = Fin 1500, pd_timestamp = 90, pd_valid = True\<rparr>"
  "get_price (quotes_of late_tick demo_prices) Bybit demo_foreign =
     \<lparr>pd_bid = Fin 1, pd_ask = Fin 1, pd_bid_qty = Fin 50, pd_ask_qty = Fin 50, pd_last = Fin 1, pd_timestamp = 90, pd_valid = True\<rparr>"
proof -
  have inv: "pc_invar (update_usdt_krw Bithumb (Fin 1480) (finalize_withdraw_fees 0 demo_cache))" by (simp add: demo_cache_invar)
  have f: "pc_get demo_prices p = (if p = (Bybit, demo_foreign) then Some
        \<lparr>pe_bid = Fin 1, pe_ask = Fin 1, pe_bid_qty = Fin 50, pe_ask_qty = Fin 50, pe_last = Fin 1, pe_timestamp = 90\<rparr> else None)" for p
    unfolding demo_prices_def quotes_of_def pc_update_get [OF inv] by (simp add: foreign_tick_def pc_merge_def)
  show "get_price (quotes_of late_tick demo_prices) Bithumb demo_symbol =
     \<lparr>pd_bid = Fin 1500, pd_ask = Fin 1500, pd_bid_qty = Fin 40, pd_ask_qty = Fin 40, pd_last = Fin 1500, pd_timestamp = 90, pd_valid = True\<rparr>"
    "get_price (quotes_of late_tick demo_prices) Bybit demo_foreign =
     \<lparr>pd_bid = Fin 1, pd_ask = Fin 1, pd_bid_qty = Fin 50, pd_ask_qty = Fin 50, pd_last = Fin 1, pd_timestamp = 90, pd_valid = True\<rparr>"
    unfolding get_price_entry quotes_of_def [of late_tick] pc_update_get [OF demo_prices_invar]
    by (simp_all add: late_tick_def korean_tick_def f pc_merge_def)
qed

lemma late_active: "active_positions late_engine = [late_position]"
proof -
  have "en_tracker demo_engine = position_tracker_init"
    by (simp add: demo_engine_def demo_quoted_def demo_rate_def demo_fees_def engine_init_def)
  then show ?thesis
    by (simp add: active_positions_def late_engine_def engine_open_position_def open_position_def position_tracker_init_def
        TRACKER_SLOTS_def position_slot_default_def numeral_eq_Suc)
qed

lemma late_exit:
  "\<exists>s. position_exit 100 late_engine late_position = Some s \<and> xs_premium s \<noteq> NaN \<and> is_double (xs_korean_bid s) \<and>
    pos_entry_premium late_position + DYNAMIC_EXIT_SPREAD \<noteq> NaN"
proof -
  have e: "en_prices late_engine = quotes_of late_tick demo_prices" "foreign_of late_engine demo_symbol = demo_foreign"
    by (simp_all add: late_engine_def engine_open_position_def foreign_of_def demo_engine_def)
  have u: "quote_pair_is_usable 100 (get_price (quotes_of late_tick demo_prices) Bithumb demo_symbol)
      (get_price (quotes_of late_tick demo_prices) Bybit demo_foreign) True"
    by (simp add: late_quotes quote_pair_is_usable_def quote_is_fresh_with_limit_def spread_pct_def cfg dbl_eval cong: let_weak_cong)
  have p: "\<not> calculate_exit_premium (Fin 1500) (Fin 1) (Fin 1480) < dmax (Fin (- 5) + DYNAMIC_EXIT_SPREAD) EXIT_PREMIUM_THRESHOLD"
    "calculate_exit_premium (Fin 1500) (Fin 1) (Fin 1480) \<noteq> NaN" "Fin (- 5) + DYNAMIC_EXIT_SPREAD \<noteq> NaN" "is_double (Fin 1500)"
    by (simp_all add: gate_eval cong: let_weak_cong)
  show ?thesis
    using u p by (simp add: position_exit_def exit_check_def e late_position_def late_quotes demo_rate_price Let_def zero_dbl_def)
qed

theorem exit_scan_exact_witness:
  "\<exists>s. en_exit_calls (check_exit_conditions 100 late_engine) = [s] \<and> xs_symbol s = demo_symbol \<and>
     xs_foreign_ask s * xs_usdt_krw_rate s < xs_korean_bid s"
proof -
  obtain s where s: "position_exit 100 late_engine late_position = Some s" "xs_premium s \<noteq> NaN" "is_double (xs_korean_bid s)"
    "pos_entry_premium late_position + DYNAMIC_EXIT_SPREAD \<noteq> NaN" using late_exit by blast
  have "en_exit_calls late_engine = []"
    by (simp add: late_engine_def engine_open_position_def demo_engine_def demo_quoted_def demo_rate_def demo_fees_def engine_init_def)
  then have "en_exit_calls (check_exit_conditions 100 late_engine) = [s]"
    using exit_scan_exact [OF late_invar, of 100] s(1) by (simp add: late_active List.map_filter_simps)
  moreover have "xs_foreign_ask s * xs_usdt_krw_rate s < xs_korean_bid s \<and> xs_symbol s = pos_symbol late_position"
    using exit_scan_exact [OF late_invar, of 100] s by (simp add: late_active)
  ultimately show ?thesis by (auto simp: late_position_def)
qed

section \<open>Blocked symbols\<close>

definition bare_engine :: engine where
  "bare_engine = add_exchange_pair Bithumb Bybit (add_symbol demo_symbol (engine_init demo_signal demo_exit))"

end
