(* ===== verification/Dispatch.thy ===== *)
theory Dispatch
  imports Executor PriceCache
begin

text \<open>
  The dispatch of lifecycles in \<^verbatim>\<open>src/main.cpp\<close>: the entry callback of the engine with its manual
  confirmation mode, the claim and release of lifecycle slots on the atomic \<^verbatim>\<open>g_active_loops\<close>, the
  lifecycle handler of the executor with its \<^verbatim>\<open>LoopGuard\<close>, and the launch of a recovered position.
  Any number of threads run the callback at once, so each atomic access is one step of one
  thread, and the theorems hold for every interleaving. \<^verbatim>\<open>MAX_POSITIONS\<close> is the argument \<open>m\<close>.
  The answers a thread cannot predict (whether a position exists, what the operator types,
  whether a weak compare-and-exchange fails without reason, what the lifecycle reports) are
  arguments of a step. Console output, logging and latency tracing are left out.
\<close>

section \<open>Console input\<close>

definition normalize_input :: "string \<Rightarrow> string" where
  "normalize_input value = map toupper (trim value)"

definition is_yes_input :: "string \<Rightarrow> bool" where
  "is_yes_input raw = (let v = normalize_input raw in v = ''Y'' \<or> v = ''YES'')"

text \<open>The number of slots the operator chooses; end of input is \<open>None\<close>.\<close>

definition choose_max_positions :: "bool \<Rightarrow> string option \<Rightarrow> int \<Rightarrow> int" where
  "choose_max_positions manual_confirm_once input current =
    (if \<not> manual_confirm_once
     then case input of None \<Rightarrow> current
       | Some line \<Rightarrow> let pos_input = trim line in
           if pos_input = [] then current
           else case stoi pos_input of None \<Rightarrow> current | Some val \<Rightarrow> if 1 \<le> val \<and> val \<le> 4 then val else current
     else 1)"

text \<open>The program starts from \<^verbatim>\<open>MAX_POSITIONS = 1\<close>.\<close>

definition max_positions_setting :: "bool \<Rightarrow> string option \<Rightarrow> int" where
  "max_positions_setting manual_confirm_once input = choose_max_positions manual_confirm_once input 1"

definition lifecycle_options :: "int \<Rightarrow> executor_options" where
  "lifecycle_options m = \<lparr>opt_worker_count = nat (max 1 m), opt_push_spin_count = 512, opt_empty_spin_count = 4096\<rparr>"

section \<open>State\<close>

record lifecycle_task =
  lt_signal :: arbitrage_signal
  lt_initial_position :: "position option"

record dispatch =
  ds_active_loops :: int
  ds_entry_suppressed :: bool
  ds_manual_trade_pending :: bool
  ds_manual_prompt_active :: bool
  ds_shutdown :: bool
  ds_executor :: "lifecycle_task executor"

definition dispatch_init :: "lifecycle_task executor \<Rightarrow> dispatch" where
  "dispatch_init e = \<lparr>ds_active_loops = 0, ds_entry_suppressed = False, ds_manual_trade_pending = False,
     ds_manual_prompt_active = False, ds_shutdown = False, ds_executor = e\<rparr>"

text \<open>Where a thread stands in the entry callback, or in the launch of a recovered position.\<close>

datatype entry_pc =
    CheckExisting
  | CheckPending
  | ClaimPrompt
  | PromptSuppress
  | AwaitAnswer
  | DeclineUnsuppress
  | DeclineRelease
  | ApprovePending
  | ApproveRelease
  | LoadLoops
  | TryClaim int
  | SuppressIfFull int
  | EnqueueTask
  | ReleaseSlot
  | ReleaseUnsuppress int
  | FailPending
  | FailPrompt
  | FailUnsuppress
  | EntryDone

record entry_thread =
  et_pc :: entry_pc
  et_task :: lifecycle_task
  et_recovery :: bool

text \<open>Where a worker stands in the lifecycle handler.\<close>

datatype worker_pc =
    WorkerIdle
  | LifecycleRun lifecycle_task
  | RetryPending
  | RetryUnsuppress
  | GuardRelease
  | GuardUnsuppress int

datatype lifecycle_event = CriticalStop | TradeComplete | Finished bool

section \<open>Steps of one thread\<close>

definition goto :: "entry_pc \<Rightarrow> entry_thread \<Rightarrow> entry_thread" where
  "goto pc t = t\<lparr>et_pc := pc\<rparr>"

text \<open>The callback ends; in manual mode a failed attempt first gives back its flags.\<close>

definition entry_failed :: "bool \<Rightarrow> entry_thread \<Rightarrow> entry_thread" where
  "entry_failed manual t = goto (if manual \<and> \<not> et_recovery t then FailPending else EntryDone) t"

text \<open>\<^verbatim>\<open>try_claim_lifecycle_slot\<close>: the loop on the compare-and-exchange, one attempt per step.\<close>

definition try_claim_step :: "bool \<Rightarrow> int \<Rightarrow> bool \<Rightarrow> int \<Rightarrow> entry_thread \<Rightarrow> dispatch \<Rightarrow> entry_thread \<times> dispatch" where
  "try_claim_step manual m spurious current t d =
    (if current < m
     then if ds_active_loops d = current \<and> \<not> spurious
          then (goto (SuppressIfFull current) t, d\<lparr>ds_active_loops := current + 1\<rparr>)
          else (goto (TryClaim (ds_active_loops d)) t, d)
     else (entry_failed manual t, d))"

definition enqueue_step :: "entry_thread \<Rightarrow> dispatch \<Rightarrow> entry_thread \<times> dispatch" where
  "enqueue_step t d =
    (case ex_enqueue (et_task t) (ds_executor d) of
       None \<Rightarrow> (t, d)
     | Some (ok, e) \<Rightarrow> (goto (if ok then EntryDone else ReleaseSlot) t, d\<lparr>ds_executor := e\<rparr>))"

text \<open>\<^verbatim>\<open>release_claimed_lifecycle_slot\<close>, and what follows a release.\<close>

definition lift_suppression :: "int \<Rightarrow> int \<Rightarrow> dispatch \<Rightarrow> dispatch" where
  "lift_suppression m remaining d = (if remaining < m then d\<lparr>ds_entry_suppressed := False\<rparr> else d)"

definition release_slot :: "entry_thread \<Rightarrow> dispatch \<Rightarrow> entry_thread \<times> dispatch" where
  "release_slot t d =
    (let remaining = ds_active_loops d - 1 in (goto (ReleaseUnsuppress remaining) t, d\<lparr>ds_active_loops := remaining\<rparr>))"

definition entry_step :: "bool \<Rightarrow> int \<Rightarrow> bool \<Rightarrow> entry_thread \<Rightarrow> dispatch \<Rightarrow> entry_thread \<times> dispatch" where
  "entry_step manual m answer t d =
    (case et_pc t of
       CheckExisting \<Rightarrow> (goto (if answer then EntryDone else if manual then CheckPending else LoadLoops) t, d)
     | CheckPending \<Rightarrow> (goto (if ds_manual_trade_pending d then EntryDone else ClaimPrompt) t, d)
     | ClaimPrompt \<Rightarrow>
         if ds_manual_prompt_active d then (goto EntryDone t, d)
         else (goto PromptSuppress t, d\<lparr>ds_manual_prompt_active := True\<rparr>)
     | PromptSuppress \<Rightarrow> (goto AwaitAnswer t, d\<lparr>ds_entry_suppressed := True\<rparr>)
     | AwaitAnswer \<Rightarrow> (goto (if answer then ApprovePending else DeclineUnsuppress) t, d)
     | DeclineUnsuppress \<Rightarrow> (goto DeclineRelease t, d\<lparr>ds_entry_suppressed := False\<rparr>)
     | DeclineRelease \<Rightarrow> (goto EntryDone t, d\<lparr>ds_manual_prompt_active := False\<rparr>)
     | ApprovePending \<Rightarrow> (goto ApproveRelease t, d\<lparr>ds_manual_trade_pending := True\<rparr>)
     | ApproveRelease \<Rightarrow> (goto LoadLoops t, d\<lparr>ds_manual_prompt_active := False\<rparr>)
     | LoadLoops \<Rightarrow> (goto (TryClaim (ds_active_loops d)) t, d)
     | TryClaim current \<Rightarrow> try_claim_step manual m answer current t d
     | SuppressIfFull current \<Rightarrow>
         (goto EnqueueTask t, if m \<le> current + 1 then d\<lparr>ds_entry_suppressed := True\<rparr> else d)
     | EnqueueTask \<Rightarrow> enqueue_step t d
     | ReleaseSlot \<Rightarrow> release_slot t d
     | ReleaseUnsuppress remaining \<Rightarrow> (entry_failed manual t, lift_suppression m remaining d)
     | FailPending \<Rightarrow> (goto FailPrompt t, d\<lparr>ds_manual_trade_pending := False\<rparr>)
     | FailPrompt \<Rightarrow> (goto FailUnsuppress t, d\<lparr>ds_manual_prompt_active := False\<rparr>)
     | FailUnsuppress \<Rightarrow> (goto EntryDone t, d\<lparr>ds_entry_suppressed := False\<rparr>)
     | EntryDone \<Rightarrow> (t, d))"

text \<open>The destructor of \<^verbatim>\<open>LoopGuard\<close>.\<close>

definition guard_release :: "dispatch \<Rightarrow> worker_pc \<times> dispatch" where
  "guard_release d =
    (let remaining = ds_active_loops d - 1 in (GuardUnsuppress remaining, d\<lparr>ds_active_loops := remaining\<rparr>))"

definition guard_unsuppress :: "int \<Rightarrow> int \<Rightarrow> dispatch \<Rightarrow> worker_pc \<times> dispatch" where
  "guard_unsuppress m remaining d = (WorkerIdle, lift_suppression m remaining d)"

text \<open>An idle worker tries to take a task off the queue; the handler's body runs in the steps that follow.\<close>

definition take_task :: "nat \<Rightarrow> dispatch \<Rightarrow> worker_pc \<times> dispatch" where
  "take_task w d =
    (case drain_one (\<lambda>task w s. LifecycleRun task) w (ds_executor d, WorkerIdle) of
       None \<Rightarrow> (WorkerIdle, d)
     | Some (ok, e, pc) \<Rightarrow> (pc, d\<lparr>ds_executor := e\<rparr>))"

definition lifecycle_step :: "bool \<Rightarrow> lifecycle_event \<Rightarrow> lifecycle_task \<Rightarrow> dispatch \<Rightarrow> worker_pc \<times> dispatch" where
  "lifecycle_step manual event task d =
    (case event of
       CriticalStop \<Rightarrow> (LifecycleRun task, d\<lparr>ds_entry_suppressed := True\<rparr>)
     | TradeComplete \<Rightarrow> (LifecycleRun task, if manual then d\<lparr>ds_shutdown := True\<rparr> else d)
     | Finished failed_safely \<Rightarrow> (if manual \<and> failed_safely then RetryPending else GuardRelease, d))"

definition worker_step :: "bool \<Rightarrow> int \<Rightarrow> nat \<Rightarrow> lifecycle_event \<Rightarrow> worker_pc \<Rightarrow> dispatch \<Rightarrow> worker_pc \<times> dispatch" where
  "worker_step manual m w event pc d =
    (case pc of
       WorkerIdle \<Rightarrow> take_task w d
     | LifecycleRun task \<Rightarrow> lifecycle_step manual event task d
     | RetryPending \<Rightarrow> (RetryUnsuppress, d\<lparr>ds_manual_trade_pending := False\<rparr>)
     | RetryUnsuppress \<Rightarrow> (GuardRelease, d\<lparr>ds_entry_suppressed := False\<rparr>)
     | GuardRelease \<Rightarrow> guard_release d
     | GuardUnsuppress remaining \<Rightarrow> guard_unsuppress m remaining d)"

lemmas slot_release_defs [simp] = lift_suppression_def release_slot_def [unfolded Let_def]
  guard_release_def [unfolded Let_def] guard_unsuppress_def

section \<open>All threads together\<close>

record system =
  sy_shared :: dispatch
  sy_entries :: "entry_thread list"
  sy_workers :: "worker_pc list"

definition entry_callback :: "arbitrage_signal \<Rightarrow> entry_thread" where
  "entry_callback signal = \<lparr>et_pc = CheckExisting, et_task = \<lparr>lt_signal = signal, lt_initial_position = None\<rparr>, et_recovery = False\<rparr>"

text \<open>The signal that stands in for the entry of a recovered position.\<close>

definition recovery_signal :: "dbl \<Rightarrow> position \<Rightarrow> arbitrage_signal" where
  "recovery_signal usdt_krw rpos = \<lparr>sig_symbol = pos_symbol rpos,
     sig_korean_exchange = pos_korean_exchange rpos, sig_foreign_exchange = pos_foreign_exchange rpos,
     sig_premium = pos_entry_premium rpos, sig_korean_ask = pos_korean_entry_price rpos, sig_korean_ask_qty = 0,
     sig_foreign_bid = pos_foreign_entry_price rpos, sig_foreign_bid_qty = 0, sig_match_qty = 0, sig_target_coin_qty = 0,
     sig_max_tradable_usdt_at_best = 0, sig_gross_edge_pct = 0, sig_net_edge_pct = 0, sig_net_profit_krw = 0,
     sig_both_can_fill_target = False, sig_usdt_krw_rate = usdt_krw\<rparr>"

definition recovery_launch :: "dbl \<Rightarrow> position \<Rightarrow> entry_thread" where
  "recovery_launch usdt_krw rpos = \<lparr>et_pc = LoadLoops,
     et_task = \<lparr>lt_signal = recovery_signal usdt_krw rpos, lt_initial_position = Some rpos\<rparr>, et_recovery = True\<rparr>"

definition step_entry :: "bool \<Rightarrow> int \<Rightarrow> bool \<Rightarrow> nat \<Rightarrow> system \<Rightarrow> system" where
  "step_entry manual m answer i s =
    (case entry_step manual m answer (sy_entries s ! i) (sy_shared s) of
       (t, d) \<Rightarrow> s\<lparr>sy_shared := d, sy_entries := (sy_entries s)[i := t]\<rparr>)"

definition step_worker :: "bool \<Rightarrow> int \<Rightarrow> lifecycle_event \<Rightarrow> nat \<Rightarrow> system \<Rightarrow> system" where
  "step_worker manual m event i s =
    (case worker_step manual m i event (sy_workers s ! i) (sy_shared s) of
       (pc, d) \<Rightarrow> s\<lparr>sy_shared := d, sy_workers := (sy_workers s)[i := pc]\<rparr>)"

inductive system_step :: "bool \<Rightarrow> int \<Rightarrow> system \<Rightarrow> system \<Rightarrow> bool" for manual m where
  callback: "system_step manual m s (s\<lparr>sy_entries := sy_entries s @ [entry_callback signal]\<rparr>)"
| recover: "system_step manual m s (s\<lparr>sy_entries := sy_entries s @ [recovery_launch rate rpos]\<rparr>)"
| entry: "i < length (sy_entries s) \<Longrightarrow> system_step manual m s (step_entry manual m answer i s)"
| worker: "i < length (sy_workers s) \<Longrightarrow> system_step manual m s (step_worker manual m event i s)"

text \<open>The executor is started with one worker per slot, on a queue of 64 cells.\<close>

definition system_init :: "int \<Rightarrow> lifecycle_task \<Rightarrow> system" where
  "system_init m filler =
    (let e = ex_start (lifecycle_options m) (executor_init (replicate 64 filler))
     in \<lparr>sy_shared = dispatch_init e, sy_entries = [], sy_workers = replicate (ex_workers e) WorkerIdle\<rparr>)"

inductive system_reachable :: "bool \<Rightarrow> int \<Rightarrow> system \<Rightarrow> bool" for manual m where
  init: "system_reachable manual m (system_init m filler)"
| step: "system_reachable manual m s \<Longrightarrow> system_step manual m s s' \<Longrightarrow> system_reachable manual m s'"

section \<open>Slots\<close>

text \<open>A thread holds a slot from its claim until it has given it to the queue or released it.\<close>

fun entry_holds :: "entry_pc \<Rightarrow> bool" where
  "entry_holds (SuppressIfFull c) = True"
| "entry_holds EnqueueTask = True"
| "entry_holds ReleaseSlot = True"
| "entry_holds pc = False"

fun worker_holds :: "worker_pc \<Rightarrow> bool" where
  "worker_holds (LifecycleRun t) = True"
| "worker_holds RetryPending = True"
| "worker_holds RetryUnsuppress = True"
| "worker_holds GuardRelease = True"
| "worker_holds pc = False"

definition queued :: "dispatch \<Rightarrow> lifecycle_task list" where
  "queued d = mpmc_content (ex_queue (ds_executor d))"

definition slots_in_use :: "system \<Rightarrow> nat" where
  "slots_in_use s = length (filter (\<lambda>t. entry_holds (et_pc t)) (sy_entries s)) + length (queued (sy_shared s)) +
     length (filter worker_holds (sy_workers s))"

text \<open>The sequential part of the state, which every step of every thread keeps.\<close>

definition dispatch_wf :: "int \<Rightarrow> dispatch \<Rightarrow> bool" where
  "dispatch_wf m d \<longleftrightarrow> ex_invar (ds_executor d) \<and> ex_running (ds_executor d) \<and>
     mpmc_capacity (ex_queue (ds_executor d)) = 64 \<and> ds_active_loops d \<le> m"

text \<open>A thread that is about to lift the suppression has seen fewer lifecycles than slots; only a
  callback in manual mode prompts.\<close>

definition thread_wf :: "bool \<Rightarrow> int \<Rightarrow> entry_thread \<Rightarrow> bool" where
  "thread_wf manual m t \<longleftrightarrow>
    (case et_pc t of
       ReleaseUnsuppress remaining \<Rightarrow> remaining < m
     | CheckExisting \<Rightarrow> \<not> et_recovery t
     | pc \<Rightarrow> pc \<in> {CheckPending, ClaimPrompt, PromptSuppress, AwaitAnswer, ApprovePending, ApproveRelease, DeclineUnsuppress, DeclineRelease}
         \<longrightarrow> manual \<and> \<not> et_recovery t)"

fun worker_pc_wf :: "int \<Rightarrow> worker_pc \<Rightarrow> bool" where
  "worker_pc_wf m (GuardUnsuppress remaining) = (remaining < m)"
| "worker_pc_wf m pc = True"

lemma goto_simps [simp]: "et_pc (goto pc t) = pc" "et_task (goto pc t) = et_task t" "et_recovery (goto pc t) = et_recovery t"
  by (simp_all add: goto_def)

lemma entry_failed_pc [simp]:
  "et_pc (entry_failed manual t) = (if manual \<and> \<not> et_recovery t then FailPending else EntryDone)"
  by (simp add: entry_failed_def)

lemma enqueue_step_spec:
  assumes "dispatch_wf m d" "enqueue_step t d = (t', d')" "et_pc t = EnqueueTask"
  shows "dispatch_wf m d' \<and> ds_active_loops d' = ds_active_loops d \<and> ds_entry_suppressed d' = ds_entry_suppressed d \<and>
    (et_pc t' = EntryDone \<and> queued d' = queued d @ [et_task t] \<or>
     et_pc t' = ReleaseSlot \<and> queued d' = queued d \<and> 64 \<le> length (queued d))"
proof -
  obtain ok e where "ex_enqueue (et_task t) (ds_executor d) = Some (ok, e)" "ex_invar e" "ex_running e"
    "mpmc_content (ex_queue e) = (if ok then queued d @ [et_task t] else queued d)"
    "ok = (length (queued d) < 64)" "mpmc_capacity (ex_queue e) = 64"
    using ex_enqueue_spec [of "ds_executor d" "et_task t"] assms(1) by (auto simp: dispatch_wf_def queued_def)
  then show ?thesis using assms by (auto simp: enqueue_step_def dispatch_wf_def queued_def)
qed

lemma take_task_spec:
  assumes "dispatch_wf m d" "take_task w d = (pc, d')"
  shows "dispatch_wf m d' \<and> ds_active_loops d' = ds_active_loops d \<and> ds_entry_suppressed d' = ds_entry_suppressed d \<and>
    (queued d = [] \<and> queued d' = [] \<and> pc = WorkerIdle \<or> (\<exists>task. queued d = task # queued d' \<and> pc = LifecycleRun task))"
proof -
  obtain e where "drain_one (\<lambda>task w s. LifecycleRun task) w (ds_executor d, WorkerIdle) =
      (case queued d of [] \<Rightarrow> Some (False, e, WorkerIdle) | t # _ \<Rightarrow> Some (True, e, LifecycleRun t))"
    "ex_invar e" "ex_running e" "mpmc_content (ex_queue e) = tl (queued d)" "mpmc_capacity (ex_queue e) = 64"
    using drain_one_spec [of "ds_executor d" "\<lambda>task w s. LifecycleRun task" w WorkerIdle] assms(1)
    by (auto simp: dispatch_wf_def queued_def)
  then show ?thesis using assms by (cases "queued d") (auto simp: take_task_def dispatch_wf_def queued_def)
qed

lemma entry_step_slots:
  assumes "dispatch_wf m d" "thread_wf manual m t" "entry_step manual m a t d = (t', d')"
  shows "dispatch_wf m d'" "thread_wf manual m t'"
    "ds_active_loops d' - ds_active_loops d = int (of_bool (entry_holds (et_pc t'))) - int (of_bool (entry_holds (et_pc t))) +
       (int (length (queued d')) - int (length (queued d)))"
proof -
  have "dispatch_wf m d' \<and> thread_wf manual m t' \<and>
    ds_active_loops d' - ds_active_loops d = int (of_bool (entry_holds (et_pc t'))) - int (of_bool (entry_holds (et_pc t))) +
       (int (length (queued d')) - int (length (queued d)))"
  proof (cases "et_pc t")
    case EnqueueTask
    then show ?thesis using enqueue_step_spec [of m d t t' d'] assms by (auto simp: entry_step_def thread_wf_def)
  next
    case (TryClaim c)
    then show ?thesis
      using assms by (auto simp: entry_step_def try_claim_step_def dispatch_wf_def thread_wf_def queued_def split: if_splits)
  qed (use assms in \<open>auto simp: entry_step_def dispatch_wf_def thread_wf_def queued_def split: if_splits\<close>)
  then show "dispatch_wf m d'" "thread_wf manual m t'"
    "ds_active_loops d' - ds_active_loops d = int (of_bool (entry_holds (et_pc t'))) - int (of_bool (entry_holds (et_pc t))) +
       (int (length (queued d')) - int (length (queued d)))" by blast+
qed

lemma worker_step_slots:
  assumes "dispatch_wf m d" "worker_pc_wf m pc" "worker_step manual m w ev pc d = (pc', d')"
  shows "dispatch_wf m d'" "worker_pc_wf m pc'"
    "ds_active_loops d' - ds_active_loops d = int (of_bool (worker_holds pc')) - int (of_bool (worker_holds pc)) +
       (int (length (queued d')) - int (length (queued d)))"
proof -
  have "dispatch_wf m d' \<and> worker_pc_wf m pc' \<and>
    ds_active_loops d' - ds_active_loops d = int (of_bool (worker_holds pc')) - int (of_bool (worker_holds pc)) +
       (int (length (queued d')) - int (length (queued d)))"
  proof (cases pc)
    case WorkerIdle
    then show ?thesis using take_task_spec [of m d w pc' d'] assms by (auto simp: worker_step_def)
  next
    case (LifecycleRun task)
    then show ?thesis
      using assms by (auto simp: worker_step_def lifecycle_step_def dispatch_wf_def queued_def split: lifecycle_event.splits if_splits)
  qed (use assms in \<open>auto simp: worker_step_def dispatch_wf_def queued_def\<close>)
  then show "dispatch_wf m d'" "worker_pc_wf m pc'"
    "ds_active_loops d' - ds_active_loops d = int (of_bool (worker_holds pc')) - int (of_bool (worker_holds pc)) +
       (int (length (queued d')) - int (length (queued d)))" by blast+
qed

lemma count_update:
  "i < length xs \<Longrightarrow> int (length (filter P (xs[i := y]))) =
    int (length (filter P xs)) + int (of_bool (P y)) - int (of_bool (P (xs ! i)))"
proof (induction xs arbitrary: i)
  case (Cons x xs)
  then show ?case by (cases i) auto
qed simp

definition system_invar :: "bool \<Rightarrow> int \<Rightarrow> system \<Rightarrow> bool" where
  "system_invar manual m s \<longleftrightarrow> dispatch_wf m (sy_shared s) \<and> ds_active_loops (sy_shared s) = int (slots_in_use s) \<and>
     (\<forall>t \<in> set (sy_entries s). thread_wf manual m t) \<and> (\<forall>pc \<in> set (sy_workers s). worker_pc_wf m pc)"

lemma step_entry_invar:
  assumes "system_invar manual m s" "i < length (sy_entries s)"
  shows "system_invar manual m (step_entry manual m a i s)"
proof -
  obtain t' d' where step: "entry_step manual m a (sy_entries s ! i) (sy_shared s) = (t', d')"
    by (cases "entry_step manual m a (sy_entries s ! i) (sy_shared s)")
  have "thread_wf manual m (sy_entries s ! i)" using assms by (simp add: system_invar_def)
  note spec = entry_step_slots [OF _ this step]
  show ?thesis
    using spec assms unfolding system_invar_def
    by (auto simp: step_entry_def step slots_in_use_def count_update dest: set_update_subset_insert [THEN subsetD])
qed

lemma step_worker_invar:
  assumes "system_invar manual m s" "i < length (sy_workers s)"
  shows "system_invar manual m (step_worker manual m ev i s)"
proof -
  obtain pc' d' where step: "worker_step manual m i ev (sy_workers s ! i) (sy_shared s) = (pc', d')"
    by (cases "worker_step manual m i ev (sy_workers s ! i) (sy_shared s)")
  have "worker_pc_wf m (sy_workers s ! i)" using assms by (simp add: system_invar_def)
  note spec = worker_step_slots [OF _ this step]
  show ?thesis
    using spec assms unfolding system_invar_def
    by (auto simp: step_worker_def step slots_in_use_def count_update dest: set_update_subset_insert [THEN subsetD])
qed

lemma system_init_invar:
  assumes "0 < m"
  shows "system_invar manual m (system_init m filler)"
proof -
  have "length (replicate 64 filler) = 2 ^ 6" by simp
  note init = executor_init_invar [OF _ _ this, of "lifecycle_options m"]
  have "mpmc_capacity (ex_queue (ex_start (lifecycle_options m) (executor_init (replicate 64 filler)))) = 64"
    using mpmc_init_invar(3) [of 6 "replicate 64 filler"] by (simp add: ex_start_def executor_init_def Let_def)
  then show ?thesis
    using init assms by (auto simp: system_invar_def system_init_def dispatch_init_def dispatch_wf_def slots_in_use_def queued_def Let_def)
qed

lemma system_step_invar: "system_step manual m s s' \<Longrightarrow> system_invar manual m s \<Longrightarrow> system_invar manual m s'"
proof (induction rule: system_step.induct)
  case (entry i s a)
  then show ?case using step_entry_invar by blast
next
  case (worker i s ev)
  then show ?case using step_worker_invar by blast
qed (auto simp: system_invar_def slots_in_use_def entry_callback_def recovery_launch_def thread_wf_def)

lemma system_reachable_invar:
  assumes "system_reachable manual m s" "0 < m"
  shows "system_invar manual m s"
  using assms by (induction rule: system_reachable.induct) (auto intro: system_init_invar system_step_invar)

section \<open>Suppression\<close>

text \<open>
  The threads that will still lift a suppression. A callback in manual mode does so on every path
  once it has suppressed the engine for its prompt, also when it finds no free slot.
\<close>

definition entry_busy :: "bool \<Rightarrow> entry_thread \<Rightarrow> bool" where
  "entry_busy manual t \<longleftrightarrow>
    (case et_pc t of
       CheckExisting \<Rightarrow> False | CheckPending \<Rightarrow> False | ClaimPrompt \<Rightarrow> False | PromptSuppress \<Rightarrow> False
     | DeclineRelease \<Rightarrow> False | EntryDone \<Rightarrow> False
     | LoadLoops \<Rightarrow> manual \<and> \<not> et_recovery t | TryClaim c \<Rightarrow> manual \<and> \<not> et_recovery t
     | _ \<Rightarrow> True)"

definition system_busy :: "bool \<Rightarrow> system \<Rightarrow> bool" where
  "system_busy manual s \<longleftrightarrow> (\<exists>t \<in> set (sy_entries s). entry_busy manual t) \<or> queued (sy_shared s) \<noteq> [] \<or>
     (\<exists>pc \<in> set (sy_workers s). pc \<noteq> WorkerIdle)"

lemma entry_step_busy:
  assumes "dispatch_wf m d" "thread_wf manual m t" "entry_step manual m a t d = (t', d')" "ds_entry_suppressed d'"
  shows "entry_busy manual t' \<or> queued d' \<noteq> [] \<or> ds_entry_suppressed d \<and> \<not> entry_busy manual t \<and> queued d' = queued d"
proof (cases "et_pc t")
  case EnqueueTask
  then show ?thesis using enqueue_step_spec [of m d t t' d'] assms by (auto simp: entry_step_def entry_busy_def)
next
  case (TryClaim c)
  then show ?thesis using assms
    by (auto simp: entry_step_def try_claim_step_def entry_busy_def queued_def split: if_splits)
qed (use assms in \<open>auto simp: entry_step_def entry_busy_def thread_wf_def queued_def split: if_splits\<close>)

lemma worker_step_busy:
  assumes "dispatch_wf m d" "worker_pc_wf m pc" "worker_step manual m w ev pc d = (pc', d')" "ds_entry_suppressed d'"
  shows "pc' \<noteq> WorkerIdle \<or> ds_entry_suppressed d \<and> pc = WorkerIdle \<and> queued d' = queued d"
proof (cases pc)
  case WorkerIdle
  then show ?thesis using take_task_spec [of m d w pc' d'] assms by (auto simp: worker_step_def)
qed (use assms in \<open>auto simp: worker_step_def lifecycle_step_def split: lifecycle_event.splits if_splits\<close>)

lemma update_other:
  "x \<in> set xs \<Longrightarrow> P x \<Longrightarrow> \<not> P (xs ! i) \<Longrightarrow> \<exists>y \<in> set (xs[i := z]). P y"
  by (metis in_set_conv_nth length_list_update nth_list_update_neq)

lemma step_entry_busy:
  assumes "system_invar manual m s" "i < length (sy_entries s)" and inv: "ds_entry_suppressed (sy_shared s) \<Longrightarrow> system_busy manual s"
    and sup: "ds_entry_suppressed (sy_shared (step_entry manual m a i s))"
  shows "system_busy manual (step_entry manual m a i s)"
proof -
  obtain t' d' where step: "entry_step manual m a (sy_entries s ! i) (sy_shared s) = (t', d')"
    by (cases "entry_step manual m a (sy_entries s ! i) (sy_shared s)")
  have t': "t' \<in> set ((sy_entries s)[i := t'])" using assms(2) by (rule set_update_memI)
  have s': "step_entry manual m a i s = s\<lparr>sy_shared := d', sy_entries := (sy_entries s)[i := t']\<rparr>"
    by (simp add: step_entry_def step)
  have "entry_busy manual t' \<or> queued d' \<noteq> [] \<or>
      ds_entry_suppressed (sy_shared s) \<and> \<not> entry_busy manual (sy_entries s ! i) \<and> queued d' = queued (sy_shared s)"
    using entry_step_busy [OF _ _ step] assms(1,2) sup by (simp add: system_invar_def s')
  then show ?thesis
  proof (elim disjE conjE)
    assume "ds_entry_suppressed (sy_shared s)" "\<not> entry_busy manual (sy_entries s ! i)" "queued d' = queued (sy_shared s)"
    then show ?thesis
      using inv update_other [of _ "sy_entries s" "entry_busy manual" i t'] by (auto simp: system_busy_def s')
  qed (use t' in \<open>auto simp: system_busy_def s'\<close>)
qed

lemma step_worker_busy:
  assumes "system_invar manual m s" "i < length (sy_workers s)" and inv: "ds_entry_suppressed (sy_shared s) \<Longrightarrow> system_busy manual s"
    and sup: "ds_entry_suppressed (sy_shared (step_worker manual m ev i s))"
  shows "system_busy manual (step_worker manual m ev i s)"
proof -
  obtain pc' d' where step: "worker_step manual m i ev (sy_workers s ! i) (sy_shared s) = (pc', d')"
    by (cases "worker_step manual m i ev (sy_workers s ! i) (sy_shared s)")
  have pc': "pc' \<in> set ((sy_workers s)[i := pc'])" using assms(2) by (rule set_update_memI)
  have s': "step_worker manual m ev i s = s\<lparr>sy_shared := d', sy_workers := (sy_workers s)[i := pc']\<rparr>"
    by (simp add: step_worker_def step)
  have "pc' \<noteq> WorkerIdle \<or>
      ds_entry_suppressed (sy_shared s) \<and> sy_workers s ! i = WorkerIdle \<and> queued d' = queued (sy_shared s)"
    using worker_step_busy [OF _ _ step] assms(1,2) sup by (simp add: system_invar_def s')
  then show ?thesis
  proof (elim disjE conjE)
    assume "ds_entry_suppressed (sy_shared s)" "sy_workers s ! i = WorkerIdle" "queued d' = queued (sy_shared s)"
    then show ?thesis
      using inv update_other [of _ "sy_workers s" "\<lambda>pc. pc \<noteq> WorkerIdle" i pc'] by (auto simp: system_busy_def s')
  qed (use pc' in \<open>auto simp: system_busy_def s'\<close>)
qed

lemma system_reachable_busy:
  assumes "system_reachable manual m s" "0 < m" "ds_entry_suppressed (sy_shared s)"
  shows "system_busy manual s"
  using assms
proof (induction rule: system_reachable.induct)
  case (init filler)
  then show ?case by (simp add: system_init_def dispatch_init_def Let_def)
next
  case (step s s')
  note inv = system_reachable_invar [OF step.hyps(1) step.prems(1)]
  from step.hyps(2) show ?case
  proof cases
    case (entry i a)
    then show ?thesis using step_entry_busy [OF inv entry(2)] step by blast
  next
    case (worker i ev)
    then show ?thesis using step_worker_busy [OF inv worker(2)] step by blast
  qed (use step in \<open>auto simp: system_busy_def\<close>)
qed

section \<open>What the dispatch guarantees\<close>

lemma max_positions_range: "1 \<le> max_positions_setting manual input" "max_positions_setting manual input \<le> 4"
  by (auto simp: max_positions_setting_def choose_max_positions_def Let_def split: option.splits)

definition running_lifecycles :: "system \<Rightarrow> nat" where
  "running_lifecycles s = length (filter (\<lambda>pc. case pc of LifecycleRun task \<Rightarrow> True | _ \<Rightarrow> False) (sy_workers s))"

lemma running_hold: "running_lifecycles s \<le> length (filter worker_holds (sy_workers s))"
proof -
  have "filter (\<lambda>pc. case pc of LifecycleRun task \<Rightarrow> True | _ \<Rightarrow> False) ws =
      filter (\<lambda>pc. case pc of LifecycleRun task \<Rightarrow> True | _ \<Rightarrow> False) (filter worker_holds ws)" for ws
    by (induction ws) (auto split: worker_pc.splits)
  then show ?thesis unfolding running_lifecycles_def by (metis length_filter_le)
qed

text \<open>C18. The lifecycle slots are never oversubscribed: in every interleaving of entry callbacks,
  recovery launches and workers, whatever the operator typed, the counter of active loops is the
  number of slots in use and at most \<open>MAX_POSITIONS\<close>, which is between 1 and 4; so the
  lifecycles running and queued together never exceed it, and an enqueue never finds the queue full.\<close>

theorem lifecycle_slots_bounded:
  assumes "system_reachable manual m s" "m = max_positions_setting manual input"
  shows "ds_active_loops (sy_shared s) = int (slots_in_use s) \<and>
    int (running_lifecycles s + length (queued (sy_shared s))) \<le> ds_active_loops (sy_shared s) \<and>
    ds_active_loops (sy_shared s) \<le> m \<and> m \<le> 4 \<and>
    (\<forall>t t' d. enqueue_step t (sy_shared s) = (t', d) \<longrightarrow> et_pc t = EnqueueTask \<longrightarrow> et_pc t' = EntryDone)"
proof -
  have m: "0 < m" "m \<le> 4" using max_positions_range [of manual input] assms(2) by simp_all
  note inv = system_reachable_invar [OF assms(1) m(1), unfolded system_invar_def]
  have "int (running_lifecycles s + length (queued (sy_shared s))) \<le> int (slots_in_use s)"
    using running_hold [of s] by (simp add: slots_in_use_def)
  moreover have "int (slots_in_use s) \<le> m" using inv by (simp add: dispatch_wf_def)
  ultimately have "length (queued (sy_shared s)) < 64" using m by linarith
  then have "et_pc t' = EntryDone" if "enqueue_step t (sy_shared s) = (t', d)" "et_pc t = EnqueueTask" for t t' d
    using enqueue_step_spec [OF conjunct1 [OF inv] that] by auto
  then show ?thesis using inv m(2) \<open>int (running_lifecycles s + length (queued (sy_shared s))) \<le> int (slots_in_use s)\<close>
    by (auto simp: dispatch_wf_def)
qed

text \<open>C19. A suppression is never left behind: in every interleaving, in automatic and in manual mode,
  when no lifecycle is queued or running and no callback is on its way, the engine's entries are
  not suppressed; and while they are, some thread is on a path that ends by lifting the suppression.\<close>

theorem suppression_released:
  assumes "system_reachable manual m s" "m = max_positions_setting manual input"
  shows "(ds_entry_suppressed (sy_shared s) \<longrightarrow> system_busy manual s) \<and>
    ((\<forall>t \<in> set (sy_entries s). et_pc t = EntryDone) \<and> queued (sy_shared s) = [] \<and> (\<forall>pc \<in> set (sy_workers s). pc = WorkerIdle) \<longrightarrow>
       \<not> ds_entry_suppressed (sy_shared s) \<and> ds_active_loops (sy_shared s) = 0)"
proof (intro conjI impI)
  have m: "0 < m" using max_positions_range [of manual input] assms(2) by simp
  note busy = system_reachable_busy [OF assms(1) m]
  then show "ds_entry_suppressed (sy_shared s) \<Longrightarrow> system_busy manual s" .
  assume idle: "(\<forall>t \<in> set (sy_entries s). et_pc t = EntryDone) \<and> queued (sy_shared s) = [] \<and> (\<forall>pc \<in> set (sy_workers s). pc = WorkerIdle)"
  then have "\<not> system_busy manual s" by (auto simp: system_busy_def entry_busy_def)
  then show "\<not> ds_entry_suppressed (sy_shared s)" using busy by blast
  have "slots_in_use s = 0" using idle by (auto simp: slots_in_use_def filter_empty_conv)
  then show "ds_active_loops (sy_shared s) = 0" using system_reachable_invar [OF assms(1) m] by (simp add: system_invar_def)
qed

section \<open>A concrete interleaving\<close>

datatype move = Callback arbitrage_signal | EntryMove nat bool | WorkerMove nat lifecycle_event

fun run_move :: "bool \<Rightarrow> int \<Rightarrow> move \<Rightarrow> system \<Rightarrow> system" where
  "run_move manual m (Callback signal) s = s\<lparr>sy_entries := sy_entries s @ [entry_callback signal]\<rparr>"
| "run_move manual m (EntryMove i a) s = (if i < length (sy_entries s) then step_entry manual m a i s else s)"
| "run_move manual m (WorkerMove i ev) s = (if i < length (sy_workers s) then step_worker manual m ev i s else s)"

lemma run_moves_reachable:
  "system_reachable manual m s \<Longrightarrow> system_reachable manual m (fold (run_move manual m) moves s)"
proof (induction moves arbitrary: s)
  case (Cons mv moves)
  have "system_reachable manual m (run_move manual m mv s)"
    using Cons.prems by (cases mv) (auto intro: system_reachable.step system_step.intros)
  then show ?case using Cons.IH by simp
qed simp

definition race_signal :: arbitrage_signal where
  "race_signal = recovery_signal 0 position_default"

text \<open>
  Two slots. The first callback runs its lifecycle; the second claims the last slot; before it
  has suppressed the engine, the first lifecycle ends and lifts the suppression that was not yet set.
\<close>

definition race_moves :: "move list" where
  "race_moves = [Callback race_signal, EntryMove 0 False, EntryMove 0 False, EntryMove 0 False, EntryMove 0 False, EntryMove 0 False,
     WorkerMove 0 CriticalStop, Callback race_signal, EntryMove 1 False, EntryMove 1 False, EntryMove 1 False,
     WorkerMove 0 (Finished False), WorkerMove 0 CriticalStop, WorkerMove 0 CriticalStop, EntryMove 1 False, EntryMove 1 False]"

definition race_system :: system where
  "race_system = fold (run_move False 2) race_moves (system_init 2 \<lparr>lt_signal = race_signal, lt_initial_position = None\<rparr>)"

definition idle_pc :: "worker_pc \<Rightarrow> bool" where
  "idle_pc pc \<longleftrightarrow> (case pc of WorkerIdle \<Rightarrow> True | _ \<Rightarrow> False)"

definition done_pc :: "entry_pc \<Rightarrow> bool" where
  "done_pc pc \<longleftrightarrow> (case pc of EntryDone \<Rightarrow> True | _ \<Rightarrow> False)"

lemma race_values:
  "ds_entry_suppressed (sy_shared race_system) \<and> ds_active_loops (sy_shared race_system) = 1 \<and>
   list_all (\<lambda>t. done_pc (et_pc t)) (sy_entries race_system) \<and> list_all idle_pc (sy_workers race_system)"
  by code_simp

lemma race_reachable: "system_reachable False (max_positions_setting False (Some ''2'')) race_system"
proof -
  have "max_positions_setting False (Some ''2'') = 2" by code_simp
  then show ?thesis unfolding race_system_def by (simp add: run_moves_reachable system_reachable.init)
qed

theorem lifecycle_slots_bounded_witness:
  "slots_in_use race_system = 1 \<and> int (running_lifecycles race_system + length (queued (sy_shared race_system))) \<le> 1"
  using lifecycle_slots_bounded [OF race_reachable refl] race_values by simp

theorem suppression_released_witness:
  "ds_entry_suppressed (sy_shared race_system) \<and> system_busy False race_system"
  using suppression_released [OF race_reachable refl] race_values by simp

text \<open>Entries can stay suppressed although a slot is free, until the next lifecycle ends.\<close>

lemma suppression_race:
  "\<exists>s. system_reachable False 2 s \<and> (\<forall>t \<in> set (sy_entries s). et_pc t = EntryDone) \<and>
     ds_active_loops (sy_shared s) < 2 \<and> ds_entry_suppressed (sy_shared s)"
proof -
  have "max_positions_setting False (Some ''2'') = 2" by code_simp
  moreover have "done_pc pc \<longleftrightarrow> pc = EntryDone" for pc by (cases pc) (simp_all add: done_pc_def)
  ultimately show ?thesis using race_reachable race_values by (intro exI [of _ race_system]) (simp add: list_all_iff)
qed

text \<open>The guard of a lifecycle that ended in a critical stop lifts the suppression the stop has set.\<close>

lemma critical_stop_lifted:
  assumes "ds_active_loops d \<le> m" "worker_step False m w CriticalStop (LifecycleRun task) d = (pc1, d1)"
    "worker_step False m w (Finished failed) pc1 d1 = (pc2, d2)" "worker_step False m w ev pc2 d2 = (pc3, d3)"
    "worker_step False m w ev' pc3 d3 = (pc4, d4)"
  shows "ds_entry_suppressed d1 \<and> \<not> ds_entry_suppressed d4 \<and> pc4 = WorkerIdle"
  using assms by (auto simp: worker_step_def lifecycle_step_def)

end
