(* ===== verification/Orders.thy ===== *)
theory Orders
  imports Engine
begin

text \<open>
  The order manager's state and single-order operations (\<^verbatim>\<open>OrderManager\<close> of
  \<^verbatim>\<open>include/kimp/execution/order_manager.hpp\<close> and \<^verbatim>\<open>src/execution/order_manager.cpp\<close>):
  configuration, order execution on a venue, fill queries, correction orders, the blacklist of
  external positions and the critical stop. The venues are remote services: what they answer is
  the parameter \<open>venues\<close>, a record of functions on a world of any type, so every result holds for
  whatever the venues do. The same record says what the other threads make of the engine while
  the manager waits. Calls of the registered callbacks and rows of the trade log are lists, oldest
  first; \<open>om_sent\<close> lists the orders that were handed to a venue.
\<close>

section \<open>The venues and the world\<close>

record 'w venues =
  vn_place_market_buy_cost :: "exchange \<Rightarrow> symbol_id \<Rightarrow> dbl \<Rightarrow> 'w \<Rightarrow> order \<times> 'w"
  vn_place_market_order :: "exchange \<Rightarrow> symbol_id \<Rightarrow> side \<Rightarrow> dbl \<Rightarrow> 'w \<Rightarrow> order \<times> 'w"
  vn_open_short :: "exchange \<Rightarrow> symbol_id \<Rightarrow> dbl \<Rightarrow> 'w \<Rightarrow> order \<times> 'w"
  vn_close_short :: "exchange \<Rightarrow> symbol_id \<Rightarrow> dbl \<Rightarrow> 'w \<Rightarrow> order \<times> 'w"
  vn_query_order :: "exchange \<Rightarrow> string \<Rightarrow> symbol_id \<Rightarrow> order \<Rightarrow> 'w \<Rightarrow> order \<times> 'w"
  vn_get_balance :: "exchange \<Rightarrow> string \<Rightarrow> 'w \<Rightarrow> dbl \<times> 'w"
  vn_get_short_positions :: "exchange \<Rightarrow> 'w \<Rightarrow> position list \<times> 'w"
  vn_prepare_shorting :: "exchange \<Rightarrow> symbol_id \<Rightarrow> 'w \<Rightarrow> bool \<times> 'w"
  vn_pause :: "'w \<Rightarrow> bool \<times> 'w"
  vn_market :: "'w \<Rightarrow> engine \<Rightarrow> engine"
  vn_steady_now_ms :: "'w \<Rightarrow> u64"
  vn_system_now :: "'w \<Rightarrow> systime"

section \<open>State\<close>

record entry_log =
  lg_time :: systime
  lg_symbol :: string
  lg_split_qty :: dbl
  lg_korean_buy_price :: dbl
  lg_foreign_short_price :: dbl
  lg_usdt_rate :: dbl
  lg_held_value_usd :: dbl
  lg_position_target_usd :: dbl
  lg_premium :: dbl

record exit_log =
  lx_time :: systime
  lx_symbol :: string
  lx_split_qty :: dbl
  lx_korean_entry_price :: dbl
  lx_korean_exit_price :: dbl
  lx_foreign_entry_price :: dbl
  lx_foreign_exit_price :: dbl
  lx_pnl_krw :: dbl
  lx_usdt_rate :: dbl
  lx_final_split :: bool

datatype sent_order =
    SentBuy exchange symbol_id dbl
  | SentSell exchange symbol_id dbl
  | SentShort exchange symbol_id dbl
  | SentCover exchange symbol_id dbl

record execution_result =
  er_success :: bool
  er_position_managed :: bool
  er_position :: position
  er_error_message :: string
  er_korean_filled_amount :: dbl
  er_foreign_filled_amount :: dbl

definition execution_result_default :: execution_result where
  "execution_result_default = \<lparr>er_success = False, er_position_managed = False, er_position = position_default,
     er_error_message = [], er_korean_filled_amount = 0, er_foreign_filled_amount = 0\<rparr>"

record 'w order_manager =
  om_exchanges :: "exchange option list"
  om_bithumb_exchange :: bool
  om_upbit_exchange :: bool
  om_bybit_exchange :: bool
  om_okx_exchange :: bool
  om_engine :: "engine option"
  om_running :: bool
  om_external_position_blacklist :: "symbol_id list"
  om_position_updates :: "position option list"
  om_completed_trades :: "(position \<times> dbl \<times> dbl) list"
  om_entry_log :: "entry_log list"
  om_exit_log :: "exit_log list"
  om_sent :: "sent_order list"
  om_world :: 'w

definition order_manager_init :: "'w \<Rightarrow> 'w order_manager" where
  "order_manager_init w = \<lparr>om_exchanges = replicate 4 None, om_bithumb_exchange = False, om_upbit_exchange = False,
     om_bybit_exchange = False, om_okx_exchange = False, om_engine = None, om_running = True,
     om_external_position_blacklist = [], om_position_updates = [], om_completed_trades = [], om_entry_log = [],
     om_exit_log = [], om_sent = [], om_world = w\<rparr>"

section \<open>Configuration\<close>

text \<open>
  The argument \<open>adapter\<close> is the dynamic type of the object, \<open>None\<close> for a null pointer; each typed
  pointer is set when the dynamic cast succeeds.
\<close>

definition om_set_exchange :: "exchange \<Rightarrow> exchange option \<Rightarrow> 'w order_manager \<Rightarrow> 'w order_manager" where
  "om_set_exchange ex adapter m =
    (let m = m\<lparr>om_exchanges := (om_exchanges m)[exchange_id ex := adapter]\<rparr> in
     if ex = Bithumb then m\<lparr>om_bithumb_exchange := adapter = Some Bithumb\<rparr>
     else if ex = Upbit then m\<lparr>om_upbit_exchange := adapter = Some Upbit\<rparr>
     else if ex = Bybit then m\<lparr>om_bybit_exchange := adapter = Some Bybit\<rparr>
     else if ex = OKX then m\<lparr>om_okx_exchange := adapter = Some OKX\<rparr>
     else m)"

definition set_engine :: "engine \<Rightarrow> 'w order_manager \<Rightarrow> 'w order_manager" where
  "set_engine e m = m\<lparr>om_engine := Some e\<rparr>"

definition request_shutdown :: "'w order_manager \<Rightarrow> 'w order_manager" where
  "request_shutdown m = m\<lparr>om_running := False\<rparr>"

text \<open>The venue that a typed pointer leads to, \<open>None\<close> for a null pointer.\<close>

definition get_korean_exchange :: "'w order_manager \<Rightarrow> exchange \<Rightarrow> exchange option" where
  "get_korean_exchange m ex =
    (if ex = Bithumb then (if om_bithumb_exchange m then Some Bithumb else None)
     else if ex = Upbit then (if om_upbit_exchange m then Some Upbit else None)
     else None)"

definition get_bybit_exchange :: "'w order_manager \<Rightarrow> exchange option" where
  "get_bybit_exchange m = (if om_bybit_exchange m then Some Bybit else None)"

definition get_okx_exchange :: "'w order_manager \<Rightarrow> exchange option" where
  "get_okx_exchange m = (if om_okx_exchange m then Some OKX else None)"

definition get_foreign_exchange :: "'w order_manager \<Rightarrow> exchange \<Rightarrow> exchange option" where
  "get_foreign_exchange m ex = (if ex = OKX then get_okx_exchange m else get_bybit_exchange m)"

section \<open>Fills\<close>

definition resolved_fill_quantity :: "order \<Rightarrow> dbl" where
  "resolved_fill_quantity o' =
    (if 0 < ord_filled_quantity o' then ord_filled_quantity o'
     else if 0 < ord_quantity o' then ord_quantity o' else 0)"

definition resolved_fill_price :: "order \<Rightarrow> dbl \<Rightarrow> dbl" where
  "resolved_fill_price o' fallback = (if 0 < ord_average_price o' then ord_average_price o' else fallback)"

definition quantities_match :: "dbl \<Rightarrow> dbl \<Rightarrow> bool" where
  "quantities_match lhs rhs =
    (let scale = dmax (fabs lhs) (fabs rhs) in
     if scale \<le> 0 then True else fabs (lhs - rhs) / scale \<le> HEDGE_QUANTITY_TOLERANCE_RATIO)"

section \<open>Single orders\<close>

definition rejected_order :: order where
  "rejected_order = order_default\<lparr>ord_status := Rejected\<rparr>"

definition send :: "sent_order \<Rightarrow> ('w \<Rightarrow> order \<times> 'w) \<Rightarrow> 'w order_manager \<Rightarrow> order \<times> 'w order_manager" where
  "send s f m = (case f (om_world m) of (o', w) \<Rightarrow> (o', m\<lparr>om_sent := om_sent m @ [s], om_world := w\<rparr>))"

definition execute_korean_buy ::
    "'w venues \<Rightarrow> exchange \<Rightarrow> symbol_id \<Rightarrow> dbl \<Rightarrow> 'w order_manager \<Rightarrow> order \<times> 'w order_manager" where
  "execute_korean_buy v ex symbol krw_amount m =
    (case get_korean_exchange m ex of
       None \<Rightarrow> (rejected_order, m)
     | Some x \<Rightarrow> send (SentBuy x symbol krw_amount) (vn_place_market_buy_cost v x symbol krw_amount) m)"

definition execute_foreign_short ::
    "'w venues \<Rightarrow> exchange \<Rightarrow> symbol_id \<Rightarrow> dbl \<Rightarrow> 'w order_manager \<Rightarrow> order \<times> 'w order_manager" where
  "execute_foreign_short v ex symbol quantity m =
    (case get_foreign_exchange m ex of
       None \<Rightarrow> (rejected_order, m)
     | Some x \<Rightarrow> send (SentShort x symbol quantity) (vn_open_short v x symbol quantity) m)"

definition execute_korean_sell ::
    "'w venues \<Rightarrow> exchange \<Rightarrow> symbol_id \<Rightarrow> dbl \<Rightarrow> 'w order_manager \<Rightarrow> order \<times> 'w order_manager" where
  "execute_korean_sell v ex symbol quantity m =
    (case get_korean_exchange m ex of
       None \<Rightarrow> (rejected_order, m)
     | Some x \<Rightarrow> send (SentSell x symbol quantity) (vn_place_market_order v x symbol Sell quantity) m)"

definition execute_foreign_cover ::
    "'w venues \<Rightarrow> exchange \<Rightarrow> symbol_id \<Rightarrow> dbl \<Rightarrow> 'w order_manager \<Rightarrow> order \<times> 'w order_manager" where
  "execute_foreign_cover v ex symbol quantity m =
    (case get_foreign_exchange m ex of
       None \<Rightarrow> (rejected_order, m)
     | Some x \<Rightarrow> send (SentCover x symbol quantity) (vn_close_short v x symbol quantity) m)"

definition query_order ::
    "'w venues \<Rightarrow> exchange \<Rightarrow> symbol_id \<Rightarrow> order \<Rightarrow> 'w order_manager \<Rightarrow> order \<times> 'w order_manager" where
  "query_order v x symbol o' m =
    (case vn_query_order v x (ord_id_str o') symbol o' (om_world m) of (o', w) \<Rightarrow> (o', m\<lparr>om_world := w\<rparr>))"

definition query_foreign_fill ::
    "'w venues \<Rightarrow> exchange \<Rightarrow> order \<Rightarrow> 'w order_manager \<Rightarrow> order \<times> 'w order_manager" where
  "query_foreign_fill v ex o' m =
    (if ord_id_str o' = [] \<or> ord_status o' \<noteq> Filled then (o', m)
     else if ex = Bybit \<and> om_bybit_exchange m then query_order v Bybit (ord_symbol o') o' m
     else if ex = OKX \<and> om_okx_exchange m then query_order v OKX (ord_symbol o') o' m
     else (o', m))"

definition query_korean_fill ::
    "'w venues \<Rightarrow> exchange \<Rightarrow> symbol_id \<Rightarrow> order \<Rightarrow> 'w order_manager \<Rightarrow> order \<times> 'w order_manager" where
  "query_korean_fill v ex symbol o' m =
    (if ord_id_str o' = [] \<or> ord_status o' \<noteq> Filled then (o', m)
     else if ex = Bithumb then (if om_bithumb_exchange m then query_order v Bithumb symbol o' m else (o', m))
     else if ex = Upbit then (if om_upbit_exchange m then query_order v Upbit symbol o' m else (o', m))
     else (o', m))"

datatype fill_kind = FillForeign | FillKorean

definition handle_fill_query ::
    "'w venues \<Rightarrow> fill_kind \<Rightarrow> exchange \<Rightarrow> symbol_id \<Rightarrow> order \<Rightarrow> 'w order_manager \<Rightarrow> order \<times> 'w order_manager" where
  "handle_fill_query v kind ex symbol o' m =
    (if kind = FillForeign then query_foreign_fill v ex o' m else query_korean_fill v ex symbol o' m)"

definition flatten_extra_korean_long ::
    "'w venues \<Rightarrow> exchange \<Rightarrow> symbol_id \<Rightarrow> dbl \<Rightarrow> 'w order_manager \<Rightarrow> bool \<times> order \<times> 'w order_manager" where
  "flatten_extra_korean_long v ex symbol quantity m =
    (let (o', m) = execute_korean_sell v ex symbol quantity m in
     if ord_status o' \<noteq> Filled then (False, o', m)
     else let (o', m) = query_korean_fill v ex symbol o' m in (0 < resolved_fill_quantity o', o', m))"

definition flatten_extra_foreign_short ::
    "'w venues \<Rightarrow> exchange \<Rightarrow> symbol_id \<Rightarrow> dbl \<Rightarrow> 'w order_manager \<Rightarrow> bool \<times> order \<times> 'w order_manager" where
  "flatten_extra_foreign_short v ex symbol quantity m =
    (let (o', m) = execute_foreign_cover v ex symbol quantity m in
     if ord_status o' \<noteq> Filled then (False, o', m)
     else let (o', m) = query_foreign_fill v ex o' m in (0 < resolved_fill_quantity o', o', m))"

text \<open>
  \<^verbatim>\<open>wait_for_next_market_update\<close>, \<^verbatim>\<open>wait_for_update\<close> and the sleeps: time passes, the other
  threads move the engine, and a shutdown may be requested.
\<close>

definition wait_for_next_market_update :: "'w venues \<Rightarrow> 'w order_manager \<Rightarrow> 'w order_manager" where
  "wait_for_next_market_update v m =
    (case vn_pause v (om_world m) of (stop, w) \<Rightarrow>
       m\<lparr>om_engine := map_option (vn_market v w) (om_engine m), om_running := om_running m \<and> \<not> stop, om_world := w\<rparr>)"

text \<open>The retries of a Korean sale that failed after the foreign cover: at most \<open>n\<close>.\<close>

fun sell_retries ::
    "'w venues \<Rightarrow> exchange \<Rightarrow> symbol_id \<Rightarrow> dbl \<Rightarrow> nat \<Rightarrow> order \<Rightarrow> 'w order_manager \<Rightarrow> bool \<times> order \<times> 'w order_manager" where
  "sell_retries v ex symbol quantity 0 o' m = (False, o', m)"
| "sell_retries v ex symbol quantity (Suc n) o' m =
    (let m = wait_for_next_market_update v m;
         (o', m) = execute_korean_sell v ex symbol quantity m
     in if ord_status o' = Filled
        then let (o', m) = query_korean_fill v ex symbol o' m in (True, o', m)
        else sell_retries v ex symbol quantity n o' m)"

section \<open>Snapshots and the critical stop\<close>

definition persist_snapshot :: "position \<Rightarrow> 'w order_manager \<Rightarrow> 'w order_manager" where
  "persist_snapshot snap m =
    (let m = (case om_engine m of
            None \<Rightarrow> m
          | Some e \<Rightarrow>
             let t = snd (close_position (pos_symbol snap) (en_tracker e));
                 t = (if pos_is_active snap then snd (open_position snap t) else t)
             in m\<lparr>om_engine := Some (e\<lparr>en_tracker := t\<rparr>)\<rparr>)
     in m\<lparr>om_position_updates := om_position_updates m @ [if pos_is_active snap then Some snap else None]\<rparr>)"

definition trigger_critical_stop ::
    "string \<Rightarrow> position \<Rightarrow> execution_result \<Rightarrow> 'w order_manager \<Rightarrow> execution_result \<times> 'w order_manager" where
  "trigger_critical_stop reason snap result m =
    (let m = m\<lparr>om_running := False\<rparr>;
         m = m\<lparr>om_engine := map_option (set_entry_suppressed True) (om_engine m)\<rparr>;
         m = persist_snapshot snap m
     in (result\<lparr>er_position := snap, er_success := False, er_position_managed := True, er_error_message := reason\<rparr>, m))"

definition append_entry_split_log ::
    "'w venues \<Rightarrow> symbol_id \<Rightarrow> dbl \<Rightarrow> dbl \<Rightarrow> dbl \<Rightarrow> dbl \<Rightarrow> dbl \<Rightarrow> dbl \<Rightarrow> dbl \<Rightarrow> 'w order_manager \<Rightarrow> 'w order_manager" where
  "append_entry_split_log v symbol qty buy short rate held_usd target_usd premium m =
     m\<lparr>om_entry_log := om_entry_log m @ [\<lparr>lg_time = vn_system_now v (om_world m), lg_symbol = symbol_to_string symbol,
       lg_split_qty = qty, lg_korean_buy_price = buy, lg_foreign_short_price = short, lg_usdt_rate = rate,
       lg_held_value_usd = held_usd, lg_position_target_usd = target_usd, lg_premium = premium\<rparr>]\<rparr>"

definition append_exit_split_log ::
    "'w venues \<Rightarrow> position \<Rightarrow> dbl \<Rightarrow> dbl \<Rightarrow> dbl \<Rightarrow> dbl \<Rightarrow> dbl \<Rightarrow> bool \<Rightarrow> 'w order_manager \<Rightarrow> 'w order_manager" where
  "append_exit_split_log v pos qty korean_exit foreign_exit pnl rate final m =
     m\<lparr>om_exit_log := om_exit_log m @ [\<lparr>lx_time = vn_system_now v (om_world m), lx_symbol = symbol_to_string (pos_symbol pos),
       lx_split_qty = qty, lx_korean_entry_price = pos_korean_entry_price pos, lx_korean_exit_price = korean_exit,
       lx_foreign_entry_price = pos_foreign_entry_price pos, lx_foreign_exit_price = foreign_exit,
       lx_pnl_krw = pnl, lx_usdt_rate = rate, lx_final_split = final\<rparr>]\<rparr>"

section \<open>Preparation and safety\<close>

text \<open>The foreign symbols to prepare: one per base, in the order of the first occurrence.\<close>

fun unique_bases :: "string list \<Rightarrow> symbol_id list \<Rightarrow> symbol_id list" where
  "unique_bases seen [] = []"
| "unique_bases seen (s # ss) =
    (if get_base s \<in> set seen then unique_bases seen ss
     else SymbolId (get_base s) ''USDT'' # unique_bases (get_base s # seen) ss)"

definition symbols_to_prepare :: "symbol_id list \<Rightarrow> symbol_id list" where
  "symbols_to_prepare symbols =
    (let u = unique_bases [] symbols in if u = [] then [SymbolId ''BTC'' ''USDT''] else u)"

fun prepare_all :: "'w venues \<Rightarrow> exchange \<Rightarrow> symbol_id list \<Rightarrow> nat \<Rightarrow> 'w order_manager \<Rightarrow> nat \<times> 'w order_manager" where
  "prepare_all v x [] prepared m = (prepared, m)"
| "prepare_all v x (s # ss) prepared m =
    (case vn_prepare_shorting v x s (om_world m) of (ok, w) \<Rightarrow>
       prepare_all v x ss (if ok then prepared + 1 else prepared) (m\<lparr>om_world := w\<rparr>))"

definition prepare_bybit_shorting :: "'w venues \<Rightarrow> symbol_id list \<Rightarrow> 'w order_manager \<Rightarrow> bool \<times> 'w order_manager" where
  "prepare_bybit_shorting v symbols m =
    (case get_bybit_exchange m of
       None \<Rightarrow> (False, m)
     | Some x \<Rightarrow> (case prepare_all v x (symbols_to_prepare symbols) 0 m of (n, m) \<Rightarrow> (n \<noteq> 0, m)))"

definition prepare_okx_shorting :: "'w venues \<Rightarrow> symbol_id list \<Rightarrow> 'w order_manager \<Rightarrow> bool \<times> 'w order_manager" where
  "prepare_okx_shorting v symbols m =
    (case get_okx_exchange m of
       None \<Rightarrow> (False, m)
     | Some x \<Rightarrow> (case prepare_all v x (symbols_to_prepare symbols) 0 m of (n, m) \<Rightarrow> (n \<noteq> 0, m)))"

definition DUST :: dbl where "DUST = lit 0.0001"

fun scan_balances ::
    "'w venues \<Rightarrow> exchange \<Rightarrow> symbol_id list \<Rightarrow> symbol_id list \<Rightarrow> symbol_id list \<Rightarrow> 'w \<Rightarrow> symbol_id list \<times> 'w" where
  "scan_balances v x managed [] bl w = (bl, w)"
| "scan_balances v x managed (s # ss) bl w =
    (if s \<in> set managed then scan_balances v x managed ss bl w
     else case vn_get_balance v x (get_base s) w of (balance, w) \<Rightarrow>
       scan_balances v x managed ss (if DUST < balance then List.insert s bl else bl) w)"

fun scan_shorts :: "symbol_id list \<Rightarrow> position list \<Rightarrow> symbol_id list \<Rightarrow> symbol_id list" where
  "scan_shorts managed [] bl = bl"
| "scan_shorts managed (p # ps) bl =
    (if DUST < pos_foreign_amount p
     then let krw_symbol = SymbolId (get_base (pos_symbol p)) ''KRW''
       in scan_shorts managed ps (if krw_symbol \<in> set managed then bl else List.insert krw_symbol bl)
     else scan_shorts managed ps bl)"

definition scan_korean :: "'w venues \<Rightarrow> 'w order_manager \<Rightarrow> symbol_id list \<Rightarrow> symbol_id list \<Rightarrow> exchange \<Rightarrow>
    symbol_id list \<times> 'w \<Rightarrow> symbol_id list \<times> 'w" where
  "scan_korean v m symbols managed ex = (\<lambda>(bl, w).
    case get_korean_exchange m ex of None \<Rightarrow> (bl, w) | Some x \<Rightarrow> scan_balances v x managed symbols bl w)"

definition scan_foreign :: "'w venues \<Rightarrow> symbol_id list \<Rightarrow> exchange option \<Rightarrow>
    symbol_id list \<times> 'w \<Rightarrow> symbol_id list \<times> 'w" where
  "scan_foreign v managed ex = (\<lambda>(bl, w).
    case ex of None \<Rightarrow> (bl, w)
    | Some x \<Rightarrow> (case vn_get_short_positions v x w of (ps, w) \<Rightarrow> (scan_shorts managed ps bl, w)))"

definition refresh_external_positions ::
    "'w venues \<Rightarrow> symbol_id list \<Rightarrow> symbol_id list \<Rightarrow> 'w order_manager \<Rightarrow> 'w order_manager" where
  "refresh_external_positions v symbols bot_managed m =
    (let r = scan_korean v m symbols bot_managed Bithumb ([], om_world m);
         r = scan_korean v m symbols bot_managed Upbit r;
         r = scan_foreign v bot_managed (get_bybit_exchange m) r;
         (bl, w) = scan_foreign v bot_managed (get_okx_exchange m) r
     in m\<lparr>om_external_position_blacklist := bl, om_world := w\<rparr>)"

definition is_safe_to_trade :: "'w order_manager \<Rightarrow> symbol_id \<Rightarrow> exchange \<Rightarrow> exchange \<Rightarrow> bool" where
  "is_safe_to_trade m symbol korean_ex foreign_ex =
    (if symbol \<in> set (om_external_position_blacklist m) then False
     else case om_engine m of
         None \<Rightarrow> True
       | Some e \<Rightarrow> is_transfer_route_available (en_prices e) korean_ex foreign_ex (get_base symbol))"

section \<open>What single orders leave alone\<close>

text \<open>
  The interface between the single-order operations and the lifecycles: a relation between the
  states before and after that is reflexive and transitive and that every operation but the
  opening of a short keeps. The operations composed of these keep it too, shown once here.
\<close>

locale order_frame =
  fixes v :: "'w venues" and R :: "'w order_manager \<Rightarrow> 'w order_manager \<Rightarrow> bool"
  assumes refl: "R m m"
    and trans: "R a b \<Longrightarrow> R b c \<Longrightarrow> R a c"
    and buy: "execute_korean_buy v ex s q m = (o', m') \<Longrightarrow> R m m'"
    and sell: "execute_korean_sell v ex s q m = (o', m') \<Longrightarrow> R m m'"
    and cover: "execute_foreign_cover v ex s q m = (o', m') \<Longrightarrow> R m m'"
    and query: "query_order v ex s o1 m = (o', m') \<Longrightarrow> R m m'"
    and pause: "R m (wait_for_next_market_update v m)"
begin

lemma foreign_query: "query_foreign_fill v ex o1 m = (o', m') \<Longrightarrow> R m m'"
  by (auto simp: query_foreign_fill_def intro: refl query split: if_splits)

lemma korean_query: "query_korean_fill v ex s o1 m = (o', m') \<Longrightarrow> R m m'"
  by (auto simp: query_korean_fill_def intro: refl query split: if_splits)

lemma fill_query: "handle_fill_query v k ex s o1 m = (o', m') \<Longrightarrow> R m m'"
  by (auto simp: handle_fill_query_def intro: foreign_query korean_query split: if_splits)

lemma flatten_long: "flatten_extra_korean_long v ex s q m = (b, o', m') \<Longrightarrow> R m m'"
  by (auto simp: flatten_extra_korean_long_def intro: sell trans [OF sell korean_query] split: prod.splits if_splits)

lemma flatten_short: "flatten_extra_foreign_short v ex s q m = (b, o', m') \<Longrightarrow> R m m'"
  by (auto simp: flatten_extra_foreign_short_def intro: cover trans [OF cover foreign_query] split: prod.splits if_splits)

lemma retries: "sell_retries v ex s q n o1 m = (b, o', m') \<Longrightarrow> R m m'"
proof (induction n arbitrary: o1 m)
  case (Suc n)
  obtain o2 m2 where 2: "execute_korean_sell v ex s q (wait_for_next_market_update v m) = (o2, m2)" by fastforce
  then have r: "R m m2" using trans [OF pause sell] by blast
  show ?case
  proof (cases "ord_status o2 = Filled")
    case True
    then show ?thesis using Suc.prems 2 r korean_query by (auto split: prod.splits intro: trans)
  next
    case False
    then have "sell_retries v ex s q n o2 m2 = (b, o', m')" using Suc.prems 2 by simp
    then show ?thesis using Suc.IH trans [OF r] by blast
  qed
qed (simp add: refl)

end

lemma send_fields:
  assumes "send x f m = (o', m')"
  shows "om_sent m' = om_sent m @ [x]" "om_world m' = snd (f (om_world m))" "om_position_updates m' = om_position_updates m"
    "om_completed_trades m' = om_completed_trades m" "om_engine m' = om_engine m" "om_running m' = om_running m"
  using assms by (auto simp: send_def split: prod.splits)

lemmas execute_defs = execute_korean_buy_def execute_korean_sell_def execute_foreign_cover_def execute_foreign_short_def

text \<open>Single orders report no position and complete no trade.\<close>

definition same_reports :: "'w order_manager \<Rightarrow> 'w order_manager \<Rightarrow> bool" where
  "same_reports m m' \<longleftrightarrow> om_position_updates m' = om_position_updates m \<and> om_completed_trades m' = om_completed_trades m"

interpretation reports: order_frame v same_reports for v :: "'w venues"
  by unfold_locales
    (auto simp: same_reports_def execute_defs send_fields query_order_def wait_for_next_market_update_def split: option.splits prod.splits)

lemma short_reports: "execute_foreign_short v ex s q m = (o', m') \<Longrightarrow> same_reports m m'"
  by (auto simp: same_reports_def execute_defs send_fields split: option.splits)

text \<open>The shorts among the orders sent.\<close>

definition shorts_sent :: "'w order_manager \<Rightarrow> sent_order list" where
  "shorts_sent m = filter (\<lambda>x. case x of SentShort _ _ _ \<Rightarrow> True | _ \<Rightarrow> False) (om_sent m)"

definition same_shorts :: "'w order_manager \<Rightarrow> 'w order_manager \<Rightarrow> bool" where
  "same_shorts m m' \<longleftrightarrow> shorts_sent m' = shorts_sent m"

interpretation shorts: order_frame v same_shorts for v :: "'w venues"
  by unfold_locales
    (auto simp: same_shorts_def shorts_sent_def execute_defs send_fields query_order_def wait_for_next_market_update_def
      split: option.splits prod.splits)

lemma short_shorts:
  assumes "execute_foreign_short v ex s q m = (o', m')"
  shows "(shorts_sent m' = shorts_sent m \<and> o' = rejected_order) \<or> (\<exists>x. shorts_sent m' = shorts_sent m @ [SentShort x s q])"
  using assms by (auto simp: shorts_sent_def execute_defs send_fields split: option.splits)

text \<open>
  Pauses run out: no call of a venue takes back time, and every pause either brings the request to
  shut down or uses some of it up.
\<close>

definition pauses_run_out :: "('w \<Rightarrow> nat) \<Rightarrow> 'w venues \<Rightarrow> bool" where
  "pauses_run_out f v \<longleftrightarrow>
    (\<forall>x s q w. f (snd (vn_place_market_buy_cost v x s q w)) \<le> f w) \<and>
    (\<forall>x s d q w. f (snd (vn_place_market_order v x s d q w)) \<le> f w) \<and>
    (\<forall>x s q w. f (snd (vn_open_short v x s q w)) \<le> f w) \<and>
    (\<forall>x s q w. f (snd (vn_close_short v x s q w)) \<le> f w) \<and>
    (\<forall>x i s o' w. f (snd (vn_query_order v x i s o' w)) \<le> f w) \<and>
    (\<forall>w. f (snd (vn_pause v w)) \<le> f w) \<and>
    (\<forall>w. fst (vn_pause v w) \<or> f (snd (vn_pause v w)) < f w)"

lemma pauses_frame: "pauses_run_out f v \<Longrightarrow> order_frame v (\<lambda>m m'. f (om_world m') \<le> f (om_world m))"
  by unfold_locales
    (auto simp: pauses_run_out_def execute_defs send_fields query_order_def wait_for_next_market_update_def
      split: option.splits prod.splits dest: order_trans, (metis snd_conv)+)

lemma short_pauses: "pauses_run_out f v \<Longrightarrow> execute_foreign_short v ex s q m = (o', m') \<Longrightarrow> f (om_world m') \<le> f (om_world m)"
  by (auto simp: pauses_run_out_def execute_defs send_fields split: option.splits)

text \<open>No operation here connects or disconnects a venue.\<close>

definition same_venues :: "'w order_manager \<Rightarrow> 'w order_manager \<Rightarrow> bool" where
  "same_venues m m' \<longleftrightarrow> om_bithumb_exchange m' = om_bithumb_exchange m \<and> om_upbit_exchange m' = om_upbit_exchange m \<and>
     om_bybit_exchange m' = om_bybit_exchange m \<and> om_okx_exchange m' = om_okx_exchange m"

interpretation connected: order_frame v same_venues for v :: "'w venues"
  by unfold_locales
    (auto simp: same_venues_def execute_defs send_def query_order_def wait_for_next_market_update_def split: option.splits prod.splits)

lemma same_venues_get: "same_venues m m' \<Longrightarrow> get_korean_exchange m' ex = get_korean_exchange m ex"
  by (simp add: same_venues_def get_korean_exchange_def)

lemma query_sent: "query_korean_fill v ex s o1 m = (o', m') \<Longrightarrow> om_sent m' = om_sent m"
  by (auto simp: query_korean_fill_def query_order_def split: if_splits prod.splits)

lemma wait_sent [simp]: "om_sent (wait_for_next_market_update v m) = om_sent m"
  by (simp add: wait_for_next_market_update_def split: prod.split)

lemma sell_cases:
  assumes "execute_korean_sell v ex s q m = (o', m')"
  shows "(get_korean_exchange m ex = None \<and> o' = rejected_order \<and> m' = m) \<or>
    (\<exists>x. get_korean_exchange m ex = Some x \<and> om_sent m' = om_sent m @ [SentSell x s q])"
  using assms by (auto simp: execute_korean_sell_def send_fields split: option.splits)

lemma sell_retries_sent:
  assumes "get_korean_exchange m ex = Some x" "sell_retries v ex s q n o1 m = (sold, o', m')"
  shows "\<exists>k \<le> n. om_sent m' = om_sent m @ replicate k (SentSell x s q) \<and>
    (if sold then 0 < k else k = n \<and> (0 < n \<longrightarrow> ord_status o' \<noteq> Filled))"
  using assms
proof (induction n arbitrary: o1 m)
  case (Suc n)
  let ?w = "wait_for_next_market_update v m"
  obtain o2 m2 where 2: "execute_korean_sell v ex s q ?w = (o2, m2)" by fastforce
  have "same_venues m ?w" by (rule connected.pause)
  then have x: "get_korean_exchange ?w ex = Some x" using Suc.prems(1) same_venues_get by metis
  then have s: "om_sent m2 = om_sent m @ [SentSell x s q]" using sell_cases [OF 2] by auto
  show ?case
  proof (cases "ord_status o2 = Filled")
    case True
    then have "sold \<and> om_sent m' = om_sent m @ replicate 1 (SentSell x s q)"
      using Suc.prems(2) 2 s by (auto split: prod.splits dest: query_sent)
    then show ?thesis by (intro exI [of _ 1]) simp
  next
    case False
    then have r: "sell_retries v ex s q n o2 m2 = (sold, o', m')" using Suc.prems(2) 2 by simp
    have "get_korean_exchange m2 ex = Some x" using connected.sell [OF 2] x same_venues_get by metis
    from Suc.IH [OF this r] obtain k where "k \<le> n" "om_sent m' = om_sent m2 @ replicate k (SentSell x s q)"
      "if sold then 0 < k else k = n \<and> (0 < n \<longrightarrow> ord_status o' \<noteq> Filled)" by blast
    then show ?thesis using s False r by (intro exI [of _ "Suc k"]) (cases n; auto split: if_splits)
  qed
qed simp

section \<open>External positions\<close>

lemma scan_balances_set:
  assumes "\<And>x b w. vn_get_balance v x b w = (bal x b, w)" "scan_balances v x managed ss bl w = (bl', w')"
  shows "set bl' = set bl \<union> {s \<in> set ss. s \<notin> set managed \<and> DUST < bal x (get_base s)} \<and> w' = w"
  using assms(2) by (induction ss arbitrary: bl) (auto simp: assms(1) split: if_splits)

lemma scan_shorts_set:
  "set (scan_shorts managed ps bl) = set bl \<union> {s. s \<notin> set managed \<and>
     (\<exists>p \<in> set ps. DUST < pos_foreign_amount p \<and> s = SymbolId (get_base (pos_symbol p)) ''KRW'')}"
  by (induction ps arbitrary: bl) (auto simp: Let_def)

lemma scan_korean_set:
  assumes "\<And>x b w. vn_get_balance v x b w = (bal x b, w)" "scan_korean v m ss managed ex (bl, w) = (bl', w')"
  shows "set bl' = set bl \<union> {s \<in> set ss. s \<notin> set managed \<and> get_korean_exchange m ex \<noteq> None \<and> DUST < bal ex (get_base s)} \<and> w' = w"
proof (cases "get_korean_exchange m ex")
  case None
  then show ?thesis using assms(2) by (simp add: scan_korean_def)
next
  case (Some x)
  then have "x = ex" by (simp add: get_korean_exchange_def split: if_splits)
  with Some show ?thesis using assms(2) scan_balances_set [OF assms(1), of ex managed ss bl w bl' w'] by (auto simp: scan_korean_def)
qed

lemma scan_foreign_set:
  assumes "\<And>x w. vn_get_short_positions v x w = (ps x, w)" "scan_foreign v managed ex (bl, w) = (bl', w')"
  shows "set bl' = set bl \<union> {s. s \<notin> set managed \<and> (\<exists>x. ex = Some x \<and>
     (\<exists>p \<in> set (ps x). DUST < pos_foreign_amount p \<and> s = SymbolId (get_base (pos_symbol p)) ''KRW''))} \<and> w' = w"
  using assms by (cases ex) (auto simp: scan_foreign_def scan_shorts_set split: prod.splits)

text \<open>
  A symbol is exposed outside the bot: a connected Korean venue holds more than dust of its coin,
  or a connected foreign venue has a short liability in it.
\<close>

definition exposed :: "(exchange \<Rightarrow> string \<Rightarrow> dbl) \<Rightarrow> (exchange \<Rightarrow> position list) \<Rightarrow> symbol_id list \<Rightarrow> 'w order_manager \<Rightarrow> symbol_id \<Rightarrow> bool" where
  "exposed bal ps symbols m s \<longleftrightarrow>
    (s \<in> set symbols \<and> (\<exists>ex \<in> {Bithumb, Upbit}. get_korean_exchange m ex \<noteq> None \<and> DUST < bal ex (get_base s))) \<or>
    (\<exists>x. (get_bybit_exchange m = Some x \<or> get_okx_exchange m = Some x) \<and>
       (\<exists>p \<in> set (ps x). DUST < pos_foreign_amount p \<and> s = SymbolId (get_base (pos_symbol p)) ''KRW''))"

text \<open>
  C32. The start-up scan blacklists exactly what it should: when the venues answer the balance and
  liability queries with fixed figures, a symbol passes the safety check afterwards if and only if
  the bot manages it or it is not exposed at any connected venue, and its transfer route is open.
\<close>

theorem safe_to_trade_iff:
  assumes bal: "\<And>x b w. vn_get_balance v x b w = (bal x b, w)"
    and ps: "\<And>x w. vn_get_short_positions v x w = (ps x, w)"
  shows "is_safe_to_trade (refresh_external_positions v symbols managed m) s k f \<longleftrightarrow>
    (s \<in> set managed \<or> \<not> exposed bal ps symbols m s) \<and>
    (case om_engine m of None \<Rightarrow> True | Some e \<Rightarrow> is_transfer_route_available (en_prices e) k f (get_base s))"
proof -
  obtain b1 w1 where 1: "scan_korean v m symbols managed Bithumb ([], om_world m) = (b1, w1)" by fastforce
  obtain b2 w2 where 2: "scan_korean v m symbols managed Upbit (b1, w1) = (b2, w2)" by fastforce
  obtain b3 w3 where 3: "scan_foreign v managed (get_bybit_exchange m) (b2, w2) = (b3, w3)" by fastforce
  obtain b4 w4 where 4: "scan_foreign v managed (get_okx_exchange m) (b3, w3) = (b4, w4)" by fastforce
  have "s \<in> set b4 \<longleftrightarrow> s \<notin> set managed \<and> exposed bal ps symbols m s"
    using scan_korean_set [OF bal 1] scan_korean_set [OF bal 2] scan_foreign_set [OF ps 3] scan_foreign_set [OF ps 4]
    by (auto simp: exposed_def)
  then show ?thesis
    by (simp add: is_safe_to_trade_def refresh_external_positions_def Let_def 1 2 3 4)
qed

text \<open>A venue for examples: it fills every order in full; its world counts the pauses left.\<close>

definition filled :: "dbl \<Rightarrow> order" where
  "filled q = order_default\<lparr>ord_status := Filled, ord_quantity := q, ord_filled_quantity := q\<rparr>"

definition demo_venues :: "(exchange \<Rightarrow> string \<Rightarrow> dbl) \<Rightarrow> dbl \<Rightarrow> nat venues" where
  "demo_venues bal price = \<lparr>vn_place_market_buy_cost = (\<lambda>x s c w. (filled (c / price), w)),
     vn_place_market_order = (\<lambda>x s d q w. (filled q, w)), vn_open_short = (\<lambda>x s q w. (filled q, w)),
     vn_close_short = (\<lambda>x s q w. (filled q, w)), vn_query_order = (\<lambda>x i s o' w. (o', w)),
     vn_get_balance = (\<lambda>x b w. (bal x b, w)), vn_get_short_positions = (\<lambda>x w. ([], w)),
     vn_prepare_shorting = (\<lambda>x s w. (True, w)), vn_pause = (\<lambda>w. (w = 0, w - 1)), vn_market = (\<lambda>w e. e),
     vn_steady_now_ms = (\<lambda>w. 0), vn_system_now = (\<lambda>w. 0)\<rparr>"

definition demo_manager :: "nat \<Rightarrow> nat order_manager" where
  "demo_manager n = om_set_exchange Bybit (Some Bybit) (om_set_exchange Bithumb (Some Bithumb) (order_manager_init n))"

lemma demo_manager_venues [simp]:
  "get_korean_exchange (demo_manager n) Bithumb = Some Bithumb" "get_foreign_exchange (demo_manager n) Bybit = Some Bybit"
  "om_engine (demo_manager n) = None" "om_external_position_blacklist (demo_manager n) = []" "om_running (demo_manager n)"
  by (simp_all add: demo_manager_def om_set_exchange_def order_manager_init_def get_korean_exchange_def get_foreign_exchange_def get_bybit_exchange_def)

lemma demo_pauses: "pauses_run_out (\<lambda>n. n) (demo_venues bal price)"
  by (auto simp: pauses_run_out_def demo_venues_def)

definition demo_balance :: "exchange \<Rightarrow> string \<Rightarrow> dbl" where
  "demo_balance x b = (if b = ''BTC'' then 1 else 0)"

theorem safe_to_trade_iff_witness:
  "\<not> is_safe_to_trade (refresh_external_positions (demo_venues demo_balance 1) [SymbolId ''BTC'' ''KRW'', SymbolId ''XRP'' ''KRW''] []
        (demo_manager 0)) (SymbolId ''BTC'' ''KRW'') Bithumb Bybit \<and>
   is_safe_to_trade (refresh_external_positions (demo_venues demo_balance 1) [SymbolId ''BTC'' ''KRW'', SymbolId ''XRP'' ''KRW''] []
        (demo_manager 0)) (SymbolId ''XRP'' ''KRW'') Bithumb Bybit"
proof -
  have d: "DUST < 1" "\<not> DUST < 0" by (simp_all add: DUST_def dbl_eval)
  have b: "get_base (SymbolId ''BTC'' ''KRW'') = ''BTC''" "get_base (SymbolId ''XRP'' ''KRW'') = ''XRP''"
    using get_SymbolId [of "''BTC''" "''KRW''"] get_SymbolId [of "''XRP''" "''KRW''"] by simp_all
  have e: "exposed demo_balance (\<lambda>x. []) [SymbolId ''BTC'' ''KRW'', SymbolId ''XRP'' ''KRW''] (demo_manager 0) (SymbolId ''BTC'' ''KRW'')"
    "\<not> exposed demo_balance (\<lambda>x. []) [SymbolId ''BTC'' ''KRW'', SymbolId ''XRP'' ''KRW''] (demo_manager 0) (SymbolId ''XRP'' ''KRW'')"
    using d by (simp_all add: exposed_def b demo_balance_def)
  show ?thesis
    using safe_to_trade_iff [of "demo_venues demo_balance 1" demo_balance "\<lambda>x. []"] e by (simp add: demo_venues_def)
qed

end
