(* ===== verification/EntryLoop.thy ===== *)
theory EntryLoop
  imports Orders "HOL-Library.While_Combinator"
begin

text \<open>
  The relay lifecycle of one symbol, \<^verbatim>\<open>OrderManager::execute_spot_relay_entry\<close> of
  \<^verbatim>\<open>src/execution/order_manager.cpp\<close>: entry splits (short abroad, buy in Korea, correct the
  difference, roll back on failure), exit splits and waiting, until the manager is stopped. The
  locals of the C++ function are a record; one turn of its loop is \<open>entry_iteration\<close>, and the loop
  is \<^const>\<open>while_option\<close>, which is \<open>None\<close> when it never ends. Fill queries take effect in the
  order in which they are dispatched.
\<close>

section \<open>Market view\<close>

record market_view =
  mv_foreign_bid :: dbl
  mv_foreign_ask :: dbl
  mv_foreign_bid_qty :: dbl
  mv_korean_ask :: dbl
  mv_korean_bid :: dbl
  mv_korean_ask_qty :: dbl
  mv_usdt_rate :: dbl
  mv_quote_pair_ok :: bool

definition foreign_symbol_of :: "symbol_id \<Rightarrow> symbol_id" where
  "foreign_symbol_of s = SymbolId (get_base s) ''USDT''"

definition entry_view :: "'w venues \<Rightarrow> arbitrage_signal \<Rightarrow> dbl \<Rightarrow> 'w order_manager \<Rightarrow> market_view" where
  "entry_view v sig held_amount m =
    (let mv = \<lparr>mv_foreign_bid = sig_foreign_bid sig, mv_foreign_ask = 0, mv_foreign_bid_qty = sig_foreign_bid_qty sig,
           mv_korean_ask = sig_korean_ask sig, mv_korean_bid = 0, mv_korean_ask_qty = sig_korean_ask_qty sig,
           mv_usdt_rate = sig_usdt_krw_rate sig, mv_quote_pair_ok = (om_engine m = None)\<rparr>
     in case om_engine m of
         None \<Rightarrow> mv
       | Some e \<Rightarrow>
          let foreign_price = get_price (en_prices e) (sig_foreign_exchange sig) (foreign_symbol_of (sig_symbol sig));
              korean_price = get_price (en_prices e) (sig_korean_exchange sig) (sig_symbol sig);
              has_prices = 0 < pd_bid foreign_price \<and> 0 < pd_ask korean_price;
              usable = (if 0 < held_amount then has_prices
                 else has_prices \<and> om_quote_pair_is_usable (vn_steady_now_ms v (om_world m)) korean_price foreign_price False);
              mv = (if usable
                then mv\<lparr>mv_foreign_bid := pd_bid foreign_price, mv_foreign_ask := pd_ask foreign_price,
                      mv_foreign_bid_qty := pd_bid_qty foreign_price, mv_korean_ask := pd_ask korean_price,
                      mv_korean_bid := pd_bid korean_price, mv_korean_ask_qty := pd_ask_qty korean_price,
                      mv_quote_pair_ok := True\<rparr>
                else mv);
              bithumb_usdt = get_usdt_krw (en_prices e) Bithumb
          in if 0 < bithumb_usdt then mv\<lparr>mv_usdt_rate := bithumb_usdt\<rparr> else mv)"

section \<open>Loop state and plan\<close>

record 'w entry_state =
  es_held_amount :: dbl
  es_total_korean_cost :: dbl
  es_total_foreign_value :: dbl
  es_realized_pnl_krw :: dbl
  es_last_usdt_rate :: dbl
  es_result :: execution_result
  es_returned :: bool
  es_om :: "'w order_manager"

text \<open>The average entry premium of what is held; \<open>fallback\<close> when nothing is.\<close>

definition effective_entry_pm :: "dbl \<Rightarrow> dbl \<Rightarrow> dbl \<Rightarrow> dbl \<Rightarrow> dbl \<Rightarrow> dbl" where
  "effective_entry_pm fallback held_amount total_korean_cost total_foreign_value usdt_rate =
    (if held_amount \<le> 0 \<or> total_foreign_value \<le> 0 \<or> usdt_rate \<le> 0 then fallback
     else let avg_foreign_entry = total_foreign_value / held_amount;
              avg_korean_entry = total_korean_cost / held_amount;
              foreign_krw = avg_foreign_entry * usdt_rate
       in if foreign_krw \<le> 0 then fallback
          else ((avg_korean_entry - foreign_krw) / foreign_krw) * lit 100)"

abbreviation entry_pm :: "arbitrage_signal \<Rightarrow> 'w entry_state \<Rightarrow> dbl \<Rightarrow> dbl" where
  "entry_pm sig es \<equiv> effective_entry_pm (sig_premium sig) (es_held_amount es) (es_total_korean_cost es) (es_total_foreign_value es)"

definition min_executable_usd :: "dbl \<Rightarrow> dbl \<Rightarrow> dbl" where
  "min_executable_usd foreign_bid korean_ask =
    (if foreign_bid \<le> 0 \<or> korean_ask \<le> 0 then dmax (MIN_ORDER_KRW / lit 1500) (lit 1)
     else let min_by_krw = MIN_ORDER_KRW * (foreign_bid / korean_ask) in dmax min_by_krw (lit 1))"

definition dynamic_exit_threshold :: "dbl \<Rightarrow> dbl \<Rightarrow> dbl \<Rightarrow> dbl \<Rightarrow> dbl" where
  "dynamic_exit_threshold pm held_amount total_foreign_value usdt_rate =
    (if 0 < held_amount \<and> 0 < total_foreign_value \<and> 0 < usdt_rate
     then dmax (pm + DYNAMIC_EXIT_SPREAD) EXIT_PREMIUM_THRESHOLD
     else EXIT_PREMIUM_THRESHOLD)"

record entry_plan =
  ep_exit_premium :: dbl
  ep_next_order_usd :: dbl
  ep_next_order_coin_amount :: dbl
  ep_dynamic_exit_threshold :: dbl
  ep_enter :: bool

definition plan_entry :: "arbitrage_signal \<Rightarrow> dbl \<Rightarrow> 'w entry_state \<Rightarrow> market_view \<Rightarrow> entry_plan" where
  "plan_entry sig position_size_usd es mv =
    (let rate = mv_usdt_rate mv;
         exit_premium = (if 0 < mv_foreign_ask mv \<and> 0 < rate \<and> 0 < mv_korean_bid mv
           then let foreign_krw = mv_foreign_ask mv * rate in ((mv_korean_bid mv - foreign_krw) / foreign_krw) * lit 100
           else 0);
         remaining_position_usd = dmax 0 (position_size_usd - es_total_foreign_value es);
         next_order_usd = dmin ORDER_SIZE_USD remaining_position_usd;
         coin_amount = (if 0 < mv_foreign_bid mv then next_order_usd / mv_foreign_bid mv else 0);
         korean_top_usdt = (if 0 < rate then (mv_korean_ask mv * mv_korean_ask_qty mv) / rate else 0);
         foreign_top_usdt = mv_foreign_bid mv * mv_foreign_bid_qty mv;
         korean_can_fill = (0 < next_order_usd \<and> next_order_usd \<le> korean_top_usdt);
         foreign_can_fill = (0 < next_order_usd \<and> next_order_usd \<le> foreign_top_usdt);
         rm = calculate_relay_metrics (mv_korean_ask mv) (mv_korean_ask_qty mv) (mv_foreign_bid mv) (mv_foreign_bid_qty mv)
           rate BITHUMB_FEE_RATE BYBIT_FEE_RATE 0;
         threshold = dynamic_exit_threshold (entry_pm sig es rate) (es_held_amount es) (es_total_foreign_value es) rate;
         min_split_usd = min_executable_usd (mv_foreign_bid mv) (mv_korean_ask mv)
     in \<lparr>ep_exit_premium = exit_premium, ep_next_order_usd = next_order_usd, ep_next_order_coin_amount = coin_amount,
         ep_dynamic_exit_threshold = threshold,
         ep_enter = (MIN_NET_EDGE_PCT < rm_net_edge_pct rm \<and> MIN_ENTRY_NET_PROFIT_KRW \<le> rm_net_profit_krw rm \<and>
           korean_can_fill \<and> foreign_can_fill \<and> min_split_usd \<le> next_order_usd)\<rparr>)"

section \<open>Snapshots\<close>

text \<open>The fields that every snapshot of the function sets the same way.\<close>

definition entry_snapshot :: "arbitrage_signal \<Rightarrow> dbl \<Rightarrow> 'w entry_state \<Rightarrow> dbl \<Rightarrow> dbl \<Rightarrow> dbl \<Rightarrow> dbl \<Rightarrow> dbl \<Rightarrow> position" where
  "entry_snapshot sig position_size_usd es korean_amount foreign_amount korean_price foreign_price pnl =
     position_default\<lparr>pos_symbol := sig_symbol sig, pos_korean_exchange := sig_korean_exchange sig,
       pos_foreign_exchange := sig_foreign_exchange sig, pos_entry_time := pos_entry_time (er_position (es_result es)),
       pos_entry_premium := pos_entry_premium (er_position (es_result es)), pos_position_size_usd := position_size_usd,
       pos_korean_amount := korean_amount, pos_foreign_amount := foreign_amount, pos_korean_entry_price := korean_price,
       pos_foreign_entry_price := foreign_price, pos_realized_pnl_krw := pnl,
       pos_is_active := 0 < korean_amount \<or> 0 < foreign_amount\<rparr>"

text \<open>A short that could not be rolled back.\<close>

definition rollback_mismatch :: "arbitrage_signal \<Rightarrow> dbl \<Rightarrow> 'w entry_state \<Rightarrow> dbl \<Rightarrow> order \<Rightarrow> market_view \<Rightarrow> position" where
  "rollback_mismatch sig size_usd es actual_filled foreign_order mv =
    (let held_amount = es_held_amount es;
         foreign_amount = held_amount + actual_filled;
         korean_price = (if 0 < held_amount then es_total_korean_cost es / held_amount else 0);
         short_price = resolved_fill_price foreign_order (mv_foreign_bid mv);
         foreign_value = es_total_foreign_value es + (actual_filled * short_price);
         foreign_price = (if 0 < foreign_amount then foreign_value / foreign_amount else 0)
     in entry_snapshot sig size_usd es held_amount foreign_amount korean_price foreign_price (es_realized_pnl_krw es))"

text \<open>Legs opened in different amounts.\<close>

definition open_mismatch :: "arbitrage_signal \<Rightarrow> dbl \<Rightarrow> 'w entry_state \<Rightarrow> dbl \<Rightarrow> dbl \<Rightarrow> dbl \<Rightarrow> dbl \<Rightarrow> dbl \<Rightarrow> position" where
  "open_mismatch sig size_usd es korean_open_qty foreign_open_qty buy_price short_price pnl =
    (let kr = es_held_amount es + korean_open_qty; fr = es_held_amount es + foreign_open_qty
     in entry_snapshot sig size_usd es kr fr
          (if 0 < kr then (es_total_korean_cost es + (korean_open_qty * buy_price)) / kr else 0)
          (if 0 < fr then (es_total_foreign_value es + (foreign_open_qty * short_price)) / fr else 0) pnl)"

text \<open>Legs closed in different amounts.\<close>

definition close_mismatch :: "arbitrage_signal \<Rightarrow> dbl \<Rightarrow> 'w entry_state \<Rightarrow> dbl \<Rightarrow> dbl \<Rightarrow> dbl \<Rightarrow> dbl \<Rightarrow> dbl \<Rightarrow> position" where
  "close_mismatch sig size_usd es korean_closed_qty foreign_closed_qty avg_korean_entry avg_foreign_entry pnl =
     entry_snapshot sig size_usd es (dmax 0 (es_held_amount es - korean_closed_qty)) (dmax 0 (es_held_amount es - foreign_closed_qty))
       avg_korean_entry avg_foreign_entry pnl"

definition stop_entry :: "string \<Rightarrow> position \<Rightarrow> 'w order_manager \<Rightarrow> 'w entry_state \<Rightarrow> 'w entry_state" where
  "stop_entry reason snap m es =
    (case trigger_critical_stop reason snap (es_result es) m of (r, m) \<Rightarrow> es\<lparr>es_result := r, es_returned := True, es_om := m\<rparr>)"

section \<open>Entry split\<close>

text \<open>What the correction of unequal legs came to: quantities of the legs and the profit of the correction.\<close>

datatype hedge =
    Hedged (hg_foreign: dbl) (hg_korean: dbl) (hg_pnl: dbl)
  | CoverFailed
  | SellFailed
  | StillMismatched (hg_foreign: dbl) (hg_korean: dbl) (hg_pnl: dbl)

definition hedged_if_match :: "dbl \<Rightarrow> dbl \<Rightarrow> dbl \<Rightarrow> hedge" where
  "hedged_if_match f k pnl = (if quantities_match f k then Hedged f k pnl else StillMismatched f k pnl)"

definition hedge_open ::
    "'w venues \<Rightarrow> exchange \<Rightarrow> exchange \<Rightarrow> symbol_id \<Rightarrow> market_view \<Rightarrow> dbl \<Rightarrow> dbl \<Rightarrow> dbl \<Rightarrow> dbl \<Rightarrow> 'w order_manager \<Rightarrow>
     hedge \<times> 'w order_manager" where
  "hedge_open v korean_ex foreign_ex symbol mv short_price buy_price foreign_open_qty korean_open_qty m =
    (if quantities_match foreign_open_qty korean_open_qty then (Hedged foreign_open_qty korean_open_qty 0, m)
     else if korean_open_qty < foreign_open_qty then
       let delta = foreign_open_qty - korean_open_qty;
           (ok, correction, m) = flatten_extra_foreign_short v foreign_ex (foreign_symbol_of symbol) delta m
       in if \<not> ok then (CoverFailed, m)
          else let correction_qty = resolved_fill_quantity correction;
                   correction_price = resolved_fill_price correction (mv_foreign_ask mv)
            in (hedged_if_match (foreign_open_qty - correction_qty) korean_open_qty
                  (0 + (short_price - correction_price) * correction_qty * mv_usdt_rate mv), m)
     else
       let delta = korean_open_qty - foreign_open_qty;
           (ok, correction, m) = flatten_extra_korean_long v korean_ex symbol delta m
       in if \<not> ok then (SellFailed, m)
          else let correction_qty = resolved_fill_quantity correction;
                   correction_price = resolved_fill_price correction (mv_korean_bid mv)
            in (hedged_if_match foreign_open_qty (korean_open_qty - correction_qty)
                  (0 + (correction_price - buy_price) * correction_qty), m))"

text \<open>Both legs are filled: add them to what is held and persist the new snapshot.\<close>

definition book_entry ::
    "'w venues \<Rightarrow> arbitrage_signal \<Rightarrow> dbl \<Rightarrow> market_view \<Rightarrow> dbl \<Rightarrow> dbl \<Rightarrow> dbl \<Rightarrow> dbl \<Rightarrow> dbl \<Rightarrow> 'w order_manager \<Rightarrow>
     'w entry_state \<Rightarrow> 'w entry_state" where
  "book_entry v sig size_usd mv short_price buy_price foreign_open_qty korean_open_qty adjustment m es =
    (let actual_filled = dmin foreign_open_qty korean_open_qty;
         actual_korean_cost = actual_filled * buy_price;
         es = es\<lparr>es_held_amount := es_held_amount es + actual_filled,
            es_total_korean_cost := es_total_korean_cost es + actual_korean_cost,
            es_total_foreign_value := es_total_foreign_value es + actual_filled * short_price,
            es_realized_pnl_krw := es_realized_pnl_krw es + adjustment,
            es_result := (es_result es)\<lparr>er_korean_filled_amount := actual_filled, er_foreign_filled_amount := actual_filled\<rparr>\<rparr>;
         held_amount = es_held_amount es;
         pm = entry_pm sig es (mv_usdt_rate mv);
         m = append_entry_split_log v (sig_symbol sig) actual_filled buy_price short_price (mv_usdt_rate mv)
               (es_total_foreign_value es) size_usd pm m;
         snap = (entry_snapshot sig size_usd es held_amount held_amount
               (if 0 < held_amount then es_total_korean_cost es / held_amount else 0)
               (if 0 < held_amount then es_total_foreign_value es / held_amount else 0) (es_realized_pnl_krw es))
             \<lparr>pos_entry_premium := pm, pos_is_active := True\<rparr>
     in es\<lparr>es_om := persist_snapshot snap m\<rparr>)"

definition settle_entry ::
    "'w venues \<Rightarrow> arbitrage_signal \<Rightarrow> dbl \<Rightarrow> market_view \<Rightarrow> order \<Rightarrow> order \<Rightarrow> 'w order_manager \<Rightarrow> 'w entry_state \<Rightarrow> 'w entry_state" where
  "settle_entry v sig size_usd mv foreign_order korean_order m es =
    (let short_price = resolved_fill_price foreign_order (mv_foreign_bid mv);
         buy_price = resolved_fill_price korean_order (mv_korean_ask mv);
         f = resolved_fill_quantity foreign_order;
         k = resolved_fill_quantity korean_order;
         (h, m) = hedge_open v (sig_korean_exchange sig) (sig_foreign_exchange sig) (sig_symbol sig) mv short_price buy_price f k m
     in case h of
          CoverFailed \<Rightarrow> stop_entry ''[RELAY-ENTRY] Failed to cover excess foreign short after Korean underfill''
             (open_mismatch sig size_usd es k f buy_price short_price (es_realized_pnl_krw es)) m es
        | SellFailed \<Rightarrow> stop_entry ''[RELAY-ENTRY] Failed to sell excess Korean spot after foreign underfill''
             (open_mismatch sig size_usd es k f buy_price short_price (es_realized_pnl_krw es)) m es
        | StillMismatched f k pnl \<Rightarrow> stop_entry ''[RELAY-ENTRY] Entry legs remain mismatched after delta hedge''
             (open_mismatch sig size_usd es k f buy_price short_price (es_realized_pnl_krw es + pnl)) m es
        | Hedged f k pnl \<Rightarrow> book_entry v sig size_usd mv short_price buy_price f k pnl m es)"

text \<open>The Korean purchase failed: cover the short again, or stop.\<close>

definition rollback_entry ::
    "'w venues \<Rightarrow> arbitrage_signal \<Rightarrow> dbl \<Rightarrow> market_view \<Rightarrow> string \<Rightarrow> dbl \<Rightarrow> order \<Rightarrow> 'w order_manager \<Rightarrow> 'w entry_state \<Rightarrow> 'w entry_state" where
  "rollback_entry v sig size_usd mv reason actual_filled foreign_order m es =
    (let (rollback, m) = execute_foreign_cover v (sig_foreign_exchange sig) (foreign_symbol_of (sig_symbol sig)) actual_filled m
     in if ord_status rollback \<noteq> Filled
        then stop_entry reason (rollback_mismatch sig size_usd es actual_filled foreign_order mv) m es
        else es\<lparr>es_om := m\<rparr>)"

definition entry_split ::
    "'w venues \<Rightarrow> arbitrage_signal \<Rightarrow> dbl \<Rightarrow> market_view \<Rightarrow> entry_plan \<Rightarrow> 'w entry_state \<Rightarrow> 'w entry_state" where
  "entry_split v sig size_usd mv plan es =
    (let foreign_symbol = foreign_symbol_of (sig_symbol sig);
         (foreign_order, m) = execute_foreign_short v (sig_foreign_exchange sig) foreign_symbol (ep_next_order_coin_amount plan) (es_om es)
     in if ord_status foreign_order \<noteq> Filled then es\<lparr>es_om := m\<rparr>
        else let actual_filled = ord_quantity foreign_order;
                 krw_amount = actual_filled * mv_korean_ask mv
          in if krw_amount < MIN_ORDER_KRW
             then rollback_entry v sig size_usd mv ''[RELAY-ENTRY] Bybit rollback failed after min-order guard (manual intervention required)''
                    actual_filled foreign_order m es
             else let (foreign_order, m) = handle_fill_query v FillForeign (sig_foreign_exchange sig) symbol_default foreign_order m;
                      (korean_order, m) = execute_korean_buy v (sig_korean_exchange sig) (sig_symbol sig) krw_amount m;
                      (korean_order, m) = handle_fill_query v FillKorean (sig_korean_exchange sig) (sig_symbol sig) korean_order m
               in if ord_status korean_order = Filled then settle_entry v sig size_usd mv foreign_order korean_order m es
                  else rollback_entry v sig size_usd mv ''[RELAY-ENTRY] Bybit rollback failed after Korean BUY rejection (manual intervention required)''
                         (resolved_fill_quantity foreign_order) foreign_order m es)"

section \<open>Exit split\<close>

definition exit_amount :: "dbl \<Rightarrow> dbl \<Rightarrow> dbl" where
  "exit_amount held_amount foreign_ask =
    (if held_amount * foreign_ask < lit 50 then held_amount else dmin (ORDER_SIZE_USD / foreign_ask) held_amount)"

definition hedge_close ::
    "'w venues \<Rightarrow> arbitrage_signal \<Rightarrow> market_view \<Rightarrow> dbl \<Rightarrow> dbl \<Rightarrow> dbl \<Rightarrow> dbl \<Rightarrow> dbl \<Rightarrow> 'w order_manager \<Rightarrow> hedge \<times> 'w order_manager" where
  "hedge_close v sig mv avg_korean_entry avg_foreign_entry pnl foreign_closed_qty korean_closed_qty m =
    (if quantities_match foreign_closed_qty korean_closed_qty then (Hedged foreign_closed_qty korean_closed_qty pnl, m)
     else if korean_closed_qty < foreign_closed_qty then
       let delta = foreign_closed_qty - korean_closed_qty;
           (ok, correction, m) = flatten_extra_korean_long v (sig_korean_exchange sig) (sig_symbol sig) delta m
       in if \<not> ok then (SellFailed, m)
          else let correction_qty = resolved_fill_quantity correction;
                   correction_price = resolved_fill_price correction (mv_korean_bid mv)
            in (hedged_if_match foreign_closed_qty (korean_closed_qty + correction_qty)
                  (pnl + (correction_price - avg_korean_entry) * correction_qty), m)
     else
       let delta = korean_closed_qty - foreign_closed_qty;
           (ok, correction, m) = flatten_extra_foreign_short v (sig_foreign_exchange sig) (foreign_symbol_of (sig_symbol sig)) delta m
       in if \<not> ok then (CoverFailed, m)
          else let correction_qty = resolved_fill_quantity correction;
                   correction_price = resolved_fill_price correction (mv_foreign_ask mv)
            in (hedged_if_match (foreign_closed_qty + correction_qty) korean_closed_qty
                  (pnl + (avg_foreign_entry - correction_price) * correction_qty * mv_usdt_rate mv), m))"

text \<open>Costs are reduced in proportion to what was closed.\<close>

definition reduce_held :: "dbl \<Rightarrow> 'w entry_state \<Rightarrow> 'w entry_state" where
  "reduce_held actual_covered es =
    (let held_amount = es_held_amount es;
         exit_ratio = (if 0 < held_amount then actual_covered / held_amount else 1)
     in es\<lparr>es_total_korean_cost := es_total_korean_cost es * (1 - exit_ratio),
           es_total_foreign_value := es_total_foreign_value es * (1 - exit_ratio),
           es_held_amount := held_amount - actual_covered\<rparr>)"

text \<open>A full exit: close the tracked position, report the trade, start the next cycle.\<close>

definition complete_cycle ::
    "'w venues \<Rightarrow> arbitrage_signal \<Rightarrow> dbl \<Rightarrow> market_view \<Rightarrow> dbl \<Rightarrow> 'w order_manager \<Rightarrow> 'w entry_state \<Rightarrow> 'w entry_state" where
  "complete_cycle v sig size_usd mv exit_premium m es =
    (let m = m\<lparr>om_engine := map_option (\<lambda>e. e\<lparr>en_tracker := snd (close_position (sig_symbol sig) (en_tracker e))\<rparr>) (om_engine m)\<rparr>;
         now = vn_system_now v (om_world m);
         completed = position_default\<lparr>pos_symbol := sig_symbol sig, pos_korean_exchange := sig_korean_exchange sig,
            pos_foreign_exchange := sig_foreign_exchange sig, pos_entry_time := pos_entry_time (er_position (es_result es)),
            pos_exit_time := now, pos_entry_premium := pos_entry_premium (er_position (es_result es)),
            pos_exit_premium := exit_premium, pos_position_size_usd := size_usd,
            pos_realized_pnl_krw := es_realized_pnl_krw es, pos_is_active := False\<rparr>;
         m = m\<lparr>om_completed_trades := om_completed_trades m @ [(completed, es_realized_pnl_krw es, mv_usdt_rate mv)]\<rparr>;
         r = es_result es
     in es\<lparr>es_total_korean_cost := 0, es_total_foreign_value := 0, es_realized_pnl_krw := 0,
           es_result := r\<lparr>er_position := (er_position r)\<lparr>pos_entry_time := now, pos_entry_premium := 0\<rparr>\<rparr>, es_om := m\<rparr>)"

definition book_exit ::
    "'w venues \<Rightarrow> arbitrage_signal \<Rightarrow> dbl \<Rightarrow> market_view \<Rightarrow> dbl \<Rightarrow> dbl \<Rightarrow> dbl \<Rightarrow> dbl \<Rightarrow> dbl \<Rightarrow> dbl \<Rightarrow> dbl \<Rightarrow> dbl \<Rightarrow>
     'w order_manager \<Rightarrow> 'w entry_state \<Rightarrow> 'w entry_state" where
  "book_exit v sig size_usd mv exit_premium avg_korean_entry avg_foreign_entry sell_price cover_price foreign_closed_qty korean_closed_qty
      split_pnl m es =
    (let actual_covered = dmin foreign_closed_qty korean_closed_qty;
         es = reduce_held actual_covered (es\<lparr>es_realized_pnl_krw := es_realized_pnl_krw es + split_pnl\<rparr>);
         held_amount = es_held_amount es;
         temp_pos = (er_position (es_result es))\<lparr>pos_korean_entry_price := avg_korean_entry, pos_foreign_entry_price := avg_foreign_entry\<rparr>;
         m = append_exit_split_log v temp_pos actual_covered sell_price cover_price split_pnl (mv_usdt_rate mv) (held_amount \<le> 0) m;
         snap = (entry_snapshot sig size_usd es held_amount held_amount
               (if 0 < held_amount then es_total_korean_cost es / held_amount else 0)
               (if 0 < held_amount then es_total_foreign_value es / held_amount else 0) (es_realized_pnl_krw es))
             \<lparr>pos_entry_premium := entry_pm sig es (mv_usdt_rate mv), pos_is_active := True\<rparr>;
         m = m\<lparr>om_position_updates := om_position_updates m @ [if 0 < held_amount then Some snap else None]\<rparr>
     in if held_amount \<le> 0 then complete_cycle v sig size_usd mv exit_premium m es else es\<lparr>es_om := m\<rparr>)"

definition settle_exit ::
    "'w venues \<Rightarrow> arbitrage_signal \<Rightarrow> dbl \<Rightarrow> market_view \<Rightarrow> dbl \<Rightarrow> order \<Rightarrow> order \<Rightarrow> 'w order_manager \<Rightarrow> 'w entry_state \<Rightarrow> 'w entry_state" where
  "settle_exit v sig size_usd mv exit_premium foreign_order korean_order m es =
    (let held_amount = es_held_amount es;
         avg_korean_entry = (if 0 < held_amount then es_total_korean_cost es / held_amount else 0);
         avg_foreign_entry = (if 0 < held_amount then es_total_foreign_value es / held_amount else 0);
         f = resolved_fill_quantity foreign_order;
         k = resolved_fill_quantity korean_order;
         cover_price = resolved_fill_price foreign_order (mv_foreign_ask mv);
         sell_price = resolved_fill_price korean_order (mv_korean_bid mv);
         korean_pnl_krw = (sell_price - avg_korean_entry) * k;
         foreign_pnl_usd = (avg_foreign_entry - cover_price) * f;
         split_pnl = korean_pnl_krw + (foreign_pnl_usd * mv_usdt_rate mv);
         (h, m) = hedge_close v sig mv avg_korean_entry avg_foreign_entry split_pnl f k m
     in case h of
          SellFailed \<Rightarrow> stop_entry ''[ADAPTIVE-EXIT] Failed to liquidate excess Korean spot after foreign over-cover''
             (close_mismatch sig size_usd es k f avg_korean_entry avg_foreign_entry (es_realized_pnl_krw es)) m es
        | CoverFailed \<Rightarrow> stop_entry ''[ADAPTIVE-EXIT] Failed to cover excess foreign short after Korean over-sell''
             (close_mismatch sig size_usd es k f avg_korean_entry avg_foreign_entry (es_realized_pnl_krw es)) m es
        | StillMismatched f k pnl \<Rightarrow> stop_entry ''[ADAPTIVE-EXIT] Exit legs remain mismatched after delta hedge''
             (close_mismatch sig size_usd es k f avg_korean_entry avg_foreign_entry (es_realized_pnl_krw es + pnl)) m es
        | Hedged f k pnl \<Rightarrow> book_exit v sig size_usd mv exit_premium avg_korean_entry avg_foreign_entry sell_price cover_price f k pnl m es)"

text \<open>The Korean sale failed after the cover: up to five retries, then the stop.\<close>

definition book_retry :: "market_view \<Rightarrow> dbl \<Rightarrow> dbl \<Rightarrow> order \<Rightarrow> 'w entry_state \<Rightarrow> 'w entry_state" where
  "book_retry mv actual_covered cover_price korean_order es =
    (let sell_price = (if ord_average_price korean_order \<le> 0 then mv_korean_bid mv else ord_average_price korean_order);
         held_amount = es_held_amount es;
         avg_korean_entry = (if 0 < held_amount then es_total_korean_cost es / held_amount else 0);
         avg_foreign_entry = (if 0 < held_amount then es_total_foreign_value es / held_amount else 0);
         korean_pnl_krw = (sell_price - avg_korean_entry) * actual_covered;
         foreign_pnl_usd = (avg_foreign_entry - cover_price) * actual_covered;
         foreign_pnl_krw = foreign_pnl_usd * mv_usdt_rate mv;
         split_pnl = korean_pnl_krw + foreign_pnl_krw
     in reduce_held actual_covered (es\<lparr>es_realized_pnl_krw := es_realized_pnl_krw es + split_pnl\<rparr>))"

definition retry_exit ::
    "'w venues \<Rightarrow> arbitrage_signal \<Rightarrow> dbl \<Rightarrow> market_view \<Rightarrow> order \<Rightarrow> order \<Rightarrow> 'w order_manager \<Rightarrow> 'w entry_state \<Rightarrow> 'w entry_state" where
  "retry_exit v sig size_usd mv foreign_order korean_order m es =
    (let actual_covered = resolved_fill_quantity foreign_order;
         cover_price = resolved_fill_price foreign_order (mv_foreign_ask mv);
         (sold, korean_order, m) = sell_retries v (sig_korean_exchange sig) (sig_symbol sig) actual_covered 5 korean_order m;
         es = (if sold then book_retry mv actual_covered cover_price korean_order es else es)
     in if ord_status korean_order \<noteq> Filled
        then let held_amount = es_held_amount es
          in stop_entry ''[ADAPTIVE-EXIT] Korean SELL failed after successful Bybit spot-margin cover; bot stopped for manual recovery''
               (entry_snapshot sig size_usd es held_amount (dmax 0 (held_amount - actual_covered))
                  (if 0 < held_amount then es_total_korean_cost es / held_amount else 0)
                  (if 0 < held_amount then es_total_foreign_value es / held_amount else 0) (es_realized_pnl_krw es)) m es
        else es\<lparr>es_om := m\<rparr>)"

definition exit_split ::
    "'w venues \<Rightarrow> arbitrage_signal \<Rightarrow> dbl \<Rightarrow> market_view \<Rightarrow> entry_plan \<Rightarrow> 'w entry_state \<Rightarrow> 'w entry_state" where
  "exit_split v sig size_usd mv plan es =
    (let foreign_symbol = foreign_symbol_of (sig_symbol sig);
         exit_coin_amount = exit_amount (es_held_amount es) (mv_foreign_ask mv);
         (foreign_order, m) = execute_foreign_cover v (sig_foreign_exchange sig) foreign_symbol exit_coin_amount (es_om es)
     in if ord_status foreign_order \<noteq> Filled then es\<lparr>es_om := m\<rparr>
        else let actual_covered = ord_quantity foreign_order;
                 (foreign_order, m) = handle_fill_query v FillForeign (sig_foreign_exchange sig) symbol_default foreign_order m;
                 (korean_order, m) = execute_korean_sell v (sig_korean_exchange sig) (sig_symbol sig) actual_covered m;
                 (korean_order, m) = handle_fill_query v FillKorean (sig_korean_exchange sig) (sig_symbol sig) korean_order m
          in if ord_status korean_order = Filled then settle_exit v sig size_usd mv (ep_exit_premium plan) foreign_order korean_order m es
             else retry_exit v sig size_usd mv foreign_order korean_order m es)"

section \<open>The loop\<close>

definition entry_turn :: "'w venues \<Rightarrow> arbitrage_signal \<Rightarrow> dbl \<Rightarrow> 'w entry_state \<Rightarrow> 'w entry_state" where
  "entry_turn v sig size_usd es =
    (let mv = entry_view v sig (es_held_amount es) (es_om es);
         es = es\<lparr>es_last_usdt_rate := mv_usdt_rate mv\<rparr>
     in if \<not> mv_quote_pair_ok mv then es
        else let plan = plan_entry sig size_usd es mv
          in if ep_enter plan then entry_split v sig size_usd mv plan es
             else if ep_dynamic_exit_threshold plan \<le> ep_exit_premium plan \<and> 0 < es_held_amount es
             then exit_split v sig size_usd mv plan es
             else es)"

text \<open>Every turn that does not return ends with a wait.\<close>

definition entry_iteration :: "'w venues \<Rightarrow> arbitrage_signal \<Rightarrow> dbl \<Rightarrow> 'w entry_state \<Rightarrow> 'w entry_state" where
  "entry_iteration v sig size_usd es =
    (let es = entry_turn v sig size_usd es
     in if es_returned es then es else es\<lparr>es_om := wait_for_next_market_update v (es_om es)\<rparr>)"

definition entry_loop :: "'w venues \<Rightarrow> arbitrage_signal \<Rightarrow> dbl \<Rightarrow> 'w entry_state \<Rightarrow> 'w entry_state option" where
  "entry_loop v sig size_usd = while_option (\<lambda>es. om_running (es_om es) \<and> \<not> es_returned es) (entry_iteration v sig size_usd)"

definition entry_finish :: "arbitrage_signal \<Rightarrow> 'w entry_state \<Rightarrow> execution_result" where
  "entry_finish sig es =
    (let r = (es_result es)\<lparr>er_position_managed := True\<rparr>; held_amount = es_held_amount es in
     if 0 < held_amount
     then r\<lparr>er_success := True, er_position := (er_position r)\<lparr>pos_korean_amount := held_amount, pos_foreign_amount := held_amount,
             pos_korean_entry_price := (if 0 < held_amount then es_total_korean_cost es / held_amount else 0),
             pos_foreign_entry_price := (if 0 < held_amount then es_total_foreign_value es / held_amount else 0),
             pos_entry_premium := entry_pm sig es (es_last_usdt_rate es), pos_is_active := True,
             pos_realized_pnl_krw := es_realized_pnl_krw es\<rparr>\<rparr>
     else r\<lparr>er_success := False, er_position := (er_position r)\<lparr>pos_is_active := False\<rparr>\<rparr>)"

definition entry_result_init ::
    "'w venues \<Rightarrow> arbitrage_signal \<Rightarrow> position option \<Rightarrow> dbl \<Rightarrow> 'w order_manager \<Rightarrow> execution_result" where
  "entry_result_init v sig initial size_usd m =
     execution_result_default\<lparr>er_position := position_default\<lparr>pos_symbol := sig_symbol sig,
       pos_korean_exchange := sig_korean_exchange sig, pos_foreign_exchange := sig_foreign_exchange sig,
       pos_entry_time := (case initial of Some p \<Rightarrow> pos_entry_time p | None \<Rightarrow> vn_system_now v (om_world m)),
       pos_entry_premium := (case initial of Some p \<Rightarrow> pos_entry_premium p | None \<Rightarrow> sig_premium sig),
       pos_position_size_usd := size_usd\<rparr>\<rparr>"

definition entry_state_init :: "arbitrage_signal \<Rightarrow> position option \<Rightarrow> execution_result \<Rightarrow> 'w order_manager \<Rightarrow> 'w entry_state" where
  "entry_state_init sig initial r m =
     \<lparr>es_held_amount = (case initial of Some p \<Rightarrow> pos_korean_amount p | None \<Rightarrow> 0),
      es_total_korean_cost = (case initial of Some p \<Rightarrow> pos_korean_entry_price p * pos_korean_amount p | None \<Rightarrow> 0),
      es_total_foreign_value = (case initial of Some p \<Rightarrow> pos_foreign_entry_price p * pos_foreign_amount p | None \<Rightarrow> 0),
      es_realized_pnl_krw = (case initial of Some p \<Rightarrow> pos_realized_pnl_krw p | None \<Rightarrow> 0),
      es_last_usdt_rate = sig_usdt_krw_rate sig, es_result = r, es_returned = False, es_om = m\<rparr>"

definition entry_position_size :: "int \<Rightarrow> 'w order_manager \<Rightarrow> dbl" where
  "entry_position_size max_positions m =
    (case om_engine m of Some e \<Rightarrow> get_position_size_usd max_positions (en_capital e) | None \<Rightarrow> POSITION_SIZE_USD)"

definition execute_spot_relay_entry ::
    "'w venues \<Rightarrow> int \<Rightarrow> arbitrage_signal \<Rightarrow> position option \<Rightarrow> 'w order_manager \<Rightarrow> (execution_result \<times> 'w order_manager) option" where
  "execute_spot_relay_entry v max_positions sig initial m =
    (let size_usd = entry_position_size max_positions m;
         r = entry_result_init v sig initial size_usd m
     in if get_korean_exchange m (sig_korean_exchange sig) = None \<or> get_foreign_exchange m (sig_foreign_exchange sig) = None
        then Some (r\<lparr>er_error_message := ''Exchange not available''\<rparr>, m)
        else if \<not> is_safe_to_trade m (sig_symbol sig) (sig_korean_exchange sig) (sig_foreign_exchange sig)
        then Some (r\<lparr>er_error_message := ''Existing position detected - skipping to prevent hedge break''\<rparr>, m)
        else if (case initial of Some p \<Rightarrow> \<not> quantities_match (pos_korean_amount p) (pos_foreign_amount p) | None \<Rightarrow> False)
        then Some (r\<lparr>er_error_message := ''Initial position is already mismatched; manual recovery required''\<rparr>, m)
        else case entry_loop v sig size_usd (entry_state_init sig initial r m) of
            None \<Rightarrow> None
          | Some es \<Rightarrow> Some (if es_returned es then es_result es else entry_finish sig es, es_om es))"

section \<open>What a turn leaves alone\<close>

context order_frame
begin

lemma open_hedge:
  "hedge_open v ke fe s mv sp bp f k m = (h, m') \<Longrightarrow> R m m'"
  by (auto simp: hedge_open_def Let_def intro: refl flatten_long flatten_short split: if_splits prod.splits)

lemma close_hedge:
  "hedge_close v sig mv ak af pnl f k m = (h, m') \<Longrightarrow> R m m'"
  by (auto simp: hedge_close_def Let_def intro: refl flatten_long flatten_short split: if_splits prod.splits)

end

text \<open>
  How a turn can end: it returns through the critical stop, or it goes on after it has reported no
  position (\<open>quiet\<close>), a snapshot with equal legs (\<open>booked\<close>), or the end of a cycle.
\<close>

definition hedged_report :: "position option \<Rightarrow> bool" where
  "hedged_report u = (case u of None \<Rightarrow> True | Some p \<Rightarrow> pos_korean_amount p = pos_foreign_amount p)"

text \<open>The lifecycle ended in a critical stop, which reported the position it returns.\<close>

definition risk_stopped :: "position option list \<Rightarrow> execution_result \<Rightarrow> 'w order_manager \<Rightarrow> bool" where
  "risk_stopped us r m \<longleftrightarrow> \<not> om_running m \<and> \<not> er_success r \<and> er_position_managed r \<and> er_error_message r \<noteq> [] \<and>
     us \<noteq> [] \<and> (\<forall>u \<in> set (butlast us). hedged_report u) \<and>
     last us = (if pos_is_active (er_position r) then Some (er_position r) else None) \<and>
     (\<forall>e. om_engine m = Some e \<longrightarrow> en_entry_suppressed e)"

definition turn_ok :: "'w entry_state \<Rightarrow> 'w entry_state \<Rightarrow> bool" where
  "turn_ok es es' \<longleftrightarrow> (\<exists>us. om_position_updates (es_om es') = om_position_updates (es_om es) @ us \<and>
     (if es_returned es' then risk_stopped us (es_result es') (es_om es') else \<forall>u \<in> set us. hedged_report u))"

lemma persist_fields [simp]:
  "om_position_updates (persist_snapshot p m) = om_position_updates m @ [if pos_is_active p then Some p else None]"
  "om_running (persist_snapshot p m) = om_running m" "om_sent (persist_snapshot p m) = om_sent m"
  "om_world (persist_snapshot p m) = om_world m"
  "om_engine (persist_snapshot p m) = map_option (\<lambda>e. e\<lparr>en_tracker :=
      (let t = snd (close_position (pos_symbol p) (en_tracker e)) in if pos_is_active p then snd (open_position p t) else t)\<rparr>) (om_engine m)"
  by (simp_all add: persist_snapshot_def Let_def split: option.split)

lemma log_fields [simp]:
  "om_position_updates (append_entry_split_log v s a b c d e f g m) = om_position_updates m"
  "om_sent (append_entry_split_log v s a b c d e f g m) = om_sent m"
  "om_world (append_entry_split_log v s a b c d e f g m) = om_world m"
  "om_running (append_entry_split_log v s a b c d e f g m) = om_running m"
  "om_position_updates (append_exit_split_log v p a b c d e' h m) = om_position_updates m"
  "om_sent (append_exit_split_log v p a b c d e' h m) = om_sent m"
  "om_world (append_exit_split_log v p a b c d e' h m) = om_world m"
  "om_running (append_exit_split_log v p a b c d e' h m) = om_running m"
  by (simp_all add: append_entry_split_log_def append_exit_split_log_def)

lemma trigger_fields:
  assumes "trigger_critical_stop reason snap r m = (r', m')" "reason \<noteq> []"
  shows "om_position_updates m' = om_position_updates m @ [if pos_is_active snap then Some snap else None]"
    "risk_stopped [if pos_is_active snap then Some snap else None] r' m'" "om_sent m' = om_sent m" "om_world m' = om_world m"
  using assms by (auto simp: trigger_critical_stop_def risk_stopped_def Let_def set_entry_suppressed_def)

lemma stop_turn:
  assumes "same_reports (es_om es) m" "reason \<noteq> []"
  shows "turn_ok es (stop_entry reason snap m es0)"
proof -
  obtain r m' where t: "trigger_critical_stop reason snap (es_result es0) m = (r, m')" by fastforce
  show ?thesis
    unfolding turn_ok_def using trigger_fields [OF t assms(2)] assms(1) t
    by (intro exI [of _ "[if pos_is_active snap then Some snap else None]"]) (simp add: stop_entry_def same_reports_def)
qed

lemma quiet_turn: "same_reports (es_om es) m \<Longrightarrow> \<not> es_returned es0 \<Longrightarrow> turn_ok es (es0\<lparr>es_om := m\<rparr>)"
  unfolding turn_ok_def by (intro exI [of _ "[]"]) (simp add: same_reports_def)

lemma book_entry_turn:
  assumes "same_reports (es_om es) m" "\<not> es_returned es0"
  shows "turn_ok es (book_entry v sig size_usd mv sp bp f k pnl m es0)"
  unfolding turn_ok_def book_entry_def Let_def using assms
  by (intro exI, intro conjI) (auto simp: same_reports_def hedged_report_def entry_snapshot_def)

lemma reduce_held_fields [simp]:
  "es_returned (reduce_held q es) = es_returned es" "es_om (reduce_held q es) = es_om es" "es_result (reduce_held q es) = es_result es"
  by (simp_all add: reduce_held_def Let_def)

text \<open>One report \<open>u\<close> more than before.\<close>

lemma complete_cycle_turn:
  assumes "same_reports (es_om es) m" "hedged_report u" "\<not> es_returned es0"
  shows "turn_ok es (complete_cycle v sig size_usd mv pm (m\<lparr>om_position_updates := om_position_updates m @ [u]\<rparr>) es0)"
  unfolding turn_ok_def complete_cycle_def Let_def using assms by (intro exI [of _ "[u]"]) (simp add: same_reports_def)

lemma report_turn:
  assumes "same_reports (es_om es) m" "hedged_report u" "\<not> es_returned es0"
  shows "turn_ok es (es0\<lparr>es_om := m\<lparr>om_position_updates := om_position_updates m @ [u]\<rparr>\<rparr>)"
  unfolding turn_ok_def using assms by (intro exI [of _ "[u]"]) (simp add: same_reports_def)

lemma hedged_snapshot:
  "hedged_report (if c then Some ((entry_snapshot sig size_usd es a a p q r)\<lparr>pos_entry_premium := x, pos_is_active := True\<rparr>) else None)"
  by (simp add: hedged_report_def entry_snapshot_def)

lemma exit_log_reports: "same_reports m m' \<Longrightarrow> same_reports m (append_exit_split_log v p a b c d e h m')"
  by (simp add: same_reports_def append_exit_split_log_def)

lemma book_exit_turn:
  assumes "same_reports (es_om es) m" "\<not> es_returned es0"
  shows "turn_ok es (book_exit v sig size_usd mv pm ak af sp cp f k pnl m es0)"
  unfolding book_exit_def Let_def
  by (split if_split, intro conjI impI complete_cycle_turn report_turn hedged_snapshot exit_log_reports assms(1)) (simp_all add: assms(2))

lemma settle_entry_turn:
  assumes "same_reports (es_om es) m" "\<not> es_returned es0"
  shows "turn_ok es (settle_entry v sig size_usd mv fo ko m es0)"
proof -
  have "same_reports (es_om es) m'"
    if "hedge_open v ke fe s mv sp bp f k m = (h, m')" for ke fe s sp bp f k h m'
    using reports.trans [OF assms(1) reports.open_hedge [OF that]] .
  then show ?thesis
    using assms(2) unfolding settle_entry_def Let_def
    by (auto split: prod.split hedge.split intro!: stop_turn book_entry_turn)
qed

lemma rollback_entry_turn:
  assumes "same_reports (es_om es) m" "\<not> es_returned es0" "reason \<noteq> []"
  shows "turn_ok es (rollback_entry v sig size_usd mv reason q fo m es0)"
  using assms reports.trans [OF assms(1) reports.cover]
  unfolding rollback_entry_def Let_def by (auto split: prod.split intro!: stop_turn quiet_turn)

lemma book_retry_returned [simp]: "es_returned (book_retry mv q c o' es) = es_returned es"
  by (simp add: book_retry_def Let_def)

lemma settle_exit_turn:
  assumes "same_reports (es_om es) m" "\<not> es_returned es0"
  shows "turn_ok es (settle_exit v sig size_usd mv pm fo ko m es0)"
proof -
  have "same_reports (es_om es) m'" if "hedge_close v sig mv ak af pnl f k m = (h, m')" for ak af pnl f k h m'
    using reports.trans [OF assms(1) reports.close_hedge [OF that]] .
  then show ?thesis
    using assms(2) unfolding settle_exit_def Let_def
    by (auto split: prod.split hedge.split intro!: stop_turn book_exit_turn)
qed

lemma retry_exit_turn:
  assumes "same_reports (es_om es) m" "\<not> es_returned es0"
  shows "turn_ok es (retry_exit v sig size_usd mv fo ko m es0)"
  using assms(2) reports.trans [OF assms(1) reports.retries]
  unfolding retry_exit_def Let_def
  by (auto split: prod.split intro!: stop_turn quiet_turn)

lemma entry_split_turn:
  assumes "\<not> es_returned es"
  shows "turn_ok es (entry_split v sig size_usd mv plan es)"
proof -
  obtain o1 m1 where 1: "execute_foreign_short v (sig_foreign_exchange sig) (foreign_symbol_of (sig_symbol sig))
      (ep_next_order_coin_amount plan) (es_om es) = (o1, m1)" by fastforce
  obtain o2 m2 where 2: "handle_fill_query v FillForeign (sig_foreign_exchange sig) symbol_default o1 m1 = (o2, m2)" by fastforce
  obtain o3 m3 where 3: "execute_korean_buy v (sig_korean_exchange sig) (sig_symbol sig) (ord_quantity o1 * mv_korean_ask mv) m2 = (o3, m3)"
    by fastforce
  obtain o4 m4 where 4: "handle_fill_query v FillKorean (sig_korean_exchange sig) (sig_symbol sig) o3 m3 = (o4, m4)" by fastforce
  have r1: "same_reports (es_om es) m1" using 1 by (rule short_reports)
  have r4: "same_reports (es_om es) m4"
    using r1 reports.fill_query [OF 2] reports.buy [OF 3] reports.fill_query [OF 4] by (blast intro: reports.trans)
  show ?thesis
    using assms r1 r4 by (simp add: entry_split_def Let_def 1 2 3 4 quiet_turn rollback_entry_turn settle_entry_turn)
qed

lemma exit_split_turn:
  assumes "\<not> es_returned es"
  shows "turn_ok es (exit_split v sig size_usd mv plan es)"
proof -
  obtain o1 m1 where 1: "execute_foreign_cover v (sig_foreign_exchange sig) (foreign_symbol_of (sig_symbol sig))
      (exit_amount (es_held_amount es) (mv_foreign_ask mv)) (es_om es) = (o1, m1)" by fastforce
  obtain o2 m2 where 2: "handle_fill_query v FillForeign (sig_foreign_exchange sig) symbol_default o1 m1 = (o2, m2)" by fastforce
  obtain o3 m3 where 3: "execute_korean_sell v (sig_korean_exchange sig) (sig_symbol sig) (ord_quantity o1) m2 = (o3, m3)" by fastforce
  obtain o4 m4 where 4: "handle_fill_query v FillKorean (sig_korean_exchange sig) (sig_symbol sig) o3 m3 = (o4, m4)" by fastforce
  have r1: "same_reports (es_om es) m1" using 1 by (rule reports.cover)
  have r4: "same_reports (es_om es) m4"
    using r1 reports.fill_query [OF 2] reports.sell [OF 3] reports.fill_query [OF 4] by (blast intro: reports.trans)
  show ?thesis
    using assms r1 r4 by (simp add: exit_split_def Let_def 1 2 3 4 quiet_turn retry_exit_turn settle_exit_turn)
qed

lemma turn_ok_rate: "turn_ok (es\<lparr>es_last_usdt_rate := x\<rparr>) es' = turn_ok es es'"
  by (simp add: turn_ok_def)

lemma entry_turn_ok:
  assumes "\<not> es_returned es"
  shows "turn_ok es (entry_turn v sig size_usd es)"
proof -
  have idle: "turn_ok es (es\<lparr>es_last_usdt_rate := x\<rparr>)" for x
    using assms unfolding turn_ok_def by (intro exI [of _ "[]"]) simp
  have "turn_ok es (entry_split v sig size_usd mv plan (es\<lparr>es_last_usdt_rate := x\<rparr>))"
    "turn_ok es (exit_split v sig size_usd mv plan (es\<lparr>es_last_usdt_rate := x\<rparr>))" for mv plan x
    using entry_split_turn [of "es\<lparr>es_last_usdt_rate := x\<rparr>"] exit_split_turn [of "es\<lparr>es_last_usdt_rate := x\<rparr>"] assms
    by (simp_all add: turn_ok_rate)
  with idle show ?thesis by (simp add: entry_turn_def Let_def)
qed

lemma wait_fields [simp]:
  "om_position_updates (wait_for_next_market_update v m) = om_position_updates m"
  "om_completed_trades (wait_for_next_market_update v m) = om_completed_trades m"
  by (simp_all add: wait_for_next_market_update_def split: prod.split)

lemma entry_iteration_ok: "\<not> es_returned es \<Longrightarrow> turn_ok es (entry_iteration v sig size_usd es)"
  using entry_turn_ok [of es v sig size_usd] by (auto simp: entry_iteration_def Let_def turn_ok_def)

text \<open>Turns compose while none of them returned.\<close>

lemma turn_ok_trans:
  assumes "turn_ok a b" "\<not> es_returned b" "turn_ok b c"
  shows "turn_ok a c"
proof -
  obtain us where us: "om_position_updates (es_om b) = om_position_updates (es_om a) @ us" "\<forall>u \<in> set us. hedged_report u"
    using assms(1,2) by (auto simp: turn_ok_def)
  obtain ws where "om_position_updates (es_om c) = om_position_updates (es_om b) @ ws"
    "if es_returned c then risk_stopped ws (es_result c) (es_om c) else \<forall>u \<in> set ws. hedged_report u"
    using assms(3) by (auto simp: turn_ok_def)
  then show ?thesis
    using us unfolding turn_ok_def by (intro exI [of _ "us @ ws"]) (auto simp: risk_stopped_def butlast_append split: if_splits)
qed

lemma entry_loop_ok:
  assumes "entry_loop v sig size_usd es = Some es'" "\<not> es_returned es"
  shows "turn_ok es es'" "es_returned es' \<or> \<not> om_running (es_om es')"
proof -
  have "turn_ok es es" unfolding turn_ok_def using assms(2) by (intro exI [of _ "[]"]) simp
  then show "turn_ok es es'"
    using while_option_rule [where P = "turn_ok es", OF _ assms(1) [unfolded entry_loop_def]] turn_ok_trans entry_iteration_ok by blast
  show "es_returned es' \<or> \<not> om_running (es_om es')"
    using while_option_stop [OF assms(1) [unfolded entry_loop_def]] by blast
qed


section \<open>Orders and time of a turn\<close>

text \<open>A relation that, besides, sees of a state only its world and the orders sent: bookkeeping keeps it.\<close>

locale ledger_frame = order_frame +
  assumes books: "om_world m' = om_world m \<Longrightarrow> om_sent m' = om_sent m \<Longrightarrow> R m m'"
begin

lemma stop_frame: "R m0 m \<Longrightarrow> R m0 (es_om (stop_entry reason snap m es))"
  by (rule trans, assumption, rule books) (simp_all add: stop_entry_def trigger_critical_stop_def Let_def split: prod.split)

lemma book_entry_frame: "R m0 m \<Longrightarrow> R m0 (es_om (book_entry v sig size_usd mv sp bp f k pnl m es))"
  by (rule trans, assumption, rule books) (simp_all add: book_entry_def Let_def)

lemma book_exit_frame: "R m0 m \<Longrightarrow> R m0 (es_om (book_exit v sig size_usd mv pm ak af sp cp f k pnl m es))"
  by (rule trans, assumption, rule books) (simp_all add: book_exit_def complete_cycle_def Let_def)

lemma settle_entry_frame: "R m0 m \<Longrightarrow> R m0 (es_om (settle_entry v sig size_usd mv fo ko m es))"
  unfolding settle_entry_def Let_def
  by (auto split: prod.split hedge.split intro!: stop_frame book_entry_frame intro: trans [OF _ open_hedge])

lemma rollback_entry_frame: "R m0 m \<Longrightarrow> R m0 (es_om (rollback_entry v sig size_usd mv reason q fo m es))"
  unfolding rollback_entry_def Let_def by (auto split: prod.split intro!: stop_frame intro: trans [OF _ cover])

lemma settle_exit_frame: "R m0 m \<Longrightarrow> R m0 (es_om (settle_exit v sig size_usd mv pm fo ko m es))"
  unfolding settle_exit_def Let_def
  by (auto split: prod.split hedge.split intro!: stop_frame book_exit_frame intro: trans [OF _ close_hedge])

lemma retry_exit_frame: "R m0 m \<Longrightarrow> R m0 (es_om (retry_exit v sig size_usd mv fo ko m es))"
  unfolding retry_exit_def Let_def by (auto split: prod.split intro!: stop_frame intro: trans [OF _ retries])

text \<open>After the short, the rest of an entry split keeps the relation.\<close>

lemma entry_split_frame:
  assumes 1: "execute_foreign_short v (sig_foreign_exchange sig) (foreign_symbol_of (sig_symbol sig))
      (ep_next_order_coin_amount plan) (es_om es) = (o1, m1)"
  shows "R m1 (es_om (entry_split v sig size_usd mv plan es))"
proof -
  obtain o2 m2 where 2: "handle_fill_query v FillForeign (sig_foreign_exchange sig) symbol_default o1 m1 = (o2, m2)" by fastforce
  obtain o3 m3 where 3: "execute_korean_buy v (sig_korean_exchange sig) (sig_symbol sig) (ord_quantity o1 * mv_korean_ask mv) m2 = (o3, m3)"
    by fastforce
  obtain o4 m4 where 4: "handle_fill_query v FillKorean (sig_korean_exchange sig) (sig_symbol sig) o3 m3 = (o4, m4)" by fastforce
  have "R m1 m4" using fill_query [OF 2] buy [OF 3] fill_query [OF 4] by (blast intro: trans)
  then show ?thesis
    by (simp add: entry_split_def Let_def 1 2 3 4 refl rollback_entry_frame settle_entry_frame)
qed

lemma exit_split_frame: "R (es_om es) (es_om (exit_split v sig size_usd mv plan es))"
proof -
  obtain o1 m1 where 1: "execute_foreign_cover v (sig_foreign_exchange sig) (foreign_symbol_of (sig_symbol sig))
      (exit_amount (es_held_amount es) (mv_foreign_ask mv)) (es_om es) = (o1, m1)" by fastforce
  obtain o2 m2 where 2: "handle_fill_query v FillForeign (sig_foreign_exchange sig) symbol_default o1 m1 = (o2, m2)" by fastforce
  obtain o3 m3 where 3: "execute_korean_sell v (sig_korean_exchange sig) (sig_symbol sig) (ord_quantity o1) m2 = (o3, m3)" by fastforce
  obtain o4 m4 where 4: "handle_fill_query v FillKorean (sig_korean_exchange sig) (sig_symbol sig) o3 m3 = (o4, m4)" by fastforce
  have r: "R (es_om es) m1" "R (es_om es) m4"
    using cover [OF 1] fill_query [OF 2] sell [OF 3] fill_query [OF 4] by (blast intro: trans)+
  then show ?thesis
    by (simp add: exit_split_def Let_def 1 2 3 4 settle_exit_frame retry_exit_frame)
qed

end

interpretation shorts: ledger_frame v same_shorts for v :: "'w venues"
  by unfold_locales (simp add: same_shorts_def shorts_sent_def)

lemma pauses_ledger:
  assumes "pauses_run_out f v"
  shows "ledger_frame v (\<lambda>m m'. f (om_world m') \<le> f (om_world m))"
  using pauses_frame [OF assms] by (simp add: ledger_frame_def ledger_frame_axioms_def)

lemma entry_turn_frame:
  assumes "ledger_frame v R"
    and "\<And>s q m o' m'. execute_foreign_short v (sig_foreign_exchange sig) s q m = (o', m') \<Longrightarrow> R m m'"
  shows "R (es_om es) (es_om (entry_turn v sig size_usd es))"
proof -
  note fr = ledger_frame.axioms(1) [OF assms(1)]
  have entry: "R (es_om e) (es_om (entry_split v sig size_usd mv plan e))" for e mv plan
  proof -
    obtain o1 m1 where 1: "execute_foreign_short v (sig_foreign_exchange sig) (foreign_symbol_of (sig_symbol sig))
        (ep_next_order_coin_amount plan) (es_om e) = (o1, m1)" by fastforce
    show ?thesis using assms(2) [OF 1] ledger_frame.entry_split_frame [OF assms(1) 1] by (rule order_frame.trans [OF fr])
  qed
  have rate: "es_om (es\<lparr>es_last_usdt_rate := x\<rparr>) = es_om es" for x by simp
  show ?thesis
    unfolding entry_turn_def Let_def
    using entry [of "es\<lparr>es_last_usdt_rate := x\<rparr>" for x] ledger_frame.exit_split_frame [OF assms(1), of "es\<lparr>es_last_usdt_rate := x\<rparr>" for x]
      order_frame.refl [OF fr] by (simp only: rate split: if_split) simp
qed

lemma wait_time:
  assumes "pauses_run_out f v" "om_running (wait_for_next_market_update v m)"
  shows "f (om_world (wait_for_next_market_update v m)) < f (om_world m)"
proof -
  obtain stop w where p: "vn_pause v (om_world m) = (stop, w)" by fastforce
  then have "\<not> stop" using assms(2) by (simp add: wait_for_next_market_update_def)
  moreover have "fst (vn_pause v (om_world m)) \<or> f (snd (vn_pause v (om_world m))) < f (om_world m)"
    using assms(1) unfolding pauses_run_out_def by blast
  ultimately show ?thesis using p by (simp add: wait_for_next_market_update_def)
qed

lemma entry_iteration_time:
  assumes "pauses_run_out f v" "om_running (es_om (entry_iteration v sig size_usd es))" "\<not> es_returned (entry_iteration v sig size_usd es)"
  shows "f (om_world (es_om (entry_iteration v sig size_usd es))) < f (om_world (es_om es))"
proof -
  let ?t = "entry_turn v sig size_usd es"
  have "f (om_world (es_om ?t)) \<le> f (om_world (es_om es))"
    by (rule entry_turn_frame [OF pauses_ledger [OF assms(1)]]) (rule short_pauses [OF assms(1)])
  then show ?thesis
    using assms wait_time [OF assms(1), of "es_om ?t"] by (auto simp: entry_iteration_def Let_def split: if_splits)
qed

lemma entry_lifecycle_some:
  assumes "pauses_run_out f v"
  shows "\<exists>r m'. execute_spot_relay_entry v max_positions sig initial m = Some (r, m')"
proof -
  let ?g = "\<lambda>es. if om_running (es_om es) \<and> \<not> es_returned es then Suc (f (om_world (es_om es))) else 0"
  have "\<exists>es'. entry_loop v sig size_usd es = Some es'" for size_usd es
    unfolding entry_loop_def
    by (rule measure_while_option_Some [where P = "\<lambda>_. True" and f = ?g])
      (auto dest: entry_iteration_time [OF assms])
  then obtain g where "entry_loop v sig size_usd es = Some (g size_usd es)" for size_usd es by metis
  then show ?thesis by (auto simp: execute_spot_relay_entry_def Let_def)
qed

text \<open>
  C25. A lifecycle ends when it is told to: if the calls of the venues return and every pause
  either brings the request to shut down or uses up part of a finite supply, the loop is left and
  a result is returned, whatever is bought, sold or refused on the way.
\<close>

theorem entry_lifecycle_returns:
  assumes "pauses_run_out f v"
  shows "\<exists>r m'. execute_spot_relay_entry v max_positions sig initial m = Some (r, m')"
  using assms by (rule entry_lifecycle_some)

section \<open>The gate before a short\<close>

lemma dmin_pos_le: "a \<noteq> NaN \<Longrightarrow> 0 < dmin a b \<Longrightarrow> dmin a b \<le> a"
  by (auto simp: dmin_def dbl_le_refl dbl_lt_le split: if_splits)

text \<open>The quotes a short is opened on, and the notional it opens.\<close>

definition gated_short :: "arbitrage_signal \<Rightarrow> sent_order \<Rightarrow> bool" where
  "gated_short sig x \<longleftrightarrow> (\<exists>ex (mv :: market_view) usd. x = SentShort ex (foreign_symbol_of (sig_symbol sig)) (usd / mv_foreign_bid mv) \<and>
     0 < usd \<and> usd \<le> ORDER_SIZE_USD \<and> usd \<le> mv_foreign_bid mv * mv_foreign_bid_qty mv \<and>
     0 < mv_korean_ask mv \<and> 0 < mv_foreign_bid mv \<and> 0 < mv_usdt_rate mv \<and>
     (let rm = calculate_relay_metrics (mv_korean_ask mv) (mv_korean_ask_qty mv) (mv_foreign_bid mv) (mv_foreign_bid_qty mv)
           (mv_usdt_rate mv) BITHUMB_FEE_RATE BYBIT_FEE_RATE 0
      in MIN_ENTRY_NET_PROFIT_KRW \<le> rm_net_profit_krw rm \<and> rm_match_buy_krw rm < rm_match_sell_krw rm))"

lemma plan_gate:
  assumes "ep_enter (plan_entry sig size_usd es mv)"
  shows "gated_short sig (SentShort ex (foreign_symbol_of (sig_symbol sig)) (ep_next_order_coin_amount (plan_entry sig size_usd es mv)))"
proof -
  let ?usd = "dmin ORDER_SIZE_USD (dmax 0 (size_usd - es_total_foreign_value es))"
  let ?ka = "mv_korean_ask mv" and ?kq = "mv_korean_ask_qty mv" and ?fb = "mv_foreign_bid mv" and ?fq = "mv_foreign_bid_qty mv"
    and ?r = "mv_usdt_rate mv"
  let ?rm = "calculate_relay_metrics ?ka ?kq ?fb ?fq ?r BITHUMB_FEE_RATE BYBIT_FEE_RATE 0"
  have g: "MIN_NET_EDGE_PCT < rm_net_edge_pct ?rm" "MIN_ENTRY_NET_PROFIT_KRW \<le> rm_net_profit_krw ?rm" "0 < ?usd"
    "?usd \<le> (if 0 < ?r then (?ka * ?kq) / ?r else 0)" "?usd \<le> ?fb * ?fq"
    using assms by (simp_all add: plan_entry_def Let_def)
  have r: "0 < ?r" using g(3,4) by (auto split: if_splits dest: dbl_lt_not_le)
  have nn: "?ka \<noteq> NaN" "?kq \<noteq> NaN" "?fb \<noteq> NaN" "?fq \<noteq> NaN" using g(4,5) r by auto
  have "\<not> (?ka \<le> 0 \<or> ?kq \<le> 0 \<or> ?fb \<le> 0 \<or> ?fq \<le> 0 \<or> ?r \<le> 0)"
  proof
    assume "?ka \<le> 0 \<or> ?kq \<le> 0 \<or> ?fb \<le> 0 \<or> ?fq \<le> 0 \<or> ?r \<le> 0"
    then have "?rm = relay_metrics_default" by (simp add: calculate_relay_metrics_def)
    then show False using g(1) by (simp add: relay_metrics_default_def cfg)
  qed
  then have ok: "0 < ?ka" "0 < ?kq" "0 < ?fb" "0 < ?fq" using nn by (simp_all add: dbl_pos_iff)
  have rates: "0 \<le> BITHUMB_FEE_RATE" "0 \<le> BYBIT_FEE_RATE" by (simp_all add: cfg lit_nonneg)
  have zero: "(0 :: dbl) \<le> 0" by (simp add: zero_dbl_def)
  have "?usd \<le> ORDER_SIZE_USD" using g(3) by (intro dmin_pos_le) (simp_all add: cfg)
  then show ?thesis
    unfolding gated_short_def using g ok r floor_covers_fees(3) [OF ok r g(2) rates zero]
    by (intro exI [of _ ex] exI [of _ mv] exI [of _ ?usd]) (simp add: plan_entry_def Let_def)
qed

lemma entry_split_shorts:
  assumes "ep_enter (plan_entry sig size_usd es0 mv)" "plan = plan_entry sig size_usd es0 mv"
  shows "\<exists>ss. shorts_sent (es_om (entry_split v sig size_usd mv plan es)) = shorts_sent (es_om es) @ ss \<and> (\<forall>x \<in> set ss. gated_short sig x)"
proof -
  obtain o1 m1 where 1: "execute_foreign_short v (sig_foreign_exchange sig) (foreign_symbol_of (sig_symbol sig))
      (ep_next_order_coin_amount plan) (es_om es) = (o1, m1)" by fastforce
  have "shorts_sent (es_om (entry_split v sig size_usd mv plan es)) = shorts_sent m1"
    using shorts.entry_split_frame [OF 1] by (simp add: same_shorts_def)
  then show ?thesis using short_shorts [OF 1] plan_gate [OF assms(1)] assms(2) by auto
qed

definition shorts_grow :: "arbitrage_signal \<Rightarrow> 'w order_manager \<Rightarrow> 'w order_manager \<Rightarrow> bool" where
  "shorts_grow sig m m' \<longleftrightarrow> (\<exists>ss. shorts_sent m' = shorts_sent m @ ss \<and> (\<forall>x \<in> set ss. gated_short sig x))"

lemma shorts_grow_refl: "same_shorts m m' \<Longrightarrow> shorts_grow sig m m'"
  by (simp add: shorts_grow_def same_shorts_def)

lemma shorts_grow_trans: "shorts_grow sig a b \<Longrightarrow> shorts_grow sig b c \<Longrightarrow> shorts_grow sig a c"
  unfolding shorts_grow_def by (metis append.assoc set_append Un_iff)

lemma entry_iteration_shorts: "shorts_grow sig (es_om es) (es_om (entry_iteration v sig size_usd es))"
proof -
  let ?e = "\<lambda>x. es\<lparr>es_last_usdt_rate := x\<rparr>"
  have "shorts_grow sig (es_om es) (es_om (entry_split v sig size_usd mv (plan_entry sig size_usd (?e x) mv) (?e x)))"
    if "ep_enter (plan_entry sig size_usd (?e x) mv)" for mv x
    using entry_split_shorts [OF that refl, of v "?e x"] by (simp add: shorts_grow_def)
  moreover have "same_shorts (es_om es) (es_om (exit_split v sig size_usd mv plan (?e x)))" for mv plan x
    using shorts.exit_split_frame [of "?e x"] by simp
  ultimately have "shorts_grow sig (es_om es) (es_om (entry_turn v sig size_usd es))"
    by (simp add: entry_turn_def Let_def shorts_grow_refl shorts.refl)
  then show ?thesis
    using shorts_grow_trans shorts_grow_refl [OF shorts.pause] by (fastforce simp: entry_iteration_def Let_def)
qed


section \<open>Refusals and retries\<close>

text \<open>
  A refused lifecycle touches nothing: without both venues, for a blacklisted symbol, with a
  blocked transfer route, or on top of a position with unequal legs, the call returns at once, the
  manager is as before, no order is sent, and the result says why.
\<close>

lemma entry_refused_untouched:
  assumes "get_korean_exchange m (sig_korean_exchange sig) = None \<or> get_foreign_exchange m (sig_foreign_exchange sig) = None \<or>
     sig_symbol sig \<in> set (om_external_position_blacklist m) \<or>
     (\<exists>e. om_engine m = Some e \<and> \<not> is_transfer_route_available (en_prices e) (sig_korean_exchange sig) (sig_foreign_exchange sig)
        (get_base (sig_symbol sig))) \<or>
     (\<exists>p. initial = Some p \<and> \<not> quantities_match (pos_korean_amount p) (pos_foreign_amount p))"
  shows "\<exists>r. execute_spot_relay_entry v max_positions sig initial m = Some (r, m) \<and> \<not> er_success r \<and> er_error_message r \<noteq> []"
  using assms
  by (auto simp: execute_spot_relay_entry_def is_safe_to_trade_def entry_result_init_def execution_result_default_def Let_def)


section \<open>Examples\<close>

definition demo_entry :: arbitrage_signal where
  "demo_entry = \<lparr>sig_symbol = SymbolId ''XRP'' ''KRW'', sig_korean_exchange = Bithumb, sig_foreign_exchange = Bybit, sig_premium = lit (-3),
     sig_korean_ask = lit 1450, sig_korean_ask_qty = lit 100, sig_foreign_bid = 1, sig_foreign_bid_qty = lit 100, sig_match_qty = lit 100,
     sig_target_coin_qty = lit 35, sig_max_tradable_usdt_at_best = lit 100, sig_gross_edge_pct = lit 3, sig_net_edge_pct = lit 3,
     sig_net_profit_krw = lit 1500, sig_both_can_fill_target = True, sig_usdt_krw_rate = lit 1500\<rparr>"

end
