(* ===== verification/ExitLoop.thy ===== *)
theory ExitLoop
  imports EntryLoop
begin

text \<open>
  The exit lifecycle of a recovered or signalled position,
  \<^verbatim>\<open>OrderManager::execute_spot_relay_exit\<close> of \<^verbatim>\<open>src/execution/order_manager.cpp\<close>: exit splits
  (cover abroad, sell in Korea), re-entry splits while the premium is low again, and waiting,
  until nothing is left or the manager is stopped.
\<close>

section \<open>State, view and premium\<close>

record 'w exit_state =
  xl_remaining_amount :: dbl
  xl_total_korean_cost :: dbl
  xl_total_foreign_value :: dbl
  xl_realized_pnl_krw :: dbl
  xl_total_korean_proceeds :: dbl
  xl_total_foreign_cost :: dbl
  xl_total_exited_amount :: dbl
  xl_last_usdt_rate :: dbl
  xl_result :: execution_result
  xl_returned :: bool
  xl_om :: "'w order_manager"

definition exit_view :: "'w venues \<Rightarrow> exit_signal \<Rightarrow> position \<Rightarrow> 'w order_manager \<Rightarrow> market_view" where
  "exit_view v sig pos m =
    (let mv = \<lparr>mv_foreign_bid = 0, mv_foreign_ask = xs_foreign_ask sig, mv_foreign_bid_qty = 0, mv_korean_ask = 0,
           mv_korean_bid = xs_korean_bid sig, mv_korean_ask_qty = 0, mv_usdt_rate = xs_usdt_krw_rate sig,
           mv_quote_pair_ok = (om_engine m = None)\<rparr>
     in case om_engine m of
         None \<Rightarrow> mv
       | Some e \<Rightarrow>
          let foreign_price = get_price (en_prices e) (xs_foreign_exchange sig) (foreign_symbol_of (pos_symbol pos));
              korean_price = get_price (en_prices e) (xs_korean_exchange sig) (pos_symbol pos);
              mv = (if om_quote_pair_is_usable (vn_steady_now_ms v (om_world m)) korean_price foreign_price True
                then mv\<lparr>mv_foreign_bid := pd_bid foreign_price, mv_foreign_ask := pd_ask foreign_price,
                      mv_korean_ask := pd_ask korean_price, mv_korean_bid := pd_bid korean_price, mv_quote_pair_ok := True\<rparr>
                else mv);
              bithumb_usdt = get_usdt_krw (en_prices e) Bithumb
          in if 0 < bithumb_usdt then mv\<lparr>mv_usdt_rate := bithumb_usdt\<rparr> else mv)"

abbreviation exit_pm :: "position \<Rightarrow> 'w exit_state \<Rightarrow> dbl \<Rightarrow> dbl" where
  "exit_pm pos st \<equiv> effective_entry_pm (pos_entry_premium pos) (xl_remaining_amount st) (xl_total_korean_cost st) (xl_total_foreign_value st)"

definition view_exit_premium :: "market_view \<Rightarrow> dbl" where
  "view_exit_premium mv =
    (if 0 < mv_foreign_ask mv \<and> 0 < mv_usdt_rate mv \<and> 0 < mv_korean_bid mv
     then let foreign_krw = mv_foreign_ask mv * mv_usdt_rate mv in ((mv_korean_bid mv - foreign_krw) / foreign_krw) * lit 100
     else 0)"

definition view_entry_premium :: "market_view \<Rightarrow> dbl" where
  "view_entry_premium mv =
    (if 0 < mv_foreign_bid mv \<and> 0 < mv_usdt_rate mv \<and> 0 < mv_korean_ask mv
     then let foreign_krw = mv_foreign_bid mv * mv_usdt_rate mv in ((mv_korean_ask mv - foreign_krw) / foreign_krw) * lit 100
     else 0)"

text \<open>Every mismatch snapshot of the function: the given position with new amounts, prices and profit.\<close>

definition exit_mismatch :: "position \<Rightarrow> 'w exit_state \<Rightarrow> dbl \<Rightarrow> dbl \<Rightarrow> dbl \<Rightarrow> dbl \<Rightarrow> dbl \<Rightarrow> dbl \<Rightarrow> position" where
  "exit_mismatch pos st usdt_rate korean_amount foreign_amount korean_price foreign_price pnl =
     pos\<lparr>pos_korean_amount := korean_amount, pos_foreign_amount := foreign_amount, pos_korean_entry_price := korean_price,
       pos_foreign_entry_price := foreign_price, pos_entry_premium := exit_pm pos st usdt_rate, pos_realized_pnl_krw := pnl,
       pos_is_active := 0 < korean_amount \<or> 0 < foreign_amount\<rparr>"

text \<open>The snapshot of equal legs that is saved after a split.\<close>

definition exit_snapshot :: "position \<Rightarrow> 'w exit_state \<Rightarrow> dbl \<Rightarrow> position" where
  "exit_snapshot pos st usdt_rate =
    (let remaining = xl_remaining_amount st
     in pos\<lparr>pos_korean_amount := remaining, pos_foreign_amount := remaining,
          pos_korean_entry_price := xl_total_korean_cost st / remaining,
          pos_foreign_entry_price := xl_total_foreign_value st / remaining,
          pos_entry_premium := exit_pm pos st usdt_rate, pos_realized_pnl_krw := xl_realized_pnl_krw st\<rparr>)"

definition stop_exit :: "string \<Rightarrow> position \<Rightarrow> 'w order_manager \<Rightarrow> 'w exit_state \<Rightarrow> 'w exit_state" where
  "stop_exit reason snap m st =
    (case trigger_critical_stop reason snap (xl_result st) m of (r, m) \<Rightarrow> st\<lparr>xl_result := r, xl_returned := True, xl_om := m\<rparr>)"

definition push_update :: "position option \<Rightarrow> 'w order_manager \<Rightarrow> 'w order_manager" where
  "push_update u m = m\<lparr>om_position_updates := om_position_updates m @ [u]\<rparr>"

section \<open>Exit split\<close>

text \<open>Profit, proceeds and the proportional reduction of the costs after \<open>actual_covered\<close> coins were closed.\<close>

definition close_coins :: "market_view \<Rightarrow> dbl \<Rightarrow> dbl \<Rightarrow> dbl \<Rightarrow> 'w exit_state \<Rightarrow> dbl \<times> 'w exit_state" where
  "close_coins mv actual_covered sell_price cover_price st =
    (let remaining = xl_remaining_amount st;
         avg_korean_entry = xl_total_korean_cost st / remaining;
         avg_foreign_entry = xl_total_foreign_value st / remaining;
         korean_pnl_krw = (sell_price - avg_korean_entry) * actual_covered;
         foreign_pnl_usd = (avg_foreign_entry - cover_price) * actual_covered;
         foreign_pnl_krw = foreign_pnl_usd * mv_usdt_rate mv;
         split_pnl = korean_pnl_krw + foreign_pnl_krw;
         exit_ratio = actual_covered / remaining
     in (split_pnl, st\<lparr>xl_realized_pnl_krw := xl_realized_pnl_krw st + split_pnl,
          xl_total_korean_proceeds := xl_total_korean_proceeds st + actual_covered * sell_price,
          xl_total_foreign_cost := xl_total_foreign_cost st + actual_covered * cover_price,
          xl_total_exited_amount := xl_total_exited_amount st + actual_covered,
          xl_total_korean_cost := xl_total_korean_cost st * (1 - exit_ratio),
          xl_total_foreign_value := xl_total_foreign_value st * (1 - exit_ratio),
          xl_remaining_amount := remaining - actual_covered\<rparr>))"

definition or_else :: "dbl \<Rightarrow> dbl \<Rightarrow> dbl" where
  "or_else price fallback = (if price \<le> 0 then fallback else price)"

definition settle_close ::
    "'w venues \<Rightarrow> position \<Rightarrow> market_view \<Rightarrow> dbl \<Rightarrow> order \<Rightarrow> order \<Rightarrow> 'w order_manager \<Rightarrow> 'w exit_state \<Rightarrow> 'w exit_state" where
  "settle_close v pos mv acknowledged foreign_order korean_order m st =
    (let actual_covered = (if 0 < ord_filled_quantity foreign_order then ord_filled_quantity foreign_order else acknowledged);
         cover_price = or_else (ord_average_price foreign_order) (mv_foreign_ask mv);
         sell_price = or_else (ord_average_price korean_order) (mv_korean_bid mv);
         log_pos = pos\<lparr>pos_korean_entry_price := xl_total_korean_cost st / xl_remaining_amount st,
            pos_foreign_entry_price := xl_total_foreign_value st / xl_remaining_amount st\<rparr>;
         (split_pnl, st) = close_coins mv actual_covered sell_price cover_price st;
         m = append_exit_split_log v log_pos actual_covered sell_price cover_price split_pnl (mv_usdt_rate mv)
               (xl_remaining_amount st \<le> 0) m;
         m = push_update (if 0 < xl_remaining_amount st then Some (exit_snapshot pos st (mv_usdt_rate mv)) else None) m
     in st\<lparr>xl_om := m\<rparr>)"

definition retry_close ::
    "'w venues \<Rightarrow> exit_signal \<Rightarrow> position \<Rightarrow> market_view \<Rightarrow> order \<Rightarrow> order \<Rightarrow> 'w order_manager \<Rightarrow> 'w exit_state \<Rightarrow> 'w exit_state" where
  "retry_close v sig pos mv foreign_order korean_order m st =
    (let actual_covered = resolved_fill_quantity foreign_order;
         cover_price = resolved_fill_price foreign_order (mv_foreign_ask mv);
         (sold, korean_order, m) = sell_retries v (xs_korean_exchange sig) (pos_symbol pos) actual_covered 5 korean_order m;
         st = (if sold
               then snd (close_coins mv actual_covered (or_else (ord_average_price korean_order) (mv_korean_bid mv)) cover_price st)
               else st)
     in if ord_status korean_order \<noteq> Filled
        then let remaining = xl_remaining_amount st
          in stop_exit ''[EXIT] Korean SELL failed after successful Bybit spot-margin cover; bot stopped for manual recovery''
               (exit_mismatch pos st (mv_usdt_rate mv) remaining (dmax 0 (remaining - actual_covered))
                  (if 0 < remaining then xl_total_korean_cost st / remaining else 0)
                  (if 0 < remaining then xl_total_foreign_value st / remaining else 0) (xl_realized_pnl_krw st)) m st
        else st\<lparr>xl_om := m\<rparr>)"

definition close_split :: "'w venues \<Rightarrow> exit_signal \<Rightarrow> position \<Rightarrow> market_view \<Rightarrow> 'w exit_state \<Rightarrow> 'w exit_state" where
  "close_split v sig pos mv st =
    (let exit_coin_amount = exit_amount (xl_remaining_amount st) (mv_foreign_ask mv);
         (foreign_order, m) = execute_foreign_cover v (xs_foreign_exchange sig) (foreign_symbol_of (pos_symbol pos)) exit_coin_amount (xl_om st)
     in if ord_status foreign_order \<noteq> Filled then st\<lparr>xl_om := m\<rparr>
        else let actual_covered = ord_quantity foreign_order;
                 (foreign_order, m) = handle_fill_query v FillForeign (xs_foreign_exchange sig) symbol_default foreign_order m;
                 (korean_order, m) = execute_korean_sell v (xs_korean_exchange sig) (pos_symbol pos) actual_covered m;
                 (korean_order, m) = handle_fill_query v FillKorean (xs_korean_exchange sig) (pos_symbol pos) korean_order m
          in if ord_status korean_order = Filled then settle_close v pos mv actual_covered foreign_order korean_order m st
             else retry_close v sig pos mv foreign_order korean_order m st)"

section \<open>Re-entry split\<close>

definition reopen_mismatch :: "position \<Rightarrow> market_view \<Rightarrow> 'w exit_state \<Rightarrow> dbl \<Rightarrow> dbl \<Rightarrow> dbl \<Rightarrow> dbl \<Rightarrow> dbl \<Rightarrow> position" where
  "reopen_mismatch pos mv st korean_open_qty foreign_open_qty buy_price short_price pnl =
    (let kr = xl_remaining_amount st + korean_open_qty; fr = xl_remaining_amount st + foreign_open_qty
     in exit_mismatch pos st (mv_usdt_rate mv) kr fr
          (if 0 < kr then (xl_total_korean_cost st + (korean_open_qty * buy_price)) / kr else 0)
          (if 0 < fr then (xl_total_foreign_value st + (foreign_open_qty * short_price)) / fr else 0) pnl)"

definition rollback_reentry ::
    "'w venues \<Rightarrow> exit_signal \<Rightarrow> position \<Rightarrow> market_view \<Rightarrow> string \<Rightarrow> dbl \<Rightarrow> order \<Rightarrow> 'w order_manager \<Rightarrow> 'w exit_state \<Rightarrow> 'w exit_state" where
  "rollback_reentry v sig pos mv reason actual_filled foreign_order m st =
    (let (rollback, m) = execute_foreign_cover v (xs_foreign_exchange sig) (foreign_symbol_of (pos_symbol pos)) actual_filled m
     in if ord_status rollback \<noteq> Filled
        then let remaining = xl_remaining_amount st;
                 foreign_amount = remaining + actual_filled;
                 short_price = resolved_fill_price foreign_order (mv_foreign_bid mv);
                 foreign_value = xl_total_foreign_value st + (actual_filled * short_price)
          in stop_exit reason
               (exit_mismatch pos st (mv_usdt_rate mv) remaining foreign_amount
                  (if 0 < remaining then xl_total_korean_cost st / remaining else 0)
                  (if 0 < foreign_amount then foreign_value / foreign_amount else 0) (xl_realized_pnl_krw st)) m st
        else st\<lparr>xl_om := m\<rparr>)"

definition book_reentry ::
    "'w venues \<Rightarrow> position \<Rightarrow> market_view \<Rightarrow> dbl \<Rightarrow> dbl \<Rightarrow> dbl \<Rightarrow> dbl \<Rightarrow> dbl \<Rightarrow> 'w order_manager \<Rightarrow> 'w exit_state \<Rightarrow> 'w exit_state" where
  "book_reentry v pos mv short_price buy_price foreign_open_qty korean_open_qty adjustment m st =
    (let actual_filled = dmin foreign_open_qty korean_open_qty;
         actual_korean_cost = actual_filled * buy_price;
         st = st\<lparr>xl_remaining_amount := xl_remaining_amount st + actual_filled,
            xl_total_korean_cost := xl_total_korean_cost st + actual_korean_cost,
            xl_total_foreign_value := xl_total_foreign_value st + actual_filled * short_price,
            xl_realized_pnl_krw := xl_realized_pnl_krw st + adjustment\<rparr>;
         m = append_entry_split_log v (pos_symbol pos) actual_filled buy_price short_price (mv_usdt_rate mv)
               (xl_remaining_amount st * mv_foreign_bid mv) (pos_foreign_amount pos * mv_foreign_bid mv) (view_entry_premium mv) m
     in st\<lparr>xl_om := push_update (Some (exit_snapshot pos st (mv_usdt_rate mv))) m\<rparr>)"

definition settle_reentry ::
    "'w venues \<Rightarrow> exit_signal \<Rightarrow> position \<Rightarrow> market_view \<Rightarrow> order \<Rightarrow> order \<Rightarrow> 'w order_manager \<Rightarrow> 'w exit_state \<Rightarrow> 'w exit_state" where
  "settle_reentry v sig pos mv foreign_order korean_order m st =
    (let short_price = resolved_fill_price foreign_order (mv_foreign_bid mv);
         buy_price = resolved_fill_price korean_order (mv_korean_ask mv);
         f = resolved_fill_quantity foreign_order;
         k = resolved_fill_quantity korean_order;
         (h, m) = hedge_open v (xs_korean_exchange sig) (xs_foreign_exchange sig) (pos_symbol pos) mv short_price buy_price f k m
     in case h of
          CoverFailed \<Rightarrow> stop_exit ''[ADAPTIVE-REENTRY] Failed to cover excess foreign short after Korean underfill''
             (reopen_mismatch pos mv st k f buy_price short_price (xl_realized_pnl_krw st)) m st
        | SellFailed \<Rightarrow> stop_exit ''[ADAPTIVE-REENTRY] Failed to sell excess Korean spot after foreign underfill''
             (reopen_mismatch pos mv st k f buy_price short_price (xl_realized_pnl_krw st)) m st
        | StillMismatched f k pnl \<Rightarrow> stop_exit ''[ADAPTIVE-REENTRY] Re-entry legs remain mismatched after delta hedge''
             (reopen_mismatch pos mv st k f buy_price short_price (xl_realized_pnl_krw st + pnl)) m st
        | Hedged f k pnl \<Rightarrow> book_reentry v pos mv short_price buy_price f k pnl m st)"

definition reentry_coin_amount :: "position \<Rightarrow> market_view \<Rightarrow> 'w exit_state \<Rightarrow> dbl" where
  "reentry_coin_amount pos mv st =
    (let max_reentry_coins = pos_foreign_amount pos - xl_remaining_amount st;
         reentry_usd = dmin ORDER_SIZE_USD (max_reentry_coins * mv_foreign_bid mv)
     in reentry_usd / mv_foreign_bid mv)"

definition reentry_split :: "'w venues \<Rightarrow> exit_signal \<Rightarrow> position \<Rightarrow> market_view \<Rightarrow> 'w exit_state \<Rightarrow> 'w exit_state" where
  "reentry_split v sig pos mv st =
    (let (foreign_order, m) = execute_foreign_short v (xs_foreign_exchange sig) (foreign_symbol_of (pos_symbol pos))
           (reentry_coin_amount pos mv st) (xl_om st)
     in if ord_status foreign_order \<noteq> Filled then st\<lparr>xl_om := m\<rparr>
        else let actual_filled = ord_quantity foreign_order;
                 krw_amount = actual_filled * mv_korean_ask mv
          in if krw_amount < MIN_ORDER_KRW
             then rollback_reentry v sig pos mv ''[ADAPTIVE-REENTRY] Bybit rollback failed after min-order guard (manual intervention required)''
                    actual_filled foreign_order m st
             else let (foreign_order, m) = handle_fill_query v FillForeign (xs_foreign_exchange sig) symbol_default foreign_order m;
                      (korean_order, m) = execute_korean_buy v (xs_korean_exchange sig) (pos_symbol pos) krw_amount m;
                      (korean_order, m) = handle_fill_query v FillKorean (xs_korean_exchange sig) (pos_symbol pos) korean_order m
               in if ord_status korean_order = Filled then settle_reentry v sig pos mv foreign_order korean_order m st
                  else rollback_reentry v sig pos mv ''[ADAPTIVE-REENTRY] Bybit rollback failed after Korean BUY rejection (manual intervention required)''
                         (resolved_fill_quantity foreign_order) foreign_order m st)"

section \<open>The loop\<close>

definition exit_turn :: "'w venues \<Rightarrow> exit_signal \<Rightarrow> position \<Rightarrow> 'w exit_state \<Rightarrow> 'w exit_state" where
  "exit_turn v sig pos st =
    (let mv = exit_view v sig pos (xl_om st);
         rate = mv_usdt_rate mv;
         st = st\<lparr>xl_last_usdt_rate := rate\<rparr>
     in if \<not> mv_quote_pair_ok mv then st
        else let threshold = dynamic_exit_threshold (exit_pm pos st rate) (xl_remaining_amount st) (xl_total_foreign_value st) rate
          in if threshold \<le> view_exit_premium mv then close_split v sig pos mv st
             else if view_entry_premium mv \<le> ENTRY_PREMIUM_THRESHOLD \<and> xl_remaining_amount st < pos_foreign_amount pos
             then reentry_split v sig pos mv st
             else st)"

definition exit_iteration :: "'w venues \<Rightarrow> exit_signal \<Rightarrow> position \<Rightarrow> 'w exit_state \<Rightarrow> 'w exit_state" where
  "exit_iteration v sig pos st =
    (let st = exit_turn v sig pos st
     in if xl_returned st then st else st\<lparr>xl_om := wait_for_next_market_update v (xl_om st)\<rparr>)"

definition exit_loop :: "'w venues \<Rightarrow> exit_signal \<Rightarrow> position \<Rightarrow> 'w exit_state \<Rightarrow> 'w exit_state option" where
  "exit_loop v sig pos =
     while_option (\<lambda>st. 0 < xl_remaining_amount st \<and> om_running (xl_om st) \<and> \<not> xl_returned st) (exit_iteration v sig pos)"

definition exit_state_init :: "exit_signal \<Rightarrow> position \<Rightarrow> execution_result \<Rightarrow> 'w order_manager \<Rightarrow> 'w exit_state" where
  "exit_state_init sig pos r m =
     \<lparr>xl_remaining_amount = pos_foreign_amount pos, xl_total_korean_cost = pos_korean_entry_price pos * pos_korean_amount pos,
      xl_total_foreign_value = pos_foreign_entry_price pos * pos_foreign_amount pos, xl_realized_pnl_krw = 0,
      xl_total_korean_proceeds = 0, xl_total_foreign_cost = 0, xl_total_exited_amount = 0,
      xl_last_usdt_rate = xs_usdt_krw_rate sig, xl_result = r, xl_returned = False, xl_om = m\<rparr>"

definition exit_finish :: "'w venues \<Rightarrow> exit_signal \<Rightarrow> position \<Rightarrow> 'w exit_state \<Rightarrow> execution_result" where
  "exit_finish v sig pos st =
    (let r = xl_result st; remaining = xl_remaining_amount st in
     if 0 < remaining
     then r\<lparr>er_success := False, er_position := (er_position r)\<lparr>pos_korean_amount := remaining, pos_foreign_amount := remaining,
             pos_korean_entry_price := xl_total_korean_cost st / remaining,
             pos_foreign_entry_price := xl_total_foreign_value st / remaining,
             pos_entry_premium := exit_pm pos st (xl_last_usdt_rate st), pos_is_active := True,
             pos_realized_pnl_krw := xl_realized_pnl_krw st\<rparr>\<rparr>
     else let p = (er_position r)\<lparr>pos_exit_time := vn_system_now v (om_world (xl_om st)), pos_exit_premium := xs_premium sig,
                 pos_is_active := False, pos_realized_pnl_krw := xl_realized_pnl_krw st\<rparr>;
              p = (if 0 < xl_total_exited_amount st
                   then p\<lparr>pos_korean_exit_price := xl_total_korean_proceeds st / xl_total_exited_amount st,
                        pos_foreign_exit_price := xl_total_foreign_cost st / xl_total_exited_amount st\<rparr>
                   else p)
       in r\<lparr>er_success := True, er_position := p\<rparr>)"

definition execute_spot_relay_exit ::
    "'w venues \<Rightarrow> exit_signal \<Rightarrow> position \<Rightarrow> 'w order_manager \<Rightarrow> (execution_result \<times> 'w order_manager) option" where
  "execute_spot_relay_exit v sig pos m =
    (let r = execution_result_default\<lparr>er_position := pos\<rparr>
     in if get_korean_exchange m (xs_korean_exchange sig) = None \<or> get_foreign_exchange m (xs_foreign_exchange sig) = None
        then Some (r\<lparr>er_error_message := ''Exchange not available''\<rparr>, m)
        else if \<not> quantities_match (pos_korean_amount pos) (pos_foreign_amount pos)
        then Some (r\<lparr>er_error_message := ''Position is mismatched; manual recovery required before exit''\<rparr>, m)
        else case exit_loop v sig pos (exit_state_init sig pos r m) of
            None \<Rightarrow> None
          | Some st \<Rightarrow> Some (if xl_returned st then xl_result st else exit_finish v sig pos st, xl_om st))"

section \<open>How a turn can end\<close>

text \<open>The turn reports only equal legs and leaves the result alone, or it returns through the critical stop.\<close>

definition xturn_ok :: "'w exit_state \<Rightarrow> 'w exit_state \<Rightarrow> bool" where
  "xturn_ok st st' \<longleftrightarrow> (\<exists>us. om_position_updates (xl_om st') = om_position_updates (xl_om st) @ us \<and>
     (if xl_returned st' then risk_stopped us (xl_result st') (xl_om st')
      else (\<forall>u \<in> set us. hedged_report u) \<and> xl_result st' = xl_result st))"

lemma push_update_fields [simp]:
  "om_position_updates (push_update u m) = om_position_updates m @ [u]" "om_sent (push_update u m) = om_sent m"
  "om_world (push_update u m) = om_world m" "om_running (push_update u m) = om_running m"
  by (simp_all add: push_update_def)

lemma close_coins_fields [simp]:
  "xl_returned (snd (close_coins mv q sp cp st)) = xl_returned st" "xl_result (snd (close_coins mv q sp cp st)) = xl_result st"
  "xl_om (snd (close_coins mv q sp cp st)) = xl_om st"
  "xl_remaining_amount (snd (close_coins mv q sp cp st)) = xl_remaining_amount st - q"
  by (simp_all add: close_coins_def Let_def)

lemma stop_xturn:
  assumes "same_reports (xl_om st) m" "reason \<noteq> []"
  shows "xturn_ok st (stop_exit reason snap m st0)"
proof -
  obtain r m' where t: "trigger_critical_stop reason snap (xl_result st0) m = (r, m')" by fastforce
  show ?thesis
    unfolding xturn_ok_def using trigger_fields [OF t assms(2)] assms(1) t
    by (intro exI [of _ "[if pos_is_active snap then Some snap else None]"]) (simp add: stop_exit_def same_reports_def)
qed

lemma quiet_xturn:
  "same_reports (xl_om st) m \<Longrightarrow> \<not> xl_returned st0 \<Longrightarrow> xl_result st0 = xl_result st \<Longrightarrow> xturn_ok st (st0\<lparr>xl_om := m\<rparr>)"
  unfolding xturn_ok_def by (intro exI [of _ "[]"]) (simp add: same_reports_def)

lemma report_xturn:
  assumes "same_reports (xl_om st) m" "hedged_report u" "\<not> xl_returned st0" "xl_result st0 = xl_result st"
  shows "xturn_ok st (st0\<lparr>xl_om := push_update u m\<rparr>)"
  unfolding xturn_ok_def using assms by (intro exI [of _ "[u]"]) (simp add: same_reports_def)

lemma hedged_exit_snapshot: "hedged_report (if c then Some (exit_snapshot pos st r) else None)" "hedged_report (Some (exit_snapshot pos st r))"
  by (simp_all add: hedged_report_def exit_snapshot_def Let_def)

lemma entry_log_reports: "same_reports m m' \<Longrightarrow> same_reports m (append_entry_split_log v s a b c d e f g m')"
  by (simp add: same_reports_def append_entry_split_log_def)

lemma settle_close_xturn:
  assumes "same_reports (xl_om st) m" "\<not> xl_returned st"
  shows "xturn_ok st (settle_close v pos mv a fo ko m st)"
  unfolding settle_close_def Let_def case_prod_beta
  by (intro report_xturn exit_log_reports hedged_exit_snapshot assms(1)) (simp_all add: assms(2))

lemma retry_close_xturn:
  assumes "same_reports (xl_om st) m" "\<not> xl_returned st"
  shows "xturn_ok st (retry_close v sig pos mv fo ko m st)"
proof -
  obtain sold o' m' where s: "sell_retries v (xs_korean_exchange sig) (pos_symbol pos) (resolved_fill_quantity fo) 5 ko m = (sold, o', m')"
    by (metis prod_cases3)
  have r: "same_reports (xl_om st) m'" using reports.trans [OF assms(1) reports.retries [OF s]] .
  show ?thesis
    unfolding retry_close_def Let_def s prod.case using assms(2)
    by (auto intro!: stop_xturn [OF r] quiet_xturn [OF r])
qed

lemma rollback_reentry_xturn:
  assumes "same_reports (xl_om st) m" "\<not> xl_returned st" "reason \<noteq> []"
  shows "xturn_ok st (rollback_reentry v sig pos mv reason q fo m st)"
  using assms reports.trans [OF assms(1) reports.cover]
  unfolding rollback_reentry_def Let_def by (auto split: prod.split intro!: stop_xturn quiet_xturn)

lemma book_reentry_xturn:
  assumes "same_reports (xl_om st) m" "\<not> xl_returned st"
  shows "xturn_ok st (book_reentry v pos mv sp bp f k pnl m st)"
  unfolding book_reentry_def Let_def
  by (intro report_xturn entry_log_reports hedged_exit_snapshot assms(1)) (simp_all add: assms(2))

lemma settle_reentry_xturn:
  assumes "same_reports (xl_om st) m" "\<not> xl_returned st"
  shows "xturn_ok st (settle_reentry v sig pos mv fo ko m st)"
proof -
  have "same_reports (xl_om st) m'" if "hedge_open v ke fe s mv sp bp f k m = (h, m')" for ke fe s sp bp f k h m'
    using reports.trans [OF assms(1) reports.open_hedge [OF that]] .
  then show ?thesis
    using assms(2) unfolding settle_reentry_def Let_def
    by (auto split: prod.split hedge.split intro!: stop_xturn book_reentry_xturn)
qed

lemma close_split_xturn:
  assumes "\<not> xl_returned st"
  shows "xturn_ok st (close_split v sig pos mv st)"
proof -
  obtain o1 m1 where 1: "execute_foreign_cover v (xs_foreign_exchange sig) (foreign_symbol_of (pos_symbol pos))
      (exit_amount (xl_remaining_amount st) (mv_foreign_ask mv)) (xl_om st) = (o1, m1)" by fastforce
  obtain o2 m2 where 2: "handle_fill_query v FillForeign (xs_foreign_exchange sig) symbol_default o1 m1 = (o2, m2)" by fastforce
  obtain o3 m3 where 3: "execute_korean_sell v (xs_korean_exchange sig) (pos_symbol pos) (ord_quantity o1) m2 = (o3, m3)" by fastforce
  obtain o4 m4 where 4: "handle_fill_query v FillKorean (xs_korean_exchange sig) (pos_symbol pos) o3 m3 = (o4, m4)" by fastforce
  have r1: "same_reports (xl_om st) m1" using 1 by (rule reports.cover)
  have r4: "same_reports (xl_om st) m4"
    using r1 reports.fill_query [OF 2] reports.sell [OF 3] reports.fill_query [OF 4] by (blast intro: reports.trans)
  show ?thesis
    using assms r1 r4 by (simp add: close_split_def Let_def 1 2 3 4 quiet_xturn retry_close_xturn settle_close_xturn)
qed

lemma reentry_split_xturn:
  assumes "\<not> xl_returned st"
  shows "xturn_ok st (reentry_split v sig pos mv st)"
proof -
  obtain o1 m1 where 1: "execute_foreign_short v (xs_foreign_exchange sig) (foreign_symbol_of (pos_symbol pos))
      (reentry_coin_amount pos mv st) (xl_om st) = (o1, m1)" by fastforce
  obtain o2 m2 where 2: "handle_fill_query v FillForeign (xs_foreign_exchange sig) symbol_default o1 m1 = (o2, m2)" by fastforce
  obtain o3 m3 where 3: "execute_korean_buy v (xs_korean_exchange sig) (pos_symbol pos) (ord_quantity o1 * mv_korean_ask mv) m2 = (o3, m3)"
    by fastforce
  obtain o4 m4 where 4: "handle_fill_query v FillKorean (xs_korean_exchange sig) (pos_symbol pos) o3 m3 = (o4, m4)" by fastforce
  have r1: "same_reports (xl_om st) m1" using 1 by (rule short_reports)
  have r4: "same_reports (xl_om st) m4"
    using r1 reports.fill_query [OF 2] reports.buy [OF 3] reports.fill_query [OF 4] by (blast intro: reports.trans)
  show ?thesis
    using assms r1 r4 by (simp add: reentry_split_def Let_def 1 2 3 4 quiet_xturn rollback_reentry_xturn settle_reentry_xturn)
qed

lemma xturn_ok_rate: "xturn_ok (st\<lparr>xl_last_usdt_rate := x\<rparr>) st' = xturn_ok st st'"
  by (simp add: xturn_ok_def)

lemma exit_iteration_ok:
  assumes "\<not> xl_returned st"
  shows "xturn_ok st (exit_iteration v sig pos st)"
proof -
  have idle: "xturn_ok st (st\<lparr>xl_last_usdt_rate := x\<rparr>)" for x
    using assms unfolding xturn_ok_def by (intro exI [of _ "[]"]) simp
  have "xturn_ok st (close_split v sig pos mv (st\<lparr>xl_last_usdt_rate := x\<rparr>))"
    "xturn_ok st (reentry_split v sig pos mv (st\<lparr>xl_last_usdt_rate := x\<rparr>))" for mv x
    using close_split_xturn [of "st\<lparr>xl_last_usdt_rate := x\<rparr>"] reentry_split_xturn [of "st\<lparr>xl_last_usdt_rate := x\<rparr>"] assms
    by (simp_all add: xturn_ok_rate)
  with idle have "xturn_ok st (exit_turn v sig pos st)" by (simp add: exit_turn_def Let_def)
  then show ?thesis by (auto simp: exit_iteration_def Let_def xturn_ok_def)
qed

lemma xturn_ok_trans:
  assumes "xturn_ok a b" "\<not> xl_returned b" "xturn_ok b c"
  shows "xturn_ok a c"
proof -
  obtain us where us: "om_position_updates (xl_om b) = om_position_updates (xl_om a) @ us" "\<forall>u \<in> set us. hedged_report u" "xl_result b = xl_result a"
    using assms(1,2) by (auto simp: xturn_ok_def)
  obtain ws where "om_position_updates (xl_om c) = om_position_updates (xl_om b) @ ws"
    "if xl_returned c then risk_stopped ws (xl_result c) (xl_om c) else (\<forall>u \<in> set ws. hedged_report u) \<and> xl_result c = xl_result b"
    using assms(3) by (auto simp: xturn_ok_def)
  then show ?thesis
    using us unfolding xturn_ok_def by (intro exI [of _ "us @ ws"]) (auto simp: risk_stopped_def butlast_append split: if_splits)
qed

lemma exit_loop_ok:
  assumes "exit_loop v sig pos st = Some st'" "\<not> xl_returned st"
  shows "xturn_ok st st'" "xl_returned st' \<or> \<not> 0 < xl_remaining_amount st' \<or> \<not> om_running (xl_om st')"
proof -
  have "xturn_ok st st" unfolding xturn_ok_def using assms(2) by (intro exI [of _ "[]"]) simp
  then show "xturn_ok st st'"
    using while_option_rule [where P = "xturn_ok st", OF _ assms(1) [unfolded exit_loop_def]] xturn_ok_trans exit_iteration_ok by blast
  show "xl_returned st' \<or> \<not> 0 < xl_remaining_amount st' \<or> \<not> om_running (xl_om st')"
    using while_option_stop [OF assms(1) [unfolded exit_loop_def]] by blast
qed


section \<open>The loop ends\<close>

context ledger_frame
begin

lemma xstop_frame: "R m0 m \<Longrightarrow> R m0 (xl_om (stop_exit reason snap m st))"
  by (rule trans, assumption, rule books) (simp_all add: stop_exit_def trigger_critical_stop_def Let_def split: prod.split)

lemma settle_close_frame: "R m0 m \<Longrightarrow> R m0 (xl_om (settle_close v pos mv a fo ko m st))"
  by (rule trans, assumption, rule books) (simp_all add: settle_close_def Let_def split: prod.split)

lemma retry_close_frame: "R m0 m \<Longrightarrow> R m0 (xl_om (retry_close v sig pos mv fo ko m st))"
  unfolding retry_close_def Let_def by (auto split: prod.split intro!: xstop_frame intro: trans [OF _ retries])

lemma rollback_reentry_frame: "R m0 m \<Longrightarrow> R m0 (xl_om (rollback_reentry v sig pos mv reason q fo m st))"
  unfolding rollback_reentry_def Let_def by (auto split: prod.split intro!: xstop_frame intro: trans [OF _ cover])

lemma book_reentry_frame: "R m0 m \<Longrightarrow> R m0 (xl_om (book_reentry v pos mv sp bp f k pnl m st))"
  by (rule trans, assumption, rule books) (simp_all add: book_reentry_def Let_def)

lemma settle_reentry_frame: "R m0 m \<Longrightarrow> R m0 (xl_om (settle_reentry v sig pos mv fo ko m st))"
  unfolding settle_reentry_def Let_def
  by (auto split: prod.split hedge.split intro!: xstop_frame book_reentry_frame intro: trans [OF _ open_hedge])

lemma close_split_frame: "R (xl_om st) (xl_om (close_split v sig pos mv st))"
proof -
  obtain o1 m1 where 1: "execute_foreign_cover v (xs_foreign_exchange sig) (foreign_symbol_of (pos_symbol pos))
      (exit_amount (xl_remaining_amount st) (mv_foreign_ask mv)) (xl_om st) = (o1, m1)" by fastforce
  obtain o2 m2 where 2: "handle_fill_query v FillForeign (xs_foreign_exchange sig) symbol_default o1 m1 = (o2, m2)" by fastforce
  obtain o3 m3 where 3: "execute_korean_sell v (xs_korean_exchange sig) (pos_symbol pos) (ord_quantity o1) m2 = (o3, m3)" by fastforce
  obtain o4 m4 where 4: "handle_fill_query v FillKorean (xs_korean_exchange sig) (pos_symbol pos) o3 m3 = (o4, m4)" by fastforce
  have "R (xl_om st) m1" "R (xl_om st) m4"
    using cover [OF 1] fill_query [OF 2] sell [OF 3] fill_query [OF 4] by (blast intro: trans)+
  then show ?thesis by (simp add: close_split_def Let_def 1 2 3 4 settle_close_frame retry_close_frame)
qed

lemma reentry_split_frame:
  assumes 1: "execute_foreign_short v (xs_foreign_exchange sig) (foreign_symbol_of (pos_symbol pos)) (reentry_coin_amount pos mv st) (xl_om st)
      = (o1, m1)"
  shows "R m1 (xl_om (reentry_split v sig pos mv st))"
proof -
  obtain o2 m2 where 2: "handle_fill_query v FillForeign (xs_foreign_exchange sig) symbol_default o1 m1 = (o2, m2)" by fastforce
  obtain o3 m3 where 3: "execute_korean_buy v (xs_korean_exchange sig) (pos_symbol pos) (ord_quantity o1 * mv_korean_ask mv) m2 = (o3, m3)"
    by fastforce
  obtain o4 m4 where 4: "handle_fill_query v FillKorean (xs_korean_exchange sig) (pos_symbol pos) o3 m3 = (o4, m4)" by fastforce
  have "R m1 m4" using fill_query [OF 2] buy [OF 3] fill_query [OF 4] by (blast intro: trans)
  then show ?thesis by (simp add: reentry_split_def Let_def 1 2 3 4 refl rollback_reentry_frame settle_reentry_frame)
qed

end

lemma exit_turn_frame:
  assumes "ledger_frame v R"
    and "\<And>s q m o' m'. execute_foreign_short v (xs_foreign_exchange sig) s q m = (o', m') \<Longrightarrow> R m m'"
  shows "R (xl_om st) (xl_om (exit_turn v sig pos st))"
proof -
  note fr = ledger_frame.axioms(1) [OF assms(1)]
  have re: "R (xl_om e) (xl_om (reentry_split v sig pos mv e))" for e mv
  proof -
    obtain o1 m1 where 1: "execute_foreign_short v (xs_foreign_exchange sig) (foreign_symbol_of (pos_symbol pos))
        (reentry_coin_amount pos mv e) (xl_om e) = (o1, m1)" by fastforce
    show ?thesis using assms(2) [OF 1] ledger_frame.reentry_split_frame [OF assms(1) 1] by (rule order_frame.trans [OF fr])
  qed
  have rate: "xl_om (st\<lparr>xl_last_usdt_rate := x\<rparr>) = xl_om st" for x by simp
  show ?thesis
    unfolding exit_turn_def Let_def
    using re [of "st\<lparr>xl_last_usdt_rate := x\<rparr>" for x] ledger_frame.close_split_frame [OF assms(1), of "st\<lparr>xl_last_usdt_rate := x\<rparr>" for x]
      order_frame.refl [OF fr] by (simp only: rate split: if_split) simp
qed

lemma exit_iteration_time:
  assumes "pauses_run_out f v" "om_running (xl_om (exit_iteration v sig pos st))" "\<not> xl_returned (exit_iteration v sig pos st)"
  shows "f (om_world (xl_om (exit_iteration v sig pos st))) < f (om_world (xl_om st))"
proof -
  let ?t = "exit_turn v sig pos st"
  have "f (om_world (xl_om ?t)) \<le> f (om_world (xl_om st))"
    by (rule exit_turn_frame [OF pauses_ledger [OF assms(1)]]) (rule short_pauses [OF assms(1)])
  then show ?thesis
    using assms wait_time [OF assms(1), of "xl_om ?t"] by (auto simp: exit_iteration_def Let_def split: if_splits)
qed

lemma exit_lifecycle_some:
  assumes "pauses_run_out f v"
  shows "\<exists>r m'. execute_spot_relay_exit v sig pos m = Some (r, m')"
proof -
  let ?g = "\<lambda>st. if om_running (xl_om st) \<and> \<not> xl_returned st then Suc (f (om_world (xl_om st))) else 0"
  have "\<exists>st'. exit_loop v sig pos st = Some st'" for st
    unfolding exit_loop_def
    by (rule measure_while_option_Some [where P = "\<lambda>_. True" and f = ?g])
      (auto dest: exit_iteration_time [OF assms])
  then obtain g where "exit_loop v sig pos st = Some (g st)" for st by metis
  then show ?thesis by (auto simp: execute_spot_relay_exit_def Let_def)
qed

text \<open>
  C26. An exit lifecycle ends when it is told to: under the same condition on the pauses as for the
  entry, it returns a result, also when it re-enters on the way.
\<close>

theorem exit_lifecycle_returns:
  assumes "pauses_run_out f v"
  shows "\<exists>r m'. execute_spot_relay_exit v sig pos m = Some (r, m')"
  using assms by (rule exit_lifecycle_some)

section \<open>A small position is closed at once\<close>

text \<open>The venues fill covers and sales in full and report them so.\<close>

definition full_fills :: "'w venues \<Rightarrow> bool" where
  "full_fills v \<longleftrightarrow>
    (\<forall>x s q w. ord_status (fst (vn_close_short v x s q w)) = Filled \<and> ord_filled_quantity (fst (vn_close_short v x s q w)) = q) \<and>
    (\<forall>x s q w. ord_status (fst (vn_place_market_order v x s Sell q w)) = Filled) \<and>
    (\<forall>x i s o' w. ord_status (fst (vn_query_order v x i s o' w)) = ord_status o' \<and>
       ord_filled_quantity (fst (vn_query_order v x i s o' w)) = ord_filled_quantity o')"

lemma full_query:
  assumes "full_fills v" "handle_fill_query v k ex s o1 m = (o', m')"
  shows "ord_status o' = ord_status o1" "ord_filled_quantity o' = ord_filled_quantity o1"
proof -
  have "ord_status o' = ord_status o1 \<and> ord_filled_quantity o' = ord_filled_quantity o1" if "query_order v x s' o1 m = (o', m')" for x s'
    using that assms(1) unfolding query_order_def full_fills_def by (metis (no_types, lifting) case_prod_beta fst_conv)
  then show "ord_status o' = ord_status o1" "ord_filled_quantity o' = ord_filled_quantity o1"
    using assms(2) by (auto simp: handle_fill_query_def query_foreign_fill_def query_korean_fill_def split: if_splits)
qed

lemma full_cover:
  assumes "full_fills v" "get_foreign_exchange m ex \<noteq> None" "execute_foreign_cover v ex s q m = (o', m')"
  shows "ord_status o' = Filled" "ord_filled_quantity o' = q" "same_venues m m'"
proof -
  obtain x where x: "get_foreign_exchange m ex = Some x" using assms(2) by blast
  then have "o' = fst (vn_close_short v x s q (om_world m))"
    using assms(3) by (simp add: execute_foreign_cover_def send_def split: prod.splits)
  then show "ord_status o' = Filled" "ord_filled_quantity o' = q" using assms(1) by (simp_all add: full_fills_def)
  show "same_venues m m'" using assms(3) by (rule connected.cover)
qed

lemma full_sell:
  assumes "full_fills v" "get_korean_exchange m ex \<noteq> None" "execute_korean_sell v ex s q m = (o', m')"
  shows "ord_status o' = Filled"
  using assms by (auto simp: execute_korean_sell_def send_def full_fills_def split: prod.splits) (metis fst_conv)

lemma close_small_position:
  assumes venues: "full_fills v" "get_korean_exchange (xl_om st) (xs_korean_exchange sig) \<noteq> None"
      "get_foreign_exchange (xl_om st) (xs_foreign_exchange sig) \<noteq> None"
    and st: "om_running (xl_om st)" "\<not> xl_returned st" "0 < xl_remaining_amount st" "isfinite (xl_remaining_amount st)"
    and mv: "exit_view v sig pos (xl_om st) = mv" "mv_quote_pair_ok mv" "xl_remaining_amount st * mv_foreign_ask mv < lit 50"
    and premium: "dynamic_exit_threshold (exit_pm pos st (mv_usdt_rate mv)) (xl_remaining_amount st) (xl_total_foreign_value st)
        (mv_usdt_rate mv) \<le> view_exit_premium mv"
  shows "\<exists>st'. exit_loop v sig pos st = Some st' \<and> xl_remaining_amount st' = 0 \<and> \<not> xl_returned st'"
proof -
  let ?q = "xl_remaining_amount st" and ?st = "st\<lparr>xl_last_usdt_rate := mv_usdt_rate mv\<rparr>"
  obtain o1 m1 where 1: "execute_foreign_cover v (xs_foreign_exchange sig) (foreign_symbol_of (pos_symbol pos)) ?q (xl_om st) = (o1, m1)"
    by fastforce
  obtain o2 m2 where 2: "handle_fill_query v FillForeign (xs_foreign_exchange sig) symbol_default o1 m1 = (o2, m2)" by fastforce
  obtain o3 m3 where 3: "execute_korean_sell v (xs_korean_exchange sig) (pos_symbol pos) (ord_quantity o1) m2 = (o3, m3)" by fastforce
  obtain o4 m4 where 4: "handle_fill_query v FillKorean (xs_korean_exchange sig) (pos_symbol pos) o3 m3 = (o4, m4)" by fastforce
  note c = full_cover [OF venues(1,3) 1]
  have "same_venues (xl_om st) m2" using c(3) connected.fill_query [OF 2] by (rule connected.trans)
  then have "get_korean_exchange m2 (xs_korean_exchange sig) \<noteq> None" using venues(2) same_venues_get by metis
  then have s: "ord_status o4 = Filled" using full_sell [OF venues(1) _ 3] full_query(1) [OF venues(1) 4] by simp
  have f: "ord_filled_quantity o2 = ?q" using full_query(2) [OF venues(1) 2] c(2) by simp
  have "exit_turn v sig pos st = settle_close v pos mv (ord_quantity o1) o2 o4 m4 ?st"
    using mv premium c(1) s by (simp add: exit_turn_def Let_def close_split_def exit_amount_def 1 2 3 4)
  moreover have "?q - ?q = 0" using st(4) by (cases ?q) (simp_all add: minus_dbl_def)
  ultimately have t: "xl_remaining_amount (exit_turn v sig pos st) = 0" "\<not> xl_returned (exit_turn v sig pos st)"
    using f st(2,3) by (simp_all add: settle_close_def Let_def case_prod_beta)
  then have i: "xl_remaining_amount (exit_iteration v sig pos st) = 0" "\<not> xl_returned (exit_iteration v sig pos st)"
    by (simp_all add: exit_iteration_def Let_def)
  have "exit_loop v sig pos st = Some (exit_iteration v sig pos st)"
    using st i unfolding exit_loop_def by (subst while_option_unfold, simp, subst while_option_unfold, simp)
  then show ?thesis using i by blast
qed

text \<open>The exit lifecycle books what the foreign venue covered; how much Korea sold does not enter.\<close>

lemma settle_close_ignores_korean_fill:
  "settle_close v pos mv a fo (ko\<lparr>ord_filled_quantity := q1, ord_quantity := q2\<rparr>) m st = settle_close v pos mv a fo ko m st"
  by (simp add: settle_close_def)

end
