(* ===== verification/LifecycleRun.thy ===== *)
theory LifecycleRun
  imports ExitLoop
begin

text \<open>
  Two concrete lifecycles, evaluated turn by turn: an entry of one order size on a quote that clears
  the gate, ended by a shutdown, and the exit of the position it opened. They show that the
  hypotheses of the lifecycle theorems can hold.
\<close>

section \<open>Orders at the example venue\<close>

lemma demo_orders:
  "om_bybit_exchange m \<Longrightarrow> execute_foreign_short (demo_venues bal p) Bybit s q m = (filled q, m\<lparr>om_sent := om_sent m @ [SentShort Bybit s q]\<rparr>)"
  "om_bithumb_exchange m \<Longrightarrow> execute_korean_buy (demo_venues bal p) Bithumb s q m = (filled (q / p), m\<lparr>om_sent := om_sent m @ [SentBuy Bithumb s q]\<rparr>)"
  "handle_fill_query v k ex s (filled q) m = (filled q, m)"
  by (simp_all add: execute_defs send_def demo_venues_def get_foreign_exchange_def get_korean_exchange_def get_bybit_exchange_def
     handle_fill_query_def query_foreign_fill_def query_korean_fill_def filled_def order_default_def)

lemma demo_filled:
  "ord_status (filled q) = Filled" "ord_quantity (filled q) = q" "resolved_fill_price (filled q) p = p"
  "0 < q \<Longrightarrow> resolved_fill_quantity (filled q) = q"
  by (simp_all add: filled_def order_default_def resolved_fill_price_def resolved_fill_quantity_def zero_dbl_def)

lemma demo_manager_fields:
  "om_bybit_exchange (demo_manager n)" "om_bithumb_exchange (demo_manager n)" "om_sent (demo_manager n) = []"
  "om_position_updates (demo_manager n) = []" "om_world (demo_manager n) = n"
  by (simp_all add: demo_manager_def om_set_exchange_def order_manager_init_def)

section \<open>An entry\<close>

abbreviation demo_v :: "nat venues" where
  "demo_v \<equiv> demo_venues demo_balance (lit 1450)"

definition demo_view :: market_view where
  "demo_view = entry_view demo_v demo_entry 0 (demo_manager 0)"

definition demo_state :: "nat entry_state" where
  "demo_state = entry_state_init demo_entry None (entry_result_init demo_v demo_entry None POSITION_SIZE_USD (demo_manager 0)) (demo_manager 0)"

abbreviation demo_rated :: "nat entry_state" where
  "demo_rated \<equiv> demo_state\<lparr>es_last_usdt_rate := Fin 1500\<rparr>"

definition demo_end :: "nat entry_state" where
  "demo_end = entry_iteration demo_v demo_entry POSITION_SIZE_USD demo_state"

lemma demo_view: "demo_view = \<lparr>mv_foreign_bid = 1, mv_foreign_ask = 0, mv_foreign_bid_qty = Fin 100, mv_korean_ask = Fin 1450,
    mv_korean_bid = 0, mv_korean_ask_qty = Fin 100, mv_usdt_rate = Fin 1500, mv_quote_pair_ok = True\<rparr>"
  by (simp add: demo_view_def entry_view_def demo_entry_def dbl_eval cong: let_weak_cong)

lemma demo_plan:
  "ep_enter (plan_entry demo_entry POSITION_SIZE_USD demo_rated demo_view)"
  "ep_next_order_coin_amount (plan_entry demo_entry POSITION_SIZE_USD demo_rated demo_view) = Fin 35"
  unfolding demo_view
  by (simp_all add: plan_entry_def demo_state_def entry_state_init_def gate_eval demo_entry_def min_executable_usd_def cong: let_weak_cong)

lemma demo_values:
  "lit 50750 = Fin 50750" "Fin 50750 / lit 1450 = Fin 35" "\<not> Fin 50750 < MIN_ORDER_KRW" "0 < Fin 35"
  "quantities_match (Fin 35) (Fin 35)"
  by (simp_all add: quantities_match_def gate_eval cong: let_weak_cong)

lemma demo_sig:
  "sig_foreign_exchange demo_entry = Bybit" "sig_korean_exchange demo_entry = Bithumb" "sig_symbol demo_entry = SymbolId ''XRP'' ''KRW''"
  by (simp_all add: demo_entry_def)

abbreviation demo_filled_manager :: "nat order_manager" where
  "demo_filled_manager \<equiv> (demo_manager 0)\<lparr>om_sent := [SentShort Bybit (foreign_symbol_of (SymbolId ''XRP'' ''KRW'')) (Fin 35),
     SentBuy Bithumb (SymbolId ''XRP'' ''KRW'') (Fin 50750)]\<rparr>"

lemma demo_split:
  "entry_split demo_v demo_entry POSITION_SIZE_USD demo_view (plan_entry demo_entry POSITION_SIZE_USD demo_rated demo_view) demo_rated =
   book_entry demo_v demo_entry POSITION_SIZE_USD demo_view 1 (Fin 1450) (Fin 35) (Fin 35) 0 demo_filled_manager demo_rated"
proof -
  have "es_om demo_state = demo_manager 0" by (simp add: demo_state_def entry_state_init_def)
  moreover have "mv_korean_ask demo_view = Fin 1450" "mv_foreign_bid demo_view = 1" by (simp_all add: demo_view)
  ultimately show ?thesis
    unfolding entry_split_def demo_plan
    by (simp add: demo_orders demo_manager_fields demo_filled demo_values demo_sig settle_entry_def hedge_open_def Let_def)
qed

lemma demo_turn:
  "entry_turn demo_v demo_entry POSITION_SIZE_USD demo_state =
   book_entry demo_v demo_entry POSITION_SIZE_USD demo_view 1 (Fin 1450) (Fin 35) (Fin 35) 0 demo_filled_manager demo_rated"
proof -
  have "es_held_amount demo_state = 0" "es_om demo_state = demo_manager 0" "\<not> es_returned demo_state"
    by (simp_all add: demo_state_def entry_state_init_def)
  moreover have "mv_usdt_rate demo_view = Fin 1500" "mv_quote_pair_ok demo_view" by (simp_all add: demo_view)
  ultimately show ?thesis
    unfolding entry_turn_def using demo_split by (simp add: demo_plan demo_view_def [symmetric])
qed

lemma demo_booked:
  "\<exists>p. om_position_updates (es_om demo_end) = [Some p] \<and> pos_korean_amount p = Fin 35 \<and> pos_foreign_amount p = Fin 35"
  "shorts_sent (es_om demo_end) = [SentShort Bybit (foreign_symbol_of (SymbolId ''XRP'' ''KRW'')) (Fin 35)]"
  "\<not> om_running (es_om demo_end)" "\<not> es_returned demo_end"
proof -
  have d: "es_held_amount demo_state = 0" "\<not> es_returned demo_state" by (simp_all add: demo_state_def entry_state_init_def)
  have q: "0 + dmin (Fin 35) (Fin 35) = Fin 35" by (simp add: dbl_eval)
  have e: "demo_end = (entry_turn demo_v demo_entry POSITION_SIZE_USD demo_state)\<lparr>es_om := wait_for_next_market_update demo_v
      (es_om (entry_turn demo_v demo_entry POSITION_SIZE_USD demo_state))\<rparr>"
    using d(2) unfolding demo_end_def entry_iteration_def by (simp add: demo_turn Let_def book_entry_def)
  show "\<exists>p. om_position_updates (es_om demo_end) = [Some p] \<and> pos_korean_amount p = Fin 35 \<and> pos_foreign_amount p = Fin 35"
    unfolding e demo_turn using d(1) by (simp add: book_entry_def Let_def demo_manager_fields entry_snapshot_def q)
  show "shorts_sent (es_om demo_end) = [SentShort Bybit (foreign_symbol_of (SymbolId ''XRP'' ''KRW'')) (Fin 35)]"
    unfolding e demo_turn by (simp add: book_entry_def Let_def shorts_sent_def)
  show "\<not> om_running (es_om demo_end)"
    unfolding e demo_turn by (simp add: wait_for_next_market_update_def demo_venues_def book_entry_def Let_def demo_manager_fields)
  show "\<not> es_returned demo_end" unfolding e demo_turn using d(2) by (simp add: book_entry_def Let_def)
qed

lemma demo_run:
  "execute_spot_relay_entry demo_v 1 demo_entry None (demo_manager 0) = Some (entry_finish demo_entry demo_end, es_om demo_end)"
proof -
  have "om_running (es_om demo_state)" "\<not> es_returned demo_state" by (simp_all add: demo_state_def entry_state_init_def)
  then have "entry_loop demo_v demo_entry POSITION_SIZE_USD demo_state = Some demo_end"
    using demo_booked(3) unfolding entry_loop_def
    by (subst while_option_unfold, simp add: demo_end_def [symmetric], subst while_option_unfold, simp)
  then show ?thesis
    using demo_booked(4)
    by (simp add: execute_spot_relay_entry_def Let_def demo_sig is_safe_to_trade_def entry_position_size_def demo_state_def)
qed



theorem entry_lifecycle_returns_witness:
  "\<exists>r m'. execute_spot_relay_entry demo_v 1 demo_entry None (demo_manager 7) = Some (r, m')"
  by (rule entry_lifecycle_returns [OF demo_pauses])

text \<open>A Korean venue that rejects every order.\<close>

definition demo_rejecting :: "nat venues" where
  "demo_rejecting = demo_v\<lparr>vn_place_market_order := (\<lambda>x s d q w. (rejected_order, w))\<rparr>"


section \<open>An exit\<close>

definition demo_position :: position where
  "demo_position = position_default\<lparr>pos_symbol := SymbolId ''XRP'' ''KRW'', pos_korean_exchange := Bithumb, pos_foreign_exchange := Bybit,
     pos_entry_premium := lit (-3), pos_korean_entry_price := Fin 1450, pos_foreign_entry_price := 1, pos_position_size_usd := Fin 3000,
     pos_korean_amount := Fin 35, pos_foreign_amount := Fin 35, pos_is_active := True\<rparr>"

definition demo_exit_signal :: exit_signal where
  "demo_exit_signal = \<lparr>xs_symbol = SymbolId ''XRP'' ''KRW'', xs_korean_exchange = Bithumb, xs_foreign_exchange = Bybit, xs_premium = lit 6,
     xs_korean_bid = Fin 1600, xs_foreign_ask = 1, xs_usdt_krw_rate = Fin 1500\<rparr>"

abbreviation demo_exit_state :: "nat exit_state" where
  "demo_exit_state \<equiv> exit_state_init demo_exit_signal demo_position (execution_result_default\<lparr>er_position := demo_position\<rparr>) (demo_manager 9)"

lemma demo_full: "full_fills demo_v"
  by (simp add: full_fills_def demo_venues_def filled_def order_default_def)

lemma demo_exit_facts:
  "exit_view demo_v demo_exit_signal demo_position (xl_om demo_exit_state) = \<lparr>mv_foreign_bid = 0, mv_foreign_ask = 1, mv_foreign_bid_qty = 0,
     mv_korean_ask = 0, mv_korean_bid = Fin 1600, mv_korean_ask_qty = 0, mv_usdt_rate = Fin 1500, mv_quote_pair_ok = True\<rparr>"
  "get_korean_exchange (xl_om demo_exit_state) (xs_korean_exchange demo_exit_signal) \<noteq> None"
  "get_foreign_exchange (xl_om demo_exit_state) (xs_foreign_exchange demo_exit_signal) \<noteq> None"
  "om_running (xl_om demo_exit_state)" "\<not> xl_returned demo_exit_state" "xl_remaining_amount demo_exit_state = Fin 35"
  "xl_total_korean_cost demo_exit_state = Fin 50750" "xl_total_foreign_value demo_exit_state = Fin 35" "pos_entry_premium demo_position = lit (-3)"
  by (simp_all add: exit_view_def exit_state_init_def demo_exit_signal_def demo_position_def dbl_eval)

lemma demo_exit_due:
  "dynamic_exit_threshold (effective_entry_pm (lit (-3)) (Fin 35) (Fin 50750) (Fin 35) (Fin 1500)) (Fin 35) (Fin 35) (Fin 1500) \<le>
   view_exit_premium \<lparr>mv_foreign_bid = 0, mv_foreign_ask = 1, mv_foreign_bid_qty = 0, mv_korean_ask = 0, mv_korean_bid = Fin 1600,
     mv_korean_ask_qty = 0, mv_usdt_rate = Fin 1500, mv_quote_pair_ok = True\<rparr>"
  by (simp add: dynamic_exit_threshold_def effective_entry_pm_def view_exit_premium_def gate_eval cong: let_weak_cong)

lemma demo_small: "0 < Fin 35" "isfinite (Fin 35)" "Fin 35 * 1 < lit 50"
  by (simp_all add: dbl_eval)

lemma demo_exit_run:
  "\<exists>r m'. execute_spot_relay_exit demo_v demo_exit_signal demo_position (demo_manager 9) = Some (r, m') \<and> er_success r"
proof -
  obtain st where st: "exit_loop demo_v demo_exit_signal demo_position demo_exit_state = Some st" "xl_remaining_amount st = 0" "\<not> xl_returned st"
    using close_small_position [OF demo_full demo_exit_facts(2-5) _ _ demo_exit_facts(1)]
    by (auto simp: demo_exit_facts(6-9) demo_small demo_exit_due)
  have g: "get_korean_exchange (demo_manager 9) (xs_korean_exchange demo_exit_signal) \<noteq> None"
    "get_foreign_exchange (demo_manager 9) (xs_foreign_exchange demo_exit_signal) \<noteq> None"
    "quantities_match (pos_korean_amount demo_position) (pos_foreign_amount demo_position)"
    using demo_values(5) by (simp_all add: demo_exit_signal_def demo_position_def)
  have "er_success (exit_finish demo_v demo_exit_signal demo_position st)" using st(2) by (simp add: exit_finish_def Let_def)
  then show ?thesis using st g by (auto simp: execute_spot_relay_exit_def Let_def)
qed


theorem exit_lifecycle_returns_witness:
  "\<exists>r m'. execute_spot_relay_exit demo_v demo_exit_signal demo_position (demo_manager 7) = Some (r, m')"
  by (rule exit_lifecycle_returns [OF demo_pauses])

end
