(* ===== verification/Json.thy ===== *)
theory Json
  imports Types Chars
begin

text \<open>
  What the exchange adapters and the scanner share: the JSON library as a parameter, HTTP responses,
  credentials, and the readers of numbers and flags that accept several spellings. A simdjson result,
  error or not, is a value of type \<open>'j\<close>; \<^verbatim>\<open>value()\<close> of an error throws, and a value that may be missing
  for that reason is an \<open>option\<close>. A hash map is an association list, and \<^verbatim>\<open>emplace\<close> keeps the
  first entry of a key.
\<close>

section \<open>Documents and responses\<close>

record 'j json_api =
  ja_iterate :: "string \<Rightarrow> 'j"
  ja_field :: "'j \<Rightarrow> string \<Rightarrow> 'j"
  ja_ok :: "'j \<Rightarrow> bool"
  ja_double :: "'j \<Rightarrow> dbl option"
  ja_int64 :: "'j \<Rightarrow> int option"
  ja_uint64 :: "'j \<Rightarrow> int option"
  ja_bool :: "'j \<Rightarrow> bool option"
  ja_string :: "'j \<Rightarrow> string option"
  ja_array :: "'j \<Rightarrow> 'j list option"
  ja_object :: "'j \<Rightarrow> (string \<times> 'j) list option"

record http_response =
  hr_status_code :: int
  hr_body :: string
  hr_headers :: "(string \<times> string) list"
  hr_success :: bool
  hr_error :: string

record exchange_credentials =
  xc_api_key :: string
  xc_secret_key :: string
  xc_passphrase :: string
  xc_ws_endpoint :: string
  xc_ws_private_endpoint :: string
  xc_ws_trade_endpoint :: string
  xc_rest_endpoint :: string
  xc_enabled :: bool

section \<open>Text\<close>

definition starts_with :: "string \<Rightarrow> string \<Rightarrow> bool" where
  "starts_with p s \<longleftrightarrow> take (length p) s = p"

definition extract_host :: "string \<Rightarrow> string" where
  "extract_host url =
    (let host = (if starts_with ''https://'' url then drop 8 url else if starts_with ''http://'' url then drop 7 url else url);
         host = takeWhile (\<lambda>c. c \<noteq> CHR ''/'') host
     in takeWhile (\<lambda>c. c \<noteq> CHR '':'') host)"

definition scan_normalize_chain :: "string \<Rightarrow> string" where
  "scan_normalize_chain value = map toupper (filter isalnum value)"

section \<open>Readers\<close>

definition parse_json_double :: "'j json_api \<Rightarrow> 'j \<Rightarrow> dbl" where
  "parse_json_double j value =
    (case ja_double j value of Some x \<Rightarrow> x
     | None \<Rightarrow> (case ja_int64 j value of Some n \<Rightarrow> lit (of_int n)
     | None \<Rightarrow> (case ja_uint64 j value of Some n \<Rightarrow> lit (of_int n)
     | None \<Rightarrow> (case ja_string j value of Some s \<Rightarrow> fast_stod s 0 | None \<Rightarrow> 0))))"

definition parse_json_boolish :: "'j json_api \<Rightarrow> 'j \<Rightarrow> bool option" where
  "parse_json_boolish j value =
    (case ja_bool j value of Some b \<Rightarrow> Some b
     | None \<Rightarrow> (case ja_int64 j value of Some n \<Rightarrow> Some (n \<noteq> 0)
     | None \<Rightarrow> (case ja_uint64 j value of Some n \<Rightarrow> Some (n \<noteq> 0)
     | None \<Rightarrow> (case ja_string j value of
          Some s \<Rightarrow> let raw = map tolower s in
            if raw = ''1'' \<or> raw = ''true'' \<or> raw = ''y'' \<or> raw = ''yes'' then Some True
            else if raw = ''0'' \<or> raw = ''false'' \<or> raw = ''n'' \<or> raw = ''no'' then Some False
            else None
        | None \<Rightarrow> None))))"

definition boolish :: "'j json_api \<Rightarrow> 'j \<Rightarrow> bool" where
  "boolish j value = (case parse_json_boolish j value of Some b \<Rightarrow> b | None \<Rightarrow> False)"

definition emplace :: "'k \<Rightarrow> 'v \<Rightarrow> ('k \<times> 'v) list \<Rightarrow> ('k \<times> 'v) list" where
  "emplace k v m = (if map_of m k = None then m @ [(k, v)] else m)"

text \<open>A loop over a document: an exception leaves it, and what it computed is lost.\<close>

fun fold_throwing :: "('a \<Rightarrow> 's \<Rightarrow> 's option) \<Rightarrow> 'a list \<Rightarrow> 's \<Rightarrow> 's option" where
  "fold_throwing f [] s = Some s"
| "fold_throwing f (x # xs) s = (case f x s of None \<Rightarrow> None | Some s \<Rightarrow> fold_throwing f xs s)"

lemma emplace_keys:
  "distinct (map fst m) \<Longrightarrow> distinct (map fst (emplace k v m))" "fst ` set (emplace k v m) = insert k (fst ` set m)"
  by (auto simp: emplace_def map_of_eq_None_iff)

text \<open>A loop with effects inside a \<^verbatim>\<open>try\<close>: an exception ends it, and the effects before it stay.\<close>

fun fold_catching :: "('a \<Rightarrow> 's \<Rightarrow> 's \<times> bool) \<Rightarrow> 'a list \<Rightarrow> 's \<Rightarrow> 's \<times> bool" where
  "fold_catching f [] s = (s, False)"
| "fold_catching f (x # xs) s = (case f x s of (s', thrown) \<Rightarrow> if thrown then (s', True) else fold_catching f xs s')"

lemma fold_catching_invar:
  assumes "P s" "\<And>x s. x \<in> set xs \<Longrightarrow> P s \<Longrightarrow> P (fst (f x s))"
  shows "P (fst (fold_catching f xs s))"
  using assms
proof (induction xs arbitrary: s)
  case (Cons x xs)
  have "P (fst (f x s))" using Cons.prems by simp
  moreover have "P (fst (fold_catching f xs s'))" if "P s'" for s'
    by (rule Cons.IH [OF that]) (simp add: Cons.prems)
  ultimately show ?case by (auto split: prod.split)
qed simp

end
