(* ===== verification/Scanner.thy ===== *)
theory Scanner
  imports Json Premium PriceCache Selection "HOL-Library.List_Lexorder" "HOL-Library.Char_ord"
begin

text \<open>
  The spot relay scanner (\<^verbatim>\<open>src/strategy/spot_relay_scanner.cpp\<close>): it reads the public universe of
  both venues, joins it by coin, prices every common coin with the relay metrics, adds networks
  and borrow limits when the account is known, and ranks the candidates. The JSON library and the
  two REST clients are parameters. A simdjson result, error or not, is a value of type \<open>'j\<close>; an
  exception that leaves the function is \<open>None\<close>. A hash map is an association list, and
  \<^verbatim>\<open>emplace\<close> keeps the first entry of a key. The messages and the JSON file it writes are left out:
  what \<open>scanner_run\<close> returns is the ranked list, or the reason why it gave up.
\<close>

section \<open>Parameters\<close>

text \<open>The REST clients: host, path and headers to response.\<close>

record 'j scan_env =
  se_json :: "'j json_api"
  se_initialize :: "string \<Rightarrow> bool"
  se_get :: "string \<Rightarrow> string \<Rightarrow> (string \<times> string) list \<Rightarrow> http_response"
  se_timestamp :: string
  se_hmac_sha256 :: "string \<Rightarrow> string \<Rightarrow> string"

section \<open>Data\<close>

record spot_quote =
  sq_bid :: dbl
  sq_ask :: dbl
  sq_bid_qty :: dbl
  sq_ask_qty :: dbl

record asset_status =
  as_deposit_enabled :: bool
  as_withdraw_enabled :: bool

record spot_instrument =
  si_symbol :: string
  si_base :: string
  si_quote :: string
  si_trading :: bool
  si_margin_enabled :: bool
  si_margin_mode :: string

record chain_info =
  ci_chain :: string
  ci_deposit_enabled :: bool
  ci_withdraw_enabled :: bool

record borrow_check =
  bc_available :: bool
  bc_shortable :: bool
  bc_max_trade_qty :: dbl
  bc_max_trade_amount :: dbl

record candidate =
  cd_base :: string
  cd_bybit_symbol :: string
  cd_bithumb_bid_krw :: dbl
  cd_bithumb_ask_krw :: dbl
  cd_bithumb_bid_qty :: dbl
  cd_bithumb_ask_qty :: dbl
  cd_bybit_bid_usdt :: dbl
  cd_bybit_ask_usdt :: dbl
  cd_bybit_bid_qty :: dbl
  cd_bybit_ask_qty :: dbl
  cd_usdt_bid_krw :: dbl
  cd_usdt_ask_krw :: dbl
  cd_gross_edge_pct :: dbl
  cd_net_edge_pct :: dbl
  cd_match_qty :: dbl
  cd_target_coin_qty :: dbl
  cd_max_tradable_usdt_at_best :: dbl
  cd_bithumb_top_krw :: dbl
  cd_bithumb_top_usdt :: dbl
  cd_bybit_top_usdt :: dbl
  cd_bybit_top_krw :: dbl
  cd_bithumb_total_fee_krw :: dbl
  cd_bybit_total_fee_usdt :: dbl
  cd_bybit_total_fee_krw :: dbl
  cd_total_fee_krw :: dbl
  cd_net_profit_krw :: dbl
  cd_bithumb_can_fill_target :: bool
  cd_bybit_can_fill_target :: bool
  cd_both_can_fill_target :: bool
  cd_bithumb_withdraw_enabled :: bool
  cd_bybit_spot_trading :: bool
  cd_bybit_margin_enabled :: bool
  cd_bybit_margin_mode :: string
  cd_bybit_shortable :: bool
  cd_borrow_check_available :: bool
  cd_bybit_max_short_qty :: dbl
  cd_bybit_max_short_usdt :: dbl
  cd_bybit_deposit_enabled :: bool
  cd_bybit_withdraw_enabled :: bool
  cd_shared_networks :: "string list"

definition enterable :: "candidate \<Rightarrow> bool" where
  "enterable c = entry_gate_passes (cd_both_can_fill_target c) (cd_match_qty c) (cd_net_edge_pct c) (cd_net_profit_krw c)"

definition transfer_ready :: "candidate \<Rightarrow> bool" where
  "transfer_ready c \<longleftrightarrow> cd_bithumb_withdraw_enabled c \<and> cd_bybit_deposit_enabled c \<and> cd_shared_networks c \<noteq> []"

section \<open>Text\<close>

definition looks_unresolved_env :: "string \<Rightarrow> bool" where
  "looks_unresolved_env value \<longleftrightarrow> 4 \<le> length value \<and> value ! 0 = CHR ''$'' \<and> value ! 1 = CHR ''{'' \<and> last value = CHR ''}''"

definition has_usable_bybit_auth :: "exchange_credentials \<Rightarrow> bool" where
  "has_usable_bybit_auth creds \<longleftrightarrow> xc_api_key creds \<noteq> [] \<and> xc_secret_key creds \<noteq> [] \<and>
     \<not> looks_unresolved_env (xc_api_key creds) \<and> \<not> looks_unresolved_env (xc_secret_key creds)"

definition build_bybit_auth_headers :: "'j scan_env \<Rightarrow> exchange_credentials \<Rightarrow> string \<Rightarrow> (string \<times> string) list" where
  "build_bybit_auth_headers env creds params =
    (let timestamp = se_timestamp env; recv_window = ''5000'';
         message = timestamp @ xc_api_key creds @ recv_window @ params;
         signature = se_hmac_sha256 env (xc_secret_key creds) message
     in [(''X-BAPI-API-KEY'', xc_api_key creds), (''X-BAPI-SIGN'', signature),
         (''X-BAPI-TIMESTAMP'', timestamp), (''X-BAPI-RECV-WINDOW'', recv_window)])"

definition json_escape_char :: "char \<Rightarrow> string" where
  "json_escape_char c =
    (if c = CHR 0x5C then [CHR 0x5C, CHR 0x5C] else if c = CHR 0x22 then [CHR 0x5C, CHR 0x22]
     else if c = CHR 0x0A then [CHR 0x5C, CHR ''n''] else if c = CHR 0x0D then [CHR 0x5C, CHR ''r'']
     else if c = CHR 0x09 then [CHR 0x5C, CHR ''t''] else [c])"

definition json_escape :: "string \<Rightarrow> string" where
  "json_escape input = concat (map json_escape_char input)"

section \<open>Parsing\<close>

text \<open>The first level with a positive price, or the last price that was read.\<close>

fun best_level :: "'j json_api \<Rightarrow> 'j list \<Rightarrow> dbl \<Rightarrow> dbl \<times> dbl" where
  "best_level j [] price = (price, 0)"
| "best_level j (l # ls) price =
    (let price = parse_json_double j (ja_field j l ''price'') in
     if 0 < price then (price, parse_json_double j (ja_field j l ''quantity'')) else best_level j ls price)"

definition side_level :: "'j json_api \<Rightarrow> 'j \<Rightarrow> dbl \<times> dbl" where
  "side_level j side = (case ja_array j side of None \<Rightarrow> (0, 0) | Some levels \<Rightarrow> best_level j levels 0)"

definition bithumb_book :: "'j json_api \<Rightarrow> string \<times> 'j \<Rightarrow> (string \<times> spot_quote) list \<Rightarrow> (string \<times> spot_quote) list" where
  "bithumb_book j field quotes =
    (case field of (key, item) \<Rightarrow>
       if key = ''timestamp'' \<or> key = ''payment_currency'' then quotes
       else let (bid, bid_qty) = side_level j (ja_field j item ''bids'');
                (ask, ask_qty) = side_level j (ja_field j item ''asks'')
         in if 0 < bid \<and> 0 < ask
            then emplace key \<lparr>sq_bid = bid, sq_ask = ask, sq_bid_qty = bid_qty, sq_ask_qty = ask_qty\<rparr> quotes
            else quotes)"

definition parse_bithumb_orderbooks :: "'j json_api \<Rightarrow> http_response \<Rightarrow> (bool \<times> (string \<times> spot_quote) list) option" where
  "parse_bithumb_orderbooks j response =
    (if \<not> hr_success response then Some (False, [])
     else let doc = ja_iterate j (hr_body response) in
       if ja_string j (ja_field j doc ''status'') \<noteq> Some ''0000'' then Some (False, [])
       else case ja_object j (ja_field j doc ''data'') of None \<Rightarrow> None
        | Some members \<Rightarrow> let quotes = fold (bithumb_book j) members [] in Some (quotes \<noteq> [], quotes))"

definition parse_bithumb_assetsstatus_all :: "'j json_api \<Rightarrow> http_response \<Rightarrow> (bool \<times> (string \<times> asset_status) list) option" where
  "parse_bithumb_assetsstatus_all j response =
    (if \<not> hr_success response then Some (False, [])
     else let doc = ja_iterate j (hr_body response) in
       if ja_string j (ja_field j doc ''status'') \<noteq> Some ''0000'' then Some (False, [])
       else case ja_object j (ja_field j doc ''data'') of None \<Rightarrow> None
        | Some members \<Rightarrow>
            let statuses = fold (\<lambda>(currency, item). emplace currency
                  \<lparr>as_deposit_enabled = boolish j (ja_field j item ''deposit_status''),
                   as_withdraw_enabled = boolish j (ja_field j item ''withdrawal_status'')\<rparr>) members []
            in Some (statuses \<noteq> [], statuses))"

definition sort_unique :: "string list \<Rightarrow> string list" where
  "sort_unique xs = remdups_adj (sort xs)"

definition parse_bithumb_multichain_withdrawable_networks :: "'j json_api \<Rightarrow> http_response \<Rightarrow> string list" where
  "parse_bithumb_multichain_withdrawable_networks j response =
    (if \<not> hr_success response then []
     else let doc = ja_iterate j (hr_body response) in
       if ja_string j (ja_field j doc ''status'') \<noteq> Some ''0000'' then []
       else case ja_array j (ja_field j doc ''data'') of None \<Rightarrow> []
        | Some items \<Rightarrow> sort_unique (List.map_filter (\<lambda>item.
            if \<not> boolish j (ja_field j item ''withdrawal_status'') then None
            else map_option scan_normalize_chain (ja_string j (ja_field j item ''net_type''))) items))"

text \<open>The Bybit lists; \<^verbatim>\<open>value()\<close> of an error throws.\<close>

definition bybit_list :: "'j json_api \<Rightarrow> string \<Rightarrow> http_response \<Rightarrow> 'j list option" where
  "bybit_list j key response =
    (if \<not> hr_success response then None
     else let doc = ja_iterate j (hr_body response) in
       if ja_int64 j (ja_field j doc ''retCode'') \<noteq> Some 0 then None
       else ja_array j (ja_field j (ja_field j doc ''result'') key))"

definition bybit_instrument :: "'j json_api \<Rightarrow> 'j \<Rightarrow> (string \<times> spot_instrument) list \<Rightarrow> (string \<times> spot_instrument) list option" where
  "bybit_instrument j item instruments =
    (if ja_string j (ja_field j item ''quoteCoin'') \<noteq> Some ''USDT'' then Some instruments
     else case (ja_string j (ja_field j item ''symbol''), ja_string j (ja_field j item ''baseCoin'')) of
       (Some symbol, Some base) \<Rightarrow>
         let margin = ja_string j (ja_field j item ''marginTrading'')
         in Some (emplace base \<lparr>si_symbol = symbol, si_base = base, si_quote = ''USDT'',
              si_trading = (ja_string j (ja_field j item ''status'') = Some ''Trading''),
              si_margin_enabled = (case margin of None \<Rightarrow> False | Some mode \<Rightarrow> map tolower mode \<noteq> ''none''),
              si_margin_mode = (case margin of None \<Rightarrow> '''' | Some mode \<Rightarrow> mode)\<rparr> instruments)
     | _ \<Rightarrow> None)"

definition parse_bybit_spot_instruments :: "'j json_api \<Rightarrow> http_response \<Rightarrow> (bool \<times> (string \<times> spot_instrument) list) option" where
  "parse_bybit_spot_instruments j response =
    (case bybit_list j ''list'' response of None \<Rightarrow> Some (False, [])
     | Some items \<Rightarrow> map_option (\<lambda>m. (m \<noteq> [], m)) (fold_throwing (bybit_instrument j) items []))"

definition bybit_ticker :: "'j json_api \<Rightarrow> 'j \<Rightarrow> (string \<times> spot_quote) list \<Rightarrow> (string \<times> spot_quote) list option" where
  "bybit_ticker j item quotes =
    (case ja_string j (ja_field j item ''symbol'') of None \<Rightarrow> None
     | Some symbol \<Rightarrow>
        if length symbol \<le> 4 \<or> drop (length symbol - 4) symbol \<noteq> ''USDT'' then Some quotes
        else let base = take (length symbol - 4) symbol;
                 bid = parse_json_double j (ja_field j item ''bid1Price'');
                 ask = parse_json_double j (ja_field j item ''ask1Price'');
                 bid_qty = parse_json_double j (ja_field j item ''bid1Size'');
                 ask_qty = parse_json_double j (ja_field j item ''ask1Size'')
          in if bid \<le> 0 \<or> ask \<le> 0 then Some quotes
             else Some (emplace base \<lparr>sq_bid = bid, sq_ask = ask, sq_bid_qty = bid_qty, sq_ask_qty = ask_qty\<rparr> quotes))"

definition parse_bybit_spot_tickers :: "'j json_api \<Rightarrow> http_response \<Rightarrow> (bool \<times> (string \<times> spot_quote) list) option" where
  "parse_bybit_spot_tickers j response =
    (case bybit_list j ''list'' response of None \<Rightarrow> Some (False, [])
     | Some items \<Rightarrow> map_option (\<lambda>m. (m \<noteq> [], m)) (fold_throwing (bybit_ticker j) items []))"

definition bybit_chain :: "'j json_api \<Rightarrow> 'j \<Rightarrow> chain_info option" where
  "bybit_chain j item =
    (let chain = (case ja_string j (ja_field j item ''chain'') of Some s \<Rightarrow> scan_normalize_chain s
           | None \<Rightarrow> (case ja_string j (ja_field j item ''chainType'') of Some s \<Rightarrow> scan_normalize_chain s | None \<Rightarrow> []))
     in if chain = [] then None
        else Some \<lparr>ci_chain = chain, ci_deposit_enabled = boolish j (ja_field j item ''chainDeposit''),
               ci_withdraw_enabled = boolish j (ja_field j item ''chainWithdraw'')\<rparr>)"

definition parse_bybit_coin_info :: "'j json_api \<Rightarrow> http_response \<Rightarrow> (string \<times> chain_info list) list" where
  "parse_bybit_coin_info j response =
    (case bybit_list j ''rows'' response of None \<Rightarrow> []
     | Some rows \<Rightarrow> fold (\<lambda>row m. case ja_string j (ja_field j row ''coin'') of None \<Rightarrow> m
         | Some coin \<Rightarrow> emplace coin (case ja_array j (ja_field j row ''chains'') of None \<Rightarrow> []
             | Some items \<Rightarrow> List.map_filter (bybit_chain j) items) m) rows [])"

definition borrow_check_default :: borrow_check where
  "borrow_check_default = \<lparr>bc_available = False, bc_shortable = False, bc_max_trade_qty = 0, bc_max_trade_amount = 0\<rparr>"

definition parse_bybit_borrow_check :: "'j json_api \<Rightarrow> http_response \<Rightarrow> borrow_check" where
  "parse_bybit_borrow_check j response =
    (if \<not> hr_success response then borrow_check_default
     else let doc = ja_iterate j (hr_body response) in
       if ja_int64 j (ja_field j doc ''retCode'') \<noteq> Some 0 then borrow_check_default
       else let result = ja_field j doc ''result'' in
         if \<not> ja_ok j result then borrow_check_default
         else let qty = parse_json_double j (ja_field j result ''maxTradeQty'');
                  amount = parse_json_double j (ja_field j result ''maxTradeAmount'')
           in \<lparr>bc_available = True, bc_shortable = (0 < qty \<or> 0 < amount), bc_max_trade_qty = qty, bc_max_trade_amount = amount\<rparr>)"

definition intersect_networks :: "string list \<Rightarrow> chain_info list \<Rightarrow> string list" where
  "intersect_networks bithumb_networks bybit_chains =
    (let bybit_deposit_networks = map ci_chain (filter ci_deposit_enabled bybit_chains)
     in sort_unique (filter (\<lambda>net. net \<in> set bybit_deposit_networks) bithumb_networks))"

section \<open>Candidates\<close>

definition gross_edge :: "dbl \<Rightarrow> dbl \<Rightarrow> dbl \<Rightarrow> dbl" where
  "gross_edge bithumb_ask bybit_bid usdt_bid =
    (let conservative_krw_out = bybit_bid * usdt_bid
     in if 0 < bithumb_ask then ((conservative_krw_out - bithumb_ask) / bithumb_ask) * lit 100 else 0)"

text \<open>The public part of a candidate.\<close>

definition priced_candidate ::
    "string \<Rightarrow> spot_quote \<Rightarrow> spot_quote \<Rightarrow> spot_instrument \<Rightarrow> spot_quote \<Rightarrow> asset_status option \<Rightarrow> candidate" where
  "priced_candidate base kr spot instr usdt status =
    (let m = calculate_relay_metrics (sq_ask kr) (sq_ask_qty kr) (sq_bid spot) (sq_bid_qty spot) (sq_bid usdt)
           BITHUMB_FEE_RATE BYBIT_FEE_RATE 0
     in \<lparr>cd_base = base, cd_bybit_symbol = si_symbol instr, cd_bithumb_bid_krw = sq_bid kr, cd_bithumb_ask_krw = sq_ask kr,
         cd_bithumb_bid_qty = sq_bid_qty kr, cd_bithumb_ask_qty = sq_ask_qty kr, cd_bybit_bid_usdt = sq_bid spot,
         cd_bybit_ask_usdt = sq_ask spot, cd_bybit_bid_qty = sq_bid_qty spot, cd_bybit_ask_qty = sq_ask_qty spot,
         cd_usdt_bid_krw = sq_bid usdt, cd_usdt_ask_krw = sq_ask usdt,
         cd_gross_edge_pct = gross_edge (sq_ask kr) (sq_bid spot) (sq_bid usdt), cd_net_edge_pct = rm_net_edge_pct m,
         cd_match_qty = rm_match_qty m, cd_target_coin_qty = rm_target_coin_qty m,
         cd_max_tradable_usdt_at_best = rm_max_tradable_usdt_at_best m, cd_bithumb_top_krw = rm_bithumb_top_krw m,
         cd_bithumb_top_usdt = rm_bithumb_top_usdt m, cd_bybit_top_usdt = rm_bybit_top_usdt m,
         cd_bybit_top_krw = rm_bybit_top_krw m, cd_bithumb_total_fee_krw = rm_bithumb_total_fee_krw m,
         cd_bybit_total_fee_usdt = rm_bybit_total_fee_usdt m, cd_bybit_total_fee_krw = rm_bybit_total_fee_krw m,
         cd_total_fee_krw = rm_total_fee_krw m, cd_net_profit_krw = rm_net_profit_krw m,
         cd_bithumb_can_fill_target = rm_bithumb_can_fill_target m, cd_bybit_can_fill_target = rm_bybit_can_fill_target m,
         cd_both_can_fill_target = rm_both_can_fill_target m,
         cd_bithumb_withdraw_enabled = (case status of None \<Rightarrow> False | Some st \<Rightarrow> as_withdraw_enabled st),
         cd_bybit_spot_trading = si_trading instr, cd_bybit_margin_enabled = si_margin_enabled instr,
         cd_bybit_margin_mode = si_margin_mode instr, cd_bybit_shortable = False, cd_borrow_check_available = False,
         cd_bybit_max_short_qty = 0, cd_bybit_max_short_usdt = 0, cd_bybit_deposit_enabled = False,
         cd_bybit_withdraw_enabled = False, cd_shared_networks = []\<rparr>)"

text \<open>What an account adds: the networks both venues serve, and the borrow limit.\<close>

definition with_networks :: "string list \<Rightarrow> chain_info list option \<Rightarrow> candidate \<Rightarrow> candidate" where
  "with_networks bithumb_networks coin_chains c =
    (case coin_chains of None \<Rightarrow> c
     | Some cs \<Rightarrow> c\<lparr>cd_shared_networks := intersect_networks bithumb_networks cs,
          cd_bybit_deposit_enabled := cd_bybit_deposit_enabled c \<or> list_ex ci_deposit_enabled cs,
          cd_bybit_withdraw_enabled := cd_bybit_withdraw_enabled c \<or> list_ex ci_withdraw_enabled cs\<rparr>)"

definition with_borrow_check :: "'j scan_env \<Rightarrow> string \<Rightarrow> exchange_credentials \<Rightarrow> candidate \<Rightarrow> candidate" where
  "with_borrow_check env bybit_host bybit_creds c =
    (if \<not> cd_bybit_margin_enabled c then c
     else let query = ''category=spot&symbol='' @ cd_bybit_symbol c @ ''&side=Sell'';
              headers = build_bybit_auth_headers env bybit_creds query;
              borrow = parse_bybit_borrow_check (se_json env)
                (se_get env bybit_host (''/v5/order/spot-borrow-check?'' @ query) headers)
       in c\<lparr>cd_borrow_check_available := bc_available borrow, cd_bybit_shortable := bc_shortable borrow,
            cd_bybit_max_short_qty := bc_max_trade_qty borrow, cd_bybit_max_short_usdt := bc_max_trade_amount borrow\<rparr>)"

definition common_bases ::
    "(string \<times> spot_quote) list \<Rightarrow> (string \<times> spot_instrument) list \<Rightarrow> (string \<times> spot_quote) list \<Rightarrow> string list" where
  "common_bases bithumb_quotes bybit_instruments bybit_quotes =
     sort (filter (\<lambda>base. base \<noteq> ''USDT'' \<and> map_of bybit_instruments base \<noteq> None \<and> map_of bybit_quotes base \<noteq> None)
       (map fst bithumb_quotes))"

text \<open>The order of the report: a candidate that can be entered first, then by net edge. \<open>sort_by\<close> is stable;
  \<^verbatim>\<open>std::sort\<close> may leave ties in another order, about which nothing is claimed.\<close>

definition ranks_before :: "candidate \<Rightarrow> candidate \<Rightarrow> bool" where
  "ranks_before a b =
    (if enterable a \<noteq> enterable b then enterable a
     else let a_positive_net = meets_entry_profit_floor (cd_net_profit_krw a);
              b_positive_net = meets_entry_profit_floor (cd_net_profit_krw b)
       in if a_positive_net \<noteq> b_positive_net then a_positive_net
     else if cd_both_can_fill_target a \<noteq> cd_both_can_fill_target b then cd_both_can_fill_target a
     else if \<not> deq (cd_net_edge_pct a) (cd_net_edge_pct b) then cd_net_edge_pct b < cd_net_edge_pct a
     else if transfer_ready a \<noteq> transfer_ready b then transfer_ready a
     else if cd_bybit_shortable a \<noteq> cd_bybit_shortable b then cd_bybit_shortable a
     else cd_gross_edge_pct b < cd_gross_edge_pct a)"

section \<open>The scan\<close>

datatype scan_failure = ConfigMissing | NotEnabled | ClientInit | BithumbOrderbooks | BithumbAssets | BybitInstruments
  | BybitTickers | UsdtQuoteMissing

text \<open>What the public requests return, in the order in which they are read.\<close>

record universe =
  un_bithumb_quotes :: "(string \<times> spot_quote) list"
  un_bithumb_statuses :: "(string \<times> asset_status) list"
  un_bybit_instruments :: "(string \<times> spot_instrument) list"
  un_bybit_quotes :: "(string \<times> spot_quote) list"

definition load_universe :: "'j scan_env \<Rightarrow> string \<Rightarrow> string \<Rightarrow> (scan_failure + universe) option" where
  "load_universe env bithumb_host bybit_host =
    (let j = se_json env in
     case parse_bithumb_orderbooks j (se_get env bithumb_host ''/public/orderbook/ALL_KRW?count=1'' []) of None \<Rightarrow> None
     | Some (ok, bithumb_quotes) \<Rightarrow> if \<not> ok then Some (Inl BithumbOrderbooks)
     else case parse_bithumb_assetsstatus_all j (se_get env bithumb_host ''/public/assetsstatus/ALL'' []) of None \<Rightarrow> None
     | Some (ok, bithumb_statuses) \<Rightarrow> if \<not> ok then Some (Inl BithumbAssets)
     else case parse_bybit_spot_instruments j
          (se_get env bybit_host ''/v5/market/instruments-info?category=spot&limit=1000'' []) of None \<Rightarrow> None
     | Some (ok, bybit_instruments) \<Rightarrow> if \<not> ok then Some (Inl BybitInstruments)
     else case parse_bybit_spot_tickers j (se_get env bybit_host ''/v5/market/tickers?category=spot'' []) of None \<Rightarrow> None
     | Some (ok, bybit_quotes) \<Rightarrow> if \<not> ok then Some (Inl BybitTickers)
     else Some (Inr \<lparr>un_bithumb_quotes = bithumb_quotes, un_bithumb_statuses = bithumb_statuses,
            un_bybit_instruments = bybit_instruments, un_bybit_quotes = bybit_quotes\<rparr>))"

text \<open>One candidate; \<open>networks\<close> and \<open>coin_info\<close> are only looked at with an account.\<close>

definition make_candidate ::
    "'j scan_env \<Rightarrow> string \<Rightarrow> exchange_credentials \<Rightarrow> bool \<Rightarrow> universe \<Rightarrow> spot_quote \<Rightarrow> (string \<times> chain_info list) list \<Rightarrow>
     (string \<times> string list) list \<Rightarrow> string \<Rightarrow> candidate" where
  "make_candidate env bybit_host bybit_creds bybit_auth u usdt coin_info networks base =
    (let c = priced_candidate base (the (map_of (un_bithumb_quotes u) base)) (the (map_of (un_bybit_quotes u) base))
           (the (map_of (un_bybit_instruments u) base)) usdt (map_of (un_bithumb_statuses u) base)
     in if bybit_auth
        then with_borrow_check env bybit_host bybit_creds
          (with_networks (case map_of networks base of Some ns \<Rightarrow> ns | None \<Rightarrow> []) (map_of coin_info base) c)
        else c)"

definition fetch_coin_info :: "'j scan_env \<Rightarrow> string \<Rightarrow> exchange_credentials \<Rightarrow> (string \<times> chain_info list) list" where
  "fetch_coin_info env bybit_host bybit_creds =
    (if has_usable_bybit_auth bybit_creds
     then parse_bybit_coin_info (se_json env)
       (se_get env bybit_host ''/v5/asset/coin/query-info'' (build_bybit_auth_headers env bybit_creds []))
     else [])"

text \<open>The requests go out in batches of eight; the answers do not depend on the batches.\<close>

definition fetch_networks :: "'j scan_env \<Rightarrow> string \<Rightarrow> exchange_credentials \<Rightarrow> string list \<Rightarrow> (string \<times> string list) list" where
  "fetch_networks env bithumb_host bybit_creds bases =
    (if has_usable_bybit_auth bybit_creds
     then map (\<lambda>coin. (coin, parse_bithumb_multichain_withdrawable_networks (se_json env)
       (se_get env bithumb_host (''/public/assetsstatus/multichain/'' @ coin) []))) bases
     else [])"

definition scan_universe ::
    "'j scan_env \<Rightarrow> string \<Rightarrow> string \<Rightarrow> exchange_credentials \<Rightarrow> universe \<Rightarrow> scan_failure + candidate list" where
  "scan_universe env bithumb_host bybit_host bybit_creds u =
    (case map_of (un_bithumb_quotes u) ''USDT'' of None \<Rightarrow> Inl UsdtQuoteMissing
     | Some usdt \<Rightarrow>
        let coin_info = fetch_coin_info env bybit_host bybit_creds;
            bases = common_bases (un_bithumb_quotes u) (un_bybit_instruments u) (un_bybit_quotes u);
            networks = fetch_networks env bithumb_host bybit_creds bases
        in Inr (sort_by ranks_before (map (make_candidate env bybit_host bybit_creds
             (has_usable_bybit_auth bybit_creds) u usdt coin_info networks) bases)))"

definition scanner_run ::
    "'j scan_env \<Rightarrow> (exchange \<times> exchange_credentials) list \<Rightarrow> (scan_failure + candidate list) option" where
  "scanner_run env exchanges =
    (case (map_of exchanges Bithumb, map_of exchanges Bybit) of
       (Some bithumb_creds, Some bybit_creds) \<Rightarrow>
         if \<not> xc_enabled bithumb_creds \<or> \<not> xc_enabled bybit_creds then Some (Inl NotEnabled)
         else let bithumb_host = extract_host (xc_rest_endpoint bithumb_creds);
                  bybit_host = extract_host (xc_rest_endpoint bybit_creds)
           in if \<not> se_initialize env bithumb_host then Some (Inl ClientInit)
              else if \<not> se_initialize env bybit_host then Some (Inl ClientInit)
              else (case load_universe env bithumb_host bybit_host of None \<Rightarrow> None
                | Some (Inl f) \<Rightarrow> Some (Inl f)
                | Some (Inr u) \<Rightarrow> Some (scan_universe env bithumb_host bybit_host bybit_creds u))
     | _ \<Rightarrow> Some (Inl ConfigMissing))"

section \<open>What the report shows\<close>

text \<open>The escapes of the report: a reader of JSON strings that knows them gets the string back, and stops
  at the closing quote and not before.\<close>

fun json_read_string :: "string \<Rightarrow> (string \<times> string) option" where
  "json_read_string [] = None"
| "json_read_string (c # cs) =
    (if c = CHR 0x22 then Some ([], cs)
     else if c = CHR 0x5C then (case cs of [] \<Rightarrow> None
       | e # cs \<Rightarrow> map_option (apfst ((#) (if e = CHR ''n'' then CHR 0x0A else if e = CHR ''r'' then CHR 0x0D
           else if e = CHR ''t'' then CHR 0x09 else e))) (json_read_string cs))
     else map_option (apfst ((#) c)) (json_read_string cs))"

lemma json_escape_read: "json_read_string (json_escape s @ CHR 0x22 # rest) = Some (s, rest)"
  by (induction s) (auto simp: json_escape_def json_escape_char_def)

lemma bithumb_book_distinct: "distinct (map fst qs) \<Longrightarrow> distinct (map fst (bithumb_book j f qs))"
  by (auto simp: bithumb_book_def emplace_keys split: prod.splits)

lemma orderbooks_distinct:
  assumes "parse_bithumb_orderbooks j r = Some (ok, qs)"
  shows "distinct (map fst qs)"
proof -
  have "distinct (map fst (fold (bithumb_book j) ms qs))" if "distinct (map fst qs)" for ms qs
    using that by (induction ms arbitrary: qs) (auto simp: bithumb_book_distinct)
  from this [of "[]"] show ?thesis
    using assms by (auto simp: parse_bithumb_orderbooks_def Let_def split: if_splits option.splits)
qed

lemma load_universe_distinct:
  "load_universe env bh yh = Some (Inr u) \<Longrightarrow> distinct (map fst (un_bithumb_quotes u))"
  by (auto simp: load_universe_def Let_def split: option.splits prod.splits if_splits dest: orderbooks_distinct)

lemma common_bases_set:
  "set (common_bases q i y) = {b. b \<noteq> ''USDT'' \<and> map_of q b \<noteq> None \<and> map_of i b \<noteq> None \<and> map_of y b \<noteq> None}"
  by (auto simp: common_bases_def map_of_eq_None_iff)

lemma common_bases_distinct: "distinct (map fst q) \<Longrightarrow> distinct (common_bases q i y)"
  by (simp add: common_bases_def)

lemma remdups_adj_sorted_distinct: "sorted (xs :: 'a :: linorder list) \<Longrightarrow> distinct (remdups_adj xs)"
  by (induction xs rule: remdups_adj.induct) (auto simp: order.strict_iff_order)

lemma sort_unique_set: "set (sort_unique xs) = set xs" "sorted (sort_unique xs)" "distinct (sort_unique xs)"
  by (simp_all add: sort_unique_def remdups_adj_sorted_distinct)

text \<open>The order of the report is a strict weak order on candidates whose edges are numbers.\<close>

lemma ranks_before_lex:
  assumes "cd_net_edge_pct a \<noteq> NaN" "cd_net_edge_pct b \<noteq> NaN"
  shows "ranks_before a b = lex_then (\<lambda>a b. enterable a \<and> \<not> enterable b)
    (lex_then (\<lambda>a b. meets_entry_profit_floor (cd_net_profit_krw a) \<and> \<not> meets_entry_profit_floor (cd_net_profit_krw b))
    (lex_then (\<lambda>a b. cd_both_can_fill_target a \<and> \<not> cd_both_can_fill_target b)
    (lex_then (\<lambda>a b. cd_net_edge_pct b < cd_net_edge_pct a)
    (lex_then (\<lambda>a b. transfer_ready a \<and> \<not> transfer_ready b)
    (lex_then (\<lambda>a b. cd_bybit_shortable a \<and> \<not> cd_bybit_shortable b)
      (\<lambda>a b. cd_gross_edge_pct b < cd_gross_edge_pct a)))))) a b"
proof -
  have eq: "deq x y \<longleftrightarrow> \<not> x < y \<and> \<not> y < x" if "x \<noteq> NaN" "y \<noteq> NaN" for x y :: dbl
    using that dbl_le_antisym dbl_not_lt by (cases x; cases y) (auto simp: dbl_not_lt)
  show ?thesis
    using eq [OF assms] unfolding ranks_before_def lex_then_def Let_def
    by (cases "enterable a"; cases "enterable b"; simp)
qed

definition edges_are_numbers :: "candidate \<Rightarrow> bool" where
  "edges_are_numbers c \<longleftrightarrow> cd_net_edge_pct c \<noteq> NaN \<and> cd_gross_edge_pct c \<noteq> NaN"

interpretation ranking: comparator ranks_before edges_are_numbers
proof -
  let ?lex = "lex_then (\<lambda>a b. enterable a \<and> \<not> enterable b)
    (lex_then (\<lambda>a b. meets_entry_profit_floor (cd_net_profit_krw a) \<and> \<not> meets_entry_profit_floor (cd_net_profit_krw b))
    (lex_then (\<lambda>a b. cd_both_can_fill_target a \<and> \<not> cd_both_can_fill_target b)
    (lex_then (\<lambda>a b. cd_net_edge_pct b < cd_net_edge_pct a)
    (lex_then (\<lambda>a b. transfer_ready a \<and> \<not> transfer_ready b)
    (lex_then (\<lambda>a b. cd_bybit_shortable a \<and> \<not> cd_bybit_shortable b)
      (\<lambda>a b. cd_gross_edge_pct b < cd_gross_edge_pct a))))))"
  have "comparator ?lex edges_are_numbers"
    by (intro comparator_lex comparator_flag comparator_flip [OF comparator_number]) (auto simp: edges_are_numbers_def)
  moreover have "ranks_before a b = ?lex a b" if "edges_are_numbers a" "edges_are_numbers b" for a b
    using ranks_before_lex that by (simp add: edges_are_numbers_def)
  ultimately show "comparator ranks_before edges_are_numbers"
    unfolding comparator_def by (metis (no_types, lifting))
qed

lemma enrichment_frame [simp]:
  "cd_base (with_networks ns ch c) = cd_base c" "cd_base (with_borrow_check env h cr c) = cd_base c"
  "enterable (with_networks ns ch c) = enterable c" "enterable (with_borrow_check env h cr c) = enterable c"
  "cd_bithumb_withdraw_enabled (with_borrow_check env h cr c) = cd_bithumb_withdraw_enabled c"
  "cd_bithumb_withdraw_enabled (with_networks ns ch c) = cd_bithumb_withdraw_enabled c"
  "cd_shared_networks (with_borrow_check env h cr c) = cd_shared_networks c"
  "cd_net_profit_krw (with_networks ns ch c) = cd_net_profit_krw c" "cd_net_profit_krw (with_borrow_check env h cr c) = cd_net_profit_krw c"
  by (simp_all add: with_networks_def with_borrow_check_def enterable_def Let_def split: option.split)

lemma make_candidate_base [simp]: "cd_base (make_candidate env h cr auth u usdt ci ns base) = base"
  by (simp add: make_candidate_def priced_candidate_def Let_def)

text \<open>What a successful run has computed.\<close>

definition universe_bases :: "universe \<Rightarrow> string list" where
  "universe_bases u = common_bases (un_bithumb_quotes u) (un_bybit_instruments u) (un_bybit_quotes u)"

definition scan_candidate :: "'j scan_env \<Rightarrow> string \<Rightarrow> string \<Rightarrow> exchange_credentials \<Rightarrow> universe \<Rightarrow> spot_quote \<Rightarrow> string \<Rightarrow> candidate" where
  "scan_candidate env bh yh cr u usdt =
     make_candidate env yh cr (has_usable_bybit_auth cr) u usdt (fetch_coin_info env yh cr) (fetch_networks env bh cr (universe_bases u))"

lemma scanner_run_result:
  assumes "scanner_run env exchanges = Some (Inr cs)"
  obtains bcr cr bh yh u usdt where "map_of exchanges Bithumb = Some bcr" "map_of exchanges Bybit = Some cr"
    "xc_enabled bcr \<and> xc_enabled cr" "bh = extract_host (xc_rest_endpoint bcr)" "yh = extract_host (xc_rest_endpoint cr)"
    "load_universe env bh yh = Some (Inr u)" "map_of (un_bithumb_quotes u) ''USDT'' = Some usdt"
    "cs = sort_by ranks_before (map (scan_candidate env bh yh cr u usdt) (universe_bases u))"
proof -
  obtain bcr cr u where cr: "map_of exchanges Bithumb = Some bcr" "map_of exchanges Bybit = Some cr" "xc_enabled bcr \<and> xc_enabled cr"
    and u: "load_universe env (extract_host (xc_rest_endpoint bcr)) (extract_host (xc_rest_endpoint cr)) = Some (Inr u)"
      "scan_universe env (extract_host (xc_rest_endpoint bcr)) (extract_host (xc_rest_endpoint cr)) cr u = Inr cs"
    using assms by (auto simp: scanner_run_def Let_def split: option.splits if_splits sum.splits)
  then show ?thesis
    using that [OF cr refl refl u(1)] by (auto simp: scan_universe_def scan_candidate_def [abs_def] universe_bases_def Let_def split: option.splits)
qed

lemma scan_candidate_base [simp]: "cd_base (scan_candidate env bh yh cr u usdt base) = base"
  by (simp add: scan_candidate_def)

text \<open>C38. The report of a successful scan is exact: it has exactly one candidate for every coin other than
  USDT that Bithumb quotes and Bybit both lists and quotes, and (when the edges are numbers) no
  candidate that ranks before an earlier one, so the candidates that can be entered come first.\<close>

theorem scan_report_exact:
  assumes "scanner_run env exchanges = Some (Inr cs)"
  shows "\<exists>bcr cr u. map_of exchanges Bithumb = Some bcr \<and> map_of exchanges Bybit = Some cr \<and> xc_enabled bcr \<and> xc_enabled cr \<and>
    load_universe env (extract_host (xc_rest_endpoint bcr)) (extract_host (xc_rest_endpoint cr)) = Some (Inr u) \<and>
    distinct (map cd_base cs) \<and>
    set (map cd_base cs) = {b. b \<noteq> ''USDT'' \<and> map_of (un_bithumb_quotes u) b \<noteq> None \<and>
       map_of (un_bybit_instruments u) b \<noteq> None \<and> map_of (un_bybit_quotes u) b \<noteq> None} \<and>
    (list_all edges_are_numbers cs \<longrightarrow> sorted_wrt (\<lambda>a b. \<not> ranks_before b a \<and> (enterable b \<longrightarrow> enterable a)) cs)"
proof -
  obtain bcr cr bh yh u usdt where cr: "map_of exchanges Bithumb = Some bcr" "map_of exchanges Bybit = Some cr"
      "xc_enabled bcr \<and> xc_enabled cr" "bh = extract_host (xc_rest_endpoint bcr)" "yh = extract_host (xc_rest_endpoint cr)"
    and u: "load_universe env bh yh = Some (Inr u)" and "map_of (un_bithumb_quotes u) ''USDT'' = Some usdt"
    and cs: "cs = sort_by ranks_before (map (scan_candidate env bh yh cr u usdt) (universe_bases u))"
    by (rule scanner_run_result [OF assms])
  have "mset (map cd_base cs) = mset (universe_bases u)"
    unfolding cs by (simp add: image_mset.compositionality comp_def)
  note same = mset_eq_imp_distinct_iff [OF this] mset_eq_setD [OF this]
  have "distinct (map cd_base cs)"
    unfolding same(1) universe_bases_def by (rule common_bases_distinct [OF load_universe_distinct [OF u]])
  moreover have "sorted_wrt (\<lambda>a b. \<not> ranks_before b a \<and> (enterable b \<longrightarrow> enterable a)) cs" if "list_all edges_are_numbers cs"
  proof -
    have "\<forall>x \<in> set (map (scan_candidate env bh yh cr u usdt) (universe_bases u)). edges_are_numbers x"
      using that unfolding cs list_all_iff set_sort_by .
    from ranking.sort_no_inversion [OF this] have sorted: "sorted_wrt (\<lambda>a b. \<not> ranks_before b a) cs" unfolding cs .
    have "enterable a" if "\<not> ranks_before b a" "enterable b" for a b
      using that by (cases "enterable a") (simp_all add: ranks_before_def)
    then show ?thesis by (intro sorted_wrt_mono_rel [OF _ sorted]) simp
  qed
  moreover have "set (universe_bases u) = {b. b \<noteq> ''USDT'' \<and> map_of (un_bithumb_quotes u) b \<noteq> None \<and>
       map_of (un_bybit_instruments u) b \<noteq> None \<and> map_of (un_bybit_quotes u) b \<noteq> None}"
    unfolding universe_bases_def by (rule common_bases_set)
  ultimately show ?thesis using u cr same(2) by (intro exI [of _ bcr] exI [of _ cr] exI [of _ u]) simp
qed

text \<open>The relay metrics of the quotes a candidate shows.\<close>

definition candidate_metrics :: "candidate \<Rightarrow> relay_metrics" where
  "candidate_metrics c = calculate_relay_metrics (cd_bithumb_ask_krw c) (cd_bithumb_ask_qty c) (cd_bybit_bid_usdt c)
     (cd_bybit_bid_qty c) (cd_usdt_bid_krw c) BITHUMB_FEE_RATE BYBIT_FEE_RATE 0"

definition candidate_wf :: "candidate \<Rightarrow> bool" where
  "candidate_wf c \<longleftrightarrow> cd_both_can_fill_target c = rm_both_can_fill_target (candidate_metrics c) \<and>
     cd_match_qty c = rm_match_qty (candidate_metrics c) \<and> cd_net_edge_pct c = rm_net_edge_pct (candidate_metrics c) \<and>
     cd_net_profit_krw c = rm_net_profit_krw (candidate_metrics c)"

lemma enrichment_metrics [simp]:
  "candidate_wf (with_networks ns ch c) = candidate_wf c" "candidate_wf (with_borrow_check env h cr c) = candidate_wf c"
  by (simp_all add: candidate_wf_def candidate_metrics_def with_networks_def with_borrow_check_def Let_def split: option.split)

lemma scan_candidate_wf: "candidate_wf (scan_candidate env bh yh cr u usdt base)"
proof -
  have "candidate_wf (priced_candidate base kr spot instr usdt st)" for kr spot instr st
    by (simp add: candidate_wf_def candidate_metrics_def priced_candidate_def Let_def)
  then show ?thesis by (simp add: scan_candidate_def make_candidate_def Let_def)
qed

lemma enterable_covers_fees:
  assumes "candidate_wf c" "enterable c"
  shows "0 < cd_bithumb_ask_krw c \<and> 0 < cd_bybit_bid_usdt c \<and> 0 < cd_usdt_bid_krw c \<and>
    rm_total_fee_krw (candidate_metrics c) < rm_gross_spread_krw (candidate_metrics c) \<and>
    rm_match_buy_krw (candidate_metrics c) < rm_match_sell_krw (candidate_metrics c)"
proof -
  have gate: "entry_gate_passes (rm_both_can_fill_target (candidate_metrics c)) (rm_match_qty (candidate_metrics c))
      (rm_net_edge_pct (candidate_metrics c)) (rm_net_profit_krw (candidate_metrics c))"
    using assms by (simp add: candidate_wf_def enterable_def)
  note inputs = entry_gate_inputs [OF candidate_metrics_def gate]
  have rates: "0 \<le> BITHUMB_FEE_RATE" "0 \<le> BYBIT_FEE_RATE" "0 \<le> (0 :: dbl)"
    using fee_rates_pos(1) [of Bithumb] fee_rates_pos(2) [of Bybit]
    by (auto simp: get_korean_fee_rate_def get_foreign_fee_rate_def dbl_lt_le zero_dbl_def)
  have "MIN_ENTRY_NET_PROFIT_KRW \<le> rm_net_profit_krw (candidate_metrics c)"
    using gate by (simp add: entry_gate_passes_def meets_entry_profit_floor_def)
  note floor = this [unfolded candidate_metrics_def]
  have in': "0 < cd_bithumb_ask_krw c" "0 < cd_bithumb_ask_qty c" "0 < cd_bybit_bid_usdt c" "0 < cd_bybit_bid_qty c" "0 < cd_usdt_bid_krw c"
    using inputs by simp_all
  note covers = floor_covers_fees [OF in' floor rates, folded candidate_metrics_def]
  show ?thesis using in' covers(2,3) by simp
qed

text \<open>A candidate with an account is ready for the transfer only over a network open on both sides.\<close>

lemma scan_candidate_networks:
  assumes "net \<in> set (cd_shared_networks (scan_candidate env bh yh cr u usdt base))" "base \<in> set (universe_bases u)"
  shows "has_usable_bybit_auth cr \<and>
    net \<in> set (parse_bithumb_multichain_withdrawable_networks (se_json env) (se_get env bh (''/public/assetsstatus/multichain/'' @ base) [])) \<and>
    (\<exists>chs ch. map_of (fetch_coin_info env yh cr) base = Some chs \<and> ch \<in> set chs \<and> ci_deposit_enabled ch \<and> ci_chain ch = net)"
proof -
  have "map_of (map (\<lambda>coin. (coin, f coin)) xs) base = Some (f base)" if "base \<in> set xs" for f :: "string \<Rightarrow> string list" and xs
    using that by (induction xs) auto
  then show ?thesis
    using assms by (auto simp: scan_candidate_def make_candidate_def priced_candidate_def with_networks_def fetch_networks_def
        intersect_networks_def sort_unique_set Let_def split: if_splits option.splits)
qed


end
