(* ===== verification/SampleJson.thy ===== *)
theory SampleJson
  imports Json
begin

text \<open>
  A JSON library for concrete runs: documents are values, and a body names one of a given list. It
  shows that the parameter \<open>json_api\<close> of the adapters and of the scanner can be what they expect.
\<close>

datatype sample_json = JErr | JInt int | JText string | JBool bool | JList "sample_json list" | JObj "(string \<times> sample_json) list"

definition sample_field :: "sample_json \<Rightarrow> string \<Rightarrow> sample_json" where
  "sample_field v k = (case v of JObj ms \<Rightarrow> (case map_of ms k of None \<Rightarrow> JErr | Some x \<Rightarrow> x) | _ \<Rightarrow> JErr)"

definition sample_api :: "(string \<times> sample_json) list \<Rightarrow> sample_json json_api" where
  "sample_api documents = \<lparr>ja_iterate = (\<lambda>body. case map_of documents body of None \<Rightarrow> JErr | Some doc \<Rightarrow> doc),
     ja_field = sample_field, ja_ok = (\<lambda>v. v \<noteq> JErr),
     ja_double = (\<lambda>v. case v of JInt n \<Rightarrow> Some (Fin (of_int n)) | _ \<Rightarrow> None),
     ja_int64 = (\<lambda>v. case v of JInt n \<Rightarrow> Some n | _ \<Rightarrow> None), ja_uint64 = (\<lambda>v. None),
     ja_bool = (\<lambda>v. case v of JBool b \<Rightarrow> Some b | _ \<Rightarrow> None),
     ja_string = (\<lambda>v. case v of JText s \<Rightarrow> Some s | _ \<Rightarrow> None),
     ja_array = (\<lambda>v. case v of JList vs \<Rightarrow> Some vs | _ \<Rightarrow> None),
     ja_object = (\<lambda>v. case v of JObj ms \<Rightarrow> Some ms | _ \<Rightarrow> None)\<rparr>"

text \<open>Every request is answered by its own path, which names a document.\<close>

definition sample_fetch :: "(string \<times> sample_json) list \<Rightarrow> string \<Rightarrow> http_response" where
  "sample_fetch documents path =
     \<lparr>hr_status_code = 200, hr_body = path, hr_headers = [], hr_success = (map_of documents path \<noteq> None), hr_error = []\<rparr>"

end
