(* ===== verification/ScannerRun.thy ===== *)
theory ScannerRun
  imports Scanner SampleJson
begin

text \<open>
  The scanner at a concrete input: a pair of venues with one common coin,
  cheaper on Bithumb, whose network is open on both sides.
\<close>

definition level :: "int \<Rightarrow> int \<Rightarrow> sample_json" where
  "level price qty = JList [JObj [(''price'', JInt price), (''quantity'', JInt qty)]]"

definition book :: "int \<Rightarrow> int \<Rightarrow> int \<Rightarrow> sample_json" where
  "book bid ask qty = JObj [(''bids'', level bid qty), (''asks'', level ask qty)]"

definition demo_documents :: "(string \<times> sample_json) list" where
  "demo_documents =
    [(''/public/orderbook/ALL_KRW?count=1'', JObj [(''status'', JText ''0000''),
        (''data'', JObj [(''timestamp'', JText ''0''), (''USDT'', book 1480 1481 9000), (''XRP'', book 1399 1400 40), (''ETC'', book 9 10 1)])]),
     (''/public/assetsstatus/ALL'', JObj [(''status'', JText ''0000''),
        (''data'', JObj [(''XRP'', JObj [(''deposit_status'', JInt 1), (''withdrawal_status'', JInt 1)])])]),
     (''/v5/market/instruments-info?category=spot&limit=1000'', JObj [(''retCode'', JInt 0), (''result'', JObj [(''list'',
        JList [JObj [(''symbol'', JText ''XRPUSDT''), (''baseCoin'', JText ''XRP''), (''quoteCoin'', JText ''USDT''),
          (''status'', JText ''Trading''), (''marginTrading'', JText ''both'')]])])]),
     (''/v5/market/tickers?category=spot'', JObj [(''retCode'', JInt 0), (''result'', JObj [(''list'',
        JList [JObj [(''symbol'', JText ''XRPUSDT''), (''bid1Price'', JInt 1), (''ask1Price'', JInt 1),
          (''bid1Size'', JInt 50), (''ask1Size'', JInt 50)]])])]),
     (''/v5/asset/coin/query-info'', JObj [(''retCode'', JInt 0), (''result'', JObj [(''rows'',
        JList [JObj [(''coin'', JText ''XRP''), (''chains'', JList [JObj [(''chain'', JText ''xrp''),
          (''chainDeposit'', JText ''1''), (''chainWithdraw'', JText ''1'')]])]])])]),
     (''/public/assetsstatus/multichain/XRP'', JObj [(''status'', JText ''0000''),
        (''data'', JList [JObj [(''net_type'', JText ''XRP''), (''withdrawal_status'', JInt 1)]])])]"

text \<open>Every request is answered by its own path, which names a document; the borrow check fails.\<close>

definition demo_scan :: "sample_json scan_env" where
  "demo_scan = \<lparr>se_json = sample_api demo_documents, se_initialize = (\<lambda>host. host \<noteq> []),
     se_get = (\<lambda>host path headers. sample_fetch demo_documents path),
     se_timestamp = ''1'', se_hmac_sha256 = (\<lambda>key message. [])\<rparr>"

definition demo_creds :: "string \<Rightarrow> exchange_credentials" where
  "demo_creds url = \<lparr>xc_api_key = ''key'', xc_secret_key = ''secret'', xc_passphrase = [], xc_ws_endpoint = [],
     xc_ws_private_endpoint = [], xc_ws_trade_endpoint = [], xc_rest_endpoint = url, xc_enabled = True\<rparr>"

definition demo_exchanges :: "(exchange \<times> exchange_credentials) list" where
  "demo_exchanges = [(Bithumb, demo_creds ''https://api.bithumb.com''), (Bybit, demo_creds ''https://api.bybit.com:443/v5'')]"

definition demo_universe :: universe where
  "demo_universe = \<lparr>un_bithumb_quotes =
      [(''USDT'', \<lparr>sq_bid = Fin 1480, sq_ask = Fin 1481, sq_bid_qty = Fin 9000, sq_ask_qty = Fin 9000\<rparr>),
       (''XRP'', \<lparr>sq_bid = Fin 1399, sq_ask = Fin 1400, sq_bid_qty = Fin 40, sq_ask_qty = Fin 40\<rparr>),
       (''ETC'', \<lparr>sq_bid = Fin 9, sq_ask = Fin 10, sq_bid_qty = Fin 1, sq_ask_qty = Fin 1\<rparr>)],
     un_bithumb_statuses = [(''XRP'', \<lparr>as_deposit_enabled = True, as_withdraw_enabled = True\<rparr>)],
     un_bybit_instruments = [(''XRP'', \<lparr>si_symbol = ''XRPUSDT'', si_base = ''XRP'', si_quote = ''USDT'', si_trading = True,
        si_margin_enabled = True, si_margin_mode = ''both''\<rparr>)],
     un_bybit_quotes = [(''XRP'', \<lparr>sq_bid = Fin 1, sq_ask = Fin 1, sq_bid_qty = Fin 50, sq_ask_qty = Fin 50\<rparr>)]\<rparr>"

lemma demo_hosts: "extract_host ''https://api.bithumb.com'' = ''api.bithumb.com'' \<and>
    extract_host ''https://api.bybit.com:443/v5'' = ''api.bybit.com''"
  by code_simp

lemma demo_load: "load_universe demo_scan ''api.bithumb.com'' ''api.bybit.com'' = Some (Inr demo_universe)"
  by code_simp

lemma demo_coin_info:
  "fetch_coin_info demo_scan h (demo_creds url) = [(''XRP'', [\<lparr>ci_chain = ''XRP'', ci_deposit_enabled = True, ci_withdraw_enabled = True\<rparr>])]"
  by code_simp

lemma demo_bases: "universe_bases demo_universe = [''XRP'']"
  by code_simp

lemma demo_networks:
  "fetch_networks demo_scan h (demo_creds url) [''XRP''] = [(''XRP'', [''XRP''])]"
  by code_simp

definition demo_report :: candidate where
  "demo_report = scan_candidate demo_scan ''api.bithumb.com'' ''api.bybit.com'' (demo_creds ''https://api.bybit.com:443/v5'')
     demo_universe \<lparr>sq_bid = Fin 1480, sq_ask = Fin 1481, sq_bid_qty = Fin 9000, sq_ask_qty = Fin 9000\<rparr> ''XRP''"

lemma demo_auth: "has_usable_bybit_auth (demo_creds url)"
  by (simp add: has_usable_bybit_auth_def demo_creds_def looks_unresolved_env_def)

lemma demo_scanner_run: "scanner_run demo_scan demo_exchanges = Some (Inr [demo_report])"
proof -
  have "scan_universe demo_scan ''api.bithumb.com'' ''api.bybit.com'' (demo_creds ''https://api.bybit.com:443/v5'') demo_universe
      = Inr [demo_report]"
    using demo_bases by (simp add: scan_universe_def demo_report_def scan_candidate_def universe_bases_def) (simp add: demo_universe_def)
  then show ?thesis
    using demo_hosts demo_load
    by (simp add: scanner_run_def demo_exchanges_def Let_def) (simp add: demo_creds_def demo_scan_def)
qed

lemma demo_report_fields:
  "cd_base demo_report = ''XRP''" "cd_shared_networks demo_report = [''XRP'']" "cd_gross_edge_pct demo_report = gross_edge (Fin 1400) (Fin 1) (Fin 1480)"
  "candidate_metrics demo_report = calculate_relay_metrics (Fin 1400) (Fin 40) (Fin 1) (Fin 50) (Fin 1480) BITHUMB_FEE_RATE BYBIT_FEE_RATE 0"
proof -
  have net: "intersect_networks [''XRP''] [\<lparr>ci_chain = ''XRP'', ci_deposit_enabled = True, ci_withdraw_enabled = True\<rparr>] = [''XRP'']"
    by code_simp
  obtain c where r: "demo_report = with_borrow_check demo_scan ''api.bybit.com'' (demo_creds ''https://api.bybit.com:443/v5'') c"
    and c: "cd_base c = ''XRP''" "cd_shared_networks c = [''XRP'']" "cd_gross_edge_pct c = gross_edge (Fin 1400) (Fin 1) (Fin 1480)"
      "candidate_metrics c = calculate_relay_metrics (Fin 1400) (Fin 40) (Fin 1) (Fin 50) (Fin 1480) BITHUMB_FEE_RATE BYBIT_FEE_RATE 0"
    unfolding demo_report_def scan_candidate_def demo_bases demo_coin_info demo_networks
    by (simp add: make_candidate_def demo_auth with_networks_def demo_universe_def priced_candidate_def Let_def candidate_metrics_def net)
  show "cd_base demo_report = ''XRP''" "cd_shared_networks demo_report = [''XRP'']"
    "cd_gross_edge_pct demo_report = gross_edge (Fin 1400) (Fin 1) (Fin 1480)"
    "candidate_metrics demo_report = calculate_relay_metrics (Fin 1400) (Fin 40) (Fin 1) (Fin 50) (Fin 1480) BITHUMB_FEE_RATE BYBIT_FEE_RATE 0"
    unfolding r by (simp_all add: c with_borrow_check_def candidate_metrics_def [of "_\<lparr>cd_borrow_check_available := _\<rparr>"] Let_def)
      (use c(4) in \<open>simp add: candidate_metrics_def\<close>)
qed

lemma demo_scan_metrics:
  "let m = calculate_relay_metrics (Fin 1400) (Fin 40) (Fin 1) (Fin 50) (Fin 1480) BITHUMB_FEE_RATE BYBIT_FEE_RATE 0 in
     entry_gate_passes (rm_both_can_fill_target m) (rm_match_qty m) (rm_net_edge_pct m) (rm_net_profit_krw m) \<and> rm_net_edge_pct m \<noteq> NaN"
  by (simp add: gate_eval cong: let_weak_cong)

lemma demo_gross_edge: "gross_edge (Fin 1400) (Fin 1) (Fin 1480) \<noteq> NaN"
  by (simp add: gross_edge_def dbl_eval cong: let_weak_cong)

lemma demo_report_gate: "enterable demo_report" "edges_are_numbers demo_report"
proof -
  have wf: "candidate_wf demo_report" unfolding demo_report_def by (rule scan_candidate_wf)
  note m = demo_scan_metrics [folded demo_report_fields(4), unfolded Let_def]
  show "enterable demo_report" "edges_are_numbers demo_report"
    using wf m demo_gross_edge by (simp_all add: candidate_wf_def enterable_def edges_are_numbers_def demo_report_fields(3))
qed

theorem scan_report_exact_witness:
  "\<exists>cs. scanner_run demo_scan demo_exchanges = Some (Inr cs) \<and> map cd_base cs = [''XRP''] \<and> list_all edges_are_numbers cs \<and>
    (\<exists>bcr cr u. map_of demo_exchanges Bithumb = Some bcr \<and> map_of demo_exchanges Bybit = Some cr \<and>
      load_universe demo_scan (extract_host (xc_rest_endpoint bcr)) (extract_host (xc_rest_endpoint cr)) = Some (Inr u) \<and>
      map_of (un_bithumb_quotes u) ''XRP'' \<noteq> None)"
proof -
  have names: "map cd_base [demo_report] = [''XRP'']" by (simp add: demo_report_fields(1))
  from scan_report_exact [OF demo_scanner_run, unfolded names] obtain bcr cr u where
    x: "map_of demo_exchanges Bithumb = Some bcr" "map_of demo_exchanges Bybit = Some cr"
      "load_universe demo_scan (extract_host (xc_rest_endpoint bcr)) (extract_host (xc_rest_endpoint cr)) = Some (Inr u)"
    and set: "set [''XRP''] = {b. b \<noteq> ''USDT'' \<and> map_of (un_bithumb_quotes u) b \<noteq> None \<and>
       map_of (un_bybit_instruments u) b \<noteq> None \<and> map_of (un_bybit_quotes u) b \<noteq> None}" by (elim exE conjE) (rule that)
  have "''XRP'' \<in> set [''XRP'']" by simp
  then have "map_of (un_bithumb_quotes u) ''XRP'' \<noteq> None" unfolding set by simp
  then show ?thesis using x demo_scanner_run names demo_report_gate(2) 
    by (intro exI [of _ "[demo_report]"] conjI exI [of _ bcr] exI [of _ cr] exI [of _ u]) simp_all
qed


end
