(* ===== verification/Crypto.thy ===== *)
theory Crypto
  imports Chars Prelude
begin

text \<open>
  The encodings of \<^verbatim>\<open>include/kimp/utils/crypto.hpp\<close>: hexadecimal text, base64 in both directions on
  32-bit words, percent encoding and version 4 UUIDs from random bytes. The digests and the
  random bytes come from OpenSSL and are arguments where they are used. Bytes are 8-bit words;
  the bytes of a text are those of its characters.
\<close>

unbundle bit_operations_syntax

section \<open>Hexadecimal text and UUIDs\<close>

definition HEX :: string where
  "HEX = ''0123456789abcdef''"

definition hex_pair :: "string \<Rightarrow> u8 \<Rightarrow> string" where
  "hex_pair h b = [h ! unat (drop_bit 4 b), h ! unat (b AND 0x0F)]"

definition to_hex :: "u8 list \<Rightarrow> string" where
  "to_hex bs = concat (map (hex_pair HEX) bs)"

definition uuid_bytes :: "u8 list \<Rightarrow> u8 list" where
  "uuid_bytes bytes = (let bytes = bytes[6 := (bytes ! 6 AND 0x0F) OR 0x40]
     in bytes[8 := (bytes ! 8 AND 0x3F) OR 0x80])"

text \<open>\<open>None\<close> stands for a failure of \<^verbatim>\<open>RAND_bytes\<close>.\<close>

definition generate_uuid :: "u8 list option \<Rightarrow> string" where
  "generate_uuid random =
    (case random of None \<Rightarrow> []
     | Some bytes \<Rightarrow> concat (map (\<lambda>i. (if i = 4 \<or> i = 6 \<or> i = 8 \<or> i = 10 then ''-'' else []) @ hex_pair HEX (uuid_bytes bytes ! i)) [0..<16]))"

definition generate_nonce :: "u8 list option \<Rightarrow> string" where
  "generate_nonce random = (case random of None \<Rightarrow> [] | Some bytes \<Rightarrow> to_hex bytes)"

section \<open>Percent encoding\<close>

definition HEX_UPPER :: string where
  "HEX_UPPER = ''0123456789ABCDEF''"

definition url_unreserved :: "char \<Rightarrow> bool" where
  "url_unreserved c \<longleftrightarrow> isalnum c \<or> c = CHR ''-'' \<or> c = CHR ''_'' \<or> c = CHR ''.'' \<or> c = CHR ''~''"

definition url_encode :: "string \<Rightarrow> string" where
  "url_encode str = concat (map (\<lambda>c. if url_unreserved c then [c] else CHR ''%'' # hex_pair HEX_UPPER (of_char c)) str)"

section \<open>Base64\<close>

definition BASE64_TABLE :: string where
  "BASE64_TABLE = ''ABCDEFGHIJKLMNOPQRSTUVWXYZabcdefghijklmnopqrstuvwxyz0123456789+/''"

definition base64_char :: "u32 \<Rightarrow> char" where
  "base64_char n = BASE64_TABLE ! unat (n AND 0x3F)"

fun base64_encode :: "u8 list \<Rightarrow> string" where
  "base64_encode [] = []"
| "base64_encode [a] =
    (let n = push_bit 16 (ucast a)
     in [base64_char (drop_bit 18 n), base64_char (drop_bit 12 n), CHR ''='', CHR ''=''])"
| "base64_encode [a, b] =
    (let n = push_bit 16 (ucast a) OR push_bit 8 (ucast b)
     in [base64_char (drop_bit 18 n), base64_char (drop_bit 12 n), base64_char (drop_bit 6 n), CHR ''=''])"
| "base64_encode (a # b # c # rest) =
    (let n = push_bit 16 (ucast a) OR push_bit 8 (ucast b) OR ucast c
     in [base64_char (drop_bit 18 n), base64_char (drop_bit 12 n), base64_char (drop_bit 6 n), base64_char n] @ base64_encode rest)"

definition BASE64_VALUES :: "int list" where
  "BASE64_VALUES =
    [-1,-1,-1,-1,-1,-1,-1,-1,-1,-1,-1,-1,-1,-1,-1,-1,
     -1,-1,-1,-1,-1,-1,-1,-1,-1,-1,-1,-1,-1,-1,-1,-1,
     -1,-1,-1,-1,-1,-1,-1,-1,-1,-1,-1,62,-1,-1,-1,63,
     52,53,54,55,56,57,58,59,60,61,-1,-1,-1,-1,-1,-1,
     -1, 0, 1, 2, 3, 4, 5, 6, 7, 8, 9,10,11,12,13,14,
     15,16,17,18,19,20,21,22,23,24,25,-1,-1,-1,-1,-1,
     -1,26,27,28,29,30,31,32,33,34,35,36,37,38,39,40,
     41,42,43,44,45,46,47,48,49,50,51,-1,-1,-1,-1,-1]"

text \<open>The accumulator is a 32-bit word that is never cleared: older bits are shifted out.\<close>

fun base64_loop :: "string \<Rightarrow> u32 \<Rightarrow> nat \<Rightarrow> u8 list" where
  "base64_loop [] val bits = []"
| "base64_loop (c # cs) val bits =
    (if c = CHR ''='' then []
     else if 128 \<le> (of_char c :: nat) then base64_loop cs val bits
     else let v = BASE64_VALUES ! of_char c in
       if v < 0 then base64_loop cs val bits
       else let val = push_bit 6 val OR of_int v; bits = bits + 6 in
         if 8 \<le> bits then let bits = bits - 8 in ucast (drop_bit bits val AND 0xFF) # base64_loop cs val bits
         else base64_loop cs val bits)"

definition base64_decode :: "string \<Rightarrow> u8 list" where
  "base64_decode data = base64_loop data 0 0"

section \<open>The encodings lose nothing\<close>

lemma base64_table_value:
  assumes "k < 64"
  shows "BASE64_TABLE ! k \<noteq> CHR ''=''" "(of_char (BASE64_TABLE ! k) :: nat) < 128" "BASE64_VALUES ! of_char (BASE64_TABLE ! k) = int k"
proof -
  have "list_all (\<lambda>k. BASE64_TABLE ! k \<noteq> CHR ''='' \<and> (of_char (BASE64_TABLE ! k) :: nat) < 128 \<and>
      BASE64_VALUES ! of_char (BASE64_TABLE ! k) = int k) [0..<64]" by code_simp
  then show "BASE64_TABLE ! k \<noteq> CHR ''=''" "(of_char (BASE64_TABLE ! k) :: nat) < 128" "BASE64_VALUES ! of_char (BASE64_TABLE ! k) = int k"
    using assms by (auto simp: list_all_iff)
qed

lemma mask_numerals: "(0x3F :: 'a :: len word) = mask 6" "(0xFF :: 'a word) = mask 8" "(0x0F :: 'a word) = mask 4"
  by (simp_all add: mask_eq_exp_minus_1)

lemma base64_digit: "unat (n AND 0x3F :: u32) < 64"
  unfolding mask_numerals using and_mask_less' [of 6 n] by (simp add: word_less_nat_alt)

lemma base64_loop_char:
  "base64_loop (base64_char n # cs) val bits =
    (let val = push_bit 6 val OR (n AND mask 6) in
     if 2 \<le> bits then ucast (drop_bit (bits - 2) val AND mask 8) # base64_loop cs val (bits - 2) else base64_loop cs val (bits + 6))"
  using base64_table_value [OF base64_digit [of n]]
  by (auto simp: base64_char_def Let_def of_nat_unat mask_numerals [symmetric])

lemma base64_loop_pad: "base64_loop (CHR ''='' # cs) val bits = []"
  by simp

declare base64_loop.simps(2) [simp del]

lemma shifted_index: "\<not> n < 2 \<Longrightarrow> Suc (Suc (n - 2)) = n" "2 \<le> n \<Longrightarrow> Suc (Suc (n - 2)) = n"
  by simp_all

lemma base64_roundtrip_from: "base64_loop (base64_encode bs) val 0 = bs"
proof (induction bs arbitrary: val rule: base64_encode.induct)
  case (2 a)
  then show ?case
    by (simp add: base64_loop_char base64_loop_pad Let_def) (rule bit_word_eqI; auto simp: bit_simps shifted_index dest: bit_imp_le_length)
next
  case (3 a b)
  then show ?case
    by (simp add: base64_loop_char base64_loop_pad Let_def) (intro conjI bit_word_eqI; auto simp: bit_simps shifted_index dest: bit_imp_le_length)
next
  case (4 a b c rest)
  then show ?case
    by (simp add: base64_loop_char base64_loop_pad Let_def) (intro conjI bit_word_eqI; auto simp: bit_simps shifted_index dest: bit_imp_le_length)
qed simp

text \<open>Base64 loses nothing: decoding what was encoded gives the bytes back, for every length and
  although the decoder's 32-bit accumulator overflows.\<close>

lemma base64_roundtrip: "base64_decode (base64_encode bs) = bs"
  by (simp add: base64_decode_def base64_roundtrip_from)

lemma base64_encode_chars: "set (base64_encode bs) \<subseteq> insert (CHR ''='') (set BASE64_TABLE)"
proof -
  have c: "base64_char n \<in> set BASE64_TABLE" for n
    unfolding base64_char_def by (rule nth_mem) (use base64_digit [of n] in \<open>simp add: BASE64_TABLE_def\<close>)
  show ?thesis by (induction bs rule: base64_encode.induct) (auto simp: Let_def c)
qed

lemma base64_encode_length: "length (base64_encode bs) = (length bs + 2) div 3 * 4"
  by (induction bs rule: base64_encode.induct) (simp_all add: Let_def, presburger)

text \<open>A reader of percent encoding, as a server has it.\<close>

definition hex_value :: "char \<Rightarrow> nat" where
  "hex_value c = (let n = of_char c in if n \<le> 57 then n - 48 else if n \<le> 70 then n - 55 else n - 87)"

fun url_decode :: "string \<Rightarrow> string" where
  "url_decode (c # d # e # cs) =
    (if c = CHR ''%'' then char_of (16 * hex_value d + hex_value e) # url_decode cs else c # url_decode (d # e # cs))"
| "url_decode cs = cs"

lemma nibbles: "unat (drop_bit 4 b) < 16" "unat (b AND 0x0F) < 16" "16 * unat (drop_bit 4 b) + unat (b AND 0x0F) = unat (b :: u8)"
proof -
  have "unat b < 256" using unsigned_less [of b] by simp
  moreover have "unat (drop_bit 4 b) = unat b div 16" by (simp only: unat_drop_bit_eq) (simp add: drop_bit_eq_div)
  moreover have "unat (b AND 0x0F) = unat b mod 16"
    unfolding mask_numerals by (simp add: take_bit_eq_mask [symmetric] unsigned_take_bit_eq take_bit_eq_mod unat_mod)
  ultimately show "unat (drop_bit 4 b) < 16" "unat (b AND 0x0F) < 16" "16 * unat (drop_bit 4 b) + unat (b AND 0x0F) = unat b"
    by simp_all
qed

lemma hex_value_digit:
  assumes "k < 16"
  shows "hex_value (HEX ! k) = k" "hex_value (HEX_UPPER ! k) = k" "HEX ! k \<noteq> CHR ''-''"
proof -
  have "list_all (\<lambda>k. hex_value (HEX ! k) = k \<and> hex_value (HEX_UPPER ! k) = k \<and> HEX ! k \<noteq> CHR ''-'') [0..<16]" by code_simp
  then show "hex_value (HEX ! k) = k" "hex_value (HEX_UPPER ! k) = k" "HEX ! k \<noteq> CHR ''-''" using assms by (auto simp: list_all_iff)
qed

lemma url_decode_plain: "c \<noteq> CHR ''%'' \<Longrightarrow> url_decode (c # cs) = c # url_decode cs"
  by (cases cs; cases "tl cs") auto

lemma url_roundtrip: "url_decode (url_encode s) = s"
proof (induction s)
  case (Cons c s)
  have "CHR ''%'' \<noteq> c" if "url_unreserved c"
    using that by (auto simp: url_unreserved_def isalnum_def)
  moreover have "char_of (16 * hex_value (HEX_UPPER ! unat (drop_bit 4 (of_char c :: u8))) + hex_value (HEX_UPPER ! unat ((of_char c :: u8) AND 0x0F))) = c"
  proof -
    have "unat (of_char c :: u8) = of_char c"
      using unat_of_nat [of "of_char c", where 'a = 8] by (simp add: of_nat_of_char)
    then show ?thesis using nibbles [of "of_char c"] by (simp add: hex_value_digit)
  qed
  ultimately show ?case
    using Cons.IH by (auto simp: url_encode_def hex_pair_def url_decode_plain)
qed (simp add: url_encode_def)

text \<open>A UUID has its 36 characters and its version in place.\<close>

lemma uuid_shape:
  assumes "length bytes = 16"
  shows "length (generate_uuid (Some bytes)) = 36" "generate_uuid (Some bytes) ! 14 = CHR ''4''"
proof -
  obtain b0 b1 b2 b3 b4 b5 b6 b7 b8 b9 b10 b11 b12 b13 b14 b15 where b: "bytes = [b0,b1,b2,b3,b4,b5,b6,b7,b8,b9,b10,b11,b12,b13,b14,b15]"
    using assms by (auto simp: length_Suc_conv numeral_eq_Suc)
  have u: "[0..<16] = [0,1,2,3,4,5,6,7,8,9,10,11,12,13,14,15 :: nat]" by code_simp
  show "length (generate_uuid (Some bytes)) = 36"
    unfolding generate_uuid_def u by (simp add: hex_pair_def)
  have "drop_bit 4 ((b6 AND 0x0F) OR 0x40) = (4 :: u8)"
    by (rule bit_word_eqI) (simp add: bit_simps mask_numerals)
  then show "generate_uuid (Some bytes) ! 14 = CHR ''4''"
    unfolding generate_uuid_def u b by (simp add: hex_pair_def uuid_bytes_def HEX_def)
qed

end
