(* ===== verification/Decimal.thy ===== *)
theory Decimal
  imports Chars
begin

text \<open>
  Doubles as text, the way orders carry them: \<^verbatim>\<open>snprintf\<close> with \<^verbatim>\<open>%.8f\<close> and \<^verbatim>\<open>%.0f\<close>, integers, the
  trimming of trailing zeros, and \<^verbatim>\<open>include/kimp/core/price_format.hpp\<close>. The C library prints the exact
  value of a double, rounded to nearest even at the last digit. The one zero of the model
  prints without a sign.
\<close>

section \<open>Digits\<close>

definition digit_char :: "nat \<Rightarrow> char" where
  "digit_char d = char_of (48 + d)"

fun dec_digits :: "nat \<Rightarrow> string" where
  "dec_digits n = (if n < 10 then [digit_char n] else dec_digits (n div 10) @ [digit_char (n mod 10)])"

declare dec_digits.simps [simp del]

definition int_text :: "int \<Rightarrow> string" where
  "int_text n = (if n < 0 then ''-'' else []) @ dec_digits (nat \<bar>n\<bar>)"

definition pad_digits :: "nat \<Rightarrow> nat \<Rightarrow> string" where
  "pad_digits d n = (let ds = dec_digits n in replicate (d - length ds) (CHR ''0'') @ ds)"

section \<open>Fixed-point text\<close>

definition format_fixed :: "nat \<Rightarrow> dbl \<Rightarrow> string" where
  "format_fixed d x =
    (case x of NaN \<Rightarrow> ''nan'' | Inf s \<Rightarrow> (if s then ''-inf'' else ''inf'')
     | Fin r \<Rightarrow> let n = nat (rne (\<bar>r\<bar> * 10 ^ d))
       in (if r < 0 then ''-'' else []) @ dec_digits (n div 10 ^ d) @ (if d = 0 then [] else CHR ''.'' # pad_digits d (n mod 10 ^ d)))"

definition strip_zeros :: "string \<Rightarrow> string" where
  "strip_zeros s = rev (dropWhile (\<lambda>c. c = CHR ''0'') (rev s))"

definition strip_point :: "string \<Rightarrow> string" where
  "strip_point s = (if s \<noteq> [] \<and> last s = CHR ''.'' then butlast s else s)"

definition format_decimal_trimmed :: "dbl \<Rightarrow> int \<Rightarrow> string" where
  "format_decimal_trimmed value max_decimals =
    (if \<not> isfinite value then ''0''
     else let decimals = nat (max 0 max_decimals);
              out = format_fixed decimals value;
              out = (if 0 < decimals then strip_point (strip_zeros out) else out)
       in if out = [] \<or> out = ''-0'' then ''0'' else out)"

text \<open>Items with a separator between them, as the loops that build request bodies and rows write them.\<close>

fun join_with :: "string \<Rightarrow> string list \<Rightarrow> string" where
  "join_with sep [] = []"
| "join_with sep [x] = x"
| "join_with sep (x # xs) = x @ sep @ join_with sep xs"

section \<open>Reading the text back\<close>

lemma digits_value_snoc: "digits_value (ds @ [c]) = 10 * digits_value ds + (int (of_char c) - 48)"
  by (simp add: digits_value_def)

lemma digits_value_Nil [simp]: "digits_value [] = 0"
  by (simp add: digits_value_def)

lemma digits_value_append: "digits_value (xs @ ys) = digits_value xs * 10 ^ length ys + digits_value ys"
  by (induction ys rule: rev_induct) (simp_all add: digits_value_snoc append_assoc [symmetric] algebra_simps del: append_assoc)

lemma digit_char_value: "d < 10 \<Longrightarrow> int (of_char (digit_char d)) - 48 = int d \<and> isdigit (digit_char d)"
  by (simp add: digit_char_def isdigit_def)

lemma dec_digits_digit: "list_all isdigit (dec_digits n) \<and> dec_digits n \<noteq> []"
  by (induction n rule: dec_digits.induct) (subst (1 2) dec_digits.simps, simp add: digit_char_value)

lemma dec_digits_value: "digits_value (dec_digits n) = int n"
proof (induction n rule: dec_digits.induct)
  case (1 n)
  then show ?case
    by (subst dec_digits.simps) (simp add: digits_value_snoc digit_char_value digits_value_append [of "[]" "[_]", simplified] digits_value_def [of "[_]"] zdiv_int zmod_int)
qed

lemma dec_digits_length: "n < 10 ^ k \<Longrightarrow> 0 < k \<Longrightarrow> length (dec_digits n) \<le> k"
proof (induction n arbitrary: k rule: dec_digits.induct)
  case (1 n)
  show ?case
  proof (cases "n < 10")
    case False
    then obtain j where k: "k = Suc j" "0 < j" using "1.prems" by (cases k; cases "k - 1") auto
    then have "n div 10 < 10 ^ j" using "1.prems" by (simp add: less_mult_imp_div_less mult.commute)
    from "1.IH" [OF False this k(2)] show ?thesis using False k by (subst dec_digits.simps) simp
  qed (use "1.prems" in \<open>subst dec_digits.simps, simp\<close>)
qed

lemma pad_digits_props:
  assumes "n < 10 ^ d" "0 < d"
  shows "length (pad_digits d n) = d" "digits_value (pad_digits d n) = int n" "list_all isdigit (pad_digits d n)"
proof -
  have z: "digits_value (replicate k (CHR ''0'')) = 0" for k
    by (induction k) (simp_all add: replicate_append_same [symmetric] digits_value_snoc)
  show "length (pad_digits d n) = d" using dec_digits_length [OF assms] by (simp add: pad_digits_def Let_def)
  show "digits_value (pad_digits d n) = int n" by (simp add: pad_digits_def Let_def digits_value_append z dec_digits_value)
  show "list_all isdigit (pad_digits d n)" using dec_digits_digit [of n] by (auto simp: pad_digits_def Let_def list_all_iff isdigit_def)
qed

lemma isdigit_dot [simp]: "\<not> isdigit (CHR ''.'')"
  by (simp add: isdigit_def)

text \<open>What a reader makes of digits, a point and more digits.\<close>

lemma from_chars_fraction:
  assumes "list_all isdigit w" "w \<noteq> []" "list_all isdigit f"
    and q: "q = of_int (digits_value (w @ f)) / 10 ^ length f" and fin: "isfinite (lit q)" "q = 0 \<or> lit q \<noteq> 0"
  shows "from_chars (w @ CHR ''.'' # f) = Some (lit q)" "f = [] \<Longrightarrow> from_chars w = Some (lit q)"
proof -
  obtain c cs where w: "w = c # cs" "isdigit c" using assms(1,2) by (cases w) auto
  then have m: "c \<noteq> CHR ''-''" by (auto simp: isdigit_def)
  have all: "takeWhile isdigit xs = xs" "dropWhile isdigit xs = []" if "list_all isdigit xs" for xs
    using that by (induction xs) auto
  have tw: "takeWhile isdigit (w @ CHR ''.'' # f) = w" "dropWhile isdigit (w @ CHR ''.'' # f) = CHR ''.'' # f"
    using assms(1) by (induction w) auto
  have sc: "scale10 (of_int (digits_value (w @ f))) (- int (length f)) = q"
    by (cases "f = []") (simp_all add: scale10_def q)
  have neg: "(case w @ CHR ''.'' # f of c # t \<Rightarrow> if c = CHR ''-'' then (True, t) else (False, w @ CHR ''.'' # f) | [] \<Rightarrow> (False, w @ CHR ''.'' # f))
      = (False, w @ CHR ''.'' # f)" using m w by simp
  show "from_chars (w @ CHR ''.'' # f) = Some (lit q)"
    unfolding from_chars_def neg using fin sc assms(2) by (auto simp: tw all [OF assms(3)] exponent_of_def Let_def)
  assume "f = []"
  have neg': "(case w of c # t \<Rightarrow> if c = CHR ''-'' then (True, t) else (False, w) | [] \<Rightarrow> (False, w)) = (False, w)"
    using m w by simp
  show "from_chars w = Some (lit q)"
    unfolding from_chars_def neg' using fin sc assms(2) \<open>f = []\<close> by (auto simp: all [OF assms(1)] exponent_of_def Let_def)
qed

text \<open>Trailing zeros of a fraction do not change its value.\<close>

lemma strip_zeros_split:
  obtains k where "s = strip_zeros s @ replicate k (CHR ''0'')"
proof
  have "rev s = takeWhile (\<lambda>c. c = CHR ''0'') (rev s) @ dropWhile (\<lambda>c. c = CHR ''0'') (rev s)" by simp
  moreover have "takeWhile (\<lambda>c. c = CHR ''0'') (rev s) = replicate (length (takeWhile (\<lambda>c. c = CHR ''0'') (rev s))) (CHR ''0'')"
    by (rule replicate_eqI [symmetric, THEN sym]) (auto dest: set_takeWhileD)
  ultimately show "s = strip_zeros s @ replicate (length (takeWhile (\<lambda>c. c = CHR ''0'') (rev s))) (CHR ''0'')"
    by (metis rev_append rev_replicate rev_rev_ident strip_zeros_def)
qed

lemma strip_zeros_fraction:
  assumes "w \<noteq> []"
  shows "strip_zeros (w @ CHR ''.'' # f) = w @ CHR ''.'' # strip_zeros f"
  by (induction f rule: rev_induct) (simp_all add: strip_zeros_def)

lemma digits_value_zeros [simp]: "digits_value (xs @ replicate k (CHR ''0'')) = digits_value xs * 10 ^ k"
  by (induction k) (simp_all add: replicate_append_same [symmetric] append_assoc [symmetric] digits_value_snoc del: append_assoc)

text \<open>The text of a quantity, trimmed, is read as the decimal nearest to it.\<close>

definition decimal8 :: "rat \<Rightarrow> rat" where
  "decimal8 r = of_int (rne (r * 10 ^ 8)) / 10 ^ 8"

lemma decimal8_error: "\<bar>decimal8 r - r\<bar> \<le> 1 / (2 * 10 ^ 8)"
  using rne_error [of "r * 10 ^ 8"] by (simp add: decimal8_def abs_le_iff field_simps)

lemma trimmed_text_value:
  assumes "0 \<le> r" "isfinite (lit (decimal8 r))" "decimal8 r = 0 \<or> lit (decimal8 r) \<noteq> 0"
  shows "from_chars (strip_point (strip_zeros (format_fixed 8 (Fin r)))) = Some (lit (decimal8 r))"
proof -
  define n where "n = nat (rne (\<bar>r\<bar> * 10 ^ 8))"
  have n: "int n = rne (r * 10 ^ 8)"
    using assms(1) rne_mono [of 0 "r * 10 ^ 8"] rne_of_int [of 0] by (simp add: n_def)
  define w f where "w = dec_digits (n div 10 ^ 8)" and "f = pad_digits 8 (n mod 10 ^ 8)"
  have f: "length f = 8" "digits_value f = int (n mod 10 ^ 8)" "list_all isdigit f"
    unfolding f_def by (rule pad_digits_props; simp)+
  have w: "list_all isdigit w" "w \<noteq> []" "digits_value w = int (n div 10 ^ 8)"
    using dec_digits_digit by (simp_all add: w_def dec_digits_value)
  have shown: "format_fixed 8 (Fin r) = w @ CHR ''.'' # f"
    using assms(1) by (simp add: format_fixed_def Let_def n_def w_def f_def)
  obtain k where k: "f = strip_zeros f @ replicate k (CHR ''0'')" by (rule strip_zeros_split)
  define g where "g = strip_zeros f"
  have g: "f = g @ replicate k (CHR ''0'')" "list_all isdigit g" "length g + k = 8"
    using k f(1,3) g_def by (metis, metis list_all_append, metis length_append length_replicate)
  have val: "of_int (digits_value (w @ g)) / 10 ^ length g = decimal8 r"
  proof -
    have "digits_value (w @ g) * 10 ^ k = digits_value (w @ f)" unfolding g(1) by (simp only: append_assoc [symmetric] digits_value_zeros)
    also have "\<dots> = int n" using w(3) f(1,2) by (simp add: digits_value_append zdiv_int zmod_int)
    finally have "of_int (digits_value (w @ g)) * 10 ^ k = (of_int (rne (r * 10 ^ 8)) :: rat)" using n by (metis of_int_mult of_int_numeral of_int_power)
    moreover have "(10 :: rat) ^ 8 = 10 ^ length g * 10 ^ k" unfolding power_add [symmetric] g(3) ..
    ultimately have "decimal8 r = of_int (digits_value (w @ g)) * 10 ^ k / (10 ^ length g * 10 ^ k)" by (simp only: decimal8_def)
    then show ?thesis by simp
  qed
  note read = from_chars_fraction [OF w(1,2) g(2) val [symmetric] assms(2,3)]
  show ?thesis
  proof (cases "g = []")
    case True
    then have "strip_point (strip_zeros (w @ CHR ''.'' # f)) = w"
      using w(2) g_def by (simp add: strip_zeros_fraction strip_point_def butlast_append)
    then show ?thesis using read(2) True by (simp add: shown)
  next
    case False
    then have "last g \<noteq> CHR ''.''" using g(2) by (metis isdigit_dot last_in_set list_all_iff)
    then have "strip_point (strip_zeros (w @ CHR ''.'' # f)) = w @ CHR ''.'' # g"
      using w(2) False g_def by (simp add: strip_zeros_fraction strip_point_def)
    then show ?thesis using read(1) by (simp add: shown)
  qed
qed

text \<open>A quantity that came from eight decimals survives the way through its text.\<close>

lemma rnd_close:
  assumes "0 < q" "q < 2 ^ 26"
  shows "\<bar>rnd q - q\<bar> < 1 / (2 * 10 ^ 8)"
proof -
  have "pow2 (ilog2 q) \<le> q" using ilog2_bounds [OF assms(1)] by simp
  then have "pow2 (ilog2 q) < pow2 26" using assms(2) by (simp add: power_int_def)
  then have "ilog2 q < 26" by (simp only: pow2_less_iff)
  then have "ulp_exp q \<le> - 27" using assms(1) by (simp add: ulp_exp_def)
  then have "pow2 (ulp_exp q) \<le> pow2 (- 27)" by (rule pow2_mono)
  also have "\<dots> < 1 / 10 ^ 8" by (simp add: power_int_minus)
  finally show ?thesis using rnd_error [of q] by simp
qed

lemma rne_near: "\<bar>y - of_int k\<bar> < 1 / 2 \<Longrightarrow> rne y = k"
proof -
  assume y: "\<bar>y - of_int k\<bar> < 1 / 2"
  have "\<bar>of_int (rne y) - of_int k :: rat\<bar> < 1" using rne_error [of y] y by linarith
  then have "\<bar>rne y - k\<bar> < 1" by linarith
  then show ?thesis by simp
qed

lemma decimal8_rnd:
  assumes "0 \<le> k" "k < 2 ^ 26 * 10 ^ 8"
  shows "decimal8 (rnd (of_int k / 10 ^ 8)) = of_int k / 10 ^ 8"
proof (cases "k = 0")
  case False
  have "of_int k < (of_int (2 ^ 26 * 10 ^ 8) :: rat)" using assms(2) by (simp only: of_int_less_iff)
  then have "\<bar>rnd (of_int k / 10 ^ 8) - of_int k / 10 ^ 8\<bar> < 1 / (2 * 10 ^ 8)"
    using False assms by (intro rnd_close) (simp_all add: divide_less_eq)
  then have "\<bar>rnd (of_int k / 10 ^ 8) * 10 ^ 8 - of_int k\<bar> < 1 / 2" by (simp add: abs_less_iff field_simps)
  from rne_near [OF this] show ?thesis by (simp add: decimal8_def)
qed (simp add: decimal8_def rne_def)

text \<open>The quantity in an order is the quantity that was meant: the trimmed text with eight decimals of
  any quantity below 2^26 that stands for a decimal number of at most eight places is read back
  as exactly that double.\<close>

lemma volume_text_roundtrip:
  assumes "0 \<le> k" "k < 2 ^ 26 * 10 ^ 8" "x = lit (of_int k / 10 ^ 8)"
  shows "fast_stod (strip_point (strip_zeros (format_fixed 8 x))) 0 = x"
proof -
  have x: "x = Fin (rnd (of_int k / 10 ^ 8))"
  proof -
    have "of_int k / 10 ^ 8 \<le> (of_int (2 ^ 26) :: rat)"
      using assms(2) by (simp add: divide_le_eq)
    then have "rnd (of_int k / 10 ^ 8) \<le> 2 ^ 26" using rnd_mono [of "of_int k / 10 ^ 8" "of_int (2 ^ 26)"] rnd_of_int [of "2 ^ 26"] by simp
    moreover have "(2 :: rat) ^ 26 < dbl_limit" unfolding dbl_limit_def by (rule power_strict_increasing) simp_all
    moreover have "0 \<le> rnd (of_int k / 10 ^ 8)" using rnd_mono [of 0 "of_int k / 10 ^ 8"] assms(1) by simp
    ultimately show ?thesis using assms(3) dbl_limit_pos by (simp add: lit_def Let_def)
  qed
  have nn: "0 \<le> rnd (of_int k / 10 ^ 8)" using rnd_mono [of 0 "of_int k / 10 ^ 8"] assms(1) by simp
  note d = decimal8_rnd [OF assms(1,2)]
  have "decimal8 (rnd (of_int k / 10 ^ 8)) = 0 \<or> lit (decimal8 (rnd (of_int k / 10 ^ 8))) \<noteq> 0"
  proof (cases "k = 0")
    case False
    have "rnd (of_int k / 10 ^ 8) \<noteq> 0" using d False by (auto simp: decimal8_def rne_def)
    then show ?thesis unfolding d using x assms(3) by (simp add: zero_dbl_def)
  qed (simp add: decimal8_def rne_def)
  then have "from_chars (strip_point (strip_zeros (format_fixed 8 x))) = Some x"
    using trimmed_text_value [OF nn] x assms(3) unfolding d by simp
  then show ?thesis by (cases "strip_point (strip_zeros (format_fixed 8 x)) = []") (auto simp: fast_stod_def from_chars_def)
qed

end
