(* ===== verification/TextSearch.thy ===== *)
theory TextSearch
  imports Json
begin

text \<open>
  \<^verbatim>\<open>std::string_view::find\<close> and the reader of quoted values on which the fast message parsers of the
  exchange adapters rest (\<^verbatim>\<open>extract_quoted_value\<close> of \<^verbatim>\<open>src/exchange/bithumb.cpp\<close>).
\<close>

section \<open>Search\<close>

fun find_sub :: "string \<Rightarrow> string \<Rightarrow> nat option" where
  "find_sub pat s = (if starts_with pat s then Some 0 else case s of [] \<Rightarrow> None | c # cs \<Rightarrow> map_option Suc (find_sub pat cs))"

declare find_sub.simps [simp del]

text \<open>\<^verbatim>\<open>find(pat, from)\<close>; \<^verbatim>\<open>npos\<close> is \<open>None\<close>.\<close>

definition sv_find :: "string \<Rightarrow> string \<Rightarrow> nat \<Rightarrow> nat option" where
  "sv_find s pat from = (if length s < from then None else map_option ((+) from) (find_sub pat (drop from s)))"

definition sv_contains :: "string \<Rightarrow> string \<Rightarrow> bool" where
  "sv_contains s pat \<longleftrightarrow> sv_find s pat 0 \<noteq> None"

definition substr :: "string \<Rightarrow> nat \<Rightarrow> nat \<Rightarrow> string" where
  "substr s start n = take n (drop start s)"

text \<open>The value between a marker and the next quote, and where that quote is.\<close>

definition extract_quoted_value :: "string \<Rightarrow> string \<Rightarrow> nat \<Rightarrow> (string \<times> nat) option" where
  "extract_quoted_value source marker search_from =
    (case sv_find source marker search_from of None \<Rightarrow> None
     | Some value_start \<Rightarrow>
        let content_start = value_start + length marker in
        case sv_find source [CHR 0x22] content_start of None \<Rightarrow> None
        | Some content_end \<Rightarrow> Some (substr source content_start (content_end - content_start), content_end))"

section \<open>What a search finds\<close>

lemma starts_with_append [simp]: "starts_with p (p @ s)"
  by (simp add: starts_with_def)

lemma starts_with_Cons: "starts_with (a # p) (b # s) \<longleftrightarrow> a = b \<and> starts_with p s"
  by (auto simp: starts_with_def)

lemma starts_with_Nil [simp]: "starts_with [] s" "starts_with p [] \<longleftrightarrow> p = []"
  by (auto simp: starts_with_def)

lemma find_sub_Some:
  "find_sub pat s = Some i \<Longrightarrow> i \<le> length s \<and> starts_with pat (drop i s) \<and> (\<forall>j < i. \<not> starts_with pat (drop j s))"
proof (induction s arbitrary: i)
  case (Cons c cs)
  show ?case
  proof (cases "starts_with pat (c # cs)")
    case False
    then obtain k where k: "find_sub pat cs = Some k" "i = Suc k" using Cons.prems by (auto simp: find_sub.simps [of pat "c # cs"])
    then show ?thesis using Cons.IH [OF k(1)] False by (auto simp: less_Suc_eq_0_disj)
  qed (use Cons.prems in \<open>simp add: find_sub.simps [of pat "c # cs"]\<close>)
qed (simp add: find_sub.simps split: if_splits)

lemma find_sub_None: "find_sub pat s = None \<longleftrightarrow> (\<forall>j \<le> length s. \<not> starts_with pat (drop j s))"
proof (induction s)
  case (Cons c cs)
  have "(\<forall>j \<le> length (c # cs). \<not> starts_with pat (drop j (c # cs))) \<longleftrightarrow>
      \<not> starts_with pat (c # cs) \<and> (\<forall>j \<le> length cs. \<not> starts_with pat (drop j cs))"
    by (metis Suc_le_mono drop0 drop_Suc_Cons le0 length_Cons not0_implies_Suc)
  then show ?case using Cons.IH by (simp add: find_sub.simps [of pat "c # cs"])
qed (simp add: find_sub.simps)

lemma find_sub_here [simp]: "find_sub p (p @ s) = Some 0"
  by (simp add: find_sub.simps)

lemma find_sub_skip: "\<not> starts_with p (c # s) \<Longrightarrow> find_sub p (c # s) = map_option Suc (find_sub p s)"
  by (simp add: find_sub.simps)

lemma find_char_skip: "c \<notin> set xs \<Longrightarrow> find_sub [c] (xs @ s) = map_option ((+) (length xs)) (find_sub [c] s)"
proof (induction xs)
  case (Cons x xs)
  then have "\<not> starts_with [c] (x # xs @ s)" by (simp add: starts_with_Cons)
  then show ?case using Cons by (simp add: find_sub_skip option.map_comp comp_def)
qed (simp add: map_option_cong [of _ _ "(+) 0" id] option.map_id)

lemma find_char: "c \<notin> set xs \<Longrightarrow> find_sub [c] (xs @ c # s) = Some (length xs)"
  using find_char_skip [of c xs "c # s"] find_sub_here [of "[c]" s] by simp

lemma find_char_absent: "c \<notin> set xs \<Longrightarrow> find_sub [c] xs = None"
  using find_char_skip [of c xs "[]"] by (simp add: find_sub.simps)

lemma extract_at:
  assumes "n \<le> length s" "find_sub marker (drop n s) = Some i" "drop (n + i + length marker) s = v @ CHR 0x22 # rest" "CHR 0x22 \<notin> set v"
  shows "extract_quoted_value s marker n = Some (v, n + i + length marker + length v)"
proof -
  have "n + i + length marker < length s"
    using assms(3) by (metis append_is_Nil_conv drop_eq_Nil list.distinct(1) not_le)
  then show ?thesis
    using assms by (simp add: extract_quoted_value_def sv_find_def substr_def Let_def find_char)
qed

end
