(* ===== verification/BithumbFeed.thy ===== *)
theory BithumbFeed
  imports TextSearch Decimal
begin

text \<open>
  The market data side of the Bithumb adapter (\<^verbatim>\<open>src/exchange/bithumb.cpp\<close>): the fast message parsers,
  the local order books built from snapshots and deltas, the best bid and offer kept beside them
  for the hot path, and the tickers made from it. The record \<open>feed\<close> is the part of
  \<^verbatim>\<open>BithumbExchange\<close> and its bases that this side uses; each public call, WebSocket callback and round
  of the resync thread is one step. The JSON library is a parameter, and a clock reading is
  an argument. A \<^verbatim>\<open>std::map\<close> keyed by prices is a list of levels in the order of the map.
\<close>

section \<open>Levels\<close>

type_synonym levels = "(dbl \<times> dbl) list"

fun map_put :: "(dbl \<Rightarrow> dbl \<Rightarrow> bool) \<Rightarrow> dbl \<Rightarrow> dbl \<Rightarrow> levels \<Rightarrow> levels" where
  "map_put lt k v [] = [(k, v)]"
| "map_put lt k v ((a, b) # ps) =
    (if lt k a then (k, v) # (a, b) # ps else if lt a k then (a, b) # map_put lt k v ps else (a, v) # ps)"

fun map_erase :: "(dbl \<Rightarrow> dbl \<Rightarrow> bool) \<Rightarrow> dbl \<Rightarrow> levels \<Rightarrow> levels" where
  "map_erase lt k [] = []"
| "map_erase lt k ((a, b) # ps) =
    (if lt k a then (a, b) # ps else if lt a k then (a, b) # map_erase lt k ps else ps)"

text \<open>\<^verbatim>\<open>std::greater\<close> for bids, \<^verbatim>\<open>std::less\<close> for asks.\<close>

abbreviation bid_order :: "dbl \<Rightarrow> dbl \<Rightarrow> bool" where
  "bid_order a b \<equiv> b < a"

abbreviation ask_order :: "dbl \<Rightarrow> dbl \<Rightarrow> bool" where
  "ask_order a b \<equiv> a < b"

section \<open>State\<close>

record book_state =
  bs_bids :: levels
  bs_asks :: levels
  bs_initialized :: bool

definition book_state_default :: book_state where
  "book_state_default = \<lparr>bs_bids = [], bs_asks = [], bs_initialized = False\<rparr>"

record bbo =
  bb_bid :: dbl
  bb_ask :: dbl
  bb_bid_qty :: dbl
  bb_ask_qty :: dbl
  bb_last :: dbl

definition bbo_default :: bbo where
  "bbo_default = \<lparr>bb_bid = 0, bb_ask = 0, bb_bid_qty = 0, bb_ask_qty = 0, bb_last = 0\<rparr>"

text \<open>
  \<open>fd_ws_up\<close> is the state of the socket; \<open>fd_sent\<close> and \<open>fd_dispatched\<close> are what was sent on it and what
  the ticker callback was called with.
\<close>

record feed =
  fd_connected :: bool
  fd_ws_up :: bool
  fd_ready :: bool
  fd_resync_running :: bool
  fd_books :: "symbol_id \<rightharpoonup> book_state"
  fd_bbo :: "symbol_id \<rightharpoonup> bbo"
  fd_usdt_krw :: dbl
  fd_tickers :: "symbol_id list"
  fd_orderbooks :: "symbol_id list"
  fd_ticker_cache :: "symbol_id \<rightharpoonup> ticker"
  fd_callback :: bool
  fd_dispatched :: "ticker list"
  fd_sent :: "string list"

definition feed_init :: feed where
  "feed_init = \<lparr>fd_connected = False, fd_ws_up = False, fd_ready = False, fd_resync_running = False, fd_books = Map.empty,
     fd_bbo = Map.empty, fd_usdt_krw = 0, fd_tickers = [], fd_orderbooks = [], fd_ticker_cache = Map.empty, fd_callback = True,
     fd_dispatched = [], fd_sent = []\<rparr>"

definition dispatch_ticker :: "ticker \<Rightarrow> feed \<Rightarrow> feed" where
  "dispatch_ticker t f = f\<lparr>fd_ticker_cache := (fd_ticker_cache f)(tk_symbol t \<mapsto> t),
     fd_dispatched := (if fd_callback f then fd_dispatched f @ [t] else fd_dispatched f)\<rparr>"

section \<open>Best bid and offer\<close>

definition top_of :: "levels \<Rightarrow> dbl \<times> dbl" where
  "top_of ls = (case ls of [] \<Rightarrow> (0, 0) | l # _ \<Rightarrow> l)"

definition update_bbo :: "symbol_id \<Rightarrow> feed \<Rightarrow> feed" where
  "update_bbo s f =
    (case fd_books f s of None \<Rightarrow> f
     | Some st \<Rightarrow> if \<not> bs_initialized st then f
       else case fd_bbo f s of None \<Rightarrow> f
        | Some b \<Rightarrow> f\<lparr>fd_bbo := (fd_bbo f)(s \<mapsto> b\<lparr>bb_bid := fst (top_of (bs_bids st)), bb_bid_qty := snd (top_of (bs_bids st)),
             bb_ask := fst (top_of (bs_asks st)), bb_ask_qty := snd (top_of (bs_asks st))\<rparr>)\<rparr>)"

definition make_bbo_ticker :: "u64 \<Rightarrow> symbol_id \<Rightarrow> feed \<Rightarrow> ticker option" where
  "make_bbo_ticker now s f =
    (case fd_bbo f s of None \<Rightarrow> None
     | Some b \<Rightarrow> if bb_bid b \<le> 0 \<or> bb_ask b \<le> 0 then None
       else let prev = (if bb_last b \<le> 0 then (bb_bid b + bb_ask b) * lit (1 / 2) else bb_last b)
         in Some (ticker_default\<lparr>tk_exchange := Bithumb, tk_timestamp_ms := now, tk_symbol := s, tk_last := prev,
              tk_bid := bb_bid b, tk_ask := bb_ask b, tk_bid_qty := bb_bid_qty b, tk_ask_qty := bb_ask_qty b\<rparr>))"

text \<open>A ticker from the best bid and offer of each symbol, as far as it has both.\<close>

definition dispatch_bbo :: "u64 \<Rightarrow> symbol_id \<Rightarrow> feed \<Rightarrow> feed" where
  "dispatch_bbo now s f =
    (case make_bbo_ticker now s f of None \<Rightarrow> f
     | Some t \<Rightarrow> dispatch_ticker t (if get_base (tk_symbol t) = ''USDT'' then f\<lparr>fd_usdt_krw := tk_last t\<rparr> else f))"

definition store_last :: "symbol_id \<Rightarrow> dbl \<Rightarrow> feed \<Rightarrow> feed" where
  "store_last s price f = (case fd_bbo f s of None \<Rightarrow> f | Some b \<Rightarrow> f\<lparr>fd_bbo := (fd_bbo f)(s \<mapsto> b\<lparr>bb_last := price\<rparr>)\<rparr>)"

text \<open>The positive parts of the best bid and offer replace those of a ticker.\<close>

definition overlay_bbo :: "feed \<Rightarrow> ticker \<Rightarrow> ticker" where
  "overlay_bbo f t =
    (if \<not> fd_ready f then t
     else case fd_bbo f (tk_symbol t) of None \<Rightarrow> t
      | Some b \<Rightarrow>
         let t = (if 0 < bb_bid b then t\<lparr>tk_bid := bb_bid b\<rparr> else t);
             t = (if 0 < bb_ask b then t\<lparr>tk_ask := bb_ask b\<rparr> else t);
             t = (if 0 < bb_bid_qty b then t\<lparr>tk_bid_qty := bb_bid_qty b\<rparr> else t)
         in if 0 < bb_ask_qty b then t\<lparr>tk_ask_qty := bb_ask_qty b\<rparr> else t)"

section \<open>Ticker messages\<close>

text \<open>The fast path; the ticker is returned on failure too, since the slow path goes on with it.\<close>

definition parse_ticker_fast :: "u64 \<Rightarrow> string \<Rightarrow> ticker \<Rightarrow> ticker \<times> bool" where
  "parse_ticker_fast now message t =
    (if \<not> sv_contains message ''\"type\":\"ticker\"'' then (t, False)
     else case extract_quoted_value message ''\"symbol\":\"'' 0 of None \<Rightarrow> (t, False)
     | Some (symbol_sv, symbol_end) \<Rightarrow>
     (case extract_quoted_value message ''\"closePrice\":\"'' symbol_end of None \<Rightarrow> (t, False)
     | Some (close_sv, _) \<Rightarrow>
     (case split_at (CHR ''_'') symbol_sv of None \<Rightarrow> (t, False)
     | Some (base, quote) \<Rightarrow>
        let t = t\<lparr>tk_exchange := Bithumb, tk_timestamp_ms := now, tk_symbol := set_quote quote (set_base base (tk_symbol t)),
              tk_last := fast_stod close_sv 0, tk_bid := 0, tk_ask := 0\<rparr>
        in (t, 0 < tk_last t))))"

definition parse_ticker_slow :: "'j json_api \<Rightarrow> u64 \<Rightarrow> string \<Rightarrow> ticker \<Rightarrow> ticker option" where
  "parse_ticker_slow j now message t =
    (let doc = ja_iterate j message in
     case ja_string j (ja_field j doc ''type'') of None \<Rightarrow> None
     | Some type \<Rightarrow> if type \<noteq> ''ticker'' then None
       else let content = ja_field j doc ''content'' in
         case ja_string j (ja_field j content ''symbol'') of None \<Rightarrow> None
         | Some symbol_str \<Rightarrow>
           (case ja_string j (ja_field j content ''closePrice'') of None \<Rightarrow> None
            | Some close_str \<Rightarrow>
               let symbol = (case split_at (CHR ''_'') symbol_str of None \<Rightarrow> tk_symbol t
                     | Some (base, quote) \<Rightarrow> set_quote quote (set_base base (tk_symbol t)))
               in Some (t\<lparr>tk_exchange := Bithumb, tk_timestamp_ms := now, tk_symbol := symbol, tk_last := fast_stod close_str 0,
                    tk_bid := 0, tk_ask := 0\<rparr>)))"

definition parse_ticker_message :: "'j json_api \<Rightarrow> u64 \<Rightarrow> string \<Rightarrow> feed \<Rightarrow> ticker option \<times> feed" where
  "parse_ticker_message j now message f =
    (case parse_ticker_fast now message ticker_default of (t, ok) \<Rightarrow>
       if ok then (Some t, store_last (tk_symbol t) (tk_last t) f)
       else case parse_ticker_slow j now message t of None \<Rightarrow> (None, f)
        | Some t \<Rightarrow> (Some t, store_last (tk_symbol t) (tk_last t) f))"

section \<open>Depth messages\<close>

record depth_update =
  du_symbol :: symbol_id
  du_is_bid :: bool
  du_price :: dbl
  du_quantity :: dbl

lemma find_char_less: "find_sub [c] s = Some i \<Longrightarrow> i < length s"
  using find_sub_Some [of "[c]" s i] by (cases "i = length s") (auto simp: starts_with_def)

text \<open>One object of the list: \<open>None\<close> when a field is missing after the symbol was there.\<close>

definition depth_item :: "string \<Rightarrow> depth_update option option" where
  "depth_item item =
    (case extract_quoted_value item ''\"symbol\":\"'' 0 of None \<Rightarrow> Some None
     | Some (symbol_sv, e) \<Rightarrow>
     (case extract_quoted_value item ''\"orderType\":\"'' e of None \<Rightarrow> None
     | Some (order_type_sv, e) \<Rightarrow>
     (case extract_quoted_value item ''\"price\":\"'' e of None \<Rightarrow> None
     | Some (price_sv, e) \<Rightarrow>
     (case extract_quoted_value item ''\"quantity\":\"'' e of None \<Rightarrow> None
     | Some (quantity_sv, e) \<Rightarrow>
        Some (Some \<lparr>du_symbol = from_bithumb_format symbol_sv, du_is_bid = (order_type_sv = ''bid''),
          du_price = fast_stod price_sv 0, du_quantity = fast_stod quantity_sv 0\<rparr>)))))"

text \<open>The objects of the list, from the cursor on.\<close>

function depth_loop :: "string \<Rightarrow> depth_update list \<Rightarrow> depth_update list option" where
  "depth_loop rest updates =
    (case find_sub ''{'' rest of None \<Rightarrow> Some updates
     | Some object_start \<Rightarrow>
        let object = drop object_start rest in
        case find_sub ''}'' object of None \<Rightarrow> None
        | Some object_end \<Rightarrow>
           (case depth_item (take (object_end + 1) object) of None \<Rightarrow> None
            | Some found \<Rightarrow> depth_loop (drop (object_end + 1) object)
                (case found of None \<Rightarrow> updates | Some u \<Rightarrow> updates @ [u])))"
  by pat_completeness auto

termination
  by (relation "measure (\<lambda>(rest, _). length rest)") (auto dest!: find_char_less)

declare depth_loop.simps [simp del]

definition parse_orderbookdepth_fast :: "string \<Rightarrow> depth_update list option" where
  "parse_orderbookdepth_fast message =
    (if \<not> sv_contains message ''\"type\":\"orderbookdepth\"'' then None
     else case sv_find message ''\"list\":['' 0 of None \<Rightarrow> None
     | Some cursor \<Rightarrow>
        (case depth_loop (drop (cursor + length ''\"list\":['') message) [] of None \<Rightarrow> None
         | Some updates \<Rightarrow> if updates = [] then None else Some updates))"

definition put_or_erase :: "(dbl \<Rightarrow> dbl \<Rightarrow> bool) \<Rightarrow> dbl \<Rightarrow> dbl \<Rightarrow> levels \<Rightarrow> levels" where
  "put_or_erase lt price quantity ls = (if quantity \<le> 0 then map_erase lt price ls else map_put lt price quantity ls)"

definition apply_bid :: "dbl \<Rightarrow> dbl \<Rightarrow> book_state \<Rightarrow> book_state" where
  "apply_bid price quantity st = st\<lparr>bs_bids := put_or_erase bid_order price quantity (bs_bids st)\<rparr>"

definition apply_ask :: "dbl \<Rightarrow> dbl \<Rightarrow> book_state \<Rightarrow> book_state" where
  "apply_ask price quantity st = st\<lparr>bs_asks := put_or_erase ask_order price quantity (bs_asks st)\<rparr>"

text \<open>
  The loop over the updates of a message: the feed, the symbol of the current run of updates, and
  the symbols whose run is over.
\<close>

type_synonym depth_acc = "feed \<times> symbol_id option \<times> symbol_id list"

definition end_run :: "depth_acc \<Rightarrow> depth_acc" where
  "end_run acc = (case acc of (f, prev, updated) \<Rightarrow>
     (case prev of None \<Rightarrow> acc | Some l \<Rightarrow> (update_bbo l f, None, updated @ [l])))"

definition touch_book :: "symbol_id \<Rightarrow> (book_state \<Rightarrow> book_state) \<Rightarrow> depth_acc \<Rightarrow> depth_acc" where
  "touch_book s change acc =
    (case acc of (f, prev, updated) \<Rightarrow>
     (case fd_books f s of None \<Rightarrow> acc
      | Some st \<Rightarrow> if \<not> bs_initialized st then acc
        else let f = f\<lparr>fd_books := (fd_books f)(s \<mapsto> change st)\<rparr>
          in if prev = Some s then (f, prev, updated)
             else case end_run (f, prev, updated) of (f, _, updated) \<Rightarrow> (f, Some s, updated)))"

definition depth_change :: "depth_update \<Rightarrow> book_state \<Rightarrow> book_state" where
  "depth_change u = (if du_is_bid u then apply_bid (du_price u) (du_quantity u) else apply_ask (du_price u) (du_quantity u))"

definition apply_updates :: "depth_update list \<Rightarrow> feed \<Rightarrow> symbol_id list \<times> feed" where
  "apply_updates updates f =
    (case end_run (fold (\<lambda>u. touch_book (du_symbol u) (depth_change u)) updates (f, None, [])) of (f, _, updated) \<Rightarrow> (updated, f))"

text \<open>The slow path: an item of an unknown book is skipped before its other fields are read.\<close>

definition slow_item :: "'j json_api \<Rightarrow> 'j \<Rightarrow> depth_acc \<Rightarrow> depth_acc \<times> bool" where
  "slow_item j item acc =
    (case ja_string j (ja_field j item ''symbol'') of None \<Rightarrow> (acc, True)
     | Some symbol_sv \<Rightarrow>
        let s = from_bithumb_format symbol_sv in
        case fd_books (fst acc) s of None \<Rightarrow> (acc, False)
        | Some st \<Rightarrow> if \<not> bs_initialized st then (acc, False)
          else (case (ja_string j (ja_field j item ''orderType''), ja_string j (ja_field j item ''price''), ja_string j (ja_field j item ''quantity'')) of
            (Some order_type, Some price_str, Some qty_str) \<Rightarrow>
              let price = fast_stod price_str 0; quantity = fast_stod qty_str 0 in
              (touch_book s (if order_type = ''bid'' then apply_bid price quantity
                 else if order_type = ''ask'' then apply_ask price quantity else (\<lambda>st. st)) acc, False)
          | _ \<Rightarrow> (acc, True)))"

definition slow_items :: "'j json_api \<Rightarrow> string \<Rightarrow> 'j list option" where
  "slow_items j message =
    (let doc = ja_iterate j message in
     if ja_string j (ja_field j doc ''type'') \<noteq> Some ''orderbookdepth'' then None
     else ja_array j (ja_field j (ja_field j doc ''content'') ''list''))"

definition parse_orderbookdepth_message :: "'j json_api \<Rightarrow> string \<Rightarrow> feed \<Rightarrow> symbol_id list \<times> feed" where
  "parse_orderbookdepth_message j message f =
    (case parse_orderbookdepth_fast message of Some updates \<Rightarrow> apply_updates updates f
     | None \<Rightarrow>
       (case slow_items j message of None \<Rightarrow> ([], f)
        | Some items \<Rightarrow>
           (case fold_catching (slow_item j) items (f, None, []) of (acc, thrown) \<Rightarrow>
              (case (if thrown then acc else end_run acc) of (f, _, updated) \<Rightarrow> (updated, f)))))"

section \<open>Messages\<close>

definition on_ws_message :: "'j json_api \<Rightarrow> u64 \<Rightarrow> string \<Rightarrow> feed \<Rightarrow> feed" where
  "on_ws_message j now message f =
    (if sv_contains message ''orderbookdepth''
     then (case parse_orderbookdepth_message j message f of (updated, f) \<Rightarrow>
       if fd_ready f then fold (dispatch_bbo now) updated f else f)
     else (case parse_ticker_message j now message f of (None, f) \<Rightarrow> f
       | (Some t, f) \<Rightarrow>
          let f = (if get_base (tk_symbol t) = ''USDT'' then f\<lparr>fd_usdt_krw := tk_last t\<rparr> else f)
          in dispatch_ticker (overlay_bbo f t) f))"

section \<open>Snapshots\<close>

definition level_of :: "'j json_api \<Rightarrow> 'j \<Rightarrow> (dbl \<times> dbl) option" where
  "level_of j l =
    (case (ja_string j (ja_field j l ''price''), ja_string j (ja_field j l ''quantity'')) of
       (Some price_str, Some qty_str) \<Rightarrow> Some (fast_stod price_str 0, fast_stod qty_str 0)
     | _ \<Rightarrow> None)"

definition add_level :: "'j json_api \<Rightarrow> (dbl \<Rightarrow> dbl \<Rightarrow> bool) \<Rightarrow> 'j \<Rightarrow> levels \<Rightarrow> levels \<times> bool" where
  "add_level j lt l ls =
    (case level_of j l of None \<Rightarrow> (ls, True)
     | Some (price, qty) \<Rightarrow> (if 0 < price \<and> 0 < qty then map_put lt price qty ls else ls, False))"

text \<open>One side of a book: an absent side is empty, one that is no array throws.\<close>

definition snapshot_side :: "'j json_api \<Rightarrow> (dbl \<Rightarrow> dbl \<Rightarrow> bool) \<Rightarrow> 'j \<Rightarrow> levels \<times> bool" where
  "snapshot_side j lt side =
    (if \<not> ja_ok j side then ([], False)
     else case ja_array j side of None \<Rightarrow> ([], True) | Some ls \<Rightarrow> fold_catching (add_level j lt) ls [])"

text \<open>
  One field of the snapshot. The old levels are dropped first; when a level cannot be read, the book
  is left half filled and the loop ends.
\<close>

definition snapshot_field ::
    "'j json_api \<Rightarrow> symbol_id list \<Rightarrow> string \<times> 'j \<Rightarrow> feed \<times> symbol_id list \<Rightarrow> (feed \<times> symbol_id list) \<times> bool" where
  "snapshot_field j requested field acc =
    (case (field, acc) of ((key, item), (f, seeded)) \<Rightarrow>
       if key = ''timestamp'' \<or> key = ''payment_currency'' then (acc, False)
       else let s = SymbolId key ''KRW'' in
       if requested \<noteq> [] \<and> s \<notin> set requested then (acc, False)
       else let st = (case fd_books f s of None \<Rightarrow> book_state_default | Some st \<Rightarrow> st);
                (bids, thrown) = snapshot_side j bid_order (ja_field j item ''bids'') in
       if thrown then ((f\<lparr>fd_books := (fd_books f)(s \<mapsto> st\<lparr>bs_bids := bids, bs_asks := []\<rparr>)\<rparr>, seeded), True)
       else let (asks, thrown) = snapshot_side j ask_order (ja_field j item ''asks'') in
       if thrown then ((f\<lparr>fd_books := (fd_books f)(s \<mapsto> st\<lparr>bs_bids := bids, bs_asks := asks\<rparr>)\<rparr>, seeded), True)
       else ((update_bbo s (f\<lparr>fd_books := (fd_books f)(s \<mapsto> st\<lparr>bs_bids := bids, bs_asks := asks, bs_initialized := True\<rparr>)\<rparr>),
              seeded @ [s]), False))"

definition ORDERBOOK_SNAPSHOT_DEPTH :: nat where "ORDERBOOK_SNAPSHOT_DEPTH = 5"
definition ORDERBOOK_BBO_DEPTH :: nat where "ORDERBOOK_BBO_DEPTH = 1"

definition snapshot_path :: "nat \<Rightarrow> string" where
  "snapshot_path depth_count = ''/public/orderbook/ALL_KRW?count='' @
     dec_digits (if depth_count = 0 then ORDERBOOK_BBO_DEPTH else depth_count)"

text \<open>\<open>fetch\<close> answers the request for a path.\<close>

definition fetch_all_orderbook_snapshots ::
    "'j json_api \<Rightarrow> u64 \<Rightarrow> symbol_id list \<Rightarrow> nat \<Rightarrow> (string \<Rightarrow> http_response) \<Rightarrow> feed \<Rightarrow> feed" where
  "fetch_all_orderbook_snapshots j now symbols depth_count fetch f =
    (let response = fetch (snapshot_path depth_count) in
     if \<not> hr_success response then f
     else let doc = ja_iterate j (hr_body response) in
       if ja_string j (ja_field j doc ''status'') \<noteq> Some ''0000'' then f
       else case ja_object j (ja_field j doc ''data'') of None \<Rightarrow> f
        | Some members \<Rightarrow>
           (case fold_catching (snapshot_field j symbols) members (f, []) of ((f, seeded), thrown) \<Rightarrow>
              if thrown then f else fold (dispatch_bbo now) seeded (f\<lparr>fd_ready := True\<rparr>)))"

section \<open>Connection and subscriptions\<close>

function batches :: "nat \<Rightarrow> 'a list \<Rightarrow> 'a list list" where
  "batches n xs = (if xs = [] \<or> n = 0 then [] else take n xs # batches n (drop n xs))"
  by pat_completeness auto

termination
  by (relation "measure (\<lambda>(n, xs). length xs)") auto

declare batches.simps [simp del]

definition quoted :: "string \<Rightarrow> string" where
  "quoted s = [CHR 0x22] @ s @ [CHR 0x22]"

definition BATCH_SIZE :: nat where "BATCH_SIZE = 30"

definition ticker_request :: "symbol_id list \<Rightarrow> string" where
  "ticker_request symbols = ''{\"type\":\"ticker\",\"symbols\":['' @ join_with '','' (map (\<lambda>s. quoted (to_bithumb_format s)) symbols) @
     ''],\"tickTypes\":[\"MID\"]}''"

definition depth_request :: "symbol_id list \<Rightarrow> string" where
  "depth_request symbols = ''{\"type\":\"orderbookdepth\",\"symbols\":['' @ join_with '','' (map (\<lambda>s. quoted (to_bithumb_format s)) symbols) @ '']}''"

definition subscribe_ticker :: "symbol_id list \<Rightarrow> feed \<Rightarrow> feed" where
  "subscribe_ticker symbols f =
    (let f = f\<lparr>fd_tickers := symbols\<rparr> in
     if \<not> fd_ws_up f then f else f\<lparr>fd_sent := fd_sent f @ map ticker_request (batches BATCH_SIZE symbols)\<rparr>)"

definition ensure_bbo :: "symbol_id \<Rightarrow> feed \<Rightarrow> feed" where
  "ensure_bbo s f = (if fd_bbo f s = None then f\<lparr>fd_bbo := (fd_bbo f)(s \<mapsto> bbo_default)\<rparr> else f)"

definition start_orderbook_resync_loop :: "feed \<Rightarrow> feed" where
  "start_orderbook_resync_loop f = f\<lparr>fd_resync_running := True\<rparr>"

definition stop_orderbook_resync_loop :: "feed \<Rightarrow> feed" where
  "stop_orderbook_resync_loop f = f\<lparr>fd_resync_running := False\<rparr>"

definition subscribe_orderbook :: "symbol_id list \<Rightarrow> feed \<Rightarrow> feed" where
  "subscribe_orderbook symbols f =
    (let f = f\<lparr>fd_orderbooks := symbols\<rparr> in
     if \<not> fd_ws_up f then f
     else start_orderbook_resync_loop
       (fold ensure_bbo symbols (f\<lparr>fd_sent := fd_sent f @ map depth_request (batches BATCH_SIZE symbols)\<rparr>)))"

text \<open>One round of the resync thread, after its pause.\<close>

definition resync_round :: "'j json_api \<Rightarrow> u64 \<Rightarrow> (string \<Rightarrow> http_response) \<Rightarrow> feed \<Rightarrow> feed" where
  "resync_round j now fetch f =
    (if \<not> fd_resync_running f \<or> \<not> fd_connected f \<or> fd_orderbooks f = [] then f
     else fetch_all_orderbook_snapshots j now (fd_orderbooks f) ORDERBOOK_BBO_DEPTH fetch f)"

definition clear_book :: "book_state \<Rightarrow> book_state" where
  "clear_book st = st\<lparr>bs_bids := [], bs_asks := [], bs_initialized := False\<rparr>"

text \<open>The snapshots of a reconnection are fetched by a thread of their own, \<open>reinitialise\<close>.\<close>

definition on_ws_connected :: "feed \<Rightarrow> feed" where
  "on_ws_connected f =
    (let f = f\<lparr>fd_connected := True, fd_ws_up := True, fd_books := map_option clear_book \<circ> fd_books f, fd_ready := False\<rparr>
     in if fd_tickers f = [] then f else subscribe_ticker (fd_tickers f) f)"

definition reinitialise :: "'j json_api \<Rightarrow> u64 \<Rightarrow> symbol_id list \<Rightarrow> (string \<Rightarrow> http_response) \<Rightarrow> feed \<Rightarrow> feed" where
  "reinitialise j now orderbooks fetch f =
    (let f = fetch_all_orderbook_snapshots j now orderbooks ORDERBOOK_SNAPSHOT_DEPTH fetch f
     in if \<not> fd_connected f then f else subscribe_orderbook orderbooks f)"

definition on_ws_disconnected :: "feed \<Rightarrow> feed" where
  "on_ws_disconnected f = f\<lparr>fd_connected := False, fd_ws_up := False, fd_ready := False\<rparr>"

definition disconnect_feed :: "feed \<Rightarrow> feed" where
  "disconnect_feed f = (stop_orderbook_resync_loop f)\<lparr>fd_ws_up := False, fd_connected := False\<rparr>"

section \<open>Queries\<close>

definition get_available_symbols :: "'j json_api \<Rightarrow> http_response \<Rightarrow> symbol_id list" where
  "get_available_symbols j response =
    (if \<not> hr_success response then []
     else case ja_object j (ja_field j (ja_iterate j (hr_body response)) ''data'') of None \<Rightarrow> []
      | Some members \<Rightarrow> map (\<lambda>(key, _). SymbolId key ''KRW'') (filter (\<lambda>(key, _). key \<noteq> ''date'') members))"

definition rest_ticker :: "'j json_api \<Rightarrow> u64 \<Rightarrow> string \<times> 'j \<Rightarrow> ticker list \<times> feed \<Rightarrow> (ticker list \<times> feed) \<times> bool" where
  "rest_ticker j now field acc =
    (case (field, acc) of ((key, item), (tickers, f)) \<Rightarrow>
       if key = ''date'' then (acc, False)
       else let closing = ja_field j item ''closing_price''; t = ticker_default\<lparr>tk_exchange := Bithumb, tk_symbol := SymbolId key ''KRW''\<rparr> in
       if ja_ok j closing \<and> ja_string j closing = None then (acc, True)
       else let t = (if \<not> ja_ok j closing then t
                  else overlay_bbo f (t\<lparr>tk_last := fast_stod (the (ja_string j closing)) 0, tk_bid := 0, tk_ask := 0\<rparr>));
                t = t\<lparr>tk_timestamp_ms := now\<rparr>
         in if 0 < tk_last t
            then ((tickers @ [t], if key = ''USDT'' then f\<lparr>fd_usdt_krw := tk_last t\<rparr> else f), False)
            else (acc, False))"

definition fetch_all_tickers :: "'j json_api \<Rightarrow> u64 \<Rightarrow> http_response \<Rightarrow> feed \<Rightarrow> ticker list \<times> feed" where
  "fetch_all_tickers j now response f =
    (if \<not> hr_success response then ([], f)
     else case ja_object j (ja_field j (ja_iterate j (hr_body response)) ''data'') of None \<Rightarrow> ([], f)
      | Some members \<Rightarrow> fst (fold_catching (rest_ticker j now) members ([], f)))"

definition get_usdt_krw_price :: "'j json_api \<Rightarrow> http_response \<Rightarrow> feed \<Rightarrow> dbl \<times> feed" where
  "get_usdt_krw_price j response f =
    (if 0 < fd_usdt_krw f then (fd_usdt_krw f, f)
     else if \<not> hr_success response then (0, f)
     else case ja_string j (ja_field j (ja_field j (ja_iterate j (hr_body response)) ''data'') ''closing_price'') of None \<Rightarrow> (0, f)
      | Some price_str \<Rightarrow> let price = fast_stod price_str 0 in (price, f\<lparr>fd_usdt_krw := price\<rparr>))"

section \<open>Runs\<close>

datatype feed_event =
    Message u64 string
  | Snapshots u64 "symbol_id list" nat "string \<Rightarrow> http_response"
  | Resync u64 "string \<Rightarrow> http_response"
  | Reinitialise u64 "symbol_id list" "string \<Rightarrow> http_response"
  | Connected
  | Disconnected
  | Disconnect
  | SubscribeTicker "symbol_id list"
  | SubscribeOrderbook "symbol_id list"
  | FetchTickers u64 http_response
  | UsdtPrice http_response

fun feed_step :: "'j json_api \<Rightarrow> feed_event \<Rightarrow> feed \<Rightarrow> feed" where
  "feed_step j (Message now message) f = on_ws_message j now message f"
| "feed_step j (Snapshots now symbols depth fetch) f = fetch_all_orderbook_snapshots j now symbols depth fetch f"
| "feed_step j (Resync now fetch) f = resync_round j now fetch f"
| "feed_step j (Reinitialise now symbols fetch) f = reinitialise j now symbols fetch f"
| "feed_step j Connected f = on_ws_connected f"
| "feed_step j Disconnected f = on_ws_disconnected f"
| "feed_step j Disconnect f = disconnect_feed f"
| "feed_step j (SubscribeTicker symbols) f = subscribe_ticker symbols f"
| "feed_step j (SubscribeOrderbook symbols) f = subscribe_orderbook symbols f"
| "feed_step j (FetchTickers now response) f = snd (fetch_all_tickers j now response f)"
| "feed_step j (UsdtPrice response) f = snd (get_usdt_krw_price j response f)"

end
