(* ===== verification/BithumbBook.thy ===== *)
theory BithumbBook
  imports BithumbFeed
begin

text \<open>
  Correctness of the Bithumb books: the levels are kept in order and implement a map from prices to
  quantities, the best bid and offer follows the book, and the tickers made from it show
  the top of the book.
\<close>

section \<open>Levels implement a map\<close>

definition levels_ok :: "(dbl \<Rightarrow> dbl \<Rightarrow> bool) \<Rightarrow> levels \<Rightarrow> bool" where
  "levels_ok lt ls \<longleftrightarrow> sorted_wrt lt (map fst ls) \<and> (\<forall>p \<in> fst ` set ls. p \<noteq> NaN)"

text \<open>The contract of a price order, on prices that are numbers.\<close>

locale price_order =
  fixes lt :: "dbl \<Rightarrow> dbl \<Rightarrow> bool"
  assumes lt_irrefl: "\<not> lt a a"
    and lt_trans: "lt a b \<Longrightarrow> lt b c \<Longrightarrow> lt a c"
    and lt_total: "a \<noteq> NaN \<Longrightarrow> b \<noteq> NaN \<Longrightarrow> lt a b \<or> a = b \<or> lt b a"
begin

lemma levels_ok_Nil [simp]: "levels_ok lt []"
  by (simp add: levels_ok_def)

lemma levels_ok_Cons: "levels_ok lt ((a, b) # ls) \<longleftrightarrow> a \<noteq> NaN \<and> (\<forall>p \<in> fst ` set ls. lt a p) \<and> levels_ok lt ls"
  by (auto simp: levels_ok_def)

lemma put_keys: "fst ` set (map_put lt k v ls) \<subseteq> insert k (fst ` set ls)"
  by (induction lt k v ls rule: map_put.induct) auto

lemma erase_keys: "fst ` set (map_erase lt k ls) \<subseteq> fst ` set ls"
  by (induction lt k ls rule: map_erase.induct) auto

lemma put_ok: "levels_ok lt ls \<Longrightarrow> k \<noteq> NaN \<Longrightarrow> levels_ok lt (map_put lt k v ls)"
proof (induction ls)
  case (Cons l ls)
  obtain a b where l: "l = (a, b)" by fastforce
  have keys: "p = k \<or> p \<in> fst ` set ls" if "p \<in> fst ` set (map_put lt k v ls)" for p using put_keys that by blast
  show ?case
    using Cons lt_trans keys lt_irrefl by (fastforce simp: l levels_ok_Cons)
qed (simp add: levels_ok_def)

lemma erase_ok: "levels_ok lt ls \<Longrightarrow> levels_ok lt (map_erase lt k ls)"
proof (induction ls)
  case (Cons l ls)
  obtain a b where l: "l = (a, b)" by fastforce
  have keys: "p \<in> fst ` set ls" if "p \<in> fst ` set (map_erase lt k ls)" for p using erase_keys that by blast
  show ?case using Cons keys by (fastforce simp: l levels_ok_Cons)
qed simp

lemma absent: "levels_ok lt ls \<Longrightarrow> \<forall>p \<in> fst ` set ls. lt k p \<Longrightarrow> map_of ls k = None"
  using lt_irrefl by (auto simp: map_of_eq_None_iff)

lemma map_of_put: "levels_ok lt ls \<Longrightarrow> k \<noteq> NaN \<Longrightarrow> map_of (map_put lt k v ls) = (map_of ls)(k \<mapsto> v)"
proof (induction ls)
  case (Cons l ls)
  obtain a b where l: "l = (a, b)" by fastforce
  consider "lt k a" | "\<not> lt k a" "lt a k" | "k = a" using Cons.prems lt_total [of k a] by (auto simp: l levels_ok_Cons)
  then show ?case
    using Cons lt_irrefl by cases (auto simp: l levels_ok_Cons)
qed simp

lemma map_of_erase: "levels_ok lt ls \<Longrightarrow> k \<noteq> NaN \<Longrightarrow> map_of (map_erase lt k ls) = (map_of ls)(k := None)"
proof (induction ls)
  case (Cons l ls)
  obtain a b where l: "l = (a, b)" by fastforce
  consider "lt k a" | "\<not> lt k a" "lt a k" | "k = a" using Cons.prems lt_total [of k a] by (auto simp: l levels_ok_Cons)
  then show ?case
  proof cases
    case 1
    have "\<forall>p \<in> fst ` set (l # ls). lt k p" using 1 Cons.prems(1) lt_trans by (auto simp: l levels_ok_Cons)
    then have "map_of (l # ls) k = None" using Cons.prems(1) absent by blast
    then show ?thesis using 1 by (auto simp: l fun_eq_iff)
  next
    case 2
    then show ?thesis using Cons lt_irrefl by (auto simp: l levels_ok_Cons)
  next
    case 3
    then have "map_of ls k = None" using Cons.prems(1) by (intro absent) (auto simp: l levels_ok_Cons)
    then show ?thesis using 3 lt_irrefl by (auto simp: l fun_eq_iff)
  qed
qed simp

lemma put_or_erase_ok: "levels_ok lt ls \<Longrightarrow> p \<noteq> NaN \<Longrightarrow> levels_ok lt (put_or_erase lt p q ls)"
  by (simp add: put_or_erase_def put_ok erase_ok)

lemma map_of_put_or_erase:
  "levels_ok lt ls \<Longrightarrow> p \<noteq> NaN \<Longrightarrow> map_of (put_or_erase lt p q ls) = (map_of ls)(p := (if q \<le> 0 then None else Some q))"
  by (simp add: put_or_erase_def map_of_put map_of_erase)

text \<open>The front is the best level.\<close>

lemma top_best: "levels_ok lt ls \<Longrightarrow> ls \<noteq> [] \<Longrightarrow> top_of ls \<in> set ls \<and> (\<forall>p \<in> fst ` set ls. p = fst (top_of ls) \<or> lt (fst (top_of ls)) p)"
  by (cases ls) (fastforce simp: top_of_def levels_ok_Cons)+

lemma add_level_ok: "levels_ok lt ls \<Longrightarrow> levels_ok lt (fst (add_level j lt l ls))"
  using dbl_lt_num by (auto simp: add_level_def put_ok split: option.splits)

lemma snapshot_side_ok: "levels_ok lt (fst (snapshot_side j lt side))"
  by (auto simp: snapshot_side_def split: option.split intro!: fold_catching_invar [of "levels_ok lt"] add_level_ok)

end

lemma dbl_total: "a \<noteq> NaN \<Longrightarrow> b \<noteq> NaN \<Longrightarrow> a < b \<or> a = b \<or> b < (a :: dbl)"
  using dbl_not_lt [of a b] dbl_not_lt [of b a] dbl_le_antisym by blast

interpretation bids: price_order bid_order
  by unfold_locales (auto intro: dbl_lt_trans dest: dbl_total)

interpretation asks: price_order ask_order
  by unfold_locales (auto intro: dbl_lt_trans dest: dbl_total)

section \<open>The best bid and offer follows the book\<close>

definition book_ok :: "book_state \<Rightarrow> bool" where
  "book_ok st \<longleftrightarrow> levels_ok bid_order (bs_bids st) \<and> levels_ok ask_order (bs_asks st)"

definition in_sync :: "bbo \<Rightarrow> book_state \<Rightarrow> bool" where
  "in_sync b st \<longleftrightarrow> (bb_bid b, bb_bid_qty b) = top_of (bs_bids st) \<and> (bb_ask b, bb_ask_qty b) = top_of (bs_asks st)"

text \<open>An entry that \<^verbatim>\<open>subscribe_orderbook\<close> made and that no update has reached yet.\<close>

definition unset :: "bbo \<Rightarrow> bool" where
  "unset b \<longleftrightarrow> bb_bid b = 0 \<and> bb_ask b = 0 \<and> bb_bid_qty b = 0 \<and> bb_ask_qty b = 0"

definition sync_at :: "feed \<Rightarrow> symbol_id \<Rightarrow> bool" where
  "sync_at f s \<longleftrightarrow> (\<forall>b st. fd_bbo f s = Some b \<longrightarrow> fd_books f s = Some st \<longrightarrow> bs_initialized st \<longrightarrow> in_sync b st \<or> unset b)"

definition books_ok :: "feed \<Rightarrow> bool" where
  "books_ok f \<longleftrightarrow> (\<forall>s st. fd_books f s = Some st \<longrightarrow> book_ok st)"

definition feed_invar :: "feed \<Rightarrow> bool" where
  "feed_invar f \<longleftrightarrow> books_ok f \<and> (\<forall>s. sync_at f s)"

lemma update_bbo_frame [simp]:
  "fd_books (update_bbo s f) = fd_books f" "fd_ready (update_bbo s f) = fd_ready f" "fd_dispatched (update_bbo s f) = fd_dispatched f"
  "fd_callback (update_bbo s f) = fd_callback f"
  by (simp_all add: update_bbo_def split: option.split)

lemma update_bbo_other: "t \<noteq> s \<Longrightarrow> fd_bbo (update_bbo s f) t = fd_bbo f t"
  by (simp add: update_bbo_def split: option.split)

lemma update_bbo_sync: "sync_at (update_bbo s f) s"
  by (auto simp: sync_at_def update_bbo_def in_sync_def split: option.splits)

lemma sync_at_cong: "fd_bbo f s = fd_bbo g s \<Longrightarrow> fd_books f s = fd_books g s \<Longrightarrow> sync_at f s = sync_at g s"
  by (simp add: sync_at_def)

text \<open>During a message every book but that of the current run is in sync.\<close>

definition acc_ok :: "depth_acc \<Rightarrow> bool" where
  "acc_ok acc \<longleftrightarrow> books_ok (fst acc) \<and> (\<forall>s. fst (snd acc) \<noteq> Some s \<longrightarrow> sync_at (fst acc) s)"

lemma end_run_ok: "acc_ok acc \<Longrightarrow> feed_invar (fst (end_run acc))"
proof -
  assume ok: "acc_ok acc"
  obtain f l u where acc: "acc = (f, l, u)" by (cases acc) auto
  show ?thesis
  proof (cases l)
    case None
    then show ?thesis using ok by (simp add: acc acc_ok_def end_run_def feed_invar_def)
  next
    case (Some r)
    have "sync_at (update_bbo r f) s" for s
      using ok Some update_bbo_sync sync_at_cong [of "update_bbo r f" s f] update_bbo_other [of s r f]
      by (cases "s = r") (simp_all add: acc acc_ok_def)
    then show ?thesis using ok Some by (simp add: acc acc_ok_def end_run_def feed_invar_def books_ok_def)
  qed
qed

lemma touch_book_ok:
  assumes ok: "acc_ok acc" and change: "\<And>st. book_ok st \<Longrightarrow> book_ok (change st)"
  shows "acc_ok (touch_book s change acc)"
proof -
  obtain f l u where acc: "acc = (f, l, u)" by (cases acc) auto
  show ?thesis
  proof (cases "fd_books f s")
    case None
    then show ?thesis using ok by (simp add: acc touch_book_def)
  next
    case (Some st)
    show ?thesis
    proof (cases "bs_initialized st")
      case True
      let ?f = "f\<lparr>fd_books := (fd_books f)(s \<mapsto> change st)\<rparr>"
      have b: "books_ok ?f" using ok Some change by (auto simp: acc acc_ok_def books_ok_def)
      have sy: "sync_at ?f t" if "t \<noteq> s" "l \<noteq> Some t" for t
        using ok that by (simp add: acc acc_ok_def sync_at_def)
      show ?thesis
      proof (cases "l = Some s")
        case True
        then show ?thesis using b sy Some \<open>bs_initialized st\<close> by (simp add: acc touch_book_def acc_ok_def Let_def)
      next
        case False
        have "sync_at (fst (end_run (?f, l, u))) t" if "t \<noteq> s" for t
        proof (cases l)
          case (Some r)
          then show ?thesis
            using sy [OF that] update_bbo_sync sync_at_cong [of "update_bbo r ?f" t ?f] update_bbo_other [of t r ?f]
            by (cases "t = r") (simp_all add: end_run_def)
        qed (use sy [OF that] in \<open>simp add: end_run_def\<close>)
        moreover have "books_ok (fst (end_run (?f, l, u)))"
          using b by (simp add: end_run_def books_ok_def split: option.split)
        ultimately show ?thesis
          using Some False \<open>bs_initialized st\<close>
          by (cases "end_run (?f, l, u)") (simp add: acc touch_book_def acc_ok_def Let_def)
      qed
    qed (use ok Some in \<open>simp add: acc touch_book_def\<close>)
  qed
qed

lemma apply_levels_ok: "book_ok st \<Longrightarrow> p \<noteq> NaN \<Longrightarrow> book_ok (apply_bid p q st)" "book_ok st \<Longrightarrow> p \<noteq> NaN \<Longrightarrow> book_ok (apply_ask p q st)"
  by (simp_all add: book_ok_def apply_bid_def apply_ask_def bids.put_or_erase_ok asks.put_or_erase_ok)

section \<open>Messages and snapshots keep the invariant\<close>

text \<open>
  What is asked of the input: prices in depth messages are numbers, and a document of the expected
  shape whenever one is read (an exception in the middle of a loop leaves a book that was changed but
  whose best bid and offer was not).
\<close>

definition depth_numeric :: "'j json_api \<Rightarrow> string \<Rightarrow> bool" where
  "depth_numeric j message \<longleftrightarrow>
    (case parse_orderbookdepth_fast message of Some us \<Rightarrow> (\<forall>u \<in> set us. du_price u \<noteq> NaN)
     | None \<Rightarrow> (\<forall>items. slow_items j message = Some items \<longrightarrow>
         (\<forall>item \<in> set items. \<forall>p. ja_string j (ja_field j item ''price'') = Some p \<longrightarrow> fast_stod p 0 \<noteq> NaN)))"

definition depth_throws :: "'j json_api \<Rightarrow> string \<Rightarrow> feed \<Rightarrow> bool" where
  "depth_throws j message f \<longleftrightarrow> parse_orderbookdepth_fast message = None \<and>
    (case slow_items j message of None \<Rightarrow> False | Some items \<Rightarrow> snd (fold_catching (slow_item j) items (f, None, [])))"

definition snapshot_throws :: "'j json_api \<Rightarrow> symbol_id list \<Rightarrow> http_response \<Rightarrow> feed \<Rightarrow> bool" where
  "snapshot_throws j symbols response f \<longleftrightarrow>
    (case ja_object j (ja_field j (ja_iterate j (hr_body response)) ''data'') of None \<Rightarrow> False
     | Some members \<Rightarrow> snd (fold_catching (snapshot_field j symbols) members (f, [])))"

lemma slow_item_ok:
  assumes "acc_ok acc" "\<forall>p. ja_string j (ja_field j item ''price'') = Some p \<longrightarrow> fast_stod p 0 \<noteq> NaN"
  shows "acc_ok (fst (slow_item j item acc))"
  using assms by (auto simp: slow_item_def Let_def split: option.splits intro!: touch_book_ok apply_levels_ok)

lemma depth_message_invar:
  assumes "feed_invar f" "depth_numeric j message" "\<not> depth_throws j message f"
  shows "feed_invar (snd (parse_orderbookdepth_message j message f))"
proof -
  have acc: "acc_ok (f, None, [])" using assms(1) by (simp add: acc_ok_def feed_invar_def)
  show ?thesis
  proof (cases "parse_orderbookdepth_fast message")
    case (Some us)
    have "acc_ok (fold (\<lambda>u. touch_book (du_symbol u) (depth_change u)) us (f, None, []))"
    proof (rule fold_invar_set [of acc_ok, OF acc])
      fix u acc assume "u \<in> set us" "acc_ok acc"
      then show "acc_ok (touch_book (du_symbol u) (depth_change u) acc)"
        using assms(2) Some by (intro touch_book_ok) (auto simp: depth_numeric_def depth_change_def apply_levels_ok)
    qed
    from end_run_ok [OF this] show ?thesis using Some by (simp add: parse_orderbookdepth_message_def apply_updates_def case_prod_unfold)
  next
    case None
    show ?thesis
    proof (cases "slow_items j message")
      case (Some items)
      have "acc_ok (fst (fold_catching (slow_item j) items (f, None, [])))"
        using acc assms(2) None Some by (intro fold_catching_invar [of acc_ok] slow_item_ok) (auto simp: depth_numeric_def)
      from end_run_ok [OF this] show ?thesis
        using None Some assms(3) by (simp add: parse_orderbookdepth_message_def depth_throws_def case_prod_unfold)
    qed (use None assms(1) in \<open>simp add: parse_orderbookdepth_message_def\<close>)
  qed
qed

lemma snapshot_field_invar:
  assumes "feed_invar f" "\<not> snd (snapshot_field j symbols field (f, seeded))"
  shows "feed_invar (fst (fst (snapshot_field j symbols field (f, seeded))))"
proof -
  obtain key item where field: "field = (key, item)" by fastforce
  let ?s = "SymbolId key ''KRW''"
  obtain bs bt where b: "snapshot_side j bid_order (ja_field j item ''bids'') = (bs, bt)" by fastforce
  obtain as aa where a: "snapshot_side j ask_order (ja_field j item ''asks'') = (as, aa)" by fastforce
  have ok: "levels_ok bid_order bs" "levels_ok ask_order as"
    using bids.snapshot_side_ok [of j "ja_field j item ''bids''"] asks.snapshot_side_ok [of j "ja_field j item ''asks''"] a b by simp_all
  let ?f = "\<lambda>st. f\<lparr>fd_books := (fd_books f)(?s \<mapsto> st\<lparr>bs_bids := bs, bs_asks := as, bs_initialized := True\<rparr>)\<rparr>"
  have "feed_invar (update_bbo ?s (?f st))" for st
  proof -
    have "sync_at (update_bbo ?s (?f st)) t" for t
    proof (cases "t = ?s")
      case False
      have "sync_at f t" using assms(1) by (simp add: feed_invar_def)
      then show ?thesis using False update_bbo_other [OF False, of "?f st"] by (simp add: sync_at_def)
    qed (simp add: update_bbo_sync)
    then show ?thesis using assms(1) ok by (auto simp: feed_invar_def books_ok_def book_ok_def)
  qed
  then show ?thesis using assms by (auto simp: snapshot_field_def field a b Let_def split: if_splits)
qed

lemma dispatch_frame [simp]:
  "fd_books (dispatch_ticker t f) = fd_books f" "fd_bbo (dispatch_ticker t f) = fd_bbo f" "fd_ready (dispatch_ticker t f) = fd_ready f"
  "fd_books (dispatch_bbo now s f) = fd_books f" "fd_bbo (dispatch_bbo now s f) = fd_bbo f" "fd_ready (dispatch_bbo now s f) = fd_ready f"
  by (simp_all add: dispatch_ticker_def dispatch_bbo_def split: option.split)

lemma dispatch_fold_frame [simp]:
  "fd_books (fold (dispatch_bbo now) ss f) = fd_books f" "fd_bbo (fold (dispatch_bbo now) ss f) = fd_bbo f"
  "fd_ready (fold (dispatch_bbo now) ss f) = fd_ready f"
  by (induction ss arbitrary: f) simp_all

lemma feed_invar_cong: "fd_books f = fd_books g \<Longrightarrow> fd_bbo f = fd_bbo g \<Longrightarrow> feed_invar f = feed_invar g"
  by (simp add: feed_invar_def books_ok_def sync_at_def)

text \<open>A loop that does not throw is a loop all of whose rounds do not throw.\<close>

lemma fold_catching_clean:
  assumes "P s" "\<And>x s. P s \<Longrightarrow> \<not> snd (f x s) \<Longrightarrow> P (fst (f x s))" "\<not> snd (fold_catching f xs s)"
  shows "P (fst (fold_catching f xs s))"
  using assms(1,3)
proof (induction xs arbitrary: s)
  case (Cons x xs)
  obtain s' where s': "f x s = (s', False)" using Cons.prems(2) by (cases "f x s") (auto split: if_splits)
  then show ?case using Cons assms(2) [OF Cons.prems(1), of x] by simp
qed simp

lemma snapshots_invar:
  assumes "feed_invar f" "\<not> snapshot_throws j symbols (fetch (snapshot_path depth)) f"
  shows "feed_invar (fetch_all_orderbook_snapshots j now symbols depth fetch f)"
proof -
  have "feed_invar (fst (fst (fold_catching (snapshot_field j symbols) members (f, []))))"
    if "\<not> snd (fold_catching (snapshot_field j symbols) members (f, []))" for members
    using that assms(1) snapshot_field_invar
    by (intro fold_catching_clean [of "\<lambda>acc. feed_invar (fst acc)"]) auto
  moreover have "feed_invar (fold (dispatch_bbo now) ss (g\<lparr>fd_ready := True\<rparr>)) = feed_invar g" for ss g
    by (rule feed_invar_cong) simp_all
  ultimately show ?thesis
    using assms by (simp add: fetch_all_orderbook_snapshots_def snapshot_throws_def Let_def case_prod_unfold split: option.splits)
qed

section \<open>Runs\<close>

fun clean_event :: "'j json_api \<Rightarrow> feed_event \<Rightarrow> feed \<Rightarrow> bool" where
  "clean_event j (Message now message) f \<longleftrightarrow>
     (sv_contains message ''orderbookdepth'' \<longrightarrow> depth_numeric j message \<and> \<not> depth_throws j message f)"
| "clean_event j (Snapshots now symbols depth fetch) f \<longleftrightarrow> \<not> snapshot_throws j symbols (fetch (snapshot_path depth)) f"
| "clean_event j (Resync now fetch) f \<longleftrightarrow> \<not> snapshot_throws j (fd_orderbooks f) (fetch (snapshot_path ORDERBOOK_BBO_DEPTH)) f"
| "clean_event j (Reinitialise now symbols fetch) f \<longleftrightarrow> \<not> snapshot_throws j symbols (fetch (snapshot_path ORDERBOOK_SNAPSHOT_DEPTH)) f"
| "clean_event j e f \<longleftrightarrow> True"

lemma store_last_invar: "feed_invar f \<Longrightarrow> feed_invar (store_last s p f)"
  by (auto simp: feed_invar_def books_ok_def sync_at_def store_last_def in_sync_def unset_def split: option.splits if_splits)

lemma ticker_message_invar: "feed_invar f \<Longrightarrow> feed_invar (snd (parse_ticker_message j now message f))"
  by (simp add: parse_ticker_message_def store_last_invar split: prod.split option.split)

lemma message_invar: "feed_invar f \<Longrightarrow> clean_event j (Message now message) f \<Longrightarrow> feed_invar (on_ws_message j now message f)"
proof (cases "sv_contains message ''orderbookdepth''")
  case True
  assume "feed_invar f" "clean_event j (Message now message) f"
  with True have "feed_invar (snd (parse_orderbookdepth_message j message f))" by (simp add: depth_message_invar)
  moreover have "feed_invar (fold (dispatch_bbo now) ss g) = feed_invar g" for ss g by (rule feed_invar_cong) simp_all
  ultimately show ?thesis using True by (simp add: on_ws_message_def case_prod_unfold)
next
  case False
  assume "feed_invar f"
  then have inv: "feed_invar (snd (parse_ticker_message j now message f))" by (rule ticker_message_invar)
  have "feed_invar (dispatch_ticker t g) = feed_invar g" "feed_invar (g\<lparr>fd_usdt_krw := x\<rparr>) = feed_invar g" for t g x
    by (rule feed_invar_cong; simp)+
  then show ?thesis using False inv by (simp add: on_ws_message_def Let_def case_prod_unfold split: option.split)
qed

lemma ensure_bbo_invar: "feed_invar f \<Longrightarrow> feed_invar (ensure_bbo s f)"
  by (auto simp: ensure_bbo_def feed_invar_def books_ok_def sync_at_def unset_def bbo_default_def)

lemma subscribe_invar: "feed_invar f \<Longrightarrow> feed_invar (subscribe_orderbook symbols f)" "feed_invar f \<Longrightarrow> feed_invar (subscribe_ticker symbols f)"
proof -
  have cong: "feed_invar (g\<lparr>fd_sent := x\<rparr>) = feed_invar g" "feed_invar (g\<lparr>fd_orderbooks := y\<rparr>) = feed_invar g"
    "feed_invar (g\<lparr>fd_tickers := y\<rparr>) = feed_invar g" "feed_invar (g\<lparr>fd_resync_running := z\<rparr>) = feed_invar g" for g x y z
    by (rule feed_invar_cong; simp)+
  have fold: "feed_invar (fold ensure_bbo symbols g)" if "feed_invar g" for g
    using that by (intro fold_invar_set [of feed_invar]) (simp_all add: ensure_bbo_invar)
  show "feed_invar f \<Longrightarrow> feed_invar (subscribe_orderbook symbols f)"
    by (simp add: subscribe_orderbook_def start_orderbook_resync_loop_def Let_def cong fold)
  show "feed_invar f \<Longrightarrow> feed_invar (subscribe_ticker symbols f)"
    by (simp add: subscribe_ticker_def Let_def cong)
qed

lemma connected_invar: "feed_invar f \<Longrightarrow> feed_invar (on_ws_connected f)"
proof -
  assume inv: "feed_invar f"
  have "feed_invar (f\<lparr>fd_connected := True, fd_ws_up := True, fd_books := map_option clear_book \<circ> fd_books f, fd_ready := False\<rparr>)"
    by (auto simp: feed_invar_def books_ok_def sync_at_def clear_book_def book_ok_def levels_ok_def)
  then show ?thesis by (simp add: on_ws_connected_def Let_def subscribe_invar)
qed

lemma rest_ticker_invar: "feed_invar (snd acc) \<Longrightarrow> feed_invar (snd (fst (rest_ticker j now field acc)))"
proof -
  have "feed_invar (g\<lparr>fd_usdt_krw := x\<rparr>) = feed_invar g" for g x by (rule feed_invar_cong; simp)
  then show "feed_invar (snd acc) \<Longrightarrow> ?thesis" by (simp add: rest_ticker_def Let_def case_prod_unfold)
qed

lemma disconnect_invar: "feed_invar f \<Longrightarrow> feed_invar (on_ws_disconnected f)" "feed_invar f \<Longrightarrow> feed_invar (disconnect_feed f)"
  by (auto simp: on_ws_disconnected_def disconnect_feed_def stop_orderbook_resync_loop_def feed_invar_def books_ok_def sync_at_def)

lemma feed_step_invar: "feed_invar f \<Longrightarrow> clean_event j e f \<Longrightarrow> feed_invar (feed_step j e f)"
proof (cases e)
  case (FetchTickers now response)
  assume "feed_invar f"
  then have "feed_invar (snd (fst (fold_catching (rest_ticker j now) ms ([], f))))" for ms
    by (intro fold_catching_invar [of "\<lambda>acc. feed_invar (snd acc)"]) (simp_all add: rest_ticker_invar)
  then show ?thesis using \<open>feed_invar f\<close> by (simp add: FetchTickers fetch_all_tickers_def split: option.split)
next
  case (UsdtPrice response)
  have "feed_invar (g\<lparr>fd_usdt_krw := x\<rparr>) = feed_invar g" for g x by (rule feed_invar_cong; simp)
  moreover assume "feed_invar f"
  ultimately show ?thesis by (simp add: UsdtPrice get_usdt_krw_price_def Let_def split: option.split)
next
  case (Reinitialise now symbols fetch)
  assume "feed_invar f" "clean_event j e f"
  then show ?thesis by (simp add: Reinitialise reinitialise_def Let_def snapshots_invar subscribe_invar)
next
  case (Resync now fetch)
  assume "feed_invar f" "clean_event j e f"
  then show ?thesis by (simp add: Resync resync_round_def snapshots_invar)
qed (simp_all add: message_invar snapshots_invar subscribe_invar connected_invar disconnect_invar)

inductive feed_reach :: "'j json_api \<Rightarrow> feed \<Rightarrow> bool" for j where
  start: "feed_reach j feed_init"
| step: "feed_reach j f \<Longrightarrow> clean_event j e f \<Longrightarrow> feed_reach j (feed_step j e f)"

lemma feed_reach_invar: "feed_reach j f \<Longrightarrow> feed_invar f"
  by (induction rule: feed_reach.induct)
    (simp_all add: feed_step_invar, simp add: feed_invar_def books_ok_def sync_at_def feed_init_def)


section \<open>Tickers show the top of the book\<close>

text \<open>The symbols a message touches have initialised books.\<close>

definition live :: "feed \<Rightarrow> symbol_id \<Rightarrow> bool" where
  "live f s \<longleftrightarrow> (\<exists>st. fd_books f s = Some st \<and> bs_initialized st)"

definition acc_live :: "ticker list \<Rightarrow> depth_acc \<Rightarrow> bool" where
  "acc_live ts acc \<longleftrightarrow> (case acc of (f, r, updated) \<Rightarrow> (\<forall>s. r = Some s \<or> s \<in> set updated \<longrightarrow> live f s) \<and> fd_dispatched f = ts)"

lemma end_run_live: "acc_live ts acc \<Longrightarrow> acc_live ts (end_run acc)"
  by (auto simp: acc_live_def end_run_def live_def split: prod.split option.split)

lemma touch_book_live:
  assumes "acc_live ts acc" "\<And>st. bs_initialized (change st) = bs_initialized st"
  shows "acc_live ts (touch_book s change acc)"
proof -
  obtain f r u where acc: "acc = (f, r, u)" by (cases acc) auto
  show ?thesis
  proof (cases "live f s")
    case True
    then obtain st where st: "fd_books f s = Some st" "bs_initialized st" by (auto simp: live_def)
    let ?f = "f\<lparr>fd_books := (fd_books f)(s \<mapsto> change st)\<rparr>"
    have "acc_live ts (?f, r, u)" "live ?f s" using assms st by (auto simp: acc acc_live_def live_def)
    moreover from end_run_live [OF this(1)] have "acc_live ts (end_run (?f, r, u))" .
    moreover have "fd_books (fst (end_run (?f, r, u))) = fd_books ?f" by (simp add: end_run_def split: option.split)
    ultimately show ?thesis using st by (auto simp: acc touch_book_def acc_live_def live_def Let_def split: prod.splits)
  qed (use assms(1) in \<open>auto simp: acc touch_book_def live_def split: option.split\<close>)
qed

lemma apply_initialized [simp]: "bs_initialized (apply_bid p q st) = bs_initialized st" "bs_initialized (apply_ask p q st) = bs_initialized st"
  by (simp_all add: apply_bid_def apply_ask_def)

lemma depth_message_live:
  assumes "parse_orderbookdepth_message j message f = (updated, g)"
  shows "\<forall>s \<in> set updated. live g s" "fd_dispatched g = fd_dispatched f"
proof -
  let ?ts = "fd_dispatched f"
  have acc: "acc_live ?ts (f, None, [])" by (simp add: acc_live_def)
  have fast: "acc_live ?ts (fold (\<lambda>u. touch_book (du_symbol u) (depth_change u)) us (f, None, []))" for us
    by (intro fold_invar_set [of "acc_live ?ts"] acc touch_book_live) (auto simp: depth_change_def)
  have slow: "acc_live ?ts (fst (fold_catching (slow_item j) items (f, None, [])))" for items
    by (intro fold_catching_invar [of "acc_live ?ts"] acc)
      (auto simp: slow_item_def Let_def split: option.splits intro!: touch_book_live)
  have "\<exists>r. acc_live ?ts (g, r, updated)"
    using assms end_run_live [OF fast] end_run_live [OF slow] slow acc
    by (fastforce simp: parse_orderbookdepth_message_def apply_updates_def acc_live_def case_prod_unfold split: option.splits if_splits prod.splits)
  then show "\<forall>s \<in> set updated. live g s" "fd_dispatched g = fd_dispatched f"
    by (auto simp: acc_live_def)
qed

lemma dispatched_fold:
  assumes "t \<in> set (drop (length (fd_dispatched f)) (fd_dispatched (fold (dispatch_bbo now) ss f)))"
  shows "\<exists>s \<in> set ss. make_bbo_ticker now s f = Some t"
proof -
  have "\<exists>ts. fd_dispatched (fold (dispatch_bbo now) ss g) = fd_dispatched g @ ts \<and> (\<forall>t \<in> set ts. \<exists>s \<in> set ss. make_bbo_ticker now s f = Some t)"
    if "fd_bbo g = fd_bbo f" for g using that
  proof (induction ss arbitrary: g)
    case (Cons s ss)
    have m: "make_bbo_ticker now s g = make_bbo_ticker now s f" using Cons.prems by (simp add: make_bbo_ticker_def)
    obtain ts where "fd_dispatched (fold (dispatch_bbo now) ss (dispatch_bbo now s g)) = fd_dispatched (dispatch_bbo now s g) @ ts"
      "\<forall>t \<in> set ts. \<exists>s \<in> set ss. make_bbo_ticker now s f = Some t"
      using Cons.IH [of "dispatch_bbo now s g"] Cons.prems by auto
    moreover have "\<exists>us. fd_dispatched (dispatch_bbo now s g) = fd_dispatched g @ us \<and> (\<forall>u \<in> set us. make_bbo_ticker now s f = Some u)"
      unfolding m [symmetric] by (auto simp: dispatch_bbo_def dispatch_ticker_def split: option.split)
    ultimately show ?case by fastforce
  qed simp
  from this [OF refl] show ?thesis using assms by fastforce
qed

lemma make_bbo_ticker_fields:
  assumes "make_bbo_ticker now s f = Some t"
  obtains b where "fd_bbo f s = Some b" "\<not> bb_bid b \<le> 0" "\<not> bb_ask b \<le> 0" "tk_symbol t = s" "tk_bid t = bb_bid b" "tk_ask t = bb_ask b"
    "tk_bid_qty t = bb_bid_qty b" "tk_ask_qty t = bb_ask_qty b"
  using assms by (auto simp: make_bbo_ticker_def Let_def split: option.splits if_splits)

text \<open>C20. A depth message is turned into tickers that show the top of the local book after the message: the
  bid is the highest and the ask the lowest price of the book, each with the quantity of its level,
  and both are positive.\<close>

theorem depth_tickers_exact:
  assumes "feed_reach j f" "sv_contains message ''orderbookdepth''" "clean_event j (Message now message) f"
    and g: "g = on_ws_message j now message f" and t: "t \<in> set (drop (length (fd_dispatched f)) (fd_dispatched g))"
  shows "\<exists>st. fd_books g (tk_symbol t) = Some st \<and> bs_initialized st \<and>
    (tk_bid t, tk_bid_qty t) \<in> set (bs_bids st) \<and> (\<forall>p \<in> fst ` set (bs_bids st). p \<le> tk_bid t) \<and>
    (tk_ask t, tk_ask_qty t) \<in> set (bs_asks st) \<and> (\<forall>p \<in> fst ` set (bs_asks st). tk_ask t \<le> p) \<and>
    0 < tk_bid t \<and> 0 < tk_ask t"
proof -
  obtain updated h where h: "parse_orderbookdepth_message j message f = (updated, h)" by fastforce
  note live = depth_message_live [OF h]
  have "feed_invar h" using depth_message_invar [OF feed_reach_invar [OF assms(1)], of j message] assms(2,3) h by simp
  have gh: "g = (if fd_ready h then fold (dispatch_bbo now) updated h else h)" using assms(2) h by (simp add: g on_ws_message_def)
  then have "fd_ready h" using t live(2) by (auto split: if_splits)
  then obtain s where s: "s \<in> set updated" "make_bbo_ticker now s h = Some t"
    using dispatched_fold [of t h now updated] t gh live(2) by auto
  obtain st where st: "fd_books h s = Some st" "bs_initialized st" using live(1) s(1) by (auto simp: live_def)
  obtain b where b: "fd_bbo h s = Some b" "\<not> bb_bid b \<le> 0" "\<not> bb_ask b \<le> 0" "tk_symbol t = s" "tk_bid t = bb_bid b" "tk_ask t = bb_ask b"
    "tk_bid_qty t = bb_bid_qty b" "tk_ask_qty t = bb_ask_qty b" by (rule make_bbo_ticker_fields [OF s(2)])
  have ok: "levels_ok bid_order (bs_bids st)" "levels_ok ask_order (bs_asks st)"
    using \<open>feed_invar h\<close> st by (auto simp: feed_invar_def books_ok_def book_ok_def)
  have "in_sync b st \<or> unset b" using \<open>feed_invar h\<close> st b(1) by (auto simp: feed_invar_def sync_at_def)
  then have sync: "in_sync b st" using b(2) by (auto simp: unset_def zero_dbl_def)
  have ne: "bs_bids st \<noteq> []" "bs_asks st \<noteq> []" using sync b(2,3) by (auto simp: in_sync_def top_of_def zero_dbl_def)
  note bid = bids.top_best [OF ok(1) ne(1)] and ask = asks.top_best [OF ok(2) ne(2)]
  have num: "tk_bid t \<noteq> NaN" "tk_ask t \<noteq> NaN"
    using bid ask ok sync b by (auto simp: levels_ok_def in_sync_def) (metis fst_conv image_eqI)+
  have "fd_books g (tk_symbol t) = Some st" using gh st(1) b(4) by simp
  moreover have "(tk_bid t, tk_bid_qty t) = top_of (bs_bids st)" "(tk_ask t, tk_ask_qty t) = top_of (bs_asks st)"
    using sync b by (simp_all add: in_sync_def)
  then have top: "fst (top_of (bs_bids st)) = tk_bid t" "fst (top_of (bs_asks st)) = tk_ask t" "top_of (bs_bids st) = (tk_bid t, tk_bid_qty t)"
    "top_of (bs_asks st) = (tk_ask t, tk_ask_qty t)" by (metis fst_conv)+ 
  moreover have "0 < tk_bid t" "0 < tk_ask t" using num b(2,3,5,6) by (simp_all add: dbl_pos_iff)
  ultimately show ?thesis using st(2) bid ask num dbl_lt_le dbl_le_refl by metis
qed

section \<open>A message is a list of changes to a map\<close>

text \<open>What a book stands for: the quantity offered at each price, per side.\<close>

definition abs_book :: "book_state \<Rightarrow> (dbl \<rightharpoonup> dbl) \<times> (dbl \<rightharpoonup> dbl)" where
  "abs_book st = (map_of (bs_bids st), map_of (bs_asks st))"

definition abs_delta :: "depth_update \<Rightarrow> (dbl \<rightharpoonup> dbl) \<times> (dbl \<rightharpoonup> dbl) \<Rightarrow> (dbl \<rightharpoonup> dbl) \<times> (dbl \<rightharpoonup> dbl)" where
  "abs_delta u book = (let v = (if du_quantity u \<le> 0 then None else Some (du_quantity u)) in
     if du_is_bid u then ((fst book)(du_price u := v), snd book) else (fst book, (snd book)(du_price u := v)))"

lemma depth_change_refines:
  assumes "book_ok st" "du_price u \<noteq> NaN"
  shows "book_ok (depth_change u st)" "abs_book (depth_change u st) = abs_delta u (abs_book st)" "bs_initialized (depth_change u st) = bs_initialized st"
  using assms
  by (simp_all add: depth_change_def abs_book_def abs_delta_def book_ok_def apply_bid_def apply_ask_def Let_def
      bids.put_or_erase_ok asks.put_or_erase_ok bids.map_of_put_or_erase asks.map_of_put_or_erase)

lemma end_run_books [simp]: "fd_books (fst (end_run acc)) = fd_books (fst acc)"
  by (simp add: end_run_def split: prod.split option.split)

lemma touch_book_books:
  assumes "fd_books (fst acc) s = Some st" "bs_initialized st"
  shows "fd_books (fst (touch_book t c acc)) s = Some (if t = s then c st else st)"
proof -
  obtain f r u where acc: "acc = (f, r, u)" by (cases acc) auto
  have "fd_books (fst (end_run (g, r, u))) = fd_books g" for g by simp
  then show ?thesis
    using assms by (auto simp: acc touch_book_def Let_def case_prod_unfold split: option.split)
qed

lemma updates_refine:
  assumes "\<forall>u \<in> set us. du_price u \<noteq> NaN" "fd_books (fst acc) s = Some st" "bs_initialized st" "book_ok st"
  shows "\<exists>st'. fd_books (fst (fold (\<lambda>u. touch_book (du_symbol u) (depth_change u)) us acc)) s = Some st' \<and> bs_initialized st' \<and>
    abs_book st' = fold abs_delta (filter (\<lambda>u. du_symbol u = s) us) (abs_book st)"
  using assms
proof (induction us arbitrary: acc st)
  case (Cons u us)
  let ?st = "if du_symbol u = s then depth_change u st else st"
  have "fd_books (fst (touch_book (du_symbol u) (depth_change u) acc)) s = Some ?st"
    using Cons.prems by (intro touch_book_books)
  from Cons.IH [OF _ this] show ?case using Cons.prems by (auto simp: depth_change_refines)
qed auto

text \<open>C21. The local book refines a map from prices to quantities: a depth message changes it by exactly the
  updates that name its symbol, in their order, where a quantity that is not positive removes a price.\<close>

theorem depth_book_refines:
  assumes "feed_reach j f" "sv_contains message ''orderbookdepth''" "parse_orderbookdepth_fast message = Some us"
    and "\<forall>u \<in> set us. du_price u \<noteq> NaN" and st: "fd_books f s = Some st" "bs_initialized st"
  shows "\<exists>st'. fd_books (on_ws_message j now message f) s = Some st' \<and>
    abs_book st' = fold abs_delta (filter (\<lambda>u. du_symbol u = s) us) (abs_book st)"
proof -
  have "book_ok st" using feed_reach_invar [OF assms(1)] st by (auto simp: feed_invar_def books_ok_def)
  then obtain st' where "fd_books (fst (fold (\<lambda>u. touch_book (du_symbol u) (depth_change u)) us (f, None, []))) s = Some st'"
    "abs_book st' = fold abs_delta (filter (\<lambda>u. du_symbol u = s) us) (abs_book st)"
    using updates_refine [of us "(f, None, [])" s st] assms(4) st by auto
  then show ?thesis
    using assms(2,3) by (simp add: on_ws_message_def parse_orderbookdepth_message_def apply_updates_def case_prod_unfold)
qed

section \<open>The fast parser reads what the exchange writes\<close>

definition item_text :: "string \<times> string \<times> string \<times> string \<times> string \<Rightarrow> string" where
  "item_text item = (case item of (symbol, order_type, price, quantity, extra) \<Rightarrow>
     ''{\"symbol\":\"'' @ symbol @ ''\",\"orderType\":\"'' @ order_type @ ''\",\"price\":\"'' @ price @
     ''\",\"quantity\":\"'' @ quantity @ [CHR 0x22] @ extra @ ''}'')"

definition item_ok :: "string \<times> string \<times> string \<times> string \<times> string \<Rightarrow> bool" where
  "item_ok item = (case item of (symbol, order_type, price, quantity, extra) \<Rightarrow>
     CHR 0x22 \<notin> set symbol \<union> set order_type \<union> set price \<union> set quantity \<and>
     CHR ''}'' \<notin> set symbol \<union> set order_type \<union> set price \<union> set quantity \<union> set extra)"

definition item_update :: "string \<times> string \<times> string \<times> string \<times> string \<Rightarrow> depth_update" where
  "item_update item = (case item of (symbol, order_type, price, quantity, extra) \<Rightarrow>
     \<lparr>du_symbol = from_bithumb_format symbol, du_is_bid = (order_type = ''bid''), du_price = fast_stod price 0, du_quantity = fast_stod quantity 0\<rparr>)"

definition depth_text :: "(string \<times> string \<times> string \<times> string \<times> string) list \<Rightarrow> string \<Rightarrow> string" where
  "depth_text items rest = ''{\"type\":\"orderbookdepth\",\"content\":{\"list\":['' @ join_with '','' (map item_text items) @ rest"

lemma find_after_value:
  assumes "marker = CHR 0x22 # a # m" "a \<noteq> CHR '',''"
  shows "find_sub marker (CHR 0x22 # CHR '','' # marker @ r) = Some 2"
  using assms find_sub_here [of marker r] by (simp add: find_sub_skip starts_with_Cons)

lemma drop_after: "drop n xs = ys @ zs \<Longrightarrow> k = n + length ys \<Longrightarrow> drop k xs = zs"
  by (metis add.commute append_eq_conv_conj drop_drop)

lemma extract_next:
  assumes "n \<le> length item" "drop n item = CHR 0x22 # CHR '','' # marker @ v @ CHR 0x22 # r"
    and "marker = CHR 0x22 # a # m" "a \<noteq> CHR '',''" "CHR 0x22 \<notin> set v"
  shows "\<exists>e. extract_quoted_value item marker n = Some (v, e) \<and> e \<le> length item \<and> drop e item = CHR 0x22 # r"
proof -
  have d: "drop (n + 2 + length marker) item = v @ CHR 0x22 # r" "drop (n + 2 + length marker + length v) item = CHR 0x22 # r"
    using drop_after [of n item "[CHR 0x22, CHR '',''] @ marker" "v @ CHR 0x22 # r"]
      drop_after [of n item "[CHR 0x22, CHR '',''] @ marker @ v" "CHR 0x22 # r"] assms(2) by (simp_all add: add.assoc)
  have "n + 2 + length marker + length v \<le> length item"
    using d(2) by (metis drop_eq_Nil list.distinct(1) nat_le_linear)
  then show ?thesis
    using extract_at [of n item marker 2 v r] assms find_after_value [OF assms(3,4)] d by simp
qed

lemma depth_item_text:
  assumes "item_ok item"
  shows "depth_item (item_text item) = Some (Some (item_update item))"
proof -
  obtain s t p q x where item: "item = (s, t, p, q, x)" by (cases item) auto
  have nq: "CHR 0x22 \<notin> set s" "CHR 0x22 \<notin> set t" "CHR 0x22 \<notin> set p" "CHR 0x22 \<notin> set q" using assms by (auto simp: item item_ok_def)
  let ?i = "item_text item"
  let ?S = "CHR 0x22 # CHR '','' # ''\"orderType\":\"'' @ t @ CHR 0x22 # CHR '','' # ''\"price\":\"'' @ p @
     CHR 0x22 # CHR '','' # ''\"quantity\":\"'' @ q @ CHR 0x22 # x @ ''}''"
  have text0: "?i = ''{'' @ ''\"symbol\":\"'' @ s @ ?S" by (simp add: item item_text_def)
  have "find_sub ''\"symbol\":\"'' ?i = Some 1"
    unfolding text0 using find_sub_here [of "''\"symbol\":\"''" "s @ ?S"] by (simp add: find_sub_skip starts_with_Cons)
  then have 1: "extract_quoted_value ?i ''\"symbol\":\"'' 0 = Some (s, 11 + length s)"
    using extract_at [of 0 ?i "''\"symbol\":\"''" 1 s "tl ?S"] nq(1) by (simp add: text0)
  have "drop (11 + length s) ?i = ?S"
    by (rule drop_after [of 0 _ "''{\"symbol\":\"'' @ s"]) (simp_all add: text0)
  from extract_next [OF _ this refl _ nq(2)] obtain e where
    2: "extract_quoted_value ?i ''\"orderType\":\"'' (11 + length s) = Some (t, e)" "e \<le> length ?i"
      "drop e ?i = CHR 0x22 # CHR '','' # ''\"price\":\"'' @ p @ CHR 0x22 # CHR '','' # ''\"quantity\":\"'' @ q @ CHR 0x22 # x @ ''}''"
    by (auto simp: text0)
  from extract_next [OF 2(2,3) refl _ nq(3)] obtain e' where
    3: "extract_quoted_value ?i ''\"price\":\"'' e = Some (p, e')" "e' \<le> length ?i"
      "drop e' ?i = CHR 0x22 # CHR '','' # ''\"quantity\":\"'' @ q @ CHR 0x22 # x @ ''}''" by auto
  from extract_next [OF 3(2,3) refl _ nq(4)] obtain e'' where
    4: "extract_quoted_value ?i ''\"quantity\":\"'' e' = Some (q, e'')" by auto
  have "item_update item = \<lparr>du_symbol = from_bithumb_format s, du_is_bid = (t = ''bid''), du_price = fast_stod p 0, du_quantity = fast_stod q 0\<rparr>"
    by (simp add: item item_update_def)
  then show ?thesis by (simp add: depth_item_def 1 2(1) 3(1) 4)
qed

lemma item_text_end:
  assumes "item_ok item"
  shows "find_sub ''{'' (item_text item @ rest) = Some 0" "find_sub ''}'' (item_text item @ rest) = Some (length (item_text item) - 1)"
proof -
  obtain s t p q x where item: "item = (s, t, p, q, x)" by (cases item) auto
  define body where "body = ''{\"symbol\":\"'' @ s @ ''\",\"orderType\":\"'' @ t @ ''\",\"price\":\"'' @ p @ ''\",\"quantity\":\"'' @ q @ [CHR 0x22] @ x"
  have i: "item_text item = body @ ''}''" by (simp add: item item_text_def body_def)
  have "CHR ''}'' \<notin> set body" using assms by (auto simp: item item_ok_def body_def)
  then show "find_sub ''}'' (item_text item @ rest) = Some (length (item_text item) - 1)"
    using find_char [of "CHR ''}''" body rest] by (simp add: i)
  show "find_sub ''{'' (item_text item @ rest) = Some 0" by (simp add: i body_def find_sub.simps starts_with_def)
qed

lemma depth_loop_items:
  assumes "list_all item_ok items" "CHR ''{'' \<notin> set rest"
  shows "depth_loop (join_with '','' (map item_text items) @ rest) us = Some (us @ map item_update items)"
  using assms(1)
proof (induction items arbitrary: us)
  case Nil
  then show ?case using find_char_absent [OF assms(2)] by (simp add: depth_loop.simps [of rest])
next
  case (Cons item items)
  define tail where "tail = (if items = [] then rest else '','' @ join_with '','' (map item_text items) @ rest)"
  have all: "join_with '','' (map item_text (item # items)) @ rest = item_text item @ tail"
    by (cases items) (simp_all add: tail_def)
  have ok: "item_ok item" using Cons.prems by simp
  have len: "0 < length (item_text item)" by (simp add: item_text_def case_prod_unfold)
  have "depth_loop (item_text item @ tail) us = depth_loop tail (us @ [item_update item])"
    using item_text_end [OF ok, of tail] depth_item_text [OF ok] len by (subst depth_loop.simps) (simp add: Let_def)
  also have "\<dots> = Some ((us @ [item_update item]) @ map item_update items)"
  proof (cases "items = []")
    case True
    then show ?thesis using find_char_absent [OF assms(2)] by (simp add: tail_def depth_loop.simps [of rest])
  next
    case False
    then obtain i its where "items = i # its" by (cases items) auto
    have comma: "depth_loop (CHR '','' # xs) vs = depth_loop xs vs" for xs vs
      by (subst (1 2) depth_loop.simps) (simp add: find_sub_skip starts_with_Cons split: option.split)
    show ?thesis using Cons False by (simp add: tail_def comma)
  qed
  finally show ?case using all by simp
qed

text \<open>C34. The fast parser of depth messages reads what the exchange writes: the updates of a message of the
  documented form, in their order, whatever other text each object carries after its quantity.\<close>

theorem fast_depth_roundtrip:
  assumes "list_all item_ok items" "items \<noteq> []" "CHR ''{'' \<notin> set rest"
  shows "parse_orderbookdepth_fast (depth_text items rest) = Some (map item_update items)"
proof -
  let ?body = "join_with '','' (map item_text items) @ rest"
  have t: "depth_text items rest = ''{\"type\":\"orderbookdepth\",\"content\":{'' @ ''\"list\":['' @ ?body" by (simp add: depth_text_def)
  have "find_sub ''\"type\":\"orderbookdepth\"'' (depth_text items rest) = Some 1"
    using find_sub_here [of "''\"type\":\"orderbookdepth\"''" "'',\"content\":{\"list\":['' @ ?body"]
    by (simp add: depth_text_def find_sub_skip starts_with_Cons)
  moreover have "find_sub ''\"list\":['' (depth_text items rest) = Some 36"
    using find_sub_here [of "''\"list\":[''" ?body] by (simp add: t find_sub_skip starts_with_Cons)
  ultimately show ?thesis
    using depth_loop_items [OF assms(1,3), of "[]"] assms(2)
    by (simp add: parse_orderbookdepth_fast_def sv_contains_def sv_find_def depth_text_def)
qed

end
