(* ===== verification/BithumbRun.thy ===== *)
theory BithumbRun
  imports BithumbBook SampleJson
begin

text \<open>
  The Bithumb feed at a concrete run: it connects, subscribes one symbol, loads a snapshot and then gets
  a depth message that removes the best bid and lowers the best ask.
\<close>

definition xrp :: symbol_id where
  "xrp = SymbolId ''XRP'' ''KRW''"

definition text_level :: "string \<Rightarrow> string \<Rightarrow> sample_json" where
  "text_level price qty = JObj [(''price'', JText price), (''quantity'', JText qty)]"

definition feed_documents :: "(string \<times> sample_json) list" where
  "feed_documents = [(''/public/orderbook/ALL_KRW?count=5'', JObj [(''status'', JText ''0000''),
     (''data'', JObj [(''timestamp'', JText ''0''),
       (''XRP'', JObj [(''bids'', JList [text_level ''1400'' ''10'', text_level ''1399'' ''30'']),
          (''asks'', JList [text_level ''1403'' ''5'', text_level ''1402'' ''7''])])])])]"

definition demo_items :: "(string \<times> string \<times> string \<times> string \<times> string) list" where
  "demo_items = [(''XRP_KRW'', ''bid'', ''1400'', ''0'', []), (''XRP_KRW'', ''ask'', ''1401'', ''2'', '',\"total\":\"1\"'')]"

definition demo_depth :: string where
  "demo_depth = depth_text demo_items '']}}''"

definition demo_feed :: feed where
  "demo_feed = feed_step (sample_api feed_documents) (Snapshots 5 [xrp] 5 (sample_fetch feed_documents))
     (feed_step (sample_api feed_documents) (SubscribeOrderbook [xrp]) (feed_step (sample_api feed_documents) Connected feed_init))"

theorem fast_depth_roundtrip_witness:
  "parse_orderbookdepth_fast demo_depth = Some (map item_update demo_items)"
  unfolding demo_depth_def by (rule fast_depth_roundtrip) (simp_all add: demo_items_def item_ok_def)

lemma demo_updates: "parse_orderbookdepth_fast demo_depth = Some
    [\<lparr>du_symbol = xrp, du_is_bid = True, du_price = Fin 1400, du_quantity = Fin 0\<rparr>,
     \<lparr>du_symbol = xrp, du_is_bid = False, du_price = Fin 1401, du_quantity = Fin 2\<rparr>]"
  by code_simp

lemma demo_contains: "sv_contains demo_depth ''orderbookdepth''"
  by code_simp

lemma demo_snapshot_reads: "\<not> snapshot_throws (sample_api feed_documents) [xrp] (sample_fetch feed_documents (snapshot_path 5)) f"
proof -
  have "ja_object (sample_api feed_documents) (ja_field (sample_api feed_documents) (ja_iterate (sample_api feed_documents)
      (hr_body (sample_fetch feed_documents (snapshot_path 5)))) ''data'') = Some [(''timestamp'', JText ''0''),
       (''XRP'', JObj [(''bids'', JList [text_level ''1400'' ''10'', text_level ''1399'' ''30'']),
          (''asks'', JList [text_level ''1403'' ''5'', text_level ''1402'' ''7''])])]" by code_simp
  moreover have "snapshot_side (sample_api feed_documents) bid_order (JList [text_level ''1400'' ''10'', text_level ''1399'' ''30''])
      = ([(Fin 1400, Fin 10), (Fin 1399, Fin 30)], False)"
    "snapshot_side (sample_api feed_documents) ask_order (JList [text_level ''1403'' ''5'', text_level ''1402'' ''7''])
      = ([(Fin 1402, Fin 7), (Fin 1403, Fin 5)], False)" by code_simp+
  ultimately show ?thesis
    by (simp add: snapshot_throws_def snapshot_field_def xrp_def sample_api_def sample_field_def Let_def)
qed

lemma demo_feed_reach: "feed_reach (sample_api feed_documents) demo_feed"
  unfolding demo_feed_def
  by (intro feed_reach.intros) (simp_all add: demo_snapshot_reads)

lemma demo_feed_state:
  "fd_books demo_feed xrp = Some \<lparr>bs_bids = [(Fin 1400, Fin 10), (Fin 1399, Fin 30)], bs_asks = [(Fin 1402, Fin 7), (Fin 1403, Fin 5)], bs_initialized = True\<rparr>"
  "fd_bbo demo_feed xrp = Some \<lparr>bb_bid = Fin 1400, bb_ask = Fin 1402, bb_bid_qty = Fin 10, bb_ask_qty = Fin 7, bb_last = 0\<rparr>"
  "length (fd_dispatched demo_feed) = 1"
  by code_simp+

lemma demo_clean: "clean_event (sample_api feed_documents) (Message 7 demo_depth) demo_feed"
  by (simp add: demo_updates depth_numeric_def depth_throws_def)

lemma demo_after: "length (fd_dispatched (on_ws_message (sample_api feed_documents) 7 demo_depth demo_feed)) = 2"
  by code_simp


theorem depth_tickers_exact_witness:
  "\<exists>t st. t = fd_dispatched (on_ws_message (sample_api feed_documents) 7 demo_depth demo_feed) ! 1 \<and>
     fd_books (on_ws_message (sample_api feed_documents) 7 demo_depth demo_feed) (tk_symbol t) = Some st \<and>
     (tk_bid t, tk_bid_qty t) \<in> set (bs_bids st) \<and> 0 < tk_bid t \<and> 0 < tk_ask t"
proof -
  let ?g = "on_ws_message (sample_api feed_documents) 7 demo_depth demo_feed"
  have "fd_dispatched ?g ! 1 \<in> set (drop (length (fd_dispatched demo_feed)) (fd_dispatched ?g))"
    using demo_after by (simp add: demo_feed_state(3) in_set_conv_nth)
  from depth_tickers_exact [OF demo_feed_reach demo_contains demo_clean refl this] show ?thesis by blast
qed

theorem depth_book_refines_witness:
  "\<exists>st'. fd_books (on_ws_message (sample_api feed_documents) 7 demo_depth demo_feed) xrp = Some st' \<and>
     fst (abs_book st') (Fin 1400) = None \<and> snd (abs_book st') (Fin 1401) = Some (Fin 2)"
proof -
  have "\<not> Fin 2 \<le> 0" "Fin 0 \<le> 0" by (simp_all add: zero_dbl_def)
  then show ?thesis
    using depth_book_refines [OF demo_feed_reach demo_contains demo_updates _ demo_feed_state(1), of 7]
    by (auto simp: abs_delta_def)
qed

end
