(* ===== verification/RestClient.thy ===== *)
theory RestClient
  imports Json Crypto Decimal
begin

text \<open>
  The REST client of the exchange adapters (\<^verbatim>\<open>src/exchange/rest_client.cpp\<close>) over a connection pool that
  is a parameter, and what the adapters draw from OpenSSL and the clocks. \<open>'w\<close> is the state of the
  outside world; every request that was written to a stream is recorded in \<open>ln_written\<close>, whatever
  became of it. \<open>os_private\<close> gives the messages of the private socket that are handled while a
  thread waits for one, \<open>os_trade\<close> what happens on the trading socket meanwhile.
\<close>

section \<open>The outside\<close>

datatype http_verb = GET | POST | DELETE

record http_request =
  rq_method :: http_verb
  rq_target :: string
  rq_body :: string
  rq_headers :: "(string \<times> string) list"

text \<open>
  One attempt: no pooled connection within 200 ms, a connection without a stream, an answer, or an
  exception of the write or the read; the flag tells whether it is a lost connection. The
  request is on the stream in the last two cases.
\<close>

datatype attempt =
    NoConnection
  | NoStream
  | Answered int string "(string \<times> string) list"
  | Lost bool string

datatype socket_event = Incoming string | Dropped

record 'w outside =
  os_attempt :: "http_request \<Rightarrow> 'w \<Rightarrow> attempt \<times> 'w"
  os_timestamp_ms :: "'w \<Rightarrow> int"
  os_system_now :: "'w \<Rightarrow> systime"
  os_steady_now :: "'w \<Rightarrow> u64"
  os_random :: "nat \<Rightarrow> 'w \<Rightarrow> u8 list option \<times> 'w"
  os_hmac_sha256 :: "string \<Rightarrow> string \<Rightarrow> u8 list"
  os_hmac_sha512 :: "string \<Rightarrow> string \<Rightarrow> u8 list"
  os_sha512 :: "string \<Rightarrow> u8 list"
  os_hash :: "string \<Rightarrow> u64"
  os_stack :: "nat \<Rightarrow> string"
  os_private :: "'w \<Rightarrow> string list \<times> 'w"
  os_trade :: "'w \<Rightarrow> socket_event list \<times> 'w"

record 'w line =
  ln_world :: 'w
  ln_written :: "http_request list"

section \<open>Text buffers\<close>

text \<open>
  \<^verbatim>\<open>std::string(buf, len)\<close> after \<^verbatim>\<open>snprintf(buf, size, \<dots>)\<close>: a text that does not fit is cut, and the string
  goes on with what is on the stack behind the buffer.
\<close>

definition snprintf_string :: "'w outside \<Rightarrow> nat \<Rightarrow> string \<Rightarrow> string" where
  "snprintf_string os n s =
    (if length s < n then s else take (n - 1) s @ [CHR 0x00] @ os_stack os (length s - n))"

text \<open>The guarded form: no string when the text does not fit.\<close>

definition snprintf_checked :: "nat \<Rightarrow> string \<Rightarrow> string option" where
  "snprintf_checked n s = (if s = [] \<or> n \<le> length s then None else Some s)"

section \<open>Requests\<close>

definition MAX_RETRIES :: nat where "MAX_RETRIES = 3"

definition response_default :: http_response where
  "response_default = \<lparr>hr_status_code = 0, hr_body = [], hr_headers = [], hr_success = False, hr_error = []\<rparr>"

definition set_field :: "string \<Rightarrow> string \<Rightarrow> (string \<times> string) list \<Rightarrow> (string \<times> string) list" where
  "set_field k v fs = filter (\<lambda>(k', _). map tolower k' \<noteq> map tolower k) fs @ [(k, v)]"

definition header_put :: "string \<Rightarrow> string \<Rightarrow> (string \<times> string) list \<Rightarrow> (string \<times> string) list" where
  "header_put k v hs = filter (\<lambda>(k', _). k' \<noteq> k) hs @ [(k, v)]"

text \<open>The request as it is written; the library adds the length of the body.\<close>

definition wire_request :: "string \<Rightarrow> http_verb \<Rightarrow> string \<Rightarrow> string \<Rightarrow> (string \<times> string) list \<Rightarrow> http_request" where
  "wire_request host verb target body headers =
    (let fs = [(''Host'', host), (''User-Agent'', ''KIMP-Bot/1.0''), (''Connection'', ''keep-alive'')];
         fs = fold (\<lambda>(k, v). set_field k v) headers fs;
         fs = (if body \<noteq> [] \<and> map_of headers ''Content-Type'' = None then set_field ''Content-Type'' ''application/json'' fs else fs)
     in \<lparr>rq_method = verb, rq_target = target, rq_body = body, rq_headers = fs\<rparr>)"

definition answer :: "int \<Rightarrow> string \<Rightarrow> (string \<times> string) list \<Rightarrow> http_response" where
  "answer status body fs =
    \<lparr>hr_status_code = status, hr_body = body, hr_headers = fold (\<lambda>(k, v). header_put k v) fs [],
     hr_success = (status = 200 \<or> status = 201), hr_error = []\<rparr>"

text \<open>
  \<open>n\<close> attempts are left after this one. After a lost connection the loop continues at once; after
  any other exception it logs and goes round as well.
\<close>

fun attempts :: "'w outside \<Rightarrow> http_request \<Rightarrow> nat \<Rightarrow> 'w line \<Rightarrow> http_response \<times> 'w line" where
  "attempts os rq n l =
    (case os_attempt os rq (ln_world l) of (a, w) \<Rightarrow>
       (case a of
          NoConnection \<Rightarrow>
            (case n of 0 \<Rightarrow> (response_default\<lparr>hr_error := ''Failed to acquire connection from pool''\<rparr>, l\<lparr>ln_world := w\<rparr>)
             | Suc n \<Rightarrow> attempts os rq n (l\<lparr>ln_world := w\<rparr>))
        | NoStream \<Rightarrow>
            (case n of 0 \<Rightarrow> (response_default\<lparr>hr_error := ''Invalid stream in pooled connection''\<rparr>, l\<lparr>ln_world := w\<rparr>)
             | Suc n \<Rightarrow> attempts os rq n (l\<lparr>ln_world := w\<rparr>))
        | Answered status body fs \<Rightarrow> (answer status body fs, \<lparr>ln_world = w, ln_written = ln_written l @ [rq]\<rparr>)
        | Lost retriable e \<Rightarrow>
            let l = \<lparr>ln_world = w, ln_written = ln_written l @ [rq]\<rparr> in
            (case n of 0 \<Rightarrow> (response_default\<lparr>hr_error := e\<rparr>, l)
             | Suc n \<Rightarrow> if retriable then attempts os rq n l else attempts os rq n l)))"

declare attempts.simps [simp del]

definition do_request :: "'w outside \<Rightarrow> string \<Rightarrow> http_verb \<Rightarrow> string \<Rightarrow> string \<Rightarrow> (string \<times> string) list \<Rightarrow> 'w line \<Rightarrow> http_response \<times> 'w line" where
  "do_request os host verb target body headers l = attempts os (wire_request host verb target body headers) (MAX_RETRIES - 1) l"

definition rest_get :: "'w outside \<Rightarrow> string \<Rightarrow> string \<Rightarrow> (string \<times> string) list \<Rightarrow> 'w line \<Rightarrow> http_response \<times> 'w line" where
  "rest_get os host target headers l = do_request os host GET target [] headers l"

definition rest_post :: "'w outside \<Rightarrow> string \<Rightarrow> string \<Rightarrow> string \<Rightarrow> (string \<times> string) list \<Rightarrow> 'w line \<Rightarrow> http_response \<times> 'w line" where
  "rest_post os host target body headers l = do_request os host POST target body headers l"

definition rest_del :: "'w outside \<Rightarrow> string \<Rightarrow> string \<Rightarrow> (string \<times> string) list \<Rightarrow> 'w line \<Rightarrow> http_response \<times> 'w line" where
  "rest_del os host target headers l = do_request os host DELETE target [] headers l"

section \<open>What a request puts on the wire\<close>

lemma wire_request_simps [simp]:
  "rq_method (wire_request host verb target body headers) = verb" "rq_target (wire_request host verb target body headers) = target"
  "rq_body (wire_request host verb target body headers) = body"
  by (simp_all add: wire_request_def Let_def)

text \<open>What the outside did with the attempts of a request, one after the other.\<close>

fun outcomes :: "'w outside \<Rightarrow> http_request \<Rightarrow> nat \<Rightarrow> 'w \<Rightarrow> attempt list" where
  "outcomes os rq n w =
    (case os_attempt os rq w of (a, w) \<Rightarrow>
       a # (case (a, n) of (Answered _ _ _, _) \<Rightarrow> [] | (_, 0) \<Rightarrow> [] | (_, Suc n) \<Rightarrow> outcomes os rq n w))"

declare outcomes.simps [simp del]

fun on_wire :: "attempt \<Rightarrow> bool" where
  "on_wire (Answered _ _ _) = True"
| "on_wire (Lost _ _) = True"
| "on_wire _ = False"

fun answered :: "attempt \<Rightarrow> bool" where
  "answered (Answered _ _ _) = True"
| "answered _ = False"

lemma outcomes_shape:
  "outcomes os rq n w \<noteq> [] \<and> length (outcomes os rq n w) \<le> n + 1 \<and> (\<forall>a \<in> set (butlast (outcomes os rq n w)). \<not> answered a)"
proof (induction n arbitrary: w)
  case 0
  show ?case by (subst (1 2 3) outcomes.simps) (auto simp: case_prod_unfold split: attempt.split)
next
  case (Suc n)
  then show ?case
    by (subst (1 2 3) outcomes.simps) (auto simp: case_prod_unfold split: attempt.split)
qed

lemma attempts_written:
  "ln_written (snd (attempts os rq n l)) = ln_written l @ replicate (length (filter on_wire (outcomes os rq n (ln_world l)))) rq"
proof (induction n arbitrary: l)
  case 0
  show ?case by (subst attempts.simps, subst outcomes.simps) (simp add: case_prod_unfold split: attempt.split)
next
  case (Suc n)
  then show ?case
    by (subst attempts.simps, subst outcomes.simps) (simp add: case_prod_unfold split: attempt.split)
qed

lemma attempts_success:
  "hr_success (fst (attempts os rq n l)) \<longleftrightarrow>
    (\<exists>status body fs. last (outcomes os rq n (ln_world l)) = Answered status body fs \<and> (status = 200 \<or> status = 201))"
proof (induction n arbitrary: l)
  case 0
  show ?case
    by (subst attempts.simps, subst outcomes.simps) (simp add: case_prod_unfold answer_def response_default_def split: attempt.split)
next
  case (Suc n)
  have "outcomes os rq n w \<noteq> []" for w using outcomes_shape [of os rq n w] by (rule conjunct1)
  with Suc show ?case
    by (subst attempts.simps, subst outcomes.simps) (simp add: case_prod_unfold answer_def response_default_def split: attempt.split)
qed

text \<open>C24. A request is written to the wire at most three times and always as the same request: once for
  the attempt that was answered, if there was one, and once for every attempt before it whose
  connection broke. It succeeds exactly when the last attempt was answered with 200 or 201.\<close>

theorem request_copies_bounded:
  "\<exists>k. ln_written (snd (do_request os host verb target body headers l)) =
        ln_written l @ replicate k (wire_request host verb target body headers) \<and>
     k \<le> 3 \<and> k = length (filter on_wire (outcomes os (wire_request host verb target body headers) 2 (ln_world l))) \<and>
     (hr_success (fst (do_request os host verb target body headers l)) = (\<exists>status body' fs.
        last (outcomes os (wire_request host verb target body headers) 2 (ln_world l)) = Answered status body' fs \<and> (status = 200 \<or> status = 201)))"
proof -
  let ?rq = "wire_request host verb target body headers"
  have "length (filter on_wire (outcomes os ?rq 2 (ln_world l))) \<le> 3"
    using outcomes_shape [of os ?rq 2 "ln_world l"] length_filter_le [of on_wire "outcomes os ?rq 2 (ln_world l)"] by linarith
  then show ?thesis by (simp add: do_request_def MAX_RETRIES_def attempts_written attempts_success)
qed

text \<open>
  The loop does not distinguish reads from orders, and not a connection that broke before the write
  from one that broke after it: an order whose answers are lost is sent three times.
\<close>

lemma lost_answers_resend:
  assumes "\<And>w. fst (os_attempt os (wire_request host POST target body headers) w) = Lost r e"
  shows "ln_written (snd (rest_post os host target body headers l)) =
      ln_written l @ replicate 3 (wire_request host POST target body headers)"
proof -
  have o: "outcomes os (wire_request host POST target body headers) n w = replicate (n + 1) (Lost r e)" for n w
  proof (induction n arbitrary: w)
    case 0
    show ?case using assms [of w] by (subst outcomes.simps) (simp add: case_prod_unfold)
  next
    case (Suc n)
    then show ?case using assms [of w] by (subst outcomes.simps) (simp add: case_prod_unfold)
  qed
  then show ?thesis
    by (simp add: rest_post_def do_request_def MAX_RETRIES_def attempts_written o)
qed

end
