(* ===== verification/Account.thy ===== *)
theory Account
  imports RestClient Selection TextSearch "HOL-Library.List_Lexorder" "HOL-Library.Char_ord"
begin

text \<open>
  What the trading sides of the exchange adapters share: the part of \<^verbatim>\<open>ExchangeBase\<close> they use
  (\<^verbatim>\<open>include/kimp/exchange/exchange_base.hpp\<close>), balances, and the cache of fills that the private
  sockets report. The interface \<open>fill_stream\<close> says what a handler of private messages owes to
  the fill queries.
\<close>

section \<open>State\<close>

record account_balance =
  ab_currency :: string
  ab_total :: dbl
  ab_available :: dbl
  ab_locked :: dbl
  ab_liability :: dbl

definition balance_default :: account_balance where
  "balance_default = \<lparr>ab_currency = [], ab_total = 0, ab_available = 0, ab_locked = 0, ab_liability = 0\<rparr>"

record fill_info =
  fi_avg_price :: dbl
  fi_filled_qty :: dbl

type_synonym fills = "string \<rightharpoonup> fill_info"

record 'w account =
  ac_credentials :: exchange_credentials
  ac_line :: "'w line"
  ac_next_order_id :: u64
  ac_fills :: fills
  ac_private_ready :: bool
  ac_private_sent :: "string list"

abbreviation world_of :: "('w, 'z) account_scheme \<Rightarrow> 'w" where
  "world_of a \<equiv> ln_world (ac_line a)"

definition generate_order_id :: "('w, 'z) account_scheme \<Rightarrow> u64 \<times> ('w, 'z) account_scheme" where
  "generate_order_id a = (ac_next_order_id a, a\<lparr>ac_next_order_id := ac_next_order_id a + 1\<rparr>)"

definition http_get :: "'w outside \<Rightarrow> string \<Rightarrow> (string \<times> string) list \<Rightarrow> ('w, 'z) account_scheme \<Rightarrow> http_response \<times> ('w, 'z) account_scheme" where
  "http_get os target headers a =
    (case rest_get os (extract_host (xc_rest_endpoint (ac_credentials a))) target headers (ac_line a) of (r, l) \<Rightarrow> (r, a\<lparr>ac_line := l\<rparr>))"

definition http_post ::
    "'w outside \<Rightarrow> string \<Rightarrow> string \<Rightarrow> (string \<times> string) list \<Rightarrow> ('w, 'z) account_scheme \<Rightarrow> http_response \<times> ('w, 'z) account_scheme" where
  "http_post os target body headers a =
    (case rest_post os (extract_host (xc_rest_endpoint (ac_credentials a))) target body headers (ac_line a) of (r, l) \<Rightarrow> (r, a\<lparr>ac_line := l\<rparr>))"

text \<open>A version 4 UUID from the source of randomness.\<close>

definition fresh_uuid :: "'w outside \<Rightarrow> ('w, 'z) account_scheme \<Rightarrow> string \<times> ('w, 'z) account_scheme" where
  "fresh_uuid os a = (case os_random os 16 (world_of a) of (r, w) \<Rightarrow> (generate_uuid r, a\<lparr>ac_line := (ac_line a)\<lparr>ln_world := w\<rparr>\<rparr>))"

definition hmac_sha256 :: "'w outside \<Rightarrow> string \<Rightarrow> string \<Rightarrow> string" where
  "hmac_sha256 os key data = to_hex (os_hmac_sha256 os key data)"

definition hmac_sha512 :: "'w outside \<Rightarrow> string \<Rightarrow> string \<Rightarrow> string" where
  "hmac_sha512 os key data = to_hex (os_hmac_sha512 os key data)"

definition sha512 :: "'w outside \<Rightarrow> string \<Rightarrow> string" where
  "sha512 os data = to_hex (os_sha512 os data)"

definition text_bytes :: "string \<Rightarrow> u8 list" where
  "text_bytes s = map of_char s"

section \<open>Optional fields\<close>

text \<open>A number in a text field that may be missing; one that is no text throws.\<close>

definition text_number :: "'j json_api \<Rightarrow> 'j \<Rightarrow> dbl option option" where
  "text_number j value =
    (if \<not> ja_ok j value then Some None else case ja_string j value of None \<Rightarrow> None | Some s \<Rightarrow> Some (Some (fast_stod s 0)))"

text \<open>A text field that may be missing; one that is no text throws.\<close>

definition optional_text :: "'j json_api \<Rightarrow> 'j \<Rightarrow> string option option" where
  "optional_text j value = (if \<not> ja_ok j value then Some None else map_option Some (ja_string j value))"

section \<open>Balances\<close>

definition BALANCE_DUST :: dbl where "BALANCE_DUST = lit (1 / 10 ^ 12)"

definition is_dust :: "dbl \<Rightarrow> bool" where
  "is_dust x \<longleftrightarrow> fabs x \<le> BALANCE_DUST"

definition by_currency :: "account_balance list \<Rightarrow> account_balance list" where
  "by_currency bs = sort_by (\<lambda>a b. ab_currency a < ab_currency b) bs"

section \<open>The fill cache\<close>

definition apply_fill :: "fill_info \<Rightarrow> order \<Rightarrow> order" where
  "apply_fill fi o' = o'\<lparr>ord_average_price := fi_avg_price fi, ord_filled_quantity := fi_filled_qty fi\<rparr>"

text \<open>A fill is taken out of the cache when it is used.\<close>

definition take_fill :: "string \<Rightarrow> order \<Rightarrow> ('w, 'z) account_scheme \<Rightarrow> (order \<times> ('w, 'z) account_scheme) option" where
  "take_fill order_id o' a =
    (case ac_fills a order_id of None \<Rightarrow> None
     | Some fi \<Rightarrow> Some (apply_fill fi o', a\<lparr>ac_fills := (ac_fills a)(order_id := None)\<rparr>))"

text \<open>The wait on the condition variable: the messages that come in are handled.\<close>

definition wait_private ::
    "'w outside \<Rightarrow> (string \<Rightarrow> ('w, 'z) account_scheme \<Rightarrow> ('w, 'z) account_scheme) \<Rightarrow> ('w, 'z) account_scheme \<Rightarrow> ('w, 'z) account_scheme" where
  "wait_private os handle a =
    (case os_private os (world_of a) of (messages, w) \<Rightarrow> fold handle messages (a\<lparr>ac_line := (ac_line a)\<lparr>ln_world := w\<rparr>\<rparr>))"

section \<open>What a stream of fills promises\<close>

text \<open>The quantity is not zero or negative and the price is not negative; a text may spell NaN.\<close>

definition fill_ok :: "fill_info \<Rightarrow> bool" where
  "fill_ok fi \<longleftrightarrow> \<not> fi_filled_qty fi \<le> 0 \<and> \<not> fi_avg_price fi < 0"

definition fills_ok :: "fills \<Rightarrow> bool" where
  "fills_ok m \<longleftrightarrow> (\<forall>i fi. m i = Some fi \<longrightarrow> fill_ok fi)"

definition order_filled :: "order \<Rightarrow> bool" where
  "order_filled o' \<longleftrightarrow> \<not> ord_filled_quantity o' \<le> 0 \<and> \<not> ord_average_price o' < 0"

text \<open>The orders that differ from a given one in what was filled and at which price, and in nothing else.\<close>

definition same_order :: "order \<Rightarrow> order \<Rightarrow> bool" where
  "same_order o1 o2 \<longleftrightarrow> o2 = o1\<lparr>ord_average_price := ord_average_price o2, ord_filled_quantity := ord_filled_quantity o2\<rparr>"

lemma same_order_refl [simp]: "same_order o' o'"
  by (simp add: same_order_def)

lemma same_order_update [simp]:
  "same_order o1 (o1\<lparr>ord_average_price := p, ord_filled_quantity := q\<rparr>)" "same_order o1 (o1\<lparr>ord_average_price := p\<rparr>)"
  "same_order o1 (o1\<lparr>ord_filled_quantity := q\<rparr>)" "same_order o1 (o1\<lparr>ord_filled_quantity := q, ord_average_price := p\<rparr>)"
  by (simp_all add: same_order_def)

lemma same_order_trans: "same_order o1 o2 \<Longrightarrow> same_order o2 o3 \<Longrightarrow> same_order o1 o3"
  unfolding same_order_def by (cases o1; cases o2; cases o3) simp

lemma same_order_apply_fill [simp]: "same_order o' (apply_fill fi o')"
  by (simp add: apply_fill_def)

lemma fills_ok_empty [simp]: "fills_ok Map.empty"
  by (simp add: fills_ok_def)

lemma fills_ok_put: "fills_ok m \<Longrightarrow> fill_ok fi \<Longrightarrow> fills_ok (m(i \<mapsto> fi))"
  by (simp add: fills_ok_def)

lemma fills_ok_erase: "fills_ok m \<Longrightarrow> fills_ok (m(i := None))"
  by (simp add: fills_ok_def)

lemma take_fill_ok:
  assumes "fills_ok (ac_fills a)" "take_fill i o' a = Some (o2, a2)"
  shows "order_filled o2 \<and> same_order o' o2 \<and> fills_ok (ac_fills a2) \<and> ac_fills a2 i = None \<and> ac_line a2 = ac_line a"
  using assms by (auto simp: take_fill_def apply_fill_def order_filled_def fills_ok_def fill_ok_def split: option.splits if_splits)

locale fill_stream =
  fixes handle :: "string \<Rightarrow> ('w, 'z) account_scheme \<Rightarrow> ('w, 'z) account_scheme"
  assumes handle_fills: "fills_ok (ac_fills a) \<Longrightarrow> fills_ok (ac_fills (handle m a))"
    and handle_line: "ac_line (handle m a) = ac_line a"
begin

lemma fold_handle: "fills_ok (ac_fills a) \<Longrightarrow> fills_ok (ac_fills (fold handle ms a))"
  by (induction ms arbitrary: a) (simp_all add: handle_fills)

lemma fold_handle_line: "ac_line (fold handle ms a) = ac_line a"
  by (induction ms arbitrary: a) (simp_all add: handle_line)

lemma wait_fills: "fills_ok (ac_fills a) \<Longrightarrow> fills_ok (ac_fills (wait_private os handle a))"
  by (simp add: wait_private_def case_prod_unfold fold_handle)

lemma wait_written: "ln_written (ac_line (wait_private os handle a)) = ln_written (ac_line a)"
  by (simp add: wait_private_def case_prod_unfold fold_handle_line)

lemma waited_fill:
  assumes "fills_ok (ac_fills a)" "take_fill i o' (wait_private os handle a) = Some (o2, a2)"
  shows "order_filled o2 \<and> same_order o' o2 \<and> fills_ok (ac_fills a2) \<and> ac_fills a2 i = None \<and> ln_written (ac_line a2) = ln_written (ac_line a)"
  using take_fill_ok [OF wait_fills [OF assms(1)] assms(2)] wait_written [of os a] by simp

end

section \<open>Requests of an account\<close>

text \<open>What a call leaves alone besides the wire.\<close>

lemma http_simps [simp]:
  "ac_fills (snd (http_get os t h a)) = ac_fills a" "ac_fills (snd (http_post os t b h a)) = ac_fills a"
  "ac_fills (snd (fresh_uuid os a)) = ac_fills a" "ln_written (ac_line (snd (fresh_uuid os a))) = ln_written (ac_line a)"
  "ac_credentials (snd (http_get os t h a)) = ac_credentials a" "ac_credentials (snd (http_post os t b h a)) = ac_credentials a"
  "ac_credentials (snd (fresh_uuid os a)) = ac_credentials a"
  by (simp_all add: http_get_def http_post_def fresh_uuid_def case_prod_unfold)

lemma attempts_copies: "\<exists>k \<le> n + 1. ln_written (snd (attempts os rq n l)) = ln_written l @ replicate k rq"
  using attempts_written [of os rq n l] outcomes_shape [of os rq n "ln_world l"]
    length_filter_le [of on_wire "outcomes os rq n (ln_world l)"] by (meson le_trans)

text \<open>The answer to a successful request was on the wire.\<close>

lemma answered_on_wire:
  assumes "hr_success (fst (attempts os rq n l))"
  shows "0 < length (filter on_wire (outcomes os rq n (ln_world l)))"
proof -
  obtain s b f where l: "last (outcomes os rq n (ln_world l)) = Answered s b f" using assms by (auto simp: attempts_success)
  then have "Answered s b f \<in> set (filter on_wire (outcomes os rq n (ln_world l)))"
    using outcomes_shape [of os rq n "ln_world l"] last_in_set [of "outcomes os rq n (ln_world l)"] by simp
  then show ?thesis by (metis length_pos_if_in_set)
qed

abbreviation account_request :: "('w, 'z) account_scheme \<Rightarrow> http_verb \<Rightarrow> string \<Rightarrow> string \<Rightarrow> (string \<times> string) list \<Rightarrow> http_request" where
  "account_request a verb target body headers \<equiv> wire_request (extract_host (xc_rest_endpoint (ac_credentials a))) verb target body headers"

lemma http_post_copies:
  "\<exists>k \<le> 3. ln_written (ac_line (snd (http_post os t b h a))) = ln_written (ac_line a) @ replicate k (account_request a POST t b h)"
  using attempts_copies [of 2] by (simp add: http_post_def rest_post_def do_request_def case_prod_unfold MAX_RETRIES_def)

lemma http_get_copies:
  "\<exists>k \<le> 3. ln_written (ac_line (snd (http_get os t h a))) = ln_written (ac_line a) @ replicate k (account_request a GET t [] h)"
  using attempts_copies [of 2] by (simp add: http_get_def rest_get_def do_request_def case_prod_unfold MAX_RETRIES_def)

lemma http_post_counted:
  "\<exists>k \<le> 3. ln_written (ac_line (snd (http_post os t b h a))) = ln_written (ac_line a) @ replicate k (account_request a POST t b h) \<and>
     (hr_success (fst (http_post os t b h a)) \<longrightarrow> 0 < k)"
proof -
  let ?rq = "account_request a POST t b h"
  have p: "http_post os t b h a = (fst (attempts os ?rq 2 (ac_line a)), a\<lparr>ac_line := snd (attempts os ?rq 2 (ac_line a))\<rparr>)"
    by (simp add: http_post_def rest_post_def do_request_def case_prod_unfold MAX_RETRIES_def)
  have "length (filter on_wire (outcomes os ?rq 2 (world_of a))) \<le> 3"
    using outcomes_shape [of os ?rq 2 "world_of a"] length_filter_le [of on_wire "outcomes os ?rq 2 (world_of a)"] by linarith
  then show ?thesis
    using answered_on_wire [of os ?rq 2 "ac_line a"]
    by (intro exI [of _ "length (filter on_wire (outcomes os ?rq 2 (world_of a)))"]) (simp add: p attempts_written)
qed

end
