(* ===== verification/BithumbOrders.thy ===== *)
theory BithumbOrders
  imports Account
begin

text \<open>
  The trading side of the Bithumb adapter (\<^verbatim>\<open>src/exchange/bithumb.cpp\<close>): signed requests, market orders,
  balances, the private stream of fills with its cache, fill queries, withdrawal fees and asset
  states. The state is an \<open>account\<close>; the JSON library and the outside are parameters.
\<close>

section \<open>Signatures\<close>

definition base64url_encode :: "u8 list \<Rightarrow> string" where
  "base64url_encode raw =
    (let encoded = map (\<lambda>ch. if ch = CHR ''+'' then CHR ''-'' else if ch = CHR ''/'' then CHR ''_'' else ch) (base64_encode raw)
     in rev (dropWhile (\<lambda>c. c = CHR ''='') (rev encoded)))"

definition sign_bithumb_v1_jwt :: "'w outside \<Rightarrow> string \<Rightarrow> string \<Rightarrow> string" where
  "sign_bithumb_v1_jwt os secret_key payload_json =
    (let header_b64 = base64url_encode (text_bytes ''{\"alg\":\"HS256\",\"typ\":\"JWT\"}'');
         payload_b64 = base64url_encode (text_bytes payload_json);
         signing_input = header_b64 @ ''.'' @ payload_b64
     in signing_input @ ''.'' @ base64url_encode (os_hmac_sha256 os secret_key signing_input))"

definition bithumb_generate_signature :: "'w outside \<Rightarrow> string \<Rightarrow> string \<Rightarrow> int \<Rightarrow> ('w, 'z) account_scheme \<Rightarrow> string" where
  "bithumb_generate_signature os endpoint params timestamp a =
    hmac_sha512 os (xc_secret_key (ac_credentials a))
      (endpoint @ [CHR 0x00] @ params @ [CHR 0x00] @ int_text timestamp)"

definition bithumb_build_auth_headers :: "'w outside \<Rightarrow> string \<Rightarrow> string \<Rightarrow> ('w, 'z) account_scheme \<Rightarrow> (string \<times> string) list" where
  "bithumb_build_auth_headers os endpoint params a =
    (let timestamp = os_timestamp_ms os (world_of a);
         signature = bithumb_generate_signature os endpoint params timestamp a
     in [(''Api-Key'', xc_api_key (ac_credentials a)), (''Api-Sign'', base64_encode (text_bytes signature)),
         (''Api-Nonce'', int_text timestamp)])"

definition generate_v1_jwt_token :: "'w outside \<Rightarrow> ('w, 'z) account_scheme \<Rightarrow> string \<times> ('w, 'z) account_scheme" where
  "generate_v1_jwt_token os a =
    (case fresh_uuid os a of (nonce, a) \<Rightarrow>
       let payload = ''{\"access_key\":\"'' @ xc_api_key (ac_credentials a) @ ''\",\"nonce\":\"'' @ nonce @
             ''\",\"timestamp\":'' @ int_text (os_timestamp_ms os (world_of a)) @ ''}''
       in (sign_bithumb_v1_jwt os (xc_secret_key (ac_credentials a)) (snprintf_string os 512 payload), a))"

definition generate_v1_jwt_token_with_query :: "'w outside \<Rightarrow> string \<Rightarrow> ('w, 'z) account_scheme \<Rightarrow> string \<times> ('w, 'z) account_scheme" where
  "generate_v1_jwt_token_with_query os query_string a =
    (case fresh_uuid os a of (nonce, a) \<Rightarrow>
       let payload = ''{\"access_key\":\"'' @ xc_api_key (ac_credentials a) @ ''\",\"nonce\":\"'' @ nonce @
             ''\",\"timestamp\":'' @ int_text (os_timestamp_ms os (world_of a)) @
             '',\"query_hash\":\"'' @ sha512 os query_string @ ''\",\"query_hash_alg\":\"SHA512\"}''
       in (sign_bithumb_v1_jwt os (xc_secret_key (ac_credentials a)) (snprintf_string os 768 payload), a))"

definition bearer :: "string \<Rightarrow> (string \<times> string) list" where
  "bearer token = [(''Authorization'', ''Bearer '' @ token), (''accept'', ''application/json'')]"

text \<open>\<open>None\<close> is the overload without a query.\<close>

definition build_v1_auth_headers :: "'w outside \<Rightarrow> string option \<Rightarrow> ('w, 'z) account_scheme \<Rightarrow> (string \<times> string) list \<times> ('w, 'z) account_scheme" where
  "build_v1_auth_headers os query a =
    (case query of
       None \<Rightarrow> (case generate_v1_jwt_token os a of (token, a) \<Rightarrow> (bearer token, a))
     | Some query_string \<Rightarrow> (case generate_v1_jwt_token_with_query os query_string a of (token, a) \<Rightarrow> (bearer token, a)))"

section \<open>Market orders\<close>

definition KRW_MIN_ORDER :: dbl where "KRW_MIN_ORDER = lit 5000"

definition bithumb_market :: "symbol_id \<Rightarrow> string" where
  "bithumb_market symbol = get_quote symbol @ ''-'' @ get_base symbol"

text \<open>The texts go through a buffer of 64 characters.\<close>

definition volume_text :: "dbl \<Rightarrow> string" where
  "volume_text quantity = strip_point (strip_zeros (take 63 (format_fixed 8 quantity)))"

definition cost_text :: "dbl \<Rightarrow> string" where
  "cost_text quantity = take 63 (format_fixed 0 quantity)"

text \<open>The query that is signed and the body that is sent.\<close>

definition bithumb_order_texts :: "symbol_id \<Rightarrow> side \<Rightarrow> dbl \<Rightarrow> string \<times> string" where
  "bithumb_order_texts symbol side quantity =
    (let market = bithumb_market symbol in
     if side = Sell
     then let vol_str = volume_text quantity in
       (''market='' @ market @ ''&side=ask&ord_type=market&volume='' @ vol_str,
        ''{\"market\":\"'' @ market @ ''\",\"side\":\"ask\",\"ord_type\":\"market\",\"volume\":\"'' @ vol_str @ ''\"}'')
     else let price_str = cost_text quantity in
       (''market='' @ market @ ''&side=bid&ord_type=price&price='' @ price_str,
        ''{\"market\":\"'' @ market @ ''\",\"side\":\"bid\",\"ord_type\":\"price\",\"price\":\"'' @ price_str @ ''\"}''))"

text \<open>The order identifier stays when the state cannot be read.\<close>

definition bithumb_order_answer :: "'j json_api \<Rightarrow> string \<Rightarrow> order \<Rightarrow> order" where
  "bithumb_order_answer j body o' =
    (let doc = ja_iterate j body; uuid = ja_field j doc ''uuid''; state = ja_field j doc ''state'' in
     if ja_ok j uuid \<and> ja_string j uuid = None then o'\<lparr>ord_status := Rejected\<rparr>
     else let o' = (case ja_string j uuid of Some u \<Rightarrow> if ja_ok j uuid then o'\<lparr>ord_id_str := u\<rparr> else o' | None \<Rightarrow> o') in
       if \<not> ja_ok j state then o'\<lparr>ord_status := Filled\<rparr>
       else case ja_string j state of None \<Rightarrow> o'\<lparr>ord_status := Rejected\<rparr>
        | Some s \<Rightarrow> o'\<lparr>ord_status := (if s = ''wait'' \<or> s = ''watch'' \<or> s = ''done'' then Filled
            else if s = ''cancel'' then Cancelled else Rejected)\<rparr>)"

definition bithumb_place_market_order ::
    "'j json_api \<Rightarrow> 'w outside \<Rightarrow> symbol_id \<Rightarrow> side \<Rightarrow> dbl \<Rightarrow> ('w, 'z) account_scheme \<Rightarrow> order \<times> ('w, 'z) account_scheme" where
  "bithumb_place_market_order j os symbol side quantity a =
    (case generate_order_id a of (client_id, a) \<Rightarrow>
     let o' = order_default\<lparr>ord_exchange := Bithumb, ord_symbol := symbol, ord_side := side, ord_type := Market, ord_quantity := quantity,
           ord_client_order_id := client_id, ord_create_time := os_system_now os (world_of a)\<rparr>;
         (query_string, json_body) = bithumb_order_texts symbol side quantity in
     case build_v1_auth_headers os (Some query_string) a of (headers, a) \<Rightarrow>
     (case http_post os ''/v1/orders'' json_body (header_put ''Content-Type'' ''application/json; charset=utf-8'' headers) a of (response, a) \<Rightarrow>
        if \<not> hr_success response then (o'\<lparr>ord_status := Rejected\<rparr>, a)
        else (bithumb_order_answer j (hr_body response) o', a)))"

definition bithumb_place_market_buy_cost ::
    "'j json_api \<Rightarrow> 'w outside \<Rightarrow> symbol_id \<Rightarrow> dbl \<Rightarrow> ('w, 'z) account_scheme \<Rightarrow> order \<times> ('w, 'z) account_scheme" where
  "bithumb_place_market_buy_cost j os symbol cost a =
    (if cost < KRW_MIN_ORDER then (order_default\<lparr>ord_status := Rejected\<rparr>, a)
     else bithumb_place_market_order j os symbol Buy cost a)"

definition bithumb_cancel_order :: "u64 \<Rightarrow> bool" where
  "bithumb_cancel_order order_id = False"

section \<open>Balances\<close>

definition to_upper_copy :: "string \<Rightarrow> string" where
  "to_upper_copy value = map toupper value"

text \<open>A reader that is handed the error of a missing field throws.\<close>

definition parse_dom_double :: "'j json_api \<Rightarrow> 'j \<Rightarrow> dbl option" where
  "parse_dom_double j elem =
    (if \<not> ja_ok j elem then None
     else Some (case ja_double j elem of Some x \<Rightarrow> x
       | None \<Rightarrow> (case ja_int64 j elem of Some n \<Rightarrow> lit (of_int n)
       | None \<Rightarrow> (case ja_uint64 j elem of Some n \<Rightarrow> lit (of_int n)
       | None \<Rightarrow> (case ja_string j elem of Some s \<Rightarrow> fast_stod s 0 | None \<Rightarrow> 0)))))"

definition parse_dom_string :: "'j json_api \<Rightarrow> 'j \<Rightarrow> string option" where
  "parse_dom_string j elem = (if \<not> ja_ok j elem then None else Some (case ja_string j elem of Some s \<Rightarrow> s | None \<Rightarrow> []))"

definition bithumb_balance :: "'j json_api \<Rightarrow> 'j \<Rightarrow> account_balance list \<Rightarrow> account_balance list option" where
  "bithumb_balance j item balances =
    (case (parse_dom_string j (ja_field j item ''currency''), parse_dom_double j (ja_field j item ''balance''),
           parse_dom_double j (ja_field j item ''locked'')) of
       (Some currency, Some available, Some locked) \<Rightarrow>
         let balance = balance_default\<lparr>ab_currency := to_upper_copy currency, ab_available := available, ab_locked := locked,
               ab_total := available + locked\<rparr> in
         if ab_currency balance = [] then Some balances
         else if is_dust (ab_total balance) \<and> is_dust (ab_available balance) \<and> is_dust (ab_locked balance) then Some balances
         else Some (balances @ [balance])
     | _ \<Rightarrow> None)"

definition bithumb_get_all_balances ::
    "'j json_api \<Rightarrow> 'w outside \<Rightarrow> ('w, 'z) account_scheme \<Rightarrow> account_balance list \<times> ('w, 'z) account_scheme" where
  "bithumb_get_all_balances j os a =
    (case build_v1_auth_headers os None a of (headers, a) \<Rightarrow>
     (case http_get os ''/v1/accounts'' headers a of (response, a) \<Rightarrow>
        if \<not> hr_success response then ([], a)
        else case ja_array j (ja_iterate j (hr_body response)) of None \<Rightarrow> ([], a)
         | Some items \<Rightarrow>
            (case fold_throwing (bithumb_balance j) items [] of None \<Rightarrow> ([], a)
             | Some balances \<Rightarrow> (by_currency balances, a))))"

definition bithumb_get_balance ::
    "'j json_api \<Rightarrow> 'w outside \<Rightarrow> string \<Rightarrow> ('w, 'z) account_scheme \<Rightarrow> dbl \<times> ('w, 'z) account_scheme" where
  "bithumb_get_balance j os currency a =
    (case bithumb_get_all_balances j os a of (balances, a) \<Rightarrow>
       ((case find (\<lambda>b. ab_currency b = to_upper_copy currency) balances of None \<Rightarrow> 0 | Some b \<Rightarrow> ab_available b), a))"

section \<open>The private stream\<close>

definition resolve_private_ws_endpoint :: "('w, 'z) account_scheme \<Rightarrow> string" where
  "resolve_private_ws_endpoint a =
    (if xc_ws_private_endpoint (ac_credentials a) \<noteq> [] then xc_ws_private_endpoint (ac_credentials a)
     else ''wss://ws-api.bithumb.com/websocket/v1/private'')"

text \<open>The private socket exists when there are credentials.\<close>

definition has_private_ws :: "('w, 'z) account_scheme \<Rightarrow> bool" where
  "has_private_ws a \<longleftrightarrow> resolve_private_ws_endpoint a \<noteq> [] \<and> xc_api_key (ac_credentials a) \<noteq> [] \<and> xc_secret_key (ac_credentials a) \<noteq> []"

definition subscribe_private_myorder :: "('w, 'z) account_scheme \<Rightarrow> ('w, 'z) account_scheme" where
  "subscribe_private_myorder a = a\<lparr>ac_private_sent := ac_private_sent a @
     [''[{\"ticket\":\"kimp-bithumb-private\"},{\"type\":\"myOrder\",\"codes\":[]},{\"format\":\"SIMPLE\"}]'']\<rparr>"

definition private_connected :: "('w, 'z) account_scheme \<Rightarrow> ('w, 'z) account_scheme" where
  "private_connected a = (if has_private_ws a then subscribe_private_myorder (a\<lparr>ac_private_ready := True\<rparr>) else a)"

definition private_disconnected :: "('w, 'z) account_scheme \<Rightarrow> ('w, 'z) account_scheme" where
  "private_disconnected a = a\<lparr>ac_private_ready := False\<rparr>"

definition bithumb_disconnect :: "('w, 'z) account_scheme \<Rightarrow> ('w, 'z) account_scheme" where
  "bithumb_disconnect a = (if has_private_ws a then private_disconnected a else a)\<lparr>ac_fills := Map.empty\<rparr>"

definition parse_number :: "'j json_api \<Rightarrow> 'j \<Rightarrow> dbl" where
  "parse_number j value =
    (case ja_string j value of Some s \<Rightarrow> fast_stod s 0
     | None \<Rightarrow> (case ja_double j value of Some x \<Rightarrow> x | None \<Rightarrow> 0))"

record my_order =
  mo_type :: string
  mo_id :: string
  mo_state :: string
  mo_volume :: dbl
  mo_funds :: dbl

definition my_order_field :: "'j json_api \<Rightarrow> string \<times> 'j \<Rightarrow> my_order \<Rightarrow> my_order" where
  "my_order_field j field m =
    (case field of (key, value) \<Rightarrow>
       if key = ''ty'' \<or> key = ''type'' then (case ja_string j value of Some s \<Rightarrow> m\<lparr>mo_type := s\<rparr> | None \<Rightarrow> m)
       else if key = ''uid'' \<or> key = ''uuid'' then (case ja_string j value of Some s \<Rightarrow> m\<lparr>mo_id := s\<rparr> | None \<Rightarrow> m)
       else if key = ''s'' \<or> key = ''state'' then (case ja_string j value of Some s \<Rightarrow> m\<lparr>mo_state := s\<rparr> | None \<Rightarrow> m)
       else if key = ''ev'' \<or> key = ''executed_volume'' then m\<lparr>mo_volume := parse_number j value\<rparr>
       else if key = ''ef'' \<or> key = ''executed_funds'' then m\<lparr>mo_funds := parse_number j value\<rparr>
       else m)"

definition bithumb_on_private_ws_message :: "'j json_api \<Rightarrow> string \<Rightarrow> ('w, 'z) account_scheme \<Rightarrow> ('w, 'z) account_scheme" where
  "bithumb_on_private_ws_message j message a =
    (if \<not> sv_contains message ''myOrder'' then a
     else case ja_object j (ja_iterate j message) of None \<Rightarrow> a
      | Some members \<Rightarrow>
         let m = fold (my_order_field j) members \<lparr>mo_type = [], mo_id = [], mo_state = [], mo_volume = 0, mo_funds = 0\<rparr> in
         if mo_type m \<noteq> ''myOrder'' then a
         else if mo_id m = [] \<or> mo_state m = [] then a
         else if mo_volume m \<le> 0 \<or> mo_funds m \<le> 0 then a
         else if mo_state m \<noteq> ''trade'' \<and> mo_state m \<noteq> ''done'' \<and> mo_state m \<noteq> ''cancel'' then a
         else a\<lparr>ac_fills := (ac_fills a)(mo_id m \<mapsto> \<lparr>fi_avg_price = mo_funds m / mo_volume m, fi_filled_qty = mo_volume m\<rparr>)\<rparr>)"

section \<open>Fill queries\<close>

definition query_order_detail_ws ::
    "'j json_api \<Rightarrow> 'w outside \<Rightarrow> string \<Rightarrow> order \<Rightarrow> ('w, 'z) account_scheme \<Rightarrow> bool \<times> order \<times> ('w, 'z) account_scheme" where
  "query_order_detail_ws j os order_id o' a =
    (case take_fill order_id o' a of Some (o', a) \<Rightarrow> (True, o', a)
     | None \<Rightarrow>
        if \<not> ac_private_ready a then (False, o', a)
        else let a = wait_private os (bithumb_on_private_ws_message j) a in
          case take_fill order_id o' a of Some (o', a) \<Rightarrow> (True, o', a) | None \<Rightarrow> (False, o', a))"

definition add_trade :: "'j json_api \<Rightarrow> 'j \<Rightarrow> dbl \<times> dbl \<Rightarrow> (dbl \<times> dbl) option" where
  "add_trade j trade acc =
    (case text_number j (ja_field j trade ''volume'') of None \<Rightarrow> None
     | Some v \<Rightarrow> let volume = (case v of Some x \<Rightarrow> x | None \<Rightarrow> 0) in
     case (case text_number j (ja_field j trade ''funds'') of None \<Rightarrow> None
           | Some (Some x) \<Rightarrow> Some x
           | Some None \<Rightarrow> (case text_number j (ja_field j trade ''price'') of None \<Rightarrow> None
               | Some (Some p) \<Rightarrow> Some (p * volume) | Some None \<Rightarrow> Some 0)) of None \<Rightarrow> None
     | Some funds \<Rightarrow> if 0 < volume \<and> 0 < funds then Some (fst acc + volume, snd acc + funds) else Some acc)"

text \<open>The sums of units and funds of the trades.\<close>

definition trade_totals :: "'j json_api \<Rightarrow> 'j \<Rightarrow> (dbl \<times> dbl) option" where
  "trade_totals j trades =
    (if \<not> ja_ok j trades then Some (0, 0)
     else case ja_array j trades of None \<Rightarrow> None | Some ts \<Rightarrow> fold_throwing (add_trade j) ts (0, 0))"

definition v1_fill :: "'j json_api \<Rightarrow> string \<Rightarrow> order \<Rightarrow> order option" where
  "v1_fill j body o' =
    (let doc = ja_iterate j body in
     case text_number j (ja_field j doc ''executed_volume'') of None \<Rightarrow> None
     | Some v \<Rightarrow> let executed_volume = (case v of Some x \<Rightarrow> x | None \<Rightarrow> 0) in
       if executed_volume \<le> 0 then None
       else case trade_totals j (ja_field j doc ''trades'') of None \<Rightarrow> None
        | Some (total_units, total_funds) \<Rightarrow>
           Some (o'\<lparr>ord_filled_quantity := (if 0 < total_units then total_units else executed_volume),
             ord_average_price := (if 0 < total_units \<and> 0 < total_funds then total_funds / total_units else 0)\<rparr>))"

definition query_order_detail_v1 ::
    "'j json_api \<Rightarrow> 'w outside \<Rightarrow> string \<Rightarrow> order \<Rightarrow> ('w, 'z) account_scheme \<Rightarrow> bool \<times> order \<times> ('w, 'z) account_scheme" where
  "query_order_detail_v1 j os order_id o' a =
    (let query = ''uuid='' @ url_encode order_id in
     case build_v1_auth_headers os (Some query) a of (headers, a) \<Rightarrow>
     (case http_get os (''/v1/order?'' @ query) headers a of (response, a) \<Rightarrow>
        if \<not> hr_success response then (False, o', a)
        else case v1_fill j (hr_body response) o' of None \<Rightarrow> (False, o', a) | Some o' \<Rightarrow> (True, o', a)))"

definition v1_fast_delays_ms :: "nat list" where
  "v1_fast_delays_ms = [0, 15, 25, 40, 60, 90, 140]"

fun v1_attempts ::
    "'j json_api \<Rightarrow> 'w outside \<Rightarrow> string \<Rightarrow> nat list \<Rightarrow> order \<Rightarrow> ('w, 'z) account_scheme \<Rightarrow> bool \<times> order \<times> ('w, 'z) account_scheme" where
  "v1_attempts j os order_id [] o' a = (False, o', a)"
| "v1_attempts j os order_id (d # ds) o' a =
    (case query_order_detail_v1 j os order_id o' a of (True, o', a) \<Rightarrow> (True, o', a)
     | (False, o', a) \<Rightarrow> v1_attempts j os order_id ds o' a)"

definition query_order_detail ::
    "'j json_api \<Rightarrow> 'w outside \<Rightarrow> string \<Rightarrow> order \<Rightarrow> ('w, 'z) account_scheme \<Rightarrow> bool \<times> order \<times> ('w, 'z) account_scheme" where
  "query_order_detail j os order_id o' a =
    (case query_order_detail_ws j os order_id o' a of (True, o', a) \<Rightarrow> (True, o', a)
     | (False, o', a) \<Rightarrow> v1_attempts j os order_id v1_fast_delays_ms o' a)"

section \<open>Withdrawal fees and asset states\<close>

record coin_network_fee =
  cn_network :: string
  cn_fee :: dbl

text \<open>A network whose fee is no number is left out; a network without a name gets the coin's.\<close>

definition coin_fee :: "'j json_api \<Rightarrow> string \<Rightarrow> 'j \<Rightarrow> coin_network_fee list" where
  "coin_fee j currency net =
    (let net_name = scan_normalize_chain (case ja_string j (ja_field j net ''net_type'') of Some n \<Rightarrow> n | None \<Rightarrow> currency) in
     case ja_string j (ja_field j net ''withdraw_fee_quantity'') of None \<Rightarrow> []
     | Some sv \<Rightarrow> (case from_chars sv of None \<Rightarrow> [] | Some fee \<Rightarrow> [\<lparr>cn_network = net_name, cn_fee = fee\<rparr>]))"

definition coin_fees :: "'j json_api \<Rightarrow> 'j \<Rightarrow> (string \<rightharpoonup> coin_network_fee list) \<Rightarrow> (string \<rightharpoonup> coin_network_fee list)" where
  "coin_fees j item fees =
    (case ja_string j (ja_field j item ''currency'') of None \<Rightarrow> fees
     | Some currency \<Rightarrow>
        let cs = (case ja_array j (ja_field j item ''networks'') of None \<Rightarrow> [] | Some nets \<Rightarrow> concat (map (coin_fee j currency) nets))
        in if cs = [] then fees else fees(currency \<mapsto> cs))"

definition fetch_withdrawal_fees ::
    "'j json_api \<Rightarrow> 'w outside \<Rightarrow> ('w, 'z) account_scheme \<Rightarrow> (string \<rightharpoonup> coin_network_fee list) \<times> ('w, 'z) account_scheme" where
  "fetch_withdrawal_fees j os a =
    (case http_get os ''/v2/fee/inout/ALL'' [] a of (response, a) \<Rightarrow>
       if \<not> hr_success response then (Map.empty, a)
       else case ja_array j (ja_iterate j (hr_body response)) of None \<Rightarrow> (Map.empty, a)
        | Some items \<Rightarrow> (fold (coin_fees j) items Map.empty, a))"

record bithumb_asset =
  ba_deposit_enabled :: bool
  ba_withdraw_enabled :: bool

text \<open>The reader of flags; the error of a missing field throws.\<close>

definition parse_boolish :: "'j json_api \<Rightarrow> 'j \<Rightarrow> bool option option" where
  "parse_boolish j value =
    (if \<not> ja_ok j value then None
     else Some (case ja_bool j value of Some b \<Rightarrow> Some b
       | None \<Rightarrow> (case ja_int64 j value of Some n \<Rightarrow> Some (n \<noteq> 0)
       | None \<Rightarrow> (case ja_uint64 j value of Some n \<Rightarrow> Some (n \<noteq> 0)
       | None \<Rightarrow> (case ja_string j value of
            Some s \<Rightarrow> let raw = map tolower s in
              if raw = ''1'' \<or> raw = ''true'' \<or> raw = ''y'' \<or> raw = ''yes'' then Some True
              else if raw = ''0'' \<or> raw = ''false'' \<or> raw = ''n'' \<or> raw = ''no'' then Some False
              else None
          | None \<Rightarrow> None)))))"

definition asset_member :: "'j json_api \<Rightarrow> string \<times> 'j \<Rightarrow> (string \<times> bithumb_asset) list \<Rightarrow> (string \<times> bithumb_asset) list \<times> bool" where
  "asset_member j field statuses =
    (case field of (currency, value) \<Rightarrow>
       if ja_object j value = None then (statuses, False)
       else case (parse_boolish j (ja_field j value ''deposit_status''), parse_boolish j (ja_field j value ''withdrawal_status'')) of
         (Some d, Some w) \<Rightarrow> (emplace currency \<lparr>ba_deposit_enabled = (d = Some True), ba_withdraw_enabled = (w = Some True)\<rparr> statuses, False)
       | _ \<Rightarrow> (statuses, True))"

definition fetch_asset_statuses ::
    "'j json_api \<Rightarrow> 'w outside \<Rightarrow> ('w, 'z) account_scheme \<Rightarrow> (string \<times> bithumb_asset) list \<times> ('w, 'z) account_scheme" where
  "fetch_asset_statuses j os a =
    (case http_get os ''/public/assetsstatus/ALL'' [] a of (response, a) \<Rightarrow>
       if \<not> hr_success response then ([], a)
       else let doc = ja_iterate j (hr_body response) in
         if ja_string j (ja_field j doc ''status'') \<noteq> Some ''0000'' then ([], a)
         else case ja_object j (ja_field j doc ''data'') of None \<Rightarrow> ([], a)
          | Some members \<Rightarrow> (fst (fold_catching (asset_member j) members []), a))"

section \<open>Fills are sound\<close>

lemma ddiv_not_neg:
  assumes "\<not> x \<le> 0" "\<not> y \<le> 0"
  shows "\<not> x / y < (0 :: dbl)"
proof (cases "x / y = NaN")
  case False
  then have "x \<noteq> NaN" "y \<noteq> NaN" by auto
  then have "0 < x" "0 < y" using assms by (simp_all add: dbl_pos_iff)
  then have "0 \<le> x / y" using False by (intro ddiv_nn dbl_lt_le)
  then show ?thesis using dbl_lt_not_le by blast
qed simp

lemma bithumb_message_fills:
  "fills_ok (ac_fills a) \<Longrightarrow> fills_ok (ac_fills (bithumb_on_private_ws_message j m a))"
  "ac_line (bithumb_on_private_ws_message j m a) = ac_line a"
  by (auto simp: bithumb_on_private_ws_message_def Let_def ddiv_not_neg fill_ok_def intro!: fills_ok_put split: option.split)

interpretation bithumb_fills: fill_stream "bithumb_on_private_ws_message j"
  by unfold_locales (rule bithumb_message_fills, assumption, rule bithumb_message_fills)

lemma headers_simps [simp]:
  "ac_fills (snd (build_v1_auth_headers os q a)) = ac_fills a"
  "ln_written (ac_line (snd (build_v1_auth_headers os q a))) = ln_written (ac_line a)"
  "ac_credentials (snd (build_v1_auth_headers os q a)) = ac_credentials a"
  by (simp_all add: build_v1_auth_headers_def generate_v1_jwt_token_def generate_v1_jwt_token_with_query_def Let_def case_prod_unfold split: option.split)

lemma v1_fill_ok: "v1_fill j body o' = Some o2 \<Longrightarrow> order_filled o2 \<and> same_order o' o2"
  by (auto simp: v1_fill_def Let_def order_filled_def ddiv_not_neg dbl_lt_not_le split: option.splits if_splits)

lemma query_v1_ok:
  assumes "query_order_detail_v1 j os i o' a = (ok, o2, a2)"
  shows "ac_fills a2 = ac_fills a \<and> (if ok then order_filled o2 \<and> same_order o' o2 else o2 = o')"
  using assms by (auto simp: query_order_detail_v1_def case_prod_unfold Let_def dest: v1_fill_ok split: if_splits option.splits)

lemma v1_attempts_ok:
  "v1_attempts j os i ds o' a = (ok, o2, a2) \<Longrightarrow> ac_fills a2 = ac_fills a \<and> (if ok then order_filled o2 \<and> same_order o' o2 else o2 = o')"
proof (induction ds arbitrary: a)
  case (Cons d ds)
  obtain k o3 a3 where q: "query_order_detail_v1 j os i o' a = (k, o3, a3)" by (metis prod_cases3)
  show ?case
    using query_v1_ok [OF q] Cons q by (cases k) auto
qed simp

lemma query_ws_ok:
  assumes "fills_ok (ac_fills a)" "query_order_detail_ws j os i o' a = (ok, o2, a2)"
  shows "fills_ok (ac_fills a2) \<and> (if ok then order_filled o2 \<and> same_order o' o2 \<and> ac_fills a2 i = None else o2 = o')"
  using assms bithumb_fills.wait_fills [OF assms(1)]
  by (auto simp: query_order_detail_ws_def Let_def dest: take_fill_ok [OF assms(1)] bithumb_fills.waited_fill [OF assms(1)] split: option.splits if_splits)

text \<open>A Bithumb fill query that reports success has filled in a quantity that is not zero or negative and a
  price that is not negative, and changed nothing else of the order; a fill of the private
  stream is used once. A query that fails leaves the order as it was.\<close>

lemma bithumb_fill_query_sound:
  assumes "fills_ok (ac_fills a)" "query_order_detail j os order_id o' a = (ok, o2, a2)"
  shows "fills_ok (ac_fills a2) \<and> (if ok then order_filled o2 \<and> same_order o' o2 else o2 = o')"
proof -
  obtain k o3 a3 where q: "query_order_detail_ws j os order_id o' a = (k, o3, a3)" by (metis prod_cases3)
  show ?thesis
    using query_ws_ok [OF assms(1) q] assms(2) q by (cases k) (auto simp: query_order_detail_def dest: v1_attempts_ok split: if_splits)
qed

section \<open>Orders on the wire\<close>

text \<open>A marker that starts with a quote is not found in text without quotes.\<close>

lemma find_marker_skip:
  "CHR 0x22 \<notin> set xs \<Longrightarrow> find_sub (CHR 0x22 # p) (xs @ s) = map_option ((+) (length xs)) (find_sub (CHR 0x22 # p) s)"
proof (induction xs)
  case (Cons x xs)
  then have "\<not> starts_with (CHR 0x22 # p) (x # xs @ s)" by (auto simp: starts_with_Cons)
  then show ?case using Cons by (simp add: find_sub_skip option.map_comp comp_def)
qed (simp add: map_option_cong [of _ _ "(+) 0" id] option.map_id)

text \<open>Nor does a name with a colon behind it match a value with a comma behind it.\<close>

lemma name_is_no_value:
  assumes "CHR 0x22 \<notin> set w" "CHR 0x22 \<notin> set m"
  shows "\<not> starts_with (w @ CHR 0x22 # CHR '':'' # p) (m @ CHR 0x22 # CHR '','' # s)"
proof
  assume "starts_with (w @ CHR 0x22 # CHR '':'' # p) (m @ CHR 0x22 # CHR '','' # s)"
  then obtain t where e: "m @ CHR 0x22 # CHR '','' # s = (w @ CHR 0x22 # CHR '':'' # p) @ t"
    unfolding starts_with_def by (metis append_take_drop_id)
  have cut: "takeWhile (\<lambda>c. c \<noteq> CHR 0x22) (v @ CHR 0x22 # r) = v" if "CHR 0x22 \<notin> set v" for v r
    using that by (induction v) auto
  have "m = w" using arg_cong [OF e, of "takeWhile (\<lambda>c. c \<noteq> CHR 0x22)"] assms by (simp add: cut)
  with e show False by simp
qed

lemma format_fixed_chars: "CHR 0x22 \<notin> set (format_fixed 8 (Fin r))"
proof -
  have q: "CHR 0x22 \<notin> set xs" if "list_all isdigit xs" for xs using that by (auto simp: list_all_iff isdigit_def)
  have "CHR 0x22 \<notin> set (dec_digits n)" "CHR 0x22 \<notin> set (pad_digits 8 (n mod 10 ^ 8))" for n
    using dec_digits_digit pad_digits_props(3) by (auto intro!: q)
  then show ?thesis by (simp add: format_fixed_def Let_def)
qed

lemma volume_text_chars: "CHR 0x22 \<notin> set (volume_text (Fin r))"
proof -
  have "set (strip_point s) \<subseteq> set s" "set (strip_zeros s) \<subseteq> set s" for s
    by (auto simp: strip_point_def strip_zeros_def dest: in_set_butlastD set_dropWhileD)
  note this(1) [of "strip_zeros (take 63 (format_fixed 8 (Fin r)))"] this(2) [of "take 63 (format_fixed 8 (Fin r))"]
    set_take_subset [of 63 "format_fixed 8 (Fin r)"]
  then show ?thesis unfolding volume_text_def using format_fixed_chars [of r] by blast
qed

lemma volume_text_short:
  assumes "0 \<le> r" "r \<le> 2 ^ 26"
  shows "volume_text (Fin r) = strip_point (strip_zeros (format_fixed 8 (Fin r)))"
proof -
  let ?n = "nat (rne (r * 10 ^ 8))"
  have "rne (r * 10 ^ 8) \<le> rne (of_int (2 ^ 26 * 10 ^ 8))" using assms(2) by (intro rne_mono) simp
  then have "rne (r * 10 ^ 8) \<le> 2 ^ 26 * 10 ^ 8" by (simp only: rne_of_int)
  then have "?n \<le> nat (2 ^ 26 * 10 ^ 8)" by (rule nat_mono)
  then have "?n div 10 ^ 8 \<le> nat (2 ^ 26 * 10 ^ 8) div 10 ^ 8" by (rule div_le_mono)
  then have "?n div 10 ^ 8 < 10 ^ 8" by simp
  then have "length (dec_digits (?n div 10 ^ 8)) \<le> 8" by (rule dec_digits_length) simp
  moreover have "length (pad_digits 8 (?n mod 10 ^ 8)) = 8" by (rule pad_digits_props) simp_all
  ultimately have "length (format_fixed 8 (Fin r)) \<le> 17" using assms(1) by (simp add: format_fixed_def Let_def)
  then show ?thesis by (simp add: volume_text_def)
qed

lemma quantity_fin:
  assumes "0 \<le> k" "k < 2 ^ 26 * 10 ^ 8" "q = lit (of_int k / 10 ^ 8)"
  shows "\<exists>r. q = Fin r \<and> 0 \<le> r \<and> r \<le> 2 ^ 26"
proof -
  have "of_int k / 10 ^ 8 \<le> (of_int (2 ^ 26) :: rat)" using assms(2) by (simp add: divide_le_eq)
  then have "rnd (of_int k / 10 ^ 8) \<le> 2 ^ 26" using rnd_mono [of "of_int k / 10 ^ 8" "of_int (2 ^ 26)"] rnd_of_int [of "2 ^ 26"] by simp
  moreover have "(2 :: rat) ^ 26 < dbl_limit" unfolding dbl_limit_def by (rule power_strict_increasing) simp_all
  moreover have "0 \<le> rnd (of_int k / 10 ^ 8)" using rnd_mono [of 0 "of_int k / 10 ^ 8"] assms(1) by simp
  ultimately show ?thesis using assms(3) dbl_limit_pos by (simp add: lit_def Let_def)
qed

definition sell_body :: "string \<Rightarrow> string \<Rightarrow> string" where
  "sell_body market v = ''{\"market\":\"'' @ market @ ''\",\"side\":\"ask\",\"ord_type\":\"market\",\"volume\":\"'' @ v @ ''\"}''"

lemma extract_here:
  assumes "s = x @ marker @ v @ CHR 0x22 # rest" "find_sub marker s = Some (length x)" "CHR 0x22 \<notin> set v"
  shows "extract_quoted_value s marker 0 = Some (v, length x + length marker + length v)"
  using extract_at [of 0 s marker "length x" v rest] assms by simp

lemma sell_body_reads:
  assumes "CHR 0x22 \<notin> set market" "CHR 0x22 \<notin> set v"
  shows "extract_quoted_value (sell_body market v) ''\"market\":\"'' 0 = Some (market, 11 + length market)"
    "extract_quoted_value (sell_body market v) ''\"side\":\"'' 0 = Some (''ask'', 24 + length market)"
    "extract_quoted_value (sell_body market v) ''\"volume\":\"'' 0 = Some (v, 56 + length market + length v)"
proof -
  let ?r1 = "''\",\"side\":\"ask\",\"ord_type\":\"market\",\"volume\":\"'' @ v @ ''\"}''"
  have "find_sub ''\"market\":\"'' (sell_body market v) = Some 1"
    using find_sub_here [of "''\"market\":\"''"] by (simp add: sell_body_def find_sub_skip starts_with_Cons)
  then show "extract_quoted_value (sell_body market v) ''\"market\":\"'' 0 = Some (market, 11 + length market)"
    using extract_here [of "sell_body market v" "''{''" "''\"market\":\"''" market "tl ?r1"] assms(1) by (simp add: sell_body_def)
  let ?x2 = "''{\"market\":\"'' @ market @ ''\",''" and ?r2 = "'',\"ord_type\":\"market\",\"volume\":\"'' @ v @ ''\"}''"
  have "find_sub ''\"side\":\"'' (sell_body market v) = Some (13 + length market)"
    using find_sub_here [of "''\"side\":\"''"] assms(1)
    by (simp add: sell_body_def find_sub_skip starts_with_Cons find_marker_skip name_is_no_value [where p = "[CHR 0x22]", simplified, of "''side''", simplified])
  then show "extract_quoted_value (sell_body market v) ''\"side\":\"'' 0 = Some (''ask'', 24 + length market)"
    using extract_here [of "sell_body market v" ?x2 "''\"side\":\"''" "''ask''" ?r2] by (simp add: sell_body_def)
  let ?x3 = "''{\"market\":\"'' @ market @ ''\",\"side\":\"ask\",\"ord_type\":\"market\",''"
  have "find_sub ''\"volume\":\"'' (sell_body market v) = Some (46 + length market)"
    using find_sub_here [of "''\"volume\":\"''"] assms(1)
    by (simp add: sell_body_def find_sub_skip starts_with_Cons find_marker_skip name_is_no_value [where p = "[CHR 0x22]", simplified, of "''volume''", simplified])
  then show "extract_quoted_value (sell_body market v) ''\"volume\":\"'' 0 = Some (v, 56 + length market + length v)"
    using extract_here [of "sell_body market v" ?x3 "''\"volume\":\"''" v "''}''"] assms(2) by (simp add: sell_body_def)
qed

lemma sell_texts: "bithumb_order_texts symbol Sell q = (''market='' @ bithumb_market symbol @ ''&side=ask&ord_type=market&volume='' @ volume_text q,
    sell_body (bithumb_market symbol) (volume_text q))"
  by (simp add: bithumb_order_texts_def sell_body_def Let_def)

lemma http_post_success:
  assumes "hr_success (fst (http_post os t b h a))"
  shows "account_request a POST t b h \<in> set (ln_written (ac_line (snd (http_post os t b h a))))"
proof -
  obtain k where "ln_written (ac_line (snd (http_post os t b h a))) = ln_written (ac_line a) @ replicate k (account_request a POST t b h)" "0 < k"
    using http_post_counted [of os t b h a] assms by blast
  then show ?thesis by simp
qed

text \<open>The wire after an order.\<close>

lemma bithumb_order_written:
  obtains n headers where "n \<le> 3"
    "ln_written (ac_line (snd (bithumb_place_market_order j os symbol side q a))) = ln_written (ac_line a) @
       replicate n (account_request a POST ''/v1/orders'' (snd (bithumb_order_texts symbol side q)) headers)"
proof -
  let ?a1 = "snd (generate_order_id a)"
  let ?qs = "fst (bithumb_order_texts symbol side q)"
  let ?h = "header_put ''Content-Type'' ''application/json; charset=utf-8'' (fst (build_v1_auth_headers os (Some ?qs) ?a1))"
  let ?a2 = "snd (build_v1_auth_headers os (Some ?qs) ?a1)"
  have "snd (bithumb_place_market_order j os symbol side q a) = snd (http_post os ''/v1/orders'' (snd (bithumb_order_texts symbol side q)) ?h ?a2)"
    by (simp add: bithumb_place_market_order_def case_prod_unfold Let_def)
  moreover have "ac_credentials ?a2 = ac_credentials a" "ln_written (ac_line ?a2) = ln_written (ac_line a)"
    by (simp_all add: generate_order_id_def)
  ultimately show thesis
    using http_post_copies [of os "''/v1/orders''" "snd (bithumb_order_texts symbol side q)" ?h ?a2] that by auto
qed

text \<open>C22. A sell order of Bithumb reaches the wire as at most three copies of one request, and what the venue
  reads in its body is the market, the side and exactly the quantity of the caller, for every
  quantity below 2^26 that stands for a decimal number of at most eight places.\<close>

theorem bithumb_sell_order_exact:
  assumes "0 \<le> k" "k < 2 ^ 26 * 10 ^ 8" "quantity = lit (of_int k / 10 ^ 8)" "CHR 0x22 \<notin> set (bithumb_market symbol)"
  shows "\<exists>n rq e1 e2 v e3. n \<le> 3 \<and>
      ln_written (ac_line (snd (bithumb_place_market_order j os symbol Sell quantity a))) = ln_written (ac_line a) @ replicate n rq \<and>
      rq_method rq = POST \<and> rq_target rq = ''/v1/orders'' \<and>
      extract_quoted_value (rq_body rq) ''\"market\":\"'' 0 = Some (bithumb_market symbol, e1) \<and>
      extract_quoted_value (rq_body rq) ''\"side\":\"'' 0 = Some (''ask'', e2) \<and>
      extract_quoted_value (rq_body rq) ''\"volume\":\"'' 0 = Some (v, e3) \<and> fast_stod v 0 = quantity"
proof -
  obtain n h where w: "n \<le> 3" "ln_written (ac_line (snd (bithumb_place_market_order j os symbol Sell quantity a))) = ln_written (ac_line a) @
      replicate n (account_request a POST ''/v1/orders'' (sell_body (bithumb_market symbol) (volume_text quantity)) h)"
    by (rule bithumb_order_written [of j os symbol Sell quantity a, unfolded sell_texts snd_conv])
  let ?rq = "account_request a POST ''/v1/orders'' (sell_body (bithumb_market symbol) (volume_text quantity)) h"
  obtain r where r: "quantity = Fin r" "0 \<le> r" "r \<le> 2 ^ 26" using quantity_fin [OF assms(1-3)] by blast
  have "fast_stod (volume_text quantity) 0 = quantity"
    using volume_text_roundtrip [OF assms(1-3)] volume_text_short [OF r(2,3)] r(1) by simp
  then show ?thesis
    using w sell_body_reads [OF assms(4) volume_text_chars [of r, folded r(1)]] wire_request_simps by metis
qed

text \<open>An order that Bithumb reports as filled was written to the wire and answered.\<close>

lemma bithumb_filled_means_answered:
  assumes "ord_status (fst (bithumb_place_market_order j os symbol side quantity a)) = Filled"
  shows "\<exists>rq. rq \<in> set (ln_written (ac_line (snd (bithumb_place_market_order j os symbol side quantity a)))) \<and>
      rq_body rq = snd (bithumb_order_texts symbol side quantity)"
proof -
  let ?a1 = "snd (generate_order_id a)"
  let ?qs = "fst (bithumb_order_texts symbol side quantity)"
  let ?b = "snd (bithumb_order_texts symbol side quantity)"
  let ?h = "header_put ''Content-Type'' ''application/json; charset=utf-8'' (fst (build_v1_auth_headers os (Some ?qs) ?a1))"
  let ?a2 = "snd (build_v1_auth_headers os (Some ?qs) ?a1)"
  have "hr_success (fst (http_post os ''/v1/orders'' ?b ?h ?a2))"
    using assms by (auto simp: bithumb_place_market_order_def case_prod_unfold Let_def split: if_splits)
  moreover have "snd (bithumb_place_market_order j os symbol side quantity a) = snd (http_post os ''/v1/orders'' ?b ?h ?a2)"
    by (simp add: bithumb_place_market_order_def case_prod_unfold Let_def)
  ultimately show ?thesis using http_post_success by (metis wire_request_simps(3))
qed

end
