(* ===== verification/OrderSocket.thy ===== *)
theory OrderSocket
  imports Account "HOL-Library.AList"
begin

text \<open>
  What the trading sockets of Bybit and OKX (\<^verbatim>\<open>src/exchange/bybit_trade_ws.cpp\<close>,
  \<^verbatim>\<open>src/exchange/okx_trade_ws.cpp\<close>) have in common. A synchronous order registers a promise under its
  request identifier, sends a message and waits; the socket's callbacks, which run in another thread,
  settle promises. A promise is a number; the shared states of the promises are \<open>tw_settled\<close>. The
  interface \<open>order_socket\<close> says what a handler of messages owes to the callers.
\<close>

section \<open>State\<close>

record place_result =
  pr_success :: bool
  pr_order_id :: string
  pr_error_msg :: string
  pr_ret_code :: int

definition place_result_default :: place_result where
  "place_result_default = \<lparr>pr_success = False, pr_order_id = [], pr_error_msg = [], pr_ret_code = - 1\<rparr>"

record trade_ws =
  tw_connected :: bool
  tw_authenticated :: bool
  tw_pending :: "(string \<times> nat) list"
  tw_settled :: "nat \<rightharpoonup> place_result"
  tw_next :: nat
  tw_heartbeat :: bool
  tw_sent :: "string list"

definition trade_ws_init :: trade_ws where
  "trade_ws_init = \<lparr>tw_connected = False, tw_authenticated = False, tw_pending = [], tw_settled = Map.empty, tw_next = 0,
     tw_heartbeat = False, tw_sent = []\<rparr>"

definition trade_is_connected :: "trade_ws \<Rightarrow> bool" where
  "trade_is_connected t \<longleftrightarrow> tw_connected t \<and> tw_authenticated t"

definition tw_send :: "string \<Rightarrow> trade_ws \<Rightarrow> trade_ws" where
  "tw_send m t = t\<lparr>tw_sent := tw_sent t @ [m]\<rparr>"

text \<open>\<^verbatim>\<open>static_cast<int>\<close> of a 64-bit code.\<close>

definition to_int32 :: "int \<Rightarrow> int" where
  "to_int32 n = sint (word_of_int n :: 32 word)"

section \<open>Connection\<close>

text \<open>Every promise that is pending when the socket drops fails.\<close>

definition disconnected_result :: place_result where
  "disconnected_result = place_result_default\<lparr>pr_success := False, pr_error_msg := ''WebSocket disconnected''\<rparr>"

definition trade_disconnected :: "trade_ws \<Rightarrow> trade_ws" where
  "trade_disconnected t = t\<lparr>tw_connected := False, tw_authenticated := False,
     tw_settled := fold (\<lambda>(_, p) m. m(p \<mapsto> disconnected_result)) (tw_pending t) (tw_settled t), tw_pending := []\<rparr>"

definition trade_disconnect :: "trade_ws \<Rightarrow> trade_ws" where
  "trade_disconnect t = t\<lparr>tw_heartbeat := False, tw_connected := False, tw_authenticated := False\<rparr>"

definition schedule_heartbeat :: "trade_ws \<Rightarrow> trade_ws" where
  "schedule_heartbeat t = t\<lparr>tw_heartbeat := True\<rparr>"

section \<open>Promises\<close>

definition resolve_pending :: "string \<Rightarrow> place_result \<Rightarrow> trade_ws \<Rightarrow> trade_ws" where
  "resolve_pending req_id result t =
    (case map_of (tw_pending t) req_id of None \<Rightarrow> t
     | Some p \<Rightarrow> t\<lparr>tw_settled := (tw_settled t)(p \<mapsto> result), tw_pending := AList.delete req_id (tw_pending t)\<rparr>)"

text \<open>
  \<^verbatim>\<open>pending_orders_.emplace\<close>: an identifier that is pending already keeps its promise, and the new caller
  waits in vain.
\<close>

definition register_order :: "string \<Rightarrow> trade_ws \<Rightarrow> nat \<times> trade_ws" where
  "register_order req_id t =
    (tw_next t, t\<lparr>tw_next := tw_next t + 1,
       tw_pending := emplace req_id (tw_next t) (tw_pending t)\<rparr>)"

definition forget_order :: "string \<Rightarrow> trade_ws \<Rightarrow> trade_ws" where
  "forget_order req_id t = t\<lparr>tw_pending := AList.delete req_id (tw_pending t)\<rparr>"

definition handle_event :: "(string \<Rightarrow> trade_ws \<Rightarrow> trade_ws) \<Rightarrow> socket_event \<Rightarrow> trade_ws \<Rightarrow> trade_ws" where
  "handle_event on_message e t = (case e of Incoming msg \<Rightarrow> on_message msg t | Dropped \<Rightarrow> trade_disconnected t)"

text \<open>
  The middle of a synchronous order: registration, the message, the wait, and what came of it; no
  result when the message does not fit its buffer or the time is up.
\<close>

definition order_round ::
    "(string \<Rightarrow> trade_ws \<Rightarrow> trade_ws) \<Rightarrow> 'w outside \<Rightarrow> string \<Rightarrow> string \<Rightarrow> trade_ws \<Rightarrow> 'w \<Rightarrow> place_result option \<times> trade_ws \<times> 'w" where
  "order_round on_message os req_id message t w =
    (case register_order req_id t of (promise, t) \<Rightarrow>
     (case snprintf_checked 512 message of
        None \<Rightarrow> (None, forget_order req_id t, w)
      | Some m \<Rightarrow>
         (case os_trade os w of (events, w) \<Rightarrow>
            let t = fold (handle_event on_message) events (tw_send m t) in
            case tw_settled t promise of None \<Rightarrow> (None, forget_order req_id t, w)
            | Some result \<Rightarrow> (Some result, t, w))))"

definition ack_order :: "'w outside \<Rightarrow> place_result \<Rightarrow> order \<Rightarrow> order" where
  "ack_order os result o' =
    (if pr_success result
     then o'\<lparr>ord_status := Filled, ord_id_str := pr_order_id result, ord_exchange_order_id := os_hash os (pr_order_id result)\<rparr>
     else o'\<lparr>ord_status := Rejected\<rparr>)"

section \<open>Promises are settled once\<close>

definition trade_invar :: "trade_ws \<Rightarrow> bool" where
  "trade_invar t \<longleftrightarrow> distinct (map fst (tw_pending t)) \<and> distinct (map snd (tw_pending t)) \<and>
     (\<forall>(i, p) \<in> set (tw_pending t). p < tw_next t \<and> tw_settled t p = None) \<and> (\<forall>p. tw_settled t p \<noteq> None \<longrightarrow> p < tw_next t)"

lemma delete_pending:
  "set (AList.delete i ps) = {x \<in> set ps. fst x \<noteq> i}" "distinct (map f ps) \<Longrightarrow> distinct (map f (AList.delete i ps))"
  by (auto simp: AList.delete_eq distinct_map_filter)

lemma fold_settle: "fold (\<lambda>(_, p) m. m(p \<mapsto> r)) ps m q = (if q \<in> snd ` set ps then Some r else m q)"
  by (induction ps arbitrary: m) auto

lemma pending_pair: "trade_invar t \<Longrightarrow> map_of (tw_pending t) i = Some p \<longleftrightarrow> (i, p) \<in> set (tw_pending t)"
  by (simp add: trade_invar_def map_of_eq_Some_iff)

lemma pending_promise:
  assumes "trade_invar t" "(i, p) \<in> set (tw_pending t)" "(i', p) \<in> set (tw_pending t)"
  shows "i = i'"
proof -
  have "inj_on snd (set (tw_pending t))" using assms(1) by (simp add: trade_invar_def distinct_map)
  from inj_onD [OF this _ assms(2,3)] show ?thesis by simp
qed

lemma resolve_invar:
  assumes "trade_invar t"
  shows "trade_invar (resolve_pending i r t)" "tw_settled t p = Some x \<Longrightarrow> tw_settled (resolve_pending i r t) p = Some x"
proof -
  have "trade_invar (resolve_pending i r t) \<and> (tw_settled t p = Some x \<longrightarrow> tw_settled (resolve_pending i r t) p = Some x)"
  proof (cases "map_of (tw_pending t) i")
    case (Some q)
    then have q: "(i, q) \<in> set (tw_pending t)" using pending_pair [OF assms] by simp
    have other: "q' \<noteq> q" if "(i', q') \<in> set (tw_pending t)" "i' \<noteq> i" for i' q' using pending_promise [OF assms q] that by blast
    show ?thesis
      using assms Some q other unfolding trade_invar_def resolve_pending_def by (auto simp: delete_pending)
  qed (use assms in \<open>simp add: resolve_pending_def\<close>)
  then show "trade_invar (resolve_pending i r t)" "tw_settled t p = Some x \<Longrightarrow> tw_settled (resolve_pending i r t) p = Some x" by simp_all
qed

lemma resolve_sent [simp]: "tw_sent (resolve_pending i r t) = tw_sent t"
  by (simp add: resolve_pending_def split: option.split)

lemma resolve_absent: "map_of (tw_pending t) i = None \<Longrightarrow> resolve_pending i r t = t"
  by (simp add: resolve_pending_def)

lemma invar_cong:
  assumes "tw_pending t' = tw_pending t" "tw_settled t' = tw_settled t" "tw_next t' = tw_next t"
  shows "trade_invar t' = trade_invar t"
  by (simp add: trade_invar_def assms)

lemma send_invar [simp]: "trade_invar (tw_send m t) = trade_invar t"
  by (rule invar_cong) (simp_all add: tw_send_def)

lemma register_invar: "trade_invar t \<Longrightarrow> trade_invar (snd (register_order i t))"
  by (auto simp: register_order_def trade_invar_def emplace_def map_of_eq_None_iff less_Suc_eq)

lemma forget_invar: "trade_invar t \<Longrightarrow> trade_invar (forget_order i t)"
  by (auto simp: forget_order_def trade_invar_def delete_pending)

lemma register_unsettled:
  assumes "trade_invar t" "register_order i t = (p, t')"
  shows "trade_invar t' \<and> tw_settled t' p = None \<and> (\<forall>i'. (i', p) \<in> set (tw_pending t') \<longrightarrow> i' = i)"
proof -
  have new: "(i', tw_next t) \<notin> set (tw_pending t)" "tw_settled t (tw_next t) = None" for i'
    using assms(1) unfolding trade_invar_def by (blast, metis less_irrefl)
  have "trade_invar t'" using register_invar [OF assms(1), of i] assms(2) by simp
  then show ?thesis using assms(2) new by (auto simp: register_order_def emplace_def split: if_splits)
qed

lemma register_sent: "register_order i t = (p, t') \<Longrightarrow> tw_sent t' = tw_sent t"
  by (auto simp: register_order_def)

lemma forget_sent [simp]: "tw_sent (forget_order i t) = tw_sent t"
  by (simp add: forget_order_def)

lemma ack_status: "ord_status (ack_order os r o') = (if pr_success r then Filled else Rejected)" "pr_success r \<Longrightarrow> ord_id_str (ack_order os r o') = pr_order_id r"
  by (simp_all add: ack_order_def)

lemma disconnected_fails [simp]: "\<not> pr_success disconnected_result"
  by (simp add: disconnected_result_def)

section \<open>What a handler of messages owes\<close>

text \<open>A message answers one request, which it settles, or it leaves the promises alone; it sends nothing.\<close>

locale order_socket =
  fixes on_message :: "string \<Rightarrow> trade_ws \<Rightarrow> trade_ws" and answer_of :: "string \<Rightarrow> (string \<times> place_result) option"
  assumes answered: "answer_of m = Some (i, r) \<Longrightarrow> on_message m t = resolve_pending i r t"
    and unanswered: "answer_of m = None \<Longrightarrow> tw_pending (on_message m t) = tw_pending t \<and>
        tw_settled (on_message m t) = tw_settled t \<and> tw_next (on_message m t) = tw_next t \<and> tw_sent (on_message m t) = tw_sent t"
begin

abbreviation event :: "socket_event \<Rightarrow> trade_ws \<Rightarrow> trade_ws" where
  "event \<equiv> handle_event on_message"

lemma late_answer: "answer_of m = Some (i, r) \<Longrightarrow> map_of (tw_pending t) i = None \<Longrightarrow> event (Incoming m) t = t"
  by (simp add: handle_event_def answered resolve_absent)

lemma event_invar:
  assumes "trade_invar t"
  shows "trade_invar (event e t)" "tw_settled t p = Some x \<Longrightarrow> tw_settled (event e t) p = Some x"
proof -
  have "trade_invar (event e t) \<and> (tw_settled t p = Some x \<longrightarrow> tw_settled (event e t) p = Some x)"
  proof (cases e)
    case (Incoming m)
    show ?thesis
    proof (cases "answer_of m")
      case None
      from unanswered [OF this, of t] show ?thesis using assms invar_cong [of "on_message m t" t] Incoming by (simp add: handle_event_def)
    next
      case (Some a)
      then show ?thesis using resolve_invar [OF assms] Incoming by (cases a) (simp add: handle_event_def answered)
    qed
  next
    case Dropped
    then show ?thesis using assms by (auto simp: handle_event_def trade_disconnected_def trade_invar_def fold_settle)
  qed
  then show "trade_invar (event e t)" "tw_settled t p = Some x \<Longrightarrow> tw_settled (event e t) p = Some x" by simp_all
qed

lemma fold_event_invar:
  "trade_invar t \<Longrightarrow> trade_invar (fold event es t)"
  "trade_invar t \<Longrightarrow> tw_settled t p = Some x \<Longrightarrow> tw_settled (fold event es t) p = Some x"
  by (induction es arbitrary: t) (simp_all add: event_invar)

lemma event_sent: "tw_sent (event e t) = tw_sent t"
proof (cases e)
  case (Incoming m)
  then show ?thesis using unanswered [of m t] answered [of m _ _ t] by (cases "answer_of m") (auto simp: handle_event_def)
qed (simp add: handle_event_def trade_disconnected_def)

lemma fold_event_sent: "tw_sent (fold event es t) = tw_sent t"
  by (induction es arbitrary: t) (simp_all add: event_sent)

lemma event_pending: "(i, p) \<in> set (tw_pending (event e t)) \<Longrightarrow> (i, p) \<in> set (tw_pending t)"
proof (cases e)
  case (Incoming m)
  then show "(i, p) \<in> set (tw_pending (event e t)) \<Longrightarrow> (i, p) \<in> set (tw_pending t)"
    using unanswered [of m t] answered [of m _ _ t]
    by (cases "answer_of m") (auto simp: handle_event_def resolve_pending_def delete_pending split: option.splits)
qed (simp add: handle_event_def trade_disconnected_def)

lemma event_settles:
  assumes "tw_settled t p = None" "tw_settled (event e t) p = Some r"
  shows "r = disconnected_result \<or> (\<exists>m i. e = Incoming m \<and> answer_of m = Some (i, r) \<and> (i, p) \<in> set (tw_pending t))"
proof (cases e)
  case (Incoming m)
  then show ?thesis
    using assms unanswered [of m t] answered [of m _ _ t]
    by (cases "answer_of m") (auto simp: handle_event_def resolve_pending_def dest: map_of_SomeD split: option.splits if_splits)
qed (use assms in \<open>auto simp: handle_event_def trade_disconnected_def fold_settle split: if_splits\<close>)

text \<open>A promise that is settled by a run of events was settled by an answer to its request or by a disconnection.\<close>

lemma settled_by_answer:
  assumes "trade_invar t" "tw_settled t p = None" "\<forall>i'. (i', p) \<in> set (tw_pending t) \<longrightarrow> i' = i"
    "tw_settled (fold event es t) p = Some r"
  shows "r = disconnected_result \<or> (\<exists>m. Incoming m \<in> set es \<and> answer_of m = Some (i, r))"
  using assms
proof (induction es arbitrary: t)
  case (Cons e es)
  show ?case
  proof (cases "tw_settled (event e t) p")
    case None
    have "\<forall>i'. (i', p) \<in> set (tw_pending (event e t)) \<longrightarrow> i' = i"
      using Cons.prems(3) event_pending by blast
    then show ?thesis using Cons.IH [OF event_invar(1) [OF Cons.prems(1)] None] Cons.prems(4) by auto
  next
    case (Some x)
    then have "x = r" using fold_event_invar(2) [OF event_invar(1) [OF Cons.prems(1)] Some, of es] Cons.prems(4) by simp
    then show ?thesis using event_settles [OF Cons.prems(2) Some] Cons.prems(3) by auto
  qed
qed simp

text \<open>
  A round of an order sends its message or nothing. It has a successful result only when the message was sent and
  an answer to this very request came in meanwhile.
\<close>

lemma order_round_facts:
  assumes "trade_invar t" "order_round on_message os req_id message t w = (r, t', w')"
  shows "trade_invar t'" "tw_sent t' = tw_sent t \<or> tw_sent t' = tw_sent t @ [message]"
    "r = Some res \<Longrightarrow> pr_success res \<Longrightarrow> tw_sent t' = tw_sent t @ [message] \<and>
       (\<exists>m. Incoming m \<in> set (fst (os_trade os w)) \<and> answer_of m = Some (req_id, res))"
proof -
  obtain p t1 where reg: "register_order req_id t = (p, t1)" by fastforce
  note u = register_unsettled [OF assms(1) reg] and sent = register_sent [OF reg]
  have "trade_invar t' \<and> (tw_sent t' = tw_sent t \<or> tw_sent t' = tw_sent t @ [message]) \<and>
    (r = Some res \<longrightarrow> pr_success res \<longrightarrow> tw_sent t' = tw_sent t @ [message] \<and>
       (\<exists>m. Incoming m \<in> set (fst (os_trade os w)) \<and> answer_of m = Some (req_id, res)))"
  proof (cases "snprintf_checked 512 message")
    case None
    then show ?thesis using assms(2) reg u forget_invar sent by (auto simp: order_round_def)
  next
    case (Some m)
    then have m: "m = message" by (simp add: snprintf_checked_def split: if_splits)
    define t2 where "t2 = fold event (fst (os_trade os w)) (tw_send message t1)"
    have s: "trade_invar t2" "tw_sent t2 = tw_sent t @ [message]"
      using fold_event_invar(1) [of "tw_send message t1"] u sent by (simp_all add: t2_def fold_event_sent) (simp add: tw_send_def)
    have keep: "tw_settled (tw_send message t1) p = None" "\<forall>i'. (i', p) \<in> set (tw_pending (tw_send message t1)) \<longrightarrow> i' = req_id"
      using u by (simp_all add: tw_send_def)
    show ?thesis
    proof (cases "tw_settled t2 p")
      case None
      then show ?thesis
        using assms(2) reg Some s forget_invar [OF s(1), of req_id] t2_def m by (auto simp: order_round_def case_prod_unfold Let_def)
    next
      case (Some x)
      then have "r = Some x" "t' = t2"
        using assms(2) reg \<open>snprintf_checked 512 message = Some m\<close> t2_def m by (auto simp: order_round_def case_prod_unfold Let_def)
      moreover have "x = disconnected_result \<or> (\<exists>m. Incoming m \<in> set (fst (os_trade os w)) \<and> answer_of m = Some (req_id, x))"
        using settled_by_answer [of "tw_send message t1" p req_id] keep u Some by (simp add: t2_def)
      ultimately show ?thesis using s by auto
    qed
  qed
  then show "trade_invar t'" "tw_sent t' = tw_sent t \<or> tw_sent t' = tw_sent t @ [message]"
    "r = Some res \<Longrightarrow> pr_success res \<Longrightarrow> tw_sent t' = tw_sent t @ [message] \<and>
       (\<exists>m. Incoming m \<in> set (fst (os_trade os w)) \<and> answer_of m = Some (req_id, res))" by blast+
qed

end

end
