(* ===== verification/BybitTrade.thy ===== *)
theory BybitTrade
  imports OrderSocket
begin

text \<open>
  The WebSocket order entry of Bybit (\<^verbatim>\<open>src/exchange/bybit_trade_ws.cpp\<close>) on the promises of
  \<open>OrderSocket\<close>. Callers and callbacks interleave freely in \<open>trade_reach\<close>.
\<close>

section \<open>Connection\<close>

definition auth_message :: "'w outside \<Rightarrow> exchange_credentials \<Rightarrow> 'w \<Rightarrow> string" where
  "auth_message os cr w =
    (let expires = os_timestamp_ms os w + 10000;
         signature = hmac_sha256 os (xc_secret_key cr) (''GET/realtime'' @ int_text expires)
     in ''{\"op\":\"auth\",\"args\":[\"'' @ xc_api_key cr @ ''\",'' @ int_text expires @ '',\"'' @ signature @ ''\"]}'')"

definition authenticate :: "'w outside \<Rightarrow> exchange_credentials \<Rightarrow> 'w \<Rightarrow> trade_ws \<Rightarrow> trade_ws" where
  "authenticate os cr w t = (case snprintf_checked 512 (auth_message os cr w) of None \<Rightarrow> t | Some m \<Rightarrow> tw_send m t)"

definition trade_connected :: "'w outside \<Rightarrow> exchange_credentials \<Rightarrow> 'w \<Rightarrow> trade_ws \<Rightarrow> trade_ws" where
  "trade_connected os cr w t = authenticate os cr w (t\<lparr>tw_connected := True\<rparr>)"

definition on_heartbeat_timer :: "bool \<Rightarrow> trade_ws \<Rightarrow> trade_ws" where
  "on_heartbeat_timer cancelled t =
    (if cancelled then t
     else let t = t\<lparr>tw_heartbeat := False\<rparr> in
       if tw_connected t then schedule_heartbeat (tw_send ''{\"op\":\"ping\"}'' t) else t)"

section \<open>Messages\<close>

text \<open>The answer to an order; \<open>None\<close> when reading it throws.\<close>

definition order_result :: "'j json_api \<Rightarrow> 'j \<Rightarrow> place_result option" where
  "order_result j doc =
    (let ret_code = ja_field j doc ''retCode'' in
     case (if \<not> ja_ok j ret_code then Some (- 1) else map_option to_int32 (ja_int64 j ret_code)) of None \<Rightarrow> None
     | Some code \<Rightarrow>
        let result = place_result_default\<lparr>pr_ret_code := code\<rparr> in
        if code = 0
        then let data = ja_field j doc ''data'' in
          if \<not> ja_ok j data then Some (result\<lparr>pr_success := True\<rparr>)
          else case optional_text j (ja_field j data ''orderId'') of None \<Rightarrow> None
           | Some i \<Rightarrow> Some (result\<lparr>pr_success := True, pr_order_id := (case i of Some s \<Rightarrow> s | None \<Rightarrow> [])\<rparr>)
        else case optional_text j (ja_field j doc ''retMsg'') of None \<Rightarrow> None
           | Some m \<Rightarrow> Some (result\<lparr>pr_success := False, pr_error_msg := (case m of Some s \<Rightarrow> s | None \<Rightarrow> [])\<rparr>))"

text \<open>The request a message answers, and the answer.\<close>

definition order_answer :: "'j json_api \<Rightarrow> string \<Rightarrow> (string \<times> place_result) option" where
  "order_answer j msg =
    (let doc = ja_iterate j msg; op = ja_field j doc ''op''; req_id_field = ja_field j doc ''reqId'' in
     if \<not> ja_ok j op \<or> ja_string j op \<noteq> Some ''order.create'' \<or> \<not> ja_ok j req_id_field then None
     else case ja_string j req_id_field of None \<Rightarrow> None
      | Some req_id \<Rightarrow> (case order_result j doc of None \<Rightarrow> None | Some r \<Rightarrow> Some (req_id, r)))"

definition trade_on_message :: "'j json_api \<Rightarrow> string \<Rightarrow> trade_ws \<Rightarrow> trade_ws" where
  "trade_on_message j msg t =
    (let doc = ja_iterate j msg; op = ja_field j doc ''op''; success_field = ja_field j doc ''success'' in
     if ja_ok j op \<and> ja_string j op = Some ''auth''
     then if ja_ok j success_field \<and> ja_bool j success_field = Some True
       then schedule_heartbeat (t\<lparr>tw_authenticated := True\<rparr>) else t
     else case order_answer j msg of None \<Rightarrow> t | Some (req_id, result) \<Rightarrow> resolve_pending req_id result t)"

definition trade_event :: "'j json_api \<Rightarrow> socket_event \<Rightarrow> trade_ws \<Rightarrow> trade_ws" where
  "trade_event j = handle_event (trade_on_message j)"

section \<open>Orders\<close>

definition order_message :: "string \<Rightarrow> int \<Rightarrow> string \<Rightarrow> side \<Rightarrow> dbl \<Rightarrow> bool \<Rightarrow> string" where
  "order_message req_id timestamp symbol side qty is_leverage =
    ''{\"reqId\":\"'' @ req_id @ ''\",\"header\":{\"X-BAPI-TIMESTAMP\":\"'' @ int_text timestamp @ ''\"},\"op\":\"order.create\",'' @
    ''\"args\":[{\"category\":\"spot\",\"symbol\":\"'' @ symbol @ ''\",\"side\":\"'' @ (if side = Buy then ''Buy'' else ''Sell'') @ ''\",'' @
    ''\"orderType\":\"Market\",\"qty\":\"'' @ format_fixed 8 qty @ ''\",'' @ (if is_leverage then ''\"isLeverage\":1,'' else []) @
    ''\"orderFilter\":\"Order\",\"marketUnit\":\"baseCoin\"}]}''"

definition place_order_sync ::
    "'j json_api \<Rightarrow> 'w outside \<Rightarrow> string \<Rightarrow> side \<Rightarrow> dbl \<Rightarrow> bool \<Rightarrow> trade_ws \<Rightarrow> 'w \<Rightarrow> order \<times> trade_ws \<times> 'w" where
  "place_order_sync j os symbol side qty is_leverage t w =
    (let o' = order_default\<lparr>ord_exchange := Bybit, ord_side := side, ord_type := Market, ord_quantity := qty, ord_create_time := os_system_now os w\<rparr>;
         rejected = o'\<lparr>ord_status := Rejected\<rparr> in
     if \<not> trade_is_connected t then (rejected, t, w)
     else case os_random os 16 w of (random, w) \<Rightarrow>
       let req_id = generate_uuid random in
       case order_round (trade_on_message j) os req_id (order_message req_id (os_timestamp_ms os w) symbol side qty is_leverage) t w of
         (None, t, w) \<Rightarrow> (rejected, t, w)
       | (Some result, t, w) \<Rightarrow> (ack_order os result o', t, w))"

section \<open>Promises are settled once\<close>

text \<open>The calls of any number of threads: registrations, sends, time-outs and the callbacks of the socket.\<close>

inductive trade_step :: "'j json_api \<Rightarrow> 'w outside \<Rightarrow> trade_ws \<Rightarrow> trade_ws \<Rightarrow> bool" for j os where
  Connect: "trade_step j os t (trade_connected os cr w t)"
| Disconnect: "trade_step j os t (trade_disconnect t)"
| Event: "trade_step j os t (trade_event j e t)"
| Timer: "trade_step j os t (on_heartbeat_timer c t)"
| Register: "trade_step j os t (snd (register_order i t))"
| Send: "trade_step j os t (tw_send m t)"
| Forget: "trade_step j os t (forget_order i t)"

inductive trade_reach :: "'j json_api \<Rightarrow> 'w outside \<Rightarrow> trade_ws \<Rightarrow> bool" for j os where
  Init: "trade_reach j os trade_ws_init"
| Step: "trade_reach j os t \<Longrightarrow> trade_step j os t t' \<Longrightarrow> trade_reach j os t'"

inductive_cases trade_stepE: "trade_step j os t t'"

lemmas trade_frames = trade_connected_def authenticate_def tw_send_def trade_disconnect_def on_heartbeat_timer_def schedule_heartbeat_def

lemma frame_simps [simp]:
  "tw_pending (trade_connected os cr w t) = tw_pending t" "tw_settled (trade_connected os cr w t) = tw_settled t" "tw_next (trade_connected os cr w t) = tw_next t"
  "tw_pending (trade_disconnect t) = tw_pending t" "tw_settled (trade_disconnect t) = tw_settled t" "tw_next (trade_disconnect t) = tw_next t"
  "tw_pending (on_heartbeat_timer c t) = tw_pending t" "tw_settled (on_heartbeat_timer c t) = tw_settled t" "tw_next (on_heartbeat_timer c t) = tw_next t"
  "tw_pending (tw_send m t) = tw_pending t" "tw_settled (tw_send m t) = tw_settled t" "tw_next (tw_send m t) = tw_next t"
  by (simp_all add: trade_frames Let_def split: option.split)

lemma answer_is_no_auth: "order_answer j m = Some (i, r) \<Longrightarrow> trade_on_message j m t = resolve_pending i r t"
  by (auto simp: order_answer_def trade_on_message_def Let_def split: if_splits option.splits)

interpretation bybit_socket: order_socket "trade_on_message j" "order_answer j"
  by unfold_locales (simp add: answer_is_no_auth, simp add: trade_on_message_def schedule_heartbeat_def Let_def)

lemma trade_step_invar:
  assumes "trade_step j os t t'" "trade_invar t"
  shows "trade_invar t' \<and> (\<forall>p r. tw_settled t p = Some r \<longrightarrow> tw_settled t' p = Some r)"
  using assms(1)
proof (cases rule: trade_step.cases)
  case (Event e)
  then show ?thesis using bybit_socket.event_invar [OF assms(2)] unfolding trade_event_def by blast
next
  case (Register i)
  then show ?thesis using register_invar [OF assms(2)] by (simp add: register_order_def)
next
  case (Forget i)
  then show ?thesis using forget_invar [OF assms(2)] by (simp add: forget_order_def)
qed (use assms(2) in \<open>auto simp: trade_invar_def\<close>)

lemma trade_reach_invar: "trade_reach j os t \<Longrightarrow> trade_invar t"
proof (induction rule: trade_reach.induct)
  case Init
  show ?case by (simp add: trade_invar_def trade_ws_init_def)
next
  case (Step t t')
  then show ?case using trade_step_invar by blast
qed

text \<open>C9. However callers, answers, time-outs and disconnections interleave, no two pending requests share a
  promise and no pending promise is settled; a promise that is settled keeps its result for ever; an
  answer to a request that is not pending, because it came late or twice, changes nothing; and
  after a disconnection nothing is pending and all that was has failed.\<close>

theorem trade_promises_settled_once:
  assumes "trade_reach j os t"
  shows "trade_invar t \<and>
    (\<forall>t' p r. trade_step j os t t' \<longrightarrow> tw_settled t p = Some r \<longrightarrow> tw_settled t' p = Some r) \<and>
    (\<forall>m i r. order_answer j m = Some (i, r) \<longrightarrow> map_of (tw_pending t) i = None \<longrightarrow> trade_event j (Incoming m) t = t) \<and>
    tw_pending (trade_event j Dropped t) = [] \<and>
    (\<forall>i p. map_of (tw_pending t) i = Some p \<longrightarrow> tw_settled (trade_event j Dropped t) p = Some disconnected_result)"
proof (intro conjI allI impI)
  note inv = trade_reach_invar [OF assms]
  show "trade_invar t" by (rule inv)
  show "tw_settled t' p = Some r" if "trade_step j os t t'" "tw_settled t p = Some r" for t' p r
    using trade_step_invar [OF that(1) inv] that(2) by blast
  show "trade_event j (Incoming m) t = t" if "order_answer j m = Some (i, r)" "map_of (tw_pending t) i = None" for m i r
    using that unfolding trade_event_def by (rule bybit_socket.late_answer)
  show "tw_settled (trade_event j Dropped t) p = Some disconnected_result" if "map_of (tw_pending t) i = Some p" for i p
    using map_of_SomeD [OF that] by (force simp: trade_event_def handle_event_def trade_disconnected_def fold_settle)
qed (simp add: trade_event_def handle_event_def trade_disconnected_def)

section \<open>Acknowledgements\<close>

lemma answer_success: "order_answer j m = Some (i, r) \<Longrightarrow> pr_success r \<Longrightarrow> pr_ret_code r = 0"
  by (auto simp: order_answer_def order_result_def Let_def split: if_splits option.splits)

text \<open>The request identifier of the next order, and the messages during its wait.\<close>

abbreviation next_request :: "'w outside \<Rightarrow> 'w \<Rightarrow> string" where
  "next_request os w \<equiv> generate_uuid (fst (os_random os 16 w))"

abbreviation wait_events :: "'w outside \<Rightarrow> 'w \<Rightarrow> socket_event list" where
  "wait_events os w \<equiv> fst (os_trade os (snd (os_random os 16 w)))"

abbreviation next_message :: "'w outside \<Rightarrow> 'w \<Rightarrow> string \<Rightarrow> side \<Rightarrow> dbl \<Rightarrow> bool \<Rightarrow> string" where
  "next_message os w symbol side qty lev \<equiv>
     order_message (next_request os w) (os_timestamp_ms os (snd (os_random os 16 w))) symbol side qty lev"

text \<open>An order over the trading socket is reported as filled only when it was sent and a message came in
  while the call waited that accepts this very request with code 0; one message at most is sent, and
  the promises stay in order.\<close>
lemma place_order_facts:
  assumes "trade_invar t" "place_order_sync j os symbol side qty lev t w = (o', t', w')"
  shows "trade_invar t' \<and> (ord_status o' = Filled \<or> ord_status o' = Rejected) \<and>
    (tw_sent t' = tw_sent t \<or> tw_sent t' = tw_sent t @ [next_message os w symbol side qty lev]) \<and>
    (ord_status o' = Filled \<longrightarrow> tw_sent t' = tw_sent t @ [next_message os w symbol side qty lev] \<and>
       (\<exists>m r. Incoming m \<in> set (wait_events os w) \<and> order_answer j m = Some (next_request os w, r) \<and>
          pr_ret_code r = 0 \<and> ord_id_str o' = pr_order_id r))"
proof (cases "trade_is_connected t")
  case True
  obtain r t2 w2 where d: "order_round (trade_on_message j) os (next_request os w) (next_message os w symbol side qty lev) t (snd (os_random os 16 w)) = (r, t2, w2)"
    by (metis prod_cases3)
  note f = bybit_socket.order_round_facts [OF assms(1) d]
  show ?thesis
  proof (cases r)
    case None
    then show ?thesis using assms(2) True d f by (auto simp: place_order_sync_def Let_def case_prod_unfold)
  next
    case (Some res)
    then have "o' = ack_order os res (order_default\<lparr>ord_exchange := Bybit, ord_side := side, ord_type := Market, ord_quantity := qty,
          ord_create_time := os_system_now os w\<rparr>)" "t' = t2"
      using assms(2) True d by (auto simp: place_order_sync_def Let_def case_prod_unfold)
    then show ?thesis using f(1,2) f(3) [OF Some] by (auto simp: ack_status dest: answer_success)
  qed
qed (use assms in \<open>auto simp: place_order_sync_def Let_def\<close>)

end
