(* ===== verification/Bybit.thy ===== *)
theory Bybit
  imports BybitTrade BithumbFeed
begin

text \<open>
  The Bybit adapter (\<^verbatim>\<open>src/exchange/bybit.cpp\<close>): the public stream of best quotes, lot sizes, spot-margin
  shorts over the trading socket with the REST interface behind it, repayment, balances, the
  private stream of fills and the deposit networks. The state extends \<open>account\<close>.
\<close>

section \<open>State\<close>

record lot_size =
  ls_min_qty :: dbl
  ls_qty_step :: dbl
  ls_min_notional :: dbl

definition lot_size_default :: lot_size where
  "lot_size_default = \<lparr>ls_min_qty = 0, ls_qty_step = 0, ls_min_notional = 0\<rparr>"

record 'w bybit = "'w account" +
  by_connected :: bool
  by_ws_up :: bool
  by_tickers :: "symbol_id list"
  by_orderbooks :: "symbol_id list"
  by_ticker_cache :: "symbol_id \<rightharpoonup> ticker"
  by_dispatched :: "ticker list"
  by_sent :: "string list"
  by_warned :: bool
  by_warnings :: "string list"
  by_lots :: "string \<rightharpoonup> lot_size"
  by_spot_margin_ready :: bool
  by_trade :: "trade_ws option"

definition bybit_dispatch_ticker :: "ticker \<Rightarrow> 'w bybit \<Rightarrow> 'w bybit" where
  "bybit_dispatch_ticker t a = a\<lparr>by_ticker_cache := (by_ticker_cache a)(tk_symbol t \<mapsto> t), by_dispatched := by_dispatched a @ [t]\<rparr>"

definition resolve_public_ws_endpoint :: "'w bybit \<Rightarrow> string" where
  "resolve_public_ws_endpoint a =
    (if xc_ws_endpoint (ac_credentials a) = [] then ''wss://stream.bybit.com/v5/public/spot'' else xc_ws_endpoint (ac_credentials a))"

section \<open>Quotes\<close>

definition parse_quoted_double_pair :: "string \<Rightarrow> string \<Rightarrow> (dbl \<times> dbl) option" where
  "parse_quoted_double_pair message marker =
    (case sv_find message marker 0 of None \<Rightarrow> None
     | Some start \<Rightarrow>
     let first_start = start + length marker in
     case sv_find message [CHR 0x22] first_start of None \<Rightarrow> None
     | Some first_end \<Rightarrow>
     (case sv_find message [CHR 0x22, CHR '','', CHR 0x22] first_end of None \<Rightarrow> None
      | Some second_marker \<Rightarrow>
      let second_start = second_marker + 3 in
      case sv_find message [CHR 0x22] second_start of None \<Rightarrow> None
      | Some second_end \<Rightarrow>
        Some (fast_stod (substr message first_start (first_end - first_start)) 0,
              fast_stod (substr message second_start (second_end - second_start)) 0)))"

definition ends_with :: "string \<Rightarrow> string \<Rightarrow> bool" where
  "ends_with s suffix \<longleftrightarrow> length suffix \<le> length s \<and> drop (length s - length suffix) s = suffix"

definition usdt_symbol :: "string \<Rightarrow> symbol_id" where
  "usdt_symbol s = SymbolId (take (length s - 4) s) ''USDT''"

text \<open>The name in the data, if there is one, must be the one of the topic.\<close>

definition data_symbol_agrees :: "string \<Rightarrow> string \<Rightarrow> nat \<Rightarrow> bool" where
  "data_symbol_agrees message topic_symbol symbol_end =
    (case sv_find message ''\"s\":\"'' symbol_end of None \<Rightarrow> True
     | Some data_start \<Rightarrow>
        let data_symbol_start = data_start + length ''\"s\":\"'' in
        case sv_find message [CHR 0x22] data_symbol_start of None \<Rightarrow> False
        | Some data_symbol_end \<Rightarrow> substr message data_symbol_start (data_symbol_end - data_symbol_start) = topic_symbol)"

definition parse_orderbook_fast :: "u64 \<Rightarrow> string \<Rightarrow> ticker \<Rightarrow> ticker \<times> bool" where
  "parse_orderbook_fast now message t =
    (case sv_find message ''\"topic\":\"orderbook.1.'' 0 of None \<Rightarrow> (t, False)
     | Some topic_start \<Rightarrow>
     let symbol_start = topic_start + length ''\"topic\":\"orderbook.1.'' in
     case sv_find message [CHR 0x22] symbol_start of None \<Rightarrow> (t, False)
     | Some symbol_end \<Rightarrow>
     let topic_symbol = substr message symbol_start (symbol_end - symbol_start) in
     if length topic_symbol \<le> 4 \<or> \<not> ends_with topic_symbol ''USDT'' then (t, False)
     else if \<not> data_symbol_agrees message topic_symbol symbol_end then (t, False)
     else case (parse_quoted_double_pair message ''\"b\":[[\"'', parse_quoted_double_pair message ''\"a\":[[\"'') of
       (Some (bid, bid_qty), Some (ask, ask_qty)) \<Rightarrow>
         (t\<lparr>tk_exchange := Bybit, tk_timestamp_ms := now, tk_symbol := usdt_symbol topic_symbol, tk_bid := bid, tk_bid_qty := bid_qty,
            tk_ask := ask, tk_ask_qty := ask_qty\<rparr>, 0 < bid \<and> 0 < ask)
     | _ \<Rightarrow> (t, False))"

text \<open>The last price is the cached one, or the middle.\<close>

definition with_last :: "'w bybit \<Rightarrow> ticker \<Rightarrow> ticker" where
  "with_last a t =
    (case by_ticker_cache a (tk_symbol t) of
       Some cached \<Rightarrow> if 0 < tk_last cached then t\<lparr>tk_last := tk_last cached\<rparr> else t\<lparr>tk_last := (tk_bid t + tk_ask t) * lit (1 / 2)\<rparr>
     | None \<Rightarrow> t\<lparr>tk_last := (tk_bid t + tk_ask t) * lit (1 / 2)\<rparr>)"

text \<open>A field that must be a text: \<open>None\<close> when it is missing or throws.\<close>

definition needed_number :: "'j json_api \<Rightarrow> 'j \<Rightarrow> dbl option" where
  "needed_number j value = (case text_number j value of Some (Some x) \<Rightarrow> Some x | _ \<Rightarrow> None)"

definition slow_ticker :: "'j json_api \<Rightarrow> 'j \<Rightarrow> ticker \<Rightarrow> ticker option" where
  "slow_ticker j data t =
    (case optional_text j (ja_field j data ''symbol'') of Some (Some symbol_str) \<Rightarrow>
       (let t = (if 4 < length symbol_str then t\<lparr>tk_symbol := usdt_symbol symbol_str\<rparr> else t) in
        case (needed_number j (ja_field j data ''lastPrice''), needed_number j (ja_field j data ''bid1Price''),
              text_number j (ja_field j data ''bid1Size''), needed_number j (ja_field j data ''ask1Price''),
              text_number j (ja_field j data ''ask1Size'')) of
          (Some price, Some bid, Some bid_qty, Some ask, Some ask_qty) \<Rightarrow>
            let t = t\<lparr>tk_last := price, tk_bid := bid, tk_ask := ask,
                  tk_bid_qty := (case bid_qty of Some q \<Rightarrow> q | None \<Rightarrow> tk_bid_qty t),
                  tk_ask_qty := (case ask_qty of Some q \<Rightarrow> q | None \<Rightarrow> tk_ask_qty t)\<rparr>
            in if 0 < price \<and> 0 < bid \<and> 0 < ask then Some t else None
        | _ \<Rightarrow> None)
     | _ \<Rightarrow> None)"

text \<open>The first row of a side: price and size.\<close>

definition first_row :: "'j json_api \<Rightarrow> 'j \<Rightarrow> (dbl \<times> dbl) option" where
  "first_row j rows =
    (case ja_array j rows of Some (row # _) \<Rightarrow>
       (case ja_array j row of Some (p # q # _) \<Rightarrow>
          (case (ja_string j p, ja_string j q) of (Some p, Some q) \<Rightarrow> Some (fast_stod p 0, fast_stod q 0) | _ \<Rightarrow> None)
        | _ \<Rightarrow> None)
     | _ \<Rightarrow> None)"

definition slow_orderbook :: "'j json_api \<Rightarrow> 'j \<Rightarrow> 'w bybit \<Rightarrow> ticker \<Rightarrow> ticker option" where
  "slow_orderbook j data a t =
    (case optional_text j (ja_field j data ''s'') of Some (Some symbol_str) \<Rightarrow>
       if length symbol_str \<le> 4 then None
       else (case (first_row j (ja_field j data ''b''), first_row j (ja_field j data ''a'')) of
          (Some (bid, bid_qty), Some (ask, ask_qty)) \<Rightarrow>
            let t = with_last a (t\<lparr>tk_symbol := usdt_symbol symbol_str, tk_bid := bid, tk_bid_qty := bid_qty, tk_ask := ask, tk_ask_qty := ask_qty\<rparr>)
            in if 0 < bid \<and> 0 < ask then Some t else None
        | _ \<Rightarrow> None)
     | _ \<Rightarrow> None)"

definition bybit_parse_ticker_message :: "'j json_api \<Rightarrow> u64 \<Rightarrow> string \<Rightarrow> 'w bybit \<Rightarrow> ticker option" where
  "bybit_parse_ticker_message j now message a =
    (case (if sv_contains message ''\"topic\":\"orderbook.1.'' then parse_orderbook_fast now message ticker_default else (ticker_default, False)) of (t, ok) \<Rightarrow>
       if ok then Some (with_last a t)
       else let doc = ja_iterate j message in
         case optional_text j (ja_field j doc ''topic'') of Some (Some topic_str) \<Rightarrow>
           (let data = ja_field j doc ''data''; t = t\<lparr>tk_exchange := Bybit, tk_timestamp_ms := now\<rparr> in
            if \<not> ja_ok j data then None
            else if take 8 topic_str = ''tickers.'' then slow_ticker j data t
            else if take 12 topic_str \<noteq> ''orderbook.1.'' then None
            else slow_orderbook j data a t)
         | _ \<Rightarrow> None)"

text \<open>The one warning is used up by the first message that is no ticker, whatever it is.\<close>

definition bybit_on_ws_message :: "'j json_api \<Rightarrow> u64 \<Rightarrow> string \<Rightarrow> 'w bybit \<Rightarrow> 'w bybit" where
  "bybit_on_ws_message j now message a =
    (case bybit_parse_ticker_message j now message a of Some t \<Rightarrow> bybit_dispatch_ticker t a
     | None \<Rightarrow>
        let warned = by_warned a; a = a\<lparr>by_warned := True\<rparr> in
        if \<not> warned \<and> sv_contains message ''orderbook.1.'' then a\<lparr>by_warnings := by_warnings a @ [take 240 message]\<rparr> else a)"

section \<open>Connection\<close>

definition BYBIT_BATCH_SIZE :: nat where "BYBIT_BATCH_SIZE = 10"

definition subscribe_request :: "string \<Rightarrow> symbol_id list \<Rightarrow> string" where
  "subscribe_request prefix symbols =
    ''{\"op\":\"subscribe\",\"args\":['' @ join_with '','' (map (\<lambda>s. quoted (prefix @ to_bybit_format s)) symbols) @ '']}''"

definition bybit_subscribe_ticker :: "symbol_id list \<Rightarrow> 'w bybit \<Rightarrow> 'w bybit" where
  "bybit_subscribe_ticker symbols a =
    (let a = a\<lparr>by_tickers := symbols\<rparr> in
     if \<not> by_ws_up a then a
     else a\<lparr>by_sent := by_sent a @ map (subscribe_request ''tickers.'') (batches BYBIT_BATCH_SIZE symbols)\<rparr>)"

definition bybit_subscribe_orderbook :: "symbol_id list \<Rightarrow> 'w bybit \<Rightarrow> 'w bybit" where
  "bybit_subscribe_orderbook symbols a =
    (let a = a\<lparr>by_orderbooks := symbols\<rparr> in
     if \<not> by_ws_up a then a
     else a\<lparr>by_sent := by_sent a @ map (subscribe_request ''orderbook.1.'') (batches BYBIT_BATCH_SIZE symbols)\<rparr>)"

definition bybit_on_ws_connected :: "'w bybit \<Rightarrow> 'w bybit" where
  "bybit_on_ws_connected a =
    (let a = a\<lparr>by_connected := True, by_ws_up := True\<rparr>;
         tickers = by_tickers a; orderbooks = by_orderbooks a;
         a = (if tickers = [] then a else bybit_subscribe_ticker tickers a)
     in if orderbooks = [] then a else bybit_subscribe_orderbook orderbooks a)"

definition bybit_on_ws_disconnected :: "'w bybit \<Rightarrow> 'w bybit" where
  "bybit_on_ws_disconnected a = a\<lparr>by_connected := False, by_ws_up := False\<rparr>"

definition bybit_disconnect :: "'w bybit \<Rightarrow> 'w bybit" where
  "bybit_disconnect a = a\<lparr>ac_private_ready := False, by_trade := map_option trade_disconnect (by_trade a), by_ws_up := False, by_connected := False\<rparr>"

section \<open>Public queries\<close>

text \<open>The lot of an instrument; a field that is no text throws.\<close>

definition lot_of :: "'j json_api \<Rightarrow> 'j \<Rightarrow> lot_size option" where
  "lot_of j lot =
    (case (text_number j (ja_field j lot ''minOrderQty''), text_number j (ja_field j lot ''qtyStep''), text_number j (ja_field j lot ''basePrecision''),
           text_number j (ja_field j lot ''minOrderAmt''), text_number j (ja_field j lot ''minNotionalValue'')) of
       (Some min_qty, Some step, base_precision, Some min_amt, Some min_notional) \<Rightarrow>
         (case (case step of Some s \<Rightarrow> Some (Some s) | None \<Rightarrow> base_precision) of None \<Rightarrow> None
          | Some step \<Rightarrow>
             let zero = (\<lambda>x. case x of Some v \<Rightarrow> v | None \<Rightarrow> 0);
                 amount = zero min_amt
             in Some \<lparr>ls_min_qty = zero min_qty, ls_qty_step = zero step,
                  ls_min_notional = (case min_notional of Some v \<Rightarrow> dmax amount v | None \<Rightarrow> amount)\<rparr>)
     | _ \<Rightarrow> None)"

definition instrument :: "'j json_api \<Rightarrow> 'j \<Rightarrow> symbol_id list \<times> 'w bybit \<Rightarrow> (symbol_id list \<times> 'w bybit) \<times> bool" where
  "instrument j item acc =
    (case acc of (symbols, a) \<Rightarrow>
     (case (ja_string j (ja_field j item ''symbol''), ja_string j (ja_field j item ''quoteCoin''), ja_string j (ja_field j item ''status''),
            optional_text j (ja_field j item ''marginTrading'')) of
        (Some symbol_str, Some quote, Some status, Some margin) \<Rightarrow>
          let margin_mode = (case margin of Some m \<Rightarrow> m | None \<Rightarrow> []) in
          if quote = ''USDT'' \<and> status = ''Trading'' \<and> margin_mode \<noteq> [] \<and> margin_mode \<noteq> ''none''
          then (case ja_string j (ja_field j item ''baseCoin'') of None \<Rightarrow> (acc, True)
             | Some base \<Rightarrow>
                let symbols = symbols @ [SymbolId base ''USDT'']; lot = ja_field j item ''lotSizeFilter'' in
                if \<not> ja_ok j lot then ((symbols, a), False)
                else case lot_of j lot of None \<Rightarrow> ((symbols, a), True)
                 | Some info \<Rightarrow> ((symbols, a\<lparr>by_lots := (by_lots a)(symbol_str \<mapsto> info)\<rparr>), False))
          else (acc, False)
      | _ \<Rightarrow> (acc, True)))"

definition bybit_get_available_symbols :: "'j json_api \<Rightarrow> 'w outside \<Rightarrow> 'w bybit \<Rightarrow> symbol_id list \<times> 'w bybit" where
  "bybit_get_available_symbols j os a =
    (case http_get os ''/v5/market/instruments-info?category=spot&limit=1000'' [] a of (response, a) \<Rightarrow>
       if \<not> hr_success response then ([], a)
       else case ja_array j (ja_field j (ja_field j (ja_iterate j (hr_body response)) ''result'') ''list'') of None \<Rightarrow> ([], a)
        | Some items \<Rightarrow> fst (fold_catching (instrument j) items ([], a)))"

definition rest_quote :: "'j json_api \<Rightarrow> u64 \<Rightarrow> 'j \<Rightarrow> ticker list \<Rightarrow> ticker list \<times> bool" where
  "rest_quote j now item tickers =
    (case ja_string j (ja_field j item ''symbol'') of None \<Rightarrow> (tickers, True)
     | Some symbol_str \<Rightarrow>
        if length symbol_str < 5 \<or> drop (length symbol_str - 4) symbol_str \<noteq> ''USDT'' then (tickers, False)
        else (case (ja_string j (ja_field j item ''lastPrice''), ja_string j (ja_field j item ''bid1Price''), text_number j (ja_field j item ''bid1Size''),
                    ja_string j (ja_field j item ''ask1Price''), text_number j (ja_field j item ''ask1Size'')) of
           (Some last_str, Some bid_str, Some bid_qty, Some ask_str, Some ask_qty) \<Rightarrow>
             let t = ticker_default\<lparr>tk_exchange := Bybit, tk_symbol := usdt_symbol symbol_str, tk_last := fast_stod last_str 0,
                   tk_bid := fast_stod bid_str 0, tk_bid_qty := (case bid_qty of Some q \<Rightarrow> q | None \<Rightarrow> 0),
                   tk_ask := fast_stod ask_str 0, tk_ask_qty := (case ask_qty of Some q \<Rightarrow> q | None \<Rightarrow> 0), tk_timestamp_ms := now\<rparr>
             in (if 0 < tk_last t then tickers @ [t] else tickers, False)
         | _ \<Rightarrow> (tickers, True)))"

definition bybit_fetch_all_tickers :: "'j json_api \<Rightarrow> 'w outside \<Rightarrow> 'w bybit \<Rightarrow> ticker list \<times> 'w bybit" where
  "bybit_fetch_all_tickers j os a =
    (case http_get os ''/v5/market/tickers?category=spot'' [] a of (response, a) \<Rightarrow>
       if \<not> hr_success response then ([], a)
       else case ja_array j (ja_field j (ja_field j (ja_iterate j (hr_body response)) ''result'') ''list'') of None \<Rightarrow> ([], a)
        | Some items \<Rightarrow> (fst (fold_catching (rest_quote j (os_steady_now os (world_of a))) items []), a))"

end
