(* ===== verification/BybitOrders.thy ===== *)
theory BybitOrders
  imports Bybit "HOL-Library.AList"
begin

text \<open>
  The trading side of the Bybit adapter (\<^verbatim>\<open>src/exchange/bybit.cpp\<close>): signed requests, lot rounding, the
  spot margin switch, shorts and their cover, repayment, balances and fills.
\<close>

section \<open>Signed requests\<close>

definition bybit_generate_signature :: "'w outside \<Rightarrow> int \<Rightarrow> string \<Rightarrow> 'w bybit \<Rightarrow> string" where
  "bybit_generate_signature os timestamp params a =
    hmac_sha256 os (xc_secret_key (ac_credentials a)) (int_text timestamp @ xc_api_key (ac_credentials a) @ ''5000'' @ params)"

definition bybit_build_auth_headers :: "'w outside \<Rightarrow> string \<Rightarrow> 'w bybit \<Rightarrow> (string \<times> string) list" where
  "bybit_build_auth_headers os params a =
    (let timestamp = os_timestamp_ms os (world_of a)
     in [(''X-BAPI-API-KEY'', xc_api_key (ac_credentials a)), (''X-BAPI-SIGN'', bybit_generate_signature os timestamp params a),
         (''X-BAPI-TIMESTAMP'', int_text timestamp), (''X-BAPI-RECV-WINDOW'', ''5000'')])"

definition signed_get :: "'w outside \<Rightarrow> string \<Rightarrow> string \<Rightarrow> 'w bybit \<Rightarrow> http_response \<times> 'w bybit" where
  "signed_get os path query a = http_get os (path @ (if query = [] then [] else ''?'' @ query)) (bybit_build_auth_headers os query a) a"

definition signed_post :: "'w outside \<Rightarrow> string \<Rightarrow> string \<Rightarrow> 'w bybit \<Rightarrow> http_response \<times> 'w bybit" where
  "signed_post os path body a = http_post os path body (header_put ''Content-Type'' ''application/json'' (bybit_build_auth_headers os body a)) a"

text \<open>An answer with code 0.\<close>

definition ret_code_ok :: "'j json_api \<Rightarrow> http_response \<Rightarrow> bool" where
  "ret_code_ok j response \<longleftrightarrow> hr_success response \<and>
     (case ja_int64 j (ja_field j (ja_iterate j (hr_body response)) ''retCode'') of None \<Rightarrow> False | Some code \<Rightarrow> to_int32 code = 0)"

section \<open>Lots\<close>

fun dfloor :: "dbl \<Rightarrow> dbl" where
  "dfloor (Fin x) = lit (of_int \<lfloor>x\<rfloor>)"
| "dfloor x = x"

fun dceil :: "dbl \<Rightarrow> dbl" where
  "dceil (Fin x) = lit (of_int \<lceil>x\<rceil>)"
| "dceil x = x"

definition QTY_EPSILON :: dbl where "QTY_EPSILON = lit (1 / 10 ^ 9)"

definition lot_step :: "lot_size \<Rightarrow> dbl" where
  "lot_step info = (if 0 < ls_qty_step info then ls_qty_step info else 0)"

definition price_hint :: "bool \<Rightarrow> ticker option \<Rightarrow> dbl" where
  "price_hint is_open cached =
    (case cached of None \<Rightarrow> 0
     | Some c \<Rightarrow> if is_open then (if 0 < tk_bid c then tk_bid c else tk_last c) else (if 0 < tk_ask c then tk_ask c else tk_last c))"

definition normalize_order_qty :: "symbol_id \<Rightarrow> dbl \<Rightarrow> bool \<Rightarrow> 'w bybit \<Rightarrow> dbl" where
  "normalize_order_qty symbol qty is_open a =
    (if qty \<le> 0 then 0
     else case by_lots a (to_bybit_format symbol) of None \<Rightarrow> qty
      | Some info \<Rightarrow>
         let step = lot_step info;
             qty = (if 0 < step then dfloor (qty / step + QTY_EPSILON) * step else qty) in
         if qty < ls_min_qty info then 0
         else let hint = price_hint is_open (by_ticker_cache a symbol) in
           if 0 < ls_min_notional info \<and> 0 < hint \<and> qty * hint < ls_min_notional info then 0 else qty)"

definition normalize_close_qty :: "symbol_id \<Rightarrow> dbl \<Rightarrow> 'w bybit \<Rightarrow> dbl" where
  "normalize_close_qty symbol qty a =
    (if qty \<le> 0 then 0
     else case by_lots a (to_bybit_format symbol) of None \<Rightarrow> qty
      | Some info \<Rightarrow>
         let step = lot_step info;
             qty = (if 0 < step then dceil (qty / step - QTY_EPSILON) * step else qty)
         in if qty < ls_min_qty info then ls_min_qty info else qty)"

section \<open>Orders\<close>

definition side_text :: "side \<Rightarrow> string" where
  "side_text side = (if side = Buy then ''Buy'' else ''Sell'')"

definition rest_order_body :: "string \<Rightarrow> side \<Rightarrow> dbl \<Rightarrow> bool \<Rightarrow> string" where
  "rest_order_body symbol side qty leverage =
    ''{\"category\":\"spot\",\"symbol\":\"'' @ symbol @ ''\",\"side\":\"'' @ side_text side @ ''\",'' @
    ''\"orderType\":\"Market\",\"qty\":\"'' @ format_fixed 8 qty @ ''\",'' @ (if leverage then ''\"isLeverage\":1,'' else []) @
    ''\"orderFilter\":\"Order\",\"marketUnit\":\"baseCoin\"}''"

definition parse_order_response :: "'j json_api \<Rightarrow> 'w outside \<Rightarrow> string \<Rightarrow> order \<Rightarrow> order \<times> bool" where
  "parse_order_response j os response o' =
    (let doc = ja_iterate j response in
     case ja_int64 j (ja_field j doc ''retCode'') of None \<Rightarrow> (o'\<lparr>ord_status := Rejected\<rparr>, False)
     | Some code \<Rightarrow>
        if to_int32 code = 0
        then case ja_string j (ja_field j (ja_field j doc ''result'') ''orderId'') of None \<Rightarrow> (o'\<lparr>ord_status := Rejected\<rparr>, False)
          | Some order_id \<Rightarrow> (o'\<lparr>ord_status := Filled, ord_exchange_order_id := os_hash os order_id, ord_id_str := order_id\<rparr>, True)
        else (o'\<lparr>ord_status := Rejected\<rparr>, ja_string j (ja_field j doc ''retMsg'') \<noteq> None))"

definition new_order :: "'w outside \<Rightarrow> symbol_id \<Rightarrow> side \<Rightarrow> dbl \<Rightarrow> 'w bybit \<Rightarrow> order \<times> 'w bybit" where
  "new_order os symbol side qty a =
    (case generate_order_id a of (client_id, a) \<Rightarrow>
       (order_default\<lparr>ord_exchange := Bybit, ord_symbol := symbol, ord_side := side, ord_type := Market, ord_quantity := qty,
          ord_client_order_id := client_id, ord_create_time := os_system_now os (world_of a)\<rparr>, a))"

text \<open>An order over the REST interface; the flag tells whether the venue answered.\<close>

definition rest_order ::
    "'j json_api \<Rightarrow> 'w outside \<Rightarrow> side \<Rightarrow> bool \<Rightarrow> order \<Rightarrow> 'w bybit \<Rightarrow> order \<times> bool \<times> 'w bybit" where
  "rest_order j os side leverage o' a =
    (case snprintf_checked 512 (rest_order_body (to_bybit_format (ord_symbol o')) side (ord_quantity o') leverage) of
       None \<Rightarrow> (o'\<lparr>ord_status := Rejected\<rparr>, False, a)
     | Some body \<Rightarrow>
        (case signed_post os ''/v5/order/create'' body a of (response, a) \<Rightarrow>
           if \<not> hr_success response then (o'\<lparr>ord_status := Rejected\<rparr>, False, a)
           else (fst (parse_order_response j os (hr_body response) o'), True, a)))"

definition bybit_place_market_order :: "'j json_api \<Rightarrow> 'w outside \<Rightarrow> symbol_id \<Rightarrow> side \<Rightarrow> dbl \<Rightarrow> 'w bybit \<Rightarrow> order \<times> 'w bybit" where
  "bybit_place_market_order j os symbol side quantity a =
    (case new_order os symbol side quantity a of (o', a) \<Rightarrow>
     (case rest_order j os side False o' a of (o', _, a) \<Rightarrow> (o', a)))"

definition ensure_spot_margin_mode :: "'j json_api \<Rightarrow> 'w outside \<Rightarrow> 'w bybit \<Rightarrow> bool \<times> 'w bybit" where
  "ensure_spot_margin_mode j os a =
    (if by_spot_margin_ready a then (True, a)
     else if xc_api_key (ac_credentials a) = [] \<or> xc_secret_key (ac_credentials a) = [] then (False, a)
     else case signed_get os ''/v5/spot-margin-trade/state'' [] a of (response, a) \<Rightarrow>
       let mode = ja_field j (ja_field j (ja_iterate j (hr_body response)) ''result'') ''spotMarginMode'' in
       if hr_success response \<and> ja_ok j mode \<and> ja_string j mode = Some ''1'' then (True, a\<lparr>by_spot_margin_ready := True\<rparr>)
       else (case signed_post os ''/v5/spot-margin-trade/switch-mode'' ''{\"spotMarginMode\":\"1\"}'' a of (response, a) \<Rightarrow>
         if \<not> hr_success response then (False, a) else (True, a\<lparr>by_spot_margin_ready := True\<rparr>)))"

text \<open>The order over the trading socket, when it is there; \<open>None\<close> when it is not used or not accepted.\<close>

definition ws_order :: "'j json_api \<Rightarrow> 'w outside \<Rightarrow> side \<Rightarrow> order \<Rightarrow> 'w bybit \<Rightarrow> order option \<times> 'w bybit" where
  "ws_order j os side o' a =
    (case by_trade a of None \<Rightarrow> (None, a)
     | Some t \<Rightarrow>
        if \<not> trade_is_connected t then (None, a)
        else case place_order_sync j os (to_bybit_format (ord_symbol o')) side (ord_quantity o') True t (world_of a) of (w_order, t, w) \<Rightarrow>
          let a = a\<lparr>by_trade := Some t, ac_line := (ac_line a)\<lparr>ln_world := w\<rparr>\<rparr> in
          if ord_status w_order = Rejected then (None, a)
          else (Some (w_order\<lparr>ord_symbol := ord_symbol o', ord_quantity := ord_quantity o', ord_client_order_id := ord_client_order_id o'\<rparr>), a))"

text \<open>What opening and covering a short have in common; the flag tells whether the venue answered.\<close>

definition short_order :: "'j json_api \<Rightarrow> 'w outside \<Rightarrow> side \<Rightarrow> order \<Rightarrow> 'w bybit \<Rightarrow> order \<times> bool \<times> 'w bybit" where
  "short_order j os side o' a =
    (case ensure_spot_margin_mode j os a of (ready, a) \<Rightarrow>
       if \<not> ready then (o'\<lparr>ord_status := Rejected\<rparr>, False, a)
       else case ws_order j os side o' a of
         (Some w_order, a) \<Rightarrow> (w_order, True, a)
       | (None, a) \<Rightarrow> rest_order j os side True o' a)"

definition invalid_order :: "symbol_id \<Rightarrow> side \<Rightarrow> order" where
  "invalid_order symbol side = order_default\<lparr>ord_exchange := Bybit, ord_symbol := symbol, ord_side := side, ord_type := Market, ord_status := Rejected\<rparr>"

definition open_short :: "'j json_api \<Rightarrow> 'w outside \<Rightarrow> symbol_id \<Rightarrow> dbl \<Rightarrow> 'w bybit \<Rightarrow> order \<times> 'w bybit" where
  "open_short j os symbol quantity a =
    (let adj_qty = normalize_order_qty symbol quantity True a in
     if adj_qty \<le> 0 then (invalid_order symbol Sell, a)
     else case new_order os symbol Sell adj_qty a of (o', a) \<Rightarrow>
       (case short_order j os Sell o' a of (o', _, a) \<Rightarrow> (o', a)))"

definition repay_margin_borrow :: "'j json_api \<Rightarrow> 'w outside \<Rightarrow> string \<Rightarrow> 'w bybit \<Rightarrow> bool \<times> 'w bybit" where
  "repay_margin_borrow j os coin a =
    (case snprintf_checked 128 (''{\"coin\":\"'' @ coin @ ''\"}'') of None \<Rightarrow> (False, a)
     | Some body \<Rightarrow>
        (case signed_post os ''/v5/account/quick-repayment'' body a of (response, a) \<Rightarrow>
           if \<not> hr_success response then (False, a)
           else (ja_int64 j (ja_field j (ja_iterate j (hr_body response)) ''retCode'') = Some 0, a)))"

definition close_short :: "'j json_api \<Rightarrow> 'w outside \<Rightarrow> symbol_id \<Rightarrow> dbl \<Rightarrow> 'w bybit \<Rightarrow> order \<times> 'w bybit" where
  "close_short j os symbol quantity a =
    (let adj_qty = normalize_close_qty symbol quantity a in
     if adj_qty \<le> 0 then (invalid_order symbol Buy, a)
     else case new_order os symbol Buy adj_qty a of (o', a) \<Rightarrow>
       (case short_order j os Buy o' a of (o', done, a) \<Rightarrow>
          if done then (o', snd (repay_margin_borrow j os (get_base symbol) a)) else (o', a)))"

definition bybit_cancel_order :: "u64 \<Rightarrow> bool" where
  "bybit_cancel_order order_id = False"

definition prepare_shorting :: "'j json_api \<Rightarrow> 'w outside \<Rightarrow> symbol_id \<Rightarrow> 'w bybit \<Rightarrow> bool \<times> 'w bybit" where
  "prepare_shorting j os symbol a =
    (case ensure_spot_margin_mode j os a of (ready, a) \<Rightarrow>
       if \<not> ready then (False, a)
       else case snprintf_checked 128 (''{\"coin\":\"'' @ get_base symbol @ ''\",\"collateralSwitch\":\"ON\"}'') of None \<Rightarrow> (False, a)
        | Some body \<Rightarrow>
           (case signed_post os ''/v5/account/set-collateral-switch'' body a of (response, a) \<Rightarrow>
              if \<not> hr_success response then (False, a)
              else let doc = ja_iterate j (hr_body response) in
                case ja_int64 j (ja_field j doc ''retCode'') of None \<Rightarrow> (False, a)
                | Some code \<Rightarrow> (to_int32 code = 0 \<or> to_int32 code = 3000002 \<and> ja_string j (ja_field j doc ''retMsg'') \<noteq> None, a)))"

section \<open>Positions and balances\<close>

definition borrowed_position :: "'j json_api \<Rightarrow> 'w bybit \<Rightarrow> 'j \<Rightarrow> position list \<Rightarrow> position list \<times> bool" where
  "borrowed_position j a coin positions =
    (case text_number j (ja_field j coin ''borrowAmount'') of
       None \<Rightarrow> (positions, True)
     | Some None \<Rightarrow> (positions, False)
     | Some (Some borrow_amount) \<Rightarrow>
        if borrow_amount \<le> 0 then (positions, False)
        else case ja_string j (ja_field j coin ''coin'') of None \<Rightarrow> (positions, True)
         | Some coin_name \<Rightarrow>
            if coin_name = ''USDT'' then (positions, False)
            else let pos = position_default\<lparr>pos_symbol := SymbolId coin_name ''USDT'', pos_foreign_exchange := Bybit,
                       pos_foreign_amount := borrow_amount, pos_is_active := True\<rparr>;
                     pos = (case by_ticker_cache a (pos_symbol pos) of None \<Rightarrow> pos
                       | Some mark \<Rightarrow> pos\<lparr>pos_foreign_entry_price := (if 0 < tk_bid mark then tk_bid mark else tk_last mark)\<rparr>)
              in (positions @ [pos], False))"

text \<open>A loop over the coins of the accounts of a wallet.\<close>

definition wallet_loop :: "'j json_api \<Rightarrow> ('j \<Rightarrow> 's \<Rightarrow> 's \<times> bool) \<Rightarrow> 'j \<Rightarrow> 's \<Rightarrow> 's \<times> bool" where
  "wallet_loop j coin_step doc s =
    (case ja_array j (ja_field j (ja_field j doc ''result'') ''list'') of None \<Rightarrow> (s, True)
     | Some accounts \<Rightarrow>
        fold_catching (\<lambda>account s. case ja_array j (ja_field j account ''coin'') of None \<Rightarrow> (s, True) | Some coins \<Rightarrow> fold_catching coin_step coins s)
          accounts s)"

definition get_short_positions :: "'j json_api \<Rightarrow> 'w outside \<Rightarrow> 'w bybit \<Rightarrow> position list \<times> 'w bybit" where
  "get_short_positions j os a =
    (case signed_get os ''/v5/account/wallet-balance'' ''accountType=UNIFIED'' a of (response, a) \<Rightarrow>
       if \<not> hr_success response then ([], a)
       else (fst (wallet_loop j (borrowed_position j a) (ja_iterate j (hr_body response)) []), a))"

definition close_short_position :: "'j json_api \<Rightarrow> 'w outside \<Rightarrow> symbol_id \<Rightarrow> 'w bybit \<Rightarrow> bool \<times> 'w bybit" where
  "close_short_position j os symbol a =
    (case get_short_positions j os a of (positions, a) \<Rightarrow>
     (case find (\<lambda>pos. pos_symbol pos = symbol \<and> 0 < pos_foreign_amount pos) positions of None \<Rightarrow> (True, a)
      | Some pos \<Rightarrow> (case close_short j os symbol (pos_foreign_amount pos) a of (o', a) \<Rightarrow> (ord_status o' = Filled, a))))"

text \<open>The balance of the first coin of that name; it ends the loop, as an exception does.\<close>

definition wallet_balance :: "'j json_api \<Rightarrow> string \<Rightarrow> 'j \<Rightarrow> dbl \<Rightarrow> dbl \<times> bool" where
  "wallet_balance j currency coin found =
    (case ja_string j (ja_field j coin ''coin'') of None \<Rightarrow> (found, True)
     | Some coin_name \<Rightarrow>
        if coin_name \<noteq> currency then (found, False)
        else case ja_string j (ja_field j coin ''walletBalance'') of None \<Rightarrow> (found, True) | Some s \<Rightarrow> (fast_stod s 0, True))"

definition bybit_get_balance :: "'j json_api \<Rightarrow> 'w outside \<Rightarrow> string \<Rightarrow> 'w bybit \<Rightarrow> dbl \<times> 'w bybit" where
  "bybit_get_balance j os currency a =
    (case signed_get os ''/v5/account/wallet-balance'' ''accountType=UNIFIED'' a of (response, a) \<Rightarrow>
       if \<not> ret_code_ok j response then (0, a)
       else (fst (wallet_loop j (wallet_balance j currency) (ja_iterate j (hr_body response)) 0), a))"

text \<open>The amounts of a coin are added in the order of the code; one that is no text throws.\<close>

definition balance_fields :: "(string \<times> (dbl \<Rightarrow> account_balance \<Rightarrow> account_balance)) list" where
  "balance_fields =
    [(''walletBalance'', \<lambda>x b. b\<lparr>ab_total := ab_total b + x\<rparr>), (''locked'', \<lambda>x b. b\<lparr>ab_locked := ab_locked b + x\<rparr>),
     (''free'', \<lambda>x b. b\<lparr>ab_available := ab_available b + x\<rparr>), (''borrowAmount'', \<lambda>x b. b\<lparr>ab_liability := ab_liability b + x\<rparr>)]"

definition add_balance_field ::
    "'j json_api \<Rightarrow> 'j \<Rightarrow> string \<times> (dbl \<Rightarrow> account_balance \<Rightarrow> account_balance) \<Rightarrow> account_balance \<Rightarrow> account_balance \<times> bool" where
  "add_balance_field j coin field b =
    (case field of (name, add) \<Rightarrow>
     (case text_number j (ja_field j coin name) of None \<Rightarrow> (b, True) | Some None \<Rightarrow> (b, False) | Some (Some x) \<Rightarrow> (add x b, False)))"

definition add_balance :: "'j json_api \<Rightarrow> 'j \<Rightarrow> (string \<times> account_balance) list \<Rightarrow> (string \<times> account_balance) list \<times> bool" where
  "add_balance j coin balances =
    (case ja_string j (ja_field j coin ''coin'') of None \<Rightarrow> (balances, True)
     | Some currency \<Rightarrow>
        let b = (case map_of balances currency of None \<Rightarrow> balance_default | Some b \<Rightarrow> b);
            (b, thrown) = fold_catching (add_balance_field j coin) balance_fields (b\<lparr>ab_currency := currency\<rparr>)
        in (AList.update currency b balances, thrown))"

definition with_available :: "account_balance \<Rightarrow> account_balance" where
  "with_available b = (if ab_available b = 0 then b\<lparr>ab_available := ab_total b - ab_locked b\<rparr> else b)"

definition bybit_get_all_balances :: "'j json_api \<Rightarrow> 'w outside \<Rightarrow> 'w bybit \<Rightarrow> account_balance list \<times> 'w bybit" where
  "bybit_get_all_balances j os a =
    (case signed_get os ''/v5/account/wallet-balance'' ''accountType=UNIFIED'' a of (response, a) \<Rightarrow>
       let balances = (if \<not> ret_code_ok j response then [] else fst (wallet_loop j (add_balance j) (ja_iterate j (hr_body response)) []));
           balances = map with_available (map snd balances);
           balances = filter (\<lambda>b. \<not> (is_dust (ab_total b) \<and> is_dust (ab_available b) \<and> is_dust (ab_locked b) \<and> is_dust (ab_liability b))) balances
       in (by_currency balances, a))"

section \<open>Fills\<close>

definition authenticate_private_ws :: "'w outside \<Rightarrow> 'w bybit \<Rightarrow> 'w bybit" where
  "authenticate_private_ws os a = a\<lparr>ac_private_sent := ac_private_sent a @ [auth_message os (ac_credentials a) (world_of a)]\<rparr>"

definition order_item :: "'j json_api \<Rightarrow> 'j \<Rightarrow> fills \<Rightarrow> fills \<times> bool" where
  "order_item j item fs =
    (case optional_text j (ja_field j item ''orderStatus'') of None \<Rightarrow> (fs, True)
     | Some status \<Rightarrow>
        if status \<noteq> Some ''Filled'' then (fs, False)
        else case optional_text j (ja_field j item ''orderId'') of None \<Rightarrow> (fs, True)
         | Some None \<Rightarrow> (fs, False)
         | Some (Some order_id) \<Rightarrow>
            (case (text_number j (ja_field j item ''avgPrice''), text_number j (ja_field j item ''cumExecQty'')) of
               (Some avg, Some qty) \<Rightarrow>
                 let fi = \<lparr>fi_avg_price = (case avg of Some x \<Rightarrow> x | None \<Rightarrow> 0), fi_filled_qty = (case qty of Some x \<Rightarrow> x | None \<Rightarrow> 0)\<rparr>
                 in (if 0 < fi_avg_price fi \<and> 0 < fi_filled_qty fi then fs(order_id \<mapsto> fi) else fs, False)
             | _ \<Rightarrow> (fs, True)))"

definition bybit_on_private_ws_message :: "'j json_api \<Rightarrow> string \<Rightarrow> 'w bybit \<Rightarrow> 'w bybit" where
  "bybit_on_private_ws_message j message a =
    (let doc = ja_iterate j message; op = ja_field j doc ''op''; success = ja_field j doc ''success''; topic = ja_field j doc ''topic'' in
     if ja_ok j op
     then if ja_string j op = Some ''auth'' \<and> ja_ok j success \<and> ja_bool j success = Some True
       then a\<lparr>ac_private_ready := True, ac_private_sent := ac_private_sent a @ [''{\"op\":\"subscribe\",\"args\":[\"order\"]}'']\<rparr>
       else a
     else if ja_ok j topic \<and> ja_string j topic = Some ''order''
     then case ja_array j (ja_field j doc ''data'') of None \<Rightarrow> a
       | Some items \<Rightarrow> a\<lparr>ac_fills := fst (fold_catching (order_item j) items (ac_fills a))\<rparr>
     else a)"

definition bybit_private_disconnected :: "'w bybit \<Rightarrow> 'w bybit" where
  "bybit_private_disconnected a = a\<lparr>ac_private_ready := False\<rparr>"

text \<open>What a query adds to the order stays when a later field throws.\<close>

definition fill_item :: "'j json_api \<Rightarrow> 'j \<Rightarrow> order \<Rightarrow> order \<times> bool" where
  "fill_item j item o' =
    (case text_number j (ja_field j item ''avgPrice'') of None \<Rightarrow> (o', True)
     | Some p \<Rightarrow>
        let o' = (case p of Some price \<Rightarrow> if 0 < price then o'\<lparr>ord_average_price := price\<rparr> else o' | None \<Rightarrow> o') in
        case text_number j (ja_field j item ''cumExecQty'') of None \<Rightarrow> (o', True)
        | Some q \<Rightarrow> (case q of Some qty \<Rightarrow> if 0 < qty then o'\<lparr>ord_filled_quantity := qty\<rparr> else o' | None \<Rightarrow> o', False))"

text \<open>One query of the REST interface; only the first item of the list is read. The loop over a list that is missing
  runs once over an error, whose fields count as absent.\<close>

definition fill_query :: "'j json_api \<Rightarrow> 'w outside \<Rightarrow> string \<Rightarrow> order \<Rightarrow> 'w bybit \<Rightarrow> bool \<times> order \<times> 'w bybit" where
  "fill_query j os order_id o' a =
    (case signed_get os ''/v5/order/realtime'' (''category=spot&orderId='' @ order_id) a of (response, a) \<Rightarrow>
       if \<not> ret_code_ok j response then (False, o', a)
       else case ja_array j (ja_field j (ja_field j (ja_iterate j (hr_body response)) ''result'') ''list'') of
         Some (item # _) \<Rightarrow>
           (case fill_item j item o' of (o', thrown) \<Rightarrow>
              (\<not> thrown \<and> 0 < ord_average_price o' \<and> 0 < ord_filled_quantity o', o', a))
       | Some [] \<Rightarrow> (False, o', a)
       | None \<Rightarrow> (0 < ord_average_price o' \<and> 0 < ord_filled_quantity o', o', a))"

definition FILL_RETRIES :: nat where "FILL_RETRIES = 5"

fun fill_queries :: "'j json_api \<Rightarrow> 'w outside \<Rightarrow> string \<Rightarrow> nat \<Rightarrow> order \<Rightarrow> 'w bybit \<Rightarrow> bool \<times> order \<times> 'w bybit" where
  "fill_queries j os order_id 0 o' a = (False, o', a)"
| "fill_queries j os order_id (Suc n) o' a =
    (case fill_query j os order_id o' a of (True, o', a) \<Rightarrow> (True, o', a) | (False, o', a) \<Rightarrow> fill_queries j os order_id n o' a)"

definition query_order_fill :: "'j json_api \<Rightarrow> 'w outside \<Rightarrow> string \<Rightarrow> order \<Rightarrow> 'w bybit \<Rightarrow> bool \<times> order \<times> 'w bybit" where
  "query_order_fill j os order_id o' a =
    (if \<not> ac_private_ready a then fill_queries j os order_id FILL_RETRIES o' a
     else case take_fill order_id o' a of Some (o', a) \<Rightarrow> (True, o', a)
      | None \<Rightarrow>
         let a = wait_private os (bybit_on_private_ws_message j) a in
         case take_fill order_id o' a of Some (o', a) \<Rightarrow> (True, o', a)
         | None \<Rightarrow> fill_queries j os order_id FILL_RETRIES o' a)"

section \<open>Deposit networks\<close>

definition deposit_ok :: "'j json_api \<Rightarrow> 'j \<Rightarrow> bool" where
  "deposit_ok j dep =
    (case ja_string j dep of Some s \<Rightarrow> s = ''1'' \<or> s = ''true''
     | None \<Rightarrow> (case ja_int64 j dep of Some n \<Rightarrow> n \<noteq> 0 | None \<Rightarrow> False))"

definition deposit_chain :: "'j json_api \<Rightarrow> 'j \<Rightarrow> string list \<Rightarrow> string list" where
  "deposit_chain j chain_item nets =
    (if \<not> deposit_ok j (ja_field j chain_item ''chainDeposit'') then nets
     else let chain_name = (case ja_string j (ja_field j chain_item ''chain'') of Some n \<Rightarrow> scan_normalize_chain n
            | None \<Rightarrow> (case ja_string j (ja_field j chain_item ''chainType'') of Some n \<Rightarrow> scan_normalize_chain n | None \<Rightarrow> []))
       in if chain_name = [] then nets else List.insert chain_name nets)"

definition deposit_row :: "'j json_api \<Rightarrow> 'j \<Rightarrow> (string \<rightharpoonup> string list) \<Rightarrow> (string \<rightharpoonup> string list)" where
  "deposit_row j row result =
    (case ja_string j (ja_field j row ''coin'') of None \<Rightarrow> result
     | Some coin \<Rightarrow>
        let nets = (case ja_array j (ja_field j row ''chains'') of None \<Rightarrow> [] | Some cs \<Rightarrow> fold (deposit_chain j) cs [])
        in if nets = [] then result else result(coin \<mapsto> nets))"

definition fetch_deposit_networks :: "'j json_api \<Rightarrow> 'w outside \<Rightarrow> 'w bybit \<Rightarrow> (string \<rightharpoonup> string list) \<times> 'w bybit" where
  "fetch_deposit_networks j os a =
    (if xc_api_key (ac_credentials a) = [] \<or> xc_secret_key (ac_credentials a) = [] then (Map.empty, a)
     else case signed_get os ''/v5/asset/coin/query-info'' [] a of (response, a) \<Rightarrow>
       if \<not> hr_success response then (Map.empty, a)
       else let doc = ja_iterate j (hr_body response) in
         if ja_int64 j (ja_field j doc ''retCode'') \<noteq> Some 0 then (Map.empty, a)
         else case ja_array j (ja_field j (ja_field j doc ''result'') ''rows'') of None \<Rightarrow> (Map.empty, a)
          | Some rows \<Rightarrow> (fold (deposit_row j) rows Map.empty, a))"

end
