(* ===== verification/BybitSafety.thy ===== *)
theory BybitSafety
  imports BybitOrders
begin

text \<open>
  What the Bybit adapter guarantees: which orders a short puts on the wire and when it counts as
  filled, that fills are sound, that quotes are positive, and that rounding to lots keeps
  quantities that are whole lots.
\<close>

section \<open>Fills\<close>

lemma dbl_pos_facts: "0 < x \<Longrightarrow> \<not> x \<le> 0" "0 < x \<Longrightarrow> \<not> x < (0 :: dbl)"
  using dbl_lt_not_le [of 0 x] dbl_lt_le [of x 0] by blast+

lemma positive_fill: "0 < p \<Longrightarrow> 0 < q \<Longrightarrow> fill_ok \<lparr>fi_avg_price = p, fi_filled_qty = q\<rparr>"
  by (simp add: fill_ok_def dbl_pos_facts)

lemma order_item_fills: "fills_ok fs \<Longrightarrow> fills_ok (fst (order_item j item fs))"
  by (auto simp: order_item_def Let_def positive_fill intro!: fills_ok_put split: option.splits)

lemma bybit_message_fills:
  assumes "fills_ok (ac_fills a)"
  shows "fills_ok (ac_fills (bybit_on_private_ws_message j m a))"
proof -
  have "fills_ok (fst (fold_catching (order_item j) items (ac_fills a)))" for items
    by (rule fold_catching_invar [where P = fills_ok]) (simp_all add: assms order_item_fills)
  then show ?thesis using assms by (simp add: bybit_on_private_ws_message_def Let_def split: option.split)
qed

lemma bybit_message_line: "ac_line (bybit_on_private_ws_message j m a) = ac_line a"
  by (simp add: bybit_on_private_ws_message_def Let_def split: option.split)

interpretation bybit_fills: fill_stream "bybit_on_private_ws_message j"
  by unfold_locales (rule bybit_message_fills, assumption, rule bybit_message_line)

lemma signed_simps [simp]: "ac_fills (snd (signed_get os p q a)) = ac_fills a" "ac_fills (snd (signed_post os p q a)) = ac_fills a"
  by (simp_all add: signed_get_def signed_post_def)

lemma fill_item_same: "same_order o' (fst (fill_item j item o'))"
  by (auto simp: fill_item_def Let_def split: option.split)

lemma fill_query_ok:
  assumes "fill_query j os i o' a = (ok, o2, a2)"
  shows "ac_fills a2 = ac_fills a \<and> same_order o' o2 \<and> (ok \<longrightarrow> 0 < ord_average_price o2 \<and> 0 < ord_filled_quantity o2)"
  using assms fill_item_same [of o' j] by (auto simp: fill_query_def case_prod_unfold split: if_splits option.splits list.splits)

lemma fill_queries_ok:
  "fill_queries j os i n o' a = (ok, o2, a2) \<Longrightarrow>
    ac_fills a2 = ac_fills a \<and> same_order o' o2 \<and> (ok \<longrightarrow> 0 < ord_average_price o2 \<and> 0 < ord_filled_quantity o2)"
proof (induction n arbitrary: o' a)
  case (Suc n)
  obtain k o3 a3 where q: "fill_query j os i o' a = (k, o3, a3)" by (metis prod_cases3)
  show ?case
  proof (cases k)
    case False
    then have "fill_queries j os i n o3 a3 = (ok, o2, a2)" using Suc.prems q by simp
    from Suc.IH [OF this] fill_query_ok [OF q] show ?thesis using same_order_trans by fastforce
  qed (use Suc.prems fill_query_ok [OF q] q in auto)
qed simp

lemma positive_filled: "0 < ord_average_price o' \<Longrightarrow> 0 < ord_filled_quantity o' \<Longrightarrow> order_filled o'"
  by (simp add: order_filled_def dbl_pos_facts)

text \<open>A Bybit fill query that reports success has filled in a quantity and a price that are not zero or
  negative, from the private stream or from the REST interface, and changed nothing else of the order.\<close>

lemma bybit_fill_query_sound:
  assumes "fills_ok (ac_fills a)" "query_order_fill j os order_id o' a = (ok, o2, a2)"
  shows "fills_ok (ac_fills a2) \<and> same_order o' o2 \<and> (ok \<longrightarrow> order_filled o2)"
proof -
  have r: "fills_ok (ac_fills a2) \<and> same_order o' o2 \<and> (ok \<longrightarrow> order_filled o2)"
    if "fill_queries j os order_id n o' b = (ok, o2, a2)" "fills_ok (ac_fills b)" for n b
    using fill_queries_ok [OF that(1)] that(2) positive_filled by simp
  have w: "fills_ok (ac_fills (wait_private os (bybit_on_private_ws_message j) a))" by (rule bybit_fills.wait_fills [OF assms(1)])
  show ?thesis
    using assms(2) r [OF _ assms(1)] r [OF _ w]
    by (auto simp: query_order_fill_def Let_def dest: take_fill_ok [OF assms(1)] bybit_fills.waited_fill [OF assms(1)] split: if_splits option.splits)
qed

section \<open>Quotes\<close>

lemma with_last_simps [simp]:
  "tk_bid (with_last a t) = tk_bid t" "tk_ask (with_last a t) = tk_ask t" "tk_exchange (with_last a t) = tk_exchange t"
  by (simp_all add: with_last_def split: option.split)

lemma fast_book_positive: "parse_orderbook_fast now m t = (t', True) \<Longrightarrow> 0 < tk_bid t' \<and> 0 < tk_ask t' \<and> tk_exchange t' = Bybit"
  by (auto simp: parse_orderbook_fast_def Let_def split: option.splits if_splits prod.splits)

lemma slow_positive:
  "slow_ticker j d t = Some t' \<Longrightarrow> tk_exchange t = Bybit \<Longrightarrow> 0 < tk_bid t' \<and> 0 < tk_ask t' \<and> tk_exchange t' = Bybit"
  "slow_orderbook j d a t = Some t' \<Longrightarrow> tk_exchange t = Bybit \<Longrightarrow> 0 < tk_bid t' \<and> 0 < tk_ask t' \<and> tk_exchange t' = Bybit"
  by (auto simp: slow_ticker_def slow_orderbook_def Let_def split: option.splits if_splits prod.splits)

lemma parsed_positive:
  assumes "bybit_parse_ticker_message j now m a = Some t"
  shows "0 < tk_bid t \<and> 0 < tk_ask t \<and> tk_exchange t = Bybit"
proof -
  define r where "r = (if sv_contains m ''\"topic\":\"orderbook.1.'' then parse_orderbook_fast now m ticker_default else (ticker_default, False))"
  show ?thesis
  proof (cases "snd r")
    case True
    then have "parse_orderbook_fast now m ticker_default = (fst r, True)" by (auto simp: r_def split: if_splits) (metis prod.collapse)
    moreover have "t = with_last a (fst r)" using assms True unfolding bybit_parse_ticker_message_def r_def [symmetric] by (simp add: case_prod_unfold)
    ultimately show ?thesis using fast_book_positive by simp
  next
    case False
    then show ?thesis
      using assms unfolding bybit_parse_ticker_message_def r_def [symmetric]
      by (auto simp: case_prod_unfold Let_def dest: slow_positive split: option.splits if_splits)
  qed
qed

text \<open>Every quote the Bybit feed hands on, from either parser, is a Bybit quote with a positive bid and a
  positive ask, and it is in the cache of the adapter at that moment; a message that is no quote hands on nothing.\<close>

lemma bybit_quotes_positive:
  "by_dispatched (bybit_on_ws_message j now m a) = by_dispatched a \<and> by_ticker_cache (bybit_on_ws_message j now m a) = by_ticker_cache a \<or>
   (\<exists>t. by_dispatched (bybit_on_ws_message j now m a) = by_dispatched a @ [t] \<and>
      by_ticker_cache (bybit_on_ws_message j now m a) (tk_symbol t) = Some t \<and> 0 < tk_bid t \<and> 0 < tk_ask t \<and> tk_exchange t = Bybit)"
  using parsed_positive [of j now m a]
  by (auto simp: bybit_on_ws_message_def bybit_dispatch_ticker_def Let_def split: option.split)

text \<open>The single warning about an unreadable quote is lost when any other message comes first.\<close>

lemma warning_used_up:
  assumes "bybit_parse_ticker_message j now m a = None" "\<not> sv_contains m ''orderbook.1.''"
  shows "by_warnings (bybit_on_ws_message j now' m' (bybit_on_ws_message j now m a)) = by_warnings a"
  using assms by (simp add: bybit_on_ws_message_def bybit_dispatch_ticker_def Let_def split: option.split)

section \<open>Shorts on the wire\<close>

text \<open>The orders of an adapter: requests to the order endpoint, and messages of the trading socket.\<close>

definition orders_on_wire :: "'w bybit \<Rightarrow> http_request list" where
  "orders_on_wire a = filter (\<lambda>rq. rq_target rq = ''/v5/order/create'') (ln_written (ac_line a))"

definition ws_orders :: "'w bybit \<Rightarrow> string list" where
  "ws_orders a = (case by_trade a of None \<Rightarrow> [] | Some t \<Rightarrow> tw_sent t)"

definition trade_ok :: "'w bybit \<Rightarrow> bool" where
  "trade_ok a \<longleftrightarrow> (\<forall>t. by_trade a = Some t \<longrightarrow> trade_invar t)"

lemma signed_frame [simp]:
  "by_trade (snd (signed_get os p q a)) = by_trade a" "by_trade (snd (signed_post os p q a)) = by_trade a"
  by (simp_all add: signed_get_def signed_post_def http_get_def http_post_def case_prod_unfold)

lemma other_get: "p @ (if q = [] then [] else ''?'' @ q) \<noteq> ''/v5/order/create'' \<Longrightarrow> orders_on_wire (snd (signed_get os p q a)) = orders_on_wire a"
  using http_get_copies [of os "p @ (if q = [] then [] else ''?'' @ q)" "bybit_build_auth_headers os q a" a]
  by (auto simp: orders_on_wire_def signed_get_def)

lemma other_post: "p \<noteq> ''/v5/order/create'' \<Longrightarrow> orders_on_wire (snd (signed_post os p b a)) = orders_on_wire a"
  using http_post_copies [of os p b "header_put ''Content-Type'' ''application/json'' (bybit_build_auth_headers os b a)" a]
  by (auto simp: orders_on_wire_def signed_post_def)

lemma ensure_frame:
  assumes "ensure_spot_margin_mode j os a = (ready, a2)"
  shows "orders_on_wire a2 = orders_on_wire a" "by_trade a2 = by_trade a"
proof -
  have o: "orders_on_wire (b\<lparr>by_spot_margin_ready := x\<rparr>) = orders_on_wire b" for b :: "'w bybit" and x by (simp add: orders_on_wire_def)
  have "a2 = snd (ensure_spot_margin_mode j os a)" using assms by simp
  then show "orders_on_wire a2 = orders_on_wire a" "by_trade a2 = by_trade a"
    by (auto simp: ensure_spot_margin_mode_def case_prod_unfold Let_def other_get other_post o)
qed

lemma signed_order_wire:
  "\<exists>k \<le> 3. orders_on_wire (snd (signed_post os ''/v5/order/create'' b a)) = orders_on_wire a @
      replicate k (account_request a POST ''/v5/order/create'' b (header_put ''Content-Type'' ''application/json'' (bybit_build_auth_headers os b a))) \<and>
     (hr_success (fst (signed_post os ''/v5/order/create'' b a)) \<longrightarrow> 0 < k)"
proof -
  let ?h = "header_put ''Content-Type'' ''application/json'' (bybit_build_auth_headers os b a)"
  obtain k where k: "k \<le> 3" "ln_written (ac_line (snd (http_post os ''/v5/order/create'' b ?h a))) =
      ln_written (ac_line a) @ replicate k (account_request a POST ''/v5/order/create'' b ?h)"
      "hr_success (fst (http_post os ''/v5/order/create'' b ?h a)) \<longrightarrow> 0 < k"
    using http_post_counted by blast
  then show ?thesis by (intro exI [of _ k]) (auto simp: orders_on_wire_def signed_post_def)
qed

lemma rest_order_wire:
  assumes "rest_order j os side lev o' a = (o2, got, a2)"
  shows "\<exists>k rq. k \<le> 3 \<and> orders_on_wire a2 = orders_on_wire a @ replicate k rq \<and> rq_target rq = ''/v5/order/create'' \<and>
      rq_body rq = rest_order_body (to_bybit_format (ord_symbol o')) side (ord_quantity o') lev \<and>
      by_trade a2 = by_trade a \<and> (ord_status o2 = Filled \<longrightarrow> 0 < k)"
proof -
  let ?b = "rest_order_body (to_bybit_format (ord_symbol o')) side (ord_quantity o') lev"
  let ?rq = "account_request a POST ''/v5/order/create'' ?b (header_put ''Content-Type'' ''application/json'' (bybit_build_auth_headers os ?b a))"
  show ?thesis
  proof (cases "snprintf_checked 512 ?b")
    case None
    then show ?thesis using assms by (intro exI [of _ 0] exI [of _ ?rq]) (auto simp: rest_order_def)
  next
    case (Some b)
    then have b: "b = ?b" by (simp add: snprintf_checked_def split: if_splits)
    obtain k where k: "k \<le> 3" "orders_on_wire (snd (signed_post os ''/v5/order/create'' ?b a)) = orders_on_wire a @ replicate k ?rq"
      "hr_success (fst (signed_post os ''/v5/order/create'' ?b a)) \<longrightarrow> 0 < k" using signed_order_wire by blast
    show ?thesis
      using assms k Some unfolding b by (intro exI [of _ k] exI [of _ ?rq]) (auto simp: rest_order_def case_prod_unfold split: if_splits)
  qed
qed

text \<open>The messages that carry an order over the trading socket, and their acceptance.\<close>

definition is_ws_order :: "string \<Rightarrow> side \<Rightarrow> order \<Rightarrow> string \<Rightarrow> bool" where
  "is_ws_order i side o' m \<longleftrightarrow> (\<exists>ts. m = order_message i ts (to_bybit_format (ord_symbol o')) side (ord_quantity o') True)"

definition ws_accepted :: "'j json_api \<Rightarrow> string \<Rightarrow> bool" where
  "ws_accepted j i \<longleftrightarrow> (\<exists>m r. order_answer j m = Some (i, r) \<and> pr_ret_code r = 0)"

lemma ws_order_wire:
  assumes "trade_ok a" "ws_order j os side o' a = (r, a2)"
  shows "trade_ok a2 \<and> orders_on_wire a2 = orders_on_wire a \<and>
    (ws_orders a2 = ws_orders a \<or> (\<exists>i m. ws_orders a2 = ws_orders a @ [m] \<and> is_ws_order i side o' m)) \<and>
    (\<forall>w. r = Some w \<longrightarrow> ord_status w = Filled \<and> (\<exists>i m. ws_orders a2 = ws_orders a @ [m] \<and> is_ws_order i side o' m \<and> ws_accepted j i))"
proof (cases "by_trade a")
  case (Some t)
  show ?thesis
  proof (cases "trade_is_connected t")
    case True
    obtain w t2 w2 where p: "place_order_sync j os (to_bybit_format (ord_symbol o')) side (ord_quantity o') True t (world_of a) = (w, t2, w2)"
      by (metis prod_cases3)
    have inv: "trade_invar t" using assms(1) Some by (simp add: trade_ok_def)
    let ?m = "next_message os (world_of a) (to_bybit_format (ord_symbol o')) side (ord_quantity o') True"
    have m: "is_ws_order (next_request os (world_of a)) side o' ?m" by (auto simp: is_ws_order_def)
    note f = place_order_facts [OF inv p]
    have a2: "by_trade a2 = Some t2" "orders_on_wire a2 = orders_on_wire a" "ws_orders a2 = tw_sent t2" "ws_orders a = tw_sent t"
      and r: "r = (if ord_status w = Rejected then None else Some (w\<lparr>ord_symbol := ord_symbol o', ord_quantity := ord_quantity o',
         ord_client_order_id := ord_client_order_id o'\<rparr>))"
      using assms(2) Some True p by (auto simp: ws_order_def Let_def orders_on_wire_def ws_orders_def split: if_splits)
    have acc: "ord_status w = Filled \<longrightarrow> ws_orders a2 = ws_orders a @ [?m] \<and> ws_accepted j (next_request os (world_of a))"
      using f a2 by (auto simp: ws_accepted_def)
    have "ws_orders a2 = ws_orders a \<or> ws_orders a2 = ws_orders a @ [?m]" using f a2 by simp
    moreover have "trade_ok a2" using f a2 by (simp add: trade_ok_def)
    ultimately show ?thesis using f r a2(2) m acc by (auto split: if_splits)
  qed (use assms Some in \<open>auto simp: ws_order_def\<close>)
qed (use assms in \<open>auto simp: ws_order_def\<close>)

text \<open>What one short puts on the wires: a message, copies of a request, or both.\<close>

definition short_sent :: "'j json_api \<Rightarrow> side \<Rightarrow> order \<Rightarrow> 'w bybit \<Rightarrow> order \<Rightarrow> 'w bybit \<Rightarrow> bool" where
  "short_sent j side o' a o2 a2 \<longleftrightarrow> (\<exists>k rq. k \<le> 3 \<and> orders_on_wire a2 = orders_on_wire a @ replicate k rq \<and>
     rq_body rq = rest_order_body (to_bybit_format (ord_symbol o')) side (ord_quantity o') True \<and>
     (ws_orders a2 = ws_orders a \<or> (\<exists>i m. ws_orders a2 = ws_orders a @ [m] \<and> is_ws_order i side o' m)) \<and>
     (ord_status o2 = Filled \<longrightarrow> 0 < k \<or>
        k = 0 \<and> (\<exists>i m. ws_orders a2 = ws_orders a @ [m] \<and> is_ws_order i side o' m \<and> ws_accepted j i)))"

lemma short_order_sent:
  assumes "trade_ok a" "short_order j os side o' a = (o2, got, a2)"
  shows "trade_ok a2 \<and> short_sent j side o' a o2 a2"
proof -
  obtain ready a1 where e: "ensure_spot_margin_mode j os a = (ready, a1)" by fastforce
  note e' = ensure_frame [OF e]
  have ok1: "trade_ok a1" "ws_orders a1 = ws_orders a" using assms(1) e' by (simp_all add: trade_ok_def ws_orders_def)
  obtain rq :: http_request where any: "rq_body rq = rest_order_body (to_bybit_format (ord_symbol o')) side (ord_quantity o') True"
    using wire_request_simps(3) by blast
  show ?thesis
  proof (cases ready)
    case False
    then show ?thesis
      using assms(2) e e' ok1 any by (auto simp: short_order_def short_sent_def intro!: exI [of _ 0] exI [of _ rq])
  next
    case True
    obtain r a3 where w: "ws_order j os side o' a1 = (r, a3)" by fastforce
    note w' = ws_order_wire [OF ok1(1) w]
    show ?thesis
    proof (cases r)
      case None
      then have "rest_order j os side True o' a3 = (o2, got, a2)" using assms(2) e w True by (simp add: short_order_def)
      from rest_order_wire [OF this] obtain k rq where k: "k \<le> 3" "orders_on_wire a2 = orders_on_wire a3 @ replicate k rq"
        "rq_body rq = rest_order_body (to_bybit_format (ord_symbol o')) side (ord_quantity o') True" "by_trade a2 = by_trade a3"
        "ord_status o2 = Filled \<longrightarrow> 0 < k" by blast
      have "ws_orders a2 = ws_orders a3" "trade_ok a2" using k(4) w' by (simp_all add: ws_orders_def trade_ok_def)
      then show ?thesis
        using k w' ok1 e' unfolding short_sent_def by (intro conjI exI [of _ k] exI [of _ rq]) auto
    next
      case (Some x)
      then have "o2 = x" "a2 = a3" using assms(2) e w True by (simp_all add: short_order_def)
      then show ?thesis
        using Some w' ok1 e' any unfolding short_sent_def by (intro conjI exI [of _ 0] exI [of _ rq]) auto
    qed
  qed
qed


text \<open>
  A time-out is treated as a rejection: the order that was sent over the socket, and that the venue may
  have executed, is sent once more over the REST interface.
\<close>

lemma silent_place_order:
  assumes "trade_invar t" "trade_is_connected t" "fst (os_trade os (snd (os_random os 16 w))) = []"
    "length (next_message os w symbol side qty True) < 512" "place_order_sync j os symbol side qty True t w = (o', t', w')"
  shows "ord_status o' = Rejected \<and> tw_sent t' = tw_sent t @ [next_message os w symbol side qty True]"
proof -
  obtain p t1 where reg: "register_order (next_request os w) t = (p, t1)" by fastforce
  have "tw_settled t1 p = None" "tw_sent t1 = tw_sent t" using register_unsettled [OF assms(1) reg] reg by (auto simp: register_order_def)
  moreover have "next_message os w symbol side qty True \<noteq> []" by (simp add: order_message_def)
  ultimately show ?thesis
    using assms reg by (auto simp: place_order_sync_def order_round_def Let_def case_prod_unfold snprintf_checked_def tw_send_def forget_order_def)
qed

lemma answered_at_once:
  assumes "fst (os_attempt os rq (ln_world l)) = Answered status body fs"
  shows "ln_written (snd (attempts os rq n l)) = ln_written l @ [rq]"
  using assms by (subst attempts.simps) (simp add: case_prod_unfold)

lemma timed_out_short_sent_twice:
  assumes t: "by_trade a = Some t" "trade_is_connected t" "trade_invar t" and ready: "by_spot_margin_ready a"
    and silent: "\<And>w. fst (os_trade os w) = []" and answered: "\<And>rq w. fst (os_attempt os rq w) = Answered 200 body []"
    and fits: "length (next_message os (world_of a) (to_bybit_format (ord_symbol o')) Sell (ord_quantity o') True) < 512"
      "length (rest_order_body (to_bybit_format (ord_symbol o')) Sell (ord_quantity o') True) < 512"
    and s: "short_order j os Sell o' a = (o2, got, a2)"
  shows "length (ws_orders a2) = length (ws_orders a) + 1 \<and> length (orders_on_wire a2) = length (orders_on_wire a) + 1"
proof -
  obtain w t2 w2 where p: "place_order_sync j os (to_bybit_format (ord_symbol o')) Sell (ord_quantity o') True t (world_of a) = (w, t2, w2)"
    by (metis prod_cases3)
  note f = silent_place_order [OF t(3,2) silent fits(1) p]
  let ?a1 = "a\<lparr>by_trade := Some t2, ac_line := (ac_line a)\<lparr>ln_world := w2\<rparr>\<rparr>"
  let ?b = "rest_order_body (to_bybit_format (ord_symbol o')) Sell (ord_quantity o') True"
  have "ws_order j os Sell o' a = (None, ?a1)" using t p f by (simp add: ws_order_def)
  then have "rest_order j os Sell True o' ?a1 = (o2, got, a2)" using s ready by (simp add: short_order_def ensure_spot_margin_mode_def)
  moreover have "snprintf_checked 512 ?b = Some ?b" using fits(2) by (simp add: snprintf_checked_def rest_order_body_def)
  ultimately have a2: "a2 = snd (signed_post os ''/v5/order/create'' ?b ?a1)" by (auto simp: rest_order_def case_prod_unfold split: if_splits)
  then have "length (orders_on_wire a2) = length (orders_on_wire a) + 1"
    using answered by (simp add: orders_on_wire_def signed_post_def http_post_def rest_post_def do_request_def case_prod_unfold answered_at_once)
  moreover have "by_trade a2 = Some t2" using a2 by simp
  ultimately show ?thesis using f t by (simp add: ws_orders_def)
qed

section \<open>Lots\<close>

text \<open>The relative error of a rounding.\<close>

lemma rnd_relative:
  assumes "1 / 2 ^ 30 \<le> x" "u = 1 / 2 ^ 53"
  shows "x * (1 - u) \<le> rnd x" "rnd x \<le> x * (1 + u)"
proof -
  have x: "0 < x" using assms(1) by (rule less_le_trans [rotated]) simp
  have p: "pow2 (- 30) = 1 / 2 ^ 30" by (simp add: power_int_minus inverse_eq_divide)
  have "pow2 (- 30) < pow2 (ilog2 x + 1)" using ilog2_bounds(2) [OF x] assms(1) unfolding p by linarith
  then have "- 31 \<le> ilog2 x" by (simp only: pow2_less_iff)
  then have e: "ulp_exp x = ilog2 x - 52" using x by (simp add: ulp_exp_def)
  have "pow2 (ilog2 x - 52) = pow2 (ilog2 x) / 2 ^ 52" by (simp add: power_int_diff)
  then have "pow2 (ulp_exp x) / 2 = pow2 (ilog2 x) * u" unfolding e assms(2) by simp
  moreover have "pow2 (ilog2 x) * u \<le> x * u" using ilog2_bounds(1) [OF x] assms(2) by (intro mult_right_mono) simp_all
  ultimately have "\<bar>rnd x - x\<bar> \<le> x * u" using rnd_error [of x] by linarith
  then show "x * (1 - u) \<le> rnd x" "rnd x \<le> x * (1 + u)" by (simp_all add: algebra_simps abs_le_iff)
qed

lemma lit_small: "\<bar>x\<bar> \<le> 2 ^ 53 \<Longrightarrow> lit x = Fin (rnd x)"
proof -
  assume x: "\<bar>x\<bar> \<le> 2 ^ 53"
  have b: "rnd (2 ^ 53) = 2 ^ 53" using rnd_of_int [of "2 ^ 53"] by simp
  have "rnd x \<le> 2 ^ 53" using rnd_mono [of x "2 ^ 53"] x b by simp
  moreover have "- (2 ^ 53) \<le> rnd x" using rnd_mono [of "- (2 ^ 53)" x] x b by (simp add: rnd_minus)
  moreover have "(2 :: rat) ^ 53 < dbl_limit" unfolding dbl_limit_def by (rule power_strict_increasing) simp_all
  ultimately show ?thesis by (simp add: lit_def Let_def abs_less_iff)
qed

text \<open>A rounded multiple of a rounded step, divided by the step: the quotient is the multiple up to a few units.\<close>

lemma rounded_quotient:
  assumes s: "1 / 10 ^ 8 \<le> s" and n: "1 \<le> n" "n \<le> 2 ^ 19" and ns: "n * s \<le> 2 ^ 26"
  shows "\<exists>r. Fin (rnd (n * s)) / Fin (rnd s) = Fin r \<and> \<bar>r - n\<bar> \<le> n / 2 ^ 50" and "0 < rnd s"
proof -
  define u :: rat where "u = 1 / 2 ^ 53"
  have big: "1 / 2 ^ 30 \<le> s" using s by (rule order_trans [rotated]) simp
  have s0: "0 < s" using s by (rule less_le_trans [rotated]) simp
  have n0: "0 < n * s" using s0 n(1) by simp
  have "s \<le> n * s" using s0 n(1) by simp
  then have big2: "1 / 2 ^ 30 \<le> n * s" using big by linarith
  have S: "s * (1 - u) \<le> rnd s" "rnd s \<le> s * (1 + u)" by (rule rnd_relative [OF big u_def])+
  have Q: "n * s * (1 - u) \<le> rnd (n * s)" "rnd (n * s) \<le> n * s * (1 + u)" by (rule rnd_relative [OF big2 u_def])+
  have "0 < s * (1 - u)" using s0 by (intro mult_pos_pos) (simp_all add: u_def)
  then show S0: "0 < rnd s" using S(1) by (rule less_le_trans)
  define T where "T = rnd (n * s) / rnd s"
  have hi: "T \<le> n * (1 + 4 * u)"
  proof -
    have "n * s * (1 + u) \<le> n * s * ((1 + 4 * u) * (1 - u))" using n0 by (intro mult_left_mono) (simp_all add: u_def)
    also have "\<dots> = n * (1 + 4 * u) * (s * (1 - u))" by simp
    also have "\<dots> \<le> n * (1 + 4 * u) * rnd s" using S(1) n(1) by (intro mult_left_mono) (simp_all add: u_def)
    finally show ?thesis using Q(2) S0 by (simp add: T_def divide_le_eq)
  qed
  have lo: "n * (1 - 4 * u) \<le> T"
  proof -
    have "n * (1 - 4 * u) * rnd s \<le> n * (1 - 4 * u) * (s * (1 + u))" using S(2) n(1) by (intro mult_left_mono) (simp_all add: u_def)
    also have "\<dots> = n * s * ((1 - 4 * u) * (1 + u))" by simp
    also have "\<dots> \<le> n * s * (1 - u)" using n0 by (intro mult_left_mono) (simp_all add: u_def)
    finally show ?thesis using Q(1) S0 by (simp add: T_def le_divide_eq)
  qed
  have nu: "n * u * 4 \<le> 1 / 2" using n(2) by (simp add: u_def)
  have T: "1 / 2 \<le> T" "T \<le> 2 ^ 20" "T \<le> 2 * n" using hi lo nu n by (simp_all add: algebra_simps)
  have "1 / 2 ^ 30 \<le> T" using T(1) by (rule order_trans [rotated]) simp
  note R = rnd_relative [OF this u_def]
  have "T * u \<le> 2 * n * u" using T(3) by (intro mult_right_mono) (simp_all add: u_def)
  then have "\<bar>rnd T - n\<bar> \<le> 6 * (n * u)" using hi lo R by (simp add: abs_le_iff algebra_simps)
  also have "\<dots> \<le> n / 2 ^ 50" using n(1) by (simp add: u_def)
  finally have "\<bar>rnd T - n\<bar> \<le> n / 2 ^ 50" .
  moreover have "lit (rnd (n * s) / rnd s) = Fin (rnd T)" unfolding T_def [symmetric] using T by (intro lit_small) simp
  ultimately show "\<exists>r. Fin (rnd (n * s)) / Fin (rnd s) = Fin r \<and> \<bar>r - n\<bar> \<le> n / 2 ^ 50" using S0 by auto
qed

text \<open>
  Rounding to lots keeps a whole number of lots: adding or subtracting the epsilon of the code moves a
  quotient with rounding errors to the right side of the integer, and no further.
\<close>

lemma epsilon_rounds:
  assumes r: "\<bar>r - of_int n\<bar> \<le> of_int n / 2 ^ 50" and n: "1 \<le> n" "n \<le> 2 ^ 19"
  shows "dfloor (Fin r + QTY_EPSILON) = lit (of_int n)" "dceil (Fin r - QTY_EPSILON) = lit (of_int n)"
proof -
  define u :: rat where "u = 1 / 2 ^ 53"
  define e where "e = rnd (1 / 10 ^ 9)"
  have "(1 :: rat) / 2 ^ 30 \<le> 1 / 10 ^ 9" by simp
  note E = rnd_relative [OF this u_def, folded e_def]
  have e: "9 / 10 ^ 10 \<le> e" "e \<le> 11 / 10 ^ 10" using E by (simp_all add: u_def)
  have q: "QTY_EPSILON = Fin e" unfolding QTY_EPSILON_def e_def by (rule lit_small) simp
  define c :: rat where "c = of_int n"
  have "of_int n \<le> (of_int (2 ^ 19) :: rat)" "of_int 1 \<le> (of_int n :: rat)" using n by (simp_all only: of_int_le_iff)
  then have N: "c \<le> 524288" "1 \<le> c" by (simp_all add: c_def)
  have "\<bar>r - c\<bar> \<le> c / 2 ^ 50" using r by (simp add: c_def)
  also have "\<dots> \<le> 5 / 10 ^ 10" using N(1) by simp
  finally have "\<bar>r - c\<bar> \<le> 5 / 10 ^ 10" .
  then have x: "c + 4 / 10 ^ 10 \<le> r + e" "r + e \<le> c + 16 / 10 ^ 10" "r - e \<le> c - 4 / 10 ^ 10" "c - 16 / 10 ^ 10 \<le> r - e"
    using e unfolding abs_le_iff by linarith+
  have b: "1 / 2 ^ 30 \<le> r + e" "1 / 2 ^ 30 \<le> r - e" using x N by simp_all
  have w: "(r + e) * u \<le> 1 / 10 ^ 10" "(r - e) * u \<le> 1 / 10 ^ 10" using x N by (simp_all add: u_def)
  have F: "of_int n \<le> rnd (r + e)" "rnd (r + e) < of_int n + 1" and C: "of_int n - 1 < rnd (r - e)" "rnd (r - e) \<le> of_int n"
    unfolding c_def [symmetric] using rnd_relative [OF b(1) u_def] rnd_relative [OF b(2) u_def] w x by (simp_all add: algebra_simps)
  have "\<lfloor>rnd (r + e)\<rfloor> = n" using F by (intro floor_unique) simp_all
  moreover have "lit (r + e) = Fin (rnd (r + e))" using x N by (intro lit_small) simp
  ultimately show "dfloor (Fin r + QTY_EPSILON) = lit (of_int n)" by (simp add: q)
  have "\<lceil>rnd (r - e)\<rceil> = n" using C by (intro ceiling_unique) simp_all
  moreover have "lit (r + - e) = Fin (rnd (r - e))" using x N lit_small [of "r - e"] by simp
  ultimately show "dceil (Fin r - QTY_EPSILON) = lit (of_int n)" by (simp add: q minus_dbl_def)
qed

text \<open>C33. Rounding to lots keeps whole lots: a quantity of n lots, for a lot of whole 10^-8 and n up to 2^19, is
  opened and covered as exactly n lots in spite of the rounding of quantity, lot and quotient; it is
  refused only below the minimum quantity or value, and a cover below the minimum is raised to it.\<close>

theorem whole_lots_kept:
  assumes mn: "1 \<le> m" "1 \<le> n" "n \<le> 2 ^ 19" "n * m \<le> 2 ^ 26 * 10 ^ 8"
    and info: "by_lots a (to_bybit_format symbol) = Some info" "ls_qty_step info = lit (of_int m / 10 ^ 8)"
    and qty: "qty = lit (of_int (n * m) / 10 ^ 8)" and q: "q = lit (of_int n) * ls_qty_step info"
  shows "normalize_order_qty symbol qty is_open a =
      (if q < ls_min_qty info then 0
       else if 0 < ls_min_notional info \<and> 0 < price_hint is_open (by_ticker_cache a symbol) \<and>
          q * price_hint is_open (by_ticker_cache a symbol) < ls_min_notional info then 0 else q) \<and>
    normalize_close_qty symbol qty a = (if q < ls_min_qty info then ls_min_qty info else q)"
proof -
  define s :: rat where "s = of_int m / 10 ^ 8"
  define c :: rat where "c = of_int n"
  have "of_int n \<le> (of_int (2 ^ 19) :: rat)" using mn(3) by (simp only: of_int_le_iff)
  then have N: "1 \<le> c" "c \<le> 2 ^ 19" using mn(2) by (simp_all add: c_def)
  have s: "1 / 10 ^ 8 \<le> s" using mn(1) by (simp add: s_def)
  have "of_int (n * m) \<le> (of_int (2 ^ 26 * 10 ^ 8) :: rat)" using mn(4) by (simp only: of_int_le_iff)
  then have ns: "c * s \<le> 2 ^ 26" by (simp add: c_def s_def divide_le_eq)
  have s0: "0 \<le> s" using s by (rule order_trans [rotated]) simp
  have cs: "s \<le> c * s" using mult_right_mono [OF N(1) s0] by simp
  moreover have "(2 :: rat) ^ 26 \<le> 2 ^ 53" by simp
  ultimately have "\<bar>s\<bar> \<le> 2 ^ 53" "\<bar>c * s\<bar> \<le> 2 ^ 53" using ns s0 by linarith+
  then have f: "ls_qty_step info = Fin (rnd s)" "qty = Fin (rnd (c * s))"
    using lit_small [of s] lit_small [of "c * s"] by (simp_all add: info(2) qty s_def c_def)
  note S0 = rounded_quotient(2) [OF s N ns]
  have "0 < rnd (c * s)" using S0 rnd_mono [OF cs] by linarith
  then have pos: "\<not> qty \<le> 0" "0 < ls_qty_step info" using S0 f by (simp_all add: zero_dbl_def)
  obtain r where "qty / ls_qty_step info = Fin r" "\<bar>r - of_int n\<bar> \<le> of_int n / 2 ^ 50"
    using rounded_quotient(1) [OF s N ns] by (auto simp: c_def f)
  then show ?thesis
    using epsilon_rounds [OF _ mn(2,3)] pos info(1) q by (simp add: normalize_order_qty_def normalize_close_qty_def lot_step_def Let_def)
qed

end
