(* ===== verification/Upbit.thy ===== *)
theory Upbit
  imports Account BithumbFeed
begin

text \<open>
  The market data side of the Upbit adapter (\<^verbatim>\<open>src/exchange/upbit.cpp\<close>): compressed frames, the parsers of
  order book and ticker messages, the best bid and offer beside the last trade prices, REST
  snapshots and subscriptions. The state extends \<open>account\<close>. zlib is a parameter: a stream is
  opened on the frame and each call of \<^verbatim>\<open>inflate\<close> gives a code, what it produced and the stream after it. A
  frame on which the loop does not end has no result.
\<close>

section \<open>State\<close>

record upbit_bbo =
  ub_bid :: dbl
  ub_ask :: dbl
  ub_bid_qty :: dbl
  ub_ask_qty :: dbl

definition upbit_bbo_default :: upbit_bbo where
  "upbit_bbo_default = \<lparr>ub_bid = 0, ub_ask = 0, ub_bid_qty = 0, ub_ask_qty = 0\<rparr>"

record 'w upbit = "'w account" +
  up_ws :: bool
  up_connected :: bool
  up_callback :: bool
  up_usdt_krw :: dbl
  up_tickers :: "symbol_id list"
  up_orderbooks :: "symbol_id list"
  up_bbo :: "symbol_id \<rightharpoonup> upbit_bbo"
  up_last_price :: "symbol_id \<rightharpoonup> dbl"
  up_resync_running :: bool
  up_ticker_cache :: "symbol_id \<rightharpoonup> ticker"
  up_dispatched :: "ticker list"
  up_sent :: "string list"

definition upbit_dispatch_ticker :: "ticker \<Rightarrow> 'w upbit \<Rightarrow> 'w upbit" where
  "upbit_dispatch_ticker t a = a\<lparr>up_ticker_cache := (up_ticker_cache a)(tk_symbol t \<mapsto> t),
     up_dispatched := (if up_callback a then up_dispatched a @ [t] else up_dispatched a)\<rparr>"

section \<open>Compressed frames\<close>

datatype zcode = Z_OK | Z_STREAM_END | Z_NEED_DICT | Z_BUF_ERROR | Z_STREAM_ERROR | Z_DATA_ERROR | Z_MEM_ERROR

record 's zlib =
  zl_open :: "string \<Rightarrow> 's option"
  zl_inflate :: "nat \<Rightarrow> 's \<Rightarrow> zcode \<times> string \<times> 's"

definition DECOMPRESS_BUF :: nat where "DECOMPRESS_BUF = 65536"

text \<open>The loop: \<open>Some None\<close> is failure, \<open>None\<close> a loop without end.\<close>

partial_function (option) inflate_loop :: "'s zlib \<Rightarrow> string \<Rightarrow> 's \<Rightarrow> string option option" where
  "inflate_loop z output strm =
    (case zl_inflate z DECOMPRESS_BUF strm of (ret, produced, strm) \<Rightarrow>
       if ret = Z_STREAM_ERROR \<or> ret = Z_DATA_ERROR \<or> ret = Z_MEM_ERROR then Some None
       else if ret = Z_STREAM_END then Some (Some (output @ produced))
       else inflate_loop z (output @ produced) strm)"

definition decompress_gzip :: "'s zlib \<Rightarrow> string \<Rightarrow> string option option" where
  "decompress_gzip z data = (case zl_open z data of None \<Rightarrow> Some None | Some strm \<Rightarrow> inflate_loop z [] strm)"

section \<open>Messages\<close>

definition extract_quoted :: "string \<Rightarrow> string \<Rightarrow> nat \<Rightarrow> (string \<times> nat) option" where
  "extract_quoted source marker from =
    (case sv_find source marker from of None \<Rightarrow> None
     | Some pos \<Rightarrow>
        let start = pos + length marker in
        case sv_find source [CHR 0x22] start of None \<Rightarrow> None
        | Some close \<Rightarrow> Some (substr source start (close - start), close))"

definition extract_number :: "string \<Rightarrow> string \<Rightarrow> nat \<Rightarrow> (dbl \<times> nat) option" where
  "extract_number source marker from =
    (case sv_find source marker from of None \<Rightarrow> None
     | Some pos \<Rightarrow>
        let start = pos + length marker;
            number = takeWhile (\<lambda>c. c \<noteq> CHR '','' \<and> c \<noteq> CHR ''}'' \<and> c \<noteq> CHR '']'') (drop start source) in
        if number = [] then None else Some (fast_stod number 0, start + length number))"

text \<open>The base of a KRW market.\<close>

definition krw_base :: "string \<Rightarrow> string option" where
  "krw_base code =
    (case split_at (CHR ''-'') code of None \<Rightarrow> None
     | Some (quote, base) \<Rightarrow> if quote = ''KRW'' then Some base else None)"

definition middle :: "dbl \<Rightarrow> dbl \<Rightarrow> dbl" where
  "middle bid ask = (bid + ask) * lit (1 / 2)"

definition upbit_ticker :: "u64 \<Rightarrow> symbol_id \<Rightarrow> upbit_bbo \<Rightarrow> dbl \<Rightarrow> ticker" where
  "upbit_ticker now symbol b price =
    ticker_default\<lparr>tk_exchange := Upbit, tk_symbol := symbol, tk_timestamp_ms := now, tk_bid := ub_bid b, tk_ask := ub_ask b,
      tk_bid_qty := ub_bid_qty b, tk_ask_qty := ub_ask_qty b, tk_last := price\<rparr>"

text \<open>The last trade, or the middle of the quotes.\<close>

definition last_or_middle :: "'w upbit \<Rightarrow> symbol_id \<Rightarrow> upbit_bbo \<Rightarrow> dbl" where
  "last_or_middle a symbol b =
    (let price = (case up_last_price a symbol of Some p \<Rightarrow> p | None \<Rightarrow> 0)
     in if 0 < price then price else middle (ub_bid b) (ub_ask b))"

definition upbit_parse_orderbook_message :: "'w outside \<Rightarrow> string \<Rightarrow> 'w upbit \<Rightarrow> bool \<times> 'w upbit" where
  "upbit_parse_orderbook_message os message a =
    (case extract_quoted message ''\"code\":\"'' 0 of None \<Rightarrow> (False, a)
     | Some (code, pos) \<Rightarrow>
     (case krw_base code of None \<Rightarrow> (False, a)
     | Some base \<Rightarrow>
        let symbol = SymbolId base ''KRW'' in
        case (extract_number message ''\"ask_price\":'' pos, extract_number message ''\"bid_price\":'' pos,
              extract_number message ''\"ask_size\":'' pos, extract_number message ''\"bid_size\":'' pos) of
          (Some (ask_price, _), Some (bid_price, _), Some (ask_size, _), Some (bid_size, _)) \<Rightarrow>
            if ask_price \<le> 0 \<or> bid_price \<le> 0 then (False, a)
            else let b = \<lparr>ub_bid = bid_price, ub_ask = ask_price, ub_bid_qty = bid_size, ub_ask_qty = ask_size\<rparr>;
                     a = (if up_bbo a symbol = None then a else a\<lparr>up_bbo := (up_bbo a)(symbol \<mapsto> b)\<rparr>);
                     a = (if base = ''USDT'' then a\<lparr>up_usdt_krw := middle bid_price ask_price\<rparr> else a)
              in (True, upbit_dispatch_ticker (upbit_ticker (os_steady_now os (world_of a)) symbol b (last_or_middle a symbol b)) a)
        | _ \<Rightarrow> (False, a)))"

definition upbit_parse_ticker_message :: "'w outside \<Rightarrow> string \<Rightarrow> 'w upbit \<Rightarrow> bool \<times> 'w upbit" where
  "upbit_parse_ticker_message os message a =
    (case extract_quoted message ''\"code\":\"'' 0 of None \<Rightarrow> (False, a)
     | Some (code, pos) \<Rightarrow>
     (case krw_base code of None \<Rightarrow> (False, a)
     | Some base \<Rightarrow>
     (case extract_number message ''\"trade_price\":'' pos of None \<Rightarrow> (False, a)
     | Some (trade_price, _) \<Rightarrow>
        if trade_price \<le> 0 then (False, a)
        else let symbol = SymbolId base ''KRW'';
                 a = a\<lparr>up_last_price := (up_last_price a)(symbol \<mapsto> trade_price)\<rparr>;
                 a = (if base = ''USDT'' then a\<lparr>up_usdt_krw := trade_price\<rparr> else a)
          in case up_bbo a symbol of None \<Rightarrow> (True, a)
           | Some b \<Rightarrow>
              if 0 < ub_bid b \<and> 0 < ub_ask b
              then (True, upbit_dispatch_ticker (upbit_ticker (os_steady_now os (world_of a)) symbol b trade_price) a)
              else (True, a))))"

definition upbit_on_ws_message :: "'s zlib \<Rightarrow> 'w outside \<Rightarrow> string \<Rightarrow> 'w upbit \<Rightarrow> 'w upbit option" where
  "upbit_on_ws_message z os message a =
    (case (if message \<noteq> [] \<and> hd message = CHR 0x1F then decompress_gzip z message else Some (Some message)) of
       None \<Rightarrow> None
     | Some None \<Rightarrow> Some a
     | Some (Some json_view) \<Rightarrow>
        Some (if sv_contains json_view ''\"type\":\"orderbook\"'' then snd (upbit_parse_orderbook_message os json_view a)
          else if sv_contains json_view ''\"type\":\"ticker\"'' then snd (upbit_parse_ticker_message os json_view a)
          else a))"

section \<open>Snapshots\<close>

text \<open>
  The readers of the adapter; the error of a missing field throws. Null is neither a number nor a text,
  so it reads as the fallback.
\<close>

definition upbit_dom_double :: "'j json_api \<Rightarrow> dbl \<Rightarrow> 'j \<Rightarrow> dbl option" where
  "upbit_dom_double j fallback elem =
    (if \<not> ja_ok j elem then None
     else Some (case ja_double j elem of Some x \<Rightarrow> x
       | None \<Rightarrow> (case ja_int64 j elem of Some n \<Rightarrow> lit (of_int n)
       | None \<Rightarrow> (case ja_uint64 j elem of Some n \<Rightarrow> lit (of_int n)
       | None \<Rightarrow> (case ja_string j elem of Some s \<Rightarrow> fast_stod s 0 | None \<Rightarrow> fallback)))))"

definition upbit_dom_string :: "'j json_api \<Rightarrow> 'j \<Rightarrow> string option" where
  "upbit_dom_string j elem = (if \<not> ja_ok j elem then None else Some (case ja_string j elem of Some s \<Rightarrow> s | None \<Rightarrow> []))"

definition UPBIT_BATCH_SIZE :: nat where "UPBIT_BATCH_SIZE = 40"

definition symbol_to_upbit :: "symbol_id \<Rightarrow> string" where
  "symbol_to_upbit symbol = get_quote symbol @ ''-'' @ get_base symbol"

definition upbit_unit :: "'j json_api \<Rightarrow> 'j \<Rightarrow> upbit_bbo option" where
  "upbit_unit j u =
    (case (upbit_dom_double j 0 (ja_field j u ''ask_price''), upbit_dom_double j 0 (ja_field j u ''bid_price''),
           upbit_dom_double j 0 (ja_field j u ''ask_size''), upbit_dom_double j 0 (ja_field j u ''bid_size'')) of
       (Some ask_price, Some bid_price, Some ask_size, Some bid_size) \<Rightarrow>
         Some \<lparr>ub_bid = bid_price, ub_ask = ask_price, ub_bid_qty = bid_size, ub_ask_qty = ask_size\<rparr>
     | _ \<Rightarrow> None)"

definition upbit_snapshot_item :: "'j json_api \<Rightarrow> u64 \<Rightarrow> 'j \<Rightarrow> 'w upbit \<Rightarrow> 'w upbit \<times> bool" where
  "upbit_snapshot_item j now item a =
    (case upbit_dom_string j (ja_field j item ''market'') of None \<Rightarrow> (a, True)
     | Some market \<Rightarrow>
        if \<not> starts_with ''KRW-'' market then (a, False)
        else let base = drop 4 market; symbol = SymbolId base ''KRW'' in
          case ja_array j (ja_field j item ''orderbook_units'') of None \<Rightarrow> (a, False) | Some [] \<Rightarrow> (a, False)
          | Some (u # _) \<Rightarrow>
             (case upbit_unit j u of None \<Rightarrow> (a, True)
              | Some b \<Rightarrow>
                 if ub_ask b \<le> 0 \<or> ub_bid b \<le> 0 then (a, False)
                 else let a = a\<lparr>up_bbo := (up_bbo a)(symbol \<mapsto> b)\<rparr>;
                          a = upbit_dispatch_ticker (upbit_ticker now symbol b (last_or_middle a symbol b)) a
                   in (if base = ''USDT'' then a\<lparr>up_usdt_krw := middle (ub_bid b) (ub_ask b)\<rparr> else a, False)))"

definition upbit_snapshot_batch :: "'j json_api \<Rightarrow> 'w outside \<Rightarrow> u64 \<Rightarrow> symbol_id list \<Rightarrow> 'w upbit \<Rightarrow> 'w upbit" where
  "upbit_snapshot_batch j os now symbols a =
    (case http_get os (''/v1/orderbook?markets='' @ join_with '','' (map symbol_to_upbit symbols)) [] a of (response, a) \<Rightarrow>
       if \<not> hr_success response then a
       else case ja_array j (ja_iterate j (hr_body response)) of None \<Rightarrow> a
        | Some items \<Rightarrow> fst (fold_catching (upbit_snapshot_item j now) items a))"

definition fetch_orderbook_snapshots :: "'j json_api \<Rightarrow> 'w outside \<Rightarrow> symbol_id list \<Rightarrow> 'w upbit \<Rightarrow> 'w upbit" where
  "fetch_orderbook_snapshots j os symbols a =
    (let now = os_steady_now os (world_of a) in fold (upbit_snapshot_batch j os now) (batches UPBIT_BATCH_SIZE symbols) a)"

section \<open>Connection and subscriptions\<close>

definition upbit_start_resync :: "'w upbit \<Rightarrow> 'w upbit" where
  "upbit_start_resync a = a\<lparr>up_resync_running := True\<rparr>"

definition upbit_stop_resync :: "'w upbit \<Rightarrow> 'w upbit" where
  "upbit_stop_resync a = a\<lparr>up_resync_running := False\<rparr>"

text \<open>A round of the resync thread.\<close>

definition upbit_resync_round :: "'j json_api \<Rightarrow> 'w outside \<Rightarrow> 'w upbit \<Rightarrow> 'w upbit" where
  "upbit_resync_round j os a = (if up_resync_running a then fetch_orderbook_snapshots j os (up_orderbooks a) a else a)"

definition upbit_codes :: "symbol_id list \<Rightarrow> string" where
  "upbit_codes symbols = join_with '','' (map (\<lambda>s. quoted (symbol_to_upbit s)) symbols)"

definition upbit_subscribe_ticker :: "symbol_id list \<Rightarrow> 'w upbit \<Rightarrow> 'w upbit" where
  "upbit_subscribe_ticker symbols a =
    (let a = a\<lparr>up_tickers := symbols\<rparr> in
     if \<not> up_ws a \<or> \<not> up_connected a then a
     else a\<lparr>up_sent := up_sent a @ [''[{\"ticket\":\"kimp-upbit-ticker\"},{\"type\":\"ticker\",\"codes\":['' @ upbit_codes symbols @
       ''],\"isOnlyRealtime\":true}]'']\<rparr>)"

definition upbit_ensure_bbo :: "symbol_id \<Rightarrow> 'w upbit \<Rightarrow> 'w upbit" where
  "upbit_ensure_bbo s a = (if up_bbo a s = None then a\<lparr>up_bbo := (up_bbo a)(s \<mapsto> upbit_bbo_default)\<rparr> else a)"

definition upbit_subscribe_orderbook :: "'j json_api \<Rightarrow> 'w outside \<Rightarrow> symbol_id list \<Rightarrow> 'w upbit \<Rightarrow> 'w upbit" where
  "upbit_subscribe_orderbook j os symbols a =
    (let a = fold upbit_ensure_bbo symbols (a\<lparr>up_orderbooks := symbols\<rparr>) in
     if \<not> up_ws a \<or> \<not> up_connected a then a
     else let a = a\<lparr>up_sent := up_sent a @ [''[{\"ticket\":\"kimp-upbit-ob\"},{\"type\":\"orderbook\",\"codes\":['' @ upbit_codes symbols @
                ''],\"isOnlyRealtime\":true}]'']\<rparr>
       in upbit_start_resync (fetch_orderbook_snapshots j os symbols a))"

text \<open>Without a REST pool there is no connection; otherwise the socket client is created and told where to connect.\<close>

definition upbit_connect :: "bool \<Rightarrow> 'w upbit \<Rightarrow> (bool \<times> string) \<times> 'w upbit" where
  "upbit_connect rest_ready a =
    (if \<not> rest_ready then ((False, []), a)
     else ((True, if xc_ws_endpoint (ac_credentials a) = [] then ''wss://api.upbit.com/websocket/v1'' else xc_ws_endpoint (ac_credentials a)),
           a\<lparr>up_ws := True\<rparr>))"

definition upbit_on_ws_connected :: "'j json_api \<Rightarrow> 'w outside \<Rightarrow> 'w upbit \<Rightarrow> 'w upbit" where
  "upbit_on_ws_connected j os a =
    (let a = a\<lparr>up_connected := True\<rparr> in
     if up_orderbooks a \<noteq> [] then upbit_subscribe_orderbook j os (up_orderbooks a) a
     else if up_tickers a \<noteq> [] then upbit_subscribe_ticker (up_tickers a) a
     else a)"

definition upbit_on_ws_disconnected :: "'w upbit \<Rightarrow> 'w upbit" where
  "upbit_on_ws_disconnected a =
    (let a = upbit_stop_resync (a\<lparr>up_connected := False\<rparr>)
     in a\<lparr>up_bbo := (\<lambda>s. map_option (\<lambda>_. upbit_bbo_default) (up_bbo a s))\<rparr>)"

text \<open>The socket client closes later and calls \<^verbatim>\<open>on_ws_disconnected\<close> then.\<close>

definition upbit_disconnect :: "'w upbit \<Rightarrow> 'w upbit" where
  "upbit_disconnect a = (upbit_stop_resync a)\<lparr>up_connected := False\<rparr>"

section \<open>Public queries\<close>

definition upbit_market_item :: "'j json_api \<Rightarrow> 'j \<Rightarrow> symbol_id list \<Rightarrow> symbol_id list \<times> bool" where
  "upbit_market_item j item symbols =
    (case ja_string j (ja_field j item ''market'') of None \<Rightarrow> (symbols, True)
     | Some market \<Rightarrow> if take 4 market \<noteq> ''KRW-'' then (symbols, False) else (symbols @ [SymbolId (drop 4 market) ''KRW''], False))"

definition upbit_get_available_symbols :: "'j json_api \<Rightarrow> 'w outside \<Rightarrow> 'w upbit \<Rightarrow> symbol_id list \<times> 'w upbit" where
  "upbit_get_available_symbols j os a =
    (case http_get os ''/v1/market/all'' [] a of (response, a) \<Rightarrow>
       if \<not> hr_success response then ([], a)
       else case ja_array j (ja_iterate j (hr_body response)) of None \<Rightarrow> ([], a)
        | Some items \<Rightarrow> (fst (fold_catching (upbit_market_item j) items []), a))"

definition upbit_fetch_all_tickers :: "'w upbit \<Rightarrow> ticker list" where
  "upbit_fetch_all_tickers a = []"

definition upbit_get_usdt_krw_price :: "'w upbit \<Rightarrow> dbl" where
  "upbit_get_usdt_krw_price a = up_usdt_krw a"

section \<open>Frames that are handled\<close>

definition stops :: "zcode \<Rightarrow> bool" where
  "stops ret \<longleftrightarrow> ret = Z_STREAM_END \<or> ret = Z_STREAM_ERROR \<or> ret = Z_DATA_ERROR \<or> ret = Z_MEM_ERROR"

text \<open>The code of the \<open>n\<close>-th call of \<^verbatim>\<open>inflate\<close> on a stream, if the calls before it do not matter.\<close>

fun nth_code :: "'s zlib \<Rightarrow> nat \<Rightarrow> 's \<Rightarrow> zcode" where
  "nth_code z 0 strm = fst (zl_inflate z DECOMPRESS_BUF strm)"
| "nth_code z (Suc n) strm = nth_code z n (snd (snd (zl_inflate z DECOMPRESS_BUF strm)))"

lemma inflate_loop_stops: "stops (nth_code z n strm) \<Longrightarrow> \<exists>r. inflate_loop z out strm = Some r"
proof (induction n arbitrary: out strm)
  case 0
  then show ?case by (subst inflate_loop.simps) (auto simp: stops_def case_prod_unfold)
next
  case (Suc n)
  then show ?case by (subst inflate_loop.simps) (auto simp: case_prod_unfold)
qed

lemma inflate_loop_result:
  assumes "inflate_loop z out strm = Some r"
  shows "\<exists>n. stops (nth_code z n strm)"
proof (rule inflate_loop.raw_induct [OF _ assms])
  fix loop z out strm r
  assume 1: "\<And>z out strm r. loop z out strm = Some r \<Longrightarrow> \<exists>n. stops (nth_code z n strm)"
    "(case zl_inflate z DECOMPRESS_BUF strm of (ret, produced, strm) \<Rightarrow>
       if ret = Z_STREAM_ERROR \<or> ret = Z_DATA_ERROR \<or> ret = Z_MEM_ERROR then Some None
       else if ret = Z_STREAM_END then Some (Some (out @ produced))
       else loop z (out @ produced) strm) = Some r"
  obtain ret produced strm' where i: "zl_inflate z DECOMPRESS_BUF strm = (ret, produced, strm')" by (metis prod_cases3)
  show "\<exists>n. stops (nth_code z n strm)"
  proof (cases "stops ret")
    case True
    then show ?thesis using i by (intro exI [of _ 0]) simp
  next
    case False
    then have "loop z (out @ produced) strm' = Some r" using 1(2) i by (auto simp: stops_def split: if_splits)
    then obtain n where "stops (nth_code z n strm')" using 1(1) [of z "out @ produced" strm' r] by blast
    then show ?thesis using i by (intro exI [of _ "Suc n"]) simp
  qed
qed

lemma inflate_loop_None: "inflate_loop z out strm = None \<longleftrightarrow> (\<forall>n. \<not> stops (nth_code z n strm))"
  using inflate_loop_stops [of z _ strm out] inflate_loop_result [of z out strm] by (metis option.exhaust option.distinct(1))

lemma decompress_hangs:
  "decompress_gzip z data = None \<longleftrightarrow> (\<exists>strm. zl_open z data = Some strm \<and> (\<forall>n. \<not> stops (nth_code z n strm)))"
  by (simp add: decompress_gzip_def inflate_loop_None split: option.split)

text \<open>C27. The handler of Upbit messages returns unless the message is a compressed frame on which zlib never
  reports the end of the stream or a fatal error; on such a frame it hangs.\<close>

theorem upbit_message_handled_iff:
  "upbit_on_ws_message z os message a = None \<longleftrightarrow>
    message \<noteq> [] \<and> hd message = CHR 0x1F \<and> (\<exists>strm. zl_open z message = Some strm \<and> (\<forall>n. \<not> stops (nth_code z n strm)))"
  unfolding decompress_hangs [symmetric] by (simp add: upbit_on_ws_message_def split: option.split)

text \<open>
  A truncated frame is one: zlib uses up the input and then reports a buffer error for every further
  call, which the loop takes for progress.
\<close>

lemma nth_code_stuck:
  "zl_inflate z DECOMPRESS_BUF strm = (Z_BUF_ERROR, [], strm) \<Longrightarrow> nth_code z n strm = Z_BUF_ERROR"
  by (induction n) simp_all

lemma truncated_frame_hangs:
  assumes "message \<noteq> []" "hd message = CHR 0x1F" "zl_open z message = Some strm"
    and "zl_inflate z DECOMPRESS_BUF strm = (Z_OK, produced, strm')" "zl_inflate z DECOMPRESS_BUF strm' = (Z_BUF_ERROR, [], strm')"
  shows "upbit_on_ws_message z os message a = None"
proof -
  have "\<not> stops (nth_code z n strm)" for n
    using assms(4) nth_code_stuck [OF assms(5)] by (cases n) (simp_all add: stops_def)
  then have "decompress_gzip z message = None" unfolding decompress_hangs using assms(3) by blast
  then show ?thesis using assms(1,2) by (simp add: upbit_on_ws_message_def)
qed

section \<open>Quotes\<close>

text \<open>
  A pair of quotes that was checked: neither is zero or negative. An entry of the cache holds such a
  pair or nothing.
\<close>

definition checked_bbo :: "upbit_bbo \<Rightarrow> bool" where
  "checked_bbo b \<longleftrightarrow> \<not> ub_bid b \<le> 0 \<and> \<not> ub_ask b \<le> 0"

definition checked_ticker :: "ticker \<Rightarrow> bool" where
  "checked_ticker t \<longleftrightarrow> tk_exchange t = Upbit \<and> \<not> tk_bid t \<le> 0 \<and> \<not> tk_ask t \<le> 0"

definition upbit_invar :: "'w upbit \<Rightarrow> bool" where
  "upbit_invar a \<longleftrightarrow> (\<forall>s b. up_bbo a s = Some b \<longrightarrow> b = upbit_bbo_default \<or> checked_bbo b) \<and> list_all checked_ticker (up_dispatched a)"

datatype upbit_call = UpFrame string | UpSubscribeTicker "symbol_id list" | UpSubscribeOrderbook "symbol_id list" | UpConnect bool |
  UpConnected | UpDisconnected | UpDisconnect | UpResync | UpSymbols

fun upbit_step :: "'s zlib \<Rightarrow> 'j json_api \<Rightarrow> 'w outside \<Rightarrow> upbit_call \<Rightarrow> 'w upbit \<Rightarrow> 'w upbit option" where
  "upbit_step z j os (UpFrame m) a = upbit_on_ws_message z os m a"
| "upbit_step z j os (UpSubscribeTicker ss) a = Some (upbit_subscribe_ticker ss a)"
| "upbit_step z j os (UpSubscribeOrderbook ss) a = Some (upbit_subscribe_orderbook j os ss a)"
| "upbit_step z j os (UpConnect r) a = Some (snd (upbit_connect r a))"
| "upbit_step z j os UpConnected a = Some (upbit_on_ws_connected j os a)"
| "upbit_step z j os UpDisconnected a = Some (upbit_on_ws_disconnected a)"
| "upbit_step z j os UpDisconnect a = Some (upbit_disconnect a)"
| "upbit_step z j os UpResync a = Some (upbit_resync_round j os a)"
| "upbit_step z j os UpSymbols a = Some (snd (upbit_get_available_symbols j os a))"

inductive upbit_reach :: "'s zlib \<Rightarrow> 'j json_api \<Rightarrow> 'w outside \<Rightarrow> 'w upbit \<Rightarrow> bool" for z j os where
  start: "up_bbo a = Map.empty \<Longrightarrow> up_dispatched a = [] \<Longrightarrow> upbit_reach z j os a"
| step: "upbit_reach z j os a \<Longrightarrow> upbit_step z j os c a = Some a' \<Longrightarrow> upbit_reach z j os a'"

lemma upbit_invar_fields:
  assumes "up_bbo a' = up_bbo a" "up_dispatched a' = up_dispatched a"
  shows "upbit_invar a' = upbit_invar a"
  using assms by (simp add: upbit_invar_def)

lemma upbit_invar_dispatch:
  "upbit_invar a \<Longrightarrow> checked_bbo b \<Longrightarrow> upbit_invar (upbit_dispatch_ticker (upbit_ticker now s b p) a)"
  by (simp add: upbit_invar_def upbit_dispatch_ticker_def upbit_ticker_def checked_ticker_def checked_bbo_def)

lemma upbit_invar_put: "upbit_invar a \<Longrightarrow> checked_bbo b \<Longrightarrow> upbit_invar (a\<lparr>up_bbo := (up_bbo a)(s \<mapsto> b)\<rparr>)"
  by (simp add: upbit_invar_def)

lemma upbit_invar_upd [simp]:
  "upbit_invar (a\<lparr>up_usdt_krw := x\<rparr>) = upbit_invar a" "upbit_invar (a\<lparr>up_last_price := lp\<rparr>) = upbit_invar a"
  "upbit_invar (a\<lparr>up_sent := ms\<rparr>) = upbit_invar a" "upbit_invar (a\<lparr>up_orderbooks := ss\<rparr>) = upbit_invar a"
  "upbit_invar (a\<lparr>up_tickers := ss\<rparr>) = upbit_invar a" "upbit_invar (a\<lparr>up_connected := c\<rparr>) = upbit_invar a"
  "upbit_invar (a\<lparr>up_ws := c\<rparr>) = upbit_invar a" "upbit_invar (a\<lparr>up_resync_running := c\<rparr>) = upbit_invar a"
  by (rule upbit_invar_fields; simp)+

lemma upbit_invar_get [simp]: "upbit_invar (snd (http_get os t h a)) = upbit_invar a"
  by (rule upbit_invar_fields) (simp_all add: http_get_def case_prod_unfold)

lemma upbit_orderbook_invar: "upbit_invar a \<Longrightarrow> upbit_invar (snd (upbit_parse_orderbook_message os m a))"
  by (auto simp: upbit_parse_orderbook_message_def Let_def checked_bbo_def split: option.split intro!: upbit_invar_dispatch upbit_invar_put)

lemma upbit_ticker_invar:
  assumes "upbit_invar a"
  shows "upbit_invar (snd (upbit_parse_ticker_message os m a))"
proof -
  have c: "checked_bbo b" if "0 < ub_bid b" "0 < ub_ask b" for b
    using that dbl_lt_not_le by (auto simp: checked_bbo_def)
  show ?thesis
    using assms by (auto simp: upbit_parse_ticker_message_def Let_def split: option.split intro!: upbit_invar_dispatch c)
qed

lemma upbit_item_invar: "upbit_invar a \<Longrightarrow> upbit_invar (fst (upbit_snapshot_item j now item a))"
  by (auto simp: upbit_snapshot_item_def Let_def checked_bbo_def split: option.split list.split intro!: upbit_invar_dispatch upbit_invar_put)

lemma upbit_batch_invar: "upbit_invar a \<Longrightarrow> upbit_invar (upbit_snapshot_batch j os now ss a)"
  by (auto simp: upbit_snapshot_batch_def case_prod_unfold split: option.split intro!: fold_catching_invar [where P = upbit_invar] upbit_item_invar)

lemma upbit_snapshots_invar: "upbit_invar a \<Longrightarrow> upbit_invar (fetch_orderbook_snapshots j os symbols a)"
  unfolding fetch_orderbook_snapshots_def Let_def by (rule fold_invar [where P = upbit_invar]) (rule upbit_batch_invar)

lemma upbit_ensure_invar: "upbit_invar a \<Longrightarrow> upbit_invar (fold upbit_ensure_bbo ss a)"
  by (rule fold_invar [where P = upbit_invar]) (auto simp: upbit_ensure_bbo_def upbit_invar_def)

lemma upbit_subscribe_invar: "upbit_invar a \<Longrightarrow> upbit_invar (upbit_subscribe_orderbook j os symbols a)"
  by (simp add: upbit_subscribe_orderbook_def Let_def upbit_start_resync_def upbit_snapshots_invar upbit_ensure_invar)

lemma upbit_disconnected_invar: "upbit_invar a \<Longrightarrow> upbit_invar (upbit_on_ws_disconnected a)"
  by (auto simp: upbit_on_ws_disconnected_def upbit_stop_resync_def upbit_invar_def Let_def)

lemma upbit_subscribe_ticker_invar: "upbit_invar a \<Longrightarrow> upbit_invar (upbit_subscribe_ticker symbols a)"
  by (simp add: upbit_subscribe_ticker_def Let_def)

lemma upbit_step_invar:
  assumes "upbit_invar a" "upbit_step z j os c a = Some a'"
  shows "upbit_invar a'"
proof (cases c)
  case (UpFrame m)
  then show ?thesis
    using assms by (auto simp: upbit_on_ws_message_def upbit_orderbook_invar upbit_ticker_invar split: option.splits if_splits)
next
  case UpConnected
  then show ?thesis
    using assms by (auto simp: upbit_on_ws_connected_def Let_def upbit_subscribe_invar upbit_subscribe_ticker_invar split: if_splits)
next
  case UpSymbols
  then show ?thesis
    using assms by (auto simp: upbit_get_available_symbols_def case_prod_unfold split: if_splits option.splits)
qed (use assms in \<open>auto simp: upbit_subscribe_invar upbit_subscribe_ticker_invar upbit_snapshots_invar upbit_disconnected_invar
    upbit_resync_round_def upbit_connect_def upbit_disconnect_def upbit_stop_resync_def split: if_splits\<close>)

text \<open>
  In every state the Upbit feed can reach, the tickers it has dispatched carry quotes that are not zero
  or negative, and so does the cache of best quotes as far as it is filled.
\<close>

lemma upbit_tickers_checked: "upbit_reach z j os a \<Longrightarrow> upbit_invar a"
proof (induction rule: upbit_reach.induct)
  case (step a c a')
  then show ?case using upbit_step_invar by blast
qed (simp add: upbit_invar_def)

text \<open>After a disconnection a trade alone dispatches nothing: the quotes from before are gone.\<close>

lemma upbit_no_stale_ticker:
  "up_dispatched (snd (upbit_parse_ticker_message os m (upbit_on_ws_disconnected a))) = up_dispatched a"
  by (simp add: upbit_parse_ticker_message_def upbit_on_ws_disconnected_def upbit_stop_resync_def upbit_bbo_default_def Let_def
      split: option.split)

end
