(* ===== verification/UpbitOrders.thy ===== *)
theory UpbitOrders
  imports Upbit BithumbOrders
begin

text \<open>
  The trading side of the Upbit adapter (\<^verbatim>\<open>src/exchange/upbit.cpp\<close>): tokens, market sales and purchases,
  order queries, balances and withdrawal fees.
\<close>

section \<open>Tokens\<close>

definition sign_upbit_jwt :: "'w outside \<Rightarrow> string \<Rightarrow> string \<Rightarrow> string" where
  "sign_upbit_jwt os secret_key payload_json =
    (let header_b64 = base64url_encode (text_bytes ''{\"alg\":\"HS512\",\"typ\":\"JWT\"}'');
         payload_b64 = base64url_encode (text_bytes payload_json);
         signing_input = header_b64 @ ''.'' @ payload_b64
     in signing_input @ ''.'' @ base64url_encode (os_hmac_sha512 os secret_key signing_input))"

definition generate_jwt_token :: "'w outside \<Rightarrow> 'w upbit \<Rightarrow> string \<times> 'w upbit" where
  "generate_jwt_token os a =
    (case fresh_uuid os a of (nonce, a) \<Rightarrow>
       let payload = ''{\"access_key\":\"'' @ xc_api_key (ac_credentials a) @ ''\",\"nonce\":\"'' @ nonce @ ''\"}''
       in (sign_upbit_jwt os (xc_secret_key (ac_credentials a)) (snprintf_string os 512 payload), a))"

definition generate_jwt_token_with_query :: "'w outside \<Rightarrow> string \<Rightarrow> 'w upbit \<Rightarrow> string \<times> 'w upbit" where
  "generate_jwt_token_with_query os query_string a =
    (case fresh_uuid os a of (nonce, a) \<Rightarrow>
       let payload = ''{\"access_key\":\"'' @ xc_api_key (ac_credentials a) @ ''\",\"nonce\":\"'' @ nonce @
             ''\",\"query_hash\":\"'' @ sha512 os query_string @ ''\",\"query_hash_alg\":\"SHA512\"}''
       in (sign_upbit_jwt os (xc_secret_key (ac_credentials a)) (snprintf_string os 768 payload), a))"

definition no_credentials :: "('w, 'z) account_scheme \<Rightarrow> bool" where
  "no_credentials a \<longleftrightarrow> xc_api_key (ac_credentials a) = [] \<or> xc_secret_key (ac_credentials a) = []"

section \<open>Orders\<close>

text \<open>Trailing zeros are cut off whether or not there is a decimal point.\<close>

definition format_upbit_number :: "dbl \<Rightarrow> nat \<Rightarrow> string" where
  "format_upbit_number value precision =
    (let out = strip_point (strip_zeros (format_fixed precision value)) in if out = [] then ''0'' else out)"

definition parse_upbit_order_status :: "string \<Rightarrow> dbl \<Rightarrow> dbl \<Rightarrow> order_status" where
  "parse_upbit_order_status state executed_volume remaining_volume =
    (if state = ''done'' then Filled
     else if state = ''cancel'' then (if 0 < executed_volume then PartiallyFilled else Cancelled)
     else if state = ''wait'' \<or> state = ''watch''
     then (if 0 < executed_volume \<and> 0 < remaining_volume then PartiallyFilled else New)
     else Rejected)"

definition upbit_trade :: "'j json_api \<Rightarrow> 'j \<Rightarrow> dbl \<times> dbl \<Rightarrow> (dbl \<times> dbl) option" where
  "upbit_trade j trade acc =
    (case (upbit_dom_double j 0 (ja_field j trade ''price''), upbit_dom_double j 0 (ja_field j trade ''volume'')) of
       (Some price, Some volume) \<Rightarrow> if 0 < price \<and> 0 < volume then Some (fst acc + volume, snd acc + price * volume) else Some acc
     | _ \<Rightarrow> None)"

text \<open>
  The fields are read one after the other; a missing one ends the reading with failure, and what was
  set by then stays set.
\<close>

definition upbit_late_fields :: "'j json_api \<Rightarrow> 'j \<Rightarrow> order \<Rightarrow> bool \<times> order" where
  "upbit_late_fields j doc o' =
    (case upbit_dom_string j (ja_field j doc ''side'') of None \<Rightarrow> (False, o')
     | Some side \<Rightarrow>
     let o' = (if side = ''bid'' then o'\<lparr>ord_side := Buy\<rparr> else if side = ''ask'' then o'\<lparr>ord_side := Sell\<rparr> else o') in
     case upbit_dom_string j (ja_field j doc ''ord_type'') of None \<Rightarrow> (False, o')
     | Some kind \<Rightarrow>
     let o' = o'\<lparr>ord_type := (if kind = ''limit'' then Limit else Market)\<rparr> in
     case upbit_dom_double j 0 (ja_field j doc ''price'') of None \<Rightarrow> (False, o')
     | Some price \<Rightarrow>
     let o' = (if 0 < price then o'\<lparr>ord_price := price\<rparr> else o') in
     case upbit_dom_double j 0 (ja_field j doc ''volume'') of None \<Rightarrow> (False, o')
     | Some volume \<Rightarrow> (True, if 0 < volume then o'\<lparr>ord_quantity := volume\<rparr> else o'))"

definition populate_upbit_order_from_body :: "'j json_api \<Rightarrow> 'w outside \<Rightarrow> string \<Rightarrow> order \<Rightarrow> bool \<times> order" where
  "populate_upbit_order_from_body j os body o' =
    (let doc = ja_iterate j body in
     case upbit_dom_string j (ja_field j doc ''uuid'') of None \<Rightarrow> (False, o')
     | Some uuid \<Rightarrow>
     if uuid = [] then (False, o')
     else case (upbit_dom_double j 0 (ja_field j doc ''executed_volume''), upbit_dom_double j 0 (ja_field j doc ''remaining_volume'')) of
       (Some executed_volume, Some remaining_volume) \<Rightarrow>
         (case (case ja_array j (ja_field j doc ''trades'') of None \<Rightarrow> Some (0, 0) | Some ts \<Rightarrow> fold_throwing (upbit_trade j) ts (0, 0)) of
            None \<Rightarrow> (False, o')
          | Some (total_trade_qty, total_trade_value) \<Rightarrow>
             let o' = o'\<lparr>ord_exchange := Upbit, ord_id_str := uuid, ord_exchange_order_id := os_hash os uuid,
                   ord_filled_quantity := (if 0 < executed_volume then executed_volume else total_trade_qty)\<rparr>;
                 o' = (if 0 < total_trade_qty \<and> 0 < total_trade_value then o'\<lparr>ord_average_price := total_trade_value / total_trade_qty\<rparr> else o') in
             case upbit_dom_string j (ja_field j doc ''state'') of None \<Rightarrow> (False, o')
             | Some state \<Rightarrow>
                upbit_late_fields j doc (o'\<lparr>ord_status := parse_upbit_order_status state executed_volume remaining_volume\<rparr>))
     | _ \<Rightarrow> (False, o'))"

definition upbit_rejected :: order where
  "upbit_rejected = order_default\<lparr>ord_status := Rejected, ord_exchange := Upbit\<rparr>"

text \<open>An order that was accepted counts as filled, unless the venue has already given it up.\<close>

definition upbit_accepted :: "order \<Rightarrow> order" where
  "upbit_accepted o' =
    (if ord_status o' \<noteq> Cancelled \<and> ord_status o' \<noteq> Rejected \<and> ord_status o' \<noteq> Expired then o'\<lparr>ord_status := Filled\<rparr> else o')"

text \<open>The common end of both order calls: the signed request and its answer.\<close>

definition upbit_send_order :: "'j json_api \<Rightarrow> 'w outside \<Rightarrow> string \<Rightarrow> string \<Rightarrow> order \<Rightarrow> 'w upbit \<Rightarrow> order \<times> 'w upbit" where
  "upbit_send_order j os query body o' a =
    (case generate_jwt_token_with_query os query a of (token, a) \<Rightarrow>
     (case http_post os ''/v1/orders'' body (bearer token @ [(''Content-Type'', ''application/json; charset=utf-8'')]) a of (response, a) \<Rightarrow>
        if \<not> hr_success response then (o'\<lparr>ord_status := Rejected\<rparr>, a)
        else case populate_upbit_order_from_body j os (hr_body response) o' of (ok, o') \<Rightarrow>
          (if \<not> ok then o'\<lparr>ord_status := Rejected\<rparr> else upbit_accepted o', a)))"

definition upbit_sell_query :: "symbol_id \<Rightarrow> dbl \<Rightarrow> string" where
  "upbit_sell_query symbol quantity =
    ''market='' @ symbol_to_upbit symbol @ ''&side=ask&ord_type=market&volume='' @ format_upbit_number quantity 16"

definition upbit_sell_body :: "symbol_id \<Rightarrow> dbl \<Rightarrow> string" where
  "upbit_sell_body symbol quantity =
    ''{\"market\":\"'' @ symbol_to_upbit symbol @ ''\",\"side\":\"ask\",\"ord_type\":\"market\",\"volume\":\"'' @
      format_upbit_number quantity 16 @ ''\"}''"

definition upbit_place_market_order ::
    "'j json_api \<Rightarrow> 'w outside \<Rightarrow> symbol_id \<Rightarrow> side \<Rightarrow> dbl \<Rightarrow> 'w upbit \<Rightarrow> order \<times> 'w upbit" where
  "upbit_place_market_order j os symbol side quantity a =
    (if side \<noteq> Sell then (upbit_rejected, a)
     else if quantity \<le> 0 then (upbit_rejected, a)
     else if no_credentials a then (upbit_rejected, a)
     else case generate_order_id a of (client_id, a) \<Rightarrow>
       let o' = order_default\<lparr>ord_exchange := Upbit, ord_symbol := symbol, ord_side := side, ord_type := Market, ord_quantity := quantity,
             ord_client_order_id := client_id, ord_create_time := os_system_now os (world_of a)\<rparr>
       in upbit_send_order j os (upbit_sell_query symbol quantity) (upbit_sell_body symbol quantity) o' a)"

fun floor_dbl :: "dbl \<Rightarrow> dbl" where
  "floor_dbl (Fin x) = lit (of_int \<lfloor>x\<rfloor>)"
| "floor_dbl x = x"

definition upbit_buy_query :: "symbol_id \<Rightarrow> dbl \<Rightarrow> string" where
  "upbit_buy_query symbol cost =
    ''market='' @ symbol_to_upbit symbol @ ''&side=bid&ord_type=price&price='' @ format_upbit_number cost 0"

definition upbit_buy_body :: "symbol_id \<Rightarrow> dbl \<Rightarrow> string" where
  "upbit_buy_body symbol cost =
    ''{\"market\":\"'' @ symbol_to_upbit symbol @ ''\",\"side\":\"bid\",\"ord_type\":\"price\",\"price\":\"'' @
      format_upbit_number cost 0 @ ''\"}''"

definition upbit_place_market_buy_cost ::
    "'j json_api \<Rightarrow> 'w outside \<Rightarrow> symbol_id \<Rightarrow> dbl \<Rightarrow> 'w upbit \<Rightarrow> order \<times> 'w upbit" where
  "upbit_place_market_buy_cost j os symbol cost a =
    (let normalized_cost = floor_dbl cost in
     if normalized_cost < KRW_MIN_ORDER then (upbit_rejected, a)
     else if no_credentials a then (upbit_rejected, a)
     else case generate_order_id a of (client_id, a) \<Rightarrow>
       let o' = order_default\<lparr>ord_exchange := Upbit, ord_symbol := symbol, ord_side := Buy, ord_type := Market, ord_price := normalized_cost,
             ord_client_order_id := client_id, ord_create_time := os_system_now os (world_of a)\<rparr>
       in upbit_send_order j os (upbit_buy_query symbol normalized_cost) (upbit_buy_body symbol normalized_cost) o' a)"

definition upbit_cancel_order :: "u64 \<Rightarrow> bool" where
  "upbit_cancel_order order_id = False"

section \<open>Order queries\<close>

text \<open>\<open>n\<close> queries are left; what a query reads replaces the order, except for its symbol.\<close>

fun upbit_queries :: "'j json_api \<Rightarrow> 'w outside \<Rightarrow> string \<Rightarrow> nat \<Rightarrow> order \<Rightarrow> 'w upbit \<Rightarrow> bool \<times> order \<times> 'w upbit" where
  "upbit_queries j os query 0 o' a = (ord_status o' = Filled, o', a)"
| "upbit_queries j os query (Suc n) o' a =
    (case generate_jwt_token_with_query os query a of (token, a) \<Rightarrow>
     (case http_get os (''/v1/order?'' @ query) (bearer token) a of (response, a) \<Rightarrow>
        if \<not> hr_success response then (False, o', a)
        else case populate_upbit_order_from_body j os (hr_body response) o' of (ok, updated) \<Rightarrow>
          if \<not> ok then (False, o', a)
          else let o' = updated\<lparr>ord_symbol := ord_symbol o', ord_update_time := os_system_now os (world_of a)\<rparr> in
            if ord_status o' = Filled then (True, o', a)
            else if ord_status o' = Cancelled \<or> ord_status o' = Rejected \<or> ord_status o' = Expired then (False, o', a)
            else upbit_queries j os query n o' a))"

definition UPBIT_QUERIES :: nat where "UPBIT_QUERIES = 20"

definition upbit_query_order_detail ::
    "'j json_api \<Rightarrow> 'w outside \<Rightarrow> string \<Rightarrow> order \<Rightarrow> 'w upbit \<Rightarrow> bool \<times> order \<times> 'w upbit" where
  "upbit_query_order_detail j os order_id o' a =
    (if order_id = [] \<or> no_credentials a then (False, o', a)
     else upbit_queries j os (''uuid='' @ order_id) UPBIT_QUERIES o' a)"

section \<open>Balances\<close>

text \<open>The first item of the currency; \<open>None\<close> when the reading threw.\<close>

fun upbit_find_balance :: "'j json_api \<Rightarrow> string \<Rightarrow> 'j list \<Rightarrow> dbl option" where
  "upbit_find_balance j currency [] = Some 0"
| "upbit_find_balance j currency (item # items) =
    (case upbit_dom_string j (ja_field j item ''currency'') of None \<Rightarrow> None
     | Some code \<Rightarrow>
        if code \<noteq> currency then upbit_find_balance j currency items
        else case (upbit_dom_double j 0 (ja_field j item ''balance''), upbit_dom_double j 0 (ja_field j item ''locked'')) of
          (Some balance, Some locked) \<Rightarrow> Some (balance + locked) | _ \<Rightarrow> None)"

definition upbit_get_balance :: "'j json_api \<Rightarrow> 'w outside \<Rightarrow> string \<Rightarrow> 'w upbit \<Rightarrow> dbl \<times> 'w upbit" where
  "upbit_get_balance j os currency a =
    (if no_credentials a then (lit (- 1), a)
     else case generate_jwt_token os a of (token, a) \<Rightarrow>
     (case http_get os ''/v1/accounts'' (bearer token) a of (response, a) \<Rightarrow>
        if \<not> hr_success response then (lit (- 1), a)
        else case ja_array j (ja_iterate j (hr_body response)) of None \<Rightarrow> (0, a)
         | Some items \<Rightarrow> (case upbit_find_balance j currency items of None \<Rightarrow> 0 | Some x \<Rightarrow> x, a)))"

definition upbit_balance :: "'j json_api \<Rightarrow> 'j \<Rightarrow> account_balance list \<Rightarrow> account_balance list option" where
  "upbit_balance j item balances =
    (case (upbit_dom_string j (ja_field j item ''currency''), upbit_dom_double j 0 (ja_field j item ''balance''),
           upbit_dom_double j 0 (ja_field j item ''locked'')) of
       (Some currency, Some available, Some locked) \<Rightarrow>
         let balance = balance_default\<lparr>ab_currency := currency, ab_available := available, ab_locked := locked, ab_total := available + locked\<rparr> in
         if is_dust (ab_total balance) \<and> is_dust (ab_available balance) \<and> is_dust (ab_locked balance) then Some balances
         else Some (balances @ [balance])
     | _ \<Rightarrow> None)"

definition upbit_get_all_balances :: "'j json_api \<Rightarrow> 'w outside \<Rightarrow> 'w upbit \<Rightarrow> account_balance list \<times> 'w upbit" where
  "upbit_get_all_balances j os a =
    (if no_credentials a then ([], a)
     else case generate_jwt_token os a of (token, a) \<Rightarrow>
     (case http_get os ''/v1/accounts'' (bearer token) a of (response, a) \<Rightarrow>
        if \<not> hr_success response then ([], a)
        else case ja_array j (ja_iterate j (hr_body response)) of None \<Rightarrow> ([], a)
         | Some items \<Rightarrow>
            (case fold_throwing (upbit_balance j) items [] of None \<Rightarrow> ([], a)
             | Some balances \<Rightarrow> (by_currency balances, a))))"

section \<open>Withdrawal fees\<close>

definition url_encode_component :: "string \<Rightarrow> string" where
  "url_encode_component raw = concat (map (\<lambda>c.
     if CHR ''A'' \<le> c \<and> c \<le> CHR ''Z'' \<or> CHR ''a'' \<le> c \<and> c \<le> CHR ''z'' \<or> CHR ''0'' \<le> c \<and> c \<le> CHR ''9'' \<or>
        c = CHR ''-'' \<or> c = CHR ''_'' \<or> c = CHR ''.'' \<or> c = CHR ''~''
     then [c] else CHR ''%'' # hex_pair HEX_UPPER (of_char c)) raw)"

definition parse_upbit_withdraw_fee :: "'j json_api \<Rightarrow> string \<Rightarrow> dbl option" where
  "parse_upbit_withdraw_fee j body =
    (case upbit_dom_double j (lit (- 1)) (ja_field j (ja_field j (ja_iterate j body) ''currency'') ''withdraw_fee'') of None \<Rightarrow> None
     | Some fee \<Rightarrow> if isfinite fee \<and> 0 \<le> fee then Some fee else None)"

definition unique_coins :: "string list \<Rightarrow> string list" where
  "unique_coins coins = fold (\<lambda>coin cs. if coin \<noteq> [] \<and> coin \<notin> set cs then cs @ [coin] else cs) coins []"

text \<open>The networks of each coin that are open for withdrawal; a set is a list without repetitions.\<close>

definition wallet_item :: "'j json_api \<Rightarrow> 'j \<Rightarrow> (string \<rightharpoonup> string list) \<Rightarrow> (string \<rightharpoonup> string list) \<times> bool" where
  "wallet_item j item nets =
    (case (upbit_dom_string j (ja_field j item ''currency''), upbit_dom_string j (ja_field j item ''net_type''),
           upbit_dom_string j (ja_field j item ''wallet_state'')) of
       (Some currency, Some net_type, Some wallet_state) \<Rightarrow>
         if currency = [] \<or> net_type = [] then (nets, False)
         else if wallet_state \<noteq> [] \<and> wallet_state \<noteq> ''working'' \<and> wallet_state \<noteq> ''withdraw_only'' then (nets, False)
         else let old = (case nets currency of Some ns \<Rightarrow> ns | None \<Rightarrow> [])
           in (nets(currency \<mapsto> (if net_type \<in> set old then old else old @ [net_type])), False)
     | _ \<Rightarrow> (nets, True))"

definition wallet_networks :: "'j json_api \<Rightarrow> 'w outside \<Rightarrow> 'w upbit \<Rightarrow> (string \<rightharpoonup> string list) \<times> 'w upbit" where
  "wallet_networks j os a =
    (case generate_jwt_token os a of (token, a) \<Rightarrow>
     (case http_get os ''/v1/status/wallet'' (bearer token) a of (response, a) \<Rightarrow>
        if \<not> hr_success response then (Map.empty, a)
        else case ja_array j (ja_iterate j (hr_body response)) of None \<Rightarrow> (Map.empty, a)
         | Some items \<Rightarrow> (fst (fold_catching (wallet_item j) items Map.empty), a)))"

definition fee_query :: "string \<Rightarrow> string \<Rightarrow> string" where
  "fee_query coin nt = ''currency='' @ url_encode_component coin @ (if nt = [] then [] else ''&net_type='' @ url_encode_component nt)"

definition network_name :: "string \<Rightarrow> string \<Rightarrow> string" where
  "network_name coin nt = (if nt = [] then coin else scan_normalize_chain nt)"

definition ask_fee :: "'j json_api \<Rightarrow> 'w outside \<Rightarrow> string \<Rightarrow> string \<Rightarrow> coin_network_fee list \<times> 'w upbit \<Rightarrow> coin_network_fee list \<times> 'w upbit" where
  "ask_fee j os coin nt acc =
    (case acc of (fees, a) \<Rightarrow>
     (case generate_jwt_token_with_query os (fee_query coin nt) a of (token, a) \<Rightarrow>
     (case http_get os (''/v1/withdraws/chance?'' @ fee_query coin nt) (bearer token) a of (response, a) \<Rightarrow>
        (case (if hr_success response then parse_upbit_withdraw_fee j (hr_body response) else None) of None \<Rightarrow> (fees, a)
         | Some fee \<Rightarrow>
            if network_name coin nt \<in> cn_network ` set fees then (fees, a)
            else (fees @ [\<lparr>cn_network = network_name coin nt, cn_fee = fee\<rparr>], a)))))"

text \<open>
  \<open>arrange\<close> is the order in which the hash set of a coin's networks is walked through. Without a known network
  the default one is asked for.
\<close>

definition ask_coin ::
    "'j json_api \<Rightarrow> 'w outside \<Rightarrow> (string list \<Rightarrow> string list) \<Rightarrow> (string \<rightharpoonup> string list) \<Rightarrow> string \<Rightarrow>
     (string \<rightharpoonup> coin_network_fee list) \<times> 'w upbit \<Rightarrow> (string \<rightharpoonup> coin_network_fee list) \<times> 'w upbit" where
  "ask_coin j os arrange nets coin acc =
    (case acc of (fees, a) \<Rightarrow>
       let net_types = (case nets coin of Some (n # ns) \<Rightarrow> arrange (n # ns) | _ \<Rightarrow> [[]]) in
       case fold (ask_fee j os coin) net_types ([], a) of (cs, a) \<Rightarrow> (if cs = [] then fees else fees(coin \<mapsto> cs), a))"

definition upbit_fetch_withdrawal_fees ::
    "'j json_api \<Rightarrow> 'w outside \<Rightarrow> (string list \<Rightarrow> string list) \<Rightarrow> string list \<Rightarrow> 'w upbit \<Rightarrow> (string \<rightharpoonup> coin_network_fee list) \<times> 'w upbit" where
  "upbit_fetch_withdrawal_fees j os arrange coins a =
    (if no_credentials a then (Map.empty, a)
     else case wallet_networks j os a of (nets, a) \<Rightarrow> fold (ask_coin j os arrange nets) (unique_coins coins) (Map.empty, a))"

section \<open>The cost of a purchase\<close>

lemma strip_zeros_last: "strip_zeros s \<noteq> [] \<Longrightarrow> last (strip_zeros s) \<noteq> CHR ''0''"
proof -
  assume "strip_zeros s \<noteq> []"
  then have d: "dropWhile (\<lambda>c. c = CHR ''0'') (rev s) \<noteq> []" by (simp add: strip_zeros_def)
  from hd_dropWhile [OF d] show ?thesis using d by (simp add: strip_zeros_def last_rev)
qed

text \<open>The digits of a whole number, cut: the number without its factors of ten.\<close>

lemma cut_digits:
  assumes "0 < n"
  obtains m k where "int n = m * 10 ^ k" "\<not> 10 dvd m" "digits_value (strip_zeros (dec_digits n)) = m"
    "list_all isdigit (strip_zeros (dec_digits n))" "strip_zeros (dec_digits n) \<noteq> []"
proof -
  let ?s = "strip_zeros (dec_digits n)"
  obtain k where k: "dec_digits n = ?s @ replicate k (CHR ''0'')" by (rule strip_zeros_split)
  have v: "int n = digits_value ?s * 10 ^ k"
    using arg_cong [OF k, of digits_value] by (simp add: dec_digits_value)
  have ne: "?s \<noteq> []" using v assms by auto
  have dig: "list_all isdigit ?s" using dec_digits_digit [of n] k by (metis list_all_append)
  let ?c = "last ?s" and ?ds = "butlast ?s"
  have split: "?s = ?ds @ [?c]" using ne by simp
  have "isdigit ?c" using dig ne by (simp add: list_all_iff)
  then have c: "48 \<le> (of_char ?c :: nat)" "of_char ?c \<le> (57 :: nat)" by (simp_all add: isdigit_def Let_def)
  have "(of_char (CHR ''0'') :: nat) = 48" by simp
  then have "of_char ?c \<noteq> (48 :: nat)" using strip_zeros_last [OF ne] by (metis of_char_eq_iff)
  moreover have "digits_value ?s = 10 * digits_value ?ds + (int (of_char ?c) - 48)"
    using arg_cong [OF split, of digits_value] by (simp only: digits_value_snoc)
  ultimately have "\<not> 10 dvd digits_value ?s" using c by presburger
  then show thesis using that v dig ne by blast
qed

text \<open>The text of a whole cost reads as the cost without its factors of ten.\<close>

lemma cost_text_cut:
  assumes "1 \<le> n" "n < 2 ^ 53"
  obtains m k where "n = m * 10 ^ k" "\<not> 10 dvd m" "fast_stod (format_upbit_number (Fin (of_int n)) 0) 0 = lit (of_int m)"
    "CHR 0x22 \<notin> set (format_upbit_number (Fin (of_int n)) 0)"
proof -
  let ?s = "strip_zeros (dec_digits (nat n))"
  obtain m k where mk: "int (nat n) = m * 10 ^ k" "\<not> 10 dvd m" "digits_value ?s = m" "list_all isdigit ?s" "?s \<noteq> []"
    using cut_digits [of "nat n"] assms(1) by auto
  have "rne (of_int n) = n" by simp
  then have f: "format_fixed 0 (Fin (of_int n)) = dec_digits (nat n)"
    using assms(1) by (simp add: format_fixed_def Let_def)
  have "last ?s \<noteq> CHR ''.''" using mk(4,5) by (metis isdigit_dot last_in_set list_all_iff)
  then have t: "format_upbit_number (Fin (of_int n)) 0 = ?s"
    using mk(5) by (simp add: format_upbit_number_def f strip_point_def Let_def)
  have e: "n = m * 10 ^ k" using mk(1) assms(1) by simp
  then have "0 < m * 10 ^ k" using assms(1) by simp
  then have pos: "0 < m" by (simp add: zero_less_mult_iff)
  have "m * 1 \<le> m * 10 ^ k" using pos by (intro mult_left_mono) simp_all
  then have m: "\<bar>m\<bar> \<le> 2 ^ 53" using e assms(2) pos by linarith
  have "from_chars ?s = Some (lit (of_int m))"
    using from_chars_fraction(2) [of ?s "[]" "of_int m"] mk(3-5) lit_of_int [OF m] pos by (simp add: zero_dbl_def)
  then have "fast_stod ?s 0 = lit (of_int m)" using mk(5) by (simp add: fast_stod_def)
  moreover have "CHR 0x22 \<notin> set ?s" using mk(4) by (auto simp: list_all_iff isdigit_def)
  ultimately show thesis using that [OF e mk(2)] t by simp
qed

section \<open>Orders on the wire\<close>

lemma jwt_simps [simp]:
  "ln_written (ac_line (snd (generate_jwt_token os a))) = ln_written (ac_line a)"
  "ln_written (ac_line (snd (generate_jwt_token_with_query os q a))) = ln_written (ac_line a)"
  "ac_credentials (snd (generate_jwt_token os a)) = ac_credentials a"
  "ac_credentials (snd (generate_jwt_token_with_query os q a)) = ac_credentials a"
  by (simp_all add: generate_jwt_token_def generate_jwt_token_with_query_def case_prod_unfold Let_def)

lemma upbit_send_written:
  obtains c headers where "c \<le> 3" "ord_status (fst (upbit_send_order j os query body o' a)) = Filled \<longrightarrow> 0 < c"
    "ln_written (ac_line (snd (upbit_send_order j os query body o' a))) = ln_written (ac_line a) @
       replicate c (account_request a POST ''/v1/orders'' body headers)"
proof -
  let ?t = "fst (generate_jwt_token_with_query os query a)" and ?a = "snd (generate_jwt_token_with_query os query a)"
  let ?h = "bearer ?t @ [(''Content-Type'', ''application/json; charset=utf-8'')]"
  have "snd (upbit_send_order j os query body o' a) = snd (http_post os ''/v1/orders'' body ?h ?a)"
    by (simp add: upbit_send_order_def case_prod_unfold)
  moreover have "ord_status (fst (upbit_send_order j os query body o' a)) = Filled \<Longrightarrow> hr_success (fst (http_post os ''/v1/orders'' body ?h ?a))"
    by (auto simp: upbit_send_order_def case_prod_unfold split: if_splits)
  ultimately show thesis using http_post_counted [of os "''/v1/orders''" body ?h ?a] that by auto
qed

lemma buy_body_reads:
  assumes "CHR 0x22 \<notin> set market" "CHR 0x22 \<notin> set v"
  shows "extract_quoted_value (''{\"market\":\"'' @ market @ ''\",\"side\":\"bid\",\"ord_type\":\"price\",\"price\":\"'' @ v @ ''\"}'') ''\"price\":\"'' 0 =
      Some (v, 54 + length market + length v)"
proof -
  let ?b = "''{\"market\":\"'' @ market @ ''\",\"side\":\"bid\",\"ord_type\":\"price\",\"price\":\"'' @ v @ ''\"}''"
  let ?x = "''{\"market\":\"'' @ market @ ''\",\"side\":\"bid\",\"ord_type\":\"price\",''"
  have "find_sub ''\"price\":\"'' ?b = Some (45 + length market)"
    using find_sub_here [of "''\"price\":\"''"] assms(1)
    by (simp add: find_sub_skip starts_with_Cons find_marker_skip name_is_no_value [where p = "[CHR 0x22]", simplified, of "''price''", simplified])
  then show ?thesis
    using extract_here [of ?b ?x "''\"price\":\"''" v "''}''"] assms(2) by simp
qed

text \<open>C23. A market purchase on Upbit sends at most three copies of one request, and the price in its body is
  the whole cost with all its factors of ten cut off: a purchase for 50000 won asks for 5, and only
  a cost that does not end in zero is sent as it is.\<close>

theorem upbit_buy_cost_cut:
  assumes "cost = Fin x" "n = \<lfloor>x\<rfloor>" "5000 \<le> n" "n < 2 ^ 53" "\<not> no_credentials a" "CHR 0x22 \<notin> set (symbol_to_upbit symbol)"
  shows "\<exists>c rq m k v e. c \<le> 3 \<and> n = m * 10 ^ k \<and> \<not> 10 dvd m \<and>
      ln_written (ac_line (snd (upbit_place_market_buy_cost j os symbol cost a))) = ln_written (ac_line a) @ replicate c rq \<and>
      rq_method rq = POST \<and> rq_target rq = ''/v1/orders'' \<and>
      extract_quoted_value (rq_body rq) ''\"price\":\"'' 0 = Some (v, e) \<and> fast_stod v 0 = lit (of_int m)"
proof -
  obtain m k where mk: "n = m * 10 ^ k" "\<not> 10 dvd m" "fast_stod (format_upbit_number (Fin (of_int n)) 0) 0 = lit (of_int m)"
    "CHR 0x22 \<notin> set (format_upbit_number (Fin (of_int n)) 0)"
    using cost_text_cut [of n] assms(3,4) by auto
  have c: "floor_dbl cost = Fin (of_int n)" using assms(1-4) lit_of_int [of n] by simp
  have "lit 5000 = Fin 5000" using lit_of_int [of 5000] by simp
  then have "\<not> Fin (of_int n) < KRW_MIN_ORDER" using assms(3) by (simp add: KRW_MIN_ORDER_def)
  then obtain o' where e: "upbit_place_market_buy_cost j os symbol cost a =
      upbit_send_order j os (upbit_buy_query symbol (Fin (of_int n))) (upbit_buy_body symbol (Fin (of_int n))) o' (snd (generate_order_id a))"
    using assms(5) c by (auto simp: upbit_place_market_buy_cost_def case_prod_unfold Let_def)
  obtain w h where "w \<le> 3" "ln_written (ac_line (snd (upbit_place_market_buy_cost j os symbol cost a))) =
      ln_written (ac_line (snd (generate_order_id a))) @
      replicate w (account_request (snd (generate_order_id a)) POST ''/v1/orders'' (upbit_buy_body symbol (Fin (of_int n))) h)"
    using upbit_send_written [of j os "upbit_buy_query symbol (Fin (of_int n))" "upbit_buy_body symbol (Fin (of_int n))" o' "snd (generate_order_id a)"]
    unfolding e by metis
  then have "w \<le> 3" "ln_written (ac_line (snd (upbit_place_market_buy_cost j os symbol cost a))) = ln_written (ac_line a) @
      replicate w (account_request a POST ''/v1/orders'' (upbit_buy_body symbol (Fin (of_int n))) h)"
    by (simp_all add: generate_order_id_def)
  moreover note buy_body_reads [OF assms(6) mk(4)]
  ultimately show ?thesis using mk(1-3) unfolding upbit_buy_body_def by (metis wire_request_simps)
qed

text \<open>An Upbit order that counts as filled was written to the wire and answered.\<close>

lemma upbit_filled_means_answered:
  assumes "ord_status (fst (upbit_place_market_order j os symbol side quantity a)) = Filled"
  shows "\<exists>rq \<in> set (ln_written (ac_line (snd (upbit_place_market_order j os symbol side quantity a)))). rq_body rq = upbit_sell_body symbol quantity"
proof -
  obtain o' where e: "upbit_place_market_order j os symbol side quantity a =
      upbit_send_order j os (upbit_sell_query symbol quantity) (upbit_sell_body symbol quantity) o' (snd (generate_order_id a))"
    using assms by (auto simp: upbit_place_market_order_def upbit_rejected_def case_prod_unfold Let_def split: if_splits)
  obtain c h where "0 < c" "ln_written (ac_line (snd (upbit_place_market_order j os symbol side quantity a))) =
      ln_written (ac_line (snd (generate_order_id a))) @
      replicate c (account_request (snd (generate_order_id a)) POST ''/v1/orders'' (upbit_sell_body symbol quantity) h)"
    by (rule upbit_send_written [of j os "upbit_sell_query symbol quantity" "upbit_sell_body symbol quantity" o' "snd (generate_order_id a)"])
      (use assms in \<open>simp add: e\<close>)
  then show ?thesis by simp
qed

section \<open>Order queries\<close>

text \<open>
  A query that succeeds has read the order as done; it keeps symbol and client identifier. Whatever
  happens it asks at most sixty times.
\<close>

lemma late_fields_keep:
  "ord_symbol (snd (upbit_late_fields j doc o')) = ord_symbol o' \<and> ord_client_order_id (snd (upbit_late_fields j doc o')) = ord_client_order_id o'"
  by (simp add: upbit_late_fields_def Let_def split: option.split)

lemma populate_keeps:
  "ord_symbol (snd (populate_upbit_order_from_body j os body o')) = ord_symbol o' \<and>
   ord_client_order_id (snd (populate_upbit_order_from_body j os body o')) = ord_client_order_id o'"
  by (simp add: populate_upbit_order_from_body_def Let_def case_prod_unfold late_fields_keep split: option.split)

lemma upbit_queries_ok:
  "upbit_queries j os query n o' a = (ok, o2, a2) \<Longrightarrow>
    (ok \<longrightarrow> ord_status o2 = Filled) \<and> ord_symbol o2 = ord_symbol o' \<and> ord_client_order_id o2 = ord_client_order_id o' \<and>
    (\<exists>c \<le> 3 * n. length (ln_written (ac_line a2)) = length (ln_written (ac_line a)) + c)"
proof (induction n arbitrary: o' a)
  case (Suc n)
  let ?t = "fst (generate_jwt_token_with_query os query a)" and ?a = "snd (generate_jwt_token_with_query os query a)"
  let ?g = "http_get os (''/v1/order?'' @ query) (bearer ?t) ?a"
  obtain c where c: "c \<le> 3" "length (ln_written (ac_line (snd ?g))) = length (ln_written (ac_line a)) + c"
    using http_get_copies [of os "''/v1/order?'' @ query" "bearer ?t" ?a] by auto
  obtain ok' u where u: "populate_upbit_order_from_body j os (hr_body (fst ?g)) o' = (ok', u)" by (metis prod.exhaust)
  let ?o = "u\<lparr>ord_symbol := ord_symbol o', ord_update_time := os_system_now os (world_of (snd ?g))\<rparr>"
  have k: "ord_client_order_id u = ord_client_order_id o'" using populate_keeps [of j os "hr_body (fst ?g)" o'] u by simp
  have "(ok, o2, a2) = (False, o', snd ?g) \<or> (ok, o2, a2) = (ord_status ?o = Filled, ?o, snd ?g) \<or>
      upbit_queries j os query n ?o (snd ?g) = (ok, o2, a2)"
    using Suc.prems u by (auto simp: case_prod_unfold Let_def split: if_splits)
  then consider "(ok, o2, a2) = (False, o', snd ?g)" | "(ok, o2, a2) = (ord_status ?o = Filled, ?o, snd ?g)"
    | "upbit_queries j os query n ?o (snd ?g) = (ok, o2, a2)" by blast
  then show ?case
  proof cases
    case 3
    from Suc.IH [OF this] obtain d where "d \<le> 3 * n" "length (ln_written (ac_line a2)) = length (ln_written (ac_line (snd ?g))) + d"
      "ok \<longrightarrow> ord_status o2 = Filled" "ord_symbol o2 = ord_symbol o'" "ord_client_order_id o2 = ord_client_order_id o'"
      using k by auto
    then show ?thesis using c by (auto intro!: exI [of _ "c + d"])
  qed (use c k in \<open>auto intro!: exI [of _ c]\<close>)
qed auto

lemma upbit_query_sound:
  assumes "upbit_query_order_detail j os order_id o' a = (ok, o2, a2)"
  shows "(ok \<longrightarrow> ord_status o2 = Filled) \<and> ord_symbol o2 = ord_symbol o' \<and> ord_client_order_id o2 = ord_client_order_id o' \<and>
    length (ln_written (ac_line a2)) \<le> length (ln_written (ac_line a)) + 60"
  using assms upbit_queries_ok [of j os "''uuid='' @ order_id" 20 o' a ok o2 a2]
  by (auto simp: upbit_query_order_detail_def UPBIT_QUERIES_def split: if_splits)

section \<open>Withdrawal fees\<close>

definition fee_list_ok :: "coin_network_fee list \<Rightarrow> bool" where
  "fee_list_ok cs \<longleftrightarrow> distinct (map cn_network cs) \<and> (\<forall>f \<in> set cs. isfinite (cn_fee f) \<and> 0 \<le> cn_fee f)"

lemma ask_fee_ok: "fee_list_ok (fst acc) \<Longrightarrow> fee_list_ok (fst (ask_fee j os coin nt acc))"
  by (cases acc) (auto simp: ask_fee_def fee_list_ok_def parse_upbit_withdraw_fee_def case_prod_unfold split: option.splits if_splits)

lemma ask_fees_ok: "fee_list_ok (fst acc) \<Longrightarrow> fee_list_ok (fst (fold (ask_fee j os coin) nts acc))"
  by (rule fold_invar [where P = "\<lambda>acc. fee_list_ok (fst acc)"]) (simp_all add: ask_fee_ok)

lemma unique_coins_set: "set (unique_coins coins) = set coins - {[]} \<and> distinct (unique_coins coins)"
proof -
  have "set (fold (\<lambda>coin cs. if coin \<noteq> [] \<and> coin \<notin> set cs then cs @ [coin] else cs) coins cs) = set cs \<union> (set coins - {[]}) \<and>
      distinct (fold (\<lambda>coin cs. if coin \<noteq> [] \<and> coin \<notin> set cs then cs @ [coin] else cs) coins cs)" if "distinct cs" for cs
    using that by (induction coins arbitrary: cs) auto
  from this [of "[]"] show ?thesis by (simp add: unique_coins_def)
qed

text \<open>
  What Upbit's fees promise: only coins that were asked for, at least one network each, every network
  once, and fees that are finite and not negative.
\<close>

lemma upbit_fees_sound:
  assumes "fst (upbit_fetch_withdrawal_fees j os arrange coins a) coin = Some cs"
  shows "coin \<in> set coins \<and> coin \<noteq> [] \<and> cs \<noteq> [] \<and> fee_list_ok cs"
proof -
  define P :: "(string \<rightharpoonup> coin_network_fee list) \<times> 'a upbit \<Rightarrow> bool" where
    "P = (\<lambda>acc. \<forall>c cs. fst acc c = Some cs \<longrightarrow> c \<in> set (unique_coins coins) \<and> cs \<noteq> [] \<and> fee_list_ok cs)"
  have "P (ask_coin j os arrange nets c acc)" if "c \<in> set (unique_coins coins)" "P acc" for nets c acc
  proof -
    define nts where "nts = (case nets c of Some (n # ns) \<Rightarrow> arrange (n # ns) | _ \<Rightarrow> [[]])"
    define r where "r = fold (ask_fee j os c) nts ([], snd acc)"
    have "fee_list_ok (fst r)" unfolding r_def by (rule ask_fees_ok) (simp add: fee_list_ok_def)
    moreover have "ask_coin j os arrange nets c acc = (if fst r = [] then fst acc else (fst acc)(c \<mapsto> fst r), snd r)"
      by (simp add: ask_coin_def case_prod_unfold nts_def r_def Let_def)
    ultimately show ?thesis using that by (simp add: P_def)
  qed
  moreover have nil: "P (Map.empty, a)" for a by (simp add: P_def)
  ultimately have "P (fold (ask_coin j os arrange nets) (unique_coins coins) (Map.empty, a))" for nets a
    using fold_invar_set [of P "(Map.empty, a)" "unique_coins coins" "ask_coin j os arrange nets"] by blast
  then have "P (upbit_fetch_withdrawal_fees j os arrange coins a)"
    using nil by (simp add: upbit_fetch_withdrawal_fees_def case_prod_unfold)
  then show ?thesis using assms unique_coins_set [of coins] by (auto simp: P_def)
qed

end
