(* ===== verification/VenueRun.thy ===== *)
theory VenueRun
  imports BithumbOrders BybitSafety UpbitOrders SampleJson
begin

text \<open>
  The trading sides of the adapters at concrete runs: a network that answers every request, and a short that is accepted over the trading socket.
\<close>

section \<open>The outside of the runs\<close>

definition demo_os :: "string list \<Rightarrow> socket_event list \<Rightarrow> nat outside" where
  "demo_os messages events = \<lparr>os_attempt = (\<lambda>rq w. (Answered 200 (rq_target rq) [], Suc w)), os_timestamp_ms = int, os_system_now = (\<lambda>w. 0),
     os_steady_now = (\<lambda>w. 0), os_random = (\<lambda>n w. (Some (replicate n 7), w)), os_hmac_sha256 = (\<lambda>k d. [1, 2]), os_hmac_sha512 = (\<lambda>k d. [3]),
     os_sha512 = (\<lambda>d. [4]), os_hash = (\<lambda>s. 0), os_stack = (\<lambda>n. replicate n (CHR ''x'')), os_private = (\<lambda>w. (messages, w)),
     os_trade = (\<lambda>w. (events, w))\<rparr>"

definition demo_credentials :: exchange_credentials where
  "demo_credentials = \<lparr>xc_api_key = ''key'', xc_secret_key = ''secret'', xc_passphrase = [], xc_ws_endpoint = [], xc_ws_private_endpoint = [],
     xc_ws_trade_endpoint = [], xc_rest_endpoint = ''https://api.example.com'', xc_enabled = True\<rparr>"

definition demo_account :: "nat account" where
  "demo_account = \<lparr>ac_credentials = demo_credentials, ac_line = \<lparr>ln_world = 0, ln_written = []\<rparr>, ac_next_order_id = 1, ac_fills = Map.empty,
     ac_private_ready = True, ac_private_sent = []\<rparr>"

lemma surjective_triple: "x = (fst x, fst (snd x), snd (snd x))"
  by simp

section \<open>Bithumb\<close>

theorem bithumb_sell_order_exact_witness:
  "\<exists>n rq v e. n \<le> 3 \<and>
      ln_written (ac_line (snd (bithumb_place_market_order (sample_api []) (demo_os [] []) (SymbolId ''XRP'' ''KRW'') Sell (lit (12345678 / 10 ^ 8)) demo_account))) =
        replicate n rq \<and>
      extract_quoted_value (rq_body rq) ''\"volume\":\"'' 0 = Some (v, e) \<and> fast_stod v 0 = lit (12345678 / 10 ^ 8)"
proof -
  have "CHR 0x22 \<notin> set (bithumb_market (SymbolId ''XRP'' ''KRW''))" by code_simp
  moreover have "ln_written (ac_line demo_account) = []" by (simp add: demo_account_def)
  ultimately show ?thesis
    using bithumb_sell_order_exact [of 12345678 "lit (12345678 / 10 ^ 8)" "SymbolId ''XRP'' ''KRW''" "sample_api []" "demo_os [] []" demo_account]
    by fastforce
qed

section \<open>Bybit\<close>

definition demo_trade :: trade_ws where
  "demo_trade = \<lparr>tw_connected = True, tw_authenticated = True, tw_pending = [], tw_settled = Map.empty, tw_next = 0, tw_heartbeat = True, tw_sent = []\<rparr>"

lemma demo_trade_invar: "trade_invar demo_trade"
  by (simp add: trade_invar_def demo_trade_def)

theorem trade_promises_settled_once_witness:
  "tw_settled (trade_event (sample_api []) Dropped (snd (register_order ''r1'' trade_ws_init))) 0 = Some disconnected_result"
proof -
  note r = trade_promises_settled_once [OF trade_reach.Step [OF trade_reach.Init trade_step.Register]]
  have "map_of (tw_pending (snd (register_order ''r1'' trade_ws_init))) ''r1'' = Some 0" by (simp add: register_order_def trade_ws_init_def emplace_def)
  then show ?thesis using r by blast
qed

definition demo_ack :: "(string \<times> sample_json) list" where
  "demo_ack = [(''ack'', JObj [(''op'', JText ''order.create''), (''reqId'', JText (generate_uuid (Some (replicate 16 7)))), (''retCode'', JInt 0),
     (''data'', JObj [(''orderId'', JText ''o1'')])])]"

lemma dec_digits_small: "n < 10 \<Longrightarrow> dec_digits n = [digit_char n]"
  by (subst dec_digits.simps) simp

lemma demo_quantity_length: "length (format_fixed 8 (Fin 2)) = 10"
proof -
  have "rne (2 * 10 ^ 8) = 2 * 10 ^ 8" using rne_of_int [of "2 * 10 ^ 8"] by simp
  moreover have "length (pad_digits 8 (nat (2 * 10 ^ 8) mod 10 ^ 8)) = 8" by (rule pad_digits_props) simp_all
  ultimately show ?thesis by (simp add: format_fixed_def Let_def dec_digits_small)
qed

lemma demo_uuid: "generate_uuid (Some (replicate 16 7)) = ''07070707-0707-4707-8707-070707070707''"
  by code_simp

lemma demo_message_fits:
  "snprintf_checked 512 (order_message ''07070707-0707-4707-8707-070707070707'' 0 ''XRPUSDT'' Sell (Fin 2) True) =
     Some (order_message ''07070707-0707-4707-8707-070707070707'' 0 ''XRPUSDT'' Sell (Fin 2) True)"
  by (simp add: snprintf_checked_def order_message_def int_text_def dec_digits_small demo_quantity_length)

lemma demo_ack_answer: "trade_on_message (sample_api demo_ack) ''ack'' t = resolve_pending ''07070707-0707-4707-8707-070707070707''
    (place_result_default\<lparr>pr_success := True, pr_order_id := ''o1'', pr_ret_code := 0\<rparr>) t"
  by (simp add: trade_on_message_def order_answer_def order_result_def optional_text_def sample_api_def sample_field_def demo_ack_def demo_uuid
      to_int32_def place_result_default_def Let_def)

definition demo_lot :: lot_size where
  "demo_lot = \<lparr>ls_min_qty = 0, ls_qty_step = lit (of_int 100000 / 10 ^ 8), ls_min_notional = 0\<rparr>"

definition demo_bybit :: "nat bybit" where
  "demo_bybit = \<lparr>ac_credentials = demo_credentials, ac_line = \<lparr>ln_world = 0, ln_written = []\<rparr>, ac_next_order_id = 1, ac_fills = Map.empty,
     ac_private_ready = True, ac_private_sent = [], by_connected = True, by_ws_up = True, by_tickers = [], by_orderbooks = [],
     by_ticker_cache = Map.empty, by_dispatched = [], by_sent = [], by_warned = False, by_warnings = [],
     by_lots = [''XRPUSDT'' \<mapsto> demo_lot], by_spot_margin_ready = True, by_trade = Some demo_trade\<rparr>"

abbreviation xrp_usdt :: symbol_id where
  "xrp_usdt \<equiv> SymbolId ''XRP'' ''USDT''"

lemma demo_lot_found: "by_lots demo_bybit (to_bybit_format xrp_usdt) = Some demo_lot"
proof -
  have "to_bybit_format xrp_usdt = ''XRPUSDT''" by code_simp
  then show ?thesis by (simp add: demo_bybit_def)
qed

theorem whole_lots_kept_witness:
  "normalize_order_qty xrp_usdt (lit (of_int (40 * 100000) / 10 ^ 8)) True demo_bybit = lit (of_int 40) * ls_qty_step demo_lot"
proof -
  have "\<not> lit (of_int 40) * ls_qty_step demo_lot < ls_min_qty demo_lot" "\<not> 0 < ls_min_notional demo_lot" by code_simp+
  then show ?thesis
    using whole_lots_kept [of 100000 40 demo_bybit xrp_usdt demo_lot _ _ True, OF _ _ _ _ demo_lot_found _ refl refl] by (simp add: demo_lot_def)
qed

abbreviation short_run :: "order \<times> nat bybit" where
  "short_run \<equiv> open_short (sample_api demo_ack) (demo_os [] [Incoming ''ack'']) xrp_usdt (Fin 2) demo_bybit"


section \<open>Upbit\<close>

definition demo_upbit :: "nat upbit" where
  "demo_upbit = account.extend demo_account (upbit.fields True True True 0 [] [] Map.empty Map.empty False Map.empty [] [])"

text \<open>A purchase for 50000 won does not ask for 50000.\<close>

theorem upbit_buy_cost_cut_witness:
  "\<exists>c rq m v e. c \<le> 3 \<and> m \<noteq> 50000 \<and>
      ln_written (ac_line (snd (upbit_place_market_buy_cost (sample_api []) (demo_os [] []) (SymbolId ''XRP'' ''KRW'') (Fin 50000) demo_upbit))) =
        replicate c rq \<and>
      extract_quoted_value (rq_body rq) ''\"price\":\"'' 0 = Some (v, e) \<and> fast_stod v 0 = lit (of_int m)"
proof -
  have "CHR 0x22 \<notin> set (symbol_to_upbit (SymbolId ''XRP'' ''KRW''))" by code_simp
  moreover have "ln_written (ac_line demo_upbit) = []" "\<not> no_credentials demo_upbit"
    by (simp_all add: demo_upbit_def demo_account_def demo_credentials_def no_credentials_def account.defs)
  ultimately have "\<exists>c rq m k v e. c \<le> 3 \<and> (50000 :: int) = m * 10 ^ k \<and> \<not> 10 dvd m \<and>
      ln_written (ac_line (snd (upbit_place_market_buy_cost (sample_api []) (demo_os [] []) (SymbolId ''XRP'' ''KRW'') (Fin 50000) demo_upbit))) =
        replicate c rq \<and> rq_method rq = POST \<and> rq_target rq = ''/v1/orders'' \<and>
      extract_quoted_value (rq_body rq) ''\"price\":\"'' 0 = Some (v, e) \<and> fast_stod v 0 = lit (of_int m)"
    using upbit_buy_cost_cut [of "Fin 50000" 50000 50000 demo_upbit "SymbolId ''XRP'' ''KRW''" "sample_api []" "demo_os [] []"] by simp
  then obtain c rq m k v e where r: "c \<le> 3" "\<not> 10 dvd m"
      "ln_written (ac_line (snd (upbit_place_market_buy_cost (sample_api []) (demo_os [] []) (SymbolId ''XRP'' ''KRW'') (Fin 50000) demo_upbit))) = replicate c rq"
      "extract_quoted_value (rq_body rq) ''\"price\":\"'' 0 = Some (v, e)" "fast_stod v 0 = lit (of_int m)"
    by (elim exE conjE)
  moreover have "m \<noteq> 50000" using r(2) by auto
  ultimately show ?thesis by blast
qed

end
