(* ===== verification/Calendar.thy ===== *)
theory Calendar
  imports RestClient
begin

text \<open>
  \<^verbatim>\<open>gmtime_r\<close> for times since 1970, and the ISO 8601 time stamp under which the OKX adapter signs its
  requests (\<^verbatim>\<open>OkxExchange::generate_iso_timestamp\<close> of \<^verbatim>\<open>src/exchange/okx.cpp\<close>).
\<close>

section \<open>The calendar\<close>

definition leap_year :: "nat \<Rightarrow> bool" where
  "leap_year y \<longleftrightarrow> y mod 4 = 0 \<and> (y mod 100 \<noteq> 0 \<or> y mod 400 = 0)"

definition year_days :: "nat \<Rightarrow> nat" where
  "year_days y = (if leap_year y then 366 else 365)"

definition month_lengths :: "nat \<Rightarrow> nat list" where
  "month_lengths y = [31, if leap_year y then 29 else 28, 31, 30, 31, 30, 31, 31, 30, 31, 30, 31]"

text \<open>The year of a day that is \<open>d\<close> days after the first of January of \<open>y\<close>, and its number in that year.\<close>

function year_of :: "nat \<Rightarrow> nat \<Rightarrow> nat \<times> nat" where
  "year_of y d = (if d < year_days y then (y, d) else year_of (y + 1) (d - year_days y))"
  by pat_completeness auto

termination
  by (relation "measure snd") (auto simp: year_days_def split: if_splits)

declare year_of.simps [simp del]

fun month_of :: "nat list \<Rightarrow> nat \<Rightarrow> nat \<times> nat" where
  "month_of [] d = (0, d)"
| "month_of (n # ns) d = (if d < n then (0, d) else case month_of ns (d - n) of (m, r) \<Rightarrow> (m + 1, r))"

record tm =
  tm_year :: nat
  tm_mon :: nat
  tm_mday :: nat
  tm_hour :: nat
  tm_min :: nat
  tm_sec :: nat

definition gmtime :: "nat \<Rightarrow> tm" where
  "gmtime s =
    (case year_of 1970 (s div 86400) of (y, yday) \<Rightarrow>
     (case month_of (month_lengths y) yday of (m, d) \<Rightarrow>
        \<lparr>tm_year = y, tm_mon = m + 1, tm_mday = d + 1, tm_hour = s mod 86400 div 3600, tm_min = s mod 3600 div 60, tm_sec = s mod 60\<rparr>))"

definition iso_text :: "nat \<Rightarrow> string" where
  "iso_text ms =
    (let t = gmtime (ms div 1000)
     in pad_digits 4 (tm_year t) @ ''-'' @ pad_digits 2 (tm_mon t) @ ''-'' @ pad_digits 2 (tm_mday t) @ ''T'' @
        pad_digits 2 (tm_hour t) @ '':'' @ pad_digits 2 (tm_min t) @ '':'' @ pad_digits 2 (tm_sec t) @ ''.'' @
        pad_digits 3 (ms mod 1000) @ ''Z'')"

text \<open>The clock is read once; before 1970 it does not run.\<close>

definition generate_iso_timestamp :: "'w outside \<Rightarrow> 'w \<Rightarrow> string" where
  "generate_iso_timestamp os w = snprintf_string os 32 (iso_text (nat (os_timestamp_ms os w)))"

section \<open>The calendar is right\<close>

text \<open>The days before a year, since 1970.\<close>

definition days_before :: "nat \<Rightarrow> nat" where
  "days_before y = (\<Sum>i = 1970..<y. year_days i)"

definition seconds_of :: "tm \<Rightarrow> nat" where
  "seconds_of t = (days_before (tm_year t) + sum_list (take (tm_mon t - 1) (month_lengths (tm_year t))) + (tm_mday t - 1)) * 86400 +
     tm_hour t * 3600 + tm_min t * 60 + tm_sec t"

lemma days_before_Suc: "1970 \<le> y \<Longrightarrow> days_before (Suc y) = days_before y + year_days y"
  by (simp add: days_before_def)

lemma year_of_days: "1970 \<le> y \<Longrightarrow> year_of y d = (y', r) \<Longrightarrow> y \<le> y' \<and> r < year_days y' \<and> days_before y' + r = days_before y + d"
proof (induction y d rule: year_of.induct)
  case (1 y d)
  show ?case
  proof (cases "d < year_days y")
    case False
    then have "year_of (y + 1) (d - year_days y) = (y', r)" using 1(3) by (simp add: year_of.simps [of y d])
    then have "y + 1 \<le> y' \<and> r < year_days y' \<and> days_before y' + r = days_before (y + 1) + (d - year_days y)" using 1(1) [OF False] 1(2) by simp
    then show ?thesis using days_before_Suc [OF 1(2)] False by auto
  qed (use 1(3) in \<open>auto simp: year_of.simps [of y d]\<close>)
qed

lemma month_of_days: "d < sum_list ns \<Longrightarrow> month_of ns d = (m, r) \<Longrightarrow> m < length ns \<and> r < ns ! m \<and> sum_list (take m ns) + r = d"
proof (induction ns arbitrary: d m)
  case (Cons n ns)
  show ?case
  proof (cases "d < n")
    case False
    then obtain m' where m: "month_of ns (d - n) = (m', r)" "m = m' + 1" using Cons.prems(2) by (auto split: prod.splits)
    have "d - n < sum_list ns" using Cons.prems(1) False by simp
    from Cons.IH [OF this m(1)] show ?thesis using m(2) False by auto
  qed (use Cons.prems in auto)
qed simp

lemma month_lengths_sum [simp]: "sum_list (month_lengths y) = year_days y" "length (month_lengths y) = 12"
  by (simp_all add: month_lengths_def year_days_def)

text \<open>The broken-down time is a date of the calendar and a time of the day, and it names its second.\<close>

lemma clock_parts: "s mod 86400 div 3600 * 3600 + s mod 3600 div 60 * 60 + s mod 60 = s mod (86400 :: nat)"
proof -
  have a: "s mod 86400 = s mod 86400 div 3600 * 3600 + s mod 86400 mod 3600" by simp
  have "s mod 86400 mod 3600 = s mod 3600" by (rule mod_mod_cancel) simp
  moreover have "s mod 3600 = s mod 3600 div 60 * 60 + s mod 3600 mod 60" by simp
  moreover have "s mod 3600 mod 60 = s mod 60" by (rule mod_mod_cancel) simp
  ultimately show ?thesis using a by linarith
qed

lemma gmtime_correct:
  "seconds_of (gmtime s) = s \<and> 1970 \<le> tm_year (gmtime s) \<and> 1 \<le> tm_mon (gmtime s) \<and> tm_mon (gmtime s) \<le> 12 \<and>
   1 \<le> tm_mday (gmtime s) \<and> tm_mday (gmtime s) \<le> month_lengths (tm_year (gmtime s)) ! (tm_mon (gmtime s) - 1) \<and>
   tm_hour (gmtime s) < 24 \<and> tm_min (gmtime s) < 60 \<and> tm_sec (gmtime s) < 60"
proof -
  obtain y yd where y: "year_of 1970 (s div 86400) = (y, yd)" by fastforce
  obtain m d where m: "month_of (month_lengths y) yd = (m, d)" by fastforce
  have a: "1970 \<le> y" "yd < year_days y" "days_before y + yd = s div 86400" using year_of_days [OF _ y] by (auto simp: days_before_def)
  have b: "m < 12" "d < month_lengths y ! m" "sum_list (take m (month_lengths y)) + d = yd"
    using month_of_days [OF _ m] a(2) by simp_all
  have g: "gmtime s = \<lparr>tm_year = y, tm_mon = m + 1, tm_mday = d + 1, tm_hour = s mod 86400 div 3600, tm_min = s mod 3600 div 60, tm_sec = s mod 60\<rparr>"
    by (simp add: gmtime_def y m)
  have "days_before y + sum_list (take m (month_lengths y)) + d = s div 86400" using a b by simp
  then have "seconds_of (gmtime s) = s div 86400 * 86400 + (s mod 86400 div 3600 * 3600 + s mod 3600 div 60 * 60 + s mod 60)"
    by (simp add: seconds_of_def g)
  then have "seconds_of (gmtime s) = s" using clock_parts [of s] by simp
  moreover have "s mod 86400 div 3600 < 24" by (simp add: less_mult_imp_div_less)
  moreover have "s mod 3600 div 60 < 60" by (simp add: less_mult_imp_div_less)
  ultimately show ?thesis using a b by (simp add: g)
qed

lemma gmtime_inj: "gmtime s = gmtime s' \<Longrightarrow> s = s'"
  using gmtime_correct [of s] gmtime_correct [of s'] by metis

end
