(* ===== verification/OkxTrade.thy ===== *)
theory OkxTrade
  imports OrderSocket
begin

text \<open>
  The WebSocket order entry of OKX (\<^verbatim>\<open>src/exchange/okx_trade_ws.cpp\<close>) on the promises of \<open>OrderSocket\<close>. A
  loop over an array that is missing or of another type runs once over an error, whose fields are all
  absent: that is how the library's results iterate, and \<open>range_items\<close> has \<open>None\<close> for it.
\<close>

section \<open>Reading\<close>

definition range_items :: "'j json_api \<Rightarrow> 'j \<Rightarrow> 'j option list" where
  "range_items j v = (case ja_array j v of None \<Rightarrow> [None] | Some vs \<Rightarrow> map Some vs)"

text \<open>A field of an item that may be missing; one that is no text throws.\<close>

definition item_text :: "'j json_api \<Rightarrow> string \<Rightarrow> 'j option \<Rightarrow> string option option" where
  "item_text j k item = (case item of None \<Rightarrow> Some None | Some v \<Rightarrow> optional_text j (ja_field j v k))"

text \<open>A field that must be a text.\<close>

definition item_needed :: "'j json_api \<Rightarrow> string \<Rightarrow> 'j option \<Rightarrow> string option" where
  "item_needed j k item = (case item of None \<Rightarrow> None | Some v \<Rightarrow> ja_string j (ja_field j v k))"

definition item_number :: "'j json_api \<Rightarrow> string \<Rightarrow> 'j option \<Rightarrow> dbl option option" where
  "item_number j k item = map_option (map_option (\<lambda>s. fast_stod s 0)) (item_text j k item)"

definition or_empty :: "string option \<Rightarrow> string" where
  "or_empty s = (case s of Some x \<Rightarrow> x | None \<Rightarrow> [])"

text \<open>\<^verbatim>\<open>std::atoi\<close>: 0 when there is no number; a number too long for 64 bits is the nearest one that fits, cut to 32 bits.\<close>

definition atoi :: "string \<Rightarrow> int" where
  "atoi s =
    (let s = dropWhile isspace s;
         (negative, rest) = (case s of c # r \<Rightarrow> if c = CHR ''-'' then (True, r) else if c = CHR ''+'' then (False, r) else (False, s)
           | [] \<Rightarrow> (False, s));
         v = digits_value (takeWhile isdigit rest); v = (if negative then - v else v)
     in to_int32 (max (- (2 ^ 63)) (min (2 ^ 63 - 1) v)))"

section \<open>Connection\<close>

text \<open>\<open>connect\<close> refuses without an endpoint; what the socket does then are the events below.\<close>

definition okx_trade_connect :: "exchange_credentials \<Rightarrow> bool" where
  "okx_trade_connect cr \<longleftrightarrow> xc_ws_private_endpoint cr \<noteq> []"

definition login_message :: "'w outside \<Rightarrow> exchange_credentials \<Rightarrow> 'w \<Rightarrow> string" where
  "login_message os cr w =
    (let ts_str = int_text (os_timestamp_ms os w div 1000);
         signature = base64_encode (os_hmac_sha256 os (xc_secret_key cr) (ts_str @ ''GET'' @ ''/users/self/verify''))
     in ''{\"op\":\"login\",\"args\":[{\"apiKey\":\"'' @ xc_api_key cr @ ''\",\"passphrase\":\"'' @ xc_passphrase cr @
        ''\",\"timestamp\":\"'' @ ts_str @ ''\",\"sign\":\"'' @ signature @ ''\"}]}'')"

definition okx_authenticate :: "'w outside \<Rightarrow> exchange_credentials \<Rightarrow> 'w \<Rightarrow> trade_ws \<Rightarrow> trade_ws" where
  "okx_authenticate os cr w t = (case snprintf_checked 512 (login_message os cr w) of None \<Rightarrow> t | Some m \<Rightarrow> tw_send m t)"

definition okx_trade_connected :: "'w outside \<Rightarrow> exchange_credentials \<Rightarrow> 'w \<Rightarrow> trade_ws \<Rightarrow> trade_ws" where
  "okx_trade_connected os cr w t = okx_authenticate os cr w (t\<lparr>tw_connected := True\<rparr>)"

text \<open>The handler of a lost connection and \<open>disconnect\<close> are \<open>trade_disconnected\<close> and \<open>trade_disconnect\<close>.\<close>

definition okx_heartbeat_timer :: "bool \<Rightarrow> trade_ws \<Rightarrow> trade_ws" where
  "okx_heartbeat_timer cancelled t =
    (if cancelled then t
     else let t = t\<lparr>tw_heartbeat := False\<rparr> in if tw_connected t then schedule_heartbeat (tw_send ''ping'' t) else t)"

section \<open>Messages\<close>

text \<open>The answer for the first order of a list; \<open>None\<close> when reading it throws.\<close>

definition okx_item_result :: "'j json_api \<Rightarrow> 'j option \<Rightarrow> place_result \<Rightarrow> place_result option" where
  "okx_item_result j item result =
    (case item_text j ''sCode'' item of None \<Rightarrow> None
     | Some sc \<Rightarrow>
        if sc \<noteq> None \<and> sc \<noteq> Some ''0''
        then map_option (\<lambda>m. result\<lparr>pr_success := False, pr_error_msg := or_empty m\<rparr>) (item_text j ''sMsg'' item)
        else map_option (\<lambda>i. result\<lparr>pr_order_id := or_empty i\<rparr>) (item_text j ''ordId'' item))"

definition okx_order_result :: "'j json_api \<Rightarrow> 'j \<Rightarrow> place_result option" where
  "okx_order_result j doc =
    (case optional_text j (ja_field j doc ''code'') of None \<Rightarrow> None
     | Some c \<Rightarrow>
        let code = (case c of None \<Rightarrow> - 1 | Some s \<Rightarrow> atoi s);
            result = place_result_default\<lparr>pr_ret_code := code\<rparr> in
        if code = 0
        then (case range_items j (ja_field j doc ''data'') of
            [] \<Rightarrow> Some (result\<lparr>pr_success := True\<rparr>)
          | item # _ \<Rightarrow> okx_item_result j item (result\<lparr>pr_success := True\<rparr>))
        else map_option (\<lambda>m. result\<lparr>pr_success := False, pr_error_msg := or_empty m\<rparr>) (optional_text j (ja_field j doc ''msg'')))"

text \<open>The request a message answers, and the answer.\<close>

definition okx_order_answer :: "'j json_api \<Rightarrow> string \<Rightarrow> (string \<times> place_result) option" where
  "okx_order_answer j msg =
    (let doc = ja_iterate j msg; op = ja_field j doc ''op''; id_field = ja_field j doc ''id'' in
     if msg = ''pong'' \<or> ja_ok j (ja_field j doc ''event'') \<or> \<not> ja_ok j op \<or> ja_string j op \<noteq> Some ''order'' \<or> \<not> ja_ok j id_field then None
     else case ja_string j id_field of None \<Rightarrow> None
      | Some msg_id \<Rightarrow> (case okx_order_result j doc of None \<Rightarrow> None | Some r \<Rightarrow> Some (msg_id, r)))"

definition okx_trade_on_message :: "'j json_api \<Rightarrow> string \<Rightarrow> trade_ws \<Rightarrow> trade_ws" where
  "okx_trade_on_message j msg t =
    (let doc = ja_iterate j msg; ev = ja_field j doc ''event''; code_field = ja_field j doc ''code'' in
     if msg = ''pong'' then t
     else if ja_ok j ev
     then if ja_string j ev = Some ''login'' \<and> ja_ok j code_field \<and> ja_string j code_field = Some ''0''
       then schedule_heartbeat (t\<lparr>tw_authenticated := True\<rparr>) else t
     else case okx_order_answer j msg of None \<Rightarrow> t | Some (msg_id, result) \<Rightarrow> resolve_pending msg_id result t)"

interpretation okx_socket: order_socket "okx_trade_on_message j" "okx_order_answer j"
proof unfold_locales
  fix m i r and t :: trade_ws
  assume "okx_order_answer j m = Some (i, r)"
  then show "okx_trade_on_message j m t = resolve_pending i r t"
    by (auto simp: okx_trade_on_message_def okx_order_answer_def Let_def split: if_splits)
qed (simp add: okx_trade_on_message_def schedule_heartbeat_def Let_def)

section \<open>Orders\<close>

definition okx_order_message :: "string \<Rightarrow> string \<Rightarrow> side \<Rightarrow> dbl \<Rightarrow> string \<Rightarrow> string \<Rightarrow> string" where
  "okx_order_message msg_id inst_id side qty td_mode ccy =
    ''{\"id\":\"'' @ msg_id @ ''\",\"op\":\"order\",\"args\":[{\"instId\":\"'' @ inst_id @ ''\",\"tdMode\":\"'' @ td_mode @ ''\",'' @
    (if ccy \<noteq> [] then ''\"ccy\":\"'' @ ccy @ ''\",'' else []) @ ''\"side\":\"'' @ (if side = Buy then ''buy'' else ''sell'') @ ''\",'' @
    ''\"ordType\":\"market\",\"sz\":\"'' @ format_fixed 8 qty @ ''\"}]}''"

definition okx_place_order_sync ::
    "'j json_api \<Rightarrow> 'w outside \<Rightarrow> string \<Rightarrow> side \<Rightarrow> dbl \<Rightarrow> string \<Rightarrow> string \<Rightarrow> trade_ws \<Rightarrow> 'w \<Rightarrow> order \<times> trade_ws \<times> 'w" where
  "okx_place_order_sync j os inst_id side qty td_mode ccy t w =
    (let o' = order_default\<lparr>ord_exchange := OKX, ord_side := side, ord_type := Market, ord_quantity := qty, ord_create_time := os_system_now os w\<rparr>;
         rejected = o'\<lparr>ord_status := Rejected\<rparr> in
     if \<not> trade_is_connected t then (rejected, t, w)
     else case os_random os 16 w of (random, w) \<Rightarrow>
       let msg_id = generate_uuid random in
       case order_round (okx_trade_on_message j) os msg_id (okx_order_message msg_id inst_id side qty td_mode ccy) t w of
         (None, t, w) \<Rightarrow> (rejected, t, w)
       | (Some result, t, w) \<Rightarrow> (ack_order os result o', t, w))"

section \<open>Acknowledgements\<close>

lemma okx_answer_success: "okx_order_answer j m = Some (i, r) \<Longrightarrow> pr_success r \<Longrightarrow> pr_ret_code r = 0"
  by (auto simp: okx_order_answer_def okx_order_result_def okx_item_result_def Let_def split: if_splits option.splits list.splits)

text \<open>The identifier of the next request.\<close>

abbreviation okx_request :: "'w outside \<Rightarrow> 'w \<Rightarrow> string" where
  "okx_request os w \<equiv> generate_uuid (fst (os_random os 16 w))"

text \<open>
  An order is reported as filled only when its one message was sent and an answer with code 0 to this very
  request came in during the wait; the promises stay in order.
\<close>

lemma okx_order_facts:
  assumes "trade_invar t" "okx_place_order_sync j os inst_id side qty td ccy t w = (o', t', w')"
  shows "trade_invar t' \<and> (ord_status o' = Filled \<or> ord_status o' = Rejected) \<and>
    (tw_sent t' = tw_sent t \<or> tw_sent t' = tw_sent t @ [okx_order_message (okx_request os w) inst_id side qty td ccy]) \<and>
    (ord_status o' = Filled \<longrightarrow> tw_sent t' = tw_sent t @ [okx_order_message (okx_request os w) inst_id side qty td ccy] \<and>
       (\<exists>m r. okx_order_answer j m = Some (okx_request os w, r) \<and> pr_ret_code r = 0 \<and> ord_id_str o' = pr_order_id r))"
proof (cases "trade_is_connected t")
  case True
  obtain r t2 w2 where d: "order_round (okx_trade_on_message j) os (okx_request os w)
      (okx_order_message (okx_request os w) inst_id side qty td ccy) t (snd (os_random os 16 w)) = (r, t2, w2)"
    by (metis prod_cases3)
  note f = okx_socket.order_round_facts [OF assms(1) d]
  show ?thesis
  proof (cases r)
    case None
    then show ?thesis using assms(2) True d f by (auto simp: okx_place_order_sync_def Let_def case_prod_unfold)
  next
    case (Some res)
    then have "o' = ack_order os res (order_default\<lparr>ord_exchange := OKX, ord_side := side, ord_type := Market, ord_quantity := qty,
          ord_create_time := os_system_now os w\<rparr>)" "t' = t2"
      using assms(2) True d by (auto simp: okx_place_order_sync_def Let_def case_prod_unfold)
    then show ?thesis using f(1,2) f(3) [OF Some] by (auto simp: ack_status dest: okx_answer_success)
  qed
qed (use assms in \<open>auto simp: okx_place_order_sync_def Let_def\<close>)

text \<open>
  An answer with code 0 counts as accepted also when it names no order: with an empty list of orders, or without
  one. A code that is no number reads as 0.
\<close>

lemma empty_answer_accepted:
  assumes "ja_string j (ja_field j doc ''code'') = Some c" "ja_ok j (ja_field j doc ''code'')" "atoi c = 0"
    "ja_array j (ja_field j doc ''data'') \<in> {None, Some []}"
  shows "\<exists>r. okx_order_result j doc = Some r \<and> pr_success r \<and> pr_order_id r = []"
  using assms by (auto simp: okx_order_result_def optional_text_def range_items_def okx_item_result_def item_text_def or_empty_def place_result_default_def Let_def)

lemma no_number_is_zero: "atoi ''timeout'' = 0"
  by code_simp

end
