(* ===== verification/Okx.thy ===== *)
theory Okx
  imports OkxTrade Bybit Calendar
begin

text \<open>
  The market data side of the OKX adapter (\<^verbatim>\<open>src/exchange/okx.cpp\<close>): the public stream of best quotes
  with its fast and its slow parser, subscriptions, instruments, REST tickers and connection events. The
  state extends \<open>account\<close>.
\<close>

section \<open>State\<close>

record okx_lot =
  ol_min_qty :: dbl
  ol_qty_step :: dbl
  ol_min_notional :: dbl
  ol_price_tick :: dbl

definition okx_lot_default :: okx_lot where
  "okx_lot_default = \<lparr>ol_min_qty = 0, ol_qty_step = 0, ol_min_notional = 0, ol_price_tick = 0\<rparr>"

record 'w okx = "'w account" +
  ok_connected :: bool
  ok_ws_up :: bool
  ok_opened :: "string list"
  ok_tickers :: "symbol_id list"
  ok_orderbooks :: "symbol_id list"
  ok_ticker_cache :: "symbol_id \<rightharpoonup> ticker"
  ok_dispatched :: "ticker list"
  ok_sent :: "string list"
  ok_warned :: bool
  ok_warnings :: "string list"
  ok_lots :: "string \<rightharpoonup> okx_lot"
  ok_margin_ready :: bool
  ok_trade :: "trade_ws option"

definition symbol_to_okx :: "symbol_id \<Rightarrow> string" where
  "symbol_to_okx s = get_base s @ ''-'' @ get_quote s"

definition okx_dispatch_ticker :: "ticker \<Rightarrow> 'w okx \<Rightarrow> 'w okx" where
  "okx_dispatch_ticker t a = a\<lparr>ok_ticker_cache := (ok_ticker_cache a)(tk_symbol t \<mapsto> t), ok_dispatched := ok_dispatched a @ [t]\<rparr>"

definition okx_public_endpoint :: "'w okx \<Rightarrow> string" where
  "okx_public_endpoint a =
    (if xc_ws_endpoint (ac_credentials a) = [] then ''wss://ws.okx.com:8443/ws/v5/public'' else xc_ws_endpoint (ac_credentials a))"

section \<open>Quotes\<close>

text \<open>An instrument name, split at its first dash, when it is quoted in USDT.\<close>

definition usdt_instrument :: "string \<Rightarrow> symbol_id option" where
  "usdt_instrument inst_id =
    (if CHR ''-'' \<notin> set inst_id then None
     else let base = takeWhile (\<lambda>c. c \<noteq> CHR ''-'') inst_id; quote = drop (length base + 1) inst_id
       in if quote \<noteq> ''USDT'' then None else Some (SymbolId base quote))"

text \<open>The values after a marker are read as in the Bybit adapter, whose helper the source spells out here.\<close>

definition parse_bbo_fast :: "u64 \<Rightarrow> string \<Rightarrow> ticker \<Rightarrow> ticker \<times> bool" where
  "parse_bbo_fast now message t =
    (if \<not> sv_contains message ''\"channel\":\"bbo-tbt\"'' then (t, False)
     else case extract_quoted_value message ''\"instId\":\"'' 0 of None \<Rightarrow> (t, False)
      | Some (inst_id, _) \<Rightarrow>
        (case usdt_instrument inst_id of None \<Rightarrow> (t, False)
         | Some symbol \<Rightarrow>
           (case (parse_quoted_double_pair message ''\"bids\":[[\"'', parse_quoted_double_pair message ''\"asks\":[[\"'') of
              (Some (bid, bid_qty), Some (ask, ask_qty)) \<Rightarrow>
                (t\<lparr>tk_exchange := OKX, tk_timestamp_ms := now, tk_symbol := symbol, tk_bid := bid, tk_bid_qty := bid_qty,
                   tk_ask := ask, tk_ask_qty := ask_qty\<rparr>, 0 < bid \<and> 0 < ask)
            | _ \<Rightarrow> (t, False))))"

definition okx_with_last :: "'w okx \<Rightarrow> ticker \<Rightarrow> ticker" where
  "okx_with_last a t =
    (case ok_ticker_cache a (tk_symbol t) of
       Some cached \<Rightarrow> if 0 < tk_last cached then t\<lparr>tk_last := tk_last cached\<rparr> else t\<lparr>tk_last := (tk_bid t + tk_ask t) * lit (1 / 2)\<rparr>
     | None \<Rightarrow> t\<lparr>tk_last := (tk_bid t + tk_ask t) * lit (1 / 2)\<rparr>)"

text \<open>A number in a field that may be missing, over an old value; \<open>None\<close> when it throws.\<close>

definition number_over :: "'j json_api \<Rightarrow> string \<Rightarrow> 'j \<Rightarrow> dbl \<Rightarrow> dbl option" where
  "number_over j k item old = map_option (\<lambda>x. case x of Some v \<Rightarrow> v | None \<Rightarrow> old) (text_number j (ja_field j item k))"

definition quote_over :: "'j json_api \<Rightarrow> 'j \<Rightarrow> ticker \<Rightarrow> ticker option" where
  "quote_over j item t =
    (case (number_over j ''last'' item (tk_last t), number_over j ''bidPx'' item (tk_bid t), number_over j ''bidSz'' item (tk_bid_qty t),
           number_over j ''askPx'' item (tk_ask t), number_over j ''askSz'' item (tk_ask_qty t)) of
       (Some l, Some b, Some bq, Some k, Some kq) \<Rightarrow>
         Some (t\<lparr>tk_last := l, tk_bid := b, tk_bid_qty := bq, tk_ask := k, tk_ask_qty := kq\<rparr>)
     | _ \<Rightarrow> None)"

definition okx_slow_bbo :: "'j json_api \<Rightarrow> 'j \<Rightarrow> 'w okx \<Rightarrow> ticker \<Rightarrow> ticker option" where
  "okx_slow_bbo j data a t =
    (case (first_row j (ja_field j data ''bids''), first_row j (ja_field j data ''asks'')) of
       (Some (bid, bid_qty), Some (ask, ask_qty)) \<Rightarrow>
         let t = okx_with_last a (t\<lparr>tk_bid := bid, tk_bid_qty := bid_qty, tk_ask := ask, tk_ask_qty := ask_qty\<rparr>)
         in if 0 < bid \<and> 0 < ask then Some t else None
     | _ \<Rightarrow> None)"

definition okx_slow_quote :: "'j json_api \<Rightarrow> 'j \<Rightarrow> ticker \<Rightarrow> ticker option" where
  "okx_slow_quote j data t =
    (case quote_over j data t of None \<Rightarrow> None
     | Some t \<Rightarrow> if 0 < tk_last t \<and> 0 < tk_bid t \<and> 0 < tk_ask t then Some t else None)"

definition okx_slow_message :: "'j json_api \<Rightarrow> u64 \<Rightarrow> string \<Rightarrow> 'w okx \<Rightarrow> ticker \<Rightarrow> ticker option" where
  "okx_slow_message j now message a t =
    (let doc = ja_iterate j message; arg = ja_field j doc ''arg'' in
     if \<not> ja_ok j arg then None
     else case (optional_text j (ja_field j arg ''channel''), optional_text j (ja_field j arg ''instId'')) of
       (Some (Some channel), Some (Some inst_id)) \<Rightarrow>
         (case usdt_instrument inst_id of None \<Rightarrow> None
          | Some symbol \<Rightarrow>
            (let t = t\<lparr>tk_exchange := OKX, tk_timestamp_ms := now, tk_symbol := symbol\<rparr>; data_arr = ja_field j doc ''data'' in
             case ja_array j data_arr of
               Some (data # _) \<Rightarrow>
                 if \<not> ja_ok j data_arr then None
                 else if channel = ''bbo-tbt'' then okx_slow_bbo j data a t
                 else if channel = ''tickers'' then okx_slow_quote j data t
                 else None
             | _ \<Rightarrow> None))
     | _ \<Rightarrow> None)"

definition okx_parse_ticker_message :: "'j json_api \<Rightarrow> u64 \<Rightarrow> string \<Rightarrow> 'w okx \<Rightarrow> ticker option" where
  "okx_parse_ticker_message j now message a =
    (case (if sv_contains message ''\"channel\":\"bbo-tbt\"'' then parse_bbo_fast now message ticker_default else (ticker_default, False)) of (t, ok) \<Rightarrow>
       if ok then Some (okx_with_last a t) else okx_slow_message j now message a t)"

definition okx_on_ws_message :: "'j json_api \<Rightarrow> u64 \<Rightarrow> string \<Rightarrow> 'w okx \<Rightarrow> 'w okx" where
  "okx_on_ws_message j now message a =
    (if message = ''pong'' then a
     else case okx_parse_ticker_message j now message a of Some t \<Rightarrow> okx_dispatch_ticker t a
      | None \<Rightarrow>
         let warned = ok_warned a; a = a\<lparr>ok_warned := True\<rparr> in
         if \<not> warned \<and> sv_contains message ''bbo-tbt'' then a\<lparr>ok_warnings := ok_warnings a @ [take 240 message]\<rparr> else a)"

section \<open>Connection\<close>

definition OKX_BATCH_SIZE :: nat where "OKX_BATCH_SIZE = 25"

definition okx_subscribe_request :: "symbol_id list \<Rightarrow> string" where
  "okx_subscribe_request symbols =
    ''{\"op\":\"subscribe\",\"args\":['' @
    join_with '','' (map (\<lambda>s. ''{\"channel\":\"bbo-tbt\",\"instId\":\"'' @ symbol_to_okx s @ ''\"}'') symbols) @ '']}''"

definition okx_subscribe_ticker :: "symbol_id list \<Rightarrow> 'w okx \<Rightarrow> 'w okx" where
  "okx_subscribe_ticker symbols a =
    (let a = a\<lparr>ok_tickers := symbols\<rparr> in
     if \<not> ok_ws_up a then a else a\<lparr>ok_sent := ok_sent a @ map okx_subscribe_request (batches OKX_BATCH_SIZE symbols)\<rparr>)"

definition okx_subscribe_orderbook :: "symbol_id list \<Rightarrow> 'w okx \<Rightarrow> 'w okx" where
  "okx_subscribe_orderbook symbols a =
    (let a = a\<lparr>ok_orderbooks := symbols\<rparr> in
     if \<not> ok_ws_up a then a else a\<lparr>ok_sent := ok_sent a @ map okx_subscribe_request (batches OKX_BATCH_SIZE symbols)\<rparr>)"

text \<open>
  \<open>rest_ok\<close> is what \<open>initialize_rest\<close> answers. The sockets that are opened are recorded with their endpoints; their
  callbacks are the handlers below.
\<close>

definition okx_connect :: "bool \<Rightarrow> 'w okx \<Rightarrow> bool \<times> 'w okx" where
  "okx_connect rest_ok a =
    (if ok_connected a then (True, a)
     else if \<not> rest_ok then (False, a)
     else let cr = ac_credentials a;
         a = a\<lparr>ok_opened := ok_opened a @ [okx_public_endpoint a]\<rparr>
       in if xc_ws_private_endpoint cr = [] \<or> xc_api_key cr = [] then (True, a)
         else (True, a\<lparr>ok_trade := Some trade_ws_init,
            ok_opened := ok_opened a @ (if okx_trade_connect cr then [xc_ws_private_endpoint cr] else []) @ [xc_ws_private_endpoint cr]\<rparr>))"

definition okx_disconnect :: "'w okx \<Rightarrow> 'w okx" where
  "okx_disconnect a =
    a\<lparr>ac_private_ready := False, ok_trade := map_option trade_disconnect (ok_trade a), ok_ws_up := False, ok_connected := False\<rparr>"

definition okx_on_ws_connected :: "'w okx \<Rightarrow> 'w okx" where
  "okx_on_ws_connected a =
    (let a = a\<lparr>ok_connected := True, ok_ws_up := True\<rparr>;
         tickers = ok_tickers a; orderbooks = ok_orderbooks a;
         a = (if tickers = [] then a else okx_subscribe_ticker tickers a)
     in if orderbooks = [] then a else okx_subscribe_orderbook orderbooks a)"

definition okx_on_ws_disconnected :: "'w okx \<Rightarrow> 'w okx" where
  "okx_on_ws_disconnected a = a\<lparr>ok_connected := False, ok_ws_up := False\<rparr>"

section \<open>Public queries\<close>

text \<open>The public interface wants the signature of a browser.\<close>

definition okx_user_agent :: string where
  "okx_user_agent = ''Mozilla/5.0 (Macintosh; Intel Mac OS X 10_15_7) '' @ ''AppleWebKit/537.36 (KHTML, like Gecko) Chrome/137.0.0.0 Safari/537.36''"

definition okx_public_get :: "'w outside \<Rightarrow> string \<Rightarrow> 'w okx \<Rightarrow> http_response \<times> 'w okx" where
  "okx_public_get os path a = http_get os path [(''User-Agent'', okx_user_agent)] a"

text \<open>The items of an answer with code \<open>0\<close>; \<open>None\<close> when the code is another one or there is none.\<close>

definition okx_data :: "'j json_api \<Rightarrow> http_response \<Rightarrow> 'j option list option" where
  "okx_data j response =
    (let doc = ja_iterate j (hr_body response) in
     if hr_success response \<and> ja_string j (ja_field j doc ''code'') = Some ''0'' then Some (range_items j (ja_field j doc ''data'')) else None)"

definition margin_base :: "'j json_api \<Rightarrow> 'j option \<Rightarrow> string list \<Rightarrow> string list option" where
  "margin_base j item bases =
    (case (item_needed j ''state'' item, item_needed j ''quoteCcy'' item) of
       (Some state, Some quote) \<Rightarrow>
         if quote \<noteq> ''USDT'' \<or> state \<noteq> ''live'' then Some bases
         else map_option (\<lambda>b. List.insert b bases) (item_needed j ''baseCcy'' item)
     | _ \<Rightarrow> None)"

definition okx_lot_of :: "'j json_api \<Rightarrow> 'j option \<Rightarrow> okx_lot option" where
  "okx_lot_of j item =
    (let zero = (\<lambda>x. case x of Some v \<Rightarrow> v | None \<Rightarrow> 0) in
     case (item_number j ''lotSz'' item, item_number j ''minSz'' item, item_number j ''tickSz'' item) of
       (Some step, Some min_sz, Some tick) \<Rightarrow>
         Some (okx_lot_default\<lparr>ol_qty_step := zero step, ol_min_qty := zero min_sz, ol_price_tick := zero tick\<rparr>)
     | _ \<Rightarrow> None)"

definition okx_instrument :: "'j json_api \<Rightarrow> string list \<Rightarrow> 'j option \<Rightarrow> symbol_id list \<times> 'w okx \<Rightarrow> (symbol_id list \<times> 'w okx) \<times> bool" where
  "okx_instrument j margin_bases item acc =
    (case acc of (symbols, a) \<Rightarrow>
     (case (item_needed j ''instId'' item, item_needed j ''state'' item, item_needed j ''quoteCcy'' item) of
        (Some inst_id, Some state, Some quote) \<Rightarrow>
          if quote \<noteq> ''USDT'' \<or> state \<noteq> ''live'' then (acc, False)
          else (case item_needed j ''baseCcy'' item of None \<Rightarrow> (acc, True)
             | Some base \<Rightarrow>
                if base \<notin> set margin_bases then (acc, False)
                else let symbols = symbols @ [SymbolId base ''USDT''] in
                  case okx_lot_of j item of None \<Rightarrow> ((symbols, a), True)
                  | Some info \<Rightarrow> ((symbols, a\<lparr>ok_lots := (ok_lots a)(inst_id \<mapsto> info)\<rparr>), False))
      | _ \<Rightarrow> (acc, True)))"

definition okx_get_available_symbols :: "'j json_api \<Rightarrow> 'w outside \<Rightarrow> 'w okx \<Rightarrow> symbol_id list \<times> 'w okx" where
  "okx_get_available_symbols j os a =
    (case okx_public_get os ''/api/v5/public/instruments?instType=MARGIN'' a of (margin, a) \<Rightarrow>
     (case (case okx_data j margin of None \<Rightarrow> None | Some items \<Rightarrow> fold_throwing (margin_base j) items []) of
        None \<Rightarrow> ([], a)
      | Some margin_bases \<Rightarrow>
         (case okx_public_get os ''/api/v5/public/instruments?instType=SPOT'' a of (response, a) \<Rightarrow>
            case okx_data j response of None \<Rightarrow> ([], a)
            | Some items \<Rightarrow> fst (fold_catching (okx_instrument j margin_bases) items ([], a)))))"

text \<open>The instrument of a ticker is split at its last dash.\<close>

definition okx_rest_quote :: "'j json_api \<Rightarrow> u64 \<Rightarrow> 'j option \<Rightarrow> ticker list \<Rightarrow> ticker list \<times> bool" where
  "okx_rest_quote j now item tickers =
    (case (item, item_needed j ''instId'' item) of
       (Some v, Some inst_id) \<Rightarrow>
         let quote = rev (takeWhile (\<lambda>c. c \<noteq> CHR ''-'') (rev inst_id)); base = take (length inst_id - length quote - 1) inst_id in
         if CHR ''-'' \<notin> set inst_id \<or> quote \<noteq> ''USDT'' then (tickers, False)
         else (case quote_over j v (ticker_default\<lparr>tk_exchange := OKX, tk_symbol := SymbolId base ''USDT''\<rparr>) of
            None \<Rightarrow> (tickers, True)
          | Some t \<Rightarrow> (if 0 < tk_last t then tickers @ [t\<lparr>tk_timestamp_ms := now\<rparr>] else tickers, False))
     | _ \<Rightarrow> (tickers, True))"

definition okx_fetch_all_tickers :: "'j json_api \<Rightarrow> 'w outside \<Rightarrow> 'w okx \<Rightarrow> ticker list \<times> 'w okx" where
  "okx_fetch_all_tickers j os a =
    (case okx_public_get os ''/api/v5/market/tickers?instType=SPOT'' a of (response, a) \<Rightarrow>
       case okx_data j response of None \<Rightarrow> ([], a)
       | Some items \<Rightarrow> (fst (fold_catching (okx_rest_quote j (os_steady_now os (world_of a))) items []), a))"

end
