(* ===== verification/OkxOrders.thy ===== *)
theory OkxOrders
  imports Okx BybitOrders
begin

text \<open>
  The trading side of the OKX adapter (\<^verbatim>\<open>src/exchange/okx.cpp\<close>): signed requests, lot rounding, the margin
  mode, shorts and their cover, leverage, balances, the private stream of fills, fill queries and the
  deposit networks.
\<close>

section \<open>Signed requests\<close>

definition okx_signature :: "'w outside \<Rightarrow> string \<Rightarrow> string \<Rightarrow> string \<Rightarrow> string \<Rightarrow> 'w okx \<Rightarrow> string" where
  "okx_signature os timestamp http_method request_path body a =
    base64_encode (os_hmac_sha256 os (xc_secret_key (ac_credentials a)) (timestamp @ http_method @ request_path @ body))"

definition okx_auth_headers :: "'w outside \<Rightarrow> string \<Rightarrow> string \<Rightarrow> string \<Rightarrow> 'w okx \<Rightarrow> (string \<times> string) list" where
  "okx_auth_headers os http_method request_path body a =
    (let timestamp = generate_iso_timestamp os (world_of a)
     in [(''OK-ACCESS-KEY'', xc_api_key (ac_credentials a)), (''OK-ACCESS-SIGN'', okx_signature os timestamp http_method request_path body a),
         (''OK-ACCESS-TIMESTAMP'', timestamp), (''OK-ACCESS-PASSPHRASE'', xc_passphrase (ac_credentials a)), (''User-Agent'', okx_user_agent)])"

definition okx_get :: "'w outside \<Rightarrow> string \<Rightarrow> 'w okx \<Rightarrow> http_response \<times> 'w okx" where
  "okx_get os path a = http_get os path (okx_auth_headers os ''GET'' path [] a) a"

definition okx_post :: "'w outside \<Rightarrow> string \<Rightarrow> string \<Rightarrow> 'w okx \<Rightarrow> http_response \<times> 'w okx" where
  "okx_post os path body a = http_post os path body (header_put ''Content-Type'' ''application/json'' (okx_auth_headers os ''POST'' path body a)) a"

section \<open>Lots\<close>

definition okx_normalize_qty :: "symbol_id \<Rightarrow> dbl \<Rightarrow> bool \<Rightarrow> 'w okx \<Rightarrow> dbl" where
  "okx_normalize_qty symbol qty is_open a =
    (if qty \<le> 0 then 0
     else case ok_lots a (symbol_to_okx symbol) of None \<Rightarrow> qty
      | Some info \<Rightarrow>
         let step = (if 0 < ol_qty_step info then ol_qty_step info else 0);
             qty = (if 0 < step then dfloor (qty / step + QTY_EPSILON) * step else qty) in
         if qty < ol_min_qty info then 0
         else let hint = price_hint is_open (ok_ticker_cache a symbol) in
           if 0 < ol_min_notional info \<and> 0 < hint \<and> qty * hint < ol_min_notional info then 0 else qty)"

section \<open>Orders\<close>

text \<open>The body of an order; with a currency for orders on margin.\<close>

definition okx_order_body :: "string \<Rightarrow> bool \<Rightarrow> side \<Rightarrow> dbl \<Rightarrow> string" where
  "okx_order_body inst_id with_ccy side sz =
    ''{\"instId\":\"'' @ inst_id @ ''\",\"tdMode\":\"cross\",'' @ (if with_ccy then ''\"ccy\":\"USDT\",'' else []) @
    ''\"side\":\"'' @ (if side = Buy then ''buy'' else ''sell'') @ ''\",\"ordType\":\"market\",\"sz\":\"'' @ format_fixed 8 sz @ ''\"}''"

text \<open>Only the first order of the answer is read. With no order in the list the status stays as it was.\<close>

definition okx_parse_order :: "'j json_api \<Rightarrow> 'w outside \<Rightarrow> string \<Rightarrow> order \<Rightarrow> order \<times> bool" where
  "okx_parse_order j os response o' =
    (let doc = ja_iterate j response; rejected = o'\<lparr>ord_status := Rejected\<rparr> in
     case ja_string j (ja_field j doc ''code'') of None \<Rightarrow> (rejected, False)
     | Some code \<Rightarrow>
        if code \<noteq> ''0'' then (rejected, optional_text j (ja_field j doc ''msg'') \<noteq> None)
        else case range_items j (ja_field j doc ''data'') of [] \<Rightarrow> (o', True)
         | item # _ \<Rightarrow>
            (case item_text j ''sCode'' item of None \<Rightarrow> (rejected, False)
             | Some sc \<Rightarrow>
                if sc \<noteq> None \<and> sc \<noteq> Some ''0'' then (rejected, item_text j ''sMsg'' item \<noteq> None)
                else case item_text j ''ordId'' item of None \<Rightarrow> (rejected, False)
                 | Some None \<Rightarrow> (o'\<lparr>ord_status := Filled\<rparr>, True)
                 | Some (Some order_id) \<Rightarrow>
                    (o'\<lparr>ord_status := Filled, ord_exchange_order_id := os_hash os order_id, ord_id_str := order_id\<rparr>, True)))"

definition okx_new_order :: "'w outside \<Rightarrow> symbol_id \<Rightarrow> side \<Rightarrow> dbl \<Rightarrow> 'w okx \<Rightarrow> order \<times> 'w okx" where
  "okx_new_order os symbol side qty a =
    (case generate_order_id a of (client_id, a) \<Rightarrow>
       (order_default\<lparr>ord_exchange := OKX, ord_symbol := symbol, ord_side := side, ord_type := Market, ord_quantity := qty,
          ord_client_order_id := client_id, ord_create_time := os_system_now os (world_of a)\<rparr>, a))"

definition okx_rest_order :: "'j json_api \<Rightarrow> 'w outside \<Rightarrow> bool \<Rightarrow> side \<Rightarrow> dbl \<Rightarrow> order \<Rightarrow> 'w okx \<Rightarrow> order \<times> 'w okx" where
  "okx_rest_order j os with_ccy side sz o' a =
    (case snprintf_checked 512 (okx_order_body (symbol_to_okx (ord_symbol o')) with_ccy side sz) of
       None \<Rightarrow> (o'\<lparr>ord_status := Rejected\<rparr>, a)
     | Some body \<Rightarrow>
        (case okx_post os ''/api/v5/trade/order'' body a of (response, a) \<Rightarrow>
           if \<not> hr_success response then (o'\<lparr>ord_status := Rejected\<rparr>, a)
           else (fst (okx_parse_order j os (hr_body response) o'), a)))"

definition okx_place_market_order :: "'j json_api \<Rightarrow> 'w outside \<Rightarrow> symbol_id \<Rightarrow> side \<Rightarrow> dbl \<Rightarrow> 'w okx \<Rightarrow> order \<times> 'w okx" where
  "okx_place_market_order j os symbol side quantity a =
    (case okx_new_order os symbol side quantity a of (o', a) \<Rightarrow> okx_rest_order j os False side quantity o' a)"

text \<open>The level of the account: of the first item that has one; \<open>None\<close> when there is none or reading it throws.\<close>

fun account_level :: "'j json_api \<Rightarrow> 'j option list \<Rightarrow> int option" where
  "account_level j [] = None"
| "account_level j (item # items) =
    (case item_text j ''acctLv'' item of None \<Rightarrow> None
     | Some None \<Rightarrow> account_level j items
     | Some (Some lv) \<Rightarrow> Some (atoi lv))"

text \<open>Without a definite answer the mode is taken to be on.\<close>

definition okx_ensure_margin_mode :: "'j json_api \<Rightarrow> 'w outside \<Rightarrow> 'w okx \<Rightarrow> bool \<times> 'w okx" where
  "okx_ensure_margin_mode j os a =
    (if ok_margin_ready a then (True, a)
     else if xc_api_key (ac_credentials a) = [] \<or> xc_secret_key (ac_credentials a) = [] then (False, a)
     else case okx_get os ''/api/v5/account/config'' a of (response, a) \<Rightarrow>
       (case (case okx_data j response of None \<Rightarrow> None | Some items \<Rightarrow> account_level j items) of
          Some level \<Rightarrow> if 2 \<le> level then (True, a\<lparr>ok_margin_ready := True\<rparr>) else (False, a)
        | None \<Rightarrow> (True, a\<lparr>ok_margin_ready := True\<rparr>)))"

text \<open>The order over the trading socket, when it is there; \<open>None\<close> when it is not used or not accepted.\<close>

definition okx_ws_order :: "'j json_api \<Rightarrow> 'w outside \<Rightarrow> order \<Rightarrow> 'w okx \<Rightarrow> order option \<times> 'w okx" where
  "okx_ws_order j os o' a =
    (case ok_trade a of None \<Rightarrow> (None, a)
     | Some t \<Rightarrow>
        if \<not> trade_is_connected t then (None, a)
        else case okx_place_order_sync j os (symbol_to_okx (ord_symbol o')) Sell (ord_quantity o') ''cross'' ''USDT'' t (world_of a) of (w_order, t, w) \<Rightarrow>
          let a = a\<lparr>ok_trade := Some t, ac_line := (ac_line a)\<lparr>ln_world := w\<rparr>\<rparr> in
          if ord_status w_order = Rejected then (None, a)
          else (Some (w_order\<lparr>ord_symbol := ord_symbol o', ord_quantity := ord_quantity o', ord_client_order_id := ord_client_order_id o'\<rparr>), a))"

definition okx_invalid_order :: "symbol_id \<Rightarrow> side \<Rightarrow> order" where
  "okx_invalid_order symbol side =
    order_default\<lparr>ord_exchange := OKX, ord_symbol := symbol, ord_side := side, ord_type := Market, ord_status := Rejected\<rparr>"

definition okx_open_short :: "'j json_api \<Rightarrow> 'w outside \<Rightarrow> symbol_id \<Rightarrow> dbl \<Rightarrow> 'w okx \<Rightarrow> order \<times> 'w okx" where
  "okx_open_short j os symbol quantity a =
    (let adj_qty = okx_normalize_qty symbol quantity True a in
     if adj_qty \<le> 0 then (okx_invalid_order symbol Sell, a)
     else case okx_new_order os symbol Sell adj_qty a of (o', a) \<Rightarrow>
      (case okx_ensure_margin_mode j os a of (ready, a) \<Rightarrow>
         if \<not> ready then (o'\<lparr>ord_status := Rejected\<rparr>, a)
         else case okx_ws_order j os o' a of
           (Some w_order, a) \<Rightarrow> (w_order, a)
         | (None, a) \<Rightarrow> okx_rest_order j os True Sell adj_qty o' a))"

text \<open>A cover is a purchase for the value of the quantity at the cached price, with the fee on top.\<close>

definition close_notional :: "symbol_id \<Rightarrow> dbl \<Rightarrow> 'w okx \<Rightarrow> dbl" where
  "close_notional symbol adj_qty a =
    (let min_notional = (case ok_lots a (symbol_to_okx symbol) of None \<Rightarrow> 0 | Some info \<Rightarrow> ol_min_notional info);
         notional = adj_qty * price_hint False (ok_ticker_cache a symbol) * (1 + OKX_FEE_RATE)
     in if 0 < min_notional \<and> notional < min_notional then min_notional else notional)"

definition okx_close_short :: "'j json_api \<Rightarrow> 'w outside \<Rightarrow> symbol_id \<Rightarrow> dbl \<Rightarrow> 'w okx \<Rightarrow> order \<times> 'w okx" where
  "okx_close_short j os symbol quantity a =
    (let adj_qty = okx_normalize_qty symbol quantity False a in
     if adj_qty \<le> 0 then (okx_invalid_order symbol Buy, a)
     else case okx_new_order os symbol Buy adj_qty a of (o', a) \<Rightarrow>
      (case okx_ensure_margin_mode j os a of (ready, a) \<Rightarrow>
         if \<not> ready \<or> price_hint False (ok_ticker_cache a symbol) \<le> 0 \<or> close_notional symbol adj_qty a \<le> 0
         then (o'\<lparr>ord_status := Rejected\<rparr>, a)
         else okx_rest_order j os True Buy (close_notional symbol adj_qty a) o' a))"

definition okx_cancel_order :: "u64 \<Rightarrow> bool" where
  "okx_cancel_order order_id = False"

section \<open>Leverage\<close>

definition submit_leverage :: "'j json_api \<Rightarrow> 'w outside \<Rightarrow> string \<Rightarrow> 'w okx \<Rightarrow> bool \<times> 'w okx" where
  "submit_leverage j os body a =
    (case okx_post os ''/api/v5/account/set-leverage'' body a of (response, a) \<Rightarrow>
       (hr_success response \<and> ja_string j (ja_field j (ja_iterate j (hr_body response)) ''code'') = Some ''0'', a))"

text \<open>A body that does not fit is left out.\<close>

definition try_leverage :: "'j json_api \<Rightarrow> 'w outside \<Rightarrow> string \<Rightarrow> 'w okx \<Rightarrow> bool \<times> 'w okx" where
  "try_leverage j os text a = (case snprintf_checked 256 text of None \<Rightarrow> (False, a) | Some body \<Rightarrow> submit_leverage j os body a)"

definition okx_prepare_shorting :: "'j json_api \<Rightarrow> 'w outside \<Rightarrow> symbol_id \<Rightarrow> 'w okx \<Rightarrow> bool \<times> 'w okx" where
  "okx_prepare_shorting j os symbol a =
    (case okx_ensure_margin_mode j os a of (ready, a) \<Rightarrow>
       if \<not> ready then (False, a)
       else case try_leverage j os (''{\"lever\":\"1\",\"mgnMode\":\"cross\",\"instId\":\"'' @ symbol_to_okx symbol @ ''\"}'') a of (ok, a) \<Rightarrow>
         if ok then (True, a)
         else try_leverage j os (''{\"lever\":\"1\",\"mgnMode\":\"cross\",\"ccy\":\"'' @ get_base symbol @ ''\"}'') a)"

section \<open>Positions and balances\<close>

text \<open>A loop over the currencies of the accounts.\<close>

definition details_loop :: "'j json_api \<Rightarrow> ('j option \<Rightarrow> 's \<Rightarrow> 's \<times> bool) \<Rightarrow> 'j option list \<Rightarrow> 's \<Rightarrow> 's \<times> bool" where
  "details_loop j step accounts s =
    fold_catching (\<lambda>account s. fold_catching step (case account of None \<Rightarrow> [None] | Some v \<Rightarrow> range_items j (ja_field j v ''details'')) s) accounts s"

definition liable_position :: "'j json_api \<Rightarrow> 'w okx \<Rightarrow> 'j option \<Rightarrow> position list \<Rightarrow> position list \<times> bool" where
  "liable_position j a detail positions =
    (case item_needed j ''ccy'' detail of None \<Rightarrow> (positions, True)
     | Some ccy \<Rightarrow>
        if ccy = ''USDT'' then (positions, False)
        else case item_text j ''liab'' detail of None \<Rightarrow> (positions, True)
         | Some liab_str \<Rightarrow>
            let liab = (case liab_str of None \<Rightarrow> 0 | Some s \<Rightarrow> if s = [] then 0 else fast_stod s 0);
                borrow_amount = fabs liab in
            if borrow_amount \<le> 0 then (positions, False)
            else let pos = position_default\<lparr>pos_symbol := SymbolId ccy ''USDT'', pos_foreign_exchange := OKX,
                       pos_foreign_amount := borrow_amount, pos_is_active := True\<rparr>;
                     pos = (case ok_ticker_cache a (pos_symbol pos) of None \<Rightarrow> pos
                       | Some mark \<Rightarrow> pos\<lparr>pos_foreign_entry_price := (if 0 < tk_bid mark then tk_bid mark else tk_last mark)\<rparr>)
              in (positions @ [pos], False))"

definition okx_get_short_positions :: "'j json_api \<Rightarrow> 'w outside \<Rightarrow> 'w okx \<Rightarrow> position list \<times> 'w okx" where
  "okx_get_short_positions j os a =
    (case okx_get os ''/api/v5/account/balance'' a of (response, a) \<Rightarrow>
       (case okx_data j response of None \<Rightarrow> ([], a)
        | Some accounts \<Rightarrow> (fst (details_loop j (liable_position j a) accounts []), a)))"

definition okx_close_short_position :: "'j json_api \<Rightarrow> 'w outside \<Rightarrow> symbol_id \<Rightarrow> 'w okx \<Rightarrow> bool \<times> 'w okx" where
  "okx_close_short_position j os symbol a =
    (case okx_get_short_positions j os a of (positions, a) \<Rightarrow>
     (case find (\<lambda>pos. pos_symbol pos = symbol \<and> 0 < pos_foreign_amount pos) positions of None \<Rightarrow> (True, a)
      | Some pos \<Rightarrow> (case okx_close_short j os symbol (pos_foreign_amount pos) a of (o', a) \<Rightarrow> (ord_status o' = Filled, a))))"

text \<open>The first balance of that currency ends the loop, as an exception does.\<close>

definition detail_balance :: "'j json_api \<Rightarrow> string \<Rightarrow> 'j option \<Rightarrow> dbl \<Rightarrow> dbl \<times> bool" where
  "detail_balance j currency detail found =
    (case item_needed j ''ccy'' detail of None \<Rightarrow> (found, True)
     | Some ccy \<Rightarrow>
        if ccy \<noteq> currency then (found, False)
        else case item_number j ''availBal'' detail of None \<Rightarrow> (found, True) | Some None \<Rightarrow> (found, False) | Some (Some x) \<Rightarrow> (x, True))"

definition okx_get_balance :: "'j json_api \<Rightarrow> 'w outside \<Rightarrow> string \<Rightarrow> 'w okx \<Rightarrow> dbl \<times> 'w okx" where
  "okx_get_balance j os currency a =
    (case okx_get os (''/api/v5/account/balance?ccy='' @ currency) a of (response, a) \<Rightarrow>
       (case okx_data j response of None \<Rightarrow> (0, a) | Some accounts \<Rightarrow> (fst (details_loop j (detail_balance j currency) accounts 0), a)))"

text \<open>A balance; any field that is no text throws, and then all balances are lost.\<close>

definition detail_account :: "'j json_api \<Rightarrow> 'j option \<Rightarrow> account_balance option" where
  "detail_account j detail =
    (let zero = (\<lambda>x. case x of Some v \<Rightarrow> v | None \<Rightarrow> 0) in
     case (item_needed j ''ccy'' detail, item_number j ''cashBal'' detail, item_number j ''availBal'' detail,
           item_number j ''frozenBal'' detail, item_number j ''liab'' detail) of
       (Some ccy, Some cash, Some avail, Some frozen, Some liab) \<Rightarrow>
         let b = balance_default\<lparr>ab_currency := ccy, ab_total := zero cash, ab_available := zero avail, ab_locked := zero frozen,
               ab_liability := (case liab of Some v \<Rightarrow> fabs v | None \<Rightarrow> 0)\<rparr> in
         if ab_total b \<noteq> 0 then Some b else map_option (\<lambda>eq. b\<lparr>ab_total := (case eq of Some v \<Rightarrow> v | None \<Rightarrow> ab_total b)\<rparr>) (item_number j ''eq'' detail)
     | _ \<Rightarrow> None)"

definition detail_balances :: "'j json_api \<Rightarrow> 'j option \<Rightarrow> account_balance list \<Rightarrow> account_balance list option" where
  "detail_balances j detail balances =
    (case detail_account j detail of None \<Rightarrow> None
     | Some b \<Rightarrow> Some (if is_dust (ab_total b) \<and> is_dust (ab_available b) \<and> is_dust (ab_locked b) \<and> is_dust (ab_liability b)
          then balances else balances @ [b]))"

definition okx_get_all_balances :: "'j json_api \<Rightarrow> 'w outside \<Rightarrow> 'w okx \<Rightarrow> account_balance list \<times> 'w okx" where
  "okx_get_all_balances j os a =
    (case okx_get os ''/api/v5/account/balance'' a of (response, a) \<Rightarrow>
       (case (case okx_data j response of None \<Rightarrow> None
          | Some accounts \<Rightarrow> fold_throwing (\<lambda>account bs. fold_throwing (detail_balances j)
              (case account of None \<Rightarrow> [None] | Some v \<Rightarrow> range_items j (ja_field j v ''details'')) bs) accounts []) of
          None \<Rightarrow> ([], a) | Some balances \<Rightarrow> (by_currency balances, a)))"

section \<open>Fills\<close>

definition okx_authenticate_private :: "'w outside \<Rightarrow> 'w okx \<Rightarrow> 'w okx" where
  "okx_authenticate_private os a =
    (case snprintf_checked 512 (login_message os (ac_credentials a) (world_of a)) of None \<Rightarrow> a
     | Some m \<Rightarrow> a\<lparr>ac_private_sent := ac_private_sent a @ [m]\<rparr>)"

definition okx_order_item :: "'j json_api \<Rightarrow> 'j option \<Rightarrow> fills \<Rightarrow> fills \<times> bool" where
  "okx_order_item j item fs =
    (case item_text j ''state'' item of None \<Rightarrow> (fs, True)
     | Some state \<Rightarrow>
        if state \<noteq> Some ''filled'' then (fs, False)
        else case item_text j ''ordId'' item of None \<Rightarrow> (fs, True)
         | Some None \<Rightarrow> (fs, False)
         | Some (Some order_id) \<Rightarrow>
            (case (item_number j ''avgPx'' item, item_number j ''accFillSz'' item) of
               (Some avg, Some qty) \<Rightarrow>
                 let fi = \<lparr>fi_avg_price = (case avg of Some x \<Rightarrow> x | None \<Rightarrow> 0), fi_filled_qty = (case qty of Some x \<Rightarrow> x | None \<Rightarrow> 0)\<rparr>
                 in (if 0 < fi_avg_price fi \<and> 0 < fi_filled_qty fi then fs(order_id \<mapsto> fi) else fs, False)
             | _ \<Rightarrow> (fs, True)))"

definition okx_private_message :: "'j json_api \<Rightarrow> string \<Rightarrow> 'w okx \<Rightarrow> 'w okx" where
  "okx_private_message j message a =
    (let doc = ja_iterate j message; ev = ja_field j doc ''event''; code_field = ja_field j doc ''code'';
         arg = ja_field j doc ''arg''; channel = ja_field j arg ''channel'' in
     if message = ''pong'' then a
     else if ja_ok j ev
     then if ja_string j ev = Some ''login'' \<and> ja_ok j code_field \<and> ja_string j code_field = Some ''0''
       then a\<lparr>ac_private_ready := True,
          ac_private_sent := ac_private_sent a @ [''{\"op\":\"subscribe\",\"args\":[{\"channel\":\"orders\",\"instType\":\"SPOT\"}]}'']\<rparr>
       else a
     else if ja_ok j arg \<and> ja_ok j channel \<and> ja_string j channel = Some ''orders''
     then a\<lparr>ac_fills := fst (fold_catching (okx_order_item j) (range_items j (ja_field j doc ''data'')) (ac_fills a))\<rparr>
     else a)"

definition okx_private_disconnected :: "'w okx \<Rightarrow> 'w okx" where
  "okx_private_disconnected a = a\<lparr>ac_private_ready := False\<rparr>"

text \<open>What a query adds to the order stays when a later field throws.\<close>

definition okx_fill_item :: "'j json_api \<Rightarrow> 'j option \<Rightarrow> order \<Rightarrow> order \<times> bool" where
  "okx_fill_item j item o' =
    (case item_number j ''avgPx'' item of None \<Rightarrow> (o', True)
     | Some p \<Rightarrow>
        let o' = (case p of Some price \<Rightarrow> if 0 < price then o'\<lparr>ord_average_price := price\<rparr> else o' | None \<Rightarrow> o') in
        case item_number j ''accFillSz'' item of None \<Rightarrow> (o', True)
        | Some q \<Rightarrow> (case q of Some qty \<Rightarrow> if 0 < qty then o'\<lparr>ord_filled_quantity := qty\<rparr> else o' | None \<Rightarrow> o', False))"

text \<open>One query of the REST interface; only the first item of the list is read.\<close>

definition okx_fill_query :: "'j json_api \<Rightarrow> 'w outside \<Rightarrow> symbol_id \<Rightarrow> string \<Rightarrow> order \<Rightarrow> 'w okx \<Rightarrow> bool \<times> order \<times> 'w okx" where
  "okx_fill_query j os symbol order_id o' a =
    (case okx_get os (''/api/v5/trade/order?instId='' @ symbol_to_okx symbol @ ''&ordId='' @ order_id) a of (response, a) \<Rightarrow>
       (case okx_data j response of
          Some (item # _) \<Rightarrow>
            (case okx_fill_item j item o' of (o', thrown) \<Rightarrow>
               (\<not> thrown \<and> 0 < ord_average_price o' \<and> 0 < ord_filled_quantity o', o', a))
        | _ \<Rightarrow> (False, o', a)))"

definition OKX_FILL_RETRIES :: nat where "OKX_FILL_RETRIES = 5"

fun okx_fill_queries :: "'j json_api \<Rightarrow> 'w outside \<Rightarrow> symbol_id \<Rightarrow> string \<Rightarrow> nat \<Rightarrow> order \<Rightarrow> 'w okx \<Rightarrow> bool \<times> order \<times> 'w okx" where
  "okx_fill_queries j os symbol order_id 0 o' a = (False, o', a)"
| "okx_fill_queries j os symbol order_id (Suc n) o' a =
    (case okx_fill_query j os symbol order_id o' a of
       (True, o', a) \<Rightarrow> (True, o', a) | (False, o', a) \<Rightarrow> okx_fill_queries j os symbol order_id n o' a)"

definition okx_query_order_fill :: "'j json_api \<Rightarrow> 'w outside \<Rightarrow> symbol_id \<Rightarrow> string \<Rightarrow> order \<Rightarrow> 'w okx \<Rightarrow> bool \<times> order \<times> 'w okx" where
  "okx_query_order_fill j os symbol order_id o' a =
    (if \<not> ac_private_ready a then okx_fill_queries j os symbol order_id OKX_FILL_RETRIES o' a
     else case take_fill order_id o' a of Some (o', a) \<Rightarrow> (True, o', a)
      | None \<Rightarrow>
         let a = wait_private os (okx_private_message j) a in
         case take_fill order_id o' a of Some (o', a) \<Rightarrow> (True, o', a)
         | None \<Rightarrow> okx_fill_queries j os symbol order_id OKX_FILL_RETRIES o' a)"

section \<open>Deposit networks\<close>

definition okx_deposit_ok :: "'j json_api \<Rightarrow> 'j \<Rightarrow> bool" where
  "okx_deposit_ok j dep =
    (case ja_bool j dep of Some b \<Rightarrow> b
     | None \<Rightarrow> (case ja_string j dep of Some s \<Rightarrow> s = ''true'' \<or> s = ''1'' | None \<Rightarrow> False))"

text \<open>The part after the first dash of a chain name.\<close>

definition okx_chain_name :: "string \<Rightarrow> string" where
  "okx_chain_name chain =
    scan_normalize_chain (if CHR ''-'' \<in> set chain then drop 1 (dropWhile (\<lambda>c. c \<noteq> CHR ''-'') chain) else chain)"

definition okx_deposit_item :: "'j json_api \<Rightarrow> 'j \<Rightarrow> (string \<rightharpoonup> string list) \<Rightarrow> (string \<rightharpoonup> string list)" where
  "okx_deposit_item j item result =
    (case ja_string j (ja_field j item ''ccy'') of None \<Rightarrow> result
     | Some ccy \<Rightarrow>
        if \<not> okx_deposit_ok j (ja_field j item ''canDep'') then result
        else let chain_name = (case ja_string j (ja_field j item ''chain'') of Some c \<Rightarrow> okx_chain_name c | None \<Rightarrow> []) in
          if chain_name = [] then result
          else result(ccy \<mapsto> List.insert chain_name (case result ccy of Some nets \<Rightarrow> nets | None \<Rightarrow> [])))"

definition okx_fetch_deposit_networks :: "'j json_api \<Rightarrow> 'w outside \<Rightarrow> 'w okx \<Rightarrow> (string \<rightharpoonup> string list) \<times> 'w okx" where
  "okx_fetch_deposit_networks j os a =
    (if xc_api_key (ac_credentials a) = [] \<or> xc_secret_key (ac_credentials a) = [] then (Map.empty, a)
     else case okx_get os ''/api/v5/asset/currencies'' a of (response, a) \<Rightarrow>
       let doc = ja_iterate j (hr_body response) in
       if \<not> hr_success response \<or> ja_string j (ja_field j doc ''code'') \<noteq> Some ''0'' then (Map.empty, a)
       else case ja_array j (ja_field j doc ''data'') of None \<Rightarrow> (Map.empty, a)
        | Some items \<Rightarrow> (fold (okx_deposit_item j) items Map.empty, a))"

end
