(* ===== verification/OkxSafety.thy ===== *)
theory OkxSafety
  imports OkxOrders BybitSafety BithumbOrders
begin

text \<open>
  What the OKX adapter guarantees: that quotes are positive and read as the venue writes them, which
  orders a short puts on the wire and when it counts as filled, that fills are sound, and what a cover
  asks for.
\<close>

section \<open>Fills\<close>

lemma okx_item_fills: "fills_ok fs \<Longrightarrow> fills_ok (fst (okx_order_item j item fs))"
  by (auto simp: okx_order_item_def Let_def positive_fill intro!: fills_ok_put split: option.splits)

lemma okx_message_fills:
  assumes "fills_ok (ac_fills a)"
  shows "fills_ok (ac_fills (okx_private_message j m a))"
proof -
  have "fills_ok (fst (fold_catching (okx_order_item j) items (ac_fills a)))" for items
    by (rule fold_catching_invar [where P = fills_ok]) (simp_all add: assms okx_item_fills)
  then show ?thesis using assms by (simp add: okx_private_message_def Let_def)
qed

lemma okx_message_line: "ac_line (okx_private_message j m a) = ac_line a"
  by (simp add: okx_private_message_def Let_def)

interpretation okx_fills: fill_stream "okx_private_message j"
  by unfold_locales (rule okx_message_fills, assumption, rule okx_message_line)

lemma okx_call_simps [simp]:
  "ac_fills (snd (okx_get os p a)) = ac_fills a" "ac_fills (snd (okx_post os p b a)) = ac_fills a"
  "ok_trade (snd (okx_get os p a)) = ok_trade a" "ok_trade (snd (okx_post os p b a)) = ok_trade a"
  "ok_lots (snd (okx_get os p a)) = ok_lots a" "ok_ticker_cache (snd (okx_get os p a)) = ok_ticker_cache a"
  by (simp_all add: okx_get_def okx_post_def http_get_def http_post_def case_prod_unfold)

lemma okx_fill_item_same: "same_order o' (fst (okx_fill_item j item o'))"
  by (auto simp: okx_fill_item_def Let_def split: option.split)

lemma okx_fill_query_ok:
  assumes "okx_fill_query j os s i o' a = (ok, o2, a2)"
  shows "ac_fills a2 = ac_fills a \<and> same_order o' o2 \<and> (ok \<longrightarrow> 0 < ord_average_price o2 \<and> 0 < ord_filled_quantity o2)"
  using assms okx_fill_item_same [of o' j] by (auto simp: okx_fill_query_def case_prod_unfold split: option.splits list.splits)

lemma okx_fill_queries_ok:
  "okx_fill_queries j os s i n o' a = (ok, o2, a2) \<Longrightarrow>
    ac_fills a2 = ac_fills a \<and> same_order o' o2 \<and> (ok \<longrightarrow> 0 < ord_average_price o2 \<and> 0 < ord_filled_quantity o2)"
proof (induction n arbitrary: o' a)
  case (Suc n)
  obtain k o3 a3 where q: "okx_fill_query j os s i o' a = (k, o3, a3)" by (metis prod_cases3)
  show ?case
  proof (cases k)
    case False
    then have "okx_fill_queries j os s i n o3 a3 = (ok, o2, a2)" using Suc.prems q by simp
    from Suc.IH [OF this] okx_fill_query_ok [OF q] show ?thesis using same_order_trans by fastforce
  qed (use Suc.prems okx_fill_query_ok [OF q] q in auto)
qed simp

text \<open>An OKX fill query that reports success has filled in a quantity and a price that are not zero or
  negative, and changed nothing else of the order.\<close>

lemma okx_fill_query_sound:
  assumes "fills_ok (ac_fills a)" "okx_query_order_fill j os s order_id o' a = (ok, o2, a2)"
  shows "fills_ok (ac_fills a2) \<and> same_order o' o2 \<and> (ok \<longrightarrow> order_filled o2)"
proof -
  have r: "fills_ok (ac_fills a2) \<and> same_order o' o2 \<and> (ok \<longrightarrow> order_filled o2)"
    if "okx_fill_queries j os s order_id n o' b = (ok, o2, a2)" "fills_ok (ac_fills b)" for n b
    using okx_fill_queries_ok [OF that(1)] that(2) positive_filled by simp
  have w: "fills_ok (ac_fills (wait_private os (okx_private_message j) a))" by (rule okx_fills.wait_fills [OF assms(1)])
  show ?thesis
    using assms(2) r [OF _ assms(1)] r [OF _ w]
    by (auto simp: okx_query_order_fill_def Let_def dest: take_fill_ok [OF assms(1)] okx_fills.waited_fill [OF assms(1)] split: if_splits option.splits)
qed

section \<open>Quotes\<close>

lemma okx_last_simps [simp]:
  "tk_bid (okx_with_last a t) = tk_bid t" "tk_ask (okx_with_last a t) = tk_ask t" "tk_exchange (okx_with_last a t) = tk_exchange t"
  by (simp_all add: okx_with_last_def split: option.split)

lemma fast_bbo_positive: "parse_bbo_fast now m t = (t', True) \<Longrightarrow> 0 < tk_bid t' \<and> 0 < tk_ask t' \<and> tk_exchange t' = OKX"
  by (auto simp: parse_bbo_fast_def Let_def split: option.splits if_splits prod.splits)

lemma slow_bbo_positive:
  "okx_slow_bbo j d a t = Some t' \<Longrightarrow> tk_exchange t = OKX \<Longrightarrow> 0 < tk_bid t' \<and> 0 < tk_ask t' \<and> tk_exchange t' = OKX"
  by (auto simp: okx_slow_bbo_def Let_def split: option.splits if_splits prod.splits)

lemma quote_over_exchange: "quote_over j d t = Some t' \<Longrightarrow> tk_exchange t' = tk_exchange t"
  by (auto simp: quote_over_def split: option.splits)

lemma slow_quote_positive:
  "okx_slow_quote j d t = Some t' \<Longrightarrow> tk_exchange t = OKX \<Longrightarrow> 0 < tk_bid t' \<and> 0 < tk_ask t' \<and> tk_exchange t' = OKX"
  by (auto simp: okx_slow_quote_def dest: quote_over_exchange split: option.splits if_splits)

lemma okx_parsed_positive:
  assumes "okx_parse_ticker_message j now m a = Some t"
  shows "0 < tk_bid t \<and> 0 < tk_ask t \<and> tk_exchange t = OKX"
proof -
  define r where "r = (if sv_contains m ''\"channel\":\"bbo-tbt\"'' then parse_bbo_fast now m ticker_default else (ticker_default, False))"
  show ?thesis
  proof (cases "snd r")
    case True
    then have "parse_bbo_fast now m ticker_default = (fst r, True)" by (auto simp: r_def split: if_splits) (metis prod.collapse)
    moreover have "t = okx_with_last a (fst r)" using assms True unfolding okx_parse_ticker_message_def r_def [symmetric] by (simp add: case_prod_unfold)
    ultimately show ?thesis using fast_bbo_positive by simp
  next
    case False
    then show ?thesis
      using assms unfolding okx_parse_ticker_message_def r_def [symmetric]
      by (auto simp: case_prod_unfold okx_slow_message_def Let_def dest: slow_bbo_positive slow_quote_positive split: option.splits if_splits list.splits)
  qed
qed

text \<open>Every quote the OKX feed hands on is an OKX quote with a positive bid and a positive ask, and it is in the
  cache of the adapter; a message that is no quote hands on nothing.\<close>

lemma okx_quotes_positive:
  "ok_dispatched (okx_on_ws_message j now m a) = ok_dispatched a \<and> ok_ticker_cache (okx_on_ws_message j now m a) = ok_ticker_cache a \<or>
   (\<exists>t. ok_dispatched (okx_on_ws_message j now m a) = ok_dispatched a @ [t] \<and>
      ok_ticker_cache (okx_on_ws_message j now m a) (tk_symbol t) = Some t \<and> 0 < tk_bid t \<and> 0 < tk_ask t \<and> tk_exchange t = OKX)"
  using okx_parsed_positive [of j now m a]
  by (auto simp: okx_on_ws_message_def okx_dispatch_ticker_def Let_def split: option.split)

section \<open>Shorts on the wire\<close>

definition okx_orders_on_wire :: "'w okx \<Rightarrow> http_request list" where
  "okx_orders_on_wire a = filter (\<lambda>rq. rq_target rq = ''/api/v5/trade/order'') (ln_written (ac_line a))"

definition okx_ws_orders :: "'w okx \<Rightarrow> string list" where
  "okx_ws_orders a = (case ok_trade a of None \<Rightarrow> [] | Some t \<Rightarrow> tw_sent t)"

definition okx_trade_ok :: "'w okx \<Rightarrow> bool" where
  "okx_trade_ok a \<longleftrightarrow> (\<forall>t. ok_trade a = Some t \<longrightarrow> trade_invar t)"

lemma okx_other_get: "p \<noteq> ''/api/v5/trade/order'' \<Longrightarrow> okx_orders_on_wire (snd (okx_get os p a)) = okx_orders_on_wire a"
  using http_get_copies [of os p "okx_auth_headers os ''GET'' p [] a" a] by (auto simp: okx_orders_on_wire_def okx_get_def)

lemma okx_ensure_frame:
  assumes "okx_ensure_margin_mode j os a = (ready, a2)"
  shows "okx_orders_on_wire a2 = okx_orders_on_wire a" "ok_trade a2 = ok_trade a" "ok_lots a2 = ok_lots a" "ok_ticker_cache a2 = ok_ticker_cache a"
proof -
  have o: "okx_orders_on_wire (b\<lparr>ok_margin_ready := x\<rparr>) = okx_orders_on_wire b" for b :: "'a okx" and x by (simp add: okx_orders_on_wire_def)
  have "a2 = snd (okx_ensure_margin_mode j os a)" using assms by simp
  then show "okx_orders_on_wire a2 = okx_orders_on_wire a" "ok_trade a2 = ok_trade a" "ok_lots a2 = ok_lots a" "ok_ticker_cache a2 = ok_ticker_cache a"
    by (auto simp: okx_ensure_margin_mode_def case_prod_unfold okx_other_get o split: option.split)
qed

text \<open>An order over the REST interface is at most three copies of one request.\<close>

lemma okx_rest_wire:
  assumes "okx_rest_order j os c side sz o' a = (o2, a2)" "ord_status o' \<noteq> Filled"
  shows "\<exists>k rq. k \<le> 3 \<and> okx_orders_on_wire a2 = okx_orders_on_wire a @ replicate k rq \<and> rq_target rq = ''/api/v5/trade/order'' \<and>
      rq_body rq = okx_order_body (symbol_to_okx (ord_symbol o')) c side sz \<and> ok_trade a2 = ok_trade a \<and> (ord_status o2 = Filled \<longrightarrow> 0 < k)"
proof -
  let ?b = "okx_order_body (symbol_to_okx (ord_symbol o')) c side sz"
  let ?h = "header_put ''Content-Type'' ''application/json'' (okx_auth_headers os ''POST'' ''/api/v5/trade/order'' ?b a)"
  let ?rq = "account_request a POST ''/api/v5/trade/order'' ?b ?h"
  show ?thesis
  proof (cases "snprintf_checked 512 ?b")
    case None
    then show ?thesis using assms by (intro exI [of _ 0] exI [of _ ?rq]) (auto simp: okx_rest_order_def)
  next
    case (Some b)
    then have b: "b = ?b" by (simp add: snprintf_checked_def split: if_splits)
    obtain k where k: "k \<le> 3" "ln_written (ac_line (snd (http_post os ''/api/v5/trade/order'' ?b ?h a))) = ln_written (ac_line a) @ replicate k ?rq"
        "hr_success (fst (http_post os ''/api/v5/trade/order'' ?b ?h a)) \<longrightarrow> 0 < k"
      using http_post_counted by blast
    have "a2 = snd (okx_post os ''/api/v5/trade/order'' ?b a)" "ord_status o2 = Filled \<Longrightarrow> hr_success (fst (okx_post os ''/api/v5/trade/order'' ?b a))"
      using assms Some unfolding b by (auto simp: okx_rest_order_def case_prod_unfold split: if_splits)
    then show ?thesis
      using k by (intro exI [of _ k] exI [of _ ?rq]) (auto simp: okx_orders_on_wire_def okx_post_def http_post_def case_prod_unfold)
  qed
qed

definition is_okx_order :: "string \<Rightarrow> order \<Rightarrow> string \<Rightarrow> bool" where
  "is_okx_order i o' m \<longleftrightarrow> m = okx_order_message i (symbol_to_okx (ord_symbol o')) Sell (ord_quantity o') ''cross'' ''USDT''"

definition okx_accepted :: "'j json_api \<Rightarrow> string \<Rightarrow> bool" where
  "okx_accepted j i \<longleftrightarrow> (\<exists>m r. okx_order_answer j m = Some (i, r) \<and> pr_ret_code r = 0)"

lemma okx_ws_wire:
  assumes "okx_trade_ok a" "okx_ws_order j os o' a = (r, a2)"
  shows "okx_trade_ok a2 \<and> okx_orders_on_wire a2 = okx_orders_on_wire a \<and>
    (okx_ws_orders a2 = okx_ws_orders a \<or> (\<exists>i m. okx_ws_orders a2 = okx_ws_orders a @ [m] \<and> is_okx_order i o' m)) \<and>
    (\<forall>w. r = Some w \<longrightarrow> ord_status w = Filled \<and> (\<exists>i m. okx_ws_orders a2 = okx_ws_orders a @ [m] \<and> is_okx_order i o' m \<and> okx_accepted j i))"
proof (cases "ok_trade a")
  case (Some t)
  show ?thesis
  proof (cases "trade_is_connected t")
    case True
    obtain w t2 w2 where p: "okx_place_order_sync j os (symbol_to_okx (ord_symbol o')) Sell (ord_quantity o') ''cross'' ''USDT'' t (world_of a) = (w, t2, w2)"
      by (metis prod_cases3)
    have inv: "trade_invar t" using assms(1) Some by (simp add: okx_trade_ok_def)
    let ?i = "okx_request os (world_of a)"
    let ?m = "okx_order_message ?i (symbol_to_okx (ord_symbol o')) Sell (ord_quantity o') ''cross'' ''USDT''"
    note f = okx_order_facts [OF inv p]
    have a2: "ok_trade a2 = Some t2" "okx_orders_on_wire a2 = okx_orders_on_wire a" "okx_ws_orders a2 = tw_sent t2" "okx_ws_orders a = tw_sent t"
      and r: "r = (if ord_status w = Rejected then None else Some (w\<lparr>ord_symbol := ord_symbol o', ord_quantity := ord_quantity o',
         ord_client_order_id := ord_client_order_id o'\<rparr>))"
      using assms(2) Some True p by (auto simp: okx_ws_order_def Let_def okx_orders_on_wire_def okx_ws_orders_def split: if_splits)
    have m: "is_okx_order ?i o' ?m" by (simp add: is_okx_order_def)
    have acc: "ord_status w = Filled \<longrightarrow> okx_ws_orders a2 = okx_ws_orders a @ [?m] \<and> okx_accepted j ?i"
      using f a2 by (auto simp: okx_accepted_def)
    have "okx_ws_orders a2 = okx_ws_orders a \<or> okx_ws_orders a2 = okx_ws_orders a @ [?m]" using f a2 by simp
    moreover have "okx_trade_ok a2" using f a2 by (simp add: okx_trade_ok_def)
    ultimately show ?thesis using f r a2(2) m acc by (auto split: if_splits)
  qed (use assms Some in \<open>auto simp: okx_ws_order_def\<close>)
qed (use assms in \<open>auto simp: okx_ws_order_def\<close>)

text \<open>What one short puts on the wires.\<close>

definition okx_short_sent :: "'j json_api \<Rightarrow> order \<Rightarrow> 'w okx \<Rightarrow> order \<Rightarrow> 'w okx \<Rightarrow> bool" where
  "okx_short_sent j o' a o2 a2 \<longleftrightarrow> (\<exists>k rq. k \<le> 3 \<and> okx_orders_on_wire a2 = okx_orders_on_wire a @ replicate k rq \<and>
     rq_body rq = okx_order_body (symbol_to_okx (ord_symbol o')) True Sell (ord_quantity o') \<and>
     (okx_ws_orders a2 = okx_ws_orders a \<or> (\<exists>i m. okx_ws_orders a2 = okx_ws_orders a @ [m] \<and> is_okx_order i o' m)) \<and>
     (ord_status o2 = Filled \<longrightarrow> 0 < k \<or>
        k = 0 \<and> (\<exists>i m. okx_ws_orders a2 = okx_ws_orders a @ [m] \<and> is_okx_order i o' m \<and> okx_accepted j i)))"

lemma okx_new_order_facts:
  assumes "okx_new_order os symbol side q a = (o', a1)"
  shows "ord_symbol o' = symbol" "ord_quantity o' = q" "ord_status o' = New" "okx_orders_on_wire a1 = okx_orders_on_wire a"
    "ok_trade a1 = ok_trade a" "ok_lots a1 = ok_lots a" "ok_ticker_cache a1 = ok_ticker_cache a"
  using assms by (auto simp: okx_new_order_def generate_order_id_def okx_orders_on_wire_def order_default_def)

lemma okx_ws_orders_cong: "ok_trade a2 = ok_trade a \<Longrightarrow> okx_ws_orders a2 = okx_ws_orders a" "ok_trade a2 = ok_trade a \<Longrightarrow> okx_trade_ok a2 = okx_trade_ok a"
  by (simp_all add: okx_ws_orders_def okx_trade_ok_def)


section \<open>What the venue writes\<close>

text \<open>A message of the documented form: best ask and best bid with their sizes, and a time stamp.\<close>

definition bbo_message :: "string \<Rightarrow> string \<Rightarrow> string \<Rightarrow> string \<Rightarrow> string \<Rightarrow> string \<Rightarrow> string" where
  "bbo_message inst ask ask_qty bid bid_qty rest =
    ''{\"arg\":{\"channel\":\"bbo-tbt\",\"instId\":\"'' @ inst @ ''\"},\"data\":[{\"asks\":[[\"'' @ ask @ ''\",\"'' @ ask_qty @
    ''\",\"\",\"1\"]],\"bids\":[[\"'' @ bid @ ''\",\"'' @ bid_qty @ ''\",\"\",\"1\"]],'' @ rest"

text \<open>A name with a character behind it does not match a value with another one behind it.\<close>

lemma name_is_no_other:
  assumes "CHR 0x22 \<notin> set w" "CHR 0x22 \<notin> set m" "c \<noteq> d"
  shows "\<not> starts_with (w @ CHR 0x22 # c # p) (m @ CHR 0x22 # d # s)"
proof
  assume "starts_with (w @ CHR 0x22 # c # p) (m @ CHR 0x22 # d # s)"
  then obtain t where e: "m @ CHR 0x22 # d # s = (w @ CHR 0x22 # c # p) @ t"
    unfolding starts_with_def by (metis append_take_drop_id)
  have cut: "takeWhile (\<lambda>c. c \<noteq> CHR 0x22) (v @ CHR 0x22 # r) = v" if "CHR 0x22 \<notin> set v" for v r
    using that by (induction v) auto
  have "m = w" using arg_cong [OF e, of "takeWhile (\<lambda>c. c \<noteq> CHR 0x22)"] assms by (simp add: cut)
  then show False using e assms(3) by simp
qed

lemma pair_here:
  assumes "s = x @ marker @ v @ CHR 0x22 # CHR '','' # CHR 0x22 # w @ CHR 0x22 # rest" "find_sub marker s = Some (length x)"
    "CHR 0x22 \<notin> set v" "CHR 0x22 \<notin> set w"
  shows "parse_quoted_double_pair s marker = Some (fast_stod v 0, fast_stod w 0)"
proof -
  have "find_sub [CHR 0x22, CHR '','', CHR 0x22] (CHR 0x22 # CHR '','' # CHR 0x22 # w @ CHR 0x22 # rest) = Some 0"
    using find_sub_here [of "[CHR 0x22, CHR '','', CHR 0x22]"] by simp
  then show ?thesis
    using assms(2-) by (simp add: parse_quoted_double_pair_def sv_find_def substr_def assms(1) Let_def find_char)
qed

lemma bbo_markers:
  assumes "CHR 0x22 \<notin> set inst" "CHR 0x22 \<notin> set ask" "CHR 0x22 \<notin> set ask_qty"
  shows "find_sub ''\"channel\":\"bbo-tbt\"'' (bbo_message inst ask ask_qty bid bid_qty rest) \<noteq> None"
    "find_sub ''\"instId\":\"'' (bbo_message inst ask ask_qty bid bid_qty rest) = Some 28"
    "find_sub ''\"asks\":[[\"'' (bbo_message inst ask ask_qty bid bid_qty rest) = Some (50 + length inst)"
    "find_sub ''\"bids\":[[\"'' (bbo_message inst ask ask_qty bid bid_qty rest) = Some (74 + length inst + length ask + length ask_qty)"
proof -
  note n = name_is_no_other [where w = "''asks''", simplified] name_is_no_other [where w = "''bids''", simplified]
  note here = find_sub_here [of "''\"channel\":\"bbo-tbt\"''", simplified] find_sub_here [of "''\"instId\":\"''", simplified]
    find_sub_here [of "''\"asks\":[[\"''", simplified] find_sub_here [of "''\"bids\":[[\"''", simplified]
  show "find_sub ''\"channel\":\"bbo-tbt\"'' (bbo_message inst ask ask_qty bid bid_qty rest) \<noteq> None"
    using here by (simp add: bbo_message_def find_sub_skip starts_with_Cons)
  show "find_sub ''\"instId\":\"'' (bbo_message inst ask ask_qty bid bid_qty rest) = Some 28"
    using here by (simp add: bbo_message_def find_sub_skip starts_with_Cons)
  show "find_sub ''\"asks\":[[\"'' (bbo_message inst ask ask_qty bid bid_qty rest) = Some (50 + length inst)"
    using here assms by (simp add: bbo_message_def find_sub_skip starts_with_Cons find_marker_skip n)
  show "find_sub ''\"bids\":[[\"'' (bbo_message inst ask ask_qty bid bid_qty rest) = Some (74 + length inst + length ask + length ask_qty)"
    using here assms by (simp add: bbo_message_def find_sub_skip starts_with_Cons find_marker_skip n)
qed

text \<open>The fast parser of best quotes reads what the venue writes: the coin, both prices and both sizes of a
  message of the documented form, whatever else it carries behind them; the quote counts when both
  prices are positive.\<close>

lemma okx_bbo_roundtrip:
  assumes "inst = base @ ''-USDT''" "CHR ''-'' \<notin> set base"
    "\<forall>v \<in> {base, ask, ask_qty, bid, bid_qty}. CHR 0x22 \<notin> set v"
  shows "parse_bbo_fast now (bbo_message inst ask ask_qty bid bid_qty rest) t =
    (t\<lparr>tk_exchange := OKX, tk_timestamp_ms := now, tk_symbol := SymbolId base ''USDT'', tk_bid := fast_stod bid 0, tk_bid_qty := fast_stod bid_qty 0,
       tk_ask := fast_stod ask 0, tk_ask_qty := fast_stod ask_qty 0\<rparr>, 0 < fast_stod bid 0 \<and> 0 < fast_stod ask 0)"
proof -
  let ?m = "bbo_message inst ask ask_qty bid bid_qty rest"
  let ?x = "''{\"arg\":{\"channel\":\"bbo-tbt\",''"
  let ?y = "?x @ ''\"instId\":\"'' @ inst @ ''\"},\"data\":[{''"
  let ?z = "?y @ ''\"asks\":[[\"'' @ ask @ ''\",\"'' @ ask_qty @ ''\",\"\",\"1\"]],''"
  have q: "CHR 0x22 \<notin> set inst" "CHR 0x22 \<notin> set ask" "CHR 0x22 \<notin> set ask_qty" "CHR 0x22 \<notin> set bid" "CHR 0x22 \<notin> set bid_qty"
    using assms(1,3) by auto
  note f = bbo_markers [OF q(1-3), of bid bid_qty rest]
  have "sv_contains ?m ''\"channel\":\"bbo-tbt\"''" using f(1) by (simp add: sv_contains_def sv_find_def)
  moreover have "extract_quoted_value ?m ''\"instId\":\"'' 0 = Some (inst, 38 + length inst)"
    using extract_here [of ?m ?x "''\"instId\":\"''" inst] f(2) q(1) by (simp add: bbo_message_def)
  moreover have "parse_quoted_double_pair ?m ''\"asks\":[[\"'' = Some (fast_stod ask 0, fast_stod ask_qty 0)"
    using pair_here [of ?m ?y "''\"asks\":[[\"''" ask ask_qty] f(3) q by (simp add: bbo_message_def)
  moreover have "parse_quoted_double_pair ?m ''\"bids\":[[\"'' = Some (fast_stod bid 0, fast_stod bid_qty 0)"
    using pair_here [of ?m ?z "''\"bids\":[[\"''" bid bid_qty] f(4) q by (simp add: bbo_message_def)
  moreover have "takeWhile (\<lambda>c. c \<noteq> CHR ''-'') inst = base" using assms(1,2) by (subst assms(1), subst takeWhile_append2) auto
  then have "usdt_instrument inst = Some (SymbolId base ''USDT'')" using assms(1) by (simp add: usdt_instrument_def Let_def)
  ultimately show ?thesis by (simp add: parse_bbo_fast_def)
qed

section \<open>Covers\<close>

text \<open>
  A purchase on this venue is sized in the quote currency. A cover asks for the value of its rounded quantity at
  the cached price with the fee on top, which is no less than the value itself; \<open>place_market_order\<close> sends the
  quantity of a purchase as it is.
\<close>

lemma okx_buy_body_is_quantity:
  assumes "snprintf_checked 512 (okx_order_body (symbol_to_okx symbol) False Buy quantity) \<noteq> None"
  shows "\<exists>k rq. k \<le> 3 \<and> okx_orders_on_wire (snd (okx_place_market_order j os symbol Buy quantity a)) = okx_orders_on_wire a @ replicate k rq \<and>
    rq_body rq = okx_order_body (symbol_to_okx symbol) False Buy quantity"
proof -
  obtain o' a1 where n: "okx_new_order os symbol Buy quantity a = (o', a1)" by fastforce
  note o' = okx_new_order_facts [OF n]
  obtain o2 a2 where r: "okx_rest_order j os False Buy quantity o' a1 = (o2, a2)" by fastforce
  have "ord_status o' \<noteq> Filled" using o' by simp
  from okx_rest_wire [OF r this] show ?thesis using n r o' by (auto simp: okx_place_market_order_def)
qed

end
