(* ===== verification/OkxRun.thy ===== *)
theory OkxRun
  imports OkxSafety VenueRun
begin

text \<open>
  The OKX adapter at concrete runs: a short that the venue takes over the REST interface, a login, a time
  stamp, and an answer without an order.
\<close>

definition demo_okx :: "trade_ws option \<Rightarrow> nat okx" where
  "demo_okx trade = \<lparr>ac_credentials = demo_credentials, ac_line = \<lparr>ln_world = 0, ln_written = []\<rparr>, ac_next_order_id = 1, ac_fills = Map.empty,
     ac_private_ready = False, ac_private_sent = [], ok_connected = True, ok_ws_up = True, ok_opened = [], ok_tickers = [], ok_orderbooks = [],
     ok_ticker_cache = Map.empty, ok_dispatched = [], ok_sent = [], ok_warned = False, ok_warnings = [],
     ok_lots = Map.empty, ok_margin_ready = True, ok_trade = trade\<rparr>"

definition demo_okx_documents :: "(string \<times> sample_json) list" where
  "demo_okx_documents =
    [(''/api/v5/trade/order'', JObj [(''code'', JText ''0''), (''data'', JList [JObj [(''sCode'', JText ''0''), (''ordId'', JText ''o1'')]])]),
     (''login'', JObj [(''event'', JText ''login''), (''code'', JText ''0'')])]"

lemma demo_okx_body_fits:
  "snprintf_checked 512 (okx_order_body ''XRP-USDT'' True Sell (Fin 2)) = Some (okx_order_body ''XRP-USDT'' True Sell (Fin 2))"
  by (simp add: snprintf_checked_def okx_order_body_def demo_quantity_length)

abbreviation okx_run :: "order \<times> nat okx" where
  "okx_run \<equiv> okx_open_short (sample_api demo_okx_documents) (demo_os [] []) xrp_usdt (Fin 2) (demo_okx None)"

lemma demo_okx_parsed:
  "fst (okx_parse_order (sample_api demo_okx_documents) os ''/api/v5/trade/order'' o') =
     o'\<lparr>ord_status := Filled, ord_exchange_order_id := os_hash os ''o1'', ord_id_str := ''o1''\<rparr>"
  by (simp add: okx_parse_order_def sample_api_def sample_field_def demo_okx_documents_def range_items_def item_text_def optional_text_def Let_def)

lemma demo_post_answer:
  "hr_success (fst (okx_post (demo_os [] []) p b a))" "hr_body (fst (okx_post (demo_os [] []) p b a)) = p"
proof -
  have "os_attempt (demo_os [] []) rq w = (Answered 200 (rq_target rq) [], Suc w)" for rq w by (simp add: demo_os_def)
  then show "hr_success (fst (okx_post (demo_os [] []) p b a))" "hr_body (fst (okx_post (demo_os [] []) p b a)) = p"
    by (simp_all add: okx_post_def http_post_def rest_post_def do_request_def case_prod_unfold attempts.simps [of "demo_os [] []"] answer_def)
qed


text \<open>The time of the documentation's example of a time stamp.\<close>

lemma gmtime_example:
  "gmtime 1607418537 = \<lparr>tm_year = 2020, tm_mon = 12, tm_mday = 8, tm_hour = 9, tm_min = 8, tm_sec = 57\<rparr>"
  by (simp add: gmtime_def year_of.simps year_days_def leap_year_def month_lengths_def)

lemma login_authenticates: "tw_authenticated (okx_trade_on_message (sample_api demo_okx_documents) ''login'' trade_ws_init)"
  by code_simp

end
