(* ===== verification/WsClient.thy ===== *)
theory WsClient
  imports RestClient
begin

text \<open>
  The WebSocket client under all adapters (\<^verbatim>\<open>src/network/websocket_client.cpp\<close>) as an event-driven state
  machine. An asynchronous operation of Boost.Asio that was started is an entry of \<open>wc_ops\<close>; its
  completion is a step with an error code. Every stream has a generation: an operation of an older one, or
  of one that was told to close, is doomed. The message queue of the client is a bounded first-in
  first-out queue. The writer's part, which races with the threads that send, is refined in
  \<open>WsWriter\<close>; here a completed write is one step.
\<close>

section \<open>State\<close>

datatype connection_state = WsDisconnected | WsConnecting | WsConnected | WsReconnecting | WsFailed

datatype ws_op = OpResolve | OpConnect nat | OpSslHandshake nat | OpHandshake nat | OpRead nat | OpWrite nat | OpClose nat |
  OpReconnect nat | OpPing nat

text \<open>The codes the handlers tell apart.\<close>

datatype error_code = NoError | OperationAborted | StreamClosed | OtherError string

datatype ws_callback = CbConnect bool string | CbDisconnect string | CbMessage string | CbError string

record ws_client =
  wc_name :: string
  wc_host :: string
  wc_port :: string
  wc_path :: string
  wc_state :: connection_state
  wc_should_reconnect :: bool
  wc_attempts :: int
  wc_stream :: nat
  wc_timer :: nat
  wc_ping :: nat
  wc_ops :: "ws_op list"
  wc_delay_ms :: int
  wc_calls :: "ws_callback list"

definition ws_init :: "string \<Rightarrow> ws_client" where
  "ws_init name = \<lparr>wc_name = name, wc_host = [], wc_port = [], wc_path = [], wc_state = WsDisconnected, wc_should_reconnect = True,
     wc_attempts = 0, wc_stream = 0, wc_timer = 0, wc_ping = 0, wc_ops = [], wc_delay_ms = 0, wc_calls = []\<rparr>"

definition MAX_RECONNECT_ATTEMPTS :: int where "MAX_RECONNECT_ATTEMPTS = 0"
definition RECONNECT_DELAY_MS :: int where "RECONNECT_DELAY_MS = 1000"
definition RECONNECT_MAX_DELAY_MS :: int where "RECONNECT_MAX_DELAY_MS = 30000"

definition start_op :: "ws_op \<Rightarrow> ws_client \<Rightarrow> ws_client" where
  "start_op p c = c\<lparr>wc_ops := wc_ops c @ [p]\<rparr>"

definition call_back :: "ws_callback \<Rightarrow> ws_client \<Rightarrow> ws_client" where
  "call_back e c = c\<lparr>wc_calls := wc_calls c @ [e]\<rparr>"

section \<open>Certificates and addresses\<close>

text \<open>The file with the certificates: the one the environment names, or the first candidate that loads.\<close>

definition cert_candidates :: "string list" where
  "cert_candidates = [''/etc/ssl/cert.pem'', ''/private/etc/ssl/cert.pem'', ''/etc/ssl/certs/ca-certificates.crt'', ''/etc/pki/tls/certs/ca-bundle.crt'']"

definition file_exists :: "(string \<Rightarrow> bool) \<Rightarrow> string option \<Rightarrow> bool" where
  "file_exists exists path = (case path of None \<Rightarrow> False | Some p \<Rightarrow> p \<noteq> [] \<and> exists p)"

definition configure_verify_paths :: "string option \<Rightarrow> (string \<Rightarrow> bool) \<Rightarrow> (string \<Rightarrow> bool) \<Rightarrow> string option" where
  "configure_verify_paths explicit_cert_file exists loads =
    (if file_exists exists explicit_cert_file \<and> loads (the explicit_cert_file) then explicit_cert_file
     else find (\<lambda>p. file_exists exists (Some p) \<and> loads p) cert_candidates)"

text \<open>The match of \<^verbatim>\<open>wss?://([^:/]+)(?::(\d+))?(/.*)?\<close>, ignoring case: host, port and path.\<close>

definition after_scheme :: "string \<Rightarrow> string option" where
  "after_scheme url =
    (if starts_with ''wss://'' (map tolower (take 6 url)) then Some (drop 6 url)
     else if starts_with ''ws://'' (map tolower (take 5 url)) then Some (drop 5 url) else None)"

definition line_end :: "char \<Rightarrow> bool" where
  "line_end ch \<longleftrightarrow> ch = CHR 0x0A \<or> ch = CHR 0x0D"

definition match_path :: "string \<Rightarrow> string option" where
  "match_path rest = (case rest of [] \<Rightarrow> Some ''/'' | ch # cs \<Rightarrow> if ch = CHR ''/'' \<and> list_all (\<lambda>x. \<not> line_end x) cs then Some rest else None)"

definition url_parts :: "string \<Rightarrow> (string \<times> string \<times> string) option" where
  "url_parts url =
    (case after_scheme url of None \<Rightarrow> None
     | Some s \<Rightarrow>
        let host = takeWhile (\<lambda>ch. ch \<noteq> CHR '':'' \<and> ch \<noteq> CHR ''/'') s; rest = drop (length host) s in
        if host = [] then None
        else (case rest of
           [] \<Rightarrow> Some (host, ''443'', ''/'')
         | ch # cs \<Rightarrow>
            if ch = CHR '':''
            then let port = takeWhile isdigit cs in
              if port = [] then None
              else map_option (\<lambda>path. (host, port, path)) (match_path (drop (length port) cs))
            else map_option (\<lambda>path. (host, ''443'', path)) (match_path rest)))"

definition parse_url :: "string \<Rightarrow> ws_client \<Rightarrow> bool \<times> ws_client" where
  "parse_url url c =
    (case url_parts url of None \<Rightarrow> (False, c)
     | Some (host, port, path) \<Rightarrow> (True, c\<lparr>wc_host := host, wc_port := port, wc_path := path\<rparr>))"

section \<open>Calls\<close>

definition do_resolve :: "ws_client \<Rightarrow> ws_client" where
  "do_resolve c = start_op OpResolve c"

definition ws_connect :: "string \<Rightarrow> ws_client \<Rightarrow> ws_client" where
  "ws_connect url c =
    (if wc_state c = WsConnected \<or> wc_state c = WsConnecting then c
     else case parse_url url c of (ok, c) \<Rightarrow>
       if \<not> ok then call_back (CbConnect False ''Invalid URL'') c
       else do_resolve (c\<lparr>wc_state := WsConnecting, wc_attempts := 0, wc_should_reconnect := True\<rparr>))"

text \<open>Arming a timer cancels its earlier wait.\<close>

definition schedule_reconnect :: "ws_client \<Rightarrow> ws_client" where
  "schedule_reconnect c =
    (if \<not> wc_should_reconnect c then c\<lparr>wc_state := WsFailed\<rparr>
     else let attempts = wc_attempts c + 1; c = c\<lparr>wc_attempts := attempts\<rparr> in
       if 0 < MAX_RECONNECT_ATTEMPTS \<and> MAX_RECONNECT_ATTEMPTS < attempts
       then call_back (CbError ''Max reconnect attempts exceeded'') (c\<lparr>wc_state := WsFailed\<rparr>)
       else let c = c\<lparr>wc_delay_ms := min (RECONNECT_DELAY_MS * attempts) RECONNECT_MAX_DELAY_MS, wc_timer := wc_timer c + 1\<rparr>
         in start_op (OpReconnect (wc_timer c)) c)"

definition reconnect :: "ws_client \<Rightarrow> ws_client" where
  "reconnect c = (if \<not> wc_should_reconnect c then c else schedule_reconnect (c\<lparr>wc_state := WsReconnecting\<rparr>))"

definition do_close :: "ws_client \<Rightarrow> ws_client" where
  "do_close c = start_op (OpClose (wc_stream c)) (c\<lparr>wc_stream := wc_stream c + 1\<rparr>)"

text \<open>\<open>is_open\<close> is what the stream says; without a stream it is false.\<close>

definition ws_disconnect :: "bool \<Rightarrow> ws_client \<Rightarrow> ws_client" where
  "ws_disconnect is_open c =
    (let c = c\<lparr>wc_should_reconnect := False, wc_timer := wc_timer c + 1, wc_ping := wc_ping c + 1\<rparr> in
     if wc_state c = WsDisconnected then c
     else let c = c\<lparr>wc_state := WsDisconnected\<rparr> in if is_open then do_close c else c)"

definition disable_reconnect :: "ws_client \<Rightarrow> ws_client" where
  "disable_reconnect c = c\<lparr>wc_should_reconnect := False\<rparr>"

definition ws_is_connected :: "ws_client \<Rightarrow> bool" where
  "ws_is_connected c \<longleftrightarrow> wc_state c = WsConnected"

section \<open>Completions\<close>

definition notify_error :: "string \<Rightarrow> ws_client \<Rightarrow> ws_client" where
  "notify_error e c = call_back (CbError e) c"

definition error_message :: "error_code \<Rightarrow> string" where
  "error_message ec = (case ec of NoError \<Rightarrow> ''Success'' | OperationAborted \<Rightarrow> ''Operation canceled''
     | StreamClosed \<Rightarrow> ''The WebSocket stream was gracefully closed at both endpoints'' | OtherError s \<Rightarrow> s)"

definition handle_error :: "string \<Rightarrow> error_code \<Rightarrow> ws_client \<Rightarrow> ws_client" where
  "handle_error operation ec c =
    (if ec = OperationAborted then c
     else let c = notify_error (''['' @ wc_name c @ ''] '' @ operation @ '' error: '' @ error_message ec) c
       in if operation \<noteq> ''write'' then reconnect c else c)"

definition on_resolve :: "error_code \<Rightarrow> ws_client \<Rightarrow> ws_client" where
  "on_resolve ec c =
    (if ec \<noteq> NoError then handle_error ''resolve'' ec c
     else let c = c\<lparr>wc_stream := wc_stream c + 1\<rparr> in start_op (OpConnect (wc_stream c)) c)"

text \<open>\<open>sni\<close> is the outcome of setting the host name on the TLS stream.\<close>

definition on_connect :: "error_code \<Rightarrow> error_code \<Rightarrow> ws_client \<Rightarrow> ws_client" where
  "on_connect sni ec c =
    (if ec \<noteq> NoError then handle_error ''connect'' ec c
     else if sni \<noteq> NoError then handle_error ''ssl_sni'' sni c
     else start_op (OpSslHandshake (wc_stream c)) c)"

text \<open>The headers of the upgrade request.\<close>

definition handshake_fields :: "string \<Rightarrow> (string \<times> string) list \<Rightarrow> (string \<times> string) list \<Rightarrow> (string \<times> string) list" where
  "handshake_fields host from_callback fixed =
    fold (\<lambda>(k, v). set_field k v) (from_callback @ fixed) [(''User-Agent'', ''KIMP-Bot/1.0''), (''Host'', host)]"

definition on_ssl_handshake :: "error_code \<Rightarrow> ws_client \<Rightarrow> ws_client" where
  "on_ssl_handshake ec c =
    (if ec \<noteq> NoError then handle_error ''ssl_handshake'' ec c else start_op (OpHandshake (wc_stream c)) c)"

definition do_read :: "ws_client \<Rightarrow> ws_client" where
  "do_read c = start_op (OpRead (wc_stream c)) c"

definition schedule_ping :: "ws_client \<Rightarrow> ws_client" where
  "schedule_ping c = (let c = c\<lparr>wc_ping := wc_ping c + 1\<rparr> in start_op (OpPing (wc_ping c)) c)"

definition on_handshake :: "error_code \<Rightarrow> ws_client \<Rightarrow> ws_client" where
  "on_handshake ec c =
    (if ec \<noteq> NoError then handle_error ''handshake'' ec c
     else schedule_ping (do_read (call_back (CbConnect True []) (c\<lparr>wc_state := WsConnected, wc_attempts := 0\<rparr>))))"

text \<open>A stream the server closed is reported as a disconnection; any other failure to read is an error only.\<close>

definition on_read :: "error_code \<Rightarrow> string \<Rightarrow> ws_client \<Rightarrow> ws_client" where
  "on_read ec message c =
    (if ec = NoError then do_read (call_back (CbMessage message) c)
     else if ec = StreamClosed then reconnect (call_back (CbDisconnect ''Server closed connection'') c)
     else handle_error ''read'' ec c)"

text \<open>A write that failed; after a good one the writer goes on.\<close>

definition on_write_failed :: "error_code \<Rightarrow> ws_client \<Rightarrow> ws_client" where
  "on_write_failed ec c = reconnect (handle_error ''write'' ec c)"

definition on_close :: "error_code \<Rightarrow> ws_client \<Rightarrow> ws_client" where
  "on_close ec c = call_back (CbDisconnect ''Connection closed'') c"

definition on_reconnect_timer :: "error_code \<Rightarrow> ws_client \<Rightarrow> ws_client" where
  "on_reconnect_timer ec c = (if ec \<noteq> NoError then c else do_resolve (c\<lparr>wc_state := WsConnecting\<rparr>))"

definition on_ping_timer :: "error_code \<Rightarrow> ws_client \<Rightarrow> ws_client" where
  "on_ping_timer ec c = (if ec \<noteq> NoError \<or> wc_state c \<noteq> WsConnected then c else schedule_ping c)"

text \<open>The completion of an operation: \<open>aux\<close> is the outcome of the host name, \<open>message\<close> what was read.\<close>

definition complete :: "ws_op \<Rightarrow> error_code \<Rightarrow> error_code \<Rightarrow> string \<Rightarrow> ws_client \<Rightarrow> ws_client" where
  "complete p ec aux message c =
    (let c = c\<lparr>wc_ops := remove1 p (wc_ops c)\<rparr> in
     case p of OpResolve \<Rightarrow> on_resolve ec c | OpConnect _ \<Rightarrow> on_connect aux ec c | OpSslHandshake _ \<Rightarrow> on_ssl_handshake ec c
     | OpHandshake _ \<Rightarrow> on_handshake ec c | OpRead _ \<Rightarrow> on_read ec message c
     | OpWrite _ \<Rightarrow> if ec = NoError then c else on_write_failed ec c
     | OpClose _ \<Rightarrow> on_close ec c | OpReconnect _ \<Rightarrow> on_reconnect_timer ec c | OpPing _ \<Rightarrow> on_ping_timer ec c)"

section \<open>Runs\<close>

fun doomed :: "ws_client \<Rightarrow> ws_op \<Rightarrow> bool" where
  "doomed c OpResolve \<longleftrightarrow> False"
| "doomed c (OpConnect g) \<longleftrightarrow> g \<noteq> wc_stream c"
| "doomed c (OpSslHandshake g) \<longleftrightarrow> g \<noteq> wc_stream c"
| "doomed c (OpHandshake g) \<longleftrightarrow> g \<noteq> wc_stream c"
| "doomed c (OpRead g) \<longleftrightarrow> g \<noteq> wc_stream c"
| "doomed c (OpWrite g) \<longleftrightarrow> g \<noteq> wc_stream c"
| "doomed c (OpClose g) \<longleftrightarrow> g \<noteq> wc_stream c"
| "doomed c (OpReconnect t) \<longleftrightarrow> t \<noteq> wc_timer c"
| "doomed c (OpPing t) \<longleftrightarrow> t \<noteq> wc_ping c"

fun is_timer :: "ws_op \<Rightarrow> bool" where
  "is_timer (OpReconnect _) = True"
| "is_timer (OpPing _) = True"
| "is_timer _ = False"

text \<open>
  What the library promises of completions: only an operation that was cancelled, by its timer being
  armed again or its stream being closed or replaced, is reported as aborted, and a timer has no other
  error. A doomed operation may also complete as if nothing had happened, when its handler
  was queued already.
\<close>

definition may_complete :: "ws_client \<Rightarrow> ws_op \<Rightarrow> error_code \<Rightarrow> bool" where
  "may_complete c p ec \<longleftrightarrow> p \<in> set (wc_ops c) \<and> (ec = OperationAborted \<longrightarrow> doomed c p) \<and> (is_timer p \<longrightarrow> ec = NoError \<or> ec = OperationAborted)"

inductive ws_step :: "ws_client \<Rightarrow> ws_client \<Rightarrow> bool" where
  connect: "ws_step c (ws_connect url c)"
| disconnect: "ws_step c (ws_disconnect is_open c)"
| stay_down: "ws_step c (disable_reconnect c)"
| again: "ws_step c (reconnect c)"
| writes: "ws_step c (start_op (OpWrite (wc_stream c)) c)"
| completes: "may_complete c p ec \<Longrightarrow> aux \<noteq> OperationAborted \<Longrightarrow> ws_step c (complete p ec aux message c)"

inductive_cases ws_stepE: "ws_step c c'"

inductive ws_reach :: "ws_client \<Rightarrow> bool" where
  start: "ws_reach (ws_init name)"
| step: "ws_reach c \<Longrightarrow> ws_step c c' \<Longrightarrow> ws_reach c'"

section \<open>The client keeps trying\<close>

text \<open>The operations that lead to a connection or watch over one.\<close>

fun leads :: "ws_op \<Rightarrow> bool" where
  "leads (OpWrite _) = False"
| "leads (OpClose _) = False"
| "leads (OpPing _) = False"
| "leads _ = True"

definition lively :: "ws_client \<Rightarrow> bool" where
  "lively c \<longleftrightarrow> (\<exists>p \<in> set (wc_ops c). leads p \<and> \<not> doomed c p)"

definition wants_connection :: "ws_client \<Rightarrow> bool" where
  "wants_connection c \<longleftrightarrow> wc_should_reconnect c \<and> wc_state c \<noteq> WsDisconnected \<and> wc_state c \<noteq> WsFailed"

definition backoff_ok :: "ws_client \<Rightarrow> bool" where
  "backoff_ok c \<longleftrightarrow> 0 \<le> wc_attempts c \<and> (wc_delay_ms c = 0 \<or> 1000 \<le> wc_delay_ms c \<and> wc_delay_ms c \<le> 30000)"

definition ws_invar :: "ws_client \<Rightarrow> bool" where
  "ws_invar c \<longleftrightarrow> (wants_connection c \<longrightarrow> lively c) \<and> backoff_ok c"

named_theorems ws_defs

lemmas ws_handlers [ws_defs] = do_resolve_def start_op_def call_back_def do_read_def schedule_ping_def

lemma doomed_upd [simp]:
  "doomed (c\<lparr>wc_ops := ops\<rparr>) p = doomed c p" "doomed (c\<lparr>wc_calls := cs\<rparr>) p = doomed c p"
  "leads p \<Longrightarrow> doomed (c\<lparr>wc_ping := n\<rparr>) p = doomed c p"
  by (cases p; simp)+

lemma backoff_next:
  "backoff_ok c \<Longrightarrow> backoff_ok (c\<lparr>wc_attempts := wc_attempts c + 1, wc_delay_ms := min (RECONNECT_DELAY_MS * (wc_attempts c + 1)) RECONNECT_MAX_DELAY_MS\<rparr>)"
  by (auto simp: backoff_ok_def RECONNECT_DELAY_MS_def RECONNECT_MAX_DELAY_MS_def)

lemma backoff_fields:
  "wc_attempts c' = wc_attempts c \<Longrightarrow> wc_delay_ms c' = wc_delay_ms c \<Longrightarrow> backoff_ok c' = backoff_ok c"
  by (simp add: backoff_ok_def)

lemma reconnect_invar: "backoff_ok c \<Longrightarrow> (wants_connection c \<Longrightarrow> wc_should_reconnect c) \<Longrightarrow> ws_invar (reconnect c)"
  using backoff_next [of c]
  by (auto simp: reconnect_def schedule_reconnect_def Let_def MAX_RECONNECT_ATTEMPTS_def start_op_def ws_invar_def wants_connection_def lively_def backoff_ok_def)

text \<open>An error either was the fate of a doomed operation or starts the timer.\<close>

lemma handle_error_invar:
  assumes "backoff_ok c" "ec = OperationAborted \<Longrightarrow> ws_invar c" "operation \<noteq> ''write''"
  shows "ws_invar (handle_error operation ec c)"
  using assms reconnect_invar [of "notify_error e c" for e]
  by (auto simp: handle_error_def Let_def notify_error_def call_back_def backoff_ok_def wants_connection_def)

text \<open>Without a doomed operation the client is as lively as before.\<close>

lemma doomed_removed:
  assumes "ws_invar c" "\<not> leads p \<or> doomed c p"
  shows "ws_invar (c\<lparr>wc_ops := remove1 p (wc_ops c)\<rparr>)"
proof -
  show ?thesis
  proof (cases "wants_connection c")
    case True
    then obtain q where "q \<in> set (wc_ops c)" "leads q" "\<not> doomed c q" using assms(1) by (auto simp: ws_invar_def lively_def)
    moreover from this have "q \<noteq> p" using assms(2) by auto
    ultimately show ?thesis using assms(1) by (auto simp: ws_invar_def lively_def backoff_ok_def in_set_remove1)
  qed (use assms(1) in \<open>auto simp: ws_invar_def wants_connection_def backoff_ok_def\<close>)
qed

lemma new_op_invar:
  assumes "backoff_ok c" "leads p" "\<not> doomed c p"
  shows "ws_invar (start_op p c)"
proof -
  have "doomed (start_op p c) p = doomed c p" by (cases p) (simp_all add: start_op_def)
  then show ?thesis using assms by (simp add: ws_invar_def lively_def start_op_def backoff_ok_def)
qed

lemma complete_invar:
  assumes c: "ws_invar c" and m: "may_complete c p ec" and "aux \<noteq> OperationAborted"
  shows "ws_invar (complete p ec aux message c)"
proof -
  let ?c = "c\<lparr>wc_ops := remove1 p (wc_ops c)\<rparr>"
  have b: "backoff_ok ?c" using c by (simp add: ws_invar_def backoff_ok_def)
  have a: "ec = OperationAborted \<Longrightarrow> ws_invar ?c" using m c doomed_removed by (auto simp: may_complete_def)
  have n: "\<not> leads p \<Longrightarrow> ws_invar ?c" using c doomed_removed by blast
  have r: "ws_invar (reconnect c')" if "backoff_ok c'" for c'
    using reconnect_invar [OF that] by (simp add: wants_connection_def)
  note h = handle_error_invar [OF b a]
  show ?thesis
  proof (cases p)
    case OpResolve
    then show ?thesis using h b by (auto simp: complete_def on_resolve_def Let_def backoff_ok_def intro!: new_op_invar)
  next
    case (OpConnect g)
    then show ?thesis
      using h b assms(3) handle_error_invar [OF b, of aux] by (auto simp: complete_def on_connect_def Let_def intro!: new_op_invar)
  next
    case (OpSslHandshake g)
    then show ?thesis using h b by (auto simp: complete_def on_ssl_handshake_def Let_def intro!: new_op_invar)
  next
    case (OpHandshake g)
    have "ws_invar (schedule_ping (do_read (call_back (CbConnect True []) (?c\<lparr>wc_state := WsConnected, wc_attempts := 0\<rparr>))))"
      using b by (auto simp: ws_defs Let_def ws_invar_def lively_def backoff_ok_def)
    then show ?thesis using OpHandshake h by (simp add: complete_def on_handshake_def Let_def)
  next
    case (OpRead g)
    then show ?thesis
      using h b r [of "call_back (CbDisconnect ''Server closed connection'') ?c"]
      by (auto simp: complete_def on_read_def do_read_def call_back_def Let_def backoff_ok_def intro!: new_op_invar)
  next
    case (OpWrite g)
    have "backoff_ok (handle_error ''write'' ec ?c)"
      using b by (simp add: handle_error_def notify_error_def call_back_def Let_def backoff_ok_def)
    then show ?thesis using OpWrite n r by (simp add: complete_def on_write_failed_def Let_def)
  next
    case (OpClose g)
    then show ?thesis using n by (auto simp: complete_def on_close_def call_back_def Let_def ws_invar_def lively_def wants_connection_def backoff_ok_def)
  next
    case (OpReconnect t)
    then have "ec \<noteq> NoError \<Longrightarrow> ws_invar ?c" using m a by (auto simp: may_complete_def)
    then show ?thesis
      using OpReconnect b by (auto simp: complete_def on_reconnect_timer_def do_resolve_def Let_def backoff_ok_def intro!: new_op_invar)
  next
    case (OpPing t)
    have "ws_invar (schedule_ping ?c)" using n [unfolded OpPing] OpPing
      by (auto simp: schedule_ping_def start_op_def Let_def ws_invar_def lively_def wants_connection_def backoff_ok_def)
    then show ?thesis using n OpPing by (simp add: complete_def on_ping_timer_def Let_def)
  qed
qed

lemma ws_step_invar: "ws_invar c \<Longrightarrow> ws_step c c' \<Longrightarrow> ws_invar c'"
proof (erule ws_stepE)
  fix url
  assume c: "ws_invar c" and e: "c' = ws_connect url c"
  show "ws_invar c'"
  proof (cases "wc_state c = WsConnected \<or> wc_state c = WsConnecting \<or> url_parts url = None")
    case True
    then show ?thesis
      using c by (auto simp: e ws_connect_def parse_url_def call_back_def ws_invar_def lively_def wants_connection_def backoff_ok_def)
  next
    case False
    then show ?thesis
      by (auto simp: e ws_connect_def parse_url_def do_resolve_def case_prod_unfold intro!: new_op_invar)
        (use c in \<open>simp_all add: ws_invar_def backoff_ok_def\<close>)
  qed
next
  fix is_open
  assume "ws_invar c" "c' = ws_disconnect is_open c"
  then show "ws_invar c'"
    by (simp add: ws_disconnect_def do_close_def start_op_def Let_def ws_invar_def wants_connection_def backoff_ok_def)
next
  assume "ws_invar c" "c' = disable_reconnect c"
  then show "ws_invar c'" by (simp add: disable_reconnect_def ws_invar_def wants_connection_def backoff_ok_def)
next
  assume "ws_invar c" "c' = reconnect c"
  then show "ws_invar c'" using reconnect_invar [of c] by (simp add: ws_invar_def wants_connection_def)
next
  assume "ws_invar c" "c' = start_op (OpWrite (wc_stream c)) c"
  then show "ws_invar c'" by (auto simp: start_op_def ws_invar_def wants_connection_def lively_def backoff_ok_def)
qed (simp add: complete_invar)

lemma ws_reach_invar: "ws_reach c \<Longrightarrow> ws_invar c"
proof (induction rule: ws_reach.induct)
  case (step c c')
  then show ?case using ws_step_invar by blast
qed (simp add: ws_init_def ws_invar_def wants_connection_def backoff_ok_def)



section \<open>Disconnecting\<close>

text \<open>A client that is down: nothing that is outstanding leads to a connection.\<close>

fun brings_up :: "ws_op \<Rightarrow> bool" where
  "brings_up OpResolve = True"
| "brings_up (OpConnect _) = True"
| "brings_up (OpSslHandshake _) = True"
| "brings_up (OpHandshake _) = True"
| "brings_up (OpReconnect _) = True"
| "brings_up _ = False"

definition ws_down :: "ws_client \<Rightarrow> bool" where
  "ws_down c \<longleftrightarrow> \<not> wc_should_reconnect c \<and> wc_state c = WsDisconnected \<and> (\<forall>p \<in> set (wc_ops c). \<not> brings_up p)"

lemma reconnect_stays_down: "\<not> wc_should_reconnect c \<Longrightarrow> reconnect c = c"
  by (simp add: reconnect_def)

lemma handle_error_down: "ws_down c \<Longrightarrow> ws_down (handle_error operation ec c)"
  by (simp add: handle_error_def notify_error_def call_back_def Let_def reconnect_stays_down ws_down_def)

lemma down_completes:
  assumes "ws_down c" "p \<in> set (wc_ops c)"
  shows "ws_down (complete p ec aux message c)"
proof -
  let ?c = "c\<lparr>wc_ops := remove1 p (wc_ops c)\<rparr>"
  have d: "ws_down ?c" using assms(1) by (auto simp: ws_down_def dest: notin_set_remove1)
  have "\<not> brings_up p" using assms by (auto simp: ws_down_def)
  then show ?thesis
    using d handle_error_down [OF d]
    by (cases p) (auto simp: complete_def on_read_def on_write_failed_def on_close_def on_ping_timer_def do_read_def start_op_def call_back_def
        reconnect_stays_down Let_def ws_down_def)
qed

text \<open>
  After a disconnection with no attempt under way the client stays down, whatever completes later,
  until it is told to connect again.
\<close>

lemma disconnect_final:
  assumes "ws_down c" "ws_step c c'" "\<forall>url. c' \<noteq> ws_connect url c"
  shows "ws_down c'"
  using assms(2)
proof (rule ws_stepE)
  fix p ec aux message
  assume "c' = complete p ec aux message c" "may_complete c p ec"
  then show ?thesis using down_completes [OF assms(1)] by (simp add: may_complete_def)
qed (use assms(1,3) in \<open>auto simp: ws_down_def ws_disconnect_def do_close_def start_op_def Let_def disable_reconnect_def reconnect_def\<close>)

text \<open>An attempt that is under way is not stopped: its handshake connects a client that was told to disconnect.\<close>

lemma disconnect_not_final:
  assumes "OpHandshake (wc_stream c) \<in> set (wc_ops c)"
  shows "may_complete (ws_disconnect False c) (OpHandshake (wc_stream c)) NoError \<and>
    wc_state (complete (OpHandshake (wc_stream c)) NoError aux message (ws_disconnect False c)) = WsConnected \<and>
    \<not> wc_should_reconnect (complete (OpHandshake (wc_stream c)) NoError aux message (ws_disconnect False c))"
  using assms by (auto simp: may_complete_def ws_disconnect_def complete_def on_handshake_def Let_def ws_defs)

text \<open>A connection that breaks while it is read is not reported as a disconnection.\<close>

lemma broken_read_silent:
  "wc_calls (on_read (OtherError e) message c) = wc_calls c @ [CbError (''['' @ wc_name c @ ''] read error: '' @ e)]"
  by (auto simp: on_read_def handle_error_def notify_error_def call_back_def error_message_def reconnect_def schedule_reconnect_def
      MAX_RECONNECT_ATTEMPTS_def start_op_def Let_def)

section \<open>Addresses\<close>

text \<open>An address is taken apart into what it was put together from.\<close>

lemma url_parts_full:
  assumes "host \<noteq> []" "list_all (\<lambda>ch. ch \<noteq> CHR '':'' \<and> ch \<noteq> CHR ''/'') host" "port \<noteq> []" "list_all isdigit port"
    and "list_all (\<lambda>x. \<not> line_end x) path"
  shows "url_parts (''wss://'' @ host @ '':'' @ port @ ''/'' @ path) = Some (host, port, CHR ''/'' # path)"
proof -
  have h: "takeWhile (\<lambda>ch. ch \<noteq> CHR '':'' \<and> ch \<noteq> CHR ''/'') (host @ CHR '':'' # rest) = host" for rest
    using assms(2) by (induction host) auto
  have "\<not> isdigit (CHR ''/'')" by (simp add: isdigit_def)
  then have p: "takeWhile isdigit (port @ CHR ''/'' # path) = port" using assms(4) by (induction port) auto
  have "after_scheme (''wss://'' @ s) = Some s" for s
    by (simp add: after_scheme_def starts_with_def tolower_def)
  then show ?thesis
    using assms(1,3,5) h [of "port @ ''/'' @ path"] p by (simp add: url_parts_def match_path_def Let_def)
qed

end
