(* ===== verification/WsWriter.thy ===== *)
theory WsWriter
  imports WsClient
begin

text \<open>
  How messages leave the WebSocket client (\<^verbatim>\<open>send\<close>, \<^verbatim>\<open>do_write\<close> and \<^verbatim>\<open>on_write\<close> of
  \<^verbatim>\<open>src/network/websocket_client.cpp\<close>): any number of threads push into a queue of 256 messages, and whoever
  turns \<^verbatim>\<open>is_writing_\<close> on becomes the writer, which runs on the strand of the client and hands one
  message at a time to the socket. Each access to the flag or the queue is a step of its own.
\<close>

section \<open>State\<close>

text \<open>Where a sending thread and the handler on the strand are.\<close>

datatype sender = SendIdle | SendPushed

datatype writer = NotRunning | AtPop | QueueSeenEmpty | FlagCleared | QueueSeenFull

text \<open>
  \<open>ww_posted\<close> are the calls of \<^verbatim>\<open>do_write\<close> that wait for the strand, \<open>ww_outstanding\<close> says that a write is on its way.
  \<open>ww_accepted\<close> and \<open>ww_written\<close> record what was queued and what was handed to the socket;
  \<open>ww_failed\<close> that a write failed and nobody has taken over since.
\<close>

record ws_writer =
  ww_queue :: "string list"
  ww_is_writing :: bool
  ww_current :: string
  ww_posted :: nat
  ww_outstanding :: bool
  ww_pc :: writer
  ww_senders :: "nat \<Rightarrow> sender"
  ww_accepted :: "string list"
  ww_written :: "string list"
  ww_failed :: bool

definition WRITE_QUEUE :: nat where "WRITE_QUEUE = 256"

definition writer_init :: ws_writer where
  "writer_init = \<lparr>ww_queue = [], ww_is_writing = False, ww_current = [], ww_posted = 0, ww_outstanding = False, ww_pc = NotRunning,
     ww_senders = (\<lambda>_. SendIdle), ww_accepted = [], ww_written = [], ww_failed = False\<rparr>"

section \<open>Sending\<close>

text \<open>The first part of \<^verbatim>\<open>send\<close>: not connected and a full queue drop the message.\<close>

definition send_push :: "bool \<Rightarrow> nat \<Rightarrow> string \<Rightarrow> ws_writer \<Rightarrow> ws_writer" where
  "send_push up t message w =
    (if \<not> up then w
     else if WRITE_QUEUE \<le> length (ww_queue w) then w
     else w\<lparr>ww_queue := ww_queue w @ [message], ww_accepted := ww_accepted w @ [message], ww_senders := (ww_senders w)(t := SendPushed)\<rparr>)"

text \<open>The exchange of the flag.\<close>

definition send_exchange :: "nat \<Rightarrow> ws_writer \<Rightarrow> ws_writer" where
  "send_exchange t w =
    (let w = w\<lparr>ww_senders := (ww_senders w)(t := SendIdle)\<rparr> in
     if ww_is_writing w then w
     else w\<lparr>ww_is_writing := True, ww_posted := ww_posted w + 1, ww_failed := False\<rparr>)"

section \<open>Writing\<close>

definition run_posted :: "ws_writer \<Rightarrow> ws_writer" where
  "run_posted w = w\<lparr>ww_posted := ww_posted w - 1, ww_pc := AtPop\<rparr>"

text \<open>One access of the loop in \<^verbatim>\<open>do_write\<close>.\<close>

definition do_write_access :: "ws_writer \<Rightarrow> ws_writer" where
  "do_write_access w =
    (case ww_pc w of
       NotRunning \<Rightarrow> w
     | AtPop \<Rightarrow>
        (case ww_queue w of [] \<Rightarrow> w\<lparr>ww_pc := QueueSeenEmpty\<rparr>
         | m # q \<Rightarrow> w\<lparr>ww_queue := q, ww_current := m, ww_written := ww_written w @ [m], ww_outstanding := True, ww_pc := NotRunning\<rparr>)
     | QueueSeenEmpty \<Rightarrow> w\<lparr>ww_is_writing := False, ww_pc := FlagCleared\<rparr>
     | FlagCleared \<Rightarrow> w\<lparr>ww_pc := (if ww_queue w = [] then NotRunning else QueueSeenFull)\<rparr>
     | QueueSeenFull \<Rightarrow>
        if ww_is_writing w then w\<lparr>ww_pc := NotRunning\<rparr> else w\<lparr>ww_is_writing := True, ww_pc := AtPop, ww_failed := False\<rparr>)"

text \<open>The completion of a write: the next one follows, or the client gives up until the next \<^verbatim>\<open>send\<close>.\<close>

definition on_write :: "error_code \<Rightarrow> ws_writer \<Rightarrow> ws_writer" where
  "on_write ec w =
    (let w = w\<lparr>ww_current := [], ww_outstanding := False\<rparr> in
     if ec \<noteq> NoError then w\<lparr>ww_is_writing := False, ww_failed := True\<rparr> else w\<lparr>ww_pc := AtPop\<rparr>)"

inductive writer_step :: "ws_writer \<Rightarrow> ws_writer \<Rightarrow> bool" where
  push: "ww_senders w t = SendIdle \<Longrightarrow> writer_step w (send_push up t m w)"
| exchange: "ww_senders w t = SendPushed \<Longrightarrow> writer_step w (send_exchange t w)"
| run: "0 < ww_posted w \<Longrightarrow> ww_pc w = NotRunning \<Longrightarrow> writer_step w (run_posted w)"
| access: "ww_pc w \<noteq> NotRunning \<Longrightarrow> writer_step w (do_write_access w)"
| written: "ww_outstanding w \<Longrightarrow> ww_pc w = NotRunning \<Longrightarrow> writer_step w (on_write ec w)"

inductive writer_reach :: "ws_writer \<Rightarrow> bool" where
  start: "writer_reach writer_init"
| step: "writer_reach w \<Longrightarrow> writer_step w w' \<Longrightarrow> writer_reach w'"

section \<open>One writer, and no message forgotten\<close>

text \<open>The parties that act as the writer.\<close>

definition owners :: "ws_writer \<Rightarrow> nat" where
  "owners w = ww_posted w + (if ww_outstanding w then 1 else 0) + (if ww_pc w = AtPop \<or> ww_pc w = QueueSeenEmpty then 1 else 0)"

text \<open>Somebody is about to look at a message that nobody writes.\<close>

definition attended :: "ws_writer \<Rightarrow> bool" where
  "attended w \<longleftrightarrow> (\<exists>t. ww_senders w t = SendPushed) \<or> ww_pc w = FlagCleared \<or> ww_pc w = QueueSeenFull \<or> ww_failed w"

definition writer_invar :: "ws_writer \<Rightarrow> bool" where
  "writer_invar w \<longleftrightarrow> owners w = (if ww_is_writing w then 1 else 0) \<and> ww_accepted w = ww_written w @ ww_queue w \<and>
     length (ww_queue w) \<le> WRITE_QUEUE \<and> (ww_queue w \<noteq> [] \<and> \<not> ww_is_writing w \<longrightarrow> attended w)"

lemma send_push_invar: "writer_invar w \<Longrightarrow> writer_invar (send_push up t m w)"
  by (auto simp: writer_invar_def send_push_def owners_def attended_def split: if_splits)

lemma send_exchange_invar: "writer_invar w \<Longrightarrow> writer_invar (send_exchange t w)"
  by (auto simp: writer_invar_def send_exchange_def owners_def attended_def Let_def split: if_splits)

lemma run_posted_invar: "writer_invar w \<Longrightarrow> 0 < ww_posted w \<Longrightarrow> ww_pc w = NotRunning \<Longrightarrow> writer_invar (run_posted w)"
  by (auto simp: writer_invar_def run_posted_def owners_def attended_def split: if_splits)

lemma do_write_access_invar: "writer_invar w \<Longrightarrow> writer_invar (do_write_access w)"
  by (cases "ww_pc w"; cases "ww_queue w") (auto simp: writer_invar_def do_write_access_def owners_def attended_def split: if_splits)

lemma on_write_invar: "writer_invar w \<Longrightarrow> ww_outstanding w \<Longrightarrow> ww_pc w = NotRunning \<Longrightarrow> writer_invar (on_write ec w)"
  by (auto simp: writer_invar_def on_write_def owners_def attended_def Let_def split: if_splits)

lemma writer_reach_invar: "writer_reach w \<Longrightarrow> writer_invar w"
proof (induction rule: writer_reach.induct)
  case (step w w')
  from step(2) show ?case
    by cases (simp_all add: step.IH send_push_invar send_exchange_invar run_posted_invar do_write_access_invar on_write_invar)
qed (simp add: writer_init_def writer_invar_def owners_def)

text \<open>C12. In every interleaving of senders and writer at most one write is on its way, messages leave in the
  order in which they were queued, none twice and none skipped, and when all threads have come to
  rest nothing is left in the queue, unless the last write failed.\<close>

theorem ws_writer_protocol:
  assumes "writer_reach w"
  shows "ww_posted w + (if ww_outstanding w then 1 else 0) \<le> 1 \<and> (ww_outstanding w \<longrightarrow> ww_is_writing w) \<and>
    ww_accepted w = ww_written w @ ww_queue w \<and> length (ww_queue w) \<le> 256 \<and>
    ((\<forall>t. ww_senders w t = SendIdle) \<and> ww_pc w = NotRunning \<and> ww_posted w = 0 \<and> \<not> ww_outstanding w \<and> \<not> ww_failed w \<longrightarrow>
       ww_written w = ww_accepted w)"
  using writer_reach_invar [OF assms] by (auto simp: writer_invar_def owners_def attended_def WRITE_QUEUE_def split: if_splits)

text \<open>A thread pushes a message, takes the flag, and the message goes out.\<close>

theorem ws_writer_protocol_witness:
  "ww_written (on_write NoError (do_write_access (run_posted (send_exchange 0 (send_push True 0 ''ping'' writer_init))))) = [''ping'']"
proof -
  let ?a = "send_push True 0 ''ping'' writer_init"
  let ?b = "send_exchange 0 ?a"
  let ?d = "do_write_access (run_posted ?b)"
  let ?e = "on_write NoError ?d"
  have a: "?a = writer_init\<lparr>ww_queue := [''ping''], ww_accepted := [''ping''], ww_senders := (\<lambda>_. SendIdle)(0 := SendPushed)\<rparr>"
    by (simp add: send_push_def writer_init_def WRITE_QUEUE_def)
  have b: "?b = writer_init\<lparr>ww_queue := [''ping''], ww_accepted := [''ping''], ww_is_writing := True, ww_posted := 1\<rparr>"
    unfolding a by (simp add: send_exchange_def writer_init_def Let_def fun_upd_idem)
  have d: "?d = writer_init\<lparr>ww_accepted := [''ping''], ww_is_writing := True, ww_current := ''ping'', ww_written := [''ping''], ww_outstanding := True\<rparr>"
    unfolding b by (simp add: do_write_access_def run_posted_def writer_init_def)
  have e: "?e = writer_init\<lparr>ww_accepted := [''ping''], ww_is_writing := True, ww_written := [''ping''], ww_pc := AtPop\<rparr>"
    unfolding d by (simp add: on_write_def writer_init_def Let_def)
  let ?f = "do_write_access ?e" and ?w = "do_write_access (do_write_access (do_write_access ?e))"
  have f: "?f = writer_init\<lparr>ww_accepted := [''ping''], ww_is_writing := True, ww_written := [''ping''], ww_pc := QueueSeenEmpty\<rparr>"
    unfolding e by (simp add: do_write_access_def writer_init_def)
  have g: "do_write_access ?f = writer_init\<lparr>ww_accepted := [''ping''], ww_written := [''ping''], ww_pc := FlagCleared\<rparr>"
    unfolding f by (simp add: do_write_access_def writer_init_def)
  have w: "?w = writer_init\<lparr>ww_accepted := [''ping''], ww_written := [''ping'']\<rparr>"
    unfolding g by (simp add: do_write_access_def writer_init_def)
  have "writer_reach ?a" by (rule writer_reach.step [OF writer_reach.start writer_step.push]) (simp add: writer_init_def)
  then have "writer_reach ?b" by (rule writer_reach.step [OF _ writer_step.exchange]) (simp add: a)
  then have "writer_reach (run_posted ?b)" by (rule writer_reach.step [OF _ writer_step.run]) (simp only: b, simp add: writer_init_def)+
  then have "writer_reach ?d" by (rule writer_reach.step [OF _ writer_step.access]) (simp add: run_posted_def)
  then have "writer_reach ?e" by (rule writer_reach.step [OF _ writer_step.written]) (simp only: d, simp add: writer_init_def)+
  then have "writer_reach ?f" by (rule writer_reach.step [OF _ writer_step.access]) (simp add: e)
  then have "writer_reach (do_write_access ?f)" by (rule writer_reach.step [OF _ writer_step.access]) (simp add: f)
  then have "writer_reach ?w" by (rule writer_reach.step [OF _ writer_step.access]) (simp add: g)
  from ws_writer_protocol [OF this] have "ww_written ?w = [''ping'']" unfolding w by (simp add: writer_init_def)
  then show ?thesis unfolding w e by simp
qed

text \<open>After a failed write the messages behind it wait for the next call of \<^verbatim>\<open>send\<close>.\<close>

lemma failed_write_leaves_queue:
  "ww_outstanding w \<Longrightarrow> ec \<noteq> NoError \<Longrightarrow> ww_queue (on_write ec w) = ww_queue w \<and> \<not> ww_is_writing (on_write ec w)"
  by (simp add: on_write_def Let_def)

end
