(* ===== verification/ConnPool.thy ===== *)
theory ConnPool
  imports Types
begin

text \<open>
  The pool of TLS connections under the REST clients (\<^verbatim>\<open>include/kimp/network/connection_pool.hpp\<close>). A connection is
  known by a number; whether a host name resolves and a connection comes up is an argument.
  The threads that use the pool take one critical section of its mutex, or one access outside of
  it, per step.
\<close>

section \<open>Connections\<close>

datatype conn_state = ConnDisconnected | ConnConnecting | ConnConnected | ConnInUse | ConnFailed

record pooled =
  pc_id :: nat
  pc_stream :: bool
  pc_state :: conn_state
  pc_last_used :: nat
  pc_created :: nat
  pc_requests :: u64
  pc_errors :: u64

definition set_stream :: "nat \<Rightarrow> nat \<Rightarrow> pooled" where
  "set_stream now i = \<lparr>pc_id = i, pc_stream = True, pc_state = ConnConnected, pc_last_used = now, pc_created = now, pc_requests = 0, pc_errors = 0\<rparr>"

text \<open>The compare-and-exchange from connected to in use.\<close>

definition try_acquire :: "pooled \<Rightarrow> pooled option" where
  "try_acquire c = (if pc_state c = ConnConnected then Some (c\<lparr>pc_state := ConnInUse\<rparr>) else None)"

definition conn_release :: "nat \<Rightarrow> pooled \<Rightarrow> pooled" where
  "conn_release now c = c\<lparr>pc_last_used := now, pc_requests := pc_requests c + 1, pc_state := ConnConnected\<rparr>"

definition conn_mark_failed :: "pooled \<Rightarrow> pooled" where
  "conn_mark_failed c = c\<lparr>pc_errors := pc_errors c + 1, pc_state := ConnFailed\<rparr>"

definition conn_reset :: "pooled \<Rightarrow> pooled" where
  "conn_reset c = c\<lparr>pc_stream := False, pc_state := ConnDisconnected\<rparr>"

text \<open>Times in milliseconds; the difference is cut to whole seconds.\<close>

definition is_idle :: "nat \<Rightarrow> nat \<Rightarrow> pooled \<Rightarrow> bool" where
  "is_idle now timeout_s c \<longleftrightarrow> timeout_s < (now - pc_last_used c) div 1000"

section \<open>The pool\<close>

record pool_config =
  cf_pool_size :: nat
  cf_max_pool_size :: nat

definition pool_config_default :: pool_config where
  "pool_config_default = \<lparr>cf_pool_size = 4, cf_max_pool_size = 8\<rparr>"

record pool =
  pl_config :: pool_config
  pl_conns :: "pooled list"
  pl_next :: nat
  pl_running :: bool
  pl_endpoints :: "string list"
  pl_dns_time :: nat
  pl_total :: u64
  pl_hits :: u64
  pl_misses :: u64
  pl_reconnections :: u64

definition DNS_CACHE_TTL_MS :: nat where "DNS_CACHE_TTL_MS = 300000"

definition pool_init :: "pool_config \<Rightarrow> pool" where
  "pool_init cf = \<lparr>pl_config = cf, pl_conns = [], pl_next = 0, pl_running = False, pl_endpoints = [], pl_dns_time = 0,
     pl_total = 0, pl_hits = 0, pl_misses = 0, pl_reconnections = 0\<rparr>"

definition refresh_dns_cache :: "nat \<Rightarrow> string list option \<Rightarrow> pool \<Rightarrow> bool \<times> pool" where
  "refresh_dns_cache now resolved p =
    (case resolved of None \<Rightarrow> (False, p) | Some es \<Rightarrow> (True, p\<lparr>pl_endpoints := es, pl_dns_time := now\<rparr>))"

text \<open>A failed refresh keeps the old addresses.\<close>

definition get_endpoints :: "nat \<Rightarrow> string list option \<Rightarrow> pool \<Rightarrow> string list \<times> pool" where
  "get_endpoints now resolved p =
    (let p = (if DNS_CACHE_TTL_MS < now - pl_dns_time p then snd (refresh_dns_cache now resolved p) else p) in (pl_endpoints p, p))"

text \<open>\<open>up\<close> says for a list of addresses whether the connection and its handshake succeed.\<close>

definition create_connection :: "nat \<Rightarrow> string list option \<Rightarrow> (string list \<Rightarrow> bool) \<Rightarrow> pool \<Rightarrow> pooled option \<times> pool" where
  "create_connection now resolved up p =
    (case get_endpoints now resolved p of (es, p) \<Rightarrow>
       if up es then (Some (set_stream now (pl_next p)), p\<lparr>pl_next := pl_next p + 1\<rparr>) else (None, p))"

text \<open>\<open>ups\<close> are the outcomes of the connections that are set up in advance.\<close>

fun pre_establish :: "nat \<Rightarrow> string list option \<Rightarrow> (string list \<Rightarrow> bool) list \<Rightarrow> pool \<Rightarrow> pool" where
  "pre_establish now resolved [] p = p"
| "pre_establish now resolved (up # ups) p =
    (case create_connection now resolved up p of (None, p) \<Rightarrow> pre_establish now resolved ups p
     | (Some c, p) \<Rightarrow> pre_establish now resolved ups (p\<lparr>pl_conns := pl_conns p @ [c]\<rparr>))"

definition initialize :: "nat \<Rightarrow> string list option \<Rightarrow> (nat \<Rightarrow> string list \<Rightarrow> bool) \<Rightarrow> pool \<Rightarrow> bool \<times> pool" where
  "initialize now resolved up p =
    (if pl_running p then (True, p)
     else case refresh_dns_cache now resolved (p\<lparr>pl_running := True\<rparr>) of (ok, p) \<Rightarrow>
       if \<not> ok then (False, p\<lparr>pl_running := False\<rparr>)
       else let p = pre_establish now resolved (map up [0..<cf_pool_size (pl_config p)]) p in (pl_conns p \<noteq> [], p))"

definition pool_shutdown :: "pool \<Rightarrow> pool" where
  "pool_shutdown p = (if \<not> pl_running p then p else p\<lparr>pl_running := False, pl_conns := []\<rparr>)"

text \<open>The first connection that is free.\<close>

fun scan_conns :: "pooled list \<Rightarrow> (nat \<times> pooled list) option" where
  "scan_conns [] = None"
| "scan_conns (c # cs) =
    (case try_acquire c of Some c' \<Rightarrow> Some (pc_id c, c' # cs)
     | None \<Rightarrow> map_option (\<lambda>(i, cs'). (i, c # cs')) (scan_conns cs))"

definition scan_pool :: "pool \<Rightarrow> (nat \<times> pool) option" where
  "scan_pool p = map_option (\<lambda>(i, cs). (i, p\<lparr>pl_conns := cs, pl_hits := pl_hits p + 1\<rparr>)) (scan_conns (pl_conns p))"

definition under_max :: "pool \<Rightarrow> bool" where
  "under_max p \<longleftrightarrow> length (pl_conns p) < cf_max_pool_size (pl_config p)"

definition on_conn :: "nat \<Rightarrow> (pooled \<Rightarrow> pooled) \<Rightarrow> pool \<Rightarrow> pool" where
  "on_conn i f p = p\<lparr>pl_conns := map (\<lambda>c. if pc_id c = i then f c else c) (pl_conns p)\<rparr>"

definition pool_release :: "nat \<Rightarrow> nat \<Rightarrow> pool \<Rightarrow> pool" where
  "pool_release now i p = on_conn i (conn_release now) p"

text \<open>\<open>fresh\<close> is the connection that takes the place of a failed one, if one came up.\<close>

definition replace_connection :: "nat \<Rightarrow> pooled option \<Rightarrow> pool \<Rightarrow> pool" where
  "replace_connection i fresh p =
    p\<lparr>pl_conns := (case fresh of Some c \<Rightarrow> map (\<lambda>x. if pc_id x = i then c else x) (pl_conns p)
       | None \<Rightarrow> filter (\<lambda>x. pc_id x \<noteq> i) (pl_conns p))\<rparr>"

record pool_stats =
  st_total :: u64
  st_hits :: u64
  st_misses :: u64
  st_reconnections :: u64
  st_size :: nat
  st_available :: nat

definition get_stats :: "pool \<Rightarrow> pool_stats" where
  "get_stats p = \<lparr>st_total = pl_total p, st_hits = pl_hits p, st_misses = pl_misses p, st_reconnections = pl_reconnections p,
     st_size = length (pl_conns p), st_available = length (filter (\<lambda>c. pc_state c = ConnConnected) (pl_conns p))\<rparr>"

section \<open>Threads\<close>

text \<open>
  Where the guard of a thread is: it creates a connection outside the lock, waits for one, holds one,
  or has marked its connection as failed and is about to replace it.
\<close>

datatype guard = NoGuard | Creating | Waiting | Holding nat | Failing nat

record pool_system =
  ps_pool :: pool
  ps_guards :: "nat \<Rightarrow> guard"

definition set_guard :: "nat \<Rightarrow> guard \<Rightarrow> pool \<Rightarrow> pool_system \<Rightarrow> pool_system" where
  "set_guard t g p s = s\<lparr>ps_pool := p, ps_guards := (ps_guards s)(t := g)\<rparr>"

text \<open>The first critical section of \<^verbatim>\<open>acquire\<close>.\<close>

definition acquire_begin :: "nat \<Rightarrow> pool_system \<Rightarrow> pool_system" where
  "acquire_begin t s =
    (let p = (ps_pool s)\<lparr>pl_total := pl_total (ps_pool s) + 1\<rparr> in
     case scan_pool p of Some (i, p) \<Rightarrow> set_guard t (Holding i) p s
     | None \<Rightarrow> set_guard t (if under_max p then Creating else Waiting) p s)"

text \<open>The second one, after \<^verbatim>\<open>create_connection\<close>.\<close>

definition acquire_created :: "nat \<Rightarrow> nat \<Rightarrow> string list option \<Rightarrow> (string list \<Rightarrow> bool) \<Rightarrow> pool_system \<Rightarrow> pool_system" where
  "acquire_created now t resolved up s =
    (case create_connection now resolved up (ps_pool s) of (None, p) \<Rightarrow> set_guard t Waiting p s
     | (Some c, p) \<Rightarrow> set_guard t (Holding (pc_id c))
         (p\<lparr>pl_conns := pl_conns p @ [c\<lparr>pc_state := ConnInUse\<rparr>], pl_misses := pl_misses p + 1\<rparr>) s)"

definition acquire_woken :: "nat \<Rightarrow> pool_system \<Rightarrow> pool_system" where
  "acquire_woken t s = (case scan_pool (ps_pool s) of Some (i, p) \<Rightarrow> set_guard t (Holding i) p s | None \<Rightarrow> s)"

definition acquire_timeout :: "nat \<Rightarrow> pool_system \<Rightarrow> pool_system" where
  "acquire_timeout t s = set_guard t NoGuard ((ps_pool s)\<lparr>pl_misses := pl_misses (ps_pool s) + 1\<rparr>) s"

text \<open>The destructor of the guard, and the two halves of \<^verbatim>\<open>mark_failed\<close>.\<close>

definition release_guard :: "nat \<Rightarrow> nat \<Rightarrow> nat \<Rightarrow> pool_system \<Rightarrow> pool_system" where
  "release_guard now t i s = set_guard t NoGuard (pool_release now i (ps_pool s)) s"

definition guard_mark_failed :: "nat \<Rightarrow> nat \<Rightarrow> pool_system \<Rightarrow> pool_system" where
  "guard_mark_failed t i s =
    (let p = on_conn i conn_mark_failed (ps_pool s)
     in set_guard t (Failing i) (p\<lparr>pl_reconnections := pl_reconnections p + 1\<rparr>) s)"

definition guard_replace :: "nat \<Rightarrow> nat \<Rightarrow> nat \<Rightarrow> string list option \<Rightarrow> (string list \<Rightarrow> bool) \<Rightarrow> pool_system \<Rightarrow> pool_system" where
  "guard_replace now t i resolved up s =
    (if i \<in> pc_id ` set (pl_conns (ps_pool s))
     then case create_connection now resolved up (ps_pool s) of (fresh, p) \<Rightarrow> set_guard t NoGuard (replace_connection i fresh p) s
     else set_guard t NoGuard (ps_pool s) s)"

inductive pool_step :: "pool_system \<Rightarrow> pool_system \<Rightarrow> bool" where
  starts: "pool_step s (s\<lparr>ps_pool := snd (initialize now resolved ups (ps_pool s))\<rparr>)"
| stops: "pool_step s (s\<lparr>ps_pool := pool_shutdown (ps_pool s)\<rparr>)"
| begins: "ps_guards s t = NoGuard \<Longrightarrow> pool_step s (acquire_begin t s)"
| created: "ps_guards s t = Creating \<Longrightarrow> pool_step s (acquire_created now t resolved up s)"
| woken: "ps_guards s t = Waiting \<Longrightarrow> pool_step s (acquire_woken t s)"
| gives_up: "ps_guards s t = Waiting \<Longrightarrow> pool_step s (acquire_timeout t s)"
| releases: "ps_guards s t = Holding i \<Longrightarrow> pool_step s (release_guard now t i s)"
| fails: "ps_guards s t = Holding i \<Longrightarrow> pool_step s (guard_mark_failed t i s)"
| replaces: "ps_guards s t = Failing i \<Longrightarrow> pool_step s (guard_replace now t i resolved up s)"

inductive pool_reach :: "pool_config \<Rightarrow> pool_system \<Rightarrow> bool" for cf where
  start: "pool_reach cf \<lparr>ps_pool = pool_init cf, ps_guards = (\<lambda>_. NoGuard)\<rparr>"
| step: "pool_reach cf s \<Longrightarrow> pool_step s s' \<Longrightarrow> pool_reach cf s'"

section \<open>Connections are held by one thread at a time\<close>

fun owned :: "guard \<Rightarrow> nat option" where
  "owned (Holding i) = Some i"
| "owned (Failing i) = Some i"
| "owned _ = None"

text \<open>
  The connections of the pool are distinct, and the free ones are those that nobody owns (\<open>R\<close> are the
  owned ones); \<open>own\<close> tells which connection a thread owns.
\<close>

definition conns_ok :: "pooled list \<Rightarrow> nat \<Rightarrow> nat set \<Rightarrow> bool" where
  "conns_ok cs n R \<longleftrightarrow> distinct (map pc_id cs) \<and> (\<forall>c \<in> set cs. pc_id c < n \<and> (pc_state c = ConnConnected \<longleftrightarrow> pc_id c \<notin> R))"

definition owners_ok :: "(nat \<Rightarrow> nat option) \<Rightarrow> nat \<Rightarrow> bool" where
  "owners_ok own n \<longleftrightarrow> inj_on own (dom own) \<and> ran own \<subseteq> {..<n}"

definition pool_ok :: "pool \<Rightarrow> (nat \<Rightarrow> nat option) \<Rightarrow> bool" where
  "pool_ok p own \<longleftrightarrow> conns_ok (pl_conns p) (pl_next p) (ran own) \<and> owners_ok own (pl_next p)"

lemma pool_ok_fields:
  "pl_conns p' = pl_conns p \<Longrightarrow> pl_next p' = pl_next p \<Longrightarrow> pool_ok p' own = pool_ok p own"
  by (simp add: pool_ok_def)

lemma image_fresh: "f c \<notin> f ` A \<Longrightarrow> y \<in> A \<Longrightarrow> f y \<noteq> f c"
  by (metis image_eqI)

lemma owners_take:
  assumes "owners_ok own n" "own t = None" "i \<notin> ran own" "i < m" "n \<le> m"
  shows "owners_ok (own(t \<mapsto> i)) m \<and> ran (own(t \<mapsto> i)) = insert i (ran own)"
proof -
  have r: "ran (own(t \<mapsto> i)) = insert i (ran own)" using assms(2) by (rule ran_map_upd)
  have f: "own t' \<noteq> Some i" for t' using assms(3) by (auto simp: ran_def)
  have inj: "inj_on own (dom own)" using assms(1) by (simp add: owners_ok_def)
  have img: "Some i \<notin> own ` A" for A using f by (metis imageE)
  have "inj_on (own(t \<mapsto> i)) (dom own)" using inj img by (rule inj_on_fun_updI)
  moreover have "(own(t \<mapsto> i)) ` (dom own - {t}) = own ` (dom own - {t})" by (rule image_cong) simp_all
  ultimately have "inj_on (own(t \<mapsto> i)) (dom (own(t \<mapsto> i)))" using img by (simp add: inj_on_insert)
  then show ?thesis using assms(1,4,5) r by (auto simp: owners_ok_def)
qed

lemma owners_drop:
  assumes "owners_ok own n" "own t = Some i" "n \<le> m"
  shows "owners_ok (own(t := None)) m \<and> ran (own(t := None)) = ran own - {i}"
proof -
  have inj: "inj_on own (dom own)" using assms(1) by (simp add: owners_ok_def)
  have u: "own t' = Some i \<longleftrightarrow> t' = t" for t'
  proof
    assume e: "own t' = Some i"
    show "t' = t" by (rule inj_onD [OF inj]) (simp_all add: e assms(2) domI)
  qed (simp add: assms(2))
  have r: "ran (own(t := None)) = ran own - {i}"
  proof (rule set_eqI)
    fix x
    have "x \<in> ran (own(t := None)) \<longleftrightarrow> (\<exists>t'. t' \<noteq> t \<and> own t' = Some x)" by (auto simp: ran_def)
    also have "\<dots> \<longleftrightarrow> x \<noteq> i \<and> (\<exists>t'. own t' = Some x)" using u by (cases "x = i") (force, metis option.inject assms(2))
    finally show "x \<in> ran (own(t := None)) \<longleftrightarrow> x \<in> ran own - {i}" by (auto simp: ran_def)
  qed
  have "inj_on (own(t := None)) (dom own - {t}) = inj_on own (dom own - {t})" by (rule inj_on_cong) simp
  then have "inj_on (own(t := None)) (dom (own(t := None)))" using inj by (simp add: inj_on_diff)
  then show ?thesis using assms(1,3) r by (auto simp: owners_ok_def)
qed

lemma create_connection_pool:
  "create_connection now resolved up p = (c, p') \<Longrightarrow>
    pl_conns p' = pl_conns p \<and> pl_config p' = pl_config p \<and>
    (case c of None \<Rightarrow> pl_next p' = pl_next p | Some x \<Rightarrow> x = set_stream now (pl_next p) \<and> pl_next p' = pl_next p + 1)"
  by (auto simp: create_connection_def get_endpoints_def refresh_dns_cache_def Let_def split: option.splits if_splits)

lemma scan_conns_found:
  "scan_conns cs = Some (i, cs') \<Longrightarrow>
    \<exists>xs c ys. cs = xs @ c # ys \<and> cs' = xs @ c\<lparr>pc_state := ConnInUse\<rparr> # ys \<and> pc_state c = ConnConnected \<and> pc_id c = i"
proof (induction cs arbitrary: cs')
  case (Cons c cs)
  show ?case
  proof (cases "pc_state c = ConnConnected")
    case True
    then show ?thesis using Cons.prems by (intro exI [of _ "[]"]) (auto simp: try_acquire_def)
  next
    case False
    then obtain cs2 where r: "scan_conns cs = Some (i, cs2)" "cs' = c # cs2" using Cons.prems by (auto simp: try_acquire_def)
    then obtain xs d ys where "cs = xs @ d # ys" "cs2 = xs @ d\<lparr>pc_state := ConnInUse\<rparr> # ys" "pc_state d = ConnConnected" "pc_id d = i"
      using Cons.IH by blast
    then show ?thesis using r by (intro exI [of _ "c # xs"]) auto
  qed
qed simp

lemma scan_pool_ok:
  assumes "pool_ok p own" "scan_pool p = Some (i, p')" "own t = None"
  shows "pool_ok p' (own(t \<mapsto> i))"
proof -
  obtain cs where cs: "scan_conns (pl_conns p) = Some (i, cs)" "p' = p\<lparr>pl_conns := cs, pl_hits := pl_hits p + 1\<rparr>"
    using assms(2) by (auto simp: scan_pool_def)
  obtain xs c ys where e: "pl_conns p = xs @ c # ys" "cs = xs @ c\<lparr>pc_state := ConnInUse\<rparr> # ys" "pc_state c = ConnConnected" "pc_id c = i"
    using scan_conns_found [OF cs(1)] by blast
  have i: "i \<notin> ran own" "i < pl_next p" using assms(1) e by (auto simp: pool_ok_def conns_ok_def)
  have "pc_id x \<noteq> i" if "x \<in> set xs \<union> set ys" for x
    using assms(1) e that image_fresh [of pc_id c "set xs \<union> set ys" x] by (auto simp: pool_ok_def conns_ok_def)
  then have "conns_ok cs (pl_next p) (insert i (ran own))" using assms(1) e by (auto simp: pool_ok_def conns_ok_def)
  then show ?thesis using owners_take [of own "pl_next p" t i "pl_next p"] assms(1,3) i by (simp add: pool_ok_def cs(2))
qed

lemma conns_add:
  assumes "conns_ok cs n R" "pc_id c = n" "R \<subseteq> {..<n}"
  shows "pc_state c = ConnInUse \<Longrightarrow> conns_ok (cs @ [c]) (n + 1) (insert n R)" "pc_state c = ConnConnected \<Longrightarrow> conns_ok (cs @ [c]) (n + 1) R"
proof -
  have d: "distinct (map pc_id (cs @ [c]))" "n \<notin> R" using assms by (auto simp: conns_ok_def)
  have l: "pc_id x < n + 1 \<and> pc_id x \<noteq> n \<and> (pc_state x = ConnConnected \<longleftrightarrow> pc_id x \<notin> R)" if "x \<in> set cs" for x
    using assms(1) that by (auto simp: conns_ok_def)
  show "conns_ok (cs @ [c]) (n + 1) (insert n R)" if "pc_state c = ConnInUse" using d l that assms(2) by (auto simp: conns_ok_def)
  show "conns_ok (cs @ [c]) (n + 1) R" if "pc_state c = ConnConnected" using d l that assms(2) by (auto simp: conns_ok_def)
qed

lemma conns_map:
  assumes "conns_ok cs n R" "\<And>c. pc_id (f c) = pc_id c"
    and "\<And>c. c \<in> set cs \<Longrightarrow> pc_id c = i \<Longrightarrow> pc_state (f c) = ConnConnected \<longleftrightarrow> i \<notin> R'" "\<And>k. k \<noteq> i \<Longrightarrow> k \<in> R' \<longleftrightarrow> k \<in> R"
  shows "conns_ok (map (\<lambda>c. if pc_id c = i then f c else c) cs) n R'"
proof -
  have "map pc_id (map (\<lambda>c. if pc_id c = i then f c else c) cs) = map pc_id cs" using assms(2) by simp
  then have "distinct (map pc_id (map (\<lambda>c. if pc_id c = i then f c else c) cs))" using assms(1) unfolding conns_ok_def by argo
  then show ?thesis using assms unfolding conns_ok_def by auto
qed

lemma pool_release_ok:
  assumes "pool_ok p own" "own t = Some i"
  shows "pool_ok (pool_release now i p) (own(t := None))"
proof -
  note d = owners_drop [of own "pl_next p" t i "pl_next p"]
  have "conns_ok (map (\<lambda>c. if pc_id c = i then conn_release now c else c) (pl_conns p)) (pl_next p) (ran own - {i})"
    using assms(1) by (intro conns_map [of _ _ "ran own"]) (auto simp: pool_ok_def conn_release_def)
  then show ?thesis using d assms by (simp add: pool_ok_def pool_release_def on_conn_def)
qed

lemma mark_failed_ok:
  assumes "pool_ok p own" "own t = Some i"
  shows "pool_ok ((on_conn i conn_mark_failed p)\<lparr>pl_reconnections := n\<rparr>) own"
proof -
  have "i \<in> ran own" using assms(2) by (auto simp: ran_def)
  then have "conns_ok (map (\<lambda>c. if pc_id c = i then conn_mark_failed c else c) (pl_conns p)) (pl_next p) (ran own)"
    using assms(1) by (intro conns_map [of _ _ "ran own"]) (auto simp: pool_ok_def conn_mark_failed_def)
  then show ?thesis using assms by (simp add: pool_ok_def on_conn_def)
qed

lemma replace_distinct:
  "distinct (map pc_id cs) \<Longrightarrow> \<forall>y \<in> set cs. pc_id y < pc_id x \<Longrightarrow> distinct (map pc_id (map (\<lambda>y. if pc_id y = i then x else y) cs))"
proof (induction cs)
  case (Cons c cs)
  have IH: "distinct (map pc_id (map (\<lambda>y. if pc_id y = i then x else y) cs))" using Cons by simp
  show ?case
  proof (cases "pc_id c = i")
    case True
    then have "map (\<lambda>y. if pc_id y = i then x else y) cs = cs" 
      using Cons.prems(1) image_fresh [of pc_id c "set cs"] by (intro map_idI) auto
    then show ?thesis using True Cons.prems by auto
  next
    case False
    have "\<forall>y \<in> set cs. pc_id c \<noteq> pc_id (if pc_id y = i then x else y)"
      using Cons.prems image_fresh [of pc_id c "set cs"] by auto
    then have "pc_id c \<notin> (\<lambda>y. pc_id (if pc_id y = i then x else y)) ` set cs" unfolding image_iff by blast
    then show ?thesis using IH False by (simp add: comp_def)
  qed
qed simp

lemma conns_replace:
  assumes "conns_ok cs n R" "pc_id x = n" "pc_state x = ConnConnected" "R \<subseteq> {..<n}"
  shows "conns_ok (map (\<lambda>y. if pc_id y = i then x else y) cs) (n + 1) (R - {i})"
proof -
  have "distinct (map pc_id (map (\<lambda>y. if pc_id y = i then x else y) cs))"
    using assms(1,2) by (intro replace_distinct) (auto simp: conns_ok_def)
  moreover have "n \<notin> R" using assms(4) by auto
  moreover have "pc_id z < n + 1 \<and> (pc_state z = ConnConnected \<longleftrightarrow> pc_id z \<notin> R - {i})"
    if "z \<in> set (map (\<lambda>y. if pc_id y = i then x else y) cs)" for z
  proof -
    from that obtain y where y: "y \<in> set cs" "z = (if pc_id y = i then x else y)" by auto
    show ?thesis using y assms(1-3) \<open>n \<notin> R\<close> by (cases "pc_id y = i") (auto simp: conns_ok_def)
  qed
  ultimately show ?thesis unfolding conns_ok_def by blast
qed

lemma replace_ok:
  assumes "pool_ok p own" "own t = Some i" "create_connection now resolved up p = (fresh, p')"
  shows "pool_ok (replace_connection i fresh p') (own(t := None))"
proof -
  note c = create_connection_pool [OF assms(3)]
  show ?thesis
  proof (cases fresh)
    case None
    have "conns_ok (filter (\<lambda>x. pc_id x \<noteq> i) (pl_conns p)) (pl_next p) (ran own - {i})"
      using assms(1) by (auto simp: pool_ok_def conns_ok_def distinct_map_filter)
    then show ?thesis
      using None c owners_drop [of own "pl_next p" t i "pl_next p"] assms(1,2) by (simp add: pool_ok_def replace_connection_def)
  next
    case (Some x)
    then have x: "x = set_stream now (pl_next p)" "pl_conns p' = pl_conns p" "pl_next p' = pl_next p + 1" using c by auto
    then have "conns_ok (map (\<lambda>y. if pc_id y = i then x else y) (pl_conns p)) (pl_next p + 1) (ran own - {i})"
      using assms(1) by (intro conns_replace) (auto simp: pool_ok_def owners_ok_def set_stream_def)
    then show ?thesis
      using Some x owners_drop [of own "pl_next p" t i "pl_next p + 1"] assms(1,2) by (auto simp: pool_ok_def replace_connection_def)
  qed
qed

lemma created_ok:
  assumes "pool_ok p own" "create_connection now resolved up p = (c, p')"
  shows "case c of None \<Rightarrow> pool_ok p' own
    | Some x \<Rightarrow> pool_ok (p'\<lparr>pl_conns := pl_conns p' @ [x]\<rparr>) own \<and>
        (\<forall>t m. own t = None \<longrightarrow> pool_ok (p'\<lparr>pl_conns := pl_conns p' @ [x\<lparr>pc_state := ConnInUse\<rparr>], pl_misses := m\<rparr>) (own(t \<mapsto> pc_id x)))"
proof (cases c)
  case None
  then show ?thesis using assms create_connection_pool [OF assms(2)] pool_ok_fields [of p' p own] by simp
next
  case (Some x)
  have k: "pl_conns p' = pl_conns p" "pl_next p' = pl_next p + 1" "pc_id x = pl_next p" "pc_state x = ConnConnected"
    using create_connection_pool [OF assms(2)] Some by (auto simp: set_stream_def)
  have o: "owners_ok own (pl_next p)" "conns_ok (pl_conns p) (pl_next p) (ran own)" using assms(1) by (auto simp: pool_ok_def)
  then have r: "ran own \<subseteq> {..<pl_next p}" "owners_ok own (pl_next p + 1)" by (auto simp: owners_ok_def)
  have "pl_next p \<notin> ran own" using r(1) by auto
  then show ?thesis
    using Some k o r conns_add [OF o(2), of x] conns_add [OF o(2), of "x\<lparr>pc_state := ConnInUse\<rparr>"]
      owners_take [OF o(1), of _ "pl_next p" "pl_next p + 1"] by (simp add: pool_ok_def)
qed

lemma pre_establish_ok: "pool_ok p own \<Longrightarrow> pool_ok (pre_establish now resolved ups p) own"
proof (induction ups arbitrary: p)
  case (Cons up ups)
  obtain c p' where c: "create_connection now resolved up p = (c, p')" by (metis prod.exhaust)
  show ?case using created_ok [OF Cons.prems c] Cons.IH c by (cases c) simp_all
qed simp

lemma initialize_ok: "pool_ok p own \<Longrightarrow> pool_ok (snd (initialize now resolved up p)) own"
proof -
  assume p: "pool_ok p own"
  let ?r = "refresh_dns_cache now resolved (p\<lparr>pl_running := True\<rparr>)"
  have q: "pool_ok (snd ?r) own"
    using p by (simp add: refresh_dns_cache_def pool_ok_def split: option.split)
  moreover from this have "pool_ok ((snd ?r)\<lparr>pl_running := False\<rparr>) own" by (simp add: pool_ok_def)
  ultimately show ?thesis using p pre_establish_ok [OF q] by (simp add: initialize_def case_prod_unfold Let_def)
qed

definition system_ok :: "pool_system \<Rightarrow> bool" where
  "system_ok s \<longleftrightarrow> pool_ok (ps_pool s) (\<lambda>t. owned (ps_guards s t))"

lemma owned_upd: "(\<lambda>t'. owned ((gs(t := g)) t')) = (\<lambda>t'. owned (gs t'))(t := owned g)"
  by auto

lemma set_guard_ok: "system_ok (set_guard t g p s) = pool_ok p ((\<lambda>t'. owned (ps_guards s t'))(t := owned g))"
  unfolding owned_upd [symmetric] by (simp add: system_ok_def set_guard_def)

lemma begin_ok:
  assumes "system_ok s" "ps_guards s t = NoGuard"
  shows "system_ok (acquire_begin t s)"
proof -
  let ?p = "(ps_pool s)\<lparr>pl_total := pl_total (ps_pool s) + 1\<rparr>" and ?own = "\<lambda>t. owned (ps_guards s t)"
  have p: "pool_ok ?p ?own" using assms(1) by (simp add: system_ok_def pool_ok_def)
  have n: "?own t = None" using assms(2) by simp
  then have same: "?own(t := None) = ?own" by auto
  show ?thesis
    using p scan_pool_ok [OF p _ n] same by (auto simp: acquire_begin_def Let_def set_guard_ok split: option.split)
qed

lemma woken_ok:
  assumes "system_ok s" "ps_guards s t = Waiting"
  shows "system_ok (acquire_woken t s)"
proof -
  have "pool_ok (ps_pool s) (\<lambda>t. owned (ps_guards s t))" using assms(1) by (simp add: system_ok_def)
  from scan_pool_ok [OF this, of _ _ t] show ?thesis
    using assms by (auto simp: acquire_woken_def set_guard_ok split: option.split)
qed

lemma acquired_created_ok:
  assumes "system_ok s" "ps_guards s t = Creating"
  shows "system_ok (acquire_created now t resolved up s)"
proof -
  let ?own = "\<lambda>t. owned (ps_guards s t)"
  have p: "pool_ok (ps_pool s) ?own" using assms(1) by (simp add: system_ok_def)
  obtain c p' where c: "create_connection now resolved up (ps_pool s) = (c, p')" by (metis prod.exhaust)
  have same: "?own(t := None) = ?own" using assms(2) by auto
  show ?thesis
    using created_ok [OF p c] same assms(2) by (cases c) (simp_all add: acquire_created_def c set_guard_ok)
qed

lemma pool_step_ok: "system_ok s \<Longrightarrow> pool_step s s' \<Longrightarrow> system_ok s'"
proof -
  assume s: "system_ok s" and "pool_step s s'"
  let ?own = "\<lambda>t. owned (ps_guards s t)"
  have p: "pool_ok (ps_pool s) ?own" using s by (simp add: system_ok_def)
  from \<open>pool_step s s'\<close> show "system_ok s'"
  proof cases
    case (starts now resolved ups)
    then show ?thesis using initialize_ok [OF p] by (simp add: system_ok_def)
  next
    case stops
    then show ?thesis using p by (auto simp: system_ok_def pool_shutdown_def pool_ok_def conns_ok_def)
  next
    case (gives_up t)
    then have "?own(t := None) = ?own" by auto
    then show ?thesis using gives_up p by (simp add: acquire_timeout_def set_guard_ok pool_ok_def)
  next
    case (releases t i now)
    then show ?thesis using pool_release_ok [OF p, of t i] by (simp add: release_guard_def set_guard_ok)
  next
    case (fails t i)
    then have "?own(t := Some i) = ?own" by auto
    then show ?thesis using fails mark_failed_ok [OF p, of t i] by (simp add: guard_mark_failed_def set_guard_ok Let_def on_conn_def)
  next
    case (replaces t i now resolved up)
    obtain c p' where c: "create_connection now resolved up (ps_pool s) = (c, p')" by (metis prod.exhaust)
    have o: "?own t = Some i" using replaces by simp
    show ?thesis
    proof (cases "i \<in> pc_id ` set (pl_conns (ps_pool s))")
      case True
      then show ?thesis using replaces replace_ok [OF p o c] by (simp add: guard_replace_def c set_guard_ok)
    next
      case False
      have "owners_ok (?own(t := None)) (pl_next (ps_pool s)) \<and> ran (?own(t := None)) = ran ?own - {i}"
        using owners_drop [of ?own "pl_next (ps_pool s)" t i "pl_next (ps_pool s)"] p o by (simp add: pool_ok_def)
      moreover have "conns_ok (pl_conns (ps_pool s)) (pl_next (ps_pool s)) (ran ?own - {i})"
        using p False by (auto simp: pool_ok_def conns_ok_def)
      ultimately show ?thesis using replaces False by (simp add: guard_replace_def set_guard_ok pool_ok_def)
    qed
  qed (simp_all add: s begin_ok woken_ok acquired_created_ok)
qed

lemma pool_reach_ok: "pool_reach cf s \<Longrightarrow> system_ok s"
proof (induction rule: pool_reach.induct)
  case (step s s')
  then show ?case using pool_step_ok by blast
qed (simp add: system_ok_def pool_ok_def conns_ok_def owners_ok_def pool_init_def)



text \<open>
  The size of the pool is checked before the lock is given up for the new connection, so threads that
  pass the check together push it beyond its maximum.
\<close>

lemma pool_overfull:
  assumes "ps_guards s t = Creating" "ps_guards s t' = Creating" "t \<noteq> t'" "length (pl_conns (ps_pool s)) + 1 = cf_max_pool_size (pl_config (ps_pool s))"
    and up: "\<And>es. up es"
  shows "length (pl_conns (ps_pool (acquire_created now t' None up (acquire_created now t None up s)))) = cf_max_pool_size (pl_config (ps_pool s)) + 1"
  using assms by (simp add: acquire_created_def create_connection_def get_endpoints_def refresh_dns_cache_def set_guard_def Let_def up)

text \<open>A pool whose first start brought up no connection calls itself ready when it is started again.\<close>

lemma empty_pool_ready:
  assumes "\<not> pl_running p" "pl_conns p = []" "\<And>i es. \<not> up i es"
  shows "\<not> fst (initialize now (Some es) up p) \<and> fst (initialize now (Some es) up (snd (initialize now (Some es) up p)))"
proof -
  have c: "create_connection now (Some es) (up i) q = (None, snd (create_connection now (Some es) (up i) q))" for i q
    using assms(3) by (simp add: create_connection_def case_prod_unfold)
  have keep: "pl_conns (snd (create_connection now (Some es) (up i) q)) = pl_conns q \<and> pl_running (snd (create_connection now (Some es) (up i) q)) = pl_running q" for i q
    using assms(3) by (simp add: create_connection_def get_endpoints_def refresh_dns_cache_def case_prod_unfold Let_def)
  have e: "pl_conns (pre_establish now (Some es) (map up is') q) = pl_conns q \<and> pl_running (pre_establish now (Some es) (map up is') q) = pl_running q" for is' q
  proof (induction is' arbitrary: q)
    case (Cons i is')
    obtain q' where "create_connection now (Some es) (up i) q = (None, q')" using c by blast
    then show ?case using Cons.IH keep [of i q] by simp
  qed simp
  show ?thesis using assms(1,2) e by (auto simp: initialize_def refresh_dns_cache_def Let_def)
qed

end
