(* ===== verification/LatencyProbe.thy ===== *)
theory LatencyProbe
  imports Decimal Types
begin

text \<open>
  What the latency probe records and how it writes it (\<^verbatim>\<open>include/kimp/core/latency_probe.hpp\<close>,
  \<^verbatim>\<open>src/core/latency_probe.cpp\<close>): the stages of a trade, the clock, the event, and the three kinds of
  output file with the summary of each trace. The record \<open>outputs\<close> holds the fields of \<^verbatim>\<open>LatencyProbe\<close> that
  only the exporter thread uses; the queues in front of it are in \<open>ProbeQueue\<close>. The operating system is the
  record \<open>probe_os\<close>. A file is the text or the list of blocks in it. \<open>None\<close> stands for an exporter that does not
  come back: a write through a null pointer or past its mapping, or an endless loop. Sizes are far below \<open>2 ^ 64\<close>
  and are natural numbers.
\<close>

section \<open>Stages\<close>

datatype latency_stage =
    SignalDetected | LifecycleEnqueued | LifecyclePickedUp | EntryLoopStart | EntryForeignSubmitStart
  | EntryForeignSubmitAck | EntryForeignFillQueryStart | EntryForeignFillWorkerStart | EntryForeignFillDone | EntryKoreanSubmitStart
  | EntryKoreanSubmitAck | EntryKoreanFillQueryStart | EntryKoreanFillWorkerStart | EntryKoreanFillDone | EntryCompleted
  | ExitLoopStart | ExitForeignSubmitStart | ExitForeignSubmitAck | ExitForeignFillQueryStart | ExitForeignFillWorkerStart
  | ExitForeignFillDone | ExitKoreanSubmitStart | ExitKoreanSubmitAck | ExitKoreanFillQueryStart | ExitKoreanFillWorkerStart
  | ExitKoreanFillDone | ExitCompleted | ReentryLoopStart | ReentryForeignSubmitStart | ReentryForeignSubmitAck
  | ReentryForeignFillQueryStart | ReentryForeignFillWorkerStart | ReentryForeignFillDone | ReentryKoreanSubmitStart | ReentryKoreanSubmitAck
  | ReentryKoreanFillQueryStart | ReentryKoreanFillWorkerStart | ReentryKoreanFillDone | ReentryCompleted | StageError
  | StageCount

text \<open>The enumerators in their order; the code of a stage is its place.\<close>

definition ALL_STAGES :: "latency_stage list" where
  "ALL_STAGES =
    [SignalDetected, LifecycleEnqueued, LifecyclePickedUp, EntryLoopStart, EntryForeignSubmitStart,
     EntryForeignSubmitAck, EntryForeignFillQueryStart, EntryForeignFillWorkerStart, EntryForeignFillDone, EntryKoreanSubmitStart,
     EntryKoreanSubmitAck, EntryKoreanFillQueryStart, EntryKoreanFillWorkerStart, EntryKoreanFillDone, EntryCompleted,
     ExitLoopStart, ExitForeignSubmitStart, ExitForeignSubmitAck, ExitForeignFillQueryStart, ExitForeignFillWorkerStart,
     ExitForeignFillDone, ExitKoreanSubmitStart, ExitKoreanSubmitAck, ExitKoreanFillQueryStart, ExitKoreanFillWorkerStart,
     ExitKoreanFillDone, ExitCompleted, ReentryLoopStart, ReentryForeignSubmitStart, ReentryForeignSubmitAck,
     ReentryForeignFillQueryStart, ReentryForeignFillWorkerStart, ReentryForeignFillDone, ReentryKoreanSubmitStart, ReentryKoreanSubmitAck,
     ReentryKoreanFillQueryStart, ReentryKoreanFillWorkerStart, ReentryKoreanFillDone, ReentryCompleted, StageError,
     StageCount]"

definition stage_code :: "latency_stage \<Rightarrow> nat" where
  "stage_code stage = length (takeWhile (\<lambda>s. s \<noteq> stage) ALL_STAGES)"

definition STAGE_COUNT :: nat where "STAGE_COUNT = stage_code StageCount"

definition latency_stage_name :: "latency_stage \<Rightarrow> string" where
  "latency_stage_name stage =
    (case stage of
       SignalDetected \<Rightarrow> ''signal_detected''
     | LifecycleEnqueued \<Rightarrow> ''lifecycle_enqueued''
     | LifecyclePickedUp \<Rightarrow> ''lifecycle_picked_up''
     | EntryLoopStart \<Rightarrow> ''entry_loop_start''
     | EntryForeignSubmitStart \<Rightarrow> ''entry_foreign_submit_start''
     | EntryForeignSubmitAck \<Rightarrow> ''entry_foreign_submit_ack''
     | EntryForeignFillQueryStart \<Rightarrow> ''entry_foreign_fill_query_start''
     | EntryForeignFillWorkerStart \<Rightarrow> ''entry_foreign_fill_worker_start''
     | EntryForeignFillDone \<Rightarrow> ''entry_foreign_fill_done''
     | EntryKoreanSubmitStart \<Rightarrow> ''entry_korean_submit_start''
     | EntryKoreanSubmitAck \<Rightarrow> ''entry_korean_submit_ack''
     | EntryKoreanFillQueryStart \<Rightarrow> ''entry_korean_fill_query_start''
     | EntryKoreanFillWorkerStart \<Rightarrow> ''entry_korean_fill_worker_start''
     | EntryKoreanFillDone \<Rightarrow> ''entry_korean_fill_done''
     | EntryCompleted \<Rightarrow> ''entry_completed''
     | ExitLoopStart \<Rightarrow> ''exit_loop_start''
     | ExitForeignSubmitStart \<Rightarrow> ''exit_foreign_submit_start''
     | ExitForeignSubmitAck \<Rightarrow> ''exit_foreign_submit_ack''
     | ExitForeignFillQueryStart \<Rightarrow> ''exit_foreign_fill_query_start''
     | ExitForeignFillWorkerStart \<Rightarrow> ''exit_foreign_fill_worker_start''
     | ExitForeignFillDone \<Rightarrow> ''exit_foreign_fill_done''
     | ExitKoreanSubmitStart \<Rightarrow> ''exit_korean_submit_start''
     | ExitKoreanSubmitAck \<Rightarrow> ''exit_korean_submit_ack''
     | ExitKoreanFillQueryStart \<Rightarrow> ''exit_korean_fill_query_start''
     | ExitKoreanFillWorkerStart \<Rightarrow> ''exit_korean_fill_worker_start''
     | ExitKoreanFillDone \<Rightarrow> ''exit_korean_fill_done''
     | ExitCompleted \<Rightarrow> ''exit_completed''
     | ReentryLoopStart \<Rightarrow> ''reentry_loop_start''
     | ReentryForeignSubmitStart \<Rightarrow> ''reentry_foreign_submit_start''
     | ReentryForeignSubmitAck \<Rightarrow> ''reentry_foreign_submit_ack''
     | ReentryForeignFillQueryStart \<Rightarrow> ''reentry_foreign_fill_query_start''
     | ReentryForeignFillWorkerStart \<Rightarrow> ''reentry_foreign_fill_worker_start''
     | ReentryForeignFillDone \<Rightarrow> ''reentry_foreign_fill_done''
     | ReentryKoreanSubmitStart \<Rightarrow> ''reentry_korean_submit_start''
     | ReentryKoreanSubmitAck \<Rightarrow> ''reentry_korean_submit_ack''
     | ReentryKoreanFillQueryStart \<Rightarrow> ''reentry_korean_fill_query_start''
     | ReentryKoreanFillWorkerStart \<Rightarrow> ''reentry_korean_fill_worker_start''
     | ReentryKoreanFillDone \<Rightarrow> ''reentry_korean_fill_done''
     | ReentryCompleted \<Rightarrow> ''reentry_completed''
     | StageError \<Rightarrow> ''error''
     | StageCount \<Rightarrow> ''unknown'')"

definition is_terminal_stage :: "latency_stage \<Rightarrow> bool" where
  "is_terminal_stage stage \<longleftrightarrow> stage = EntryCompleted \<or> stage = ExitCompleted \<or> stage = ReentryCompleted \<or> stage = StageError"

section \<open>Clocks\<close>

datatype platform = Apple | Linux | OtherPlatform

datatype clock_source = SteadyClock | ClockUptimeRaw | ClockMonotonicRaw | MachAbsoluteTime | ClockMonotonic

text \<open>The enumerators a platform has, in order; these are also the candidates of the benchmark.\<close>

definition clock_candidates :: "platform \<Rightarrow> clock_source list" where
  "clock_candidates p =
    (case p of Apple \<Rightarrow> [SteadyClock, ClockUptimeRaw, ClockMonotonicRaw, MachAbsoluteTime]
     | Linux \<Rightarrow> [SteadyClock, ClockMonotonic, ClockMonotonicRaw]
     | OtherPlatform \<Rightarrow> [SteadyClock])"

definition clock_code :: "platform \<Rightarrow> clock_source \<Rightarrow> nat" where
  "clock_code p source = length (takeWhile (\<lambda>s. s \<noteq> source) (clock_candidates p))"

definition latency_clock_source_name :: "platform \<Rightarrow> clock_source \<Rightarrow> string" where
  "latency_clock_source_name p source =
    (if source \<notin> set (clock_candidates p) then ''unknown''
     else case source of
       SteadyClock \<Rightarrow> ''std::chrono::steady_clock''
     | ClockUptimeRaw \<Rightarrow> ''clock_gettime_nsec_np(CLOCK_UPTIME_RAW)''
     | ClockMonotonicRaw \<Rightarrow> (if p = Apple then ''clock_gettime_nsec_np(CLOCK_MONOTONIC_RAW)'' else ''clock_gettime(CLOCK_MONOTONIC_RAW)'')
     | MachAbsoluteTime \<Rightarrow> ''mach_absolute_time''
     | ClockMonotonic \<Rightarrow> ''clock_gettime(CLOCK_MONOTONIC)'')"

text \<open>A \<^verbatim>\<open>timespec\<close> in nanoseconds, and the tick counter of macOS with its time base.\<close>

definition timespec_ns :: "u64 \<Rightarrow> u64 \<Rightarrow> u64" where
  "timespec_ns tv_sec tv_nsec = tv_sec * 1000000000 + tv_nsec"

definition mach_absolute_ns :: "u32 \<Rightarrow> u32 \<Rightarrow> u64 \<Rightarrow> u64" where
  "mach_absolute_ns numer denom ticks =
    (if numer = denom then ticks
     else if denom = 1 then ticks * ucast numer
     else ucast ((ucast ticks * ucast numer :: 128 word) div ucast denom))"

text \<open>The platform's readings, one per clock.\<close>

record clock_api =
  ca_steady :: u64
  ca_uptime_raw :: u64
  ca_monotonic :: "u64 \<times> u64"
  ca_monotonic_raw :: "u64 \<times> u64"
  ca_apple_monotonic_raw :: u64
  ca_ticks :: u64
  ca_timebase :: "u32 \<times> u32"

definition read_clock_ns :: "platform \<Rightarrow> clock_api \<Rightarrow> clock_source \<Rightarrow> u64" where
  "read_clock_ns p c source =
    (if source \<notin> set (clock_candidates p) then ca_steady c
     else case source of
       SteadyClock \<Rightarrow> ca_steady c
     | ClockUptimeRaw \<Rightarrow> ca_uptime_raw c
     | ClockMonotonicRaw \<Rightarrow> (if p = Apple then ca_apple_monotonic_raw c
         else timespec_ns (fst (ca_monotonic_raw c)) (snd (ca_monotonic_raw c)))
     | MachAbsoluteTime \<Rightarrow> mach_absolute_ns (fst (ca_timebase c)) (snd (ca_timebase c)) (ca_ticks c)
     | ClockMonotonic \<Rightarrow> timespec_ns (fst (ca_monotonic c)) (snd (ca_monotonic c)))"

text \<open>A result of the benchmark is a clock with its nanoseconds per call; \<^verbatim>\<open>std::min_element\<close> takes the first smallest.\<close>

type_synonym clock_benchmark_result = "clock_source \<times> dbl"

definition choose_best_clock_source :: "clock_benchmark_result list \<Rightarrow> clock_source" where
  "choose_best_clock_source results =
    (case results of [] \<Rightarrow> SteadyClock
     | r # rs \<Rightarrow> fst (fold (\<lambda>x best. if snd x < snd best then x else best) rs r))"

fun insert_cost :: "clock_benchmark_result \<Rightarrow> clock_benchmark_result list \<Rightarrow> clock_benchmark_result list" where
  "insert_cost r [] = [r]"
| "insert_cost r (x # xs) = (if snd r < snd x then r # x # xs else x # insert_cost r xs)"

text \<open>The measured cost of every candidate, sorted.\<close>

definition benchmark_clock_sources :: "platform \<Rightarrow> (clock_source \<Rightarrow> dbl) \<Rightarrow> clock_benchmark_result list" where
  "benchmark_clock_sources p cost = fold insert_cost (map (\<lambda>s. (s, cost s)) (clock_candidates p)) []"

definition clock_cost_of :: "clock_benchmark_result list \<Rightarrow> clock_source \<Rightarrow> dbl" where
  "clock_cost_of results source = (case find (\<lambda>r. fst r = source) results of None \<Rightarrow> 0 | Some r \<Rightarrow> snd r)"

text \<open>The clock a start picks, and its cost.\<close>

definition start_clock :: "platform \<Rightarrow> (clock_source \<Rightarrow> dbl) \<Rightarrow> bool \<Rightarrow> clock_source \<times> dbl" where
  "start_clock p cost benchmark =
    (if benchmark then
       let results = benchmark_clock_sources p cost; source = choose_best_clock_source results
       in (source, clock_cost_of results source)
     else (SteadyClock, 0))"

section \<open>Events\<close>

type_synonym latency_symbol = "char list"

definition SYMBOL_SIZE :: nat where "SYMBOL_SIZE = 24"

text \<open>The local function \<^verbatim>\<open>append\<close> of \<^verbatim>\<open>format_symbol\<close>, on the array and the offset.\<close>

definition append_part :: "string \<Rightarrow> latency_symbol \<times> nat \<Rightarrow> latency_symbol \<times> nat" where
  "append_part part o' =
    (case o' of (out, offset) \<Rightarrow>
       let remaining = (if offset < SYMBOL_SIZE then SYMBOL_SIZE - offset - 1 else 0);
           copy_len = min (length part) remaining
       in if 0 < copy_len then (take offset out @ take copy_len part @ drop (offset + copy_len) out, offset + copy_len)
          else (out, offset))"

definition append_slash :: "latency_symbol \<times> nat \<Rightarrow> latency_symbol \<times> nat" where
  "append_slash o' =
    (case o' of (out, offset) \<Rightarrow> if offset + 1 < SYMBOL_SIZE then (out[offset := CHR ''/''], offset + 1) else (out, offset))"

definition format_symbol :: "symbol_id \<Rightarrow> latency_symbol" where
  "format_symbol symbol =
    (case append_part (get_quote symbol) (append_slash (append_part (get_base symbol) (replicate SYMBOL_SIZE NUL, 0))) of
       (out, offset) \<Rightarrow> out[min offset (SYMBOL_SIZE - 1) := NUL])"

text \<open>What printing the array as a C string shows.\<close>

definition symbol_chars :: "latency_symbol \<Rightarrow> string" where
  "symbol_chars a = takeWhile (\<lambda>c. c \<noteq> NUL) a"

record latency_event =
  le_run_id :: u64
  le_trace_id :: u64
  le_monotonic_ns :: u64
  le_delta_ns :: u64
  le_stage :: latency_stage
  le_aux0 :: int
  le_aux1 :: int
  le_value0 :: dbl
  le_value1 :: dbl
  le_symbol :: latency_symbol

definition trace_delta :: "u64 \<Rightarrow> u64 \<Rightarrow> u64" where
  "trace_delta trace_start_ns now_ns = (if 0 < trace_start_ns \<and> trace_start_ns \<le> now_ns then now_ns - trace_start_ns else 0)"

text \<open>The event \<^verbatim>\<open>record_at_ns\<close> publishes; nothing while the probe is disabled.\<close>

definition record_at_ns :: "bool \<Rightarrow> u64 \<Rightarrow> u64 \<Rightarrow> latency_symbol \<Rightarrow> latency_stage \<Rightarrow> u64 \<Rightarrow> u64 \<Rightarrow> int \<Rightarrow> int \<Rightarrow> dbl \<Rightarrow> dbl \<Rightarrow>
    latency_event option" where
  "record_at_ns enabled run_id trace_id symbol stage trace_start_ns now_ns aux0 aux1 value0 value1 =
    (if \<not> enabled then None
     else Some \<lparr>le_run_id = run_id, le_trace_id = trace_id, le_monotonic_ns = now_ns, le_delta_ns = trace_delta trace_start_ns now_ns,
       le_stage = stage, le_aux0 = aux0, le_aux1 = aux1, le_value0 = value0, le_value1 = value1, le_symbol = symbol\<rparr>)"

text \<open>\<^verbatim>\<open>record\<close> reads the clock and formats the symbol first.\<close>

definition record_now :: "bool \<Rightarrow> u64 \<Rightarrow> u64 \<Rightarrow> u64 \<Rightarrow> symbol_id \<Rightarrow> latency_stage \<Rightarrow> u64 \<Rightarrow> int \<Rightarrow> int \<Rightarrow> dbl \<Rightarrow> dbl \<Rightarrow>
    latency_event option" where
  "record_now enabled run_id now trace_id symbol stage trace_start_ns aux0 aux1 value0 value1 =
    (if \<not> enabled then None
     else record_at_ns enabled run_id trace_id (format_symbol symbol) stage trace_start_ns now aux0 aux1 value0 value1)"

section \<open>Output files\<close>

datatype output_mode = CsvText | Binary | MmapBinary

definition latency_output_mode_name :: "output_mode \<Rightarrow> string" where
  "latency_output_mode_name mode = (case mode of CsvText \<Rightarrow> ''csv'' | Binary \<Rightarrow> ''binary'' | MmapBinary \<Rightarrow> ''mmap'')"

definition output_mode_code :: "output_mode \<Rightarrow> nat" where
  "output_mode_code mode = (case mode of CsvText \<Rightarrow> 0 | Binary \<Rightarrow> 1 | MmapBinary \<Rightarrow> 2)"

record binary_header =
  bh_magic :: string
  bh_version :: nat
  bh_event_size :: nat
  bh_clock_source :: nat
  bh_output_mode :: nat
  bh_run_id :: u64

definition HEADER_BYTES :: nat where "HEADER_BYTES = 64"

text \<open>\<^verbatim>\<open>sizeof(LatencyEvent)\<close>: four words, a byte with its padding, four words and the symbol.\<close>

definition EVENT_BYTES :: nat where "EVENT_BYTES = 96"

datatype block = HeaderBlock binary_header | EventBlock latency_event

fun block_bytes :: "block \<Rightarrow> nat" where
  "block_bytes (HeaderBlock h) = HEADER_BYTES"
| "block_bytes (EventBlock e) = EVENT_BYTES"

record trace_summary =
  ts_stage_ns :: "int list"
  ts_symbol :: latency_symbol

definition trace_summary_default :: trace_summary where
  "trace_summary_default = \<lparr>ts_stage_ns = replicate STAGE_COUNT (- 1), ts_symbol = replicate SYMBOL_SIZE NUL\<rparr>"

text \<open>
  The files: \<open>lo_events_out\<close> is the text stream, \<open>lo_events_file\<close> the buffered binary file, \<open>lo_mmap\<close> what has been
  written through the mapping, each \<open>None\<close> while it is not open.
\<close>

record outputs =
  lo_run_id :: u64
  lo_clock :: nat
  lo_mode :: output_mode
  lo_summary_enabled :: bool
  lo_mmap_initial :: nat
  lo_events_out :: "string option"
  lo_events_file :: "block list option"
  lo_fd :: bool
  lo_mmap :: "block list option"
  lo_capacity :: nat
  lo_used :: nat
  lo_summary_out :: "string option"
  lo_summaries :: "u64 \<rightharpoonup> trace_summary"

text \<open>
  The operating system: the page size, what the files hold before (\<open>None\<close> when there is none), whether they can be
  opened, and the capacities for which a mapping succeeds.
\<close>

record probe_os =
  os_page_size :: int
  os_events_text :: "string option"
  os_events_blocks :: "block list option"
  os_summary_text :: "string option"
  os_events_opens :: bool
  os_summary_opens :: bool
  os_maps :: "nat \<Rightarrow> bool"

definition page_align :: "probe_os \<Rightarrow> nat \<Rightarrow> nat" where
  "page_align os bytes =
    (let page = (if os_page_size os \<le> 0 then 4096 else nat (os_page_size os)) in ((bytes + page - 1) div page) * page)"

partial_function (option) double_until :: "nat \<Rightarrow> nat \<Rightarrow> nat option" where
  "double_until capacity required = (if capacity < required then double_until (2 * capacity) required else Some capacity)"

definition ensure_mmap_capacity :: "probe_os \<Rightarrow> nat \<Rightarrow> outputs \<Rightarrow> outputs option" where
  "ensure_mmap_capacity os additional_bytes o' =
    (if lo_mmap o' = None \<or> \<not> lo_fd o' then Some o'
     else let required = lo_used o' + additional_bytes in
       if required \<le> lo_capacity o' then Some o'
       else case double_until (if 0 < lo_capacity o' then lo_capacity o' else page_align os (lo_mmap_initial o')) required of
         None \<Rightarrow> None
       | Some new_capacity \<Rightarrow>
           let new_capacity = page_align os new_capacity in
           if os_maps os new_capacity then Some (o'\<lparr>lo_capacity := new_capacity\<rparr>)
           else Some (o'\<lparr>lo_mmap := None, lo_capacity := 0\<rparr>))"

text \<open>The write through the mapping, after the capacity was checked; the pointer is not looked at again.\<close>

definition mmap_append :: "probe_os \<Rightarrow> block \<Rightarrow> outputs \<Rightarrow> outputs option" where
  "mmap_append os b o' =
    (case ensure_mmap_capacity os (block_bytes b) o' of None \<Rightarrow> None
     | Some o' \<Rightarrow>
        (case lo_mmap o' of None \<Rightarrow> None
         | Some bs \<Rightarrow>
            if lo_capacity o' < lo_used o' + block_bytes b then None
            else Some (o'\<lparr>lo_mmap := Some (bs @ [b]), lo_used := lo_used o' + block_bytes b\<rparr>)))"

definition header_of :: "outputs \<Rightarrow> binary_header" where
  "header_of o' = \<lparr>bh_magic = ''KLATv1'', bh_version = 1, bh_event_size = EVENT_BYTES, bh_clock_source = lo_clock o',
     bh_output_mode = output_mode_code (lo_mode o'), bh_run_id = lo_run_id o'\<rparr>"

definition write_binary_header :: "probe_os \<Rightarrow> outputs \<Rightarrow> outputs option" where
  "write_binary_header os o' =
    (case lo_mode o' of
       CsvText \<Rightarrow> Some o'
     | Binary \<Rightarrow>
        (case lo_events_file o' of None \<Rightarrow> Some o'
         | Some bs \<Rightarrow> Some (o'\<lparr>lo_events_file := Some (bs @ [HeaderBlock (header_of o')])\<rparr>))
     | MmapBinary \<Rightarrow> (if lo_mmap o' = None then Some o' else mmap_append os (HeaderBlock (header_of o')) o'))"

definition EVENT_COLUMNS :: "string list" where
  "EVENT_COLUMNS =
    [''run_id'', ''trace_id'', ''symbol'', ''stage'', ''monotonic_ns'', ''delta_ns'', ''aux0'', ''aux1'', ''value0'', ''value1'']"

definition SUMMARY_COLUMNS :: "string list" where
  "SUMMARY_COLUMNS =
    [''run_id'', ''trace_id'', ''symbol'', ''terminal_stage'',
     ''total_ns'', ''detect_to_enqueue_ns'', ''queue_to_worker_ns'', ''worker_to_entry_loop_ns'',
     ''entry_loop_prep_ns'', ''entry_foreign_submit_ns'', ''entry_foreign_fill_queue_ns'', ''entry_foreign_fill_ns'',
     ''entry_foreign_to_korean_gap_ns'', ''entry_korean_submit_ns'', ''entry_korean_fill_queue_ns'', ''entry_korean_fill_ns'',
     ''entry_total_ns'', ''exit_loop_prep_ns'', ''exit_foreign_submit_ns'', ''exit_foreign_fill_queue_ns'',
     ''exit_foreign_fill_ns'', ''exit_foreign_to_korean_gap_ns'', ''exit_korean_submit_ns'', ''exit_korean_fill_queue_ns'',
     ''exit_korean_fill_ns'', ''exit_total_ns'', ''reentry_loop_prep_ns'', ''reentry_foreign_submit_ns'',
     ''reentry_foreign_fill_queue_ns'', ''reentry_foreign_fill_ns'', ''reentry_foreign_to_korean_gap_ns'', ''reentry_korean_submit_ns'',
     ''reentry_korean_fill_queue_ns'', ''reentry_korean_fill_ns'', ''reentry_total_ns'']"

definition csv_line :: "string list \<Rightarrow> string" where
  "csv_line columns = join_with '','' columns @ ''\<newline>''"

definition u64_text :: "u64 \<Rightarrow> string" where
  "u64_text w = dec_digits (unat w)"

text \<open>What \<^verbatim>\<open>file_has_content\<close> says of a file.\<close>

definition has_content :: "'a list option \<Rightarrow> bool" where
  "has_content file \<longleftrightarrow> (case file of None \<Rightarrow> False | Some s \<Rightarrow> s \<noteq> [])"

definition old_content :: "'a list option \<Rightarrow> 'a list" where
  "old_content file = (case file of None \<Rightarrow> [] | Some s \<Rightarrow> s)"

definition open_events :: "probe_os \<Rightarrow> outputs \<Rightarrow> outputs option" where
  "open_events os o' =
    (case lo_mode o' of
       CsvText \<Rightarrow>
        Some (if os_events_opens os
          then o'\<lparr>lo_events_out := Some (old_content (os_events_text os) @
                 (if has_content (os_events_text os) then [] else csv_line EVENT_COLUMNS))\<rparr>
          else o')
     | Binary \<Rightarrow>
        if \<not> os_events_opens os then Some o'
        else if has_content (os_events_blocks os) then Some (o'\<lparr>lo_events_file := os_events_blocks os\<rparr>)
        else write_binary_header os (o'\<lparr>lo_events_file := Some []\<rparr>)
     | MmapBinary \<Rightarrow>
        if \<not> os_events_opens os then Some o'
        else let o' = o'\<lparr>lo_capacity := page_align os (lo_mmap_initial o')\<rparr> in
          if os_maps os (lo_capacity o')
          then write_binary_header os (o'\<lparr>lo_fd := True, lo_mmap := Some [], lo_used := 0\<rparr>)
          else Some (o'\<lparr>lo_fd := False, lo_mmap := None\<rparr>))"

definition open_summary :: "probe_os \<Rightarrow> outputs \<Rightarrow> outputs" where
  "open_summary os o' =
    (if lo_summary_enabled o' \<and> os_summary_opens os
     then o'\<lparr>lo_summary_out := Some (old_content (os_summary_text os) @
            (if has_content (os_summary_text os) then [] else csv_line SUMMARY_COLUMNS))\<rparr>
     else o')"

definition open_outputs :: "probe_os \<Rightarrow> outputs \<Rightarrow> outputs option" where
  "open_outputs os o' = map_option (open_summary os) (open_events os o')"

section \<open>Rows\<close>

definition event_row :: "latency_event \<Rightarrow> string list" where
  "event_row e =
    [u64_text (le_run_id e), u64_text (le_trace_id e), symbol_chars (le_symbol e), latency_stage_name (le_stage e),
     u64_text (le_monotonic_ns e), u64_text (le_delta_ns e), int_text (le_aux0 e), int_text (le_aux1 e),
     format_fixed 8 (le_value0 e), format_fixed 8 (le_value1 e)]"

definition write_event_row :: "probe_os \<Rightarrow> latency_event \<Rightarrow> outputs \<Rightarrow> outputs option" where
  "write_event_row os e o' =
    (case lo_mode o' of
       CsvText \<Rightarrow> Some (o'\<lparr>lo_events_out := map_option (\<lambda>s. s @ csv_line (event_row e)) (lo_events_out o')\<rparr>)
     | Binary \<Rightarrow> Some (o'\<lparr>lo_events_file := map_option (\<lambda>bs. bs @ [EventBlock e]) (lo_events_file o')\<rparr>)
     | MmapBinary \<Rightarrow> (if lo_mmap o' = None then Some o' else mmap_append os (EventBlock e) o'))"

text \<open>The stretches between two stages that a summary shows, in the order of its columns.\<close>

definition SPANS :: "(latency_stage \<times> latency_stage) list" where
  "SPANS =
    [(SignalDetected, LifecycleEnqueued),
     (LifecycleEnqueued, LifecyclePickedUp),
     (LifecyclePickedUp, EntryLoopStart),
     (EntryLoopStart, EntryForeignSubmitStart),
     (EntryForeignSubmitStart, EntryForeignSubmitAck),
     (EntryForeignFillQueryStart, EntryForeignFillWorkerStart),
     (EntryForeignFillWorkerStart, EntryForeignFillDone),
     (EntryForeignSubmitAck, EntryKoreanSubmitStart),
     (EntryKoreanSubmitStart, EntryKoreanSubmitAck),
     (EntryKoreanFillQueryStart, EntryKoreanFillWorkerStart),
     (EntryKoreanFillWorkerStart, EntryKoreanFillDone),
     (SignalDetected, EntryCompleted),
     (ExitLoopStart, ExitForeignSubmitStart),
     (ExitForeignSubmitStart, ExitForeignSubmitAck),
     (ExitForeignFillQueryStart, ExitForeignFillWorkerStart),
     (ExitForeignFillWorkerStart, ExitForeignFillDone),
     (ExitForeignSubmitAck, ExitKoreanSubmitStart),
     (ExitKoreanSubmitStart, ExitKoreanSubmitAck),
     (ExitKoreanFillQueryStart, ExitKoreanFillWorkerStart),
     (ExitKoreanFillWorkerStart, ExitKoreanFillDone),
     (ExitLoopStart, ExitCompleted),
     (ReentryLoopStart, ReentryForeignSubmitStart),
     (ReentryForeignSubmitStart, ReentryForeignSubmitAck),
     (ReentryForeignFillQueryStart, ReentryForeignFillWorkerStart),
     (ReentryForeignFillWorkerStart, ReentryForeignFillDone),
     (ReentryForeignSubmitAck, ReentryKoreanSubmitStart),
     (ReentryKoreanSubmitStart, ReentryKoreanSubmitAck),
     (ReentryKoreanFillQueryStart, ReentryKoreanFillWorkerStart),
     (ReentryKoreanFillWorkerStart, ReentryKoreanFillDone),
     (ReentryLoopStart, ReentryCompleted)]"

definition stage_ns :: "trace_summary \<Rightarrow> latency_stage \<Rightarrow> int" where
  "stage_ns s stage = ts_stage_ns s ! stage_code stage"

definition span :: "trace_summary \<Rightarrow> latency_stage \<Rightarrow> latency_stage \<Rightarrow> int" where
  "span s from to =
    (let a = stage_ns s from; b = stage_ns s to in if a < 0 \<or> b < 0 \<or> b < a then - 1 else b - a)"

definition summary_row :: "u64 \<Rightarrow> u64 \<Rightarrow> latency_stage \<Rightarrow> trace_summary \<Rightarrow> string list" where
  "summary_row run_id trace_id terminal_stage s =
    [u64_text run_id, u64_text trace_id, symbol_chars (ts_symbol s), latency_stage_name terminal_stage, int_text (stage_ns s terminal_stage)] @
    map (\<lambda>(from, to). int_text (span s from to)) SPANS"

definition write_summary_row :: "u64 \<Rightarrow> latency_stage \<Rightarrow> trace_summary \<Rightarrow> outputs \<Rightarrow> outputs" where
  "write_summary_row trace_id terminal_stage s o' =
    o'\<lparr>lo_summary_out := map_option (\<lambda>t. t @ csv_line (summary_row (lo_run_id o') trace_id terminal_stage s)) (lo_summary_out o')\<rparr>"

text \<open>The part of the export loop that keeps the summaries.\<close>

definition note_stage :: "latency_event \<Rightarrow> trace_summary \<Rightarrow> trace_summary" where
  "note_stage e s =
    (let s = (if ts_symbol s ! 0 = NUL then s\<lparr>ts_symbol := le_symbol e\<rparr> else s);
         i = stage_code (le_stage e)
     in if i < length (ts_stage_ns s) then s\<lparr>ts_stage_ns := (ts_stage_ns s)[i := sint (le_delta_ns e)]\<rparr> else s)"

definition update_summary :: "latency_event \<Rightarrow> outputs \<Rightarrow> outputs" where
  "update_summary e o' =
    (let s = note_stage e (case lo_summaries o' (le_trace_id e) of None \<Rightarrow> trace_summary_default | Some s \<Rightarrow> s);
         o' = o'\<lparr>lo_summaries := (lo_summaries o')(le_trace_id e \<mapsto> s)\<rparr>
     in if is_terminal_stage (le_stage e)
        then (write_summary_row (le_trace_id e) (le_stage e) s o')\<lparr>lo_summaries := (lo_summaries o')(le_trace_id e := None)\<rparr>
        else o')"

definition export_event :: "probe_os \<Rightarrow> latency_event \<Rightarrow> outputs \<Rightarrow> outputs option" where
  "export_event os e o' =
    (case write_event_row os e o' of None \<Rightarrow> None
     | Some o' \<Rightarrow> Some (if lo_summary_enabled o' then update_summary e o' else o'))"

fun export_all :: "probe_os \<Rightarrow> latency_event list \<Rightarrow> outputs \<Rightarrow> outputs option" where
  "export_all os [] o' = Some o'"
| "export_all os (e # es) o' = (case export_event os e o' of None \<Rightarrow> None | Some o' \<Rightarrow> export_all os es o')"

section \<open>Closing\<close>

text \<open>What closing leaves in the files: the mapped file is cut back to what was written.\<close>

definition close_outputs :: "outputs \<Rightarrow> outputs" where
  "close_outputs o' =
    (let o' = o'\<lparr>lo_events_out := None, lo_events_file := None, lo_summary_out := None\<rparr>
     in if lo_mmap o' \<noteq> None \<and> lo_fd o' then o'\<lparr>lo_mmap := None, lo_fd := False, lo_capacity := 0, lo_used := 0\<rparr> else o')"

section \<open>Stages and clocks\<close>

lemma distinct_stages: "distinct ALL_STAGES"
  by (simp add: ALL_STAGES_def)

lemma all_stages: "s \<in> set ALL_STAGES"
  by (cases s) (simp_all add: ALL_STAGES_def)

lemma stage_code_bound: "stage_code s < length ALL_STAGES"
  unfolding stage_code_def using all_stages [of s] takeWhile_eq_all_conv [of "\<lambda>x. x \<noteq> s" ALL_STAGES]
    length_takeWhile_le [of "\<lambda>x. x \<noteq> s" ALL_STAGES] takeWhile_eq_take [of "\<lambda>x. x \<noteq> s" ALL_STAGES]
  by (metis le_neq_implies_less take_all_iff order_refl)

lemma stage_of_code [simp]: "ALL_STAGES ! stage_code s = s"
  using nth_length_takeWhile [of "\<lambda>x. x \<noteq> s" ALL_STAGES] stage_code_bound [of s] by (simp add: stage_code_def)

lemma stage_code_inject: "stage_code s = stage_code t \<longleftrightarrow> s = t"
  by (metis stage_of_code)

lemma stage_count: "STAGE_COUNT = 40"
  by (simp add: STAGE_COUNT_def stage_code_def ALL_STAGES_def)

lemma stage_code_recorded: "s \<noteq> StageCount \<Longrightarrow> stage_code s < STAGE_COUNT"
proof -
  assume "s \<noteq> StageCount"
  then have "stage_code s \<noteq> STAGE_COUNT" using stage_code_inject [of s StageCount] by (simp add: STAGE_COUNT_def)
  moreover have "length ALL_STAGES = 41" by (simp add: ALL_STAGES_def)
  ultimately show ?thesis using stage_code_bound [of s] by (simp add: stage_count)
qed

lemma set_insert_cost [simp]: "set (insert_cost r xs) = insert r (set xs)"
  by (induction xs) auto

lemma set_fold_insert_cost: "set (fold insert_cost rs acc) = set rs \<union> set acc"
  by (induction rs arbitrary: acc) auto

lemma fold_smallest:
  "(\<forall>x \<in> set (b # xs). snd x \<noteq> NaN) \<Longrightarrow>
    (let m = fold (\<lambda>x best. if snd x < snd best then x else best) xs b
     in m \<in> set (b # xs) \<and> (\<forall>x \<in> set (b # xs). snd m \<le> snd x))"
proof (induction xs arbitrary: b)
  case Nil
  then show ?case by (simp add: dbl_le_refl)
next
  case (Cons x xs)
  let ?b = "if snd x < snd b then x else b"
  have le: "snd ?b \<le> snd b" "snd ?b \<le> snd x"
    using Cons.prems by (auto simp: dbl_le_refl dbl_lt_le dbl_not_lt)
  have "(let m = fold (\<lambda>x best. if snd x < snd best then x else best) xs ?b
     in m \<in> set (?b # xs) \<and> (\<forall>x \<in> set (?b # xs). snd m \<le> snd x))"
    by (rule Cons.IH) (use Cons.prems in auto)
  then obtain m where m: "fold (\<lambda>x best. if snd x < snd best then x else best) xs ?b = m" "m \<in> set (?b # xs)"
      "\<forall>x \<in> set (?b # xs). snd m \<le> snd x"
    unfolding Let_def by blast
  have "snd m \<le> snd ?b" using m(3) by simp
  then have "snd m \<le> snd b" "snd m \<le> snd x" using le dbl_le_trans by blast+
  moreover have "m \<in> set (b # x # xs)" using m(2) by (auto split: if_splits)
  ultimately show ?case using m(1,3) by (simp add: Let_def)
qed

text \<open>The clock that is picked is one of the platform's, none is cheaper, and its cost is what was measured.\<close>

lemma start_clock_cheapest:
  assumes num: "\<And>s. cost s \<noteq> NaN" and c: "start_clock p cost True = (source, ns)"
  shows "source \<in> set (clock_candidates p) \<and> ns = cost source \<and> (\<forall>s \<in> set (clock_candidates p). ns \<le> cost s)"
proof -
  define rs where "rs = benchmark_clock_sources p cost"
  have set: "set rs = (\<lambda>s. (s, cost s)) ` set (clock_candidates p)"
    by (simp add: rs_def benchmark_clock_sources_def set_fold_insert_cost)
  moreover have "clock_candidates p \<noteq> []" by (simp add: clock_candidates_def split: platform.split)
  ultimately obtain r rs' where rs: "rs = r # rs'" by (cases rs) auto
  define m where "m = fold (\<lambda>x best. if snd x < snd best then x else best) rs' r"
  have m: "m \<in> set rs" "\<forall>x \<in> set rs. snd m \<le> snd x"
  proof -
    have "\<forall>x \<in> set (r # rs'). snd x \<noteq> NaN" using set num unfolding rs by auto
    from fold_smallest [OF this] show "m \<in> set rs" "\<forall>x \<in> set rs. snd m \<le> snd x" by (simp_all add: m_def Let_def rs)
  qed
  have source: "source = fst m" and ns: "ns = clock_cost_of rs source"
    using c by (auto simp: start_clock_def Let_def rs_def [symmetric] choose_best_clock_source_def rs m_def)
  have snd: "snd m = cost (fst m)" using m(1) set by auto
  have "find (\<lambda>r. fst r = source) rs \<noteq> None" unfolding find_None_iff using m(1) source by blast
  then obtain x where "find (\<lambda>r. fst r = source) rs = Some x" by blast
  moreover from this have "fst x = source" "x \<in> set rs" by (auto simp: find_Some_iff)
  ultimately have "ns = cost source" using set by (auto simp: ns clock_cost_of_def)
  then show ?thesis using m set snd source by auto
qed

section \<open>Symbols and deltas\<close>

definition filled :: "string \<Rightarrow> latency_symbol \<times> nat" where
  "filled t = (t @ replicate (SYMBOL_SIZE - length t) NUL, length t)"

lemma take_take_append: "take n (take n xs @ ys) = take n (xs @ ys)"
  by (cases "length xs \<le> n") auto

lemma append_part_filled:
  assumes "length t < SYMBOL_SIZE"
  shows "append_part p (filled t) = filled (take 23 (t @ p))"
  using assms by (auto simp: append_part_def filled_def SYMBOL_SIZE_def Let_def min_def)

lemma filled_slash:
  assumes "length t < 24"
  shows "append_slash (filled t) = filled (take 23 (t @ ''/''))"
proof (cases "length t < 23")
  case True
  then obtain k where "24 - length t = Suc k" by (cases "24 - length t") auto
  then show ?thesis using True by (auto simp: append_slash_def filled_def SYMBOL_SIZE_def list_update_append)
next
  case False
  then show ?thesis using assms by (simp add: append_slash_def filled_def SYMBOL_SIZE_def)
qed

text \<open>The array prints as the symbol cut to 23 characters.\<close>

lemma format_symbol_text: "symbol_chars (format_symbol s) = take 23 (symbol_to_string s)"
proof -
  define t where "t = take 23 (get_base s @ ''/'' @ get_quote s)"
  have f: "format_symbol s = (case filled t of (out, offset) \<Rightarrow> out[min offset 23 := NUL])"
  proof -
    have 1: "append_part (get_base s) (replicate SYMBOL_SIZE NUL, 0) = filled (take 23 (get_base s))"
      using append_part_filled [of "[]" "get_base s"] by (simp add: filled_def SYMBOL_SIZE_def)
    have 2: "append_slash (filled (take 23 (get_base s))) = filled (take 23 (get_base s @ ''/''))"
      using filled_slash [of "take 23 (get_base s)"] by (simp only: take_take_append) (simp add: SYMBOL_SIZE_def)
    have 3: "append_part (get_quote s) (filled (take 23 (get_base s @ ''/''))) = filled t"
      using append_part_filled [of "take 23 (get_base s @ ''/'')" "get_quote s"]
      by (simp only: take_take_append t_def append_assoc) (simp add: SYMBOL_SIZE_def)
    show ?thesis unfolding format_symbol_def 1 2 3 by (simp add: SYMBOL_SIZE_def)
  qed
  have len: "length t \<le> 23" by (simp add: t_def)
  have "\<forall>c \<in> set t. c \<noteq> NUL"
    using set_take_subset [of 23 "get_base s @ ''/'' @ get_quote s"]
    by (auto simp: t_def get_base_def get_quote_def dest!: subsetD set_takeWhileD)
  moreover obtain k where "24 - length t = Suc k" using len by (cases "24 - length t") auto
  ultimately show ?thesis
    using len by (simp add: f filled_def SYMBOL_SIZE_def symbol_chars_def list_update_append takeWhile_append2)
      (simp add: t_def symbol_to_string_def)
qed

lemma trace_delta_exact: "unat (trace_delta a b) = (if 0 < a \<and> a \<le> b then unat b - unat a else 0)"
  by (simp add: trace_delta_def unat_sub_if' word_le_nat_alt)

section \<open>The mapped file\<close>

lemma double_until_returns: "0 < c \<Longrightarrow> \<exists>k. double_until c required = Some (2 ^ k * c) \<and> required \<le> 2 ^ k * c"
proof (induction "required - c" arbitrary: c rule: less_induct)
  case less
  show ?case
  proof (cases "c < required")
    case True
    obtain k where "double_until (2 * c) required = Some (2 ^ k * (2 * c))" "required \<le> 2 ^ k * (2 * c)"
      using less.hyps [of "2 * c"] less.prems True by fastforce
    then show ?thesis using True by (intro exI [of _ "Suc k"]) (simp add: double_until.simps [of c] ac_simps)
  next
    case False
    then show ?thesis by (intro exI [of _ 0]) (simp add: double_until.simps [of c])
  qed
qed

text \<open>A file that would have to grow from nothing makes the loop run for ever.\<close>

lemma page_align_le: "bytes \<le> page_align os bytes"
proof -
  define page where "page = (if os_page_size os \<le> 0 then 4096 else nat (os_page_size os))"
  have "0 < page" by (simp add: page_def)
  have "(bytes + page - 1) mod page < page" using \<open>0 < page\<close> by simp
  then have "bytes + page - 1 < ((bytes + page - 1) div page) * page + page"
    using div_mult_mod_eq [of "bytes + page - 1" page] by linarith
  then show ?thesis using \<open>0 < page\<close> by (simp add: page_align_def Let_def page_def [symmetric])
qed

definition mapped_ok :: "outputs \<Rightarrow> bool" where
  "mapped_ok o' \<longleftrightarrow> lo_mode o' = MmapBinary \<and> lo_fd o' \<and> 0 < lo_capacity o' \<and> lo_used o' \<le> lo_capacity o' \<and>
    (case lo_mmap o' of None \<Rightarrow> False | Some bs \<Rightarrow> lo_used o' = sum_list (map block_bytes bs))"

lemma mmap_append_ok:
  assumes "mapped_ok o'" "\<And>c. os_maps os c" "lo_mmap o' = Some bs"
  shows "\<exists>o''. mmap_append os b o' = Some o'' \<and> mapped_ok o'' \<and> lo_mmap o'' = Some (bs @ [b]) \<and>
    lo_mode o'' = lo_mode o' \<and> lo_run_id o'' = lo_run_id o' \<and> lo_clock o'' = lo_clock o'"
proof -
  let ?r = "lo_used o' + block_bytes b"
  obtain k where k: "double_until (lo_capacity o') ?r = Some (2 ^ k * lo_capacity o')" "?r \<le> 2 ^ k * lo_capacity o'"
    using double_until_returns [of "lo_capacity o'" ?r] assms(1) by (auto simp: mapped_ok_def)
  have "?r \<le> page_align os (2 ^ k * lo_capacity o')" using k(2) page_align_le [of "2 ^ k * lo_capacity o'" os] by linarith
  moreover have "0 < page_align os (2 ^ k * lo_capacity o')"
    using assms(1) page_align_le [of "2 ^ k * lo_capacity o'" os] by (intro less_le_trans [OF _ page_align_le]) (simp add: mapped_ok_def)
  ultimately show ?thesis
    using assms k by (auto simp: mmap_append_def ensure_mmap_capacity_def Let_def mapped_ok_def)
qed

lemma update_summary_files [simp]:
  "lo_mmap (update_summary e o') = lo_mmap o'" "lo_fd (update_summary e o') = lo_fd o'" "lo_mode (update_summary e o') = lo_mode o'"
  "lo_used (update_summary e o') = lo_used o'" "lo_capacity (update_summary e o') = lo_capacity o'"
  "lo_events_out (update_summary e o') = lo_events_out o'" "lo_events_file (update_summary e o') = lo_events_file o'"
  by (simp_all add: update_summary_def write_summary_row_def Let_def)

lemma mapped_ok_summary [simp]: "mapped_ok (update_summary e o') \<longleftrightarrow> mapped_ok o'"
  by (cases "lo_mmap o'") (simp_all add: mapped_ok_def)

lemma export_all_mapped:
  assumes "mapped_ok o'" "\<And>c. os_maps os c" "lo_mmap o' = Some bs"
  shows "\<exists>o''. export_all os es o' = Some o'' \<and> mapped_ok o'' \<and> lo_mmap o'' = Some (bs @ map EventBlock es)"
  using assms
proof (induction es arbitrary: o' bs)
  case (Cons e es)
  have mode: "lo_mode o' = MmapBinary" using Cons.prems(1) by (simp add: mapped_ok_def)
  obtain o1 where 1: "mmap_append os (EventBlock e) o' = Some o1" "mapped_ok o1" "lo_mmap o1 = Some (bs @ [EventBlock e])"
    using mmap_append_ok [OF Cons.prems, of "EventBlock e"] by blast
  define o2 where "o2 = (if lo_summary_enabled o1 then update_summary e o1 else o1)"
  have 2: "export_event os e o' = Some o2"
    using 1(1) Cons.prems(3) by (simp add: export_event_def write_event_row_def mode o2_def)
  have 3: "mapped_ok o2" "lo_mmap o2 = Some (bs @ [EventBlock e])" using 1 by (simp_all add: o2_def)
  show ?case using Cons.IH [OF 3(1) Cons.prems(2) 3(2)] 2 by auto
qed auto

lemma open_mapped:
  assumes "lo_mode o' = MmapBinary" "os_events_opens os" "\<And>c. os_maps os c" "0 < lo_mmap_initial o'"
  shows "\<exists>o''. open_outputs os o' = Some o'' \<and> mapped_ok o'' \<and> lo_mmap o'' = Some [HeaderBlock (header_of o')]"
proof -
  define o1 where "o1 = o'\<lparr>lo_capacity := page_align os (lo_mmap_initial o'), lo_fd := True, lo_mmap := Some [], lo_used := 0\<rparr>"
  have "mapped_ok o1"
    using assms(1,4) page_align_le [of "lo_mmap_initial o'" os] by (auto simp: mapped_ok_def o1_def)
  then obtain o2 where 2: "mmap_append os (HeaderBlock (header_of o1)) o1 = Some o2" "mapped_ok o2"
      "lo_mmap o2 = Some [HeaderBlock (header_of o1)]"
    using mmap_append_ok [of o1 os "[]" "HeaderBlock (header_of o1)"] assms(3) by (auto simp: o1_def)
  have h: "header_of o1 = header_of o'" by (simp add: header_of_def o1_def)
  have "open_events os o' = Some o2"
    using assms(1-3) 2(1) by (simp add: open_events_def Let_def o1_def write_binary_header_def)
  then show ?thesis using 2 by (auto simp: open_outputs_def open_summary_def mapped_ok_def h)
qed

text \<open>When the file has to grow and cannot be mapped, the next write goes through a null pointer.\<close>

lemma failed_growth_faults:
  assumes "lo_mode o' = MmapBinary" "mapped_ok o'" "lo_capacity o' < lo_used o' + EVENT_BYTES" "\<And>c. \<not> os_maps os c"
  shows "export_event os e o' = None"
proof -
  obtain bs where "lo_mmap o' = Some bs" using assms(2) by (cases "lo_mmap o'") (auto simp: mapped_ok_def)
  then show ?thesis
    using assms double_until_returns [of "lo_capacity o'" "lo_used o' + EVENT_BYTES"]
    by (auto simp: export_event_def write_event_row_def mmap_append_def ensure_mmap_capacity_def Let_def mapped_ok_def split: option.split)
qed

section \<open>The other files, and the summary\<close>

lemma export_all_text:
  assumes "lo_mode o' = CsvText" "lo_events_out o' = Some t"
  shows "\<exists>o''. export_all os es o' = Some o'' \<and> lo_events_out o'' = Some (t @ concat (map (csv_line \<circ> event_row) es))"
  using assms
proof (induction es arbitrary: o' t)
  case (Cons e es)
  define o1 where "o1 = o'\<lparr>lo_events_out := Some (t @ csv_line (event_row e))\<rparr>"
  define o2 where "o2 = (if lo_summary_enabled o1 then update_summary e o1 else o1)"
  have "export_event os e o' = Some o2"
    using Cons.prems by (simp add: export_event_def write_event_row_def o1_def o2_def)
  moreover have "lo_mode o2 = CsvText" "lo_events_out o2 = Some (t @ csv_line (event_row e))"
    using Cons.prems by (simp_all add: o1_def o2_def)
  ultimately show ?case using Cons.IH [of o2] by force
qed auto

lemma export_all_binary:
  assumes "lo_mode o' = Binary" "lo_events_file o' = Some bs"
  shows "\<exists>o''. export_all os es o' = Some o'' \<and> lo_events_file o'' = Some (bs @ map EventBlock es)"
  using assms
proof (induction es arbitrary: o' bs)
  case (Cons e es)
  define o1 where "o1 = o'\<lparr>lo_events_file := Some (bs @ [EventBlock e])\<rparr>"
  define o2 where "o2 = (if lo_summary_enabled o1 then update_summary e o1 else o1)"
  have "export_event os e o' = Some o2"
    using Cons.prems by (simp add: export_event_def write_event_row_def o1_def o2_def)
  moreover have "lo_mode o2 = Binary" "lo_events_file o2 = Some (bs @ [EventBlock e])"
    using Cons.prems by (simp_all add: o1_def o2_def)
  ultimately show ?case using Cons.IH [of o2] by force
qed auto

text \<open>A row of a file has as many columns as its header.\<close>

lemma rows_fit_headers:
  "length (event_row e) = length EVENT_COLUMNS" "length (summary_row r t s x) = length SUMMARY_COLUMNS"
  by (simp_all add: event_row_def EVENT_COLUMNS_def summary_row_def SUMMARY_COLUMNS_def SPANS_def)

lemma span_exact: "span s a b = (if 0 \<le> stage_ns s a \<and> stage_ns s a \<le> stage_ns s b then stage_ns s b - stage_ns s a else - 1)"
  by (auto simp: span_def Let_def)

end
