(* ===== verification/ProbeQueue.thy ===== *)
theory ProbeQueue
  imports LatencyProbe RingBuffer "HOL-Library.Multiset"
begin

text \<open>
  How the events of the latency probe get from the trading threads to the exporter thread
  (\<^verbatim>\<open>start\<close>, \<^verbatim>\<open>stop\<close>, \<^verbatim>\<open>publish_event\<close>, \<^verbatim>\<open>acquire_producer_queue_slot\<close>, \<^verbatim>\<open>try_pop_event\<close> and \<^verbatim>\<open>exporter_loop\<close> of
  \<^verbatim>\<open>src/core/latency_probe.cpp\<close>). Any number of threads record events; each access to a shared variable is a
  step of its own, calls of the ring buffers and the registration under its mutex are whole
  steps. A label says what a step did to an event. The wait of the exporter ends after 50 ms at the latest and is
  left out, and so is the notification. \<open>probe_reach\<close> are the runs from a start to the end of \<^verbatim>\<open>stop\<close>, and beyond.
\<close>

section \<open>State\<close>

record probe_slot =
  ps_queue :: "latency_event spsc"
  ps_claimed :: bool

text \<open>Where a recording thread is; \<open>PrCount\<close> and \<open>PrDrop\<close> have still to count the event.\<close>

datatype producer_pc = PrIdle | PrChecked latency_event | PrGeneration latency_event u64 | PrSlot latency_event "nat option" |
  PrOverflow latency_event | PrCount | PrDrop

text \<open>The thread-local \<^verbatim>\<open>ProducerSlotCache\<close> belongs to the thread.\<close>

record producer =
  pr_cache_generation :: u64
  pr_cache_slot :: "nat option"
  pr_pc :: producer_pc

text \<open>Where the exporter is, with the batch it holds, and in a scan the number of queues and the offset.\<close>

datatype exporter_pc = NotStarted | XRunning | XPending | XCount "latency_event list" | XScan "latency_event list" nat nat |
  XOverflow "latency_event list" | XSubtract "latency_event list" | XWrite "latency_event list" | XDone

datatype stopper = StopIdle | StopDisabled | StopWaiting | StopDone

record probe =
  pq_enabled :: bool
  pq_running :: bool
  pq_pending :: u64
  pq_dropped :: u64
  pq_slots :: "probe_slot list"
  pq_count :: nat
  pq_generation :: u64
  pq_overflow :: "latency_event mpmc"
  pq_producers :: "producer list"
  pq_exporter :: exporter_pc
  pq_cursor :: nat
  pq_stop :: stopper
  pq_outputs :: outputs

datatype probe_label = Quiet | Accepted latency_event | Discarded latency_event | Exported latency_event

definition PRODUCER_QUEUES :: nat where "PRODUCER_QUEUES = 16"

definition PRODUCER_CAPACITY :: nat where "PRODUCER_CAPACITY = 2 ^ 14"

definition OVERFLOW_CAPACITY :: nat where "OVERFLOW_CAPACITY = 2 ^ 15"

definition BATCH :: nat where "BATCH = 256"

definition event_default :: latency_event where
  "event_default = \<lparr>le_run_id = 0, le_trace_id = 0, le_monotonic_ns = 0, le_delta_ns = 0, le_stage = SignalDetected,
     le_aux0 = 0, le_aux1 = 0, le_value0 = 0, le_value1 = 0, le_symbol = replicate SYMBOL_SIZE NUL\<rparr>"

definition outputs_default :: outputs where
  "outputs_default = \<lparr>lo_run_id = 0, lo_clock = 0, lo_mode = MmapBinary, lo_summary_enabled = False, lo_mmap_initial = 2 ^ 26,
     lo_events_out = None, lo_events_file = None, lo_fd = False, lo_mmap = None, lo_capacity = 0, lo_used = 0,
     lo_summary_out = None, lo_summaries = Map.empty\<rparr>"

text \<open>The object before its first start, and \<open>n\<close> threads that may record.\<close>

definition probe_object :: "nat \<Rightarrow> probe" where
  "probe_object n = \<lparr>pq_enabled = False, pq_running = False, pq_pending = 0, pq_dropped = 0,
     pq_slots = replicate PRODUCER_QUEUES \<lparr>ps_queue = spsc_init (replicate PRODUCER_CAPACITY event_default), ps_claimed = False\<rparr>,
     pq_count = 0, pq_generation = 1, pq_overflow = mpmc_init (replicate OVERFLOW_CAPACITY event_default),
     pq_producers = replicate n \<lparr>pr_cache_generation = 0, pr_cache_slot = None, pr_pc = PrIdle\<rparr>,
     pq_exporter = NotStarted, pq_cursor = 0, pq_stop = StopIdle, pq_outputs = outputs_default\<rparr>"

section \<open>Starting and stopping\<close>

record start_options =
  so_enabled :: bool
  so_mode :: output_mode
  so_summary_enabled :: bool
  so_mmap_initial :: nat
  so_benchmark :: bool

text \<open>The environment of a start: the platform, what its clocks cost, and the time in milliseconds.\<close>

record start_env =
  se_platform :: platform
  se_cost :: "clock_source \<Rightarrow> dbl"
  se_now_ms :: u64

definition reset_slot :: "probe_slot \<Rightarrow> probe_slot" where
  "reset_slot k = \<lparr>ps_queue = spsc_reset (ps_queue k), ps_claimed = False\<rparr>"

text \<open>The fields of the exporter a start sets before it opens the files.\<close>

definition start_outputs :: "probe_os \<Rightarrow> start_env \<Rightarrow> start_options \<Rightarrow> outputs \<Rightarrow> outputs" where
  "start_outputs os se so o' =
    o'\<lparr>lo_run_id := se_now_ms se, lo_mode := so_mode so, lo_summary_enabled := so_summary_enabled so,
       lo_mmap_initial := max (so_mmap_initial so) (page_align os (HEADER_BYTES + EVENT_BYTES * 1024)),
       lo_clock := clock_code (se_platform se) (fst (start_clock (se_platform se) (se_cost se) (so_benchmark so))),
       lo_summaries := Map.empty\<rparr>"

text \<open>\<^verbatim>\<open>start\<close> on a probe that does not run.\<close>

definition probe_start :: "probe_os \<Rightarrow> start_env \<Rightarrow> start_options \<Rightarrow> probe \<Rightarrow> probe option" where
  "probe_start os se so s =
    (if \<not> so_enabled so then Some (s\<lparr>pq_enabled := False\<rparr>)
     else case open_outputs os (start_outputs os se so (pq_outputs s)) of None \<Rightarrow> None
     | Some o' \<Rightarrow> Some (s\<lparr>pq_enabled := True, pq_pending := 0, pq_dropped := 0, pq_count := 0, pq_generation := pq_generation s + 1,
         pq_slots := map reset_slot (pq_slots s), pq_outputs := o', pq_running := True, pq_exporter := XRunning, pq_cursor := 0,
         pq_stop := StopIdle\<rparr>))"

text \<open>One access of \<^verbatim>\<open>stop\<close>; it waits for the exporter to end, and then closes the files and resets the queues.\<close>

definition stop_access :: "probe \<Rightarrow> probe" where
  "stop_access s =
    (case pq_stop s of
       StopIdle \<Rightarrow> s\<lparr>pq_enabled := False, pq_stop := StopDisabled\<rparr>
     | StopDisabled \<Rightarrow> s\<lparr>pq_running := False, pq_stop := StopWaiting\<rparr>
     | StopWaiting \<Rightarrow>
        if pq_exporter s \<noteq> XDone then s
        else s\<lparr>pq_outputs := close_outputs (pq_outputs s), pq_count := 0, pq_generation := pq_generation s + 1,
               pq_slots := map reset_slot (pq_slots s), pq_stop := StopDone\<rparr>
     | StopDone \<Rightarrow> s)"

section \<open>Recording\<close>

definition set_producer :: "nat \<Rightarrow> producer \<Rightarrow> probe \<Rightarrow> probe" where
  "set_producer i p s = s\<lparr>pq_producers := (pq_producers s)[i := p]\<rparr>"

definition set_slot :: "nat \<Rightarrow> probe_slot \<Rightarrow> probe \<Rightarrow> probe" where
  "set_slot k slot s = s\<lparr>pq_slots := (pq_slots s)[k := slot]\<rparr>"

definition first_free :: "probe_slot list \<Rightarrow> nat option" where
  "first_free slots = find (\<lambda>k. \<not> ps_claimed (slots ! k)) [0..<length slots]"

definition acquire_slot :: "u64 \<Rightarrow> producer \<Rightarrow> probe \<Rightarrow> nat option \<times> producer \<times> probe" where
  "acquire_slot generation p s =
    (if pr_cache_generation p = generation then (pr_cache_slot p, p, s)
     else case first_free (pq_slots s) of
       Some k \<Rightarrow> (Some k, p\<lparr>pr_cache_generation := generation, pr_cache_slot := Some k\<rparr>,
         (set_slot k ((pq_slots s ! k)\<lparr>ps_claimed := True\<rparr>) s)\<lparr>pq_count := max (pq_count s) (k + 1)\<rparr>)
     | None \<Rightarrow> (None, p\<lparr>pr_cache_generation := generation, pr_cache_slot := None\<rparr>, s))"

text \<open>One access of \<^verbatim>\<open>publish_event\<close> by thread \<open>i\<close>; \<open>None\<close> if the overflow queue spins.\<close>

definition producer_access :: "nat \<Rightarrow> probe \<Rightarrow> (probe_label \<times> probe) option" where
  "producer_access i s =
    (let p = pq_producers s ! i in
     case pr_pc p of
       PrIdle \<Rightarrow> Some (Quiet, s)
     | PrChecked e \<Rightarrow> Some (Quiet, set_producer i (p\<lparr>pr_pc := PrGeneration e (pq_generation s)\<rparr>) s)
     | PrGeneration e generation \<Rightarrow>
        (case acquire_slot generation p s of (slot, p, s) \<Rightarrow> Some (Quiet, set_producer i (p\<lparr>pr_pc := PrSlot e slot\<rparr>) s))
     | PrSlot e None \<Rightarrow> Some (Quiet, set_producer i (p\<lparr>pr_pc := PrOverflow e\<rparr>) s)
     | PrSlot e (Some k) \<Rightarrow>
        (case spsc_try_push e (ps_queue (pq_slots s ! k)) of (pushed, q) \<Rightarrow>
          let s = set_slot k ((pq_slots s ! k)\<lparr>ps_queue := q\<rparr>) s in
          if pushed then Some (Accepted e, set_producer i (p\<lparr>pr_pc := PrCount\<rparr>) s)
          else Some (Quiet, set_producer i (p\<lparr>pr_pc := PrOverflow e\<rparr>) s))
     | PrOverflow e \<Rightarrow>
        (case mpmc_try_push e (pq_overflow s) of None \<Rightarrow> None
         | Some (pushed, q) \<Rightarrow>
            let s = s\<lparr>pq_overflow := q\<rparr> in
            if pushed then Some (Accepted e, set_producer i (p\<lparr>pr_pc := PrCount\<rparr>) s)
            else Some (Discarded e, set_producer i (p\<lparr>pr_pc := PrDrop\<rparr>) s))
     | PrCount \<Rightarrow> Some (Quiet, set_producer i (p\<lparr>pr_pc := PrIdle\<rparr>) (s\<lparr>pq_pending := pq_pending s + 1\<rparr>))
     | PrDrop \<Rightarrow> Some (Quiet, set_producer i (p\<lparr>pr_pc := PrIdle\<rparr>) (s\<lparr>pq_dropped := pq_dropped s + 1\<rparr>)))"

section \<open>Exporting\<close>

definition after_pop :: "latency_event list \<Rightarrow> exporter_pc" where
  "after_pop batch = (if length batch < BATCH then XCount batch else XSubtract batch)"

text \<open>
  One access of \<^verbatim>\<open>exporter_loop\<close>, with those of \<^verbatim>\<open>try_pop_event\<close> inside it. The look at the claim of a queue and the
  pop are one step, since a claim is not taken back while the exporter runs.
\<close>

definition exporter_access :: "probe_os \<Rightarrow> probe \<Rightarrow> (probe_label \<times> probe) option" where
  "exporter_access os s =
    (case pq_exporter s of
       NotStarted \<Rightarrow> Some (Quiet, s)
     | XDone \<Rightarrow> Some (Quiet, s)
     | XRunning \<Rightarrow> Some (Quiet, s\<lparr>pq_exporter := (if pq_running s then XCount [] else XPending)\<rparr>)
     | XPending \<Rightarrow> Some (Quiet, s\<lparr>pq_exporter := (if 0 < pq_pending s then XCount [] else XDone)\<rparr>)
     | XCount batch \<Rightarrow> Some (Quiet, s\<lparr>pq_exporter := XScan batch (pq_count s) 0\<rparr>)
     | XScan batch n offset \<Rightarrow>
        if offset < n then
          let k = (pq_cursor s + offset) mod n in
          if \<not> ps_claimed (pq_slots s ! k) then Some (Quiet, s\<lparr>pq_exporter := XScan batch n (offset + 1)\<rparr>)
          else case spsc_try_pop (ps_queue (pq_slots s ! k)) of (item, q) \<Rightarrow>
            let s = set_slot k ((pq_slots s ! k)\<lparr>ps_queue := q\<rparr>) s in
            (case item of
               None \<Rightarrow> Some (Quiet, s\<lparr>pq_exporter := XScan batch n (offset + 1)\<rparr>)
             | Some e \<Rightarrow> Some (Quiet, s\<lparr>pq_cursor := (k + 1) mod n, pq_exporter := after_pop (batch @ [e])\<rparr>))
        else Some (Quiet, s\<lparr>pq_exporter := XOverflow batch\<rparr>)
     | XOverflow batch \<Rightarrow>
        (case mpmc_try_pop (pq_overflow s) of None \<Rightarrow> None
         | Some (item, q) \<Rightarrow>
            let s = s\<lparr>pq_overflow := q\<rparr> in
            (case item of
               None \<Rightarrow> Some (Quiet, s\<lparr>pq_exporter := (if batch = [] then XRunning else XSubtract batch)\<rparr>)
             | Some e \<Rightarrow> Some (Quiet, s\<lparr>pq_exporter := after_pop (batch @ [e])\<rparr>)))
     | XSubtract batch \<Rightarrow> Some (Quiet, s\<lparr>pq_pending := pq_pending s - of_nat (length batch), pq_exporter := XWrite batch\<rparr>)
     | XWrite [] \<Rightarrow> Some (Quiet, s\<lparr>pq_exporter := XRunning\<rparr>)
     | XWrite (e # es) \<Rightarrow>
        (case export_event os e (pq_outputs s) of None \<Rightarrow> None
         | Some o' \<Rightarrow> Some (Exported e, s\<lparr>pq_outputs := o', pq_exporter := XWrite es\<rparr>)))"

section \<open>Runs\<close>

inductive probe_step :: "probe_os \<Rightarrow> probe \<Rightarrow> probe_label \<Rightarrow> probe \<Rightarrow> bool" for os where
  begin_record: "i < length (pq_producers s) \<Longrightarrow> pr_pc (pq_producers s ! i) = PrIdle \<Longrightarrow>
    record_at_ns (pq_enabled s) (lo_run_id (pq_outputs s)) trace_id symbol stage start now a0 a1 v0 v1 = Some e \<Longrightarrow>
    probe_step os s Quiet (set_producer i ((pq_producers s ! i)\<lparr>pr_pc := PrChecked e\<rparr>) s)"
| produce: "i < length (pq_producers s) \<Longrightarrow> producer_access i s = Some (l, s') \<Longrightarrow> probe_step os s l s'"
| export: "exporter_access os s = Some (l, s') \<Longrightarrow> probe_step os s l s'"
| stop: "probe_step os s Quiet (stop_access s)"

inductive probe_reach :: "probe_os \<Rightarrow> probe \<Rightarrow> probe_label list \<Rightarrow> bool" for os where
  start: "so_enabled so \<Longrightarrow> probe_start os se so (probe_object n) = Some s \<Longrightarrow> probe_reach os s []"
| step: "probe_reach os s tr \<Longrightarrow> probe_step os s l s' \<Longrightarrow> probe_reach os s' (tr @ [l])"

text \<open>The events a run accepted, discarded and handed to the files, in order.\<close>

fun accepted :: "probe_label list \<Rightarrow> latency_event list" where
  "accepted [] = []"
| "accepted (Accepted e # tr) = e # accepted tr"
| "accepted (l # tr) = accepted tr"

fun discarded :: "probe_label list \<Rightarrow> latency_event list" where
  "discarded [] = []"
| "discarded (Discarded e # tr) = e # discarded tr"
| "discarded (l # tr) = discarded tr"

fun exported :: "probe_label list \<Rightarrow> latency_event list" where
  "exported [] = []"
| "exported (Exported e # tr) = e # exported tr"
| "exported (l # tr) = exported tr"

text \<open>The exporter on its own, for \<open>n\<close> accesses.\<close>

fun exporter_run :: "probe_os \<Rightarrow> nat \<Rightarrow> probe \<Rightarrow> (probe_label list \<times> probe) option" where
  "exporter_run os 0 s = Some ([], s)"
| "exporter_run os (Suc n) s =
    (case exporter_access os s of None \<Rightarrow> None
     | Some (l, s) \<Rightarrow> (case exporter_run os n s of None \<Rightarrow> None | Some (ls, s') \<Rightarrow> Some (l # ls, s')))"

section \<open>Counting\<close>

lemma mset_concat_update:
  "k < length xs \<Longrightarrow> mset (concat (map f (xs[k := y]))) + mset (f (xs ! k)) = mset (concat (map f xs)) + mset (f y)"
  by (subst (3) id_take_nth_drop [of k xs]) (simp_all add: upd_conv_take_nth_drop)

lemma length_filter_update:
  "k < length xs \<Longrightarrow> length (filter P (xs[k := y])) + (if P (xs ! k) then 1 else 0) = length (filter P xs) + (if P y then 1 else 0)"
  by (subst (3) id_take_nth_drop [of k xs]) (simp_all add: upd_conv_take_nth_drop)

text \<open>The events in the queues and in the hands of the exporter, and those of them that \<open>pq_pending\<close> should count.\<close>

definition queued :: "probe \<Rightarrow> latency_event list" where
  "queued s = concat (map (spsc_content \<circ> ps_queue) (pq_slots s)) @ mpmc_content (pq_overflow s)"

fun held :: "exporter_pc \<Rightarrow> latency_event list" where
  "held (XCount b) = b"
| "held (XScan b n offset) = b"
| "held (XOverflow b) = b"
| "held (XSubtract b) = b"
| "held (XWrite b) = b"
| "held pc = []"

fun uncounted :: "exporter_pc \<Rightarrow> nat" where
  "uncounted (XWrite b) = 0"
| "uncounted pc = length (held pc)"

definition counting :: "probe \<Rightarrow> nat" where
  "counting s = length (filter (\<lambda>p. pr_pc p = PrCount) (pq_producers s))"

text \<open>What the counter of pending events is off by.\<close>

definition balance :: "probe \<Rightarrow> u64" where
  "balance s = pq_pending s + of_nat (counting s) - of_nat (length (queued s) + uncounted (pq_exporter s))"

text \<open>A step neither loses an event nor makes one up.\<close>

definition conserves :: "probe \<Rightarrow> probe_label \<Rightarrow> probe \<Rightarrow> bool" where
  "conserves s l s' \<longleftrightarrow>
    mset (accepted [l]) + mset (queued s) + mset (held (pq_exporter s)) =
    mset (exported [l]) + mset (queued s') + mset (held (pq_exporter s'))"

section \<open>The invariant of a run\<close>

definition slot_ok :: "nat \<Rightarrow> nat \<Rightarrow> probe_slot \<Rightarrow> bool" where
  "slot_ok n k slot \<longleftrightarrow> spsc_invar (ps_queue slot) \<and> spsc_capacity (ps_queue slot) = PRODUCER_CAPACITY - 1 \<and>
    (ps_claimed slot \<longrightarrow> k < n) \<and> (spsc_content (ps_queue slot) \<noteq> [] \<longrightarrow> ps_claimed slot)"

definition producer_ok :: "u64 \<Rightarrow> probe_slot list \<Rightarrow> producer \<Rightarrow> bool" where
  "producer_ok generation slots p \<longleftrightarrow>
    (\<forall>k. pr_cache_generation p = generation \<and> pr_cache_slot p = Some k \<longrightarrow> k < PRODUCER_QUEUES \<and> ps_claimed (slots ! k)) \<and>
    (case pr_pc p of PrGeneration e g \<Rightarrow> g = generation
     | PrSlot e slot \<Rightarrow> pr_cache_generation p = generation \<and> pr_cache_slot p = slot
     | _ \<Rightarrow> True)"

definition rivals :: "u64 \<Rightarrow> producer \<Rightarrow> producer \<Rightarrow> bool" where
  "rivals generation p r \<longleftrightarrow> pr_cache_generation p = generation \<and> pr_cache_generation r = generation \<and>
    pr_cache_slot p \<noteq> None \<and> pr_cache_slot p = pr_cache_slot r"

fun exporter_ok :: "nat \<Rightarrow> exporter_pc \<Rightarrow> bool" where
  "exporter_ok m (XCount b) \<longleftrightarrow> length b < BATCH"
| "exporter_ok m (XScan b n offset) \<longleftrightarrow> length b < BATCH \<and> n \<le> m \<and> offset \<le> n"
| "exporter_ok m (XOverflow b) \<longleftrightarrow> length b < BATCH"
| "exporter_ok m (XSubtract b) \<longleftrightarrow> b \<noteq> [] \<and> length b \<le> BATCH"
| "exporter_ok m (XWrite b) \<longleftrightarrow> length b \<le> BATCH"
| "exporter_ok m NotStarted \<longleftrightarrow> False"
| "exporter_ok m pc \<longleftrightarrow> True"

definition probe_ok :: "probe \<Rightarrow> bool" where
  "probe_ok s \<longleftrightarrow> length (pq_slots s) = PRODUCER_QUEUES \<and> (\<forall>k < PRODUCER_QUEUES. slot_ok (pq_count s) k (pq_slots s ! k)) \<and>
    mpmc_invar (pq_overflow s) \<and> mpmc_capacity (pq_overflow s) = OVERFLOW_CAPACITY \<and> pq_count s \<le> PRODUCER_QUEUES \<and>
    (\<forall>i < length (pq_producers s). producer_ok (pq_generation s) (pq_slots s) (pq_producers s ! i)) \<and>
    (\<forall>i < length (pq_producers s). \<forall>j < length (pq_producers s). i \<noteq> j \<longrightarrow>
       \<not> rivals (pq_generation s) (pq_producers s ! i) (pq_producers s ! j)) \<and>
    exporter_ok (pq_count s) (pq_exporter s)"

lemma probe_okD:
  assumes "probe_ok s"
  shows "length (pq_slots s) = PRODUCER_QUEUES" "k < PRODUCER_QUEUES \<Longrightarrow> slot_ok (pq_count s) k (pq_slots s ! k)"
    "mpmc_invar (pq_overflow s)" "pq_count s \<le> PRODUCER_QUEUES"
    "i < length (pq_producers s) \<Longrightarrow> producer_ok (pq_generation s) (pq_slots s) (pq_producers s ! i)"
    "exporter_ok (pq_count s) (pq_exporter s)"
  using assms by (simp_all add: probe_ok_def)

text \<open>The single updates a step is made of.\<close>

lemma ok_set_producer:
  assumes ok: "probe_ok s" and i: "i < length (pq_producers s)" and p: "producer_ok (pq_generation s) (pq_slots s) p"
    and same: "pr_cache_generation p = pr_cache_generation (pq_producers s ! i)" "pr_cache_slot p = pr_cache_slot (pq_producers s ! i)"
  shows "probe_ok (set_producer i p s)"
  using ok i p same unfolding probe_ok_def set_producer_def
  by (auto simp: nth_list_update rivals_def)

lemma ok_set_queue:
  assumes ok: "probe_ok s" and k: "k < PRODUCER_QUEUES" and q: "spsc_invar q" "spsc_capacity q = PRODUCER_CAPACITY - 1"
    and c: "spsc_content q \<noteq> [] \<Longrightarrow> ps_claimed (pq_slots s ! k)"
  shows "probe_ok (set_slot k ((pq_slots s ! k)\<lparr>ps_queue := q\<rparr>) s)"
proof -
  let ?slots = "(pq_slots s)[k := (pq_slots s ! k)\<lparr>ps_queue := q\<rparr>]"
  have cl: "ps_claimed (?slots ! m) = ps_claimed (pq_slots s ! m)" for m
    using k probe_okD(1) [OF ok] by (cases "m = k") simp_all
  have "slot_ok (pq_count s) m (?slots ! m)" if "m < PRODUCER_QUEUES" for m
    using probe_okD(2) [OF ok that] q c k probe_okD(1) [OF ok] by (cases "m = k") (simp_all add: slot_ok_def)
  then show ?thesis
    using ok unfolding probe_ok_def set_slot_def by (simp add: producer_ok_def cl)
qed

lemma ok_exporter:
  "probe_ok s \<Longrightarrow> exporter_ok (pq_count s) pc \<Longrightarrow> probe_ok (s\<lparr>pq_exporter := pc\<rparr>)"
  "probe_ok s \<Longrightarrow> exporter_ok (pq_count s) pc \<Longrightarrow> probe_ok (s\<lparr>pq_cursor := c, pq_exporter := pc\<rparr>)"
  "probe_ok s \<Longrightarrow> exporter_ok (pq_count s) pc \<Longrightarrow> probe_ok (s\<lparr>pq_pending := w, pq_exporter := pc\<rparr>)"
  "probe_ok s \<Longrightarrow> exporter_ok (pq_count s) pc \<Longrightarrow> probe_ok (s\<lparr>pq_outputs := o', pq_exporter := pc\<rparr>)"
  "probe_ok s \<Longrightarrow> mpmc_invar q \<Longrightarrow> mpmc_capacity q = OVERFLOW_CAPACITY \<Longrightarrow> exporter_ok (pq_count s) pc \<Longrightarrow>
    probe_ok (s\<lparr>pq_overflow := q, pq_exporter := pc\<rparr>)"
  "probe_ok s \<Longrightarrow> mpmc_invar q \<Longrightarrow> mpmc_capacity q = OVERFLOW_CAPACITY \<Longrightarrow> probe_ok (s\<lparr>pq_overflow := q\<rparr>)"
  "probe_ok s \<Longrightarrow> probe_ok (s\<lparr>pq_pending := w\<rparr>)"
  "probe_ok s \<Longrightarrow> probe_ok (s\<lparr>pq_dropped := w\<rparr>)"
  by (simp_all add: probe_ok_def)

lemma exporter_ok_mono: "exporter_ok m pc \<Longrightarrow> m \<le> m' \<Longrightarrow> exporter_ok m' pc"
  by (cases pc) auto

lemma ok_acquire:
  assumes ok: "probe_ok s" and i: "i < length (pq_producers s)" and g: "generation = pq_generation s"
    and a: "acquire_slot generation (pq_producers s ! i) s = (slot, p, s')"
  shows "probe_ok (set_producer i (p\<lparr>pr_pc := PrSlot e slot\<rparr>) s')" "queued s' = queued s" "pq_producers s' = pq_producers s"
    "pq_exporter s' = pq_exporter s" "pq_pending s' = pq_pending s" "pq_stop s' = pq_stop s" "pq_enabled s' = pq_enabled s"
    "pq_running s' = pq_running s" "pq_outputs s' = pq_outputs s"
proof -
  let ?p = "pq_producers s ! i"
  have pok: "producer_ok (pq_generation s) (pq_slots s) ?p" using probe_okD(5) [OF ok i] .
  consider (hit) "pr_cache_generation ?p = generation" | (miss) "pr_cache_generation ?p \<noteq> generation" "first_free (pq_slots s) = None"
    | (claim) k where "pr_cache_generation ?p \<noteq> generation" "first_free (pq_slots s) = Some k" by fastforce
  then have "probe_ok (set_producer i (p\<lparr>pr_pc := PrSlot e slot\<rparr>) s') \<and> queued s' = queued s \<and> pq_producers s' = pq_producers s \<and>
    pq_exporter s' = pq_exporter s \<and> pq_pending s' = pq_pending s \<and> pq_stop s' = pq_stop s \<and> pq_enabled s' = pq_enabled s \<and>
    pq_running s' = pq_running s \<and> pq_outputs s' = pq_outputs s"
  proof cases
    case hit
    then have e: "slot = pr_cache_slot ?p" "p = ?p" "s' = s" using a [symmetric] hit by (simp_all add: acquire_slot_def)
    have "probe_ok (set_producer i (p\<lparr>pr_pc := PrSlot e slot\<rparr>) s)"
      unfolding e(1,2) by (rule ok_set_producer [OF ok i]) (use pok hit g in \<open>simp_all add: producer_ok_def\<close>)
    then show ?thesis using e by simp
  next
    case miss
    then have e: "slot = None" "p = ?p\<lparr>pr_cache_generation := generation, pr_cache_slot := None\<rparr>" "s' = s"
      using a [symmetric] miss by (simp_all add: acquire_slot_def)
    have "probe_ok (set_producer i (p\<lparr>pr_pc := PrSlot e slot\<rparr>) s)"
      using ok g i unfolding probe_ok_def set_producer_def e(1,2) by (auto simp: nth_list_update producer_ok_def rivals_def)
    then show ?thesis using e by simp
  next
    case (claim k)
    have free: "k < PRODUCER_QUEUES" "\<not> ps_claimed (pq_slots s ! k)"
      using claim(2) probe_okD(1) [OF ok] by (auto simp: first_free_def find_Some_iff)
    define slots where "slots = (pq_slots s)[k := (pq_slots s ! k)\<lparr>ps_claimed := True\<rparr>]"
    have e: "slot = Some k" "p = ?p\<lparr>pr_cache_generation := generation, pr_cache_slot := Some k\<rparr>"
        "s' = s\<lparr>pq_slots := slots, pq_count := max (pq_count s) (k + 1)\<rparr>"
      using a [symmetric] claim by (simp_all add: acquire_slot_def set_slot_def slots_def)
    have len: "length (pq_slots s) = PRODUCER_QUEUES" using probe_okD(1) [OF ok] .
    have cl: "ps_claimed (slots ! m) \<longleftrightarrow> m = k \<or> ps_claimed (pq_slots s ! m)" if "m < PRODUCER_QUEUES" for m
      using free that len by (cases "m = k") (simp_all add: slots_def)
    have sl: "slot_ok (max (pq_count s) (k + 1)) m (slots ! m)" if "m < PRODUCER_QUEUES" for m
      using probe_okD(2) [OF ok that] free len by (cases "m = k") (auto simp: slot_ok_def slots_def)
    have po: "producer_ok (pq_generation s) slots (pq_producers s ! j)" if "j < length (pq_producers s)" for j
      using probe_okD(5) [OF ok that] cl by (auto simp: producer_ok_def)
    have ri: "pr_cache_slot (pq_producers s ! j) \<noteq> Some k" if "j < length (pq_producers s)" "pr_cache_generation (pq_producers s ! j) = generation" for j
      using probe_okD(5) [OF ok that(1)] that(2) free g by (auto simp: producer_ok_def)
    have "map (spsc_content \<circ> ps_queue) slots = map (spsc_content \<circ> ps_queue) (pq_slots s)"
      using free len by (simp add: slots_def map_update list_update_same_conv)
    moreover have "probe_ok (set_producer i (p\<lparr>pr_pc := PrSlot e slot\<rparr>) s')"
      unfolding probe_ok_def
    proof (intro conjI allI impI)
      show "exporter_ok (pq_count (set_producer i (p\<lparr>pr_pc := PrSlot e slot\<rparr>) s')) (pq_exporter (set_producer i (p\<lparr>pr_pc := PrSlot e slot\<rparr>) s'))"
        using probe_okD(6) [OF ok] by (auto simp: set_producer_def e(3) intro: exporter_ok_mono)
      fix j assume j: "j < length (pq_producers (set_producer i (p\<lparr>pr_pc := PrSlot e slot\<rparr>) s'))"
      show "producer_ok (pq_generation (set_producer i (p\<lparr>pr_pc := PrSlot e slot\<rparr>) s')) (pq_slots (set_producer i (p\<lparr>pr_pc := PrSlot e slot\<rparr>) s'))
          (pq_producers (set_producer i (p\<lparr>pr_pc := PrSlot e slot\<rparr>) s') ! j)"
        using po [of j] j free cl [of k] g by (cases "j = i") (simp_all add: set_producer_def e producer_ok_def)
      fix m assume m: "m < length (pq_producers (set_producer i (p\<lparr>pr_pc := PrSlot e slot\<rparr>) s'))" and "j \<noteq> m"
      then show "\<not> rivals (pq_generation (set_producer i (p\<lparr>pr_pc := PrSlot e slot\<rparr>) s'))
          (pq_producers (set_producer i (p\<lparr>pr_pc := PrSlot e slot\<rparr>) s') ! j) (pq_producers (set_producer i (p\<lparr>pr_pc := PrSlot e slot\<rparr>) s') ! m)"
        using ok i j ri [of j] ri [of m] g by (cases "j = i"; cases "m = i") (auto simp: set_producer_def e rivals_def probe_ok_def)
    qed (use ok free len sl in \<open>auto simp: set_producer_def e probe_ok_def slots_def\<close>)
    ultimately show ?thesis by (simp add: e(3) queued_def)
  qed
  then show "probe_ok (set_producer i (p\<lparr>pr_pc := PrSlot e slot\<rparr>) s')" "queued s' = queued s" "pq_producers s' = pq_producers s"
    "pq_exporter s' = pq_exporter s" "pq_pending s' = pq_pending s" "pq_stop s' = pq_stop s" "pq_enabled s' = pq_enabled s"
    "pq_running s' = pq_running s" "pq_outputs s' = pq_outputs s" by blast+
qed


section \<open>Steps keep the invariant and the events\<close>

lemma queued_simps [simp]:
  "queued (set_producer i p s) = queued s" "queued (s\<lparr>pq_pending := w\<rparr>) = queued s" "queued (s\<lparr>pq_dropped := w\<rparr>) = queued s"
  "queued (s\<lparr>pq_exporter := pc\<rparr>) = queued s" "queued (s\<lparr>pq_cursor := c\<rparr>) = queued s" "queued (s\<lparr>pq_outputs := o'\<rparr>) = queued s"
  by (simp_all add: queued_def set_producer_def)

lemma counting_simps [simp]:
  "counting (set_slot k slot s) = counting s" "counting (s\<lparr>pq_pending := w\<rparr>) = counting s" "counting (s\<lparr>pq_dropped := w\<rparr>) = counting s"
  "counting (s\<lparr>pq_exporter := pc\<rparr>) = counting s" "counting (s\<lparr>pq_cursor := c\<rparr>) = counting s" "counting (s\<lparr>pq_outputs := o'\<rparr>) = counting s"
  "counting (s\<lparr>pq_overflow := q\<rparr>) = counting s"
  by (simp_all add: counting_def set_slot_def)

lemma set_simps [simp]:
  "pq_exporter (set_producer i p s) = pq_exporter s" "pq_pending (set_producer i p s) = pq_pending s"
  "pq_exporter (set_slot k slot s) = pq_exporter s" "pq_pending (set_slot k slot s) = pq_pending s"
  "pq_stop (set_producer i p s) = pq_stop s" "pq_stop (set_slot k slot s) = pq_stop s"
  "pq_enabled (set_producer i p s) = pq_enabled s" "pq_enabled (set_slot k slot s) = pq_enabled s"
  "pq_running (set_producer i p s) = pq_running s" "pq_running (set_slot k slot s) = pq_running s"
  "pq_outputs (set_producer i p s) = pq_outputs s" "pq_outputs (set_slot k slot s) = pq_outputs s"
  "pq_producers (set_slot k slot s) = pq_producers s" "pq_generation (set_slot k slot s) = pq_generation s"
  "pq_count (set_slot k slot s) = pq_count s" "pq_cursor (set_slot k slot s) = pq_cursor s"
  "pq_overflow (set_slot k slot s) = pq_overflow s" "pq_slots (set_producer i p s) = pq_slots s"
  "pq_overflow (set_producer i p s) = pq_overflow s"
  by (simp_all add: set_producer_def set_slot_def)

lemma counting_set:
  "i < length (pq_producers s) \<Longrightarrow>
    counting (set_producer i p s) + (if pr_pc (pq_producers s ! i) = PrCount then 1 else 0) = counting s + (if pr_pc p = PrCount then 1 else 0)"
  using length_filter_update [of i "pq_producers s" "\<lambda>p. pr_pc p = PrCount" p] by (simp add: counting_def set_producer_def)

lemma queued_set_queue:
  "k < length (pq_slots s) \<Longrightarrow>
    mset (queued (set_slot k ((pq_slots s ! k)\<lparr>ps_queue := q\<rparr>) s)) + mset (spsc_content (ps_queue (pq_slots s ! k))) =
    mset (queued s) + mset (spsc_content q)"
  using mset_concat_update [of k "pq_slots s" "spsc_content \<circ> ps_queue" "(pq_slots s ! k)\<lparr>ps_queue := q\<rparr>"]
  by (simp add: queued_def set_slot_def ac_simps)

lemma queued_set_overflow:
  "mset (queued (s\<lparr>pq_overflow := q\<rparr>)) + mset (mpmc_content (pq_overflow s)) = mset (queued s) + mset (mpmc_content q)"
  by (simp add: queued_def ac_simps)

text \<open>What a step leaves alone.\<close>

definition same_control :: "probe \<Rightarrow> probe \<Rightarrow> bool" where
  "same_control s s' \<longleftrightarrow> pq_stop s' = pq_stop s \<and> pq_enabled s' = pq_enabled s \<and> pq_running s' = pq_running s"

definition good_step :: "probe \<Rightarrow> probe_label \<Rightarrow> probe \<Rightarrow> bool" where
  "good_step s l s' \<longleftrightarrow> probe_ok s' \<and> conserves s l s' \<and> balance s' = balance s \<and> same_control s s'"

text \<open>A step that moves a thread on without touching an event.\<close>

lemma good_producer_move:
  assumes "probe_ok s" "i < length (pq_producers s)" "producer_ok (pq_generation s) (pq_slots s) p"
    "pr_cache_generation p = pr_cache_generation (pq_producers s ! i)" "pr_cache_slot p = pr_cache_slot (pq_producers s ! i)"
    "pr_pc p \<noteq> PrCount" "pr_pc (pq_producers s ! i) \<noteq> PrCount" "accepted [l] = []" "exported [l] = []"
  shows "good_step s l (set_producer i p s)"
  using ok_set_producer [OF assms(1-5)] counting_set [OF assms(2), of p] assms(6-)
  by (simp add: good_step_def conserves_def balance_def same_control_def)

text \<open>A push: the event is queued, and the thread has still to count it.\<close>

lemma good_push:
  assumes ok: "probe_ok s'" and i: "i < length (pq_producers s')" and p: "producer_ok (pq_generation s') (pq_slots s') p"
    "pr_cache_generation p = pr_cache_generation (pq_producers s' ! i)" "pr_cache_slot p = pr_cache_slot (pq_producers s' ! i)"
    and pc: "pr_pc p = PrCount" "pr_pc (pq_producers s' ! i) \<noteq> PrCount"
    and q: "mset (queued s') = add_mset e (mset (queued s))" and same: "counting s' = counting s" "pq_exporter s' = pq_exporter s"
      "pq_pending s' = pq_pending s" "same_control s s'"
  shows "good_step s (Accepted e) (set_producer i p s')"
proof -
  have "length (queued s') = Suc (length (queued s))" using arg_cong [OF q, of size] by simp
  moreover have "counting (set_producer i p s') = Suc (counting s)" using counting_set [OF i, of p] pc same(1) by simp
  ultimately show ?thesis
    using ok_set_producer [OF ok i p] q same by (simp add: good_step_def conserves_def balance_def same_control_def)
qed

lemma good_producer:
  assumes ok: "probe_ok s" and i: "i < length (pq_producers s)" and a: "producer_access i s = Some (l, s')"
  shows "good_step s l s'"
proof -
  let ?p = "pq_producers s ! i"
  have pok: "producer_ok (pq_generation s) (pq_slots s) ?p" using probe_okD(5) [OF ok i] .
  note move = good_producer_move [OF ok i]
  show ?thesis
  proof (cases "pr_pc ?p")
    case PrIdle
    then show ?thesis using ok a by (simp add: producer_access_def good_step_def conserves_def same_control_def)
  next
    case (PrChecked e)
    then show ?thesis using a pok move [of "?p\<lparr>pr_pc := PrGeneration e (pq_generation s)\<rparr>" Quiet]
      by (simp add: producer_access_def producer_ok_def)
  next
    case (PrGeneration e g)
    obtain slot p s1 where c: "acquire_slot g ?p s = (slot, p, s1)" by (cases "acquire_slot g ?p s")
    have g: "g = pq_generation s" using pok PrGeneration by (simp add: producer_ok_def)
    note f = ok_acquire(1) [OF ok i g c, of e] ok_acquire(2-) [OF ok i g c]
    have "counting (set_producer i (p\<lparr>pr_pc := PrSlot e slot\<rparr>) s1) = counting s"
      using counting_set [of i s1 "p\<lparr>pr_pc := PrSlot e slot\<rparr>"] i PrGeneration by (simp add: f counting_def)
    then show ?thesis using a PrGeneration c f
      by (auto simp: producer_access_def good_step_def conserves_def balance_def same_control_def)
  next
    case (PrSlot e slot)
    show ?thesis
    proof (cases slot)
      case None
      then show ?thesis using a PrSlot pok move [of "?p\<lparr>pr_pc := PrOverflow e\<rparr>" Quiet]
        by (simp add: producer_access_def producer_ok_def)
    next
      case (Some k)
      let ?q = "ps_queue (pq_slots s ! k)"
      have k: "k < PRODUCER_QUEUES" "ps_claimed (pq_slots s ! k)" using pok PrSlot Some by (auto simp: producer_ok_def)
      have inv: "spsc_invar ?q" "spsc_capacity ?q = PRODUCER_CAPACITY - 1" using probe_okD(2) [OF ok k(1)] by (simp_all add: slot_ok_def)
      obtain pushed q where c: "spsc_try_push e ?q = (pushed, q)" by (cases "spsc_try_push e ?q")
      then have q: "spsc_invar q" "spsc_capacity q = PRODUCER_CAPACITY - 1"
          "spsc_content q = (if pushed then spsc_content ?q @ [e] else spsc_content ?q)"
        using spsc.push_cases [OF inv(1), of e] inv(2) by auto
      define s1 where "s1 = set_slot k ((pq_slots s ! k)\<lparr>ps_queue := q\<rparr>) s"
      have ok1: "probe_ok s1" unfolding s1_def by (rule ok_set_queue [OF ok k(1) q(1,2)]) (use k in simp)
      have qd: "mset (queued s1) + mset (spsc_content ?q) = mset (queued s) + mset (spsc_content q)"
        unfolding s1_def using queued_set_queue k(1) probe_okD(1) [OF ok] by simp
      have i1: "i < length (pq_producers s1)" "pq_producers s1 ! i = ?p" using i by (simp_all add: s1_def)
      have pok1: "producer_ok (pq_generation s1) (pq_slots s1) ?p" using probe_okD(5) [OF ok1 i1(1)] i1(2) by simp
      have same: "counting s1 = counting s" "pq_exporter s1 = pq_exporter s" "pq_pending s1 = pq_pending s" "same_control s s1"
        by (simp_all add: s1_def same_control_def)
      show ?thesis
      proof (cases pushed)
        case True
        then have "mset (queued s1) = add_mset e (mset (queued s))" using qd q(3) by simp
        then have "good_step s (Accepted e) (set_producer i (?p\<lparr>pr_pc := PrCount\<rparr>) s1)"
          using pok1 PrSlot by (intro good_push [OF ok1 i1(1)] same) (simp_all add: i1(2) producer_ok_def)
        then show ?thesis using a PrSlot Some c True by (simp add: producer_access_def s1_def Let_def)
      next
        case False
        then have "mset (queued s1) = mset (queued s)" using qd q(3) by simp
        then have "length (queued s1) = length (queued s)" by (metis size_mset)
        moreover have "good_step s1 Quiet (set_producer i (?p\<lparr>pr_pc := PrOverflow e\<rparr>) s1)"
          using pok1 PrSlot by (intro good_producer_move [OF ok1 i1(1)]) (simp_all add: i1(2) producer_ok_def)
        ultimately have "good_step s Quiet (set_producer i (?p\<lparr>pr_pc := PrOverflow e\<rparr>) s1)"
          using same \<open>mset (queued s1) = mset (queued s)\<close> by (simp add: good_step_def conserves_def balance_def same_control_def)
        then show ?thesis using a PrSlot Some c False by (simp add: producer_access_def s1_def Let_def)
      qed
    qed
  next
    case (PrOverflow e)
    obtain pushed q where c: "mpmc_try_push e (pq_overflow s) = Some (pushed, q)" "mpmc_invar q"
        "mpmc_content q = (if pushed then mpmc_content (pq_overflow s) @ [e] else mpmc_content (pq_overflow s))"
        "mpmc_capacity q = mpmc_capacity (pq_overflow s)"
      using mpmc.push_cases [OF probe_okD(3) [OF ok], of e] by fastforce
    define s1 where "s1 = s\<lparr>pq_overflow := q\<rparr>"
    have ok1: "probe_ok s1" using ok_exporter(6) [OF ok c(2)] c(4) ok by (simp add: s1_def probe_ok_def)
    have qd: "mset (queued s1) + mset (mpmc_content (pq_overflow s)) = mset (queued s) + mset (mpmc_content q)"
      unfolding s1_def by (rule queued_set_overflow)
    have i1: "i < length (pq_producers s1)" "pq_producers s1 ! i = ?p" using i by (simp_all add: s1_def)
    have pok1: "producer_ok (pq_generation s1) (pq_slots s1) ?p" using probe_okD(5) [OF ok1 i1(1)] i1(2) by simp
    have same: "counting s1 = counting s" "pq_exporter s1 = pq_exporter s" "pq_pending s1 = pq_pending s" "same_control s s1"
      by (simp_all add: s1_def same_control_def)
    show ?thesis
    proof (cases pushed)
      case True
      then have "mset (queued s1) = add_mset e (mset (queued s))" using qd c(3) by simp
      then have "good_step s (Accepted e) (set_producer i (?p\<lparr>pr_pc := PrCount\<rparr>) s1)"
        using pok1 PrOverflow by (intro good_push [OF ok1 i1(1)] same) (simp_all add: i1(2) producer_ok_def)
      then show ?thesis using a PrOverflow c(1) True by (simp add: producer_access_def s1_def Let_def)
    next
      case False
      then have m: "mset (queued s1) = mset (queued s)" using qd c(3) by simp
      then have "length (queued s1) = length (queued s)" by (metis size_mset)
      moreover have "good_step s1 (Discarded e) (set_producer i (?p\<lparr>pr_pc := PrDrop\<rparr>) s1)"
        using pok1 PrOverflow by (intro good_producer_move [OF ok1 i1(1)]) (simp_all add: i1(2) producer_ok_def)
      ultimately have "good_step s (Discarded e) (set_producer i (?p\<lparr>pr_pc := PrDrop\<rparr>) s1)"
        using same m by (simp add: good_step_def conserves_def balance_def same_control_def)
      then show ?thesis using a PrOverflow c(1) False by (simp add: producer_access_def s1_def Let_def)
    qed
  next
    case PrCount
    let ?s = "s\<lparr>pq_pending := pq_pending s + 1\<rparr>"
    have i1: "i < length (pq_producers ?s)" using i by simp
    have "probe_ok (set_producer i (?p\<lparr>pr_pc := PrIdle\<rparr>) ?s)"
      by (rule ok_set_producer [OF ok_exporter(7) [OF ok] i1]) (use pok in \<open>simp_all add: producer_ok_def\<close>)
    moreover have "counting s = Suc (counting (set_producer i (?p\<lparr>pr_pc := PrIdle\<rparr>) ?s))"
      using counting_set [OF i1, of "?p\<lparr>pr_pc := PrIdle\<rparr>"] PrCount by simp
    ultimately show ?thesis using a PrCount
      by (auto simp: producer_access_def good_step_def conserves_def balance_def same_control_def)
  next
    case PrDrop
    let ?s = "s\<lparr>pq_dropped := pq_dropped s + 1\<rparr>"
    have "good_step ?s Quiet (set_producer i (?p\<lparr>pr_pc := PrIdle\<rparr>) ?s)"
      using pok PrDrop i by (intro good_producer_move ok_exporter(8) ok) (simp_all add: producer_ok_def)
    then show ?thesis using a PrDrop
      by (auto simp: producer_access_def good_step_def conserves_def balance_def same_control_def)
  qed
qed


section \<open>Steps of the exporter\<close>

lemma same_queued: "mset (queued s') = mset (queued s) \<Longrightarrow> length (queued s') = length (queued s)"
  by (metis size_mset)

lemma uncounted_after_pop [simp]: "uncounted (after_pop b) = length b" "held (after_pop b) = b"
  by (simp_all add: after_pop_def)

lemma exporter_ok_after_pop: "length b < BATCH \<Longrightarrow> exporter_ok m (after_pop (b @ [e]))"
  by (auto simp: after_pop_def)

text \<open>The exporter moves on without touching an event.\<close>

lemma good_exporter_move:
  assumes "probe_ok s" "exporter_ok (pq_count s) pc" "held pc = held (pq_exporter s)" "uncounted pc = uncounted (pq_exporter s)"
  shows "good_step s Quiet (s\<lparr>pq_exporter := pc\<rparr>)"
  using ok_exporter(1) [OF assms(1,2)] assms(3,4) by (simp add: good_step_def conserves_def balance_def same_control_def)

text \<open>What one access of the exporter does, by where it is.\<close>

lemma good_exporter:
  assumes ok: "probe_ok s" and a: "exporter_access os s = Some (l, s')"
  shows "good_step s l s' \<and> export_all os (exported [l]) (pq_outputs s) = Some (pq_outputs s')"
proof -
  have eok: "exporter_ok (pq_count s) (pq_exporter s)" using probe_okD(6) [OF ok] .
  note move = good_exporter_move [OF ok]
  show ?thesis
  proof (cases "pq_exporter s")
    case XRunning
    then show ?thesis using a move [of "if pq_running s then XCount [] else XPending"]
      by (auto simp: exporter_access_def BATCH_def split: if_splits)
  next
    case XPending
    then show ?thesis using a move [of "if 0 < pq_pending s then XCount [] else XDone"]
      by (auto simp: exporter_access_def BATCH_def split: if_splits)
  next
    case (XCount b)
    then show ?thesis using a eok move [of "XScan b (pq_count s) 0"] by (auto simp: exporter_access_def)
  next
    case (XScan b n offset)
    define k where "k = (pq_cursor s + offset) mod n"
    show ?thesis
    proof (cases "offset < n \<and> ps_claimed (pq_slots s ! k)")
      case False
      then consider "offset < n" "\<not> ps_claimed (pq_slots s ! k)" | "\<not> offset < n" by blast
      then show ?thesis
      proof cases
        case 1
        then show ?thesis using a eok XScan move [of "XScan b n (offset + 1)"] by (auto simp: exporter_access_def k_def)
      next
        case 2
        then show ?thesis using a eok XScan move [of "XOverflow b"] by (auto simp: exporter_access_def)
      qed
    next
      case True
      let ?q = "ps_queue (pq_slots s ! k)"
      have "k < n" using True by (simp add: k_def)
      then have k: "k < PRODUCER_QUEUES" "k < length (pq_slots s)"
        using eok XScan probe_okD(1,4) [OF ok] by auto
      have inv: "spsc_invar ?q" "spsc_capacity ?q = PRODUCER_CAPACITY - 1" using probe_okD(2) [OF ok k(1)] by (simp_all add: slot_ok_def)
      obtain item q where c: "spsc_try_pop ?q = (item, q)" by (cases "spsc_try_pop ?q")
      then have q: "spsc_invar q" "spsc_capacity q = PRODUCER_CAPACITY - 1"
          "spsc_content ?q = (case item of None \<Rightarrow> spsc_content q | Some e \<Rightarrow> e # spsc_content q)" "item = None \<Longrightarrow> spsc_content q = []"
        using spsc_pop [OF inv(1)] inv(2) by (auto split: list.splits)
      define s1 where "s1 = set_slot k ((pq_slots s ! k)\<lparr>ps_queue := q\<rparr>) s"
      have ok1: "probe_ok s1" unfolding s1_def by (rule ok_set_queue [OF ok k(1) q(1,2)]) (use True in simp)
      have qd: "mset (queued s1) + mset (spsc_content ?q) = mset (queued s) + mset (spsc_content q)"
        unfolding s1_def by (rule queued_set_queue [OF k(2)])
      have same: "counting s1 = counting s" "pq_exporter s1 = pq_exporter s" "pq_pending s1 = pq_pending s" "same_control s s1"
          "pq_count s1 = pq_count s" "pq_outputs s1 = pq_outputs s"
        by (simp_all add: s1_def same_control_def)
      show ?thesis
      proof (cases item)
        case None
        have r: "l = Quiet" "s' = s1\<lparr>pq_exporter := XScan b n (offset + 1)\<rparr>"
          using a XScan True c None by (simp_all add: exporter_access_def Let_def k_def [symmetric] s1_def)
        have m: "mset (queued s1) = mset (queued s)" using qd q(3) None by simp
        have "good_step s1 Quiet s'" unfolding r(2)
          by (rule good_exporter_move [OF ok1]) (use eok XScan True same in simp_all)
        then show ?thesis using m same_queued [OF m] same XScan by (simp add: r good_step_def conserves_def balance_def same_control_def)
      next
        case (Some e)
        have r: "l = Quiet" "s' = s1\<lparr>pq_cursor := (k + 1) mod n, pq_exporter := after_pop (b @ [e])\<rparr>"
          using a XScan True c Some by (simp_all add: exporter_access_def Let_def k_def [symmetric] s1_def)
        have m: "mset (queued s) = add_mset e (mset (queued s1))" using qd q(3) Some by simp
        have "length (queued s) = Suc (length (queued s1))" using arg_cong [OF m, of size] by simp
        moreover have "probe_ok s'" unfolding r(2)
          by (rule ok_exporter(2) [OF ok1]) (use eok XScan same in \<open>simp add: exporter_ok_after_pop\<close>)
        ultimately show ?thesis using m same XScan by (simp add: r good_step_def conserves_def balance_def same_control_def)
      qed
    qed
  next
    case (XOverflow b)
    obtain item q where c: "mpmc_try_pop (pq_overflow s) = Some (item, q)" "mpmc_invar q"
        "mpmc_content (pq_overflow s) = (case item of None \<Rightarrow> mpmc_content q | Some e \<Rightarrow> e # mpmc_content q)"
        "mpmc_capacity q = mpmc_capacity (pq_overflow s)"
      using mpmc.pop_ok [OF probe_okD(3) [OF ok]] mpmc.pop_empty [OF probe_okD(3) [OF ok]]
      by (cases "mpmc_content (pq_overflow s)") fastforce+
    have qd: "mset (queued (s\<lparr>pq_overflow := q\<rparr>)) + mset (mpmc_content (pq_overflow s)) = mset (queued s) + mset (mpmc_content q)"
      by (rule queued_set_overflow)
    have cap: "mpmc_capacity q = OVERFLOW_CAPACITY" using c(4) ok by (simp add: probe_ok_def)
    show ?thesis
    proof (cases item)
      case None
      have r: "l = Quiet" "s' = s\<lparr>pq_overflow := q, pq_exporter := (if b = [] then XRunning else XSubtract b)\<rparr>"
        using a XOverflow c(1) None by (simp_all add: exporter_access_def)
      have m: "mset (queued s') = mset (queued s)" using qd c(3) None by (simp add: r)
      have "probe_ok s'" unfolding r(2) by (rule ok_exporter(5) [OF ok c(2) cap]) (use eok XOverflow in auto)
      then show ?thesis using m same_queued [OF m] XOverflow
        by (auto simp: r good_step_def conserves_def balance_def same_control_def)
    next
      case (Some e)
      have r: "l = Quiet" "s' = s\<lparr>pq_overflow := q, pq_exporter := after_pop (b @ [e])\<rparr>"
        using a XOverflow c(1) Some by (simp_all add: exporter_access_def)
      have m: "mset (queued s) = add_mset e (mset (queued s'))" using qd c(3) Some by (simp add: r)
      have "length (queued s) = Suc (length (queued s'))" using arg_cong [OF m, of size] by simp
      moreover have "probe_ok s'" unfolding r(2)
        by (rule ok_exporter(5) [OF ok c(2) cap]) (use eok XOverflow in \<open>simp add: exporter_ok_after_pop\<close>)
      ultimately show ?thesis using m XOverflow by (simp add: r good_step_def conserves_def balance_def same_control_def)
    qed
  next
    case (XSubtract b)
    have "probe_ok s'" using a XSubtract eok ok_exporter(3) [OF ok] by (auto simp: exporter_access_def)
    then show ?thesis using a XSubtract by (auto simp: exporter_access_def good_step_def conserves_def balance_def same_control_def)
  next
    case (XWrite b)
    show ?thesis
    proof (cases b)
      case Nil
      then show ?thesis using a XWrite move [of XRunning] by (auto simp: exporter_access_def)
    next
      case (Cons e es)
      then obtain o' where o': "export_event os e (pq_outputs s) = Some o'" "l = Exported e" "s' = s\<lparr>pq_outputs := o', pq_exporter := XWrite es\<rparr>"
        using a XWrite by (auto simp: exporter_access_def split: option.splits)
      have "probe_ok s'" unfolding o'(3) by (rule ok_exporter(4) [OF ok]) (use eok XWrite Cons in simp)
      then show ?thesis using XWrite Cons o' by (simp add: good_step_def conserves_def balance_def same_control_def)
    qed
  qed (use ok a eok in \<open>auto simp: exporter_access_def good_step_def conserves_def same_control_def\<close>)
qed

section \<open>The files stay writable\<close>

definition outputs_ok :: "outputs \<Rightarrow> bool" where
  "outputs_ok o' \<longleftrightarrow> lo_mode o' \<noteq> MmapBinary \<or> lo_mmap o' = None \<or> mapped_ok o'"

lemma export_event_returns:
  assumes "outputs_ok o'" "\<And>c. os_maps os c"
  shows "\<exists>o''. export_event os e o' = Some o'' \<and> outputs_ok o''"
proof (cases "lo_mode o' = MmapBinary \<and> lo_mmap o' \<noteq> None")
  case True
  then obtain bs where "lo_mmap o' = Some bs" "mapped_ok o'" using assms(1) by (auto simp: outputs_ok_def)
  then obtain o1 where "export_all os [e] o' = Some o1" "mapped_ok o1"
    using export_all_mapped [of o' os bs "[e]"] assms(2) by blast
  then show ?thesis by (cases "export_event os e o'") (auto simp: outputs_ok_def)
next
  case False
  define o1 where "o1 = the (write_event_row os e o')"
  have 1: "write_event_row os e o' = Some o1" "outputs_ok o1"
    using False by (cases "lo_mode o'"; auto simp: write_event_row_def outputs_ok_def o1_def)+
  have "outputs_ok (update_summary e o1)" using 1(2) by (simp add: outputs_ok_def)
  then show ?thesis using 1 by (simp add: export_event_def)
qed

lemma open_outputs_ok:
  assumes "lo_mmap o' = None" "0 < lo_mmap_initial o'" "\<And>c. os_maps os c" "open_outputs os o' = Some o''"
  shows "outputs_ok o''"
proof (cases "lo_mode o' = MmapBinary \<and> os_events_opens os")
  case True
  then show ?thesis using open_mapped [of o' os] assms(2-4) by (auto simp: outputs_ok_def)
next
  case False
  then obtain o1 where "open_events os o' = Some o1" "lo_mode o1 = lo_mode o'" "lo_mmap o1 = None"
    using assms(1,4) by (cases "lo_mode o'") (auto simp: open_outputs_def open_events_def write_binary_header_def split: if_splits)
  then show ?thesis using False assms(4) by (auto simp: outputs_ok_def open_outputs_def open_summary_def)
qed

section \<open>The invariant holds in every run\<close>

definition control_ok :: "probe \<Rightarrow> bool" where
  "control_ok s \<longleftrightarrow> (pq_enabled s \<longrightarrow> pq_stop s = StopIdle) \<and> (pq_running s \<longleftrightarrow> pq_stop s = StopIdle \<or> pq_stop s = StopDisabled)"

definition opened :: "probe_os \<Rightarrow> outputs \<Rightarrow> bool" where
  "opened os o' \<longleftrightarrow> (\<exists>se so. open_outputs os (start_outputs os se so outputs_default) = Some o')"

definition run_inv :: "probe_os \<Rightarrow> probe \<Rightarrow> probe_label list \<Rightarrow> bool" where
  "run_inv os s tr \<longleftrightarrow> probe_ok s \<and> balance s = 0 \<and>
    mset (accepted tr) = mset (exported tr) + mset (queued s) + mset (held (pq_exporter s)) \<and>
    (\<exists>o'. opened os o' \<and> export_all os (exported tr) o' = Some (pq_outputs s))"

lemma accepted_append [simp]: "accepted (tr @ us) = accepted tr @ accepted us"
  by (induction tr rule: accepted.induct) auto

lemma exported_append [simp]: "exported (tr @ us) = exported tr @ exported us"
  by (induction tr rule: exported.induct) auto

lemma export_all_append:
  "export_all os (es @ fs) o' = (case export_all os es o' of None \<Rightarrow> None | Some o' \<Rightarrow> export_all os fs o')"
  by (induction es arbitrary: o') (auto split: option.split)

lemma run_inv_step:
  assumes "run_inv os s tr" "good_step s l s'" "export_all os (exported [l]) (pq_outputs s) = Some (pq_outputs s')"
  shows "run_inv os s' (tr @ [l])"
  using assms by (auto simp: run_inv_def good_step_def conserves_def export_all_append ac_simps intro: exI)

lemma spsc_reset_empty: "spsc_invar q \<Longrightarrow> spsc_invar (spsc_reset q) \<and> spsc_content (spsc_reset q) = [] \<and> spsc_capacity (spsc_reset q) = spsc_capacity q"
  by (auto simp: spsc_invar_def spsc_reset_def spsc_content_def sp_count_def spsc_capacity_def ring_dist_def)

lemma start_inv:
  assumes en: "so_enabled so" and st: "probe_start os se so (probe_object n) = Some s"
  shows "run_inv os s [] \<and> control_ok s"
proof -
  obtain o' where o': "open_outputs os (start_outputs os se so outputs_default) = Some o'"
    using st en by (auto simp: probe_start_def probe_object_def split: option.splits)
  define q where "q = spsc_reset (spsc_init (replicate PRODUCER_CAPACITY event_default))"
  have s: "s = (probe_object n)\<lparr>pq_enabled := True, pq_generation := 2, pq_slots := replicate PRODUCER_QUEUES \<lparr>ps_queue = q, ps_claimed = False\<rparr>,
      pq_outputs := o', pq_running := True, pq_exporter := XRunning\<rparr>"
    using st en o' by (simp add: probe_start_def probe_object_def reset_slot_def q_def)
  have q: "spsc_invar q" "spsc_content q = []" "spsc_capacity q = PRODUCER_CAPACITY - 1"
    using spsc_reset_empty [of "spsc_init (replicate PRODUCER_CAPACITY event_default)"] spsc_init_invar [of 14 "replicate PRODUCER_CAPACITY event_default"]
    by (simp_all add: q_def PRODUCER_CAPACITY_def spsc_capacity_def spsc_init_def)
  let ?m = "mpmc_init (replicate OVERFLOW_CAPACITY event_default)"
  have m: "mpmc_invar ?m" "mpmc_content ?m = []" "mpmc_capacity ?m = OVERFLOW_CAPACITY"
    using mpmc_init_invar [of 15 "replicate OVERFLOW_CAPACITY event_default"]
    by (simp_all add: OVERFLOW_CAPACITY_def mpmc_capacity_def mpmc_init_def)
  have "queued s = []" using q m by (simp add: s queued_def probe_object_def)
  moreover have "counting s = 0" by (simp add: s counting_def probe_object_def)
  moreover have "probe_ok s"
    using q m by (simp add: s probe_ok_def slot_ok_def producer_ok_def rivals_def probe_object_def)
  ultimately show ?thesis
    using o' by (auto simp: run_inv_def balance_def opened_def control_ok_def s probe_object_def)
qed

lemma probe_reach_inv: "probe_reach os s tr \<Longrightarrow> control_ok s \<and> (pq_stop s \<noteq> StopDone \<longrightarrow> run_inv os s tr)"
proof (induction rule: probe_reach.induct)
  case (start so se n s)
  then show ?case using start_inv by blast
next
  case (step s tr l s')
  show ?case
  proof (cases "pq_stop s = StopDone")
    case False
    then have inv: "run_inv os s tr" and ok: "probe_ok s" using step.IH by (simp_all add: run_inv_def)
    have cont: "control_ok s' \<and> (pq_stop s' \<noteq> StopDone \<longrightarrow> run_inv os s' (tr @ [l]))"
      if "good_step s l s'" "export_all os (exported [l]) (pq_outputs s) = Some (pq_outputs s')"
      using run_inv_step [OF inv that] that(1) step.IH by (simp add: good_step_def same_control_def control_ok_def)
    from step.hyps(2) show ?thesis
    proof cases
      case (begin_record i trace_id symbol stage start now a0 a1 v0 v1 e)
      have "good_step s Quiet (set_producer i ((pq_producers s ! i)\<lparr>pr_pc := PrChecked e\<rparr>) s)"
        using begin_record(4) probe_okD(5) [OF ok begin_record(3)] by (intro good_producer_move [OF ok begin_record(3)]) (simp_all add: producer_ok_def)
      then show ?thesis using cont begin_record(1,2) by simp
    next
      case (produce i)
      have "pq_outputs s' = pq_outputs s \<and> exported [l] = []"
        using produce(2) by (auto simp: producer_access_def acquire_slot_def Let_def split: producer_pc.splits option.splits prod.splits if_splits)
      then show ?thesis using cont good_producer [OF ok produce] by simp
    next
      case export
      then show ?thesis using cont good_exporter [OF ok] by blast
    next
      case stop
      then show ?thesis using step.IH inv False
        by (cases "pq_stop s") (auto simp: stop_access_def control_ok_def run_inv_def probe_ok_def balance_def queued_def counting_def)
    qed
  next
    case True
    from step.hyps(2) show ?thesis
    proof cases
      case (produce i)
      then show ?thesis using True step.IH
        by (auto simp: producer_access_def acquire_slot_def control_ok_def Let_def split: producer_pc.splits option.splits prod.splits if_splits)
    next
      case export
      then show ?thesis using True step.IH
        by (auto simp: exporter_access_def control_ok_def Let_def split: exporter_pc.splits option.splits prod.splits if_splits list.splits)
    qed (use True step.IH in \<open>auto simp: stop_access_def control_ok_def\<close>)
  qed
qed

end
