(* ===== verification/ProbeSafety.thy ===== *)
theory ProbeSafety
  imports ProbeQueue
begin

text \<open>
  What the queues of the latency probe guarantee: every accepted event is in exactly one place, the
  counter of pending events is exact once no thread is between its push and its count, and after \<^verbatim>\<open>stop\<close> the
  exporter writes whatever is left and ends. An event that an earlier run left behind makes it run for ever instead.
\<close>

section \<open>Every event is accounted for\<close>


section \<open>The exporter ends\<close>

text \<open>Nobody records any more, and the exporter has the queues to itself.\<close>

definition settled :: "probe \<Rightarrow> bool" where
  "settled s \<longleftrightarrow> probe_ok s \<and> balance s = 0 \<and> counting s = 0 \<and> \<not> pq_running s \<and> outputs_ok (pq_outputs s) \<and>
    (pq_exporter s = XDone \<longrightarrow> queued s = [])"

lemma queued_bound:
  assumes "probe_ok s"
  shows "length (queued s) < 2 ^ 64"
proof -
  have "length (spsc_content (ps_queue slot)) \<le> 16384" if "slot \<in> set (pq_slots s)" for slot
  proof -
    obtain k where k: "k < length (pq_slots s)" "pq_slots s ! k = slot" using \<open>slot \<in> set (pq_slots s)\<close> unfolding in_set_conv_nth by blast
    then have "slot_ok (pq_count s) k slot" using probe_okD(1) [OF assms] probe_okD(2) [OF assms, of k] by simp
    then show ?thesis
      using spsc.bounded [of "ps_queue slot"] by (simp add: slot_ok_def PRODUCER_CAPACITY_def)
  qed
  then have "sum_list (map (\<lambda>slot. length (spsc_content (ps_queue slot))) (pq_slots s)) \<le> sum_list (map (\<lambda>_. 16384) (pq_slots s))"
    by (rule sum_list_mono)
  also have "\<dots> = 16 * 16384" using probe_okD(1) [OF assms] by (simp add: sum_list_triv PRODUCER_QUEUES_def)
  finally have "length (concat (map (spsc_content \<circ> ps_queue) (pq_slots s))) \<le> 16 * 16384"
    by (simp add: length_concat o_def)
  moreover have "length (mpmc_content (pq_overflow s)) \<le> 2 ^ 15"
    using mpmc.bounded [OF probe_okD(3) [OF assms]] assms by (simp add: probe_ok_def OVERFLOW_CAPACITY_def)
  ultimately show ?thesis by (simp add: queued_def)
qed

text \<open>The exporter can always go on, and what it does keeps the queues settled.\<close>

lemma settled_step:
  assumes s: "settled s" and maps: "\<And>c. os_maps os c"
  shows "\<exists>l s'. exporter_access os s = Some (l, s') \<and> settled s' \<and> good_step s l s'"
proof -
  have ok: "probe_ok s" using s by (simp add: settled_def)
  have "\<exists>l s'. exporter_access os s = Some (l, s')"
  proof (cases "pq_exporter s")
    case (XScan b n offset)
    then show ?thesis
      by (auto simp: exporter_access_def Let_def split: prod.split option.split)
  next
    case (XOverflow b)
    then show ?thesis
      using mpmc.pop_ok [OF probe_okD(3) [OF ok]] mpmc.pop_empty [OF probe_okD(3) [OF ok]]
      by (cases "mpmc_content (pq_overflow s)") (fastforce simp: exporter_access_def split: option.split)+
  next
    case (XWrite b)
    have "outputs_ok (pq_outputs s)" using s by (simp add: settled_def)
    then obtain o' where "export_event os (hd b) (pq_outputs s) = Some o'" using export_event_returns maps by blast
    then show ?thesis using XWrite by (cases b) (simp_all add: exporter_access_def)
  qed (simp_all add: exporter_access_def)
  then obtain l s' where a: "exporter_access os s = Some (l, s')" by blast
  have g: "good_step s l s'" and out: "export_all os (exported [l]) (pq_outputs s) = Some (pq_outputs s')"
    using good_exporter [OF ok a] by simp_all
  have "outputs_ok (pq_outputs s')"
  proof (cases l)
    case (Exported e)
    then have "export_event os e (pq_outputs s) = Some (pq_outputs s')" using out by (simp split: option.splits)
    then show ?thesis using export_event_returns [of "pq_outputs s" os e] maps s by (auto simp: settled_def)
  qed (use out s in \<open>simp_all add: settled_def\<close>)
  moreover have "queued s' = []" if "pq_exporter s' = XDone"
  proof (cases "pq_exporter s = XDone")
    case True
    then show ?thesis using a s by (simp add: exporter_access_def settled_def)
  next
    case False
    then have e: "pq_exporter s = XPending" "pq_pending s = 0" "s' = s\<lparr>pq_exporter := XDone\<rparr>"
      using a that by (auto simp: exporter_access_def after_pop_def Let_def word_gt_0 split: exporter_pc.splits option.splits prod.splits if_splits list.splits)
    have "balance s = 0" "counting s = 0" using s by (simp_all add: settled_def)
    then have "of_nat (length (queued s)) = (0 :: u64)" using e by (simp add: balance_def)
    then have "2 ^ 64 dvd length (queued s)" by (simp add: word_of_nat_eq_0_iff)
    then show ?thesis using queued_bound [OF ok] e(3) by (auto dest: dvd_imp_le)
  qed
  moreover have "counting s' = counting s"
    using a by (auto simp: exporter_access_def Let_def split: exporter_pc.splits option.splits prod.splits if_splits list.splits)
  ultimately have "settled s'" using g s by (auto simp: settled_def good_step_def same_control_def)
  then show ?thesis using a g by blast
qed

text \<open>A full scan in progress: what it has passed is empty, and it has not come up empty-handed for nothing.\<close>

definition slot_content :: "probe \<Rightarrow> nat \<Rightarrow> latency_event list" where
  "slot_content s k = spsc_content (ps_queue (pq_slots s ! k))"

definition scanning :: "probe \<Rightarrow> bool" where
  "scanning s \<longleftrightarrow>
    (case pq_exporter s of
       XCount b \<Rightarrow> b = [] \<longrightarrow> queued s \<noteq> []
     | XScan b n offset \<Rightarrow> n = pq_count s \<and> (b = [] \<longrightarrow> queued s \<noteq> []) \<and> (\<forall>m < offset. slot_content s ((pq_cursor s + m) mod n) = [])
     | XOverflow b \<Rightarrow> (b = [] \<longrightarrow> queued s \<noteq> []) \<and> (\<forall>k < PRODUCER_QUEUES. slot_content s k = [])
     | _ \<Rightarrow> True)"

text \<open>The places of the exporter in the order in which it passes them, first up to the test of the loop, then around it.\<close>

fun to_test :: "exporter_pc \<Rightarrow> nat" where
  "to_test XPending = 40"
| "to_test (XCount b) = 30"
| "to_test (XScan b n offset) = 4 + (n - offset)"
| "to_test (XOverflow b) = 3"
| "to_test (XSubtract b) = 2"
| "to_test (XWrite b) = 1"
| "to_test pc = 0"

fun around :: "exporter_pc \<Rightarrow> nat" where
  "around XRunning = 50"
| "around (XWrite []) = 60"
| "around (XWrite (e # es)) = 1"
| "around pc = to_test pc"

definition unwritten :: "probe \<Rightarrow> nat" where
  "unwritten s = length (queued s) + length (held (pq_exporter s))"

lemma good_step_unwritten:
  assumes "good_step s l s'" "accepted [l] = []"
  shows "unwritten s = length (exported [l]) + unwritten s'"
proof -
  have "size (mset (accepted [l]) + mset (queued s) + mset (held (pq_exporter s))) =
      size (mset (exported [l]) + mset (queued s') + mset (held (pq_exporter s')))"
    using assms(1) by (simp add: good_step_def conserves_def)
  then show ?thesis using assms(2) by (simp add: unwritten_def)
qed

lemma exporter_accepts_nothing: "exporter_access os s = Some (l, s') \<Longrightarrow> accepted [l] = []"
  by (auto simp: exporter_access_def Let_def split: exporter_pc.splits option.splits prod.splits if_splits list.splits)

text \<open>The three ways in which an access makes progress.\<close>

lemma exporter_progress:
  assumes s: "settled s" and a: "exporter_access os s = Some (l, s')" and g: "good_step s l s'"
  shows "unwritten s' < unwritten s \<or>
    unwritten s' = unwritten s \<and>
     (length (queued s') < length (queued s) \<or>
      length (queued s') = length (queued s) \<and>
       (pq_exporter s \<notin> {XRunning, XDone} \<longrightarrow> to_test (pq_exporter s') < to_test (pq_exporter s)))"
proof -
  have u: "length (queued s) + length (held (pq_exporter s)) = length (exported [l]) + (length (queued s') + length (held (pq_exporter s')))"
    using good_step_unwritten [OF g exporter_accepts_nothing [OF a]] by (simp add: unwritten_def)
  have ok: "exporter_ok (pq_count s) (pq_exporter s)" "pq_count s \<le> 16"
    using s probe_okD(6) [of s] probe_okD(4) [of s] by (simp_all add: settled_def PRODUCER_QUEUES_def)
  show ?thesis
  proof (cases "pq_exporter s")
    case (XScan b n offset)
    then have "pq_exporter s' \<in> {XScan b n (offset + 1), XOverflow b} \<and> (pq_exporter s' = XScan b n (offset + 1) \<longrightarrow> offset < n) \<or>
        length (held (pq_exporter s')) = length b + 1"
      using a by (auto simp: exporter_access_def Let_def split: option.splits prod.splits if_splits)
    moreover have "l = Quiet"
      using a XScan by (auto simp: exporter_access_def Let_def split: option.splits prod.splits if_splits)
    ultimately show ?thesis using u XScan by (auto simp: unwritten_def)
  next
    case (XOverflow b)
    then have "pq_exporter s' = (if b = [] then XRunning else XSubtract b) \<or> length (held (pq_exporter s')) = length b + 1"
      using a by (auto simp: exporter_access_def Let_def split: option.splits)
    moreover have "l = Quiet" using a XOverflow by (auto simp: exporter_access_def Let_def split: option.splits)
    ultimately show ?thesis using u XOverflow by (auto simp: unwritten_def split: if_splits)
  next
    case (XWrite b)
    then show ?thesis using a u by (cases b) (auto simp: exporter_access_def unwritten_def split: option.splits)
  qed (use a u ok in \<open>auto simp: exporter_access_def unwritten_def\<close>)
qed

text \<open>From the test of the loop on, every round finds what is left: nothing is overlooked by a scan.\<close>

lemma all_empty:
  assumes ok: "probe_ok s" and n: "n = pq_count s" and e: "\<And>m. m < n \<Longrightarrow> slot_content s ((pq_cursor s + m) mod n) = []"
  shows "\<forall>k < PRODUCER_QUEUES. slot_content s k = []"
proof (intro allI impI)
  fix k assume k: "k < PRODUCER_QUEUES"
  show "slot_content s k = []"
  proof (cases "k < n")
    case True
    define m where "m = (k + n - pq_cursor s mod n) mod n"
    have "pq_cursor s mod n < n" using True by simp
    then have "pq_cursor s mod n + (k + n - pq_cursor s mod n) = k + n" by simp
    then have "(pq_cursor s mod n + (k + n - pq_cursor s mod n)) mod n = k" using True by simp
    then have "(pq_cursor s + m) mod n = k" by (simp add: m_def mod_simps)
    moreover have "m < n" using True by (simp add: m_def)
    ultimately show ?thesis using e by metis
  next
    case False
    then show ?thesis using probe_okD(2) [OF ok k] n by (auto simp: slot_ok_def slot_content_def)
  qed
qed

lemma queued_Nil:
  assumes "probe_ok s"
  shows "queued s = [] \<longleftrightarrow> (\<forall>k < PRODUCER_QUEUES. slot_content s k = []) \<and> mpmc_content (pq_overflow s) = []"
  using probe_okD(1) [OF assms] by (auto simp: queued_def slot_content_def all_set_conv_all_nth)

text \<open>What an access does when it does not pop, from the places inside a round.\<close>

lemma scanning_step:
  assumes s: "settled s" "scanning s" and a: "exporter_access os s = Some (l, s')" and g: "good_step s l s'"
  shows "scanning s' \<and> (pq_exporter s \<noteq> XDone \<longrightarrow>
    unwritten s' < unwritten s \<or>
    unwritten s' = unwritten s \<and>
     (length (queued s') < length (queued s) \<or>
      length (queued s') = length (queued s) \<and> around (pq_exporter s') < around (pq_exporter s)))"
proof -
  have ok: "probe_ok s" using s by (simp add: settled_def)
  have eok: "exporter_ok (pq_count s) (pq_exporter s)" "pq_count s \<le> 16"
    using probe_okD(6) [OF ok] probe_okD(4) [OF ok] by (simp_all add: PRODUCER_QUEUES_def)
  have u: "length (queued s) + length (held (pq_exporter s)) = length (exported [l]) + (length (queued s') + length (held (pq_exporter s')))"
    using good_step_unwritten [OF g exporter_accepts_nothing [OF a]] by (simp add: unwritten_def)
  show ?thesis
  proof (cases "pq_exporter s")
    case XRunning
    then show ?thesis using a s by (auto simp: exporter_access_def settled_def scanning_def unwritten_def)
  next
    case XPending
    have "queued s \<noteq> []" if "0 < pq_pending s"
      using s(1) that XPending by (auto simp: settled_def balance_def)
    then show ?thesis using a XPending by (auto simp: exporter_access_def scanning_def unwritten_def)
  next
    case (XCount b)
    then show ?thesis using a s eok by (auto simp: exporter_access_def scanning_def unwritten_def)
  next
    case (XScan b n offset)
    define k where "k = (pq_cursor s + offset) mod n"
    have "n = pq_count s \<and> (b = [] \<longrightarrow> queued s \<noteq> []) \<and> (\<forall>m < offset. slot_content s ((pq_cursor s + m) mod n) = [])"
      using s(2) unfolding scanning_def XScan exporter_pc.case .
    note sc = this [THEN conjunct1] this [THEN conjunct2, THEN conjunct1] this [THEN conjunct2, THEN conjunct2, rule_format]
    consider (full) "\<not> offset < n" | (unclaimed) "offset < n" "\<not> ps_claimed (pq_slots s ! k)"
      | (claimed) "offset < n" "ps_claimed (pq_slots s ! k)" by blast
    then show ?thesis
    proof cases
      case full
      then have "\<forall>k < PRODUCER_QUEUES. slot_content s k = []" using all_empty [OF ok sc(1)] sc(3) eok XScan by simp
      then show ?thesis using a XScan full sc(2) by (auto simp: exporter_access_def scanning_def unwritten_def slot_content_def)
    next
      case unclaimed
      have "k < PRODUCER_QUEUES" using unclaimed(1) sc(1) probe_okD(4) [OF ok] unfolding k_def by (auto intro: less_le_trans [of _ n PRODUCER_QUEUES])
      then have "slot_content s k = []" using probe_okD(2) [OF ok, of k] unclaimed by (auto simp: slot_ok_def slot_content_def)
      then show ?thesis using a XScan unclaimed sc
        by (auto simp: exporter_access_def scanning_def unwritten_def slot_content_def k_def less_Suc_eq)
    next
      case claimed
      let ?q = "ps_queue (pq_slots s ! k)"
      have k: "k < PRODUCER_QUEUES" using claimed(1) sc(1) probe_okD(4) [OF ok] unfolding k_def by (auto intro: less_le_trans [of _ n PRODUCER_QUEUES])
      have inv: "spsc_invar ?q" using probe_okD(2) [OF ok k] by (simp add: slot_ok_def)
      obtain item q where c: "spsc_try_pop ?q = (item, q)" by (cases "spsc_try_pop ?q")
      define s1 where "s1 = set_slot k ((pq_slots s ! k)\<lparr>ps_queue := q\<rparr>) s"
      show ?thesis
      proof (cases item)
        case None
        then have q: "spsc_content ?q = []" "spsc_content q = []" using spsc_pop [OF inv] c by (auto split: list.splits)
        have r: "l = Quiet" "s' = s1\<lparr>pq_exporter := XScan b n (offset + 1)\<rparr>"
          using a XScan claimed c None by (simp_all add: exporter_access_def Let_def k_def [symmetric] s1_def)
        have len: "k < length (pq_slots s)" using k probe_okD(1) [OF ok] by simp
        have same: "slot_content s' m = slot_content s m" for m
          using q len by (cases "m = k") (simp_all add: r s1_def slot_content_def set_slot_def)
        have m: "mset (queued s') = mset (queued s)"
          using queued_set_queue [OF len, of q] q by (simp add: r s1_def)
        then have "queued s' = [] \<longleftrightarrow> queued s = []" by (metis mset_zero_iff)
        then show ?thesis using XScan sc same q claimed same_queued [OF m] u
          by (auto simp: r s1_def scanning_def unwritten_def less_Suc_eq k_def slot_content_def [of s])
      next
        case (Some e)
        then have "pq_exporter s' = after_pop (b @ [e])" "l = Quiet"
          using a XScan claimed c by (auto simp: exporter_access_def Let_def k_def [symmetric])
        then show ?thesis using u XScan by (auto simp: scanning_def unwritten_def after_pop_def)
      qed
    qed
  next
    case (XOverflow b)
    have sc: "b = [] \<longrightarrow> queued s \<noteq> []" "\<forall>k < PRODUCER_QUEUES. slot_content s k = []"
      using s(2) XOverflow by (simp_all add: scanning_def)
    obtain item q where c: "mpmc_try_pop (pq_overflow s) = Some (item, q)" "item = None \<Longrightarrow> mpmc_content (pq_overflow s) = []"
      using mpmc.pop_ok [OF probe_okD(3) [OF ok]] mpmc.pop_empty [OF probe_okD(3) [OF ok]]
      by (cases "mpmc_content (pq_overflow s)") fastforce+
    show ?thesis
    proof (cases item)
      case None
      then have "b \<noteq> []" using sc c(2) queued_Nil [OF ok] by auto
      then have r: "l = Quiet" "pq_exporter s' = XSubtract b" using a XOverflow c(1) None by (auto simp: exporter_access_def)
      then show ?thesis using u XOverflow by (simp add: scanning_def unwritten_def)
    next
      case (Some e)
      then have "pq_exporter s' = after_pop (b @ [e])" "l = Quiet" using a XOverflow c(1) by (auto simp: exporter_access_def)
      then show ?thesis using u XOverflow by (auto simp: scanning_def unwritten_def after_pop_def)
    qed
  next
    case (XSubtract b)
    then show ?thesis using a u eok by (cases b) (auto simp: exporter_access_def scanning_def unwritten_def)
  next
    case (XWrite b)
    then show ?thesis using a u by (cases b) (auto simp: exporter_access_def scanning_def unwritten_def split: option.splits)
  qed (use a eok in \<open>auto simp: exporter_access_def scanning_def\<close>)
qed

text \<open>An exporter whose accesses all make progress gets where it is going.\<close>

lemma exporter_run_append:
  assumes "exporter_run os n s = Some (ls, s1)" "exporter_run os m s1 = Some (ls', s2)"
  shows "exporter_run os (n + m) s = Some (ls @ ls', s2)"
  using assms by (induction n arbitrary: s ls) (auto split: option.splits prod.splits)

lemma exporter_reaches:
  assumes "P s" and wf: "wf r"
    and step: "\<And>s. P s \<Longrightarrow> \<not> T s \<Longrightarrow> \<exists>l s'. exporter_access os s = Some (l, s') \<and> P s' \<and> (s', s) \<in> r"
  shows "\<exists>n ls s'. exporter_run os n s = Some (ls, s') \<and> P s' \<and> T s'"
  using wf assms(1)
proof (induction s rule: wf_induct_rule)
  case (less s)
  show ?case
  proof (cases "T s")
    case True
    then show ?thesis using less.prems by (intro exI [of _ 0]) simp
  next
    case False
    then obtain l s1 where 1: "exporter_access os s = Some (l, s1)" "P s1" "(s1, s) \<in> r" using step less.prems by blast
    obtain n ls s' where "exporter_run os n s1 = Some (ls, s')" "P s'" "T s'" using less.IH [OF 1(3,2)] by blast
    then have "exporter_run os (Suc n) s = Some (l # ls, s')" using 1(1) by simp
    then show ?thesis using \<open>P s'\<close> \<open>T s'\<close> by blast
  qed
qed

lemma exporter_run_reach: "probe_reach os s tr \<Longrightarrow> exporter_run os n s = Some (ls, s') \<Longrightarrow> probe_reach os s' (tr @ ls)"
proof (induction n arbitrary: s tr ls)
  case (Suc n)
  then obtain l s1 ls' where 1: "exporter_access os s = Some (l, s1)" "exporter_run os n s1 = Some (ls', s')" "ls = l # ls'"
    by (auto split: option.splits prod.splits)
  have "probe_reach os s1 (tr @ [l])" using Suc.prems(1) 1(1) by (intro probe_reach.step probe_step.export)
  then show ?case using Suc.IH [OF _ 1(2)] 1(3) by fastforce
qed simp

lemma exporter_run_control: "exporter_run os n s = Some (ls, s') \<Longrightarrow> pq_stop s' = pq_stop s \<and> accepted ls = []"
proof (induction n arbitrary: s ls)
  case (Suc n)
  then obtain l s1 ls' where 1: "exporter_access os s = Some (l, s1)" "exporter_run os n s1 = Some (ls', s')" "ls = l # ls'"
    by (auto split: option.splits prod.splits)
  have "pq_stop s1 = pq_stop s"
    using 1(1) by (auto simp: exporter_access_def Let_def split: exporter_pc.splits option.splits prod.splits if_splits list.splits)
  then show ?case using Suc.IH [OF 1(2)] exporter_accepts_nothing [OF 1(1)] 1(3) by (cases l) auto
qed simp

lemma export_all_ok:
  assumes "\<And>c. os_maps os c"
  shows "outputs_ok o' \<Longrightarrow> export_all os es o' = Some o'' \<Longrightarrow> outputs_ok o''"
proof (induction es arbitrary: o')
  case (Cons e es)
  then show ?case using export_event_returns [of o' os e] assms by (auto split: option.splits)
qed simp

lemma exporter_finishes:
  assumes s: "settled s" and maps: "\<And>c. os_maps os c"
  shows "\<exists>n ls s'. exporter_run os n s = Some (ls, s') \<and> settled s' \<and> pq_exporter s' = XDone"
proof -
  let ?r1 = "measures [unwritten, \<lambda>s. length (queued s), \<lambda>s. to_test (pq_exporter s)]"
  let ?r2 = "measures [unwritten, \<lambda>s. length (queued s), \<lambda>s. around (pq_exporter s)]"
  have "\<exists>n ls s'. exporter_run os n s = Some (ls, s') \<and> settled s' \<and> pq_exporter s' \<in> {XRunning, XDone}"
  proof (rule exporter_reaches [where r = ?r1])
    fix s assume "settled s" "\<not> pq_exporter s \<in> {XRunning, XDone}"
    then show "\<exists>l s'. exporter_access os s = Some (l, s') \<and> settled s' \<and> (s', s) \<in> ?r1"
      using settled_step [of s os] maps exporter_progress [of s os] by fastforce
  qed (use s in simp_all)
  then obtain n ls s1 where 1: "exporter_run os n s = Some (ls, s1)" "settled s1" "pq_exporter s1 \<in> {XRunning, XDone}" by blast
  then have "settled s1 \<and> scanning s1" by (auto simp: scanning_def)
  then have "\<exists>n ls s'. exporter_run os n s1 = Some (ls, s') \<and> (settled s' \<and> scanning s') \<and> pq_exporter s' = XDone"
  proof (rule exporter_reaches [where r = ?r2])
    fix s assume "settled s \<and> scanning s" "\<not> pq_exporter s = XDone"
    then show "\<exists>l s'. exporter_access os s = Some (l, s') \<and> (settled s' \<and> scanning s') \<and> (s', s) \<in> ?r2"
      using settled_step [of s os] maps scanning_step [of s os] by fastforce
  qed simp
  then show ?thesis using exporter_run_append [OF 1(1)] by blast
qed


section \<open>An event left behind by an earlier run\<close>

text \<open>\<^verbatim>\<open>start\<close> sets the counter to 0 and leaves the overflow queue as it is.\<close>

lemma start_keeps_overflow:
  assumes "so_enabled so" "probe_start os se so s = Some s'" "\<forall>slot \<in> set (pq_slots s). spsc_invar (ps_queue slot)"
  shows "pq_overflow s' = pq_overflow s \<and> counting s' = counting s \<and>
    balance s' = of_nat (counting s) - of_nat (length (mpmc_content (pq_overflow s)))"
proof -
  have e: "pq_pending s' = 0" "pq_overflow s' = pq_overflow s" "pq_exporter s' = XRunning" "pq_slots s' = map reset_slot (pq_slots s)"
      "pq_producers s' = pq_producers s"
    using assms(1,2) by (auto simp: probe_start_def split: option.splits)
  have "concat (map (spsc_content \<circ> ps_queue) (pq_slots s')) = []"
    using assms(3) spsc_reset_empty by (auto simp: e(4) reset_slot_def)
  then have "queued s' = mpmc_content (pq_overflow s)" by (simp add: queued_def e(2))
  then show ?thesis by (simp add: e(1-3,5) balance_def counting_def)
qed

text \<open>No step repairs the balance, so once everything is written the counter is not 0, and the exporter goes round for ever.\<close>

definition spinning :: "probe \<Rightarrow> bool" where
  "spinning s \<longleftrightarrow> probe_ok s \<and> \<not> pq_running s \<and> pq_pending s \<noteq> 0 \<and> queued s = [] \<and> held (pq_exporter s) = [] \<and>
    pq_exporter s \<noteq> XDone \<and> (\<forall>b. pq_exporter s \<noteq> XSubtract b)"

lemma spinning_step:
  assumes s: "spinning s" and a: "exporter_access os s = Some (l, s')"
  shows "spinning s' \<and> exported [l] = []"
proof -
  have ok: "probe_ok s" and ov: "mpmc_content (pq_overflow s) = []" using s queued_Nil by (auto simp: spinning_def)
  have g: "good_step s l s'" using good_exporter [OF ok a] by simp
  have h: "length (exported [l]) + unwritten s' = 0"
    using good_step_unwritten [OF g exporter_accepts_nothing [OF a]] s by (simp add: spinning_def unwritten_def)
  have "pq_exporter s' \<noteq> XDone \<and> (\<forall>b. pq_exporter s' \<noteq> XSubtract b) \<and> pq_pending s' = pq_pending s"
  proof (cases "pq_exporter s")
    case (XOverflow b)
    then show ?thesis using a s mpmc.pop_empty [OF probe_okD(3) [OF ok] ov]
      by (auto simp: exporter_access_def spinning_def split: if_splits)
  next
    case (XScan b n offset)
    then show ?thesis using a s h
      by (auto simp: exporter_access_def spinning_def Let_def after_pop_def unwritten_def split: option.splits prod.splits if_splits)
  qed (use a s in \<open>auto simp: exporter_access_def spinning_def word_gt_0 probe_ok_def\<close>)
  then show ?thesis using g s h by (auto simp: spinning_def good_step_def same_control_def unwritten_def)
qed

lemma stale_event_never_ends: "spinning s \<Longrightarrow> exporter_run os n s = Some (ls, s') \<Longrightarrow> pq_exporter s' \<noteq> XDone \<and> exported ls = []"
proof (induction n arbitrary: s ls)
  case (Suc n)
  then obtain l s1 ls' where 1: "exporter_access os s = Some (l, s1)" "exporter_run os n s1 = Some (ls', s')" "ls = l # ls'"
    by (auto split: option.splits prod.splits)
  then show ?case using spinning_step [OF Suc.prems(1) 1(1)] Suc.IH [of s1 ls'] by (cases l) auto
qed (simp add: spinning_def)

lemma stale_event_hangs_stop:
  assumes "probe_ok s" "balance s = - of_nat d" "0 < d" "d < 2 ^ 64" "counting s = 0" "queued s = []" "\<not> pq_running s"
    "pq_exporter s = XRunning"
  shows "exporter_run os n s = Some (ls, s') \<Longrightarrow> pq_exporter s' \<noteq> XDone"
proof -
  have "pq_pending s = - of_nat d" using assms(2,5,6,8) by (simp add: balance_def)
  moreover have "of_nat d \<noteq> (0 :: u64)" using assms(3,4) by (auto simp: word_of_nat_eq_0_iff dest: dvd_imp_le)
  ultimately have "spinning s" using assms by (simp add: spinning_def)
  then show "exporter_run os n s = Some (ls, s') \<Longrightarrow> pq_exporter s' \<noteq> XDone" using stale_event_never_ends by blast
qed

section \<open>A concrete run\<close>

definition demo_os :: probe_os where
  "demo_os = \<lparr>os_page_size = 4096, os_events_text = None, os_events_blocks = None, os_summary_text = None,
     os_events_opens = True, os_summary_opens = True, os_maps = (\<lambda>_. True)\<rparr>"

definition demo_env :: start_env where
  "demo_env = \<lparr>se_platform = Linux, se_cost = (\<lambda>_. 1), se_now_ms = 1000\<rparr>"

definition demo_options :: start_options where
  "demo_options = \<lparr>so_enabled = True, so_mode = CsvText, so_summary_enabled = False, so_mmap_initial = 2 ^ 26, so_benchmark = False\<rparr>"

definition demo_event :: latency_event where
  "demo_event = the (record_at_ns True 1000 7 (format_symbol (SymbolId ''BTC'' ''KRW'')) SignalDetected 100 350 0 0 0 0)"

lemma demo_start: "\<exists>s. probe_start demo_os demo_env demo_options (probe_object 1) = Some s \<and> pq_generation s = 2 \<and>
    pq_producers s = [\<lparr>pr_cache_generation = 0, pr_cache_slot = None, pr_pc = PrIdle\<rparr>] \<and> pq_enabled s \<and> lo_run_id (pq_outputs s) = 1000 \<and>
    pq_stop s = StopIdle \<and> pq_exporter s = XRunning"
  by (simp add: probe_start_def demo_options_def demo_os_def demo_env_def open_outputs_def open_events_def open_summary_def
    start_outputs_def probe_object_def)

text \<open>The one thread records an event and is in the middle of pushing it.\<close>

lemma demo_pushing:
  "\<exists>s. probe_reach demo_os s [Quiet, Quiet, Quiet] \<and> pq_stop s = StopIdle \<and> pq_exporter s = XRunning \<and>
    pq_producers s = [\<lparr>pr_cache_generation = 2, pr_cache_slot = Some 0, pr_pc = PrSlot demo_event (Some 0)\<rparr>]"
proof -
  let ?p = "\<lambda>pc. [\<lparr>pr_cache_generation = 0, pr_cache_slot = None, pr_pc = pc\<rparr>]"
  obtain s0 where s0: "probe_start demo_os demo_env demo_options (probe_object 1) = Some s0" "pq_generation s0 = 2"
    "pq_producers s0 = ?p PrIdle" "pq_enabled s0" "lo_run_id (pq_outputs s0) = 1000" "pq_stop s0 = StopIdle" "pq_exporter s0 = XRunning"
    using demo_start by blast
  have r0: "probe_reach demo_os s0 []" by (rule probe_reach.start [OF _ s0(1)]) (simp add: demo_options_def)
  have e: "record_at_ns (pq_enabled s0) (lo_run_id (pq_outputs s0)) 7 (format_symbol (SymbolId ''BTC'' ''KRW'')) SignalDetected 100 350 0 0 0 0 =
      Some demo_event"
    using s0 by (simp add: demo_event_def record_at_ns_def)
  define s1 where "s1 = set_producer 0 ((pq_producers s0 ! 0)\<lparr>pr_pc := PrChecked demo_event\<rparr>) s0"
  have "probe_step demo_os s0 Quiet s1" unfolding s1_def by (rule probe_step.begin_record [OF _ _ e]) (simp_all add: s0)
  then have r1: "probe_reach demo_os s1 [Quiet]" using probe_reach.step [OF r0] by simp
  have p1: "pq_producers s1 = ?p (PrChecked demo_event)" "pq_generation s1 = 2" "pq_stop s1 = StopIdle" "pq_exporter s1 = XRunning"
    using s0 by (simp_all add: s1_def set_producer_def)
  define s2 where "s2 = set_producer 0 ((pq_producers s1 ! 0)\<lparr>pr_pc := PrGeneration demo_event 2\<rparr>) s1"
  have "producer_access 0 s1 = Some (Quiet, s2)" by (simp add: producer_access_def p1 s2_def)
  then have r2: "probe_reach demo_os s2 [Quiet, Quiet]"
    using probe_reach.step [OF r1 probe_step.produce [of 0]] p1 by simp
  have p2: "pq_producers s2 = ?p (PrGeneration demo_event 2)" "pq_stop s2 = StopIdle" "pq_exporter s2 = XRunning" "pq_slots s2 = pq_slots s0"
    using p1 by (simp_all add: s2_def s1_def set_producer_def)
  have "first_free (pq_slots s0) = Some 0"
  proof -
    have "pq_slots s0 = map reset_slot (pq_slots (probe_object 1))"
      using s0(1) by (auto simp: probe_start_def demo_options_def split: option.splits)
    then have "0 < length (pq_slots s0)" "\<not> ps_claimed (pq_slots s0 ! 0)" by (simp_all add: probe_object_def PRODUCER_QUEUES_def reset_slot_def)
    then show ?thesis by (simp add: first_free_def upt_conv_Cons)
  qed
  then obtain s3 where s3: "acquire_slot 2 (pq_producers s2 ! 0) s2 = (Some 0, \<lparr>pr_cache_generation = 2, pr_cache_slot = Some 0, pr_pc = PrGeneration demo_event 2\<rparr>, s3)"
      "pq_producers s3 = pq_producers s2" "pq_stop s3 = pq_stop s2" "pq_exporter s3 = pq_exporter s2"
    using p2 by (simp add: acquire_slot_def)
  then have "producer_access 0 s2 = Some (Quiet, set_producer 0 \<lparr>pr_cache_generation = 2, pr_cache_slot = Some 0, pr_pc = PrSlot demo_event (Some 0)\<rparr> s3)"
    by (simp add: producer_access_def p2)
  moreover define s4 where "s4 = set_producer 0 \<lparr>pr_cache_generation = 2, pr_cache_slot = Some 0, pr_pc = PrSlot demo_event (Some 0)\<rparr> s3"
  ultimately have "probe_reach demo_os s4 [Quiet, Quiet, Quiet]"
    using probe_reach.step [OF r2 probe_step.produce [of 0]] p2 by simp
  moreover have "pq_stop s4 = StopIdle" "pq_exporter s4 = XRunning" "pq_producers s4 = [\<lparr>pr_cache_generation = 2, pr_cache_slot = Some 0, pr_pc = PrSlot demo_event (Some 0)\<rparr>]"
    using s3 p2 by (simp_all add: s4_def set_producer_def)
  ultimately show ?thesis by blast
qed

lemma held_Nil: "held pc = [] \<Longrightarrow> uncounted pc = 0"
  by (cases pc) simp_all

text \<open>The event has been pushed but not counted, and the counter is one behind.\<close>

lemma demo_pushed:
  "\<exists>s. probe_reach demo_os s [Quiet, Quiet, Quiet, Accepted demo_event] \<and> pq_stop s = StopIdle \<and> pq_exporter s = XRunning \<and>
    pq_producers s = [\<lparr>pr_cache_generation = 2, pr_cache_slot = Some 0, pr_pc = PrCount\<rparr>]"
proof -
  obtain s where s: "probe_reach demo_os s [Quiet, Quiet, Quiet]" "pq_stop s = StopIdle"
    "pq_producers s = [\<lparr>pr_cache_generation = 2, pr_cache_slot = Some 0, pr_pc = PrSlot demo_event (Some 0)\<rparr>]" "pq_exporter s = XRunning"
    using demo_pushing by blast
  have inv: "run_inv demo_os s [Quiet, Quiet, Quiet]" "control_ok s" using probe_reach_inv [OF s(1)] s(2) by simp_all
  then have ok: "probe_ok s" and "queued s = []" by (simp_all add: run_inv_def)
  then have "spsc_content (ps_queue (pq_slots s ! 0)) = []"
    using queued_Nil [OF ok] by (simp add: slot_content_def PRODUCER_QUEUES_def)
  moreover have "slot_ok (pq_count s) 0 (pq_slots s ! 0)" using probe_okD(2) [OF ok, of 0] by (simp add: PRODUCER_QUEUES_def)
  ultimately obtain q where q: "spsc_try_push demo_event (ps_queue (pq_slots s ! 0)) = (True, q)"
    using spsc.push_ok [of "ps_queue (pq_slots s ! 0)" demo_event] by (auto simp: slot_ok_def PRODUCER_CAPACITY_def)
  define s' where "s' = set_producer 0 ((pq_producers s ! 0)\<lparr>pr_pc := PrCount\<rparr>) (set_slot 0 ((pq_slots s ! 0)\<lparr>ps_queue := q\<rparr>) s)"
  have "producer_access 0 s = Some (Accepted demo_event, s')" using q s(3) by (simp add: producer_access_def s'_def)
  then have "probe_reach demo_os s' [Quiet, Quiet, Quiet, Accepted demo_event]"
    using probe_reach.step [OF s(1) probe_step.produce [of 0]] s(3) by simp
  moreover have "pq_stop s' = StopIdle" "pq_exporter s' = XRunning" using s(2,4) by (simp_all add: s'_def)
  moreover have "pq_producers s' = [\<lparr>pr_cache_generation = 2, pr_cache_slot = Some 0, pr_pc = PrCount\<rparr>]"
    using s(3) by (simp add: s'_def set_producer_def)
  ultimately show ?thesis by blast
qed



end
