(* ===== verification/Config.thy ===== *)
theory Config
  imports Json LatencyProbe
begin

text \<open>
  What the program reads before it starts: the \<^verbatim>\<open>.env\<close> file (\<^verbatim>\<open>src/core/dotenv.cpp\<close>), the command line and the
  configuration file (\<^verbatim>\<open>load_config\<close> and the start of \<^verbatim>\<open>main\<close> in \<^verbatim>\<open>src/main.cpp\<close>), and the second loader of
  \<^verbatim>\<open>src/core/config.cpp\<close>. The environment is a map; the YAML library and the file system are parameters. A
  conversion that throws is \<open>None\<close> there.
\<close>

type_synonym environment = "string \<rightharpoonup> string"

section \<open>The environment file\<close>

definition unquote_env_value :: "string \<Rightarrow> string" where
  "unquote_env_value value =
    (if 2 \<le> length value \<and> (hd value = CHR 0x22 \<and> last value = CHR 0x22 \<or> hd value = CHR 0x27 \<and> last value = CHR 0x27)
     then butlast (tl value) else value)"

text \<open>What \<^verbatim>\<open>c_str\<close> hands to the C library.\<close>

definition c_str :: "string \<Rightarrow> string" where
  "c_str s = takeWhile (\<lambda>c. c \<noteq> NUL) s"

text \<open>\<^verbatim>\<open>setenv\<close> without overwriting; an empty name and one with an equals sign are refused.\<close>

definition setenv_new :: "string \<Rightarrow> string \<Rightarrow> environment \<Rightarrow> environment" where
  "setenv_new key value env = (if key = [] \<or> CHR ''='' \<in> set key \<or> env key \<noteq> None then env else env(key \<mapsto> value))"

text \<open>The key and the value on a line, if it has them.\<close>

definition dotenv_entry :: "string \<Rightarrow> (string \<times> string) option" where
  "dotenv_entry line =
    (let trimmed = trim line in
     if trimmed = [] \<or> hd trimmed = CHR ''#'' then None
     else let trimmed = (if starts_with ''export '' trimmed then trim (drop 7 trimmed) else trimmed) in
       case split_at (CHR ''='') trimmed of None \<Rightarrow> None
       | Some (k, v) \<Rightarrow> let key = trim k; value = trim v in
           if key = [] then None else Some (key, unquote_env_value value))"

definition dotenv_line :: "string \<Rightarrow> environment \<times> nat \<Rightarrow> environment \<times> nat" where
  "dotenv_line line s =
    (case dotenv_entry line of None \<Rightarrow> s
     | Some (key, value) \<Rightarrow>
        (case s of (env, loaded) \<Rightarrow>
           if env (c_str key) = None then (setenv_new (c_str key) (c_str value) env, loaded + 1) else (env, loaded)))"

text \<open>The lines of the file, \<open>None\<close> when it cannot be opened.\<close>

definition load_dotenv_file :: "string list option \<Rightarrow> environment \<Rightarrow> (environment \<times> nat) option" where
  "load_dotenv_file lines env = map_option (\<lambda>ls. fold dotenv_line ls (env, 0)) lines"

text \<open>The file system as far as the search needs it: \<open>fs_cwd\<close> is the current directory, and \<open>fs_up\<close> the parent if there is another.\<close>

record 'p file_system =
  fs_cwd :: "'p option"
  fs_empty :: "'p \<Rightarrow> bool"
  fs_is_directory :: "'p \<Rightarrow> bool option"
  fs_parent :: "'p \<Rightarrow> 'p"
  fs_has_parent :: "'p \<Rightarrow> bool"
  fs_env_file :: "'p \<Rightarrow> 'p"
  fs_exists :: "'p \<Rightarrow> bool"
  fs_lines :: "'p \<Rightarrow> string list option"

fun find_up :: "'p file_system \<Rightarrow> nat \<Rightarrow> 'p \<Rightarrow> 'p option" where
  "find_up fs 0 current = None"
| "find_up fs (Suc n) current =
    (if fs_exists fs (fs_env_file fs current) then Some (fs_env_file fs current)
     else if \<not> fs_has_parent fs current \<or> fs_parent fs current = current then None
     else find_up fs n (fs_parent fs current))"

definition find_dotenv_path :: "'p file_system \<Rightarrow> 'p option \<Rightarrow> 'p option" where
  "find_dotenv_path fs start_dir =
    (case fs_cwd fs of None \<Rightarrow> None
     | Some cwd \<Rightarrow>
        let current = (case start_dir of None \<Rightarrow> cwd | Some d \<Rightarrow> d);
            current = (if \<not> fs_empty fs current \<and> fs_is_directory fs current = Some False then fs_parent fs current else current)
        in find_up fs 8 current)"

definition load_dotenv_if_present :: "'p file_system \<Rightarrow> 'p option \<Rightarrow> environment \<Rightarrow> 'p option \<times> nat \<times> environment" where
  "load_dotenv_if_present fs start_dir env =
    (case find_dotenv_path fs start_dir of None \<Rightarrow> (None, 0, env)
     | Some path \<Rightarrow>
        (case load_dotenv_file (fs_lines fs path) env of None \<Rightarrow> (None, 0, env)
         | Some (env, loaded) \<Rightarrow> (Some path, loaded, env)))"

section \<open>The command line\<close>

record cli_options =
  co_config_path :: string
  co_monitor_mode :: bool
  co_monitor_only :: bool
  co_scan_spot_relay :: bool
  co_show_balances :: bool
  co_manual_confirm_once :: bool
  co_dashboard_stream :: "bool option"
  co_latency_probe :: "bool option"
  co_latency_summary :: "bool option"
  co_output_mode :: output_mode
  co_monitor_interval_sec :: int

definition cli_default :: cli_options where
  "cli_default = \<lparr>co_config_path = ''config/config.yaml'', co_monitor_mode = True, co_monitor_only = False,
     co_scan_spot_relay = False, co_show_balances = False, co_manual_confirm_once = False, co_dashboard_stream = None,
     co_latency_probe = None, co_latency_summary = None, co_output_mode = MmapBinary, co_monitor_interval_sec = 1\<rparr>"

datatype cli_result = RunWith cli_options | HelpShown | UsageError | UncaughtException

text \<open>The options without an argument.\<close>

definition plain_option :: "string \<Rightarrow> (cli_options \<Rightarrow> cli_options) option" where
  "plain_option arg =
    (if arg = ''-m'' \<or> arg = ''--monitor'' then Some (\<lambda>o'. o'\<lparr>co_monitor_mode := True\<rparr>)
     else if arg = ''--no-monitor'' then Some (\<lambda>o'. o'\<lparr>co_monitor_mode := False\<rparr>)
     else if arg = ''--monitor-only'' then Some (\<lambda>o'. o'\<lparr>co_monitor_only := True, co_monitor_mode := True\<rparr>)
     else if arg = ''--scan-spot-relay'' then
       Some (\<lambda>o'. o'\<lparr>co_scan_spot_relay := True, co_monitor_only := True, co_monitor_mode := False\<rparr>)
     else if arg = ''--show-balances'' then
       Some (\<lambda>o'. o'\<lparr>co_show_balances := True, co_monitor_only := True, co_monitor_mode := False\<rparr>)
     else if arg = ''--manual-confirm-once'' then
       Some (\<lambda>o'. o'\<lparr>co_manual_confirm_once := True, co_monitor_only := False, co_monitor_mode := True\<rparr>)
     else if arg = ''--dashboard-stream'' then Some (\<lambda>o'. o'\<lparr>co_dashboard_stream := Some True\<rparr>)
     else if arg = ''--no-dashboard-stream'' then Some (\<lambda>o'. o'\<lparr>co_dashboard_stream := Some False\<rparr>)
     else if arg = ''--latency-probe'' then Some (\<lambda>o'. o'\<lparr>co_latency_probe := Some True\<rparr>)
     else if arg = ''--no-latency-probe'' then Some (\<lambda>o'. o'\<lparr>co_latency_probe := Some False\<rparr>)
     else if arg = ''--latency-probe-summary'' then Some (\<lambda>o'. o'\<lparr>co_latency_summary := Some True\<rparr>)
     else if arg = ''--no-latency-probe-summary'' then Some (\<lambda>o'. o'\<lparr>co_latency_summary := Some False\<rparr>)
     else None)"

text \<open>The options with an argument: what it does to the options, or how the program ends.\<close>

definition argument_option :: "string \<Rightarrow> (string \<Rightarrow> cli_options \<Rightarrow> cli_result) option" where
  "argument_option arg =
    (if arg = ''-c'' \<or> arg = ''--config'' then Some (\<lambda>v o'. RunWith (o'\<lparr>co_config_path := v\<rparr>))
     else if arg = ''--latency-probe-output'' then
       Some (\<lambda>v o'. if v = ''csv'' then RunWith (o'\<lparr>co_output_mode := CsvText\<rparr>)
         else if v = ''binary'' then RunWith (o'\<lparr>co_output_mode := Binary\<rparr>)
         else if v = ''mmap'' then RunWith (o'\<lparr>co_output_mode := MmapBinary\<rparr>)
         else UsageError)
     else if arg = ''--monitor-interval-sec'' then
       Some (\<lambda>v o'. case stoi v of None \<Rightarrow> UncaughtException
         | Some n \<Rightarrow> if n \<le> 0 then UsageError else RunWith (o'\<lparr>co_monitor_interval_sec := n\<rparr>))
     else None)"

fun parse_args :: "string list \<Rightarrow> cli_options \<Rightarrow> cli_result" where
  "parse_args [] o' = RunWith o'"
| "parse_args (arg # args) o' =
    (case plain_option arg of Some f \<Rightarrow> parse_args args (f o')
     | None \<Rightarrow>
        (case argument_option arg of
           Some f \<Rightarrow>
            (case args of [] \<Rightarrow> UsageError
             | v # rest \<Rightarrow> (case f v o' of RunWith o' \<Rightarrow> parse_args rest o' | r \<Rightarrow> r))
         | None \<Rightarrow> if arg = ''-h'' \<or> arg = ''--help'' then HelpShown else UsageError))"

definition latency_probe_enabled :: "cli_options \<Rightarrow> bool" where
  "latency_probe_enabled o' =
    (case co_latency_probe o' of Some b \<Rightarrow> b | None \<Rightarrow> \<not> co_monitor_only o' \<and> \<not> co_scan_spot_relay o')"

definition latency_events_path :: "output_mode \<Rightarrow> string" where
  "latency_events_path mode =
    (case mode of CsvText \<Rightarrow> ''trade_logs/latency_events.csv'' | Binary \<Rightarrow> ''trade_logs/latency_events.bin''
     | MmapBinary \<Rightarrow> ''trade_logs/latency_events.mmapbin'')"

definition dashboard_stream_enabled :: "cli_options \<Rightarrow> bool" where
  "dashboard_stream_enabled o' = (case co_dashboard_stream o' of Some b \<Rightarrow> b | None \<Rightarrow> co_monitor_only o')"

text \<open>Whether the configuration must hold private keys.\<close>

definition require_private_keys :: "cli_options \<Rightarrow> bool" where
  "require_private_keys o' \<longleftrightarrow> \<not> (co_monitor_only o' \<or> co_scan_spot_relay o')"

section \<open>The configuration\<close>

record runtime_config =
  rc_max_positions :: int
  rc_position_size_usd :: dbl
  rc_split_orders :: int
  rc_order_size_usd :: dbl
  rc_order_interval_ms :: int
  rc_entry_premium_threshold :: dbl
  rc_exit_premium_threshold :: dbl
  rc_max_price_diff_percent :: dbl
  rc_exchanges :: "exchange \<rightharpoonup> exchange_credentials"
  rc_io_threads :: int
  rc_market_data_threads :: int
  rc_strategy_threads :: int
  rc_order_exec_threads :: int
  rc_use_cpu_affinity :: bool
  rc_log_level :: string
  rc_log_file :: string
  rc_log_max_size_mb :: int
  rc_log_max_files :: int
  rc_use_io_uring :: bool
  rc_preallocate_buffers :: bool
  rc_buffer_pool_size :: int
  rc_ring_buffer_size :: int

definition config_default :: runtime_config where
  "config_default = \<lparr>rc_max_positions = 1, rc_position_size_usd = POSITION_SIZE_USD, rc_split_orders = 1,
     rc_order_size_usd = ORDER_SIZE_USD, rc_order_interval_ms = 100, rc_entry_premium_threshold = ENTRY_PREMIUM_THRESHOLD,
     rc_exit_premium_threshold = EXIT_PREMIUM_THRESHOLD, rc_max_price_diff_percent = lit 50, rc_exchanges = Map.empty,
     rc_io_threads = 4, rc_market_data_threads = 1, rc_strategy_threads = 1, rc_order_exec_threads = 2,
     rc_use_cpu_affinity = False, rc_log_level = ''info'', rc_log_file = ''logs/kimp_bot.log'', rc_log_max_size_mb = 100,
     rc_log_max_files = 10, rc_use_io_uring = False, rc_preallocate_buffers = True, rc_buffer_pool_size = 256,
     rc_ring_buffer_size = 4096\<rparr>"

definition credentials_default :: exchange_credentials where
  "credentials_default = \<lparr>xc_api_key = [], xc_secret_key = [], xc_passphrase = [], xc_ws_endpoint = [],
     xc_ws_private_endpoint = [], xc_ws_trade_endpoint = [], xc_rest_endpoint = [], xc_enabled = True\<rparr>"

text \<open>
  The YAML library: a field of a node, whether a node is defined, and the conversions, \<open>None\<close> when they throw. A
  subscript that throws yields a node that is defined but that no conversion accepts, like all its fields.
\<close>

record 'y yaml_api =
  ya_field :: "'y \<Rightarrow> string \<Rightarrow> 'y"
  ya_defined :: "'y \<Rightarrow> bool"
  ya_text :: "'y \<Rightarrow> string option"
  ya_int :: "'y \<Rightarrow> int option"
  ya_real :: "'y \<Rightarrow> dbl option"
  ya_bool :: "'y \<Rightarrow> bool option"

definition is_placeholder :: "string \<Rightarrow> bool" where
  "is_placeholder val \<longleftrightarrow> 3 < length val \<and> val ! 0 = CHR ''$'' \<and> val ! 1 = CHR ''{'' \<and> last val = CHR ''}''"

definition placeholder_name :: "string \<Rightarrow> string" where
  "placeholder_name val = take (length val - 3) (drop 2 val)"

definition env_placeholder_name :: "string \<Rightarrow> string option" where
  "env_placeholder_name val = (if is_placeholder val then Some (placeholder_name val) else None)"

definition expand_env :: "environment \<Rightarrow> string \<Rightarrow> string" where
  "expand_env env val =
    (if is_placeholder val then (case env (c_str (placeholder_name val)) of None \<Rightarrow> [] | Some v \<Rightarrow> v) else val)"

datatype config_error = FileNotFound | NoExchangesSection | ExchangeNotFound string | ExchangeDisabled string |
  CredentialsMissing string "string list" | BadConfig

definition and_then :: "'e + 'a \<Rightarrow> ('a \<Rightarrow> 'e + 'b) \<Rightarrow> 'e + 'b" where
  "and_then r f = (case r of Inl e \<Rightarrow> Inl e | Inr x \<Rightarrow> f x)"

definition converted :: "'a option \<Rightarrow> config_error + 'a" where
  "converted r = (case r of None \<Rightarrow> Inl BadConfig | Some x \<Rightarrow> Inr x)"

text \<open>An optional field: the value that is there, or the present one.\<close>

definition optional :: "'y yaml_api \<Rightarrow> ('y \<Rightarrow> 'a option) \<Rightarrow> 'y \<Rightarrow> string \<Rightarrow> 'a \<Rightarrow> config_error + 'a" where
  "optional y conv node name current =
    (if ya_defined y (ya_field y node name) then converted (conv (ya_field y node name)) else Inr current)"

text \<open>The text fields of an exchange, in order, each with what it sets.\<close>

type_synonym credential_field = "string \<times> (string \<Rightarrow> exchange_credentials \<Rightarrow> exchange_credentials)"

fun read_credentials :: "'y yaml_api \<Rightarrow> 'y \<Rightarrow> credential_field list \<Rightarrow> exchange_credentials \<Rightarrow> config_error + exchange_credentials" where
  "read_credentials y e [] c = Inr c"
| "read_credentials y e ((name, set_to) # fs) c =
    (if ya_defined y (ya_field y e name)
     then and_then (converted (ya_text y (ya_field y e name))) (\<lambda>s. read_credentials y e fs (set_to s c))
     else read_credentials y e fs c)"

definition ws_field :: credential_field where "ws_field = (''ws_endpoint'', \<lambda>s c. c\<lparr>xc_ws_endpoint := s\<rparr>)"

definition rest_field :: credential_field where "rest_field = (''rest_endpoint'', \<lambda>s c. c\<lparr>xc_rest_endpoint := s\<rparr>)"

definition endpoint_fields :: "credential_field list" where
  "endpoint_fields = [ws_field, (''ws_private_endpoint'', \<lambda>s c. c\<lparr>xc_ws_private_endpoint := s\<rparr>),
     (''ws_trade_endpoint'', \<lambda>s c. c\<lparr>xc_ws_trade_endpoint := s\<rparr>), rest_field]"

definition key_fields :: "environment \<Rightarrow> credential_field list" where
  "key_fields env = [(''api_key'', \<lambda>s c. c\<lparr>xc_api_key := expand_env env s\<rparr>),
     (''secret_key'', \<lambda>s c. c\<lparr>xc_secret_key := expand_env env s\<rparr>)]"

definition passphrase_field :: "environment \<Rightarrow> credential_field" where
  "passphrase_field env = (''passphrase'', \<lambda>s c. c\<lparr>xc_passphrase := expand_env env s\<rparr>)"

text \<open>The variable behind an empty value; a text that was converted before is converted again.\<close>

definition missing_var :: "'y yaml_api \<Rightarrow> 'y \<Rightarrow> string \<times> string \<Rightarrow> string list" where
  "missing_var y e f =
    (case f of (name, value) \<Rightarrow>
       if \<not> ya_defined y (ya_field y e name) then []
       else case ya_text y (ya_field y e name) of None \<Rightarrow> []
         | Some raw \<Rightarrow> (case env_placeholder_name raw of Some n \<Rightarrow> if value = [] then [n] else [] | None \<Rightarrow> []))"

text \<open>The local function \<^verbatim>\<open>load_exchange\<close>, for Bithumb and Bybit: a disabled exchange is entered as it is.\<close>

definition load_enabled :: "'y yaml_api \<Rightarrow> environment \<Rightarrow> bool \<Rightarrow> 'y \<Rightarrow> string \<Rightarrow> exchange \<Rightarrow> runtime_config \<Rightarrow> bool \<Rightarrow>
    config_error + runtime_config" where
  "load_enabled y env keys e name ex config enabled =
    (let c = credentials_default\<lparr>xc_enabled := enabled\<rparr> in
     if \<not> enabled then Inr (config\<lparr>rc_exchanges := (rc_exchanges config)(ex \<mapsto> c)\<rparr>)
     else and_then (read_credentials y e (endpoint_fields @ key_fields env) c) (\<lambda>c.
       if keys \<and> (xc_api_key c = [] \<or> xc_secret_key c = [])
       then Inl (CredentialsMissing name (concat (map (missing_var y e) [(''api_key'', xc_api_key c), (''secret_key'', xc_secret_key c)])))
       else Inr (config\<lparr>rc_exchanges := (rc_exchanges config)(ex \<mapsto> c)\<rparr>)))"

definition load_exchange :: "'y yaml_api \<Rightarrow> environment \<Rightarrow> bool \<Rightarrow> 'y \<Rightarrow> string \<Rightarrow> exchange \<Rightarrow> runtime_config \<Rightarrow> config_error + runtime_config" where
  "load_exchange y env keys yaml name ex config =
    (let e = ya_field y (ya_field y yaml ''exchanges'') name in
     if \<not> ya_defined y e then Inl (ExchangeNotFound name)
     else and_then (optional y (ya_bool y) e ''enabled'' True) (load_enabled y env keys e name ex config))"

text \<open>The blocks for OKX and Upbit, which have to be enabled; Upbit has no private endpoint, OKX a passphrase.\<close>

definition load_required :: "'y yaml_api \<Rightarrow> environment \<Rightarrow> bool \<Rightarrow> 'y \<Rightarrow> string \<Rightarrow> exchange \<Rightarrow> credential_field list \<Rightarrow>
    (exchange_credentials \<Rightarrow> (string \<times> string) list) \<Rightarrow> runtime_config \<Rightarrow> config_error + runtime_config" where
  "load_required y env keys yaml name ex fs secrets config =
    (let e = ya_field y (ya_field y yaml ''exchanges'') name in
     if \<not> ya_defined y e then Inl (ExchangeNotFound name)
     else and_then (optional y (ya_bool y) e ''enabled'' True) (\<lambda>enabled.
       let c = credentials_default\<lparr>xc_enabled := enabled\<rparr> in
       if \<not> enabled then Inl (ExchangeDisabled name)
       else and_then (read_credentials y e fs c) (\<lambda>c.
         if keys \<and> list_ex (\<lambda>f. snd f = []) (secrets c)
         then Inl (CredentialsMissing name (concat (map (missing_var y e) (secrets c))))
         else Inr (config\<lparr>rc_exchanges := (rc_exchanges config)(ex \<mapsto> c)\<rparr>))))"

definition okx_secrets :: "exchange_credentials \<Rightarrow> (string \<times> string) list" where
  "okx_secrets c = [(''api_key'', xc_api_key c), (''secret_key'', xc_secret_key c), (''passphrase'', xc_passphrase c)]"

definition upbit_secrets :: "exchange_credentials \<Rightarrow> (string \<times> string) list" where
  "upbit_secrets c = [(''api_key'', xc_api_key c), (''secret_key'', xc_secret_key c)]"

definition load_logging :: "'y yaml_api \<Rightarrow> 'y \<Rightarrow> runtime_config \<Rightarrow> config_error + runtime_config" where
  "load_logging y yaml config =
    (let l = ya_field y yaml ''logging'' in
     if \<not> ya_defined y l then Inr config
     else and_then (optional y (ya_text y) l ''level'' (rc_log_level config)) (\<lambda>level.
          and_then (optional y (ya_text y) l ''file'' (rc_log_file config)) (\<lambda>file.
          Inr (config\<lparr>rc_log_level := level, rc_log_file := file\<rparr>))))"

definition load_threading :: "'y yaml_api \<Rightarrow> 'y \<Rightarrow> runtime_config \<Rightarrow> config_error + runtime_config" where
  "load_threading y yaml config =
    (let t = ya_field y yaml ''threading'' in
     if \<not> ya_defined y t then Inr config
     else and_then (optional y (ya_int y) t ''io_threads'' (rc_io_threads config)) (\<lambda>n. Inr (config\<lparr>rc_io_threads := n\<rparr>)))"

definition load_exchanges :: "'y yaml_api \<Rightarrow> environment \<Rightarrow> bool \<Rightarrow> 'y \<Rightarrow> runtime_config \<Rightarrow> config_error + runtime_config" where
  "load_exchanges y env keys yaml config =
    and_then (load_exchange y env keys yaml ''bithumb'' Bithumb config) (\<lambda>config.
    and_then (load_exchange y env keys yaml ''bybit'' Bybit config) (\<lambda>config.
    and_then (load_required y env keys yaml ''okx'' OKX (endpoint_fields @ key_fields env @ [passphrase_field env]) okx_secrets config) (\<lambda>config.
    load_required y env keys yaml ''upbit'' Upbit ([ws_field, rest_field] @ key_fields env) upbit_secrets config)))"

text \<open>\<open>doc\<close> is the parsed file: \<open>None\<close> when there is no file, \<open>Some None\<close> when it does not parse.\<close>

definition load_config :: "'y yaml_api \<Rightarrow> environment \<Rightarrow> 'y option option \<Rightarrow> bool \<Rightarrow> config_error + runtime_config" where
  "load_config y env doc keys =
    (case doc of None \<Rightarrow> Inl FileNotFound
     | Some None \<Rightarrow> Inl BadConfig
     | Some (Some yaml) \<Rightarrow>
        and_then (load_logging y yaml config_default) (\<lambda>config.
        and_then (load_threading y yaml config) (\<lambda>config.
        if \<not> ya_defined y (ya_field y yaml ''exchanges'') then Inl NoExchangesSection
        else load_exchanges y env keys yaml config)))"

text \<open>What \<^verbatim>\<open>main\<close> asks of the result, where the subscript of the map enters a default credential for a missing key, and whether Upbit may trade.\<close>

definition all_enabled :: "runtime_config \<Rightarrow> bool" where
  "all_enabled config = list_all (\<lambda>ex. case rc_exchanges config ex of None \<Rightarrow> True | Some c \<Rightarrow> xc_enabled c) [Bithumb, Bybit, OKX, Upbit]"

definition upbit_trade_enabled :: "runtime_config \<Rightarrow> bool" where
  "upbit_trade_enabled config =
    (case rc_exchanges config Upbit of None \<Rightarrow> False | Some c \<Rightarrow> xc_api_key c \<noteq> [] \<and> xc_secret_key c \<noteq> [])"

section \<open>The second loader\<close>

definition get_env :: "environment \<Rightarrow> string \<Rightarrow> string \<Rightarrow> string" where
  "get_env env name default_value = (case env (c_str name) of None \<Rightarrow> default_value | Some v \<Rightarrow> v)"

text \<open>The leftmost placeholder: what is before it, its name and what follows.\<close>

fun find_placeholder :: "string \<Rightarrow> (string \<times> string \<times> string) option" where
  "find_placeholder [] = None"
| "find_placeholder (c # cs) =
    (let later = map_option (\<lambda>(p, n, s). (c # p, n, s)) (find_placeholder cs);
         body = tl cs;
         name = takeWhile (\<lambda>x. x \<noteq> CHR ''}'') body;
         rest = dropWhile (\<lambda>x. x \<noteq> CHR ''}'') body
     in if c = CHR ''$'' \<and> starts_with ''{'' cs \<and> name \<noteq> [] \<and> rest \<noteq> [] then Some ([], name, tl rest) else later)"

text \<open>Replacing goes on until there is none left; \<open>None\<close> when that never happens.\<close>

partial_function (option) expand_env_vars :: "environment \<Rightarrow> string \<Rightarrow> string option" where
  "expand_env_vars env value =
    (case find_placeholder value of None \<Rightarrow> Some value
     | Some (before, name, behind) \<Rightarrow> expand_env_vars env (before @ get_env env name [] @ behind))"

definition endpoints_of :: "string \<Rightarrow> string \<Rightarrow> string \<Rightarrow> string \<Rightarrow> bool \<Rightarrow> exchange_credentials" where
  "endpoints_of ws private trade rest enabled = credentials_default\<lparr>xc_ws_endpoint := ws, xc_ws_private_endpoint := private,
     xc_ws_trade_endpoint := trade, xc_rest_endpoint := rest, xc_enabled := enabled\<rparr>"

definition default_endpoints :: "bool \<Rightarrow> exchange \<rightharpoonup> exchange_credentials" where
  "default_endpoints enabled =
    [Bithumb \<mapsto> endpoints_of ''wss://pubwss.bithumb.com/pub/ws'' [] [] ''https://api.bithumb.com'' enabled,
     Bybit \<mapsto> endpoints_of ''wss://stream.bybit.com/v5/public/spot'' ''wss://stream.bybit.com/v5/private''
       ''wss://stream.bybit.com/v5/trade'' ''https://api.bybit.com'' enabled,
     OKX \<mapsto> endpoints_of ''wss://ws.okx.com:8443/ws/v5/public'' ''wss://ws.okx.com:8443/ws/v5/private'' [] ''https://www.okx.com'' enabled,
     Upbit \<mapsto> endpoints_of ''wss://api.upbit.com/websocket/v1'' [] [] ''https://api.upbit.com'' enabled]"

definition get_default :: runtime_config where
  "get_default = config_default\<lparr>rc_exchanges := default_endpoints False\<rparr>"

definition with_keys :: "environment \<Rightarrow> string \<Rightarrow> exchange_credentials option \<Rightarrow> exchange_credentials option" where
  "with_keys env prefix c = map_option (\<lambda>c. c\<lparr>xc_api_key := get_env env (prefix @ ''_API_KEY'') [],
     xc_secret_key := get_env env (prefix @ ''_SECRET_KEY'') []\<rparr>) c"

definition load_from_env :: "environment \<Rightarrow> runtime_config" where
  "load_from_env env =
    (let d = default_endpoints True in
     get_default\<lparr>rc_exchanges :=
       d(Bithumb := with_keys env ''BITHUMB'' (d Bithumb), Bybit := with_keys env ''BYBIT'' (d Bybit),
         OKX := map_option (\<lambda>c. c\<lparr>xc_passphrase := get_env env ''OKX_PASSPHRASE'' []\<rparr>) (with_keys env ''OKX'' (d OKX)),
         Upbit := with_keys env ''UPBIT'' (d Upbit))\<rparr>)"

text \<open>
  A statement of \<^verbatim>\<open>load\<close>: the new configuration and whether it threw; \<open>None\<close> when it does not return.
  An exception ends the sequence and leaves what was set before.
\<close>

type_synonym load_step = "runtime_config \<Rightarrow> (runtime_config \<times> bool) option"

fun run_steps :: "load_step list \<Rightarrow> runtime_config \<Rightarrow> runtime_config option" where
  "run_steps [] c = Some c"
| "run_steps (f # fs) c = (case f c of None \<Rightarrow> None | Some (c, thrown) \<Rightarrow> if thrown then Some c else run_steps fs c)"

definition field_step :: "'y yaml_api \<Rightarrow> 'y \<Rightarrow> ('y \<Rightarrow> 'a option) \<Rightarrow> string \<Rightarrow> string \<times> ('a \<Rightarrow> runtime_config \<Rightarrow> runtime_config) \<Rightarrow> load_step" where
  "field_step y yaml conv part f c =
    (let node = ya_field y yaml part; field = ya_field y node (fst f) in
     if \<not> ya_defined y node \<or> \<not> ya_defined y field then Some (c, False)
     else case conv field of None \<Rightarrow> Some (c, True) | Some v \<Rightarrow> Some (snd f v c, False))"

text \<open>The exchange block; its fields go to a local record, so an exception loses them.\<close>

fun read_expanded :: "'y yaml_api \<Rightarrow> environment \<Rightarrow> 'y \<Rightarrow> (bool \<times> credential_field) list \<Rightarrow> exchange_credentials \<Rightarrow>
    exchange_credentials option option" where
  "read_expanded y env e [] c = Some (Some c)"
| "read_expanded y env e ((expand, name, set_to) # fs) c =
    (if \<not> ya_defined y (ya_field y e name) then read_expanded y env e fs c
     else case ya_text y (ya_field y e name) of None \<Rightarrow> Some None
     | Some s \<Rightarrow> (case (if expand then expand_env_vars env s else Some s) of None \<Rightarrow> None
         | Some s \<Rightarrow> read_expanded y env e fs (set_to s c)))"

definition loader_fields :: "(bool \<times> credential_field) list" where
  "loader_fields = map (Pair False) endpoint_fields @
    [(True, ''api_key'', \<lambda>s c. c\<lparr>xc_api_key := s\<rparr>), (True, ''secret_key'', \<lambda>s c. c\<lparr>xc_secret_key := s\<rparr>),
     (True, ''passphrase'', \<lambda>s c. c\<lparr>xc_passphrase := s\<rparr>)]"

definition exchange_step :: "'y yaml_api \<Rightarrow> environment \<Rightarrow> 'y \<Rightarrow> string \<times> exchange \<Rightarrow> load_step" where
  "exchange_step y env yaml ne c =
    (let e = ya_field y (ya_field y yaml ''exchanges'') (fst ne) in
     if \<not> ya_defined y e then Some (c, False)
     else case (if ya_defined y (ya_field y e ''enabled'') then ya_bool y (ya_field y e ''enabled'') else Some True) of
       None \<Rightarrow> Some (c, True)
     | Some enabled \<Rightarrow>
        (case read_expanded y env e loader_fields (credentials_default\<lparr>xc_enabled := enabled\<rparr>) of
           None \<Rightarrow> None
         | Some None \<Rightarrow> Some (c, True)
         | Some (Some creds) \<Rightarrow> Some (c\<lparr>rc_exchanges := (rc_exchanges c)(snd ne \<mapsto> creds)\<rparr>, False)))"

definition loader_steps :: "'y yaml_api \<Rightarrow> environment \<Rightarrow> 'y \<Rightarrow> load_step list" where
  "loader_steps y env yaml =
    [field_step y yaml (ya_int y) ''trading'' (''max_positions'', \<lambda>v c. c\<lparr>rc_max_positions := v\<rparr>),
     field_step y yaml (ya_real y) ''trading'' (''position_size_usd'', \<lambda>v c. c\<lparr>rc_position_size_usd := v\<rparr>),
     field_step y yaml (ya_int y) ''trading'' (''split_orders'', \<lambda>v c. c\<lparr>rc_split_orders := v\<rparr>),
     field_step y yaml (ya_real y) ''trading'' (''order_size_usd'', \<lambda>v c. c\<lparr>rc_order_size_usd := v\<rparr>),
     field_step y yaml (ya_int y) ''trading'' (''order_interval_ms'', \<lambda>v c. c\<lparr>rc_order_interval_ms := v\<rparr>),
     field_step y yaml (ya_real y) ''trading'' (''entry_premium_threshold'', \<lambda>v c. c\<lparr>rc_entry_premium_threshold := v\<rparr>),
     field_step y yaml (ya_real y) ''trading'' (''exit_premium_threshold'', \<lambda>v c. c\<lparr>rc_exit_premium_threshold := v\<rparr>),
     field_step y yaml (ya_real y) ''trading'' (''max_price_diff_percent'', \<lambda>v c. c\<lparr>rc_max_price_diff_percent := v\<rparr>),
     exchange_step y env yaml (''bithumb'', Bithumb), exchange_step y env yaml (''bybit'', Bybit),
     exchange_step y env yaml (''okx'', OKX), exchange_step y env yaml (''upbit'', Upbit),
     field_step y yaml (ya_int y) ''threading'' (''io_threads'', \<lambda>v c. c\<lparr>rc_io_threads := v\<rparr>),
     field_step y yaml (ya_int y) ''threading'' (''market_data_threads'', \<lambda>v c. c\<lparr>rc_market_data_threads := v\<rparr>),
     field_step y yaml (ya_int y) ''threading'' (''strategy_threads'', \<lambda>v c. c\<lparr>rc_strategy_threads := v\<rparr>),
     field_step y yaml (ya_int y) ''threading'' (''order_exec_threads'', \<lambda>v c. c\<lparr>rc_order_exec_threads := v\<rparr>),
     field_step y yaml (ya_bool y) ''threading'' (''use_cpu_affinity'', \<lambda>v c. c\<lparr>rc_use_cpu_affinity := v\<rparr>),
     field_step y yaml (ya_text y) ''logging'' (''level'', \<lambda>v c. c\<lparr>rc_log_level := v\<rparr>),
     field_step y yaml (ya_text y) ''logging'' (''file'', \<lambda>v c. c\<lparr>rc_log_file := v\<rparr>),
     field_step y yaml (ya_int y) ''logging'' (''max_size_mb'', \<lambda>v c. c\<lparr>rc_log_max_size_mb := v\<rparr>),
     field_step y yaml (ya_int y) ''logging'' (''max_files'', \<lambda>v c. c\<lparr>rc_log_max_files := v\<rparr>),
     field_step y yaml (ya_bool y) ''performance'' (''use_io_uring'', \<lambda>v c. c\<lparr>rc_use_io_uring := v\<rparr>),
     field_step y yaml (ya_bool y) ''performance'' (''preallocate_buffers'', \<lambda>v c. c\<lparr>rc_preallocate_buffers := v\<rparr>),
     field_step y yaml (ya_int y) ''performance'' (''buffer_pool_size'', \<lambda>v c. c\<lparr>rc_buffer_pool_size := v\<rparr>),
     field_step y yaml (ya_int y) ''performance'' (''ring_buffer_size'', \<lambda>v c. c\<lparr>rc_ring_buffer_size := v\<rparr>)]"

definition config_loader_load :: "'y yaml_api \<Rightarrow> environment \<Rightarrow> 'y option \<Rightarrow> runtime_config option" where
  "config_loader_load y env doc =
    (case doc of None \<Rightarrow> Some get_default | Some yaml \<Rightarrow> run_steps (loader_steps y env yaml) get_default)"

section \<open>Placeholders\<close>

lemma is_placeholder_iff: "is_placeholder val \<longleftrightarrow> (\<exists>name. name \<noteq> [] \<and> val = ''${'' @ name @ ''}'')"
proof
  assume p: "is_placeholder val"
  then obtain a b rest where v: "val = a # b # rest" by (cases val; cases "tl val") (auto simp: is_placeholder_def)
  then have r: "a = CHR ''$''" "b = CHR ''{''" "2 \<le> length rest" "last rest = CHR ''}''"
    using p by (auto simp: is_placeholder_def split: if_splits)
  then have "rest \<noteq> []" by auto
  then have "rest = butlast rest @ [last rest]" by simp
  moreover have "butlast rest \<noteq> []" using r(3) by (cases rest) (auto split: if_splits)
  ultimately show "\<exists>name. name \<noteq> [] \<and> val = ''${'' @ name @ ''}''" using v r by (intro exI [of _ "butlast rest"]) simp
next
  assume "\<exists>name. name \<noteq> [] \<and> val = ''${'' @ name @ ''}''"
  then show "is_placeholder val" by (auto simp: is_placeholder_def neq_Nil_conv)
qed

lemma expand_env_placeholder:
  "name \<noteq> [] \<Longrightarrow> expand_env env (''${'' @ name @ ''}'') = (case env (c_str name) of None \<Rightarrow> [] | Some v \<Rightarrow> v)"
  "(\<nexists>name. val = ''${'' @ name @ ''}'') \<Longrightarrow> expand_env env val = val"
  using is_placeholder_iff [of "''${'' @ name @ ''}''"] is_placeholder_iff [of val]
  by (auto simp: expand_env_def placeholder_name_def)

lemma find_placeholder_whole:
  assumes "name \<noteq> []" "CHR ''}'' \<notin> set name"
  shows "find_placeholder (''${'' @ name @ ''}'') = Some ([], name, [])"
proof -
  have "takeWhile (\<lambda>x. x \<noteq> CHR ''}'') (name @ ''}'') = name" "dropWhile (\<lambda>x. x \<noteq> CHR ''}'') (name @ ''}'') = ''}''"
    using assms(2) by (induction name) auto
  then show ?thesis using assms(1) by (simp add: Let_def starts_with_def)
qed

lemma find_placeholder_split:
  "find_placeholder s = Some (p, n, b) \<Longrightarrow> s = p @ ''${'' @ n @ ''}'' @ b"
proof (induction s arbitrary: p)
  case (Cons c cs)
  let ?name = "takeWhile (\<lambda>x. x \<noteq> CHR ''}'') (tl cs)" and ?rest = "dropWhile (\<lambda>x. x \<noteq> CHR ''}'') (tl cs)"
  show ?case
  proof (cases "c = CHR ''$'' \<and> starts_with ''{'' cs \<and> ?name \<noteq> [] \<and> ?rest \<noteq> []")
    case True
    then have "p = []" "n = ?name" "b = tl ?rest" using Cons.prems by (simp_all add: Let_def)
    moreover have "hd ?rest = CHR ''}''" using True hd_dropWhile [of "\<lambda>x. x \<noteq> CHR ''}''" "tl cs"] by simp
    moreover have "cs = CHR ''{'' # tl cs" using True by (cases cs) (auto simp: starts_with_def)
    moreover have "tl cs = ?name @ hd ?rest # tl ?rest" using True by simp
    ultimately show ?thesis using True by (metis append_Cons append_Nil)
  next
    case False
    then obtain p' where "find_placeholder cs = Some (p', n, b)" "p = c # p'"
      using Cons.prems by (auto simp: Let_def split: if_splits)
    then show ?thesis using Cons.IH by simp
  qed
qed simp

text \<open>When no variable's value brings in a new placeholder, expanding ends.\<close>

lemma expand_env_vars_returns:
  assumes env: "\<And>n v. env n = Some v \<Longrightarrow> CHR ''$'' \<notin> set v"
  shows "\<exists>r. expand_env_vars env s = Some r \<and> find_placeholder r = None"
proof (induction "length (filter (\<lambda>c. c = CHR ''$'') s)" arbitrary: s rule: less_induct)
  case less
  show ?case
  proof (cases "find_placeholder s")
    case None
    then show ?thesis by (simp add: expand_env_vars.simps [of env s])
  next
    case (Some pnb)
    then obtain p n b where pnb: "find_placeholder s = Some (p, n, b)" by (cases pnb) auto
    have "CHR ''$'' \<notin> set (get_env env n [])" using env by (auto simp: get_env_def split: option.split)
    then have "filter (\<lambda>c. c = CHR ''$'') (get_env env n []) = []" by (auto simp: filter_empty_conv)
    then have "length (filter (\<lambda>c. c = CHR ''$'') (p @ get_env env n [] @ b)) < length (filter (\<lambda>c. c = CHR ''$'') s)"
      using find_placeholder_split [OF pnb] by simp
    from less.hyps [OF this] show ?thesis using pnb by (simp add: expand_env_vars.simps [of env s])
  qed
qed

text \<open>A variable whose value is its own placeholder makes the loader run for ever.\<close>

lemma self_reference_hangs:
  assumes "name \<noteq> []" "CHR ''}'' \<notin> set name" "env (c_str name) = Some (''${'' @ name @ ''}'')"
  shows "expand_env_vars env (''${'' @ name @ ''}'') = None"
proof -
  let ?s = "''${'' @ name @ ''}''"
  have "s \<noteq> ?s" if "expand_env_vars env s = Some r" for s r
    using that assms(3)
  proof (induction rule: expand_env_vars.raw_induct [rotated 1, consumes 1])
    case (1 rec env s r)
    show ?case
    proof
      assume s: "s = ?s"
      have "get_env env name [] = ?s" using 1(3) by (simp add: get_env_def)
      then have "rec env ?s = Some r"
        using 1(2) unfolding s by (simp only: find_placeholder_whole [OF assms(1,2)] option.case prod.case append_Nil append_Nil2)
      from 1(1) [OF this 1(3)] show False by (rule notE) (rule refl)
    qed
  qed
  then show ?thesis by (cases "expand_env_vars env ?s") blast+
qed

text \<open>The two loaders read the value \<^verbatim>\<open>${NAME}\<close> alike, as long as the variable holds no dollar sign.\<close>

lemma loaders_agree:
  assumes "name \<noteq> []" "CHR ''}'' \<notin> set name" "\<And>v. env (c_str name) = Some v \<Longrightarrow> CHR ''$'' \<notin> set v"
  shows "expand_env_vars env (''${'' @ name @ ''}'') = Some (expand_env env (''${'' @ name @ ''}''))"
proof -
  have *: "find_placeholder v = None" if "CHR ''$'' \<notin> set v" for v
    using that by (induction v) (auto simp: Let_def)
  have e: "expand_env env (''${'' @ name @ ''}'') = get_env env name []"
    unfolding expand_env_placeholder(1) [OF assms(1)] get_env_def ..
  have "find_placeholder (get_env env name []) = None"
    using * assms(3) by (auto simp: get_env_def split: option.split)
  then have "expand_env_vars env (get_env env name []) = Some (get_env env name [])"
    by (simp add: expand_env_vars.simps)
  moreover have "expand_env_vars env (''${'' @ name @ ''}'') = expand_env_vars env (get_env env name [])"
    by (subst expand_env_vars.simps) (simp only: find_placeholder_whole [OF assms(1,2)] option.case prod.case append_Nil append_Nil2)
  ultimately show ?thesis unfolding e by simp
qed

section \<open>The environment file only adds\<close>

lemma dotenv_line_keeps: "fst s k = Some v \<Longrightarrow> fst (dotenv_line line s) k = Some v"
  by (cases s) (auto simp: dotenv_line_def setenv_new_def split: option.splits prod.splits)

text \<open>A variable that is set keeps its value, and of two lines for the same variable the first counts.\<close>

lemma dotenv_keeps:
  assumes "load_dotenv_file (Some (lines1 @ lines2)) env = Some (env2, n)" "load_dotenv_file (Some lines1) env = Some (env1, m)"
    "env1 k = Some v"
  shows "env2 k = Some v"
proof -
  have *: "fst s k = Some v \<Longrightarrow> fst (fold dotenv_line ls s) k = Some v" for ls s
    by (induction ls arbitrary: s) (simp_all add: dotenv_line_keeps)
  have "fold dotenv_line lines1 (env, 0) = (env1, m)" using assms(2) by (simp add: load_dotenv_file_def)
  then have "fold dotenv_line lines2 (env1, m) = (env2, n)" using assms(1) by (simp add: load_dotenv_file_def)
  then show ?thesis using * [of "(env1, m)" lines2] assms(3) by simp
qed

section \<open>What a configuration that loads has\<close>

lemma and_then_Inr: "and_then r f = Inr y \<longleftrightarrow> (\<exists>x. r = Inr x \<and> f x = Inr y)"
  by (cases r) (simp_all add: and_then_def)

text \<open>What the first exchanges leave in the configuration, and the required ones.\<close>

definition keyed :: "bool \<Rightarrow> exchange_credentials \<Rightarrow> bool" where
  "keyed keys c \<longleftrightarrow> (keys \<and> xc_enabled c \<longrightarrow> xc_api_key c \<noteq> [] \<and> xc_secret_key c \<noteq> [])"

lemma load_exchange_has:
  assumes "load_exchange y env keys yaml name ex config = Inr config'"
  shows "\<exists>c. rc_exchanges config' = (rc_exchanges config)(ex \<mapsto> c) \<and> keyed keys c"
proof -
  obtain enabled where en: "load_enabled y env keys (ya_field y (ya_field y yaml ''exchanges'') name) name ex config enabled = Inr config'"
    using assms by (auto simp: load_exchange_def Let_def and_then_Inr split: if_splits)
  show ?thesis
  proof (cases enabled)
    case False
    then show ?thesis using en
      by (intro exI [of _ "credentials_default\<lparr>xc_enabled := False\<rparr>"]) (auto simp: load_enabled_def keyed_def Let_def)
  next
    case True
    then obtain c where "config' = config\<lparr>rc_exchanges := (rc_exchanges config)(ex \<mapsto> c)\<rparr>"
        "keys \<longrightarrow> xc_api_key c \<noteq> [] \<and> xc_secret_key c \<noteq> []"
      using en by (auto simp: load_enabled_def and_then_Inr Let_def split: if_splits)
    then show ?thesis by (intro exI [of _ c]) (simp add: keyed_def)
  qed
qed

definition enabled_kept :: "credential_field list \<Rightarrow> bool" where
  "enabled_kept fs \<longleftrightarrow> (\<forall>(name, f) \<in> set fs. \<forall>s c. xc_enabled (f s c) = xc_enabled c)"

lemma read_credentials_enabled:
  "read_credentials y e fs c = Inr c' \<Longrightarrow> enabled_kept fs \<Longrightarrow> xc_enabled c' = xc_enabled c"
proof (induction fs arbitrary: c)
  case (Cons f fs)
  obtain name set_to where f: "f = (name, set_to)" by (cases f)
  have kept: "enabled_kept fs" "xc_enabled (set_to s c) = xc_enabled c" for s using Cons.prems(2) by (auto simp: enabled_kept_def f)
  show ?case
  proof (cases "ya_defined y (ya_field y e name)")
    case True
    then obtain s where "read_credentials y e fs (set_to s c) = Inr c'" using Cons.prems(1) by (auto simp: f and_then_Inr)
    then show ?thesis using Cons.IH kept by simp
  next
    case False
    then show ?thesis using Cons.IH Cons.prems(1) kept by (simp add: f)
  qed
qed simp

lemma fields_keep_enabled:
  "enabled_kept (endpoint_fields @ key_fields env @ [passphrase_field env])" "enabled_kept ([ws_field, rest_field] @ key_fields env)"
  by (auto simp: enabled_kept_def endpoint_fields_def ws_field_def rest_field_def key_fields_def passphrase_field_def)

lemma load_required_has:
  assumes "load_required y env keys yaml name ex fs secrets config = Inr config'" "enabled_kept fs"
  shows "\<exists>c. rc_exchanges config' = (rc_exchanges config)(ex \<mapsto> c) \<and> xc_enabled c \<and> (keys \<longrightarrow> (\<forall>f \<in> set (secrets c). snd f \<noteq> []))"
proof -
  let ?e = "ya_field y (ya_field y yaml ''exchanges'') name"
  obtain c where c: "read_credentials y ?e fs (credentials_default\<lparr>xc_enabled := True\<rparr>) = Inr c"
      "\<not> (keys \<and> list_ex (\<lambda>f. snd f = []) (secrets c))" "config' = config\<lparr>rc_exchanges := (rc_exchanges config)(ex \<mapsto> c)\<rparr>"
    using assms(1) unfolding load_required_def Let_def by (auto simp: and_then_Inr split: if_splits)
  have "xc_enabled c" using read_credentials_enabled [OF c(1) assms(2)] by simp
  then show ?thesis using c(2,3) by (intro exI [of _ c]) (auto simp: list_ex_iff)
qed


section \<open>A configuration for the witness\<close>

datatype sample_node = Absent | Leaf string | Block "(string \<times> sample_node) list"

fun sample_node_field :: "sample_node \<Rightarrow> string \<Rightarrow> sample_node" where
  "sample_node_field (Block fs) name = (case map_of fs name of None \<Rightarrow> Absent | Some v \<Rightarrow> v)"
| "sample_node_field _ name = Absent"

fun sample_string :: "sample_node \<Rightarrow> string option" where
  "sample_string (Leaf s) = Some s"
| "sample_string _ = None"

fun sample_flag :: "sample_node \<Rightarrow> bool option" where
  "sample_flag (Leaf s) = (if s = ''true'' then Some True else if s = ''false'' then Some False else None)"
| "sample_flag _ = None"

definition sample_yaml_api :: "sample_node yaml_api" where
  "sample_yaml_api = \<lparr>ya_field = sample_node_field, ya_defined = (\<lambda>n. n \<noteq> Absent), ya_text = sample_string,
     ya_int = (\<lambda>n. map_option (\<lambda>s. int (length s)) (sample_string n)), ya_real = (\<lambda>_. None), ya_bool = sample_flag\<rparr>"

definition sample_exchange_block :: "string \<Rightarrow> sample_node" where
  "sample_exchange_block prefix = Block [(''enabled'', Leaf ''true''), (''rest_endpoint'', Leaf ''https://host''),
     (''api_key'', Leaf (''${'' @ prefix @ ''_KEY}'')), (''secret_key'', Leaf ''literal''), (''passphrase'', Leaf ''phrase'')]"

definition sample_yaml :: sample_node where
  "sample_yaml = Block [(''logging'', Block [(''level'', Leaf ''debug'')]),
     (''exchanges'', Block [(''bithumb'', sample_exchange_block ''A''), (''bybit'', sample_exchange_block ''B''),
        (''okx'', sample_exchange_block ''C''), (''upbit'', sample_exchange_block ''D'')])]"

definition sample_environment :: environment where
  "sample_environment = [''A_KEY'' \<mapsto> ''a'', ''B_KEY'' \<mapsto> ''b'', ''C_KEY'' \<mapsto> ''c'', ''D_KEY'' \<mapsto> ''d'']"

definition sample_runtime_config :: runtime_config where
  "sample_runtime_config = projr (load_config sample_yaml_api sample_environment (Some (Some sample_yaml)) True)"

lemma sample_config_loads:
  "load_config sample_yaml_api sample_environment (Some (Some sample_yaml)) True = Inr sample_runtime_config"
  unfolding sample_runtime_config_def
  by (simp add: load_config_def load_logging_def load_threading_def load_exchanges_def load_exchange_def load_enabled_def
      load_required_def read_credentials.simps optional_def converted_def and_then_def endpoint_fields_def key_fields_def ws_field_def
      rest_field_def passphrase_field_def expand_env_def is_placeholder_def placeholder_name_def c_str_def okx_secrets_def
      upbit_secrets_def sample_yaml_api_def sample_yaml_def sample_exchange_block_def sample_environment_def credentials_default_def)


end
