(* ===== verification/PositionFile.thy ===== *)
theory PositionFile
  imports EntryLoop Calendar BithumbFeed
begin

text \<open>
  What \<^verbatim>\<open>src/main.cpp\<close> keeps on disk: the trade log and the file of the open position, from which the next start
  recovers. The disk is what the calls on it answer; the JSON library is a parameter. The clock counts \<open>tick\<close> units
  in a millisecond, and divisions of time round towards zero.
\<close>

definition trunc_div :: "int \<Rightarrow> int \<Rightarrow> int" where
  "trunc_div a b = sgn a * (\<bar>a\<bar> div b)"

section \<open>The trade log\<close>

text \<open>\<open>zone\<close> is the distance of the local time from UTC, in seconds, at a time since 1970.\<close>

definition format_time :: "int \<Rightarrow> (int \<Rightarrow> int) \<Rightarrow> systime \<Rightarrow> string" where
  "format_time tick zone ts =
    (let tt = trunc_div ts (1000 * tick); t = gmtime (nat (tt + zone tt))
     in pad_digits 4 (tm_year t) @ ''-'' @ pad_digits 2 (tm_mon t) @ ''-'' @ pad_digits 2 (tm_mday t) @ '' '' @
        pad_digits 2 (tm_hour t) @ '':'' @ pad_digits 2 (tm_min t) @ '':'' @ pad_digits 2 (tm_sec t))"

definition trade_log_header :: string where
  "trade_log_header = ''entry_time,exit_time,symbol,entry_premium,exit_premium,'' @
     ''korean_entry_price,korean_exit_price,foreign_entry_price,foreign_exit_price,'' @
     ''korean_amount,foreign_amount,pnl_krw,pnl_usd,usdt_rate,'' @
     ''position_size_usd,notional_usd,return_pct,capital_before,capital_after,partial_exit'' @ [CHR 0x0A]"

definition trade_log_row :: "int \<Rightarrow> (int \<Rightarrow> int) \<Rightarrow> position \<Rightarrow> dbl \<Rightarrow> dbl \<Rightarrow> dbl \<Rightarrow> dbl \<Rightarrow> string list" where
  "trade_log_row tick zone pos pnl_usd usdt_rate capital_before capital_after =
    (let notional_usd = pos_position_size_usd pos * lit 2;
         return_pct = (if 0 < notional_usd then (pnl_usd / notional_usd) * lit 100 else 0)
     in [format_time tick zone (pos_entry_time pos), format_time tick zone (pos_exit_time pos), symbol_to_string (pos_symbol pos),
         format_fixed 6 (pos_entry_premium pos), format_fixed 6 (pos_exit_premium pos),
         format_fixed 8 (pos_korean_entry_price pos), format_fixed 8 (pos_korean_exit_price pos),
         format_fixed 6 (pos_foreign_entry_price pos), format_fixed 6 (pos_foreign_exit_price pos),
         format_fixed 8 (pos_korean_amount pos), format_fixed 8 (pos_foreign_amount pos),
         format_fixed 2 (pos_realized_pnl_krw pos), format_fixed 2 pnl_usd, format_fixed 2 usdt_rate,
         format_fixed 2 (pos_position_size_usd pos), format_fixed 2 notional_usd, format_fixed 4 return_pct,
         format_fixed 2 capital_before, format_fixed 2 capital_after, if pos_is_active pos then ''1'' else ''0''])"

text \<open>The file after a row was appended; \<open>None\<close> stands for no file, and for the result when making the directory throws.\<close>

definition append_trade_log :: "bool \<Rightarrow> bool \<Rightarrow> string list \<Rightarrow> string option \<Rightarrow> string option option" where
  "append_trade_log directory opened row file =
    (if \<not> directory then None
     else if \<not> opened then Some file
     else let content = (case file of None \<Rightarrow> [] | Some s \<Rightarrow> s)
       in Some (Some (content @ (if content = [] then trade_log_header else []) @ join_with '','' row @ [CHR 0x0A])))"

text \<open>The callback for a completed trade: the engine, the row, and whether the program is told to stop.\<close>

definition trade_complete :: "int \<Rightarrow> (int \<Rightarrow> int) \<Rightarrow> bool \<Rightarrow> position \<Rightarrow> dbl \<Rightarrow> dbl \<Rightarrow> engine \<Rightarrow> engine \<times> string list \<times> bool" where
  "trade_complete tick zone manual_confirm_once closed_pos pnl_krw usdt_rate e =
    (let pnl_usd = (if 0 < usdt_rate then pnl_krw / usdt_rate else 0);
         capital_before = get_current_capital (en_capital e);
         e = engine_add_realized_pnl pnl_usd e;
         capital_after = get_current_capital (en_capital e)
     in (e, trade_log_row tick zone closed_pos pnl_usd usdt_rate capital_before capital_after, manual_confirm_once))"

section \<open>The position file\<close>

record position_files =
  pf_active :: "string option"
  pf_tmp :: "string option"

text \<open>How a call on the disk goes; \<open>dk_room\<close> characters of the text reach the temporary file.\<close>

record disk =
  dk_directory :: bool
  dk_open :: bool
  dk_room :: nat
  dk_rename :: bool

definition object_text :: "(string \<times> string) list \<Rightarrow> string" where
  "object_text fs = ''{'' @ [CHR 0x0A] @
     join_with ('','' @ [CHR 0x0A]) (map (\<lambda>(name, value). ''  '' @ quoted name @ '': '' @ value) fs) @ [CHR 0x0A] @ ''}''"

definition position_fields :: "int \<Rightarrow> position \<Rightarrow> (string \<times> string) list" where
  "position_fields tick pos =
    [(''symbol_base'', quoted (get_base (pos_symbol pos))), (''symbol_quote'', quoted (get_quote (pos_symbol pos))),
     (''korean_exchange'', int_text (int (exchange_id (pos_korean_exchange pos)))),
     (''foreign_exchange'', int_text (int (exchange_id (pos_foreign_exchange pos)))),
     (''entry_time_ms'', int_text (trunc_div (pos_entry_time pos) tick)),
     (''entry_premium'', format_fixed 6 (pos_entry_premium pos)),
     (''position_size_usd'', format_fixed 2 (pos_position_size_usd pos)),
     (''korean_amount'', format_fixed 8 (pos_korean_amount pos)),
     (''foreign_amount'', format_fixed 8 (pos_foreign_amount pos)),
     (''korean_entry_price'', format_decimal_trimmed (pos_korean_entry_price pos) 8),
     (''foreign_entry_price'', format_fixed 8 (pos_foreign_entry_price pos)),
     (''realized_pnl_krw'', format_fixed 2 (pos_realized_pnl_krw pos)),
     (''is_active'', ''true'')]"

definition position_text :: "int \<Rightarrow> position \<Rightarrow> string" where
  "position_text tick pos = object_text (position_fields tick pos)"

text \<open>The files after each call that changes them, up to the first that fails.\<close>

definition save_states :: "disk \<Rightarrow> int \<Rightarrow> position \<Rightarrow> position_files \<Rightarrow> position_files list" where
  "save_states d tick pos fs =
    (let json = position_text tick pos;
         written = fs\<lparr>pf_tmp := Some (take (dk_room d) json)\<rparr>
     in if \<not> dk_directory d \<or> \<not> dk_open d then []
        else fs\<lparr>pf_tmp := Some []\<rparr> # written #
          (if dk_room d < length json \<or> \<not> dk_rename d then [] else [fs\<lparr>pf_active := pf_tmp written, pf_tmp := None\<rparr>]))"

definition save_active_position :: "disk \<Rightarrow> int \<Rightarrow> position \<Rightarrow> position_files \<Rightarrow> position_files" where
  "save_active_position d tick pos fs = last (fs # save_states d tick pos fs)"

definition delete_active_position :: "bool \<Rightarrow> position_files \<Rightarrow> position_files" where
  "delete_active_position removed fs = (if removed then fs\<lparr>pf_active := None\<rparr> else fs)"

text \<open>The cast to the enumeration with eight bits; a number of no venue is \<open>ExchangeCount\<close>.\<close>

definition exchange_of_id :: "int \<Rightarrow> exchange" where
  "exchange_of_id n =
    (let b = n mod 256 in if b = 0 then Bithumb else if b = 1 then Bybit else if b = 2 then OKX else if b = 3 then Upbit else ExchangeCount)"

text \<open>A conversion that throws makes the whole load \<open>None\<close>; an absent profit is the default.\<close>

definition load_active_position :: "'j json_api \<Rightarrow> int \<Rightarrow> position_files \<Rightarrow> position option" where
  "load_active_position j tick fs =
    Option.bind (pf_active fs) (\<lambda>content.
    let doc = ja_iterate j content; text_at = (\<lambda>n. ja_string j (ja_field j doc n));
        int_at = (\<lambda>n. ja_int64 j (ja_field j doc n)); num_at = (\<lambda>n. ja_double j (ja_field j doc n)) in
    Option.bind (text_at ''symbol_base'') (\<lambda>b.
    Option.bind (text_at ''symbol_quote'') (\<lambda>q.
    Option.bind (int_at ''korean_exchange'') (\<lambda>k.
    Option.bind (int_at ''foreign_exchange'') (\<lambda>f.
    Option.bind (int_at ''entry_time_ms'') (\<lambda>entry_ms.
    Option.bind (num_at ''entry_premium'') (\<lambda>premium.
    Option.bind (num_at ''position_size_usd'') (\<lambda>usd.
    Option.bind (num_at ''korean_amount'') (\<lambda>ka.
    Option.bind (num_at ''foreign_amount'') (\<lambda>fa.
    Option.bind (num_at ''korean_entry_price'') (\<lambda>kp.
    Option.bind (num_at ''foreign_entry_price'') (\<lambda>fp.
    Option.bind (if ja_ok j (ja_field j doc ''realized_pnl_krw'') then num_at ''realized_pnl_krw'' else Some 0) (\<lambda>pnl.
    Some (position_default\<lparr>pos_symbol := SymbolId b q, pos_korean_exchange := exchange_of_id k,
      pos_foreign_exchange := exchange_of_id f, pos_entry_time := entry_ms * tick, pos_entry_premium := premium,
      pos_position_size_usd := usd, pos_korean_amount := ka, pos_foreign_amount := fa, pos_korean_entry_price := kp,
      pos_foreign_entry_price := fp, pos_realized_pnl_krw := pnl, pos_is_active := True\<rparr>))))))))))))))"

text \<open>The callback of the order manager.\<close>

definition on_position_update :: "disk \<Rightarrow> bool \<Rightarrow> int \<Rightarrow> position option \<Rightarrow> position_files \<Rightarrow> position_files" where
  "on_position_update d removed tick u fs =
    (case u of Some pos \<Rightarrow> save_active_position d tick pos fs | None \<Rightarrow> delete_active_position removed fs)"

section \<open>Numbers in the file\<close>

text \<open>The decimal with \<open>d\<close> places that stands in the text.\<close>

definition fixed_value :: "nat \<Rightarrow> rat \<Rightarrow> rat" where
  "fixed_value d r = (if r < 0 then - 1 else 1) * (of_int (rne (\<bar>r\<bar> * 10 ^ d)) / 10 ^ d)"

definition json_number :: "string \<Rightarrow> bool" where
  "json_number v \<longleftrightarrow> (\<exists>sign w f. v = sign @ w @ f \<and> (sign = [] \<or> sign = ''-'') \<and> list_all isdigit w \<and> w \<noteq> [] \<and>
     (hd w \<noteq> CHR ''0'' \<or> length w = 1) \<and> (f = [] \<or> (\<exists>g. f = CHR ''.'' # g \<and> g \<noteq> [] \<and> list_all isdigit g)))"

lemma dec_digits_hd: "0 < n \<Longrightarrow> hd (dec_digits n) \<noteq> CHR ''0''"
proof (induction n rule: dec_digits.induct)
  case (1 n)
  have "digit_char n \<noteq> CHR ''0''" if "n < 10"
  proof
    assume "digit_char n = CHR ''0''"
    then have "int (of_char (digit_char n)) - 48 = 0" by simp
    then show False using digit_char_value [OF that] "1.prems" by simp
  qed
  then show ?case using 1 dec_digits_digit [of "n div 10"] by (subst dec_digits.simps) (simp add: hd_append)
qed

lemma dec_digits_plain: "hd (dec_digits n) \<noteq> CHR ''0'' \<or> length (dec_digits n) = 1"
  using dec_digits_hd [of n] by (cases "n = 0") (simp_all add: dec_digits.simps)

lemma format_fixed_split:
  assumes "0 < d"
  obtains w f where "format_fixed d (Fin r) = (if r < 0 then ''-'' else []) @ w @ CHR ''.'' # f" "list_all isdigit w" "w \<noteq> []"
    "hd w \<noteq> CHR ''0'' \<or> length w = 1" "list_all isdigit f" "length f = d" "digits_value (w @ f) = rne (\<bar>r\<bar> * 10 ^ d)"
proof -
  define n where "n = nat (rne (\<bar>r\<bar> * 10 ^ d))"
  have n: "int n = rne (\<bar>r\<bar> * 10 ^ d)" using rne_mono [of 0 "\<bar>r\<bar> * 10 ^ d"] rne_of_int [of 0] by (simp add: n_def)
  have f: "length (pad_digits d (n mod 10 ^ d)) = d" "digits_value (pad_digits d (n mod 10 ^ d)) = int (n mod 10 ^ d)"
      "list_all isdigit (pad_digits d (n mod 10 ^ d))"
    by (rule pad_digits_props; simp add: assms)+
  show ?thesis
  proof (rule that [of "dec_digits (n div 10 ^ d)" "pad_digits d (n mod 10 ^ d)"])
    show "digits_value (dec_digits (n div 10 ^ d) @ pad_digits d (n mod 10 ^ d)) = rne (\<bar>r\<bar> * 10 ^ d)"
      by (simp add: digits_value_append dec_digits_value f(1,2) n [symmetric] zdiv_int zmod_int div_mult_mod_eq)
  qed (use f dec_digits_digit dec_digits_plain assms in \<open>simp_all add: format_fixed_def Let_def n_def\<close>)
qed

lemma format_fixed_number: "0 < d \<Longrightarrow> json_number (format_fixed d (Fin r))"
proof -
  assume d: "0 < d"
  obtain w f where "format_fixed d (Fin r) = (if r < 0 then ''-'' else []) @ w @ CHR ''.'' # f" "list_all isdigit w" "w \<noteq> []"
    "hd w \<noteq> CHR ''0'' \<or> length w = 1" "list_all isdigit f" "length f = d" by (rule format_fixed_split [OF d])
  then show ?thesis using d unfolding json_number_def
    by (intro exI [of _ "if r < 0 then ''-'' else []"] exI [of _ w] exI [of _ "CHR ''.'' # f"]) auto
qed

lemma from_chars_negative:
  assumes "list_all isdigit w" "w \<noteq> []" "list_all isdigit f"
    and q: "q = of_int (digits_value (w @ f)) / 10 ^ length f" and fin: "isfinite (lit (- q))" "q = 0 \<or> lit (- q) \<noteq> 0"
  shows "from_chars (''-'' @ w @ CHR ''.'' # f) = Some (lit (- q))"
proof -
  have all: "takeWhile isdigit f = f" "dropWhile isdigit f = []" using assms(3) by (induction f) auto
  have tw: "takeWhile isdigit (w @ CHR ''.'' # f) = w" "dropWhile isdigit (w @ CHR ''.'' # f) = CHR ''.'' # f"
    using assms(1) by (induction w) auto
  have sc: "scale10 (of_int (digits_value (w @ f))) (- int (length f)) = q"
    by (cases "f = []") (simp_all add: scale10_def q)
  show ?thesis
    unfolding from_chars_def using fin sc assms(2) by (auto simp: tw all exponent_of_def Let_def)
qed

text \<open>Magnitudes that are far from the limits of doubles on both sides.\<close>

lemma lit_moderate:
  assumes "\<bar>q\<bar> \<le> 2 ^ 53" "q = 0 \<or> 1 / 10 ^ 8 \<le> \<bar>q\<bar>"
  shows "isfinite (lit q)" "q = 0 \<or> lit q \<noteq> 0"
proof -
  have up: "rnd q \<le> 2 ^ 53" "- (2 ^ 53) \<le> rnd q"
    using rnd_mono [of q "of_int (2 ^ 53)"] rnd_mono [of "of_int (- (2 ^ 53))" q] rnd_of_int [of "2 ^ 53"] rnd_of_int [of "- (2 ^ 53)"] assms(1)
    by (simp_all add: abs_le_iff)
  have big: "(2 :: rat) ^ 53 < dbl_limit" unfolding dbl_limit_def by (rule power_strict_increasing) simp_all
  have l: "lit q = Fin (rnd q)" using up big by (simp add: lit_def Let_def)
  then show "isfinite (lit q)" by simp
  show "q = 0 \<or> lit q \<noteq> 0"
  proof (cases "q = 0")
    case False
    then have q: "1 / 10 ^ 8 \<le> \<bar>q\<bar>" using assms(2) by simp
    have p: "rnd (pow2 (- 27)) = pow2 (- 27)" using rnd_exact [of 1 "- 27"] by simp
    have "pow2 (- 27) \<le> (1 / 10 ^ 8 :: rat)" by (simp add: power_int_minus)
    then have "pow2 (- 27) \<le> \<bar>q\<bar>" using q by simp
    then have "pow2 (- 27) \<le> rnd \<bar>q\<bar>" using rnd_mono p by metis
    moreover have "rnd \<bar>q\<bar> = \<bar>rnd q\<bar>" if "rnd \<bar>q\<bar> > 0" using that by (cases "0 \<le> q") (simp_all add: rnd_minus)
    moreover have "(0 :: rat) < pow2 (- 27)" by (simp add: power_int_minus)
    ultimately have "rnd q \<noteq> 0" by fastforce
    then show ?thesis by (simp add: l zero_dbl_def)
  qed simp
qed

lemma fixed_value_bounds:
  assumes "\<bar>r\<bar> \<le> 2 ^ 52" "0 < d" "d \<le> 8"
  shows "\<bar>fixed_value d r\<bar> \<le> 2 ^ 53" "fixed_value d r = 0 \<or> 1 / 10 ^ 8 \<le> \<bar>fixed_value d r\<bar>"
    "\<bar>fixed_value d r - r\<bar> \<le> 1 / (2 * 10 ^ d)"
proof -
  let ?n = "rne (\<bar>r\<bar> * 10 ^ d)"
  have n0: "0 \<le> ?n" using rne_mono [of 0 "\<bar>r\<bar> * 10 ^ d"] rne_of_int [of 0] by simp
  have a: "\<bar>fixed_value d r\<bar> = of_int ?n / 10 ^ d" using n0 by (simp add: fixed_value_def abs_mult)
  have e: "\<bar>of_int ?n / 10 ^ d - \<bar>r\<bar>\<bar> \<le> 1 / (2 * 10 ^ d)"
    using rne_error [of "\<bar>r\<bar> * 10 ^ d"] by (simp add: abs_le_iff field_simps)
  show "\<bar>fixed_value d r - r\<bar> \<le> 1 / (2 * 10 ^ d)"
    using e by (cases "r < 0") (auto simp: fixed_value_def abs_le_iff)
  have "(1 :: rat) \<le> 10 ^ d" by simp
  then have "1 \<le> 2 * (10 :: rat) ^ d" by linarith
  then have h: "1 / (2 * 10 ^ d) \<le> (1 :: rat)" by (simp add: divide_le_eq)
  have "of_int ?n / 10 ^ d \<le> \<bar>r\<bar> + 1" using abs_le_D1 [OF e] h by linarith
  then show "\<bar>fixed_value d r\<bar> \<le> 2 ^ 53" using a assms(1) by simp
  show "fixed_value d r = 0 \<or> 1 / 10 ^ 8 \<le> \<bar>fixed_value d r\<bar>"
  proof (cases "?n = 0")
    case True
    then show ?thesis by (simp add: fixed_value_def)
  next
    case False
    then have "1 \<le> ?n" using n0 by simp
    then have "(1 :: rat) \<le> of_int ?n" by simp
    moreover have "(10 :: rat) ^ d \<le> 10 ^ 8" using assms(3) by (rule power_increasing) simp
    ultimately have "1 / 10 ^ 8 \<le> of_int ?n / (10 :: rat) ^ d" by (intro frac_le) simp_all
    then show ?thesis using a by simp
  qed
qed

lemma fixed_text_value:
  assumes "\<bar>r\<bar> \<le> 2 ^ 52" "0 < d" "d \<le> 8"
  shows "from_chars (format_fixed d (Fin r)) = Some (lit (fixed_value d r))"
proof -
  obtain w f where t: "format_fixed d (Fin r) = (if r < 0 then ''-'' else []) @ w @ CHR ''.'' # f" "list_all isdigit w" "w \<noteq> []"
    "list_all isdigit f" "length f = d" "digits_value (w @ f) = rne (\<bar>r\<bar> * 10 ^ d)" using assms(2) by (rule format_fixed_split)
  note m = lit_moderate [OF fixed_value_bounds(1,2) [OF assms]]
  let ?q = "of_int (digits_value (w @ f)) / (10 :: rat) ^ length f"
  show ?thesis
  proof (cases "r < 0")
    case True
    then have q: "- ?q = fixed_value d r" using t(5,6) by (simp add: fixed_value_def)
    then have "?q = 0 \<longleftrightarrow> fixed_value d r = 0" by (metis neg_equal_0_iff_equal)
    then show ?thesis using from_chars_negative [OF t(2-4) refl] m True by (simp only: t(1) q if_True)
  next
    case False
    then have q: "?q = fixed_value d r" using t(5,6) by (simp add: fixed_value_def)
    show ?thesis using from_chars_fraction(1) [OF t(2-4) refl] m False by (simp only: t(1) q if_False append_Nil)
  qed
qed

section \<open>What is read back\<close>

text \<open>
  What simdjson promises of the file: strings of plain characters, integers of 64 bits and JSON numbers are read as what
  they say, a number as the nearest double.
\<close>

definition plain :: "string \<Rightarrow> bool" where
  "plain s \<longleftrightarrow> list_all (\<lambda>c. 32 \<le> (of_char c :: nat) \<and> (of_char c :: nat) < 127 \<and> c \<noteq> CHR 0x22 \<and> c \<noteq> CHR 0x5C) s"

definition value_reads :: "'j json_api \<Rightarrow> 'j \<Rightarrow> string \<Rightarrow> bool" where
  "value_reads j d v \<longleftrightarrow> ja_ok j d \<and> (\<forall>s. plain s \<and> v = quoted s \<longrightarrow> ja_string j d = Some s) \<and>
     (\<forall>n. - (2 ^ 63) \<le> n \<and> n < 2 ^ 63 \<and> v = int_text n \<longrightarrow> ja_int64 j d = Some n) \<and>
     (\<forall>x. json_number v \<and> from_chars v = Some x \<longrightarrow> ja_double j d = Some x)"

definition reads_as :: "'j json_api \<Rightarrow> string \<Rightarrow> (string \<times> string) list \<Rightarrow> bool" where
  "reads_as j content fs \<longleftrightarrow> (\<forall>(name, v) \<in> set fs. value_reads j (ja_field j (ja_iterate j content) name) v)"

text \<open>A moderate number, and an amount or price that stands for a decimal of eight places, or a whole one.\<close>

definition moderate :: "dbl \<Rightarrow> bool" where
  "moderate x \<longleftrightarrow> (\<exists>r. x = Fin r \<and> \<bar>r\<bar> \<le> 2 ^ 52)"

definition short_decimal :: "dbl \<Rightarrow> bool" where
  "short_decimal x \<longleftrightarrow> (\<exists>k. 0 \<le> k \<and> (k < 2 ^ 26 * 10 ^ 8 \<and> x = lit (of_int k / 10 ^ 8) \<or> k \<le> 2 ^ 52 \<and> x = Fin (of_int k)))"

definition storable :: "int \<Rightarrow> position \<Rightarrow> bool" where
  "storable tick p \<longleftrightarrow> wf_symbol (pos_symbol p) \<and> plain (get_base (pos_symbol p)) \<and> plain (get_quote (pos_symbol p)) \<and>
     - (2 ^ 63) \<le> trunc_div (pos_entry_time p) tick \<and> trunc_div (pos_entry_time p) tick < 2 ^ 63 \<and>
     moderate (pos_entry_premium p) \<and> moderate (pos_position_size_usd p) \<and> moderate (pos_realized_pnl_krw p) \<and>
     short_decimal (pos_korean_amount p) \<and> short_decimal (pos_foreign_amount p) \<and>
     short_decimal (pos_korean_entry_price p) \<and> short_decimal (pos_foreign_entry_price p)"

definition rounded :: "nat \<Rightarrow> dbl \<Rightarrow> dbl" where
  "rounded d x = (case x of Fin r \<Rightarrow> lit (fixed_value d r) | _ \<Rightarrow> x)"

lemma moderate_reads: "moderate x \<Longrightarrow> 0 < d \<Longrightarrow> d \<le> 8 \<Longrightarrow> from_chars (format_fixed d x) = Some (rounded d x)"
  by (auto simp: moderate_def rounded_def fixed_text_value)

lemma moderate_number: "moderate x \<Longrightarrow> 0 < d \<Longrightarrow> json_number (format_fixed d x)"
  by (auto simp: moderate_def format_fixed_number)

lemma short_decimal_value:
  assumes "short_decimal x"
  obtains r where "x = Fin r" "0 \<le> r" "r \<le> 2 ^ 52" "lit (fixed_value 8 r) = x" "fixed_value 8 r = decimal8 r"
proof -
  obtain k where k: "0 \<le> k" "k < 2 ^ 26 * 10 ^ 8 \<and> x = lit (of_int k / 10 ^ 8) \<or> k \<le> 2 ^ 52 \<and> x = Fin (of_int k)"
    using assms by (auto simp: short_decimal_def)
  have fv: "fixed_value 8 r = decimal8 r" if "0 \<le> r" for r using that by (simp add: fixed_value_def decimal8_def)
  from k(2) show ?thesis
  proof
    assume c: "k < 2 ^ 26 * 10 ^ 8 \<and> x = lit (of_int k / 10 ^ 8)"
    let ?q = "of_int k / 10 ^ 8 :: rat"
    have "k \<le> 2 ^ 26 * 10 ^ 8" using c by (rule conjE) (rule less_imp_le)
    then have "of_int k \<le> (of_int (2 ^ 26 * 10 ^ 8) :: rat)" by (simp only: of_int_le_iff)
    then have "?q \<le> 2 ^ 26" by (simp add: divide_le_eq)
    then have up: "rnd ?q \<le> 2 ^ 26" using rnd_mono [of ?q "of_int (2 ^ 26)"] rnd_of_int [of "2 ^ 26"] by simp
    have nn: "0 \<le> rnd ?q" using rnd_mono [of 0 ?q] k(1) by simp
    have "(2 :: rat) ^ 26 < dbl_limit" unfolding dbl_limit_def by (rule power_strict_increasing) simp_all
    then have x: "x = Fin (rnd ?q)" using c up nn dbl_limit_pos by (simp add: lit_def Let_def)
    have d: "decimal8 (rnd ?q) = ?q" using c by (intro decimal8_rnd [OF k(1)]) (rule conjunct1)
    have le: "rnd ?q \<le> 2 ^ 52" using up by (rule order_trans) simp
    have "lit (fixed_value 8 (rnd ?q)) = x" using c unfolding fv [OF nn] d by (rule conjE) (rule sym)
    from that [OF x nn le this fv [OF nn]] show ?thesis .
  next
    assume c: "k \<le> 2 ^ 52 \<and> x = Fin (of_int k)"
    have "of_int k \<le> (of_int (2 ^ 52) :: rat)" using c by (simp only: of_int_le_iff)
    moreover have "decimal8 (of_int k) = of_int k" using rne_of_int [of "k * 10 ^ 8"] by (simp add: decimal8_def)
    moreover have "lit (of_int k) = Fin (of_int k)" using k(1) c by (intro lit_of_int) simp
    ultimately show ?thesis using that [of "of_int k"] k(1) c by (simp add: fv)
  qed
qed

lemma short_decimal_moderate: "short_decimal x \<Longrightarrow> moderate x"
  by (erule short_decimal_value) (auto simp: moderate_def)

lemma short_decimal_rounded [simp]: "short_decimal x \<Longrightarrow> rounded 8 x = x"
  by (erule short_decimal_value) (simp add: rounded_def)

lemma strip_zeros_digits: "list_all isdigit f \<Longrightarrow> list_all isdigit (strip_zeros f)"
proof -
  assume f: "list_all isdigit f"
  obtain k where "f = strip_zeros f @ replicate k (CHR ''0'')" by (rule strip_zeros_split)
  then show ?thesis using f by (metis list_all_append)
qed

lemma strip_fraction:
  assumes "w \<noteq> []" "list_all isdigit f"
  shows "strip_point (strip_zeros (w @ CHR ''.'' # f)) = (if strip_zeros f = [] then w else w @ CHR ''.'' # strip_zeros f)"
proof (cases "strip_zeros f = []")
  case True
  then show ?thesis using assms(1) by (simp add: strip_zeros_fraction strip_point_def butlast_append)
next
  case False
  then have "isdigit (last (strip_zeros f))" using strip_zeros_digits [OF assms(2)] by (simp add: list_all_iff)
  then have "last (strip_zeros f) \<noteq> CHR ''.''" by auto
  then show ?thesis using assms(1) False by (simp add: strip_zeros_fraction strip_point_def)
qed

lemma json_number_digits:
  assumes "list_all isdigit w" "w \<noteq> []" "hd w \<noteq> CHR ''0'' \<or> length w = 1" "list_all isdigit g"
  shows "json_number (if g = [] then w else w @ CHR ''.'' # g)"
  unfolding json_number_def using assms
  by (intro exI [of _ "[]"] exI [of _ w] exI [of _ "if g = [] then [] else CHR ''.'' # g"]) simp

lemma short_decimal_trimmed:
  assumes "short_decimal x"
  shows "json_number (format_decimal_trimmed x 8)" "from_chars (format_decimal_trimmed x 8) = Some x"
proof -
  obtain r where r: "x = Fin r" "0 \<le> r" "r \<le> 2 ^ 52" "lit (fixed_value 8 r) = x" "fixed_value 8 r = decimal8 r"
    using assms by (rule short_decimal_value)
  have r': "\<not> r < 0" using r(2) by simp
  have eight: "0 < (8 :: nat)" by simp
  obtain w f where t: "format_fixed 8 (Fin r) = w @ CHR ''.'' # f" "list_all isdigit w" "w \<noteq> []" "hd w \<noteq> CHR ''0'' \<or> length w = 1"
      "list_all isdigit f"
    by (rule format_fixed_split [OF eight, of r]) (simp only: r' if_False append_Nil, blast)
  obtain c cs where w: "w = c # cs" "isdigit c" using t(2,3) by (cases w) auto
  then have c: "c \<noteq> CHR ''-''" by (auto simp: isdigit_def)
  define out where "out = strip_point (strip_zeros (format_fixed 8 (Fin r)))"
  have out: "out = (if strip_zeros f = [] then w else w @ CHR ''.'' # strip_zeros f)"
    unfolding out_def t(1) by (rule strip_fraction [OF t(3,5)])
  have "out \<noteq> []" "out \<noteq> ''-0''" using w(1) c by (simp_all add: out)
  then have e: "format_decimal_trimmed x 8 = out" by (simp add: format_decimal_trimmed_def Let_def r(1) out_def [symmetric])
  show "json_number (format_decimal_trimmed x 8)"
    unfolding e out by (rule json_number_digits [OF t(2-4) strip_zeros_digits [OF t(5)]])
  have m: "\<bar>r\<bar> \<le> 2 ^ 52" using r(2,3) by simp
  have d8: "0 < (8 :: nat)" "(8 :: nat) \<le> 8" by simp_all
  have "isfinite (lit (decimal8 r))" "decimal8 r = 0 \<or> lit (decimal8 r) \<noteq> 0"
    using lit_moderate [OF fixed_value_bounds(1,2) [OF m d8]] unfolding r(5) by blast+
  from trimmed_text_value [OF r(2) this] show "from_chars (format_decimal_trimmed x 8) = Some x"
    unfolding e out_def using r(4,5) by (simp only:)
qed

section \<open>Recovery\<close>

definition disk_works :: "disk \<Rightarrow> string \<Rightarrow> bool" where
  "disk_works d content \<longleftrightarrow> dk_directory d \<and> dk_open d \<and> length content \<le> dk_room d \<and> dk_rename d"

text \<open>The position that comes back: holdings and entry prices exactly, the time to the millisecond, the rest as printed.\<close>

definition recovered :: "int \<Rightarrow> position \<Rightarrow> position" where
  "recovered tick p = position_default\<lparr>pos_symbol := pos_symbol p, pos_korean_exchange := pos_korean_exchange p,
     pos_foreign_exchange := pos_foreign_exchange p, pos_entry_time := trunc_div (pos_entry_time p) tick * tick,
     pos_entry_premium := rounded 6 (pos_entry_premium p), pos_position_size_usd := rounded 2 (pos_position_size_usd p),
     pos_korean_amount := pos_korean_amount p, pos_foreign_amount := pos_foreign_amount p,
     pos_korean_entry_price := pos_korean_entry_price p, pos_foreign_entry_price := pos_foreign_entry_price p,
     pos_realized_pnl_krw := rounded 2 (pos_realized_pnl_krw p), pos_is_active := True\<rparr>"

lemma rounded_error: "moderate x \<Longrightarrow> 0 < d \<Longrightarrow> d \<le> 8 \<Longrightarrow> \<exists>r q. x = Fin r \<and> rounded d x = lit q \<and> \<bar>q - r\<bar> \<le> 1 / (2 * 10 ^ d)"
proof -
  assume x: "moderate x" and d: "0 < d" "d \<le> 8"
  obtain r where "x = Fin r" "\<bar>r\<bar> \<le> 2 ^ 52" using x by (auto simp: moderate_def)
  then show ?thesis using fixed_value_bounds(3) [OF _ d] by (intro exI [of _ r] exI [of _ "fixed_value d r"]) (simp add: rounded_def)
qed

lemma exchange_of_id_inverse [simp]: "exchange_of_id (int (exchange_id e)) = e"
  by (cases e) (simp_all add: exchange_of_id_def)

lemma SymbolId_of_symbol: "wf_symbol s \<Longrightarrow> SymbolId (get_base s) (get_quote s) = s"
  by (rule symbol_eqI) (simp_all add: wf_symbol_def)

lemma value_reads_string: "value_reads j d (quoted s) \<Longrightarrow> plain s \<Longrightarrow> ja_string j d = Some s"
  by (simp add: value_reads_def)

lemma value_reads_int: "value_reads j d (int_text n) \<Longrightarrow> - (2 ^ 63) \<le> n \<Longrightarrow> n < 2 ^ 63 \<Longrightarrow> ja_int64 j d = Some n"
  unfolding value_reads_def by blast

lemma value_reads_exchange: "value_reads j d (int_text (int (exchange_id e))) \<Longrightarrow> ja_int64 j d = Some (int (exchange_id e))"
  by (rule value_reads_int) (cases e; simp)+

lemma value_reads_fixed:
  "value_reads j d (format_fixed n x) \<Longrightarrow> moderate x \<Longrightarrow> 0 < n \<Longrightarrow> n \<le> 8 \<Longrightarrow> ja_double j d = Some (rounded n x)"
  using moderate_reads moderate_number unfolding value_reads_def by blast

lemma value_reads_amount: "value_reads j d (format_fixed 8 x) \<Longrightarrow> short_decimal x \<Longrightarrow> ja_double j d = Some x"
  using value_reads_fixed [of j d 8 x] short_decimal_moderate by simp

lemma value_reads_trimmed: "value_reads j d (format_decimal_trimmed x 8) \<Longrightarrow> short_decimal x \<Longrightarrow> ja_double j d = Some x"
  using short_decimal_trimmed unfolding value_reads_def by blast

lemma load_saved:
  assumes r: "reads_as j (position_text tick p) (position_fields tick p)" and st: "storable tick p"
    and fs: "pf_active fs = Some (position_text tick p)"
  shows "load_active_position j tick fs = Some (recovered tick p)"
proof -
  note v = r [unfolded reads_as_def position_fields_def, simplified]
  note s = st [unfolded storable_def]
  have sym: "ja_string j (ja_field j (ja_iterate j (position_text tick p)) ''symbol_base'') = Some (get_base (pos_symbol p))"
    "ja_string j (ja_field j (ja_iterate j (position_text tick p)) ''symbol_quote'') = Some (get_quote (pos_symbol p))"
    using v s by (blast intro: value_reads_string)+
  have ints: "ja_int64 j (ja_field j (ja_iterate j (position_text tick p)) ''korean_exchange'') = Some (int (exchange_id (pos_korean_exchange p)))"
    "ja_int64 j (ja_field j (ja_iterate j (position_text tick p)) ''foreign_exchange'') = Some (int (exchange_id (pos_foreign_exchange p)))"
    "ja_int64 j (ja_field j (ja_iterate j (position_text tick p)) ''entry_time_ms'') = Some (trunc_div (pos_entry_time p) tick)"
    using v s by (blast intro: value_reads_exchange value_reads_int)+
  have amounts: "ja_double j (ja_field j (ja_iterate j (position_text tick p)) ''korean_amount'') = Some (pos_korean_amount p)"
    "ja_double j (ja_field j (ja_iterate j (position_text tick p)) ''foreign_amount'') = Some (pos_foreign_amount p)"
    "ja_double j (ja_field j (ja_iterate j (position_text tick p)) ''korean_entry_price'') = Some (pos_korean_entry_price p)"
    "ja_double j (ja_field j (ja_iterate j (position_text tick p)) ''foreign_entry_price'') = Some (pos_foreign_entry_price p)"
    using v s by (blast intro: value_reads_amount value_reads_trimmed)+
  have n: "0 < (6 :: nat)" "(6 :: nat) \<le> 8" "0 < (2 :: nat)" "(2 :: nat) \<le> 8" by simp_all
  have figures: "ja_double j (ja_field j (ja_iterate j (position_text tick p)) ''entry_premium'') = Some (rounded 6 (pos_entry_premium p))"
    "ja_double j (ja_field j (ja_iterate j (position_text tick p)) ''position_size_usd'') = Some (rounded 2 (pos_position_size_usd p))"
    "ja_double j (ja_field j (ja_iterate j (position_text tick p)) ''realized_pnl_krw'') = Some (rounded 2 (pos_realized_pnl_krw p))"
    using v s n by (blast intro: value_reads_fixed)+
  have ok: "ja_ok j (ja_field j (ja_iterate j (position_text tick p)) ''realized_pnl_krw'')" using v by (simp add: value_reads_def)
  have w: "SymbolId (get_base (pos_symbol p)) (get_quote (pos_symbol p)) = pos_symbol p" using s by (intro SymbolId_of_symbol) simp
  show ?thesis
    by (simp add: load_active_position_def Let_def fs sym ints amounts figures ok w recovered_def)
qed

lemma save_states_active:
  "st \<in> set (save_states d tick p fs) \<Longrightarrow> pf_active st = pf_active fs \<or> pf_active st = Some (position_text tick p)"
  by (auto simp: save_states_def Let_def split: if_splits)

lemma save_works: "disk_works d (position_text tick p) \<Longrightarrow> pf_active (save_active_position d tick p fs) = Some (position_text tick p)"
  by (simp add: save_active_position_def save_states_def disk_works_def Let_def)

lemma load_active_cong: "pf_active st = pf_active fs \<Longrightarrow> load_active_position j tick st = load_active_position j tick fs"
  by (simp add: load_active_position_def)


text \<open>After the updates of the order manager on a working disk, the last one is found.\<close>

lemma last_update_found:
  assumes "\<And>p. Some p \<in> set us \<Longrightarrow> disk_works d (position_text tick p)" "us \<noteq> []"
  shows "pf_active (fold (on_position_update d True tick) us fs) = map_option (position_text tick) (last us)"
  using assms
proof (induction us rule: rev_induct)
  case (snoc u us)
  then show ?case by (cases u) (simp_all add: on_position_update_def delete_active_position_def save_works)
qed simp

text \<open>There is one file for all positions: closing any of them takes it away.\<close>

lemma close_forgets_others: "load_active_position j tick (on_position_update d True tick None fs) = None"
  by (simp add: on_position_update_def delete_active_position_def load_active_position_def)

section \<open>A position for the witness\<close>

definition sample_int :: "string \<Rightarrow> int" where
  "sample_int v = (if v \<noteq> [] \<and> hd v = CHR ''-'' then - digits_value (tl v) else digits_value v)"

text \<open>A JSON library for one object: a document is its text, and so is a value.\<close>

definition sample_file_api :: "(string \<times> string) list \<Rightarrow> string json_api" where
  "sample_file_api fs = \<lparr>ja_iterate = (\<lambda>body. body), ja_field = (\<lambda>d name. case map_of fs name of None \<Rightarrow> [] | Some v \<Rightarrow> v),
     ja_ok = (\<lambda>v. v \<noteq> []), ja_double = from_chars, ja_int64 = (\<lambda>v. Some (sample_int v)), ja_uint64 = (\<lambda>v. None),
     ja_bool = (\<lambda>v. None), ja_string = (\<lambda>v. Some (butlast (tl v))), ja_array = (\<lambda>v. None), ja_object = (\<lambda>v. None)\<rparr>"

lemma sample_int_text: "sample_int (int_text n) = n"
proof -
  have "hd (dec_digits m) \<noteq> CHR ''-''" for m
    using dec_digits_digit [of m] by (cases "dec_digits m") (auto simp: isdigit_def)
  then show ?thesis using dec_digits_digit by (simp add: sample_int_def int_text_def dec_digits_value)
qed

lemma sample_file_reads:
  assumes "distinct (map fst fs)" "\<forall>(name, v) \<in> set fs. v \<noteq> []"
  shows "reads_as (sample_file_api fs) content fs"
proof -
  have "value_reads (sample_file_api fs) v v" if "v \<noteq> []" for v
    using that by (auto simp: value_reads_def sample_file_api_def sample_int_text quoted_def)
  moreover have "ja_field (sample_file_api fs) d name = v" if "(name, v) \<in> set fs" for name v d
    using that assms(1) by (simp add: sample_file_api_def map_of_eq_Some_iff)
  ultimately show ?thesis using assms(2) by (auto simp: reads_as_def)
qed

definition sample_saved :: position where
  "sample_saved = position_default\<lparr>pos_symbol := SymbolId ''BTC'' ''KRW'', pos_foreign_exchange := OKX, pos_entry_time := 1700000000123456,
     pos_entry_premium := Fin (- 1 / 2), pos_position_size_usd := Fin 35, pos_korean_amount := Fin 3, pos_foreign_amount := Fin 3,
     pos_korean_entry_price := Fin 150000000, pos_foreign_entry_price := Fin 100000, pos_is_active := True\<rparr>"

lemma short_whole: "0 \<le> k \<Longrightarrow> k \<le> 2 ^ 52 \<Longrightarrow> short_decimal (Fin (of_int k))"
  unfolding short_decimal_def by blast

lemma sample_saved_storable: "storable 1000 sample_saved"
proof -
  have "wf_symbol (SymbolId ''BTC'' ''KRW'')" "plain (get_base (SymbolId ''BTC'' ''KRW''))" "plain (get_quote (SymbolId ''BTC'' ''KRW''))"
    by (simp_all add: wf_symbol_def get_SymbolId plain_def)
  moreover have "short_decimal (Fin 3)" "short_decimal (Fin 150000000)" "short_decimal (Fin 100000)" "short_decimal 0"
    using short_whole [of 3] short_whole [of 150000000] short_whole [of 100000] short_whole [of 0] by (simp_all add: zero_dbl_def)
  ultimately show ?thesis
    by (simp add: storable_def sample_saved_def position_default_def moderate_def trunc_div_def zero_dbl_def)
qed


end
