(* ===== verification/Startup.thy ===== *)
theory Startup
  imports PositionFile EngineGuards Dispatch "HOL-Library.List_Lexorder" "HOL-Library.Char_ord"
begin

text \<open>
  How \<^verbatim>\<open>main\<close> in \<^verbatim>\<open>src/main.cpp\<close> sets the engine up: the pairs of venues, the symbols both sides have, what is
  subscribed where, the transfer routes, and the recovery of an open position. A hash set or map is a list without
  duplicate keys, in the order in which the code happens to walk through it. What the venues answer is an argument.
\<close>

section \<open>Pairs of venues\<close>

definition wire_pairs :: "bool \<Rightarrow> engine \<Rightarrow> engine" where
  "wire_pairs upbit_trades e =
    (let e = add_exchange_pair Bithumb Bybit e;
         e = add_exchange_pair Bithumb OKX e;
         e = add_exchange_pair Upbit Bybit e;
         e = add_exchange_pair Upbit OKX e
     in if \<not> upbit_trades
        then set_exchange_pair_entry_enabled Upbit OKX False (set_exchange_pair_entry_enabled Upbit Bybit False e) else e)"

section \<open>Common symbols and subscriptions\<close>

record venue_symbols =
  vs_bithumb :: "symbol_id list"
  vs_upbit :: "symbol_id list"
  vs_bybit :: "symbol_id list"
  vs_okx :: "symbol_id list"

definition bases :: "symbol_id list \<Rightarrow> string list" where
  "bases symbols = fold List.insert (map get_base symbols) []"

definition korean_bases :: "venue_symbols \<Rightarrow> string list" where
  "korean_bases vs = fold List.insert (bases (vs_upbit vs)) (bases (vs_bithumb vs))"

definition foreign_bases :: "venue_symbols \<Rightarrow> string list" where
  "foreign_bases vs = fold List.insert (map get_base (vs_okx vs)) (bases (vs_bybit vs))"

text \<open>The symbols in the order of the walk through the Korean names, which is \<open>order\<close>.\<close>

definition found_symbols :: "string list \<Rightarrow> venue_symbols \<Rightarrow> symbol_id list" where
  "found_symbols order vs = map (\<lambda>base. SymbolId base ''KRW'') (filter (\<lambda>base. base \<in> set (foreign_bases vs)) order)"

definition common_symbols :: "string list \<Rightarrow> venue_symbols \<Rightarrow> symbol_id list" where
  "common_symbols order vs = sort_by (\<lambda>a b. symbol_to_string a < symbol_to_string b) (found_symbols order vs)"

definition add_common :: "string list \<Rightarrow> venue_symbols \<Rightarrow> engine \<Rightarrow> engine" where
  "add_common order vs e = fold add_symbol (found_symbols order vs) e"

definition korean_subs :: "symbol_id list \<Rightarrow> symbol_id list \<Rightarrow> symbol_id list" where
  "korean_subs common listed = filter (\<lambda>s. get_base s \<in> set (bases listed)) common @ [SymbolId ''USDT'' ''KRW'']"

definition foreign_subs :: "symbol_id list \<Rightarrow> symbol_id list \<Rightarrow> symbol_id list" where
  "foreign_subs common listed =
     map (\<lambda>s. SymbolId (get_base s) ''USDT'') (filter (\<lambda>s. get_base s \<in> set (bases listed)) common)"

text \<open>The coins whose withdrawal fees are asked of Upbit.\<close>

definition upbit_coin_list :: "symbol_id list \<Rightarrow> string list" where
  "upbit_coin_list subs = filter (\<lambda>base. base \<noteq> ''USDT'') (map get_base subs)"

section \<open>Transfer routes\<close>

record route_answers =
  ra_bithumb_fees :: "(string \<times> network_fee list) list"
  ra_bithumb_statuses :: "(string \<times> bool) list"
  ra_upbit_fees :: "(string \<times> network_fee list) list"
  ra_bybit_nets :: "(string \<times> string list) list"
  ra_okx_nets :: "(string \<times> string list) list"

text \<open>One source: an empty answer changes nothing, any other replaces what was there.\<close>

definition put_fees :: "exchange \<Rightarrow> (string \<times> network_fee list) list \<Rightarrow> price_cache \<Rightarrow> price_cache" where
  "put_fees ex got pc =
    (if got = [] then pc
     else fold (\<lambda>(coin, fees). set_withdraw_network_fees ex coin fees) got (clear_withdraw_network_fees ex pc))"

definition put_statuses :: "exchange \<Rightarrow> (string \<times> bool) list \<Rightarrow> price_cache \<Rightarrow> price_cache" where
  "put_statuses ex got pc =
    (if got = [] then pc
     else fold (\<lambda>(coin, open'). set_korean_withdraw_enabled ex coin open') got (clear_korean_withdraw_status ex pc))"

definition put_networks :: "exchange \<Rightarrow> (string \<times> string list) list \<Rightarrow> price_cache \<Rightarrow> price_cache" where
  "put_networks ex got pc =
    (if got = [] then pc
     else fold (\<lambda>(coin, nets). set_foreign_deposit_networks ex coin nets) got (clear_foreign_deposit_networks ex pc))"

definition put_answers :: "route_answers \<Rightarrow> price_cache \<Rightarrow> price_cache" where
  "put_answers ra pc =
    (let pc = put_fees Bithumb (ra_bithumb_fees ra) pc;
         pc = put_statuses Bithumb (ra_bithumb_statuses ra) pc;
         pc = put_fees Upbit (ra_upbit_fees ra) pc;
         pc = put_networks Bybit (ra_bybit_nets ra) pc
     in put_networks OKX (ra_okx_nets ra) pc)"

definition refresh_transfer_routes :: "u64 \<Rightarrow> u64 \<Rightarrow> route_answers \<Rightarrow> engine \<Rightarrow> engine" where
  "refresh_transfer_routes now_ms now ra e =
    (let pc = put_answers ra (en_prices e);
         updated_any = (ra_bithumb_fees ra \<noteq> [] \<or> ra_bithumb_statuses ra \<noteq> [] \<or> ra_upbit_fees ra \<noteq> [] \<or>
           ra_bybit_nets ra \<noteq> [] \<or> ra_okx_nets ra \<noteq> [])
     in if updated_any then refresh_entry_filters now (e\<lparr>en_prices := finalize_withdraw_fees now_ms pc\<rparr>) else e\<lparr>en_prices := pc\<rparr>)"

text \<open>The fees of Bithumb that are loaded before the first refresh, without clearing.\<close>

definition load_withdraw_fees :: "(string \<times> network_fee list) list \<Rightarrow> engine \<Rightarrow> engine" where
  "load_withdraw_fees got e =
     e\<lparr>en_prices := fold (\<lambda>(coin, fees). set_withdraw_network_fees Bithumb coin fees) got (en_prices e)\<rparr>"

section \<open>Recovery of a position\<close>

record recovery_candidate =
  rk_pos :: position
  rk_spot_balance :: dbl
  rk_short_amount :: dbl
  rk_matched_amount :: dbl
  rk_matched_usd :: dbl
  rk_from_saved_file :: bool

text \<open>For each coin the largest short.\<close>

definition note_short :: "string list \<Rightarrow> position \<Rightarrow> (string \<times> position) list \<Rightarrow> (string \<times> position) list" where
  "note_short common p m =
    (let coin = get_base (pos_symbol p) in
     if coin = [] \<or> coin \<notin> set common \<or> pos_foreign_amount p \<le> DUST then m
     else case map_of m coin of None \<Rightarrow> AList.update coin p m
       | Some q \<Rightarrow> if pos_foreign_amount q < pos_foreign_amount p then AList.update coin p m else m)"

definition short_by_coin :: "string list \<Rightarrow> position list \<Rightarrow> (string \<times> position) list" where
  "short_by_coin common positions = fold (note_short common) positions []"

definition price_or_last :: "bool \<Rightarrow> price_data \<Rightarrow> dbl" where
  "price_or_last ask p =
    (if \<not> pd_valid p then 0
     else let best = (if ask then pd_ask p else pd_bid p)
       in if 0 < best then best else if 0 < pd_last p then pd_last p else 0)"

definition recovery_candidate_of :: "(string \<Rightarrow> dbl) \<Rightarrow> price_cache \<Rightarrow> systime \<Rightarrow> exchange \<Rightarrow> string \<times> position \<Rightarrow> recovery_candidate option" where
  "recovery_candidate_of balance pc now foreign_ex cp =
    (case cp of (coin, short_pos) \<Rightarrow>
      let krw_symbol = SymbolId coin ''KRW'';
          spot_balance = balance coin;
          short_amount = pos_foreign_amount short_pos
      in if spot_balance \<le> DUST \<or> short_amount \<le> DUST then None
      else let amount = dmin spot_balance short_amount;
          korean_entry = price_or_last True (get_price pc Bithumb krw_symbol);
          foreign_fallback = price_or_last False (get_price pc foreign_ex (SymbolId coin ''USDT''));
          foreign_entry = (if 0 < pos_foreign_entry_price short_pos then pos_foreign_entry_price short_pos else foreign_fallback);
          usdt_rate = get_usdt_krw pc Bithumb;
          foreign_krw = foreign_entry * usdt_rate;
          entry_pm = (if 0 < korean_entry \<and> 0 < foreign_entry \<and> 0 < usdt_rate
            then ((korean_entry - foreign_krw) / foreign_krw) * lit 100 else 0);
          usd = amount * (if 0 < foreign_entry then foreign_entry else 0);
          pos = position_default\<lparr>pos_symbol := krw_symbol, pos_korean_exchange := Bithumb, pos_foreign_exchange := foreign_ex,
            pos_entry_time := now, pos_entry_premium := entry_pm, pos_position_size_usd := usd, pos_korean_amount := amount,
            pos_foreign_amount := amount, pos_korean_entry_price := korean_entry, pos_foreign_entry_price := foreign_entry,
            pos_is_active := True\<rparr>
      in Some \<lparr>rk_pos = pos, rk_spot_balance = spot_balance, rk_short_amount = short_amount, rk_matched_amount = amount,
           rk_matched_usd = (if usd \<le> 0 \<and> 0 < foreign_fallback then amount * foreign_fallback else usd),
           rk_from_saved_file = False\<rparr>)"

definition scan_foreign_shorts ::
    "(string \<Rightarrow> dbl) \<Rightarrow> price_cache \<Rightarrow> systime \<Rightarrow> exchange \<Rightarrow> (string \<times> position) list \<Rightarrow> recovery_candidate list" where
  "scan_foreign_shorts balance pc now foreign_ex shorts = List.map_filter (recovery_candidate_of balance pc now foreign_ex) shorts"

definition saved_candidate :: "position \<Rightarrow> recovery_candidate" where
  "saved_candidate p = \<lparr>rk_pos = p, rk_spot_balance = pos_korean_amount p, rk_short_amount = pos_foreign_amount p,
     rk_matched_amount = dmin (pos_korean_amount p) (pos_foreign_amount p),
     rk_matched_usd = (if pos_position_size_usd p \<le> 0 then pos_korean_amount p * pos_foreign_entry_price p else pos_position_size_usd p),
     rk_from_saved_file = True\<rparr>"

text \<open>What a candidate takes over from the saved position of the same symbol.\<close>

definition mark_saved :: "position \<Rightarrow> recovery_candidate \<Rightarrow> recovery_candidate" where
  "mark_saved loaded c =
    (if symbol_to_string (pos_symbol loaded) \<noteq> [] \<and> symbol_to_string (pos_symbol (rk_pos c)) = symbol_to_string (pos_symbol loaded)
     then c\<lparr>rk_from_saved_file := True,
       rk_pos := (rk_pos c)\<lparr>pos_entry_premium := pos_entry_premium loaded, pos_korean_entry_price := pos_korean_entry_price loaded,
         pos_foreign_entry_price := pos_foreign_entry_price loaded, pos_entry_time := pos_entry_time loaded,
         pos_position_size_usd := pos_position_size_usd loaded, pos_realized_pnl_krw := pos_realized_pnl_krw loaded\<rparr>\<rparr>
     else c)"

definition candidate_before :: "recovery_candidate \<Rightarrow> recovery_candidate \<Rightarrow> bool" where
  "candidate_before a b =
    (if rk_from_saved_file a \<noteq> rk_from_saved_file b then rk_from_saved_file a
     else if \<not> deq (rk_matched_usd a) (rk_matched_usd b) then rk_matched_usd b < rk_matched_usd a
     else pos_entry_premium (rk_pos a) < pos_entry_premium (rk_pos b))"

definition recovery_candidates :: "position option \<Rightarrow> recovery_candidate list \<Rightarrow> recovery_candidate list" where
  "recovery_candidates loaded scanned =
    (case loaded of None \<Rightarrow> sort_by candidate_before scanned
     | Some p \<Rightarrow>
        let all = (if list_ex (\<lambda>c. pos_symbol (rk_pos c) = pos_symbol p) scanned then scanned else scanned @ [saved_candidate p])
        in sort_by candidate_before (map (mark_saved p) all))"

definition scan_all :: "(string \<Rightarrow> dbl) \<Rightarrow> price_cache \<Rightarrow> systime \<Rightarrow> string list \<Rightarrow> position list \<Rightarrow> position list \<Rightarrow> recovery_candidate list" where
  "scan_all balance pc now common bybit_positions okx_positions =
     scan_foreign_shorts balance pc now Bybit (short_by_coin common bybit_positions) @
     scan_foreign_shorts balance pc now OKX (short_by_coin common okx_positions)"

text \<open>The number the operator types; anything else is 0.\<close>

definition recovery_choice :: "string option \<Rightarrow> int" where
  "recovery_choice line = (case line of None \<Rightarrow> 0
     | Some s \<Rightarrow> (case stoi (normalize_input s) of None \<Rightarrow> 0 | Some n \<Rightarrow> n))"

text \<open>The dialogue: both answers of the operator, and what becomes of the engine and of the file.\<close>

definition recover_position ::
    "disk \<Rightarrow> int \<Rightarrow> string option \<Rightarrow> string option \<Rightarrow> position option \<Rightarrow> recovery_candidate list \<Rightarrow> engine \<times> position_files \<Rightarrow>
     position option \<times> engine \<times> position_files" where
  "recover_position d tick yes line loaded scanned s =
    (case s of (e, fs) \<Rightarrow>
      if \<not> (case yes of None \<Rightarrow> False | Some a \<Rightarrow> is_yes_input a) then (None, e, fs)
      else let candidates = recovery_candidates loaded scanned; choice = recovery_choice line in
        if 1 \<le> choice \<and> choice \<le> int (length candidates)
        then let selected = rk_pos (candidates ! nat (choice - 1))
          in (Some selected, engine_open_position selected e, save_active_position d tick selected fs)
        else (None, e, fs))"

section \<open>Every common symbol, and subscribed on both sides\<close>

lemma set_fold_insert: "set (fold List.insert xs ys) = set xs \<union> set ys"
  by (induction xs arbitrary: ys) auto

lemma set_bases: "set (bases symbols) = get_base ` set symbols"
  by (simp add: bases_def set_fold_insert)

lemma set_korean_bases: "set (korean_bases vs) = get_base ` (set (vs_bithumb vs) \<union> set (vs_upbit vs))"
  by (auto simp: korean_bases_def set_fold_insert set_bases)

lemma set_foreign_bases: "set (foreign_bases vs) = get_base ` (set (vs_bybit vs) \<union> set (vs_okx vs))"
  by (auto simp: foreign_bases_def set_fold_insert set_bases)

lemma takeWhile_stops: "\<not> P y \<Longrightarrow> length (takeWhile P (xs @ y # ys)) \<le> length xs"
  by (induction xs) auto

lemma get_base_short: "wf_symbol s \<Longrightarrow> length (get_base s) \<le> 11 \<and> NUL \<notin> set (get_base s)"
proof -
  assume "wf_symbol s"
  then have c: "sym_base s = copy_n_padded 12 (get_base s)" unfolding wf_symbol_def by blast
  let ?n = "min (length (get_base s)) 11"
  have "sym_base s = take ?n (get_base s) @ NUL # replicate (11 - ?n) NUL"
    by (subst c) (simp add: copy_n_padded_def Let_def Suc_diff_le flip: replicate_Suc)
  then have "length (takeWhile (\<lambda>c. c \<noteq> NUL) (sym_base s)) \<le> ?n"
    using takeWhile_stops [of "\<lambda>c. c \<noteq> NUL" NUL "take ?n (get_base s)" "replicate (11 - ?n) NUL"] by simp
  then show ?thesis by (auto simp: get_base_def dest: set_takeWhileD)
qed

definition symbols_ok :: "venue_symbols \<Rightarrow> bool" where
  "symbols_ok vs \<longleftrightarrow> (\<forall>s \<in> set (vs_bithumb vs) \<union> set (vs_upbit vs) \<union> set (vs_bybit vs) \<union> set (vs_okx vs). wf_symbol s)"

lemma found_names:
  assumes "symbols_ok vs" "set order = set (korean_bases vs)" "b \<in> set order"
  shows "get_base (SymbolId b ''KRW'') = b"
proof -
  have "length b \<le> 11 \<and> NUL \<notin> set b"
    using assms get_base_short unfolding symbols_ok_def set_korean_bases by auto
  then show ?thesis using get_SymbolId(1) [of b "''KRW''"] by simp
qed

interpretation symbol_names: comparator "\<lambda>a b. symbol_to_string a < symbol_to_string b" "\<lambda>_. True"
  by unfold_locales auto

lemma common_symbols_iff:
  assumes "set order = set (korean_bases vs)"
  shows "s \<in> set (common_symbols order vs) \<longleftrightarrow> (\<exists>b. s = SymbolId b ''KRW'' \<and>
    b \<in> get_base ` (set (vs_bithumb vs) \<union> set (vs_upbit vs)) \<and> b \<in> get_base ` (set (vs_bybit vs) \<union> set (vs_okx vs)))"
  using assms by (auto simp: common_symbols_def found_symbols_def set_korean_bases set_foreign_bases)

text \<open>The list does not depend on the order of the hash set: it is sorted by names that are all different.\<close>

lemma krw_name:
  assumes "symbols_ok vs" "b \<in> set (korean_bases vs)"
  shows "symbol_to_string (SymbolId b ''KRW'') = b @ ''/KRW''"
proof -
  have "get_quote (SymbolId b ''KRW'') = ''KRW''" using get_SymbolId(2) [of "''KRW''" b] by simp
  then show ?thesis using found_names [OF assms(1) refl assms(2)] by (simp add: symbol_to_string_def)
qed

lemma krw_name_inj: "symbols_ok vs \<Longrightarrow> inj_on (\<lambda>b. symbol_to_string (SymbolId b ''KRW'')) (set (korean_bases vs))"
  by (rule inj_onI) (simp add: krw_name)

lemma common_names:
  assumes ok: "symbols_ok vs" and o: "set order = set (korean_bases vs)" "distinct order"
  shows "sorted (map symbol_to_string (common_symbols order vs))" "distinct (map symbol_to_string (common_symbols order vs))"
proof -
  show "sorted (map symbol_to_string (common_symbols order vs))"
    using symbol_names.sort_no_inversion [of "found_symbols order vs"] by (simp add: common_symbols_def sorted_wrt_map not_less)
  let ?fs = "filter (\<lambda>base. base \<in> set (foreign_bases vs)) order"
  have "inj_on (\<lambda>b. symbol_to_string (SymbolId b ''KRW'')) (set ?fs)"
    by (rule inj_on_subset [OF krw_name_inj [OF ok]]) (auto simp: o(1))
  then have "distinct (map (\<lambda>b. symbol_to_string (SymbolId b ''KRW'')) ?fs)" using o(2) by (simp only: distinct_map distinct_filter simp_thms)
  then have "distinct (map symbol_to_string (found_symbols order vs))" by (simp only: found_symbols_def map_map comp_def)
  moreover have "mset (map symbol_to_string (common_symbols order vs)) = mset (map symbol_to_string (found_symbols order vs))"
    by (simp add: common_symbols_def)
  ultimately show "distinct (map symbol_to_string (common_symbols order vs))" using mset_eq_imp_distinct_iff by blast
qed

lemma common_symbols_deterministic:
  assumes ok: "symbols_ok vs" and o1: "set order = set (korean_bases vs)" "distinct order"
    and o2: "set order' = set (korean_bases vs)" "distinct order'"
  shows "common_symbols order vs = common_symbols order' vs"
proof -
  have same: "set (common_symbols order vs) = set (common_symbols order' vs)"
    using common_symbols_iff [OF o1(1)] common_symbols_iff [OF o2(1)] by blast
  have maps: "map symbol_to_string (common_symbols order vs) = map symbol_to_string (common_symbols order' vs)"
    by (rule sorted_distinct_set_unique [OF common_names [OF ok o1] common_names [OF ok o2]]) (simp only: set_map same)
  have "inj_on symbol_to_string (set (common_symbols order vs))"
    using common_names(2) [OF ok o1] by (simp only: distinct_map)
  then have "inj_on symbol_to_string (set (common_symbols order vs) \<union> set (common_symbols order' vs))" by (simp only: same Un_absorb)
  with maps show ?thesis by (rule map_inj_on)
qed

text \<open>Each common symbol is subscribed on a Korean and on a foreign venue that lists it.\<close>

lemma subscriptions_cover:
  assumes ok: "symbols_ok vs" and o1: "set order = set (korean_bases vs)" and s: "s \<in> set (common_symbols order vs)"
  shows "s \<in> set (korean_subs (common_symbols order vs) (vs_bithumb vs)) \<or> s \<in> set (korean_subs (common_symbols order vs) (vs_upbit vs))"
    "SymbolId (get_base s) ''USDT'' \<in> set (foreign_subs (common_symbols order vs) (vs_bybit vs)) \<or>
     SymbolId (get_base s) ''USDT'' \<in> set (foreign_subs (common_symbols order vs) (vs_okx vs))"
proof -
  obtain b where b: "s = SymbolId b ''KRW''" "b \<in> get_base ` (set (vs_bithumb vs) \<union> set (vs_upbit vs))"
      "b \<in> get_base ` (set (vs_bybit vs) \<union> set (vs_okx vs))"
    using s unfolding common_symbols_iff [OF o1] by blast
  then have "get_base s = b" using found_names [OF ok o1] o1 by (simp add: set_korean_bases)
  then show "s \<in> set (korean_subs (common_symbols order vs) (vs_bithumb vs)) \<or> s \<in> set (korean_subs (common_symbols order vs) (vs_upbit vs))"
    "SymbolId (get_base s) ''USDT'' \<in> set (foreign_subs (common_symbols order vs) (vs_bybit vs)) \<or>
     SymbolId (get_base s) ''USDT'' \<in> set (foreign_subs (common_symbols order vs) (vs_okx vs))"
    using b(2,3) s by (auto simp: korean_subs_def foreign_subs_def set_bases)
qed

section \<open>Routes are refreshed source by source\<close>

lemma nested_get_put: "nested_get (nested_put ex b v m) ex' b' = (if ex' = ex \<and> b' = b then Some v else nested_get m ex' b')"
  by (auto simp: nested_get_def nested_put_def update_conv' split: option.split)

lemma nested_get_puts:
  "nested_get (fold (\<lambda>(b, v). nested_put ex b (g v)) kvs m) ex b =
    (case map_of (rev kvs) b of Some v \<Rightarrow> Some (g v) | None \<Rightarrow> nested_get m ex b)"
proof (induction kvs rule: rev_induct)
  case (snoc kv kvs)
  then show ?case by (cases kv) (simp add: nested_get_put)
qed simp

lemma nested_get_puts_other:
  "ex' \<noteq> ex \<Longrightarrow> nested_get (fold (\<lambda>(b, v). nested_put ex b (g v)) kvs m) ex' b = nested_get m ex' b"
  by (induction kvs arbitrary: m) (auto simp: nested_get_put)

lemma nested_get_delete: "nested_get (AList.delete ex m) ex' b = (if ex' = ex then None else nested_get m ex' b)"
  by (simp add: nested_get_def delete_conv')

definition canonical_fees :: "network_fee list \<Rightarrow> network_fee list" where
  "canonical_fees fees = map (\<lambda>nf. nf\<lparr>nf_network := normalize_chain (nf_network nf)\<rparr>) fees"

definition canonical_networks :: "string list \<Rightarrow> string list" where
  "canonical_networks nets = fold (\<lambda>n. List.insert (normalize_chain n)) nets []"

lemma put_fees_fields:
  "pc_withdraw_network_fees (put_fees ex got pc) = (if got = [] then pc_withdraw_network_fees pc
     else fold (\<lambda>(b, v). nested_put ex b (canonical_fees v)) got (AList.delete ex (pc_withdraw_network_fees pc)))"
  "pc_korean_withdraw_enabled (put_fees ex got pc) = pc_korean_withdraw_enabled pc"
  "pc_foreign_deposit_nets (put_fees ex got pc) = pc_foreign_deposit_nets pc"
proof -
  have "pc_withdraw_network_fees (fold (\<lambda>(coin, fees). set_withdraw_network_fees ex coin fees) xs c) =
      fold (\<lambda>(b, v). nested_put ex b (canonical_fees v)) xs (pc_withdraw_network_fees c) \<and>
    pc_korean_withdraw_enabled (fold (\<lambda>(coin, fees). set_withdraw_network_fees ex coin fees) xs c) = pc_korean_withdraw_enabled c \<and>
    pc_foreign_deposit_nets (fold (\<lambda>(coin, fees). set_withdraw_network_fees ex coin fees) xs c) = pc_foreign_deposit_nets c" for xs c
    by (induction xs arbitrary: c) (auto simp: set_withdraw_network_fees_def canonical_fees_def)
  note f = this
  show "pc_withdraw_network_fees (put_fees ex got pc) = (if got = [] then pc_withdraw_network_fees pc
     else fold (\<lambda>(b, v). nested_put ex b (canonical_fees v)) got (AList.delete ex (pc_withdraw_network_fees pc)))"
    "pc_korean_withdraw_enabled (put_fees ex got pc) = pc_korean_withdraw_enabled pc"
    "pc_foreign_deposit_nets (put_fees ex got pc) = pc_foreign_deposit_nets pc"
    by (simp_all add: put_fees_def f clear_withdraw_network_fees_def)
qed

lemma put_statuses_fields:
  "pc_withdraw_network_fees (put_statuses ex got pc) = pc_withdraw_network_fees pc"
  "pc_korean_withdraw_enabled (put_statuses ex got pc) = (if got = [] then pc_korean_withdraw_enabled pc
     else fold (\<lambda>(b, v). nested_put ex b (id v)) got (AList.delete ex (pc_korean_withdraw_enabled pc)))"
  "pc_foreign_deposit_nets (put_statuses ex got pc) = pc_foreign_deposit_nets pc"
proof -
  have "pc_korean_withdraw_enabled (fold (\<lambda>(coin, o'). set_korean_withdraw_enabled ex coin o') xs c) =
      fold (\<lambda>(b, v). nested_put ex b (id v)) xs (pc_korean_withdraw_enabled c) \<and>
    pc_withdraw_network_fees (fold (\<lambda>(coin, o'). set_korean_withdraw_enabled ex coin o') xs c) = pc_withdraw_network_fees c \<and>
    pc_foreign_deposit_nets (fold (\<lambda>(coin, o'). set_korean_withdraw_enabled ex coin o') xs c) = pc_foreign_deposit_nets c" for xs c
    by (induction xs arbitrary: c) (auto simp: set_korean_withdraw_enabled_def)
  note f = this
  show "pc_withdraw_network_fees (put_statuses ex got pc) = pc_withdraw_network_fees pc"
    "pc_korean_withdraw_enabled (put_statuses ex got pc) = (if got = [] then pc_korean_withdraw_enabled pc
     else fold (\<lambda>(b, v). nested_put ex b (id v)) got (AList.delete ex (pc_korean_withdraw_enabled pc)))"
    "pc_foreign_deposit_nets (put_statuses ex got pc) = pc_foreign_deposit_nets pc"
    by (simp_all add: put_statuses_def f clear_korean_withdraw_status_def)
qed

lemma put_networks_fields:
  "pc_withdraw_network_fees (put_networks ex got pc) = pc_withdraw_network_fees pc"
  "pc_korean_withdraw_enabled (put_networks ex got pc) = pc_korean_withdraw_enabled pc"
  "pc_foreign_deposit_nets (put_networks ex got pc) = (if got = [] then pc_foreign_deposit_nets pc
     else fold (\<lambda>(b, v). nested_put ex b (canonical_networks v)) got (AList.delete ex (pc_foreign_deposit_nets pc)))"
proof -
  have "pc_foreign_deposit_nets (fold (\<lambda>(coin, nets). set_foreign_deposit_networks ex coin nets) xs c) =
      fold (\<lambda>(b, v). nested_put ex b (canonical_networks v)) xs (pc_foreign_deposit_nets c) \<and>
    pc_withdraw_network_fees (fold (\<lambda>(coin, nets). set_foreign_deposit_networks ex coin nets) xs c) = pc_withdraw_network_fees c \<and>
    pc_korean_withdraw_enabled (fold (\<lambda>(coin, nets). set_foreign_deposit_networks ex coin nets) xs c) = pc_korean_withdraw_enabled c" for xs c
    by (induction xs arbitrary: c) (auto simp: set_foreign_deposit_networks_def canonical_networks_def)
  note f = this
  show "pc_withdraw_network_fees (put_networks ex got pc) = pc_withdraw_network_fees pc"
    "pc_korean_withdraw_enabled (put_networks ex got pc) = pc_korean_withdraw_enabled pc"
    "pc_foreign_deposit_nets (put_networks ex got pc) = (if got = [] then pc_foreign_deposit_nets pc
     else fold (\<lambda>(b, v). nested_put ex b (canonical_networks v)) got (AList.delete ex (pc_foreign_deposit_nets pc)))"
    by (simp_all add: put_networks_def f clear_foreign_deposit_networks_def)
qed

text \<open>What a source holds after a refresh: the old data when it did not answer, otherwise its answer and nothing else.\<close>

definition refreshed :: "(string \<times> 'a) list \<Rightarrow> ('a \<Rightarrow> 'v) \<Rightarrow> 'v option \<Rightarrow> string \<Rightarrow> 'v option" where
  "refreshed got g old coin = (if got = [] then old else map_option g (map_of (rev got) coin))"

lemma answers_replace_sources:
  "nested_get (pc_withdraw_network_fees (put_answers ra pc)) Bithumb coin =
     refreshed (ra_bithumb_fees ra) canonical_fees (nested_get (pc_withdraw_network_fees pc) Bithumb coin) coin"
  "nested_get (pc_withdraw_network_fees (put_answers ra pc)) Upbit coin =
     refreshed (ra_upbit_fees ra) canonical_fees (nested_get (pc_withdraw_network_fees pc) Upbit coin) coin"
  "nested_get (pc_korean_withdraw_enabled (put_answers ra pc)) Bithumb coin =
     refreshed (ra_bithumb_statuses ra) id (nested_get (pc_korean_withdraw_enabled pc) Bithumb coin) coin"
  "nested_get (pc_foreign_deposit_nets (put_answers ra pc)) Bybit coin =
     refreshed (ra_bybit_nets ra) canonical_networks (nested_get (pc_foreign_deposit_nets pc) Bybit coin) coin"
  "nested_get (pc_foreign_deposit_nets (put_answers ra pc)) OKX coin =
     refreshed (ra_okx_nets ra) canonical_networks (nested_get (pc_foreign_deposit_nets pc) OKX coin) coin"
  unfolding put_answers_def Let_def put_fees_fields put_statuses_fields put_networks_fields refreshed_def
  by (auto simp: nested_get_puts nested_get_puts_other nested_get_delete split: option.split)

text \<open>After a refresh with an answer the routes on offer are those of the new data.\<close>

lemma refresh_publishes_routes:
  assumes "ra_bithumb_fees ra \<noteq> [] \<or> ra_bithumb_statuses ra \<noteq> [] \<or> ra_upbit_fees ra \<noteq> [] \<or> ra_bybit_nets ra \<noteq> [] \<or> ra_okx_nets ra \<noteq> []"
  shows "en_prices (refresh_transfer_routes now_ms now ra e) = finalize_withdraw_fees now_ms (put_answers ra (en_prices e))"
  using assms by (simp add: refresh_transfer_routes_def Let_def refresh_entry_filters_def bump_update_seq_def)

text \<open>A coin that the answer of Bithumb leaves out is no longer on offer from there.\<close>

lemma missing_coin_closed:
  assumes "ra_bithumb_fees ra \<noteq> []" "coin \<notin> fst ` set (ra_bithumb_fees ra)"
  shows "\<not> is_transfer_route_available (en_prices (refresh_transfer_routes now_ms now ra e)) Bithumb f coin"
proof
  assume a: "is_transfer_route_available (en_prices (refresh_transfer_routes now_ms now ra e)) Bithumb f coin"
  have e: "en_prices (refresh_transfer_routes now_ms now ra e) = finalize_withdraw_fees now_ms (put_answers ra (en_prices e))"
    using assms(1) by (intro refresh_publishes_routes) blast
  obtain fees where "nested_get (pc_withdraw_network_fees (put_answers ra (en_prices e))) Bithumb coin = Some fees"
    using transfer_route_cheapest [OF a [unfolded e]] by blast
  moreover have "map_of (rev (ra_bithumb_fees ra)) coin = None" using assms(2) by (simp add: map_of_eq_None_iff)
  ultimately show False using assms(1) by (simp add: answers_replace_sources refreshed_def)
qed

section \<open>What is recovered\<close>

lemma update_entry: "x \<in> set (AList.update k v m) \<Longrightarrow> x = (k, v) \<or> x \<in> set m"
  by (induction m) (auto split: if_splits)

lemma short_by_coin_from:
  assumes "(coin, p) \<in> set (short_by_coin common positions)"
  shows "p \<in> set positions \<and> coin = get_base (pos_symbol p) \<and> coin \<in> set common"
proof -
  have "(coin, p) \<in> set m \<or> p \<in> set ps \<and> coin = get_base (pos_symbol p) \<and> coin \<in> set common"
    if "(coin, p) \<in> set (fold (note_short common) ps m)" for ps m
    using that
  proof (induction ps arbitrary: m)
    case (Cons q ps)
    then consider "(coin, p) \<in> set (note_short common q m)" | "p \<in> set ps \<and> coin = get_base (pos_symbol p) \<and> coin \<in> set common" by auto
    then show ?case
      by cases (auto simp: note_short_def Let_def dest!: update_entry split: if_splits option.splits)
  qed simp
  moreover have "(coin, p) \<notin> set []" by simp
  ultimately show ?thesis using assms unfolding short_by_coin_def by blast
qed

text \<open>
  A position with equal legs above dust, which are the smaller of the Korean balance and a short the venue reports, and
  so never more than either.
\<close>

definition matched_legs :: "(string \<Rightarrow> dbl) \<Rightarrow> string list \<Rightarrow> exchange \<Rightarrow> position list \<Rightarrow> position \<Rightarrow> bool" where
  "matched_legs balance common foreign_ex shorts p \<longleftrightarrow> (\<exists>q \<in> set shorts. let coin = get_base (pos_symbol q) in
     coin \<in> set common \<and> pos_symbol p = SymbolId coin ''KRW'' \<and> pos_korean_exchange p = Bithumb \<and> pos_foreign_exchange p = foreign_ex \<and>
     pos_foreign_amount p = pos_korean_amount p \<and> pos_korean_amount p = dmin (balance coin) (pos_foreign_amount q) \<and>
     \<not> pos_korean_amount p \<le> DUST \<and> \<not> balance coin < pos_korean_amount p \<and> \<not> pos_foreign_amount q < pos_korean_amount p)"

lemma dmin_bounds: "\<not> a < dmin a b" "\<not> b < dmin a b"
  by (auto simp: dmin_def dest: dbl_lt_not_le dbl_lt_le)

lemma dmin_not_le: "\<not> a \<le> c \<Longrightarrow> \<not> b \<le> c \<Longrightarrow> \<not> dmin a b \<le> (c :: dbl)"
  by (simp add: dmin_def)

lemma scanned_matched:
  assumes "c \<in> set (scan_foreign_shorts balance pc now foreign_ex (short_by_coin common shorts))"
  shows "matched_legs balance common foreign_ex shorts (rk_pos c)"
proof -
  obtain coin q where q: "(coin, q) \<in> set (short_by_coin common shorts)" and c: "recovery_candidate_of balance pc now foreign_ex (coin, q) = Some c"
    using assms by (auto simp: scan_foreign_shorts_def List.map_filter_def)
  have h: "\<not> balance coin \<le> DUST" "\<not> pos_foreign_amount q \<le> DUST" using c by (auto simp: recovery_candidate_of_def Let_def split: if_splits)
  have p: "pos_symbol (rk_pos c) = SymbolId coin ''KRW''" "pos_korean_exchange (rk_pos c) = Bithumb" "pos_foreign_exchange (rk_pos c) = foreign_ex"
    "pos_korean_amount (rk_pos c) = dmin (balance coin) (pos_foreign_amount q)" "pos_foreign_amount (rk_pos c) = pos_korean_amount (rk_pos c)"
    using c h by (auto simp: recovery_candidate_of_def Let_def)
  show ?thesis
    using short_by_coin_from [OF q] p dmin_bounds dmin_not_le [OF h] unfolding matched_legs_def Let_def by (intro bexI [of _ q]) auto
qed

lemma mark_saved_keeps [simp]:
  "pos_symbol (rk_pos (mark_saved p c)) = pos_symbol (rk_pos c)" "pos_korean_exchange (rk_pos (mark_saved p c)) = pos_korean_exchange (rk_pos c)"
  "pos_foreign_exchange (rk_pos (mark_saved p c)) = pos_foreign_exchange (rk_pos c)"
  "pos_korean_amount (rk_pos (mark_saved p c)) = pos_korean_amount (rk_pos c)"
  "pos_foreign_amount (rk_pos (mark_saved p c)) = pos_foreign_amount (rk_pos c)"
  by (simp_all add: mark_saved_def)

lemma mark_saved_matched: "matched_legs balance common ex shorts (rk_pos c) \<Longrightarrow> matched_legs balance common ex shorts (rk_pos (mark_saved p c))"
  by (simp add: matched_legs_def)

lemma mark_saved_itself: "rk_pos (mark_saved p (saved_candidate p)) = p"
  by (simp add: mark_saved_def saved_candidate_def)

lemma recovery_candidates_from:
  assumes "c \<in> set (recovery_candidates loaded scanned)"
  shows "loaded = Some (rk_pos c) \<or> c \<in> set scanned \<or> (\<exists>p. \<exists>c' \<in> set scanned. loaded = Some p \<and> c = mark_saved p c')"
  using assms mark_saved_itself by (auto simp: recovery_candidates_def Let_def split: option.splits if_splits)

text \<open>
  C29. Recovery never makes a position up: what the operator recovers is the position of the file, or one whose equal
  legs are the smaller of the Bithumb balance and the short of a common coin at Bybit or OKX, above dust and never more
  than either; it is opened in the engine and saved to the file.
\<close>

theorem recovery_matches_venues:
  assumes "recover_position d tick yes line loaded (scan_all balance pc now common bybit_shorts okx_shorts) (e, fs) = (Some p, e', fs')"
  shows "(loaded = Some p \<or> matched_legs balance common Bybit bybit_shorts p \<or> matched_legs balance common OKX okx_shorts p) \<and>
    e' = engine_open_position p e \<and> fs' = save_active_position d tick p fs"
proof -
  let ?scanned = "scan_all balance pc now common bybit_shorts okx_shorts"
  let ?cs = "recovery_candidates loaded ?scanned"
  obtain n where n: "n < length ?cs" "p = rk_pos (?cs ! n)" and r: "e' = engine_open_position p e" "fs' = save_active_position d tick p fs"
  proof (rule that [of "nat (recovery_choice line - 1)"])
    show "nat (recovery_choice line - 1) < length ?cs" "p = rk_pos (?cs ! nat (recovery_choice line - 1))"
      "e' = engine_open_position p e" "fs' = save_active_position d tick p fs"
      using assms by (auto simp: recover_position_def Let_def split: if_splits)
  qed
  have "matched_legs balance common Bybit bybit_shorts (rk_pos c) \<or> matched_legs balance common OKX okx_shorts (rk_pos c)" if "c \<in> set ?scanned" for c
    using that scanned_matched by (auto simp: scan_all_def)
  then have "loaded = Some (rk_pos c) \<or> matched_legs balance common Bybit bybit_shorts (rk_pos c) \<or> matched_legs balance common OKX okx_shorts (rk_pos c)"
    if "c \<in> set ?cs" for c
    using recovery_candidates_from [OF that] mark_saved_matched by metis
  from this [OF nth_mem [OF n(1)]] show ?thesis using r by (simp only: n(2) [symmetric] simp_thms)
qed

text \<open>
  A saved position is offered only if no candidate has its symbol, so a short of the same coin at another venue, or a
  balance on Bithumb when the position is on Upbit, hides it.
\<close>

lemma saved_position_hidden:
  assumes "c \<in> set scanned" "pos_symbol (rk_pos c) = pos_symbol p" "x \<in> set (recovery_candidates (Some p) scanned)"
  shows "\<exists>c' \<in> set scanned. pos_korean_exchange (rk_pos x) = pos_korean_exchange (rk_pos c') \<and>
    pos_foreign_exchange (rk_pos x) = pos_foreign_exchange (rk_pos c')"
proof -
  have "list_ex (\<lambda>c. pos_symbol (rk_pos c) = pos_symbol p) scanned" using assms(1,2) by (auto simp: list_ex_iff)
  then show ?thesis using assms(3) by (auto simp: recovery_candidates_def Let_def)
qed

section \<open>A recovery for the witness\<close>

definition sample_engine :: engine where
  "sample_engine = wire_pairs True (engine_init demo_signal demo_exit)"

definition sample_short :: position where
  "sample_short = position_default\<lparr>pos_symbol := SymbolId ''BTC'' ''USDT'', pos_foreign_exchange := OKX, pos_foreign_amount := Fin 2\<rparr>"

definition sample_disk :: disk where
  "sample_disk = \<lparr>dk_directory = True, dk_open = True, dk_room = 1000, dk_rename = True\<rparr>"

definition sample_recovery :: "position option \<times> engine \<times> position_files" where
  "sample_recovery = recover_position sample_disk 1000 (Some ''yes'') (Some '' 1 '') None
     (scan_all (\<lambda>coin. Fin 3) price_cache_init 0 [''BTC''] [] [sample_short]) (sample_engine, \<lparr>pf_active = None, pf_tmp = None\<rparr>)"

lemma sample_recovery_found: "\<exists>p. fst sample_recovery = Some p \<and> pos_korean_amount p = Fin 2"
proof -
  have d: "\<not> Fin 3 \<le> DUST" "\<not> Fin 2 \<le> DUST" by (simp_all add: DUST_def dbl_eval)
  have b: "get_base (SymbolId ''BTC'' ''USDT'') = ''BTC''" using get_SymbolId(1) [of "''BTC''" "''USDT''"] by simp
  have y: "is_yes_input ''yes''" "recovery_choice (Some '' 1 '') = 1"
    by code_simp+
  have "\<exists>c. scan_all (\<lambda>coin. Fin 3) price_cache_init 0 [''BTC''] [] [sample_short] = [c] \<and> pos_korean_amount (rk_pos c) = Fin 2"
    using d by (simp add: scan_all_def short_by_coin_def note_short_def sample_short_def b position_default_def scan_foreign_shorts_def
        recovery_candidate_of_def Let_def map_filter_simps dmin_def)
  then show ?thesis by (auto simp: sample_recovery_def recover_position_def y recovery_candidates_def Let_def)
qed

theorem recovery_matches_venues_witness:
  "\<exists>p. fst sample_recovery = Some p \<and> pos_korean_amount p = Fin 2 \<and> matched_legs (\<lambda>coin. Fin 3) [''BTC''] OKX [sample_short] p \<and>
    fst (snd sample_recovery) = engine_open_position p sample_engine"
proof -
  obtain p where f: "fst sample_recovery = Some p" "pos_korean_amount p = Fin 2" using sample_recovery_found by blast
  obtain e' fs' where p: "sample_recovery = (Some p, e', fs')" using f(1) by (metis prod.collapse)
  have none: "\<not> matched_legs (\<lambda>coin. Fin 3) [''BTC''] Bybit [] p" by (simp add: matched_legs_def)
  from recovery_matches_venues [OF p [unfolded sample_recovery_def]] none
  have "matched_legs (\<lambda>coin. Fin 3) [''BTC''] OKX [sample_short] p" "e' = engine_open_position p sample_engine" by blast+
  moreover have "fst (snd sample_recovery) = e'" unfolding p by simp
  ultimately show ?thesis using f by blast
qed

end
