(* ===== verification/Spec2Isabelle.thy ===== *)
theory Spec2Isabelle
  imports Prelude Binary64 Chars Types Bitset Premium Selection RingBuffer Executor PriceCache Positions Quotes Engine EngineRun
    EngineGuards Monitor MonitorRun Dispatch Orders EntryLoop ExitLoop LifecycleRun Scanner ScannerRun
    Json SampleJson Crypto Decimal TextSearch BithumbFeed BithumbBook BithumbRun RestClient Account BithumbOrders
    BybitTrade Bybit BybitOrders BybitSafety Upbit UpbitOrders VenueRun OrderSocket Calendar OkxTrade Okx OkxOrders OkxSafety OkxRun WsClient WsWriter ConnPool LatencyProbe ProbeQueue ProbeSafety
    Config PositionFile Startup
begin

text \<open>
  A model of the spot relay arbitrage bot (\<^verbatim>\<open>src/kimp_arb_cpp\<close>) and the theorems that make its
  trading core correct.

  \<^bold>\<open>The program.\<close> The bot buys a coin on a Korean venue (Bithumb, Upbit) and sells the same
  amount short on a foreign one (Bybit, OKX) when the Korean price in KRW is below the foreign
  price in USDT times the USDT/KRW rate, and closes both legs when the premium has come back.
  Tickers arrive from the exchange adapters at the engine, which keeps the last quotes in a
  sharded cache, keeps an incremental entry cache with two bitmaps, selects candidates and
  calls the entry callback of the main program. The callback claims one of \<^verbatim>\<open>MAX_POSITIONS\<close>
  slots and queues a task; a worker of the lifecycle executor runs it in the order manager,
  whose loop opens, watches and closes the position in splits until it is told to stop. Positions
  and profit are booked in the trackers of the engine.

  \<^bold>\<open>Theories and sources.\<close> Paths are below \<^verbatim>\<open>src/kimp_arb_cpp\<close>; definitions keep the source's
  names, with a prefix where a name is taken.
  \<^item> \<open>Prelude\<close>: shared lemmas on lists, words and association lists, and the theorem collections.
  \<^item> \<open>Binary64\<close>: IEEE double arithmetic with rounding to nearest even, infinities and NaN, as an
    executable type \<open>dbl\<close>. One zero stands for both signed zeros. All prices and amounts are \<open>dbl\<close>.
  \<^item> \<open>Chars\<close>: the C character classes and the number parsing of \<^verbatim>\<open>include/kimp/core/optimization.hpp\<close>.
  \<^item> \<open>Types\<close> (\<^verbatim>\<open>include/kimp/core/types.hpp\<close>): enums, symbols and their venue formats, tickers, orders,
    positions, signals, and the constants, fee rates and entry gate of \<^verbatim>\<open>TradingConfig\<close>.
  \<^item> \<open>Bitset\<close> (\<^verbatim>\<open>include/kimp/memory/atomic_bitset.hpp\<close>), \<open>RingBuffer\<close> (\<^verbatim>\<open>include/kimp/memory/ring_buffer.hpp\<close>),
    \<open>Executor\<close> (\<^verbatim>\<open>include/kimp/execution/lifecycle_executor.hpp\<close>): the lock-free containers on 64-bit words.
  \<^item> \<open>Premium\<close> (\<^verbatim>\<open>include/kimp/strategy/arbitrage_engine.hpp\<close>, \<^verbatim>\<open>include/kimp/core/simd_premium.hpp\<close>): premiums,
    relay metrics with all fees, and the scalar, AVX2 and NEON batch loops.
  \<^item> \<open>Selection\<close> (\<^verbatim>\<open>include/kimp/strategy/entry_selection_bitmap.hpp\<close>): the choice of symbols in one scan.
  \<^item> \<open>PriceCache\<close>, \<open>Positions\<close> (\<^verbatim>\<open>include/kimp/strategy/arbitrage_engine.hpp\<close>): quotes, rates, transfer routes,
    the position tracker and the capital tracker.
  \<^item> \<open>Quotes\<close>: the quote guards of the engine and of the order manager.
  \<^item> \<open>Engine\<close>, \<open>EngineGuards\<close>, \<open>Monitor\<close> (\<^verbatim>\<open>src/strategy/arbitrage_engine.cpp\<close>): the record \<open>engine\<close> is the
    class \<^verbatim>\<open>ArbitrageEngine\<close>, one definition per handler; \<open>engine_step\<close> and \<open>reachable\<close> are its call
    sequences. \<open>Monitor\<close> holds the read-only views.
  \<^item> \<open>Dispatch\<close> (\<^verbatim>\<open>src/main.cpp\<close>): the entry callback, the slots and the lifecycle handler, as threads
    that take one atomic access per step (\<open>system_step\<close>).
  \<^item> \<open>Orders\<close>, \<open>EntryLoop\<close>, \<open>ExitLoop\<close> (\<^verbatim>\<open>src/execution/order_manager.cpp\<close>): the record \<open>order_manager\<close> with its
    single orders, queries, corrections and safety checks, and the two lifecycles.
  \<^item> \<open>Scanner\<close> (\<^verbatim>\<open>src/strategy/spot_relay_scanner.cpp\<close>): the stand-alone scan of both venues' public documents.
  \<^item> \<open>TextSearch\<close>, \<open>Json\<close>, \<open>Crypto\<close> (\<^verbatim>\<open>include/kimp/utils/crypto.hpp\<close>), \<open>Decimal\<close>
    (\<^verbatim>\<open>include/kimp/core/price_format.hpp\<close>): searches in messages, the calls of the JSON library, encodings, decimal text.
  \<^item> \<open>RestClient\<close> (\<^verbatim>\<open>src/exchange/rest_client.cpp\<close>), \<open>Account\<close> (\<^verbatim>\<open>include/kimp/exchange/exchange_base.hpp\<close>): signed
    calls with their attempts, and the cache of fills, shared by the trading sides of the adapters.
  \<^item> \<open>BithumbFeed\<close>, \<open>BithumbBook\<close>, \<open>BithumbOrders\<close> (\<^verbatim>\<open>src/exchange/bithumb.cpp\<close>): the order books of the feed, the
    theorems on them, and the trading side.
  \<^item> \<open>OrderSocket\<close>: the promises of the two trading sockets. \<open>BybitTrade\<close> (\<^verbatim>\<open>src/exchange/bybit_trade_ws.cpp\<close>), \<open>Bybit\<close>,
    \<open>BybitOrders\<close>, \<open>BybitSafety\<close> (\<^verbatim>\<open>src/exchange/bybit.cpp\<close>): the trading socket, the feed, the trading side and its safety.
  \<^item> \<open>Calendar\<close>, \<open>OkxTrade\<close> (\<^verbatim>\<open>src/exchange/okx_trade_ws.cpp\<close>), \<open>Okx\<close>, \<open>OkxOrders\<close>, \<open>OkxSafety\<close> (\<^verbatim>\<open>src/exchange/okx.cpp\<close>): the
    time stamps of requests and the same parts of the OKX adapter.
  \<^item> \<open>Upbit\<close>, \<open>UpbitOrders\<close> (\<^verbatim>\<open>src/exchange/upbit.cpp\<close>): the compressed feed and the trading side.
  \<^item> \<open>WsClient\<close>, \<open>WsWriter\<close> (\<^verbatim>\<open>src/network/websocket_client.cpp\<close>): the client as an event-driven state machine
    (\<open>ws_reach\<close>), and its lock-free writer one access per step (\<open>writer_reach\<close>). \<open>ConnPool\<close>
    (\<^verbatim>\<open>include/kimp/network/connection_pool.hpp\<close>): the pool and the guards of its threads (\<open>pool_reach\<close>).
  \<^item> \<open>LatencyProbe\<close>, \<open>ProbeQueue\<close>, \<open>ProbeSafety\<close> (\<^verbatim>\<open>src/core/latency_probe.cpp\<close>): the choice of the clock, the events and
    their output, recording threads, exporter and \<^verbatim>\<open>stop\<close> with one access per step, and what they guarantee.
  \<^item> \<open>Config\<close> (\<^verbatim>\<open>src/core/dotenv.cpp\<close>, \<^verbatim>\<open>src/core/config.cpp\<close>, \<^verbatim>\<open>src/main.cpp\<close>): the environment file, the command line
    and both loaders of the configuration file.
  \<^item> \<open>PositionFile\<close>, \<open>Startup\<close> (\<^verbatim>\<open>src/main.cpp\<close>): the file of the open position and the trade log; the pairs and
    symbols of the engine, the refresh of the transfer routes and the recovery of a position.
  \<^item> \<open>EngineRun\<close>, \<open>MonitorRun\<close>, \<open>LifecycleRun\<close>, \<open>ScannerRun\<close>, \<open>BithumbRun\<close>, \<open>VenueRun\<close>, \<open>OkxRun\<close>: concrete runs, which are the
    witnesses; \<open>SampleJson\<close> is the JSON library they use.

  \<^bold>\<open>Parameters.\<close> What the venues answer, how long pauses take and what other threads change
  during them is the record \<open>venues\<close>, an argument of every order manager definition; no theorem
  restricts it except where it says so. The JSON library and the REST clients of the scanner are the
  records \<open>json_api\<close> and \<open>scan_env\<close>, equally unrestricted. To the adapters the world is the record \<open>outside\<close>
  (digests, random bytes and clocks) with the line that answers or breaks, zlib is the record \<open>zlib\<close>, the YAML library
  \<open>yaml_api\<close>, the files \<open>file_system\<close>, and sockets and TLS under
  the network clients are the environment steps of their step relations. \<^verbatim>\<open>MAX_POSITIONS\<close>, clocks and the SIMD build are arguments.

  \<^bold>\<open>Interfaces.\<close> \<open>bounded_queue\<close> (interpreted by both ring buffers), \<open>index_set\<close> (the bitset), the quote store of
  \<open>PriceCache\<close>, \<open>position_store\<close> (the tracker), \<open>rounding\<close> (interpreted by the rounding of \<open>Binary64\<close>), \<open>order_frame\<close> and
  \<open>ledger_frame\<close> (what order calls leave alone, interpreted for reports, shorts and connections),
  \<open>price_order\<close> (a side of an order book, interpreted for bids and asks), \<open>fill_stream\<close> (a private stream that fills the
  cache, interpreted for Bithumb, Bybit and OKX), \<open>order_socket\<close> (a handler of messages that settles promises, interpreted
  for Bybit and OKX),
  \<open>best_scan\<close> (scans that keep the best offer, interpreted by the comparison of exchange pairs) and
  \<open>comparator\<close> (sort orders, interpreted by the order of the blocked symbols and that of the scanner's
  report; the order by premium of the entry selection is an instance).

  \<^bold>\<open>What is shown.\<close>
  \<^item> Lifecycles: for any behaviour of the venues a position is hedged whenever it is reported, or
    the manager has stopped and says so; shorts open only above the profit floor; the exit result
    is truthful; a failed Korean sale is retried at most five times; both loops end when the
    pauses run out or the stop request comes.
  \<^item> Engine: signals are sound and never exceed the free slots; a scan fires what was selected;
    exit scans are exact; the exchange rate moves only through the jump filter; the monitor shows
    what the engine would trade; blocked symbols are listed exactly.
  \<^item> Dispatch: slots are never oversubscribed and a suppression of entries is always lifted, in
    every interleaving.
  \<^item> Data structures: the queues are bounded queues across the wrap-around of their positions, the
    executor runs accepted tasks once and in order, the cache reads its last update, routes are
    open and cheapest, the tracker counts exactly.
  \<^item> Scanner: the report has every common coin once, the best first; what it calls enterable covers
    its fees, and the networks it shows are open on both sides.
  \<^item> Adapters: the order books stay sorted and the best prices are their tops; a depth message refines a map update; a
    request goes out at most three times; an order reaches the wire with exactly its quantity, except the Upbit purchase,
    whose cost loses its trailing zeros; the promises of the trading socket are settled once; the Upbit handler hangs
    exactly on streams that never end.
  \<^item> Network: a client that should be connected never stalls, its messages leave in order, and no pooled connection
    is held twice.
  \<^item> Latency probe: every accepted event is in a queue, in the batch or written, once, and \<^verbatim>\<open>stop\<close> has them all written.
  \<^item> Configuration: trading never starts without credentials; the environment file only adds; a variable that holds
    its own placeholder makes the second loader, which only tests call, run for ever.
  \<^item> Start-up: whatever interrupts a save, the next start finds the old position or the new one, exactly; a recovered
    position is the saved one or one both venues hold; the common symbols are subscribed on both sides; a refresh
    replaces the data of each source that answered.
  \<^item> Numbers: the gate and thresholds imply the price relations on rounded doubles; the vector
    loops equal the scalar loop bit for bit, or keep its sign; formats round-trip.

  \<^bold>\<open>Bounds.\<close> The lifecycle loops are \<open>while_option\<close>, so a run that does not return is \<open>None\<close>, and the
  termination theorems show \<open>Some\<close> when every pause uses up a finite supply (\<open>pauses_run_out\<close>). The
  retries are five, as in the code; so are the three attempts of a request, the numbers of fill queries and the 256
  places of a write queue. A worker loop has fuel; more than the queue's capacity is enough
  once the executor has stopped. The fill queries, which the code runs on two threads, are run one
  after the other in the order of their dispatch. Calls of the containers are whole steps.

  \<^bold>\<open>Not modelled.\<close> The broadcast server; the sockets, TLS and the
  JSON parsing, which are third-party libraries (the theorems hold for any answers); the split logs and the JSON
  export, the console, logging and thread pinning, all of which are output or calls of the system around the modelled parts. The
  memory orderings of atomics are taken as sequentially consistent.
\<close>

end
